(* ===== verification/Hub_Prelude.thy ===== *)
theory Hub_Prelude
  imports Main "HOL-Library.Word"
begin

text \<open>
  Shared vocabulary of the development: the result type of fallible operations, the
  transaction wrapper of the state facades, and the reading of SQL statements over tables
  kept as lists of rows (in row order): \<open>UPDATE ... WHERE\<close> with its row count, the
  existence test \<open>SELECT 1 ... LIMIT 1\<close> and the \<open>ORDER BY ... LIMIT 1\<close> choice.
  The collections declared here gather the facts that \<open>auto\<close> needs in every component.
\<close>

named_theorems table_simps \<open>row-level facts about updates and selections\<close>
named_theorems wf_intros \<open>well-formedness is kept by an operation\<close>

section \<open>Results, errors, transactions\<close>

text \<open>
  A fallible operation returns \<open>Inl\<close> of the error or \<open>Inr\<close> of its value. An operation on
  a state returns the state as well: what the database holds after the call, whether the
  call returned or raised.
\<close>

type_synonym ('e, 's, 'a) outcome = "('e + 'a) \<times> 's"

text \<open>
  The body of a transaction yields an error or a value with the new state. The wrapper
  commits the new state or, when the body raised, keeps the old one (rollback).
\<close>

definition transact :: "('s \<Rightarrow> 'e + ('a \<times> 's)) \<Rightarrow> 's \<Rightarrow> ('e, 's, 'a) outcome" where
  "transact body s =
     (case body s of
        Inl e \<Rightarrow> (Inl e, s)
      | Inr (a, s') \<Rightarrow> (Inr a, s'))"

lemma transact_Inl [simp]: "body s = Inl e \<Longrightarrow> transact body s = (Inl e, s)"
  by (simp add: transact_def)

lemma transact_Inr [simp]: "body s = Inr (a, s') \<Longrightarrow> transact body s = (Inr a, s')"
  by (simp add: transact_def)

lemma transact_cases:
  assumes "transact body s = (r, s')"
  obtains (rolled_back) e where "body s = Inl e" "r = Inl e" "s' = s"
        | (committed) a where "body s = Inr (a, s')" "r = Inr a"
  using assms by (auto simp: transact_def split: sum.splits prod.splits)

text \<open>
  An operation that checks its row count after the commit: the transaction's changes stay
  even when the check then raises.
\<close>

definition commit_then :: "('s \<Rightarrow> 'e + ('a \<times> 's)) \<Rightarrow> ('a \<Rightarrow> 's \<Rightarrow> 'e + 'b) \<Rightarrow> 's \<Rightarrow> ('e, 's, 'b) outcome" where
  "commit_then body finish s =
     (case body s of
        Inl e \<Rightarrow> (Inl e, s)
      | Inr (a, s') \<Rightarrow> (finish a s', s'))"

lemma commit_then_cases:
  assumes "commit_then body finish s = (r, s')"
  obtains (rolled_back) e where "body s = Inl e" "r = Inl e" "s' = s"
        | (committed) a where "body s = Inr (a, s')" "r = finish a s'"
  using assms by (auto simp: commit_then_def split: sum.splits prod.splits)

text \<open>Sequencing of fallible steps, and of a step for every element of a list.\<close>

definition attempt :: "'e + 'a \<Rightarrow> ('a \<Rightarrow> 'e + 'b) \<Rightarrow> 'e + 'b" where
  "attempt x f = (case x of Inl e \<Rightarrow> Inl e | Inr a \<Rightarrow> f a)"

lemma attempt_simps [simp]: "attempt (Inl e) f = Inl e" "attempt (Inr a) f = f a"
  by (simp_all add: attempt_def)

lemma attempt_Inr: "attempt x f = Inr b \<longleftrightarrow> (\<exists>a. x = Inr a \<and> f a = Inr b)"
  by (cases x) auto

definition check :: "bool \<Rightarrow> 'e \<Rightarrow> 'e + unit" where
  "check ok e = (if ok then Inr () else Inl e)"

lemma check_Inr [simp]: "check ok e = Inr u \<longleftrightarrow> ok"
  by (simp add: check_def)

lemma attempt_check: "attempt (check ok e) f = (if ok then f () else Inl e)"
  by (simp add: check_def)

fun collect :: "('a \<Rightarrow> 'e + 'b) \<Rightarrow> 'a list \<Rightarrow> 'e + 'b list" where
  "collect f [] = Inr []"
| "collect f (x # xs) = attempt (f x) (\<lambda>y. attempt (collect f xs) (\<lambda>ys. Inr (y # ys)))"

text \<open>A step repeated over a list of rows, threading the state.\<close>

fun each_row :: "('a \<Rightarrow> 's \<Rightarrow> 'e + 's) \<Rightarrow> 'a list \<Rightarrow> 's \<Rightarrow> 'e + 's" where
  "each_row f [] s = Inr s"
| "each_row f (x # xs) s = attempt (f x s) (each_row f xs)"

lemma each_row_invariant:
  "each_row f xs s = Inr s' \<Longrightarrow> P s \<Longrightarrow> (\<And>x s s'. x \<in> set xs \<Longrightarrow> f x s = Inr s' \<Longrightarrow> P s \<Longrightarrow> P s') \<Longrightarrow> P s'"
proof (induction xs arbitrary: s)
  case (Cons x xs)
  then obtain t where t: "f x s = Inr t" "each_row f xs t = Inr s'"
    by (auto simp: attempt_Inr)
  have "P t" using Cons.prems(3) [OF _ t(1) Cons.prems(2)] by simp
  then show ?case using Cons.IH [OF t(2)] Cons.prems(3) by (metis list.set_intros(2))
qed simp

section \<open>Tables as lists of rows\<close>

text \<open>\<open>UPDATE t SET f WHERE p\<close>, and its \<open>cursor.rowcount\<close>.\<close>

definition update_where :: "('r \<Rightarrow> bool) \<Rightarrow> ('r \<Rightarrow> 'r) \<Rightarrow> 'r list \<Rightarrow> 'r list" where
  "update_where p f rows = map (\<lambda>r. if p r then f r else r) rows"

definition count_where :: "('r \<Rightarrow> bool) \<Rightarrow> 'r list \<Rightarrow> nat" where
  "count_where p rows = length (filter p rows)"

definition exists_row :: "('r \<Rightarrow> bool) \<Rightarrow> 'r list \<Rightarrow> bool" where
  "exists_row p rows = list_ex p rows"

lemma update_where_Nil [table_simps]: "update_where p f [] = []"
  by (simp add: update_where_def)

lemma update_where_Cons [table_simps]:
  "update_where p f (r # rows) = (if p r then f r else r) # update_where p f rows"
  by (simp add: update_where_def)

lemma length_update_where [simp]: "length (update_where p f rows) = length rows"
  by (simp add: update_where_def)

lemma set_update_where:
  "set (update_where p f rows) = (\<lambda>r. if p r then f r else r) ` set rows"
  by (simp add: update_where_def)

lemma exists_row_iff: "exists_row p rows \<longleftrightarrow> (\<exists>r \<in> set rows. p r)"
  by (simp add: exists_row_def list_ex_iff)

lemma count_where_pos: "0 < count_where p rows \<longleftrightarrow> exists_row p rows"
  by (auto simp: count_where_def exists_row_iff filter_empty_conv)

lemma count_where_0: "count_where p rows = 0 \<longleftrightarrow> \<not> exists_row p rows"
  using count_where_pos [of p rows] by linarith

lemma update_where_none: "\<not> exists_row p rows \<Longrightarrow> update_where p f rows = rows"
  by (auto simp: update_where_def exists_row_iff intro!: map_idI)

text \<open>A column the update keeps is unchanged in every row, in order.\<close>

lemma map_update_where:
  "(\<And>r. p r \<Longrightarrow> g (f r) = g r) \<Longrightarrow> map g (update_where p f rows) = map g rows"
  by (induction rows) (auto simp: update_where_def)

text \<open>
  \<open>SELECT ... WHERE p ORDER BY key LIMIT 1\<close>: among the rows that satisfy \<open>p\<close>, the first
  with the least key.
\<close>

fun first_by :: "('r \<Rightarrow> 'r \<Rightarrow> bool) \<Rightarrow> ('r \<Rightarrow> bool) \<Rightarrow> 'r list \<Rightarrow> 'r option" where
  "first_by le p [] = None"
| "first_by le p (r # rows) =
     (case first_by le p rows of
        None \<Rightarrow> if p r then Some r else None
      | Some b \<Rightarrow> if p r \<and> le r b then Some r else Some b)"

lemma first_by_Some:
  "first_by le p rows = Some r \<Longrightarrow> r \<in> set rows \<and> p r"
  by (induction rows arbitrary: r) (auto split: option.splits if_splits)

lemma first_by_None: "first_by le p rows = None \<longleftrightarrow> \<not> exists_row p rows"
  by (induction rows) (auto simp: exists_row_iff split: option.splits)

lemma first_by_least:
  assumes "\<And>a b. le a b \<or> le b a" and "\<And>a b c. le a b \<Longrightarrow> le b c \<Longrightarrow> le a c"
  shows "first_by le p rows = Some r \<Longrightarrow> q \<in> set rows \<Longrightarrow> p q \<Longrightarrow> le r q"
proof (induction rows arbitrary: r q)
  case Nil
  then show ?case by simp
next
  case (Cons x rows)
  show ?case
  proof (cases "first_by le p rows")
    case None
    then have "\<forall>y \<in> set rows. \<not> p y"
      by (simp add: first_by_None exists_row_iff)
    with Cons.prems None show ?thesis
      using assms(1) by (auto split: if_splits)
  next
    case (Some b)
    then have least: "\<And>y. y \<in> set rows \<Longrightarrow> p y \<Longrightarrow> le b y"
      using Cons.IH by blast
    with Cons.prems Some show ?thesis
      using assms by (auto split: if_splits)
  qed
qed

text \<open>A primary key: the rows' keys are distinct, so a lookup by key finds one row.\<close>

lemma find_Some_set: "find p rows = Some r \<Longrightarrow> r \<in> set rows \<and> p r"
  by (induction rows) (auto split: if_splits)

lemma find_None_exists: "find p rows = None \<longleftrightarrow> \<not> exists_row p rows"
  by (auto simp: find_None_iff exists_row_iff)

lemma find_key_unique:
  assumes "distinct (map key rows)" and "r \<in> set rows"
  shows "find (\<lambda>x. key x = key r) rows = Some r"
  using assms by (induction rows) (auto simp: image_iff)

lemma distinct_key_eq:
  assumes "distinct (map key rows)" "a \<in> set rows" "b \<in> set rows" "key a = key b"
  shows "a = b"
  using assms by (metis distinct_map inj_onD)

lemma find_update_where_same:
  assumes "\<And>r. key (f r) = key r" and "distinct (map key rows)"
    and "find (\<lambda>r. key r = k) rows = Some r0"
  shows "find (\<lambda>r. key r = k) (update_where (\<lambda>r. key r = k \<and> p r) f rows)
         = Some (if p r0 then f r0 else r0)"
  using assms(2,3)
  by (induction rows) (auto simp: update_where_def assms(1) split: if_splits)

text \<open>A lookup by a key the update keeps.\<close>

lemma find_update_where:
  assumes "\<And>r. key (f r) = key r"
  shows "find (\<lambda>r. key r = k) (update_where p f rows) =
         map_option (\<lambda>r. if p r then f r else r) (find (\<lambda>r. key r = k) rows)"
  by (induction rows) (auto simp: update_where_def assms)

lemma find_append_None: "find p (xs @ ys) = (case find p xs of None \<Rightarrow> find p ys | Some x \<Rightarrow> Some x)"
  by (induction xs) auto

text \<open>\<open>INSERT ... ON CONFLICT(key) DO UPDATE\<close>.\<close>

definition upsert_row :: "('r \<Rightarrow> 'k) \<Rightarrow> ('r \<Rightarrow> 'r) \<Rightarrow> 'r \<Rightarrow> 'r list \<Rightarrow> 'r list" where
  "upsert_row key f new rows =
     (if exists_row (\<lambda>r. key r = key new) rows
      then update_where (\<lambda>r. key r = key new) f rows
      else rows @ [new])"

section \<open>Text values\<close>

text \<open>
  Text is a list of characters, each standing for one code point below 256.
  \<open>str.strip()\<close> removes the white space Python recognises among them.
\<close>

definition py_space :: "char \<Rightarrow> bool" where
  "py_space c = (let n = of_char c :: nat in
     (9 \<le> n \<and> n \<le> 13) \<or> (28 \<le> n \<and> n \<le> 32) \<or> n = 133 \<or> n = 160)"

definition py_strip :: "string \<Rightarrow> string" where
  "py_strip s = rev (dropWhile py_space (rev (dropWhile py_space s)))"

text \<open>Decimal digits, as \<open>str\<close> and f-strings print an integer.\<close>

fun decimal :: "nat \<Rightarrow> string" where
  "decimal n = (if n < 10 then [char_of (48 + n)] else decimal (n div 10) @ [char_of (48 + n mod 10)])"

declare decimal.simps [simp del]

definition decimal_int :: "int \<Rightarrow> string" where
  "decimal_int i = (if i < 0 then ''-'' @ decimal (nat (- i)) else decimal (nat i))"

lemma decimal_nonempty: "decimal n \<noteq> []"
  by (subst decimal.simps) simp

lemma dropWhile_idem: "dropWhile p (dropWhile p xs) = dropWhile p xs"
  by (induction xs) auto

lemma dropWhile_rev_end:
  "xs = [] \<or> \<not> p (hd xs) \<Longrightarrow>
   (let ys = rev (dropWhile p (rev xs)) in ys = [] \<or> \<not> p (hd ys))"
proof (cases "dropWhile p (rev xs) = []")
  case False
  assume hd: "xs = [] \<or> \<not> p (hd xs)"
  have "takeWhile p (rev xs) @ dropWhile p (rev xs) = rev xs" by simp
  then have "xs = rev (dropWhile p (rev xs)) @ rev (takeWhile p (rev xs))"
    by (metis rev_append rev_rev_ident)
  then have "hd xs = hd (rev (dropWhile p (rev xs)))" "xs \<noteq> []"
    using False by (metis hd_append rev_is_Nil_conv, auto)
  with hd show ?thesis by (simp add: Let_def)
qed simp

lemma py_strip_idem: "py_strip (py_strip s) = py_strip s"
proof -
  have "dropWhile py_space s = [] \<or> \<not> py_space (hd (dropWhile py_space s))"
    using hd_dropWhile by blast
  then have "py_strip s = [] \<or> \<not> py_space (hd (py_strip s))"
    using dropWhile_rev_end [of "dropWhile py_space s" py_space] by (simp add: py_strip_def Let_def)
  then have "dropWhile py_space (py_strip s) = py_strip s"
    by (cases "py_strip s") auto
  then show ?thesis
    by (simp add: py_strip_def dropWhile_idem)
qed

end
