(* ===== verification/Bridge_Protocol.thy ===== *)
theory Bridge_Protocol
  imports Hub_Prelude
begin

text \<open>
  The bounded pipe framing of \<open>review_bridge_protocol.py\<close>: the frame kinds with their
  payload limits, the nine-byte header, and the incremental decoder. The decoder's state
  is the instance's attributes; a call of \<open>feed\<close> or \<open>finish\<close> returns the frames or the
  error code together with the attributes it leaves. Type tests of Python values
  (\<open>type(chunk) is not bytes\<close>) are settled by the types here.
\<close>

type_synonym byte = "8 word"
type_synonym bytes = "byte list"

section \<open>Frames\<close>

datatype frame_type =
    SPEC | CAPSULE | REQUEST | RESPONSE_HEADERS | RESPONSE_CHUNK | RESPONSE_END
  | NATIVE_STDOUT | CANCEL | NATIVE_EXIT

definition frame_code :: "frame_type \<Rightarrow> nat" where
  "frame_code k = (case k of
     SPEC \<Rightarrow> 1 | CAPSULE \<Rightarrow> 2 | REQUEST \<Rightarrow> 3 | RESPONSE_HEADERS \<Rightarrow> 4 | RESPONSE_CHUNK \<Rightarrow> 5
   | RESPONSE_END \<Rightarrow> 6 | NATIVE_STDOUT \<Rightarrow> 7 | CANCEL \<Rightarrow> 8 | NATIVE_EXIT \<Rightarrow> 9)"

definition all_frame_types :: "frame_type list" where
  "all_frame_types = [SPEC, CAPSULE, REQUEST, RESPONSE_HEADERS, RESPONSE_CHUNK, RESPONSE_END,
     NATIVE_STDOUT, CANCEL, NATIVE_EXIT]"

definition frame_types :: "nat \<Rightarrow> frame_type option" where
  "frame_types code = find (\<lambda>k. frame_code k = code) all_frame_types"

definition payload_limit :: "frame_type \<Rightarrow> nat" where
  "payload_limit k = (case k of
     SPEC \<Rightarrow> 16 * 1024 | CAPSULE \<Rightarrow> 1024 * 1024 | REQUEST \<Rightarrow> 1024 * 1024
   | RESPONSE_HEADERS \<Rightarrow> 16 * 1024 | RESPONSE_CHUNK \<Rightarrow> 64 * 1024 | RESPONSE_END \<Rightarrow> 0
   | NATIVE_STDOUT \<Rightarrow> 64 * 1024 | CANCEL \<Rightarrow> 0 | NATIVE_EXIT \<Rightarrow> 16 * 1024)"

definition MAX_BRIDGE_FEED_BYTES :: nat where "MAX_BRIDGE_FEED_BYTES = 64 * 1024"
definition MAX_BRIDGE_TOTAL_BYTES :: nat where "MAX_BRIDGE_TOTAL_BYTES = 16 * 1024 * 1024"
definition MAX_BRIDGE_FRAMES :: nat where "MAX_BRIDGE_FRAMES = 4096"

record bridge_frame =
  kind :: frame_type
  payload :: bytes

text \<open>The codes are fixed strings of the source; each has a constructor here.\<close>

datatype bridge_error =
    Bridge_payload_bound | Bridge_budget_invalid | Bridge_retired | Bridge_feed_bound
  | Bridge_byte_budget | Bridge_header_invalid | Bridge_frame_type | Bridge_frame_budget
  | Bridge_truncated

section \<open>The header\<close>

definition MAGIC :: bytes where "MAGIC = [0x48, 0x42, 0x30, 0x31]"
definition HEADER_SIZE :: nat where "HEADER_SIZE = 9"

text \<open>\<open>struct.Struct(">4sBI")\<close>: big-endian, no padding.\<close>

definition pack_u32 :: "nat \<Rightarrow> bytes" where
  "pack_u32 n = [word_of_nat (n div 2 ^ 24), word_of_nat (n div 2 ^ 16),
                 word_of_nat (n div 2 ^ 8), word_of_nat n]"

definition unpack_u32 :: "bytes \<Rightarrow> nat" where
  "unpack_u32 bs = foldl (\<lambda>a b. a * 256 + unat b) 0 bs"

definition pack_header :: "frame_type \<Rightarrow> nat \<Rightarrow> bytes" where
  "pack_header k n = MAGIC @ [word_of_nat (frame_code k)] @ pack_u32 n"

definition unpack_header :: "bytes \<Rightarrow> bytes \<times> nat \<times> nat" where
  "unpack_header bs = (take 4 bs, unat (bs ! 4), unpack_u32 (take 4 (drop 5 bs)))"

definition validate_bridge_frame :: "bridge_frame \<Rightarrow> bridge_error + unit" where
  "validate_bridge_frame f =
     (if length (payload f) > payload_limit (kind f) then Inl Bridge_payload_bound else Inr ())"

definition wire :: "bridge_frame \<Rightarrow> bytes" where
  "wire f = pack_header (kind f) (length (payload f)) @ payload f"

definition encode_bridge_frame :: "bridge_frame \<Rightarrow> bridge_error + bytes" where
  "encode_bridge_frame f =
     (case validate_bridge_frame f of Inl e \<Rightarrow> Inl e | Inr _ \<Rightarrow> Inr (wire f))"

section \<open>The incremental decoder\<close>

record decoder =
  d_max_frames :: nat
  d_max_bytes :: nat
  d_frames :: nat
  d_received :: nat
  d_pending :: bytes
  d_kind :: "frame_type option"
  d_size :: nat
  d_retired :: bool

definition new_decoder :: "nat \<Rightarrow> nat \<Rightarrow> bridge_error + decoder" where
  "new_decoder mf mb =
     (if \<not> (1 \<le> mf \<and> mf \<le> MAX_BRIDGE_FRAMES) \<or> \<not> (1 \<le> mb \<and> mb \<le> MAX_BRIDGE_TOTAL_BYTES)
      then Inl Bridge_budget_invalid
      else Inr \<lparr>d_max_frames = mf, d_max_bytes = mb, d_frames = 0, d_received = 0,
                d_pending = [], d_kind = None, d_size = 0, d_retired = False\<rparr>)"

definition dec_fail :: "bridge_error \<Rightarrow> decoder \<Rightarrow> (bridge_error, decoder, 'a) outcome" where
  "dec_fail code d = (Inl code, d\<lparr>d_retired := True, d_pending := [], d_kind := None\<rparr>)"

text \<open>
  The header branch of the loop (lines 120--138): \<open>Inl\<close> of an error, or \<open>Inr None\<close> for the
  \<open>break\<close> on an incomplete header, or the state with the header consumed.
\<close>

definition read_header :: "decoder \<Rightarrow> bridge_error + decoder option" where
  "read_header d =
     (if length (d_pending d) < HEADER_SIZE then Inr None
      else let (magic, code, size) = unpack_header (d_pending d) in
        if magic \<noteq> MAGIC then Inl Bridge_header_invalid
        else (case frame_types code of
            None \<Rightarrow> Inl Bridge_frame_type
          | Some k \<Rightarrow>
              if size > payload_limit k then Inl Bridge_payload_bound
              else if d_frames d \<ge> d_max_frames d then Inl Bridge_frame_budget
              else if d_received d - length (d_pending d) + HEADER_SIZE + size > d_max_bytes d
                   then Inl Bridge_byte_budget
              else Inr (Some (d\<lparr>d_pending := drop HEADER_SIZE (d_pending d),
                                d_kind := Some k, d_size := size,
                                d_frames := d_frames d + 1\<rparr>))))"

text \<open>
  The body branch (lines 139--146): \<open>None\<close> for the \<open>break\<close> on an incomplete payload, or
  the frame and the state after it.
\<close>

definition read_body :: "frame_type \<Rightarrow> decoder \<Rightarrow> (bridge_frame \<times> decoder) option" where
  "read_body k d =
     (if length (d_pending d) < d_size d then None
      else Some (\<lparr>kind = k, payload = take (d_size d) (d_pending d)\<rparr>,
                 d\<lparr>d_pending := drop (d_size d) (d_pending d), d_kind := None, d_size := 0\<rparr>))"

lemma read_header_pending:
  "read_header d = Inr (Some d') \<Longrightarrow> length (d_pending d') < length (d_pending d)"
  by (auto simp: read_header_def HEADER_SIZE_def Let_def split: if_splits prod.splits option.splits)

lemma read_header_kind: "read_header d = Inr (Some d') \<Longrightarrow> \<exists>k. d_kind d' = Some k"
  by (auto simp: read_header_def Let_def split: if_splits prod.splits option.splits)

lemma read_body_pending:
  "read_body k d = Some (f, d') \<Longrightarrow>
   length (d_pending d') \<le> length (d_pending d) \<and> d_kind d' = None"
  by (auto simp: read_body_def split: if_splits)

text \<open>
  The loop \<open>while True\<close> of \<open>feed\<close>, with the frames collected so far. A header step is
  followed by the body step of the same iteration.
\<close>

function feed_loop :: "decoder \<Rightarrow> bridge_frame list \<Rightarrow> (bridge_error, decoder, bridge_frame list) outcome"
where
  "feed_loop d fs =
     (case d_kind d of
        None \<Rightarrow>
          (case read_header d of
             Inl e \<Rightarrow> dec_fail e d
           | Inr None \<Rightarrow> (Inr fs, d)
           | Inr (Some d') \<Rightarrow> feed_loop d' fs)
      | Some k \<Rightarrow>
          (case read_body k d of
             None \<Rightarrow> (Inr fs, d)
           | Some (f, d') \<Rightarrow> feed_loop d' (fs @ [f])))"
  by pat_completeness auto
termination
proof (relation "measure (\<lambda>(d, fs). 2 * length (d_pending d) + (if d_kind d = None then 0 else 1))",
       goal_cases)
  case 1
  then show ?case by simp
next
  case (2 d fs r d')
  then show ?case
    using read_header_pending [of d d'] by (auto split: if_splits)
next
  case (3 d fs k r f d')
  then show ?case
    using read_body_pending [of k d f d'] by auto
qed

declare feed_loop.simps [simp del]

definition feed :: "decoder \<Rightarrow> bytes \<Rightarrow> (bridge_error, decoder, bridge_frame list) outcome" where
  "feed d chunk =
     (if d_retired d then (Inl Bridge_retired, d)
      else if length chunk > MAX_BRIDGE_FEED_BYTES then dec_fail Bridge_feed_bound d
      else if d_received d + length chunk > d_max_bytes d then dec_fail Bridge_byte_budget d
      else feed_loop (d\<lparr>d_received := d_received d + length chunk,
                        d_pending := d_pending d @ chunk\<rparr>) [])"

definition finish :: "decoder \<Rightarrow> (bridge_error, decoder, unit) outcome" where
  "finish d =
     (if d_retired d then (Inl Bridge_retired, d)
      else if d_pending d \<noteq> [] \<or> d_kind d \<noteq> None then dec_fail Bridge_truncated d
      else (Inr (), d\<lparr>d_retired := True\<rparr>))"

text \<open>A caller that feeds chunk after chunk and stops at the first error.\<close>

fun feed_all :: "decoder \<Rightarrow> bytes list \<Rightarrow> (bridge_error, decoder, bridge_frame list) outcome" where
  "feed_all d [] = (Inr [], d)"
| "feed_all d (c # cs) =
     (case feed d c of
        (Inl e, d') \<Rightarrow> (Inl e, d')
      | (Inr fs, d') \<Rightarrow>
          (case feed_all d' cs of
             (Inl e, d'') \<Rightarrow> (Inl e, d'')
           | (Inr gs, d'') \<Rightarrow> (Inr (fs @ gs), d'')))"

section \<open>Header lemmas\<close>

lemma length_pack_header [simp]: "length (pack_header k n) = HEADER_SIZE"
  by (simp add: pack_header_def MAGIC_def pack_u32_def HEADER_SIZE_def)

lemma length_wire: "length (wire f) = HEADER_SIZE + length (payload f)"
  by (simp add: wire_def)

lemma unat_byte_of_nat: "unat (word_of_nat n :: 8 word) = n mod 256"
  by (simp add: unat_of_nat)

lemma unpack_pack_u32:
  assumes "n < 2 ^ 32"
  shows "unpack_u32 (pack_u32 n) = n"
proof -
  define p where "p = n div 256"
  define q where "q = p div 256"
  define r where "r = q div 256"
  have divs: "n div 2 ^ 8 = p" "n div 2 ^ 16 = q" "n div 2 ^ 24 = r"
    by (simp_all add: p_def q_def r_def flip: div_mult2_eq)
  have "r < 256" using assms by (simp add: r_def q_def p_def flip: div_mult2_eq)
  moreover have "n = p * 256 + n mod 256" "p = q * 256 + p mod 256" "q = r * 256 + q mod 256"
    by (simp_all add: p_def q_def r_def)
  ultimately show ?thesis
    unfolding unpack_u32_def pack_u32_def divs by (simp add: unat_byte_of_nat del: unat_of_nat)
qed

lemma pack_unpack_u32:
  assumes "length bs = 4"
  shows "pack_u32 (unpack_u32 bs) = bs"
proof -
  from assms obtain a b c d where bs: "bs = [a, b, c, d]"
    by (auto simp: length_Suc_conv numeral_eq_Suc)
  define p where "p = unat a * 256 + unat b"
  define q where "q = p * 256 + unat c"
  define n where "n = q * 256 + unat d"
  have n: "unpack_u32 bs = n"
    by (simp add: n_def q_def p_def bs unpack_u32_def)
  have lt: "unat x < 256" for x :: byte
    using unsigned_less [of x] by simp
  have dv: "(x * 256 + unat y) div 256 = x" for x :: nat and y :: byte
    using lt [of y] by simp
  have q: "n div 256 = q" and p: "q div 256 = p" and a: "p div 256 = unat a"
    unfolding n_def by (rule dv) (simp_all only: q_def p_def dv)
  have hi: "n div 2 ^ 8 = q" "n div 2 ^ 16 = p" "n div 2 ^ 24 = unat a"
    using q p a div_mult2_eq [of n 256 256] div_mult2_eq [of n 256 65536]
      div_mult2_eq [of q 256 256] by simp_all
  have low: "word_of_nat (x * 256 + unat y) = y" for x :: nat and y :: byte
    using lt [of y] by (simp only: word_unat_eq_iff unat_byte_of_nat) simp
  have "word_of_nat p = b" "word_of_nat q = c" "word_of_nat n = d"
    unfolding p_def q_def n_def by (rule low)+
  then show ?thesis
    unfolding n by (simp add: pack_u32_def bs hi [simplified])
qed

lemma frame_code_bounds: "1 \<le> frame_code k \<and> frame_code k \<le> 9"
  by (cases k) (simp_all add: frame_code_def)

lemma frame_types_code [simp]: "frame_types (frame_code k) = Some k"
  by (cases k) (simp_all add: frame_types_def all_frame_types_def frame_code_def)

lemma frame_types_Some: "frame_types c = Some k \<Longrightarrow> frame_code k = c"
  by (auto simp: frame_types_def dest: find_Some_set)

lemma payload_limit_bound: "payload_limit k \<le> 1024 * 1024"
  by (cases k) (simp_all add: payload_limit_def)

lemma unpack_header_pack:
  assumes "n \<le> payload_limit k"
  shows "unpack_header (pack_header k n @ rest) = (MAGIC, frame_code k, n)"
proof -
  have "n < 2 ^ 32"
    using assms payload_limit_bound [of k] by simp
  then have u: "unpack_u32 (pack_u32 n) = n" by (rule unpack_pack_u32)
  have c: "frame_code k mod 256 = frame_code k"
    using frame_code_bounds [of k] by simp
  have "take 4 (pack_u32 n @ rest) = pack_u32 n"
    by (simp add: pack_u32_def)
  moreover have "drop 5 (pack_header k n @ rest) = pack_u32 n @ rest"
    by (simp add: pack_header_def MAGIC_def)
  moreover have "(pack_header k n @ rest) ! 4 = word_of_nat (frame_code k)"
    by (simp add: pack_header_def MAGIC_def)
  moreover have "take 4 (pack_header k n @ rest) = MAGIC"
    by (simp add: pack_header_def MAGIC_def)
  ultimately show ?thesis
    by (simp add: unpack_header_def u unat_byte_of_nat c del: unat_of_nat)
qed

text \<open>Conversely, an accepted header is the encoding of what it announces.\<close>

lemma take_header:
  assumes "HEADER_SIZE \<le> length bs" "unpack_header bs = (MAGIC, c, n)" "frame_types c = Some k"
  shows "take HEADER_SIZE bs = pack_header k n"
proof -
  have c: "frame_code k = unat (bs ! 4)" and n: "n = unpack_u32 (take 4 (drop 5 bs))"
    and m: "take 4 bs = MAGIC"
    using assms(2) frame_types_Some [OF assms(3)] by (auto simp: unpack_header_def)
  have len: "9 \<le> length bs" using assms(1) by (simp add: HEADER_SIZE_def)
  then have at4: "take 1 (drop 4 bs) = [bs ! 4]"
    by (simp add: take_Suc_conv_app_nth)
  have "take (4 + (1 + 4)) bs = take 4 bs @ take 1 (drop 4 bs) @ take 4 (drop 1 (drop 4 bs))"
    by (simp only: take_add)
  then have "take 9 bs = MAGIC @ [bs ! 4] @ take 4 (drop 5 bs)"
    by (simp only: m at4 drop_drop) simp
  moreover have "pack_u32 n = take 4 (drop 5 bs)"
    unfolding n using len by (intro pack_unpack_u32) simp
  ultimately show ?thesis
    by (simp add: pack_header_def HEADER_SIZE_def c)
qed

section \<open>The decoder and its input\<close>

text \<open>
  The state after more bytes have arrived: the same decoder with a longer buffer. The
  checks of the loop read the bytes before the buffer (received minus pending), which
  more input does not change.
\<close>

definition extend :: "bytes \<Rightarrow> decoder \<Rightarrow> decoder" where
  "extend b d = d\<lparr>d_received := d_received d + length b, d_pending := d_pending d @ b\<rparr>"

lemma extend_sel [simp]:
  "d_kind (extend b d) = d_kind d" "d_size (extend b d) = d_size d"
  "d_frames (extend b d) = d_frames d" "d_max_frames (extend b d) = d_max_frames d"
  "d_max_bytes (extend b d) = d_max_bytes d" "d_retired (extend b d) = d_retired d"
  "d_received (extend b d) = d_received d + length b" "d_pending (extend b d) = d_pending d @ b"
  by (simp_all add: extend_def)

lemma extend_extend: "extend c (extend b d) = extend (b @ c) d"
  by (simp add: extend_def)

lemma extend_Nil [simp]: "extend [] d = d"
  by (simp add: extend_def)

lemma unpack_header_append:
  "HEADER_SIZE \<le> length bs \<Longrightarrow> unpack_header (bs @ c) = unpack_header bs"
  by (simp add: unpack_header_def HEADER_SIZE_def nth_append)

lemma read_header_extend:
  assumes "read_header d \<noteq> Inr None" "length (d_pending d) \<le> d_received d"
  shows "read_header (extend b d) = map_sum id (map_option (extend b)) (read_header d)"
proof -
  have len: "HEADER_SIZE \<le> length (d_pending d)"
    using assms(1) by (auto simp: read_header_def split: if_splits)
  have "d_received d + length b - (length (d_pending d) + length b)
      = d_received d - length (d_pending d)"
    by simp
  then show ?thesis
    using len
    by (simp add: read_header_def unpack_header_append Let_def extend_def split_beta
        split: option.splits)
qed

lemma read_body_extend:
  "read_body k d = Some (f, d') \<Longrightarrow> read_body k (extend b d) = Some (f, extend b d')"
  by (auto simp: read_body_def extend_def split: if_splits)

lemma read_header_frame:
  "read_header d = Inr (Some d') \<Longrightarrow>
   d_received d' = d_received d \<and> d_max_bytes d' = d_max_bytes d \<and> d_retired d' = d_retired d \<and>
   d_max_frames d' = d_max_frames d \<and> d_frames d' = d_frames d + 1 \<and> d_frames d < d_max_frames d"
  by (auto simp: read_header_def Let_def split: if_splits prod.splits option.splits)

lemma read_body_frame:
  "read_body k d = Some (f, d') \<Longrightarrow>
   d_received d' = d_received d \<and> d_max_bytes d' = d_max_bytes d \<and> d_retired d' = d_retired d \<and>
   d_max_frames d' = d_max_frames d \<and> d_frames d' = d_frames d"
  by (auto simp: read_body_def split: if_splits)

lemma feed_loop_None:
  "d_kind d = None \<Longrightarrow>
   feed_loop d fs = (case read_header d of Inl e \<Rightarrow> dec_fail e d | Inr None \<Rightarrow> (Inr fs, d)
                     | Inr (Some d') \<Rightarrow> feed_loop d' fs)"
  by (simp add: feed_loop.simps)

lemma feed_loop_Some:
  "d_kind d = Some k \<Longrightarrow>
   feed_loop d fs = (case read_body k d of None \<Rightarrow> (Inr fs, d)
                     | Some (f, d') \<Rightarrow> feed_loop d' (fs @ [f]))"
  by (simp add: feed_loop.simps)

text \<open>
  Running the loop on a longer buffer: run it on the shorter one, then go on from where it
  stopped. An error on the shorter buffer is the error on the longer one.
\<close>

lemma feed_loop_extend:
  assumes "length (d_pending d) \<le> d_received d"
  shows "feed_loop (extend b d) fs =
    (case feed_loop d fs of
       (Inl e, d') \<Rightarrow> (Inl e, d'\<lparr>d_received := d_received d' + length b\<rparr>)
     | (Inr gs, d') \<Rightarrow> feed_loop (extend b d') gs)"
  using assms
proof (induction d fs rule: feed_loop.induct)
  case (1 d fs)
  show ?case
  proof (cases "d_kind d")
    case None
    show ?thesis
    proof (cases "read_header d")
      case (Inl e)
      then have "read_header (extend b d) = Inl e"
        using read_header_extend [of d b] "1.prems" by simp
      with None Inl show ?thesis
        by (simp add: feed_loop_None dec_fail_def extend_def)
    next
      case (Inr r)
      show ?thesis
      proof (cases r)
        case None': None
        with None Inr show ?thesis by (simp add: feed_loop_None [of d])
      next
        case (Some d')
        then have hd: "read_header (extend b d) = Inr (Some (extend b d'))"
          using read_header_extend [of d b] "1.prems" Inr by simp
        have "length (d_pending d') \<le> d_received d'"
          using "1.prems" Inr Some read_header_pending [of d d'] read_header_frame [of d d'] by simp
        then show ?thesis
          using "1.IH"(1) [OF None Inr Some] None hd Inr Some by (simp add: feed_loop_None)
      qed
    qed
  next
    case (Some k)
    show ?thesis
    proof (cases "read_body k d")
      case None
      with Some show ?thesis by (simp add: feed_loop_Some [of d])
    next
      case body: (Some fd)
      obtain f d' where fd: "fd = (f, d')" by (cases fd)
      have "length (d_pending d') \<le> d_received d'"
        using "1.prems" body fd read_body_pending [of k d f d'] read_body_frame [of k d f d'] by simp
      then show ?thesis
        using "1.IH"(2) [OF Some body fd [symmetric]] Some body fd read_body_extend [of k d f d' b]
        by (simp add: feed_loop_Some)
    qed
  qed
qed

section \<open>What the decoder has consumed\<close>

text \<open>The header of a frame whose payload is still incomplete, as bytes.\<close>

definition open_header :: "decoder \<Rightarrow> bytes" where
  "open_header d = (case d_kind d of None \<Rightarrow> [] | Some k \<Rightarrow> pack_header k (d_size d))"

definition valid_frame :: "bridge_frame \<Rightarrow> bool" where
  "valid_frame f \<longleftrightarrow> length (payload f) \<le> payload_limit (kind f)"

lemma validate_ok: "validate_bridge_frame f = Inr () \<longleftrightarrow> valid_frame f"
  by (simp add: validate_bridge_frame_def valid_frame_def)

lemma encode_valid: "encode_bridge_frame f = Inr w \<longleftrightarrow> valid_frame f \<and> w = wire f"
  by (auto simp: encode_bridge_frame_def validate_bridge_frame_def valid_frame_def)

text \<open>
  The invariant of a live decoder: its budgets are within the module's, the buffer is part
  of what was received, an open frame is within its limit.
\<close>

definition decoder_ok :: "decoder \<Rightarrow> bool" where
  "decoder_ok d \<longleftrightarrow>
     length (d_pending d) \<le> d_received d \<and> d_received d \<le> d_max_bytes d \<and>
     d_frames d \<le> d_max_frames d \<and>
     (\<forall>k. d_kind d = Some k \<longrightarrow> d_size d \<le> payload_limit k)"

definition waiting :: "decoder \<Rightarrow> bool" where
  "waiting d \<longleftrightarrow> (case d_kind d of None \<Rightarrow> length (d_pending d) < HEADER_SIZE
                  | Some k \<Rightarrow> length (d_pending d) < d_size d)"

lemma read_header_ok:
  assumes "read_header d = Inr (Some d')" "decoder_ok d" "d_kind d = None"
  shows "decoder_ok d' \<and> d_pending d = open_header d' @ d_pending d'"
proof -
  from assms(1) obtain c n k where
    h: "unpack_header (d_pending d) = (MAGIC, c, n)" "frame_types c = Some k"
      "n \<le> payload_limit k" "HEADER_SIZE \<le> length (d_pending d)" "d_frames d < d_max_frames d"
      "d' = d\<lparr>d_pending := drop HEADER_SIZE (d_pending d), d_kind := Some k, d_size := n,
              d_frames := d_frames d + 1\<rparr>"
    by (auto simp: read_header_def Let_def split: if_splits prod.splits option.splits)
  have "d_pending d = take HEADER_SIZE (d_pending d) @ drop HEADER_SIZE (d_pending d)"
    by simp
  then have "d_pending d = pack_header k n @ drop HEADER_SIZE (d_pending d)"
    using take_header [OF h(4,1,2)] by metis
  then show ?thesis
    using h assms(2) by (auto simp: decoder_ok_def open_header_def)
qed

lemma read_body_ok:
  assumes "read_body k d = Some (f, d')" "decoder_ok d" "d_kind d = Some k"
  shows "decoder_ok d' \<and> valid_frame f \<and> open_header d' = [] \<and>
         open_header d @ d_pending d = wire f @ d_pending d'"
  using assms
  by (auto simp: read_body_def decoder_ok_def valid_frame_def open_header_def wire_def min_def
      split: if_splits)

lemma feed_loop_sound:
  assumes "feed_loop d fs = (Inr gs, d')" "decoder_ok d"
  shows "\<exists>new. gs = fs @ new \<and> list_all valid_frame new \<and> decoder_ok d' \<and> waiting d' \<and>
           open_header d @ d_pending d = concat (map wire new) @ open_header d' @ d_pending d' \<and>
           d_received d' = d_received d \<and> d_max_bytes d' = d_max_bytes d \<and>
           d_retired d' = d_retired d \<and>
           d_frames d' + (if d_kind d = None then 0 else 1)
             = d_frames d + length new + (if d_kind d' = None then 0 else 1)"
  using assms
proof (induction d fs rule: feed_loop.induct)
  case (1 d fs)
  show ?case
  proof (cases "d_kind d")
    case None
    consider (stop) "read_header d = Inr None" | (go) d1 where "read_header d = Inr (Some d1)"
      using "1.prems"(1) None by (auto simp: feed_loop_None dec_fail_def split: sum.splits option.splits)
    then show ?thesis
    proof cases
      case stop
      then show ?thesis
        using "1.prems" None
        by (auto simp: feed_loop_None waiting_def read_header_def Let_def
            split: if_splits prod.splits option.splits)
    next
      case go
      have ok: "decoder_ok d1" "d_pending d = open_header d1 @ d_pending d1"
        using read_header_ok [OF go "1.prems"(2) None] by auto
      obtain k where k: "d_kind d1 = Some k" using read_header_kind [OF go] by blast
      have "feed_loop d1 fs = (Inr gs, d')"
        using "1.prems"(1) go None by (simp add: feed_loop_None)
      from "1.IH"(1) [OF None go refl this ok(1)] show ?thesis
        using ok(2) read_header_frame [OF go] None k by (auto simp: open_header_def [of d])
    qed
  next
    case (Some k)
    show ?thesis
    proof (cases "read_body k d")
      case None
      then show ?thesis
        using "1.prems" Some by (auto simp: feed_loop_Some waiting_def read_body_def split: if_splits)
    next
      case body: (Some fd)
      obtain f d1 where fd: "read_body k d = Some (f, d1)" using body by (cases fd) auto
      have ok: "decoder_ok d1" "valid_frame f" "open_header d1 = []"
        "open_header d @ d_pending d = wire f @ d_pending d1"
        using read_body_ok [OF fd "1.prems"(2) Some] by auto
      have "feed_loop d1 (fs @ [f]) = (Inr gs, d')"
        using "1.prems"(1) fd Some by (simp add: feed_loop_Some)
      from "1.IH"(2) [OF Some fd refl this ok(1)] show ?thesis
        using ok read_body_frame [OF fd] read_body_pending [OF fd] Some
        by (auto simp: open_header_def)
    qed
  qed
qed

lemma feed_loop_error:
  "feed_loop d fs = (Inl e, d') \<Longrightarrow>
   d_retired d' \<and> d_pending d' = [] \<and> d_kind d' = None \<and> d_received d' = d_received d"
proof (induction d fs rule: feed_loop.induct)
  case (1 d fs)
  show ?case
  proof (cases "d_kind d")
    case None
    then show ?thesis
      using "1.prems" "1.IH"(1) [OF None] read_header_frame
      by (auto simp: feed_loop_None dec_fail_def split: sum.splits option.splits)
  next
    case (Some k)
    then show ?thesis
      using "1.prems" "1.IH"(2) [OF Some] read_body_frame
      by (auto simp: feed_loop_Some split: option.splits)
  qed
qed

text \<open>A well-formed stream within the budgets is decoded completely.\<close>

lemma feed_loop_wires:
  assumes "list_all valid_frame new" "d_kind d = None" "d_pending d = concat (map wire new)"
    "decoder_ok d" "d_frames d + length new \<le> d_max_frames d"
  shows "\<exists>d'. feed_loop d fs = (Inr (fs @ new), d') \<and> d_pending d' = [] \<and> d_kind d' = None"
  using assms
proof (induction new arbitrary: d fs)
  case Nil
  then have "read_header d = Inr None" by (simp add: read_header_def HEADER_SIZE_def)
  with Nil show ?case by (simp add: feed_loop_None)
next
  case (Cons f new)
  let ?k = "kind f" and ?n = "length (payload f)" and ?rest = "payload f @ concat (map wire new)"
  let ?d1 = "d\<lparr>d_pending := ?rest, d_kind := Some ?k, d_size := ?n, d_frames := d_frames d + 1\<rparr>"
  let ?d2 = "?d1\<lparr>d_pending := concat (map wire new), d_kind := None, d_size := 0\<rparr>"
  have lim: "?n \<le> payload_limit ?k"
    using Cons.prems(1) by (simp add: valid_frame_def)
  have pend: "d_pending d = pack_header ?k ?n @ ?rest"
    using Cons.prems(3) by (simp add: wire_def [of f])
  then have len: "length (d_pending d) = HEADER_SIZE + length ?rest" by simp
  have "length (d_pending d) \<le> d_received d" "d_received d \<le> d_max_bytes d"
    using Cons.prems(4) by (simp_all add: decoder_ok_def)
  then have "d_received d - length (d_pending d) + HEADER_SIZE + ?n \<le> d_max_bytes d"
    using len by simp
  then have "read_header d = Inr (Some ?d1)"
    using lim Cons.prems(5) len pend unpack_header_pack [OF lim, of ?rest]
    by (simp add: read_header_def)
  moreover have "read_body ?k ?d1 = Some (f, ?d2)"
    by (simp add: read_body_def)
  ultimately have step: "feed_loop d fs = feed_loop ?d2 (fs @ [f])"
    using Cons.prems(2) by (simp add: feed_loop_None feed_loop_Some)
  have "decoder_ok ?d2"
    using Cons.prems(4,5) len by (simp add: decoder_ok_def)
  then obtain d' where "feed_loop ?d2 (fs @ [f]) = (Inr ((fs @ [f]) @ new), d')"
    and "d_pending d' = []" "d_kind d' = None"
    using Cons.IH [of ?d2 "fs @ [f]"] Cons.prems(1,5) by auto
  then show ?case using step by auto
qed

section \<open>Chunked input\<close>

text \<open>
  \<open>feed_all\<close> over any cutting of the input into admissible chunks computes what one run of
  the loop over the whole input computes: the same error, or the same frames and state.
\<close>

definition chunks_ok :: "decoder \<Rightarrow> bytes list \<Rightarrow> bool" where
  "chunks_ok d cs \<longleftrightarrow> list_all (\<lambda>c. length c \<le> MAX_BRIDGE_FEED_BYTES) cs \<and>
     d_received d + length (concat cs) \<le> d_max_bytes d"

lemma feed_loop_acc:
  "feed_loop d fs = (case feed_loop d [] of (Inl e, d') \<Rightarrow> (Inl e, d')
                     | (Inr gs, d') \<Rightarrow> (Inr (fs @ gs), d'))"
proof -
  have "\<forall>hs. feed_loop d hs = (case feed_loop d [] of (Inl e, d') \<Rightarrow> (Inl e, d')
                     | (Inr gs, d') \<Rightarrow> (Inr (hs @ gs), d'))"
  proof (induction d fs rule: feed_loop.induct)
    case (1 d fs)
    show ?case
    proof (cases "d_kind d")
      case None
      show ?thesis
      proof (cases "\<exists>d1. read_header d = Inr (Some d1)")
        case True
        then obtain d1 where hd: "read_header d = Inr (Some d1)" by blast
        have step: "feed_loop d hs = feed_loop d1 hs" for hs
          unfolding feed_loop_None [OF None] hd by simp
        show ?thesis
          unfolding step by (rule "1.IH"(1) [OF None hd refl])
      next
        case False
        then show ?thesis
          using None by (auto simp: feed_loop_None dec_fail_def split: sum.splits option.splits)
      qed
    next
      case (Some k)
      show ?thesis
      proof (cases "read_body k d")
        case None
        with Some show ?thesis by (simp add: feed_loop_Some)
      next
        case body: (Some fd)
        obtain f d1 where fd: "fd = (f, d1)" by (cases fd)
        note acc = "1.IH"(2) [OF Some body fd [symmetric]]
        show ?thesis
        proof
          fix hs
          show "feed_loop d hs = (case feed_loop d [] of (Inl e, d') \<Rightarrow> (Inl e, d')
                  | (Inr gs, d') \<Rightarrow> (Inr (hs @ gs), d'))"
            using Some body fd acc [THEN spec, of "[f]"] acc [THEN spec, of "hs @ [f]"]
            by (auto simp: feed_loop_Some split: sum.splits prod.splits)
        qed
      qed
    qed
  qed
  then show ?thesis by blast
qed

lemma feed_loop_waiting: "waiting d \<Longrightarrow> feed_loop d fs = (Inr fs, d)"
  by (cases "d_kind d")
     (auto simp: waiting_def feed_loop_None feed_loop_Some read_header_def read_body_def)

lemma feed_ok:
  assumes "length c \<le> MAX_BRIDGE_FEED_BYTES" "d_received d + length c \<le> d_max_bytes d" "\<not> d_retired d"
  shows "feed d c = feed_loop (extend c d) []"
  using assms by (simp add: feed_def extend_def)

lemma decoder_ok_extend:
  "decoder_ok d \<Longrightarrow> d_received d + length c \<le> d_max_bytes d \<Longrightarrow> decoder_ok (extend c d)"
  by (simp add: decoder_ok_def)

lemma feed_all_loop:
  assumes "chunks_ok d cs" "\<not> d_retired d" "decoder_ok d" "waiting d"
  shows "(case feed_all d cs of
            (Inl e, _) \<Rightarrow> fst (feed_loop (extend (concat cs) d) []) = Inl e
          | (Inr fs, d') \<Rightarrow> feed_loop (extend (concat cs) d) [] = (Inr fs, d'))"
  using assms
proof (induction cs arbitrary: d)
  case Nil
  then show ?case by (simp add: feed_loop_waiting)
next
  case (Cons c cs)
  have c: "length c \<le> MAX_BRIDGE_FEED_BYTES" "d_received d + length c \<le> d_max_bytes d"
    using Cons.prems(1) by (auto simp: chunks_ok_def)
  have fd: "feed d c = feed_loop (extend c d) []"
    using c Cons.prems(2) by (rule feed_ok)
  have ok: "decoder_ok (extend c d)"
    using Cons.prems(3) c(2) by (rule decoder_ok_extend)
  have ext: "feed_loop (extend (concat (c # cs)) d) [] =
      (case feed_loop (extend c d) [] of
         (Inl e, d') \<Rightarrow> (Inl e, d'\<lparr>d_received := d_received d' + length (concat cs)\<rparr>)
       | (Inr gs, d') \<Rightarrow> feed_loop (extend (concat cs) d') gs)"
    using feed_loop_extend [of "extend c d" "concat cs" "[]"] ok
    by (simp add: extend_extend decoder_ok_def)
  obtain r d1 where loop: "feed_loop (extend c d) [] = (r, d1)" by fastforce
  show ?case
  proof (cases r)
    case (Inl e)
    then show ?thesis using fd loop ext by simp
  next
    case (Inr fs)
    have snd: "decoder_ok d1" "waiting d1" "d_received d1 = d_received d + length c"
      "d_max_bytes d1 = d_max_bytes d" "\<not> d_retired d1"
      using feed_loop_sound [OF loop [unfolded Inr] ok] Cons.prems(2) by auto
    then have "chunks_ok d1 cs"
      using Cons.prems(1) by (simp add: chunks_ok_def)
    from Cons.IH [OF this snd(5,1,2)] show ?thesis
      using fd loop ext Inr feed_loop_acc [of "extend (concat cs) d1" fs]
      by (auto split: prod.splits sum.splits)
  qed
qed

section \<open>Properties of the protocol\<close>

lemma feed_frame:
  assumes "feed d c = (r, d')" "decoder_ok d" "\<not> d_retired d" "waiting d"
  shows "(\<exists>e. r = Inl e \<and> d_retired d') \<or>
         (\<exists>fs. r = Inr fs \<and> decoder_ok d' \<and> waiting d' \<and> \<not> d_retired d' \<and>
            d_max_bytes d' = d_max_bytes d \<and> d_received d' = d_received d + length c)"
proof (cases "length c \<le> MAX_BRIDGE_FEED_BYTES \<and> d_received d + length c \<le> d_max_bytes d")
  case True
  then have loop: "feed_loop (extend c d) [] = (r, d')"
    using feed_ok [of c d] assms(1,3) by simp
  show ?thesis
  proof (cases r)
    case (Inl e)
    then show ?thesis using feed_loop_error [OF loop [unfolded Inl]] by simp
  next
    case (Inr fs)
    then show ?thesis
      using feed_loop_sound [OF loop [unfolded Inr] decoder_ok_extend [OF assms(2)]] True assms(3)
      by auto
  qed
next
  case False
  then show ?thesis using assms(1,3) by (auto simp: feed_def dec_fail_def split: if_splits)
qed

lemma new_decoder_ok:
  assumes "new_decoder mf mb = Inr d"
  shows "decoder_ok d \<and> waiting d \<and> \<not> d_retired d \<and> d_kind d = None \<and> d_frames d = 0 \<and>
    d_received d = 0 \<and> d_pending d = [] \<and> d_max_frames d = mf \<and> d_max_bytes d = mb \<and>
    mf \<le> MAX_BRIDGE_FRAMES \<and> mb \<le> MAX_BRIDGE_TOTAL_BYTES"
  using assms by (auto simp: new_decoder_def decoder_ok_def waiting_def HEADER_SIZE_def split: if_splits)

text \<open>What a successful run of feeds from a live decoder has produced and kept.\<close>

lemma feed_all_sound:
  assumes "feed_all d cs = (Inr fs, d')" "decoder_ok d" "waiting d" "\<not> d_retired d"
  shows "list_all valid_frame fs \<and> decoder_ok d' \<and> waiting d' \<and> \<not> d_retired d' \<and>
    open_header d @ d_pending d @ concat cs
      = concat (map wire fs) @ open_header d' @ d_pending d' \<and>
    d_received d' = d_received d + length (concat cs) \<and> d_max_bytes d' = d_max_bytes d"
  using assms
proof (induction cs arbitrary: d fs)
  case Nil
  then show ?case by simp
next
  case (Cons c cs)
  from Cons.prems(1) obtain gs hs d1 where
    one: "feed d c = (Inr gs, d1)" and rest: "feed_all d1 cs = (Inr hs, d')" and fs: "fs = gs @ hs"
    by (auto split: prod.splits sum.splits)
  have bounds: "length c \<le> MAX_BRIDGE_FEED_BYTES" "d_received d + length c \<le> d_max_bytes d"
    using one Cons.prems(4) by (auto simp: feed_def dec_fail_def split: if_splits)
  then have loop: "feed_loop (extend c d) [] = (Inr gs, d1)"
    using one Cons.prems(4) by (simp add: feed_ok)
  have open_ext: "open_header (extend c d) = open_header d"
    by (simp add: open_header_def split: option.split)
  have d1: "decoder_ok d1" "waiting d1" "\<not> d_retired d1" "list_all valid_frame gs"
    "open_header d @ d_pending d @ c = concat (map wire gs) @ open_header d1 @ d_pending d1"
    "d_received d1 = d_received d + length c" "d_max_bytes d1 = d_max_bytes d"
    using feed_loop_sound [OF loop decoder_ok_extend [OF Cons.prems(2) bounds(2)]] Cons.prems(4)
    by (auto simp: open_ext)
  have split: "open_header d @ d_pending d @ c @ concat cs
      = concat (map wire gs) @ (open_header d1 @ d_pending d1) @ concat cs"
    using d1(5) by (metis append.assoc)
  show ?case
    using Cons.IH [OF rest d1(1-3)] d1 fs split by simp
qed

lemma feed_loop_limits:
  "feed_loop d fs = (r, d') \<Longrightarrow> d_frames d \<le> d_max_frames d \<Longrightarrow>
   d_frames d' \<le> d_max_frames d' \<and> d_max_frames d' = d_max_frames d \<and> d_max_bytes d' = d_max_bytes d \<and>
   d_received d' = d_received d"
proof (induction d fs rule: feed_loop.induct)
  case (1 d fs)
  show ?case
  proof (cases "d_kind d")
    case None
    show ?thesis
    proof (cases "\<exists>d1. read_header d = Inr (Some d1)")
      case True
      then obtain d1 where hd: "read_header d = Inr (Some d1)" by blast
      then show ?thesis
        using "1.IH"(1) [OF None hd refl] "1.prems" read_header_frame [OF hd] None
        by (simp add: feed_loop_None)
    next
      case False
      then show ?thesis
        using "1.prems" None by (auto simp: feed_loop_None dec_fail_def split: sum.splits option.splits)
    qed
  next
    case (Some k)
    show ?thesis
    proof (cases "read_body k d")
      case None
      then show ?thesis using "1.prems" Some by (auto simp: feed_loop_Some)
    next
      case body: (Some fd)
      obtain f d1 where fd: "fd = (f, d1)" by (cases fd)
      show ?thesis
        using "1.IH"(2) [OF Some body fd [symmetric]] "1.prems" body fd Some read_body_frame [of k d f d1]
        by (simp add: feed_loop_Some)
    qed
  qed
qed

text \<open>The states an instance can be in: constructed, then fed or finished any number of times.\<close>

inductive dec_reach :: "decoder \<Rightarrow> bool" where
  dec_start: "new_decoder mf mb = Inr d \<Longrightarrow> dec_reach d"
| dec_feed: "dec_reach d \<Longrightarrow> feed d c = (r, d') \<Longrightarrow> dec_reach d'"
| dec_finish: "dec_reach d \<Longrightarrow> finish d = (u, d') \<Longrightarrow> dec_reach d'"

definition decoder_bounded :: "decoder \<Rightarrow> bool" where
  "decoder_bounded d \<longleftrightarrow>
     d_received d \<le> d_max_bytes d \<and> d_max_bytes d \<le> MAX_BRIDGE_TOTAL_BYTES \<and>
     d_frames d \<le> d_max_frames d \<and> d_max_frames d \<le> MAX_BRIDGE_FRAMES \<and>
     length (d_pending d) \<le> 1024 * 1024"

lemma waiting_bound: "decoder_ok d \<Longrightarrow> waiting d \<Longrightarrow> length (d_pending d) \<le> 1024 * 1024"
  using payload_limit_bound
  by (fastforce simp: waiting_def decoder_ok_def HEADER_SIZE_def split: option.splits
      dest: order.trans)

lemma feed_bounded:
  assumes "feed d c = (r, d')" "decoder_bounded d" "d_retired d \<or> decoder_ok d \<and> waiting d"
  shows "decoder_bounded d' \<and> (d_retired d' \<or> decoder_ok d' \<and> waiting d')"
proof (cases "d_retired d")
  case True
  then show ?thesis using assms by (auto simp: feed_def)
next
  case live: False
  show ?thesis
  proof (cases "length c \<le> MAX_BRIDGE_FEED_BYTES \<and> d_received d + length c \<le> d_max_bytes d")
    case True
    then have loop: "feed_loop (extend c d) [] = (r, d')"
      using feed_ok [of c d] assms(1) live by simp
    have lim: "d_frames d' \<le> d_max_frames d'" "d_max_frames d' = d_max_frames d"
      "d_max_bytes d' = d_max_bytes d" "d_received d' \<le> d_max_bytes d"
      using feed_loop_limits [OF loop] assms(2) True by (auto simp: decoder_bounded_def)
    have st: "d_retired d' \<and> d_pending d' = [] \<or> decoder_ok d' \<and> waiting d'"
      using feed_loop_error [of "extend c d" "[]" _ d'] loop
        feed_loop_sound [of "extend c d" "[]" _ d'] decoder_ok_extend [of d c] assms(3) live True
      by (cases r) auto
    then have "length (d_pending d') \<le> 1024 * 1024"
      using waiting_bound [of d'] by auto
    then show ?thesis
      using lim st assms(2) by (auto simp: decoder_bounded_def)
  next
    case False
    then show ?thesis
      using assms live by (auto simp: feed_def dec_fail_def decoder_bounded_def split: if_splits)
  qed
qed

lemma dec_reach_bounded:
  "dec_reach d \<Longrightarrow> decoder_bounded d \<and> (d_retired d \<or> decoder_ok d \<and> waiting d)"
proof (induction rule: dec_reach.induct)
  case (dec_start mf mb d)
  then show ?case
    by (auto simp: new_decoder_def decoder_bounded_def decoder_ok_def waiting_def HEADER_SIZE_def
        split: if_splits)
next
  case (dec_feed d c r d')
  then show ?case using feed_bounded by blast
next
  case (dec_finish d u d')
  then show ?case
    by (auto simp: finish_def dec_fail_def decoder_bounded_def split: if_splits)
qed

text \<open>A list of frames and the list of their encodings.\<close>

definition encodings :: "bridge_frame list \<Rightarrow> bytes list \<Rightarrow> bool" where
  "encodings fs ws \<longleftrightarrow> list_all2 (\<lambda>f w. encode_bridge_frame f = Inr w) fs ws"

lemma encodings_iff: "encodings fs ws \<longleftrightarrow> list_all valid_frame fs \<and> ws = map wire fs"
proof (induction fs arbitrary: ws)
  case Nil
  then show ?case by (auto simp: encodings_def)
next
  case (Cons f fs)
  then show ?case
    by (cases ws) (auto simp: encodings_def encode_valid)
qed



text \<open>C37. Round trip: frames that encode, encoded one after the other and fed in any
  admissible cutting, come out again, in order and unchanged, and the end of input is then
  accepted, when the stream is within the decoder's two budgets.\<close>

theorem encode_decode_roundtrip:
  assumes "new_decoder mf mb = Inr d" "encodings fs ws" "length fs \<le> mf"
    and "chunks_ok d cs" "concat cs = concat ws"
  shows "\<exists>d'. feed_all d cs = (Inr fs, d') \<and> fst (finish d') = Inr ()"
proof -
  have d: "decoder_ok d" "waiting d" "\<not> d_retired d" "d_kind d = None" "d_pending d = []"
    "d_frames d = 0" "d_max_frames d = mf" "d_received d = 0"
    using new_decoder_ok [OF assms(1)] by auto
  have fs: "list_all valid_frame fs" "concat cs = concat (map wire fs)"
    using assms(2,5) by (auto simp: encodings_iff)
  let ?e = "extend (concat cs) d"
  have "decoder_ok ?e"
    using decoder_ok_extend [OF d(1)] assms(4) by (simp add: chunks_ok_def)
  then obtain d' where loop: "feed_loop ?e [] = (Inr fs, d')" "d_pending d' = []" "d_kind d' = None"
    using feed_loop_wires [OF fs(1), of ?e "[]"] d assms(3) fs(2) by auto
  have "\<not> d_retired d'"
    using feed_loop_sound [OF loop(1) \<open>decoder_ok ?e\<close>] d(3) by simp
  moreover have "feed_all d cs = (Inr fs, d')"
    using feed_all_loop [OF assms(4) d(3,1,2)] loop(1) by (auto split: prod.splits sum.splits)
  ultimately show ?thesis using loop(2,3) by (simp add: finish_def)
qed

text \<open>A request of two bytes, and its encoding cut inside the header.\<close>

definition sample_frame :: bridge_frame where
  "sample_frame = \<lparr>kind = REQUEST, payload = [1, 2]\<rparr>"

definition sample_chunks :: "bytes list" where
  "sample_chunks = [[0x48, 0x42, 0x30, 0x31, 3, 0], [0, 0, 2, 1, 2]]"

definition sample_decoder :: decoder where
  "sample_decoder = \<lparr>d_max_frames = 4, d_max_bytes = 100, d_frames = 0, d_received = 0,
     d_pending = [], d_kind = None, d_size = 0, d_retired = False\<rparr>"

lemma sample_new: "new_decoder 4 100 = Inr sample_decoder"
  by (simp add: new_decoder_def sample_decoder_def MAX_BRIDGE_FRAMES_def MAX_BRIDGE_TOTAL_BYTES_def)

lemma sample_chunks_ok: "chunks_ok sample_decoder sample_chunks"
  by (simp add: chunks_ok_def sample_chunks_def sample_decoder_def MAX_BRIDGE_FEED_BYTES_def)

lemma sample_encoding: "encodings [sample_frame] [concat sample_chunks]"
  by (simp add: encodings_def encode_bridge_frame_def validate_bridge_frame_def sample_frame_def
      payload_limit_def wire_def pack_header_def MAGIC_def frame_code_def pack_u32_def sample_chunks_def)

theorem encode_decode_roundtrip_witness:
  "\<exists>d'. feed_all sample_decoder sample_chunks = (Inr [sample_frame], d')"
  using encode_decode_roundtrip [OF sample_new sample_encoding _ sample_chunks_ok] by auto

text \<open>What is accepted is what was sent: when the feeds succeed and the end of input is
  accepted, the bytes received are exactly the encodings of the returned frames, each of
  which passes validation. No byte is skipped, added or counted twice.\<close>

theorem decode_exact:
  assumes "new_decoder mf mb = Inr d" "feed_all d cs = (Inr fs, d')" "fst (finish d') = Inr ()"
  shows "\<exists>ws. encodings fs ws \<and> concat cs = concat ws \<and> d_received d' = length (concat cs)"
proof -
  have d: "decoder_ok d" "waiting d" "\<not> d_retired d" "d_pending d = []" "d_kind d = None" "d_received d = 0"
    using new_decoder_ok [OF assms(1)] by auto
  have fin: "d_pending d' = []" "d_kind d' = None"
    using assms(3) by (auto simp: finish_def dec_fail_def split: if_splits)
  show ?thesis
    using feed_all_sound [OF assms(2) d(1-3)] d(4-6) fin
    by (simp add: open_header_def encodings_iff)
qed

lemma sample_run:
  "feed_all sample_decoder sample_chunks =
     (Inr [sample_frame], sample_decoder\<lparr>d_frames := 1, d_received := 11\<rparr>)"
  by (simp add: feed_def sample_decoder_def sample_chunks_def feed_loop.simps read_header_def
      read_body_def unpack_header_def MAGIC_def HEADER_SIZE_def MAX_BRIDGE_FEED_BYTES_def
      unpack_u32_def frame_types_def all_frame_types_def frame_code_def payload_limit_def
      sample_frame_def)

theorem decode_exact_witness:
  "\<exists>ws. encodings [sample_frame] ws \<and> concat sample_chunks = concat ws"
  using decode_exact [OF sample_new sample_run] by (auto simp: finish_def sample_decoder_def)

text \<open>Bounds: in every state an instance can reach, the bytes and frames admitted are
  within its budgets, the budgets within the module's limits, and the bytes it holds back
  never exceed one mebibyte, the largest payload limit.\<close>

theorem decoder_memory_bounded:
  assumes "dec_reach d"
  shows "length (d_pending d) \<le> 1024 * 1024 \<and> d_received d \<le> MAX_BRIDGE_TOTAL_BYTES \<and>
         d_frames d \<le> MAX_BRIDGE_FRAMES"
  using dec_reach_bounded [OF assms] by (auto simp: decoder_bounded_def)

theorem decoder_memory_bounded_witness:
  "\<exists>d. new_decoder 1 9 = Inr d \<and> length (d_pending d) \<le> 1024 * 1024"
proof -
  obtain d where d: "new_decoder 1 9 = Inr d"
    by (simp add: new_decoder_def MAX_BRIDGE_FRAMES_def MAX_BRIDGE_TOTAL_BYTES_def)
  then show ?thesis using decoder_memory_bounded [OF dec_start [OF d]] by blast
qed

text \<open>C38. Failure and end of input retire the instance for good: after an error or a
  finished input, every later feed and finish reports that it is retired and changes nothing.\<close>

theorem decoder_retires:
  assumes "dec_reach d" "fst (feed d c) = Inl e \<or> d' = snd (finish d)"
    and "d' = snd (feed d c) \<or> d' = snd (finish d)"
  shows "feed d' b = (Inl Bridge_retired, d') \<and> finish d' = (Inl Bridge_retired, d')"
proof -
  have "d_retired d'"
  proof (cases "d' = snd (finish d)")
    case True
    then show ?thesis by (auto simp: finish_def dec_fail_def)
  next
    case False
    with assms(2,3) have e: "fst (feed d c) = Inl e" "d' = snd (feed d c)" by auto
    then have f: "feed d c = (Inl e, d')" by (metis prod.collapse)
    show ?thesis
    proof (cases "d_retired d")
      case True
      then show ?thesis using f by (simp add: feed_def)
    next
      case live: False
      then show ?thesis
        using feed_frame [OF f _ live] dec_reach_bounded [OF assms(1)] by auto
    qed
  qed
  then show ?thesis by (simp add: feed_def finish_def)
qed

theorem decoder_retires_witness:
  "\<exists>d. new_decoder 1 9 = Inr d \<and>
     feed (snd (finish d)) [1] = (Inl Bridge_retired, snd (finish d))"
proof -
  obtain d where d: "new_decoder 1 9 = Inr d"
    by (simp add: new_decoder_def MAX_BRIDGE_FRAMES_def MAX_BRIDGE_TOTAL_BYTES_def)
  then show ?thesis using decoder_retires [OF dec_start [OF d], of "[]"] by blast
qed

end
