(* ===== verification/Bridge_Sequence.thy ===== *)
theory Bridge_Sequence
  imports Bridge_Protocol
begin

text \<open>
  The wire order of one review bridge, \<open>review_bridge_sequence.py\<close>: which frame may follow
  which, in each direction, and the budgets. The state is the instance's attributes; the
  dictionaries keyed by direction are functions. The abstract specification \<open>legal\<close> reads
  only the history of accepted frames; the flags are shown to summarise that history.
\<close>

datatype direction = HOST_TO_CHILD | CHILD_TO_HOST

datatype disposition = OBSERVED | DISCARD_STDOUT

datatype seq_error =
    Seq_budget_invalid | Seq_retired | Seq_direction_closed | Seq_frame_invalid
  | Seq_frame_budget | Seq_byte_budget | Seq_after_exit | Seq_order_invalid
  | Seq_stream_budget | Seq_eof_incomplete

record sequence =
  q_max_frames :: nat
  q_max_bytes :: nat
  q_frames :: "direction \<Rightarrow> nat"
  q_bytes :: "direction \<Rightarrow> nat"
  q_eof :: "direction \<Rightarrow> bool"
  q_spec :: bool
  q_capsule :: bool
  q_request :: bool
  q_headers :: bool
  q_end :: bool
  q_cancelled :: bool
  q_exit :: bool
  q_failed :: bool
  q_response_bytes :: nat
  q_stdout_bytes :: nat

definition new_sequence :: "nat \<Rightarrow> nat \<Rightarrow> seq_error + sequence" where
  "new_sequence mf mb =
     (if \<not> (1 \<le> mf \<and> mf \<le> MAX_BRIDGE_FRAMES) \<or> \<not> (1 \<le> mb \<and> mb \<le> MAX_BRIDGE_TOTAL_BYTES)
      then Inl Seq_budget_invalid
      else Inr \<lparr>q_max_frames = mf, q_max_bytes = mb, q_frames = (\<lambda>_. 0), q_bytes = (\<lambda>_. 0),
                q_eof = (\<lambda>_. False), q_spec = False, q_capsule = False, q_request = False,
                q_headers = False, q_end = False, q_cancelled = False, q_exit = False,
                q_failed = False, q_response_bytes = 0, q_stdout_bytes = 0\<rparr>)"

text \<open>The observation properties.\<close>

definition transport_closed :: "sequence \<Rightarrow> bool" where
  "transport_closed s \<longleftrightarrow> q_eof s HOST_TO_CHILD \<and> q_eof s CHILD_TO_HOST \<and> \<not> q_failed s"

definition response_incomplete :: "sequence \<Rightarrow> bool" where
  "response_incomplete s \<longleftrightarrow> q_exit s \<and> q_request s \<and> \<not> q_end s"

definition seq_fail :: "seq_error \<Rightarrow> sequence \<Rightarrow> (seq_error, sequence, 'a) outcome" where
  "seq_fail e s = (Inl e, s\<lparr>q_failed := True\<rparr>)"

text \<open>The chain of conditions of lines 136--159: allowed or not, and the disposition.\<close>

definition order_allowed :: "sequence \<Rightarrow> direction \<Rightarrow> frame_type \<Rightarrow> bool" where
  "order_allowed s dir k =
     (if dir = HOST_TO_CHILD then
        (if k = CANCEL then \<not> q_cancelled s
         else if \<not> q_cancelled s then
           (if k = SPEC then \<not> q_spec s
            else if k = CAPSULE then q_spec s \<and> \<not> q_capsule s
            else if k = RESPONSE_HEADERS then q_request s \<and> \<not> q_headers s
            else if k = RESPONSE_CHUNK then q_headers s \<and> \<not> q_end s
            else if k = RESPONSE_END then q_headers s \<and> \<not> q_end s
            else False)
         else False)
      else if k = NATIVE_EXIT then q_capsule s \<or> q_cancelled s
      else if q_capsule s then
        (if k = REQUEST then \<not> q_request s \<and> \<not> q_cancelled s
         else k = NATIVE_STDOUT)
      else False)"

definition frame_disposition :: "sequence \<Rightarrow> direction \<Rightarrow> frame_type \<Rightarrow> disposition" where
  "frame_disposition s dir k =
     (if dir = CHILD_TO_HOST \<and> k = NATIVE_STDOUT \<and> q_capsule s \<and> q_cancelled s
      then DISCARD_STDOUT else OBSERVED)"

text \<open>The counters and the flag of an accepted frame, lines 166--186.\<close>

definition record_frame :: "sequence \<Rightarrow> direction \<Rightarrow> frame_type \<Rightarrow> nat \<Rightarrow> sequence" where
  "record_frame s dir k n =
     (let s1 = s\<lparr>q_frames := (q_frames s)(dir := q_frames s dir + 1),
                 q_bytes := (q_bytes s)(dir := q_bytes s dir + (9 + n))\<rparr>
      in case k of
           SPEC \<Rightarrow> s1\<lparr>q_spec := True\<rparr>
         | CAPSULE \<Rightarrow> s1\<lparr>q_capsule := True\<rparr>
         | REQUEST \<Rightarrow> s1\<lparr>q_request := True\<rparr>
         | RESPONSE_HEADERS \<Rightarrow> s1\<lparr>q_headers := True\<rparr>
         | RESPONSE_CHUNK \<Rightarrow> s1\<lparr>q_response_bytes := q_response_bytes s + n\<rparr>
         | RESPONSE_END \<Rightarrow> s1\<lparr>q_end := True\<rparr>
         | NATIVE_STDOUT \<Rightarrow> s1\<lparr>q_stdout_bytes := q_stdout_bytes s + n\<rparr>
         | CANCEL \<Rightarrow> s1\<lparr>q_cancelled := True\<rparr>
         | NATIVE_EXIT \<Rightarrow> s1\<lparr>q_exit := True\<rparr>)"

definition observe :: "sequence \<Rightarrow> direction \<Rightarrow> bridge_frame \<Rightarrow> (seq_error, sequence, disposition) outcome"
where
  "observe s dir f =
     (let k = kind f; size = length (payload f) in
      if q_failed s then (Inl Seq_retired, s)
      else if q_eof s dir then seq_fail Seq_direction_closed s
      else if validate_bridge_frame f \<noteq> Inr () then seq_fail Seq_frame_invalid s
      else if q_frames s dir \<ge> q_max_frames s then seq_fail Seq_frame_budget s
      else if q_bytes s dir + (9 + size) > q_max_bytes s then seq_fail Seq_byte_budget s
      else if q_exit s then seq_fail Seq_after_exit s
      else if \<not> order_allowed s dir k then seq_fail Seq_order_invalid s
      else if (k = RESPONSE_CHUNK \<and> q_response_bytes s + size > 1024 * 1024)
           \<or> (k = NATIVE_STDOUT \<and> q_stdout_bytes s + size > 256 * 1024)
           then seq_fail Seq_stream_budget s
      else (Inr (frame_disposition s dir k), record_frame s dir k size))"

definition seq_finish :: "sequence \<Rightarrow> direction \<Rightarrow> (seq_error, sequence, unit) outcome" where
  "seq_finish s dir =
     (if q_failed s then (Inl Seq_retired, s)
      else if q_eof s dir then seq_fail Seq_direction_closed s
      else if \<not> (if dir = HOST_TO_CHILD then q_end s \<or> q_cancelled s \<or> q_exit s else q_exit s)
           then seq_fail Seq_eof_incomplete s
      else (Inr (), s\<lparr>q_eof := (q_eof s)(dir := True)\<rparr>))"

section \<open>The history and the order it must have\<close>

record event =
  ev_dir :: direction
  ev_frame :: bridge_frame
  ev_disp :: disposition

definition seen :: "frame_type \<Rightarrow> event list \<Rightarrow> bool" where
  "seen k tr \<longleftrightarrow> (\<exists>e \<in> set tr. kind (ev_frame e) = k)"

text \<open>
  The wire order, read off the history alone: the host sends the specification, then the
  capsule, and answers a request by headers, chunks and an end; the child answers the
  capsule by at most one request, by output and by an exit. A cancellation stops all host
  frames and new requests, and turns later output into output to discard. Nothing follows
  the exit.
\<close>

definition legal :: "event list \<Rightarrow> event \<Rightarrow> bool" where
  "legal tr e \<longleftrightarrow> \<not> seen NATIVE_EXIT tr \<and>
     (case ev_dir e of
        HOST_TO_CHILD \<Rightarrow> ev_disp e = OBSERVED \<and> \<not> seen CANCEL tr \<and>
          (case kind (ev_frame e) of
             CANCEL \<Rightarrow> True
           | SPEC \<Rightarrow> \<not> seen SPEC tr
           | CAPSULE \<Rightarrow> seen SPEC tr \<and> \<not> seen CAPSULE tr
           | RESPONSE_HEADERS \<Rightarrow> seen REQUEST tr \<and> \<not> seen RESPONSE_HEADERS tr
           | RESPONSE_CHUNK \<Rightarrow> seen RESPONSE_HEADERS tr \<and> \<not> seen RESPONSE_END tr
           | RESPONSE_END \<Rightarrow> seen RESPONSE_HEADERS tr \<and> \<not> seen RESPONSE_END tr
           | _ \<Rightarrow> False)
      | CHILD_TO_HOST \<Rightarrow>
          (case kind (ev_frame e) of
             NATIVE_EXIT \<Rightarrow> ev_disp e = OBSERVED \<and> (seen CAPSULE tr \<or> seen CANCEL tr)
           | REQUEST \<Rightarrow> ev_disp e = OBSERVED \<and> seen CAPSULE tr \<and> \<not> seen REQUEST tr \<and> \<not> seen CANCEL tr
           | NATIVE_STDOUT \<Rightarrow> seen CAPSULE tr \<and>
               ev_disp e = (if seen CANCEL tr then DISCARD_STDOUT else OBSERVED)
           | _ \<Rightarrow> False))"

text \<open>The states an instance reaches, with the frames it has accepted, oldest first.\<close>

inductive seq_reach :: "sequence \<Rightarrow> event list \<Rightarrow> bool" where
  seq_start: "new_sequence mf mb = Inr s \<Longrightarrow> seq_reach s []"
| seq_accept: "seq_reach s tr \<Longrightarrow> observe s dir f = (Inr disp, s') \<Longrightarrow>
    seq_reach s' (tr @ [\<lparr>ev_dir = dir, ev_frame = f, ev_disp = disp\<rparr>])"
| seq_refuse: "seq_reach s tr \<Longrightarrow> observe s dir f = (Inl e, s') \<Longrightarrow> seq_reach s' tr"
| seq_close: "seq_reach s tr \<Longrightarrow> seq_finish s dir = (r, s') \<Longrightarrow> seq_reach s' tr"

inductive_cases seq_reachE: "seq_reach s tr"

definition bytes_of :: "frame_type \<Rightarrow> event list \<Rightarrow> nat" where
  "bytes_of k tr = (\<Sum>e \<leftarrow> tr. if kind (ev_frame e) = k then length (payload (ev_frame e)) else 0)"

definition wire_bytes :: "direction \<Rightarrow> event list \<Rightarrow> nat" where
  "wire_bytes dir tr = (\<Sum>e \<leftarrow> tr. if ev_dir e = dir then length (wire (ev_frame e)) else 0)"

text \<open>The flags and counters are a summary of the history.\<close>

definition summary :: "sequence \<Rightarrow> event list \<Rightarrow> bool" where
  "summary s tr \<longleftrightarrow>
     q_spec s = seen SPEC tr \<and> q_capsule s = seen CAPSULE tr \<and> q_request s = seen REQUEST tr \<and>
     q_headers s = seen RESPONSE_HEADERS tr \<and> q_end s = seen RESPONSE_END tr \<and>
     q_cancelled s = seen CANCEL tr \<and> q_exit s = seen NATIVE_EXIT tr \<and>
     q_response_bytes s = bytes_of RESPONSE_CHUNK tr \<and> q_stdout_bytes s = bytes_of NATIVE_STDOUT tr \<and>
     (\<forall>dir. q_frames s dir = length (filter (\<lambda>e. ev_dir e = dir) tr) \<and> q_bytes s dir = wire_bytes dir tr)"

definition seq_budgets :: "sequence \<Rightarrow> bool" where
  "seq_budgets s \<longleftrightarrow> q_max_frames s \<le> MAX_BRIDGE_FRAMES \<and> q_max_bytes s \<le> MAX_BRIDGE_TOTAL_BYTES \<and>
     q_response_bytes s \<le> 1024 * 1024 \<and> q_stdout_bytes s \<le> 256 * 1024 \<and>
     (\<forall>dir. q_frames s dir \<le> q_max_frames s \<and> q_bytes s dir \<le> q_max_bytes s) \<and>
     (q_eof s CHILD_TO_HOST \<longrightarrow> q_exit s) \<and>
     (q_eof s HOST_TO_CHILD \<longrightarrow> q_end s \<or> q_cancelled s \<or> q_exit s)"

lemma seen_snoc: "seen k (tr @ [e]) \<longleftrightarrow> seen k tr \<or> kind (ev_frame e) = k"
  by (auto simp: seen_def)

lemma seen_Nil: "\<not> seen k []"
  by (simp add: seen_def)

lemma bytes_of_snoc:
  "bytes_of k (tr @ [e]) = bytes_of k tr + (if kind (ev_frame e) = k then length (payload (ev_frame e)) else 0)"
  by (simp add: bytes_of_def)

lemma wire_bytes_snoc:
  "wire_bytes dir (tr @ [e]) = wire_bytes dir tr + (if ev_dir e = dir then 9 + length (payload (ev_frame e)) else 0)"
  by (simp add: wire_bytes_def length_wire HEADER_SIZE_def)

lemmas history_simps = seen_snoc seen_Nil bytes_of_snoc wire_bytes_snoc

lemma observe_accepts:
  assumes "observe s dir f = (Inr disp, s')"
  shows "\<not> q_failed s \<and> \<not> q_eof s dir \<and> valid_frame f \<and> q_frames s dir < q_max_frames s \<and>
    q_bytes s dir + (9 + length (payload f)) \<le> q_max_bytes s \<and> \<not> q_exit s \<and>
    order_allowed s dir (kind f) \<and> disp = frame_disposition s dir (kind f) \<and>
    (kind f = RESPONSE_CHUNK \<longrightarrow> q_response_bytes s + length (payload f) \<le> 1024 * 1024) \<and>
    (kind f = NATIVE_STDOUT \<longrightarrow> q_stdout_bytes s + length (payload f) \<le> 256 * 1024) \<and>
    s' = record_frame s dir (kind f) (length (payload f))"
  using assms
  by (auto simp: observe_def Let_def seq_fail_def validate_ok not_less not_le split: if_splits)

lemma observe_refuses: "observe s dir f = (Inl e, s') \<Longrightarrow> s' = s \<or> s' = s\<lparr>q_failed := True\<rparr>"
  by (auto simp: observe_def Let_def seq_fail_def split: if_splits)

lemma seq_finish_cases:
  assumes "seq_finish s dir = (r, s')"
  shows "s' = s \<or> s' = s\<lparr>q_failed := True\<rparr> \<or>
    r = Inr () \<and> \<not> q_failed s \<and> s' = s\<lparr>q_eof := (q_eof s)(dir := True)\<rparr> \<and>
    (if dir = HOST_TO_CHILD then q_end s \<or> q_cancelled s \<or> q_exit s else q_exit s)"
  using assms by (auto simp: seq_finish_def seq_fail_def split: if_splits)

lemma record_frame_sel:
  "q_spec (record_frame s dir k n) \<longleftrightarrow> q_spec s \<or> k = SPEC"
  "q_capsule (record_frame s dir k n) \<longleftrightarrow> q_capsule s \<or> k = CAPSULE"
  "q_request (record_frame s dir k n) \<longleftrightarrow> q_request s \<or> k = REQUEST"
  "q_headers (record_frame s dir k n) \<longleftrightarrow> q_headers s \<or> k = RESPONSE_HEADERS"
  "q_end (record_frame s dir k n) \<longleftrightarrow> q_end s \<or> k = RESPONSE_END"
  "q_cancelled (record_frame s dir k n) \<longleftrightarrow> q_cancelled s \<or> k = CANCEL"
  "q_exit (record_frame s dir k n) \<longleftrightarrow> q_exit s \<or> k = NATIVE_EXIT"
  "q_response_bytes (record_frame s dir k n) = q_response_bytes s + (if k = RESPONSE_CHUNK then n else 0)"
  "q_stdout_bytes (record_frame s dir k n) = q_stdout_bytes s + (if k = NATIVE_STDOUT then n else 0)"
  "q_frames (record_frame s dir k n) = (q_frames s)(dir := q_frames s dir + 1)"
  "q_bytes (record_frame s dir k n) = (q_bytes s)(dir := q_bytes s dir + (9 + n))"
  "q_eof (record_frame s dir k n) = q_eof s" "q_failed (record_frame s dir k n) = q_failed s"
  "q_max_frames (record_frame s dir k n) = q_max_frames s"
  "q_max_bytes (record_frame s dir k n) = q_max_bytes s"
  by (cases k; simp add: record_frame_def Let_def)+

lemma summary_record:
  assumes "summary s tr"
  shows "summary (record_frame s dir (kind f) (length (payload f)))
           (tr @ [\<lparr>ev_dir = dir, ev_frame = f, ev_disp = disp\<rparr>])"
  using assms
  by (simp add: summary_def record_frame_sel history_simps)

lemma summary_keep [simp]:
  "summary (s\<lparr>q_failed := b\<rparr>) tr = summary s tr" "summary (s\<lparr>q_eof := g\<rparr>) tr = summary s tr"
  by (simp_all add: summary_def)

lemma seq_reach_summary: "seq_reach s tr \<Longrightarrow> summary s tr"
proof (induction rule: seq_reach.induct)
  case (seq_start mf mb s)
  then show ?case
    by (auto simp: new_sequence_def summary_def seen_Nil bytes_of_def wire_bytes_def split: if_splits)
next
  case (seq_accept s tr dir f disp s')
  then show ?case using observe_accepts summary_record by metis
next
  case (seq_refuse s tr dir f e s')
  then show ?case using observe_refuses [OF seq_refuse.hyps(2)] by auto
next
  case (seq_close s tr dir r s')
  then show ?case using seq_finish_cases [OF seq_close.hyps(2)] by auto
qed

lemma seq_budgets_record:
  assumes "seq_budgets s" "observe s dir f = (Inr disp, s')"
  shows "seq_budgets s'"
proof -
  note acc = observe_accepts [OF assms(2)]
  have s': "s' = record_frame s dir (kind f) (length (payload f))" using acc by blast
  have old: "q_response_bytes s \<le> 1024 * 1024" "q_stdout_bytes s \<le> 256 * 1024"
    "q_max_frames s \<le> MAX_BRIDGE_FRAMES" "q_max_bytes s \<le> MAX_BRIDGE_TOTAL_BYTES"
    "\<And>d. q_frames s d \<le> q_max_frames s" "\<And>d. q_bytes s d \<le> q_max_bytes s"
    "q_eof s CHILD_TO_HOST \<longrightarrow> q_exit s"
    "q_eof s HOST_TO_CHILD \<longrightarrow> q_end s \<or> q_cancelled s \<or> q_exit s"
    using assms(1) by (simp_all add: seq_budgets_def)
  have streams: "q_response_bytes s' \<le> 1024 * 1024" "q_stdout_bytes s' \<le> 256 * 1024"
    using acc old(1,2) by (simp_all add: s' record_frame_sel)
  have "q_frames s' d \<le> q_max_frames s'" "q_bytes s' d \<le> q_max_bytes s'" for d
    using acc old(5,6) [of d] by (simp_all add: s' record_frame_sel)
  then show ?thesis
    using streams old by (auto simp: seq_budgets_def s' record_frame_sel)
qed

lemma seq_reach_budgets: "seq_reach s tr \<Longrightarrow> seq_budgets s"
proof (induction rule: seq_reach.induct)
  case (seq_start mf mb s)
  then show ?case by (auto simp: new_sequence_def seq_budgets_def split: if_splits)
next
  case (seq_accept s tr dir f disp s')
  then show ?case using seq_budgets_record by blast
next
  case (seq_refuse s tr dir f e s')
  then show ?case using observe_refuses [OF seq_refuse.hyps(2)] by (auto simp: seq_budgets_def)
next
  case (seq_close s tr dir r s')
  then show ?case
    using seq_finish_cases [OF seq_close.hyps(2)]
    by (cases dir) (auto simp: seq_budgets_def split: if_splits)
qed

lemma order_allowed_legal:
  assumes "summary s tr"
  shows "\<not> q_exit s \<and> order_allowed s dir k \<and> disp = frame_disposition s dir k \<and> k = kind f \<longleftrightarrow>
         legal tr \<lparr>ev_dir = dir, ev_frame = f, ev_disp = disp\<rparr> \<and> k = kind f"
proof (cases "k = kind f")
  case True
  have flags: "q_exit s = seen NATIVE_EXIT tr" "q_cancelled s = seen CANCEL tr" "q_spec s = seen SPEC tr"
    "q_capsule s = seen CAPSULE tr" "q_request s = seen REQUEST tr" "q_headers s = seen RESPONSE_HEADERS tr"
    "q_end s = seen RESPONSE_END tr"
    using assms by (simp_all add: summary_def)
  show ?thesis
    unfolding order_allowed_def frame_disposition_def legal_def flags True
    by (cases dir; cases "kind f"; simp) blast+
qed simp

text \<open>Every accepted frame was legal after the frames before it.\<close>

lemma seq_reach_legal:
  "seq_reach s tr \<Longrightarrow> i < length tr \<Longrightarrow> legal (take i tr) (tr ! i)"
proof (induction arbitrary: i rule: seq_reach.induct)
  case (seq_accept s tr dir f disp s')
  let ?e = "\<lparr>ev_dir = dir, ev_frame = f, ev_disp = disp\<rparr>"
  have "legal tr ?e"
    using observe_accepts [OF seq_accept.hyps(2)]
      order_allowed_legal [OF seq_reach_summary [OF seq_accept.hyps(1)], of dir "kind f" disp f]
    by simp
  then show ?case
    using seq_accept.IH seq_accept.prems by (cases "i < length tr") (auto simp: nth_append less_Suc_eq)
qed auto

section \<open>Properties of the order\<close>

text \<open>C39. The implementation's flags decide exactly the abstract wire order: on any reachable
  live state, with the direction open, a valid frame within the budgets is accepted if and
  only if it is legal after the accepted history, with the disposition the history dictates.\<close>

theorem sequence_refines_history:
  assumes "seq_reach s tr" "\<not> q_failed s" "\<not> q_eof s dir" "valid_frame f"
    and "q_frames s dir < q_max_frames s" "q_bytes s dir + length (wire f) \<le> q_max_bytes s"
    and "kind f = RESPONSE_CHUNK \<Longrightarrow> bytes_of RESPONSE_CHUNK tr + length (payload f) \<le> 1024 * 1024"
    and "kind f = NATIVE_STDOUT \<Longrightarrow> bytes_of NATIVE_STDOUT tr + length (payload f) \<le> 256 * 1024"
  shows "fst (observe s dir f) = Inr disp \<longleftrightarrow> legal tr \<lparr>ev_dir = dir, ev_frame = f, ev_disp = disp\<rparr>"
proof -
  have sm: "summary s tr" using assms(1) by (rule seq_reach_summary)
  then have streams: "\<not> (kind f = RESPONSE_CHUNK \<and> q_response_bytes s + length (payload f) > 1024 * 1024)"
    "\<not> (kind f = NATIVE_STDOUT \<and> q_stdout_bytes s + length (payload f) > 256 * 1024)"
    using assms(7,8) by (auto simp: summary_def)
  have "fst (observe s dir f) = Inr disp \<longleftrightarrow>
      \<not> q_exit s \<and> order_allowed s dir (kind f) \<and> disp = frame_disposition s dir (kind f)"
    using assms(2-6) streams
    by (auto simp: observe_def Let_def seq_fail_def validate_ok length_wire HEADER_SIZE_def)
  then show ?thesis using order_allowed_legal [OF sm, of dir "kind f" disp f] by simp
qed

lemma seq_start_example:
  "seq_reach (the (case new_sequence 1024 (3 * 1024 * 1024) of Inr s \<Rightarrow> Some s | Inl _ \<Rightarrow> None)) []"
  by (rule seq_start [of 1024 "3 * 1024 * 1024"])
     (simp add: new_sequence_def MAX_BRIDGE_FRAMES_def MAX_BRIDGE_TOTAL_BYTES_def)

theorem sequence_refines_history_witness:
  "\<exists>s. seq_reach s [] \<and>
     fst (observe s HOST_TO_CHILD \<lparr>kind = SPEC, payload = []\<rparr>) = Inr OBSERVED \<and>
     fst (observe s CHILD_TO_HOST \<lparr>kind = REQUEST, payload = []\<rparr>) \<noteq> Inr OBSERVED"
proof -
  obtain s where s: "new_sequence 1024 (3 * 1024 * 1024) = Inr s"
    by (simp add: new_sequence_def MAX_BRIDGE_FRAMES_def MAX_BRIDGE_TOTAL_BYTES_def)
  then have r: "seq_reach s []" by (rule seq_start)
  have fresh: "\<not> q_failed s" "\<not> q_eof s d" "q_frames s d < q_max_frames s"
    "q_bytes s d + 9 \<le> q_max_bytes s" for d
    using s by (auto simp: new_sequence_def split: if_splits)
  have w: "length (wire \<lparr>kind = k, payload = []\<rparr>) = 9" for k
    by (simp add: length_wire HEADER_SIZE_def)
  have v: "valid_frame \<lparr>kind = k, payload = []\<rparr>" for k
    by (simp add: valid_frame_def)
  show ?thesis
    using sequence_refines_history [OF r fresh(1,2) v fresh(3), of HOST_TO_CHILD SPEC OBSERVED]
      sequence_refines_history [OF r fresh(1,2) v fresh(3), of CHILD_TO_HOST REQUEST OBSERVED] r w fresh(4)
    by (auto simp: legal_def seen_Nil)
qed

text \<open>Ordering safety of any run: each of specification, capsule, request, response
  headers, response end, cancellation and exit is accepted at most once; nothing is accepted
  after the exit; output is published only before the cancellation; a request follows the
  capsule and the response follows the request.\<close>

theorem sequence_order_safe:
  assumes "seq_reach s tr" "i < j" "j < length tr"
  defines "a \<equiv> tr ! i" and "b \<equiv> tr ! j"
  shows "kind (ev_frame a) \<noteq> NATIVE_EXIT \<and>
    (kind (ev_frame a) = kind (ev_frame b) \<longrightarrow> kind (ev_frame a) \<in> {RESPONSE_CHUNK, NATIVE_STDOUT}) \<and>
    (kind (ev_frame a) = CANCEL \<longrightarrow>
       kind (ev_frame b) = NATIVE_EXIT \<or> kind (ev_frame b) = NATIVE_STDOUT \<and> ev_disp b = DISCARD_STDOUT) \<and>
    (kind (ev_frame b) = REQUEST \<longrightarrow> seen CAPSULE (take j tr)) \<and>
    (kind (ev_frame b) = RESPONSE_CHUNK \<longrightarrow> seen RESPONSE_HEADERS (take j tr) \<and> \<not> seen RESPONSE_END (take j tr)) \<and>
    (kind (ev_frame b) = RESPONSE_HEADERS \<longrightarrow> seen REQUEST (take j tr))"
proof -
  have lb: "legal (take j tr) b"
    unfolding b_def using assms(1,3) by (rule seq_reach_legal)
  have "a \<in> set (take j tr)"
    using assms(2,3) by (auto simp: a_def in_set_conv_nth intro!: exI [of _ i])
  then have sa: "seen (kind (ev_frame a)) (take j tr)"
    by (auto simp: seen_def)
  show ?thesis
    using lb sa
    by (cases "ev_dir b"; cases "kind (ev_frame b)") (auto simp: legal_def)
qed

text \<open>A run of three frames: specification, cancellation, exit.\<close>

definition cancelled_run :: "event list" where
  "cancelled_run = [\<lparr>ev_dir = HOST_TO_CHILD, ev_frame = \<lparr>kind = SPEC, payload = []\<rparr>, ev_disp = OBSERVED\<rparr>,
     \<lparr>ev_dir = HOST_TO_CHILD, ev_frame = \<lparr>kind = CANCEL, payload = []\<rparr>, ev_disp = OBSERVED\<rparr>,
     \<lparr>ev_dir = CHILD_TO_HOST, ev_frame = \<lparr>kind = NATIVE_EXIT, payload = []\<rparr>, ev_disp = OBSERVED\<rparr>]"

lemma cancelled_run_reachable: "\<exists>s. seq_reach s cancelled_run"
proof -
  obtain s where s: "new_sequence 1024 (3 * 1024 * 1024) = Inr s"
    by (simp add: new_sequence_def MAX_BRIDGE_FRAMES_def MAX_BRIDGE_TOTAL_BYTES_def)
  let ?f = "\<lambda>k. \<lparr>kind = k, payload = []\<rparr>"
  let ?s1 = "record_frame s HOST_TO_CHILD SPEC 0"
  let ?s2 = "record_frame ?s1 HOST_TO_CHILD CANCEL 0"
  let ?s3 = "record_frame ?s2 CHILD_TO_HOST NATIVE_EXIT 0"
  have fresh: "\<not> q_failed s \<and> \<not> q_exit s \<and> \<not> q_cancelled s \<and> \<not> q_spec s \<and> (\<forall>d. \<not> q_eof s d \<and> q_frames s d = 0 \<and>
    q_bytes s d = 0) \<and> q_max_frames s = 1024 \<and> q_max_bytes s = 3 * 1024 * 1024"
    using s by (auto simp: new_sequence_def split: if_splits)
  have "observe s HOST_TO_CHILD (?f SPEC) = (Inr OBSERVED, ?s1)"
    "observe ?s1 HOST_TO_CHILD (?f CANCEL) = (Inr OBSERVED, ?s2)"
    "observe ?s2 CHILD_TO_HOST (?f NATIVE_EXIT) = (Inr OBSERVED, ?s3)"
    using fresh
    by (simp_all add: observe_def order_allowed_def frame_disposition_def record_frame_sel
        validate_bridge_frame_def)
  then have "seq_reach ?s3 ((([] @ [\<lparr>ev_dir = HOST_TO_CHILD, ev_frame = ?f SPEC, ev_disp = OBSERVED\<rparr>])
      @ [\<lparr>ev_dir = HOST_TO_CHILD, ev_frame = ?f CANCEL, ev_disp = OBSERVED\<rparr>])
      @ [\<lparr>ev_dir = CHILD_TO_HOST, ev_frame = ?f NATIVE_EXIT, ev_disp = OBSERVED\<rparr>])"
    using seq_start [OF s] seq_accept by blast
  then show ?thesis unfolding cancelled_run_def by (auto intro: exI [of _ ?s3])
qed

theorem sequence_order_safe_witness:
  "\<exists>s. seq_reach s cancelled_run \<and> kind (ev_frame (cancelled_run ! 1)) = CANCEL \<and>
     kind (ev_frame (cancelled_run ! 2)) = NATIVE_EXIT"
proof -
  obtain s where s: "seq_reach s cancelled_run" using cancelled_run_reachable by blast
  have "kind (ev_frame (cancelled_run ! 1)) = CANCEL" by (simp add: cancelled_run_def)
  moreover have "length cancelled_run = 3" by (simp add: cancelled_run_def)
  moreover have "kind (ev_frame (cancelled_run ! 2)) \<noteq> NATIVE_STDOUT" by (simp add: cancelled_run_def)
  ultimately show ?thesis using s sequence_order_safe [OF s, of 1 2] by auto
qed

text \<open>Closing is evidence of the exit: a transport observed closed without failure has
  seen the child's exit frame, its accepted frames are within the frame and byte budgets of
  each direction and within the two stream limits.\<close>

theorem sequence_closed_after_exit:
  assumes "seq_reach s tr"
  shows "(transport_closed s \<longrightarrow> seen NATIVE_EXIT tr) \<and>
    bytes_of RESPONSE_CHUNK tr \<le> 1024 * 1024 \<and> bytes_of NATIVE_STDOUT tr \<le> 256 * 1024 \<and>
    length (filter (\<lambda>e. ev_dir e = dir) tr) \<le> MAX_BRIDGE_FRAMES \<and> wire_bytes dir tr \<le> MAX_BRIDGE_TOTAL_BYTES"
proof -
  have sm: "q_exit s = seen NATIVE_EXIT tr" "q_response_bytes s = bytes_of RESPONSE_CHUNK tr"
    "q_stdout_bytes s = bytes_of NATIVE_STDOUT tr"
    "q_frames s dir = length (filter (\<lambda>e. ev_dir e = dir) tr)" "q_bytes s dir = wire_bytes dir tr"
    using seq_reach_summary [OF assms] by (simp_all add: summary_def)
  have bd: "q_response_bytes s \<le> 1024 * 1024" "q_stdout_bytes s \<le> 256 * 1024"
    "q_frames s dir \<le> q_max_frames s" "q_max_frames s \<le> MAX_BRIDGE_FRAMES"
    "q_bytes s dir \<le> q_max_bytes s" "q_max_bytes s \<le> MAX_BRIDGE_TOTAL_BYTES"
    "q_eof s CHILD_TO_HOST \<Longrightarrow> q_exit s"
    using seq_reach_budgets [OF assms] by (simp_all add: seq_budgets_def)
  show ?thesis
    unfolding sm [symmetric] using bd by (auto simp: transport_closed_def)
qed

theorem sequence_closed_after_exit_witness:
  "\<exists>s. seq_reach s cancelled_run \<and> wire_bytes HOST_TO_CHILD cancelled_run \<le> MAX_BRIDGE_TOTAL_BYTES"
  using cancelled_run_reachable sequence_closed_after_exit [of _ cancelled_run HOST_TO_CHILD] by blast

end
