(* ===== verification/Bridge_Write.thy ===== *)
theory Bridge_Write
  imports Bridge_Protocol
begin

text \<open>
  The offline output buffer of \<open>review_bridge_write_buffer.py\<close>: a queue of encoded frames,
  an offset into the first one, the outstanding offer and the lifetime counters. The
  abstract view is a byte stream: what has been advanced, followed by what is still held.
  The interface an I/O owner uses (\<open>peek\<close>, \<open>advance\<close>) is a locale with the laws of a
  byte source; the buffer is an interpretation of it.
\<close>

datatype write_error =
    Write_budget_invalid | Write_retired | Write_frame_invalid | Write_frame_capacity
  | Write_lifetime_budget | Write_offer_bound | Write_offer_inflight | Write_advance_invalid
  | Write_response_bound

record write_buffer =
  w_capacity :: nat
  w_max_frames :: nat
  w_max_bytes :: nat
  w_queue :: "bytes list"
  w_offset :: nat
  w_offer :: nat
  w_pending :: nat
  w_frames :: nat
  w_bytes :: nat
  w_advanced :: nat
  w_cancelled :: bool
  w_failed :: bool

definition new_write_buffer :: "nat \<Rightarrow> nat \<Rightarrow> nat \<Rightarrow> write_error + write_buffer" where
  "new_write_buffer cap mf mb =
     (if \<not> (1 \<le> cap \<and> cap \<le> MAX_BRIDGE_TOTAL_BYTES) \<or> \<not> (1 \<le> mf \<and> mf \<le> MAX_BRIDGE_FRAMES)
         \<or> \<not> (1 \<le> mb \<and> mb \<le> MAX_BRIDGE_TOTAL_BYTES)
      then Inl Write_budget_invalid
      else Inr \<lparr>w_capacity = cap, w_max_frames = mf, w_max_bytes = mb, w_queue = [], w_offset = 0,
                w_offer = 0, w_pending = 0, w_frames = 0, w_bytes = 0, w_advanced = 0,
                w_cancelled = False, w_failed = False\<rparr>)"

definition wb_open :: "write_buffer \<Rightarrow> bool" where
  "wb_open b \<longleftrightarrow> \<not> (w_failed b \<or> w_cancelled b)"

definition wb_fail :: "write_error \<Rightarrow> write_buffer \<Rightarrow> (write_error, write_buffer, 'a) outcome" where
  "wb_fail e b = (Inl e, b\<lparr>w_failed := True, w_queue := [], w_pending := 0, w_offset := 0, w_offer := 0\<rparr>)"

definition wb_enqueue :: "write_buffer \<Rightarrow> bridge_frame \<Rightarrow> (write_error, write_buffer, bool) outcome" where
  "wb_enqueue b f =
     (if \<not> wb_open b then (Inl Write_retired, b)
      else case encode_bridge_frame f of
        Inl _ \<Rightarrow> wb_fail Write_frame_invalid b
      | Inr w \<Rightarrow>
          (let n = length w in
           if n > w_capacity b then wb_fail Write_frame_capacity b
           else if w_frames b \<ge> w_max_frames b \<or> w_bytes b + n > w_max_bytes b
                then wb_fail Write_lifetime_budget b
           else if w_pending b + n > w_capacity b then (Inr False, b)
           else (Inr True, b\<lparr>w_queue := w_queue b @ [w], w_pending := w_pending b + n,
                             w_frames := w_frames b + 1, w_bytes := w_bytes b + n\<rparr>)))"

definition wb_peek :: "write_buffer \<Rightarrow> nat \<Rightarrow> (write_error, write_buffer, bytes) outcome" where
  "wb_peek b m =
     (if \<not> wb_open b then (Inl Write_retired, b)
      else if \<not> (1 \<le> m \<and> m \<le> MAX_BRIDGE_FEED_BYTES) then wb_fail Write_offer_bound b
      else case w_queue b of
        [] \<Rightarrow> (Inr [], b)
      | w # _ \<Rightarrow>
          if w_offer b \<noteq> 0 \<and> m < w_offer b then wb_fail Write_offer_inflight b
          else let b' = (if w_offer b = 0 then b\<lparr>w_offer := min m (length w - w_offset b)\<rparr> else b)
               in (Inr (take (w_offer b') (drop (w_offset b') w)), b'))"

definition wb_advance :: "write_buffer \<Rightarrow> nat \<Rightarrow> (write_error, write_buffer, unit) outcome" where
  "wb_advance b n =
     (if \<not> wb_open b then (Inl Write_retired, b)
      else if w_offer b = 0 \<or> \<not> n \<le> w_offer b then wb_fail Write_advance_invalid b
      else if n = 0 then (Inr (), b)
      else let b' = b\<lparr>w_offset := w_offset b + n, w_pending := w_pending b - n,
                      w_advanced := w_advanced b + n, w_offer := 0\<rparr>
           in (Inr (), if w_offset b' = length (hd (w_queue b'))
                       then b'\<lparr>w_queue := tl (w_queue b'), w_offset := 0\<rparr> else b'))"

definition wb_cancel :: "write_buffer \<Rightarrow> write_buffer" where
  "wb_cancel b = b\<lparr>w_cancelled := True, w_queue := [], w_pending := 0, w_offset := 0, w_offer := 0\<rparr>"

text \<open>\<open>bounded_response_frames\<close>: the headers, the body cut into pieces of 64 KiB, the end.\<close>

fun body_chunks :: "nat \<Rightarrow> bytes \<Rightarrow> bytes list" where
  "body_chunks n body = (if body = [] \<or> n = 0 then [] else take n body # body_chunks n (drop n body))"

declare body_chunks.simps [simp del]

definition bounded_response_frames :: "bytes \<Rightarrow> bytes \<Rightarrow> write_error + bridge_frame list" where
  "bounded_response_frames headers body =
     (if length headers > 16 * 1024 \<or> length body > 1024 * 1024 then Inl Write_response_bound
      else Inr (\<lparr>kind = RESPONSE_HEADERS, payload = headers\<rparr>
                # map (\<lambda>c. \<lparr>kind = RESPONSE_CHUNK, payload = c\<rparr>) (body_chunks 65536 body)
                @ [\<lparr>kind = RESPONSE_END, payload = []\<rparr>]))"

section \<open>The abstract byte stream\<close>

definition content :: "write_buffer \<Rightarrow> bytes" where
  "content b = drop (w_offset b) (concat (w_queue b))"

text \<open>
  The invariant: no empty frame is queued, the offset is inside the first one, the offer is
  what remains of it at most, the pending counter is the length of the content, and the
  admitted bytes are the advanced ones plus the pending ones while the buffer is open.
\<close>

definition wb_ok :: "write_buffer \<Rightarrow> bool" where
  "wb_ok b \<longleftrightarrow>
     (case w_queue b of [] \<Rightarrow> w_offset b = 0 \<and> w_offer b = 0
      | w # _ \<Rightarrow> w_offset b < length w \<and> w_offset b + w_offer b \<le> length w) \<and>
     (\<forall>w \<in> set (w_queue b). w \<noteq> []) \<and>
     w_pending b = length (content b) \<and> w_pending b \<le> w_capacity b \<and>
     w_capacity b \<le> MAX_BRIDGE_TOTAL_BYTES \<and>
     w_bytes b \<le> w_max_bytes b \<and> w_frames b \<le> w_max_frames b \<and>
     w_advanced b + w_pending b \<le> w_bytes b \<and>
     (wb_open b \<longrightarrow> w_advanced b + w_pending b = w_bytes b)"

lemma content_Cons:
  "w_queue b = w # q \<Longrightarrow> w_offset b < length w \<Longrightarrow> content b = drop (w_offset b) w @ concat q"
  by (simp add: content_def)

lemma new_write_buffer_ok:
  assumes "new_write_buffer cap mf mb = Inr b"
  shows "wb_ok b \<and> wb_open b \<and> content b = [] \<and> w_advanced b = 0 \<and> w_max_frames b = mf \<and> w_frames b = 0 \<and>
         w_offer b = 0"
proof -
  have b: "b = \<lparr>w_capacity = cap, w_max_frames = mf, w_max_bytes = mb, w_queue = [], w_offset = 0,
      w_offer = 0, w_pending = 0, w_frames = 0, w_bytes = 0, w_advanced = 0,
      w_cancelled = False, w_failed = False\<rparr>" and "cap \<le> MAX_BRIDGE_TOTAL_BYTES"
    using assms by (simp_all add: new_write_buffer_def split: if_splits)
  then show ?thesis by (simp add: wb_ok_def wb_open_def content_def)
qed

lemma wb_cleared_ok:
  assumes "wb_ok b" "w_queue b' = []" "w_offset b' = 0" "w_offer b' = 0" "w_pending b' = 0" "\<not> wb_open b'"
    and "w_capacity b' = w_capacity b" "w_bytes b' = w_bytes b" "w_max_bytes b' = w_max_bytes b"
    and "w_frames b' = w_frames b" "w_max_frames b' = w_max_frames b" "w_advanced b' = w_advanced b"
  shows "wb_ok b' \<and> content b' = []"
proof -
  have "w_capacity b \<le> MAX_BRIDGE_TOTAL_BYTES" "w_bytes b \<le> w_max_bytes b" "w_frames b \<le> w_max_frames b"
    "w_advanced b \<le> w_bytes b"
    using assms(1) by (simp_all add: wb_ok_def)
  then show ?thesis using assms(2-) by (simp add: wb_ok_def content_def)
qed

lemma wb_fail_ok:
  assumes "wb_ok b" "wb_fail e b = (r, b')"
  shows "wb_ok b' \<and> content b' = [] \<and> \<not> wb_open b' \<and> r = Inl e"
proof -
  have "wb_ok b' \<and> content b' = []"
    by (rule wb_cleared_ok [OF assms(1)]) (use assms(2) in \<open>auto simp: wb_fail_def wb_open_def\<close>)
  then show ?thesis using assms(2) by (auto simp: wb_fail_def wb_open_def)
qed

lemma wb_cancel_ok:
  assumes "wb_ok b"
  shows "wb_ok (wb_cancel b) \<and> content (wb_cancel b) = [] \<and> \<not> wb_open (wb_cancel b)"
proof -
  have "wb_ok (wb_cancel b) \<and> content (wb_cancel b) = []"
    by (rule wb_cleared_ok [OF assms]) (auto simp: wb_cancel_def wb_open_def)
  then show ?thesis by (simp add: wb_cancel_def wb_open_def)
qed

lemma wb_enqueue_cases:
  assumes "wb_enqueue b f = (r, b')" "wb_ok b"
  obtains (refused) "b' = b" "r \<noteq> Inr True"
        | (failed) "wb_ok b'" "content b' = []" "\<not> wb_open b'" "w_advanced b' = w_advanced b" "wb_open b" "\<exists>e. r = Inl e"
        | (admitted) w where "encode_bridge_frame f = Inr w" "r = Inr True" "wb_ok b'" "wb_open b" "wb_open b'"
            "content b' = content b @ w" "w_advanced b' = w_advanced b" "w_frames b' = w_frames b + 1"
            "w_max_frames b' = w_max_frames b"
proof (cases "wb_open b")
  case False
  then show ?thesis using assms(1) refused by (auto simp: wb_enqueue_def)
next
  case live: True
  show ?thesis
  proof (cases "encode_bridge_frame f")
    case (Inl e)
    then show ?thesis
      using assms live failed wb_fail_ok [OF assms(2)] by (auto simp: wb_enqueue_def wb_fail_def)
  next
    case (Inr w)
    let ?n = "length w"
    have w: "w \<noteq> []"
      using Inr by (auto simp: encode_valid wire_def pack_header_def)
    consider (big) "?n > w_capacity b \<or> w_frames b \<ge> w_max_frames b \<or> w_bytes b + ?n > w_max_bytes b"
      | (full) "\<not> (?n > w_capacity b \<or> w_frames b \<ge> w_max_frames b \<or> w_bytes b + ?n > w_max_bytes b)"
          "w_pending b + ?n > w_capacity b"
      | (fits) "\<not> (?n > w_capacity b \<or> w_frames b \<ge> w_max_frames b \<or> w_bytes b + ?n > w_max_bytes b)"
          "\<not> w_pending b + ?n > w_capacity b"
      by blast
    then show ?thesis
    proof cases
      case big
      then have "\<exists>e. wb_fail e b = (r, b')"
        using assms(1) Inr live by (auto simp: wb_enqueue_def Let_def split: if_splits)
      then obtain e where e: "wb_fail e b = (r, b')" by blast
      moreover have "w_advanced b' = w_advanced b" using e by (auto simp: wb_fail_def)
      ultimately show ?thesis using failed wb_fail_ok [OF assms(2) e] live by blast
    next
      case full
      then show ?thesis using assms(1) Inr live refused by (auto simp: wb_enqueue_def Let_def)
    next
      case fits
      then have b': "r = Inr True" "b' = b\<lparr>w_queue := w_queue b @ [w], w_pending := w_pending b + ?n,
          w_frames := w_frames b + 1, w_bytes := w_bytes b + ?n\<rparr>"
        using assms(1) Inr live by (auto simp: wb_enqueue_def Let_def)
      have off: "w_offset b \<le> length (concat (w_queue b))"
        using assms(2) by (cases "w_queue b") (auto simp: wb_ok_def)
      then have c: "content b' = content b @ w" by (simp add: content_def b'(2))
      have "wb_ok b'"
        using assms(2) fits w c live
        by (cases "w_queue b") (auto simp: wb_ok_def b'(2) wb_open_def)
      then show ?thesis using admitted [of w] Inr b' c live by (simp add: wb_open_def)
    qed
  qed
qed

lemma wb_peek_cases:
  assumes "wb_peek b m = (r, b')" "wb_ok b"
  obtains (retired) "b' = b" "r = Inl Write_retired" "\<not> wb_open b"
        | (failed) "wb_ok b'" "content b' = []" "\<not> wb_open b'" "w_advanced b' = w_advanced b" "\<exists>e. r = Inl e"
        | (offered) bs rest where "r = Inr bs" "wb_ok b'" "wb_open b'" "wb_open b" "content b' = content b"
            "content b = bs @ rest" "content b \<noteq> [] \<Longrightarrow> bs \<noteq> []" "length bs = w_offer b'" "length bs \<le> m"
            "w_advanced b' = w_advanced b"
proof (cases "wb_open b")
  case False
  then show ?thesis using assms(1) retired by (auto simp: wb_peek_def)
next
  case live: True
  show ?thesis
  proof (cases "(1 \<le> m \<and> m \<le> MAX_BRIDGE_FEED_BYTES) \<and> \<not> (w_queue b \<noteq> [] \<and> w_offer b \<noteq> 0 \<and> m < w_offer b)")
    case False
    then have "\<exists>e. wb_fail e b = (r, b')"
      using assms(1) live by (auto simp: wb_peek_def Let_def split: list.splits if_splits)
    then obtain e where e: "wb_fail e b = (r, b')" by blast
    moreover have "w_advanced b' = w_advanced b" using e by (auto simp: wb_fail_def)
    ultimately show ?thesis using failed wb_fail_ok [OF assms(2) e] by blast
  next
    case fine: True
    show ?thesis
    proof (cases "w_queue b")
      case Nil
      have "content b = []" by (simp add: content_def Nil)
      moreover have "r = Inr []" "b' = b"
        using assms(1) live fine Nil by (simp_all add: wb_peek_def)
      moreover have "w_offer b = 0" using assms(2) Nil by (simp add: wb_ok_def)
      ultimately show ?thesis using offered [of "[]" "[]"] assms(2) live by simp
    next
      case (Cons w q)
      let ?o = "if w_offer b = 0 then min m (length w - w_offset b) else w_offer b"
      have res: "r = Inr (take ?o (drop (w_offset b) w))" "b' = b\<lparr>w_offer := ?o\<rparr>"
        using assms(1) live fine Cons by (auto simp: wb_peek_def Let_def split: if_splits)
      have off: "w_offset b < length w" "w_offset b + w_offer b \<le> length w"
        using assms(2) Cons by (auto simp: wb_ok_def)
      have o: "0 < ?o" "?o \<le> m" "w_offset b + ?o \<le> length w"
        using off fine Cons by auto
      have c: "content b' = content b" by (simp add: res(2) content_def)
      have "wb_ok b'"
        using assms(2) Cons o(3) off(1) c unfolding wb_ok_def
        by (auto simp: res(2) wb_open_def)
      moreover have "content b = take ?o (drop (w_offset b) w) @ drop ?o (drop (w_offset b) w) @ concat q"
        using content_Cons [OF Cons off(1)] by (metis append.assoc append_take_drop_id)
      ultimately show ?thesis
        using offered [of "take ?o (drop (w_offset b) w)" "drop ?o (drop (w_offset b) w) @ concat q"]
          res c live o off by (simp add: wb_open_def)
    qed
  qed
qed

lemma wb_advance_ok:
  assumes "wb_advance b n = (Inr (), b')" "wb_ok b"
  shows "wb_ok b' \<and> wb_open b' \<and> wb_open b \<and> n \<le> w_offer b \<and> content b' = drop n (content b) \<and>
         n \<le> length (content b) \<and> w_advanced b' = w_advanced b + n"
proof -
  have op: "wb_open b" and n: "w_offer b \<noteq> 0" "n \<le> w_offer b"
    using assms(1) by (auto simp: wb_advance_def wb_fail_def split: if_splits)
  obtain w q where q: "w_queue b = w # q"
    using assms(2) n by (cases "w_queue b") (auto simp: wb_ok_def)
  have off: "w_offset b < length w" "w_offset b + w_offer b \<le> length w"
    using assms(2) q by (auto simp: wb_ok_def)
  have c: "content b = drop (w_offset b) w @ concat q"
    using content_Cons [OF q off(1)] .
  have len: "n \<le> length (content b)" using n off c by simp
  show ?thesis
  proof (cases "n = 0")
    case True
    then show ?thesis using assms op n by (auto simp: wb_advance_def)
  next
    case False
    have ok: "w_pending b = length (content b)" "w_pending b \<le> w_capacity b" "w_capacity b \<le> MAX_BRIDGE_TOTAL_BYTES"
      "w_bytes b \<le> w_max_bytes b" "w_frames b \<le> w_max_frames b" "w_advanced b + w_pending b = w_bytes b"
      "\<forall>v \<in> set (w # q). v \<noteq> []"
      using assms(2) op q by (auto simp: wb_ok_def)
    show ?thesis
    proof (cases "w_offset b + n = length w")
      case True
      then have b': "b' = b\<lparr>w_offset := 0, w_pending := w_pending b - n, w_advanced := w_advanced b + n,
          w_offer := 0, w_queue := q\<rparr>"
        using assms(1) op n False q by (auto simp: wb_advance_def Let_def)
      have c': "content b' = drop n (content b)"
        using True c by (simp add: b' content_def)
      have "case q of [] \<Rightarrow> True | v # _ \<Rightarrow> v \<noteq> []" using ok(7) by (cases q) auto
      then show ?thesis
        using c' ok len op n True by (cases q) (auto simp: wb_ok_def wb_open_def b' content_def)
    next
      case inside: False
      then have b': "b' = b\<lparr>w_offset := w_offset b + n, w_pending := w_pending b - n,
          w_advanced := w_advanced b + n, w_offer := 0\<rparr>"
        using assms(1) op n False q by (auto simp: wb_advance_def Let_def)
      have lt: "w_offset b + n < length w" using inside off n by simp
      then have c': "content b' = drop n (content b)"
        using c q by (simp add: b' content_def add.commute)
      show ?thesis
        using c' ok len op n lt q by (auto simp: wb_ok_def wb_open_def b')
    qed
  qed
qed

section \<open>The interface of a byte source\<close>

text \<open>
  What an I/O owner relies on: \<open>peek\<close> offers a prefix of the content and keeps it, a
  nonempty one when there is content; \<open>advance\<close> drops the bytes reported written. The
  writer's answers are an arbitrary list of byte counts, capped by the offer, so partial
  and empty writes are covered.
\<close>

locale byte_source =
  fixes peek :: "'s \<Rightarrow> bytes \<times> 's"
    and advance :: "'s \<Rightarrow> nat \<Rightarrow> 's"
    and stream :: "'s \<Rightarrow> bytes"
    and ok :: "'s \<Rightarrow> bool"
  assumes peek_prefix: "ok s \<Longrightarrow> stream s = fst (peek s) @ drop (length (fst (peek s))) (stream s)"
    and peek_stream: "ok s \<Longrightarrow> stream (snd (peek s)) = stream s"
    and peek_progress: "ok s \<Longrightarrow> stream s \<noteq> [] \<Longrightarrow> fst (peek s) \<noteq> []"
    and peek_ok: "ok s \<Longrightarrow> ok (snd (peek s))"
    and advance_stream:
      "ok s \<Longrightarrow> fst (peek s) \<noteq> [] \<Longrightarrow> n \<le> length (fst (peek s)) \<Longrightarrow>
       stream (advance (snd (peek s)) n) = drop n (stream s)"
    and advance_ok:
      "ok s \<Longrightarrow> fst (peek s) \<noteq> [] \<Longrightarrow> n \<le> length (fst (peek s)) \<Longrightarrow> ok (advance (snd (peek s)) n)"

fun pump :: "('s \<Rightarrow> bytes \<times> 's) \<Rightarrow> ('s \<Rightarrow> nat \<Rightarrow> 's) \<Rightarrow> nat list \<Rightarrow> 's \<Rightarrow> bytes list \<times> 's" where
  "pump peek advance [] s = ([], s)"
| "pump peek advance (n # ns) s =
     (let (b, s1) = peek s in
      if b = [] then ([], s1)
      else let k = min n (length b); (cs, s2) = pump peek advance ns (advance s1 k)
           in (take k b # cs, s2))"

context byte_source
begin

lemma pump_stream:
  "ok s \<Longrightarrow> pump peek advance ns s = (cs, s') \<Longrightarrow> ok s' \<and> stream s = concat cs @ stream s'"
proof (induction ns arbitrary: s cs)
  case Nil
  then show ?case by simp
next
  case (Cons n ns)
  obtain b s1 where p: "peek s = (b, s1)" by (cases "peek s")
  show ?case
  proof (cases "b = []")
    case True
    then show ?thesis
      using Cons.prems p peek_stream [of s] peek_ok [of s] by auto
  next
    case False
    let ?k = "min n (length b)"
    obtain ds where ds: "pump peek advance ns (advance s1 ?k) = (ds, s')" "cs = take ?k b # ds"
      using Cons.prems(2) p False by (auto simp: Let_def split: prod.splits)
    have adv: "stream (advance s1 ?k) = drop ?k (stream s)" "ok (advance s1 ?k)"
      using advance_stream [of s ?k] advance_ok [of s ?k] Cons.prems(1) p False by auto
    have pre: "stream s = b @ drop (length b) (stream s)"
      using peek_prefix [OF Cons.prems(1)] p by simp
    have "take ?k (stream s) = take ?k b"
      by (subst pre) simp
    then have "stream s = take ?k b @ drop ?k (stream s)"
      by (metis append_take_drop_id)
    then show ?thesis
      using Cons.IH [OF adv(2) ds(1)] adv(1) ds(2) by simp
  qed
qed

text \<open>A writer that accepts at least one byte per call empties the source in as many calls
  as there are bytes.\<close>

lemma pump_drains:
  "ok s \<Longrightarrow> length (stream s) \<le> length ns \<Longrightarrow> list_all (\<lambda>n. 0 < n) ns \<Longrightarrow>
   stream (snd (pump peek advance ns s)) = []"
proof (induction ns arbitrary: s)
  case Nil
  then show ?case by simp
next
  case (Cons n ns)
  obtain b s1 where p: "peek s = (b, s1)" by (cases "peek s")
  show ?case
  proof (cases "b = []")
    case True
    then show ?thesis
      using Cons.prems p peek_stream [of s] peek_progress [of s] by auto
  next
    case False
    let ?k = "min n (length b)"
    have adv: "stream (advance s1 ?k) = drop ?k (stream s)" "ok (advance s1 ?k)"
      using advance_stream [of s ?k] advance_ok [of s ?k] Cons.prems(1) p False by auto
    obtain l k where "length b = Suc l" "n = Suc k"
      using Cons.prems(3) False by (cases b; cases n) auto
    then have "length (stream (advance s1 ?k)) \<le> length ns"
      unfolding adv(1) length_drop using Cons.prems(2) by (cases "n \<le> length b") simp_all
    then show ?thesis
      using Cons.IH [OF adv(2)] Cons.prems(3) p False by (simp add: Let_def split_beta)
  qed
qed

end

text \<open>The buffer as a byte source, for a fixed size of offer and no offer of another size
  outstanding.\<close>

definition offer_peek :: "nat \<Rightarrow> write_buffer \<Rightarrow> bytes \<times> write_buffer" where
  "offer_peek m b = (case wb_peek b m of (Inr bs, b') \<Rightarrow> (bs, b') | (Inl _, b') \<Rightarrow> ([], b'))"

definition offer_advance :: "write_buffer \<Rightarrow> nat \<Rightarrow> write_buffer" where
  "offer_advance b n = snd (wb_advance b n)"

definition offer_ok :: "nat \<Rightarrow> write_buffer \<Rightarrow> bool" where
  "offer_ok m b \<longleftrightarrow> 1 \<le> m \<and> m \<le> MAX_BRIDGE_FEED_BYTES \<and> wb_ok b \<and> wb_open b \<and> w_offer b \<le> m"

lemma offer_peek_ok:
  assumes "offer_ok m b"
  shows "\<exists>bs b' rest. wb_peek b m = (Inr bs, b') \<and> offer_peek m b = (bs, b') \<and> offer_ok m b' \<and>
           content b' = content b \<and> content b = bs @ rest \<and> (content b \<noteq> [] \<longrightarrow> bs \<noteq> []) \<and>
           length bs = w_offer b'"
proof -
  obtain r b' where p: "wb_peek b m = (r, b')" by (cases "wb_peek b m")
  have ok: "wb_ok b" "wb_open b" "1 \<le> m" "m \<le> MAX_BRIDGE_FEED_BYTES" "w_offer b \<le> m"
    using assms by (auto simp: offer_ok_def)
  have noerr: "\<exists>bs. r = Inr bs"
    using p ok by (auto simp: wb_peek_def Let_def split: list.splits if_splits)
  from p ok(1) show ?thesis
  proof (cases rule: wb_peek_cases)
    case (offered bs rest)
    then have "offer_ok m b'" using ok by (simp add: offer_ok_def)
    then show ?thesis using offered p by (auto simp: offer_peek_def)
  qed (use noerr in auto)
qed

lemma wb_advance_accepts:
  assumes "wb_open b" "w_offer b \<noteq> 0" "n \<le> w_offer b"
  shows "\<exists>b'. wb_advance b n = (Inr (), b') \<and> (w_offer b' = 0 \<or> w_offer b' = w_offer b)"
  using assms by (auto simp: wb_advance_def Let_def)

lemma offer_advance_ok:
  assumes "offer_ok m b" "fst (offer_peek m b) \<noteq> []" "n \<le> length (fst (offer_peek m b))"
  shows "content (offer_advance (snd (offer_peek m b)) n) = drop n (content b) \<and>
         offer_ok m (offer_advance (snd (offer_peek m b)) n)"
proof -
  obtain bs b1 where p: "offer_peek m b = (bs, b1)" "offer_ok m b1" "content b1 = content b"
    "length bs = w_offer b1"
    using offer_peek_ok [OF assms(1)] by blast
  have "w_offer b1 \<noteq> 0"
    using p(1,4) assms(2) by (metis fst_conv length_0_conv)
  moreover have "n \<le> w_offer b1" "wb_open b1" "wb_ok b1" "w_offer b1 \<le> m"
    using p assms(3) by (auto simp: offer_ok_def)
  ultimately have "w_offer b1 \<noteq> 0" "n \<le> w_offer b1" "wb_open b1" "wb_ok b1" "w_offer b1 \<le> m"
    by blast+
  then obtain b2 where adv: "wb_advance b1 n = (Inr (), b2)" "w_offer b2 = 0 \<or> w_offer b2 = w_offer b1"
    using wb_advance_accepts by blast
  then show ?thesis
    using wb_advance_ok [OF adv(1) \<open>wb_ok b1\<close>] p assms(1) \<open>w_offer b1 \<le> m\<close>
    by (auto simp: offer_advance_def offer_ok_def)
qed

interpretation wbs: byte_source "offer_peek m" offer_advance content "offer_ok m" for m
proof (unfold_locales, goal_cases)
  case (1 s)
  then show ?case using offer_peek_ok [of m s] by auto
next
  case (2 s)
  then show ?case using offer_peek_ok [of m s] by auto
next
  case (3 s)
  then show ?case using offer_peek_ok [of m s] by auto
next
  case (4 s)
  then show ?case using offer_peek_ok [of m s] by auto
next
  case (5 s n)
  then show ?case using offer_advance_ok by blast
next
  case (6 s n)
  then show ?case using offer_advance_ok by blast
qed

section \<open>Properties of the buffer\<close>

text \<open>
  The states of an instance with its history: the frames admitted, the bytes reported
  written, and the bytes last offered.
\<close>

inductive wb_reach :: "write_buffer \<Rightarrow> bridge_frame list \<Rightarrow> bytes \<Rightarrow> bytes \<Rightarrow> bool" where
  wb_start: "new_write_buffer cap mf mb = Inr b \<Longrightarrow> wb_reach b [] [] []"
| wb_enq: "wb_reach b fs sent off \<Longrightarrow> wb_enqueue b f = (r, b') \<Longrightarrow>
    wb_reach b' (if r = Inr True then fs @ [f] else fs) sent off"
| wb_offer: "wb_reach b fs sent off \<Longrightarrow> wb_peek b m = (r, b') \<Longrightarrow>
    wb_reach b' fs sent (case r of Inr bs \<Rightarrow> bs | Inl _ \<Rightarrow> off)"
| wb_written: "wb_reach b fs sent off \<Longrightarrow> wb_advance b n = (r, b') \<Longrightarrow>
    wb_reach b' fs (if r = Inr () then sent @ take n off else sent) off"
| wb_cancelled: "wb_reach b fs sent off \<Longrightarrow> wb_reach (wb_cancel b) fs sent off"

definition wb_history :: "write_buffer \<Rightarrow> bridge_frame list \<Rightarrow> bytes \<Rightarrow> bytes \<Rightarrow> bool" where
  "wb_history b fs sent off \<longleftrightarrow> wb_ok b \<and> list_all valid_frame fs \<and>
     (\<exists>rest. concat (map wire fs) = sent @ rest) \<and> w_advanced b = length sent \<and>
     (wb_open b \<longrightarrow> concat (map wire fs) = sent @ content b \<and>
        (w_offer b \<noteq> 0 \<longrightarrow> off = take (w_offer b) (content b)))"

lemma offer_le_content: "wb_ok b \<Longrightarrow> w_offer b \<le> length (content b)"
  by (cases "w_queue b") (auto simp: wb_ok_def content_def)

lemma wb_advance_error: "wb_ok b \<Longrightarrow> wb_advance b n = (Inl e, b') \<Longrightarrow>
   wb_ok b' \<and> w_advanced b' = w_advanced b \<and> (b' = b \<and> \<not> wb_open b \<or> \<not> wb_open b')"
  using wb_fail_ok [of b] by (auto simp: wb_advance_def wb_fail_def Let_def split: if_splits)

lemma wb_reach_history: "wb_reach b fs sent off \<Longrightarrow> wb_history b fs sent off"
proof (induction rule: wb_reach.induct)
  case (wb_start cap mf mb b)
  then show ?case
    using new_write_buffer_ok [OF wb_start] by (simp add: wb_history_def)
next
  case (wb_enq b fs sent off f r b')
  have ok: "wb_ok b" using wb_enq.IH by (simp add: wb_history_def)
  from wb_enq.hyps(2) ok show ?case
  proof (cases rule: wb_enqueue_cases)
    case (admitted w)
    have w: "valid_frame f" "w = wire f" using admitted(1) by (auto simp: encode_valid)
    have hist: "concat (map wire fs) = sent @ content b" "w_offer b \<noteq> 0 \<Longrightarrow> off = take (w_offer b) (content b)"
      "list_all valid_frame fs" "w_advanced b = length sent"
      using wb_enq.IH admitted(4) by (auto simp: wb_history_def)
    have "w_offer b' = w_offer b"
      using wb_enq.hyps(2) admitted(1,2) by (auto simp: wb_enqueue_def Let_def wb_fail_def split: if_splits)
    then show ?thesis
      using hist w admitted offer_le_content [OF ok] by (auto simp: wb_history_def)
  next
    case refused
    then show ?thesis using wb_enq.IH by simp
  next
    case failed
    then show ?thesis using wb_enq.IH by (auto simp: wb_history_def)
  qed
next
  case (wb_offer b fs sent off m r b')
  have ok: "wb_ok b" using wb_offer.IH by (simp add: wb_history_def)
  from wb_offer.hyps(2) ok show ?case
  proof (cases rule: wb_peek_cases)
    case retired
    then show ?thesis using wb_offer.IH by simp
  next
    case failed
    then show ?thesis using wb_offer.IH by (auto simp: wb_history_def)
  next
    case (offered bs rest)
    then have "bs = take (w_offer b') (content b')" by (metis append_eq_conv_conj)
    then show ?thesis using wb_offer.IH offered by (auto simp: wb_history_def)
  qed
next
  case (wb_written b fs sent off n r b')
  have ok: "wb_ok b" using wb_written.IH by (simp add: wb_history_def)
  show ?case
  proof (cases r)
    case (Inl e)
    then show ?thesis
      using wb_advance_error [OF ok] wb_written.hyps(2) wb_written.IH by (auto simp: wb_history_def)
  next
    case (Inr u)
    then have res: "wb_advance b n = (Inr (), b')" using wb_written.hyps(2) by simp
    note adv = wb_advance_ok [OF res ok]
    have "w_offer b \<noteq> 0" using res by (auto simp: wb_advance_def wb_fail_def split: if_splits)
    then have off: "off = take (w_offer b) (content b)" and all: "concat (map wire fs) = sent @ content b"
      using wb_written.IH adv by (auto simp: wb_history_def)
    have "take n off = take n (content b)" using off adv by (simp add: min_def)
    moreover have "w_offer b' \<noteq> 0 \<longrightarrow> n = 0 \<and> b' = b"
      using res by (auto simp: wb_advance_def wb_fail_def Let_def split: if_splits)
    ultimately have same: "take n off = take n (content b)" "w_offer b' \<noteq> 0 \<longrightarrow> n = 0 \<and> b' = b"
      by blast+
    have split: "content b = take n (content b) @ content b'" using adv by simp
    have "list_all valid_frame fs" "w_advanced b = length sent"
      using wb_written.IH by (simp_all add: wb_history_def)
    moreover have "concat (map wire fs) = (sent @ take n off) @ content b'"
      unfolding same(1) using all split by simp
    moreover have "w_advanced b' = length (sent @ take n off)"
      using adv same(1) \<open>w_advanced b = length sent\<close> by simp
    moreover have "w_offer b' \<noteq> 0 \<longrightarrow> off = take (w_offer b') (content b')"
      using same(2) off by blast
    moreover have "r = Inr ()" using Inr by simp
    ultimately show ?thesis
      unfolding wb_history_def using adv by (simp only: if_True simp_thms) blast
  qed
next
  case (wb_cancelled b fs sent off)
  then show ?case using wb_cancel_ok [of b] by (auto simp: wb_history_def wb_cancel_def)
qed

text \<open>First in, first out, byte for byte: in every state an instance reaches, the bytes
  reported written are a prefix of the concatenated encodings of the admitted frames, and
  while the buffer is open what it still holds is exactly the rest; the counters of advanced
  and pending bytes are those two lengths, and the pending bytes respect the capacity.\<close>

theorem write_buffer_fifo:
  assumes "wb_reach b fs sent off"
  shows "\<exists>ws. encodings fs ws \<and> (\<exists>rest. concat ws = sent @ rest) \<and>
    (wb_open b \<longrightarrow> concat ws = sent @ content b) \<and>
    w_advanced b = length sent \<and> w_pending b = length (content b) \<and> w_pending b \<le> w_capacity b"
  using wb_reach_history [OF assms] by (auto simp: wb_history_def encodings_iff wb_ok_def)

definition sample_buffer :: write_buffer where
  "sample_buffer = \<lparr>w_capacity = 64, w_max_frames = 8, w_max_bytes = 64, w_queue = [], w_offset = 0,
     w_offer = 0, w_pending = 0, w_frames = 0, w_bytes = 0, w_advanced = 0, w_cancelled = False,
     w_failed = False\<rparr>"

lemma sample_buffer_new: "new_write_buffer 64 8 64 = Inr sample_buffer"
  by (simp add: new_write_buffer_def sample_buffer_def MAX_BRIDGE_FRAMES_def MAX_BRIDGE_TOTAL_BYTES_def)

lemma sample_enqueue:
  "wb_enqueue sample_buffer sample_frame =
     (Inr True, sample_buffer\<lparr>w_queue := [wire sample_frame], w_pending := 11, w_frames := 1, w_bytes := 11\<rparr>)"
  by (simp add: wb_enqueue_def sample_buffer_def wb_open_def encode_bridge_frame_def
      validate_bridge_frame_def sample_frame_def payload_limit_def length_wire HEADER_SIZE_def)

theorem write_buffer_fifo_witness:
  "\<exists>b. wb_reach b [sample_frame] [] [] \<and> (\<exists>ws. encodings [sample_frame] ws \<and> concat ws = content b)"
proof -
  let ?b = "sample_buffer\<lparr>w_queue := [wire sample_frame], w_pending := 11, w_frames := 1, w_bytes := 11\<rparr>"
  have r: "wb_reach ?b [sample_frame] [] []"
    using wb_enq [OF wb_start [OF sample_buffer_new] sample_enqueue] by simp
  have "wb_open ?b" by (simp add: wb_open_def sample_buffer_def)
  then show ?thesis using r write_buffer_fifo [OF r] by auto
qed

text \<open>A caller that enqueues frames one after the other and needs each to be admitted.\<close>

fun enqueue_all :: "write_buffer \<Rightarrow> bridge_frame list \<Rightarrow> write_buffer option" where
  "enqueue_all b [] = Some b"
| "enqueue_all b (f # fs) =
     (case wb_enqueue b f of (Inr True, b') \<Rightarrow> enqueue_all b' fs | _ \<Rightarrow> None)"

lemma enqueue_all_reach:
  "enqueue_all b fs = Some b' \<Longrightarrow> wb_reach b gs sent off \<Longrightarrow> wb_open b \<Longrightarrow> wb_reach b' (gs @ fs) sent off \<and> wb_open b'"
proof (induction fs arbitrary: b gs)
  case Nil
  then show ?case by simp
next
  case (Cons f fs)
  obtain b1 where e: "wb_enqueue b f = (Inr True, b1)" "enqueue_all b1 fs = Some b'"
    using Cons.prems(1) by (auto split: prod.splits sum.splits bool.splits)
  have "wb_reach b1 (gs @ [f]) sent off"
    using wb_enq [OF Cons.prems(2) e(1)] by simp
  moreover have "wb_open b1"
    using e(1) wb_reach_history [OF Cons.prems(2)]
    by (auto elim!: wb_enqueue_cases simp: wb_history_def)
  ultimately show ?case using Cons.IH [OF e(2), of "gs @ [f]"] by simp
qed

lemma enqueue_all_offer: "enqueue_all b fs = Some b' \<Longrightarrow> w_offer b' = w_offer b"
proof (induction fs arbitrary: b)
  case (Cons f fs)
  then obtain b1 where e: "wb_enqueue b f = (Inr True, b1)" "enqueue_all b1 fs = Some b'"
    by (auto split: prod.splits sum.splits bool.splits)
  then have "w_offer b1 = w_offer b"
    by (auto simp: wb_enqueue_def Let_def wb_fail_def split: if_splits sum.splits)
  then show ?case using Cons.IH [OF e(2)] by simp
qed simp

lemma pump_chunks:
  "pump (offer_peek m) offer_advance ns b = (cs, b') \<Longrightarrow> offer_ok m b \<Longrightarrow>
   list_all (\<lambda>c. length c \<le> MAX_BRIDGE_FEED_BYTES) cs"
proof (induction ns arbitrary: b cs)
  case (Cons n ns)
  obtain bs b1 where p: "offer_peek m b = (bs, b1)" "length bs \<le> MAX_BRIDGE_FEED_BYTES"
    using offer_peek_ok [OF Cons.prems(2)] by (fastforce simp: offer_ok_def)
  show ?case
  proof (cases "bs = []")
    case False
    let ?k = "min n (length bs)"
    obtain ds where ds: "pump (offer_peek m) offer_advance ns (offer_advance b1 ?k) = (ds, b')" "cs = take ?k bs # ds"
      using Cons.prems(1) p False by (auto simp: Let_def split: prod.splits)
    have "offer_ok m (offer_advance b1 ?k)"
      using offer_advance_ok [OF Cons.prems(2), of ?k] p False by simp
    then show ?thesis using Cons.IH [OF ds(1)] ds(2) p(2) by simp
  qed (use Cons.prems p in auto)
qed simp

text \<open>C40. End to end: frames admitted by a fresh buffer, written out by a writer that takes any
  positive number of bytes per call, and fed to a fresh decoder in just those pieces, arrive
  complete, unchanged and in order, and the decoder accepts the end of input.\<close>

theorem bridge_end_to_end:
  assumes "new_write_buffer cap mf mb = Inr b0" "enqueue_all b0 fs = Some b" "1 \<le> m" "m \<le> MAX_BRIDGE_FEED_BYTES"
    and "pump (offer_peek m) offer_advance ns b = (cs, b')" "list_all (\<lambda>n. 0 < n) ns"
    and "length (content b) \<le> length ns"
    and "new_decoder dmf dmb = Inr d" "length fs \<le> dmf" "length (content b) \<le> dmb"
  shows "\<exists>d'. feed_all d cs = (Inr fs, d') \<and> fst (finish d') = Inr ()"
proof -
  have start: "wb_reach b0 [] [] []" "wb_open b0" "w_offer b0 = 0"
    using wb_start [OF assms(1)] new_write_buffer_ok [OF assms(1)] by simp_all
  then have reach: "wb_reach b fs [] []" and op: "wb_open b"
    using enqueue_all_reach [OF assms(2) start(1)] by auto
  have ok: "offer_ok m b"
    using wb_reach_history [OF reach] op assms(3,4) enqueue_all_offer [OF assms(2)] start(3)
    by (simp add: offer_ok_def wb_history_def)
  obtain ws where ws: "encodings fs ws" "concat ws = content b"
    using write_buffer_fifo [OF reach] op by auto
  have "content b = concat cs @ content b'"
    using wbs.pump_stream [OF ok assms(5)] by simp
  moreover have "content b' = []"
    using wbs.pump_drains [OF ok assms(7,6)] assms(5) by simp
  ultimately have all: "concat cs = concat ws" using ws(2) by simp
  have "chunks_ok d cs"
    using pump_chunks [OF assms(5) ok] new_decoder_ok [OF assms(8)] assms(10) all ws(2)
    by (simp add: chunks_ok_def)
  then show ?thesis
    using encode_decode_roundtrip [OF assms(8) ws(1) assms(9) _ all] by blast
qed

definition sample_queued :: write_buffer where
  "sample_queued = sample_buffer\<lparr>w_queue := [wire sample_frame], w_pending := 11, w_frames := 1, w_bytes := 11\<rparr>"

definition sample_ones :: "nat list" where
  "sample_ones = [1, 1, 1, 1, 1, 1, 1, 1, 1, 1, 1]"

theorem bridge_end_to_end_witness:
  "\<exists>cs b' d'. pump (offer_peek 1) offer_advance sample_ones sample_queued = (cs, b') \<and>
     feed_all sample_decoder cs = (Inr [sample_frame], d') \<and> fst (finish d') = Inr ()"
proof -
  obtain cs b' where p: "pump (offer_peek 1) offer_advance sample_ones sample_queued = (cs, b')"
    by (cases "pump (offer_peek 1) offer_advance sample_ones sample_queued")
  have e: "enqueue_all sample_buffer [sample_frame] = Some sample_queued"
    by (simp add: sample_enqueue sample_queued_def)
  have len: "length (content sample_queued) = 11"
    by (simp add: content_def sample_queued_def sample_buffer_def length_wire sample_frame_def HEADER_SIZE_def)
  have n: "length (content sample_queued) \<le> length sample_ones" "list_all (\<lambda>n. 0 < n) sample_ones"
    using len by (simp_all add: sample_ones_def)
  show ?thesis
    using bridge_end_to_end [OF sample_buffer_new e _ _ p n(2,1) sample_new] p len
    by (fastforce simp: MAX_BRIDGE_FEED_BYTES_def)
qed

text \<open>The response split: pieces of at most 64 KiB, none empty, that join to the body.\<close>

lemma body_chunks_concat: "0 < n \<Longrightarrow> concat (body_chunks n body) = body"
  by (induction n body rule: body_chunks.induct) (subst body_chunks.simps, simp)

lemma body_chunks_bounds: "c \<in> set (body_chunks n body) \<Longrightarrow> c \<noteq> [] \<and> length c \<le> n"
proof (induction n body rule: body_chunks.induct)
  case (1 n body)
  then show ?case by (subst (asm) body_chunks.simps) (auto split: if_splits)
qed

lemma length_body_chunks: "0 < n \<Longrightarrow> length (body_chunks n body) = (length body + n - 1) div n"
proof (induction n body rule: body_chunks.induct)
  case (1 n body)
  show ?case
  proof (cases "body = []")
    case True
    then show ?thesis using 1(2) by (simp add: body_chunks.simps)
  next
    case False
    then have step: "length (body_chunks n body) = Suc ((length body - n + n - 1) div n)"
      using 1 by (subst body_chunks.simps) simp
    have "0 < length body" using False by simp
    then have "length body + n - 1 = (length body - 1) + n" by linarith
    then have q: "(length body + n - 1) div n = Suc ((length body - 1) div n)"
      using 1(2) by (metis Suc_eq_plus1 div_add_self2 less_numeral_extra(3))
    show ?thesis
    proof (cases "n \<le> length body")
      case True
      then show ?thesis using step q by simp
    next
      case small: False
      then have "(length body - 1) div n = 0" "length body - n + n - 1 = n - 1" by simp_all
      then show ?thesis using step q 1(2) by simp
    qed
  qed
qed

text \<open>A bounded response becomes a valid frame sequence: the headers first, the end last,
  between them at most sixteen nonempty chunks that join to the body; every frame can be
  encoded. A response over the bounds is refused.\<close>

theorem response_frames_valid:
  "(case bounded_response_frames headers body of
     Inl e \<Rightarrow> e = Write_response_bound \<and> (16384 < length headers \<or> 1048576 < length body)
   | Inr fs \<Rightarrow> length headers \<le> 16384 \<and> length body \<le> 1048576 \<and>
       (\<exists>mid. fs = \<lparr>kind = RESPONSE_HEADERS, payload = headers\<rparr> # mid @ [\<lparr>kind = RESPONSE_END, payload = []\<rparr>] \<and>
          length mid \<le> 16 \<and> list_all (\<lambda>f. kind f = RESPONSE_CHUNK \<and> payload f \<noteq> []) mid \<and>
          concat (map payload mid) = body) \<and>
       list_all valid_frame fs)"
proof (cases "length headers > 16 * 1024 \<or> length body > 1024 * 1024")
  case True
  then show ?thesis by (auto simp: bounded_response_frames_def)
next
  case False
  define mid where "mid = map (\<lambda>c. \<lparr>kind = RESPONSE_CHUNK, payload = c\<rparr>) (body_chunks 65536 body)"
  have "length mid \<le> 16"
    using False div_le_mono [of "length body + 65535" "1048576 + 65535" 65536]
    by (simp add: mid_def length_body_chunks)
  moreover have "concat (map payload mid) = body"
    by (simp add: mid_def comp_def body_chunks_concat)
  moreover have "list_all (\<lambda>f. kind f = RESPONSE_CHUNK \<and> payload f \<noteq> []) mid"
    using body_chunks_bounds by (auto simp: mid_def list_all_iff)
  moreover have "list_all valid_frame mid"
    using body_chunks_bounds [of _ 65536 body] by (auto simp: mid_def list_all_iff valid_frame_def payload_limit_def)
  moreover have "bounded_response_frames headers body =
      Inr (\<lparr>kind = RESPONSE_HEADERS, payload = headers\<rparr> # mid @ [\<lparr>kind = RESPONSE_END, payload = []\<rparr>])"
    using False by (simp add: mid_def bounded_response_frames_def)
  moreover have "valid_frame \<lparr>kind = RESPONSE_HEADERS, payload = headers\<rparr>"
      "valid_frame \<lparr>kind = RESPONSE_END, payload = []\<rparr>"
    using False by (simp_all add: valid_frame_def payload_limit_def)
  ultimately show ?thesis using False by auto
qed

end
