(* ===== verification/Hub_Tables.thy ===== *)
theory Hub_Tables
  imports Hub_Prelude "HOL-Library.List_Lexorder" "HOL-Library.Char_ord" "HOL-Library.Product_Lexorder"
begin

text \<open>
  The rows of the hub's database that the modelled operations read or write. A table is the
  list of its rows; a row record has the columns those operations use (\<open>provider_job\<close> has
  all of them), under the column's name with a prefix for the table. A column that may be
  NULL is an option; a comparison with NULL is never true. A time is the number of
  microseconds since the epoch: the code stores UTC ISO 8601 text and compares it as text.
\<close>

type_synonym time = int

text \<open>\<open>StateError\<close> with its message, \<open>ControlScopeError\<close> with its reason, the database
  rejecting a statement by a constraint, a Claude input frame refused by its encoder, a
  \<open>ValueError\<close> that the state layer lets through, and the errors of the materials and of the Codex
  metadata.\<close>

datatype state_error =
    State_error string | Control_scope_error string | Integrity_error string | Frame_error | Value_error string
  | Material_error string | Metadata_error string | Retry_refused string | Os_error

definition seconds :: "int \<Rightarrow> time" where "seconds n = n * 1000000"
definition milliseconds :: "int \<Rightarrow> time" where "milliseconds n = n * 1000"

text \<open>\<open>_bounded\<close> and \<open>_optional_bounded\<close> of \<open>state_values.py\<close>.\<close>

definition bounded :: "string \<Rightarrow> string \<Rightarrow> nat \<Rightarrow> state_error + string" where
  "bounded value name maximum =
     (let normalized = py_strip value in
      if normalized = [] \<or> length normalized > maximum then Inl (State_error (''invalid '' @ name))
      else Inr normalized)"

lemma bounded_strip: "bounded v n m = Inr w \<Longrightarrow> w = py_strip v"
  by (auto simp: bounded_def Let_def split: if_splits)

definition optional_bounded :: "string option \<Rightarrow> string \<Rightarrow> nat \<Rightarrow> state_error + string option" where
  "optional_bounded value name maximum =
     (case value of None \<Rightarrow> Inr None
      | Some v \<Rightarrow> (case bounded v name maximum of Inl e \<Rightarrow> Inl e | Inr w \<Rightarrow> Inr (Some w)))"

lemma bounded_ok:
  "bounded v n m = Inr w \<Longrightarrow> w = py_strip v \<and> w \<noteq> [] \<and> length w \<le> m \<and> bounded w n m = Inr w"
  by (auto simp: bounded_def Let_def py_strip_idem split: if_splits)

section \<open>Provider jobs\<close>

datatype job_status =
    Queued | Leased | Executing | Retry_wait | Result_ready
  | Completed | Failed | Cancelled | Indeterminate

record provider_job =
  pj_job_id :: string
  pj_idempotency_key :: string
  pj_chat_id :: int
  pj_message_id :: int
  pj_topic_id :: int
  pj_topic_sequence :: int
  pj_agent_id :: string
  pj_session_id :: string
  pj_session_generation :: int
  pj_provider_session_id :: "string option"
  pj_model :: string
  pj_effort :: string
  pj_payload_text :: string
  pj_context_watermark :: "int option"
  pj_handoff_id :: "string option"
  pj_input_group_key :: "string option"
  pj_status :: job_status
  pj_attempt_count :: int
  pj_max_attempts :: int
  pj_next_attempt_at :: "time option"
  pj_lease_owner :: "string option"
  pj_lease_token :: "string option"
  pj_lease_expires_at :: "time option"
  pj_provider_started_at :: "time option"
  pj_error_class :: "string option"
  pj_error_code :: "string option"
  pj_error_detail :: "string option"
  pj_created_at :: time
  pj_updated_at :: time
  pj_codex_permission_profile :: "string option"

text \<open>The constraint of the table on the lease columns, and the one on the attempt counters.\<close>

definition lease_columns_ok :: "provider_job \<Rightarrow> bool" where
  "lease_columns_ok j \<longleftrightarrow>
     (if pj_status j \<in> {Leased, Executing}
      then pj_lease_owner j \<noteq> None \<and> pj_lease_token j \<noteq> None \<and> pj_lease_expires_at j \<noteq> None
      else pj_lease_owner j = None \<and> pj_lease_token j = None \<and> pj_lease_expires_at j = None)"

definition attempt_columns_ok :: "provider_job \<Rightarrow> bool" where
  "attempt_columns_ok j \<longleftrightarrow> 0 \<le> pj_attempt_count j \<and> pj_attempt_count j \<le> 20 \<and>
     1 \<le> pj_max_attempts j \<and> pj_max_attempts j \<le> 20"

record provider_stop =
  st_request_id :: string
  st_topic_id :: int
  st_chat_id :: int
  st_message_id :: int
  st_target_agent_id :: string
  st_pending :: bool
  st_cancelled_queued_count :: int
  st_created_at :: time
  st_completed_at :: "time option"

datatype hold_decision = Hold_pending | Hold_confirmed | Hold_cancelled

datatype hold_reason = Held_uncertain | Held_local | Held_terminal

record job_hold =
  hd_job_id :: string
  hd_cause_job_id :: string
  hd_held_at :: time
  hd_reason :: hold_reason
  hd_control_job_id :: "string option"
  hd_decision :: hold_decision
  hd_decided_at :: "time option"

record job_continuation =
  cn_source_job_id :: string
  cn_continuation_job_id :: string
  cn_chat_id :: int
  cn_message_id :: int
  cn_created_at :: time

record job_resolution =
  rs_job_id :: string
  rs_resolution :: string
  rs_resolved_at :: time

record job_absorption =
  ab_child_job_id :: string
  ab_parent_job_id :: string
  ab_provider_turn_id :: string
  ab_created_at :: time

record terminal_evidence =
  te_job_id :: string
  te_terminal_status :: string
  te_provider_thread_id :: string
  te_provider_turn_id :: string
  te_project_root :: string
  te_observed_at :: time

record execution_checkpoint =
  cp_job_id :: string
  cp_provider_thread_id :: string
  cp_project_root :: string
  cp_provider_turn_id :: "string option"
  cp_completed_text :: "string option"
  cp_codex_permission_profile :: "string option"

record visible_item =
  vi_sequence :: int
  vi_job_id :: string
  vi_commentary :: bool

record job_result =
  jr_result_id :: string
  jr_job_id :: string
  jr_visible_response :: string
  jr_provider_session_id :: "string option"
  jr_actual_model :: "string option"
  jr_safe_metadata_json :: "string option"
  jr_context_watermark :: "int option"
  jr_handoff_id :: "string option"
  jr_created_at :: time

text \<open>What later turns of a topic see of an earlier one, and the check still to be made of a lost turn.\<close>

record turn_excerpt =
  tx_turn_id :: int
  tx_topic_id :: int
  tx_agent_id :: string
  tx_provider_session_id :: "string option"
  tx_model :: "string option"
  tx_provider :: "string option"
  tx_user_excerpt :: string
  tx_response_excerpt :: string
  tx_created_at :: time
  tx_source_message_id :: "int option"

record turn_observation =
  to_job_id :: string
  to_attempt_count :: int
  to_next_check_at :: time
  to_updated_at :: time

record runtime_checkpoint =
  rk_checkpoint_key :: string
  rk_integer_value :: int
  rk_updated_at :: time

datatype material_status = Stored | Unavailable | Consumed

record incoming_material =
  im_material_id :: string
  im_job_id :: "string option"
  im_topic_id :: int
  im_project_id :: string
  im_execution_scope :: string
  im_agent_id :: "string option"
  im_session_id :: "string option"
  im_session_generation :: "int option"
  im_chat_id :: int
  im_message_id :: int
  im_attachment_index :: int
  im_media_group_id :: "string option"
  im_origin :: string
  im_kind :: string
  im_content_kind :: "string option"
  im_file_unique_id :: "string option"
  im_display_name :: string
  im_mime_type :: "string option"
  im_declared_size :: "int option"
  im_storage_path :: "string option"
  im_byte_size :: "int option"
  im_sha256 :: "string option"
  im_status :: material_status
  im_unavailable_code :: "string option"
  im_unavailable_detail :: "string option"
  im_created_at :: time
  im_consumed_at :: "time option"

text \<open>The messages that make up a job, and a topic's next place in its queue.\<close>

record job_input =
  ji_job_id :: string
  ji_chat_id :: int
  ji_message_id :: int
  ji_part_index :: int
  ji_input_text :: string
  ji_received_at :: time

record queue_counter =
  qn_topic_id :: int
  qn_next_sequence :: int
  qn_updated_at :: time

record handoff =
  ph_handoff_id :: string
  ph_topic_id :: int
  ph_target_agent_id :: string

text \<open>
  The ticket that allows a failed preparation to be sent again, and the job it was sent as. The
  ticket's column of inputs holds their JSON text, which is only ever compared as a whole: here
  it is the list of the inputs.
\<close>

record retry_ticket =
  rt_source_job_id :: string
  rt_project_id :: string
  rt_canonical_root :: string
  rt_session_id :: string
  rt_session_generation :: int
  rt_expected_thread_id :: "string option"
  rt_model :: string
  rt_effort :: string
  rt_codex_permission_profile :: "string option"
  rt_model_provider :: "string option"
  rt_payload_text :: string
  rt_context_watermark :: "int option"
  rt_handoff_id :: "string option"
  rt_source_inputs :: "(int \<times> int \<times> int \<times> string \<times> time) list"
  rt_created_at :: time

record retry_link =
  rl_source_job_id :: string
  rl_child_job_id :: string
  rl_created_at :: time

record retry_control =
  rc_chat_id :: int
  rc_message_id :: int
  rc_thread_id :: int
  rc_notice_message_id :: int
  rc_source_job_id :: string
  rc_created_at :: time

section \<open>Topics, sessions, controls\<close>

record topic_row =
  tp_topic_id :: int
  tp_project_id :: string
  tp_chat_id :: int
  tp_thread_id :: int
  tp_title :: string
  tp_active_agent_id :: "string option"
  tp_execution_scope :: "string option"
  tp_updated_at :: time

datatype session_status = Active | Satellite | Archived
datatype writer_mode = Telegram_writer | Local_writer | Terminal_writer

text \<open>The remaining context of a session is a float in the code; here it is in hundredths of a percent.\<close>

record session_row =
  ss_session_id :: string
  ss_topic_id :: int
  ss_agent_id :: string
  ss_generation :: int
  ss_status :: session_status
  ss_model :: string
  ss_effort :: string
  ss_provider_session_id :: "string option"
  ss_terminal_name :: "string option"
  ss_writer_mode :: writer_mode
  ss_context_remaining_percent :: "int option"
  ss_codex_permission_profile :: "string option"
  ss_created_at :: time
  ss_updated_at :: time

record session_origin =
  og_session_id :: string
  og_provider_thread_id :: string
  og_project_id :: string
  og_canonical_root :: string
  og_model_provider :: string
  og_created_at :: time
  og_replaces_session_id :: "string option"
  og_activation_message_id :: "int option"
  og_context_floor_turn_id :: int

datatype lane_status = Lane_active | Lane_archived

record lane =
  wl_lane_id :: string
  wl_project_id :: string
  wl_topic_id :: "int option"
  wl_worktree_path :: string
  wl_branch_name :: string
  wl_status :: lane_status
  wl_created_at :: time
  wl_updated_at :: time
  wl_cleaned_at :: "time option"

datatype control_origin = Accepted_v48 | Legacy_read_only
datatype interrupt_source = Src_live | Src_protective | Src_late | Src_permission_drift
datatype interrupt_outcome = Matched_ack | Matched_rejection | Not_sent | Outcome_unknown

record turn_control =
  tc_job_id :: string
  tc_origin :: control_origin
  tc_session_id :: string
  tc_session_generation :: int
  tc_topic_id :: int
  tc_agent_id :: string
  tc_project_id :: string
  tc_chat_id :: int
  tc_input_chat_id :: int
  tc_thread_id :: int
  tc_execution_scope :: string
  tc_provider_thread_id :: string
  tc_provider_turn_id :: string
  tc_project_root :: string
  tc_codex_permission_profile :: "string option"
  tc_accepted_at :: "time option"
  tc_stop_request_id :: "string option"
  tc_late_read_attempts :: int
  tc_next_late_read_at :: "time option"
  tc_read_claim_token :: "string option"
  tc_read_claim_owner :: "string option"
  tc_read_claim_expires_at :: "time option"
  tc_send_owner_token_hash :: "string option"
  tc_send_started_at :: "time option"
  tc_interrupt_source :: "interrupt_source option"
  tc_interrupt_outcome :: "interrupt_outcome option"
  tc_owner_quiesced_at :: "time option"

datatype dispatch_status = Dispatch_queued | Dispatch_running | Dispatch_completed | Dispatch_failed

record turn_dispatch =
  td_topic_id :: int
  td_status :: dispatch_status
  td_created_at :: time

text \<open>Telegram admission provenance: the ingress bot that admitted the job.\<close>

datatype ingress_identity = Hub_ingress | Codex_ingress

record telegram_ingress =
  ti_job_id :: string
  ti_identity :: ingress_identity

section \<open>Scheduler, correction input, delivery\<close>

record scheduler_worker =
  sw_agent_id :: string
  sw_declared_capacity :: int
  sw_observed_at :: time

record scheduler_grant =
  sg_agent_id :: string
  sg_last_grant_sequence :: int
  sg_updated_at :: time

record health_row =
  rh_provider_worker :: bool
  rh_instance_id :: string
  rh_agent_id :: "string option"
  rh_active_job_id :: "string option"
  rh_heartbeat_at :: time

record claude_run =
  cr_parent_job_id :: string
  cr_initial_input_uuid :: string
  cr_initial_digest :: string
  cr_native_session_id :: string
  cr_project_root :: string
  cr_initial_receipt_terminal :: "int option"
  cr_terminal_count :: int
  cr_completion_validated :: bool

record claude_child =
  cc_parent_job_id :: string
  cc_child_job_id :: string
  cc_child_lease_token :: string
  cc_input_uuid :: string
  cc_input_digest :: string
  cc_receipt_terminal :: "int option"

text \<open>The statuses of a final outbox row, and of a progress delivery, which alone may be superseded.\<close>

datatype delivery_status =
  Ds_pending | Ds_sending | Ds_delivered | Ds_superseded | Ds_failed | Ds_unknown

datatype outbox_purpose = Legacy | Provider_result | Execution_notice

record outbox_row =
  ob_outbox_id :: string
  ob_job_id :: string
  ob_sender_agent_id :: string
  ob_chat_id :: int
  ob_thread_id :: int
  ob_telegram_html :: string
  ob_status :: delivery_status
  ob_attempt_count :: int
  ob_available_at :: time
  ob_lease_owner :: "string option"
  ob_lease_token :: "string option"
  ob_lease_expires_at :: "time option"
  ob_telegram_message_id :: "int option"
  ob_error_code :: "string option"
  ob_created_at :: time
  ob_updated_at :: time
  ob_delivered_at :: "time option"
  ob_send_started_at :: "time option"
  ob_purpose :: outbox_purpose

text \<open>A part of a final: a text or a document, with the columns of the file it carries.\<close>

datatype part_type = Text_part | Document_part

record outbox_part =
  op_outbox_id :: string
  op_part_index :: int
  op_telegram_html :: string
  op_part_type :: part_type
  op_file_path :: "string option"
  op_file_name :: "string option"
  op_file_size :: "int option"
  op_file_sha256 :: "string option"
  op_telegram_message_id :: "int option"
  op_delivered_at :: "time option"
  op_receipt_validation_version :: int

record progress_row =
  pg_progress_id :: string
  pg_item_sequence :: int
  pg_job_id :: string
  pg_sender_agent_id :: string
  pg_chat_id :: int
  pg_thread_id :: int
  pg_telegram_html :: string
  pg_status :: delivery_status
  pg_attempt_count :: int
  pg_available_at :: time
  pg_lease_owner :: "string option"
  pg_lease_token :: "string option"
  pg_lease_expires_at :: "time option"
  pg_telegram_message_id :: "int option"
  pg_error_code :: "string option"
  pg_created_at :: time
  pg_updated_at :: time
  pg_delivered_at :: "time option"
  pg_send_started_at :: "time option"

text \<open>The owner's dispositions of deliveries that stay unconfirmed, each with the columns that bind it.\<close>

record hold_binding =
  hx_outbox_id :: string
  hx_job_id :: string
  hx_result_id :: "string option"
  hx_topic_id :: int
  hx_topic_sequence :: int
  hx_project_id :: string
  hx_execution_scope :: string
  hx_session_id :: string
  hx_session_generation :: int
  hx_sender_agent_id :: string
  hx_chat_id :: int
  hx_thread_id :: int

record hold_disposition = hold_binding +
  hx_snapshot :: string
  hx_applied_at :: time

record control_binding =
  cx_final_outbox :: bool
  cx_outbox_id :: "string option"
  cx_progress_id :: "string option"
  cx_item_sequence :: "int option"
  cx_job_id :: string
  cx_result_id :: "string option"
  cx_topic_id :: int
  cx_topic_sequence :: int
  cx_project_id :: string
  cx_session_id :: string
  cx_session_generation :: int
  cx_sender_agent_id :: string
  cx_chat_id :: int
  cx_thread_id :: int

record control_disposition = control_binding +
  cx_disposition_id :: string
  cx_execution_scope :: string
  cx_delivery_status :: delivery_status
  cx_snapshot :: string
  cx_applied_at :: time
  cx_terminal_evidence_job_id :: "string option"
  cx_resolution_job_id :: "string option"

text \<open>The immutable evidence of sends: attempts and the receipts of Telegram for them.\<close>

datatype target_kind = Final_target | Progress_target

record send_attempt =
  sa_sequence :: int
  sa_attempt_id :: string
  sa_kind :: target_kind
  sa_target_id :: string
  sa_part_index :: int
  sa_binding_hash :: string
  sa_started_at :: time

record send_receipt =
  sr_attempt_id :: string
  sr_telegram_message_id :: int
  sr_recorded_at :: time

datatype notice_status =
  Nt_pending | Nt_leased | Nt_delivered | Nt_unknown | Nt_failed | Nt_superseded

record task_notice =
  nt_notice_id :: string
  nt_event_key :: string
  nt_kind :: string
  nt_job_id :: "string option"
  nt_stop_request_id :: "string option"
  nt_chat_id :: int
  nt_thread_id :: int
  nt_reply_to_message_id :: "int option"
  nt_telegram_html :: string
  nt_status :: notice_status
  nt_attempt_count :: int
  nt_available_at :: time
  nt_lease_token :: "string option"
  nt_lease_owner :: "string option"
  nt_lease_expires_at :: "time option"
  nt_send_started_at :: "time option"
  nt_telegram_message_id :: "int option"
  nt_error_code :: "string option"
  nt_created_at :: time
  nt_updated_at :: time
  nt_assessment_id :: "string option"

text \<open>
  The hub's own messages about blocked work, with the blocker they are about: the kind that is
  stored, and the native control or the unresolved scope behind it.
\<close>

datatype blocker_notice_kind = Bn_rejected | Bn_held | Bn_released
datatype stored_blocker = Blocked_local | Blocked_terminal | Blocked_uncertain
datatype blocker_status = Bn_pending | Bn_sending | Bn_delivered | Bn_failed

record blocker_notice =
  bn_outbox_id :: string
  bn_event_key :: string
  bn_kind :: blocker_notice_kind
  bn_chat_id :: int
  bn_thread_id :: int
  bn_reply_to_message_id :: "int option"
  bn_telegram_html :: string
  bn_reply_markup :: "string option"
  bn_blocker_topic_id :: "int option"
  bn_blocker_session_id :: "string option"
  bn_blocker_generation :: "int option"
  bn_blocker_kind :: "stored_blocker option"
  bn_blocker_job_id :: "string option"
  bn_job_id :: "string option"
  bn_status :: blocker_status
  bn_attempt_count :: int
  bn_available_at :: time
  bn_lease_owner :: "string option"
  bn_lease_token :: "string option"
  bn_lease_expires_at :: "time option"
  bn_telegram_message_id :: "int option"
  bn_error_code :: "string option"
  bn_created_at :: time
  bn_updated_at :: time
  bn_delivered_at :: "time option"
  bn_control_job_id :: "string option"
  bn_control_scope_error :: "string option"

record context_cursor =
  vc_topic_id :: int
  vc_observer_agent_id :: string
  vc_last_turn_id :: int
  vc_updated_at :: time

section \<open>The database\<close>

text \<open>
  The activity of an accepted turn (\<open>schema_task_activity.py\<close>) and the approvals observed before a turn is
  accepted (\<open>schema_preacceptance_approvals.py\<close>). The columns that bind a row to an execution are a record
  of their own.
\<close>

datatype activity_category =
    Command | File_change | Mcp | Dynamic_tool | Collaboration | Web_search | Image_view | Visible_message
  | Retry_category | Network | Permissions

datatype activity_mode = Mode_ordinary | Mode_tool | Mode_approval

record activity_binding =
  av_lease_token :: string
  av_topic_id :: int
  av_project_id :: string
  av_execution_scope :: string
  av_chat_id :: int
  av_thread_id :: int
  av_session_id :: string
  av_session_generation :: int
  av_agent_id :: string
  av_provider_thread_id :: string
  av_provider_turn_id :: string
  av_project_root :: string

record task_activity =
  ta_job_id :: string
  ta_binding :: activity_binding
  ta_mode :: activity_mode
  ta_last_meaningful_at :: time
  ta_episode :: int
  ta_notified_episode :: "int option"

datatype entry_kind = Tool_entry | Message_entry | Approval_entry
datatype entry_state = Entry_active | Entry_completed | Entry_pending | Entry_resolved

record activity_entry =
  en_job_id :: string
  en_kind :: entry_kind
  en_identity :: string
  en_category :: activity_category
  en_item_identity :: "string option"
  en_state :: entry_state

record runtime_epoch =
  re_slot_key :: string
  re_agent_id :: string
  re_worker_slot :: int
  re_epoch :: int
  re_instance_token :: string
  re_registered_at :: time

record prepared_binding =
  pr_lease_token :: string
  pr_topic_id :: int
  pr_project_id :: string
  pr_execution_scope :: string
  pr_chat_id :: int
  pr_thread_id :: int
  pr_session_id :: string
  pr_session_generation :: int
  pr_agent_id :: string
  pr_provider_thread_id :: string
  pr_project_root :: string
  pr_codex_permission_profile :: "string option"

datatype scope_state = Scope_open | Scope_promoted | Scope_retired
datatype request_state = Request_pending | Request_resolved | Request_retired

record early_scope =
  es_scope_id :: string
  es_slot_key :: string
  es_epoch :: int
  es_instance_token :: string
  es_job_id :: string
  es_binding :: prepared_binding
  es_state :: scope_state
  es_created_at :: time
  es_closed_at :: "time option"

record early_request =
  er_scope_id :: string
  er_identity :: string
  er_observed_turn_id :: string
  er_item_identity :: string
  er_category :: activity_category
  er_state :: request_state
  er_event_key :: string
  er_created_at :: time
  er_resolved_at :: "time option"

record db =
  db_topics :: "topic_row list"
  db_sessions :: "session_row list"
  db_jobs :: "provider_job list"
  db_stops :: "provider_stop list"
  db_holds :: "job_hold list"
  db_continuations :: "job_continuation list"
  db_resolutions :: "job_resolution list"
  db_absorptions :: "job_absorption list"
  db_evidence :: "terminal_evidence list"
  db_checkpoints :: "execution_checkpoint list"
  db_items :: "visible_item list"
  db_results :: "job_result list"
  db_origins :: "session_origin list"
  db_controls :: "turn_control list"
  db_dispatches :: "turn_dispatch list"
  db_ingress :: "telegram_ingress list"
  db_tickets :: "retry_ticket list"
  db_retries :: "retry_link list"
  db_retry_controls :: "retry_control list"
  db_workers :: "scheduler_worker list"
  db_grants :: "scheduler_grant list"
  db_health :: "health_row list"
  db_runs :: "claude_run list"
  db_children :: "claude_child list"
  db_materials :: "incoming_material list"
  db_outbox :: "outbox_row list"
  db_parts :: "outbox_part list"
  db_attempts :: "send_attempt list"
  db_receipts :: "send_receipt list"
  db_progress :: "progress_row list"
  db_hold_dispositions :: "hold_disposition list"
  db_control_dispositions :: "control_disposition list"
  db_notices :: "task_notice list"
  db_legacy_stop_links :: "(string \<times> string) list"
  db_assessments :: "(string \<times> int \<times> int) list"
  db_observed :: "(int \<times> int) list"
  db_cursors :: "context_cursor list"
  db_handoffs :: "handoff list"
  db_inputs :: "job_input list"
  db_counters :: "queue_counter list"
  db_lanes :: "lane list"
  db_blockers :: "blocker_notice list"
  db_excerpts :: "turn_excerpt list"
  db_excerpt_sequence :: int
  db_runtime_checkpoints :: "runtime_checkpoint list"
  db_observations :: "turn_observation list"
  db_task_activity :: "task_activity list"
  db_activity_entries :: "activity_entry list"
  db_runtime_epochs :: "runtime_epoch list"
  db_early_scopes :: "early_scope list"
  db_early_requests :: "early_request list"

definition topic_of :: "db \<Rightarrow> int \<Rightarrow> topic_row option" where
  "topic_of db t = find (\<lambda>r. tp_topic_id r = t) (db_topics db)"

definition job_of :: "db \<Rightarrow> string \<Rightarrow> provider_job option" where
  "job_of db i = find (\<lambda>j. pj_job_id j = i) (db_jobs db)"

text \<open>\<open>COALESCE(topic.execution_scope, 'project:' || topic.project_id)\<close>.\<close>

definition topic_scope :: "topic_row \<Rightarrow> string" where
  "topic_scope t = (case tp_execution_scope t of Some s \<Rightarrow> s | None \<Rightarrow> ''project:'' @ tp_project_id t)"

definition job_has_materials :: "db \<Rightarrow> string \<Rightarrow> bool" where
  "job_has_materials db i \<longleftrightarrow> exists_row (\<lambda>m. im_job_id m = Some i) (db_materials db)"

definition is_retry_child :: "db \<Rightarrow> string \<Rightarrow> bool" where
  "is_retry_child db i \<longleftrightarrow> exists_row (\<lambda>l. rl_child_job_id l = i) (db_retries db)"

definition scope_of :: "db \<Rightarrow> int \<Rightarrow> string option" where
  "scope_of db t = map_option topic_scope (topic_of db t)"

text \<open>Comparisons of a nullable time with a time: NULL compares as false.\<close>

definition after :: "time option \<Rightarrow> time \<Rightarrow> bool" where
  "after x t = (case x of None \<Rightarrow> False | Some u \<Rightarrow> t < u)"

definition due :: "time option \<Rightarrow> time \<Rightarrow> bool" where
  "due x t = (case x of None \<Rightarrow> False | Some u \<Rightarrow> u \<le> t)"

lemma due_not_after: "x \<noteq> None \<Longrightarrow> due x t \<longleftrightarrow> \<not> after x t"
  by (cases x) (auto simp: due_def after_def)

definition live_lease :: "time \<Rightarrow> provider_job \<Rightarrow> bool" where
  "live_lease now j \<longleftrightarrow> pj_status j \<in> {Leased, Executing} \<and> after (pj_lease_expires_at j) now"

text \<open>Joining a job with its topic, as the queries do.\<close>

definition in_scope :: "db \<Rightarrow> string \<Rightarrow> int \<Rightarrow> bool" where
  "in_scope db s t \<longleftrightarrow> scope_of db t = Some s"

section \<open>A small hub\<close>

text \<open>An empty database, and rows for the closed examples of the component theories.\<close>

definition empty_db :: db where
  "empty_db = \<lparr>db_topics = [], db_sessions = [], db_jobs = [], db_stops = [], db_holds = [],
     db_continuations = [], db_resolutions = [], db_absorptions = [], db_evidence = [], db_checkpoints = [],
     db_items = [], db_results = [], db_origins = [], db_controls = [], db_dispatches = [],
     db_ingress = [], db_tickets = [], db_retries = [], db_retry_controls = [], db_workers = [], db_grants = [], db_health = [],
     db_runs = [], db_children = [], db_materials = [], db_outbox = [], db_parts = [], db_attempts = [], db_receipts = [], db_progress = [],
     db_hold_dispositions = [], db_control_dispositions = [], db_notices = [], db_legacy_stop_links = [], db_assessments = [],
     db_observed = [], db_cursors = [], db_handoffs = [], db_inputs = [],
     db_counters = [], db_lanes = [], db_blockers = [],
     db_excerpts = [], db_excerpt_sequence = 0, db_runtime_checkpoints = [], db_observations = [],
     db_task_activity = [], db_activity_entries = [], db_runtime_epochs = [], db_early_scopes = [], db_early_requests = []\<rparr>"

definition example_topic :: topic_row where
  "example_topic = \<lparr>tp_topic_id = 1, tp_project_id = ''p'', tp_chat_id = 7, tp_thread_id = 3,
     tp_title = ''t'', tp_active_agent_id = None, tp_execution_scope = Some ''root:/p'', tp_updated_at = 0\<rparr>"

definition example_job :: "string \<Rightarrow> int \<Rightarrow> job_status \<Rightarrow> provider_job" where
  "example_job i n st =
     (let leased = (st = Leased \<or> st = Executing) in
      \<lparr>pj_job_id = i, pj_idempotency_key = i, pj_chat_id = 7, pj_message_id = n, pj_topic_id = 1,
       pj_topic_sequence = n, pj_agent_id = ''codex'', pj_session_id = ''s'', pj_session_generation = 1,
       pj_provider_session_id = None, pj_model = ''m'', pj_effort = ''e'', pj_payload_text = ''x'',
       pj_context_watermark = None, pj_handoff_id = None, pj_input_group_key = None, pj_status = st,
       pj_attempt_count = (if st = Executing then 1 else 0), pj_max_attempts = 3, pj_next_attempt_at = None,
       pj_lease_owner = (if leased then Some ''w'' else None), pj_lease_token = (if leased then Some ''t'' else None),
       pj_lease_expires_at = (if leased then Some 50 else None), pj_provider_started_at = None,
       pj_error_class = None, pj_error_code = None, pj_error_detail = None, pj_created_at = n,
       pj_updated_at = n, pj_codex_permission_profile = None\<rparr>)"

definition example_hub :: "provider_job list \<Rightarrow> db" where
  "example_hub js = empty_db\<lparr>db_topics := [example_topic], db_jobs := js\<rparr>"

lemmas example_defs = example_hub_def example_job_def example_topic_def empty_db_def

end
