(* ===== verification/Control_Predicates.thy ===== *)
theory Control_Predicates
  imports Hub_Tables
begin

text \<open>
  The predicates the scheduler's queries are built from: an unsettled native control sender and
  the execution root it blocks (\<open>codex_control_predicates.py\<close>), the owner's consent to a lost
  delivery (\<open>delivery_control_predicates.py\<close>, \<open>delivery_hold_predicates.py\<close>), the rule for what
  keeps a topic's queue waiting, and the rule for what an emergency stop covers
  (\<open>stop_coverage.py\<close>). The resolver of the control scope exists twice in the code, as a
  Python function and as an SQL expression; here both are defined and proved to agree.
\<close>

section \<open>Native control senders\<close>

definition closing_resolutions :: "string list" where
  "closing_resolutions = [''acknowledged'', ''superseded'', ''externally_completed'']"

definition terminal_statuses :: "string list" where
  "terminal_statuses = [''completed'', ''failed'', ''interrupted'']"

definition owner_closed_terminal_control :: "db \<Rightarrow> turn_control \<Rightarrow> bool" where
  "owner_closed_terminal_control db c \<longleftrightarrow>
     tc_read_claim_token c = None \<and>
     exists_row (\<lambda>j. pj_job_id j = tc_job_id c \<and> pj_status j = Indeterminate \<and>
       pj_session_id j = tc_session_id c \<and> pj_session_generation j = tc_session_generation c \<and>
       exists_row (\<lambda>r. rs_job_id r = pj_job_id j \<and> rs_resolution r \<in> set closing_resolutions)
         (db_resolutions db) \<and>
       exists_row (\<lambda>p. cp_job_id p = pj_job_id j \<and>
         exists_row (\<lambda>e. te_job_id e = pj_job_id j \<and> te_terminal_status e \<in> set terminal_statuses \<and>
             te_provider_thread_id e = tc_provider_thread_id c \<and>
             te_provider_turn_id e = tc_provider_turn_id c \<and>
             te_project_root e = tc_project_root c \<and>
             cp_provider_thread_id p = te_provider_thread_id e \<and>
             cp_provider_turn_id p = Some (te_provider_turn_id e) \<and>
             cp_project_root p = te_project_root e) (db_evidence db))
         (db_checkpoints db)) (db_jobs db)"

definition unsettled_control :: "db \<Rightarrow> turn_control \<Rightarrow> bool" where
  "unsettled_control db c \<longleftrightarrow>
     tc_send_started_at c \<noteq> None \<and> tc_owner_quiesced_at c = None \<and>
     \<not> owner_closed_terminal_control db c"

text \<open>The roots a topic's retained rows name, in the order of the three parts of the UNION.\<close>

definition retained_roots :: "db \<Rightarrow> int \<Rightarrow> string list" where
  "retained_roots db t = remdups
     (map tc_project_root (filter (\<lambda>c. tc_topic_id c = t) (db_controls db)) @
      map cp_project_root (filter (\<lambda>p. exists_row (\<lambda>j. pj_job_id j = cp_job_id p \<and> pj_topic_id j = t)
        (db_jobs db)) (db_checkpoints db)) @
      map og_canonical_root (filter (\<lambda>g. exists_row (\<lambda>s. ss_session_id s = og_session_id g \<and> ss_topic_id s = t)
        (db_sessions db)) (db_origins db)))"

definition starts_with :: "string \<Rightarrow> string \<Rightarrow> bool" where
  "starts_with s prefix \<longleftrightarrow> take (length prefix) s = prefix"

definition resolved_control_scope :: "db \<Rightarrow> int \<Rightarrow> state_error + string" where
  "resolved_control_scope db t =
     (case topic_of db t of
        None \<Rightarrow> Inl (State_error ''unknown control topic'')
      | Some topic \<Rightarrow>
          (if (case tp_execution_scope topic of Some s \<Rightarrow> starts_with s ''root:/'' | None \<Rightarrow> False)
           then Inr (the (tp_execution_scope topic))
           else if tp_execution_scope topic \<notin> {None, Some (''project:'' @ tp_project_id topic)}
           then Inl (Control_scope_error ''unresolved'')
           else let roots = retained_roots db t in
             (if length roots > 1 then Inl (Control_scope_error ''ambiguous'')
              else case roots of
                  r # _ \<Rightarrow> if starts_with r ''/'' then Inr (''root:'' @ r)
                           else Inl (Control_scope_error ''unresolved'')
                | [] \<Rightarrow> Inl (Control_scope_error ''unresolved''))))"

definition remove_root_prefix :: "string \<Rightarrow> string" where
  "remove_root_prefix s = (if starts_with s ''root:'' then drop 5 s else s)"

text \<open>Order by the start of the send, then by the job; a row without a start sorts first.\<close>

definition control_le :: "turn_control \<Rightarrow> turn_control \<Rightarrow> bool" where
  "control_le a b \<longleftrightarrow>
     (case (tc_send_started_at a, tc_send_started_at b) of
        (None, None) \<Rightarrow> tc_job_id a \<le> tc_job_id b
      | (None, Some _) \<Rightarrow> True
      | (Some _, None) \<Rightarrow> False
      | (Some x, Some y) \<Rightarrow> x < y \<or> (x = y \<and> tc_job_id a \<le> tc_job_id b))"

definition unquiesced_control_owner :: "db \<Rightarrow> string \<Rightarrow> turn_control option" where
  "unquiesced_control_owner db scope =
     first_by control_le
       (\<lambda>c. unsettled_control db c \<and> tc_project_root c = remove_root_prefix scope) (db_controls db)"

definition control_owner_for_topic :: "db \<Rightarrow> int \<Rightarrow> state_error + turn_control option" where
  "control_owner_for_topic db t =
     (if \<not> exists_row (unsettled_control db) (db_controls db) then Inr None
      else case resolved_control_scope db t of
        Inl e \<Rightarrow> Inl e
      | Inr scope \<Rightarrow> Inr (unquiesced_control_owner db scope))"

definition require_control_scope_clear :: "db \<Rightarrow> string \<Rightarrow> state_error + unit" where
  "require_control_scope_clear db scope =
     (if \<not> starts_with scope ''root:/'' then Inl (Control_scope_error ''unresolved'')
      else if unquiesced_control_owner db scope \<noteq> None
      then Inl (State_error ''native control operation has not confirmed quiescence'')
      else Inr ())"

text \<open>The SQL expressions: the resolved scope as a nullable value, and the eligibility clause.\<close>

definition sql_resolved_scope :: "db \<Rightarrow> topic_row \<Rightarrow> string option" where
  "sql_resolved_scope db topic =
     (if (case tp_execution_scope topic of Some s \<Rightarrow> take 6 s = ''root:/'' | None \<Rightarrow> False)
      then tp_execution_scope topic
      else if tp_execution_scope topic = None
           \<or> tp_execution_scope topic = Some (''project:'' @ tp_project_id topic)
      then (case retained_roots db (tp_topic_id topic) of
              [r] \<Rightarrow> if take 1 r = ''/'' then Some (''root:'' @ r) else None
            | _ \<Rightarrow> None)
      else None)"

definition control_blocks_scope :: "db \<Rightarrow> string option \<Rightarrow> bool" where
  "control_blocks_scope db scope \<longleftrightarrow>
     exists_row (\<lambda>c. unsettled_control db c \<and> Some (tc_project_root c) = map_option (drop 5) scope)
       (db_controls db)"

definition control_scope_is_clear :: "db \<Rightarrow> topic_row \<Rightarrow> bool" where
  "control_scope_is_clear db topic \<longleftrightarrow>
     \<not> exists_row (unsettled_control db) (db_controls db) \<or>
     (let resolved = sql_resolved_scope db topic in
        (case resolved of None \<Rightarrow> False | Some s \<Rightarrow> take 6 s = ''root:/'') \<and>
        \<not> control_blocks_scope db resolved)"

section \<open>Consent to a lost delivery\<close>

text \<open>A delivery row as the predicates see it: a final outbox row or a progress delivery.\<close>

record delivery_target =
  dt_final :: bool
  dt_key :: string
  dt_item_sequence :: "int option"
  dt_job_id :: string
  dt_sender_agent_id :: string
  dt_chat_id :: int
  dt_thread_id :: int
  dt_status :: delivery_status
  dt_attempt_count :: int
  dt_leased :: bool

definition final_target :: "outbox_row \<Rightarrow> delivery_target" where
  "final_target o' = \<lparr>dt_final = True, dt_key = ob_outbox_id o', dt_item_sequence = None,
     dt_job_id = ob_job_id o', dt_sender_agent_id = ob_sender_agent_id o',
     dt_chat_id = ob_chat_id o', dt_thread_id = ob_thread_id o', dt_status = ob_status o',
     dt_attempt_count = ob_attempt_count o',
     dt_leased = (ob_lease_owner o' \<noteq> None \<or> ob_lease_token o' \<noteq> None \<or> ob_lease_expires_at o' \<noteq> None)\<rparr>"

definition progress_target :: "progress_row \<Rightarrow> delivery_target" where
  "progress_target p = \<lparr>dt_final = False, dt_key = pg_progress_id p,
     dt_item_sequence = Some (pg_item_sequence p),
     dt_job_id = pg_job_id p, dt_sender_agent_id = pg_sender_agent_id p,
     dt_chat_id = pg_chat_id p, dt_thread_id = pg_thread_id p, dt_status = pg_status p,
     dt_attempt_count = pg_attempt_count p,
     dt_leased = (pg_lease_owner p \<noteq> None \<or> pg_lease_token p \<noteq> None \<or> pg_lease_expires_at p \<noteq> None)\<rparr>"

definition result_id_of :: "db \<Rightarrow> string \<Rightarrow> string option" where
  "result_id_of db job = map_option jr_result_id (find (\<lambda>r. jr_job_id r = job) (db_results db))"

definition occurs :: "string \<Rightarrow> string \<Rightarrow> bool" where
  "occurs sub s \<longleftrightarrow> list_ex (\<lambda>k. starts_with (drop k s) sub) [0..<Suc (length s)]"

definition ends_with :: "string \<Rightarrow> string \<Rightarrow> bool" where
  "ends_with s suffix \<longleftrightarrow> starts_with (rev s) (rev suffix)"

definition plain_root :: "string \<Rightarrow> bool" where
  "plain_root r \<longleftrightarrow> 1 \<le> length r \<and> length r \<le> 4096 \<and> starts_with r ''/'' \<and>
     \<not> occurs [char_of (0::nat)] r \<and> \<not> occurs ''//'' r \<and> \<not> occurs ''/./'' r \<and> \<not> occurs ''/../'' r \<and>
     \<not> ends_with r ''/.'' \<and> \<not> ends_with r ''/..'' \<and> (r = ''/'' \<or> \<not> ends_with r ''/'')"

definition bounded_length :: "nat \<Rightarrow> string option \<Rightarrow> bool" where
  "bounded_length m x \<longleftrightarrow> (case x of None \<Rightarrow> False | Some s \<Rightarrow> 1 \<le> length s \<and> length s \<le> m)"

definition final_proof :: "db \<Rightarrow> delivery_target \<Rightarrow> control_disposition \<Rightarrow> provider_job \<Rightarrow> bool" where
  "final_proof db t dc dj \<longleftrightarrow>
     \<not> (dt_status t = Ds_failed \<and> pj_status dj = Indeterminate) \<or>
     exists_row (\<lambda>r. Some (rs_job_id r) = cx_resolution_job_id dc \<and> rs_job_id r = pj_job_id dj \<and>
       rs_resolution r \<in> set closing_resolutions) (db_resolutions db) \<or>
     exists_row (\<lambda>e. Some (te_job_id e) = cx_terminal_evidence_job_id dc \<and> te_job_id e = pj_job_id dj \<and>
       te_terminal_status e \<in> set terminal_statuses \<and>
       exists_row (\<lambda>p. cp_job_id p = te_job_id e \<and>
         te_provider_thread_id e = cp_provider_thread_id p \<and>
         Some (te_provider_turn_id e) = cp_provider_turn_id p \<and>
         bounded_length 256 (Some (cp_provider_thread_id p)) \<and>
         bounded_length 256 (cp_provider_turn_id p) \<and>
         te_project_root e = cp_project_root p \<and> plain_root (cp_project_root p)) (db_checkpoints db))
       (db_evidence db)"

definition disposition_identity :: "db \<Rightarrow> delivery_target \<Rightarrow> control_disposition \<Rightarrow> provider_job \<Rightarrow> bool" where
  "disposition_identity db t dc dj \<longleftrightarrow>
     (if dt_final t
      then pj_status dj \<in> {Result_ready, Failed, Cancelled, Indeterminate} \<and>
        (pj_status dj \<noteq> Result_ready \<or> exists_row (\<lambda>r. jr_job_id r = pj_job_id dj) (db_results db)) \<and>
        cx_result_id dc = result_id_of db (pj_job_id dj)
      else cx_result_id dc = None \<and> cx_item_sequence dc \<noteq> None \<and> cx_item_sequence dc = dt_item_sequence t \<and>
        exists_row (\<lambda>i. Some (vi_sequence i) = cx_item_sequence dc \<and> vi_job_id i = pj_job_id dj \<and>
          vi_commentary i) (db_items db))"

definition historical_binding :: "db \<Rightarrow> delivery_target \<Rightarrow> bool" where
  "historical_binding db t \<longleftrightarrow>
     exists_row (\<lambda>dc. cx_final_outbox dc = dt_final t \<and>
       (if dt_final t then cx_outbox_id dc = Some (dt_key t) else cx_progress_id dc = Some (dt_key t)) \<and>
       cx_job_id dc = dt_job_id t \<and> cx_sender_agent_id dc = dt_sender_agent_id t \<and>
       cx_chat_id dc = dt_chat_id t \<and> cx_thread_id dc = dt_thread_id t \<and>
       cx_delivery_status dc = dt_status t \<and>
       exists_row (\<lambda>dj. pj_job_id dj = cx_job_id dc \<and>
         pj_agent_id dj = cx_sender_agent_id dc \<and> pj_chat_id dj = cx_chat_id dc \<and>
         pj_topic_id dj = cx_topic_id dc \<and> pj_topic_sequence dj = cx_topic_sequence dc \<and>
         pj_session_id dj = cx_session_id dc \<and> pj_session_generation dj = cx_session_generation dc \<and>
         exists_row (\<lambda>tp. tp_topic_id tp = pj_topic_id dj \<and> tp_project_id tp = cx_project_id dc \<and>
           tp_chat_id tp = cx_chat_id dc \<and> tp_thread_id tp = cx_thread_id dc) (db_topics db) \<and>
         exists_row (\<lambda>s. ss_session_id s = pj_session_id dj \<and> ss_topic_id s = cx_topic_id dc \<and>
           ss_agent_id s = cx_sender_agent_id dc \<and> ss_generation s = cx_session_generation dc)
           (db_sessions db) \<and>
         disposition_identity db t dc dj \<and> (dt_final t \<longrightarrow> final_proof db t dc dj)) (db_jobs db))
       (db_control_dispositions db)"

definition parked :: "db \<Rightarrow> delivery_target \<Rightarrow> bool" where
  "parked db t \<longleftrightarrow>
     (dt_status t = Ds_unknown \<or> (dt_status t = Ds_failed \<and> dt_attempt_count t = 20)) \<and>
     \<not> dt_leased t \<and> historical_binding db t"

definition final_control_reconciled :: "db \<Rightarrow> outbox_row \<Rightarrow> bool" where
  "final_control_reconciled db o' \<longleftrightarrow> parked db (final_target o')"

definition progress_control_reconciled :: "db \<Rightarrow> progress_row \<Rightarrow> bool" where
  "progress_control_reconciled db p \<longleftrightarrow> parked db (progress_target p)"

definition has_result :: "db \<Rightarrow> string \<Rightarrow> bool" where
  "has_result db job \<longleftrightarrow> exists_row (\<lambda>r. jr_job_id r = job) (db_results db)"

definition result_ready_control_reconciled :: "db \<Rightarrow> provider_job \<Rightarrow> bool" where
  "result_ready_control_reconciled db j \<longleftrightarrow>
     pj_status j = Result_ready \<and>
     exists_row (\<lambda>f. ob_job_id f = pj_job_id j \<and> has_result db (pj_job_id j) \<and>
       final_control_reconciled db f) (db_outbox db)"

definition legacy_hold_has_full_control :: "db \<Rightarrow> hold_disposition \<Rightarrow> bool" where
  "legacy_hold_has_full_control db h \<longleftrightarrow>
     exists_row (\<lambda>f. ob_outbox_id f = hx_outbox_id h \<and> final_control_reconciled db f \<and>
       exists_row (\<lambda>c. cx_outbox_id c = Some (ob_outbox_id f) \<and> cx_job_id c = hx_job_id h \<and>
         cx_result_id c = hx_result_id h \<and> cx_topic_id c = hx_topic_id h \<and>
         cx_topic_sequence c = hx_topic_sequence h \<and> cx_project_id c = hx_project_id h \<and>
         cx_session_id c = hx_session_id h \<and> cx_session_generation c = hx_session_generation h \<and>
         cx_sender_agent_id c = hx_sender_agent_id h \<and> cx_chat_id c = hx_chat_id h \<and>
         cx_thread_id c = hx_thread_id h) (db_control_dispositions db)) (db_outbox db)"

definition nonblocking_execution_notice :: "db \<Rightarrow> outbox_row \<Rightarrow> bool" where
  "nonblocking_execution_notice db o' \<longleftrightarrow>
     ob_status o' = Ds_unknown \<and> ob_purpose o' = Execution_notice \<and> \<not> has_result db (ob_job_id o') \<and>
     exists_row (\<lambda>j. pj_job_id j = ob_job_id o' \<and> pj_status j \<in> {Failed, Cancelled, Indeterminate})
       (db_jobs db)"

definition outbox_delivery_hold_released :: "db \<Rightarrow> outbox_row \<Rightarrow> bool" where
  "outbox_delivery_hold_released db o' \<longleftrightarrow>
     ob_status o' = Ds_unknown \<and>
     exists_row (\<lambda>h. hx_outbox_id h = ob_outbox_id o' \<and> hx_job_id h = ob_job_id o' \<and>
       hx_sender_agent_id h = ob_sender_agent_id o' \<and> hx_chat_id h = ob_chat_id o' \<and>
       hx_thread_id h = ob_thread_id o' \<and>
       exists_row (\<lambda>j. pj_job_id j = hx_job_id h \<and> pj_agent_id j = hx_sender_agent_id h \<and>
         pj_chat_id j = hx_chat_id h \<and> pj_topic_id j = hx_topic_id h \<and>
         pj_topic_sequence j = hx_topic_sequence h \<and> pj_session_id j = hx_session_id h \<and>
         pj_session_generation j = hx_session_generation h \<and>
         exists_row (\<lambda>tp. tp_topic_id tp = pj_topic_id j \<and> tp_chat_id tp = hx_chat_id h \<and>
           tp_thread_id tp = hx_thread_id h \<and> tp_project_id tp = hx_project_id h \<and>
           topic_scope tp = hx_execution_scope h) (db_topics db)) (db_jobs db) \<and>
       hx_result_id h = result_id_of db (hx_job_id h)) (db_hold_dispositions db)"

definition job_blocks_topic_fifo :: "db \<Rightarrow> provider_job \<Rightarrow> bool" where
  "job_blocks_topic_fifo db j \<longleftrightarrow>
     pj_status j \<notin> {Completed, Failed, Cancelled, Indeterminate} \<and>
     \<not> (result_ready_control_reconciled db j \<or>
        (pj_status j = Result_ready \<and>
         exists_row (\<lambda>r. ob_job_id r = pj_job_id j \<and> has_result db (pj_job_id j) \<and>
           outbox_delivery_hold_released db r) (db_outbox db)))"

section \<open>Holds and stops\<close>

definition pending_hold :: "db \<Rightarrow> string \<Rightarrow> bool" where
  "pending_hold db job \<longleftrightarrow>
     exists_row (\<lambda>h. hd_job_id h = job \<and> hd_decision h = Hold_pending) (db_holds db)"

definition stop_covers :: "db \<Rightarrow> provider_stop \<Rightarrow> provider_job \<Rightarrow> bool" where
  "stop_covers db s j \<longleftrightarrow>
     st_topic_id s = pj_topic_id j \<and> pj_created_at j \<le> st_created_at s \<and>
     \<not> exists_row (\<lambda>h. hd_job_id h = pj_job_id j \<and> hd_held_at h \<le> st_created_at s \<and>
         (hd_decision h = Hold_pending \<or> after (hd_decided_at h) (st_created_at s))) (db_holds db)"

definition covering_stop :: "db \<Rightarrow> string \<Rightarrow> provider_stop \<Rightarrow> bool" where
  "covering_stop db job s \<longleftrightarrow>
     st_pending s \<and> exists_row (\<lambda>j. pj_job_id j = job \<and> stop_covers db s j) (db_jobs db)"

definition pending_stop_for_job :: "db \<Rightarrow> string \<Rightarrow> string option" where
  "pending_stop_for_job db job =
     map_option st_request_id
       (first_by (\<lambda>a b. st_created_at a \<le> st_created_at b) (covering_stop db job) (db_stops db))"

text \<open>An unresolved outcome: indeterminate without a resolution and without terminal evidence.\<close>

definition resolved_outcome :: "db \<Rightarrow> string \<Rightarrow> bool" where
  "resolved_outcome db job \<longleftrightarrow> exists_row (\<lambda>r. rs_job_id r = job) (db_resolutions db)"

definition terminal_outcome :: "db \<Rightarrow> string \<Rightarrow> bool" where
  "terminal_outcome db job \<longleftrightarrow> exists_row (\<lambda>e. te_job_id e = job) (db_evidence db)"

definition uncertain :: "db \<Rightarrow> provider_job \<Rightarrow> bool" where
  "uncertain db j \<longleftrightarrow> pj_status j = Indeterminate \<and>
     \<not> resolved_outcome db (pj_job_id j) \<and> \<not> terminal_outcome db (pj_job_id j)"

section \<open>The two resolvers agree\<close>

lemma topic_of_id: "topic_of db t = Some topic \<Longrightarrow> tp_topic_id topic = t \<and> topic \<in> set (db_topics db)"
  by (auto simp: topic_of_def dest: find_Some_set)

lemma starts_with_root:
  "starts_with s ''root:/'' \<longleftrightarrow> take 6 s = ''root:/''" "starts_with s ''root:'' \<longleftrightarrow> take 5 s = ''root:''"
  "starts_with s ''/'' \<longleftrightarrow> take 1 s = ''/''"
  by (simp_all add: starts_with_def numeral_eq_Suc)

lemma take_6_root: "take 6 s = ''root:/'' \<Longrightarrow> starts_with s ''root:/'' \<and> remove_root_prefix s = drop 5 s"
proof -
  assume s: "take 6 s = ''root:/''"
  have "take 5 s = take 5 (take 6 s)" by (simp add: min_def)
  then have "take 5 s = ''root:''" unfolding s by simp
  then show ?thesis using s by (simp add: starts_with_root remove_root_prefix_def)
qed

lemma root_slash: "starts_with r ''/'' \<Longrightarrow> take 6 (''root:'' @ r) = ''root:/''"
  by (cases r) (auto simp: starts_with_root)

lemma sql_scope_agrees:
  assumes "topic_of db t = Some topic"
  shows "(case sql_resolved_scope db topic of None \<Rightarrow> False | Some s \<Rightarrow> take 6 s = ''root:/'') \<longleftrightarrow>
     (\<exists>s. resolved_control_scope db t = Inr s)"
    and "resolved_control_scope db t = Inr s \<Longrightarrow> sql_resolved_scope db topic = Some s \<and> take 6 s = ''root:/''"
proof -
  have t: "tp_topic_id topic = t" using topic_of_id [OF assms] by simp
  show "resolved_control_scope db t = Inr s \<Longrightarrow> sql_resolved_scope db topic = Some s \<and> take 6 s = ''root:/''"
    using assms t root_slash
    by (auto simp: resolved_control_scope_def sql_resolved_scope_def starts_with_root Let_def
        split: option.splits if_splits list.splits)
  show "(case sql_resolved_scope db topic of None \<Rightarrow> False | Some s \<Rightarrow> take 6 s = ''root:/'') \<longleftrightarrow>
     (\<exists>s. resolved_control_scope db t = Inr s)"
    using assms t
    by (auto simp: resolved_control_scope_def sql_resolved_scope_def starts_with_root Let_def
        split: option.splits if_splits list.splits)
qed

lemma owner_none_iff:
  assumes "take 6 s = ''root:/''"
  shows "unquiesced_control_owner db s = None \<longleftrightarrow> \<not> control_blocks_scope db (Some s)"
  using take_6_root [OF assms]
  by (simp add: unquiesced_control_owner_def first_by_None control_blocks_scope_def)

lemma control_scope_iff:
  assumes "topic_of db t = Some topic"
  shows "control_scope_is_clear db topic \<longleftrightarrow> control_owner_for_topic db t = Inr None"
proof (cases "exists_row (unsettled_control db) (db_controls db)")
  case False
  then show ?thesis by (simp add: control_scope_is_clear_def control_owner_for_topic_def)
next
  case True
  show ?thesis
  proof (cases "resolved_control_scope db t")
    case (Inl e)
    then show ?thesis
      using True sql_scope_agrees(1) [OF assms]
      by (simp add: control_scope_is_clear_def control_owner_for_topic_def Let_def)
  next
    case (Inr s)
    note sql = sql_scope_agrees(2) [OF assms Inr]
    show ?thesis
      using True Inr sql owner_none_iff [of s db]
      by (simp add: control_scope_is_clear_def control_owner_for_topic_def Let_def)
  qed
qed

text \<open>C15. The eligibility clause of the scheduler's query and the Python resolver are the same
  test: for a known topic the clause holds exactly when the resolver reports, without an error,
  that no unsettled control sender owns the topic's root.\<close>

theorem control_scope_clear_agrees:
  assumes "topic_of db t = Some topic"
  shows "control_scope_is_clear db topic \<longleftrightarrow> control_owner_for_topic db t = Inr None"
  by (rule control_scope_iff [OF assms])

theorem control_scope_clear_agrees_witness:
  "topic_of (example_hub []) 1 = Some example_topic \<and>
   (control_scope_is_clear (example_hub []) example_topic \<longleftrightarrow> control_owner_for_topic (example_hub []) 1 = Inr None)"
proof -
  have t: "topic_of (example_hub []) 1 = Some example_topic"
    by (simp add: topic_of_def example_hub_def example_topic_def)
  then show ?thesis using control_scope_clear_agrees [OF t] by blast
qed

text \<open>What a consent releases: only the exact delivery, job, topic and session it was given for.\<close>

lemma parked_bound:
  assumes "parked db t"
  shows "\<exists>dc \<in> set (db_control_dispositions db). \<exists>dj \<in> set (db_jobs db).
     cx_job_id dc = dt_job_id t \<and> pj_job_id dj = dt_job_id t \<and> cx_delivery_status dc = dt_status t \<and>
     pj_session_generation dj = cx_session_generation dc \<and> pj_topic_sequence dj = cx_topic_sequence dc"
  using assms unfolding parked_def historical_binding_def exists_row_iff by (elim conjE bexE) auto

text \<open>A job that still runs or waits always keeps its topic's queue waiting.\<close>

lemma unfinished_blocks:
  "pj_status j \<in> {Queued, Leased, Executing, Retry_wait} \<Longrightarrow> job_blocks_topic_fifo db j"
  by (auto simp: job_blocks_topic_fifo_def result_ready_control_reconciled_def)

lemma terminal_not_blocks:
  "pj_status j \<in> {Completed, Failed, Cancelled, Indeterminate} \<Longrightarrow> \<not> job_blocks_topic_fifo db j"
  by (auto simp: job_blocks_topic_fifo_def)

lemma pending_stop_iff:
  "pending_stop_for_job db i \<noteq> None \<longleftrightarrow>
     (\<exists>s \<in> set (db_stops db). st_pending s \<and> (\<exists>j \<in> set (db_jobs db). pj_job_id j = i \<and> stop_covers db s j))"
  by (simp add: pending_stop_for_job_def first_by_None exists_row_iff covering_stop_def)

end
