(* ===== verification/Send_Once.thy ===== *)
theory Send_Once
  imports Main
begin

text \<open>
  The contract of a durable sender over a store with at-most-once sends: a send begins only
  from an armed state and disarms it, and only a confirmed rejection arms it again. Notices,
  final outbox rows and progress deliveries all promise it; a client proves the bound on the
  number of sends once, here.
\<close>

inductive trace :: "('s \<Rightarrow> 'e \<Rightarrow> 's \<Rightarrow> bool) \<Rightarrow> 's \<Rightarrow> 'e list \<Rightarrow> 's \<Rightarrow> bool" for step where
  trace_nil: "trace step s [] s"
| trace_step: "step s e t \<Longrightarrow> trace step t es u \<Longrightarrow> trace step s (e # es) u"

lemma trace_append: "trace step s (xs @ ys) u \<Longrightarrow> \<exists>t. trace step s xs t \<and> trace step t ys u"
proof (induction xs arbitrary: s)
  case Nil
  then show ?case by (auto intro: trace_nil)
next
  case (Cons x xs)
  then obtain t where "step s x t" "trace step t (xs @ ys) u"
    by (auto elim: trace.cases)
  then show ?case using Cons.IH [of t] by (meson trace_step)
qed

locale send_once =
  fixes step :: "'s \<Rightarrow> 'e \<Rightarrow> 's \<Rightarrow> bool"
    and begins :: "'e \<Rightarrow> bool"
    and rejects :: "'e \<Rightarrow> bool"
    and armed :: "'s \<Rightarrow> bool"
  assumes begin_disarms: "step s e s' \<Longrightarrow> begins e \<Longrightarrow> armed s \<and> \<not> armed s'"
    and only_rejection_arms: "step s e s' \<Longrightarrow> \<not> armed s \<Longrightarrow> \<not> rejects e \<Longrightarrow> \<not> armed s'"
begin

lemma sends_bounded:
  "trace step s es u \<Longrightarrow> length (filter begins es) + (if armed u then 1 else 0)
     \<le> length (filter rejects es) + (if armed s then 1 else 0)"
proof (induction rule: trace.induct)
  case (trace_step s e t es u)
  have "(if begins e then 1 else 0) + (if armed t then 1 else 0) \<le> (if rejects e then 1 else 0) + (if armed s then 1 else 0 :: nat)"
    using begin_disarms [OF trace_step.hyps(1)] only_rejection_arms [OF trace_step.hyps(1)]
    by (cases "begins e"; cases "rejects e"; cases "armed s"; cases "armed t") auto
  then show ?case using trace_step.IH by (auto split: if_splits)
qed simp

text \<open>Two sends are separated by a rejection.\<close>

lemma sends_separated:
  assumes "trace step s (e # es) u" "begins e" "list_all (\<lambda>x. \<not> rejects x) es"
  shows "filter begins es = []"
proof -
  obtain t where t: "step s e t" "trace step t es u" using assms(1) by (cases) auto
  have "\<not> armed t" using begin_disarms [OF t(1) assms(2)] by simp
  moreover have "filter rejects es = []" using assms(3) by (simp add: filter_empty_conv list_all_iff)
  ultimately show ?thesis using sends_bounded [OF t(2)] by simp
qed

lemma sends_bounded_and_separated:
  assumes "trace step s es u"
  shows "length (filter begins es) \<le> length (filter rejects es) + 1 \<and>
     (\<forall>xs e ys zs. es = xs @ e # ys @ zs \<longrightarrow> begins e \<longrightarrow> list_all (\<lambda>x. \<not> rejects x) ys \<longrightarrow>
        filter begins ys = [])"
proof (intro conjI allI impI)
  show "length (filter begins es) \<le> length (filter rejects es) + 1"
    using sends_bounded [OF assms] by (simp split: if_splits)
next
  fix xs e ys zs
  assume "es = xs @ e # ys @ zs" and e: "begins e" "list_all (\<lambda>x. \<not> rejects x) ys"
  then obtain t v where "trace step t (e # ys) v"
    using assms trace_append [of step s xs] trace_append [of step _ "e # ys" zs] by fastforce
  then show "filter begins ys = []" using sends_separated e by blast
qed

end

end
