(* ===== verification/Task_Notices.thy ===== *)
theory Task_Notices
  imports Control_Predicates Send_Once
begin

text \<open>
  The durable task notices of \<open>task_lifecycle.py\<close>: preparation under an immutable event key,
  and delivery by a lease, a begun send, and one of the outcomes delivered, rejected, unknown
  or superseded. The tests that decide whether an unattempted notice of some kinds is still
  current read tables outside this development; they are the parameter \<open>current\<close> of
  \<open>begin_send\<close>, except the test for \<open>delivery_wait\<close>, which is defined here.
\<close>

section \<open>Preparation\<close>

definition notice_text :: "string \<Rightarrow> string \<Rightarrow> nat \<Rightarrow> state_error + unit" where
  "notice_text value name maximum =
     check (py_strip value \<noteq> [] \<and> length value \<le> maximum) (State_error (''invalid task notice '' @ name))"

definition notice_integer :: "int \<Rightarrow> string \<Rightarrow> bool \<Rightarrow> state_error + unit" where
  "notice_integer value name positive =
     check (if positive then 0 < value else value \<noteq> 0) (State_error (''invalid task notice '' @ name))"

definition get_notice :: "db \<Rightarrow> string \<Rightarrow> state_error + task_notice" where
  "get_notice db i =
     (case find (\<lambda>n. nt_notice_id n = i) (db_notices db) of
        None \<Rightarrow> Inl (State_error ''task notice does not exist'') | Some n \<Rightarrow> Inr n)"

definition mismatch :: state_error where
  "mismatch = State_error ''task notice destination does not match its subject''"

text \<open>The subject's chat and its topic's destination: the join of the subject with its topic.\<close>

definition destination_matches :: "db \<Rightarrow> (int \<times> int) option \<Rightarrow> int \<Rightarrow> int \<Rightarrow> bool" where
  "destination_matches db subject chat thread =
     (case subject of None \<Rightarrow> False
      | Some (subject_chat, t) \<Rightarrow>
          (case topic_of db t of None \<Rightarrow> False
           | Some tp \<Rightarrow> subject_chat = chat \<and> tp_chat_id tp = chat \<and> tp_thread_id tp = thread))"

definition job_subject :: "db \<Rightarrow> string \<Rightarrow> (int \<times> int) option" where
  "job_subject db i = map_option (\<lambda>j. (pj_chat_id j, pj_topic_id j)) (job_of db i)"

definition stop_subject :: "db \<Rightarrow> string \<Rightarrow> (int \<times> int) option" where
  "stop_subject db i = map_option (\<lambda>s. (st_chat_id s, st_topic_id s))
     (find (\<lambda>s. st_request_id s = i) (db_stops db))"

definition validate_subject ::
  "db \<Rightarrow> string option \<Rightarrow> (string \<Rightarrow> (int \<times> int) option) \<Rightarrow> int \<Rightarrow> int \<Rightarrow> state_error + unit" where
  "validate_subject db identifier lookup chat thread =
     (case identifier of None \<Rightarrow> Inr ()
      | Some i \<Rightarrow> attempt (notice_text i ''subject reference'' 128)
          (\<lambda>_. check (destination_matches db (lookup i) chat thread) mismatch))"

definition validate_destination ::
  "db \<Rightarrow> string option \<Rightarrow> string option \<Rightarrow> int \<Rightarrow> int \<Rightarrow> string option \<Rightarrow> state_error + unit" where
  "validate_destination db job stop chat thread assessment =
     (case assessment of
        Some a \<Rightarrow>
          (if job \<noteq> None \<or> stop \<noteq> None
           then Inl (State_error ''assessment notice requires its own subject'')
           else attempt (notice_text a ''subject reference'' 128)
             (\<lambda>_. case find (\<lambda>r. fst r = a) (db_assessments db) of
                None \<Rightarrow> Inl mismatch
              | Some r \<Rightarrow> check (snd r = (chat, thread)) mismatch))
      | None \<Rightarrow>
          (if job = None \<and> stop = None
           then Inl (State_error ''task notice requires a job or stop reference'')
           else attempt (validate_subject db job (job_subject db) chat thread)
             (\<lambda>_. validate_subject db stop (stop_subject db) chat thread)))"

record notice_draft =
  nd_event_key :: string
  nd_kind :: string
  nd_job_id :: "string option"
  nd_stop_request_id :: "string option"
  nd_assessment_id :: "string option"
  nd_chat_id :: int
  nd_thread_id :: int
  nd_reply_to_message_id :: "int option"
  nd_telegram_html :: string

definition validate_draft :: "db \<Rightarrow> notice_draft \<Rightarrow> state_error + unit" where
  "validate_draft db d =
     attempt (notice_text (nd_event_key d) ''event key'' 256) (\<lambda>_.
     attempt (notice_text (nd_kind d) ''kind'' 64) (\<lambda>_.
     attempt (notice_text (nd_telegram_html d) ''HTML'' 3500) (\<lambda>_.
     attempt (notice_integer (nd_chat_id d) ''chat identity'' False) (\<lambda>_.
     attempt (notice_integer (nd_thread_id d) ''thread identity'' True) (\<lambda>_.
     attempt (case nd_reply_to_message_id d of None \<Rightarrow> Inr ()
              | Some r \<Rightarrow> notice_integer r ''reply identity'' True) (\<lambda>_.
     validate_destination db (nd_job_id d) (nd_stop_request_id d) (nd_chat_id d) (nd_thread_id d)
       (nd_assessment_id d)))))))"

definition same_content :: "task_notice \<Rightarrow> notice_draft \<Rightarrow> bool" where
  "same_content n d \<longleftrightarrow> nt_kind n = nd_kind d \<and> nt_job_id n = nd_job_id d \<and>
     nt_stop_request_id n = nd_stop_request_id d \<and> nt_chat_id n = nd_chat_id d \<and>
     nt_thread_id n = nd_thread_id d \<and> nt_reply_to_message_id n = nd_reply_to_message_id d \<and>
     nt_telegram_html n = nd_telegram_html d"

definition new_notice :: "notice_draft \<Rightarrow> string \<Rightarrow> time \<Rightarrow> task_notice" where
  "new_notice d nid now =
     \<lparr>nt_notice_id = nid, nt_event_key = nd_event_key d, nt_kind = nd_kind d, nt_job_id = nd_job_id d,
      nt_stop_request_id = nd_stop_request_id d, nt_chat_id = nd_chat_id d, nt_thread_id = nd_thread_id d,
      nt_reply_to_message_id = nd_reply_to_message_id d, nt_telegram_html = nd_telegram_html d,
      nt_status = Nt_pending, nt_attempt_count = 0, nt_available_at = now, nt_lease_token = None,
      nt_lease_owner = None, nt_lease_expires_at = None, nt_send_started_at = None,
      nt_telegram_message_id = None, nt_error_code = None, nt_created_at = now, nt_updated_at = now,
      nt_assessment_id = nd_assessment_id d\<rparr>"

definition prepare_notice :: "notice_draft \<Rightarrow> time \<Rightarrow> string \<Rightarrow> db \<Rightarrow> state_error + (task_notice \<times> bool) \<times> db" where
  "prepare_notice d now nid db =
     attempt (validate_draft db d) (\<lambda>_.
       case find (\<lambda>n. nt_event_key n = nd_event_key d) (db_notices db) of
         Some prior \<Rightarrow>
           (if \<not> same_content prior d then Inl (State_error ''task notice event content is immutable'')
            else if nt_assessment_id prior \<noteq> nd_assessment_id d
            then Inl (State_error ''task notice event subject is immutable'')
            else Inr ((prior, False), db))
       | None \<Rightarrow>
           (if exists_row (\<lambda>n. nt_notice_id n = nid) (db_notices db)
            then Inl (Integrity_error ''task_lifecycle_notices.notice_id'')
            else Inr ((new_notice d nid now, True),
                      db\<lparr>db_notices := db_notices db @ [new_notice d nid now]\<rparr>)))"

section \<open>Delivery\<close>

text \<open>The order of the lease: stop notices first, then by creation, acceptance first, then identity.\<close>

definition notice_rank :: "task_notice \<Rightarrow> nat \<times> time \<times> nat \<times> string" where
  "notice_rank n = (if nt_stop_request_id n \<noteq> None then 0 else 1, nt_created_at n,
     if nt_kind n = ''accepted'' then 0 else 1, nt_notice_id n)"

definition notice_le :: "task_notice \<Rightarrow> task_notice \<Rightarrow> bool" where
  "notice_le a b \<longleftrightarrow> notice_rank a \<le> notice_rank b"

definition set_notice :: "string \<Rightarrow> (task_notice \<Rightarrow> task_notice) \<Rightarrow> db \<Rightarrow> db" where
  "set_notice i f db = db\<lparr>db_notices := update_where (\<lambda>n. nt_notice_id n = i) f (db_notices db)\<rparr>"

text \<open>\<open>UPDATE ... WHERE notice_id=?\<close> followed by \<open>return self.get_notice(notice_id)\<close>.\<close>

definition save_notice :: "string \<Rightarrow> (task_notice \<Rightarrow> task_notice) \<Rightarrow> db \<Rightarrow> state_error + task_notice \<times> db" where
  "save_notice i f db = attempt (get_notice (set_notice i f db) i) (\<lambda>n. Inr (n, set_notice i f db))"

text \<open>The statement of every release: clear the lease columns and set the new status.\<close>

definition clear_notice_lease :: "notice_status \<Rightarrow> time \<Rightarrow> task_notice \<Rightarrow> task_notice" where
  "clear_notice_lease s now n = n\<lparr>nt_status := s, nt_lease_token := None, nt_lease_owner := None,
     nt_lease_expires_at := None, nt_updated_at := now\<rparr>"

definition lease_notice_tx ::
  "string \<Rightarrow> time \<Rightarrow> int \<Rightarrow> string \<Rightarrow> db \<Rightarrow> state_error + task_notice option \<times> db" where
  "lease_notice_tx sender now secs token db =
     (case first_by notice_le (\<lambda>n. nt_status n = Nt_pending \<and> nt_available_at n \<le> now) (db_notices db) of
        None \<Rightarrow> Inr (None, db)
      | Some row \<Rightarrow>
          (let db' = db\<lparr>db_notices := update_where
                 (\<lambda>n. nt_notice_id n = nt_notice_id row \<and> nt_status n = Nt_pending)
                 (\<lambda>n. n\<lparr>nt_status := Nt_leased, nt_lease_token := Some token, nt_lease_owner := Some sender,
                        nt_lease_expires_at := Some (now + seconds secs), nt_send_started_at := None,
                        nt_updated_at := now\<rparr>) (db_notices db)\<rparr>
           in attempt (get_notice db' (nt_notice_id row)) (\<lambda>n. Inr (Some n, db'))))"

definition lease_notice ::
  "string \<Rightarrow> time \<Rightarrow> int \<Rightarrow> string \<Rightarrow> db \<Rightarrow> (state_error, db, task_notice option) outcome" where
  "lease_notice sender now secs token db =
     (case attempt (notice_text sender ''sender identity'' 128) (\<lambda>_.
           attempt (notice_integer secs ''lease duration'' True) (\<lambda>_.
           check (secs \<le> 3600) (State_error ''invalid task notice lease duration''))) of
        Inl e \<Rightarrow> (Inl e, db)
      | Inr _ \<Rightarrow> transact (lease_notice_tx sender now secs token) db)"

definition current_attempt :: "db \<Rightarrow> string \<Rightarrow> string \<Rightarrow> time \<Rightarrow> bool \<Rightarrow> state_error + task_notice" where
  "current_attempt db i token now started =
     attempt (get_notice db i) (\<lambda>n.
       if nt_status n \<noteq> Nt_leased \<or> nt_lease_token n \<noteq> Some token \<or> \<not> after (nt_lease_expires_at n) now
          \<or> (nt_send_started_at n \<noteq> None) \<noteq> started
       then Inl (State_error ''task notice requires a current matching delivery lease'')
       else Inr n)"

text \<open>The provider job states in which an unattempted notice of a kind may still be sent.\<close>

definition valid_states :: "string \<Rightarrow> job_status list option" where
  "valid_states kind = map_of
     [(''accepted'', [Queued, Retry_wait, Leased]), (''queued'', [Queued, Retry_wait, Leased]),
      (''executing'', [Executing]), (''approval_wait'', [Executing]), (''no_progress'', [Executing]),
      (''claude_permission_wait'', [Executing]), (''claude_no_progress'', [Executing])] kind"

definition blocking_result :: "db \<Rightarrow> outbox_row \<Rightarrow> provider_job \<Rightarrow> topic_row \<Rightarrow> bool" where
  "blocking_result db r j t \<longleftrightarrow>
     ob_status r = Ds_unknown \<and> pj_status j = Result_ready \<and> ob_sender_agent_id r = pj_agent_id j \<and>
     ob_chat_id r = pj_chat_id j \<and> tp_chat_id t = ob_chat_id r \<and> tp_thread_id t = ob_thread_id r \<and>
     0 < tp_thread_id t \<and> 0 < pj_message_id j \<and> ob_chat_id r \<noteq> 0 \<and> has_result db (pj_job_id j) \<and>
     job_blocks_topic_fifo db j"

definition delivery_wait_notice_is_current :: "db \<Rightarrow> string \<Rightarrow> string option \<Rightarrow> int \<Rightarrow> int \<Rightarrow> bool" where
  "delivery_wait_notice_is_current db key job chat thread =
     exists_row (\<lambda>r. exists_row (\<lambda>j. pj_job_id j = ob_job_id r \<and>
         exists_row (\<lambda>t. tp_topic_id t = pj_topic_id j \<and> blocking_result db r j t \<and>
           ''delivery-wait:'' @ ob_outbox_id r = key \<and> Some (pj_job_id j) = job \<and>
           ob_chat_id r = chat \<and> ob_thread_id r = thread) (db_topics db)) (db_jobs db)) (db_outbox db)"

definition probed_kinds :: "string list" where
  "probed_kinds = [''claude_no_progress'', ''claude_permission_wait'', ''approval_wait'', ''no_progress'']"

definition notice_obsolete :: "(db \<Rightarrow> task_notice \<Rightarrow> time \<Rightarrow> bool) \<Rightarrow> db \<Rightarrow> task_notice \<Rightarrow> time \<Rightarrow> bool" where
  "notice_obsolete current db n now =
     (nt_attempt_count n = 0 \<and> nt_stop_request_id n = None \<and>
      ((nt_kind n = ''delivery_wait'' \<and>
          \<not> delivery_wait_notice_is_current db (nt_event_key n) (nt_job_id n) (nt_chat_id n) (nt_thread_id n)) \<or>
       (nt_kind n \<in> set probed_kinds \<and> \<not> current db n now) \<or>
       (case (valid_states (nt_kind n), nt_job_id n) of
          (Some ok, Some i) \<Rightarrow> (case job_of db i of None \<Rightarrow> True | Some j \<Rightarrow> pj_status j \<notin> set ok)
        | _ \<Rightarrow> False)))"

definition start_send :: "time \<Rightarrow> task_notice \<Rightarrow> task_notice" where
  "start_send now n = n\<lparr>nt_send_started_at := Some now, nt_attempt_count := nt_attempt_count n + 1,
     nt_updated_at := now\<rparr>"

definition begin_send_tx ::
  "(db \<Rightarrow> task_notice \<Rightarrow> time \<Rightarrow> bool) \<Rightarrow> string \<Rightarrow> string \<Rightarrow> time \<Rightarrow> db \<Rightarrow> state_error + task_notice \<times> db" where
  "begin_send_tx current i token now db =
     attempt (get_notice db i) (\<lambda>n.
       if nt_status n = Nt_superseded \<and> nt_attempt_count n = 0 then Inr (n, db)
       else attempt (current_attempt db i token now False) (\<lambda>n.
         if notice_obsolete current db n now then save_notice i (clear_notice_lease Nt_superseded now) db
         else save_notice i (start_send now) db))"

definition begin_send ::
  "(db \<Rightarrow> task_notice \<Rightarrow> time \<Rightarrow> bool) \<Rightarrow> string \<Rightarrow> string \<Rightarrow> time \<Rightarrow> db \<Rightarrow> (state_error, db, task_notice) outcome" where
  "begin_send current i token now db = transact (begin_send_tx current i token now) db"

definition complete_send :: "string \<Rightarrow> string \<Rightarrow> int \<Rightarrow> time \<Rightarrow> db \<Rightarrow> (state_error, db, task_notice) outcome" where
  "complete_send i token message now db =
     (case notice_integer message ''Telegram receipt'' True of
        Inl e \<Rightarrow> (Inl e, db)
      | Inr _ \<Rightarrow> transact (\<lambda>db. attempt (current_attempt db i token now True) (\<lambda>_.
          save_notice i (\<lambda>r. (clear_notice_lease Nt_delivered now r)
            \<lparr>nt_telegram_message_id := Some message, nt_error_code := None\<rparr>) db)) db)"

definition retry_rejected ::
  "string \<Rightarrow> string \<Rightarrow> string \<Rightarrow> time \<Rightarrow> int \<Rightarrow> time \<Rightarrow> db \<Rightarrow> (state_error, db, task_notice) outcome" where
  "retry_rejected i token code available_at max_attempts now db =
     (case attempt (notice_text code ''error code'' 128) (\<lambda>_.
           attempt (notice_integer max_attempts ''attempt limit'' True) (\<lambda>_.
           attempt (check (max_attempts \<le> 20) (State_error ''invalid task notice attempt limit'')) (\<lambda>_.
           check (now \<le> available_at) (State_error ''task notice retry cannot precede rejection'')))) of
        Inl e \<Rightarrow> (Inl e, db)
      | Inr _ \<Rightarrow> transact (\<lambda>db. attempt (current_attempt db i token now True) (\<lambda>n.
          let s = (if nt_attempt_count n \<ge> max_attempts then Nt_failed else Nt_pending)
          in save_notice i (\<lambda>r. (clear_notice_lease s now r)
               \<lparr>nt_available_at := available_at, nt_error_code := Some code\<rparr>) db)) db)"

definition mark_send_unknown ::
  "string \<Rightarrow> string \<Rightarrow> string \<Rightarrow> time \<Rightarrow> db \<Rightarrow> (state_error, db, task_notice) outcome" where
  "mark_send_unknown i token code now db =
     (case notice_text code ''error code'' 128 of
        Inl e \<Rightarrow> (Inl e, db)
      | Inr _ \<Rightarrow> transact (\<lambda>db. attempt (get_notice db i) (\<lambda>n.
          if nt_status n = Nt_delivered then Inr (n, db)
          else if nt_status n \<noteq> Nt_leased \<or> nt_lease_token n \<noteq> Some token \<or> nt_send_started_at n = None
          then Inl (State_error ''unknown delivery requires the matching begun attempt'')
          else save_notice i (\<lambda>r. (clear_notice_lease Nt_unknown now r)\<lparr>nt_error_code := Some code\<rparr>) db)) db)"

definition expire_notice :: "time \<Rightarrow> task_notice \<Rightarrow> task_notice" where
  "expire_notice now n =
     (clear_notice_lease (if nt_send_started_at n = None then Nt_pending else Nt_unknown) now n)
       \<lparr>nt_error_code := (if nt_send_started_at n = None then nt_error_code n else Some ''expired_send_attempt'')\<rparr>"

definition expired_notice :: "time \<Rightarrow> task_notice \<Rightarrow> bool" where
  "expired_notice now n \<longleftrightarrow> nt_status n = Nt_leased \<and> due (nt_lease_expires_at n) now"

definition recover_expired_notices :: "time \<Rightarrow> db \<Rightarrow> (state_error, db, nat) outcome" where
  "recover_expired_notices now db =
     (Inr (count_where (expired_notice now) (db_notices db)),
      db\<lparr>db_notices := update_where (expired_notice now) (expire_notice now) (db_notices db)\<rparr>)"

definition notices_for_stop :: "db \<Rightarrow> string \<Rightarrow> task_notice list" where
  "notices_for_stop db request =
     sort_key (\<lambda>n. (nt_created_at n, nt_notice_id n))
       (filter (\<lambda>n. nt_stop_request_id n = Some request \<or>
          list_ex (\<lambda>l. fst l = request \<and> snd l = nt_notice_id n) (db_legacy_stop_links db)) (db_notices db))"

section \<open>At most one send without a rejection\<close>

text \<open>The operations of the facade, as the steps of a machine; the error of a refused call is kept.\<close>

datatype notice_op =
    Prepare notice_draft time string
  | Lease string time int string
  | Begin string string time
  | Complete string string int time
  | Reject string string string time int time
  | Unknown string string string time
  | Recover time

datatype notice_reply = Refused state_error | Notice task_notice | Nothing

definition reply :: "state_error + 'a \<Rightarrow> ('a \<Rightarrow> notice_reply) \<Rightarrow> notice_reply" where
  "reply r f = (case r of Inl e \<Rightarrow> Refused e | Inr a \<Rightarrow> f a)"

definition run_notice_op ::
  "(db \<Rightarrow> task_notice \<Rightarrow> time \<Rightarrow> bool) \<Rightarrow> notice_op \<Rightarrow> db \<Rightarrow> notice_reply \<times> db" where
  "run_notice_op current op db =
     (case op of
        Prepare d now nid \<Rightarrow>
          (let (r, db') = transact (prepare_notice d now nid) db in (reply r (\<lambda>x. Notice (fst x)), db'))
      | Lease sender now secs token \<Rightarrow>
          (let (r, db') = lease_notice sender now secs token db
           in (reply r (\<lambda>x. case x of None \<Rightarrow> Nothing | Some n \<Rightarrow> Notice n), db'))
      | Begin i token now \<Rightarrow> (let (r, db') = begin_send current i token now db in (reply r Notice, db'))
      | Complete i token m now \<Rightarrow> (let (r, db') = complete_send i token m now db in (reply r Notice, db'))
      | Reject i token code at mx now \<Rightarrow>
          (let (r, db') = retry_rejected i token code at mx now db in (reply r Notice, db'))
      | Unknown i token code now \<Rightarrow> (let (r, db') = mark_send_unknown i token code now db in (reply r Notice, db'))
      | Recover now \<Rightarrow> (let (r, db') = recover_expired_notices now db in (reply r (\<lambda>_. Nothing), db')))"

text \<open>A send of notice \<open>i\<close> begins when \<open>begin_send\<close> returns it leased; it is rejected by \<open>retry_rejected\<close>.\<close>

definition begins_send :: "string \<Rightarrow> notice_op \<times> notice_reply \<Rightarrow> bool" where
  "begins_send i e = (case e of
     (Begin j _ _, Notice n) \<Rightarrow> j = i \<and> nt_status n = Nt_leased | _ \<Rightarrow> False)"

definition rejects_send :: "string \<Rightarrow> notice_op \<times> notice_reply \<Rightarrow> bool" where
  "rejects_send i e = (case e of (Reject j _ _ _ _ _, Notice _) \<Rightarrow> j = i | _ \<Rightarrow> False)"

definition notice_of :: "db \<Rightarrow> string \<Rightarrow> task_notice option" where
  "notice_of db i = find (\<lambda>n. nt_notice_id n = i) (db_notices db)"

definition may_begin :: "string \<Rightarrow> db \<Rightarrow> bool" where
  "may_begin i db = (case notice_of db i of None \<Rightarrow> True
     | Some n \<Rightarrow> nt_status n = Nt_pending \<or> (nt_status n = Nt_leased \<and> nt_send_started_at n = None))"

definition notice_step ::
  "(db \<Rightarrow> task_notice \<Rightarrow> time \<Rightarrow> bool) \<Rightarrow> db \<Rightarrow> notice_op \<times> notice_reply \<Rightarrow> db \<Rightarrow> bool" where
  "notice_step current db e db' \<longleftrightarrow> run_notice_op current (fst e) db = (snd e, db')"

lemma notice_of_update:
  assumes "\<And>n. nt_notice_id (f n) = nt_notice_id n"
  shows "notice_of (db\<lparr>db_notices := update_where p f (db_notices db)\<rparr>) i =
         map_option (\<lambda>n. if p n then f n else n) (notice_of db i)"
  using find_update_where [of nt_notice_id f i p "db_notices db"] assms by (simp add: notice_of_def)

lemma get_notice_iff: "get_notice db i = Inr n \<longleftrightarrow> notice_of db i = Some n"
  by (simp add: get_notice_def notice_of_def split: option.splits)

lemma notice_of_set:
  assumes "\<And>n. nt_notice_id (f n) = nt_notice_id n"
  shows "notice_of (set_notice j f db) i = map_option (\<lambda>n. if nt_notice_id n = j then f n else n) (notice_of db i)"
  using notice_of_update [of f "\<lambda>n. nt_notice_id n = j" db i] assms by (simp add: set_notice_def)

lemma notice_of_id: "notice_of db i = Some n \<Longrightarrow> nt_notice_id n = i"
  by (auto simp: notice_of_def dest: find_Some_set)

lemma clear_notice_lease_sel [simp]:
  "nt_notice_id (clear_notice_lease s now n) = nt_notice_id n"
  "nt_status (clear_notice_lease s now n) = s"
  "nt_send_started_at (clear_notice_lease s now n) = nt_send_started_at n"
  "nt_attempt_count (clear_notice_lease s now n) = nt_attempt_count n"
  by (simp_all add: clear_notice_lease_def)

lemma current_attempt_Inr:
  "current_attempt db i token now started = Inr n \<Longrightarrow>
     notice_of db i = Some n \<and> nt_status n = Nt_leased \<and> nt_lease_token n = Some token \<and>
     after (nt_lease_expires_at n) now \<and> (nt_send_started_at n \<noteq> None) = started"
  by (auto simp: current_attempt_def attempt_Inr get_notice_iff split: if_splits)

lemma save_notice_Inr:
  "save_notice i f db = Inr (n, db') \<longleftrightarrow> db' = set_notice i f db \<and> notice_of (set_notice i f db) i = Some n"
  by (auto simp: save_notice_def attempt_Inr get_notice_iff)

lemma start_send_sel [simp]:
  "nt_notice_id (start_send now n) = nt_notice_id n" "nt_status (start_send now n) = nt_status n"
  "nt_send_started_at (start_send now n) = Some now"
  "nt_attempt_count (start_send now n) = nt_attempt_count n + 1"
  by (simp_all add: start_send_def)

lemma transact_Inr_iff: "transact f db = (Inr x, db') \<longleftrightarrow> f db = Inr (x, db')"
  by (auto simp: transact_def split: sum.splits prod.splits)

lemma begin_send_tx_cases:
  assumes "begin_send_tx current i token now db = Inr (n, db')"
  obtains (already) "db' = db" "nt_status n = Nt_superseded"
        | (dropped) n0 where "current_attempt db i token now False = Inr n0" "notice_obsolete current db n0 now"
            "save_notice i (clear_notice_lease Nt_superseded now) db = Inr (n, db')"
        | (began) n0 where "current_attempt db i token now False = Inr n0" "\<not> notice_obsolete current db n0 now"
            "save_notice i (start_send now) db = Inr (n, db')"
proof -
  obtain n1 where n1: "get_notice db i = Inr n1" using assms by (auto simp: begin_send_tx_def attempt_Inr)
  show ?thesis
  proof (cases "nt_status n1 = Nt_superseded \<and> nt_attempt_count n1 = 0")
    case True
    then show ?thesis using assms n1 already by (simp add: begin_send_tx_def)
  next
    case False
    then obtain n0 where n0: "current_attempt db i token now False = Inr n0"
      using assms n1 by (auto simp: begin_send_tx_def attempt_Inr simp del: de_Morgan_conj)
    then show ?thesis
      using assms n1 False dropped [OF n0] began [OF n0]
      by (cases "notice_obsolete current db n0 now") (simp_all add: begin_send_tx_def del: de_Morgan_conj)
  qed
qed

lemma begin_send_began:
  assumes "begin_send current i token now db = (Inr n, db')" "nt_status n = Nt_leased"
  shows "\<exists>n0. notice_of db i = Some n0 \<and> nt_status n0 = Nt_leased \<and> nt_send_started_at n0 = None \<and>
     nt_lease_token n0 = Some token \<and> after (nt_lease_expires_at n0) now \<and>
     notice_of db' i = Some n \<and> nt_send_started_at n = Some now \<and> nt_attempt_count n = nt_attempt_count n0 + 1 \<and>
     \<not> notice_obsolete current db n0 now"
proof -
  have "begin_send_tx current i token now db = Inr (n, db')"
    using assms(1) by (simp add: begin_send_def transact_Inr_iff)
  then show ?thesis
  proof (cases rule: begin_send_tx_cases)
    case (dropped n0)
    have "notice_of db i = Some n0" using current_attempt_Inr [OF dropped(1)] by simp
    then have "nt_status n = Nt_superseded"
      using dropped(3) notice_of_id by (auto simp: save_notice_Inr notice_of_set)
    then show ?thesis using assms(2) by simp
  next
    case (began n0)
    note cur = current_attempt_Inr [OF began(1)]
    then have "n = start_send now n0" "notice_of db' i = Some n"
      using began(3) notice_of_id by (auto simp: save_notice_Inr notice_of_set)
    then show ?thesis using cur began(2) by simp
  qed (use assms(2) in simp)
qed

lemma not_may_begin:
  "\<not> may_begin i db \<longleftrightarrow> (\<exists>n. notice_of db i = Some n \<and> nt_status n \<noteq> Nt_pending \<and>
      (nt_status n = Nt_leased \<longrightarrow> nt_send_started_at n \<noteq> None))"
  by (auto simp: may_begin_def split: option.splits)

text \<open>A step that rewrites rows keeps a notice disarmed when it keeps that notice's row disarmed.\<close>

lemma disarmed_update:
  assumes "\<not> may_begin i db" "notice_of db' i = map_option f (notice_of db i)"
    and "\<And>n. notice_of db i = Some n \<Longrightarrow> nt_status n \<noteq> Nt_pending \<Longrightarrow>
      (nt_status n = Nt_leased \<longrightarrow> nt_send_started_at n \<noteq> None) \<Longrightarrow>
      nt_status (f n) \<noteq> Nt_pending \<and> (nt_status (f n) = Nt_leased \<longrightarrow> nt_send_started_at (f n) \<noteq> None)"
  shows "\<not> may_begin i db'"
proof -
  obtain n where n: "notice_of db i = Some n" "nt_status n \<noteq> Nt_pending"
    "nt_status n = Nt_leased \<longrightarrow> nt_send_started_at n \<noteq> None"
    using assms(1) unfolding not_may_begin by blast
  then show ?thesis using assms(2) assms(3) [OF n] by (auto simp: not_may_begin)
qed

lemma prepare_disarmed:
  assumes "prepare_notice d now nid db = Inr (x, db')" "\<not> may_begin i db"
  shows "\<not> may_begin i db'"
proof -
  have "db' = db \<or> db' = db\<lparr>db_notices := db_notices db @ [new_notice d nid now]\<rparr>"
    using assms(1) by (auto simp: prepare_notice_def attempt_Inr split: option.splits if_splits)
  then show ?thesis
    using assms(2) by (auto simp: not_may_begin notice_of_def find_append_None)
qed

lemma lease_disarmed:
  assumes "lease_notice_tx sender now secs token db = Inr (x, db')" "\<not> may_begin i db"
  shows "\<not> may_begin i db'"
proof (cases "first_by notice_le (\<lambda>n. nt_status n = Nt_pending \<and> nt_available_at n \<le> now) (db_notices db)")
  case None
  then show ?thesis using assms by (simp add: lease_notice_tx_def)
next
  case (Some row)
  let ?f = "\<lambda>n. n\<lparr>nt_status := Nt_leased, nt_lease_token := Some token, nt_lease_owner := Some sender,
      nt_lease_expires_at := Some (now + seconds secs), nt_send_started_at := None, nt_updated_at := now\<rparr>"
  let ?p = "\<lambda>n. nt_notice_id n = nt_notice_id row \<and> nt_status n = Nt_pending"
  have "db' = db\<lparr>db_notices := update_where ?p ?f (db_notices db)\<rparr>"
    using assms(1) Some by (simp add: lease_notice_tx_def attempt_Inr Let_def split: option.splits) blast
  then have "notice_of db' i = map_option (\<lambda>n. if ?p n then ?f n else n) (notice_of db i)"
    by (simp add: notice_of_update)
  then show ?thesis by (rule disarmed_update [OF assms(2)]) simp
qed

lemma begin_disarmed:
  assumes "begin_send_tx current j token now db = Inr (x, db')" "\<not> may_begin i db"
  shows "\<not> may_begin i db'"
proof -
  have other: "\<not> may_begin i (set_notice j f db)"
    if "current_attempt db j token now False = Inr n0" "\<And>n. nt_notice_id (f n) = nt_notice_id n" for n0 f
  proof -
    have "j \<noteq> i" using current_attempt_Inr [OF that(1)] assms(2) by (auto simp: not_may_begin)
    have "notice_of (set_notice j f db) i = map_option (\<lambda>n. if nt_notice_id n = j then f n else n) (notice_of db i)"
      using that(2) by (simp add: notice_of_set)
    then show ?thesis
      by (rule disarmed_update [OF assms(2)]) (use \<open>j \<noteq> i\<close> notice_of_id in auto)
  qed
  from assms(1) show ?thesis
    by (cases rule: begin_send_tx_cases) (use assms(2) other in \<open>auto simp: save_notice_Inr\<close>)
qed

lemma settle_disarmed:
  assumes "\<not> may_begin i db" "\<And>n. nt_notice_id (f n) = nt_notice_id n"
    and "j = i \<Longrightarrow> (\<And>n. nt_status (f n) \<in> {Nt_delivered, Nt_unknown, Nt_failed, Nt_superseded})"
  shows "\<not> may_begin i (set_notice j f db)"
proof -
  have "notice_of (set_notice j f db) i = map_option (\<lambda>n. if nt_notice_id n = j then f n else n) (notice_of db i)"
    using assms(2) by (simp add: notice_of_set)
  then show ?thesis
  proof (rule disarmed_update [OF assms(1)])
    fix n assume n: "notice_of db i = Some n" "nt_status n \<noteq> Nt_pending"
      "nt_status n = Nt_leased \<longrightarrow> nt_send_started_at n \<noteq> None"
    have id: "nt_notice_id n = i" using n(1) by (rule notice_of_id)
    show "nt_status (if nt_notice_id n = j then f n else n) \<noteq> Nt_pending \<and>
        (nt_status (if nt_notice_id n = j then f n else n) = Nt_leased \<longrightarrow>
         nt_send_started_at (if nt_notice_id n = j then f n else n) \<noteq> None)"
    proof (cases "j = i")
      case True
      then show ?thesis using assms(3) [OF True, of n] id by auto
    qed (use n id in simp)
  qed
qed

lemma complete_effect:
  "complete_send j token m now db = (r, db') \<Longrightarrow> db' = db \<or>
   db' = set_notice j (\<lambda>r. (clear_notice_lease Nt_delivered now r)\<lparr>nt_telegram_message_id := Some m, nt_error_code := None\<rparr>) db"
  unfolding complete_send_def
  by (cases "notice_integer m ''Telegram receipt'' True")
    (auto elim!: transact_cases simp: attempt_Inr save_notice_Inr)

lemma reject_effect:
  "retry_rejected j token code at mx now db = (r, db') \<Longrightarrow> (\<exists>e. r = Inl e) \<and> db' = db \<or>
   (\<exists>n s. r = Inr n \<and> db' = set_notice j (\<lambda>r. (clear_notice_lease s now r)\<lparr>nt_available_at := at, nt_error_code := Some code\<rparr>) db)"
  unfolding retry_rejected_def
  by (auto elim!: transact_cases simp: attempt_Inr save_notice_Inr Let_def split: sum.splits)

lemma unknown_effect:
  "mark_send_unknown j token code now db = (r, db') \<Longrightarrow> db' = db \<or>
   db' = set_notice j (\<lambda>r. (clear_notice_lease Nt_unknown now r)\<lparr>nt_error_code := Some code\<rparr>) db"
  unfolding mark_send_unknown_def
  by (cases "notice_text code ''error code'' 128")
    (auto elim!: transact_cases simp: attempt_Inr save_notice_Inr split: if_splits)

lemma recover_disarmed:
  assumes "\<not> may_begin i db"
  shows "\<not> may_begin i (db\<lparr>db_notices := update_where (expired_notice now) (expire_notice now) (db_notices db)\<rparr>)"
  by (rule disarmed_update [OF assms, OF notice_of_update])
    (auto simp: expire_notice_def expired_notice_def)

lemma unrejected_disarmed:
  assumes "notice_step current db e db'" "\<not> may_begin i db" "\<not> rejects_send i e"
  shows "\<not> may_begin i db'"
proof (cases "fst e")
  case (Prepare d now nid)
  then show ?thesis
    using assms prepare_disarmed
    by (auto simp: notice_step_def run_notice_op_def transact_def split: prod.splits sum.splits)
next
  case (Lease sender now secs token)
  then show ?thesis
    using assms lease_disarmed
    by (auto simp: notice_step_def run_notice_op_def lease_notice_def transact_def split: prod.splits sum.splits)
next
  case (Begin j token now)
  then show ?thesis
    using assms begin_disarmed
    by (auto simp: notice_step_def run_notice_op_def begin_send_def transact_def split: prod.splits sum.splits)
next
  case (Complete j token m now)
  then have "db' = snd (complete_send j token m now db)"
    using assms(1) by (auto simp: notice_step_def run_notice_op_def split: prod.splits)
  moreover have "\<not> may_begin i (set_notice j (\<lambda>r. (clear_notice_lease Nt_delivered now r)
      \<lparr>nt_telegram_message_id := Some m, nt_error_code := None\<rparr>) db)"
    by (rule settle_disarmed [OF assms(2)]) auto
  ultimately show ?thesis
    using complete_effect [of j token m now db, OF prod.collapse [symmetric]] assms(2) by auto
next
  case (Reject j token code at mx now)
  then have r: "snd e = reply (fst (retry_rejected j token code at mx now db)) Notice"
      "db' = snd (retry_rejected j token code at mx now db)"
    using assms(1) by (auto simp: notice_step_def run_notice_op_def split: prod.splits)
  from reject_effect [of j token code at mx now db, OF prod.collapse [symmetric]] show ?thesis
  proof (elim disjE exE conjE)
    fix n s assume n: "fst (retry_rejected j token code at mx now db) = Inr n"
      "snd (retry_rejected j token code at mx now db) =
        set_notice j (\<lambda>r. (clear_notice_lease s now r)\<lparr>nt_available_at := at, nt_error_code := Some code\<rparr>) db"
    then have "j \<noteq> i" using assms(3) Reject r(1) by (cases e) (auto simp: rejects_send_def reply_def)
    then show ?thesis using settle_disarmed [OF assms(2)] n(2) r(2) by simp
  qed (use r assms(2) in simp)
next
  case (Unknown j token code now)
  then have "db' = snd (mark_send_unknown j token code now db)"
    using assms(1) by (auto simp: notice_step_def run_notice_op_def split: prod.splits)
  moreover have "\<not> may_begin i (set_notice j (\<lambda>r. (clear_notice_lease Nt_unknown now r)\<lparr>nt_error_code := Some code\<rparr>) db)"
    by (rule settle_disarmed [OF assms(2)]) auto
  ultimately show ?thesis
    using unknown_effect [of j token code now db, OF prod.collapse [symmetric]] assms(2) by auto
next
  case (Recover now)
  then show ?thesis
    using assms recover_disarmed
    by (auto simp: notice_step_def run_notice_op_def recover_expired_notices_def)
qed

lemma begun_disarms:
  assumes "notice_step current db e db'" "begins_send i e"
  shows "may_begin i db \<and> \<not> may_begin i db'"
proof -
  obtain token now n where e: "e = (Begin i token now, Notice n)" "nt_status n = Nt_leased"
    using assms(2) by (cases e) (auto simp: begins_send_def split: notice_op.splits notice_reply.splits)
  have "begin_send current i token now db = (Inr n, db')"
    using assms(1) e(1) by (auto simp: notice_step_def run_notice_op_def reply_def split: prod.splits sum.splits)
  from begin_send_began [OF this e(2)] e(2) show ?thesis
    by (auto simp: may_begin_def)
qed

interpretation notices: send_once "notice_step current" "begins_send i" "rejects_send i" "may_begin i"
  for current i
proof (unfold_locales, goal_cases)
  case 1
  then show ?case by (rule begun_disarms)
next
  case 2
  then show ?case by (rule unrejected_disarmed)
qed

text \<open>C16. A task notice is sent at most once per confirmed rejection: over any sequence of calls
  on the notice table, the sends begun for a notice number at most one more than its recorded
  rejections, and after a send begins no other begins until a rejection is recorded, whatever
  leases expire or outcomes stay unknown in between.\<close>

theorem notice_sent_once:
  assumes "trace (notice_step current) db es db'"
  shows "length (filter (begins_send i) es) \<le> length (filter (rejects_send i) es) + 1 \<and>
     (\<forall>xs e ys zs. es = xs @ e # ys @ zs \<longrightarrow> begins_send i e \<longrightarrow> list_all (\<lambda>x. \<not> rejects_send i x) ys \<longrightarrow>
        filter (begins_send i) ys = [])"
  by (rule notices.sends_bounded_and_separated [OF assms])

definition example_notice :: task_notice where
  "example_notice = \<lparr>nt_notice_id = ''n'', nt_event_key = ''k'', nt_kind = ''stop'', nt_job_id = None,
     nt_stop_request_id = Some ''s'', nt_chat_id = 7, nt_thread_id = 3, nt_reply_to_message_id = None,
     nt_telegram_html = ''x'', nt_status = Nt_leased, nt_attempt_count = 0, nt_available_at = 0,
     nt_lease_token = Some ''t'', nt_lease_owner = Some ''w'', nt_lease_expires_at = Some 50,
     nt_send_started_at = None, nt_telegram_message_id = None, nt_error_code = None, nt_created_at = 0,
     nt_updated_at = 0, nt_assessment_id = None\<rparr>"

theorem notice_sent_once_witness:
  "\<exists>n db'. trace (notice_step (\<lambda>_ _ _. True)) (empty_db\<lparr>db_notices := [example_notice]\<rparr>)
       [(Begin ''n'' ''t'' 5, Notice n)] db' \<and> begins_send ''n'' (Begin ''n'' ''t'' 5, Notice n) \<and>
     length (filter (begins_send ''n'') [(Begin ''n'' ''t'' 5, Notice n)]) \<le>
       length (filter (rejects_send ''n'') [(Begin ''n'' ''t'' 5, Notice n)]) + 1"
proof -
  let ?db = "empty_db\<lparr>db_notices := [example_notice]\<rparr>"
  let ?n = "start_send 5 example_notice" let ?e = "(Begin ''n'' ''t'' 5, Notice ?n)"
  have "run_notice_op (\<lambda>_ _ _. True) (fst ?e) ?db = (snd ?e, ?db\<lparr>db_notices := [?n]\<rparr>)"
    by (simp add: run_notice_op_def begin_send_def begin_send_tx_def transact_def get_notice_def current_attempt_def
        notice_obsolete_def save_notice_def set_notice_def update_where_def reply_def after_def example_notice_def
        empty_db_def start_send_def)
  then have "trace (notice_step (\<lambda>_ _ _. True)) ?db [?e] (?db\<lparr>db_notices := [?n]\<rparr>)"
    by (intro trace_step [OF _ trace_nil]) (simp add: notice_step_def)
  moreover have "begins_send ''n'' ?e" by (simp add: begins_send_def example_notice_def)
  ultimately show ?thesis using notice_sent_once [of "\<lambda>_ _ _. True" ?db "[?e]" _ "''n''"] by blast
qed

end
