(* ===== verification/Queue_Capacity.thy ===== *)
theory Queue_Capacity
  imports Control_Predicates
begin

text \<open>
  The scheduler's view of capacity (\<open>provider_queue_capacity.py\<close>, \<open>worker_identity.py\<close>): how
  many execution roots may run at once, how many are occupied by live leases, and which agents
  and workers are busy.
\<close>

definition MAX_PROVIDER_WORKER_SLOTS :: nat where "MAX_PROVIDER_WORKER_SLOTS = 16"

definition worker_instance_id :: "string \<Rightarrow> nat \<Rightarrow> string" where
  "worker_instance_id agent slot =
     (if slot = 1 then agent @ ''-worker'' else agent @ ''-worker-'' @ decimal slot)"

definition FAIRNESS_FRESHNESS :: time where "FAIRNESS_FRESHNESS = seconds 120"

definition parallel_agents :: "string list" where "parallel_agents = [''codex'', ''claude'']"

definition parallel_worker_declarations :: "string \<Rightarrow> string list" where
  "parallel_worker_declarations agent =
     (if agent \<notin> set parallel_agents then []
      else map (worker_instance_id agent) [1..<Suc MAX_PROVIDER_WORKER_SLOTS])"

record capacity_config =
  qc_max_parallel_roots :: int
  qc_scheduler_agents :: "string list"
  qc_agent_capacities :: "string \<rightharpoonup> int"

record queue_capacity =
  qp_effective :: int
  qp_occupied :: int
  qp_busy_agents :: "string \<rightharpoonup> int"
  qp_busy_workers :: "string list"

text \<open>The aggregate \<open>MIN\<close>, NULL on no rows.\<close>

definition min_of :: "int list \<Rightarrow> int option" where
  "min_of xs = (case xs of [] \<Rightarrow> None | x # ys \<Rightarrow> Some (foldl min x ys))"

definition max_of :: "int list \<Rightarrow> int option" where
  "max_of xs = (case xs of [] \<Rightarrow> None | x # ys \<Rightarrow> Some (foldl max x ys))"

definition declaration_keys :: "string list \<Rightarrow> string list" where
  "declaration_keys agents = agents @ concat (map parallel_worker_declarations agents)"

definition advertised_capacity :: "db \<Rightarrow> string list \<Rightarrow> time \<Rightarrow> int option" where
  "advertised_capacity db agents freshness =
     min_of (map sw_declared_capacity
       (filter (\<lambda>w. sw_agent_id w \<in> set (declaration_keys agents) \<and> freshness \<le> sw_observed_at w) (db_workers db)))"

definition effective_capacity :: "db \<Rightarrow> capacity_config \<Rightarrow> time \<Rightarrow> int" where
  "effective_capacity db c now =
     (if qc_scheduler_agents c = [] then qc_max_parallel_roots c
      else case advertised_capacity db (qc_scheduler_agents c) (now - FAIRNESS_FRESHNESS) of
        None \<Rightarrow> qc_max_parallel_roots c
      | Some a \<Rightarrow> min (qc_max_parallel_roots c) a)"

definition live_jobs :: "db \<Rightarrow> time \<Rightarrow> provider_job list" where
  "live_jobs db now = filter (live_lease now) (db_jobs db)"

definition occupied_scopes :: "db \<Rightarrow> time \<Rightarrow> string list" where
  "occupied_scopes db now = remdups (List.map_filter (\<lambda>j. scope_of db (pj_topic_id j)) (live_jobs db now))"

definition correction_child :: "db \<Rightarrow> string \<Rightarrow> bool" where
  "correction_child db job \<longleftrightarrow> exists_row (\<lambda>c. cc_child_job_id c = job) (db_children db)"

definition busy_count :: "db \<Rightarrow> time \<Rightarrow> string \<Rightarrow> int" where
  "busy_count db now agent =
     int (length (filter (\<lambda>j. pj_agent_id j = agent \<and> \<not> correction_child db (pj_job_id j)) (live_jobs db now)))"

definition busy_agents :: "db \<Rightarrow> time \<Rightarrow> string \<rightharpoonup> int" where
  "busy_agents db now agent = (if busy_count db now agent = 0 then None else Some (busy_count db now agent))"

definition read_queue_capacity :: "db \<Rightarrow> capacity_config \<Rightarrow> time \<Rightarrow> queue_capacity" where
  "read_queue_capacity db c now =
     \<lparr>qp_effective = effective_capacity db c now,
      qp_occupied = int (length (occupied_scopes db now)),
      qp_busy_agents = busy_agents db now,
      qp_busy_workers = remdups (List.map_filter pj_lease_owner (live_jobs db now))\<rparr>"

text \<open>\<open>Mapping.get(key, default)\<close>.\<close>

definition get_or :: "('a \<rightharpoonup> 'b) \<Rightarrow> 'a \<Rightarrow> 'b \<Rightarrow> 'b" where
  "get_or m k d = (case m k of None \<Rightarrow> d | Some v \<Rightarrow> v)"

lemma foldl_min_le: "foldl min (x :: int) ys \<le> x \<and> (\<forall>y \<in> set ys. foldl min x ys \<le> y)"
proof (induction ys arbitrary: x)
  case (Cons y ys)
  have "foldl min (min x y) ys \<le> min x y" "\<forall>z \<in> set ys. foldl min (min x y) ys \<le> z"
    using Cons.IH by blast+
  then show ?case by auto
qed simp

lemma min_of_le: "min_of xs = Some m \<Longrightarrow> y \<in> set xs \<Longrightarrow> m \<le> y"
  using foldl_min_le by (auto simp: min_of_def split: list.splits)

lemma effective_le_max: "effective_capacity db c now \<le> qc_max_parallel_roots c"
  by (auto simp: effective_capacity_def split: option.splits)

lemma effective_le_declared:
  assumes "qc_scheduler_agents c \<noteq> []" "w \<in> set (db_workers db)" "now - FAIRNESS_FRESHNESS \<le> sw_observed_at w"
    and "sw_agent_id w \<in> set (declaration_keys (qc_scheduler_agents c))"
  shows "effective_capacity db c now \<le> sw_declared_capacity w"
proof -
  have "sw_declared_capacity w \<in> set (map sw_declared_capacity
       (filter (\<lambda>w. sw_agent_id w \<in> set (declaration_keys (qc_scheduler_agents c)) \<and>
          now - FAIRNESS_FRESHNESS \<le> sw_observed_at w) (db_workers db)))"
    using assms(2-4) by simp
  moreover from this obtain m where
    "advertised_capacity db (qc_scheduler_agents c) (now - FAIRNESS_FRESHNESS) = Some m"
    unfolding advertised_capacity_def by (cases rule: list.exhaust [of "map sw_declared_capacity
       (filter (\<lambda>w. sw_agent_id w \<in> set (declaration_keys (qc_scheduler_agents c)) \<and>
          now - FAIRNESS_FRESHNESS \<le> sw_observed_at w) (db_workers db))"]) (auto simp: min_of_def)
  ultimately show ?thesis
    using assms(1) min_of_le unfolding effective_capacity_def advertised_capacity_def by fastforce
qed

lemma set_occupied_scopes:
  "s \<in> set (occupied_scopes db now) \<longleftrightarrow> (\<exists>j \<in> set (db_jobs db). live_lease now j \<and> scope_of db (pj_topic_id j) = Some s)"
  by (auto simp: occupied_scopes_def live_jobs_def map_filter_def image_iff)

lemma distinct_occupied: "distinct (occupied_scopes db now)"
  by (simp add: occupied_scopes_def)

lemma set_busy_workers:
  "w \<in> set (qp_busy_workers (read_queue_capacity db c now)) \<longleftrightarrow>
   (\<exists>j \<in> set (db_jobs db). live_lease now j \<and> pj_lease_owner j = Some w)"
  by (auto simp: read_queue_capacity_def live_jobs_def map_filter_def image_iff)

lemma get_or_busy: "get_or (busy_agents db now) a 0 = busy_count db now a"
  by (simp add: get_or_def busy_agents_def)

end
