(* ===== verification/Queue_Visibility.thy ===== *)
theory Queue_Visibility
  imports Task_Notices Queue_Capacity
begin

text \<open>
  The queue notices of \<open>queue_visibility.py\<close>: a snapshot of what a waiting job waits for, the
  notices prepared at admission, while queued and at the start of execution, and the
  supersession of unsent notices when the job moves on. The snapshot reads the same tables as
  the scheduler's eligibility query.
\<close>

record wait_view =
  wv_reason :: string
  wv_explanation :: string
  wv_owner :: "(int \<times> int) option"

definition snapshot :: "string \<Rightarrow> string \<Rightarrow> (int \<times> int) option \<Rightarrow> wait_view" where
  "snapshot reason text owner = \<lparr>wv_reason = reason, wv_explanation = text, wv_owner = owner\<rparr>"

definition visible_job :: "db \<Rightarrow> string \<Rightarrow> state_error + provider_job \<times> topic_row" where
  "visible_job db job_id =
     (case job_of db job_id of
        None \<Rightarrow> Inl (State_error ''queue visibility job does not exist'')
      | Some j \<Rightarrow> (case topic_of db (pj_topic_id j) of
            None \<Rightarrow> Inl (State_error ''queue visibility job does not exist'')
          | Some t \<Rightarrow> Inr (j, t)))"

definition accepted_key :: "string \<Rightarrow> string" where
  "accepted_key job_id = ''job:'' @ job_id @ '':accepted''"

definition notices_enabled :: "db \<Rightarrow> string \<Rightarrow> bool" where
  "notices_enabled db job_id \<longleftrightarrow>
     exists_row (\<lambda>n. nt_event_key n = accepted_key job_id \<and> nt_kind n = ''accepted'' \<and>
       nt_job_id n = Some job_id) (db_notices db)"

text \<open>\<open>_prepare\<close>: a category is reported once; a prepared key is left alone.\<close>

definition prepare_visible ::
  "provider_job \<times> topic_row \<Rightarrow> string \<Rightarrow> string \<Rightarrow> string \<Rightarrow> time \<Rightarrow> string \<Rightarrow> db \<Rightarrow> state_error + db" where
  "prepare_visible jt key kind text now nid db =
     (if exists_row (\<lambda>n. nt_event_key n = key) (db_notices db) then Inr db
      else attempt (prepare_notice
        \<lparr>nd_event_key = key, nd_kind = kind, nd_job_id = Some (pj_job_id (fst jt)), nd_stop_request_id = None,
         nd_assessment_id = None, nd_chat_id = pj_chat_id (fst jt), nd_thread_id = tp_thread_id (snd jt),
         nd_reply_to_message_id = Some (pj_message_id (fst jt)), nd_telegram_html = text\<rparr> now nid db)
        (\<lambda>r. Inr (snd r)))"

section \<open>What a job waits for\<close>

text \<open>The rows of each blocking category, in the order the code reads them.\<close>

definition fifo_blocker :: "db \<Rightarrow> provider_job \<Rightarrow> provider_job option" where
  "fifo_blocker db j = first_by (\<lambda>a b. pj_topic_sequence a \<le> pj_topic_sequence b)
     (\<lambda>e. pj_topic_id e = pj_topic_id j \<and> pj_topic_sequence e < pj_topic_sequence j \<and> job_blocks_topic_fifo db e)
     (db_jobs db)"

definition created_before :: "provider_job \<Rightarrow> provider_job \<Rightarrow> bool" where
  "created_before a b \<longleftrightarrow> pj_created_at a < pj_created_at b \<or>
     (pj_created_at a = pj_created_at b \<and> pj_job_id a < pj_job_id b)"

definition created_order :: "provider_job \<Rightarrow> provider_job \<Rightarrow> bool" where
  "created_order a b \<longleftrightarrow> (pj_created_at a, pj_job_id a) \<le> (pj_created_at b, pj_job_id b)"

definition held_before :: "db \<Rightarrow> string \<Rightarrow> provider_job \<Rightarrow> provider_job \<Rightarrow> bool" where
  "held_before db scope j e \<longleftrightarrow> pending_hold db (pj_job_id e) \<and> pj_status e \<in> {Queued, Retry_wait} \<and>
     in_scope db scope (pj_topic_id e) \<and> created_before e j"

definition occupies_root :: "db \<Rightarrow> time \<Rightarrow> provider_job \<Rightarrow> bool" where
  "occupies_root db now e \<longleftrightarrow> pj_status e = Executing \<or>
     (pj_status e = Leased \<and> after (pj_lease_expires_at e) now) \<or> uncertain db e"

definition root_occupant :: "db \<Rightarrow> time \<Rightarrow> string \<Rightarrow> provider_job \<Rightarrow> provider_job \<Rightarrow> bool" where
  "root_occupant db now scope j e \<longleftrightarrow> pj_job_id e \<noteq> pj_job_id j \<and>
     in_scope db scope (pj_topic_id e) \<and> occupies_root db now e"

definition external_writer :: "db \<Rightarrow> string \<Rightarrow> session_row \<Rightarrow> bool" where
  "external_writer db scope s \<longleftrightarrow> ss_status s \<in> {Active, Satellite} \<and> ss_writer_mode s \<noteq> Telegram_writer \<and>
     in_scope db scope (ss_topic_id s)"

definition running_dispatch :: "db \<Rightarrow> string \<Rightarrow> turn_dispatch \<Rightarrow> bool" where
  "running_dispatch db scope d \<longleftrightarrow> td_status d = Dispatch_running \<and> in_scope db scope (td_topic_id d)"

definition is_continuation :: "db \<Rightarrow> string \<Rightarrow> bool" where
  "is_continuation db job_id \<longleftrightarrow> exists_row (\<lambda>c. cn_continuation_job_id c = job_id) (db_continuations db)"

definition place :: "db \<Rightarrow> int \<Rightarrow> (int \<times> int) option" where
  "place db t = map_option (\<lambda>r. (tp_chat_id r, tp_thread_id r)) (topic_of db t)"

definition DELIVERY_WAIT_EXPLANATION :: string where
  "DELIVERY_WAIT_EXPLANATION =
     ''The earlier result is saved, but its Telegram delivery is unconfirmed. '' @
     ''At this observation, later work in this topic is blocked. The owner can '' @
     ''investigate the saved delivery, or explicitly continue without confirmed delivery '' @
     ''through the local delivery-hold preview/apply. This queue-only decision retains '' @
     ''session and writer restrictions; separate delivery-control consent can reconcile '' @
     ''those delivery waits. Hub will not resend the result or repeat provider work '' @
     ''automatically. Check /status for the current state; /stop does not reconcile this delivery.''"

text \<open>The first two categories, skipped by a continuation.\<close>

definition order_wait :: "db \<Rightarrow> provider_job \<Rightarrow> string \<Rightarrow> wait_view option" where
  "order_wait db j scope =
     (case fifo_blocker db j of
        Some e \<Rightarrow> Some
          (if pj_status e = Result_ready \<and>
              (case find (\<lambda>r. ob_job_id r = pj_job_id e) (db_outbox db) of
                 Some r \<Rightarrow> ob_status r = Ds_unknown | None \<Rightarrow> False)
           then snapshot ''delivery_unknown'' DELIVERY_WAIT_EXPLANATION None
           else snapshot ''topic_fifo''
             (''An earlier job in this topic must finish, including result delivery. '' @
              ''Wait or use /stop in this topic to cancel waiting work.'') None)
      | None \<Rightarrow>
          (case first_by created_order (held_before db scope j) (db_jobs db) of
             Some e \<Rightarrow> Some (snapshot ''root_held_fifo''
               ''An earlier request on this project awaits owner review.'' (place db (pj_topic_id e)))
           | None \<Rightarrow> None))"

definition root_wait :: "db \<Rightarrow> provider_job \<Rightarrow> string \<Rightarrow> time \<Rightarrow> wait_view option" where
  "root_wait db j scope now =
     (case first_by created_order (root_occupant db now scope j) (db_jobs db) of
        Some e \<Rightarrow> Some
          (if pj_status e = Indeterminate
           then snapshot ''root_uncertain''
             (''An earlier outcome on this project is unknown. Reconcile it in the owning topic; '' @
              ''a timeout does not release the project.'') (place db (pj_topic_id e))
           else snapshot ''root_active''
             (''Other active work owns this project. Wait or use /stop in the owning '' @
              ''topic; an interrupt request alone does not release the project.'') (place db (pj_topic_id e)))
      | None \<Rightarrow>
     (case first_by (\<lambda>a b. (ss_updated_at a, ss_session_id a) \<le> (ss_updated_at b, ss_session_id b))
             (external_writer db scope) (db_sessions db) of
        Some s \<Rightarrow> Some (snapshot ''root_writer''
          (''A local writer owns the project. Close that client and use '' @
           (if ss_writer_mode s = Local_writer then ''/return'' else ''/release'') @
           '' in the owning topic, then review held work.'') (place db (ss_topic_id s)))
      | None \<Rightarrow>
     (case first_by (\<lambda>a b. td_created_at a \<le> td_created_at b) (running_dispatch db scope) (db_dispatches db) of
        Some d \<Rightarrow> Some (snapshot ''root_dispatch''
          ''A running dispatch owns this project. Wait for it to finish.'' (place db (td_topic_id d)))
      | None \<Rightarrow> None)))"

definition capacity_wait :: "db \<Rightarrow> provider_job \<Rightarrow> time \<Rightarrow> capacity_config option \<Rightarrow> wait_view" where
  "capacity_wait db j now capacity =
     (case capacity of
        None \<Rightarrow> snapshot ''worker_unknown''
          (''Awaiting a worker claim. Provider slot availability and global '' @
           ''capacity are unknown here. Wait or use /stop in this topic to cancel waiting work.'') None
      | Some c \<Rightarrow>
          (let slots = read_queue_capacity db c now;
               limit = get_or (qc_agent_capacities c) (pj_agent_id j) 1 in
           if qp_occupied slots \<ge> qp_effective slots
           then snapshot ''global_capacity''
             (''All '' @ decimal_int (qp_effective slots) @ '' configured global project slots are occupied. '' @
              ''Wait for active work to finish, or use /stop here to cancel waiting work.'') None
           else if get_or (qp_busy_agents slots) (pj_agent_id j) 0 \<ge> limit
           then snapshot ''provider_slots''
             (''All '' @ decimal_int limit @ '' configured slots for this provider are occupied. '' @
              ''Wait for active work to finish, or use /stop here to cancel waiting work.'') None
           else snapshot ''worker_unknown''
             (''Awaiting a worker claim. Configured capacity is not blocking this snapshot; '' @
              ''worker availability remains unknown. Wait or use /stop here to cancel waiting work.'') None))"

definition wait_snapshot :: "db \<Rightarrow> string \<Rightarrow> time \<Rightarrow> capacity_config option \<Rightarrow> state_error + wait_view" where
  "wait_snapshot db job_id now capacity =
     attempt (visible_job db job_id) (\<lambda>(j, t).
       let scope = topic_scope t in
       if pending_hold db job_id
       then Inr (snapshot ''held'' ''Owner review is required before this job can run.'' None)
       else case (if is_continuation db job_id then None else order_wait db j scope) of
         Some w \<Rightarrow> Inr w
       | None \<Rightarrow> (case root_wait db j scope now of
           Some w \<Rightarrow> Inr w
         | None \<Rightarrow>
             (if after (pj_next_attempt_at j) now
              then Inr (if pj_status j = Retry_wait
                then snapshot ''retry_deadline''
                  (''The saved pre-execution retry deadline has not arrived. Wait; '' @
                   ''this does not repeat an accepted provider turn.'') None
                else snapshot ''collecting''
                  (''Hub is collecting compatible messages until the saved input deadline. '' @
                   ''Wait; no provider capacity has been inferred.'') None)
              else Inr (capacity_wait db j now capacity))))"

section \<open>Notices\<close>

definition all_digits :: "string \<Rightarrow> bool" where
  "all_digits s \<longleftrightarrow> s \<noteq> [] \<and> list_all (\<lambda>c. CHR ''0'' \<le> c \<and> c \<le> CHR ''9'') s"

definition owner_link :: "(int \<times> int) option \<Rightarrow> string" where
  "owner_link owner = (case owner of None \<Rightarrow> ''''
     | Some (chat_id, thread_id) \<Rightarrow>
         (let chat = decimal_int chat_id in
          if starts_with chat ''-100'' \<and> all_digits (drop 4 chat) \<and> 0 < thread_id
          then '' Owner: <a href='' @ [CHR 0x22] @ ''https://t.me/c/'' @ drop 4 chat @ ''/'' @
               decimal_int thread_id @ [CHR 0x22] @ ''>owning topic</a>.''
          else ''''))"

definition queued_in_transaction ::
  "string \<Rightarrow> time \<Rightarrow> capacity_config option \<Rightarrow> string \<Rightarrow> db \<Rightarrow> state_error + db" where
  "queued_in_transaction job_id now capacity nid db =
     (if \<not> notices_enabled db job_id then Inr db
      else attempt (visible_job db job_id) (\<lambda>jt.
        if pj_status (fst jt) \<notin> {Queued, Retry_wait} then Inr db
        else attempt (wait_snapshot db job_id now capacity) (\<lambda>w.
          prepare_visible jt (''job:'' @ job_id @ '':queued:'' @ wv_reason w) ''queued''
            (''Queued; provider work has not started. '' @ wv_explanation w @ owner_link (wv_owner w))
            now nid db)))"

definition admitted_in_transaction ::
  "string \<Rightarrow> time \<Rightarrow> capacity_config option \<Rightarrow> string \<Rightarrow> string \<Rightarrow> db \<Rightarrow> state_error + db" where
  "admitted_in_transaction job_id now capacity nid nid' db =
     attempt (visible_job db job_id) (\<lambda>jt.
       if pj_status (fst jt) \<noteq> Queued
       then Inl (State_error ''queue visibility admission requires a new queued job'')
       else attempt (prepare_visible jt (accepted_key job_id) ''accepted''
           ''Accepted by Hub and saved in the queue. Provider work has not started.'' now nid db)
         (queued_in_transaction job_id now capacity nid'))"

definition superseded_kinds :: "job_status \<Rightarrow> string list" where
  "superseded_kinds s =
     (if s = Executing then [''accepted'', ''queued'']
      else if s \<in> {Queued, Retry_wait} then [''executing'']
      else if s = Leased then [] else [''accepted'', ''queued'', ''executing''])"

definition supersedes :: "string \<Rightarrow> string list \<Rightarrow> task_notice \<Rightarrow> bool" where
  "supersedes job_id kinds n \<longleftrightarrow> nt_job_id n = Some job_id \<and> nt_kind n \<in> set kinds \<and>
     nt_status n \<in> {Nt_pending, Nt_leased} \<and> nt_send_started_at n = None \<and> nt_attempt_count n = 0"

definition sync_job :: "string \<Rightarrow> time \<Rightarrow> db \<Rightarrow> state_error + db" where
  "sync_job job_id now db =
     (if \<not> notices_enabled db job_id then Inr db
      else attempt (visible_job db job_id) (\<lambda>jt.
        Inr (db\<lparr>db_notices := update_where (supersedes job_id (superseded_kinds (pj_status (fst jt))))
               (clear_notice_lease Nt_superseded now) (db_notices db)\<rparr>)))"

definition executing_in_transaction :: "string \<Rightarrow> time \<Rightarrow> string \<Rightarrow> db \<Rightarrow> state_error + db" where
  "executing_in_transaction job_id now nid db =
     attempt (sync_job job_id now db) (\<lambda>db1.
       if \<not> notices_enabled db1 job_id then Inr db1
       else attempt (visible_job db1 job_id) (\<lambda>jt.
         if pj_status (fst jt) \<noteq> Executing then Inr db1
         else prepare_visible jt (''job:'' @ job_id @ '':executing:'' @ decimal_int (pj_attempt_count (fst jt)))
           ''executing''
           (''Worker started the provider handoff. Native turn acceptance is not yet confirmed. '' @
            ''Use /stop in this topic to request interruption; that request is not terminal proof.'')
           now nid db1))"

section \<open>The notices never touch the queue\<close>

text \<open>A step that writes the notice table and nothing else.\<close>

definition notices_only :: "db \<Rightarrow> db \<Rightarrow> bool" where
  "notices_only db db' \<longleftrightarrow> db\<lparr>db_notices := []\<rparr> = db'\<lparr>db_notices := []\<rparr>"

lemma notices_only_refl [simp, intro]: "notices_only db db"
  by (simp add: notices_only_def)

lemma notices_only_trans: "notices_only a b \<Longrightarrow> notices_only b c \<Longrightarrow> notices_only a c"
  by (simp add: notices_only_def)

lemma notices_only_update [simp]: "notices_only db (db\<lparr>db_notices := ns\<rparr>)"
  by (simp add: notices_only_def)

lemma notices_onlyE:
  assumes "notices_only db db'"
  obtains ns where "db' = db\<lparr>db_notices := ns\<rparr>"
proof
  have "db'\<lparr>db_notices := db_notices db'\<rparr> = db\<lparr>db_notices := db_notices db'\<rparr>"
    using arg_cong [of _ _ "db_notices_update (\<lambda>_. db_notices db')", OF assms [unfolded notices_only_def]] by simp
  then show "db' = db\<lparr>db_notices := db_notices db'\<rparr>" by simp
qed

lemma notices_only_sel:
  assumes "notices_only db db'"
  shows "db_topics db' = db_topics db" "db_sessions db' = db_sessions db" "db_jobs db' = db_jobs db"
    "db_stops db' = db_stops db" "db_holds db' = db_holds db" "db_continuations db' = db_continuations db"
    "db_resolutions db' = db_resolutions db" "db_evidence db' = db_evidence db"
    "db_checkpoints db' = db_checkpoints db" "db_controls db' = db_controls db"
    "db_children db' = db_children db" "db_runs db' = db_runs db" "db_outbox db' = db_outbox db"
    "db_results db' = db_results db" "db_dispatches db' = db_dispatches db" "db_origins db' = db_origins db"
    "db_workers db' = db_workers db" "db_grants db' = db_grants db" "db_items db' = db_items db"
    "db_ingress db' = db_ingress db" "db_absorptions db' = db_absorptions db"
    "db_hold_dispositions db' = db_hold_dispositions db"
    "db_control_dispositions db' = db_control_dispositions db"
proof -
  have e: "db\<lparr>db_notices := []\<rparr> = db'\<lparr>db_notices := []\<rparr>" using assms by (simp add: notices_only_def)
  note d = arg_cong [OF e]
  show "db_topics db' = db_topics db" using d [of db_topics] by simp
  show "db_sessions db' = db_sessions db" using d [of db_sessions] by simp
  show "db_jobs db' = db_jobs db" using d [of db_jobs] by simp
  show "db_stops db' = db_stops db" using d [of db_stops] by simp
  show "db_holds db' = db_holds db" using d [of db_holds] by simp
  show "db_continuations db' = db_continuations db" using d [of db_continuations] by simp
  show "db_resolutions db' = db_resolutions db" using d [of db_resolutions] by simp
  show "db_evidence db' = db_evidence db" using d [of db_evidence] by simp
  show "db_checkpoints db' = db_checkpoints db" using d [of db_checkpoints] by simp
  show "db_controls db' = db_controls db" using d [of db_controls] by simp
  show "db_children db' = db_children db" using d [of db_children] by simp
  show "db_runs db' = db_runs db" using d [of db_runs] by simp
  show "db_outbox db' = db_outbox db" using d [of db_outbox] by simp
  show "db_results db' = db_results db" using d [of db_results] by simp
  show "db_dispatches db' = db_dispatches db" using d [of db_dispatches] by simp
  show "db_origins db' = db_origins db" using d [of db_origins] by simp
  show "db_workers db' = db_workers db" using d [of db_workers] by simp
  show "db_grants db' = db_grants db" using d [of db_grants] by simp
  show "db_items db' = db_items db" using d [of db_items] by simp
  show "db_ingress db' = db_ingress db" using d [of db_ingress] by simp
  show "db_absorptions db' = db_absorptions db" using d [of db_absorptions] by simp
  show "db_hold_dispositions db' = db_hold_dispositions db" using d [of db_hold_dispositions] by simp
  show "db_control_dispositions db' = db_control_dispositions db" using d [of db_control_dispositions] by simp
qed

lemma prepare_notice_only: "prepare_notice d now nid db = Inr (x, db') \<Longrightarrow> notices_only db db'"
  by (auto simp: prepare_notice_def attempt_Inr split: option.splits if_splits)

lemma prepare_visible_only: "prepare_visible jt key kind text now nid db = Inr db' \<Longrightarrow> notices_only db db'"
  by (auto simp: prepare_visible_def attempt_Inr prepare_notice_only split: if_splits)

lemma sync_job_only: "sync_job i now db = Inr db' \<Longrightarrow> notices_only db db'"
  by (auto simp: sync_job_def attempt_Inr split: if_splits)

lemma executing_only: "executing_in_transaction i now nid db = Inr db' \<Longrightarrow> notices_only db db'"
  unfolding executing_in_transaction_def
  by (auto simp: attempt_Inr split: if_splits
      dest!: sync_job_only prepare_visible_only intro: notices_only_trans)

lemma queued_only: "queued_in_transaction i now c nid db = Inr db' \<Longrightarrow> notices_only db db'"
  by (auto simp: queued_in_transaction_def attempt_Inr dest!: prepare_visible_only split: if_splits)

lemma admitted_only: "admitted_in_transaction i now c nid nid' db = Inr db' \<Longrightarrow> notices_only db db'"
  by (auto simp: admitted_in_transaction_def attempt_Inr dest!: prepare_visible_only queued_only
      split: if_splits intro: notices_only_trans)

end
