(* ===== verification/Claude_Corrections.thy ===== *)
theory Claude_Corrections
  imports Queue_Visibility
begin

text \<open>
  The correction input of a running Claude turn (\<open>claude_correction_state.py\<close>): one queued
  follow-up may be handed to the running process as a second input and then runs, and ends,
  with its parent. The tables exist in the current schema, so \<open>available()\<close> is true here. The
  SHA-256 digest of an input is a parameter; tokens and UUIDs are arguments.
\<close>

definition MAX_CORRECTION_CHARACTERS :: nat where "MAX_CORRECTION_CHARACTERS = 20000"

record claude_frame =
  cf_uuid :: string
  cf_session_id :: string
  cf_text :: string

text \<open>\<open>str(uuid.UUID(s)) == s\<close>: lower-case hexadecimal in groups of 8, 4, 4, 4 and 12.\<close>

definition lower_hex :: "char \<Rightarrow> bool" where
  "lower_hex c \<longleftrightarrow> (CHR ''0'' \<le> c \<and> c \<le> CHR ''9'') \<or> (CHR ''a'' \<le> c \<and> c \<le> CHR ''f'')"

definition canonical_uuid :: "string \<Rightarrow> bool" where
  "canonical_uuid s \<longleftrightarrow> length s = 36 \<and>
     list_all (\<lambda>(i, c). if i \<in> {8, 13, 18, 23 :: nat} then c = CHR ''-'' else lower_hex c) (zip [0..<36] s)"

definition encode_frame :: "claude_frame \<Rightarrow> state_error + unit" where
  "encode_frame f = check (canonical_uuid (cf_uuid f) \<and> canonical_uuid (cf_session_id f) \<and>
     py_strip (cf_text f) \<noteq> [] \<and> length (cf_text f) \<le> 200000) Frame_error"

definition child_of :: "db \<Rightarrow> string \<Rightarrow> claude_child option" where
  "child_of db parent = find (\<lambda>c. cc_parent_job_id c = parent) (db_children db)"

definition run_of :: "db \<Rightarrow> string \<Rightarrow> claude_run option" where
  "run_of db parent = find (\<lambda>r. cr_parent_job_id r = parent) (db_runs db)"

text \<open>\<open>_owner\<close>: the executing parent under a live lease, its checkpoint, session and topic.\<close>

record correction_owner =
  co_job :: provider_job
  co_checkpoint :: execution_checkpoint
  co_session :: session_row
  co_topic :: topic_row

definition owner_row :: "db \<Rightarrow> string \<Rightarrow> string \<Rightarrow> time \<Rightarrow> correction_owner option" where
  "owner_row db parent token now =
     (case find (\<lambda>j. pj_job_id j = parent \<and> pj_status j = Executing \<and> pj_lease_token j = Some token \<and>
             after (pj_lease_expires_at j) now) (db_jobs db) of
        None \<Rightarrow> None
      | Some j \<Rightarrow>
     (case (find (\<lambda>p. cp_job_id p = pj_job_id j) (db_checkpoints db),
            find (\<lambda>s. ss_session_id s = pj_session_id j) (db_sessions db), topic_of db (pj_topic_id j)) of
        (Some p, Some s, Some t) \<Rightarrow> Some \<lparr>co_job = j, co_checkpoint = p, co_session = s, co_topic = t\<rparr>
      | _ \<Rightarrow> None))"

definition owner_bound :: "correction_owner \<Rightarrow> bool" where
  "owner_bound r \<longleftrightarrow>
     Some (cp_provider_thread_id (co_checkpoint r)) = ss_provider_session_id (co_session r) \<and>
     pj_session_generation (co_job r) = ss_generation (co_session r) \<and>
     ss_writer_mode (co_session r) = Telegram_writer \<and> ss_status (co_session r) \<noteq> Archived \<and>
     tp_chat_id (co_topic r) = pj_chat_id (co_job r) \<and>
     tp_execution_scope (co_topic r) \<in>
       {Some (''root:'' @ cp_project_root (co_checkpoint r)), Some (''project:'' @ tp_project_id (co_topic r))} \<and>
     cp_completed_text (co_checkpoint r) = None"

definition correction_owner :: "db \<Rightarrow> string \<Rightarrow> string \<Rightarrow> time \<Rightarrow> state_error + correction_owner" where
  "correction_owner db parent token now =
     (case owner_row db parent token now of
        None \<Rightarrow> Inl (State_error ''Claude input owner binding changed'')
      | Some r \<Rightarrow> if owner_bound r then Inr r else Inl (State_error ''Claude input owner binding changed''))"

definition correction_prepare ::
  "(string \<Rightarrow> string) \<Rightarrow> string \<Rightarrow> string \<Rightarrow> claude_frame \<Rightarrow> string \<Rightarrow> time \<Rightarrow> db \<Rightarrow> state_error + db" where
  "correction_prepare digest parent token f root now db =
     attempt (correction_owner db parent token now) (\<lambda>r.
       if cf_session_id f \<noteq> cp_provider_thread_id (co_checkpoint r) \<or> root \<noteq> cp_project_root (co_checkpoint r)
       then Inl (State_error ''Claude input preparation binding changed'')
       else attempt (encode_frame f) (\<lambda>_.
         if exists_row (\<lambda>x. cr_parent_job_id x = parent \<or> cr_initial_input_uuid x = cf_uuid f) (db_runs db)
         then Inl (Integrity_error ''Claude input run cannot be replaced'')
         else Inr (db\<lparr>db_runs := db_runs db @
           [\<lparr>cr_parent_job_id = parent, cr_initial_input_uuid = cf_uuid f,
             cr_initial_digest = digest (cf_text f), cr_native_session_id = cf_session_id f,
             cr_project_root = root, cr_initial_receipt_terminal = None, cr_terminal_count = 0,
             cr_completion_validated = False\<rparr>]\<rparr>)))"

definition identity_of :: "db \<Rightarrow> string \<Rightarrow> ingress_identity option" where
  "identity_of db job = map_option ti_identity (find (\<lambda>i. ti_job_id i = job) (db_ingress db))"

text \<open>The oldest follow-up of the topic that keeps its queue waiting.\<close>

definition next_followup :: "db \<Rightarrow> provider_job \<Rightarrow> provider_job option" where
  "next_followup db parent = first_by (\<lambda>a b. pj_topic_sequence a \<le> pj_topic_sequence b)
     (\<lambda>j. pj_topic_id j = pj_topic_id parent \<and> pj_topic_sequence parent < pj_topic_sequence j \<and>
        job_blocks_topic_fifo db j) (db_jobs db)"

definition same_turn_settings :: "provider_job \<Rightarrow> provider_job \<Rightarrow> bool" where
  "same_turn_settings a b \<longleftrightarrow> pj_agent_id a = pj_agent_id b \<and> pj_session_id a = pj_session_id b \<and>
     pj_session_generation a = pj_session_generation b \<and> pj_model a = pj_model b \<and>
     pj_effort a = pj_effort b \<and> pj_codex_permission_profile a = pj_codex_permission_profile b"

definition correctable :: "db \<Rightarrow> correction_owner \<Rightarrow> provider_job \<Rightarrow> time \<Rightarrow> bool" where
  "correctable db r c now \<longleftrightarrow>
     pj_status c = Queued \<and> pj_payload_text c \<noteq> [] \<and>
     length (pj_payload_text c) \<le> MAX_CORRECTION_CHARACTERS \<and> pj_attempt_count c < pj_max_attempts c \<and>
     pj_chat_id c = pj_chat_id (co_job r) \<and> pj_topic_id c = pj_topic_id (co_job r) \<and>
     same_turn_settings c (co_job r) \<and>
     pj_provider_session_id c \<in> {None, Some (cp_provider_thread_id (co_checkpoint r))} \<and>
     pj_context_watermark c = None \<and> pj_handoff_id c = None \<and> \<not> after (pj_next_attempt_at c) now \<and>
     identity_of db (pj_job_id c) = identity_of db (pj_job_id (co_job r)) \<and>
     pending_stop_for_job db (pj_job_id c) = None \<and> \<not> pending_hold db (pj_job_id c) \<and>
     \<not> job_has_materials db (pj_job_id c) \<and> \<not> is_retry_child db (pj_job_id c)"

text \<open>The statement that starts the child under its parent's lease.\<close>

definition start_child :: "provider_job \<Rightarrow> string \<Rightarrow> time \<Rightarrow> provider_job \<Rightarrow> provider_job" where
  "start_child parent token now c = c\<lparr>pj_status := Executing, pj_attempt_count := pj_attempt_count c + 1,
     pj_provider_started_at := Some now, pj_updated_at := now, pj_lease_owner := pj_lease_owner parent,
     pj_lease_token := Some token, pj_lease_expires_at := pj_lease_expires_at parent,
     pj_next_attempt_at := None\<rparr>"

definition reserve_child ::
  "(string \<Rightarrow> string) \<Rightarrow> correction_owner \<Rightarrow> claude_run \<Rightarrow> provider_job \<Rightarrow> string \<Rightarrow> string \<Rightarrow> time \<Rightarrow> string \<Rightarrow> db
   \<Rightarrow> state_error + claude_frame option \<times> db" where
  "reserve_child digest r run c child_token uuid now nid db =
     (let f = \<lparr>cf_uuid = uuid, cf_session_id = cp_provider_thread_id (co_checkpoint r),
               cf_text = pj_payload_text c\<rparr>;
          parent = pj_job_id (co_job r) in
      attempt (encode_frame f) (\<lambda>_.
        if cf_uuid f = cr_initial_input_uuid run then Inr (None, db)
        else if exists_row (\<lambda>x. cc_parent_job_id x = parent \<or> cc_child_job_id x = pj_job_id c \<or> cc_input_uuid x = uuid)
               (db_children db) \<or> parent = pj_job_id c
        then Inl (Integrity_error ''Claude input child cannot be replaced'')
        else let db1 = db\<lparr>db_children := db_children db @
              [\<lparr>cc_parent_job_id = parent, cc_child_job_id = pj_job_id c, cc_child_lease_token = child_token,
                cc_input_uuid = uuid, cc_input_digest = digest (cf_text f), cc_receipt_terminal = None\<rparr>],
              db_jobs := update_where (\<lambda>j. pj_job_id j = pj_job_id c \<and> pj_status j = Queued)
                (start_child (co_job r) child_token now) (db_jobs db)\<rparr> in
          if count_where (\<lambda>j. pj_job_id j = pj_job_id c \<and> pj_status j = Queued) (db_jobs db) \<noteq> 1
          then Inl (State_error ''Claude correction reservation changed'')
          else attempt (executing_in_transaction (pj_job_id c) now nid db1) (\<lambda>db2. Inr (Some f, db2))))"

definition correction_claim ::
  "(string \<Rightarrow> string) \<Rightarrow> string \<Rightarrow> string \<Rightarrow> string \<Rightarrow> string \<Rightarrow> time \<Rightarrow> string \<Rightarrow> db
   \<Rightarrow> state_error + claude_frame option \<times> db" where
  "correction_claim digest parent token child_token uuid now nid db =
     (case correction_owner db parent token now of
        Inl _ \<Rightarrow> Inr (None, db)
      | Inr r \<Rightarrow>
     (case run_of db parent of
        None \<Rightarrow> Inr (None, db)
      | Some run \<Rightarrow>
          if pj_model (co_job r) \<noteq> ss_model (co_session r) \<or> pj_effort (co_job r) \<noteq> ss_effort (co_session r)
             \<or> cr_terminal_count run \<noteq> 0 \<or> child_of db parent \<noteq> None
             \<or> pending_stop_for_job db parent \<noteq> None
          then Inr (None, db)
          else attempt (control_owner_for_topic db (pj_topic_id (co_job r))) (\<lambda>own.
            if own \<noteq> None then Inr (None, db)
            else case next_followup db (co_job r) of
              None \<Rightarrow> Inr (None, db)
            | Some c \<Rightarrow>
                if correctable db r c now then reserve_child digest r run c child_token uuid now nid db
                else Inr (None, db))))"

definition correction_receipt :: "string \<Rightarrow> string \<Rightarrow> string \<Rightarrow> int \<Rightarrow> time \<Rightarrow> db \<Rightarrow> state_error + db" where
  "correction_receipt parent token identifier boundary now db =
     attempt (correction_owner db parent token now) (\<lambda>_.
       case run_of db parent of
         None \<Rightarrow> Inl (State_error ''Claude input receipt boundary changed'')
       | Some run \<Rightarrow>
           if boundary \<noteq> cr_terminal_count run + 1
           then Inl (State_error ''Claude input receipt boundary changed'')
           else if identifier = cr_initial_input_uuid run \<and> boundary = 1 \<and> cr_initial_receipt_terminal run = None
           then Inr (db\<lparr>db_runs := update_where (\<lambda>x. cr_parent_job_id x = parent)
                      (\<lambda>x. x\<lparr>cr_initial_receipt_terminal := Some 1\<rparr>) (db_runs db)\<rparr>)
           else (case child_of db parent of
               Some child \<Rightarrow>
                 if identifier = cc_input_uuid child \<and> cc_receipt_terminal child = None
                    \<and> cr_initial_receipt_terminal run = Some 1
                 then (if boundary \<in> {1, 2}
                       then Inr (db\<lparr>db_children := update_where (\<lambda>x. cc_parent_job_id x = parent)
                              (\<lambda>x. x\<lparr>cc_receipt_terminal := Some boundary\<rparr>) (db_children db)\<rparr>)
                       else Inl (Integrity_error ''claude_input_children.receipt_terminal''))
                 else Inl (State_error ''Claude input receipt binding changed'')
             | None \<Rightarrow> Inl (State_error ''Claude input receipt binding changed'')))"

definition correction_result :: "string \<Rightarrow> string \<Rightarrow> int \<Rightarrow> time \<Rightarrow> db \<Rightarrow> state_error + db" where
  "correction_result parent token boundary now db =
     attempt (correction_owner db parent token now) (\<lambda>_.
       let p = (\<lambda>x. cr_parent_job_id x = parent \<and> cr_terminal_count x = boundary - 1 \<and>
                    cr_initial_receipt_terminal x = Some 1) in
       if boundary \<notin> {1, 2} \<or> count_where p (db_runs db) \<noteq> 1
       then Inl (State_error ''Claude input terminal sequence changed'')
       else Inr (db\<lparr>db_runs := update_where p (\<lambda>x. x\<lparr>cr_terminal_count := boundary\<rparr>) (db_runs db)\<rparr>))"

definition validate_completion :: "string \<Rightarrow> db \<Rightarrow> state_error + db" where
  "validate_completion parent db =
     (case run_of db parent of
        None \<Rightarrow> Inr db
      | Some run \<Rightarrow>
          if cr_initial_receipt_terminal run \<noteq> Some 1 \<or> cr_terminal_count run = 0
             \<or> (case child_of db parent of None \<Rightarrow> False
                | Some c \<Rightarrow> (case cc_receipt_terminal c of None \<Rightarrow> True | Some t \<Rightarrow> cr_terminal_count run < t))
          then Inl (State_error ''Claude input completion is unconfirmed'')
          else Inr (db\<lparr>db_runs := update_where (\<lambda>x. cr_parent_job_id x = parent)
                      (\<lambda>x. x\<lparr>cr_completion_validated := True\<rparr>) (db_runs db)\<rparr>))"

definition child_of_parent :: "db \<Rightarrow> string \<Rightarrow> provider_job \<Rightarrow> bool" where
  "child_of_parent db parent j \<longleftrightarrow> pj_status j = Executing \<and>
     exists_row (\<lambda>c. cc_parent_job_id c = parent \<and> cc_child_job_id c = pj_job_id j \<and>
       Some (cc_child_lease_token c) = pj_lease_token j) (db_children db)"

definition correction_heartbeat :: "string \<Rightarrow> time \<Rightarrow> time \<Rightarrow> db \<Rightarrow> db" where
  "correction_heartbeat parent now expires db =
     db\<lparr>db_jobs := update_where (child_of_parent db parent)
          (\<lambda>j. j\<lparr>pj_lease_expires_at := Some expires, pj_updated_at := now\<rparr>) (db_jobs db)\<rparr>"

text \<open>\<open>settle\<close>: the child ends with its parent; only a saved completion completes it.\<close>

datatype settlement = Settle_completed | Settle_cancelled | Settle_indeterminate

definition settle_child :: "settlement \<Rightarrow> time \<Rightarrow> provider_job \<Rightarrow> provider_job" where
  "settle_child d now j = j\<lparr>
     pj_status := (case d of Settle_completed \<Rightarrow> Completed | Settle_cancelled \<Rightarrow> Cancelled
                   | Settle_indeterminate \<Rightarrow> Indeterminate),
     pj_lease_owner := None, pj_lease_token := None, pj_lease_expires_at := None,
     pj_error_class := (case d of Settle_completed \<Rightarrow> None | Settle_cancelled \<Rightarrow> Some ''user_stop''
                        | Settle_indeterminate \<Rightarrow> Some ''ambiguous_execution''),
     pj_error_code := (case d of Settle_completed \<Rightarrow> None | Settle_cancelled \<Rightarrow> Some ''emergency_stop''
                       | Settle_indeterminate \<Rightarrow> Some ''claude_correction_unconfirmed''),
     pj_updated_at := now\<rparr>"

definition completion_saved :: "db \<Rightarrow> string \<Rightarrow> bool" where
  "completion_saved db parent \<longleftrightarrow>
     (case run_of db parent of None \<Rightarrow> False | Some r \<Rightarrow> cr_completion_validated r) \<and>
     (case find (\<lambda>p. cp_job_id p = parent) (db_checkpoints db) of None \<Rightarrow> False
      | Some p \<Rightarrow> cp_completed_text p \<noteq> None)"

definition settle :: "string \<Rightarrow> settlement \<Rightarrow> time \<Rightarrow> db \<Rightarrow> state_error + db" where
  "settle parent d now db =
     (case child_of db parent of
        None \<Rightarrow> Inr db
      | Some c \<Rightarrow>
          if d = Settle_completed \<and> \<not> completion_saved db parent
          then Inl (State_error ''Claude correction has no saved completion'')
          else let p = (\<lambda>j. pj_job_id j = cc_child_job_id c \<and> pj_status j = Executing \<and>
                          pj_lease_token j = Some (cc_child_lease_token c)) in
            if count_where p (db_jobs db) \<noteq> 1
            then Inl (State_error ''Claude correction lease changed before settlement'')
            else sync_job (cc_child_job_id c) now
                   (db\<lparr>db_jobs := update_where p (settle_child d now) (db_jobs db)\<rparr>))"

definition correction_complete :: "string \<Rightarrow> time \<Rightarrow> db \<Rightarrow> state_error + string list \<times> db" where
  "correction_complete parent now db =
     attempt (settle parent Settle_completed now db) (\<lambda>db'.
       Inr (concat (map (\<lambda>c. map pj_payload_text (filter (\<lambda>j. pj_job_id j = cc_child_job_id c) (db_jobs db')))
              (filter (\<lambda>c. cc_parent_job_id c = parent) (db_children db'))), db'))"

end
