(* ===== verification/Provider_Jobs.thy ===== *)
theory Provider_Jobs
  imports Claude_Corrections
begin

text \<open>
  The provider job facade, \<open>state_provider_jobs.py\<close>, operation by operation. The facade is the
  one \<open>HubState\<close> builds: queue visibility is present, \<open>transaction\<close> is the immediate
  transaction, which rolls back when its body raises, and \<open>write_transaction\<close> commits before
  the operation checks its row count. Clock readings and fresh tokens are arguments.
\<close>

section \<open>Shared statements\<close>

definition get_job :: "db \<Rightarrow> string \<Rightarrow> state_error + provider_job" where
  "get_job db i = (case job_of db i of
     None \<Rightarrow> Inl (State_error (''unknown provider job: '' @ i)) | Some j \<Rightarrow> Inr j)"

definition update_jobs :: "(provider_job \<Rightarrow> bool) \<Rightarrow> (provider_job \<Rightarrow> provider_job) \<Rightarrow> db \<Rightarrow> db" where
  "update_jobs p f db = db\<lparr>db_jobs := update_where p f (db_jobs db)\<rparr>"

definition count_jobs :: "(provider_job \<Rightarrow> bool) \<Rightarrow> db \<Rightarrow> nat" where
  "count_jobs p db = count_where p (db_jobs db)"

definition clear_lease :: "provider_job \<Rightarrow> provider_job" where
  "clear_lease j = j\<lparr>pj_lease_owner := None, pj_lease_token := None, pj_lease_expires_at := None\<rparr>"

definition holds_lease :: "string \<Rightarrow> string \<Rightarrow> job_status list \<Rightarrow> provider_job \<Rightarrow> bool" where
  "holds_lease i token statuses j \<longleftrightarrow>
     pj_job_id j = i \<and> pj_lease_token j = Some token \<and> pj_status j \<in> set statuses"

definition clip_detail :: "string option \<Rightarrow> string option" where
  "clip_detail d = (case d of None \<Rightarrow> None | Some t \<Rightarrow> if t = [] then None else Some (take 1000 (py_strip t)))"

section \<open>Emergency stops\<close>

text \<open>Work of a topic that can still start or run, or whose end is unknown.\<close>

definition unfinished :: "db \<Rightarrow> provider_job \<Rightarrow> bool" where
  "unfinished db j \<longleftrightarrow> pj_status j \<in> {Queued, Retry_wait, Leased, Executing} \<or> uncertain db j"

definition finished_stop :: "db \<Rightarrow> int \<Rightarrow> provider_stop \<Rightarrow> bool" where
  "finished_stop db t s \<longleftrightarrow> st_pending s \<and> st_topic_id s = t \<and>
     \<not> exists_row (\<lambda>other. unfinished db other \<and> stop_covers db s other) (db_jobs db)"

definition complete_finished_stops :: "int \<Rightarrow> time \<Rightarrow> db \<Rightarrow> db" where
  "complete_finished_stops t now db = db\<lparr>db_stops :=
     update_where (finished_stop db t) (\<lambda>s. s\<lparr>st_pending := False, st_completed_at := Some now\<rparr>) (db_stops db)\<rparr>"

definition complete_stops_after :: "string \<Rightarrow> time \<Rightarrow> db \<Rightarrow> state_error + db" where
  "complete_stops_after i now db =
     (case job_of db i of
        None \<Rightarrow> Inr db
      | Some j \<Rightarrow> sync_job i now (complete_finished_stops (pj_topic_id j) now db))"

definition stop_job :: "string \<Rightarrow> time \<Rightarrow> provider_job \<Rightarrow> provider_job" where
  "stop_job code now j = (clear_lease j)\<lparr>pj_status := Cancelled, pj_next_attempt_at := None,
     pj_error_class := Some ''user_stop'', pj_error_code := Some code, pj_updated_at := now\<rparr>"

definition cancel_stopped ::
  "string \<Rightarrow> string \<Rightarrow> job_status list \<Rightarrow> string \<Rightarrow> bool \<Rightarrow> time \<Rightarrow> db \<Rightarrow> state_error + bool \<times> db" where
  "cancel_stopped i token statuses code complete_stops now db =
     (let p = holds_lease i token statuses; db1 = update_jobs p (stop_job code now) db in
      if count_jobs p db \<noteq> 1 then Inr (False, db1)
      else attempt (settle i Settle_cancelled now db1) (\<lambda>db2.
           attempt (sync_job i now db2) (\<lambda>db3.
           if complete_stops then attempt (complete_stops_after i now db3) (\<lambda>db4. Inr (True, db4))
           else Inr (True, db3))))"

definition ended_by_stop :: "db \<Rightarrow> string \<Rightarrow> bool" where
  "ended_by_stop db i \<longleftrightarrow> exists_row (\<lambda>j. pj_job_id j = i \<and> pj_status j = Cancelled \<and>
     pj_error_class j = Some ''user_stop'') (db_jobs db)"

definition cancel_active :: "string \<Rightarrow> string \<Rightarrow> string \<Rightarrow> bool \<Rightarrow> time \<Rightarrow> db \<Rightarrow> (state_error, db, unit) outcome" where
  "cancel_active i token code complete_stops now =
     transact (\<lambda>db. attempt (cancel_stopped i token [Leased, Executing] code complete_stops now db) (\<lambda>(stopped, db').
       if \<not> stopped \<and> \<not> ended_by_stop db' i
       then Inl (State_error ''active provider job cannot be cancelled'') else Inr ((), db')))"

definition honor_stop :: "string \<Rightarrow> string \<Rightarrow> job_status \<Rightarrow> time \<Rightarrow> db \<Rightarrow> state_error + bool \<times> db" where
  "honor_stop i token status now db =
     (if ended_by_stop db i then Inr (True, db)
      else if pending_stop_for_job db i = None then Inr (False, db)
      else cancel_stopped i token [status] ''emergency_stop'' True now db)"

text \<open>The covered job that carries a stop's acknowledgement, with its thread.\<close>

definition stop_notice_candidate :: "db \<Rightarrow> provider_stop \<Rightarrow> provider_job \<Rightarrow> bool" where
  "stop_notice_candidate db s j \<longleftrightarrow> pj_topic_id j = st_topic_id s \<and> stop_covers db s j \<and>
     topic_of db (pj_topic_id j) \<noteq> None \<and>
     ((pj_agent_id j = st_target_agent_id s \<and> pj_status j \<in> {Leased, Executing}) \<or>
      (pj_status j = Cancelled \<and> pj_error_class j = Some ''user_stop'' \<and>
       pj_error_code j = Some ''emergency_stop'' \<and> st_created_at s \<le> pj_updated_at j))"

definition stop_notice_order :: "provider_job \<Rightarrow> provider_job \<Rightarrow> bool" where
  "stop_notice_order a b \<longleftrightarrow>
     (let rank = (\<lambda>j. if pj_status j \<in> {Leased, Executing} then 0 else 1 :: nat) in
      (rank a, - pj_updated_at a, - pj_created_at a) \<le> (rank b, - pj_updated_at b, - pj_created_at b))"

definition stop_notice_job :: "db \<Rightarrow> string \<Rightarrow> (string \<times> int) option" where
  "stop_notice_job db request =
     (case find (\<lambda>s. st_request_id s = request) (db_stops db) of
        None \<Rightarrow> None
      | Some s \<Rightarrow> (case first_by stop_notice_order (stop_notice_candidate db s) (db_jobs db) of
            None \<Rightarrow> None
          | Some j \<Rightarrow> map_option (\<lambda>t. (pj_job_id j, tp_thread_id t)) (topic_of db (pj_topic_id j))))"

definition unstarted_unheld :: "db \<Rightarrow> int \<Rightarrow> provider_job \<Rightarrow> bool" where
  "unstarted_unheld db t j \<longleftrightarrow> pj_topic_id j = t \<and> pj_status j \<in> {Queued, Retry_wait} \<and>
     \<not> pending_hold db (pj_job_id j)"

definition cancel_queued_job :: "time \<Rightarrow> provider_job \<Rightarrow> provider_job" where
  "cancel_queued_job now j = j\<lparr>pj_status := Cancelled, pj_next_attempt_at := None,
     pj_error_class := Some ''user_stop'', pj_error_code := Some ''emergency_stop'', pj_updated_at := now\<rparr>"

definition unsent_notice_jobs :: "db \<Rightarrow> int \<Rightarrow> string list" where
  "unsent_notice_jobs db t = remdups (map pj_job_id (filter
     (\<lambda>j. pj_topic_id j = t \<and> pj_status j = Cancelled \<and>
        exists_row (\<lambda>n. nt_job_id n = Some (pj_job_id j) \<and>
          nt_kind n \<in> {''accepted'', ''queued'', ''executing''} \<and>
          nt_status n \<in> {Nt_pending, Nt_leased} \<and> nt_attempt_count n = 0) (db_notices db)) (db_jobs db)))"

definition cancel_unstarted_for_stop :: "int \<Rightarrow> time \<Rightarrow> db \<Rightarrow> state_error + nat \<times> db" where
  "cancel_unstarted_for_stop t now db =
     (let p = unstarted_unheld db t; db1 = update_jobs p (cancel_queued_job now) db in
      attempt (each_row (\<lambda>i. sync_job i now) (unsent_notice_jobs db1 t) db1)
        (\<lambda>db2. Inr (count_jobs p db, db2)))"

section \<open>The scheduler\<close>

text \<open>The eligibility query: the clauses of \<open>_ELIGIBLE_PROVIDER_JOB_SQL\<close> in its order.\<close>

definition available :: "time \<Rightarrow> provider_job \<Rightarrow> bool" where
  "available now j \<longleftrightarrow>
     (pj_status j = Queued \<and> (pj_next_attempt_at j = None \<or> due (pj_next_attempt_at j) now)) \<or>
     (pj_status j = Retry_wait \<and> due (pj_next_attempt_at j) now)"

definition topic_order_clear :: "db \<Rightarrow> provider_job \<Rightarrow> bool" where
  "topic_order_clear db j \<longleftrightarrow> is_continuation db (pj_job_id j) \<or>
     \<not> exists_row (\<lambda>e. pj_topic_id e = pj_topic_id j \<and> pj_topic_sequence e < pj_topic_sequence j \<and>
         job_blocks_topic_fifo db e) (db_jobs db)"

definition held_order_clear :: "db \<Rightarrow> string \<Rightarrow> provider_job \<Rightarrow> bool" where
  "held_order_clear db scope j \<longleftrightarrow> is_continuation db (pj_job_id j) \<or>
     \<not> exists_row (held_before db scope j) (db_jobs db)"

definition eligible :: "db \<Rightarrow> time \<Rightarrow> string \<Rightarrow> provider_job \<Rightarrow> bool" where
  "eligible db now agent j \<longleftrightarrow> pj_agent_id j = agent \<and>
     (case topic_of db (pj_topic_id j) of
        None \<Rightarrow> False
      | Some t \<Rightarrow>
          (let scope = topic_scope t in
           control_scope_is_clear db t \<and> pj_attempt_count j < pj_max_attempts j \<and> available now j \<and>
           \<not> pending_hold db (pj_job_id j) \<and> topic_order_clear db j \<and> held_order_clear db scope j \<and>
           \<not> exists_row (root_occupant db now scope j) (db_jobs db) \<and>
           \<not> exists_row (external_writer db scope) (db_sessions db) \<and>
           \<not> exists_row (running_dispatch db scope) (db_dispatches db)))"

definition queue_order :: "provider_job \<Rightarrow> provider_job \<Rightarrow> bool" where
  "queue_order a b \<longleftrightarrow> (pj_created_at a, pj_topic_id a, pj_topic_sequence a)
     \<le> (pj_created_at b, pj_topic_id b, pj_topic_sequence b)"

definition next_eligible :: "db \<Rightarrow> time \<Rightarrow> string \<Rightarrow> provider_job option" where
  "next_eligible db now agent = first_by queue_order (eligible db now agent) (db_jobs db)"

record lease_request =
  lq_agent :: string
  lq_worker :: string
  lq_seconds :: int
  lq_max_roots :: int
  lq_scheduler_agents :: "string list"
  lq_capacities :: "(string \<times> int) list"

text \<open>A dict built from key and value pairs: a later pair replaces an earlier one of the same key.\<close>

fun dict_of :: "(string \<times> int) list \<Rightarrow> (string \<rightharpoonup> int) \<Rightarrow> string \<rightharpoonup> int" where
  "dict_of [] m = m"
| "dict_of ((k, v) # kvs) m = dict_of kvs (m(k \<mapsto> v))"

definition valid_request :: "lease_request \<Rightarrow> state_error + lease_request \<times> (string \<rightharpoonup> int)" where
  "valid_request q =
     attempt (bounded (lq_agent q) ''agent id'' 64) (\<lambda>agent.
     attempt (bounded (lq_worker q) ''worker id'' 128) (\<lambda>worker.
     attempt (check (1 \<le> lq_seconds q \<and> lq_seconds q \<le> 3600)
       (State_error ''invalid provider lease duration'')) (\<lambda>_.
     attempt (check (1 \<le> lq_max_roots q \<and> lq_max_roots q \<le> 16)
       (State_error ''invalid parallel root capacity'')) (\<lambda>_.
     attempt (collect (\<lambda>a. bounded a ''scheduler agent id'' 64) (lq_scheduler_agents q)) (\<lambda>agents.
     attempt (check (distinct agents) (State_error ''scheduler agents contain duplicates'')) (\<lambda>_.
     attempt (check (agents = [] \<or> agent \<in> set agents)
       (State_error ''scheduler agents must include the target agent'')) (\<lambda>_.
     attempt (collect (\<lambda>(k, v). attempt (bounded k ''capacity agent id'' 64) (\<lambda>k'. Inr (k', v)))
       (lq_capacities q)) (\<lambda>caps.
     let m = dict_of caps Map.empty in
     attempt (check (\<forall>k \<in> set (map fst caps). 1 \<le> the (m k) \<and> the (m k) \<le> 16)
       (State_error ''invalid agent capacity'')) (\<lambda>_.
     Inr (q\<lparr>lq_agent := agent, lq_worker := worker, lq_scheduler_agents := agents\<rparr>, m))))))))))"

definition declare_worker :: "lease_request \<Rightarrow> time \<Rightarrow> db \<Rightarrow> db" where
  "declare_worker q now db =
     (if lq_scheduler_agents q = [] then db
      else let key = (if lq_worker q \<in> set (parallel_worker_declarations (lq_agent q))
                      then lq_worker q else lq_agent q) in
        db\<lparr>db_workers := upsert_row sw_agent_id
             (\<lambda>w. w\<lparr>sw_declared_capacity := lq_max_roots q, sw_observed_at := now\<rparr>)
             \<lparr>sw_agent_id = key, sw_declared_capacity = lq_max_roots q, sw_observed_at = now\<rparr>
             (db_workers db)\<rparr>)"

definition expected_instances :: "(string \<rightharpoonup> int) \<Rightarrow> string \<Rightarrow> string list" where
  "expected_instances caps agent =
     (if agent \<in> set parallel_agents
      then take (nat (get_or caps agent 1)) (parallel_worker_declarations agent)
      else [agent @ ''-worker''])"

definition idle_agents :: "db \<Rightarrow> lease_request \<Rightarrow> (string \<rightharpoonup> int) \<Rightarrow> string list \<Rightarrow> time \<Rightarrow> string list" where
  "idle_agents db q caps busy now =
     lq_agent q # List.map_filter (\<lambda>h. case rh_agent_id h of
         None \<Rightarrow> None
       | Some a \<Rightarrow>
           (if rh_provider_worker h \<and> a \<in> set (lq_scheduler_agents q) \<and> rh_active_job_id h = None \<and>
               now - FAIRNESS_FRESHNESS \<le> rh_heartbeat_at h \<and>
               rh_instance_id h \<in> set (expected_instances caps a) \<and> rh_instance_id h \<notin> set busy
            then Some a else None)) (db_health db)"

definition grant_of :: "db \<Rightarrow> string \<Rightarrow> int" where
  "grant_of db agent = (case find (\<lambda>g. sg_agent_id g = agent) (db_grants db) of
     None \<Rightarrow> 0 | Some g \<Rightarrow> sg_last_grant_sequence g)"

definition contenders ::
  "db \<Rightarrow> lease_request \<Rightarrow> (string \<rightharpoonup> int) \<Rightarrow> queue_capacity \<Rightarrow> time \<Rightarrow> (int \<times> provider_job) list" where
  "contenders db q caps slots now = List.map_filter (\<lambda>a.
     if get_or (qp_busy_agents slots) a 0 \<ge> get_or caps a 1 then None
     else map_option (\<lambda>j. (grant_of db a, j)) (next_eligible db now a))
     (sort (remdups (filter (\<lambda>a. a \<in> set (lq_scheduler_agents q))
        (idle_agents db q caps (qp_busy_workers slots) now))))"

definition contender_order :: "int \<times> provider_job \<Rightarrow> int \<times> provider_job \<Rightarrow> bool" where
  "contender_order a b \<longleftrightarrow>
     (fst a, pj_created_at (snd a), pj_topic_id (snd a), pj_topic_sequence (snd a)) \<le>
     (fst b, pj_created_at (snd b), pj_topic_id (snd b), pj_topic_sequence (snd b))"

definition choose_job :: "db \<Rightarrow> lease_request \<Rightarrow> (string \<rightharpoonup> int) \<Rightarrow> queue_capacity \<Rightarrow> time \<Rightarrow> provider_job option" where
  "choose_job db q caps slots now =
     (case next_eligible db now (lq_agent q) of
        None \<Rightarrow> None
      | Some j \<Rightarrow>
          if lq_scheduler_agents q = [] then Some j
          else (case first_by contender_order (\<lambda>_. True) (contenders db q caps slots now) of
              None \<Rightarrow> None
            | Some (_, w) \<Rightarrow> if pj_agent_id w = lq_agent q then Some w else None))"

definition grant_lease :: "string \<Rightarrow> string \<Rightarrow> time \<Rightarrow> time \<Rightarrow> provider_job \<Rightarrow> provider_job" where
  "grant_lease worker token expires now j = j\<lparr>pj_status := Leased, pj_lease_owner := Some worker,
     pj_lease_token := Some token, pj_lease_expires_at := Some expires, pj_next_attempt_at := None,
     pj_error_class := None, pj_error_code := None, pj_error_detail := None, pj_updated_at := now\<rparr>"

definition record_grant :: "lease_request \<Rightarrow> time \<Rightarrow> db \<Rightarrow> db" where
  "record_grant q now db =
     (if lq_scheduler_agents q = [] then db
      else let next_grant = (case max_of (map sg_last_grant_sequence (db_grants db)) of
               None \<Rightarrow> 0 | Some m \<Rightarrow> m) + 1 in
        db\<lparr>db_grants := upsert_row sg_agent_id
             (\<lambda>g. g\<lparr>sg_last_grant_sequence := next_grant, sg_updated_at := now\<rparr>)
             \<lparr>sg_agent_id = lq_agent q, sg_last_grant_sequence = next_grant, sg_updated_at = now\<rparr>
             (db_grants db)\<rparr>)"

definition lease_tx ::
  "lease_request \<Rightarrow> (string \<rightharpoonup> int) \<Rightarrow> time \<Rightarrow> string \<Rightarrow> db \<Rightarrow> state_error + provider_job option \<times> db" where
  "lease_tx q caps now token db0 =
     (let db = declare_worker q now db0;
          slots = read_queue_capacity db \<lparr>qc_max_parallel_roots = lq_max_roots q,
            qc_scheduler_agents = lq_scheduler_agents q, qc_agent_capacities = caps\<rparr> now in
      if qp_occupied slots \<ge> qp_effective slots then Inr (None, db)
      else if lq_worker q \<in> set (qp_busy_workers slots) \<or>
              get_or (qp_busy_agents slots) (lq_agent q) 0 \<ge> get_or caps (lq_agent q) 1
      then Inr (None, db)
      else (case choose_job db q caps slots now of
          None \<Rightarrow> Inr (None, db)
        | Some row \<Rightarrow>
            let p = (\<lambda>j. pj_job_id j = pj_job_id row \<and> pj_status j \<in> {Queued, Retry_wait});
                db1 = update_jobs p (grant_lease (lq_worker q) token (now + seconds (lq_seconds q)) now) db in
            if count_jobs p db \<noteq> 1 then Inl (State_error ''provider job lease race'')
            else let db2 = record_grant q now db1 in
              (case job_of db2 (pj_job_id row) of
                 None \<Rightarrow> Inl (State_error ''leased provider job disappeared'')
               | Some j \<Rightarrow> Inr (Some j, db2))))"

definition lease :: "lease_request \<Rightarrow> time \<Rightarrow> string \<Rightarrow> db \<Rightarrow> (state_error, db, provider_job option) outcome" where
  "lease q now token db =
     (case valid_request q of
        Inl e \<Rightarrow> (Inl e, db)
      | Inr (q', caps) \<Rightarrow> transact (lease_tx q' caps now token) db)"

section \<open>Steering\<close>

definition steer_candidate :: "db \<Rightarrow> provider_job \<Rightarrow> provider_job option" where
  "steer_candidate db parent =
     (case min_of (map pj_topic_sequence (filter (\<lambda>j. pj_topic_id j = pj_topic_id parent \<and>
             pj_topic_sequence parent < pj_topic_sequence j \<and> job_blocks_topic_fifo db j) (db_jobs db))) of
        None \<Rightarrow> None
      | Some m \<Rightarrow> find (\<lambda>j. pj_topic_id j = pj_topic_id parent \<and> pj_topic_sequence j = m) (db_jobs db))"

text \<open>The lease of a follow-up keeps the job's recorded error, unlike the scheduler's.\<close>

definition grant_steer :: "string \<Rightarrow> string \<Rightarrow> time \<Rightarrow> time \<Rightarrow> provider_job \<Rightarrow> provider_job" where
  "grant_steer worker token expires now j = j\<lparr>pj_status := Leased, pj_lease_owner := Some worker,
     pj_lease_token := Some token, pj_lease_expires_at := Some expires, pj_next_attempt_at := None,
     pj_updated_at := now\<rparr>"

definition steerable :: "db \<Rightarrow> provider_job \<Rightarrow> provider_job \<Rightarrow> time \<Rightarrow> bool" where
  "steerable db parent c now \<longleftrightarrow> same_turn_settings c parent \<and> pj_status c = Queued \<and>
     identity_of db (pj_job_id c) = identity_of db (pj_job_id parent) \<and>
     \<not> is_retry_child db (pj_job_id c) \<and> \<not> pending_hold db (pj_job_id c) \<and>
     \<not> job_has_materials db (pj_job_id c) \<and> \<not> after (pj_next_attempt_at c) now"

definition lease_steer_tx ::
  "(state_error + string option) \<Rightarrow> string \<Rightarrow> string \<Rightarrow> int \<Rightarrow> time \<Rightarrow> string \<Rightarrow> db
   \<Rightarrow> state_error + provider_job option \<times> db" where
  "lease_steer_tx profile parent_id worker secs now token db =
     (case find (\<lambda>j. pj_job_id j = parent_id \<and> pj_status j = Executing) (db_jobs db) of
        None \<Rightarrow> Inr (None, db)
      | Some parent \<Rightarrow>
          if pending_stop_for_job db parent_id \<noteq> None then Inr (None, db)
          else attempt (control_owner_for_topic db (pj_topic_id parent)) (\<lambda>own.
            if own \<noteq> None then Inr (None, db)
            else attempt profile (\<lambda>selected.
              if pj_codex_permission_profile parent \<noteq> selected \<or> pj_codex_permission_profile parent \<noteq> None
              then Inr (None, db)
              else (case steer_candidate db parent of
                  None \<Rightarrow> Inr (None, db)
                | Some c \<Rightarrow>
                    if \<not> steerable db parent c now then Inr (None, db)
                    else let p = (\<lambda>j. pj_job_id j = pj_job_id c \<and> pj_status j = Queued);
                             db1 = update_jobs p (grant_steer worker token (now + seconds secs) now) db in
                      if count_jobs p db \<noteq> 1 then Inr (None, db1)
                      else attempt (get_job db1 (pj_job_id c)) (\<lambda>j. Inr (Some j, db1))))))"

definition lease_steer_followup ::
  "(state_error + string option) \<Rightarrow> string \<Rightarrow> string \<Rightarrow> int \<Rightarrow> time \<Rightarrow> string \<Rightarrow> db
   \<Rightarrow> (state_error, db, provider_job option) outcome" where
  "lease_steer_followup profile parent_id worker_id secs now token db =
     (case bounded worker_id ''worker id'' 128 of
        Inl e \<Rightarrow> (Inl e, db)
      | Inr worker \<Rightarrow> transact (lease_steer_tx profile parent_id worker secs now token) db)"

definition requeue_steer :: "time \<Rightarrow> provider_job \<Rightarrow> provider_job" where
  "requeue_steer now j = (clear_lease j)\<lparr>pj_status := Queued,
     pj_attempt_count := max 0 (pj_attempt_count j - 1), pj_provider_started_at := None,
     pj_updated_at := now\<rparr>"

definition reject_unaccepted_steer :: "string \<Rightarrow> string \<Rightarrow> time \<Rightarrow> db \<Rightarrow> (state_error, db, unit) outcome" where
  "reject_unaccepted_steer i token now =
     (let p = holds_lease i token [Executing] in
      commit_then (\<lambda>db.
        if correction_child db i then Inl (State_error ''submitted Claude input cannot be replayed'')
        else Inr (count_jobs p db, update_jobs p (requeue_steer now) db))
      (\<lambda>n _. check (n = 1) (State_error ''rejected steer job lease is missing or invalid'')))"

definition same_turn_identity :: "provider_job \<Rightarrow> provider_job \<Rightarrow> bool" where
  "same_turn_identity a b \<longleftrightarrow> pj_topic_id a = pj_topic_id b \<and> pj_agent_id a = pj_agent_id b \<and>
     pj_session_id a = pj_session_id b \<and> pj_session_generation a = pj_session_generation b"

definition advance_cursor :: "provider_job \<Rightarrow> time \<Rightarrow> db \<Rightarrow> db" where
  "advance_cursor j now db =
     (case pj_context_watermark j of
        None \<Rightarrow> db
      | Some w \<Rightarrow> db\<lparr>db_cursors := upsert_row (\<lambda>c. (vc_topic_id c, vc_observer_agent_id c))
          (\<lambda>c. c\<lparr>vc_last_turn_id := max (vc_last_turn_id c) w, vc_updated_at := now\<rparr>)
          \<lparr>vc_topic_id = pj_topic_id j, vc_observer_agent_id = pj_agent_id j, vc_last_turn_id = w,
           vc_updated_at = now\<rparr> (db_cursors db)\<rparr>)"

definition drop_handoff :: "provider_job \<Rightarrow> db \<Rightarrow> db" where
  "drop_handoff j db = (case pj_handoff_id j of
     None \<Rightarrow> db | Some h \<Rightarrow> db\<lparr>db_handoffs := filter (\<lambda>x. ph_handoff_id x \<noteq> h) (db_handoffs db)\<rparr>)"

definition finish_job :: "time \<Rightarrow> provider_job \<Rightarrow> provider_job" where
  "finish_job now j = (clear_lease j)\<lparr>pj_status := Completed, pj_updated_at := now\<rparr>"

definition complete_steered_tx ::
  "string \<Rightarrow> string \<Rightarrow> string \<Rightarrow> string \<Rightarrow> time \<Rightarrow> db \<Rightarrow> state_error + unit \<times> db" where
  "complete_steered_tx child_id token parent_id turn_id now db =
     (case (find (holds_lease child_id token [Executing]) (db_jobs db),
            find (\<lambda>j. pj_job_id j = parent_id \<and> pj_status j = Executing) (db_jobs db)) of
        (Some child, Some parent) \<Rightarrow>
          if \<not> same_turn_identity child parent
          then Inl (State_error ''steered job does not match its active parent'')
          else if child_id = parent_id \<or> exists_row (\<lambda>a. ab_child_job_id a = child_id) (db_absorptions db)
          then Inl (Integrity_error ''provider_job_absorptions'')
          else let db1 = db\<lparr>db_absorptions := db_absorptions db @
                 [\<lparr>ab_child_job_id = child_id, ab_parent_job_id = parent_id,
                   ab_provider_turn_id = turn_id, ab_created_at = now\<rparr>]\<rparr>;
                   db2 = drop_handoff child (advance_cursor child now db1);
                   held = holds_lease child_id token [Executing];
                   db3 = update_jobs held (finish_job now) db2 in
            if count_jobs held db2 \<noteq> 1
            then Inl (State_error ''steered job lease changed during completion'')
            else attempt (complete_stops_after child_id now db3) (\<lambda>db4. Inr ((), db4))
      | _ \<Rightarrow> Inl (State_error ''steered job does not match its active parent''))"

definition complete_steered ::
  "string \<Rightarrow> string \<Rightarrow> string \<Rightarrow> string \<Rightarrow> time \<Rightarrow> db \<Rightarrow> (state_error, db, unit) outcome" where
  "complete_steered child_id token parent_id turn now db =
     (case bounded turn ''provider turn id'' 256 of
        Inl e \<Rightarrow> (Inl e, db)
      | Inr turn_id \<Rightarrow> transact (complete_steered_tx child_id token parent_id turn_id now) db)"

section \<open>Execution\<close>

definition start_job :: "time \<Rightarrow> provider_job \<Rightarrow> provider_job" where
  "start_job now j = j\<lparr>pj_status := Executing, pj_attempt_count := pj_attempt_count j + 1,
     pj_provider_started_at := Some now, pj_updated_at := now\<rparr>"

definition startable :: "string \<Rightarrow> string \<Rightarrow> time \<Rightarrow> provider_job \<Rightarrow> bool" where
  "startable i token now j \<longleftrightarrow> holds_lease i token [Leased] j \<and> after (pj_lease_expires_at j) now \<and>
     pj_attempt_count j < pj_max_attempts j"

definition start_leased :: "string \<Rightarrow> string \<Rightarrow> time \<Rightarrow> string \<Rightarrow> db \<Rightarrow> state_error + bool \<times> db" where
  "start_leased i token now nid db =
     attempt (case job_of db i of None \<Rightarrow> Inr None | Some j \<Rightarrow> control_owner_for_topic db (pj_topic_id j)) (\<lambda>own.
       if own \<noteq> None then Inr (False, db)
       else let p = startable i token now; db1 = update_jobs p (start_job now) db in
         if count_jobs p db = 1
         then attempt (executing_in_transaction i now nid db1) (\<lambda>db2. Inr (True, db2))
         else Inr (False, db1))"

definition lease_lost :: state_error where
  "lease_lost = State_error ''provider job lease is missing, expired, or invalid''"

definition mark_executing :: "string \<Rightarrow> string \<Rightarrow> bool \<Rightarrow> time \<Rightarrow> string \<Rightarrow> db \<Rightarrow> (state_error, db, provider_job) outcome" where
  "mark_executing i token honor now nid = transact (\<lambda>db.
     attempt (if honor \<and> pending_stop_for_job db i \<noteq> None
              then cancel_stopped i token [Leased] ''emergency_stop'' True now db
              else start_leased i token now nid db) (\<lambda>(changed, db1).
       if \<not> changed then Inl lease_lost
       else attempt (get_job db1 i) (\<lambda>j. Inr (j, db1))))"

definition requeue_job :: "time \<Rightarrow> provider_job \<Rightarrow> provider_job" where
  "requeue_job now j = (clear_lease j)\<lparr>pj_status := Queued, pj_updated_at := now\<rparr>"

definition start_steer :: "string \<Rightarrow> string \<Rightarrow> string \<Rightarrow> time \<Rightarrow> string \<Rightarrow> db \<Rightarrow> (state_error, db, provider_job) outcome" where
  "start_steer i token parent_id now nid = transact (\<lambda>db.
     let parent_running = (case job_of db parent_id of None \<Rightarrow> False | Some j \<Rightarrow> pj_status j = Executing);
         matching = (identity_of db i = identity_of db parent_id);
         p = holds_lease i token [Leased] in
     attempt (if pending_stop_for_job db i \<noteq> None
              then cancel_stopped i token [Leased] ''emergency_stop'' True now db
              else if \<not> parent_running \<or> \<not> matching \<or> pending_stop_for_job db parent_id \<noteq> None
              then Inr (count_jobs p db = 1, update_jobs p (requeue_job now) db)
              else start_leased i token now nid db) (\<lambda>(changed, db1).
       if \<not> changed then Inl lease_lost
       else attempt (get_job db1 i) (\<lambda>j. Inr (j, db1))))"

definition release_lease :: "string \<Rightarrow> string \<Rightarrow> time \<Rightarrow> db \<Rightarrow> (state_error, db, unit) outcome" where
  "release_lease i token now =
     (let p = holds_lease i token [Leased] in
      commit_then (\<lambda>db. Inr (count_jobs p db, update_jobs p (requeue_job now) db))
        (\<lambda>n _. check (n = 1) (State_error ''provider job lease is missing or invalid'')))"

definition extend_lease :: "time \<Rightarrow> time \<Rightarrow> provider_job \<Rightarrow> provider_job" where
  "extend_lease expires now j = j\<lparr>pj_lease_expires_at := Some expires, pj_updated_at := now\<rparr>"

definition current_lease :: "string \<Rightarrow> string \<Rightarrow> job_status list \<Rightarrow> time \<Rightarrow> provider_job \<Rightarrow> bool" where
  "current_lease i token statuses now j \<longleftrightarrow> holds_lease i token statuses j \<and> after (pj_lease_expires_at j) now"

definition heartbeat :: "string \<Rightarrow> string \<Rightarrow> int \<Rightarrow> time \<Rightarrow> db \<Rightarrow> (state_error, db, provider_job) outcome" where
  "heartbeat i token secs now db =
     (if \<not> (1 \<le> secs \<and> secs \<le> 3600) then (Inl (State_error ''invalid provider lease duration''), db)
      else let p = current_lease i token [Leased, Executing] now; expires = now + seconds secs in
        commit_then (\<lambda>db.
          let n = count_jobs p db; db1 = update_jobs p (extend_lease expires now) db in
          Inr (n, if n = 1 then correction_heartbeat i now expires db1 else db1))
        (\<lambda>n db'. if n \<noteq> 1 then Inl lease_lost else get_job db' i) db)"

definition retry_job :: "string \<Rightarrow> string option \<Rightarrow> time \<Rightarrow> time \<Rightarrow> provider_job \<Rightarrow> provider_job" where
  "retry_job code detail available_at now j =
     (let exhausted = pj_attempt_count j + 1 \<ge> pj_max_attempts j in
      (clear_lease j)\<lparr>pj_status := (if exhausted then Failed else Retry_wait),
        pj_attempt_count := pj_attempt_count j + 1,
        pj_next_attempt_at := (if exhausted then None else Some available_at),
        pj_error_class := Some ''transient_pre_execution'', pj_error_code := Some code,
        pj_error_detail := detail, pj_updated_at := now\<rparr>)"

definition schedule_retry ::
  "string \<Rightarrow> string \<Rightarrow> string \<Rightarrow> int \<Rightarrow> string option \<Rightarrow> time \<Rightarrow> db \<Rightarrow> (state_error, db, provider_job) outcome" where
  "schedule_retry i token error_code delay detail now db =
     (case attempt (bounded error_code ''error code'' 128) (\<lambda>code.
           attempt (check (0 \<le> delay \<and> delay \<le> 86400) (State_error ''invalid retry delay'')) (\<lambda>_. Inr code)) of
        Inl e \<Rightarrow> (Inl e, db)
      | Inr code \<Rightarrow>
          (let p = current_lease i token [Leased] now in
           commit_then (\<lambda>db. attempt (complete_stops_after i now
               (update_jobs p (retry_job code (clip_detail detail) (now + seconds delay) now) db))
               (\<lambda>db'. Inr (count_jobs p db, db')))
             (\<lambda>n db'. if n \<noteq> 1
                then Inl (State_error ''retry requires a current pre-execution provider job lease'')
                else get_job db' i) db))"

definition fail_job :: "string \<Rightarrow> string \<Rightarrow> string option \<Rightarrow> time \<Rightarrow> provider_job \<Rightarrow> provider_job" where
  "fail_job cls code detail now j = (clear_lease j)\<lparr>pj_status := Failed, pj_error_class := Some cls,
     pj_error_code := Some code, pj_error_detail := detail, pj_updated_at := now\<rparr>"

text \<open>Ending an attempt: the update, the child's settlement when it changed the row, the stops.\<close>

definition end_attempt ::
  "(provider_job \<Rightarrow> bool) \<Rightarrow> (provider_job \<Rightarrow> provider_job) \<Rightarrow> string \<Rightarrow> time \<Rightarrow> db
   \<Rightarrow> (state_error, db, provider_job) outcome" where
  "end_attempt p f i now = commit_then (\<lambda>db.
       let n = count_jobs p db; db1 = update_jobs p f db in
       attempt (if n = 1 then settle i Settle_indeterminate now db1 else Inr db1) (\<lambda>db2.
       attempt (complete_stops_after i now db2) (\<lambda>db3. Inr (n, db3))))
     (\<lambda>n db'. if n \<noteq> 1 then Inl (State_error ''provider job lease is missing or invalid'')
        else get_job db' i)"

definition fail ::
  "string \<Rightarrow> string \<Rightarrow> string \<Rightarrow> string \<Rightarrow> string option \<Rightarrow> time \<Rightarrow> db \<Rightarrow> (state_error, db, provider_job) outcome" where
  "fail i token error_class error_code detail now db =
     (case attempt (bounded error_class ''error class'' 64) (\<lambda>cls.
           attempt (bounded error_code ''error code'' 128) (\<lambda>code. Inr (cls, code))) of
        Inl e \<Rightarrow> (Inl e, db)
      | Inr (cls, code) \<Rightarrow>
          end_attempt (current_lease i token [Leased, Executing] now)
            (fail_job cls code (clip_detail detail) now) i now db)"

definition lose_job :: "string \<Rightarrow> string option \<Rightarrow> time \<Rightarrow> provider_job \<Rightarrow> provider_job" where
  "lose_job code detail now j = (clear_lease j)\<lparr>pj_status := Indeterminate,
     pj_error_class := Some ''ambiguous_execution'', pj_error_code := Some code,
     pj_error_detail := detail, pj_updated_at := now\<rparr>"

definition mark_indeterminate ::
  "string \<Rightarrow> string \<Rightarrow> string \<Rightarrow> string option \<Rightarrow> time \<Rightarrow> db \<Rightarrow> (state_error, db, provider_job) outcome" where
  "mark_indeterminate i token error_code detail now db =
     (case bounded error_code ''error code'' 128 of
        Inl e \<Rightarrow> (Inl e, db)
      | Inr code \<Rightarrow> end_attempt (current_lease i token [Executing] now) (lose_job code (clip_detail detail) now) i now db)"

definition drop_job :: "time \<Rightarrow> provider_job \<Rightarrow> provider_job" where
  "drop_job now j = j\<lparr>pj_status := Cancelled, pj_next_attempt_at := None, pj_updated_at := now\<rparr>"

definition cancel :: "string \<Rightarrow> time \<Rightarrow> db \<Rightarrow> (state_error, db, provider_job) outcome" where
  "cancel i now =
     (let p = (\<lambda>j. pj_job_id j = i \<and> pj_status j \<in> {Queued, Retry_wait}) in
      commit_then (\<lambda>db. attempt (complete_stops_after i now (update_jobs p (drop_job now) db))
          (\<lambda>db'. Inr (count_jobs p db, db')))
        (\<lambda>n db'. if n \<noteq> 1 then Inl (State_error ''only queued provider work can be cancelled'')
           else get_job db' i))"

section \<open>Recovery\<close>

record recovery =
  rv_requeued :: "string list"
  rv_indeterminate :: "string list"

definition stale :: "string option \<Rightarrow> time \<Rightarrow> job_status \<Rightarrow> provider_job \<Rightarrow> bool" where
  "stale agent now st j \<longleftrightarrow> pj_status j = st \<and> due (pj_lease_expires_at j) now \<and>
     (case agent of None \<Rightarrow> True | Some a \<Rightarrow> pj_agent_id j = a)"

definition requeue_stale :: "time \<Rightarrow> provider_job \<Rightarrow> provider_job" where
  "requeue_stale now j = (clear_lease j)\<lparr>pj_status := Queued, pj_next_attempt_at := None,
     pj_error_class := Some ''recovered_pre_execution'', pj_error_code := Some ''stale_lease'',
     pj_updated_at := now\<rparr>"

definition lose_stale :: "time \<Rightarrow> provider_job \<Rightarrow> provider_job" where
  "lose_stale now j = (clear_lease j)\<lparr>pj_status := Indeterminate,
     pj_error_class := Some ''ambiguous_execution'', pj_error_code := Some ''stale_executing_lease'',
     pj_updated_at := now\<rparr>"

definition recover_tx :: "string option \<Rightarrow> time \<Rightarrow> db \<Rightarrow> state_error + recovery \<times> db" where
  "recover_tx agent now db =
     (let leased = sort (map pj_job_id (filter (stale agent now Leased) (db_jobs db)));
          executing = sort_key pj_job_id (filter (stale agent now Executing) (db_jobs db));
          db1 = update_jobs (stale agent now Leased) (requeue_stale now) db;
          db2 = update_jobs (stale agent now Executing) (lose_stale now) db1;
          db3 = fold (\<lambda>t. complete_finished_stops t now) (sort (remdups (map pj_topic_id executing))) db2 in
      attempt (each_row (\<lambda>i. sync_job i now) (map pj_job_id executing) db3)
        (\<lambda>db4. Inr (\<lparr>rv_requeued = leased, rv_indeterminate = map pj_job_id executing\<rparr>, db4)))"

definition recover_stale :: "string option \<Rightarrow> time \<Rightarrow> db \<Rightarrow> (state_error, db, recovery) outcome" where
  "recover_stale agent_id now db =
     (case (case agent_id of None \<Rightarrow> Inr None | Some a \<Rightarrow>
              if a = [] then Inr None else attempt (bounded a ''agent id'' 64) (\<lambda>b. Inr (Some b))) of
        Inl e \<Rightarrow> (Inl e, db)
      | Inr agent \<Rightarrow> transact (recover_tx agent now) db)"

section \<open>Batches and resolutions\<close>

definition batched :: "int \<Rightarrow> time \<Rightarrow> provider_job \<Rightarrow> bool" where
  "batched t now j \<longleftrightarrow> pj_topic_id j = t \<and> pj_status j = Queued \<and> after (pj_next_attempt_at j) now"

definition flush_batch_in_transaction :: "int \<Rightarrow> time \<Rightarrow> db \<Rightarrow> nat \<times> db" where
  "flush_batch_in_transaction t now db =
     (count_jobs (batched t now) db,
      update_jobs (batched t now) (\<lambda>j. j\<lparr>pj_next_attempt_at := Some now, pj_updated_at := now\<rparr>) db)"

definition flush_batch :: "int \<Rightarrow> time \<Rightarrow> db \<Rightarrow> (state_error, db, nat) outcome" where
  "flush_batch t now = transact (\<lambda>db. Inr (flush_batch_in_transaction t now db))"

definition resolve_indeterminate :: "string \<Rightarrow> string \<Rightarrow> time \<Rightarrow> time \<Rightarrow> db \<Rightarrow> (state_error, db, bool) outcome" where
  "resolve_indeterminate job_id resolution now now' db =
     (case attempt (bounded job_id ''provider job id'' 128) (\<lambda>i.
           attempt (bounded resolution ''resolution'' 32) (\<lambda>c.
           attempt (check (c \<in> set closing_resolutions)
             (State_error ''invalid indeterminate job resolution'')) (\<lambda>_. Inr (i, c)))) of
        Inl e \<Rightarrow> (Inl e, db)
      | Inr (i, c) \<Rightarrow> transact (\<lambda>db.
          attempt (get_job db i) (\<lambda>j.
          if pj_status j \<noteq> Indeterminate
          then Inl (State_error ''only an indeterminate provider job can be resolved'')
          else (case find (\<lambda>r. rs_job_id r = i) (db_resolutions db) of
              Some r \<Rightarrow>
                (if rs_resolution r = c then attempt (complete_stops_after i now' db) (\<lambda>db'. Inr (False, db'))
                 else Inl (State_error ''indeterminate provider job already has a different resolution''))
            | None \<Rightarrow>
                attempt (complete_stops_after i now' (db\<lparr>db_resolutions := db_resolutions db @
                    [\<lparr>rs_job_id = i, rs_resolution = c, rs_resolved_at = now\<rparr>]\<rparr>))
                  (\<lambda>db'. Inr (True, db'))))) db)"

end
