(* ===== verification/Job_Lifecycle.thy ===== *)
theory Job_Lifecycle
  imports Provider_Jobs
begin

text \<open>
  What every operation of the facade does to the job table. A row keeps its identity, moves
  along the edges of the status graph, keeps the constraint on its lease columns and the bound
  on its attempts. All operations but three are quiet: they never make a job occupy an
  execution root it did not occupy. The three that admit work (the scheduler's lease, the
  steering lease, the correction claim) are treated one by one.
\<close>

section \<open>Rows\<close>

text \<open>The edges of the status graph.\<close>

inductive status_edge :: "job_status \<Rightarrow> job_status \<Rightarrow> bool" where
  edge_lease: "status_edge Queued Leased"
| edge_lease_retry: "status_edge Retry_wait Leased"
| edge_correct: "status_edge Queued Executing"
| edge_cancel: "status_edge Queued Cancelled"
| edge_cancel_retry: "status_edge Retry_wait Cancelled"
| edge_start: "status_edge Leased Executing"
| edge_release: "status_edge Leased Queued"
| edge_retry: "status_edge Leased Retry_wait"
| edge_refuse: "status_edge Leased Failed"
| edge_stop_leased: "status_edge Leased Cancelled"
| edge_reject: "status_edge Executing Queued"
| edge_complete: "status_edge Executing Completed"
| edge_fail: "status_edge Executing Failed"
| edge_lose: "status_edge Executing Indeterminate"
| edge_stop: "status_edge Executing Cancelled"
| edge_result: "status_edge Executing Result_ready"
| edge_deliver: "status_edge Result_ready Completed"

inductive_cases status_edgeE: "status_edge a b"

lemmas edge_steps [simp] = status_edge.intros [THEN r_into_rtranclp [where r = status_edge]]

definition final_status :: "job_status \<Rightarrow> bool" where
  "final_status s \<longleftrightarrow> s \<in> {Completed, Failed, Cancelled, Indeterminate}"

lemma final_no_edge: "status_edge s t \<Longrightarrow> \<not> final_status s"
  by (cases rule: status_edge.cases) (auto simp: final_status_def)

lemma final_stays: "status_edge\<^sup>*\<^sup>* s t \<Longrightarrow> final_status s \<Longrightarrow> t = s"
  by (induction rule: rtranclp_induct) (auto dest: final_no_edge)

definition same_identity :: "provider_job \<Rightarrow> provider_job \<Rightarrow> bool" where
  "same_identity j k \<longleftrightarrow> pj_job_id k = pj_job_id j \<and> pj_idempotency_key k = pj_idempotency_key j \<and>
     pj_chat_id k = pj_chat_id j \<and> pj_message_id k = pj_message_id j \<and> pj_topic_id k = pj_topic_id j \<and>
     pj_topic_sequence k = pj_topic_sequence j \<and> pj_agent_id k = pj_agent_id j \<and>
     pj_session_id k = pj_session_id j \<and> pj_session_generation k = pj_session_generation j \<and>
     pj_model k = pj_model j \<and> pj_effort k = pj_effort j \<and> pj_max_attempts k = pj_max_attempts j \<and>
     pj_created_at k = pj_created_at j \<and>
     pj_codex_permission_profile k = pj_codex_permission_profile j"

text \<open>A job that has not started has attempts left.\<close>

definition attempts_ok :: "provider_job \<Rightarrow> bool" where
  "attempts_ok j \<longleftrightarrow> 0 \<le> pj_attempt_count j \<and> pj_attempt_count j \<le> pj_max_attempts j \<and>
     1 \<le> pj_max_attempts j \<and>
     (pj_status j \<in> {Queued, Retry_wait, Leased} \<longrightarrow> pj_attempt_count j < pj_max_attempts j)"

definition job_ok :: "provider_job \<Rightarrow> bool" where
  "job_ok j \<longleftrightarrow> lease_columns_ok j \<and> attempts_ok j"

definition moves :: "provider_job \<Rightarrow> provider_job \<Rightarrow> bool" where
  "moves j k \<longleftrightarrow> same_identity j k \<and> status_edge\<^sup>*\<^sup>* (pj_status j) (pj_status k) \<and> (job_ok j \<longrightarrow> job_ok k)"

text \<open>Whether a row runs or may still start: executing, or leased and unexpired.\<close>

definition running :: "time \<Rightarrow> provider_job \<Rightarrow> bool" where
  "running now j \<longleftrightarrow> pj_status j = Executing \<or> (pj_status j = Leased \<and> after (pj_lease_expires_at j) now)"

definition quiet :: "time \<Rightarrow> provider_job \<Rightarrow> provider_job \<Rightarrow> bool" where
  "quiet now j k \<longleftrightarrow> moves j k \<and> (running now k \<longrightarrow> running now j) \<and>
     (pj_status k = Indeterminate \<longrightarrow> pj_status j = Indeterminate \<or> running now j)"

lemma same_identity_refl [simp]: "same_identity j j"
  by (simp add: same_identity_def)

lemma same_identity_trans: "same_identity a b \<Longrightarrow> same_identity b c \<Longrightarrow> same_identity a c"
  by (simp add: same_identity_def)

lemma moves_refl [simp]: "moves j j"
  by (simp add: moves_def)

lemma moves_trans: "moves a b \<Longrightarrow> moves b c \<Longrightarrow> moves a c"
  unfolding moves_def using same_identity_trans rtranclp_trans by metis

lemma quiet_refl [simp]: "quiet now j j"
  by (simp add: quiet_def)

lemma quiet_moves: "quiet now j k \<Longrightarrow> moves j k"
  by (simp add: quiet_def)

lemma moves_final: "moves j k \<Longrightarrow> final_status (pj_status j) \<Longrightarrow> pj_status k = pj_status j"
  using final_stays by (auto simp: moves_def)

lemma edge_into_executing: "status_edge s Executing \<Longrightarrow> s = Leased \<or> s = Queued"
  by (cases rule: status_edge.cases) auto

lemma quiet_trans: "quiet now a b \<Longrightarrow> quiet now b c \<Longrightarrow> quiet now a c"
  using moves_trans [of a b c] by (auto simp: quiet_def)

lemma job_ok_cleared:
  "job_ok j \<Longrightarrow> pj_status k \<notin> {Leased, Executing} \<Longrightarrow> pj_lease_owner k = None \<Longrightarrow> pj_lease_token k = None \<Longrightarrow>
   pj_lease_expires_at k = None \<Longrightarrow> attempts_ok k \<Longrightarrow> job_ok k"
  by (simp add: job_ok_def lease_columns_ok_def)

lemmas row_defs = quiet_def moves_def same_identity_def job_ok_def lease_columns_ok_def attempts_ok_def
  running_def clear_lease_def

lemma quiet_stop: "pj_status j \<in> {Leased, Executing} \<Longrightarrow> quiet now j (stop_job code t j)"
  by (auto simp: row_defs stop_job_def)

lemma quiet_cancel_queued: "pj_status j \<in> {Queued, Retry_wait} \<Longrightarrow> quiet now j (cancel_queued_job t j)"
  by (auto simp: row_defs cancel_queued_job_def)

lemma quiet_drop: "pj_status j \<in> {Queued, Retry_wait} \<Longrightarrow> quiet now j (drop_job t j)"
  by (auto simp: row_defs drop_job_def)

lemma quiet_requeue_steer: "pj_status j = Executing \<Longrightarrow> quiet now j (requeue_steer t j)"
  by (auto simp: row_defs requeue_steer_def)

lemma quiet_finish: "pj_status j = Executing \<Longrightarrow> quiet now j (finish_job t j)"
  by (auto simp: row_defs finish_job_def)

lemma quiet_start: "startable i token now j \<Longrightarrow> quiet now j (start_job t j)"
  by (auto simp: row_defs start_job_def startable_def holds_lease_def)

lemma quiet_requeue: "pj_status j = Leased \<Longrightarrow> quiet now j (requeue_job t j)"
  by (auto simp: row_defs requeue_job_def)

lemma quiet_extend: "current_lease i token [Leased, Executing] now j \<Longrightarrow> quiet now j (extend_lease e t j)"
  by (auto simp: row_defs extend_lease_def current_lease_def holds_lease_def)

lemma quiet_child_heartbeat:
  "pj_status j = Executing \<Longrightarrow> quiet now j (j\<lparr>pj_lease_expires_at := Some e, pj_updated_at := t\<rparr>)"
  by (auto simp: row_defs)

lemma quiet_retry: "pj_status j = Leased \<Longrightarrow> quiet now j (retry_job code d at t j)"
  by (auto simp: row_defs retry_job_def Let_def)

lemma quiet_fail: "pj_status j \<in> {Leased, Executing} \<Longrightarrow> quiet now j (fail_job c e d t j)"
  by (auto simp: row_defs fail_job_def)

lemma quiet_lose: "pj_status j = Executing \<Longrightarrow> quiet now j (lose_job c d t j)"
  by (auto simp: row_defs lose_job_def)

lemma quiet_requeue_stale: "pj_status j = Leased \<Longrightarrow> quiet now j (requeue_stale t j)"
  by (auto simp: row_defs requeue_stale_def)

lemma quiet_lose_stale: "pj_status j = Executing \<Longrightarrow> quiet now j (lose_stale t j)"
  by (auto simp: row_defs lose_stale_def)

lemma quiet_settle: "pj_status j = Executing \<Longrightarrow> quiet now j (settle_child d t j)"
  by (cases d) (auto simp: row_defs settle_child_def)

lemma quiet_flush: "quiet now j (j\<lparr>pj_next_attempt_at := x, pj_updated_at := t\<rparr>)"
  by (auto simp: row_defs)

lemmas quiet_rows [wf_intros] = quiet_stop quiet_cancel_queued quiet_drop quiet_requeue_steer quiet_finish
  quiet_start quiet_requeue quiet_extend quiet_child_heartbeat quiet_retry quiet_fail quiet_lose
  quiet_requeue_stale quiet_lose_stale quiet_settle quiet_flush

section \<open>Tables\<close>

text \<open>Work that a stop still waits for, and how a stop record may change: it is completed when no
  such work is left.\<close>

definition stop_waits :: "db \<Rightarrow> provider_stop \<Rightarrow> bool" where
  "stop_waits db s \<longleftrightarrow> exists_row (\<lambda>j. unfinished db j \<and> stop_covers db s j) (db_jobs db)"

definition stop_moves :: "db \<Rightarrow> provider_stop \<Rightarrow> provider_stop \<Rightarrow> bool" where
  "stop_moves db s s' \<longleftrightarrow> s' = s \<or>
     (st_pending s \<and> (\<exists>t. s' = s\<lparr>st_pending := False, st_completed_at := Some t\<rparr>) \<and> \<not> stop_waits db s)"

text \<open>Where each session belongs, whether it is kept, and who writes it.\<close>

definition session_view :: "session_row \<Rightarrow> string \<times> int \<times> string \<times> int \<times> session_status \<times> writer_mode" where
  "session_view s = (ss_session_id s, ss_topic_id s, ss_agent_id s, ss_generation s, ss_status s, ss_writer_mode s)"

abbreviation session_views :: "db \<Rightarrow> (string \<times> int \<times> string \<times> int \<times> session_status \<times> writer_mode) list" where
  "session_views db \<equiv> map session_view (db_sessions db)"

text \<open>A quiet step of the database: the job rows move quietly, one by one, and the tables that
  say where and for whom work runs stay as they are; outcomes are only ever added.\<close>

definition quiet_step :: "time \<Rightarrow> db \<Rightarrow> db \<Rightarrow> bool" where
  "quiet_step now db db' \<longleftrightarrow> list_all2 (quiet now) (db_jobs db) (db_jobs db') \<and>
     db_topics db' = db_topics db \<and> db_evidence db' = db_evidence db \<and> db_holds db' = db_holds db \<and>
     db_controls db' = db_controls db \<and> session_views db' = session_views db \<and>
     set (db_resolutions db) \<subseteq> set (db_resolutions db') \<and>
     list_all2 (stop_moves db') (db_stops db) (db_stops db')"

lemma stop_moves_refl [simp]: "stop_moves db s s"
  by (simp add: stop_moves_def)

text \<open>Unfinished work was unfinished before: no edge leads back from an end.\<close>

lemma edges_into_open:
  "status_edge\<^sup>*\<^sup>* s t \<Longrightarrow> t \<in> {Queued, Retry_wait, Leased, Executing} \<Longrightarrow> s \<in> {Queued, Retry_wait, Leased, Executing}"
  by (induction rule: converse_rtranclp_induct) (auto elim: status_edgeE)

lemma edges_into_lost:
  "status_edge\<^sup>*\<^sup>* s Indeterminate \<Longrightarrow> s \<in> {Queued, Retry_wait, Leased, Executing, Indeterminate}"
  by (induction rule: converse_rtranclp_induct) (auto elim: status_edgeE)

lemma unfinished_moves:
  assumes "moves j k" "unfinished db' k" "db_evidence db' = db_evidence db"
    "set (db_resolutions db) \<subseteq> set (db_resolutions db')"
  shows "unfinished db j"
proof -
  have e: "status_edge\<^sup>*\<^sup>* (pj_status j) (pj_status k)" and id: "pj_job_id k = pj_job_id j"
    using assms(1) by (simp_all add: moves_def same_identity_def)
  consider (a) "pj_status k \<in> {Queued, Retry_wait, Leased, Executing}" | (b) "uncertain db' k"
    using assms(2) by (auto simp: unfinished_def)
  then show ?thesis
  proof cases
    case a
    then show ?thesis using edges_into_open [OF e] by (auto simp: unfinished_def)
  next
    case b
    then have "\<not> resolved_outcome db (pj_job_id j)" "\<not> terminal_outcome db (pj_job_id j)"
      using assms(3,4) id by (auto simp: uncertain_def resolved_outcome_def terminal_outcome_def exists_row_iff)
    moreover have "status_edge\<^sup>*\<^sup>* (pj_status j) Indeterminate" using b e by (simp add: uncertain_def)
    ultimately show ?thesis using edges_into_lost by (auto simp: unfinished_def uncertain_def)
  qed
qed

lemma stop_waits_moves:
  assumes "list_all2 moves (db_jobs db) (db_jobs db')" "db_evidence db' = db_evidence db"
    "set (db_resolutions db) \<subseteq> set (db_resolutions db')" "db_holds db' = db_holds db" "stop_waits db' s"
  shows "stop_waits db s"
proof -
  obtain k where k: "k \<in> set (db_jobs db')" "unfinished db' k" "stop_covers db' s k"
    using assms(5) by (auto simp: stop_waits_def exists_row_iff)
  obtain j where j: "j \<in> set (db_jobs db)" "moves j k"
    using assms(1) k(1) unfolding list_all2_conv_all_nth in_set_conv_nth by metis
  have "stop_covers db s j"
    using k(3) j(2) assms(4) by (simp add: stop_covers_def moves_def same_identity_def)
  then show ?thesis
    using j(1) unfinished_moves [OF j(2) k(2) assms(2,3)] by (auto simp: stop_waits_def exists_row_iff)
qed

lemma list_all2_trans3:
  "(\<And>a b c. P a b \<Longrightarrow> P b c \<Longrightarrow> P a c) \<Longrightarrow> list_all2 P xs ys \<Longrightarrow> list_all2 P ys zs \<Longrightarrow> list_all2 P xs zs"
  by (rule list_all2_trans [of P P P]) auto

lemma quiet_step_refl [simp]: "quiet_step now db db"
  by (simp add: quiet_step_def list.rel_refl)

lemma quiet_step_jobs: "quiet_step now db db' \<Longrightarrow> list_all2 moves (db_jobs db) (db_jobs db')"
  unfolding quiet_step_def using list_all2_mono [of "quiet now"] quiet_moves by blast

lemma quiet_step_waits:
  assumes "quiet_step now db db'" "stop_waits db' s"
  shows "stop_waits db s"
  by (rule stop_waits_moves [OF quiet_step_jobs [OF assms(1)] _ _ _ assms(2)])
    (use assms(1) in \<open>simp_all add: quiet_step_def\<close>)

lemma stop_moves_trans:
  assumes "stop_moves b s s'" "stop_moves c s' s''" "\<And>u. stop_waits c u \<Longrightarrow> stop_waits b u"
  shows "stop_moves c s s''"
  using assms by (auto simp: stop_moves_def)

lemma quiet_step_trans:
  assumes "quiet_step now a b" "quiet_step now b c"
  shows "quiet_step now a c"
proof -
  have "list_all2 (stop_moves b) (db_stops a) (db_stops b)" "list_all2 (stop_moves c) (db_stops b) (db_stops c)"
    using assms by (simp_all add: quiet_step_def)
  then have "list_all2 (stop_moves c) (db_stops a) (db_stops c)"
    by (rule list_all2_trans [rotated]) (rule stop_moves_trans, assumption+, rule quiet_step_waits [OF assms(2)])
  moreover have "list_all2 (quiet now) (db_jobs a) (db_jobs c)"
    using assms list_all2_trans3 [of "quiet now"] quiet_trans unfolding quiet_step_def by metis
  ultimately show ?thesis using assms unfolding quiet_step_def by auto
qed

lemma quiet_step_notices: "notices_only db db' \<Longrightarrow> quiet_step now db db'"
  by (simp add: quiet_step_def notices_only_sel list.rel_refl)

lemma quiet_update_where:
  "(\<And>j. j \<in> set js \<Longrightarrow> p j \<Longrightarrow> quiet now j (f j)) \<Longrightarrow> list_all2 (quiet now) js (update_where p f js)"
  by (induction js) (auto simp: update_where_def)

lemma quiet_update_jobs: "(\<And>j. p j \<Longrightarrow> quiet now j (f j)) \<Longrightarrow> quiet_step now db (update_jobs p f db)"
  by (simp add: quiet_step_def update_jobs_def quiet_update_where list.rel_refl)

lemma completed_waits: "stop_waits (complete_finished_stops t u db) s = stop_waits db s"
  by (simp add: stop_waits_def complete_finished_stops_def stop_covers_def unfinished_def uncertain_def
      resolved_outcome_def terminal_outcome_def)

lemma completed_moves:
  "\<forall>s \<in> set ss. p s \<longrightarrow> st_pending s \<and> \<not> stop_waits db s \<Longrightarrow> list_all2 (stop_moves db) ss
     (update_where p (\<lambda>s. s\<lparr>st_pending := False, st_completed_at := Some u\<rparr>) ss)"
  by (induction ss) (auto simp: update_where_def stop_moves_def)

lemma stop_moves_waits: "stop_waits db = stop_waits db' \<Longrightarrow> stop_moves db = stop_moves db'"
  by (simp add: stop_moves_def fun_eq_iff)

lemma quiet_complete_finished: "quiet_step now db (complete_finished_stops t u db)"
proof -
  have "list_all2 (stop_moves db) (db_stops db) (db_stops (complete_finished_stops t u db))"
    by (simp add: complete_finished_stops_def) (rule completed_moves, simp add: finished_stop_def stop_waits_def)
  moreover have "stop_moves (complete_finished_stops t u db) = stop_moves db"
    by (rule stop_moves_waits) (rule ext, rule completed_waits)
  ultimately have "list_all2 (stop_moves (complete_finished_stops t u db)) (db_stops db)
      (db_stops (complete_finished_stops t u db))"
    by simp
  then show ?thesis
    by (simp add: quiet_step_def complete_finished_stops_def list.rel_refl)
qed

lemma quiet_sync: "sync_job i t db = Inr db' \<Longrightarrow> quiet_step now db db'"
  by (rule quiet_step_notices [OF sync_job_only])

lemma quiet_complete_after: "complete_stops_after i t db = Inr db' \<Longrightarrow> quiet_step now db db'"
  by (auto simp: complete_stops_after_def split: option.splits
      intro: quiet_step_trans [OF quiet_complete_finished quiet_sync])

lemma quiet_settle_op: "settle i d t db = Inr db' \<Longrightarrow> quiet_step now db db'"
proof -
  assume s: "settle i d t db = Inr db'"
  show ?thesis
  proof (cases "child_of db i")
    case None
    then show ?thesis using s by (simp add: settle_def)
  next
    case (Some c)
    let ?p = "\<lambda>j. pj_job_id j = cc_child_job_id c \<and> pj_status j = Executing \<and>
                pj_lease_token j = Some (cc_child_lease_token c)"
    have "sync_job (cc_child_job_id c) t (update_jobs ?p (settle_child d t) db) = Inr db'"
      using s Some by (auto simp: settle_def Let_def update_jobs_def split: if_splits)
    from quiet_sync [OF this] show ?thesis
      by (rule quiet_step_trans [OF quiet_update_jobs, rotated]) (simp add: quiet_settle)
  qed
qed

lemma quiet_cancel_stopped:
  assumes "cancel_stopped i token statuses code cs t db = Inr (b, db')" "set statuses \<subseteq> {Leased, Executing}"
  shows "quiet_step now db db'"
proof -
  let ?p = "holds_lease i token statuses" let ?db1 = "update_jobs ?p (stop_job code t) db"
  have first: "quiet_step now db ?db1"
    by (rule quiet_update_jobs) (use assms(2) in \<open>auto simp: holds_lease_def intro!: quiet_stop\<close>)
  show ?thesis
  proof (cases "count_jobs ?p db = 1")
    case False
    then show ?thesis using assms(1) first by (simp add: cancel_stopped_def Let_def)
  next
    case True
    then obtain db2 db3 where d: "settle i Settle_cancelled t ?db1 = Inr db2" "sync_job i t db2 = Inr db3"
      and e: "db' = db3 \<or> complete_stops_after i t db3 = Inr db'"
      using assms(1) by (auto simp: cancel_stopped_def Let_def attempt_Inr split: if_splits)
    have "quiet_step now db db3"
      using first quiet_settle_op [OF d(1)] quiet_sync [OF d(2)] quiet_step_trans by blast
    then show ?thesis using e quiet_complete_after quiet_step_trans by blast
  qed
qed

lemma quiet_start_leased:
  assumes "start_leased i token now nid db = Inr (b, db')"
  shows "quiet_step now db db'"
proof -
  let ?db1 = "update_jobs (startable i token now) (start_job now) db"
  have "db' = db \<or> db' = ?db1 \<or> executing_in_transaction i now nid ?db1 = Inr db'"
    using assms by (auto simp: start_leased_def attempt_Inr Let_def split: if_splits)
  moreover have "quiet_step now db ?db1"
    by (rule quiet_update_jobs) (simp add: quiet_start)
  ultimately show ?thesis
    using quiet_step_notices [OF executing_only] quiet_step_trans quiet_step_refl by blast
qed

section \<open>Operations\<close>

datatype job_op =
    Do_lease lease_request time string
  | Do_lease_steer "state_error + string option" string string int time string
  | Do_claim string string string string time string
  | Do_reject_steer string string time
  | Do_complete_steered string string string string time
  | Do_mark_executing string string bool time string
  | Do_start_steer string string string time string
  | Do_release string string time
  | Do_heartbeat string string int time
  | Do_retry string string string int "string option" time
  | Do_fail string string string string "string option" time
  | Do_indeterminate string string string "string option" time
  | Do_cancel string time
  | Do_cancel_active string string string bool time
  | Do_honor_stop string string bool time
  | Do_recover "string option" time
  | Do_flush int time
  | Do_resolve string string time

text \<open>The clock reading of an operation.\<close>

fun op_time :: "job_op \<Rightarrow> time" where
  "op_time (Do_lease _ t _) = t" | "op_time (Do_lease_steer _ _ _ _ t _) = t"
| "op_time (Do_claim _ _ _ _ t _) = t" | "op_time (Do_reject_steer _ _ t) = t"
| "op_time (Do_complete_steered _ _ _ _ t) = t" | "op_time (Do_mark_executing _ _ _ t _) = t"
| "op_time (Do_start_steer _ _ _ t _) = t" | "op_time (Do_release _ _ t) = t"
| "op_time (Do_heartbeat _ _ _ t) = t" | "op_time (Do_retry _ _ _ _ _ t) = t"
| "op_time (Do_fail _ _ _ _ _ t) = t" | "op_time (Do_indeterminate _ _ _ _ t) = t"
| "op_time (Do_cancel _ t) = t" | "op_time (Do_cancel_active _ _ _ _ t) = t"
| "op_time (Do_honor_stop _ _ _ t) = t" | "op_time (Do_recover _ t) = t"
| "op_time (Do_flush _ t) = t" | "op_time (Do_resolve _ _ t) = t"

definition result_of :: "(state_error, db, 'a) outcome \<Rightarrow> state_error option \<times> db" where
  "result_of x = (case fst x of Inl e \<Rightarrow> Some e | Inr _ \<Rightarrow> None, snd x)"

fun run_job_op :: "(string \<Rightarrow> string) \<Rightarrow> job_op \<Rightarrow> db \<Rightarrow> state_error option \<times> db" where
  "run_job_op dg (Do_lease q t tok) db = result_of (lease q t tok db)"
| "run_job_op dg (Do_lease_steer pr p w n t tok) db = result_of (lease_steer_followup pr p w n t tok db)"
| "run_job_op dg (Do_claim p tok ctok u t nid) db = result_of (transact (correction_claim dg p tok ctok u t nid) db)"
| "run_job_op dg (Do_reject_steer i tok t) db = result_of (reject_unaccepted_steer i tok t db)"
| "run_job_op dg (Do_complete_steered i tok p turn t) db = result_of (complete_steered i tok p turn t db)"
| "run_job_op dg (Do_mark_executing i tok h t nid) db = result_of (mark_executing i tok h t nid db)"
| "run_job_op dg (Do_start_steer i tok p t nid) db = result_of (start_steer i tok p t nid db)"
| "run_job_op dg (Do_release i tok t) db = result_of (release_lease i tok t db)"
| "run_job_op dg (Do_heartbeat i tok n t) db = result_of (heartbeat i tok n t db)"
| "run_job_op dg (Do_retry i tok c n d t) db = result_of (schedule_retry i tok c n d t db)"
| "run_job_op dg (Do_fail i tok cl c d t) db = result_of (fail i tok cl c d t db)"
| "run_job_op dg (Do_indeterminate i tok c d t) db = result_of (mark_indeterminate i tok c d t db)"
| "run_job_op dg (Do_cancel i t) db = result_of (cancel i t db)"
| "run_job_op dg (Do_cancel_active i tok c cs t) db = result_of (cancel_active i tok c cs t db)"
| "run_job_op dg (Do_honor_stop i tok ex t) db =
     result_of (transact (honor_stop i tok (if ex then Executing else Leased) t) db)"
| "run_job_op dg (Do_recover a t) db = result_of (recover_stale a t db)"
| "run_job_op dg (Do_flush tp t) db = result_of (flush_batch tp t db)"
| "run_job_op dg (Do_resolve i r t) db = result_of (resolve_indeterminate i r t t db)"

fun admits_work :: "job_op \<Rightarrow> bool" where
  "admits_work (Do_lease _ _ _) = True" | "admits_work (Do_lease_steer _ _ _ _ _ _) = True"
| "admits_work (Do_claim _ _ _ _ _ _) = True" | "admits_work _ = False"

lemma quiet_transact:
  assumes "transact body db = (r, db')" "\<And>a. body db = Inr (a, db') \<Longrightarrow> quiet_step now db db'"
  shows "quiet_step now db db'"
  using assms(1) by (cases rule: transact_cases) (auto intro: assms(2))

lemma quiet_commit:
  assumes "commit_then body finish db = (r, db')" "\<And>a. body db = Inr (a, db') \<Longrightarrow> quiet_step now db db'"
  shows "quiet_step now db db'"
  using assms(1) by (cases rule: commit_then_cases) (auto intro: assms(2))

lemma quiet_reject: "reject_unaccepted_steer i tok now db = (r, db') \<Longrightarrow> quiet_step now db db'"
  unfolding reject_unaccepted_steer_def Let_def
  by (erule quiet_commit)
    (auto intro!: quiet_update_jobs quiet_requeue_steer simp: holds_lease_def split: if_splits)

lemma quiet_release: "release_lease i tok now db = (r, db') \<Longrightarrow> quiet_step now db db'"
  unfolding release_lease_def Let_def
  by (erule quiet_commit) (auto intro!: quiet_update_jobs quiet_requeue simp: holds_lease_def)

lemma quiet_mark_executing: "mark_executing i tok h now nid db = (r, db') \<Longrightarrow> quiet_step now db db'"
  unfolding mark_executing_def
  by (erule quiet_transact)
    (auto simp: attempt_Inr split: if_splits dest: quiet_cancel_stopped quiet_start_leased)

lemma quiet_start_steer: "start_steer i tok p now nid db = (r, db') \<Longrightarrow> quiet_step now db db'"
  unfolding start_steer_def Let_def
  by (erule quiet_transact)
    (auto simp: attempt_Inr split: if_splits dest: quiet_cancel_stopped quiet_start_leased
       intro!: quiet_update_jobs quiet_requeue simp: holds_lease_def)

lemma quiet_heartbeat:
  assumes "heartbeat i tok n now db = (r, db')"
  shows "quiet_step now db db'"
proof (cases "1 \<le> n \<and> n \<le> 3600")
  case False
  then show ?thesis using assms by (auto simp: heartbeat_def)
next
  case True
  let ?p = "current_lease i tok [Leased, Executing] now" and ?e = "now + seconds n"
  let ?db1 = "update_jobs ?p (extend_lease ?e now) db"
  have first: "quiet_step now db ?db1"
    by (rule quiet_update_jobs) (simp add: quiet_extend)
  have "quiet_step now ?db1 (correction_heartbeat i now ?e ?db1)"
    unfolding correction_heartbeat_def update_jobs_def [symmetric]
    by (rule quiet_update_jobs) (auto simp: child_of_parent_def intro: quiet_child_heartbeat)
  then have second: "quiet_step now db (correction_heartbeat i now ?e ?db1)"
    using first quiet_step_trans by blast
  have "db' = ?db1 \<or> db' = correction_heartbeat i now ?e ?db1"
    using assms True by (auto simp: heartbeat_def Let_def commit_then_def split: if_splits)
  then show ?thesis using first second by blast
qed

lemma quiet_after_update:
  assumes "complete_stops_after i t (update_jobs p f db) = Inr db'" "\<And>j. p j \<Longrightarrow> quiet now j (f j)"
  shows "quiet_step now db db'"
  using quiet_step_trans [OF quiet_update_jobs [of p now f db] quiet_complete_after [OF assms(1)]] assms(2) by blast

lemma quiet_schedule_retry:
  assumes "schedule_retry i tok c n d now db = (r, db')"
  shows "quiet_step now db db'"
proof -
  have "quiet_step now db db'"
    if "complete_stops_after i now (update_jobs (current_lease i tok [Leased] now) (retry_job code e at now) db) = Inr db'"
    for code e at
    by (rule quiet_after_update [OF that]) (simp add: current_lease_def holds_lease_def quiet_retry)
  then show ?thesis
    using assms unfolding schedule_retry_def Let_def
    by (auto split: sum.splits elim!: commit_then_cases simp: attempt_Inr)
qed

lemma quiet_end_attempt:
  assumes "end_attempt p f i now db = (r, db')" "\<And>j. p j \<Longrightarrow> quiet now j (f j)"
  shows "quiet_step now db db'"
  using assms(1) unfolding end_attempt_def
proof (rule quiet_commit)
  fix a
  let ?db1 = "update_jobs p f db"
  assume "(let n = count_jobs p db; db1 = ?db1 in
       attempt (if n = 1 then settle i Settle_indeterminate now db1 else Inr db1) (\<lambda>db2.
       attempt (complete_stops_after i now db2) (\<lambda>db3. Inr (n, db3)))) = Inr (a, db')"
  then obtain db2 where "settle i Settle_indeterminate now ?db1 = Inr db2 \<or> db2 = ?db1"
    "complete_stops_after i now db2 = Inr db'"
    by (auto simp: Let_def attempt_Inr split: if_splits)
  moreover have "quiet_step now db ?db1" by (rule quiet_update_jobs) (rule assms(2))
  ultimately show "quiet_step now db db'"
    using quiet_settle_op [of i Settle_indeterminate now ?db1 db2 now] quiet_complete_after [of i now db2 db' now]
      quiet_step_trans [of now] by metis
qed

lemma quiet_fail_op: "fail i tok cl c d now db = (r, db') \<Longrightarrow> quiet_step now db db'"
  unfolding fail_def
  by (auto split: sum.splits prod.splits elim!: quiet_end_attempt
      simp: current_lease_def holds_lease_def intro: quiet_fail)

lemma quiet_mark_indeterminate: "mark_indeterminate i tok c d now db = (r, db') \<Longrightarrow> quiet_step now db db'"
  unfolding mark_indeterminate_def
  by (auto split: sum.splits elim!: quiet_end_attempt
      simp: current_lease_def holds_lease_def intro: quiet_lose)

lemma quiet_cancel: "cancel i now db = (r, db') \<Longrightarrow> quiet_step now db db'"
  unfolding cancel_def Let_def
  by (erule quiet_commit) (auto simp: attempt_Inr intro: quiet_after_update quiet_drop)

lemma quiet_cancel_active: "cancel_active i tok c cs now db = (r, db') \<Longrightarrow> quiet_step now db db'"
  unfolding cancel_active_def
  by (erule quiet_transact) (auto simp: attempt_Inr split: if_splits prod.splits dest: quiet_cancel_stopped)

lemma quiet_honor_stop:
  "transact (honor_stop i tok s now) db = (r, db') \<Longrightarrow> s \<in> {Leased, Executing} \<Longrightarrow> quiet_step now db db'"
  by (erule quiet_transact) (auto simp: honor_stop_def split: if_splits dest: quiet_cancel_stopped)

lemma quiet_honor_stop_op:
  "transact (honor_stop i tok (if ex then Executing else Leased) now) db = (r, db') \<Longrightarrow> quiet_step now db db'"
  by (cases ex) (auto dest: quiet_honor_stop)

lemma quiet_each_sync: "each_row (\<lambda>i. sync_job i t) is db = Inr db' \<Longrightarrow> quiet_step now db db'"
proof (induction "is" arbitrary: db)
  case (Cons i "is")
  then obtain m where "sync_job i t db = Inr m" "each_row (\<lambda>i. sync_job i t) is m = Inr db'"
    by (auto simp: attempt_Inr)
  then show ?case using Cons.IH quiet_sync quiet_step_trans by blast
qed simp

lemma quiet_fold_stops: "quiet_step now db (fold (\<lambda>t. complete_finished_stops t u) ts db)"
proof (induction ts arbitrary: db)
  case (Cons t ts)
  then show ?case using quiet_complete_finished quiet_step_trans by (metis fold_simps(2))
qed simp

lemma quiet_recover:
  assumes "recover_stale a now db = (r, db')"
  shows "quiet_step now db db'"
proof -
  have "quiet_step now db db'" if "transact (recover_tx ag now) db = (r, db')" for ag
    using that
  proof (rule quiet_transact)
    fix x
    let ?db1 = "update_jobs (stale ag now Leased) (requeue_stale now) db"
    let ?db2 = "update_jobs (stale ag now Executing) (lose_stale now) ?db1"
    assume "recover_tx ag now db = Inr (x, db')"
    then obtain ts "is" where e: "each_row (\<lambda>i. sync_job i now) is
        (fold (\<lambda>t. complete_finished_stops t now) ts ?db2) = Inr db'"
      by (auto simp: recover_tx_def Let_def attempt_Inr)
    have "quiet_step now db ?db1" "quiet_step now ?db1 ?db2"
      by (rule quiet_update_jobs, simp add: stale_def quiet_requeue_stale quiet_lose_stale)+
    then show "quiet_step now db db'"
      using quiet_fold_stops [of now ?db2 now ts] quiet_each_sync [OF e] quiet_step_trans by blast
  qed
  then show ?thesis
    using assms unfolding recover_stale_def by (auto split: sum.splits option.splits if_splits)
qed

lemma quiet_flush_op: "flush_batch t now db = (r, db') \<Longrightarrow> quiet_step now db db'"
  unfolding flush_batch_def flush_batch_in_transaction_def
  by (erule quiet_transact) (auto intro!: quiet_update_jobs quiet_flush)

lemma quiet_resolve:
  assumes "resolve_indeterminate i c t now db = (r, db')"
  shows "quiet_step now db db'"
proof -
  have grow: "quiet_step now db (db\<lparr>db_resolutions := db_resolutions db @ rs\<rparr>)" for rs
    by (auto simp: quiet_step_def list.rel_refl)
  show ?thesis
    using assms unfolding resolve_indeterminate_def
    by (auto split: sum.splits prod.splits elim!: quiet_transact split: option.splits if_splits
        simp: attempt_Inr dest!: quiet_complete_after intro: quiet_step_trans [OF grow])
qed

lemma quiet_complete_steered_tx:
  assumes "complete_steered_tx i tok p turn now db = Inr (u, db')"
  shows "quiet_step now db db'"
proof -
  let ?p = "holds_lease i tok [Executing]"
  obtain c ab where e: "complete_stops_after i now (update_jobs ?p (finish_job now)
      (drop_handoff c (advance_cursor c now (db\<lparr>db_absorptions := ab\<rparr>)))) = Inr db'"
    using assms by (auto simp: complete_steered_tx_def Let_def attempt_Inr split: option.splits if_splits)
  have "quiet_step now (drop_handoff c (advance_cursor c now (db\<lparr>db_absorptions := ab\<rparr>))) db'"
    by (rule quiet_after_update [OF e]) (simp add: holds_lease_def quiet_finish)
  moreover have "quiet_step now db (drop_handoff c (advance_cursor c now (db\<lparr>db_absorptions := ab\<rparr>)))"
    by (simp add: quiet_step_def drop_handoff_def advance_cursor_def list.rel_refl split: option.splits)
  ultimately show ?thesis using quiet_step_trans by blast
qed

lemma quiet_complete_steered: "complete_steered i tok p turn now db = (r, db') \<Longrightarrow> quiet_step now db db'"
  unfolding complete_steered_def
  by (auto split: sum.splits elim!: quiet_transact intro: quiet_complete_steered_tx)

lemma result_ofE:
  assumes "result_of x = (r, db')"
  obtains y where "x = (y, db')"
  using assms by (cases x) (auto simp: result_of_def)

lemmas quiet_ops = quiet_reject quiet_release quiet_mark_executing quiet_start_steer quiet_heartbeat
  quiet_schedule_retry quiet_fail_op quiet_mark_indeterminate quiet_cancel quiet_cancel_active
  quiet_recover quiet_flush_op quiet_resolve quiet_complete_steered

lemma quiet_op:
  assumes "run_job_op dg op db = (r, db')" "\<not> admits_work op"
  shows "quiet_step (op_time op) db db'"
  using assms
  by (cases op) (auto elim!: result_ofE intro: quiet_ops quiet_honor_stop_op)

section \<open>Admission\<close>

text \<open>The invariant of the job table: job identities are unique and every row is well formed.\<close>

definition jobs_ok :: "db \<Rightarrow> bool" where
  "jobs_ok db \<longleftrightarrow> distinct (map pj_job_id (db_jobs db)) \<and> (\<forall>j \<in> set (db_jobs db). job_ok j)"

text \<open>Two jobs that occupy the same root belong to one topic, agent and session generation.\<close>

definition root_exclusive :: "time \<Rightarrow> db \<Rightarrow> bool" where
  "root_exclusive now db \<longleftrightarrow>
     (\<forall>j \<in> set (db_jobs db). \<forall>k \<in> set (db_jobs db).
        occupies_root db now j \<longrightarrow> occupies_root db now k \<longrightarrow>
        scope_of db (pj_topic_id j) \<noteq> None \<longrightarrow> scope_of db (pj_topic_id j) = scope_of db (pj_topic_id k) \<longrightarrow>
        same_turn_identity j k)"

text \<open>An admission: one row of a known job is rewritten, and only the bookkeeping beside it.\<close>

definition admission :: "db \<Rightarrow> db \<Rightarrow> provider_job \<Rightarrow> (provider_job \<Rightarrow> provider_job) \<Rightarrow> bool" where
  "admission db db' c f \<longleftrightarrow> c \<in> set (db_jobs db) \<and> pj_status c \<in> {Queued, Retry_wait} \<and>
     (\<exists>P. P c \<and> db_jobs db' = update_where (\<lambda>j. pj_job_id j = pj_job_id c \<and> P j) f (db_jobs db)) \<and>
     db_topics db' = db_topics db \<and> db_evidence db' = db_evidence db \<and> db_resolutions db' = db_resolutions db \<and>
     db_holds db' = db_holds db \<and> db_stops db' = db_stops db \<and> session_views db' = session_views db"

lemma update_where_single:
  assumes "distinct (map key rows)" "c \<in> set rows" "P c"
  shows "update_where (\<lambda>r. key r = key c \<and> P r) f rows = map (\<lambda>r. if r = c then f c else r) rows"
  unfolding update_where_def
  by (rule map_cong) (use assms distinct_key_eq [OF assms(1)] in auto)

lemma admission_rows:
  assumes "admission db db' c f" "jobs_ok db"
  shows "db_jobs db' = map (\<lambda>r. if r = c then f c else r) (db_jobs db)"
proof -
  obtain P where "P c" "db_jobs db' = update_where (\<lambda>j. pj_job_id j = pj_job_id c \<and> P j) f (db_jobs db)"
      "c \<in> set (db_jobs db)"
    using assms(1) unfolding admission_def by (elim conjE exE)
  then show ?thesis
    using update_where_single [of pj_job_id "db_jobs db" c P f] assms(2) by (simp add: jobs_ok_def)
qed

lemma admission_jobs_ok:
  assumes "admission db db' c f" "jobs_ok db" "moves c (f c)"
  shows "jobs_ok db' \<and> list_all2 moves (db_jobs db) (db_jobs db')"
proof -
  note rows = admission_rows [OF assms(1,2)]
  have c: "job_ok c" using assms(1,2) by (auto simp: admission_def jobs_ok_def)
  have "map pj_job_id (db_jobs db') = map pj_job_id (db_jobs db)"
    unfolding rows using assms(3) by (auto simp: moves_def same_identity_def)
  moreover have "job_ok (f c)" using c assms(3) by (simp add: moves_def)
  moreover have "\<forall>j \<in> set (db_jobs db'). job_ok j"
    using assms(2) \<open>job_ok (f c)\<close> unfolding rows by (auto simp: jobs_ok_def)
  ultimately have "jobs_ok db'" using assms(2) unfolding jobs_ok_def by simp
  moreover have "list_all2 moves (db_jobs db) (db_jobs db')"
    unfolding rows by (auto simp: list_all2_conv_all_nth assms(3))
  ultimately show ?thesis by blast
qed

lemma occupies_later: "occupies_root db t j \<Longrightarrow> now \<le> t \<Longrightarrow> occupies_root db now j"
  by (auto simp: occupies_root_def after_def split: option.splits)

lemma root_exclusive_later: "root_exclusive now db \<Longrightarrow> now \<le> t \<Longrightarrow> root_exclusive t db"
  unfolding root_exclusive_def using occupies_later [of db t _ now] by meson

lemma scope_of_cong: "db_topics db' = db_topics db \<Longrightarrow> scope_of db' = scope_of db"
  by (auto simp: scope_of_def topic_of_def fun_eq_iff)

lemma same_turn_sym: "same_turn_identity a b \<Longrightarrow> same_turn_identity b a"
  by (simp add: same_turn_identity_def)

lemma same_turn_trans: "same_turn_identity a b \<Longrightarrow> same_turn_identity b c \<Longrightarrow> same_turn_identity a c"
  by (simp add: same_turn_identity_def)

lemma admission_exclusive:
  assumes "admission db db' c f" "jobs_ok db" "root_exclusive now db" "same_identity c (f c)"
    and alone: "\<And>k. k \<in> set (db_jobs db) \<Longrightarrow> k \<noteq> c \<Longrightarrow> occupies_root db now k \<Longrightarrow>
      scope_of db (pj_topic_id c) \<noteq> None \<Longrightarrow> scope_of db (pj_topic_id k) = scope_of db (pj_topic_id c) \<Longrightarrow> same_turn_identity k c"
  shows "root_exclusive now db'"
  unfolding root_exclusive_def
proof (intro ballI impI)
  fix j k
  assume jk: "j \<in> set (db_jobs db')" "k \<in> set (db_jobs db')" "occupies_root db' now j" "occupies_root db' now k"
    "scope_of db' (pj_topic_id j) \<noteq> None" "scope_of db' (pj_topic_id j) = scope_of db' (pj_topic_id k)"
  note rows = admission_rows [OF assms(1,2)]
  have "db_topics db' = db_topics db" using assms(1) unfolding admission_def by blast
  then have scope: "scope_of db' = scope_of db" by (rule scope_of_cong)
  have same: "db_evidence db' = db_evidence db" "db_resolutions db' = db_resolutions db"
    using assms(1) unfolding admission_def by blast+
  have occ: "occupies_root db' now x = occupies_root db now x" for x
    by (simp only: occupies_root_def uncertain_def resolved_outcome_def terminal_outcome_def same)
  have fc: "same_turn_identity c (f c)" "pj_topic_id (f c) = pj_topic_id c"
    using assms(4) by (simp_all add: same_identity_def same_turn_identity_def)
  have orig: "\<exists>x \<in> set (db_jobs db). (x \<noteq> c \<and> y = x \<and> occupies_root db now x) \<or> (x = c \<and> y = f c)"
    if "y \<in> set (db_jobs db')" "occupies_root db' now y" for y
    using that rows occ by (auto split: if_splits)
  obtain x where x: "x \<in> set (db_jobs db)" "(x \<noteq> c \<and> j = x \<and> occupies_root db now x) \<or> (x = c \<and> j = f c)"
    using orig [OF jk(1,3)] by blast
  obtain y where y: "y \<in> set (db_jobs db)" "(y \<noteq> c \<and> k = y \<and> occupies_root db now y) \<or> (y = c \<and> k = f c)"
    using orig [OF jk(2,4)] by blast
  have xy: "same_turn_identity x j" "same_turn_identity y k" "pj_topic_id x = pj_topic_id j" "pj_topic_id y = pj_topic_id k"
    using x(2) y(2) fc by (auto simp: same_turn_identity_def)
  have "same_turn_identity x y"
  proof (cases "x = c")
    case True
    show ?thesis
    proof (cases "y = c")
      case False
      then show ?thesis
        using alone [OF y(1)] y(2) True jk(5,6) scope xy(3,4) same_turn_sym by metis
    qed (use True in \<open>simp add: same_turn_identity_def\<close>)
  next
    case False
    show ?thesis
    proof (cases "y = c")
      case True
      then show ?thesis using alone [OF x(1)] x(2) False jk(5,6) scope xy(3,4) by metis
    next
      case other: False
      then show ?thesis
        using assms(3) x y False jk(5,6) scope unfolding root_exclusive_def by metis
    qed
  qed
  then show "same_turn_identity j k"
    using xy same_turn_sym same_turn_trans by blast
qed

text \<open>The tables the eligibility of a job reads; the scheduler's own are not among them.\<close>

definition same_queue :: "db \<Rightarrow> db \<Rightarrow> bool" where
  "same_queue db db' \<longleftrightarrow> db_topics db' = db_topics db \<and> db_sessions db' = db_sessions db \<and>
     db_jobs db' = db_jobs db \<and> db_holds db' = db_holds db \<and> db_continuations db' = db_continuations db \<and>
     db_resolutions db' = db_resolutions db \<and> db_evidence db' = db_evidence db \<and>
     db_checkpoints db' = db_checkpoints db \<and> db_items db' = db_items db \<and> db_results db' = db_results db \<and>
     db_origins db' = db_origins db \<and> db_controls db' = db_controls db \<and>
     db_dispatches db' = db_dispatches db \<and> db_outbox db' = db_outbox db \<and>
     db_hold_dispositions db' = db_hold_dispositions db \<and>
     db_control_dispositions db' = db_control_dispositions db"

lemma same_queue_control:
  assumes "same_queue db db'"
  shows "control_scope_is_clear db' = control_scope_is_clear db"
proof -
  have u: "unsettled_control db' = unsettled_control db"
    using assms by (simp add: same_queue_def fun_eq_iff unsettled_control_def owner_closed_terminal_control_def)
  have r: "retained_roots db' = retained_roots db"
    using assms by (simp add: same_queue_def fun_eq_iff retained_roots_def)
  have s: "sql_resolved_scope db' = sql_resolved_scope db"
    by (simp add: fun_eq_iff sql_resolved_scope_def r)
  show ?thesis
    using assms by (simp add: same_queue_def fun_eq_iff control_scope_is_clear_def control_blocks_scope_def u s)
qed

lemma same_queue_fifo:
  assumes "same_queue db db'"
  shows "job_blocks_topic_fifo db' = job_blocks_topic_fifo db"
proof -
  have i: "disposition_identity db' = disposition_identity db" "final_proof db' = final_proof db"
    using assms by (simp_all add: same_queue_def fun_eq_iff disposition_identity_def final_proof_def result_id_of_def)
  have h: "historical_binding db' = historical_binding db"
    using assms by (simp add: same_queue_def fun_eq_iff historical_binding_def i)
  have f: "final_control_reconciled db' = final_control_reconciled db"
    by (simp add: fun_eq_iff final_control_reconciled_def parked_def h)
  have o: "outbox_delivery_hold_released db' = outbox_delivery_hold_released db" "has_result db' = has_result db"
    using assms by (simp_all add: same_queue_def fun_eq_iff outbox_delivery_hold_released_def result_id_of_def has_result_def)
  show ?thesis
    using assms by (simp add: same_queue_def fun_eq_iff job_blocks_topic_fifo_def
        result_ready_control_reconciled_def f o)
qed

lemma same_queue_eligible:
  assumes "same_queue db db'"
  shows "eligible db' = eligible db"
proof -
  note t = assms [unfolded same_queue_def]
  have s: "in_scope db' = in_scope db" "topic_of db' = topic_of db"
    using t by (simp_all add: fun_eq_iff in_scope_def scope_of_def topic_of_def)
  have p: "pending_hold db' = pending_hold db" "is_continuation db' = is_continuation db" "uncertain db' = uncertain db"
    using t by (simp_all add: fun_eq_iff pending_hold_def is_continuation_def uncertain_def
        resolved_outcome_def terminal_outcome_def)
  have h: "held_before db' = held_before db"
    by (simp add: fun_eq_iff held_before_def p s)
  have o: "topic_order_clear db' = topic_order_clear db" "held_order_clear db' = held_order_clear db"
    using t same_queue_fifo [OF assms] by (simp_all add: fun_eq_iff topic_order_clear_def held_order_clear_def p s h)
  have r: "root_occupant db' = root_occupant db" "external_writer db' = external_writer db"
      "running_dispatch db' = running_dispatch db"
    using t by (simp_all add: fun_eq_iff root_occupant_def occupies_root_def external_writer_def running_dispatch_def p s)
  show ?thesis
    using t by (simp add: fun_eq_iff eligible_def s p o r same_queue_control [OF assms] split: option.split)
qed

lemma same_queue_workers: "same_queue db (db\<lparr>db_workers := ws\<rparr>)"
  by (simp add: same_queue_def)

lemma eligible_alone:
  assumes "eligible db now a c" "k \<in> set (db_jobs db)" "pj_job_id k \<noteq> pj_job_id c" "occupies_root db now k"
  shows "scope_of db (pj_topic_id k) \<noteq> scope_of db (pj_topic_id c)"
proof -
  obtain t where t: "topic_of db (pj_topic_id c) = Some t"
    "\<not> exists_row (root_occupant db now (topic_scope t) c) (db_jobs db)"
    using assms(1) by (auto simp: eligible_def Let_def split: option.splits)
  then have "\<not> root_occupant db now (topic_scope t) c k" using assms(2) by (auto simp: exists_row_iff)
  then show ?thesis using assms(3,4) t(1) by (auto simp: root_occupant_def in_scope_def scope_of_def)
qed

lemma map_filter_Some: "x \<in> set (List.map_filter g xs) \<Longrightarrow> \<exists>y \<in> set xs. g y = Some x"
  by (induction xs) (auto simp: List.map_filter_simps split: option.splits)

lemma choose_job_eligible:
  assumes "choose_job db q caps slots now = Some c"
  shows "c \<in> set (db_jobs db) \<and> eligible db now (lq_agent q) c"
proof -
  have pick: "j \<in> set (db_jobs db) \<and> eligible db now a j" if "next_eligible db now a = Some j" for a j
    using first_by_Some that unfolding next_eligible_def by fast
  show ?thesis
  proof (cases "lq_scheduler_agents q = []")
    case True
    then show ?thesis using assms pick by (simp add: choose_job_def split: option.splits)
  next
    case False
    then obtain g where "first_by contender_order (\<lambda>_. True) (contenders db q caps slots now) = Some (g, c)"
      and own: "pj_agent_id c = lq_agent q"
      using assms by (auto simp: choose_job_def split: option.splits if_splits)
    then have "(g, c) \<in> set (contenders db q caps slots now)" using first_by_Some by fast
    then obtain a where "(if get_or (qp_busy_agents slots) a 0 \<ge> get_or caps a 1 then None
       else map_option (\<lambda>j. (grant_of db a, j)) (next_eligible db now a)) = Some (g, c)"
      using map_filter_Some unfolding contenders_def by fast
    then have "next_eligible db now a = Some c" by (auto split: if_splits)
    then have e: "c \<in> set (db_jobs db)" "eligible db now a c" using pick by blast+
    then have "a = lq_agent q" using own by (simp add: eligible_def)
    then show ?thesis using e by simp
  qed
qed

lemma declare_worker_shape: "\<exists>ws. declare_worker q now db = db\<lparr>db_workers := ws\<rparr>"
  by (cases "lq_scheduler_agents q = []") (auto simp: declare_worker_def Let_def intro: exI [of _ "db_workers db"])

lemma record_grant_shape: "\<exists>gs. record_grant q now db = db\<lparr>db_grants := gs\<rparr>"
  by (cases "lq_scheduler_agents q = []") (auto simp: record_grant_def Let_def intro: exI [of _ "db_grants db"])

lemma lease_tx_effect:
  assumes "lease_tx q caps now tok db = Inr (x, db')"
  shows "(\<exists>ws. x = None \<and> db' = db\<lparr>db_workers := ws\<rparr>) \<or>
    (\<exists>c gs ws. c \<in> set (db_jobs db) \<and> eligible db now (lq_agent q) c \<and>
       db' = update_jobs (\<lambda>j. pj_job_id j = pj_job_id c \<and> pj_status j \<in> {Queued, Retry_wait})
         (grant_lease (lq_worker q) tok (now + seconds (lq_seconds q)) now) (db\<lparr>db_workers := ws\<rparr>)\<lparr>db_grants := gs\<rparr> \<and>
       x = job_of db' (pj_job_id c))"
proof -
  obtain ws where ws: "declare_worker q now db = db\<lparr>db_workers := ws\<rparr>"
    using declare_worker_shape by blast
  let ?db = "db\<lparr>db_workers := ws\<rparr>"
  let ?slots = "read_queue_capacity ?db \<lparr>qc_max_parallel_roots = lq_max_roots q,
            qc_scheduler_agents = lq_scheduler_agents q, qc_agent_capacities = caps\<rparr> now"
  show ?thesis
  proof (cases "x = None \<and> db' = ?db")
    case False
    then obtain c where c: "choose_job ?db q caps ?slots now = Some c"
      using assms by (auto simp: lease_tx_def Let_def ws split: if_splits option.splits)
    let ?p = "\<lambda>j. pj_job_id j = pj_job_id c \<and> pj_status j \<in> {Queued, Retry_wait}"
    let ?db1 = "update_jobs ?p (grant_lease (lq_worker q) tok (now + seconds (lq_seconds q)) now) ?db"
    obtain gs where gs: "record_grant q now ?db1 = ?db1\<lparr>db_grants := gs\<rparr>"
      using record_grant_shape by blast
    have "db' = ?db1\<lparr>db_grants := gs\<rparr> \<and> x = job_of db' (pj_job_id c)"
      using assms c gs False by (auto simp: lease_tx_def Let_def ws split: if_splits option.splits)
    moreover have "c \<in> set (db_jobs db)" "eligible db now (lq_agent q) c"
      using choose_job_eligible [OF c] same_queue_eligible [OF same_queue_workers [of db ws]] by simp_all
    ultimately show ?thesis by blast
  qed blast
qed

end
