(* ===== verification/Job_Machine.thy ===== *)
theory Job_Machine
  imports Job_Lifecycle
begin

text \<open>
  The three operations that admit work, the invariant of the job table over any sequence of
  operations with a clock that does not run backwards, and what the scheduler's lease, the
  start of execution and the heartbeat promise.
\<close>

section \<open>The scheduler's lease\<close>

lemma moves_grant:
  "pj_status c \<in> {Queued, Retry_wait} \<Longrightarrow> moves c (grant_lease w tok e now c)"
  by (auto simp: row_defs grant_lease_def)

lemma moves_grant_steer: "pj_status c = Queued \<Longrightarrow> moves c (grant_steer w tok e now c)"
  by (auto simp: row_defs grant_steer_def)

lemma moves_start_child:
  "pj_status c = Queued \<Longrightarrow> pj_attempt_count c < pj_max_attempts c \<Longrightarrow> pj_lease_owner p \<noteq> None \<Longrightarrow>
   pj_lease_expires_at p \<noteq> None \<Longrightarrow> moves c (start_child p tok now c)"
  by (auto simp: row_defs start_child_def)

lemma job_of_Some: "job_of db i = Some j \<Longrightarrow> j \<in> set (db_jobs db) \<and> pj_job_id j = i"
  by (auto simp: job_of_def dest: find_Some_set)

lemma eligible_open: "eligible db now a c \<Longrightarrow> pj_status c \<in> {Queued, Retry_wait} \<and> pj_agent_id c = a \<and>
    pj_attempt_count c < pj_max_attempts c"
  by (auto simp: eligible_def Let_def available_def split: option.splits)

text \<open>An operation either leaves the work as it is or admits one row that is alone in its root. The row
  is not on hold, and it joins a running turn of its topic or no session writes its root from outside.\<close>

definition entitled :: "db \<Rightarrow> provider_job \<Rightarrow> bool" where
  "entitled db c \<longleftrightarrow> \<not> pending_hold db (pj_job_id c) \<and>
     (exists_row (\<lambda>p. pj_status p = Executing \<and> pj_topic_id p = pj_topic_id c) (db_jobs db) \<or>
      \<not> exists_row (\<lambda>s. external_writer db (case topic_of db (pj_topic_id c) of None \<Rightarrow> [] | Some t \<Rightarrow> topic_scope t) s)
          (db_sessions db))"

definition admits :: "time \<Rightarrow> db \<Rightarrow> db \<Rightarrow> bool" where
  "admits now db db' \<longleftrightarrow> (\<exists>c f. admission db db' c f \<and> moves c (f c) \<and> entitled db c \<and>
     (jobs_ok db \<longrightarrow> root_exclusive now db \<longrightarrow>
       (\<forall>k \<in> set (db_jobs db). k \<noteq> c \<longrightarrow> occupies_root db now k \<longrightarrow> scope_of db (pj_topic_id c) \<noteq> None \<longrightarrow>
          scope_of db (pj_topic_id k) = scope_of db (pj_topic_id c) \<longrightarrow> same_turn_identity k c)))"

lemma admission_update:
  assumes "c \<in> set (db_jobs db)" "pj_status c \<in> S" "S \<subseteq> {Queued, Retry_wait}"
    "db_jobs db' = update_where (\<lambda>j. pj_job_id j = pj_job_id c \<and> pj_status j \<in> S) f (db_jobs db)"
    "db_topics db' = db_topics db" "db_evidence db' = db_evidence db" "db_resolutions db' = db_resolutions db"
    "db_holds db' = db_holds db" "db_stops db' = db_stops db" "session_views db' = session_views db"
  shows "admission db db' c f"
  unfolding admission_def using assms by (intro conjI exI [of _ "\<lambda>j. pj_status j \<in> S"]) auto

lemma lease_effect:
  assumes "lease q now tok db = (r, db')"
  shows "quiet_step now db db' \<or> admits now db db'"
proof -
  have tx: "quiet_step now db db' \<or> admits now db db'" if l: "lease_tx q' caps now tok db = Inr (x, db')" for q' caps x
    using lease_tx_effect [OF l]
  proof (elim disjE exE conjE)
    fix ws assume "db' = db\<lparr>db_workers := ws\<rparr>"
    then show ?thesis by (simp add: quiet_step_def list.rel_refl)
  next
    fix c gs ws
    let ?f = "grant_lease (lq_worker q') tok (now + seconds (lq_seconds q')) now"
    assume c: "c \<in> set (db_jobs db)" "eligible db now (lq_agent q') c"
      and d: "db' = update_jobs (\<lambda>j. pj_job_id j = pj_job_id c \<and> pj_status j \<in> {Queued, Retry_wait}) ?f
                (db\<lparr>db_workers := ws\<rparr>)\<lparr>db_grants := gs\<rparr>"
    note q = eligible_open [OF c(2)]
    have "admission db db' c ?f"
      using c(1) q by (intro admission_update [of _ _ "{Queued, Retry_wait}"]) (auto simp: d update_jobs_def)
    moreover have "moves c (?f c)" using q moves_grant by blast
    moreover have "scope_of db (pj_topic_id k) \<noteq> scope_of db (pj_topic_id c)"
      if "jobs_ok db" "k \<in> set (db_jobs db)" "k \<noteq> c" "occupies_root db now k" for k
      using that eligible_alone [OF c(2) that(2) _ that(4)] distinct_key_eq [OF _ that(2) c(1)]
      unfolding jobs_ok_def by blast
    moreover have "entitled db c"
      using c(2) by (auto simp: entitled_def eligible_def Let_def split: option.splits)
    ultimately show ?thesis unfolding admits_def by blast
  qed
  show ?thesis
    using assms unfolding lease_def
    by (auto split: sum.splits prod.splits elim!: transact_cases dest: tx)
qed

section \<open>The steering lease and the correction claim\<close>

lemma beside_parent:
  assumes "p \<in> set (db_jobs db)" "pj_status p = Executing" "same_turn_identity c p"
    and "root_exclusive now db" "k \<in> set (db_jobs db)" "occupies_root db now k"
    and "scope_of db (pj_topic_id c) \<noteq> None" "scope_of db (pj_topic_id k) = scope_of db (pj_topic_id c)"
  shows "same_turn_identity k c"
proof -
  have "occupies_root db now p" using assms(2) by (simp add: occupies_root_def)
  moreover have "scope_of db (pj_topic_id p) = scope_of db (pj_topic_id c)"
    using assms(3) by (simp add: same_turn_identity_def)
  ultimately have "same_turn_identity k p"
    using assms(1,4-8) unfolding root_exclusive_def by metis
  then show ?thesis using assms(3) by (simp add: same_turn_identity_def)
qed

lemma steer_candidate_Some:
  assumes "steer_candidate db p = Some c"
  shows "c \<in> set (db_jobs db) \<and> pj_topic_id c = pj_topic_id p"
  using assms by (auto simp: steer_candidate_def split: option.splits dest: find_Some_set)

lemma steer_admits:
  assumes "p \<in> set (db_jobs db)" "pj_status p = Executing" "steer_candidate db p = Some c" "steerable db p c now"
  shows "admits now db (update_jobs (\<lambda>j. pj_job_id j = pj_job_id c \<and> pj_status j = Queued)
     (grant_steer w tok e now) db)" (is "admits now db ?db'")
proof -
  note c = steer_candidate_Some [OF assms(3)]
  have s: "pj_status c = Queued" "same_turn_identity c p"
    using assms(4) c by (auto simp: steerable_def same_turn_settings_def same_turn_identity_def)
  have "admission db ?db' c (grant_steer w tok e now)"
    using c s by (intro admission_update [of _ _ "{Queued}"]) (auto simp: update_jobs_def)
  moreover have "entitled db c"
    using assms(1,2,4) c by (auto simp: entitled_def steerable_def exists_row_iff)
  ultimately show ?thesis
    unfolding admits_def using moves_grant_steer [OF s(1)] beside_parent [OF assms(1,2) s(2)] by blast
qed

lemma steer_effect:
  assumes "lease_steer_followup pr p w n now tok db = (r, db')"
  shows "quiet_step now db db' \<or> admits now db db'"
proof -
  have tx: "db' = db \<or> admits now db db'" if t: "lease_steer_tx pr p wk n now tok db = Inr (x, db')" for wk x
  proof (cases "db' = db")
    case False
    then obtain j c where j: "find (\<lambda>j. pj_job_id j = p \<and> pj_status j = Executing) (db_jobs db) = Some j"
      and c: "steer_candidate db j = Some c" "steerable db j c now"
      and d: "db' = update_jobs (\<lambda>k. pj_job_id k = pj_job_id c \<and> pj_status k = Queued)
           (grant_steer wk tok (now + seconds n) now) db"
      using t by (auto simp: lease_steer_tx_def Let_def attempt_Inr split: option.splits if_splits)
    show ?thesis using find_Some_set [OF j] steer_admits [OF _ _ c] d by blast
  qed simp
  show ?thesis
    using assms unfolding lease_steer_followup_def
    by (auto split: sum.splits elim!: transact_cases dest: tx)
qed

lemma correction_owner_Inr:
  assumes "correction_owner db parent tok now = Inr r"
  shows "co_job r \<in> set (db_jobs db) \<and> pj_status (co_job r) = Executing \<and> pj_job_id (co_job r) = parent"
  using assms
  by (auto simp: correction_owner_def owner_row_def split: option.splits if_splits prod.splits dest!: find_Some_set)

lemma next_followup_Some: "next_followup db p = Some c \<Longrightarrow> c \<in> set (db_jobs db) \<and> pj_topic_id c = pj_topic_id p"
  using first_by_Some unfolding next_followup_def by fast

lemma admits_notices:
  assumes "admits now db m" "notices_only m db'"
  shows "admits now db db'"
  using assms unfolding admits_def admission_def by (auto simp: notices_only_sel)

lemma jobs_ok_row: "jobs_ok db \<Longrightarrow> j \<in> set (db_jobs db) \<Longrightarrow> job_ok j"
  by (simp add: jobs_ok_def)

lemma reserve_effect:
  assumes "reserve_child dg r run c ctok u now nid db = Inr (x, db')"
    and own: "co_job r \<in> set (db_jobs db)" "pj_status (co_job r) = Executing"
    and c: "c \<in> set (db_jobs db)" "correctable db r c now" and ok: "jobs_ok db"
  shows "db' = db \<or> admits now db db'"
proof (cases "db' = db")
  case False
  let ?p = "\<lambda>j. pj_job_id j = pj_job_id c \<and> pj_status j = Queued" let ?f = "start_child (co_job r) ctok now"
  obtain cs m where m: "m = db\<lparr>db_children := cs, db_jobs := update_where ?p ?f (db_jobs db)\<rparr>"
      and n: "executing_in_transaction (pj_job_id c) now nid m = Inr db'"
    using assms(1) False by (auto simp: reserve_child_def Let_def attempt_Inr split: if_splits)
  have s: "pj_status c = Queued" "same_turn_identity c (co_job r)" "pj_attempt_count c < pj_max_attempts c"
    using c(2) by (auto simp: correctable_def same_turn_settings_def same_turn_identity_def)
  have "pj_lease_owner (co_job r) \<noteq> None" "pj_lease_expires_at (co_job r) \<noteq> None"
    using jobs_ok_row [OF ok own(1)] own(2) by (auto simp: job_ok_def lease_columns_ok_def)
  then have "moves c (?f c)" using s moves_start_child by blast
  moreover have "admission db m c ?f"
    using c(1) s(1) by (intro admission_update [of _ _ "{Queued}"]) (auto simp: m)
  moreover have "entitled db c"
    using own c(2) by (auto simp: entitled_def correctable_def exists_row_iff)
  ultimately have "admits now db m"
    unfolding admits_def using beside_parent [OF own s(2)] by blast
  then show ?thesis using admits_notices executing_only [OF n] by blast
qed simp

lemma claim_effect:
  assumes "transact (correction_claim dg parent tok ctok u now nid) db = (r, db')" "jobs_ok db"
  shows "quiet_step now db db' \<or> admits now db db'"
proof -
  have tx: "db' = db \<or> admits now db db'" if "correction_claim dg parent tok ctok u now nid db = Inr (x, db')" for x
    using that assms(2)
    by (auto simp: correction_claim_def Let_def attempt_Inr split: sum.splits option.splits if_splits
        dest!: correction_owner_Inr next_followup_Some dest: reserve_effect)
  show ?thesis
    using assms(1) by (cases rule: transact_cases) (auto dest: tx)
qed

section \<open>The invariant over any sequence of operations\<close>

lemma job_op_effect:
  assumes "run_job_op dg op db = (r, db')" "jobs_ok db"
  shows "quiet_step (op_time op) db db' \<or> admits (op_time op) db db'"
proof (cases "admits_work op")
  case True
  then show ?thesis
    using assms by (cases op) (auto elim!: result_ofE dest: lease_effect steer_effect claim_effect)
qed (use assms quiet_op in blast)

lemma moves_all_ok: "list_all2 moves js ks \<Longrightarrow> \<forall>j \<in> set js. job_ok j \<Longrightarrow> \<forall>k \<in> set ks. job_ok k"
  by (induction rule: list_all2_induct) (auto simp: moves_def)

lemma quiet_jobs_ok:
  assumes "quiet_step now db db'" "jobs_ok db"
  shows "jobs_ok db' \<and> list_all2 moves (db_jobs db) (db_jobs db')"
proof -
  have q: "list_all2 (quiet now) (db_jobs db) (db_jobs db')" using assms(1) by (simp add: quiet_step_def)
  then have m: "list_all2 moves (db_jobs db) (db_jobs db')" by (rule list_all2_mono) (simp add: quiet_moves)
  then have "map pj_job_id (db_jobs db') = map pj_job_id (db_jobs db)"
    by (induction rule: list_all2_induct) (auto simp: moves_def same_identity_def)
  moreover have "\<forall>j \<in> set (db_jobs db). job_ok j" using assms(2) by (simp add: jobs_ok_def)
  then have "\<forall>k \<in> set (db_jobs db'). job_ok k"
    by (rule moves_all_ok [OF m])
  ultimately show ?thesis using assms(2) m unfolding jobs_ok_def by simp
qed

lemma quiet_origin:
  assumes "quiet_step now db db'" "k \<in> set (db_jobs db')"
  obtains j where "j \<in> set (db_jobs db)" "quiet now j k"
  using assms unfolding quiet_step_def list_all2_conv_all_nth in_set_conv_nth by metis

lemma quiet_occupies:
  assumes "quiet_step now db db'" "quiet now j k" "occupies_root db' now k"
  shows "occupies_root db now j"
proof -
  have id: "pj_job_id k = pj_job_id j" using assms(2) by (simp add: quiet_def moves_def same_identity_def)
  have "uncertain db' k \<Longrightarrow> occupies_root db now j"
  proof -
    assume u: "uncertain db' k"
    then have "pj_status j = Indeterminate \<or> running now j" using assms(2) by (simp add: uncertain_def quiet_def)
    moreover have "pj_status j = Indeterminate \<Longrightarrow> uncertain db j"
      using u assms(1) id
      by (auto simp: uncertain_def quiet_step_def resolved_outcome_def terminal_outcome_def exists_row_iff)
    ultimately show ?thesis by (auto simp: occupies_root_def running_def)
  qed
  then show ?thesis
    using assms(2,3) by (auto simp: occupies_root_def quiet_def running_def)
qed

lemma quiet_exclusive:
  assumes "quiet_step now db db'" "root_exclusive now db"
  shows "root_exclusive now db'"
  unfolding root_exclusive_def
proof (intro ballI impI)
  fix j k assume a: "j \<in> set (db_jobs db')" "k \<in> set (db_jobs db')" "occupies_root db' now j" "occupies_root db' now k"
    "scope_of db' (pj_topic_id j) \<noteq> None" "scope_of db' (pj_topic_id j) = scope_of db' (pj_topic_id k)"
  have scope: "scope_of db' = scope_of db"
    using assms(1) by (intro scope_of_cong) (simp add: quiet_step_def)
  obtain x y where x: "x \<in> set (db_jobs db)" "quiet now x j" and y: "y \<in> set (db_jobs db)" "quiet now y k"
    using quiet_origin [OF assms(1)] a(1,2) by metis
  have t: "pj_topic_id j = pj_topic_id x" "pj_topic_id k = pj_topic_id y" and
      i: "same_turn_identity x j" "same_turn_identity y k"
    using x(2) y(2) by (simp_all add: quiet_def moves_def same_identity_def same_turn_identity_def)
  have "same_turn_identity x y"
    using assms(2) x(1) y(1) quiet_occupies [OF assms(1) x(2) a(3)] quiet_occupies [OF assms(1) y(2) a(4)]
      a(5,6) t scope unfolding root_exclusive_def by metis
  then show "same_turn_identity j k" using i by (simp add: same_turn_identity_def)
qed

definition queue_ok :: "time \<Rightarrow> db \<Rightarrow> bool" where
  "queue_ok now db \<longleftrightarrow> jobs_ok db \<and> root_exclusive now db"

text \<open>What every operation does to jobs and stops.\<close>

definition work_moves :: "db \<Rightarrow> db \<Rightarrow> bool" where
  "work_moves db db' \<longleftrightarrow> list_all2 moves (db_jobs db) (db_jobs db') \<and> db_evidence db' = db_evidence db \<and>
     db_holds db' = db_holds db \<and> set (db_resolutions db) \<subseteq> set (db_resolutions db') \<and>
     list_all2 (stop_moves db') (db_stops db) (db_stops db')"

lemma work_moves_refl [simp]: "work_moves db db"
  by (simp add: work_moves_def list.rel_refl)

lemma work_moves_waits: "work_moves db db' \<Longrightarrow> stop_waits db' s \<Longrightarrow> stop_waits db s"
  by (rule stop_waits_moves [of db db']) (simp_all add: work_moves_def)

lemma work_moves_trans:
  assumes "work_moves a b" "work_moves b c"
  shows "work_moves a c"
proof -
  have "list_all2 (stop_moves b) (db_stops a) (db_stops b)" "list_all2 (stop_moves c) (db_stops b) (db_stops c)"
    using assms by (simp_all add: work_moves_def)
  then have "list_all2 (stop_moves c) (db_stops a) (db_stops c)"
    by (rule list_all2_trans [rotated]) (rule stop_moves_trans, assumption+, rule work_moves_waits [OF assms(2)])
  moreover have "list_all2 moves (db_jobs a) (db_jobs c)"
    using assms list_all2_trans3 [of moves] moves_trans unfolding work_moves_def by metis
  ultimately show ?thesis using assms unfolding work_moves_def by auto
qed

text \<open>A completed stop covers no work that can still start or run, or whose end is unknown.\<close>

definition stops_settled :: "db \<Rightarrow> bool" where
  "stops_settled db \<longleftrightarrow> (\<forall>s \<in> set (db_stops db). \<not> st_pending s \<longrightarrow> \<not> stop_waits db s)"

lemma settled_moves:
  assumes "work_moves db db'" "stops_settled db"
  shows "stops_settled db'"
  unfolding stops_settled_def
proof (intro ballI impI)
  fix s assume s: "s \<in> set (db_stops db')" "\<not> st_pending s"
  obtain s0 where s0: "s0 \<in> set (db_stops db)" "stop_moves db' s0 s"
    using assms(1) s(1) unfolding work_moves_def list_all2_conv_all_nth in_set_conv_nth by metis
  show "\<not> stop_waits db' s"
  proof (cases "s = s0")
    case True
    then show ?thesis using assms(2) s0(1) s(2) work_moves_waits [OF assms(1)] unfolding stops_settled_def by blast
  next
    case False
    then show ?thesis using s0(2) by (auto simp: stop_moves_def stop_waits_def stop_covers_def)
  qed
qed

lemma queue_ok_step:
  assumes "run_job_op dg op db = (r, db')" "queue_ok now db" "now \<le> op_time op"
  shows "queue_ok (op_time op) db' \<and> work_moves db db'"
proof -
  have ok: "jobs_ok db" "root_exclusive (op_time op) db"
    using assms(2,3) root_exclusive_later unfolding queue_ok_def by blast+
  show ?thesis
    using job_op_effect [OF assms(1) ok(1)]
  proof
    assume q: "quiet_step (op_time op) db db'"
    have "work_moves db db'"
      using quiet_jobs_ok [OF q ok(1)] q by (simp add: work_moves_def quiet_step_def)
    then show ?thesis using quiet_jobs_ok [OF q ok(1)] quiet_exclusive [OF q ok(2)] by (simp add: queue_ok_def)
  next
    assume "admits (op_time op) db db'"
    then obtain c f where a: "admission db db' c f" "moves c (f c)" and
      alone: "\<forall>k \<in> set (db_jobs db). k \<noteq> c \<longrightarrow> occupies_root db (op_time op) k \<longrightarrow> scope_of db (pj_topic_id c) \<noteq> None \<longrightarrow>
          scope_of db (pj_topic_id k) = scope_of db (pj_topic_id c) \<longrightarrow> same_turn_identity k c"
      using ok unfolding admits_def by blast
    have "same_identity c (f c)" using a(2) by (simp add: moves_def)
    moreover have "db_evidence db' = db_evidence db" "db_resolutions db' = db_resolutions db"
      "db_holds db' = db_holds db" "db_stops db' = db_stops db"
      using a(1) unfolding admission_def by blast+
    ultimately show ?thesis
      using admission_jobs_ok [OF a(1) ok(1) a(2)] admission_exclusive [OF a(1) ok] alone
      by (simp add: queue_ok_def work_moves_def list.rel_refl)
  qed
qed

text \<open>A run: the operations one after another, with the clock readings they took.\<close>

fun run_job_ops :: "(string \<Rightarrow> string) \<Rightarrow> job_op list \<Rightarrow> db \<Rightarrow> db" where
  "run_job_ops dg [] db = db"
| "run_job_ops dg (op # ops) db = run_job_ops dg ops (snd (run_job_op dg op db))"

lemma queue_ok_run:
  assumes "queue_ok now db" "sorted (now # map op_time ops)"
  shows "queue_ok (last (now # map op_time ops)) (run_job_ops dg ops db) \<and>
    work_moves db (run_job_ops dg ops db)"
  using assms
proof (induction ops arbitrary: now db)
  case Nil
  then show ?case by simp
next
  case (Cons op ops)
  obtain r m where m: "run_job_op dg op db = (r, m)" by (cases "run_job_op dg op db")
  note step = queue_ok_step [OF m Cons.prems(1)]
  have s: "queue_ok (op_time op) m" "work_moves db m"
    using step Cons.prems(2) by auto
  have t: "queue_ok (last (op_time op # map op_time ops)) (run_job_ops dg ops m)"
      "work_moves m (run_job_ops dg ops m)"
    using Cons.IH [OF s(1)] Cons.prems(2) by auto
  show ?case
    using t(1) work_moves_trans [OF s(2) t(2)] m by simp
qed

end
