(* ===== verification/Job_Properties.thy ===== *)
theory Job_Properties
  imports Job_Machine
begin

text \<open>
  What the provider queue promises its callers: one owner per execution root, the status graph,
  completed stops, and the exact outcome of the lease, of the start, of the heartbeat and of the
  recovery of stale leases.
\<close>

section \<open>The invariants of the queue\<close>

lemma queue_ok_empty_holders:
  assumes "distinct (map pj_job_id js)" "\<forall>j \<in> set js. job_ok j \<and> pj_status j \<in> {Queued, Retry_wait, Completed}"
  shows "queue_ok now (example_hub js)"
  using assms
  by (auto simp: queue_ok_def jobs_ok_def root_exclusive_def occupies_root_def uncertain_def example_hub_def)

lemma root_exclusiveD:
  "root_exclusive t db \<Longrightarrow> a \<in> set (db_jobs db) \<Longrightarrow> b \<in> set (db_jobs db) \<Longrightarrow> occupies_root db t a \<Longrightarrow>
   occupies_root db t b \<Longrightarrow> scope_of db (pj_topic_id a) = Some s \<Longrightarrow> scope_of db (pj_topic_id b) = Some s \<Longrightarrow>
   same_turn_identity a b"
  unfolding root_exclusive_def by simp

text \<open>At any moment after any sequence of queue operations, two jobs that occupy the same
  execution root belong to the same topic, agent, session and session generation.\<close>

theorem one_owner_per_root:
  assumes "queue_ok now db" "sorted (now # map op_time ops)" "last (now # map op_time ops) \<le> t"
    and "db' = run_job_ops dg ops db"
    and "a \<in> set (db_jobs db')" "b \<in> set (db_jobs db')" "occupies_root db' t a" "occupies_root db' t b"
    and "scope_of db' (pj_topic_id a) = Some s" "scope_of db' (pj_topic_id b) = Some s"
  shows "pj_topic_id a = pj_topic_id b \<and> pj_agent_id a = pj_agent_id b \<and>
     pj_session_id a = pj_session_id b \<and> pj_session_generation a = pj_session_generation b"
proof -
  have "root_exclusive t db'"
    using queue_ok_run [OF assms(1,2), of dg] root_exclusive_later [OF _ assms(3)]
    unfolding queue_ok_def assms(4) by blast
  then have "same_turn_identity a b"
    by (rule root_exclusiveD) (use assms(5-10) in simp_all)
  then show ?thesis by (simp add: same_turn_identity_def)
qed

lemma example_running_ok: "queue_ok 0 (example_hub [example_job ''a'' 1 Executing, example_job ''b'' 2 Leased])"
  by (auto simp: queue_ok_def jobs_ok_def root_exclusive_def example_hub_def example_job_def same_turn_identity_def
      job_ok_def lease_columns_ok_def attempts_ok_def)

theorem one_owner_per_root_witness:
  "\<exists>db' a b. db' = run_job_ops (\<lambda>s. s) [Do_flush 1 5] (example_hub [example_job ''a'' 1 Executing, example_job ''b'' 2 Leased]) \<and>
     a \<in> set (db_jobs db') \<and> b \<in> set (db_jobs db') \<and> a \<noteq> b \<and> occupies_root db' 9 a \<and> occupies_root db' 9 b \<and>
     pj_session_id a = pj_session_id b"
proof -
  let ?db = "example_hub [example_job ''a'' 1 Executing, example_job ''b'' 2 Leased]"
  let ?db' = "run_job_ops (\<lambda>s. s) [Do_flush 1 5] ?db"
  have d: "?db' = ?db"
    by (simp add: flush_batch_def flush_batch_in_transaction_def transact_def result_of_def update_jobs_def
        update_where_def batched_def example_hub_def example_job_def empty_db_def)
  have ab: "example_job ''a'' 1 Executing \<in> set (db_jobs ?db')" "example_job ''b'' 2 Leased \<in> set (db_jobs ?db')"
    unfolding d by (simp_all add: example_hub_def)
  have occ: "occupies_root ?db' 9 (example_job ''a'' 1 Executing)" "occupies_root ?db' 9 (example_job ''b'' 2 Leased)"
    unfolding d by (simp_all add: occupies_root_def example_job_def after_def)
  have sc: "scope_of ?db' 1 = Some ''root:/p''"
    unfolding d by (simp add: scope_of_def topic_of_def example_hub_def example_topic_def topic_scope_def)
  have tp: "pj_topic_id (example_job i n st) = 1" for i n st by (simp add: example_job_def Let_def)
  have "pj_session_id (example_job ''a'' 1 Executing) = pj_session_id (example_job ''b'' 2 Leased)"
    using one_owner_per_root [OF example_running_ok, of "[Do_flush 1 5]" 9 ?db' "\<lambda>s. s", OF _ _ refl ab occ] sc tp
    by simp
  moreover have "example_job ''a'' 1 Executing \<noteq> example_job ''b'' 2 Leased"
    by (simp add: example_job_def Let_def)
  ultimately show ?thesis using ab occ by blast
qed

text \<open>C10. Over any sequence of queue operations every job keeps its identity, moves along the
  edges of the status graph, never leaves a final status, and keeps the constraint on its lease
  columns and the bound on its attempts.\<close>

theorem job_history_follows_graph:
  assumes "queue_ok now db" "sorted (now # map op_time ops)"
  shows "list_all2 (\<lambda>j k. pj_job_id k = pj_job_id j \<and> pj_session_id k = pj_session_id j \<and>
       status_edge\<^sup>*\<^sup>* (pj_status j) (pj_status k) \<and>
       (pj_status j \<in> {Completed, Failed, Cancelled, Indeterminate} \<longrightarrow> pj_status k = pj_status j) \<and>
       lease_columns_ok k \<and> 0 \<le> pj_attempt_count k \<and> pj_attempt_count k \<le> pj_max_attempts k)
     (db_jobs db) (db_jobs (run_job_ops dg ops db))"
proof -
  let ?db = "run_job_ops dg ops db"
  have m: "list_all2 moves (db_jobs db) (db_jobs ?db)" and ok: "\<forall>k \<in> set (db_jobs ?db). job_ok k"
    using queue_ok_run [OF assms, of dg] by (auto simp: work_moves_def queue_ok_def jobs_ok_def)
  show ?thesis
  proof (rule list.rel_mono_strong [OF m])
    fix j k assume jk: "moves j k" "k \<in> set (db_jobs ?db)"
    have "job_ok k" using ok jk(2) by blast
    then show "pj_job_id k = pj_job_id j \<and> pj_session_id k = pj_session_id j \<and>
       status_edge\<^sup>*\<^sup>* (pj_status j) (pj_status k) \<and>
       (pj_status j \<in> {Completed, Failed, Cancelled, Indeterminate} \<longrightarrow> pj_status k = pj_status j) \<and>
       lease_columns_ok k \<and> 0 \<le> pj_attempt_count k \<and> pj_attempt_count k \<le> pj_max_attempts k"
      using jk(1) moves_final [OF jk(1)]
      by (simp add: moves_def same_identity_def job_ok_def attempts_ok_def final_status_def)
  qed
qed

definition example_request :: lease_request where
  "example_request = \<lparr>lq_agent = ''codex'', lq_worker = ''w'', lq_seconds = 60, lq_max_roots = 2,
     lq_scheduler_agents = [], lq_capacities = []\<rparr>"

lemma stripped: "py_strip ''codex'' = ''codex''" "py_strip ''w'' = ''w''"
  by (simp_all add: py_strip_def py_space_def)

lemma example_choice:
  "next_eligible (example_hub [example_job ''a'' 1 Queued]) 5 ''codex'' = Some (example_job ''a'' 1 Queued)"
  by (simp add: next_eligible_def eligible_def example_hub_def example_job_def example_topic_def empty_db_def topic_of_def
     control_scope_is_clear_def available_def pending_hold_def topic_order_clear_def held_order_clear_def exists_row_def
     root_occupant_def held_before_def Let_def)

lemma example_lease:
  "\<exists>db' j. lease example_request 5 ''t'' (example_hub [example_job ''a'' 1 Queued]) = (Inr (Some j), db') \<and> pj_job_id j = ''a''"
proof -
  have v: "valid_request example_request = Inr (example_request, Map.empty)"
    by (simp add: valid_request_def example_request_def bounded_def stripped Let_def attempt_check)
  have c: "choose_job (example_hub [example_job ''a'' 1 Queued]) example_request Map.empty slots 5 = Some (example_job ''a'' 1 Queued)" for slots
    using example_choice by (simp add: choose_job_def example_request_def)
  have s: "live_jobs (example_hub [example_job ''a'' 1 Queued]) 5 = []"
    by (simp add: live_jobs_def live_lease_def example_hub_def example_job_def Let_def)
  have n: "declare_worker example_request t db = db" "record_grant example_request t db = db" for t db
    by (simp_all add: declare_worker_def record_grant_def example_request_def)
  have q: "lq_max_roots example_request = 2" "lq_agent example_request = ''codex''" "lq_scheduler_agents example_request = []"
    by (simp_all add: example_request_def)
  have k: "qp_occupied (read_queue_capacity db c 5) = int (length (occupied_scopes db 5))"
      "qp_effective (read_queue_capacity db c 5) = effective_capacity db c 5" 
      "qp_busy_workers (read_queue_capacity db c 5) = remdups (List.map_filter pj_lease_owner (live_jobs db 5))"
      "qp_busy_agents (read_queue_capacity db c 5) = busy_agents db 5" for db c
    by (simp_all add: read_queue_capacity_def)
  show ?thesis
    by (simp add: lease_def v transact_def lease_tx_def n Let_def c k q get_or_busy busy_count_def occupied_scopes_def
       effective_capacity_def s map_filter_simps get_or_def busy_agents_def)
      (simp add: count_jobs_def count_where_def example_hub_def example_job_def update_jobs_def update_where_def job_of_def grant_lease_def)
qed

theorem job_history_follows_graph_witness:
  "\<exists>db. queue_ok 0 db \<and> list_all2 (\<lambda>j k. status_edge\<^sup>*\<^sup>* (pj_status j) (pj_status k))
     (db_jobs db) (db_jobs (run_job_ops (\<lambda>s. s) [Do_lease example_request 5 ''t'', Do_release ''a'' ''t'' 6] db))"
proof -
  have ok: "queue_ok 0 (example_hub [example_job ''a'' 1 Queued, example_job ''b'' 2 Queued])"
    by (rule queue_ok_empty_holders) (auto simp: example_job_def job_ok_def lease_columns_ok_def attempts_ok_def)
  have "sorted (0 # map op_time [Do_lease example_request 5 ''t'', Do_release ''a'' ''t'' 6])" by simp
  from job_history_follows_graph [OF ok this, of "\<lambda>s. s"] ok show ?thesis
    by (intro exI conjI) (assumption, erule list.rel_mono_strong, blast)
qed

text \<open>C11. An emergency stop that is recorded as completed stays truthful: after any sequence of
  queue operations no job it covers is waiting, leased, running or unresolved.\<close>

theorem completed_stop_is_final:
  assumes "queue_ok now db" "sorted (now # map op_time ops)"
    and "\<forall>s \<in> set (db_stops db). \<not> st_pending s \<longrightarrow> \<not> stop_waits db s"
  shows "\<forall>s \<in> set (db_stops (run_job_ops dg ops db)). \<not> st_pending s \<longrightarrow>
     (\<forall>j \<in> set (db_jobs (run_job_ops dg ops db)). stop_covers (run_job_ops dg ops db) s j \<longrightarrow>
        \<not> unfinished (run_job_ops dg ops db) j)"
proof -
  have "work_moves db (run_job_ops dg ops db)" using queue_ok_run [OF assms(1,2)] by blast
  from settled_moves [OF this] assms(3) have "stops_settled (run_job_ops dg ops db)"
    by (simp add: stops_settled_def)
  then show ?thesis by (auto simp: stops_settled_def stop_waits_def exists_row_iff)
qed

definition example_stop :: provider_stop where
  "example_stop = \<lparr>st_request_id = ''s1'', st_topic_id = 1, st_chat_id = 7, st_message_id = 9,
     st_target_agent_id = ''codex'', st_pending = True, st_cancelled_queued_count = 0, st_created_at = 9,
     st_completed_at = None\<rparr>"

definition stopped_hub :: "provider_job list \<Rightarrow> db" where
  "stopped_hub js = (example_hub js)\<lparr>db_stops := [example_stop]\<rparr>"

lemma stopped_hub_ok:
  "queue_ok 0 (stopped_hub [example_job ''a'' 1 Queued, example_job ''b'' 2 Leased])"
  "jobs_ok (stopped_hub [example_job ''a'' 1 Queued, example_job ''b'' 2 Leased])"
  by (auto simp: queue_ok_def jobs_ok_def root_exclusive_def stopped_hub_def example_hub_def example_job_def
      same_turn_identity_def job_ok_def lease_columns_ok_def attempts_ok_def)

theorem completed_stop_is_final_witness:
  "\<exists>db'. db' = run_job_ops (\<lambda>s. s) [Do_cancel ''a'' 10, Do_release ''b'' ''t'' 11, Do_cancel ''b'' 12]
       (stopped_hub [example_job ''a'' 1 Queued, example_job ''b'' 2 Leased]) \<and>
     (\<forall>s \<in> set (db_stops db'). \<not> st_pending s \<longrightarrow> (\<forall>j \<in> set (db_jobs db'). stop_covers db' s j \<longrightarrow> \<not> unfinished db' j))"
proof -
  let ?ops = "[Do_cancel ''a'' 10, Do_release ''b'' ''t'' 11, Do_cancel ''b'' 12]"
  have "sorted (0 # map op_time ?ops)" by simp
  moreover have "\<forall>s \<in> set (db_stops (stopped_hub [example_job ''a'' 1 Queued, example_job ''b'' 2 Leased])).
      \<not> st_pending s \<longrightarrow> \<not> stop_waits (stopped_hub [example_job ''a'' 1 Queued, example_job ''b'' 2 Leased]) s"
    by (simp add: stopped_hub_def example_stop_def)
  ultimately show ?thesis using completed_stop_is_final [OF stopped_hub_ok(1), of ?ops "\<lambda>s. s"] by blast
qed

section \<open>The scheduler's lease\<close>

lemma queue_order_linear: "queue_order a b \<or> queue_order b a"
  by (auto simp: queue_order_def)

lemma queue_order_trans: "queue_order a b \<Longrightarrow> queue_order b c \<Longrightarrow> queue_order a c"
  unfolding queue_order_def by (rule order_trans)

lemma next_eligible_least:
  "next_eligible db now a = Some c \<Longrightarrow> k \<in> set (db_jobs db) \<Longrightarrow> eligible db now a k \<Longrightarrow> queue_order c k"
  unfolding next_eligible_def
  by (rule first_by_least [of queue_order "eligible db now a" "db_jobs db" c k])
    (assumption | rule queue_order_linear | erule (1) queue_order_trans)+

lemma choose_job_next:
  assumes "choose_job db q caps slots now = Some c"
  shows "next_eligible db now (lq_agent q) = Some c"
proof (cases "lq_scheduler_agents q = []")
  case True
  then show ?thesis using assms by (simp add: choose_job_def split: option.splits)
next
  case False
  then obtain g where "first_by contender_order (\<lambda>_. True) (contenders db q caps slots now) = Some (g, c)"
    and own: "pj_agent_id c = lq_agent q"
    using assms by (auto simp: choose_job_def split: option.splits if_splits)
  then have "(g, c) \<in> set (contenders db q caps slots now)" using first_by_Some by fast
  then obtain a where "(if get_or (qp_busy_agents slots) a 0 \<ge> get_or caps a 1 then None
     else map_option (\<lambda>j. (grant_of db a, j)) (next_eligible db now a)) = Some (g, c)"
    using map_filter_Some unfolding contenders_def by fast
  then have n: "next_eligible db now a = Some c" by (auto split: if_splits)
  then have "a = lq_agent q"
    using own first_by_Some unfolding next_eligible_def eligible_def by fast
  then show ?thesis using n by simp
qed

lemma occupied_same: "db_jobs db' = db_jobs db \<Longrightarrow> db_topics db' = db_topics db \<Longrightarrow>
    occupied_scopes db' now = occupied_scopes db now"
  by (simp add: occupied_scopes_def live_jobs_def scope_of_def [abs_def] topic_of_def)

lemma occupied_after_one:
  assumes "\<And>k. k \<in> set (db_jobs db') \<Longrightarrow> k \<in> set (db_jobs db) \<or> pj_topic_id k = t" "db_topics db' = db_topics db"
  shows "length (occupied_scopes db' now) \<le> Suc (length (occupied_scopes db now))"
proof -
  have s: "scope_of db' = scope_of db" using assms(2) by (rule scope_of_cong)
  have "set (occupied_scopes db' now) \<subseteq> set (occupied_scopes db now) \<union> {the (scope_of db t)}"
  proof
    fix x assume "x \<in> set (occupied_scopes db' now)"
    then obtain k where k: "k \<in> set (db_jobs db')" "live_lease now k" "scope_of db (pj_topic_id k) = Some x"
      by (auto simp: set_occupied_scopes s)
    then show "x \<in> set (occupied_scopes db now) \<union> {the (scope_of db t)}"
      using assms(1) [OF k(1)] by (auto simp: set_occupied_scopes)
  qed
  then have "card (set (occupied_scopes db' now)) \<le> card (set (occupied_scopes db now) \<union> {the (scope_of db t)})"
    by (rule card_mono [rotated]) simp
  also have "\<dots> \<le> Suc (card (set (occupied_scopes db now)))"
    by (simp add: card_insert_if)
  finally show ?thesis by (simp add: distinct_card distinct_occupied)
qed

lemma lease_tx_granted:
  assumes "lease_tx q caps now tok db = Inr (Some j, db')" "jobs_ok db"
  shows "\<exists>c \<in> set (db_jobs db). next_eligible db now (lq_agent q) = Some c \<and>
     j = grant_lease (lq_worker q) tok (now + seconds (lq_seconds q)) now c \<and>
     db_topics db' = db_topics db \<and>
     db_jobs db' = map (\<lambda>r. if r = c then grant_lease (lq_worker q) tok (now + seconds (lq_seconds q)) now c else r) (db_jobs db) \<and>
     int (length (occupied_scopes db now)) < lq_max_roots q \<and>
     busy_count db now (lq_agent q) < get_or caps (lq_agent q) 1 \<and>
     (\<forall>k \<in> set (db_jobs db). live_lease now k \<longrightarrow> pj_lease_owner k \<noteq> Some (lq_worker q))"
proof -
  obtain ws where ws: "declare_worker q now db = db\<lparr>db_workers := ws\<rparr>"
    using declare_worker_shape by blast
  let ?db = "db\<lparr>db_workers := ws\<rparr>"
  let ?cf = "\<lparr>qc_max_parallel_roots = lq_max_roots q,
            qc_scheduler_agents = lq_scheduler_agents q, qc_agent_capacities = caps\<rparr>"
  let ?slots = "read_queue_capacity ?db ?cf now"
  let ?f = "grant_lease (lq_worker q) tok (now + seconds (lq_seconds q)) now"
  obtain c where c: "choose_job ?db q caps ?slots now = Some c"
    and cap: "qp_occupied ?slots < qp_effective ?slots" "lq_worker q \<notin> set (qp_busy_workers ?slots)"
      "get_or (qp_busy_agents ?slots) (lq_agent q) 0 < get_or caps (lq_agent q) 1"
    using assms(1) by (auto simp: lease_tx_def Let_def ws split: if_splits option.splits)
  let ?p = "\<lambda>j. pj_job_id j = pj_job_id c \<and> pj_status j \<in> {Queued, Retry_wait}"
  let ?db1 = "update_jobs ?p ?f ?db"
  obtain gs where gs: "record_grant q now ?db1 = ?db1\<lparr>db_grants := gs\<rparr>"
    using record_grant_shape by blast
  have d: "db' = ?db1\<lparr>db_grants := gs\<rparr>" "job_of db' (pj_job_id c) = Some j"
    using assms(1) c cap gs by (auto simp: lease_tx_def Let_def ws split: if_splits option.splits)
  have n: "next_eligible db now (lq_agent q) = Some c"
    using choose_job_next [OF c] same_queue_eligible [OF same_queue_workers [of db ws]]
    by (simp add: next_eligible_def)
  from first_by_Some [OF this [unfolded next_eligible_def]]
  have e: "c \<in> set (db_jobs db)" "?p c" using eligible_open by auto
  have dist: "distinct (map pj_job_id (db_jobs db))" using assms(2) by (simp add: jobs_ok_def)
  have rows: "db_jobs db' = map (\<lambda>r. if r = c then ?f c else r) (db_jobs db)"
    using update_where_single [OF dist e(1), of "\<lambda>j. pj_status j \<in> {Queued, Retry_wait}" ?f] e(2)
    by (simp add: d(1) update_jobs_def)
  have "job_of db' (pj_job_id c) = Some (?f c)"
    using find_key_unique [OF dist e(1)] e(2) find_update_where [of pj_job_id ?f "pj_job_id c" ?p "db_jobs db"]
    by (simp add: d(1) update_jobs_def job_of_def grant_lease_def)
  then have "j = ?f c" using d(2) by simp
  moreover have "int (length (occupied_scopes db now)) < lq_max_roots q"
    using cap(1) effective_le_max [of ?db ?cf now] occupied_same [of ?db db now]
    by (simp add: read_queue_capacity_def)
  moreover have "busy_count db now (lq_agent q) < get_or caps (lq_agent q) 1"
    using cap(3) get_or_busy [of ?db now]
    by (simp add: read_queue_capacity_def busy_count_def live_jobs_def correction_child_def)
  moreover have "\<forall>k \<in> set (db_jobs db). live_lease now k \<longrightarrow> pj_lease_owner k \<noteq> Some (lq_worker q)"
    using cap(2) by (auto simp: set_busy_workers)
  ultimately show ?thesis
    using n e(1) rows d(1) by (auto simp: update_jobs_def)
qed

lemma valid_request_Inr:
  assumes "valid_request q = Inr (q', caps)"
  shows "lq_agent q' = py_strip (lq_agent q) \<and> lq_worker q' = py_strip (lq_worker q) \<and>
     lq_max_roots q' = lq_max_roots q \<and> lq_seconds q' = lq_seconds q \<and> lq_max_roots q \<le> 16"
  using assms unfolding valid_request_def
  by (auto simp: attempt_Inr Let_def dest!: bounded_strip)

lemma lease_tx_idle:
  assumes "lease_tx q caps now tok db = Inr (None, db')"
  shows "db_jobs db' = db_jobs db"
  using lease_tx_effect [OF assms]
proof (elim disjE exE conjE)
  fix c gs ws
  assume c: "c \<in> set (db_jobs db)" and
    d: "db' = update_jobs (\<lambda>j. pj_job_id j = pj_job_id c \<and> pj_status j \<in> {Queued, Retry_wait})
         (grant_lease (lq_worker q) tok (now + seconds (lq_seconds q)) now) (db\<lparr>db_workers := ws\<rparr>)\<lparr>db_grants := gs\<rparr>"
      "None = job_of db' (pj_job_id c)"
  have "job_of db' (pj_job_id c) \<noteq> None"
    using c find_update_where [of pj_job_id "grant_lease (lq_worker q) tok (now + seconds (lq_seconds q)) now"]
    by (auto simp: d(1) job_of_def update_jobs_def find_None_iff grant_lease_def)
  then show ?thesis using d(2) by simp
qed simp

text \<open>C12. The scheduler's lease, on every branch: an error leaves the database as it was, no work
  leaves every job as it was, and a granted job is the first eligible one of its agent in queue
  order, leased to the caller, while the roots in use stay within the requested capacity and the
  caller's worker held no live lease.\<close>

theorem lease_outcome:
  assumes "lease q now tok db = (r, db')" "jobs_ok db"
  shows "case r of
     Inl e \<Rightarrow> db' = db
   | Inr None \<Rightarrow> db_jobs db' = db_jobs db
   | Inr (Some j) \<Rightarrow>
       (\<exists>c \<in> set (db_jobs db). eligible db now (py_strip (lq_agent q)) c \<and>
          (\<forall>k \<in> set (db_jobs db). eligible db now (py_strip (lq_agent q)) k \<longrightarrow> queue_order c k) \<and>
          j = grant_lease (py_strip (lq_worker q)) tok (now + seconds (lq_seconds q)) now c \<and>
          db_jobs db' = map (\<lambda>k. if k = c then j else k) (db_jobs db)) \<and>
       int (length (occupied_scopes db' now)) \<le> lq_max_roots q \<and> lq_max_roots q \<le> 16 \<and>
       (\<forall>k \<in> set (db_jobs db). live_lease now k \<longrightarrow> pj_lease_owner k \<noteq> Some (py_strip (lq_worker q)))"
proof (cases "valid_request q")
  case (Inl e)
  then show ?thesis using assms by (auto simp: lease_def)
next
  case (Inr v)
  obtain q' caps where v: "valid_request q = Inr (q', caps)" using Inr by (cases v) auto
  note eq = valid_request_Inr [OF v]
  have t: "transact (lease_tx q' caps now tok) db = (r, db')" using assms(1) v by (simp add: lease_def)
  then show ?thesis
  proof (cases rule: transact_cases)
    case (committed x)
    show ?thesis
    proof (cases x)
      case None
      then show ?thesis using committed lease_tx_idle by simp
    next
      case (Some j)
      then have "lease_tx q' caps now tok db = Inr (Some j, db')" using committed by simp
      from lease_tx_granted [OF this assms(2)] obtain c where c: "c \<in> set (db_jobs db)"
        "next_eligible db now (lq_agent q') = Some c"
        "j = grant_lease (lq_worker q') tok (now + seconds (lq_seconds q')) now c" "db_topics db' = db_topics db"
        "db_jobs db' = map (\<lambda>k. if k = c then j else k) (db_jobs db)"
        "int (length (occupied_scopes db now)) < lq_max_roots q'"
        "\<forall>k \<in> set (db_jobs db). live_lease now k \<longrightarrow> pj_lease_owner k \<noteq> Some (lq_worker q')"
        by blast
      have el: "eligible db now (lq_agent q') c"
        using c(2) first_by_Some unfolding next_eligible_def by fast
      have "\<And>k. k \<in> set (db_jobs db') \<Longrightarrow> k \<in> set (db_jobs db) \<or> pj_topic_id k = pj_topic_id c"
        using c(3,5) by (auto simp: grant_lease_def)
      from occupied_after_one [OF this c(4), of now] have "int (length (occupied_scopes db' now)) \<le> lq_max_roots q'" using c(6) by linarith
      then show ?thesis
        using committed(2) Some c(1,3,5,7) el next_eligible_least [OF c(2)] eq by auto
    qed
  qed simp
qed

theorem lease_outcome_witness:
  "\<exists>j db'. lease example_request 5 ''t'' (example_hub [example_job ''a'' 1 Queued]) = (Inr (Some j), db') \<and>
     int (length (occupied_scopes db' 5)) \<le> lq_max_roots example_request"
proof -
  obtain j db' where l: "lease example_request 5 ''t'' (example_hub [example_job ''a'' 1 Queued]) = (Inr (Some j), db')"
    using example_lease by blast
  have "jobs_ok (example_hub [example_job ''a'' 1 Queued])"
    by (simp add: jobs_ok_def example_hub_def example_job_def job_ok_def lease_columns_ok_def attempts_ok_def)
  from lease_outcome [OF l this] l show ?thesis by auto
qed

section \<open>Notices and the scheduler\<close>

lemma first_by_exists: "first_by le p rows = Some r \<Longrightarrow> exists_row p rows"
  using first_by_None [of le p rows] by auto

lemma order_wait_None:
  "(if is_continuation db (pj_job_id j) then None else order_wait db j scope) = None \<longleftrightarrow>
   topic_order_clear db j \<and> held_order_clear db scope j"
  by (auto simp: order_wait_def topic_order_clear_def held_order_clear_def fifo_blocker_def first_by_None
      split: option.splits dest: first_by_exists)

lemma root_wait_None:
  "root_wait db j scope now = None \<longleftrightarrow> \<not> exists_row (root_occupant db now scope j) (db_jobs db) \<and>
     \<not> exists_row (external_writer db scope) (db_sessions db) \<and>
     \<not> exists_row (running_dispatch db scope) (db_dispatches db)"
  by (auto simp: root_wait_def first_by_None split: option.splits dest: first_by_exists)

lemma order_wait_reason:
  "order_wait db j scope = Some w \<Longrightarrow> wv_reason w \<in> {''delivery_unknown'', ''topic_fifo'', ''root_held_fifo''}"
  by (auto simp: order_wait_def snapshot_def split: option.splits if_splits)

lemma root_wait_reason:
  "root_wait db j scope now = Some w \<Longrightarrow>
   wv_reason w \<in> {''root_uncertain'', ''root_active'', ''root_writer'', ''root_dispatch''}"
  by (auto simp: root_wait_def snapshot_def split: option.splits if_splits)

definition capacity_reasons :: "string list" where
  "capacity_reasons = [''worker_unknown'', ''global_capacity'', ''provider_slots'']"

lemma capacity_wait_reason: "wv_reason (capacity_wait db j now c) \<in> set capacity_reasons"
  by (simp add: capacity_wait_def snapshot_def capacity_reasons_def Let_def split: option.split)

lemma blocked_reasons:
  "r \<in> {''delivery_unknown'', ''topic_fifo'', ''root_held_fifo''} \<Longrightarrow> r \<notin> set capacity_reasons"
  "r \<in> {''root_uncertain'', ''root_active'', ''root_writer'', ''root_dispatch''} \<Longrightarrow> r \<notin> set capacity_reasons"
  "r \<in> {''held'', ''retry_deadline'', ''collecting''} \<Longrightarrow> r \<notin> set capacity_reasons"
  by (auto simp: capacity_reasons_def)

lemma waits_for_capacity:
  assumes "job_of db i = Some j" "topic_of db (pj_topic_id j) = Some t"
  shows "(\<exists>w. wait_snapshot db i now c = Inr w \<and> wv_reason w \<in> set capacity_reasons) \<longleftrightarrow>
     \<not> pending_hold db i \<and> topic_order_clear db j \<and> held_order_clear db (topic_scope t) j \<and>
     \<not> exists_row (root_occupant db now (topic_scope t) j) (db_jobs db) \<and>
     \<not> exists_row (external_writer db (topic_scope t)) (db_sessions db) \<and>
     \<not> exists_row (running_dispatch db (topic_scope t)) (db_dispatches db) \<and>
     \<not> after (pj_next_attempt_at j) now"
proof -
  have id: "pj_job_id j = i" using job_of_Some [OF assms(1)] by simp
  let ?o = "if is_continuation db i then None else order_wait db j (topic_scope t)"
  let ?r = "root_wait db j (topic_scope t) now"
  have v: "visible_job db i = Inr (j, t)" using assms by (simp add: visible_job_def)
  consider (held) "pending_hold db i" | (order) w where "\<not> pending_hold db i" "?o = Some w"
    | (root) w where "\<not> pending_hold db i" "?o = None" "?r = Some w"
    | (clear) "\<not> pending_hold db i" "?o = None" "?r = None"
    by (cases ?o; cases ?r) auto
  then show ?thesis
  proof cases
    case held
    then show ?thesis using blocked_reasons(3) [of "''held''"] by (simp add: wait_snapshot_def v Let_def snapshot_def)
  next
    case order
    then have "wv_reason w \<notin> set capacity_reasons"
      using order_wait_reason blocked_reasons(1) by (metis option.distinct(1))
    moreover have "\<not> (topic_order_clear db j \<and> held_order_clear db (topic_scope t) j)"
      using order_wait_None [of db j "topic_scope t"] order(2) id by simp
    ultimately show ?thesis using order by (auto simp: wait_snapshot_def v Let_def)
  next
    case root
    have "wv_reason w \<notin> set capacity_reasons" using root_wait_reason [OF root(3)] blocked_reasons(2) by blast
    moreover have "?r \<noteq> None" using root(3) by simp
    ultimately show ?thesis
      using root root_wait_None [of db j "topic_scope t" now] by (auto simp: wait_snapshot_def v Let_def)
  next
    case clear
    have o: "topic_order_clear db j \<and> held_order_clear db (topic_scope t) j"
      using order_wait_None [of db j "topic_scope t"] clear(2) id by simp
    note r = root_wait_None [of db j "topic_scope t" now, THEN iffD1, OF clear(3)]
    have "wv_reason (if pj_status j = Retry_wait then snapshot ''retry_deadline'' a None
        else snapshot ''collecting'' b None) \<notin> set capacity_reasons" for a b
      by (simp add: snapshot_def capacity_reasons_def)
    then show ?thesis
      using clear o r capacity_wait_reason [of db j now c] by (auto simp: wait_snapshot_def v Let_def)
  qed
qed

text \<open>C14. The queue notice and the scheduler agree: a waiting job's snapshot reports a capacity
  reason, rather than a blocker, exactly when every condition of the eligibility query holds but
  the two the snapshot does not read (the native control scope and the attempts left).\<close>

theorem snapshot_agrees_with_scheduler:
  assumes "job_of db i = Some j" "topic_of db (pj_topic_id j) = Some t"
    and "pj_status j = Queued \<or> (pj_status j = Retry_wait \<and> pj_next_attempt_at j \<noteq> None)"
  shows "eligible db now (pj_agent_id j) j \<longleftrightarrow>
     (\<exists>w. wait_snapshot db i now c = Inr w \<and>
        wv_reason w \<in> {''worker_unknown'', ''global_capacity'', ''provider_slots''}) \<and>
     control_scope_is_clear db t \<and> pj_attempt_count j < pj_max_attempts j"
proof -
  have a: "available now j \<longleftrightarrow> \<not> after (pj_next_attempt_at j) now"
    using assms(3) by (cases "pj_next_attempt_at j") (auto simp: available_def due_def after_def)
  have set: "set capacity_reasons = {''worker_unknown'', ''global_capacity'', ''provider_slots''}"
    by (simp add: capacity_reasons_def)
  have id: "pj_job_id j = i" using job_of_Some [OF assms(1)] by simp
  show ?thesis
    using waits_for_capacity [OF assms(1,2), of now c] unfolding set
    by (auto simp: eligible_def assms(2) Let_def a id)
qed

theorem snapshot_agrees_with_scheduler_witness:
  "eligible (example_hub [example_job ''a'' 1 Queued]) 5 ''codex'' (example_job ''a'' 1 Queued) \<and>
   (\<exists>w. wait_snapshot (example_hub [example_job ''a'' 1 Queued]) ''a'' 5 None = Inr w \<and>
      wv_reason w \<in> {''worker_unknown'', ''global_capacity'', ''provider_slots''})"
proof -
  let ?db = "example_hub [example_job ''a'' 1 Queued]" let ?j = "example_job ''a'' 1 Queued"
  have j: "job_of ?db ''a'' = Some ?j" "topic_of ?db (pj_topic_id ?j) = Some example_topic"
    "pj_status ?j = Queued" "pj_agent_id ?j = ''codex''"
    by (simp_all add: job_of_def topic_of_def example_hub_def example_job_def example_topic_def)
  have "eligible ?db 5 ''codex'' ?j"
    using first_by_Some [OF example_choice [unfolded next_eligible_def]] by simp
  then show ?thesis
    using snapshot_agrees_with_scheduler [OF j(1,2) disjI1 [OF j(3)], of 5 None] j(4) by simp
qed

section \<open>Stops, heartbeats, recovery\<close>

definition executing_rows :: "db \<Rightarrow> provider_job set" where
  "executing_rows db = {k \<in> set (db_jobs db). pj_status k = Executing}"

lemma executing_update:
  "(\<And>k. p k \<Longrightarrow> pj_status (f k) \<noteq> Executing) \<Longrightarrow> executing_rows (update_jobs p f db) \<subseteq> executing_rows db"
  by (auto simp: executing_rows_def update_jobs_def set_update_where)

lemma executing_notices: "notices_only db db' \<Longrightarrow> executing_rows db' = executing_rows db"
  by (simp add: executing_rows_def notices_only_sel)

lemma job_of_notices: "notices_only db db' \<Longrightarrow> job_of db' = job_of db"
  by (simp add: job_of_def fun_eq_iff notices_only_sel)

lemma job_of_update:
  "(\<And>r. pj_job_id (f r) = pj_job_id r) \<Longrightarrow>
   job_of (update_jobs p f db) i = map_option (\<lambda>r. if p r then f r else r) (job_of db i)"
  unfolding job_of_def update_jobs_def by (simp add: find_update_where)

lemma completed_jobs: "db_jobs (complete_finished_stops t u db) = db_jobs db"
  by (simp add: complete_finished_stops_def)

lemma complete_after_jobs: "complete_stops_after i u db = Inr db' \<Longrightarrow> db_jobs db' = db_jobs db"
  by (auto simp: complete_stops_after_def completed_jobs split: option.splits
      dest!: sync_job_only simp: notices_only_sel)

lemma settle_child_shape: "pj_job_id (settle_child d u r) = pj_job_id r \<and> pj_status (settle_child d u r) \<noteq> Executing"
  by (cases d) (simp_all add: settle_child_def)

lemma settle_effect:
  assumes "settle i d u db = Inr db'"
  shows "executing_rows db' \<subseteq> executing_rows db \<and>
    (\<forall>k x. job_of db k = Some x \<longrightarrow> pj_status x \<noteq> Executing \<longrightarrow> job_of db' k = Some x)"
proof (cases "child_of db i")
  case None
  then show ?thesis using assms by (simp add: settle_def)
next
  case (Some c)
  let ?p = "\<lambda>j. pj_job_id j = cc_child_job_id c \<and> pj_status j = Executing \<and>
              pj_lease_token j = Some (cc_child_lease_token c)"
  have n: "notices_only (update_jobs ?p (settle_child d u) db) db'"
    using assms Some by (intro sync_job_only) (auto simp: settle_def Let_def update_jobs_def split: if_splits)
  show ?thesis
    using executing_update [of ?p "settle_child d u" db] executing_notices [OF n] job_of_notices [OF n]
      job_of_update [of "settle_child d u" ?p db] settle_child_shape by auto
qed

lemma cancel_stopped_effect:
  assumes "cancel_stopped i tok sts code cs now db = Inr (True, db')" "jobs_ok db"
  shows "executing_rows db' \<subseteq> executing_rows db \<and>
    (\<exists>x. job_of db i = Some x \<and> holds_lease i tok sts x \<and> job_of db' i = Some (stop_job code now x))"
proof -
  let ?p = "holds_lease i tok sts" and ?f = "stop_job code now"
  have f: "\<And>r. pj_job_id (?f r) = pj_job_id r" "\<And>r. pj_status (?f r) = Cancelled"
    by (simp_all add: stop_job_def clear_lease_def)
  obtain db2 db3 where one: "count_jobs ?p db = 1" and d: "settle i Settle_cancelled now (update_jobs ?p ?f db) = Inr db2"
      "sync_job i now db2 = Inr db3" and e: "db' = db3 \<or> complete_stops_after i now db3 = Inr db'"
    using assms(1) by (auto simp: cancel_stopped_def Let_def attempt_Inr split: if_splits)
  have n: "notices_only db2 db3" by (rule sync_job_only [OF d(2)])
  have j3: "db_jobs db' = db_jobs db3" using e complete_after_jobs by auto
  have ex: "executing_rows db' \<subseteq> executing_rows db"
    using settle_effect [OF d(1)] executing_update [of ?p ?f db] f(2) n j3
    by (auto simp: executing_rows_def notices_only_sel)
  have "exists_row ?p (db_jobs db)" using one count_where_pos [of ?p "db_jobs db"] by (simp add: count_jobs_def)
  then obtain x where x: "x \<in> set (db_jobs db)" "?p x" by (auto simp: exists_row_iff)
  have jx: "job_of db i = Some x"
    using find_key_unique [of pj_job_id "db_jobs db" x] x assms(2) by (simp add: jobs_ok_def holds_lease_def job_of_def)
  have "job_of (update_jobs ?p ?f db) i = Some (?f x)"
    using job_of_update [of ?f ?p db i] f(1) jx x(2) by simp
  then have "job_of db2 i = Some (?f x)" using settle_effect [OF d(1)] f(2) by simp
  then have "job_of db' i = Some (?f x)" using j3 n by (simp add: job_of_def notices_only_sel)
  then show ?thesis using ex jx x(2) by blast
qed

lemma stopped_change:
  assumes "transact (\<lambda>db. attempt (cancel_stopped i tok [Leased] code cs now db) (\<lambda>(changed, db1).
       if \<not> changed then Inl lease_lost else attempt (get_job db1 i) (\<lambda>j. Inr (j, db1)))) db = (r, db')" "jobs_ok db"
  shows "executing_rows db' \<subseteq> executing_rows db \<and> (\<forall>j. r = Inr j \<longrightarrow> pj_job_id j = i \<and> pj_status j = Cancelled)"
  using assms(1)
proof (cases rule: transact_cases)
  case (committed j)
  then have c: "cancel_stopped i tok [Leased] code cs now db = Inr (True, db')" "get_job db' i = Inr j"
    by (auto simp: attempt_Inr split: if_splits)
  then show ?thesis
    using committed cancel_stopped_effect [OF c(1) assms(2)]
    by (auto simp: get_job_def stop_job_def clear_lease_def dest: job_of_Some split: option.splits)
qed simp


lemma stopped_hub_pending:
  "pending_stop_for_job (stopped_hub [example_job ''a'' 1 Queued, example_job ''b'' 2 Leased]) ''b'' \<noteq> None"
  unfolding pending_stop_iff
  by (simp add: stopped_hub_def example_hub_def example_stop_def example_job_def stop_covers_def
      exists_row_def empty_db_def)


lemma count_one:
  assumes "jobs_ok db" "\<And>j. p j \<Longrightarrow> pj_job_id j = i"
  shows "count_jobs p db = 1 \<longleftrightarrow> exists_row p (db_jobs db)" "\<not> exists_row p (db_jobs db) \<Longrightarrow> update_jobs p f db = db"
proof -
  have "distinct (map pj_job_id (db_jobs db))" using assms(1) by (simp add: jobs_ok_def)
  then have "distinct (map pj_job_id (filter p (db_jobs db)))" by (rule distinct_map_filter)
  moreover have "set (map pj_job_id (filter p (db_jobs db))) \<subseteq> {i}" using assms(2) by auto
  ultimately have "length (filter p (db_jobs db)) \<le> 1"
    by (metis card_mono distinct_card finite.emptyI finite_insert is_singletonI is_singleton_altdef length_map)
  then show "count_jobs p db = 1 \<longleftrightarrow> exists_row p (db_jobs db)"
    using count_where_pos [of p "db_jobs db"] unfolding count_jobs_def count_where_def by linarith
  show "\<not> exists_row p (db_jobs db) \<Longrightarrow> update_jobs p f db = db"
    by (simp add: update_jobs_def update_where_none)
qed

text \<open>A heartbeat renews exactly a current lease: it returns a job if and only if the duration
  is valid and the caller holds an unexpired lease on the job; then the lease runs for the
  duration from now and the status is unchanged. Otherwise the database is unchanged, so an
  expired lease is never revived.\<close>

theorem heartbeat_outcome:
  assumes "heartbeat i tok secs now db = (r, db')" "jobs_ok db"
  shows "((\<exists>j. r = Inr j) \<longleftrightarrow> 1 \<le> secs \<and> secs \<le> 3600 \<and>
       (\<exists>c \<in> set (db_jobs db). current_lease i tok [Leased, Executing] now c)) \<and>
     (\<forall>j. r = Inr j \<longrightarrow> (\<exists>c \<in> set (db_jobs db). current_lease i tok [Leased, Executing] now c \<and>
       pj_status j = pj_status c \<and> pj_lease_token j = Some tok \<and> pj_job_id j = i \<and>
       pj_lease_expires_at j = Some (now + seconds secs))) \<and>
     (\<forall>e. r = Inl e \<longrightarrow> db' = db)"
proof (cases "1 \<le> secs \<and> secs \<le> 3600")
  case False
  then show ?thesis using assms(1) by (auto simp: heartbeat_def)
next
  case valid: True
  let ?p = "current_lease i tok [Leased, Executing] now" and ?e = "now + seconds secs"
  have pid: "\<And>j. ?p j \<Longrightarrow> pj_job_id j = i" by (simp add: current_lease_def holds_lease_def)
  note one = count_one [OF assms(2) pid, where p = ?p]
  show ?thesis
  proof (cases "exists_row ?p (db_jobs db)")
    case False
    then have "r = Inl lease_lost \<and> db' = db"
      using assms(1) valid one by (auto simp: heartbeat_def Let_def commit_then_def)
    then show ?thesis using False by (auto simp: exists_row_iff)
  next
    case True
    then obtain c where c: "c \<in> set (db_jobs db)" "?p c" by (auto simp: exists_row_iff)
    let ?db1 = "update_jobs ?p (extend_lease ?e now) db"
    have r: "r = get_job db' i" "db' = correction_heartbeat i now ?e ?db1"
      using assms(1) valid one(1) True by (auto simp: heartbeat_def Let_def commit_then_def)
    have jc: "job_of db i = Some c"
      using find_key_unique [of pj_job_id "db_jobs db" c] c pid [OF c(2)] assms(2)
      by (simp add: jobs_ok_def job_of_def)
    have "job_of ?db1 i = Some (extend_lease ?e now c)"
      using job_of_update [of "extend_lease ?e now" ?p db i] jc c(2) by (simp add: extend_lease_def)
    then have "job_of db' i = Some (extend_lease ?e now c)"
      unfolding r(2) correction_heartbeat_def
      using job_of_update [of "\<lambda>j. j\<lparr>pj_lease_expires_at := Some ?e, pj_updated_at := now\<rparr>" _ ?db1 i]
      by (simp add: update_jobs_def extend_lease_def)
    then have "r = Inr (extend_lease ?e now c)" using r(1) by (simp add: get_job_def)
    then show ?thesis
      using c valid pid [OF c(2)] by (auto simp: extend_lease_def current_lease_def holds_lease_def)
  qed
qed

theorem heartbeat_outcome_witness:
  "\<exists>j db'. heartbeat ''b'' ''t'' 30 12 (stopped_hub [example_job ''a'' 1 Queued, example_job ''b'' 2 Leased]) = (Inr j, db') \<and>
     pj_lease_expires_at j = Some (12 + seconds 30)"
proof -
  let ?db = "stopped_hub [example_job ''a'' 1 Queued, example_job ''b'' 2 Leased]"
  obtain r db' where h: "heartbeat ''b'' ''t'' 30 12 ?db = (r, db')" by (meson surj_pair)
  have "\<exists>c \<in> set (db_jobs ?db). current_lease ''b'' ''t'' [Leased, Executing] 12 c"
    by (simp add: stopped_hub_def example_hub_def example_job_def current_lease_def holds_lease_def after_def)
  then obtain j where "r = Inr j" using heartbeat_outcome [OF h stopped_hub_ok(2)] by auto
  then show ?thesis using heartbeat_outcome [OF h stopped_hub_ok(2)] h by blast
qed

text \<open>Recovery of stale leases is exact: the jobs it reports are those whose lease has expired,
  a leased one is queued again and an executing one becomes indeterminate, and no other job
  changes.\<close>

theorem recover_stale_exact:
  assumes "recover_stale (Some a) now db = (Inr rep, db')" "py_strip a = a" "a \<noteq> []"
  shows "db_jobs db' = map (\<lambda>j.
       if stale (Some a) now Leased j then requeue_stale now j
       else if stale (Some a) now Executing j then lose_stale now j else j) (db_jobs db) \<and>
     set (rv_requeued rep) = {pj_job_id j |j. j \<in> set (db_jobs db) \<and> stale (Some a) now Leased j} \<and>
     set (rv_indeterminate rep) = {pj_job_id j |j. j \<in> set (db_jobs db) \<and> stale (Some a) now Executing j}"
proof -
  let ?l = "stale (Some a) now Leased" and ?x = "stale (Some a) now Executing"
  let ?db2 = "update_jobs ?x (lose_stale now) (update_jobs ?l (requeue_stale now) db)"
  have tx: "recover_tx (Some a) now db = Inr (rep, db')"
    using assms by (auto simp: recover_stale_def attempt_def transact_def dest!: bounded_strip
        split: sum.splits if_splits option.splits prod.splits)
  then obtain ts "is" where e: "each_row (\<lambda>i. sync_job i now) is (fold (\<lambda>t. complete_finished_stops t now) ts ?db2) = Inr db'"
    and rep: "rep = \<lparr>rv_requeued = sort (map pj_job_id (filter ?l (db_jobs db))),
      rv_indeterminate = map pj_job_id (sort_key pj_job_id (filter ?x (db_jobs db)))\<rparr>"
    by (auto simp: recover_tx_def Let_def attempt_Inr)
  have f: "db_jobs (fold (\<lambda>t. complete_finished_stops t now) ts d) = db_jobs d" for d
    by (induction ts arbitrary: d) (simp_all add: completed_jobs)
  have "db_jobs db' = db_jobs ?db2"
    using each_row_invariant [OF e, of "\<lambda>d. db_jobs d = db_jobs ?db2"] f sync_job_only notices_only_sel(3) by metis
  also have "\<dots> = map (\<lambda>j. if ?l j then requeue_stale now j else if ?x j then lose_stale now j else j) (db_jobs db)"
    by (auto simp: update_jobs_def update_where_def stale_def requeue_stale_def clear_lease_def)
  finally show ?thesis by (auto simp: rep)
qed

theorem recover_stale_exact_witness:
  "\<exists>rep db'. recover_stale (Some ''codex'') 60 (example_hub [example_job ''a'' 1 Executing, example_job ''b'' 2 Leased]) =
       (Inr rep, db') \<and> set (rv_requeued rep) = {''b''} \<and> set (rv_indeterminate rep) = {''a''} \<and>
     map pj_status (db_jobs db') = [Indeterminate, Queued]"
proof -
  let ?db = "example_hub [example_job ''a'' 1 Executing, example_job ''b'' 2 Leased]"
  have y: "sync_job i t d = Inr d" if "db_notices d = []" for i t d
    using that by (simp add: sync_job_def notices_enabled_def exists_row_def)
  have e: "db_notices d = [] \<Longrightarrow> each_row (\<lambda>i. sync_job i t) is d = Inr d" for t "is" d
    by (induction "is") (simp_all add: y)
  have nn: "db_notices (fold (\<lambda>t. complete_finished_stops t u) ts d) = db_notices d" for u ts d
    by (induction ts arbitrary: d) (simp_all add: complete_finished_stops_def)
  have n: "db_notices ?db = []" by (simp add: example_hub_def empty_db_def)
  obtain rep db' where r: "recover_stale (Some ''codex'') 60 ?db = (Inr rep, db')"
    by (simp add: recover_stale_def bounded_def stripped recover_tx_def Let_def transact_def e nn n update_jobs_def)
  have st: "stale (Some ''codex'') 60 Leased (example_job i k st) = (st = Leased)"
     "stale (Some ''codex'') 60 Executing (example_job i k st) = (st = Executing)" for i k st
    by (auto simp: stale_def example_job_def due_def Let_def)
  have j: "db_jobs ?db = [example_job ''a'' 1 Executing, example_job ''b'' 2 Leased]" by (simp add: example_hub_def)
  have id: "pj_job_id (example_job i k st) = i" for i k st by (simp add: example_job_def Let_def)
  have "{pj_job_id j |j. j \<in> set (db_jobs ?db) \<and> stale (Some ''codex'') 60 Leased j} = {''b''}"
    unfolding j by (auto simp: st id intro!: exI [of _ "example_job ''b'' 2 Leased"])
  moreover have "{pj_job_id j |j. j \<in> set (db_jobs ?db) \<and> stale (Some ''codex'') 60 Executing j} = {''a''}"
    unfolding j by (auto simp: st id intro!: exI [of _ "example_job ''a'' 1 Executing"])
  moreover have "map pj_status (db_jobs db') = [Indeterminate, Queued]"
    using recover_stale_exact [OF r stripped(1)] by (simp add: j st requeue_stale_def lose_stale_def)
  ultimately show ?thesis
    using recover_stale_exact [OF r stripped(1)] r by auto
qed

end
