(* ===== verification/Job_Queries.thy ===== *)
theory Job_Queries
  imports Job_Properties
begin

text \<open>
  The readers of the provider job facade: the stalled-work count of the monitor, the pending and
  draining counts, the chat activities and the open batch. A dict with counts per agent is the
  list of its items in the order of the agents' first rows.
\<close>

definition open_statuses :: "job_status list" where
  "open_statuses = [Queued, Leased, Executing, Retry_wait, Result_ready]"

text \<open>\<open>stalled_work_count\<close>: expired leases, and old work that nothing known keeps from running.\<close>

definition expired_lease :: "time \<Rightarrow> provider_job \<Rightarrow> bool" where
  "expired_lease now j \<longleftrightarrow> pj_status j \<in> {Leased, Executing} \<and> \<not> after (pj_lease_expires_at j) now"

definition stale_due :: "time \<Rightarrow> provider_job \<Rightarrow> bool" where
  "stale_due before j \<longleftrightarrow>
     (pj_status j = Queued \<and> pj_created_at j \<le> before \<and>
        (pj_next_attempt_at j = None \<or> due (pj_next_attempt_at j) before)) \<or>
     (pj_status j = Retry_wait \<and> due (pj_next_attempt_at j) before)"

definition stale_ready :: "db \<Rightarrow> time \<Rightarrow> provider_job \<Rightarrow> bool" where
  "stale_ready db now j \<longleftrightarrow>
     (case topic_of db (pj_topic_id j) of
        None \<Rightarrow> False
      | Some t \<Rightarrow>
          (let scope = topic_scope t in
           control_scope_is_clear db t \<and> pj_attempt_count j < pj_max_attempts j \<and>
           stale_due (now - seconds (15 * 60)) j \<and> \<not> pending_hold db (pj_job_id j) \<and>
           \<not> exists_row (\<lambda>e. pj_topic_id e = pj_topic_id j \<and> pj_topic_sequence e < pj_topic_sequence j \<and>
               job_blocks_topic_fifo db e) (db_jobs db) \<and>
           \<not> exists_row (held_before db scope j) (db_jobs db) \<and>
           \<not> exists_row (live_lease now) (db_jobs db) \<and>
           \<not> exists_row (\<lambda>u. in_scope db scope (pj_topic_id u) \<and> uncertain db u) (db_jobs db) \<and>
           \<not> exists_row (external_writer db scope) (db_sessions db) \<and>
           \<not> exists_row (running_dispatch db scope) (db_dispatches db)))"

definition stalled_work_count :: "db \<Rightarrow> time \<Rightarrow> nat" where
  "stalled_work_count db now = count_jobs (expired_lease now) db + count_jobs (stale_ready db now) db"

definition topic_has_pending :: "db \<Rightarrow> int \<Rightarrow> bool" where
  "topic_has_pending db t = exists_row (\<lambda>j. pj_topic_id j = t \<and> pj_status j \<in> set open_statuses \<and>
     \<not> result_ready_control_reconciled db j) (db_jobs db)"

definition topic_has_unheld :: "db \<Rightarrow> int \<Rightarrow> bool" where
  "topic_has_unheld db t = exists_row (\<lambda>j. pj_topic_id j = t \<and> pj_status j \<in> set open_statuses \<and>
     \<not> result_ready_control_reconciled db j \<and> \<not> pending_hold db (pj_job_id j)) (db_jobs db)"

text \<open>\<open>GROUP BY agent_id\<close> over the rows that satisfy \<open>p\<close>.\<close>

definition count_by_agent :: "(provider_job \<Rightarrow> bool) \<Rightarrow> string list \<Rightarrow> db \<Rightarrow> (string \<times> nat) list" where
  "count_by_agent p agents db =
     (let rows = filter (\<lambda>j. pj_agent_id j \<in> set agents \<and> p j) (db_jobs db) in
      map (\<lambda>a. (a, count_where (\<lambda>j. pj_agent_id j = a) rows)) (remdups (map pj_agent_id rows)))"

definition agent_ids :: "string list \<Rightarrow> state_error + string list" where
  "agent_ids ids = collect (\<lambda>a. bounded a ''agent id'' 64) ids"

definition nonterminal_counts :: "db \<Rightarrow> string list \<Rightarrow> state_error + (string \<times> nat) list" where
  "nonterminal_counts db ids = attempt (agent_ids ids) (\<lambda>agents.
     Inr (count_by_agent (\<lambda>j. pj_status j \<in> set open_statuses) agents db))"

definition draining :: "db \<Rightarrow> provider_job \<Rightarrow> bool" where
  "draining db j \<longleftrightarrow> (pj_status j \<in> set open_statuses \<and> \<not> result_ready_control_reconciled db j) \<or>
     exists_row (\<lambda>c. tc_job_id c = pj_job_id j \<and> unsettled_control db c) (db_controls db)"

definition effective_nonterminal_counts :: "db \<Rightarrow> string list \<Rightarrow> state_error + (string \<times> nat) list" where
  "effective_nonterminal_counts db ids = attempt (agent_ids ids) (\<lambda>agents.
     Inr (count_by_agent (draining db) agents db))"

record chat_activity =
  ca_agent_id :: string
  ca_chat_id :: int
  ca_thread_id :: int
  ca_message_id :: int

definition active_in_chat :: "db \<Rightarrow> string list \<Rightarrow> provider_job \<Rightarrow> bool" where
  "active_in_chat db agents j \<longleftrightarrow> pj_agent_id j \<in> set agents \<and>
     pj_status j \<in> {Queued, Leased, Executing, Result_ready} \<and> job_blocks_topic_fifo db j \<and>
     \<not> pending_hold db (pj_job_id j) \<and>
     \<not> exists_row (\<lambda>e. pj_topic_id e = pj_topic_id j \<and> pj_topic_sequence e < pj_topic_sequence j \<and>
         job_blocks_topic_fifo db e) (db_jobs db)"

definition chat_activities :: "db \<Rightarrow> string list \<Rightarrow> state_error + chat_activity list" where
  "chat_activities db ids = attempt (agent_ids ids) (\<lambda>agents.
     Inr (List.map_filter (\<lambda>j. map_option (\<lambda>t. \<lparr>ca_agent_id = pj_agent_id j, ca_chat_id = pj_chat_id j,
            ca_thread_id = tp_thread_id t, ca_message_id = pj_message_id j\<rparr>) (topic_of db (pj_topic_id j)))
       (sort_key (\<lambda>j. (pj_created_at j, pj_topic_id j)) (filter (active_in_chat db agents) (db_jobs db)))))"

definition last_sequence :: "db \<Rightarrow> int \<Rightarrow> int option" where
  "last_sequence db t = max_of (map pj_topic_sequence (filter (\<lambda>k. pj_topic_id k = t) (db_jobs db)))"

definition pending_batch_agent :: "db \<Rightarrow> int \<Rightarrow> time \<Rightarrow> string option" where
  "pending_batch_agent db t now =
     map_option pj_agent_id (find (\<lambda>j. pj_topic_id j = t \<and> pj_status j = Queued \<and>
       after (pj_next_attempt_at j) now \<and> Some (pj_topic_sequence j) = last_sequence db t) (db_jobs db))"

definition for_topic :: "db \<Rightarrow> int \<Rightarrow> provider_job list" where
  "for_topic db t = sort_key pj_topic_sequence (filter (\<lambda>j. pj_topic_id j = t) (db_jobs db))"

definition queued_input_group :: "db \<Rightarrow> int \<Rightarrow> string \<Rightarrow> state_error + provider_job option" where
  "queued_input_group db t group_key =
     attempt (bounded group_key ''input group key'' 256) (\<lambda>key.
       Inr (find (\<lambda>j. pj_topic_id j = t \<and> pj_input_group_key j = Some key \<and> pj_status j = Queued \<and>
         Some (pj_topic_sequence j) = last_sequence db t) (db_jobs db)))"

section \<open>What the counts mean\<close>

lemma live_or_expired: "\<not> expired_lease now j \<Longrightarrow> \<not> live_lease now j \<Longrightarrow> pj_status j \<notin> {Leased, Executing}"
  by (auto simp: expired_lease_def live_lease_def)

lemma stale_due_available: "stale_due before j \<Longrightarrow> before \<le> now \<Longrightarrow> available now j"
  by (auto simp: stale_due_def available_def due_def split: option.splits)

text \<open>The monitor's alarm is sound: when no lease has expired, every job the monitor counts as
  stalled although nothing keeps it from running is one the scheduler's query would admit.\<close>

theorem stalled_work_is_eligible:
  assumes "j \<in> set (db_jobs db)" "stale_ready db now j" "count_jobs (expired_lease now) db = 0"
  shows "eligible db now (pj_agent_id j) j \<and> 0 < stalled_work_count db now"
proof -
  obtain t where t: "topic_of db (pj_topic_id j) = Some t"
    using assms(2) by (auto simp: stale_ready_def split: option.splits)
  note s = assms(2) [unfolded stale_ready_def t Let_def option.case]
  have idle: "pj_status k \<notin> {Leased, Executing}" if "k \<in> set (db_jobs db)" for k
    using live_or_expired [of now k] that s assms(3)
    by (auto simp: count_jobs_def count_where_0 exists_row_iff)
  have "\<not> exists_row (root_occupant db now (topic_scope t) j) (db_jobs db)"
    using idle s by (auto simp: exists_row_iff root_occupant_def occupies_root_def)
  moreover have "available now j"
    by (rule stale_due_available [of "now - seconds (15 * 60)"]) (use s in \<open>auto simp: seconds_def\<close>)
  ultimately have "eligible db now (pj_agent_id j) j"
    using s by (simp add: eligible_def t Let_def topic_order_clear_def held_order_clear_def)
  moreover have "0 < stalled_work_count db now"
    using assms(1,2) count_where_pos [of "stale_ready db now" "db_jobs db"]
    by (auto simp: stalled_work_count_def count_jobs_def exists_row_iff)
  ultimately show ?thesis by blast
qed

lemma blocking_is_open: "job_blocks_topic_fifo db j \<Longrightarrow> pj_status j \<in> set open_statuses \<and> \<not> result_ready_control_reconciled db j"
  by (cases "pj_status j") (auto simp: job_blocks_topic_fifo_def open_statuses_def)

lemma counted_agents:
  "a \<in> fst ` set (count_by_agent p agents db) \<longleftrightarrow> a \<in> set agents \<and> (\<exists>j \<in> set (db_jobs db). pj_agent_id j = a \<and> p j)"
  by (auto simp: count_by_agent_def Let_def image_iff)

lemma collect_bounded:
  "collect (\<lambda>a. bounded a n m) xs = Inr ys \<Longrightarrow> ys = map py_strip xs"
  by (induction xs arbitrary: ys) (auto simp: attempt_Inr dest: bounded_strip)

text \<open>Draining an agent is safe: an agent that was asked for and is absent from the effective
  counts has no job that keeps its topic's queue waiting, and none with an unsettled native
  control sender.\<close>

theorem drained_agent_is_idle:
  assumes "effective_nonterminal_counts db ids = Inr counts" "a \<in> set ids" "py_strip a = a"
    and "a \<notin> fst ` set counts" "j \<in> set (db_jobs db)" "pj_agent_id j = a"
  shows "\<not> job_blocks_topic_fifo db j \<and> (\<forall>c \<in> set (db_controls db). tc_job_id c = pj_job_id j \<longrightarrow> \<not> unsettled_control db c)"
proof -
  obtain agents where g: "agent_ids ids = Inr agents" "counts = count_by_agent (draining db) agents db"
    using assms(1) by (auto simp: effective_nonterminal_counts_def attempt_Inr)
  have "a \<in> set agents" using collect_bounded [OF g(1) [unfolded agent_ids_def]] assms(2,3) by force
  then have "\<not> draining db j" using assms(4-6) counted_agents [of a "draining db" agents db] g(2) by blast
  then show ?thesis using blocking_is_open [of db j] by (auto simp: draining_def exists_row_iff)
qed

definition waiting_job :: provider_job where
  "waiting_job = (example_job ''a'' 1 Queued)\<lparr>pj_created_at := 0\<rparr>"

theorem stalled_work_is_eligible_witness:
  "eligible (example_hub [waiting_job]) (seconds 1000) ''codex'' waiting_job"
proof -
  have s: "stale_ready (example_hub [waiting_job]) (seconds 1000) waiting_job"
    by (simp add: stale_ready_def stale_due_def waiting_job_def example_hub_def example_job_def example_topic_def
        topic_of_def empty_db_def control_scope_is_clear_def pending_hold_def exists_row_def held_before_def
        live_lease_def uncertain_def seconds_def)
  have "count_jobs (expired_lease (seconds 1000)) (example_hub [waiting_job]) = 0"
    by (simp add: count_jobs_def count_where_def expired_lease_def waiting_job_def example_hub_def example_job_def)
  from stalled_work_is_eligible [OF _ s this] show ?thesis
    by (simp add: example_hub_def) (simp add: waiting_job_def example_job_def)
qed

theorem drained_agent_is_idle_witness:
  "\<not> job_blocks_topic_fifo (example_hub [example_job ''a'' 1 Completed]) (example_job ''a'' 1 Completed)"
proof -
  let ?db = "example_hub [example_job ''a'' 1 Completed]"
  have st: "py_strip ''codex'' = ''codex''" by (simp add: py_strip_def py_space_def)
  have "effective_nonterminal_counts ?db [''codex''] = Inr []"
    by (simp add: effective_nonterminal_counts_def agent_ids_def bounded_def st count_by_agent_def draining_def
        open_statuses_def example_hub_def example_job_def exists_row_def empty_db_def Let_def)
  from drained_agent_is_idle [OF this _ st, of "example_job ''a'' 1 Completed"] show ?thesis
    by (simp add: example_hub_def) (simp add: example_job_def)
qed

end
