(* ===== verification/Stop_State.thy ===== *)
theory Stop_State
  imports Job_Properties
begin

text \<open>
  The emergency stop of a topic (\<open>state_stop.py\<close>) and the binding of pending stops to native
  control targets (\<open>bind_covering_stops_in_transaction\<close> of \<open>codex_turn_controls.py\<close>). The wording
  of the acknowledgement, which is Cyrillic text, is a parameter: a function of the values the
  code prints into it.
\<close>

section \<open>Binding stops to control targets\<close>

definition covers_control :: "db \<Rightarrow> turn_control \<Rightarrow> provider_stop \<Rightarrow> bool" where
  "covers_control db c s \<longleftrightarrow> st_pending s \<and>
     exists_row (\<lambda>j. pj_job_id j = tc_job_id c \<and> stop_covers db s j) (db_jobs db)"

definition stops_to_bind :: "db \<Rightarrow> (string \<times> provider_stop) list" where
  "stops_to_bind db = sort_key (\<lambda>(_, s). (st_created_at s, st_request_id s))
     (concat (map (\<lambda>c. map (\<lambda>s. (tc_job_id c, s)) (filter (covers_control db c) (db_stops db)))
       (filter (\<lambda>c. tc_stop_request_id c = None) (db_controls db))))"

definition bind_stop :: "string \<times> provider_stop \<Rightarrow> db \<Rightarrow> db" where
  "bind_stop b db = db\<lparr>db_controls := update_where
     (\<lambda>c. tc_job_id c = fst b \<and> tc_stop_request_id c = None)
     (\<lambda>c. c\<lparr>tc_stop_request_id := Some (st_request_id (snd b)),
            tc_next_late_read_at := (if after (tc_next_late_read_at c) (st_created_at (snd b))
              then tc_next_late_read_at c else Some (st_created_at (snd b)))\<rparr>) (db_controls db)\<rparr>"

definition bind_covering_stops :: "db \<Rightarrow> db" where
  "bind_covering_stops db = fold bind_stop (stops_to_bind db) db"

section \<open>The stop request\<close>

record stop_wording =
  wd_thread_id :: int
  wd_pending :: bool
  wd_cancelled :: int
  wd_held :: nat
  wd_others :: nat

definition stop_summary :: "db \<Rightarrow> provider_stop \<Rightarrow> topic_row \<Rightarrow> stop_wording" where
  "stop_summary db s t = \<lparr>wd_thread_id = tp_thread_id t, wd_pending = st_pending s,
     wd_cancelled = st_cancelled_queued_count s,
     wd_held = length (concat (map (\<lambda>h. filter (\<lambda>j. pj_job_id j = hd_job_id h \<and> pj_topic_id j = st_topic_id s \<and>
         hd_decision h = Hold_pending \<and> pj_status j \<in> {Queued, Retry_wait}) (db_jobs db)) (db_holds db))),
     wd_others = count_jobs (\<lambda>j. pj_topic_id j \<noteq> st_topic_id s \<and>
         pj_status j \<in> {Queued, Retry_wait, Leased, Executing}) db\<rparr>"

definition stop_notice_draft :: "provider_stop \<Rightarrow> topic_row \<Rightarrow> string \<Rightarrow> notice_draft" where
  "stop_notice_draft s t body = \<lparr>nd_event_key = ''stop:'' @ st_request_id s @ '':requested'',
     nd_kind = ''stop_requested'', nd_job_id = None, nd_stop_request_id = Some (st_request_id s),
     nd_assessment_id = None, nd_chat_id = st_chat_id s, nd_thread_id = tp_thread_id t,
     nd_reply_to_message_id = Some (st_message_id s), nd_telegram_html = body\<rparr>"

definition stop_notice ::
  "(stop_wording \<Rightarrow> string) \<Rightarrow> string \<Rightarrow> string option \<Rightarrow> time \<Rightarrow> string \<Rightarrow> db \<Rightarrow> state_error + bool \<times> db" where
  "stop_notice wording request body now nid db =
     (if notices_for_stop db request \<noteq> [] then Inr (True, db)
      else case find (\<lambda>s. st_request_id s = request) (db_stops db) of
        None \<Rightarrow> Inl (State_error ''emergency stop request does not exist'')
      | Some s \<Rightarrow> (case topic_of db (st_topic_id s) of
          None \<Rightarrow> Inl (State_error ''emergency stop request does not exist'')
        | Some t \<Rightarrow>
            if \<not> st_pending s \<and> st_cancelled_queued_count s = 0 \<and> stop_notice_job db request = None
            then Inr (False, db)
            else attempt (prepare_notice (stop_notice_draft s t
                (case body of Some b \<Rightarrow> b | None \<Rightarrow> wording (stop_summary db s t))) now nid db)
              (\<lambda>r. Inr (True, snd r))))"

definition enqueue_notice ::
  "(stop_wording \<Rightarrow> string) \<Rightarrow> string \<Rightarrow> string \<Rightarrow> time \<Rightarrow> string \<Rightarrow> db \<Rightarrow> (state_error, db, bool) outcome" where
  "enqueue_notice wording request html now nid = transact (stop_notice wording request (Some html) now nid)"

text \<open>Work of the topic that a new stop cannot cancel at once.\<close>

definition still_active :: "db \<Rightarrow> int \<Rightarrow> provider_job \<Rightarrow> bool" where
  "still_active db t j \<longleftrightarrow> pj_topic_id j = t \<and> (pj_status j \<in> {Leased, Executing} \<or> uncertain db j)"

definition note_message :: "int \<Rightarrow> int \<Rightarrow> db \<Rightarrow> db" where
  "note_message chat message db = (if (chat, message) \<in> set (db_observed db) then db
     else db\<lparr>db_observed := db_observed db @ [(chat, message)]\<rparr>)"

record stop_call =
  sq_topic_id :: int
  sq_chat_id :: int
  sq_message_id :: int
  sq_target_agent_id :: string
  sq_prepare_notice :: bool

definition new_stop :: "stop_call \<Rightarrow> string \<Rightarrow> provider_job option \<Rightarrow> nat \<Rightarrow> time \<Rightarrow> provider_stop" where
  "new_stop q rid active n now =
     \<lparr>st_request_id = rid, st_topic_id = sq_topic_id q, st_chat_id = sq_chat_id q,
      st_message_id = sq_message_id q,
      st_target_agent_id = (case active of None \<Rightarrow> sq_target_agent_id q | Some j \<Rightarrow> pj_agent_id j),
      st_pending = (active \<noteq> None), st_cancelled_queued_count = int n, st_created_at = now,
      st_completed_at = (if active = None then Some now else None)\<rparr>"

definition fresh_stop ::
  "(stop_wording \<Rightarrow> string) \<Rightarrow> stop_call \<Rightarrow> time \<Rightarrow> string \<Rightarrow> string \<Rightarrow> db \<Rightarrow> state_error + (string \<times> int \<times> bool) \<times> db" where
  "fresh_stop wording q now rid nid db =
     attempt (cancel_unstarted_for_stop (sq_topic_id q) now (note_message (sq_chat_id q) (sq_message_id q) db))
       (\<lambda>(n, db1).
       let active = first_by (\<lambda>a b. pj_created_at a \<le> pj_created_at b) (still_active db1 (sq_topic_id q)) (db_jobs db1);
           s = new_stop q rid active n now in
       if sq_chat_id q = 0 \<or> sq_message_id q \<le> 0 \<or> exists_row (\<lambda>x. st_request_id x = rid) (db_stops db1)
       then Inl (Integrity_error ''provider_stop_requests'')
       else let db2 = bind_covering_stops (db1\<lparr>db_stops := db_stops db1 @ [s]\<rparr>);
                db3 = complete_finished_stops (sq_topic_id q) now db2 in
         attempt (if sq_prepare_notice q \<and> (st_pending s \<or> n \<noteq> 0)
                  then attempt (stop_notice wording rid None now nid db3) (\<lambda>r. Inr (snd r)) else Inr db3)
           (\<lambda>db4. Inr ((rid, int n, st_pending s), db4)))"

definition repeated_stop ::
  "(stop_wording \<Rightarrow> string) \<Rightarrow> stop_call \<Rightarrow> provider_stop \<Rightarrow> time \<Rightarrow> string \<Rightarrow> db
   \<Rightarrow> state_error + (string \<times> int \<times> bool) \<times> db" where
  "repeated_stop wording q s now nid db =
     (if st_topic_id s \<noteq> sq_topic_id q then Inl (State_error ''stop receipt topic mismatch'')
      else attempt (if sq_prepare_notice q
                    then attempt (stop_notice wording (st_request_id s) None now nid db) (\<lambda>r. Inr (snd r))
                    else Inr db)
        (\<lambda>db1. Inr ((st_request_id s, st_cancelled_queued_count s, st_pending s), bind_covering_stops db1)))"

definition request_stop ::
  "(stop_wording \<Rightarrow> string) \<Rightarrow> stop_call \<Rightarrow> time \<Rightarrow> string \<Rightarrow> string \<Rightarrow> db
   \<Rightarrow> (state_error, db, string \<times> int \<times> bool) outcome" where
  "request_stop wording q now rid nid db =
     (if py_strip (sq_target_agent_id q) = [] \<or> length (sq_target_agent_id q) > 64
      then (Inl (State_error ''invalid agent id''), db)
      else transact (\<lambda>db.
        if (case topic_of db (sq_topic_id q) of None \<Rightarrow> True | Some t \<Rightarrow> tp_chat_id t \<noteq> sq_chat_id q)
        then Inl (State_error ''stop topic binding mismatch'')
        else (case find (\<lambda>s. st_chat_id s = sq_chat_id q \<and> st_message_id s = sq_message_id q) (db_stops db) of
            Some s \<Rightarrow> repeated_stop wording q s now nid db
          | None \<Rightarrow> fresh_stop wording q now rid nid db)) db)"

section \<open>What a stop leaves\<close>

text \<open>Binding touches the control targets only.\<close>

definition controls_only :: "db \<Rightarrow> db \<Rightarrow> bool" where
  "controls_only db db' \<longleftrightarrow> (\<exists>cs. db' = db\<lparr>db_controls := cs\<rparr>)"

lemma bind_stop_controls: "controls_only db (bind_stop b db)"
  by (auto simp: bind_stop_def controls_only_def)

lemma controls_only_trans: "controls_only a b \<Longrightarrow> controls_only b c \<Longrightarrow> controls_only a c"
  by (auto simp: controls_only_def)

lemma bind_controls: "controls_only db (bind_covering_stops db)"
proof -
  have "controls_only d (fold bind_stop bs d)" for bs d
  proof (induction bs arbitrary: d)
    case Nil
    show ?case by (auto simp: controls_only_def intro: exI [of _ "db_controls d"])
  next
    case (Cons b bs)
    then show ?case using bind_stop_controls controls_only_trans by (metis fold_simps(2))
  qed
  then show ?thesis by (simp add: bind_covering_stops_def)
qed

lemma controls_only_sel:
  assumes "controls_only db db'"
  shows "db_jobs db' = db_jobs db" "db_stops db' = db_stops db" "db_holds db' = db_holds db"
    "db_evidence db' = db_evidence db" "db_resolutions db' = db_resolutions db" "db_notices db' = db_notices db"
    "db_topics db' = db_topics db"
  using assms by (auto simp: controls_only_def)

lemma stop_notice_only: "stop_notice w r b now nid db = Inr (x, db') \<Longrightarrow> notices_only db db'"
  by (auto simp: stop_notice_def attempt_Inr notices_only_refl split: option.splits if_splits
      dest: prepare_notice_only)

lemma each_sync_only: "each_row (\<lambda>i. sync_job i now) is db = Inr db' \<Longrightarrow> notices_only db db'"
  by (rule each_row_invariant [where P = "notices_only db"])
    (auto simp: notices_only_refl intro: notices_only_trans dest: sync_job_only)

lemma cancel_unstarted_effect:
  assumes "cancel_unstarted_for_stop t now db = Inr (n, db')"
  shows "n = count_jobs (unstarted_unheld db t) db \<and>
    notices_only (update_jobs (unstarted_unheld db t) (cancel_queued_job now) db) db'"
  using assms by (auto simp: cancel_unstarted_for_stop_def Let_def attempt_Inr dest: each_sync_only)

lemma note_message_sel:
  "db_jobs (note_message c m db) = db_jobs db" "db_stops (note_message c m db) = db_stops db"
  "db_holds (note_message c m db) = db_holds db" "db_evidence (note_message c m db) = db_evidence db"
  "db_resolutions (note_message c m db) = db_resolutions db" "db_topics (note_message c m db) = db_topics db"
  "db_controls (note_message c m db) = db_controls db"
  by (simp_all add: note_message_def)

lemma unheld_note_message: "unstarted_unheld (note_message c m db) t = unstarted_unheld db t"
  by (simp add: fun_eq_iff unstarted_unheld_def pending_hold_def note_message_sel)

text \<open>The new stop, after the queued work is gone and before older stops are completed.\<close>

lemma fresh_stop_steps:
  assumes "fresh_stop w q now rid nid db = Inr ((i, n, p), db')"
  obtains db1 s where
    "cancel_unstarted_for_stop (sq_topic_id q) now (note_message (sq_chat_id q) (sq_message_id q) db) = Inr (nat n, db1)"
    "s = new_stop q rid (first_by (\<lambda>a b. pj_created_at a \<le> pj_created_at b) (still_active db1 (sq_topic_id q)) (db_jobs db1)) (nat n) now"
    "i = rid" "p = st_pending s" "0 \<le> n"
    "notices_only (complete_finished_stops (sq_topic_id q) now
       (bind_covering_stops (db1\<lparr>db_stops := db_stops db1 @ [s]\<rparr>))) db'"
  using assms
  by (auto simp: fresh_stop_def attempt_Inr Let_def notices_only_refl split: if_splits dest: stop_notice_only)

lemma request_stop_cases:
  assumes "request_stop w q now rid nid db = (Inr x, db')"
  obtains (repeat) s where "find (\<lambda>s. st_chat_id s = sq_chat_id q \<and> st_message_id s = sq_message_id q) (db_stops db) = Some s"
      "repeated_stop w q s now nid db = Inr (x, db')"
    | (fresh) "find (\<lambda>s. st_chat_id s = sq_chat_id q \<and> st_message_id s = sq_message_id q) (db_stops db) = None"
      "fresh_stop w q now rid nid db = Inr (x, db')"
  using assms unfolding request_stop_def
  by (auto simp: transact_Inr_iff split: if_splits option.splits)

lemma fresh_stop_jobs:
  assumes "fresh_stop w q now rid nid db = Inr ((i, n, p), db')"
  shows "db_jobs db' = map (\<lambda>j. if unstarted_unheld db (sq_topic_id q) j then cancel_queued_job now j else j) (db_jobs db)"
    and "n = int (count_jobs (unstarted_unheld db (sq_topic_id q)) db)"
    and "\<not> p \<Longrightarrow> \<not> exists_row (still_active db' (sq_topic_id q)) (db_jobs db')"
    and "db_holds db' = db_holds db"
proof -
  let ?o = "note_message (sq_chat_id q) (sq_message_id q) db" and ?t = "sq_topic_id q"
  obtain db1 s where c: "cancel_unstarted_for_stop ?t now ?o = Inr (nat n, db1)"
    and s: "s = new_stop q rid (first_by (\<lambda>a b. pj_created_at a \<le> pj_created_at b) (still_active db1 ?t) (db_jobs db1)) (nat n) now"
    and p: "p = st_pending s" "0 \<le> n"
    and d: "notices_only (complete_finished_stops ?t now (bind_covering_stops (db1\<lparr>db_stops := db_stops db1 @ [s]\<rparr>))) db'"
    using fresh_stop_steps [OF assms] by metis
  note e = cancel_unstarted_effect [OF c]
  have n1: "notices_only (update_jobs (unstarted_unheld ?o ?t) (cancel_queued_job now) ?o) db1" using e by blast
  note b = controls_only_sel [OF bind_controls [of "db1\<lparr>db_stops := db_stops db1 @ [s]\<rparr>"]]
  have same: "db_jobs db' = db_jobs db1" "db_holds db' = db_holds db1" "db_evidence db' = db_evidence db1"
      "db_resolutions db' = db_resolutions db1"
    using b by (simp_all add: notices_only_sel [OF d] complete_finished_stops_def)
  show "db_jobs db' = map (\<lambda>j. if unstarted_unheld db ?t j then cancel_queued_job now j else j) (db_jobs db)"
    by (simp add: same notices_only_sel [OF n1] update_jobs_def update_where_def note_message_sel unheld_note_message)
  show "db_holds db' = db_holds db"
    by (simp add: same notices_only_sel [OF n1] update_jobs_def note_message_sel)
  show "n = int (count_jobs (unstarted_unheld db ?t) db)"
    using e p(2) by (auto simp: unheld_note_message count_jobs_def note_message_sel)
  show "\<not> p \<Longrightarrow> \<not> exists_row (still_active db' ?t) (db_jobs db')"
    using s p(1) first_by_None [of _ "still_active db1 ?t" "db_jobs db1"]
    by (auto simp: new_stop_def exists_row_iff same still_active_def uncertain_def resolved_outcome_def terminal_outcome_def)
qed

text \<open>A new emergency stop is complete at once for waiting work: it cancels exactly the queued and
  retry-waiting jobs of the topic that do not await the owner's decision, counts them, changes no
  other job, and when it reports that nothing is pending, no job of the topic is leased, executing
  or of unknown outcome.\<close>

theorem stop_request_outcome:
  assumes "request_stop w q now rid nid db = (Inr (i, n, pending), db')"
    and "\<forall>s \<in> set (db_stops db). st_chat_id s \<noteq> sq_chat_id q \<or> st_message_id s \<noteq> sq_message_id q"
  shows "db_jobs db' = map (\<lambda>j. if unstarted_unheld db (sq_topic_id q) j then cancel_queued_job now j else j) (db_jobs db) \<and>
     n = int (count_jobs (unstarted_unheld db (sq_topic_id q)) db) \<and>
     (\<forall>j \<in> set (db_jobs db'). pj_topic_id j = sq_topic_id q \<longrightarrow> pj_status j \<in> {Queued, Retry_wait} \<longrightarrow>
        pending_hold db' (pj_job_id j)) \<and>
     (\<not> pending \<longrightarrow> (\<forall>j \<in> set (db_jobs db'). pj_topic_id j = sq_topic_id q \<longrightarrow>
        pj_status j \<notin> {Leased, Executing} \<and> \<not> uncertain db' j))"
proof -
  have "fresh_stop w q now rid nid db = Inr ((i, n, pending), db')"
    using assms(1)
  proof (cases rule: request_stop_cases)
    case (repeat s)
    then show ?thesis using assms(2) find_Some_set by fast
  qed simp
  note f = fresh_stop_jobs [OF this]
  have "pending_hold db' (pj_job_id j)"
    if j: "j \<in> set (db_jobs db')" "pj_topic_id j = sq_topic_id q" "pj_status j \<in> {Queued, Retry_wait}" for j
    using j unfolding f(1)
    by (auto simp: unstarted_unheld_def pending_hold_def f(4) cancel_queued_job_def split: if_splits)
  then show ?thesis using f by (auto simp: exists_row_iff still_active_def)
qed

section \<open>Completed stops stay truthful\<close>

lemma work_moves_only:
  assumes "db_jobs db' = db_jobs db" "db_stops db' = db_stops db" "db_holds db' = db_holds db"
    "db_evidence db' = db_evidence db" "db_resolutions db' = db_resolutions db"
  shows "work_moves db db'"
  using assms by (simp add: work_moves_def list.rel_refl)

lemma stop_waits_same:
  "db_jobs db' = db_jobs db \<Longrightarrow> db_holds db' = db_holds db \<Longrightarrow> db_evidence db' = db_evidence db \<Longrightarrow>
   db_resolutions db' = db_resolutions db \<Longrightarrow> stop_waits db' = stop_waits db"
  by (simp add: fun_eq_iff stop_waits_def unfinished_def uncertain_def resolved_outcome_def terminal_outcome_def stop_covers_def)

lemma quiet_work_moves: "quiet_step now db db' \<Longrightarrow> work_moves db db'"
  using quiet_step_jobs by (auto simp: work_moves_def quiet_step_def)

lemma new_stop_idle:
  assumes "first_by le (still_active db t) (db_jobs db) = None"
    and "\<forall>j \<in> set (db_jobs db). pj_topic_id j = t \<longrightarrow> pj_status j \<in> {Queued, Retry_wait} \<longrightarrow> pending_hold db (pj_job_id j)"
    and "\<forall>h \<in> set (db_holds db). hd_held_at h \<le> st_created_at s" "st_topic_id s = t"
  shows "\<not> stop_waits db s"
proof -
  have "\<not> (unfinished db j \<and> stop_covers db s j)" if "j \<in> set (db_jobs db)" for j
    using assms that
    by (auto simp: first_by_None exists_row_iff still_active_def unfinished_def stop_covers_def pending_hold_def)
  then show ?thesis by (auto simp: stop_waits_def exists_row_iff)
qed

text \<open>The stop request keeps the records of stops truthful: whatever it returns, the completed
  stops before it, the new one when it is recorded as completed, and those it completes cover no
  work that waits, runs or has an unknown outcome, provided no hold lies in the future.\<close>

theorem stop_request_keeps_truth:
  assumes "request_stop w q now rid nid db = (r, db')" "stops_settled db"
    and "\<forall>h \<in> set (db_holds db). hd_held_at h \<le> now"
  shows "\<forall>s \<in> set (db_stops db'). \<not> st_pending s \<longrightarrow>
     (\<forall>j \<in> set (db_jobs db'). stop_covers db' s j \<longrightarrow> \<not> unfinished db' j)"
proof -
  have "stops_settled db'"
  proof (cases r)
    case (Inl e)
    then have "db' = db" using assms(1) by (auto simp: request_stop_def transact_def split: if_splits sum.splits option.splits prod.splits)
    then show ?thesis using assms(2) by simp
  next
    case (Inr x)
    from assms(1) [unfolded Inr] show ?thesis
    proof (cases rule: request_stop_cases)
      case (repeat s)
      then obtain m where m: "notices_only db m" "db' = bind_covering_stops m"
        by (auto simp: repeated_stop_def attempt_Inr notices_only_refl split: if_splits dest: stop_notice_only)
      have "work_moves db db'"
        by (rule work_moves_only) (simp_all add: m(2) controls_only_sel [OF bind_controls] notices_only_sel [OF m(1)])
      then show ?thesis using settled_moves assms(2) by blast
    next
      case fresh
      obtain i n p where x: "x = (i, n, p)" by (cases x) auto
      let ?o = "note_message (sq_chat_id q) (sq_message_id q) db" and ?t = "sq_topic_id q"
      obtain db1 s where c: "cancel_unstarted_for_stop ?t now ?o = Inr (nat n, db1)"
        and s: "s = new_stop q rid (first_by (\<lambda>a b. pj_created_at a \<le> pj_created_at b) (still_active db1 ?t) (db_jobs db1)) (nat n) now"
        and d: "notices_only (complete_finished_stops ?t now (bind_covering_stops (db1\<lparr>db_stops := db_stops db1 @ [s]\<rparr>))) db'"
        using fresh_stop_steps [OF fresh(2) [unfolded x]] by metis
      let ?m = "update_jobs (unstarted_unheld ?o ?t) (cancel_queued_job now) ?o"
      have n1: "notices_only ?m db1" using cancel_unstarted_effect [OF c] by blast
      have "quiet_step now ?o ?m"
        by (rule quiet_update_jobs) (simp add: unstarted_unheld_def quiet_cancel_queued)
      moreover have "work_moves db ?o" by (rule work_moves_only) (simp_all add: note_message_sel)
      moreover have "work_moves ?m db1" by (rule work_moves_only) (simp_all add: notices_only_sel [OF n1])
      ultimately have "work_moves db db1" using quiet_work_moves work_moves_trans by blast
      then have s1: "stops_settled db1" using settled_moves assms(2) by blast
      have holds: "db_holds db1 = db_holds db" by (simp add: notices_only_sel [OF n1] update_jobs_def note_message_sel)
      have left: "\<forall>j \<in> set (db_jobs db1). pj_topic_id j = ?t \<longrightarrow> pj_status j \<in> {Queued, Retry_wait} \<longrightarrow> pending_hold db1 (pj_job_id j)"
        by (auto simp: notices_only_sel [OF n1] update_jobs_def set_update_where unstarted_unheld_def pending_hold_def
            cancel_queued_job_def split: if_splits)
      have new: "\<not> st_pending s \<Longrightarrow> \<not> stop_waits db1 s"
        by (rule new_stop_idle [OF _ left]) (use assms(3) holds in \<open>auto simp: s new_stop_def\<close>)
      let ?a = "db1\<lparr>db_stops := db_stops db1 @ [s]\<rparr>"
      have "stop_waits ?a = stop_waits db1" by (rule stop_waits_same) simp_all
      then have "stops_settled ?a" using s1 new by (auto simp: stops_settled_def)
      moreover have "work_moves ?a (bind_covering_stops ?a)"
        by (rule work_moves_only) (simp_all add: controls_only_sel [OF bind_controls])
      moreover have "work_moves (complete_finished_stops ?t now (bind_covering_stops ?a)) db'"
        by (rule work_moves_only) (simp_all add: notices_only_sel [OF d])
      ultimately show ?thesis
        using settled_moves quiet_work_moves [OF quiet_complete_finished] by meson
    qed
  qed
  then show ?thesis by (auto simp: stops_settled_def stop_waits_def exists_row_iff)
qed

section \<open>Repeated stop messages\<close>

definition stop_of_message :: "stop_call \<Rightarrow> db \<Rightarrow> provider_stop option" where
  "stop_of_message q db = find (\<lambda>s. st_chat_id s = sq_chat_id q \<and> st_message_id s = sq_message_id q) (db_stops db)"

lemma stop_of_message_completed:
  "stop_of_message q (complete_finished_stops t u db) =
   map_option (\<lambda>s. if finished_stop db t s then s\<lparr>st_pending := False, st_completed_at := Some u\<rparr> else s)
     (stop_of_message q db)"
  using find_update_where [of "\<lambda>s. (st_chat_id s, st_message_id s)" "\<lambda>s. s\<lparr>st_pending := False, st_completed_at := Some u\<rparr>"
      "(sq_chat_id q, sq_message_id q)" "finished_stop db t" "db_stops db"]
  by (simp add: stop_of_message_def complete_finished_stops_def)

lemma request_stop_recorded:
  assumes "request_stop w q now rid nid db = (Inr (i, n, p), db')"
  shows "\<exists>s. stop_of_message q db' = Some s \<and> st_request_id s = i \<and> st_cancelled_queued_count s = n \<and> st_topic_id s = sq_topic_id q"
  using assms
proof (cases rule: request_stop_cases)
  case (repeat s)
  then obtain m where m: "notices_only db m" "db' = bind_covering_stops m" "i = st_request_id s"
      "n = st_cancelled_queued_count s" "st_topic_id s = sq_topic_id q"
    by (auto simp: repeated_stop_def attempt_Inr notices_only_refl split: if_splits dest: stop_notice_only)
  have "db_stops db' = db_stops db"
    by (simp add: m(2) controls_only_sel [OF bind_controls] notices_only_sel [OF m(1)])
  then show ?thesis using repeat(1) m by (simp add: stop_of_message_def)
next
  case fresh
  let ?o = "note_message (sq_chat_id q) (sq_message_id q) db" and ?t = "sq_topic_id q"
  obtain db1 s where c: "cancel_unstarted_for_stop ?t now ?o = Inr (nat n, db1)"
    and s: "s = new_stop q rid (first_by (\<lambda>a b. pj_created_at a \<le> pj_created_at b) (still_active db1 ?t) (db_jobs db1)) (nat n) now"
    and i: "i = rid" "0 \<le> n"
    and d: "notices_only (complete_finished_stops ?t now (bind_covering_stops (db1\<lparr>db_stops := db_stops db1 @ [s]\<rparr>))) db'"
    using fresh_stop_steps [OF fresh(2)] by metis
  have n1: "notices_only (update_jobs (unstarted_unheld ?o ?t) (cancel_queued_job now) ?o) db1"
    using cancel_unstarted_effect [OF c] by blast
  have "db_stops db1 = db_stops db" by (simp add: notices_only_sel [OF n1] update_jobs_def note_message_sel)
  then have "stop_of_message q (bind_covering_stops (db1\<lparr>db_stops := db_stops db1 @ [s]\<rparr>)) = Some s"
    using fresh(1) by (simp add: stop_of_message_def controls_only_sel [OF bind_controls] find_append_None s new_stop_def)
  then show ?thesis
    using stop_of_message_completed [of q ?t now "bind_covering_stops (db1\<lparr>db_stops := db_stops db1 @ [s]\<rparr>)"] i
    by (simp add: stop_of_message_def notices_only_sel [OF d] s new_stop_def)
qed

text \<open>A stop message is handled once: after a stop request succeeded, the same message again,
  at any later time, returns the same request and count and changes no job and no stop record.\<close>

theorem stop_request_repeats:
  assumes "request_stop w q now rid nid db = (Inr (i, n, p), db1)"
    and "request_stop w q now' rid' nid' db1 = (r, db2)"
  shows "db_jobs db2 = db_jobs db1 \<and> db_stops db2 = db_stops db1 \<and>
     (\<forall>i' n' p'. r = Inr (i', n', p') \<longrightarrow> i' = i \<and> n' = n)"
proof (cases r)
  case (Inl e)
  then have "db2 = db1" using assms(2) by (auto simp: request_stop_def transact_def split: if_splits sum.splits option.splits prod.splits)
  then show ?thesis using Inl by simp
next
  case (Inr x)
  obtain s where s: "stop_of_message q db1 = Some s" "st_request_id s = i" "st_cancelled_queued_count s = n"
    using request_stop_recorded [OF assms(1)] by blast
  from assms(2) [unfolded Inr] show ?thesis
  proof (cases rule: request_stop_cases)
    case (repeat s')
    then have "s' = s" using s(1) by (simp add: stop_of_message_def)
    then obtain m where m: "notices_only db1 m" "db2 = bind_covering_stops m" "x = (i, n, st_pending s)"
      using repeat(2) s by (auto simp: repeated_stop_def attempt_Inr notices_only_refl split: if_splits dest: stop_notice_only)
    then show ?thesis
      using Inr by (simp add: controls_only_sel [OF bind_controls] notices_only_sel [OF m(1)])
  next
    case fresh
    then show ?thesis using s(1) by (simp add: stop_of_message_def)
  qed
qed

section \<open>Examples\<close>

definition example_stop_call :: stop_call where
  "example_stop_call = \<lparr>sq_topic_id = 1, sq_chat_id = 7, sq_message_id = 9, sq_target_agent_id = ''codex'',
     sq_prepare_notice = False\<rparr>"

definition waiting_hub :: db where
  "waiting_hub = example_hub [example_job ''a'' 1 Queued, example_job ''b'' 2 Leased]"

lemma example_stop_runs:
  "\<exists>n p db'. request_stop (\<lambda>_. ''stop'') example_stop_call 10 ''r'' ''n'' waiting_hub = (Inr (''r'', n, p), db')"
proof -
  have "py_strip ''codex'' = ''codex''" by (simp add: py_strip_def py_space_def)
  then show ?thesis
    by (simp add: request_stop_def example_stop_call_def waiting_hub_def example_hub_def example_topic_def topic_of_def
        empty_db_def fresh_stop_def cancel_unstarted_for_stop_def note_message_def unsent_notice_jobs_def exists_row_def
        update_jobs_def Let_def transact_def)
qed

theorem stop_request_outcome_witness:
  "\<exists>n p db'. request_stop (\<lambda>_. ''stop'') example_stop_call 10 ''r'' ''n'' waiting_hub = (Inr (''r'', n, p), db') \<and> n = 1"
proof -
  obtain n p db' where r: "request_stop (\<lambda>_. ''stop'') example_stop_call 10 ''r'' ''n'' waiting_hub = (Inr (''r'', n, p), db')"
    using example_stop_runs by blast
  have "\<forall>s \<in> set (db_stops waiting_hub). st_chat_id s \<noteq> sq_chat_id example_stop_call \<or> st_message_id s \<noteq> sq_message_id example_stop_call"
    by (simp add: waiting_hub_def example_hub_def empty_db_def)
  from stop_request_outcome [OF r this]
  have "n = int (count_jobs (unstarted_unheld waiting_hub (sq_topic_id example_stop_call)) waiting_hub)" by blast
  moreover have "count_jobs (unstarted_unheld waiting_hub (sq_topic_id example_stop_call)) waiting_hub = 1"
    by (simp add: count_jobs_def count_where_def unstarted_unheld_def pending_hold_def exists_row_def waiting_hub_def
        example_hub_def example_job_def example_stop_call_def empty_db_def)
  ultimately show ?thesis using r by simp
qed

theorem stop_request_keeps_truth_witness:
  "\<exists>r db'. request_stop (\<lambda>_. ''stop'') example_stop_call 10 ''r'' ''n'' waiting_hub = (r, db') \<and>
     (\<forall>s \<in> set (db_stops db'). \<not> st_pending s \<longrightarrow> (\<forall>j \<in> set (db_jobs db'). stop_covers db' s j \<longrightarrow> \<not> unfinished db' j))"
proof -
  obtain r db' where r: "request_stop (\<lambda>_. ''stop'') example_stop_call 10 ''r'' ''n'' waiting_hub = (r, db')"
    by (meson surj_pair)
  have "stops_settled waiting_hub" "\<forall>h \<in> set (db_holds waiting_hub). hd_held_at h \<le> 10"
    by (simp_all add: stops_settled_def waiting_hub_def example_hub_def empty_db_def)
  from stop_request_keeps_truth [OF r this] r show ?thesis by blast
qed

theorem stop_request_repeats_witness:
  "\<exists>n p db1 r db2. request_stop (\<lambda>_. ''stop'') example_stop_call 10 ''r'' ''n'' waiting_hub = (Inr (''r'', n, p), db1) \<and>
     request_stop (\<lambda>_. ''stop'') example_stop_call 20 ''r2'' ''n2'' db1 = (r, db2) \<and> db_jobs db2 = db_jobs db1"
proof -
  obtain n p db1 where a: "request_stop (\<lambda>_. ''stop'') example_stop_call 10 ''r'' ''n'' waiting_hub = (Inr (''r'', n, p), db1)"
    using example_stop_runs by blast
  obtain r db2 where b: "request_stop (\<lambda>_. ''stop'') example_stop_call 20 ''r2'' ''n2'' db1 = (r, db2)" by (meson surj_pair)
  show ?thesis using stop_request_repeats [OF a b] a b by blast
qed

end
