(* ===== verification/Delivery_Receipts.thy ===== *)
theory Delivery_Receipts
  imports Control_Predicates
begin

text \<open>
  The evidence of Telegram sends (\<open>delivery_receipts.py\<close>): an attempt is recorded when a send
  begins, a receipt when Telegram confirmed it, and \<open>settle_receipt\<close> projects a receipt on the delivery
  it proves, when that delivery is still exactly the one that was sent. The SHA-256 of the
  canonical JSON of the joined row is the parameter \<open>digest\<close>, a function of that row.
\<close>

section \<open>The bound row\<close>

type_synonym job_binding = "string \<times> int \<times> int \<times> int \<times> string"
type_synonym topic_binding = "string \<times> int \<times> int"

datatype binding_row =
    Final_binding "string \<times> string \<times> string \<times> int \<times> int \<times> outbox_purpose \<times> string"
      "int \<times> string \<times> part_type \<times> string option \<times> string option \<times> int option \<times> string option"
      job_binding topic_binding
  | Progress_binding "string \<times> int \<times> string \<times> string \<times> int \<times> int \<times> string" job_binding topic_binding

definition job_columns :: "provider_job \<Rightarrow> job_binding" where
  "job_columns j = (pj_session_id j, pj_session_generation j, pj_topic_id j, pj_topic_sequence j, pj_agent_id j)"

definition topic_columns :: "topic_row \<Rightarrow> topic_binding" where
  "topic_columns t = (tp_project_id t, tp_chat_id t, tp_thread_id t)"

definition outbox_of :: "db \<Rightarrow> string \<Rightarrow> outbox_row option" where
  "outbox_of db i = find (\<lambda>o'. ob_outbox_id o' = i) (db_outbox db)"

definition part_of :: "db \<Rightarrow> string \<Rightarrow> int \<Rightarrow> outbox_part option" where
  "part_of db i p = find (\<lambda>r. (op_outbox_id r, op_part_index r) = (i, p)) (db_parts db)"

definition progress_of :: "db \<Rightarrow> string \<Rightarrow> progress_row option" where
  "progress_of db i = find (\<lambda>p. pg_progress_id p = i) (db_progress db)"

definition job_and_topic :: "db \<Rightarrow> string \<Rightarrow> (job_binding \<times> topic_binding) option" where
  "job_and_topic db i = Option.bind (job_of db i) (\<lambda>j.
     map_option (\<lambda>t. (job_columns j, topic_columns t)) (topic_of db (pj_topic_id j)))"

definition binding :: "db \<Rightarrow> target_kind \<Rightarrow> string \<Rightarrow> int \<Rightarrow> binding_row option" where
  "binding db kind target part =
     (case kind of
        Final_target \<Rightarrow>
          Option.bind (outbox_of db target) (\<lambda>r. Option.bind (part_of db target part) (\<lambda>p.
            map_option (\<lambda>(j, t). Final_binding
              (ob_outbox_id r, ob_job_id r, ob_sender_agent_id r, ob_chat_id r, ob_thread_id r, ob_purpose r, ob_telegram_html r)
              (op_part_index p, op_telegram_html p, op_part_type p, op_file_path p, op_file_name p, op_file_size p, op_file_sha256 p)
              j t) (job_and_topic db (ob_job_id r))))
      | Progress_target \<Rightarrow>
          Option.bind (progress_of db target) (\<lambda>p.
            map_option (\<lambda>(j, t). Progress_binding
              (pg_progress_id p, pg_item_sequence p, pg_job_id p, pg_sender_agent_id p, pg_chat_id p, pg_thread_id p,
               pg_telegram_html p) j t) (job_and_topic db (pg_job_id p))))"

section \<open>Attempts and receipts\<close>

definition attempt_of :: "db \<Rightarrow> string \<Rightarrow> send_attempt option" where
  "attempt_of db token = find (\<lambda>a. sa_attempt_id a = token) (db_attempts db)"

definition receipt_of :: "db \<Rightarrow> string \<Rightarrow> send_receipt option" where
  "receipt_of db token = find (\<lambda>r. sr_attempt_id r = token) (db_receipts db)"

text \<open>\<open>AUTOINCREMENT\<close>: attempts are never deleted, so the next number follows the largest one.\<close>

definition next_sequence :: "db \<Rightarrow> int" where
  "next_sequence db = fold max (map sa_sequence (db_attempts db)) 0 + 1"

definition begin_attempt ::
  "(binding_row \<Rightarrow> string) \<Rightarrow> target_kind \<Rightarrow> string \<Rightarrow> string \<Rightarrow> int \<Rightarrow> time \<Rightarrow> db \<Rightarrow> state_error + db" where
  "begin_attempt digest kind target token part now db =
     (case binding db kind target part of
        None \<Rightarrow> Inl (State_error ''send target disappeared'')
      | Some b \<Rightarrow>
          if attempt_of db token \<noteq> None \<or> token = [] \<or> 128 < length token \<or> part \<le> 0
          then Inl (Integrity_error ''telegram_send_attempts'')
          else Inr (db\<lparr>db_attempts := db_attempts db @
            [\<lparr>sa_sequence = next_sequence db, sa_attempt_id = token, sa_kind = kind, sa_target_id = target,
              sa_part_index = part, sa_binding_hash = digest b, sa_started_at = now\<rparr>]\<rparr>))"

definition record_receipt ::
  "target_kind \<Rightarrow> string \<Rightarrow> string \<Rightarrow> int option \<Rightarrow> int \<Rightarrow> time \<Rightarrow> db \<Rightarrow> state_error + db" where
  "record_receipt kind target token part message now db =
     (if message \<le> 0 then Inl (State_error ''invalid Telegram message id'')
      else if (case attempt_of db token of None \<Rightarrow> True
               | Some a \<Rightarrow> sa_kind a \<noteq> kind \<or> sa_target_id a \<noteq> target \<or> (part \<noteq> None \<and> part \<noteq> Some (sa_part_index a)))
      then Inl (State_error ''receipt does not match the exact send attempt'')
      else (case receipt_of db token of
          Some old \<Rightarrow> if sr_telegram_message_id old \<noteq> message
            then Inl (State_error ''conflicting Telegram receipt'') else Inr db
        | None \<Rightarrow> Inr (db\<lparr>db_receipts := db_receipts db @
            [\<lparr>sr_attempt_id = token, sr_telegram_message_id = message, sr_recorded_at = now\<rparr>]\<rparr>)))"

section \<open>Settlement\<close>

definition newer_attempt :: "db \<Rightarrow> send_attempt \<Rightarrow> bool" where
  "newer_attempt db a = exists_row (\<lambda>b. sa_kind b = sa_kind a \<and> sa_target_id b = sa_target_id a \<and>
     sa_part_index b = sa_part_index a \<and> sa_sequence a < sa_sequence b) (db_attempts db)"

definition disposed :: "db \<Rightarrow> target_kind \<Rightarrow> string \<Rightarrow> bool" where
  "disposed db kind target \<longleftrightarrow>
     exists_row (\<lambda>d. (cx_final_outbox d \<and> cx_outbox_id d = Some target \<and> kind = Final_target) \<or>
       (\<not> cx_final_outbox d \<and> cx_progress_id d = Some target \<and> kind = Progress_target)) (db_control_dispositions db) \<or>
     exists_row (\<lambda>h. hx_outbox_id h = target \<and> kind = Final_target) (db_hold_dispositions db)"

text \<open>The columns of the delivery that must still be those of the attempt.\<close>

definition delivery_current :: "delivery_status \<Rightarrow> string option \<Rightarrow> time option \<Rightarrow> send_attempt \<Rightarrow> bool" where
  "delivery_current status token started a \<longleftrightarrow> status \<in> {Ds_sending, Ds_unknown} \<and>
     started = Some (sa_started_at a) \<and> (status = Ds_sending \<longrightarrow> token = Some (sa_attempt_id a))"

definition unsent_indexes :: "db \<Rightarrow> string \<Rightarrow> int list" where
  "unsent_indexes db i = map op_part_index
     (filter (\<lambda>p. op_outbox_id p = i \<and> op_telegram_message_id p = None) (db_parts db))"

text \<open>\<open>SELECT MIN(part_index) ... WHERE telegram_message_id IS NULL\<close>, NULL when there is none.\<close>

definition first_unsent :: "db \<Rightarrow> string \<Rightarrow> int option" where
  "first_unsent db i = (case unsent_indexes db i of [] \<Rightarrow> None | x # xs \<Rightarrow> Some (fold min xs x))"

definition settles_job :: "db \<Rightarrow> outbox_row \<Rightarrow> bool" where
  "settles_job db r = (case job_of db (ob_job_id r) of None \<Rightarrow> False
     | Some j \<Rightarrow> pj_status j \<in> {Result_ready, Failed, Indeterminate} \<or>
         (ob_sender_agent_id r = ''hub'' \<and> pj_status j = Cancelled))"

definition deliver_part :: "string \<Rightarrow> int \<Rightarrow> send_receipt \<Rightarrow> db \<Rightarrow> db" where
  "deliver_part target part r db = db\<lparr>db_parts := update_where
     (\<lambda>p. (op_outbox_id p, op_part_index p) = (target, part))
     (\<lambda>p. p\<lparr>op_telegram_message_id := Some (sr_telegram_message_id r), op_delivered_at := Some (sr_recorded_at r),
            op_receipt_validation_version := 1\<rparr>) (db_parts db)\<rparr>"

definition set_outbox :: "string \<Rightarrow> (outbox_row \<Rightarrow> outbox_row) \<Rightarrow> db \<Rightarrow> db" where
  "set_outbox i f db = db\<lparr>db_outbox := update_where (\<lambda>r. ob_outbox_id r = i) f (db_outbox db)\<rparr>"

definition set_progress :: "string \<Rightarrow> (progress_row \<Rightarrow> progress_row) \<Rightarrow> db \<Rightarrow> db" where
  "set_progress i f db = db\<lparr>db_progress := update_where (\<lambda>p. pg_progress_id p = i) f (db_progress db)\<rparr>"

definition next_part :: "time \<Rightarrow> outbox_row \<Rightarrow> outbox_row" where
  "next_part t r = r\<lparr>ob_status := Ds_pending, ob_attempt_count := max (ob_attempt_count r - 1) 0, ob_available_at := t,
     ob_updated_at := t, ob_lease_owner := None, ob_lease_token := None, ob_lease_expires_at := None,
     ob_send_started_at := None, ob_error_code := None\<rparr>"

definition outbox_delivered :: "send_receipt \<Rightarrow> outbox_row \<Rightarrow> outbox_row" where
  "outbox_delivered c r = r\<lparr>ob_status := Ds_delivered, ob_telegram_message_id := Some (sr_telegram_message_id c),
     ob_delivered_at := Some (sr_recorded_at c), ob_updated_at := sr_recorded_at c, ob_lease_owner := None,
     ob_lease_token := None, ob_lease_expires_at := None, ob_error_code := None\<rparr>"

definition progress_delivered :: "send_receipt \<Rightarrow> progress_row \<Rightarrow> progress_row" where
  "progress_delivered c r = r\<lparr>pg_status := Ds_delivered, pg_telegram_message_id := Some (sr_telegram_message_id c),
     pg_delivered_at := Some (sr_recorded_at c), pg_updated_at := sr_recorded_at c, pg_lease_owner := None,
     pg_lease_token := None, pg_lease_expires_at := None, pg_error_code := None\<rparr>"

definition complete_delivered_job :: "string \<Rightarrow> time \<Rightarrow> db \<Rightarrow> db" where
  "complete_delivered_job i t db = db\<lparr>db_jobs := update_where
     (\<lambda>j. pj_job_id j = i \<and> pj_status j = Result_ready)
     (\<lambda>j. j\<lparr>pj_status := Completed, pj_updated_at := t\<rparr>) (db_jobs db)\<rparr>"

definition settle_final :: "send_attempt \<Rightarrow> send_receipt \<Rightarrow> db \<Rightarrow> bool \<times> db" where
  "settle_final a c db =
     (case outbox_of db (sa_target_id a) of
        None \<Rightarrow> (False, db)
      | Some r \<Rightarrow>
          if \<not> delivery_current (ob_status r) (ob_lease_token r) (ob_send_started_at r) a \<or> \<not> settles_job db r \<or>
             first_unsent db (sa_target_id a) \<noteq> Some (sa_part_index a)
          then (False, db)
          else let db1 = deliver_part (sa_target_id a) (sa_part_index a) c db in
            if unsent_indexes db1 (sa_target_id a) \<noteq> []
            then (True, set_outbox (sa_target_id a) (next_part (sr_recorded_at c)) db1)
            else (True, complete_delivered_job (ob_job_id r) (sr_recorded_at c)
                    (set_outbox (sa_target_id a) (outbox_delivered c) db1)))"

definition settle_progress :: "send_attempt \<Rightarrow> send_receipt \<Rightarrow> db \<Rightarrow> bool \<times> db" where
  "settle_progress a c db =
     (case progress_of db (sa_target_id a) of
        None \<Rightarrow> (False, db)
      | Some r \<Rightarrow>
          if \<not> delivery_current (pg_status r) (pg_lease_token r) (pg_send_started_at r) a then (False, db)
          else (True, set_progress (sa_target_id a) (progress_delivered c) db))"

definition settle_receipt :: "(binding_row \<Rightarrow> string) \<Rightarrow> string \<Rightarrow> db \<Rightarrow> bool \<times> db" where
  "settle_receipt digest token db =
     (case (attempt_of db token, receipt_of db token) of
        (Some a, Some c) \<Rightarrow>
          if map_option digest (binding db (sa_kind a) (sa_target_id a) (sa_part_index a)) \<noteq> Some (sa_binding_hash a) \<or>
             newer_attempt db a \<or> disposed db (sa_kind a) (sa_target_id a)
          then (False, db)
          else (case sa_kind a of Final_target \<Rightarrow> settle_final a c db | Progress_target \<Rightarrow> settle_progress a c db)
      | _ \<Rightarrow> (False, db))"

section \<open>Paging through receipts that are not yet projected\<close>

text \<open>The status and the sender of the delivery an attempt is about.\<close>

definition target_row :: "db \<Rightarrow> target_kind \<Rightarrow> string \<Rightarrow> (delivery_status \<times> string) option" where
  "target_row db kind i =
     (case kind of
        Final_target \<Rightarrow> map_option (\<lambda>r. (ob_status r, ob_sender_agent_id r)) (outbox_of db i)
      | Progress_target \<Rightarrow> map_option (\<lambda>r. (pg_status r, pg_sender_agent_id r)) (progress_of db i))"

definition unprojected :: "db \<Rightarrow> target_kind \<Rightarrow> string list \<Rightarrow> send_attempt \<Rightarrow> bool" where
  "unprojected db kind senders a \<longleftrightarrow>
     sa_kind a = kind \<and> receipt_of db (sa_attempt_id a) \<noteq> None \<and>
     (case target_row db kind (sa_target_id a) of None \<Rightarrow> False
      | Some (status, sender) \<Rightarrow> status \<in> {Ds_sending, Ds_unknown} \<and> sender \<in> set senders) \<and>
     \<not> exists_row (\<lambda>d. cx_outbox_id d = Some (sa_target_id a) \<or> cx_progress_id d = Some (sa_target_id a))
         (db_control_dispositions db) \<and>
     \<not> exists_row (\<lambda>h. hx_outbox_id h = sa_target_id a) (db_hold_dispositions db)"

definition receipt_page :: "db \<Rightarrow> target_kind \<Rightarrow> string list \<Rightarrow> int \<Rightarrow> send_attempt list" where
  "receipt_page db kind senders cursor =
     take 64 (sort_key sa_sequence (filter (\<lambda>a. cursor < sa_sequence a \<and> unprojected db kind senders a) (db_attempts db)))"

type_synonym receipt_cursors = "target_kind \<times> string list \<Rightarrow> int option"

definition pending_receipts ::
  "target_kind \<Rightarrow> string list \<Rightarrow> db \<Rightarrow> receipt_cursors \<Rightarrow> string list \<times> receipt_cursors" where
  "pending_receipts kind senders db cursors =
     (if senders = [] then ([], cursors)
      else let cursor = (case cursors (kind, senders) of None \<Rightarrow> 0 | Some c \<Rightarrow> c);
               page = receipt_page db kind senders cursor;
               rows = (if page = [] \<and> cursor \<noteq> 0 then receipt_page db kind senders 0 else page)
           in (map sa_attempt_id rows,
               cursors((kind, senders) \<mapsto> (if rows = [] then 0 else sa_sequence (last rows)))))"

definition receipt_snapshot :: "target_kind \<Rightarrow> string \<Rightarrow> db \<Rightarrow> (send_attempt \<times> send_receipt option) list" where
  "receipt_snapshot kind target db =
     map (\<lambda>a. (a, receipt_of db (sa_attempt_id a)))
       (sort_key sa_sequence (filter (\<lambda>a. sa_kind a = kind \<and> sa_target_id a = target) (db_attempts db)))"

end
