(* ===== verification/Delivery_State.thy ===== *)
theory Delivery_State
  imports Delivery_Receipts Task_Notices
begin

text \<open>
  The delivery of finals (\<open>state_delivery.py\<close>, the operations on \<open>telegram_outbox\<close> and its parts)
  and the notices about results whose delivery blocks a topic (\<open>delivery_wait.py\<close>). A final
  is leased by a sender, each of its parts is begun, and then confirmed by a receipt, rejected,
  or left unknown.
\<close>

section \<open>Readers\<close>

definition get_outbox :: "db \<Rightarrow> string \<Rightarrow> state_error + outbox_row" where
  "get_outbox db i = (case outbox_of db i of
     None \<Rightarrow> Inl (State_error (''unknown Telegram outbox row: '' @ i)) | Some r \<Rightarrow> Inr r)"

definition get_outbox_for_job :: "db \<Rightarrow> string \<Rightarrow> state_error + outbox_row" where
  "get_outbox_for_job db i = (case find (\<lambda>r. ob_job_id r = i) (db_outbox db) of
     None \<Rightarrow> Inl (State_error (''provider job has no Telegram outbox row: '' @ i)) | Some r \<Rightarrow> Inr r)"

definition get_outbox_parts :: "db \<Rightarrow> string \<Rightarrow> outbox_part list" where
  "get_outbox_parts db i = sort_key op_part_index (filter (\<lambda>p. op_outbox_id p = i) (db_parts db))"

text \<open>A row in the hands of the caller: \<open>sending\<close> under this token, the lease not over.\<close>

definition holds_outbox :: "string \<Rightarrow> outbox_row \<Rightarrow> bool" where
  "holds_outbox token r \<longleftrightarrow> ob_status r = Ds_sending \<and> ob_lease_token r = Some token"

definition current_outbox_lease :: "string \<Rightarrow> time \<Rightarrow> outbox_row \<Rightarrow> bool" where
  "current_outbox_lease token now r \<longleftrightarrow> holds_outbox token r \<and> after (ob_lease_expires_at r) now"

definition part_le :: "outbox_part \<Rightarrow> outbox_part \<Rightarrow> bool" where
  "part_le a b \<longleftrightarrow> op_part_index a \<le> op_part_index b"

definition next_outbox_part :: "db \<Rightarrow> string \<Rightarrow> string \<Rightarrow> time \<Rightarrow> state_error + outbox_part" where
  "next_outbox_part db i token now =
     (case first_by part_le (\<lambda>p. op_outbox_id p = i \<and> op_telegram_message_id p = None \<and>
         exists_row (\<lambda>r. ob_outbox_id r = i \<and> current_outbox_lease token now r) (db_outbox db)) (db_parts db) of
        None \<Rightarrow> Inl (State_error ''Telegram outbox has no sendable part for this lease'')
      | Some p \<Rightarrow> Inr p)"

section \<open>Leases\<close>

definition max_outbox_attempts :: int where "max_outbox_attempts = 20"

definition no_longer_blocks :: "db \<Rightarrow> outbox_row \<Rightarrow> bool" where
  "no_longer_blocks db e \<longleftrightarrow> ob_status e \<in> {Ds_delivered, Ds_failed} \<or>
     outbox_delivery_hold_released db e \<or> final_control_reconciled db e \<or> nonblocking_execution_notice db e"

definition earlier_in_topic :: "db \<Rightarrow> provider_job \<Rightarrow> outbox_row \<Rightarrow> bool" where
  "earlier_in_topic db j e \<longleftrightarrow> exists_row (\<lambda>ej. pj_job_id ej = ob_job_id e \<and>
     pj_topic_id ej = pj_topic_id j \<and> pj_topic_sequence ej < pj_topic_sequence j) (db_jobs db)"

definition outbox_leasable :: "db \<Rightarrow> string \<Rightarrow> time \<Rightarrow> outbox_row \<Rightarrow> bool" where
  "outbox_leasable db sender now r \<longleftrightarrow>
     ob_sender_agent_id r = sender \<and> ob_status r = Ds_pending \<and> ob_available_at r \<le> now \<and>
     ob_attempt_count r < max_outbox_attempts \<and>
     exists_row (\<lambda>j. pj_job_id j = ob_job_id r \<and>
       \<not> exists_row (\<lambda>e. earlier_in_topic db j e \<and> \<not> no_longer_blocks db e) (db_outbox db)) (db_jobs db)"

definition outbox_le :: "outbox_row \<Rightarrow> outbox_row \<Rightarrow> bool" where
  "outbox_le a b \<longleftrightarrow> (ob_created_at a, ob_outbox_id a) \<le> (ob_created_at b, ob_outbox_id b)"

definition grant_outbox :: "string \<Rightarrow> string \<Rightarrow> time \<Rightarrow> int \<Rightarrow> outbox_row \<Rightarrow> outbox_row" where
  "grant_outbox worker token now secs r = r\<lparr>ob_status := Ds_sending, ob_attempt_count := ob_attempt_count r + 1,
     ob_lease_owner := Some worker, ob_lease_token := Some token, ob_lease_expires_at := Some (now + seconds secs),
     ob_error_code := None, ob_send_started_at := None, ob_updated_at := now\<rparr>"

definition update_outbox :: "(outbox_row \<Rightarrow> bool) \<Rightarrow> (outbox_row \<Rightarrow> outbox_row) \<Rightarrow> db \<Rightarrow> db" where
  "update_outbox p f db = db\<lparr>db_outbox := update_where p f (db_outbox db)\<rparr>"

definition count_outbox :: "(outbox_row \<Rightarrow> bool) \<Rightarrow> db \<Rightarrow> nat" where
  "count_outbox p db = count_where p (db_outbox db)"

definition lease_outbox_tx ::
  "string \<Rightarrow> string \<Rightarrow> int \<Rightarrow> time \<Rightarrow> string \<Rightarrow> db \<Rightarrow> state_error + outbox_row option \<times> db" where
  "lease_outbox_tx sender worker secs now token db =
     (case first_by outbox_le (outbox_leasable db sender now) (db_outbox db) of
        None \<Rightarrow> Inr (None, db)
      | Some row \<Rightarrow>
          let p = (\<lambda>r. ob_outbox_id r = ob_outbox_id row \<and> ob_status r = Ds_pending) in
          if count_outbox p db \<noteq> 1 then Inl (State_error ''Telegram outbox lease race'')
          else let db' = update_outbox p (grant_outbox worker token now secs) db in
            (case outbox_of db' (ob_outbox_id row) of
               None \<Rightarrow> Inl (State_error ''leased Telegram outbox row disappeared'')
             | Some r \<Rightarrow> Inr (Some r, db')))"

definition outbox_seconds :: "int \<Rightarrow> state_error + unit" where
  "outbox_seconds secs = check (1 \<le> secs \<and> secs \<le> 3600) (State_error ''invalid Telegram outbox lease duration'')"

definition lease_outbox ::
  "string \<Rightarrow> string \<Rightarrow> int \<Rightarrow> time \<Rightarrow> string \<Rightarrow> db \<Rightarrow> (state_error, db, outbox_row option) outcome" where
  "lease_outbox sender_id worker_id secs now token db =
     (case attempt (bounded sender_id ''sender agent id'' 64) (\<lambda>sender.
           attempt (bounded worker_id ''worker id'' 128) (\<lambda>worker.
           attempt (outbox_seconds secs) (\<lambda>_. Inr (sender, worker)))) of
        Inl e \<Rightarrow> (Inl e, db)
      | Inr (sender, worker) \<Rightarrow> transact (lease_outbox_tx sender worker secs now token) db)"

text \<open>
  A guarded update whose row count is checked after the commit: \<open>with self._write_transaction()\<close>
  around the statement, then \<open>if cursor.rowcount != 1: raise\<close>.
\<close>

definition guarded_outbox ::
  "(outbox_row \<Rightarrow> bool) \<Rightarrow> (outbox_row \<Rightarrow> outbox_row) \<Rightarrow> string \<Rightarrow> (db \<Rightarrow> state_error + 'a) \<Rightarrow> db \<Rightarrow> (state_error, db, 'a) outcome" where
  "guarded_outbox p f message done_with =
     commit_then (\<lambda>db. Inr (count_outbox p db, update_outbox p f db))
       (\<lambda>n db. if n \<noteq> 1 then Inl (State_error message) else done_with db)"

definition heartbeat_outbox ::
  "string \<Rightarrow> string \<Rightarrow> int \<Rightarrow> time \<Rightarrow> db \<Rightarrow> (state_error, db, outbox_row) outcome" where
  "heartbeat_outbox i token secs now db =
     (case outbox_seconds secs of
        Inl e \<Rightarrow> (Inl e, db)
      | Inr _ \<Rightarrow> guarded_outbox (\<lambda>r. ob_outbox_id r = i \<and> current_outbox_lease token now r)
          (\<lambda>r. r\<lparr>ob_lease_expires_at := Some (now + seconds secs), ob_updated_at := now\<rparr>)
          ''Telegram outbox lease is missing, expired, or invalid'' (\<lambda>db. get_outbox db i) db)"

definition clear_outbox_lease :: "outbox_row \<Rightarrow> outbox_row" where
  "clear_outbox_lease r = r\<lparr>ob_lease_owner := None, ob_lease_token := None, ob_lease_expires_at := None\<rparr>"

definition release_outbox_lease :: "string \<Rightarrow> string \<Rightarrow> time \<Rightarrow> db \<Rightarrow> (state_error, db, unit) outcome" where
  "release_outbox_lease i token now =
     guarded_outbox (\<lambda>r. ob_outbox_id r = i \<and> holds_outbox token r \<and> ob_send_started_at r = None)
       (\<lambda>r. (clear_outbox_lease r)\<lparr>ob_status := Ds_pending, ob_attempt_count := max (ob_attempt_count r - 1) 0,
          ob_error_code := None, ob_available_at := now, ob_updated_at := now\<rparr>)
       ''Telegram outbox lease is missing or invalid'' (\<lambda>_. Inr ())"

definition retry_row :: "string \<Rightarrow> time \<Rightarrow> int \<Rightarrow> outbox_row \<Rightarrow> outbox_row" where
  "retry_row code now delay r = (clear_outbox_lease r)
     \<lparr>ob_status := (if max_outbox_attempts \<le> ob_attempt_count r then Ds_failed else Ds_pending),
      ob_available_at := now + seconds delay, ob_send_started_at := None, ob_error_code := Some code,
      ob_updated_at := now\<rparr>"

definition fail_undelivered :: "string \<Rightarrow> string \<Rightarrow> time \<Rightarrow> db \<Rightarrow> db" where
  "fail_undelivered i code now db = db\<lparr>db_jobs := update_where
     (\<lambda>j. pj_job_id j = i \<and> pj_status j = Result_ready)
     (\<lambda>j. j\<lparr>pj_status := Failed, pj_error_class := Some ''telegram_delivery'', pj_error_code := Some code,
            pj_error_detail := None, pj_updated_at := now\<rparr>) (db_jobs db)\<rparr>"

definition retry_outbox_tx :: "string \<Rightarrow> string \<Rightarrow> string \<Rightarrow> int \<Rightarrow> time \<Rightarrow> db \<Rightarrow> state_error + unit \<times> db" where
  "retry_outbox_tx i token code delay now db =
     (let p = (\<lambda>r. ob_outbox_id r = i \<and> current_outbox_lease token now r) in
      case find p (db_outbox db) of
        None \<Rightarrow> Inl (State_error ''Telegram outbox lease is missing, expired, or invalid'')
      | Some row \<Rightarrow>
          if count_outbox p db \<noteq> 1 then Inl (State_error ''Telegram outbox lease is missing, expired, or invalid'')
          else let db' = update_outbox p (retry_row code now delay) db in
            Inr ((), if max_outbox_attempts \<le> ob_attempt_count row then fail_undelivered (ob_job_id row) code now db' else db'))"

text \<open>An operation that reads the row back after its transaction.\<close>

definition then_get_outbox ::
  "string \<Rightarrow> (db \<Rightarrow> state_error + unit \<times> db) \<Rightarrow> db \<Rightarrow> (state_error, db, outbox_row) outcome" where
  "then_get_outbox i tx = commit_then tx (\<lambda>_ db. get_outbox db i)"

definition retry_outbox ::
  "string \<Rightarrow> string \<Rightarrow> string \<Rightarrow> int \<Rightarrow> time \<Rightarrow> db \<Rightarrow> (state_error, db, outbox_row) outcome" where
  "retry_outbox i token error_code delay now db =
     (case attempt (bounded error_code ''error code'' 128) (\<lambda>code.
           attempt (check (0 \<le> delay \<and> delay \<le> 86400) (State_error ''invalid Telegram outbox retry delay'')) (\<lambda>_.
           Inr code)) of
        Inl e \<Rightarrow> (Inl e, db)
      | Inr code \<Rightarrow> then_get_outbox i (retry_outbox_tx i token code delay now) db)"

section \<open>Sends\<close>

definition mark_outbox_delivered ::
  "(binding_row \<Rightarrow> string) \<Rightarrow> string \<Rightarrow> string \<Rightarrow> int \<Rightarrow> int option \<Rightarrow> time \<Rightarrow> db \<Rightarrow> (state_error, db, outbox_row) outcome" where
  "mark_outbox_delivered digest i token message part now db =
     (case record_receipt Final_target i token part message now db of
        Inl e \<Rightarrow> (Inl e, db)
      | Inr db1 \<Rightarrow> (let db2 = snd (settle_receipt digest token db1) in (get_outbox db2 i, db2)))"

definition same_destination :: "outbox_row \<Rightarrow> outbox_row \<Rightarrow> bool" where
  "same_destination a b \<longleftrightarrow> ob_outbox_id a = ob_outbox_id b \<and> ob_job_id a = ob_job_id b \<and>
     ob_sender_agent_id a = ob_sender_agent_id b \<and> ob_chat_id a = ob_chat_id b \<and> ob_thread_id a = ob_thread_id b"

definition begin_guard :: "db \<Rightarrow> string \<Rightarrow> string \<Rightarrow> int \<Rightarrow> time \<Rightarrow> outbox_row \<Rightarrow> bool" where
  "begin_guard db i token part now r \<longleftrightarrow> ob_outbox_id r = i \<and> current_outbox_lease token now r \<and>
     ob_send_started_at r = None \<and> first_unsent db i = Some part"

definition begin_outbox_tx ::
  "(binding_row \<Rightarrow> string) \<Rightarrow> string \<Rightarrow> string \<Rightarrow> int \<Rightarrow> time \<Rightarrow> outbox_row option \<Rightarrow> outbox_part option
   \<Rightarrow> db \<Rightarrow> state_error + unit \<times> db" where
  "begin_outbox_tx digest i token part now expected_outbox expected_part db =
     attempt (case expected_outbox of None \<Rightarrow> Inr ()
              | Some x \<Rightarrow> attempt (get_outbox db i) (\<lambda>r.
                  check (same_destination r x) (State_error ''Telegram send destination changed''))) (\<lambda>_.
     attempt (case expected_part of None \<Rightarrow> Inr ()
              | Some x \<Rightarrow> attempt (next_outbox_part db i token now) (\<lambda>p.
                  check (p = x) (State_error ''Telegram send payload changed''))) (\<lambda>_.
     if count_outbox (begin_guard db i token part now) db \<noteq> 1
     then Inl (State_error ''Telegram send fence or expected part changed'')
     else attempt (begin_attempt digest Final_target i token part now
            (update_outbox (begin_guard db i token part now)
              (\<lambda>r. r\<lparr>ob_send_started_at := Some now, ob_updated_at := now\<rparr>) db))
          (\<lambda>db'. Inr ((), db'))))"

definition begin_outbox_send ::
  "(binding_row \<Rightarrow> string) \<Rightarrow> string \<Rightarrow> string \<Rightarrow> int \<Rightarrow> time \<Rightarrow> outbox_row option \<Rightarrow> outbox_part option
   \<Rightarrow> db \<Rightarrow> (state_error, db, unit) outcome" where
  "begin_outbox_send digest i token part now expected_outbox expected_part =
     transact (begin_outbox_tx digest i token part now expected_outbox expected_part)"

definition mark_outbox_unknown ::
  "string \<Rightarrow> string \<Rightarrow> int \<Rightarrow> string \<Rightarrow> time \<Rightarrow> db \<Rightarrow> (state_error, db, bool) outcome" where
  "mark_outbox_unknown i token part error_code now db =
     (case bounded error_code ''error code'' 128 of
        Inl e \<Rightarrow> (Inl e, db)
      | Inr code \<Rightarrow> transact (\<lambda>db.
          let p = (\<lambda>r. ob_outbox_id r = i \<and> holds_outbox token r \<and> ob_send_started_at r \<noteq> None \<and>
                first_unsent db i = Some part) in
          Inr (count_outbox p db = 1,
            update_outbox p (\<lambda>r. (clear_outbox_lease r)\<lparr>ob_status := Ds_unknown, ob_error_code := Some code,
              ob_updated_at := now\<rparr>) db)) db)"

section \<open>Recovery\<close>

definition stale_outbox :: "string list option \<Rightarrow> time \<Rightarrow> outbox_row \<Rightarrow> bool" where
  "stale_outbox senders now r \<longleftrightarrow> ob_status r = Ds_sending \<and> due (ob_lease_expires_at r) now \<and>
     (case senders of None \<Rightarrow> True | Some ss \<Rightarrow> ob_sender_agent_id r \<in> set ss)"

definition recover_row :: "time \<Rightarrow> outbox_row \<Rightarrow> outbox_row" where
  "recover_row now r = (clear_outbox_lease r)
     \<lparr>ob_status := (if ob_send_started_at r = None then Ds_pending else Ds_unknown),
      ob_attempt_count := (if ob_send_started_at r = None then max (ob_attempt_count r - 1) 0 else ob_attempt_count r),
      ob_error_code := Some (if ob_send_started_at r = None then ''stale_sender_lease'' else ''send_attempt_unknown''),
      ob_available_at := now, ob_updated_at := now\<rparr>"

text \<open>Each pending receipt is settled in a transaction of its own.\<close>

definition settle_all :: "(binding_row \<Rightarrow> string) \<Rightarrow> string list \<Rightarrow> db \<Rightarrow> db" where
  "settle_all digest tokens db = fold (\<lambda>token db. snd (settle_receipt digest token db)) tokens db"

definition recover_receipts ::
  "(binding_row \<Rightarrow> string) \<Rightarrow> target_kind \<Rightarrow> string list option \<Rightarrow> db \<times> receipt_cursors \<Rightarrow> db \<times> receipt_cursors" where
  "recover_receipts digest kind senders s =
     (let ss = (case senders of Some ss \<Rightarrow> ss
                | None \<Rightarrow> remdups (case kind of Final_target \<Rightarrow> map ob_sender_agent_id (db_outbox (fst s))
                    | Progress_target \<Rightarrow> map pg_sender_agent_id (db_progress (fst s))));
          (tokens, cursors) = pending_receipts kind ss (fst s) (snd s)
      in (settle_all digest tokens (fst s), cursors))"

definition recover_stale_outbox ::
  "(binding_row \<Rightarrow> string) \<Rightarrow> string list option \<Rightarrow> time \<Rightarrow> db \<times> receipt_cursors \<Rightarrow> string list \<times> db \<times> receipt_cursors" where
  "recover_stale_outbox digest senders now s =
     (if senders = Some [] then ([], s)
      else (sort (map ob_outbox_id (filter (stale_outbox senders now) (db_outbox (fst s)))),
            recover_receipts digest Final_target senders
              (update_outbox (stale_outbox senders now) (recover_row now) (fst s), snd s)))"

section \<open>Notices about results that wait for a delivery\<close>

definition delivery_wait_explanation :: string where
  "delivery_wait_explanation =
     ''The earlier result is saved, but its Telegram delivery is unconfirmed. '' @
     ''At this observation, later work in this topic is blocked. The owner can '' @
     ''investigate the saved delivery, or explicitly continue without confirmed delivery '' @
     ''through the local delivery-hold preview/apply. This queue-only decision retains '' @
     ''session and writer restrictions; separate delivery-control consent can reconcile '' @
     ''those delivery waits. Hub will not resend the result or repeat provider work '' @
     ''automatically. Check /status for the current state; /stop does not reconcile this delivery.''"

definition delivery_wait_key :: "outbox_row \<Rightarrow> string" where
  "delivery_wait_key r = ''delivery-wait:'' @ ob_outbox_id r"

definition waiting_deliveries :: "db \<Rightarrow> string list \<Rightarrow> (outbox_row \<times> provider_job) list" where
  "waiting_deliveries db senders =
     take 32 (sort_key (\<lambda>(r, _). (ob_created_at r, ob_outbox_id r))
       (concat (map (\<lambda>r. map (\<lambda>j. (r, j)) (filter (\<lambda>j. pj_job_id j = ob_job_id r \<and>
           exists_row (\<lambda>t. tp_topic_id t = pj_topic_id j \<and> blocking_result db r j t) (db_topics db)) (db_jobs db)))
         (filter (\<lambda>r. ob_sender_agent_id r \<in> set senders \<and>
           \<not> exists_row (\<lambda>n. nt_event_key n = delivery_wait_key r) (db_notices db)) (db_outbox db)))))"

definition wait_draft :: "outbox_row \<times> provider_job \<Rightarrow> notice_draft" where
  "wait_draft x = (case x of (r, j) \<Rightarrow>
     \<lparr>nd_event_key = delivery_wait_key r, nd_kind = ''delivery_wait'', nd_job_id = Some (pj_job_id j),
      nd_stop_request_id = None, nd_assessment_id = None, nd_chat_id = ob_chat_id r, nd_thread_id = ob_thread_id r,
      nd_reply_to_message_id = Some (pj_message_id j), nd_telegram_html = delivery_wait_explanation\<rparr>)"

text \<open>The identities of the notices, one per row, are drawn while the rows are processed.\<close>

definition prepare_delivery_waits ::
  "string list \<Rightarrow> time \<Rightarrow> (nat \<Rightarrow> string) \<Rightarrow> db \<Rightarrow> state_error + nat \<times> db" where
  "prepare_delivery_waits senders now nid db =
     (let rows = waiting_deliveries db senders in
      attempt (each_row (\<lambda>(k, x) db. attempt (prepare_notice (wait_draft x) now (nid k) db) (\<lambda>r. Inr (snd r)))
          (zip [0..<length rows] rows) db)
        (\<lambda>db'. Inr (length rows, db')))"

definition prepare_delivery_wait_notices ::
  "string list \<Rightarrow> time \<Rightarrow> (nat \<Rightarrow> string) \<Rightarrow> db \<Rightarrow> (state_error, db, nat) outcome" where
  "prepare_delivery_wait_notices sender_ids now nid db =
     (if sender_ids = [] then (Inr 0, db)
      else case collect (\<lambda>a. bounded a ''sender agent'' 64) sender_ids of
        Inl e \<Rightarrow> (Inl e, db)
      | Inr agents \<Rightarrow> transact (prepare_delivery_waits agents now nid) db)"

end
