(* ===== verification/Progress_State.thy ===== *)
theory Progress_State
  imports Delivery_State
begin

text \<open>
  The progress deliveries of \<open>state_delivery.py\<close>: commentary of a running job, rate limited, sent
  at most once, dropped when its job has ended; and the passive counts of uncertain deliveries.
  Nullable times and results are options; a retry delay, a float number of seconds in the
  code, is a number of microseconds here.
\<close>

section \<open>Rendering\<close>

fun html_escape :: "string \<Rightarrow> string" where
  "html_escape [] = []"
| "html_escape (c # cs) =
     (if c = CHR ''&'' then ''&amp;'' else if c = CHR ''<'' then ''&lt;'' else if c = CHR ''>'' then ''&gt;''
      else if c = CHR 0x22 then ''&quot;'' else if c = CHR 0x27 then ''&#x27;'' else [c]) @ html_escape cs"

definition max_progress_source_length :: nat where "max_progress_source_length = 600"

definition progress_html :: "string \<Rightarrow> state_error + string" where
  "progress_html text =
     (let limited = take max_progress_source_length (py_strip text);
          rendered = html_escape limited in
      if limited = [] then Inl (State_error ''progress delivery requires visible text'')
      else if length rendered > 4096 then Inl (State_error ''progress delivery exceeds Telegram limit'')
      else Inr rendered)"

section \<open>Readers\<close>

definition get_progress :: "db \<Rightarrow> string \<Rightarrow> state_error + progress_row" where
  "get_progress db i = (case progress_of db i of
     None \<Rightarrow> Inl (State_error ''unknown progress delivery'') | Some p \<Rightarrow> Inr p)"

definition progress_for_job :: "db \<Rightarrow> string \<Rightarrow> progress_row list" where
  "progress_for_job db i = sort_key pg_created_at (filter (\<lambda>p. pg_job_id p = i) (db_progress db))"

record uncertain_counts =
  uc_unknown_delivery :: nat
  uc_unknown_progress_delivery :: nat
  uc_outstanding_delivery_holds :: int
  uc_nonblocking_notice_delivery :: nat
  uc_released_delivery_holds :: nat
  uc_reconciled_final_controls :: nat
  uc_reconciled_progress_controls :: nat
  uc_outstanding_progress_holds :: int
  uc_failed_delivery :: nat
  uc_failed_progress_delivery :: nat

definition count_progress :: "(progress_row \<Rightarrow> bool) \<Rightarrow> db \<Rightarrow> nat" where
  "count_progress p db = count_where p (db_progress db)"

definition uncertain_counts :: "db \<Rightarrow> uncertain_counts" where
  "uncertain_counts db =
     (let unknown = (\<lambda>r. ob_status r = Ds_unknown); unknown_progress = (\<lambda>p. pg_status p = Ds_unknown);
          settled = (\<lambda>r. outbox_delivery_hold_released db r \<or> final_control_reconciled db r) in
      \<lparr>uc_unknown_delivery = count_outbox unknown db,
       uc_unknown_progress_delivery = count_progress unknown_progress db,
       uc_outstanding_delivery_holds = int (count_outbox unknown db) -
         int (count_outbox (\<lambda>r. unknown r \<and> (settled r \<or> nonblocking_execution_notice db r)) db),
       uc_nonblocking_notice_delivery = count_outbox (nonblocking_execution_notice db) db,
       uc_released_delivery_holds = count_outbox (\<lambda>r. unknown r \<and> settled r) db,
       uc_reconciled_final_controls = count_outbox (final_control_reconciled db) db,
       uc_reconciled_progress_controls = count_progress (progress_control_reconciled db) db,
       uc_outstanding_progress_holds = int (count_progress unknown_progress db) -
         int (count_progress (\<lambda>p. unknown_progress p \<and> progress_control_reconciled db p) db),
       uc_failed_delivery = count_outbox (\<lambda>r. ob_status r = Ds_failed) db,
       uc_failed_progress_delivery = count_progress (\<lambda>p. pg_status p = Ds_failed) db\<rparr>)"

definition in_topic :: "db \<Rightarrow> int \<Rightarrow> string \<Rightarrow> bool" where
  "in_topic db t i \<longleftrightarrow> exists_row (\<lambda>j. pj_job_id j = i \<and> pj_topic_id j = t) (db_jobs db)"

record delivery_controls =
  dc_final_reconciled :: nat
  dc_progress_reconciled :: nat
  dc_unknown_final_reconciled :: nat
  dc_unknown_final :: nat
  dc_outstanding :: int
  dc_nonblocking_notices :: nat
  dc_saved_results_awaiting_delivery :: nat
  dc_released :: nat
  dc_queue_only :: int

definition topic_delivery_controls :: "db \<Rightarrow> int \<Rightarrow> delivery_controls" where
  "topic_delivery_controls db t =
     (let here = (\<lambda>r. in_topic db t (ob_job_id r)); unknown = (\<lambda>r. here r \<and> ob_status r = Ds_unknown);
          settled = (\<lambda>r. outbox_delivery_hold_released db r \<or> final_control_reconciled db r);
          released = count_outbox (\<lambda>r. unknown r \<and> settled r) db;
          reconciled = count_outbox (\<lambda>r. unknown r \<and> final_control_reconciled db r) db in
      \<lparr>dc_final_reconciled = count_outbox (\<lambda>r. here r \<and> final_control_reconciled db r) db,
       dc_progress_reconciled = count_progress (\<lambda>p. in_topic db t (pg_job_id p) \<and> progress_control_reconciled db p) db,
       dc_unknown_final_reconciled = reconciled,
       dc_unknown_final = count_outbox unknown db,
       dc_outstanding = int (count_outbox unknown db) -
         int (count_outbox (\<lambda>r. unknown r \<and> (settled r \<or> nonblocking_execution_notice db r)) db),
       dc_nonblocking_notices = count_outbox (\<lambda>r. here r \<and> nonblocking_execution_notice db r) db,
       dc_saved_results_awaiting_delivery = count_where (\<lambda>j. pj_topic_id j = t \<and> pj_status j = Result_ready \<and>
         has_result db (pj_job_id j)) (db_jobs db),
       dc_released = released,
       dc_queue_only = int released - int reconciled\<rparr>)"

definition topic_delivery_holds :: "db \<Rightarrow> int \<Rightarrow> int \<times> nat" where
  "topic_delivery_holds db t = (let c = topic_delivery_controls db t in (dc_outstanding c, dc_released c))"

section \<open>Operations\<close>

definition progress_interval_seconds :: int where "progress_interval_seconds = 120"
definition progress_lease_seconds :: int where "progress_lease_seconds = 120"
definition max_progress_attempts :: int where "max_progress_attempts = 20"

text \<open>The start of the newest progress of a job, NULL when there is none.\<close>

definition latest_progress :: "db \<Rightarrow> string \<Rightarrow> time option" where
  "latest_progress db i = (case map pg_created_at (filter (\<lambda>p. pg_job_id p = i) (db_progress db)) of
     [] \<Rightarrow> None | x # xs \<Rightarrow> Some (fold max xs x))"

definition new_progress :: "string \<Rightarrow> int \<Rightarrow> provider_job \<Rightarrow> topic_row \<Rightarrow> string \<Rightarrow> time \<Rightarrow> progress_row" where
  "new_progress pid item j t html now =
     \<lparr>pg_progress_id = pid, pg_item_sequence = item, pg_job_id = pj_job_id j, pg_sender_agent_id = pj_agent_id j,
      pg_chat_id = pj_chat_id j, pg_thread_id = tp_thread_id t, pg_telegram_html = html, pg_status = Ds_pending,
      pg_attempt_count = 0, pg_available_at = now, pg_lease_owner = None, pg_lease_token = None,
      pg_lease_expires_at = None, pg_telegram_message_id = None, pg_error_code = None, pg_created_at = now,
      pg_updated_at = now, pg_delivered_at = None, pg_send_started_at = None\<rparr>"

definition enqueue_progress_tx ::
  "string \<Rightarrow> string \<Rightarrow> int \<Rightarrow> string \<Rightarrow> time \<Rightarrow> int \<Rightarrow> string \<Rightarrow> db \<Rightarrow> state_error + bool \<times> db" where
  "enqueue_progress_tx i token item text now interval pid db =
     (if item \<le> 0 \<or> interval < 0 then Inl (State_error ''invalid progress delivery boundary'')
      else attempt (progress_html text) (\<lambda>html.
        case find (\<lambda>j. pj_job_id j = i \<and> pj_status j = Executing \<and> pj_lease_token j = Some token \<and>
            after (pj_lease_expires_at j) now \<and> topic_of db (pj_topic_id j) \<noteq> None) (db_jobs db) of
          None \<Rightarrow> Inl (State_error ''progress delivery requires a current invocation lease'')
        | Some j \<Rightarrow>
            if (case find (\<lambda>v. vi_sequence v = item \<and> vi_job_id v = i) (db_items db) of
                  None \<Rightarrow> True | Some v \<Rightarrow> \<not> vi_commentary v)
            then Inl (State_error ''progress delivery requires a commentary journal item'')
            else if exists_row (\<lambda>p. pg_item_sequence p = item) (db_progress db) then Inr (False, db)
            else if (case latest_progress db i of None \<Rightarrow> False | Some t \<Rightarrow> now < t + seconds interval)
            then Inr (False, db)
            else if exists_row (\<lambda>p. pg_progress_id p = pid) (db_progress db)
            then Inl (Integrity_error ''provider_progress_deliveries.progress_id'')
            else (case topic_of db (pj_topic_id j) of
                None \<Rightarrow> Inl (State_error ''progress delivery requires a current invocation lease'')
              | Some t \<Rightarrow> Inr (True, db\<lparr>db_progress := db_progress db @ [new_progress pid item j t html now]\<rparr>))))"

definition enqueue_progress ::
  "string \<Rightarrow> string \<Rightarrow> int \<Rightarrow> string \<Rightarrow> time \<Rightarrow> int \<Rightarrow> string \<Rightarrow> db \<Rightarrow> (state_error, db, bool) outcome" where
  "enqueue_progress i token item text now interval pid =
     transact (enqueue_progress_tx i token item text now interval pid)"

definition update_progress :: "(progress_row \<Rightarrow> bool) \<Rightarrow> (progress_row \<Rightarrow> progress_row) \<Rightarrow> db \<Rightarrow> db" where
  "update_progress p f db = db\<lparr>db_progress := update_where p f (db_progress db)\<rparr>"

definition clear_progress_lease :: "progress_row \<Rightarrow> progress_row" where
  "clear_progress_lease r = r\<lparr>pg_lease_owner := None, pg_lease_token := None, pg_lease_expires_at := None\<rparr>"

definition stale_progress :: "string list \<Rightarrow> time \<Rightarrow> progress_row \<Rightarrow> bool" where
  "stale_progress senders now p \<longleftrightarrow> pg_sender_agent_id p \<in> set senders \<and> pg_status p = Ds_sending \<and>
     due (pg_lease_expires_at p) now"

definition recover_progress_row :: "time \<Rightarrow> progress_row \<Rightarrow> progress_row" where
  "recover_progress_row now p = (clear_progress_lease p)
     \<lparr>pg_status := (if pg_send_started_at p = None then Ds_pending else Ds_unknown),
      pg_attempt_count := (if pg_send_started_at p = None then max (pg_attempt_count p - 1) 0 else pg_attempt_count p),
      pg_error_code := Some (if pg_send_started_at p = None then ''stale_sender_lease'' else ''send_attempt_unknown''),
      pg_updated_at := now\<rparr>"

definition recover_stale_progress ::
  "(binding_row \<Rightarrow> string) \<Rightarrow> string list \<Rightarrow> time \<Rightarrow> db \<times> receipt_cursors \<Rightarrow> nat \<times> db \<times> receipt_cursors" where
  "recover_stale_progress digest senders now s =
     (if senders = [] then (0, s)
      else (count_progress (stale_progress senders now) (fst s),
            recover_receipts digest Progress_target (Some senders)
              (update_progress (stale_progress senders now) (recover_progress_row now) (fst s), snd s)))"

definition superseded_progress :: "db \<Rightarrow> string list \<Rightarrow> progress_row \<Rightarrow> bool" where
  "superseded_progress db senders p \<longleftrightarrow> pg_status p = Ds_pending \<and> pg_sender_agent_id p \<in> set senders \<and>
     exists_row (\<lambda>j. pj_job_id j = pg_job_id p \<and> pj_status j \<noteq> Executing) (db_jobs db)"

definition supersede_terminal_progress :: "string list \<Rightarrow> time \<Rightarrow> db \<Rightarrow> nat \<times> db" where
  "supersede_terminal_progress senders now db =
     (if senders = [] then (0, db)
      else (count_progress (superseded_progress db senders) db,
            update_progress (superseded_progress db senders)
              (\<lambda>p. (clear_progress_lease p)\<lparr>pg_status := Ds_superseded, pg_updated_at := now\<rparr>) db))"

definition progress_leasable :: "db \<Rightarrow> string \<Rightarrow> time \<Rightarrow> progress_row \<Rightarrow> bool" where
  "progress_leasable db sender now p \<longleftrightarrow> pg_sender_agent_id p = sender \<and> pg_status p = Ds_pending \<and>
     pg_available_at p \<le> now \<and> pg_attempt_count p < max_progress_attempts \<and>
     exists_row (\<lambda>j. pj_job_id j = pg_job_id p \<and> pj_status j = Executing) (db_jobs db)"

definition lease_progress_tx ::
  "string \<Rightarrow> string \<Rightarrow> time \<Rightarrow> int \<Rightarrow> string \<Rightarrow> db \<Rightarrow> state_error + progress_row option \<times> db" where
  "lease_progress_tx sender owner now secs token db =
     (case first_by (\<lambda>a b. pg_created_at a \<le> pg_created_at b) (progress_leasable db sender now) (db_progress db) of
        None \<Rightarrow> Inr (None, db)
      | Some row \<Rightarrow>
          let db' = update_progress (\<lambda>p. pg_progress_id p = pg_progress_id row)
            (\<lambda>p. p\<lparr>pg_status := Ds_sending, pg_attempt_count := pg_attempt_count p + 1, pg_lease_owner := Some owner,
                   pg_lease_token := Some token, pg_lease_expires_at := Some (now + seconds secs),
                   pg_send_started_at := None, pg_updated_at := now\<rparr>) db in
          attempt (get_progress db' (pg_progress_id row)) (\<lambda>r. Inr (Some r, db')))"

definition lease_progress ::
  "string \<Rightarrow> string \<Rightarrow> time \<Rightarrow> int \<Rightarrow> string \<Rightarrow> db \<Rightarrow> (state_error, db, progress_row option) outcome" where
  "lease_progress sender owner now secs token db =
     (if secs \<le> 0 then (Inl (State_error ''progress lease must be positive''), db)
      else transact (lease_progress_tx sender owner now secs token) db)"

text \<open>\<open>status = 'sending' AND lease_token = ?\<close>, and the same with a lease that is not over.\<close>

definition holds_progress :: "string \<Rightarrow> progress_row \<Rightarrow> bool" where
  "holds_progress token p \<longleftrightarrow> pg_status p = Ds_sending \<and> pg_lease_token p = Some token"

definition current_progress_lease :: "string \<Rightarrow> time \<Rightarrow> progress_row \<Rightarrow> bool" where
  "current_progress_lease token now p \<longleftrightarrow> holds_progress token p \<and> after (pg_lease_expires_at p) now"

definition release_progress :: "string \<Rightarrow> string \<Rightarrow> time \<Rightarrow> db \<Rightarrow> (state_error, db, unit) outcome" where
  "release_progress i token now = transact (\<lambda>db.
     let p = (\<lambda>r. pg_progress_id r = i \<and> holds_progress token r \<and> pg_send_started_at r = None) in
     if count_progress p db \<noteq> 1 then Inl (State_error ''progress delivery lease changed'')
     else Inr ((), update_progress p (\<lambda>r. (clear_progress_lease r)\<lparr>pg_status := Ds_pending,
            pg_attempt_count := pg_attempt_count r - 1, pg_updated_at := now\<rparr>) db))"

definition retry_progress ::
  "string \<Rightarrow> string \<Rightarrow> string \<Rightarrow> int \<Rightarrow> time \<Rightarrow> db \<Rightarrow> (state_error, db, unit) outcome" where
  "retry_progress i token error_code delay now db =
     (if delay < 0 then (Inl (State_error ''progress retry delay cannot be negative''), db)
      else transact (\<lambda>db.
        case find (\<lambda>r. pg_progress_id r = i \<and> current_progress_lease token now r) (db_progress db) of
          None \<Rightarrow> Inl (State_error ''progress delivery lease changed'')
        | Some row \<Rightarrow> Inr ((), set_progress i (\<lambda>r. (clear_progress_lease r)
            \<lparr>pg_status := (if max_progress_attempts \<le> pg_attempt_count row then Ds_failed else Ds_pending),
             pg_available_at := now + delay, pg_send_started_at := None, pg_error_code := Some (take 128 error_code),
             pg_updated_at := now\<rparr>) db)) db)"

definition mark_progress_delivered ::
  "(binding_row \<Rightarrow> string) \<Rightarrow> string \<Rightarrow> string \<Rightarrow> int \<Rightarrow> time \<Rightarrow> db \<Rightarrow> (state_error, db, unit) outcome" where
  "mark_progress_delivered digest i token message now db =
     (case record_receipt Progress_target i token (Some 1) message now db of
        Inl e \<Rightarrow> (Inl e, db)
      | Inr db1 \<Rightarrow> (Inr (), snd (settle_receipt digest token db1)))"

definition same_progress :: "progress_row \<Rightarrow> progress_row \<Rightarrow> bool" where
  "same_progress a b \<longleftrightarrow> pg_progress_id a = pg_progress_id b \<and> pg_job_id a = pg_job_id b \<and>
     pg_item_sequence a = pg_item_sequence b \<and> pg_sender_agent_id a = pg_sender_agent_id b \<and>
     pg_chat_id a = pg_chat_id b \<and> pg_thread_id a = pg_thread_id b \<and> pg_telegram_html a = pg_telegram_html b"

definition begin_progress_tx ::
  "(binding_row \<Rightarrow> string) \<Rightarrow> string \<Rightarrow> string \<Rightarrow> time \<Rightarrow> progress_row option \<Rightarrow> db \<Rightarrow> state_error + unit \<times> db" where
  "begin_progress_tx digest i token now expected db =
     attempt (case expected of None \<Rightarrow> Inr ()
              | Some x \<Rightarrow> attempt (get_progress db i) (\<lambda>r.
                  check (same_progress r x) (State_error ''progress send payload or destination changed''))) (\<lambda>_.
     let p = (\<lambda>r. pg_progress_id r = i \<and> current_progress_lease token now r \<and> pg_send_started_at r = None) in
     if count_progress p db \<noteq> 1 then Inl (State_error ''progress send fence changed'')
     else attempt (begin_attempt digest Progress_target i token 1 now
            (update_progress p (\<lambda>r. r\<lparr>pg_send_started_at := Some now, pg_updated_at := now\<rparr>) db))
          (\<lambda>db'. Inr ((), db')))"

definition begin_progress_send ::
  "(binding_row \<Rightarrow> string) \<Rightarrow> string \<Rightarrow> string \<Rightarrow> time \<Rightarrow> progress_row option \<Rightarrow> db \<Rightarrow> (state_error, db, unit) outcome" where
  "begin_progress_send digest i token now expected = transact (begin_progress_tx digest i token now expected)"

definition mark_progress_unknown ::
  "string \<Rightarrow> string \<Rightarrow> string \<Rightarrow> time \<Rightarrow> db \<Rightarrow> (state_error, db, bool) outcome" where
  "mark_progress_unknown i token error_code now db =
     (case bounded error_code ''error code'' 128 of
        Inl e \<Rightarrow> (Inl e, db)
      | Inr code \<Rightarrow> transact (\<lambda>db.
          let p = (\<lambda>r. pg_progress_id r = i \<and> holds_progress token r \<and> pg_send_started_at r \<noteq> None) in
          Inr (count_progress p db = 1,
            update_progress p (\<lambda>r. (clear_progress_lease r)\<lparr>pg_status := Ds_unknown, pg_error_code := Some code,
              pg_updated_at := now\<rparr>) db)) db)"

section \<open>Bounds\<close>

lemma html_escape_bound: "length s \<le> length (html_escape s) \<and> length (html_escape s) \<le> 6 * length s"
  by (induction s) auto

lemma progress_html_limits:
  "(case progress_html text of
      Inl e \<Rightarrow> py_strip text = [] \<and> e = State_error ''progress delivery requires visible text''
    | Inr html \<Rightarrow> py_strip text \<noteq> [] \<and> html \<noteq> [] \<and> length html \<le> 3600)"
proof -
  let ?l = "take max_progress_source_length (py_strip text)"
  have "length (html_escape ?l) \<le> 6 * length ?l" "length ?l \<le> length (html_escape ?l)"
    using html_escape_bound by blast+
  moreover have "length ?l \<le> 600" by (simp add: max_progress_source_length_def)
  ultimately show ?thesis
    by (auto simp: progress_html_def Let_def max_progress_source_length_def min_def split: if_splits)
qed

text \<open>Escaping never overflows Telegram's limit: whatever the commentary is, the limit of 600 source
  characters keeps the rendered text within 3600 characters, so progress text is refused only when
  it has no visible character, and what is accepted is never empty.\<close>

theorem progress_html_bounded:
  "(case progress_html text of
      Inl e \<Rightarrow> py_strip text = [] \<and> e = State_error ''progress delivery requires visible text''
    | Inr html \<Rightarrow> py_strip text \<noteq> [] \<and> html \<noteq> [] \<and> length html \<le> 3600)"
  by (rule progress_html_limits)

end
