(* ===== verification/Delivery_Machine.thy ===== *)
theory Delivery_Machine
  imports Delivery_State
begin

text \<open>
  The operations on finals as a machine, and the protocol a final follows: it waits, is claimed
  by a sender, one part is in flight or in doubt, and a receipt delivers that part, until all
  parts are sent. The abstract state of a final is its phase and the indexes of its unsent parts.
\<close>

section \<open>The protocol of one final\<close>

datatype final_phase = Waiting | Claimed | In_flight | In_doubt | Sent | Abandoned

datatype final_label = Quiet | Started int | Rejected

definition least :: "int list \<Rightarrow> int option" where
  "least u = (case u of [] \<Rightarrow> None | x # xs \<Rightarrow> Some (fold min xs x))"

inductive final_moves :: "final_label \<Rightarrow> final_phase \<times> int list \<Rightarrow> final_phase \<times> int list \<Rightarrow> bool" where
  claim: "final_moves Quiet (Waiting, u) (Claimed, u)"
| give_back: "final_moves Quiet (Claimed, u) (Waiting, u)"
| start: "least u = Some p \<Longrightarrow> final_moves (Started p) (Claimed, u) (In_flight, u)"
| lose: "final_moves Quiet (In_flight, u) (In_doubt, u)"
| reject: "s \<in> {Claimed, In_flight} \<Longrightarrow> s' \<in> {Waiting, Abandoned} \<Longrightarrow> final_moves Rejected (s, u) (s', u)"
| confirm_part: "s \<in> {In_flight, In_doubt} \<Longrightarrow> least u = Some p \<Longrightarrow> filter (\<lambda>q. q \<noteq> p) u \<noteq> [] \<Longrightarrow>
    final_moves Quiet (s, u) (Waiting, filter (\<lambda>q. q \<noteq> p) u)"
| confirm_last: "s \<in> {In_flight, In_doubt} \<Longrightarrow> least u = Some p \<Longrightarrow> filter (\<lambda>q. q \<noteq> p) u = [] \<Longrightarrow>
    final_moves Quiet (s, u) (Sent, [])"

inductive_cases quiet_move: "final_moves Quiet a b"
inductive_cases started_move: "final_moves (Started p) a b"
inductive_cases rejected_move: "final_moves Rejected a b"

abbreviation quiet_moves :: "final_phase \<times> int list \<Rightarrow> final_phase \<times> int list \<Rightarrow> bool" where
  "quiet_moves \<equiv> (final_moves Quiet)\<^sup>*\<^sup>*"

definition phase :: "outbox_row \<Rightarrow> final_phase" where
  "phase r = (case ob_status r of
     Ds_pending \<Rightarrow> Waiting
   | Ds_sending \<Rightarrow> if ob_send_started_at r = None then Claimed else In_flight
   | Ds_unknown \<Rightarrow> In_doubt | Ds_delivered \<Rightarrow> Sent | Ds_superseded \<Rightarrow> Abandoned | Ds_failed \<Rightarrow> Abandoned)"

definition view :: "string \<Rightarrow> db \<Rightarrow> (final_phase \<times> int list) option" where
  "view i db = map_option (\<lambda>r. (phase r, unsent_indexes db i)) (outbox_of db i)"

definition outbox_keys :: "db \<Rightarrow> bool" where
  "outbox_keys db \<longleftrightarrow> distinct (map ob_outbox_id (db_outbox db))"

section \<open>The operations as a machine\<close>

datatype final_op =
    Lease_final string string int time string
  | Heartbeat_final string string int time
  | Release_final string string time
  | Reject_final string string string int time
  | Begin_final string string int time "outbox_row option" "outbox_part option"
  | Confirm_final string string int "int option" time
  | Lose_final string string int string time
  | Recover_finals "string list option" time

text \<open>Whether the call returned; the error of a refused call is kept.\<close>

definition outcome_of :: "state_error + 'a \<Rightarrow> state_error option" where
  "outcome_of r = (case r of Inl e \<Rightarrow> Some e | Inr _ \<Rightarrow> None)"

type_synonym delivery_state = "db \<times> receipt_cursors"

definition run_final_op ::
  "(binding_row \<Rightarrow> string) \<Rightarrow> final_op \<Rightarrow> delivery_state \<Rightarrow> state_error option \<times> delivery_state" where
  "run_final_op digest op s =
     (let on_db = (\<lambda>(r, db'). (r, db', snd s)) in
      case op of
        Lease_final sender worker secs now token \<Rightarrow>
          on_db (apfst outcome_of (lease_outbox sender worker secs now token (fst s)))
      | Heartbeat_final i token secs now \<Rightarrow> on_db (apfst outcome_of (heartbeat_outbox i token secs now (fst s)))
      | Release_final i token now \<Rightarrow> on_db (apfst outcome_of (release_outbox_lease i token now (fst s)))
      | Reject_final i token code delay now \<Rightarrow> on_db (apfst outcome_of (retry_outbox i token code delay now (fst s)))
      | Begin_final i token part now x y \<Rightarrow>
          on_db (apfst outcome_of (begin_outbox_send digest i token part now x y (fst s)))
      | Confirm_final i token message part now \<Rightarrow>
          on_db (apfst outcome_of (mark_outbox_delivered digest i token message part now (fst s)))
      | Lose_final i token part code now \<Rightarrow> on_db (apfst outcome_of (mark_outbox_unknown i token part code now (fst s)))
      | Recover_finals senders now \<Rightarrow> (None, snd (recover_stale_outbox digest senders now s)))"

definition final_step ::
  "(binding_row \<Rightarrow> string) \<Rightarrow> delivery_state \<Rightarrow> final_op \<times> state_error option \<Rightarrow> delivery_state \<Rightarrow> bool" where
  "final_step digest s e s' \<longleftrightarrow> run_final_op digest (fst e) s = (snd e, s')"

text \<open>What a call means for the final \<open>i\<close>.\<close>

definition label_for :: "string \<Rightarrow> final_op \<times> state_error option \<Rightarrow> final_label" where
  "label_for i e = (case e of
     (Begin_final j token part now x y, None) \<Rightarrow> if j = i then Started part else Quiet
   | (Reject_final j token code delay now, None) \<Rightarrow> if j = i then Rejected else Quiet
   | _ \<Rightarrow> Quiet)"

definition follows :: "final_label \<Rightarrow> final_phase \<times> int list \<Rightarrow> final_phase \<times> int list \<Rightarrow> bool" where
  "follows l a b \<longleftrightarrow> (if l = Quiet then quiet_moves a b else final_moves l a b)"

section \<open>Updates of the outbox and the protocol\<close>

lemma outbox_of_update:
  assumes "\<And>r. ob_outbox_id (f r) = ob_outbox_id r"
  shows "outbox_of (update_outbox p f db) i = map_option (\<lambda>r. if p r then f r else r) (outbox_of db i)"
  using find_update_where [of ob_outbox_id f i p "db_outbox db"] assms by (simp add: outbox_of_def update_outbox_def)

lemma unsent_update [simp]: "unsent_indexes (update_outbox p f db) i = unsent_indexes db i"
  by (simp add: unsent_indexes_def update_outbox_def)

lemma view_update:
  assumes "\<And>r. ob_outbox_id (f r) = ob_outbox_id r"
  shows "view i (update_outbox p f db) =
    map_option (\<lambda>r. (phase (if p r then f r else r), unsent_indexes db i)) (outbox_of db i)"
  by (simp add: view_def outbox_of_update [OF assms] option.map_comp comp_def)

lemma outbox_of_id: "outbox_of db i = Some r \<Longrightarrow> ob_outbox_id r = i \<and> r \<in> set (db_outbox db)"
  by (auto simp: outbox_of_def dest: find_Some_set)

lemma outbox_of_key: "outbox_keys db \<Longrightarrow> r \<in> set (db_outbox db) \<Longrightarrow> outbox_of db (ob_outbox_id r) = Some r"
  by (simp add: outbox_keys_def outbox_of_def find_key_unique)

lemma view_same:
  "db_outbox db' = db_outbox db \<Longrightarrow> db_parts db' = db_parts db \<Longrightarrow> view i db' = view i db"
  by (simp add: view_def outbox_of_def unsent_indexes_def)

lemma same_view_quiet: "rel_option quiet_moves v v"
  by (simp add: option.rel_refl)

lemma quiet_step_view: "rel_option (\<lambda>a b. a = b \<or> final_moves Quiet a b) v w \<Longrightarrow> rel_option quiet_moves v w"
  by (erule option.rel_mono_strong) auto

lemma quiet_view_trans: "rel_option quiet_moves u v \<Longrightarrow> rel_option quiet_moves v w \<Longrightarrow> rel_option quiet_moves u w"
  by (cases u; cases v; cases w) auto

lemma quiet_update:
  assumes "\<And>r. ob_outbox_id (f r) = ob_outbox_id r"
    and "\<And>r u. p r \<Longrightarrow> ob_outbox_id r = i \<Longrightarrow>
      phase (f r) = phase r \<or> final_moves Quiet (phase r, u) (phase (f r), u)"
  shows "rel_option quiet_moves (view i db) (view i (update_outbox p f db))"
proof (cases "outbox_of db i")
  case None
  then have "view i db = None" "view i (update_outbox p f db) = None"
    using view_update [of f i p db] assms(1) by (simp_all add: view_def)
  then show ?thesis by simp
next
  case (Some r)
  then have "view i db = Some (phase r, unsent_indexes db i)"
    and "view i (update_outbox p f db) = Some (phase (if p r then f r else r), unsent_indexes db i)"
    using view_update [of f i p db] assms(1) by (simp_all add: view_def)
  then show ?thesis
    using assms(2) [of r "unsent_indexes db i"] outbox_of_id [OF Some] by (cases "p r") auto
qed

lemma least_first: "first_unsent db i = least (unsent_indexes db i)"
  by (simp add: first_unsent_def least_def)

section \<open>Settling a receipt\<close>

lemma unsent_deliver:
  "unsent_indexes (deliver_part t p c db) i = (if i = t then filter (\<lambda>q. q \<noteq> p) (unsent_indexes db i) else unsent_indexes db i)"
proof -
  let ?k = "\<lambda>q. (op_outbox_id q, op_part_index q) = (t, p)"
  have "filter (\<lambda>q. op_outbox_id q = i \<and> op_telegram_message_id q = None) (update_where ?k (\<lambda>q. q\<lparr>op_telegram_message_id := Some m,
         op_delivered_at := d, op_receipt_validation_version := 1\<rparr>) ps) =
    filter (\<lambda>q. op_outbox_id q = i \<and> op_telegram_message_id q = None \<and> \<not> ?k q) ps" for m d and ps :: "outbox_part list"
    by (induction ps) (simp_all add: update_where_def)
  then have "unsent_indexes (deliver_part t p c db) i = map op_part_index
      (filter (\<lambda>q. op_outbox_id q = i \<and> op_telegram_message_id q = None \<and> \<not> ?k q) (db_parts db))"
    by (simp add: unsent_indexes_def deliver_part_def)
  also have "\<dots> = (if i = t then filter (\<lambda>q. q \<noteq> p) (unsent_indexes db i) else unsent_indexes db i)"
    by (simp add: unsent_indexes_def filter_map comp_def conj_ac cong: conj_cong)
  finally show ?thesis .
qed

lemma outbox_of_deliver [simp]: "outbox_of (deliver_part t p c db) i = outbox_of db i"
  by (simp add: outbox_of_def deliver_part_def)

lemma outbox_of_set:
  assumes "\<And>r. ob_outbox_id (f r) = ob_outbox_id r"
  shows "outbox_of (set_outbox t f db) i = map_option (\<lambda>r. if i = t then f r else r) (outbox_of db i)"
  using outbox_of_update [of f "\<lambda>r. ob_outbox_id r = t" db i, OF assms] outbox_of_id
  by (auto simp: update_outbox_def set_outbox_def map_option_case split: option.splits)

lemma unsent_set [simp]: "unsent_indexes (set_outbox t f db) i = unsent_indexes db i"
  by (simp add: unsent_indexes_def set_outbox_def)

lemma settle_final_view:
  assumes "settle_final a c db = (b, db')"
  shows "rel_option (\<lambda>x y. x = y \<or> final_moves Quiet x y) (view i db) (view i db')"
proof (cases "db' = db")
  case True
  then show ?thesis by (simp add: option.rel_refl)
next
  case False
  let ?t = "sa_target_id a" and ?p = "sa_part_index a"
  let ?db1 = "deliver_part ?t ?p c db"
  obtain r where r: "outbox_of db ?t = Some r" "delivery_current (ob_status r) (ob_lease_token r) (ob_send_started_at r) a"
      "first_unsent db ?t = Some ?p"
    and db': "db' = (if unsent_indexes ?db1 ?t \<noteq> [] then set_outbox ?t (next_part (sr_recorded_at c)) ?db1
       else complete_delivered_job (ob_job_id r) (sr_recorded_at c) (set_outbox ?t (outbox_delivered c) ?db1))"
    using assms False by (auto simp: settle_final_def Let_def split: option.splits if_splits)
  have ph: "phase r \<in> {In_flight, In_doubt}" using r(2) by (auto simp: delivery_current_def phase_def)
  have n: "phase (next_part x r) = Waiting" "phase (outbox_delivered c r) = Sent" for x
    by (simp_all add: phase_def next_part_def outbox_delivered_def)
  have ids: "ob_outbox_id (next_part x q) = ob_outbox_id q" "ob_outbox_id (outbox_delivered c q) = ob_outbox_id q" for x q
    by (simp_all add: next_part_def outbox_delivered_def)
  have j: "outbox_of (complete_delivered_job x y d) k = outbox_of d k"
      "unsent_indexes (complete_delivered_job x y d) k = unsent_indexes d k" for x y d k
    by (simp_all add: complete_delivered_job_def outbox_of_def unsent_indexes_def)
  let ?u = "unsent_indexes db ?t" and ?v = "filter (\<lambda>q. q \<noteq> ?p) (unsent_indexes db ?t)"
  have lp: "least ?u = Some ?p" using r(3) by (simp add: least_first)
  have old: "view ?t db = Some (phase r, ?u)" by (simp add: view_def r(1))
  have new: "view ?t db' = (if ?v \<noteq> [] then Some (Waiting, ?v) else Some (Sent, []))"
    by (simp add: db' view_def unsent_deliver outbox_of_set [OF ids(1)] outbox_of_set [OF ids(2)] r(1) n j)
  show ?thesis
  proof (cases "i = ?t")
    case True
    show ?thesis
      unfolding True old new using confirm_part [OF ph lp] confirm_last [OF ph lp] by simp
  next
    case False
    then have "view i db' = view i db"
      by (simp add: db' view_def unsent_deliver outbox_of_set [OF ids(1)] outbox_of_set [OF ids(2)] j option.map_comp comp_def)
    then show ?thesis by (simp add: option.rel_refl)
  qed
qed

lemma settle_view: "rel_option quiet_moves (view i db) (view i (snd (settle_receipt digest token db)))"
proof -
  have "view i (snd (settle_progress a c db)) = view i db" for a c
    by (rule view_same) (simp_all add: settle_progress_def set_progress_def split: option.splits)
  moreover have "rel_option quiet_moves (view i db) (view i (snd (settle_final a c db)))" for a c
    by (rule quiet_step_view) (rule settle_final_view [OF prod.collapse [symmetric]])
  ultimately show ?thesis
    by (auto simp: settle_receipt_def same_view_quiet split: option.splits target_kind.splits)
qed

lemma settle_all_view: "rel_option quiet_moves (view i db) (view i (settle_all digest tokens db))"
proof (induction tokens arbitrary: db)
  case Nil
  show ?case by (simp add: settle_all_def same_view_quiet)
next
  case (Cons t ts)
  have "settle_all digest (t # ts) db = settle_all digest ts (snd (settle_receipt digest t db))"
    by (simp add: settle_all_def)
  then show ?case using quiet_view_trans [OF settle_view Cons.IH] by simp
qed


section \<open>Every operation follows the protocol\<close>

text \<open>The rows keep their identities, so the primary key is kept.\<close>

definition same_ids :: "db \<Rightarrow> db \<Rightarrow> bool" where
  "same_ids db db' \<longleftrightarrow> map ob_outbox_id (db_outbox db') = map ob_outbox_id (db_outbox db)"

lemma same_ids_refl: "same_ids db db" by (simp add: same_ids_def)

lemma same_ids_trans: "same_ids a b \<Longrightarrow> same_ids b c \<Longrightarrow> same_ids a c" by (simp add: same_ids_def)

lemma same_ids_update: "(\<And>r. ob_outbox_id (f r) = ob_outbox_id r) \<Longrightarrow> same_ids db (update_outbox p f db)"
  by (simp add: same_ids_def update_outbox_def map_update_where)

lemma same_ids_settle: "same_ids db (snd (settle_receipt digest token db))"
proof -
  have "same_ids db (snd (settle_final a c db))" for a c
    by (auto simp: same_ids_def settle_final_def Let_def set_outbox_def deliver_part_def complete_delivered_job_def
        next_part_def outbox_delivered_def map_update_where split: option.splits)
  moreover have "same_ids db (snd (settle_progress a c db))" for a c
    by (auto simp: same_ids_def settle_progress_def set_progress_def split: option.splits)
  ultimately show ?thesis by (auto simp: settle_receipt_def same_ids_refl split: option.splits target_kind.splits)
qed

lemma same_ids_settle_all: "same_ids db (settle_all digest tokens db)"
proof (induction tokens arbitrary: db)
  case (Cons t ts)
  have "settle_all digest (t # ts) db = settle_all digest ts (snd (settle_receipt digest t db))"
    by (simp add: settle_all_def)
  then show ?case using same_ids_trans [OF same_ids_settle Cons.IH] by simp
qed (simp add: settle_all_def same_ids_refl)

text \<open>A step of the machine keeps the identities and takes every final along quiet moves.\<close>

definition quiet_final :: "db \<Rightarrow> db \<Rightarrow> bool" where
  "quiet_final db db' \<longleftrightarrow> same_ids db db' \<and> (\<forall>i. rel_option quiet_moves (view i db) (view i db'))"

lemma quiet_final_refl: "quiet_final db db"
  by (simp add: quiet_final_def same_ids_refl same_view_quiet)

lemma quiet_final_trans: "quiet_final a b \<Longrightarrow> quiet_final b c \<Longrightarrow> quiet_final a c"
  unfolding quiet_final_def using same_ids_trans quiet_view_trans by blast

lemma quiet_final_update:
  assumes "\<And>r. ob_outbox_id (f r) = ob_outbox_id r"
    and "\<And>r u. p r \<Longrightarrow> phase (f r) = phase r \<or> final_moves Quiet (phase r, u) (phase (f r), u)"
  shows "quiet_final db (update_outbox p f db)"
  unfolding quiet_final_def using same_ids_update quiet_update assms by blast

lemma quiet_final_settle_all: "quiet_final db (settle_all digest tokens db)"
  by (simp add: quiet_final_def same_ids_settle_all settle_all_view)

lemma guarded_outbox_effect:
  "guarded_outbox p f m k db = (r, db') \<Longrightarrow> db' = update_outbox p f db"
  by (auto simp: guarded_outbox_def elim!: commit_then_cases)

lemma heartbeat_quiet: "heartbeat_outbox i token secs now db = (r, db') \<Longrightarrow> quiet_final db db'"
  unfolding heartbeat_outbox_def
  by (auto simp: quiet_final_refl phase_def split: sum.splits dest!: guarded_outbox_effect intro!: quiet_final_update)

lemma release_quiet: "release_outbox_lease i token now db = (r, db') \<Longrightarrow> quiet_final db db'"
  unfolding release_outbox_lease_def
  by (auto simp: phase_def clear_outbox_lease_def holds_outbox_def dest!: guarded_outbox_effect
      intro!: quiet_final_update final_moves.intros)

lemma lease_quiet: "lease_outbox sender worker secs now token db = (r, db') \<Longrightarrow> quiet_final db db'"
proof -
  assume l: "lease_outbox sender worker secs now token db = (r, db')"
  then have "db' = db \<or> (\<exists>row w. db' = update_outbox (\<lambda>r. ob_outbox_id r = row \<and> ob_status r = Ds_pending)
      (grant_outbox w token now secs) db)"
    by (auto simp: lease_outbox_def lease_outbox_tx_def transact_def Let_def split: sum.splits option.splits if_splits prod.splits)
  moreover have "quiet_final db (update_outbox (\<lambda>r. ob_outbox_id r = row \<and> ob_status r = Ds_pending)
      (grant_outbox w token now secs) db)" for row w
    by (rule quiet_final_update) (auto simp: grant_outbox_def phase_def intro: final_moves.intros)
  ultimately show ?thesis using quiet_final_refl by auto
qed

lemma lose_quiet: "mark_outbox_unknown i token part code now db = (r, db') \<Longrightarrow> quiet_final db db'"
  unfolding mark_outbox_unknown_def
  by (auto simp: quiet_final_refl transact_def Let_def phase_def clear_outbox_lease_def holds_outbox_def
      split: sum.splits intro!: quiet_final_update final_moves.intros)

lemma record_receipt_effect:
  "record_receipt kind i token part m now db = Inr db' \<Longrightarrow> \<exists>rs. db' = db\<lparr>db_receipts := rs\<rparr>"
  by (auto simp: record_receipt_def split: if_splits option.splits intro: exI [of _ "db_receipts db"])

lemma quiet_receipts: "quiet_final db (db\<lparr>db_receipts := rs\<rparr>)"
  by (simp add: quiet_final_def same_ids_def view_def outbox_of_def unsent_indexes_def same_view_quiet [unfolded view_def])

lemma confirm_quiet:
  assumes "mark_outbox_delivered digest i token m part now db = (r, db')"
  shows "quiet_final db db'"
proof (cases "record_receipt Final_target i token part m now db")
  case (Inl e)
  then show ?thesis using assms by (simp add: mark_outbox_delivered_def quiet_final_refl)
next
  case (Inr db1)
  then have "quiet_final db db1" using record_receipt_effect quiet_receipts by blast
  moreover have "db' = snd (settle_receipt digest token db1)"
    using assms Inr by (simp add: mark_outbox_delivered_def Let_def)
  moreover have "quiet_final db1 (snd (settle_receipt digest token db1))"
    by (simp add: quiet_final_def same_ids_settle settle_view)
  ultimately show ?thesis using quiet_final_trans by blast
qed

lemma recover_quiet: "quiet_final (fst s) (fst (snd (recover_stale_outbox digest senders now s)))"
proof -
  have "quiet_final db (update_outbox (stale_outbox senders now) (recover_row now) db)" for db
    by (rule quiet_final_update)
      (auto simp: recover_row_def clear_outbox_lease_def phase_def stale_outbox_def intro: final_moves.intros)
  then have "quiet_final db (settle_all digest ts (update_outbox (stale_outbox senders now) (recover_row now) db))" for db ts
    using quiet_final_trans quiet_final_settle_all by blast
  then show ?thesis
    by (auto simp: recover_stale_outbox_def recover_receipts_def Let_def quiet_final_refl split: prod.splits)
qed

text \<open>Beginning a send and recording a rejection: the two labelled moves.\<close>

lemma one_row:
  assumes "outbox_keys db" "count_outbox p db \<noteq> 0" "\<And>r. p r \<Longrightarrow> ob_outbox_id r = i"
  obtains r where "outbox_of db i = Some r" "p r"
proof -
  obtain r where r: "r \<in> set (db_outbox db)" "p r"
    using assms(2) by (auto simp: count_outbox_def count_where_0 exists_row_iff)
  then show ?thesis using outbox_of_key [OF assms(1) r(1)] assms(3) that by metis
qed

lemma view_update_row:
  assumes "\<And>r. ob_outbox_id (f r) = ob_outbox_id r" "outbox_of db i = Some r" "p r"
  shows "view i (update_outbox p f db) = Some (phase (f r), unsent_indexes db i)"
  by (simp add: view_update [OF assms(1)] assms)

lemma view_update_other:
  assumes "\<And>r. ob_outbox_id (f r) = ob_outbox_id r" "\<And>r. p r \<Longrightarrow> ob_outbox_id r \<noteq> i"
  shows "view i (update_outbox p f db) = view i db"
proof -
  have "(if p r then f r else r) = r" if "outbox_of db i = Some r" for r
    using assms(2) [of r] outbox_of_id [OF that] by auto
  then show ?thesis
    by (subst view_update [OF assms(1)]) (auto simp: view_def intro!: option.map_cong)
qed

definition begun_row :: "time \<Rightarrow> outbox_row \<Rightarrow> outbox_row" where
  "begun_row now r = r\<lparr>ob_send_started_at := Some now, ob_updated_at := now\<rparr>"

lemma begin_outbox_effect:
  assumes "begin_outbox_send digest i token part now x y db = (Inr u, db')"
  shows "count_outbox (begin_guard db i token part now) db = 1 \<and>
    begin_attempt digest Final_target i token part now (update_outbox (begin_guard db i token part now) (begun_row now) db) = Inr db'"
  using assms unfolding begin_outbox_send_def transact_Inr_iff begin_outbox_tx_def begun_row_def [abs_def]
  by (auto simp: attempt_Inr split: if_splits)

lemma begin_attempt_effect:
  "begin_attempt digest kind i token part now db = Inr db' \<Longrightarrow> \<exists>as. db' = db\<lparr>db_attempts := as\<rparr>"
  by (auto simp: begin_attempt_def split: option.splits if_splits)

lemma begin_moves:
  assumes "begin_outbox_send digest i token part now x y db = (Inr u, db')" "outbox_keys db"
  shows "same_ids db db' \<and> (\<forall>k. rel_option (follows (if k = i then Started part else Quiet)) (view k db) (view k db')) \<and>
     (\<exists>r. outbox_of db i = Some r \<and> begin_guard db i token part now r)"
proof -
  let ?p = "begin_guard db i token part now"
  note e = begin_outbox_effect [OF assms(1)]
  obtain as where db': "db' = (update_outbox ?p (begun_row now) db)\<lparr>db_attempts := as\<rparr>"
    using e begin_attempt_effect by blast
  have v: "view k db' = view k (update_outbox ?p (begun_row now) db)" for k
    by (rule view_same) (simp_all add: db')
  have id: "ob_outbox_id (begun_row now r) = ob_outbox_id r" for r by (simp add: begun_row_def)
  obtain r where r: "outbox_of db i = Some r" "?p r"
    using one_row [OF assms(2), of ?p i] e by (auto simp: begin_guard_def)
  have "same_ids db db'" using same_ids_update [of "begun_row now", OF id] by (simp add: db' same_ids_def)
  moreover have "rel_option (follows (if k = i then Started part else Quiet)) (view k db) (view k db')" for k
  proof (cases "k = i")
    case True
    have "final_moves (Started part) (Claimed, unsent_indexes db i) (In_flight, unsent_indexes db i)"
      using r(2) by (intro start) (simp add: begin_guard_def least_first)
    moreover have "phase r = Claimed" "phase (begun_row now r) = In_flight"
      using r(2) by (simp_all add: phase_def begun_row_def begin_guard_def current_outbox_lease_def holds_outbox_def)
    ultimately show ?thesis
      using True r(1) by (simp add: v view_update_row [where f = "begun_row now" and p = ?p, OF id r(1) r(2)] view_def [of i db] follows_def)
  next
    case False
    then have "view k db' = view k db"
      unfolding v by (intro view_update_other id) (auto simp: begin_guard_def)
    then show ?thesis using False by (simp add: follows_def [abs_def] same_view_quiet)
  qed
  ultimately show ?thesis using r by blast
qed

lemma retry_outbox_tx_effect:
  assumes "retry_outbox_tx i token code delay now db = Inr ((), db')"
  shows "count_outbox (\<lambda>r. ob_outbox_id r = i \<and> current_outbox_lease token now r) db = 1 \<and>
    db_outbox db' = db_outbox (update_outbox (\<lambda>r. ob_outbox_id r = i \<and> current_outbox_lease token now r)
        (retry_row code now delay) db) \<and> db_parts db' = db_parts db"
  using assms
  by (auto simp: retry_outbox_tx_def Let_def fail_undelivered_def update_outbox_def split: option.splits if_splits)

lemma retry_outbox_effect:
  assumes "retry_outbox i token error delay now db = (r, db')"
  shows "db' = db \<and> (\<exists>e. r = Inl e) \<or>
    (\<exists>code. retry_outbox_tx i token code delay now db = Inr ((), db') \<and> r = get_outbox db' i)"
  using assms
  by (auto simp: retry_outbox_def then_get_outbox_def elim!: commit_then_cases split: sum.splits)

lemma retry_moves:
  assumes "retry_outbox i token error delay now db = (r, db')" "outbox_keys db"
  shows "same_ids db db' \<and> (\<forall>k. rel_option (follows (if k = i \<and> outcome_of r = None then Rejected else Quiet))
     (view k db) (view k db'))"
proof -
  let ?p = "\<lambda>r. ob_outbox_id r = i \<and> current_outbox_lease token now r"
  have quiet: "rel_option (follows Quiet) v v" for v by (simp add: follows_def [abs_def] same_view_quiet)
  from retry_outbox_effect [OF assms(1)] show ?thesis
  proof (elim disjE conjE exE)
    fix e assume "db' = db" "r = Inl e"
    then show ?thesis using quiet by (simp add: same_ids_refl outcome_of_def)
  next
    fix code
    let ?U = "update_outbox ?p (retry_row code now delay) db"
    assume t: "retry_outbox_tx i token code delay now db = Inr ((), db')" and g: "r = get_outbox db' i"
    have c: "count_outbox ?p db = 1" and d: "db_outbox db' = db_outbox ?U" "db_parts db' = db_parts db"
      using retry_outbox_tx_effect [OF t] by blast+
    have id: "ob_outbox_id (retry_row code now delay q) = ob_outbox_id q" for q
      by (simp add: retry_row_def clear_outbox_lease_def)
    have v: "view k db' = view k ?U" for k
      by (rule view_same) (simp_all add: d update_outbox_def)
    obtain q where q: "outbox_of db i = Some q" "?p q" using one_row [OF assms(2), of ?p i] c by auto
    have "outbox_of db' i = outbox_of ?U i" using d(1) by (simp add: outbox_of_def)
    then have "outcome_of r = None" using q by (simp add: g get_outbox_def outbox_of_update [OF id] outcome_of_def)
    moreover have "rel_option (follows Rejected) (view i db) (view i db')"
    proof -
      have "phase q \<in> {Claimed, In_flight}" "phase (retry_row code now delay q) \<in> {Waiting, Abandoned}"
        using q(2) by (simp_all add: phase_def retry_row_def current_outbox_lease_def holds_outbox_def)
      then show ?thesis
        using q(1) by (simp add: v view_update_row [where f = "retry_row code now delay" and p = ?p, OF id q(1) q(2)] view_def [of i db]
            follows_def reject)
    qed
    moreover have "view k db' = view k db" if "k \<noteq> i" for k
      unfolding v by (rule view_update_other [OF id]) (use that in auto)
    moreover have "same_ids db db'"
      using same_ids_update [of "retry_row code now delay", OF id] d(1) by (simp add: same_ids_def)
    ultimately show ?thesis using quiet by simp
  qed
qed

lemma quiet_follows: "quiet_final db db' \<Longrightarrow> l = Quiet \<Longrightarrow> rel_option (follows l) (view i db) (view i db')"
  by (simp add: quiet_final_def follows_def [abs_def])

text \<open>The simulation: a call keeps the key and moves each final as its label says.\<close>

lemma final_step_follows:
  assumes "final_step digest s e s'" "outbox_keys (fst s)"
  shows "outbox_keys (fst s') \<and> rel_option (follows (label_for i e)) (view i (fst s)) (view i (fst s'))"
proof -
  have quiet: "same_ids (fst s) (fst s') \<and> rel_option (follows (label_for i e)) (view i (fst s)) (view i (fst s'))"
    if "quiet_final (fst s) (fst s')" "\<forall>j token part now x y. fst e \<noteq> Begin_final j token part now x y"
      "\<forall>j token code delay now. fst e \<noteq> Reject_final j token code delay now"
  proof -
    have "label_for i e = Quiet" using that(2,3) by (cases e; cases "fst e") (auto simp: label_for_def)
    then show ?thesis using that(1) quiet_follows by (simp add: quiet_final_def follows_def [abs_def])
  qed
  have "same_ids (fst s) (fst s') \<and> rel_option (follows (label_for i e)) (view i (fst s)) (view i (fst s'))"
  proof (cases "fst e")
    case (Begin_final j token part now x y)
    obtain r db' where r: "begin_outbox_send digest j token part now x y (fst s) = (r, db')" by (meson surj_pair)
    then have e: "e = (Begin_final j token part now x y, outcome_of r)" "fst s' = db'"
      using assms(1) Begin_final by (cases e; auto simp: final_step_def run_final_op_def)+
    show ?thesis
    proof (cases r)
      case (Inl er)
      then have "db' = fst s" using r by (auto simp: begin_outbox_send_def elim: transact_cases)
      then show ?thesis using e Inl quiet_follows [OF quiet_final_refl]
        by (simp add: same_ids_refl label_for_def outcome_of_def)
    next
      case (Inr u)
      have "same_ids (fst s) db'"
        "rel_option (follows (if i = j then Started part else Quiet)) (view i (fst s)) (view i db')"
        using begin_moves [OF r [unfolded Inr] assms(2)] by blast+
      then show ?thesis using e Inr by (auto simp: label_for_def outcome_of_def)
    qed
  next
    case (Reject_final j token code delay now)
    obtain r db' where r: "retry_outbox j token code delay now (fst s) = (r, db')" by (meson surj_pair)
    then have e: "e = (Reject_final j token code delay now, outcome_of r)" "fst s' = db'"
      using assms(1) Reject_final by (cases e; auto simp: final_step_def run_final_op_def)+
    have "same_ids (fst s) db'"
      "rel_option (follows (if i = j \<and> outcome_of r = None then Rejected else Quiet)) (view i (fst s)) (view i db')"
      using retry_moves [OF r assms(2)] by blast+
    then show ?thesis using e by (auto simp: label_for_def split: option.splits)
  next
    case (Lease_final sender worker secs now token)
    show ?thesis
      by (rule quiet) (use assms(1) lease_quiet [OF prod.collapse [symmetric]] in \<open>auto simp: final_step_def run_final_op_def split_beta Lease_final\<close>)
  next
    case (Heartbeat_final j token secs now)
    show ?thesis
      by (rule quiet) (use assms(1) heartbeat_quiet [OF prod.collapse [symmetric]] in \<open>auto simp: final_step_def run_final_op_def split_beta Heartbeat_final\<close>)
  next
    case (Release_final j token now)
    show ?thesis
      by (rule quiet) (use assms(1) release_quiet [OF prod.collapse [symmetric]] in \<open>auto simp: final_step_def run_final_op_def split_beta Release_final\<close>)
  next
    case (Confirm_final j token m part now)
    show ?thesis
      by (rule quiet) (use assms(1) confirm_quiet [OF prod.collapse [symmetric]] in \<open>auto simp: final_step_def run_final_op_def split_beta Confirm_final\<close>)
  next
    case (Lose_final j token part code now)
    show ?thesis
      by (rule quiet) (use assms(1) lose_quiet [OF prod.collapse [symmetric]] in \<open>auto simp: final_step_def run_final_op_def split_beta Lose_final\<close>)
  next
    case (Recover_finals senders now)
    show ?thesis
      by (rule quiet) (use assms(1) recover_quiet [of s] in \<open>auto simp: final_step_def run_final_op_def split_beta Recover_finals\<close>)
  qed
  then show ?thesis using assms(2) by (simp add: outbox_keys_def same_ids_def)
qed


section \<open>A part is sent at most once without a rejection\<close>

text \<open>A part may be sent when it is unsent and not the one that is in flight, in doubt, or over.\<close>

definition may_send :: "int \<Rightarrow> final_phase \<times> int list \<Rightarrow> bool" where
  "may_send p a \<longleftrightarrow> p \<in> set (snd a) \<and> (fst a \<in> {Waiting, Claimed} \<or> least (snd a) \<noteq> Some p)"

lemma quiet_keeps_disarmed: "final_moves Quiet a b \<Longrightarrow> \<not> may_send p a \<Longrightarrow> \<not> may_send p b"
  by (cases a; cases b) (auto simp: may_send_def elim!: quiet_move)

lemma quiet_moves_keep_disarmed: "quiet_moves a b \<Longrightarrow> \<not> may_send p a \<Longrightarrow> \<not> may_send p b"
  by (induction rule: rtranclp_induct) (use quiet_keeps_disarmed in blast)+

lemma started_keeps_disarmed: "final_moves (Started q) a b \<Longrightarrow> \<not> may_send p a \<Longrightarrow> \<not> may_send p b"
  by (cases a; cases b) (auto simp: may_send_def elim!: started_move)

lemma least_mem: "least u = Some p \<Longrightarrow> p \<in> set u"
proof -
  have "fold min xs x \<in> insert x (set xs)" for x :: int and xs
    by (induction xs arbitrary: x) (simp, metis fold_simps(2) insert_iff list.simps(15) min_def)
  then show "least u = Some p \<Longrightarrow> p \<in> set u" by (auto simp: least_def split: list.splits)
qed

lemma started_disarms: "final_moves (Started p) a b \<Longrightarrow> may_send p a \<and> \<not> may_send p b"
  by (cases a; cases b) (auto simp: may_send_def least_mem elim!: started_move)

definition armed_final :: "string \<Rightarrow> int \<Rightarrow> delivery_state \<Rightarrow> bool" where
  "armed_final i p s \<longleftrightarrow> (case view i (fst s) of None \<Rightarrow> True | Some a \<Rightarrow> may_send p a)"

definition begins_part :: "string \<Rightarrow> int \<Rightarrow> final_op \<times> state_error option \<Rightarrow> bool" where
  "begins_part i p e \<longleftrightarrow> label_for i e = Started p"

definition rejects_final :: "string \<Rightarrow> final_op \<times> state_error option \<Rightarrow> bool" where
  "rejects_final i e \<longleftrightarrow> label_for i e = Rejected"

text \<open>The primary key of the table, carried along by the steps.\<close>

definition keyed_final_step ::
  "(binding_row \<Rightarrow> string) \<Rightarrow> delivery_state \<Rightarrow> final_op \<times> state_error option \<Rightarrow> delivery_state \<Rightarrow> bool" where
  "keyed_final_step digest s e s' \<longleftrightarrow> outbox_keys (fst s) \<and> final_step digest s e s'"

lemma keyed_trace:
  "trace (final_step digest) s es s' \<Longrightarrow> outbox_keys (fst s) \<Longrightarrow> trace (keyed_final_step digest) s es s'"
proof (induction rule: trace.induct)
  case (trace_step s e t es u)
  then have "outbox_keys (fst t)" using final_step_follows by blast
  then show ?case using trace_step by (auto intro: trace.trace_step simp: keyed_final_step_def)
qed (rule trace_nil)


lemma part_begun_disarms:
  assumes "keyed_final_step digest s e s'" "begins_part i p e"
  shows "armed_final i p s \<and> \<not> armed_final i p s'"
proof -
  have k: "outbox_keys (fst s)" "final_step digest s e s'" and l: "label_for i e = Started p"
    using assms by (simp_all add: keyed_final_step_def begins_part_def)
  obtain token now x y where e: "e = (Begin_final i token p now x y, None)"
    using l by (cases e; cases "fst e") (auto simp: label_for_def split: option.splits if_splits)
  then obtain db' where "begin_outbox_send digest i token p now x y (fst s) = (Inr (), db')"
    using k(2) by (auto simp: final_step_def run_final_op_def outcome_of_def split_beta split: sum.splits)
      (metis old.unit.exhaust prod.collapse)
  then obtain r where "outbox_of (fst s) i = Some r" using begin_moves k(1) by blast
  moreover have "rel_option (final_moves (Started p)) (view i (fst s)) (view i (fst s'))"
    using final_step_follows [OF k(2,1), of i] l by (simp add: follows_def [abs_def])
  ultimately show ?thesis
    using started_disarms by (auto simp: armed_final_def view_def option_rel_Some1)
qed

lemma unrejected_keeps_disarmed:
  assumes "keyed_final_step digest s e s'" "\<not> armed_final i p s" "\<not> rejects_final i e"
  shows "\<not> armed_final i p s'"
proof -
  have "rel_option (follows (label_for i e)) (view i (fst s)) (view i (fst s'))" "label_for i e \<noteq> Rejected"
    using final_step_follows [of digest s e s' i] assms(1,3) by (simp_all add: keyed_final_step_def rejects_final_def)
  then show ?thesis
    using assms(2) quiet_moves_keep_disarmed started_keeps_disarmed
    by (cases "label_for i e") (auto simp: armed_final_def follows_def option_rel_Some1 split: option.splits)
qed

interpretation finals: send_once "keyed_final_step digest" "begins_part i p" "rejects_final i" "armed_final i p"
  for digest i p
proof (unfold_locales, goal_cases)
  case 1
  then show ?case by (rule part_begun_disarms)
next
  case 2
  then show ?case by (rule unrejected_keeps_disarmed)
qed

text \<open>C18. The delivery facade implements the protocol of a final: any sequence of calls, with
  whatever arguments and outcomes, takes each final along the protocol with the labels of the
  calls. So a part is put in flight only by a successful \<open>begin_outbox_send\<close> that names it, and
  is then the first unsent one; a part leaves the unsent ones only from the front, when it is in
  flight or in doubt; the final is sent exactly when none is left.\<close>

theorem finals_follow_protocol:
  assumes "trace (final_step digest) s es s'" "outbox_keys (fst s)"
  shows "rel_option (\<lambda>a b. trace (\<lambda>x l y. follows l x y) a (map (label_for i) es) b) (view i (fst s)) (view i (fst s'))"
  using assms
proof (induction rule: trace.induct)
  case (trace_nil s)
  show ?case by (rule option.rel_refl) (simp add: trace.trace_nil)
next
  case (trace_step s e t es u)
  have "outbox_keys (fst t)" "rel_option (follows (label_for i e)) (view i (fst s)) (view i (fst t))"
    using final_step_follows [OF trace_step.hyps(1) trace_step.prems] by blast+
  then show ?case
    using trace_step.IH
    by (cases "view i (fst s)"; cases "view i (fst t)"; cases "view i (fst u)") (auto intro: trace.trace_step)
qed

text \<open>C17. A part of a final is sent at most once per confirmed rejection: over any sequence of calls of
  the delivery facade, leases that expire and receipts that arrive late included, the sends begun
  for a part number at most one more than the recorded rejections of its final, and between two
  of them a rejection is recorded.\<close>

theorem final_part_sent_once:
  assumes "trace (final_step digest) s es s'" "outbox_keys (fst s)"
  shows "length (filter (begins_part i p) es) \<le> length (filter (rejects_final i) es) + 1 \<and>
     (\<forall>xs e ys zs. es = xs @ e # ys @ zs \<longrightarrow> begins_part i p e \<longrightarrow> list_all (\<lambda>x. \<not> rejects_final i x) ys \<longrightarrow>
        filter (begins_part i p) ys = [])"
  by (rule finals.sends_bounded_and_separated [OF keyed_trace [OF assms]])

section \<open>Examples\<close>

definition example_outbox :: outbox_row where
  "example_outbox = \<lparr>ob_outbox_id = ''o'', ob_job_id = ''a'', ob_sender_agent_id = ''codex'', ob_chat_id = 7,
     ob_thread_id = 3, ob_telegram_html = ''x'', ob_status = Ds_sending, ob_attempt_count = 1, ob_available_at = 0,
     ob_lease_owner = Some ''w'', ob_lease_token = Some ''t'', ob_lease_expires_at = Some 50,
     ob_telegram_message_id = None, ob_error_code = None, ob_created_at = 0, ob_updated_at = 0, ob_delivered_at = None,
     ob_send_started_at = None, ob_purpose = Provider_result\<rparr>"

definition example_part :: outbox_part where
  "example_part = \<lparr>op_outbox_id = ''o'', op_part_index = 1, op_telegram_html = ''x'', op_part_type = Text_part,
     op_file_path = None, op_file_name = None, op_file_size = None, op_file_sha256 = None,
     op_telegram_message_id = None, op_delivered_at = None, op_receipt_validation_version = 0\<rparr>"

definition delivery_hub :: db where
  "delivery_hub = (example_hub [example_job ''a'' 1 Result_ready])\<lparr>db_outbox := [example_outbox], db_parts := [example_part]\<rparr>"

lemma example_send_begins:
  "\<exists>s'. trace (final_step (\<lambda>_. ''d'')) (delivery_hub, Map.empty) [(Begin_final ''o'' ''t'' 1 5 None None, None)] s'"
proof -
  have "outcome_of (fst (begin_outbox_send (\<lambda>_. ''d'') ''o'' ''t'' 1 5 None None delivery_hub)) = None"
    by (simp add: begin_outbox_send_def begin_outbox_tx_def transact_def count_outbox_def count_where_def begin_guard_def
        current_outbox_lease_def holds_outbox_def after_def first_unsent_def unsent_indexes_def begin_attempt_def binding_def
        outbox_of_def part_of_def update_outbox_def update_where_def job_and_topic_def job_of_def topic_of_def attempt_of_def
        delivery_hub_def example_outbox_def example_part_def example_defs outcome_of_def)
  then have "final_step (\<lambda>_. ''d'') (delivery_hub, Map.empty) (Begin_final ''o'' ''t'' 1 5 None None, None)
      (snd (begin_outbox_send (\<lambda>_. ''d'') ''o'' ''t'' 1 5 None None delivery_hub), Map.empty)"
    by (simp add: final_step_def run_final_op_def split_beta)
  then show ?thesis using trace_step trace_nil by fast
qed

lemma delivery_hub_keys: "outbox_keys (fst (delivery_hub, Map.empty))"
  by (simp add: outbox_keys_def delivery_hub_def)

theorem finals_follow_protocol_witness:
  "\<exists>s'. trace (final_step (\<lambda>_. ''d'')) (delivery_hub, Map.empty) [(Begin_final ''o'' ''t'' 1 5 None None, None)] s' \<and>
     rel_option (\<lambda>a b. trace (\<lambda>x l y. follows l x y) a [Started 1] b) (view ''o'' delivery_hub) (view ''o'' (fst s'))"
proof -
  obtain s' where t: "trace (final_step (\<lambda>_. ''d'')) (delivery_hub, Map.empty) [(Begin_final ''o'' ''t'' 1 5 None None, None)] s'"
    using example_send_begins by blast
  have "label_for ''o'' (Begin_final ''o'' ''t'' 1 5 None None, None) = Started 1" by (simp add: label_for_def)
  then show ?thesis using finals_follow_protocol [OF t delivery_hub_keys, of "''o''"] t by (intro exI [of _ s'] conjI) simp_all
qed

theorem final_part_sent_once_witness:
  "\<exists>s'. trace (final_step (\<lambda>_. ''d'')) (delivery_hub, Map.empty) [(Begin_final ''o'' ''t'' 1 5 None None, None)] s' \<and>
     length (filter (begins_part ''o'' 1) [(Begin_final ''o'' ''t'' 1 5 None None, None)]) = 1 \<and>
     length (filter (begins_part ''o'' 1) [(Begin_final ''o'' ''t'' 1 5 None None, None)]) \<le>
       length (filter (rejects_final ''o'') [(Begin_final ''o'' ''t'' 1 5 None None, None)]) + 1"
proof -
  obtain s' where t: "trace (final_step (\<lambda>_. ''d'')) (delivery_hub, Map.empty) [(Begin_final ''o'' ''t'' 1 5 None None, None)] s'"
    using example_send_begins by blast
  have "begins_part ''o'' 1 (Begin_final ''o'' ''t'' 1 5 None None, None)" by (simp add: begins_part_def label_for_def)
  then show ?thesis using final_part_sent_once [OF t delivery_hub_keys, of "''o''" 1] t by (intro exI [of _ s'] conjI) simp_all
qed

end
