(* ===== verification/Delivery_Properties.thy ===== *)
theory Delivery_Properties
  imports Delivery_Machine
begin

text \<open>
  What the delivery of finals promises: the order of leases within a topic, the effect of a
  receipt, its immutability, and that the maintenance pages reach every receipt.
\<close>

section \<open>Leases follow the order of the topic\<close>

lemma outbox_order: "outbox_le a b \<or> outbox_le b a" "outbox_le a b \<Longrightarrow> outbox_le b c \<Longrightarrow> outbox_le a c"
  unfolding outbox_le_def by (rule linear) (rule order_trans)

lemma lease_outbox_steps:
  assumes "lease_outbox sender_id worker_id secs now token db = (r, db')"
  obtains (invalid) e where "r = Inl e" "db' = db"
      "bounded sender_id ''sender agent id'' 64 = Inl e \<or> bounded worker_id ''worker id'' 128 = Inl e \<or> outbox_seconds secs = Inl e"
  | (valid) "bounded sender_id ''sender agent id'' 64 = Inr (py_strip sender_id)"
      "bounded worker_id ''worker id'' 128 = Inr (py_strip worker_id)"
      "transact (lease_outbox_tx (py_strip sender_id) (py_strip worker_id) secs now token) db = (r, db')"
proof -
  consider (a) e where "bounded sender_id ''sender agent id'' 64 = Inl e"
    | (b) s e where "bounded sender_id ''sender agent id'' 64 = Inr s" "bounded worker_id ''worker id'' 128 = Inl e"
    | (c) s w where "bounded sender_id ''sender agent id'' 64 = Inr s" "bounded worker_id ''worker id'' 128 = Inr w"
    by (meson sum.exhaust)
  then show ?thesis
  proof cases
    case (c s w)
    have "s = py_strip sender_id" "w = py_strip worker_id" using bounded_ok c by blast+
    then show ?thesis
      using assms c invalid valid by (cases "outbox_seconds secs") (auto simp: lease_outbox_def)
  qed (use assms invalid in \<open>auto simp: lease_outbox_def\<close>)
qed

text \<open>A lease of the outbox keeps the order of every topic: it refuses only invalid arguments, grants
  nothing exactly when no final of the sender may be leased, and otherwise grants the oldest one
  that may, for which every final of an earlier job of the same topic has been delivered, has
  failed, or was released by the owner or by its kind; no other row changes.\<close>

theorem lease_outbox_outcome:
  assumes "lease_outbox sender_id worker_id secs now token db = (r, db')" "outbox_keys db"
  shows "case r of
      Inl e \<Rightarrow> db' = db \<and> (bounded sender_id ''sender agent id'' 64 = Inl e \<or> bounded worker_id ''worker id'' 128 = Inl e \<or>
        outbox_seconds secs = Inl e)
    | Inr None \<Rightarrow> db' = db \<and> (\<forall>q \<in> set (db_outbox db). \<not> outbox_leasable db (py_strip sender_id) now q)
    | Inr (Some o') \<Rightarrow> (\<exists>row \<in> set (db_outbox db).
        ob_sender_agent_id row = py_strip sender_id \<and> ob_status row = Ds_pending \<and> ob_attempt_count row < 20 \<and>
        (\<forall>q \<in> set (db_outbox db). outbox_leasable db (py_strip sender_id) now q \<longrightarrow> outbox_le row q) \<and>
        (\<exists>j \<in> set (db_jobs db). pj_job_id j = ob_job_id row \<and>
          (\<forall>e \<in> set (db_outbox db). earlier_in_topic db j e \<longrightarrow> no_longer_blocks db e)) \<and>
        o' = grant_outbox (py_strip worker_id) token now secs row \<and>
        db' = db\<lparr>db_outbox := map (\<lambda>q. if q = row then o' else q) (db_outbox db)\<rparr>)"
proof -
  let ?s = "py_strip sender_id" and ?w = "py_strip worker_id"
  from assms(1) show ?thesis
  proof (cases rule: lease_outbox_steps)
    case valid
    show ?thesis
    proof (cases "first_by outbox_le (outbox_leasable db ?s now) (db_outbox db)")
      case None
      then have "r = Inr None \<and> db' = db" using valid(3) by (auto simp: lease_outbox_tx_def)
      then show ?thesis using None by (simp add: first_by_None exists_row_iff)
    next
      case (Some row)
      let ?p = "\<lambda>q. ob_outbox_id q = ob_outbox_id row \<and> ob_status q = Ds_pending"
      have row: "row \<in> set (db_outbox db)" "outbox_leasable db ?s now row" using first_by_Some [OF Some] by blast+
      have same: "q = row" if "q \<in> set (db_outbox db)" "?p q" for q
        using distinct_key_eq [of ob_outbox_id "db_outbox db" q row] assms(2) that row(1) by (simp add: outbox_keys_def)
      have count: "count_outbox ?p db = 1"
      proof -
        have "distinct (db_outbox db)" using assms(2) by (simp add: outbox_keys_def distinct_map)
        moreover have "set (filter ?p (db_outbox db)) = {row}"
          using same row by (auto simp: outbox_leasable_def)
        ultimately show ?thesis
          by (metis card.empty card_insert_disjoint count_outbox_def count_where_def distinct_card distinct_filter empty_iff
              finite.emptyI One_nat_def)
      qed
      have upd: "update_outbox ?p (grant_outbox ?w token now secs) db =
          db\<lparr>db_outbox := map (\<lambda>q. if q = row then grant_outbox ?w token now secs row else q) (db_outbox db)\<rparr>"
      proof -
        have "update_where ?p (grant_outbox ?w token now secs) (db_outbox db) =
            map (\<lambda>q. if q = row then grant_outbox ?w token now secs row else q) (db_outbox db)"
          unfolding update_where_def by (rule map_cong) (use same row in \<open>auto simp: outbox_leasable_def\<close>)
        then show ?thesis by (simp add: update_outbox_def)
      qed
      have id: "ob_outbox_id (grant_outbox ?w token now secs q) = ob_outbox_id q" for q by (simp add: grant_outbox_def)
      have "outbox_of (update_outbox ?p (grant_outbox ?w token now secs) db) (ob_outbox_id row) =
          Some (grant_outbox ?w token now secs row)"
        using outbox_of_key [OF assms(2) row(1)] row(2) by (simp add: outbox_of_update [OF id] outbox_leasable_def)
      then have r: "r = Inr (Some (grant_outbox ?w token now secs row))"
          "db' = update_outbox ?p (grant_outbox ?w token now secs) db"
        using valid(3) Some count by (auto simp: lease_outbox_tx_def Let_def)
      have least: "\<forall>q \<in> set (db_outbox db). outbox_leasable db ?s now q \<longrightarrow> outbox_le row q"
        using first_by_least [of outbox_le, OF outbox_order(1) _ Some] outbox_order(2) by blast
      have fifo: "\<exists>j \<in> set (db_jobs db). pj_job_id j = ob_job_id row \<and>
          (\<forall>e \<in> set (db_outbox db). earlier_in_topic db j e \<longrightarrow> no_longer_blocks db e)"
        using row(2) by (auto simp: outbox_leasable_def exists_row_iff)
      show ?thesis
        using row least fifo unfolding r upd
        by (auto simp: outbox_leasable_def max_outbox_attempts_def intro!: bexI [of _ row])
    qed
  qed auto
qed


section \<open>A receipt is projected once, and never changes\<close>

lemma settle_final_done:
  assumes "settle_final a c db = (True, db')"
  obtains r where "outbox_of db (sa_target_id a) = Some r" "delivery_current (ob_status r) (ob_lease_token r) (ob_send_started_at r) a"
    "settles_job db r" "first_unsent db (sa_target_id a) = Some (sa_part_index a)"
    "db' = (let db1 = deliver_part (sa_target_id a) (sa_part_index a) c db in
       if unsent_indexes db1 (sa_target_id a) \<noteq> [] then set_outbox (sa_target_id a) (next_part (sr_recorded_at c)) db1
       else complete_delivered_job (ob_job_id r) (sr_recorded_at c) (set_outbox (sa_target_id a) (outbox_delivered c) db1))"
  using assms by (auto simp: settle_final_def Let_def split: option.splits if_splits)

lemma settle_unchanged: "settle_receipt digest token db = (False, db') \<Longrightarrow> db' = db"
  by (auto simp: settle_receipt_def settle_final_def settle_progress_def Let_def split: option.splits target_kind.splits if_splits)

lemma settle_keeps_evidence:
  "attempt_of (snd (settle_receipt digest token db)) t = attempt_of db t"
  "receipt_of (snd (settle_receipt digest token db)) t = receipt_of db t"
  by (auto simp: settle_receipt_def settle_final_def settle_progress_def Let_def attempt_of_def receipt_of_def set_outbox_def
      deliver_part_def complete_delivered_job_def set_progress_def split: option.splits target_kind.splits)

lemma settled_final_over:
  assumes "settle_final a c db = (True, db')"
  shows "\<exists>r. outbox_of db' (sa_target_id a) = Some r \<and> ob_status r \<notin> {Ds_sending, Ds_unknown}"
proof -
  have id: "ob_outbox_id (next_part x q) = ob_outbox_id q" "ob_outbox_id (outbox_delivered c q) = ob_outbox_id q" for x q
    by (simp_all add: next_part_def outbox_delivered_def)
  have j: "outbox_of (complete_delivered_job x y d) k = outbox_of d k" for x y d k
    by (simp add: complete_delivered_job_def outbox_of_def)
  obtain r where "outbox_of db (sa_target_id a) = Some r"
    "db' = (let db1 = deliver_part (sa_target_id a) (sa_part_index a) c db in
       if unsent_indexes db1 (sa_target_id a) \<noteq> [] then set_outbox (sa_target_id a) (next_part (sr_recorded_at c)) db1
       else complete_delivered_job (ob_job_id r) (sr_recorded_at c) (set_outbox (sa_target_id a) (outbox_delivered c) db1))"
    using settle_final_done [OF assms] by metis
  moreover have "ob_status (next_part x q) = Ds_pending" "ob_status (outbox_delivered c q) = Ds_delivered" for x q
    by (simp_all add: next_part_def outbox_delivered_def)
  ultimately show ?thesis
    by (auto simp: Let_def j outbox_of_set [OF id(1)] outbox_of_set [OF id(2)])
qed

lemma settle_over:
  assumes "settle_receipt digest token db = (True, db')"
  shows "settle_receipt digest token db' = (False, db')"
proof -
  obtain a c where a: "attempt_of db token = Some a" "receipt_of db token = Some c"
    using assms by (auto simp: settle_receipt_def split: option.splits)
  have e: "attempt_of db' token = Some a" "receipt_of db' token = Some c"
    using settle_keeps_evidence [of digest token db token] assms a by simp_all
  have "(if x then (False, db') else y) = (False, db')" if "y = (False, db')" for x y
    using that by simp
  moreover have "(case sa_kind a of Final_target \<Rightarrow> settle_final a c db' | Progress_target \<Rightarrow> settle_progress a c db') = (False, db')"
  proof (cases "sa_kind a")
    case Final_target
    then have "settle_final a c db = (True, db')" using assms a by (simp add: settle_receipt_def split: if_splits)
    from settled_final_over [OF this] show ?thesis
      using Final_target by (auto simp: settle_final_def delivery_current_def)
  next
    case Progress_target
    then have p: "settle_progress a c db = (True, db')" using assms a by (simp add: settle_receipt_def split: if_splits)
    then obtain q where q: "progress_of db (sa_target_id a) = Some q" "db' = set_progress (sa_target_id a) (progress_delivered c) db"
      by (auto simp: settle_progress_def split: option.splits if_splits)
    have "progress_of db' (sa_target_id a) = map_option (\<lambda>p. if pg_progress_id p = sa_target_id a then progress_delivered c p else p)
        (progress_of db (sa_target_id a))"
      using find_update_where [of pg_progress_id "progress_delivered c" "sa_target_id a" "\<lambda>p. pg_progress_id p = sa_target_id a" "db_progress db"]
      by (simp add: q(2) progress_of_def set_progress_def progress_delivered_def)
    moreover have "pg_progress_id q = sa_target_id a" using q(1) by (auto simp: progress_of_def dest: find_Some_set)
    ultimately have "progress_of db' (sa_target_id a) = Some (progress_delivered c q)" using q(1) by simp
    then show ?thesis using Progress_target by (simp add: settle_progress_def delivery_current_def progress_delivered_def)
  qed
  ultimately show ?thesis by (simp add: settle_receipt_def e)
qed

text \<open>Settling a receipt is idempotent: whatever the database holds, settling the same token again
  projects nothing and changes nothing.\<close>

theorem settle_idempotent:
  "settle_receipt digest token (snd (settle_receipt digest token db)) = (False, snd (settle_receipt digest token db))"
proof (cases "settle_receipt digest token db")
  case (Pair b db')
  show ?thesis
  proof (cases b)
    case True
    then show ?thesis using settle_over Pair by simp
  next
    case False
    then have "db' = db" using settle_unchanged [of digest token db db'] Pair by simp
    then show ?thesis using Pair False by simp
  qed
qed

text \<open>What a receipt does to a final: it is projected only when the send it proves is the latest one
  of its part, nobody disposed of the final, its row is still the one that was sent, and the part
  is the first unsent one. Then exactly that part leaves the unsent parts; the final is delivered
  exactly when no part is left, and then, and only then, its job is completed if its result was
  waiting for this delivery.\<close>

theorem final_receipt_outcome:
  assumes "settle_receipt digest token db = (b, db')" "attempt_of db token = Some a" "sa_kind a = Final_target"
  shows "if b then
      (\<exists>r c. outbox_of db (sa_target_id a) = Some r \<and> receipt_of db token = Some c \<and>
        \<not> newer_attempt db a \<and> \<not> disposed db Final_target (sa_target_id a) \<and>
        ob_status r \<in> {Ds_sending, Ds_unknown} \<and> ob_send_started_at r = Some (sa_started_at a) \<and>
        first_unsent db (sa_target_id a) = Some (sa_part_index a) \<and>
        unsent_indexes db' (sa_target_id a) = filter (\<lambda>q. q \<noteq> sa_part_index a) (unsent_indexes db (sa_target_id a)) \<and>
        map_option ob_status (outbox_of db' (sa_target_id a)) =
          Some (if unsent_indexes db' (sa_target_id a) = [] then Ds_delivered else Ds_pending) \<and>
        db_jobs db' = map (\<lambda>j. if unsent_indexes db' (sa_target_id a) = [] \<and> pj_job_id j = ob_job_id r \<and> pj_status j = Result_ready
          then j\<lparr>pj_status := Completed, pj_updated_at := sr_recorded_at c\<rparr> else j) (db_jobs db))
    else db' = db"
proof (cases b)
  case False
  then show ?thesis using settle_unchanged assms(1) by simp
next
  case True
  let ?t = "sa_target_id a" and ?p = "sa_part_index a"
  obtain c where c: "receipt_of db token = Some c" "\<not> newer_attempt db a" "\<not> disposed db Final_target ?t"
      "settle_final a c db = (True, db')"
    using assms True by (auto simp: settle_receipt_def split: option.splits if_splits)
  let ?db1 = "deliver_part ?t ?p c db"
  obtain r where r: "outbox_of db ?t = Some r" "delivery_current (ob_status r) (ob_lease_token r) (ob_send_started_at r) a"
      "first_unsent db ?t = Some ?p"
    and db': "db' = (if unsent_indexes ?db1 ?t \<noteq> [] then set_outbox ?t (next_part (sr_recorded_at c)) ?db1
       else complete_delivered_job (ob_job_id r) (sr_recorded_at c) (set_outbox ?t (outbox_delivered c) ?db1))"
    by (rule settle_final_done [OF c(4), unfolded Let_def]) blast
  have id: "ob_outbox_id (next_part x q) = ob_outbox_id q" "ob_outbox_id (outbox_delivered c q) = ob_outbox_id q" for x q
    by (simp_all add: next_part_def outbox_delivered_def)
  have j: "outbox_of (complete_delivered_job x y d) k = outbox_of d k"
      "unsent_indexes (complete_delivered_job x y d) k = unsent_indexes d k" for x y d k
    by (simp_all add: complete_delivered_job_def outbox_of_def unsent_indexes_def)
  have u: "unsent_indexes db' ?t = unsent_indexes ?db1 ?t" by (simp add: db' j)
  have s: "ob_status (next_part x q) = Ds_pending" "ob_status (outbox_delivered c q) = Ds_delivered" for x q
    by (simp_all add: next_part_def outbox_delivered_def)
  have jobs: "db_jobs db' = map (\<lambda>j. if unsent_indexes ?db1 ?t = [] \<and> pj_job_id j = ob_job_id r \<and> pj_status j = Result_ready
      then j\<lparr>pj_status := Completed, pj_updated_at := sr_recorded_at c\<rparr> else j) (db_jobs db)"
    by (simp add: db' complete_delivered_job_def update_where_def set_outbox_def deliver_part_def)
  have status: "map_option ob_status (outbox_of db' ?t) = Some (if unsent_indexes ?db1 ?t = [] then Ds_delivered else Ds_pending)"
    by (simp add: db' j outbox_of_set [OF id(1)] outbox_of_set [OF id(2)] r(1) s)
  have current: "ob_status r \<in> {Ds_sending, Ds_unknown}" "ob_send_started_at r = Some (sa_started_at a)"
    using r(2) by (simp_all add: delivery_current_def)
  show ?thesis
    unfolding if_P [OF True] u
    by (intro exI [of _ r] exI [of _ c] conjI r(1,3) c(1,2,3) current status jobs) (simp add: unsent_deliver)
qed

text \<open>A receipt is immutable evidence: once one is recorded for a send, recording the same Telegram
  message again changes nothing, and a different message is refused.\<close>

theorem receipt_is_immutable:
  assumes "record_receipt kind i token part m now db = Inr db'" "0 < m'"
  shows "record_receipt kind i token part m' now' db' =
    (if m' = m then Inr db' else Inl (State_error ''conflicting Telegram receipt''))"
proof -
  obtain a where a: "attempt_of db token = Some a" "sa_kind a = kind" "sa_target_id a = i" "part \<noteq> None \<longrightarrow> part = Some (sa_part_index a)"
    using assms(1) by (auto simp: record_receipt_def split: if_splits option.splits)
  have "attempt_of db' token = Some a" "map_option sr_telegram_message_id (receipt_of db' token) = Some m"
    using assms(1) a by (auto simp: record_receipt_def attempt_of_def receipt_of_def find_append_None split: if_splits option.splits)
  then show ?thesis using a assms(2) by (auto simp: record_receipt_def)
qed


section \<open>Every receipt is reached by the maintenance pages\<close>

definition after_pages ::
  "target_kind \<Rightarrow> string list \<Rightarrow> db \<Rightarrow> nat \<Rightarrow> receipt_cursors \<Rightarrow> receipt_cursors" where
  "after_pages kind senders db n cursors = ((\<lambda>cs. snd (pending_receipts kind senders db cs)) ^^ n) cursors"

definition nth_page :: "target_kind \<Rightarrow> string list \<Rightarrow> db \<Rightarrow> nat \<Rightarrow> receipt_cursors \<Rightarrow> string list" where
  "nth_page kind senders db n cursors = fst (pending_receipts kind senders db (after_pages kind senders db n cursors))"

lemma nth_page_Suc:
  "nth_page kind senders db (Suc n) cursors = nth_page kind senders db n (snd (pending_receipts kind senders db cursors))"
  by (simp only: nth_page_def after_pages_def funpow_Suc_right comp_apply)

text \<open>The receipts still to be projected, in order, and those after a cursor.\<close>

definition backlog :: "target_kind \<Rightarrow> string list \<Rightarrow> db \<Rightarrow> send_attempt list" where
  "backlog kind senders db = sort_key sa_sequence (filter (unprojected db kind senders) (db_attempts db))"

definition cursor_of :: "target_kind \<Rightarrow> string list \<Rightarrow> receipt_cursors \<Rightarrow> int" where
  "cursor_of kind senders cursors = (case cursors (kind, senders) of None \<Rightarrow> 0 | Some c \<Rightarrow> c)"

definition beyond :: "int \<Rightarrow> send_attempt list \<Rightarrow> send_attempt list" where
  "beyond c xs = filter (\<lambda>a. c < sa_sequence a) xs"

lemma receipt_page_backlog: "receipt_page db kind senders c = take 64 (beyond c (backlog kind senders db))"
  by (simp add: receipt_page_def beyond_def backlog_def filter_sort conj_commute)

lemma page_step:
  assumes "senders \<noteq> []" "cursor_of kind senders cursors = c"
    and "rows = (if beyond c (backlog kind senders db) = [] then take 64 (beyond 0 (backlog kind senders db))
       else take 64 (beyond c (backlog kind senders db)))" "rows \<noteq> []"
  shows "fst (pending_receipts kind senders db cursors) = map sa_attempt_id rows"
    and "cursor_of kind senders (snd (pending_receipts kind senders db cursors)) = sa_sequence (last rows)"
  using assms by (auto simp: pending_receipts_def receipt_page_backlog cursor_of_def Let_def split: option.splits)

text \<open>The cursor moves to the last row of the page, so fewer rows stay beyond it.\<close>

lemma beyond_progress:
  assumes "x \<in> set (beyond c xs)"
  shows "length (beyond (sa_sequence x) xs) < length (beyond c xs)"
proof -
  have c: "c < sa_sequence x" using assms by (simp add: beyond_def)
  then have "beyond (sa_sequence x) xs = filter (\<lambda>a. sa_sequence x < sa_sequence a) (beyond c xs)"
    by (auto simp: beyond_def intro: filter_cong)
  then show ?thesis using length_filter_less [OF assms, of "\<lambda>a. sa_sequence x < sa_sequence a"] by simp
qed

lemma page_before:
  assumes "sorted (map sa_sequence xs)" "distinct (map sa_sequence xs)" "a \<in> set xs" "a \<notin> set (take n xs)" "0 < n"
  shows "take n xs \<noteq> [] \<and> sa_sequence (last (take n xs)) < sa_sequence a"
proof -
  have d: "a \<in> set (drop n xs)" using assms(3,4) by (metis UnE append_take_drop_id set_append)
  then have ne: "take n xs \<noteq> []" using assms(5) by (cases xs) auto
  have s: "sorted (map sa_sequence (take n xs) @ map sa_sequence (drop n xs))"
    "distinct (map sa_sequence (take n xs) @ map sa_sequence (drop n xs))"
    using assms(1,2) by (simp_all flip: map_append)
  have "sa_sequence (last (take n xs)) \<le> sa_sequence a" using s(1) d last_in_set [OF ne] by (auto simp: sorted_append)
  moreover have "sa_sequence (last (take n xs)) \<noteq> sa_sequence a"
    using s(2) d last_in_set [OF ne] unfolding distinct_append by (metis disjoint_iff image_eqI set_map)
  ultimately show ?thesis using ne by simp
qed

lemma beyond_order:
  assumes "distinct (map sa_sequence (db_attempts db))"
  shows "sorted (map sa_sequence (beyond c (backlog kind senders db)))"
    and "distinct (map sa_sequence (beyond c (backlog kind senders db)))"
proof -
  have "sorted (map sa_sequence (backlog kind senders db))" by (simp add: backlog_def)
  then show "sorted (map sa_sequence (beyond c (backlog kind senders db)))" by (simp add: beyond_def sorted_filter)
  have "distinct (map sa_sequence (backlog kind senders db))"
    using assms by (auto simp: backlog_def distinct_map intro: inj_on_subset)
  then show "distinct (map sa_sequence (beyond c (backlog kind senders db)))" by (simp add: beyond_def distinct_map_filter)
qed

lemma reach_ahead:
  assumes "senders \<noteq> []" "distinct (map sa_sequence (db_attempts db))" "a \<in> set (backlog kind senders db)"
  shows "cursor_of kind senders cursors < sa_sequence a \<Longrightarrow>
    \<exists>n < length (beyond (cursor_of kind senders cursors) (backlog kind senders db)).
      sa_attempt_id a \<in> set (nth_page kind senders db n cursors)"
proof (induction "length (beyond (cursor_of kind senders cursors) (backlog kind senders db))" arbitrary: cursors
    rule: less_induct)
  case less
  let ?c = "cursor_of kind senders cursors" and ?L = "backlog kind senders db"
  let ?rows = "take 64 (beyond ?c ?L)"
  have a: "a \<in> set (beyond ?c ?L)" using assms(3) less.prems by (simp add: beyond_def)
  then have ne: "beyond ?c ?L \<noteq> []" by auto
  then have step: "fst (pending_receipts kind senders db cursors) = map sa_attempt_id ?rows"
    "cursor_of kind senders (snd (pending_receipts kind senders db cursors)) = sa_sequence (last ?rows)"
    using page_step [OF assms(1), of kind cursors ?c ?rows db] by simp_all
  show ?case
  proof (cases "a \<in> set ?rows")
    case True
    then have "sa_attempt_id a \<in> set (nth_page kind senders db 0 cursors)"
      using step(1) by (simp add: nth_page_def after_pages_def)
    then show ?thesis using ne by blast
  next
    case False
    let ?cs = "snd (pending_receipts kind senders db cursors)"
    have l: "?rows \<noteq> []" "sa_sequence (last ?rows) < sa_sequence a"
      using page_before [OF beyond_order(1) [OF assms(2)] beyond_order(2) [OF assms(2)] a False] by simp_all
    have "last ?rows \<in> set (beyond ?c ?L)" using last_in_set [OF l(1)] by (meson in_set_takeD)
    then have m: "length (beyond (cursor_of kind senders ?cs) ?L) < length (beyond ?c ?L)"
      using beyond_progress step(2) by metis
    from less.hyps [OF this] obtain n where "n < length (beyond (cursor_of kind senders ?cs) ?L)"
        "sa_attempt_id a \<in> set (nth_page kind senders db n ?cs)"
      using l(2) step(2) by auto
    then show ?thesis using m nth_page_Suc [of kind senders db n cursors] by (intro exI [of _ "Suc n"]) simp
  qed
qed

text \<open>From a cursor past the receipt, the pages run to the end of the backlog and start again.\<close>

lemma reach_around:
  assumes "senders \<noteq> []" "distinct (map sa_sequence (db_attempts db))" "a \<in> set (backlog kind senders db)" "0 < sa_sequence a"
  shows "\<exists>n \<le> length (beyond (cursor_of kind senders cursors) (backlog kind senders db)) + length (backlog kind senders db).
      sa_attempt_id a \<in> set (nth_page kind senders db n cursors)"
proof (induction "length (beyond (cursor_of kind senders cursors) (backlog kind senders db))" arbitrary: cursors
    rule: less_induct)
  case less
  let ?c = "cursor_of kind senders cursors" and ?L = "backlog kind senders db"
  let ?cs = "snd (pending_receipts kind senders db cursors)"
  have short: "length (beyond c ?L) \<le> length ?L" for c by (simp add: beyond_def)
  consider (ahead) "?c < sa_sequence a" | (later) "\<not> ?c < sa_sequence a" "beyond ?c ?L \<noteq> []"
    | (wrap) "beyond ?c ?L = []" by blast
  then show ?case
  proof cases
    case ahead
    show ?thesis using reach_ahead [OF assms(1-3) ahead] by (meson le_add1 less_imp_le order_trans)
  next
    case later
    let ?rows = "take 64 (beyond ?c ?L)"
    have ne: "?rows \<noteq> []" using later(2) by simp
    then have c: "cursor_of kind senders ?cs = sa_sequence (last ?rows)"
      using page_step(2) [OF assms(1), of kind cursors ?c ?rows db] later(2) by simp
    have "last ?rows \<in> set (beyond ?c ?L)" using last_in_set [OF ne] by (meson in_set_takeD)
    then have m: "length (beyond (cursor_of kind senders ?cs) ?L) < length (beyond ?c ?L)"
      using beyond_progress c by metis
    from less.hyps [OF this] obtain n where "n \<le> length (beyond (cursor_of kind senders ?cs) ?L) + length ?L"
      "sa_attempt_id a \<in> set (nth_page kind senders db n ?cs)" by blast
    then show ?thesis using m nth_page_Suc [of kind senders db n cursors] by (intro exI [of _ "Suc n"]) simp
  next
    case wrap
    let ?rows = "take 64 (beyond 0 ?L)"
    have a: "a \<in> set (beyond 0 ?L)" using assms(3,4) by (simp add: beyond_def)
    then have "?rows \<noteq> []" by auto
    then have step: "fst (pending_receipts kind senders db cursors) = map sa_attempt_id ?rows"
      "cursor_of kind senders ?cs = sa_sequence (last ?rows)"
      using page_step [OF assms(1), of kind cursors ?c ?rows db] wrap by simp_all
    show ?thesis
    proof (cases "a \<in> set ?rows")
      case True
      then have "sa_attempt_id a \<in> set (nth_page kind senders db 0 cursors)"
        using step(1) by (simp add: nth_page_def after_pages_def)
      then show ?thesis by blast
    next
      case False
      have l: "?rows \<noteq> []" "sa_sequence (last ?rows) < sa_sequence a"
        using page_before [OF beyond_order(1) [OF assms(2)] beyond_order(2) [OF assms(2)] a False] by simp_all
      obtain n where n: "n < length (beyond (cursor_of kind senders ?cs) ?L)" "sa_attempt_id a \<in> set (nth_page kind senders db n ?cs)"
        using reach_ahead [OF assms(1-3), of ?cs] l(2) step(2) by auto
      then have "Suc n \<le> length (beyond ?c ?L) + length ?L" using short [of "cursor_of kind senders ?cs"] by linarith
      then show ?thesis using n(2) nth_page_Suc [of kind senders db n cursors] by (intro exI [of _ "Suc n"]) simp
    qed
  qed
qed

text \<open>C32. Maintenance reaches every receipt: whatever the cursor a restart or earlier passes left, and
  however many receipts can never be projected, a receipt that is still to be projected is on one
  of the next pages, no later than twice the number of recorded attempts.\<close>

theorem every_receipt_is_reached:
  assumes "a \<in> set (db_attempts db)" "unprojected db kind senders a"
    and "distinct (map sa_sequence (db_attempts db))" "\<forall>x \<in> set (db_attempts db). 0 < sa_sequence x"
  shows "\<exists>n \<le> 2 * length (db_attempts db). sa_attempt_id a \<in> set (nth_page kind senders db n cursors)"
proof -
  have "senders \<noteq> []" using assms(2) by (auto simp: unprojected_def split: option.splits)
  moreover have "a \<in> set (backlog kind senders db)" using assms(1,2) by (simp add: backlog_def)
  ultimately obtain n where n: "n \<le> length (beyond (cursor_of kind senders cursors) (backlog kind senders db)) + length (backlog kind senders db)"
    "sa_attempt_id a \<in> set (nth_page kind senders db n cursors)"
    using reach_around assms(1,3,4) by blast
  have "length (backlog kind senders db) \<le> length (db_attempts db)" by (simp add: backlog_def)
  moreover have "length (beyond c xs) \<le> length xs" for c and xs :: "send_attempt list" by (simp add: beyond_def)
  ultimately have "n \<le> 2 * length (db_attempts db)" using n(1) by (smt (verit) add_mono mult_2 order_trans)
  then show ?thesis using n(2) by blast
qed


section \<open>Examples\<close>

text \<open>A final whose only part was begun and confirmed, and one that waits for a sender.\<close>

definition example_attempt :: send_attempt where
  "example_attempt = \<lparr>sa_sequence = 1, sa_attempt_id = ''t'', sa_kind = Final_target, sa_target_id = ''o'',
     sa_part_index = 1, sa_binding_hash = ''d'', sa_started_at = 5\<rparr>"

definition example_receipt :: send_receipt where
  "example_receipt = \<lparr>sr_attempt_id = ''t'', sr_telegram_message_id = 40, sr_recorded_at = 6\<rparr>"

definition sent_hub :: db where
  "sent_hub = delivery_hub\<lparr>db_outbox := [example_outbox\<lparr>ob_send_started_at := Some 5\<rparr>],
     db_attempts := [example_attempt], db_receipts := [example_receipt]\<rparr>"

definition queued_hub :: db where
  "queued_hub = delivery_hub\<lparr>db_outbox := [example_outbox\<lparr>ob_status := Ds_pending, ob_lease_owner := None,
     ob_lease_token := None, ob_lease_expires_at := None\<rparr>]\<rparr>"

lemma sent_hub_evidence:
  "attempt_of sent_hub ''t'' = Some example_attempt" "receipt_of sent_hub ''t'' = Some example_receipt"
  "db_attempts sent_hub = [example_attempt]"
  by (simp_all add: sent_hub_def attempt_of_def receipt_of_def example_attempt_def example_receipt_def)

lemma sent_hub_settles: "fst (settle_receipt (\<lambda>_. ''d'') ''t'' sent_hub)"
proof -
  have "binding sent_hub Final_target ''o'' 1 \<noteq> None"
    by (simp add: binding_def outbox_of_def part_of_def job_and_topic_def job_of_def topic_of_def sent_hub_def
        delivery_hub_def example_outbox_def example_part_def example_defs)
  then have "map_option (\<lambda>_. ''d'') (binding sent_hub Final_target ''o'' 1) = Some ''d''" by auto
  moreover have "\<not> newer_attempt sent_hub example_attempt" "\<not> disposed sent_hub Final_target ''o''"
    by (simp_all add: newer_attempt_def disposed_def exists_row_def sent_hub_def delivery_hub_def example_defs)
  moreover have "fst (settle_final example_attempt example_receipt sent_hub)"
    by (simp add: settle_final_def outbox_of_def delivery_current_def settles_job_def job_of_def first_unsent_def
        unsent_indexes_def sent_hub_def delivery_hub_def example_outbox_def example_part_def example_attempt_def
        example_defs Let_def)
  ultimately show ?thesis
    by (simp add: settle_receipt_def sent_hub_evidence) (simp add: example_attempt_def)
qed

theorem final_receipt_outcome_witness:
  "\<exists>db'. settle_receipt (\<lambda>_. ''d'') ''t'' sent_hub = (True, db') \<and>
     unsent_indexes db' ''o'' = filter (\<lambda>q. q \<noteq> 1) (unsent_indexes sent_hub ''o'')"
proof -
  obtain db' where s: "settle_receipt (\<lambda>_. ''d'') ''t'' sent_hub = (True, db')" using sent_hub_settles by (metis prod.collapse)
  have "sa_kind example_attempt = Final_target" "sa_target_id example_attempt = ''o''" "sa_part_index example_attempt = 1"
    by (simp_all add: example_attempt_def)
  then show ?thesis using final_receipt_outcome [OF s sent_hub_evidence(1)] s by auto
qed

theorem receipt_is_immutable_witness:
  "record_receipt Final_target ''o'' ''t'' (Some 1) 40 7 sent_hub = Inr sent_hub \<and>
   record_receipt Final_target ''o'' ''t'' (Some 1) 41 8 sent_hub = Inl (State_error ''conflicting Telegram receipt'')"
proof -
  have r: "record_receipt Final_target ''o'' ''t'' (Some 1) 40 7 sent_hub = Inr sent_hub"
    by (simp add: record_receipt_def sent_hub_evidence) (simp add: example_attempt_def example_receipt_def)
  then show ?thesis using receipt_is_immutable [OF r, of 41 8] by simp
qed

theorem every_receipt_is_reached_witness:
  "\<exists>n \<le> 2 * length (db_attempts sent_hub).
     ''t'' \<in> set (nth_page Final_target [''codex''] sent_hub n ((\<lambda>_. None)((Final_target, [''codex'']) \<mapsto> 9)))"
proof -
  have u: "unprojected sent_hub Final_target [''codex''] example_attempt"
    by (simp add: unprojected_def receipt_of_def target_row_def outbox_of_def sent_hub_def delivery_hub_def exists_row_def
        example_attempt_def example_receipt_def example_outbox_def example_defs)
  have "example_attempt \<in> set (db_attempts sent_hub)" "distinct (map sa_sequence (db_attempts sent_hub))"
    "\<forall>x \<in> set (db_attempts sent_hub). 0 < sa_sequence x"
    by (simp_all add: sent_hub_evidence) (simp add: example_attempt_def)
  from every_receipt_is_reached [OF this(1) u this(2,3), of "(\<lambda>_. None)((Final_target, [''codex'']) \<mapsto> 9)"]
  show ?thesis by (simp add: example_attempt_def)
qed

theorem lease_outbox_outcome_witness:
  "\<exists>o' db'. lease_outbox ''codex'' ''w'' 90 5 ''t2'' queued_hub = (Inr (Some o'), db') \<and>
     o' \<in> set (db_outbox db') \<and> ob_lease_owner o' = Some ''w''"
proof -
  obtain r db' where l: "lease_outbox ''codex'' ''w'' 90 5 ''t2'' queued_hub = (r, db')" by (meson surj_pair)
  have strip: "py_strip ''codex'' = ''codex''" "py_strip ''w'' = ''w''" by (simp_all add: py_strip_def py_space_def)
  have keys: "outbox_keys queued_hub" by (simp add: outbox_keys_def queued_hub_def)
  note out = lease_outbox_outcome [OF l keys, unfolded strip]
  have "bounded ''codex'' ''sender agent id'' 64 = Inr ''codex''" "bounded ''w'' ''worker id'' 128 = Inr ''w''"
    "outbox_seconds 90 = Inr ()"
    by (simp_all add: bounded_def strip outbox_seconds_def check_def)
  moreover have "\<exists>q \<in> set (db_outbox queued_hub). outbox_leasable queued_hub ''codex'' 5 q"
    by (simp add: outbox_leasable_def max_outbox_attempts_def earlier_in_topic_def exists_row_def queued_hub_def
        delivery_hub_def example_outbox_def example_defs)
  ultimately obtain o' where o: "r = Inr (Some o')" using out by (cases r) (auto split: option.splits)
  then obtain row where "row \<in> set (db_outbox queued_hub)" "o' = grant_outbox ''w'' ''t2'' 5 90 row"
    "db' = queued_hub\<lparr>db_outbox := map (\<lambda>q. if q = row then o' else q) (db_outbox queued_hub)\<rparr>"
    using out by auto
  then have "o' \<in> set (db_outbox db')" "ob_lease_owner o' = Some ''w''"
    by (force, simp add: grant_outbox_def)
  then show ?thesis using l o by blast
qed

end
