(* ===== verification/Progress_Properties.thy ===== *)
theory Progress_Properties
  imports Progress_State Delivery_Properties
begin

text \<open>
  Progress deliveries as a machine: each is sent at most once per recorded rejection, and what
  an enqueue, a lease and the end of the job do to them.
\<close>

section \<open>The machine\<close>

datatype progress_op =
    Enqueue_progress string string int string time int string
  | Lease_progress string string time int string
  | Release_progress string string time
  | Reject_progress string string string int time
  | Begin_progress string string time "progress_row option"
  | Confirm_progress string string int time
  | Lose_progress string string string time
  | Recover_progress "string list" time
  | Supersede_progress "string list" time

definition run_progress_op ::
  "(binding_row \<Rightarrow> string) \<Rightarrow> progress_op \<Rightarrow> delivery_state \<Rightarrow> state_error option \<times> delivery_state" where
  "run_progress_op digest op s =
     (let on_db = (\<lambda>(r, db'). (r, db', snd s)) in
      case op of
        Enqueue_progress i token item body now interval pid \<Rightarrow>
          on_db (apfst outcome_of (enqueue_progress i token item body now interval pid (fst s)))
      | Lease_progress sender owner now secs token \<Rightarrow>
          on_db (apfst outcome_of (lease_progress sender owner now secs token (fst s)))
      | Release_progress i token now \<Rightarrow> on_db (apfst outcome_of (release_progress i token now (fst s)))
      | Reject_progress i token code delay now \<Rightarrow> on_db (apfst outcome_of (retry_progress i token code delay now (fst s)))
      | Begin_progress i token now x \<Rightarrow> on_db (apfst outcome_of (begin_progress_send digest i token now x (fst s)))
      | Confirm_progress i token m now \<Rightarrow> on_db (apfst outcome_of (mark_progress_delivered digest i token m now (fst s)))
      | Lose_progress i token code now \<Rightarrow> on_db (apfst outcome_of (mark_progress_unknown i token code now (fst s)))
      | Recover_progress senders now \<Rightarrow> (None, snd (recover_stale_progress digest senders now s))
      | Supersede_progress senders now \<Rightarrow> (None, snd (supersede_terminal_progress senders now (fst s)), snd s))"

definition progress_step ::
  "(binding_row \<Rightarrow> string) \<Rightarrow> delivery_state \<Rightarrow> progress_op \<times> state_error option \<Rightarrow> delivery_state \<Rightarrow> bool" where
  "progress_step digest s e s' \<longleftrightarrow> run_progress_op digest (fst e) s = (snd e, s')"

definition begins_progress :: "string \<Rightarrow> progress_op \<times> state_error option \<Rightarrow> bool" where
  "begins_progress i e = (case e of (Begin_progress j token now x, None) \<Rightarrow> j = i | _ \<Rightarrow> False)"

definition rejects_progress :: "string \<Rightarrow> progress_op \<times> state_error option \<Rightarrow> bool" where
  "rejects_progress i e = (case e of (Reject_progress j token code delay now, None) \<Rightarrow> j = i | _ \<Rightarrow> False)"

text \<open>A delivery that has not been begun: it waits, or a sender holds it without having begun.\<close>

definition unbegun :: "progress_row \<Rightarrow> bool" where
  "unbegun r \<longleftrightarrow> pg_status r = Ds_pending \<or> (pg_status r = Ds_sending \<and> pg_send_started_at r = None)"

definition armed_progress :: "string \<Rightarrow> delivery_state \<Rightarrow> bool" where
  "armed_progress i s \<longleftrightarrow> (case progress_of (fst s) i of None \<Rightarrow> True | Some r \<Rightarrow> unbegun r)"

definition progress_keys :: "db \<Rightarrow> bool" where
  "progress_keys db \<longleftrightarrow> distinct (map pg_progress_id (db_progress db))"

section \<open>What each operation does to the rows\<close>

lemma progress_of_update:
  assumes "\<And>r. pg_progress_id (f r) = pg_progress_id r"
  shows "progress_of (update_progress p f db) i = map_option (\<lambda>r. if p r then f r else r) (progress_of db i)"
  using find_update_where [of pg_progress_id f i p "db_progress db"] assms by (simp add: progress_of_def update_progress_def)

lemma progress_of_id: "progress_of db i = Some r \<Longrightarrow> pg_progress_id r = i \<and> r \<in> set (db_progress db)"
  by (auto simp: progress_of_def dest: find_Some_set)

lemma set_progress_update: "set_progress i f = update_progress (\<lambda>p. pg_progress_id p = i) f"
  by (simp add: fun_eq_iff set_progress_def update_progress_def)

text \<open>A step keeps the keys and no begun delivery of it becomes sendable again.\<close>

definition stays_begun :: "db \<Rightarrow> db \<Rightarrow> bool" where
  "stays_begun db db' \<longleftrightarrow> (progress_keys db \<longrightarrow> progress_keys db') \<and>
     (\<forall>i r. progress_of db i = Some r \<longrightarrow> \<not> unbegun r \<longrightarrow> (\<exists>r'. progress_of db' i = Some r' \<and> \<not> unbegun r'))"

lemma stays_begun_refl: "stays_begun db db" by (simp add: stays_begun_def)

lemma stays_begun_trans: "stays_begun a b \<Longrightarrow> stays_begun b c \<Longrightarrow> stays_begun a c"
  unfolding stays_begun_def by meson

lemma keys_update: "(\<And>r. pg_progress_id (f r) = pg_progress_id r) \<Longrightarrow> progress_keys (update_progress p f db) = progress_keys db"
  by (simp add: progress_keys_def update_progress_def map_update_where)

lemma stays_begun_update:
  assumes "\<And>r. pg_progress_id (f r) = pg_progress_id r"
    and "\<And>r. p r \<Longrightarrow> r \<in> set (db_progress db) \<Longrightarrow> \<not> unbegun r \<Longrightarrow> \<not> unbegun (f r)"
  shows "stays_begun db (update_progress p f db)"
proof -
  have "\<not> unbegun (if p r then f r else r)" if "progress_of db i = Some r" "\<not> unbegun r" for i r
    using assms(2) [of r] that progress_of_id [OF that(1)] by simp
  then show ?thesis by (simp add: stays_begun_def keys_update [OF assms(1)] progress_of_update [OF assms(1)])
qed

lemma stays_begun_same: "db_progress db' = db_progress db \<Longrightarrow> stays_begun db db'"
  by (simp add: stays_begun_def progress_keys_def progress_of_def)

lemma settle_stays_begun: "stays_begun db (snd (settle_receipt digest token db))"
proof -
  have "stays_begun db (snd (settle_final a c db))" for a c
    by (rule stays_begun_same)
      (simp add: settle_final_def Let_def set_outbox_def deliver_part_def complete_delivered_job_def split: option.splits)
  moreover have "stays_begun db (snd (settle_progress a c db))" for a c
  proof -
    have "stays_begun db (set_progress i (progress_delivered c) db)" for i
      unfolding set_progress_update by (rule stays_begun_update) (simp_all add: progress_delivered_def unbegun_def)
    then show ?thesis by (auto simp: settle_progress_def stays_begun_refl split: option.splits)
  qed
  ultimately show ?thesis by (auto simp: settle_receipt_def stays_begun_refl split: option.splits target_kind.splits)
qed

lemma settle_all_stays_begun: "stays_begun db (settle_all digest tokens db)"
proof (induction tokens arbitrary: db)
  case (Cons t ts)
  have "settle_all digest (t # ts) db = settle_all digest ts (snd (settle_receipt digest t db))" by (simp add: settle_all_def)
  then show ?case using stays_begun_trans [OF settle_stays_begun Cons.IH] by simp
qed (simp add: settle_all_def stays_begun_refl)

lemma enqueue_stays_begun:
  assumes "enqueue_progress i token item body now interval pid db = (r, db')"
  shows "stays_begun db db'"
proof -
  have "db' = db \<or> (\<exists>j t html. db' = db\<lparr>db_progress := db_progress db @ [new_progress pid item j t html now]\<rparr> \<and>
      \<not> exists_row (\<lambda>p. pg_progress_id p = pid) (db_progress db))"
    using assms unfolding enqueue_progress_def
  proof (cases rule: transact_cases)
    case (committed a)
    have "\<not> (item \<le> 0 \<or> interval < 0)" using committed(1) by (auto simp: enqueue_progress_tx_def split: if_split_asm)
    then obtain html where "progress_html body = Inr html" using committed(1) by (auto simp: enqueue_progress_tx_def attempt_Inr)
    with committed(1) show ?thesis
      unfolding enqueue_progress_tx_def by (auto split: if_split_asm option.split_asm)
  qed blast
  then show ?thesis
    by (auto simp: stays_begun_def progress_keys_def progress_of_def find_append_None exists_row_iff new_progress_def)
qed

lemma lease_progress_stays_begun:
  assumes "lease_progress sender owner now secs token db = (r, db')" "progress_keys db"
  shows "stays_begun db db'"
proof (cases "secs \<le> 0 \<or> first_by (\<lambda>a b. pg_created_at a \<le> pg_created_at b) (progress_leasable db sender now) (db_progress db) = None")
  case True
  then have "db' = db" using assms(1) by (auto simp: lease_progress_def lease_progress_tx_def elim!: transact_cases split: if_splits)
  then show ?thesis by (simp add: stays_begun_refl)
next
  case False
  then obtain row where row: "first_by (\<lambda>a b. pg_created_at a \<le> pg_created_at b) (progress_leasable db sender now) (db_progress db) = Some row"
    by auto
  let ?f = "\<lambda>p. p\<lparr>pg_status := Ds_sending, pg_attempt_count := pg_attempt_count p + 1, pg_lease_owner := Some owner,
      pg_lease_token := Some token, pg_lease_expires_at := Some (now + seconds secs), pg_send_started_at := None, pg_updated_at := now\<rparr>"
  have "db' = db \<or> db' = update_progress (\<lambda>p. pg_progress_id p = pg_progress_id row) ?f db"
    using assms(1) row by (auto simp: lease_progress_def lease_progress_tx_def Let_def attempt_Inr elim!: transact_cases split: if_splits)
  moreover have "stays_begun db (update_progress (\<lambda>p. pg_progress_id p = pg_progress_id row) ?f db)"
  proof (rule stays_begun_update)
    fix q assume "pg_progress_id q = pg_progress_id row" "q \<in> set (db_progress db)" "\<not> unbegun q"
    moreover have "row \<in> set (db_progress db)" "unbegun row"
      using first_by_Some [OF row] by (auto simp: progress_leasable_def unbegun_def)
    ultimately have False using distinct_key_eq [of pg_progress_id "db_progress db" q row] assms(2) by (auto simp: progress_keys_def)
    then show "\<not> unbegun (?f q)" ..
  qed simp
  ultimately show ?thesis using stays_begun_refl by auto
qed

lemma release_progress_stays_begun: "release_progress i token now db = (r, db') \<Longrightarrow> stays_begun db db'"
  unfolding release_progress_def
  by (elim transact_cases)
    (auto simp: Let_def stays_begun_refl unbegun_def clear_progress_lease_def holds_progress_def split: if_splits
      intro!: stays_begun_update)

lemma lose_progress_stays_begun: "mark_progress_unknown i token code now db = (r, db') \<Longrightarrow> stays_begun db db'"
  unfolding mark_progress_unknown_def
  by (auto simp: transact_def Let_def stays_begun_refl unbegun_def clear_progress_lease_def split: sum.splits
      intro!: stays_begun_update)

lemma confirm_progress_stays_begun:
  assumes "mark_progress_delivered digest i token m now db = (r, db')"
  shows "stays_begun db db'"
proof (cases "record_receipt Progress_target i token (Some 1) m now db")
  case (Inl e)
  then show ?thesis using assms by (simp add: mark_progress_delivered_def stays_begun_refl)
next
  case (Inr db1)
  then have "stays_begun db db1" using record_receipt_effect stays_begun_same by fastforce
  then show ?thesis using assms Inr stays_begun_trans settle_stays_begun by (auto simp: mark_progress_delivered_def)
qed

lemma recover_progress_stays_begun: "stays_begun (fst s) (fst (snd (recover_stale_progress digest senders now s)))"
proof -
  have "stays_begun db (update_progress (stale_progress senders now) (recover_progress_row now) db)" for db
    by (rule stays_begun_update) (auto simp: recover_progress_row_def clear_progress_lease_def unbegun_def stale_progress_def)
  then have "stays_begun db (settle_all digest ts (update_progress (stale_progress senders now) (recover_progress_row now) db))" for db ts
    using stays_begun_trans settle_all_stays_begun by blast
  then show ?thesis by (auto simp: recover_stale_progress_def recover_receipts_def Let_def stays_begun_refl split: prod.splits)
qed

lemma supersede_stays_begun: "stays_begun db (snd (supersede_terminal_progress senders now db))"
  by (auto simp: supersede_terminal_progress_def stays_begun_refl clear_progress_lease_def unbegun_def intro!: stays_begun_update)

lemma begin_progress_effect:
  assumes "begin_progress_send digest i token now x db = (Inr u, db')"
  shows "\<exists>as. db' = (update_progress (\<lambda>r. pg_progress_id r = i \<and> current_progress_lease token now r \<and> pg_send_started_at r = None)
      (\<lambda>r. r\<lparr>pg_send_started_at := Some now, pg_updated_at := now\<rparr>) db)\<lparr>db_attempts := as\<rparr> \<and>
    (\<exists>r \<in> set (db_progress db). pg_progress_id r = i \<and> current_progress_lease token now r \<and> pg_send_started_at r = None)"
proof -
  let ?p = "\<lambda>r. pg_progress_id r = i \<and> current_progress_lease token now r \<and> pg_send_started_at r = None"
  have e: "count_progress ?p db = 1" "begin_attempt digest Progress_target i token 1 now
      (update_progress ?p (\<lambda>r. r\<lparr>pg_send_started_at := Some now, pg_updated_at := now\<rparr>) db) = Inr db'"
    using assms unfolding begin_progress_send_def transact_Inr_iff begin_progress_tx_def
    by (auto simp: attempt_Inr Let_def split: if_splits)
  have "exists_row ?p (db_progress db)" using e(1) count_where_pos [of ?p "db_progress db"] by (simp add: count_progress_def)
  then show ?thesis using begin_attempt_effect [OF e(2)] by (auto simp: exists_row_iff)
qed


section \<open>At most one send without a rejection\<close>

definition rejected_progress :: "delivery_status \<Rightarrow> string \<Rightarrow> int \<Rightarrow> time \<Rightarrow> progress_row \<Rightarrow> progress_row" where
  "rejected_progress s code delay now r = (clear_progress_lease r)\<lparr>pg_status := s, pg_available_at := now + delay,
     pg_send_started_at := None, pg_error_code := Some (take 128 code), pg_updated_at := now\<rparr>"

lemma reject_progress_effect:
  assumes "retry_progress i token code delay now db = (r, db')"
  shows "db' = db \<and> (\<exists>e. r = Inl e) \<or> r = Inr () \<and> (\<exists>f. (\<forall>q. pg_progress_id (f q) = pg_progress_id q) \<and>
    db' = update_progress (\<lambda>p. pg_progress_id p = i) f db)"
proof -
  have "db' = db \<and> (\<exists>e. r = Inl e) \<or> r = Inr () \<and>
      (\<exists>s. db' = update_progress (\<lambda>p. pg_progress_id p = i) (rejected_progress s code delay now) db)"
    using assms by (auto simp: retry_progress_def set_progress_update rejected_progress_def [abs_def] transact_def
        split: if_splits option.splits)
  moreover have "\<forall>q. pg_progress_id (rejected_progress s code delay now q) = pg_progress_id q" for s
    by (simp add: rejected_progress_def clear_progress_lease_def)
  ultimately show ?thesis by blast
qed

lemma progress_step_keeps:
  assumes "progress_step digest s e s'" "progress_keys (fst s)"
  shows "progress_keys (fst s') \<and> (\<not> rejects_progress i e \<longrightarrow> \<not> armed_progress i s \<longrightarrow> \<not> armed_progress i s')"
proof -
  have calm: ?thesis if "stays_begun (fst s) (fst s')"
  proof (cases "progress_of (fst s) i")
    case None
    then show ?thesis using that assms(2) by (simp add: stays_begun_def armed_progress_def)
  next
    case (Some r)
    then have "\<not> unbegun r \<longrightarrow> (\<exists>r'. progress_of (fst s') i = Some r' \<and> \<not> unbegun r')" "progress_keys (fst s')"
      using that assms(2) by (simp_all add: stays_begun_def)
    then show ?thesis using Some by (auto simp: armed_progress_def)
  qed
  show ?thesis
  proof (cases "fst e")
    case (Enqueue_progress j token item body now interval pid)
    show ?thesis
      by (rule calm) (use assms(1) enqueue_stays_begun [OF prod.collapse [symmetric]] in
        \<open>auto simp: progress_step_def run_progress_op_def split_beta Enqueue_progress\<close>)
  next
    case (Lease_progress sender owner now secs token)
    show ?thesis
      by (rule calm) (use assms lease_progress_stays_begun [OF prod.collapse [symmetric]] in
        \<open>auto simp: progress_step_def run_progress_op_def split_beta Lease_progress\<close>)
  next
    case (Release_progress j token now)
    show ?thesis
      by (rule calm) (use assms(1) release_progress_stays_begun [OF prod.collapse [symmetric]] in
        \<open>auto simp: progress_step_def run_progress_op_def split_beta Release_progress\<close>)
  next
    case (Reject_progress j token code delay now)
    obtain r db' where r: "retry_progress j token code delay now (fst s) = (r, db')" by (meson surj_pair)
    then have e: "e = (Reject_progress j token code delay now, outcome_of r)" "fst s' = db'"
      using assms(1) Reject_progress by (cases e; auto simp: progress_step_def run_progress_op_def)+
    from reject_progress_effect [OF r] show ?thesis
    proof (elim disjE conjE exE)
      fix f assume f: "r = Inr ()" "\<forall>q. pg_progress_id (f q) = pg_progress_id q" "db' = update_progress (\<lambda>p. pg_progress_id p = j) f (fst s)"
      have "progress_of db' i = progress_of (fst s) i" if "j \<noteq> i"
      proof -
        have "(if pg_progress_id q = j then f q else q) = q" if "progress_of (fst s) i = Some q" for q
          using progress_of_id [OF that] \<open>j \<noteq> i\<close> by simp
        then show ?thesis
          using f(2,3) by (cases "progress_of (fst s) i") (simp_all add: progress_of_update)
      qed
      then show ?thesis
        using e f assms(2) by (auto simp: keys_update rejects_progress_def outcome_of_def armed_progress_def)
    qed (use e calm stays_begun_refl in simp)
  next
    case (Begin_progress j token now x)
    obtain r db' where r: "begin_progress_send digest j token now x (fst s) = (r, db')" by (meson surj_pair)
    then have e: "fst s' = db'" using assms(1) Begin_progress by (auto simp: progress_step_def run_progress_op_def)
    show ?thesis
    proof (cases r)
      case (Inl er)
      then have "db' = fst s" using r by (auto simp: begin_progress_send_def elim: transact_cases)
      then show ?thesis using calm e stays_begun_refl by simp
    next
      case (Inr u)
      let ?p = "\<lambda>r. pg_progress_id r = j \<and> current_progress_lease token now r \<and> pg_send_started_at r = None"
      let ?f = "\<lambda>r. r\<lparr>pg_send_started_at := Some now, pg_updated_at := now\<rparr>"
      obtain as where "db' = (update_progress ?p ?f (fst s))\<lparr>db_attempts := as\<rparr>"
        using begin_progress_effect [OF r [unfolded Inr]] by blast
      moreover have "stays_begun (fst s) (update_progress ?p ?f (fst s))" by (rule stays_begun_update) (simp_all add: unbegun_def)
      ultimately have "stays_begun (fst s) db'" using stays_begun_trans stays_begun_same by fastforce
      then show ?thesis using calm e by simp
    qed
  next
    case (Confirm_progress j token m now)
    show ?thesis
      by (rule calm) (use assms(1) confirm_progress_stays_begun [OF prod.collapse [symmetric]] in
        \<open>auto simp: progress_step_def run_progress_op_def split_beta Confirm_progress\<close>)
  next
    case (Lose_progress j token code now)
    show ?thesis
      by (rule calm) (use assms(1) lose_progress_stays_begun [OF prod.collapse [symmetric]] in
        \<open>auto simp: progress_step_def run_progress_op_def split_beta Lose_progress\<close>)
  next
    case (Recover_progress senders now)
    show ?thesis
      by (rule calm) (use assms(1) recover_progress_stays_begun [of s] in
        \<open>auto simp: progress_step_def run_progress_op_def split_beta Recover_progress\<close>)
  next
    case (Supersede_progress senders now)
    show ?thesis
      by (rule calm) (use assms(1) supersede_stays_begun in
        \<open>auto simp: progress_step_def run_progress_op_def split_beta Supersede_progress\<close>)
  qed
qed

definition keyed_progress_step ::
  "(binding_row \<Rightarrow> string) \<Rightarrow> delivery_state \<Rightarrow> progress_op \<times> state_error option \<Rightarrow> delivery_state \<Rightarrow> bool" where
  "keyed_progress_step digest s e s' \<longleftrightarrow> progress_keys (fst s) \<and> progress_step digest s e s'"

lemma keyed_progress_trace:
  "trace (progress_step digest) s es s' \<Longrightarrow> progress_keys (fst s) \<Longrightarrow> trace (keyed_progress_step digest) s es s'"
proof (induction rule: trace.induct)
  case (trace_step s e t es u)
  then have "progress_keys (fst t)" using progress_step_keeps by blast
  then show ?case using trace_step by (auto intro: trace.trace_step simp: keyed_progress_step_def)
qed (rule trace_nil)

lemma progress_begun_disarms:
  assumes "keyed_progress_step digest s e s'" "begins_progress i e"
  shows "armed_progress i s \<and> \<not> armed_progress i s'"
proof -
  obtain token now x where e: "e = (Begin_progress i token now x, None)"
    using assms(2) by (cases e) (auto simp: begins_progress_def split: progress_op.splits option.splits)
  obtain r db' where r: "begin_progress_send digest i token now x (fst s) = (r, db')" by (meson surj_pair)
  then have "outcome_of r = None" and d: "fst s' = db'"
    using assms(1) e by (auto simp: keyed_progress_step_def progress_step_def run_progress_op_def)
  then have "r = Inr ()" by (cases r) (simp_all add: outcome_of_def)
  let ?p = "\<lambda>r. pg_progress_id r = i \<and> current_progress_lease token now r \<and> pg_send_started_at r = None"
  let ?f = "\<lambda>r. r\<lparr>pg_send_started_at := Some now, pg_updated_at := now\<rparr>"
  obtain as q where db': "db' = (update_progress ?p ?f (fst s))\<lparr>db_attempts := as\<rparr>" and q: "q \<in> set (db_progress (fst s))" "?p q"
    using begin_progress_effect [OF r [unfolded \<open>r = Inr ()\<close>]] by blast
  have "progress_of (fst s) i = Some q"
    using find_key_unique [of pg_progress_id "db_progress (fst s)" q] assms(1) q
    by (simp add: keyed_progress_step_def progress_keys_def progress_of_def)
  moreover have "progress_of db' i = progress_of (update_progress ?p ?f (fst s)) i" by (simp add: db' progress_of_def)
  ultimately show ?thesis
    using q(2) by (simp add: armed_progress_def d progress_of_update unbegun_def current_progress_lease_def holds_progress_def)
qed

lemma unrejected_progress_disarmed:
  "keyed_progress_step digest s e s' \<Longrightarrow> \<not> armed_progress i s \<Longrightarrow> \<not> rejects_progress i e \<Longrightarrow> \<not> armed_progress i s'"
  using progress_step_keeps [of digest s e s' i] by (simp add: keyed_progress_step_def)

interpretation progress: send_once "keyed_progress_step digest" "begins_progress i" "rejects_progress i" "armed_progress i"
  for digest i
proof (unfold_locales, goal_cases)
  case 1
  then show ?case by (rule progress_begun_disarms)
next
  case 2
  then show ?case by (rule unrejected_progress_disarmed)
qed

text \<open>A progress message is sent at most once per recorded rejection: over any sequence of calls on
  progress deliveries, the sends begun for one number at most one more than its rejections, and
  between two of them a rejection is recorded; a lease that expires after the send began leaves
  it unknown instead of sending it again.\<close>

theorem progress_sent_once:
  assumes "trace (progress_step digest) s es s'" "progress_keys (fst s)"
  shows "length (filter (begins_progress i) es) \<le> length (filter (rejects_progress i) es) + 1 \<and>
     (\<forall>xs e ys zs. es = xs @ e # ys @ zs \<longrightarrow> begins_progress i e \<longrightarrow> list_all (\<lambda>x. \<not> rejects_progress i x) ys \<longrightarrow>
        filter (begins_progress i) ys = [])"
  by (rule progress.sends_bounded_and_separated [OF keyed_progress_trace [OF assms]])


section \<open>What an enqueue does\<close>

lemma fold_max_ge: "(x :: int) \<le> fold max xs x \<and> (\<forall>y \<in> set xs. y \<le> fold max xs x)"
proof (induction xs arbitrary: x)
  case (Cons y ys)
  have "max y x \<le> fold max ys (max y x)" "\<forall>z \<in> set ys. z \<le> fold max ys (max y x)" using Cons.IH by blast+
  then show ?case by auto
qed simp

lemma latest_progress_bound:
  assumes "p \<in> set (db_progress db)" "pg_job_id p = i"
  shows "\<exists>t. latest_progress db i = Some t \<and> pg_created_at p \<le> t"
proof -
  let ?ts = "map pg_created_at (filter (\<lambda>p. pg_job_id p = i) (db_progress db))"
  have m: "pg_created_at p \<in> set ?ts" using assms by auto
  then obtain x xs where ts: "?ts = x # xs" by (cases ?ts) auto
  then have "latest_progress db i = Some (fold max xs x)" by (simp add: latest_progress_def)
  moreover have "pg_created_at p \<le> fold max xs x" using m fold_max_ge [of x xs] unfolding ts by auto
  ultimately show ?thesis by blast
qed

lemma enqueue_progress_done:
  assumes "enqueue_progress i token item body now interval pid db = (Inr b, db')"
  obtains j html t v where "find (\<lambda>j. pj_job_id j = i \<and> pj_status j = Executing \<and> pj_lease_token j = Some token \<and>
        after (pj_lease_expires_at j) now \<and> topic_of db (pj_topic_id j) \<noteq> None) (db_jobs db) = Some j"
    "find (\<lambda>v. vi_sequence v = item \<and> vi_job_id v = i) (db_items db) = Some v" "vi_commentary v"
    "progress_html body = Inr html" "topic_of db (pj_topic_id j) = Some t"
    "b \<longleftrightarrow> \<not> exists_row (\<lambda>p. pg_item_sequence p = item) (db_progress db) \<and>
       (case latest_progress db i of None \<Rightarrow> True | Some u \<Rightarrow> u + seconds interval \<le> now)"
    "db' = (if b then db\<lparr>db_progress := db_progress db @ [new_progress pid item j t html now]\<rparr> else db)"
proof -
  have tx: "enqueue_progress_tx i token item body now interval pid db = Inr (b, db')"
    using assms by (simp add: enqueue_progress_def transact_Inr_iff)
  then have "\<not> (item \<le> 0 \<or> interval < 0)" by (auto simp: enqueue_progress_tx_def split: if_split_asm)
  then obtain html where html: "progress_html body = Inr html" using tx by (auto simp: enqueue_progress_tx_def attempt_Inr)
  obtain j where j: "find (\<lambda>j. pj_job_id j = i \<and> pj_status j = Executing \<and> pj_lease_token j = Some token \<and>
      after (pj_lease_expires_at j) now \<and> topic_of db (pj_topic_id j) \<noteq> None) (db_jobs db) = Some j"
    using tx html unfolding enqueue_progress_tx_def by (auto split: if_split_asm option.split_asm)
  obtain t where t: "topic_of db (pj_topic_id j) = Some t" using find_Some_set [OF j] by auto
  obtain v where v: "find (\<lambda>v. vi_sequence v = item \<and> vi_job_id v = i) (db_items db) = Some v" "vi_commentary v"
    using tx html j unfolding enqueue_progress_tx_def by (auto split: if_split_asm option.split_asm)
  show ?thesis
  proof (rule that [OF j v html t])
    show "b \<longleftrightarrow> \<not> exists_row (\<lambda>p. pg_item_sequence p = item) (db_progress db) \<and>
       (case latest_progress db i of None \<Rightarrow> True | Some u \<Rightarrow> u + seconds interval \<le> now)"
      "db' = (if b then db\<lparr>db_progress := db_progress db @ [new_progress pid item j t html now]\<rparr> else db)"
      using tx unfolding enqueue_progress_tx_def html j v(1) attempt_simps
      by (auto simp: v(2) t split: if_split_asm option.splits)
  qed
qed

text \<open>Progress is accepted only from the worker that runs the job, only for commentary of that job, at
  most once per commentary item and never sooner than the interval after any earlier progress of
  the job; what is accepted waits for its sender, within Telegram's limit. A refused call, and one
  that is not due, changes nothing.\<close>

theorem enqueue_progress_outcome:
  assumes "enqueue_progress i token item body now interval pid db = (r, db')"
  shows "case r of
      Inl e \<Rightarrow> db' = db
    | Inr accepted \<Rightarrow>
        (\<exists>j \<in> set (db_jobs db). pj_job_id j = i \<and> pj_status j = Executing \<and> pj_lease_token j = Some token \<and>
           after (pj_lease_expires_at j) now \<and>
           (if accepted
            then (\<forall>p \<in> set (db_progress db). pg_item_sequence p \<noteq> item \<and>
                    (pg_job_id p = i \<longrightarrow> pg_created_at p + seconds interval \<le> now)) \<and>
                 (\<exists>v \<in> set (db_items db). vi_sequence v = item \<and> vi_job_id v = i \<and> vi_commentary v) \<and>
                 (\<exists>p. db' = db\<lparr>db_progress := db_progress db @ [p]\<rparr> \<and> pg_job_id p = i \<and> pg_item_sequence p = item \<and>
                    pg_status p = Ds_pending \<and> pg_sender_agent_id p = pj_agent_id j \<and> pg_telegram_html p \<noteq> [] \<and>
                    length (pg_telegram_html p) \<le> 3600)
            else db' = db))"
proof (cases r)
  case (Inl e)
  then show ?thesis using assms by (auto simp: enqueue_progress_def elim!: transact_cases)
next
  case (Inr b)
  from assms [unfolded Inr] obtain j html t v where f: "find (\<lambda>j. pj_job_id j = i \<and> pj_status j = Executing \<and> pj_lease_token j = Some token \<and>
        after (pj_lease_expires_at j) now \<and> topic_of db (pj_topic_id j) \<noteq> None) (db_jobs db) = Some j"
    "find (\<lambda>v. vi_sequence v = item \<and> vi_job_id v = i) (db_items db) = Some v" "vi_commentary v"
    "progress_html body = Inr html" "topic_of db (pj_topic_id j) = Some t"
    "b \<longleftrightarrow> \<not> exists_row (\<lambda>p. pg_item_sequence p = item) (db_progress db) \<and>
       (case latest_progress db i of None \<Rightarrow> True | Some u \<Rightarrow> u + seconds interval \<le> now)"
    "db' = (if b then db\<lparr>db_progress := db_progress db @ [new_progress pid item j t html now]\<rparr> else db)"
    by (rule enqueue_progress_done)
  note j = find_Some_set [OF f(1)]
  show ?thesis
  proof (cases b)
    case True
    have rows: "pg_item_sequence p \<noteq> item" "pg_job_id p = i \<longrightarrow> pg_created_at p + seconds interval \<le> now"
      if "p \<in> set (db_progress db)" for p
      using f(6) True that latest_progress_bound [OF that] by (auto simp: exists_row_iff)
    have "html \<noteq> [] \<and> length html \<le> 3600"
      using progress_html_limits [of body] f(4) by simp
    then show ?thesis
      unfolding Inr sum.case using True j rows f(3,7) find_Some_set [OF f(2)]
      by (intro bexI [of _ j]) (auto simp: new_progress_def)
  next
    case False
    then show ?thesis using Inr j f(7) by auto
  qed
qed

section \<open>Examples\<close>

definition example_progress :: progress_row where
  "example_progress = \<lparr>pg_progress_id = ''p'', pg_item_sequence = 4, pg_job_id = ''a'', pg_sender_agent_id = ''codex'',
     pg_chat_id = 7, pg_thread_id = 3, pg_telegram_html = ''x'', pg_status = Ds_sending, pg_attempt_count = 1,
     pg_available_at = 0, pg_lease_owner = Some ''w'', pg_lease_token = Some ''t'', pg_lease_expires_at = Some 50,
     pg_telegram_message_id = None, pg_error_code = None, pg_created_at = 0, pg_updated_at = 0, pg_delivered_at = None,
     pg_send_started_at = None\<rparr>"

definition progress_hub :: db where
  "progress_hub = (example_hub [example_job ''a'' 1 Executing])\<lparr>db_progress := [example_progress],
     db_items := [\<lparr>vi_sequence = 4, vi_job_id = ''a'', vi_commentary = True\<rparr>, \<lparr>vi_sequence = 5, vi_job_id = ''a'', vi_commentary = True\<rparr>]\<rparr>"

theorem progress_sent_once_witness:
  "\<exists>s'. trace (progress_step (\<lambda>_. ''d'')) (progress_hub, Map.empty) [(Begin_progress ''p'' ''t'' 5 None, None)] s' \<and>
     length (filter (begins_progress ''p'') [(Begin_progress ''p'' ''t'' 5 None, None)]) = 1 \<and>
     length (filter (begins_progress ''p'') [(Begin_progress ''p'' ''t'' 5 None, None)]) \<le>
       length (filter (rejects_progress ''p'') [(Begin_progress ''p'' ''t'' 5 None, None)]) + 1"
proof -
  let ?e = "(Begin_progress ''p'' ''t'' 5 None, None) :: progress_op \<times> state_error option"
  have "outcome_of (fst (begin_progress_send (\<lambda>_. ''d'') ''p'' ''t'' 5 None progress_hub)) = None"
    by (simp add: begin_progress_send_def begin_progress_tx_def transact_def count_progress_def count_where_def
        current_progress_lease_def holds_progress_def after_def begin_attempt_def binding_def progress_of_def
        update_progress_def update_where_def job_and_topic_def job_of_def topic_of_def attempt_of_def progress_hub_def
        example_progress_def example_defs outcome_of_def Let_def)
  then have "progress_step (\<lambda>_. ''d'') (progress_hub, Map.empty) ?e
      (snd (begin_progress_send (\<lambda>_. ''d'') ''p'' ''t'' 5 None progress_hub), Map.empty)"
    by (simp add: progress_step_def run_progress_op_def split_beta)
  then obtain s' where t: "trace (progress_step (\<lambda>_. ''d'')) (progress_hub, Map.empty) [?e] s'"
    using trace_step trace_nil by fast
  have k: "progress_keys (fst (progress_hub, Map.empty))" by (simp add: progress_keys_def progress_hub_def)
  show ?thesis
    using progress_sent_once [OF t k, of "''p''"] t by (intro exI [of _ s'] conjI) (simp_all add: begins_progress_def)
qed

theorem enqueue_progress_outcome_witness:
  "\<exists>db' b. enqueue_progress ''a'' ''t'' 5 ''hi'' 10 0 ''q'' progress_hub = (Inr b, db') \<and>
     (\<exists>j \<in> set (db_jobs progress_hub). pj_job_id j = ''a'' \<and> pj_status j = Executing)"
proof -
  have "fst (enqueue_progress ''a'' ''t'' 5 ''hi'' 10 0 ''q'' progress_hub) = Inr True"
    by (simp add: enqueue_progress_def enqueue_progress_tx_def transact_def progress_html_def py_strip_def py_space_def
        max_progress_source_length_def latest_progress_def seconds_def progress_hub_def example_progress_def example_defs
        topic_of_def after_def exists_row_def Let_def)
  then obtain db' where e: "enqueue_progress ''a'' ''t'' 5 ''hi'' 10 0 ''q'' progress_hub = (Inr True, db')"
    by (metis prod.collapse)
  show ?thesis using enqueue_progress_outcome [OF e] e by auto
qed

end
