(* ===== verification/Telegram_Multipart.thy ===== *)
theory Telegram_Multipart
  imports Hub_Prelude
begin

text \<open>
  Splitting Telegram HTML into independently valid messages (\<open>telegram_multipart.py\<close>). The regular
  expressions are written out as scanners. The inner loop over a piece of text may run forever
  (its window can be empty when the open tags fill a message), so it is a partial function:
  not returning is the value \<open>None\<close>.
\<close>

section \<open>Tokens\<close>

definition in_range :: "nat \<Rightarrow> nat \<Rightarrow> char \<Rightarrow> bool" where
  "in_range a b c \<longleftrightarrow> a \<le> (of_char c :: nat) \<and> (of_char c :: nat) \<le> b"

definition digit :: "char \<Rightarrow> bool" where "digit c \<longleftrightarrow> in_range 48 57 c"
definition letter :: "char \<Rightarrow> bool" where "letter c \<longleftrightarrow> in_range 65 90 c \<or> in_range 97 122 c"
definition hex_digit :: "char \<Rightarrow> bool" where "hex_digit c \<longleftrightarrow> digit c \<or> in_range 65 70 c \<or> in_range 97 102 c"
definition name_char :: "char \<Rightarrow> bool" where "name_char c \<longleftrightarrow> letter c \<or> digit c \<or> c = CHR ''-''"

text \<open>A run of one or more characters that satisfy \<open>p\<close>, closed by \<open>e\<close>: the length with the closing character.\<close>

definition closed_run :: "(char \<Rightarrow> bool) \<Rightarrow> char \<Rightarrow> string \<Rightarrow> nat option" where
  "closed_run p e s =
     (let r = takeWhile p s; rest = dropWhile p s in
      if r \<noteq> [] \<and> rest \<noteq> [] \<and> hd rest = e then Some (length r + 1) else None)"

text \<open>The length of \<open>_TOKEN\<close> at the head of a text: a tag, or one of the three forms of entity.\<close>

definition token_length :: "string \<Rightarrow> nat option" where
  "token_length s = (case s of
     [] \<Rightarrow> None
   | c # r \<Rightarrow>
       if c = CHR ''<'' then map_option Suc (closed_run (\<lambda>x. x \<noteq> CHR ''>'') (CHR ''>'') r)
       else if c = CHR ''&'' then
         (case r of
            [] \<Rightarrow> None
          | d # r' \<Rightarrow>
              if d = CHR ''#'' then
                (case closed_run digit (CHR '';'') r' of
                   Some n \<Rightarrow> Some (n + 2)
                 | None \<Rightarrow> (case r' of
                     x # r'' \<Rightarrow> if x = CHR ''x'' then map_option (\<lambda>n. n + 3) (closed_run hex_digit (CHR '';'') r'') else None
                   | [] \<Rightarrow> None))
              else if letter d then map_option (\<lambda>n. n + 2) (closed_run (\<lambda>x. letter x \<or> digit x) (CHR '';'') r')
              else None)
       else None)"

lemma closed_run_bounds: "closed_run p e s = Some n \<Longrightarrow> 2 \<le> n \<and> n \<le> length s"
proof -
  assume "closed_run p e s = Some n"
  then have "takeWhile p s \<noteq> []" "dropWhile p s \<noteq> []" "n = length (takeWhile p s) + 1"
    by (auto simp: closed_run_def Let_def split: if_splits)
  moreover have "length s = length (takeWhile p s) + length (dropWhile p s)"
    by (metis length_append takeWhile_dropWhile_id)
  ultimately show ?thesis by (cases "takeWhile p s"; cases "dropWhile p s") auto
qed

lemma token_length_bounds: "token_length s = Some n \<Longrightarrow> 1 \<le> n \<and> n \<le> length s"
  by (auto simp: token_length_def split: list.splits if_splits option.splits dest!: closed_run_bounds)

text \<open>\<open>_TOKEN.split(text)\<close> without its empty pieces: \<open>plain\<close> gathers the text before the next token.\<close>

function scan :: "string \<Rightarrow> string \<Rightarrow> string list" where
  "scan plain s =
     (case s of
        [] \<Rightarrow> (if plain = [] then [] else [plain])
      | c # r \<Rightarrow> (case token_length s of
          None \<Rightarrow> scan (plain @ [c]) r
        | Some n \<Rightarrow> (if plain = [] then [] else [plain]) @ take n s # scan [] (drop n s)))"
  by pat_completeness auto
termination
  by (relation "measure (\<lambda>(p, s). length s)") (auto dest!: token_length_bounds)

declare scan.simps [simp del]

definition html_tokens :: "string \<Rightarrow> string list" where
  "html_tokens s = scan [] s"

section \<open>Tags\<close>

definition lower :: "char \<Rightarrow> char" where
  "lower c = (if in_range 65 90 c then char_of ((of_char c :: nat) + 32) else c)"

text \<open>\<open>_CLOSE_TAG.fullmatch\<close> and \<open>_OPEN_TAG.fullmatch\<close>: the name, in lower case.\<close>

definition close_tag :: "string \<Rightarrow> string option" where
  "close_tag t =
     (if take 2 t \<noteq> ''</'' then None
      else let r = dropWhile py_space (drop 2 t); n = takeWhile name_char r in
        if n \<noteq> [] \<and> dropWhile py_space (dropWhile name_char r) = ''>'' then Some (map lower n) else None)"

definition open_tag :: "string \<Rightarrow> string option" where
  "open_tag t =
     (if take 1 t \<noteq> ''<'' then None
      else let r = dropWhile py_space (drop 1 t); n = takeWhile name_char r; rest = dropWhile name_char r in
        if n \<noteq> [] \<and> rest \<noteq> [] \<and> last rest = CHR ''>'' \<and>
           (rest = ''>'' \<or> (py_space (hd rest) \<and> CHR ''>'' \<notin> set (butlast rest)))
        then Some (map lower n) else None)"

definition self_closing :: "string \<Rightarrow> bool" where
  "self_closing t = (let r = dropWhile py_space (rev t) in take 2 r = ''>/'')"

type_synonym tag = "string \<times> string"

definition closing_suffix :: "tag list \<Rightarrow> string" where
  "closing_suffix tags = concat (map (\<lambda>(name, _). ''</'' @ name @ ''>'') (rev tags))"

definition openings :: "tag list \<Rightarrow> string" where
  "openings tags = concat (map snd tags)"

section \<open>The splitter\<close>

record split_state =
  sp_parts :: "string list"
  sp_current :: string
  sp_tags :: "tag list"

definition flush :: "split_state \<Rightarrow> split_state" where
  "flush s =
     (if sp_current s = [] then s
      else let part = sp_current s @ closing_suffix (sp_tags s) in
        s\<lparr>sp_parts := (if py_strip part = [] then sp_parts s else sp_parts s @ [part]),
          sp_current := openings (sp_tags s)\<rparr>)"

definition append_text :: "string \<Rightarrow> split_state \<Rightarrow> split_state" where
  "append_text t s = s\<lparr>sp_current := sp_current s @ t\<rparr>"

text \<open>Flush first when the token, with the tags open after it, would not fit.\<close>

definition make_room :: "int \<Rightarrow> string \<Rightarrow> tag list \<Rightarrow> split_state \<Rightarrow> split_state" where
  "make_room limit token after s =
     (if int (length (sp_current s)) + int (length token) + int (length (closing_suffix after)) > limit
      then flush s else s)"

definition without_last :: "string \<Rightarrow> tag list \<Rightarrow> tag list" where
  "without_last name tags = (if tags \<noteq> [] \<and> fst (last tags) = name then butlast tags else tags)"

definition put_closing :: "int \<Rightarrow> string \<Rightarrow> string \<Rightarrow> split_state \<Rightarrow> split_state" where
  "put_closing limit token name s =
     (let s1 = append_text token (make_room limit token (without_last name (sp_tags s)) s)
      in s1\<lparr>sp_tags := without_last name (sp_tags s1)\<rparr>)"

definition with_opening :: "string option \<Rightarrow> string \<Rightarrow> tag list \<Rightarrow> tag list" where
  "with_opening opening token tags = (case opening of
     Some name \<Rightarrow> if self_closing token then tags else tags @ [(name, token)] | None \<Rightarrow> tags)"

definition put_opening :: "int \<Rightarrow> string \<Rightarrow> string option \<Rightarrow> split_state \<Rightarrow> split_state" where
  "put_opening limit token opening s =
     (let s1 = append_text token (make_room limit token (with_opening opening token (sp_tags s)) s)
      in s1\<lparr>sp_tags := with_opening opening token (sp_tags s1)\<rparr>)"

text \<open>
  \<open>limit - len(current) - len(closing_suffix())\<close>, and the Python slices it is used in: a negative
  bound counts from the end.
\<close>

definition capacity :: "int \<Rightarrow> split_state \<Rightarrow> int" where
  "capacity limit s = limit - int (length (sp_current s)) - int (length (closing_suffix (sp_tags s)))"

definition slice_end :: "int \<Rightarrow> string \<Rightarrow> nat" where
  "slice_end k s = (if 0 \<le> k then min (nat k) (length s) else nat (int (length s) + k))"

definition rfind :: "char \<Rightarrow> int \<Rightarrow> string \<Rightarrow> int" where
  "rfind c k s = (let w = take (slice_end k s) s in
     if c \<in> set w then int (length w) - 1 - int (length (takeWhile (\<lambda>x. x \<noteq> c) (rev w))) else -1)"

definition cut_at :: "int \<Rightarrow> string \<Rightarrow> int" where
  "cut_at k s =
     (let preferred = max (rfind (CHR 0x0A) k s) (rfind (CHR '' '') k s) in
      if preferred \<ge> max 1 (k div 2) then preferred + 1 else k)"

partial_function (option) put_text :: "int \<Rightarrow> string \<Rightarrow> split_state \<Rightarrow> split_state option" where
  "put_text limit remaining s =
     (if remaining = [] then Some s
      else let s1 = (if capacity limit s \<le> 0 then flush s else s); k = capacity limit s1 in
        if int (length remaining) \<le> k then Some (append_text remaining s1)
        else let n = slice_end (cut_at k remaining) remaining in
          put_text limit (drop n remaining) (flush (append_text (take n remaining) s1)))"

definition put_token :: "int \<Rightarrow> string \<Rightarrow> split_state \<Rightarrow> split_state option" where
  "put_token limit token s =
     (case close_tag token of
        Some name \<Rightarrow> Some (put_closing limit token name s)
      | None \<Rightarrow>
          if open_tag token \<noteq> None \<or> take 1 token = ''&'' then Some (put_opening limit token (open_tag token) s)
          else put_text limit token s)"

fun put_tokens :: "int \<Rightarrow> string list \<Rightarrow> split_state \<Rightarrow> split_state option" where
  "put_tokens limit [] s = Some s"
| "put_tokens limit (t # ts) s = Option.bind (put_token limit t s) (put_tokens limit ts)"

datatype split_error = Limit_too_small | Empty_html | Not_splittable

definition telegram_html_limit :: int where "telegram_html_limit = 4090"

definition split_telegram_html :: "int \<Rightarrow> string \<Rightarrow> (split_error + string list) option" where
  "split_telegram_html limit value =
     (let text = py_strip value in
      if limit < 64 then Some (Inl Limit_too_small)
      else if text = [] then Some (Inl Empty_html)
      else if int (length text) \<le> limit then Some (Inr [text])
      else map_option (\<lambda>s. let parts = sp_parts (flush s) in
             if parts = [] \<or> (\<exists>p \<in> set parts. limit < int (length p)) then Inl Not_splittable else Inr parts)
           (put_tokens limit (html_tokens text) \<lparr>sp_parts = [], sp_current = [], sp_tags = []\<rparr>))"

section \<open>The pieces of a message\<close>

text \<open>
  A piece is what a part adds to the text: the tags open before it, its own text, and the tags
  open after it. The next piece begins with the tags this one ends with.
\<close>

type_synonym piece = "tag list \<times> string \<times> tag list"

fun chained :: "tag list \<Rightarrow> piece list \<Rightarrow> tag list \<Rightarrow> bool" where
  "chained g [] h \<longleftrightarrow> g = h"
| "chained g ((g', b, h') # ps) h \<longleftrightarrow> g' = g \<and> chained h' ps h"

definition rendered :: "piece \<Rightarrow> string" where
  "rendered p = (case p of (g, b, h) \<Rightarrow> openings g @ b @ closing_suffix h)"

definition visible_parts :: "piece list \<Rightarrow> string list" where
  "visible_parts ps = filter (\<lambda>p. py_strip p \<noteq> []) (map rendered ps)"

definition body_text :: "piece list \<Rightarrow> string" where
  "body_text ps = concat (map (fst \<circ> snd) ps)"

lemma chained_snoc: "chained g ps g' \<Longrightarrow> chained g (ps @ [(g', b, h)]) h"
  by (induction g ps g' rule: chained.induct) auto

text \<open>The text consumed so far, split into finished pieces and the one being filled.\<close>

definition consumed :: "string \<Rightarrow> split_state \<Rightarrow> bool" where
  "consumed t s \<longleftrightarrow> (\<exists>ps g b. chained [] ps g \<and> body_text ps @ b = t \<and> sp_parts s = visible_parts ps \<and>
     sp_current s = openings g @ b)"

lemma consumed_flush: "consumed t s \<Longrightarrow> consumed t (flush s)"
proof -
  assume "consumed t s"
  then obtain ps g b where p: "chained [] ps g" "body_text ps @ b = t" "sp_parts s = visible_parts ps"
      "sp_current s = openings g @ b" by (auto simp: consumed_def)
  show ?thesis
  proof (cases "sp_current s = []")
    case True
    then show ?thesis using \<open>consumed t s\<close> by (simp add: flush_def)
  next
    case False
    let ?ps = "ps @ [(g, b, sp_tags s)]"
    have "body_text ?ps @ [] = t" using p(2) by (simp add: body_text_def)
    moreover have "sp_parts (flush s) = visible_parts ?ps"
    proof -
      have "sp_current s @ closing_suffix (sp_tags s) = rendered (g, b, sp_tags s)" by (simp add: rendered_def p(4))
      then show ?thesis using False p(3) by (simp add: flush_def Let_def visible_parts_def)
    qed
    moreover have "sp_current (flush s) = openings (sp_tags s) @ []" using False by (simp add: flush_def Let_def)
    ultimately show ?thesis using chained_snoc [OF p(1)] unfolding consumed_def by blast
  qed
qed

lemma consumed_append: "consumed t s \<Longrightarrow> consumed (t @ u) (append_text u s)"
  by (auto simp: consumed_def append_text_def) blast

lemma consumed_tags: "consumed t (s\<lparr>sp_tags := g\<rparr>) = consumed t s"
  by (simp add: consumed_def)

lemma consumed_room: "consumed t s \<Longrightarrow> consumed t (make_room limit token after s)"
  by (simp add: make_room_def consumed_flush)

lemma consumed_closing: "consumed t s \<Longrightarrow> consumed (t @ token) (put_closing limit token name s)"
  by (simp add: put_closing_def Let_def consumed_tags consumed_append consumed_room)

lemma consumed_opening: "consumed t s \<Longrightarrow> consumed (t @ token) (put_opening limit token op s)"
  by (simp add: put_opening_def Let_def consumed_tags consumed_append consumed_room)

lemma consumed_text:
  assumes "put_text limit r s = Some s'"
  shows "consumed t s \<Longrightarrow> consumed (t @ r) s'"
proof -
  have "\<forall>t. consumed t s \<longrightarrow> consumed (t @ r) s'"
  proof (rule put_text.raw_induct [of "\<lambda>l r s s'. \<forall>t. consumed t s \<longrightarrow> consumed (t @ r) s'", OF _ assms], intro allI impI)
    fix put limit r s s' t
    assume IH: "\<And>l r s s'. put l r s = Some s' \<Longrightarrow> \<forall>t. consumed t s \<longrightarrow> consumed (t @ r) s'"
      and body: "(if r = [] then Some s
        else let s1 = if capacity limit s \<le> 0 then flush s else s; k = capacity limit s1
             in if int (length r) \<le> k then Some (append_text r s1)
                else let n = slice_end (cut_at k r) r in put limit (drop n r) (flush (append_text (take n r) s1))) = Some s'"
      and t: "consumed t s"
    let ?s1 = "if capacity limit s \<le> 0 then flush s else s"
    let ?k = "capacity limit ?s1" let ?n = "slice_end (cut_at ?k r) r"
    have s1: "consumed t ?s1" using t consumed_flush by simp
    have rest: "consumed (t @ take ?n r) (flush (append_text (take ?n r) ?s1))"
      using consumed_flush consumed_append s1 by blast
    show "consumed (t @ r) s'"
    proof (cases "r = [] \<or> int (length r) \<le> ?k")
      case True
      then have "r = [] \<and> s' = s \<or> s' = append_text r ?s1" using body by (auto simp: Let_def split: if_splits)
      then show ?thesis using t consumed_append [OF s1] by auto
    next
      case False
      then have "put limit (drop ?n r) (flush (append_text (take ?n r) ?s1)) = Some s'"
        using body by (simp add: Let_def)
      then have "consumed ((t @ take ?n r) @ drop ?n r) s'" using IH rest by blast
      then show ?thesis by simp
    qed
  qed
  then show "consumed t s \<Longrightarrow> consumed (t @ r) s'" by blast
qed

lemma consumed_token: "put_token limit u s = Some s' \<Longrightarrow> consumed t s \<Longrightarrow> consumed (t @ u) s'"
  using consumed_text consumed_closing consumed_opening
  by (auto simp: put_token_def split: option.splits if_splits)

lemma consumed_tokens: "put_tokens limit ts s = Some s' \<Longrightarrow> consumed t s \<Longrightarrow> consumed (t @ concat ts) s'"
proof (induction ts arbitrary: t s)
  case (Cons u ts)
  then obtain m where "put_token limit u s = Some m" "put_tokens limit ts m = Some s'"
    by (auto simp: bind_eq_Some_conv)
  then show ?case using Cons consumed_token by fastforce
qed simp

lemma concat_scan: "concat (scan p s) = p @ s"
proof (induction p s rule: scan.induct)
  case (1 p s)
  show ?case
  proof (cases s)
    case Nil
    then show ?thesis by (subst scan.simps) simp
  next
    case (Cons c r)
    show ?thesis
    proof (cases "token_length s")
      case None
      then show ?thesis using Cons 1(1) [OF Cons] by (subst scan.simps) simp
    next
      case (Some n)
      then have "concat (scan [] (drop n s)) = drop n s" using Cons 1(2) by fastforce
      then show ?thesis using Cons Some by (subst scan.simps) simp
    qed
  qed
qed


section \<open>When the splitter returns\<close>

text \<open>The room a tag takes in every message it spans: its opening and its closing tag.\<close>

definition overhead :: "string \<Rightarrow> nat" where
  "overhead t = (case open_tag t of Some name \<Rightarrow> length t + length name + 3 | None \<Rightarrow> 0)"

definition tag_room :: "tag list \<Rightarrow> nat" where
  "tag_room tags = length (openings tags) + length (closing_suffix tags)"

lemma tag_room_snoc: "tag_room (tags @ [(n, t)]) = tag_room tags + length t + length n + 3"
  by (simp add: tag_room_def openings_def closing_suffix_def)

lemma tag_room_butlast: "tag_room (butlast tags) \<le> tag_room tags"
  by (cases tags rule: rev_cases) (auto simp: tag_room_def openings_def closing_suffix_def)

lemma flush_tags [simp]: "sp_tags (flush s) = sp_tags s"
  by (simp add: flush_def Let_def)

lemma append_sel [simp]: "sp_tags (append_text t s) = sp_tags s" "sp_current (append_text t s) = sp_current s @ t"
  by (simp_all add: append_text_def)

lemma flush_current: "sp_current (flush s) = (if sp_current s = [] then [] else openings (sp_tags s))"
  by (simp add: flush_def Let_def)

text \<open>With room beside the tags, every round of the loop takes at least one character.\<close>

lemma cut_positive: "0 < k \<Longrightarrow> k < int (length r) \<Longrightarrow> 0 < slice_end (cut_at k r) r"
proof -
  assume k: "0 < k" "k < int (length r)"
  have "r \<noteq> []" using k by auto
  then show ?thesis using k by (auto simp: cut_at_def Let_def slice_end_def)
qed

lemma put_text_returns:
  "int (tag_room (sp_tags s)) < limit \<Longrightarrow> \<exists>s'. put_text limit r s = Some s' \<and> sp_tags s' = sp_tags s"
proof (induction "length r" arbitrary: r s rule: less_induct)
  case less
  let ?s1 = "if capacity limit s \<le> 0 then flush s else s"
  have room: "0 < capacity limit ?s1"
    using less.prems by (auto simp: capacity_def flush_current tag_room_def)
  show ?case
  proof (cases "r = [] \<or> int (length r) \<le> capacity limit ?s1")
    case True
    then show ?thesis by (subst put_text.simps) (auto simp: Let_def)
  next
    case False
    let ?n = "slice_end (cut_at (capacity limit ?s1) r) r"
    have n: "0 < ?n" using cut_positive [OF room] False by simp
    have "sp_tags ?s1 = sp_tags s" by simp
    then have "int (tag_room (sp_tags (flush (append_text (take ?n r) ?s1)))) < limit" using less.prems by simp
    moreover have "length (drop ?n r) < length r" using False n by simp
    ultimately obtain s' where
      "put_text limit (drop ?n r) (flush (append_text (take ?n r) ?s1)) = Some s'" "sp_tags s' = sp_tags s"
      using less.hyps [of "drop ?n r" "flush (append_text (take ?n r) ?s1)"] \<open>sp_tags ?s1 = sp_tags s\<close> by auto
    moreover have "put_text limit r s = put_text limit (drop ?n r) (flush (append_text (take ?n r) ?s1))"
      using False by (subst put_text.simps) (simp add: Let_def)
    ultimately show ?thesis by simp
  qed
qed

lemma put_token_returns:
  assumes "int (tag_room (sp_tags s) + overhead t) < limit"
  shows "\<exists>s'. put_token limit t s = Some s' \<and> tag_room (sp_tags s') \<le> tag_room (sp_tags s) + overhead t"
proof -
  have room: "sp_tags (make_room limit t g s) = sp_tags s" for g by (simp add: make_room_def)
  consider (closing) n where "close_tag t = Some n" | (starts) "close_tag t = None" "open_tag t \<noteq> None \<or> take 1 t = ''&''"
    | (body) "close_tag t = None" "\<not> (open_tag t \<noteq> None \<or> take 1 t = ''&'')" by fastforce
  then show ?thesis
  proof cases
    case closing
    have "tag_room (without_last n (sp_tags s)) \<le> tag_room (sp_tags s)"
      by (simp add: without_last_def tag_room_butlast)
    then show ?thesis using closing by (simp add: put_token_def put_closing_def Let_def room trans_le_add1)
  next
    case starts
    have "tag_room (with_opening (open_tag t) t (sp_tags s)) \<le> tag_room (sp_tags s) + overhead t"
      by (auto simp: with_opening_def overhead_def tag_room_snoc split: option.splits)
    then show ?thesis using starts by (simp add: put_token_def put_opening_def Let_def room)
  next
    case body
    have "int (tag_room (sp_tags s)) < limit" using assms by simp
    from put_text_returns [OF this, of t] obtain s' where "put_text limit t s = Some s'" "sp_tags s' = sp_tags s" by blast
    then show ?thesis using body by (simp add: put_token_def)
  qed
qed

lemma put_tokens_return:
  "int (tag_room (sp_tags s) + sum_list (map overhead ts)) < limit \<Longrightarrow> \<exists>s'. put_tokens limit ts s = Some s'"
proof (induction ts arbitrary: s)
  case (Cons t ts)
  have "int (tag_room (sp_tags s) + overhead t) < limit" using Cons.prems by simp
  from put_token_returns [OF this] obtain m where m: "put_token limit t s = Some m"
    "tag_room (sp_tags m) \<le> tag_room (sp_tags s) + overhead t" by blast
  then have "int (tag_room (sp_tags m) + sum_list (map overhead ts)) < limit" using Cons.prems by simp
  from Cons.IH [OF this] m(1) show ?case by simp
qed simp

text \<open>C34. The splitter returns whenever the tags leave room: if all the tags the text opens, with their
  closing tags, are together shorter than the limit, the loops end, whatever the text between.\<close>

theorem split_returns:
  assumes "int (sum_list (map overhead (html_tokens (py_strip value)))) < limit"
  shows "\<exists>r. split_telegram_html limit value = Some r"
proof -
  let ?start = "\<lparr>sp_parts = [], sp_current = [], sp_tags = []\<rparr>"
  have "\<exists>s. put_tokens limit (html_tokens (py_strip value)) ?start = Some s"
    by (rule put_tokens_return) (use assms in \<open>simp add: tag_room_def openings_def closing_suffix_def\<close>)
  then show ?thesis by (auto simp: split_telegram_html_def Let_def)
qed

section \<open>When it does not\<close>

text \<open>The open tags fill a message exactly: flushing makes no room, and the window stays empty.\<close>

definition stuck :: "int \<Rightarrow> string \<Rightarrow> split_state \<Rightarrow> bool" where
  "stuck limit r s \<longleftrightarrow> r \<noteq> [] \<and> sp_current s \<noteq> [] \<and> sp_current s = openings (sp_tags s) \<and>
     int (tag_room (sp_tags s)) = limit"

lemma empty_window: "cut_at 0 r = 0"
  by (simp add: cut_at_def rfind_def slice_end_def Let_def)

lemma stuck_stays:
  assumes "stuck limit r s"
  shows "capacity limit s = 0" "capacity limit (flush s) = 0"
    "stuck limit r (flush (append_text [] (flush s)))"
  using assms by (auto simp: stuck_def capacity_def tag_room_def flush_def Let_def append_text_def)

lemma stuck_diverges:
  assumes "stuck limit r s"
  shows "put_text limit r s = None"
proof (rule ccontr)
  assume "put_text limit r s \<noteq> None"
  then obtain s' where some: "put_text limit r s = Some s'" by blast
  have "\<not> stuck limit r s"
  proof (rule put_text.raw_induct [of "\<lambda>l r s s'. \<not> stuck l r s", OF _ some], rule notI)
    fix put limit r s s'
    assume IH: "\<And>l r s s'. put l r s = Some s' \<Longrightarrow> \<not> stuck l r s"
      and body: "(if r = [] then Some s
        else let s1 = if capacity limit s \<le> 0 then flush s else s; k = capacity limit s1
             in if int (length r) \<le> k then Some (append_text r s1)
                else let n = slice_end (cut_at k r) r in put limit (drop n r) (flush (append_text (take n r) s1))) = Some s'"
      and st: "stuck limit r s"
    have r: "r \<noteq> []" using st by (simp add: stuck_def)
    have k: "capacity limit s = 0" "capacity limit (flush s) = 0" using stuck_stays(1,2) [OF st] by simp_all
    have "put limit r (flush (append_text [] (flush s))) = Some s'"
      using body r k by (simp add: Let_def empty_window slice_end_def)
    then show False using IH stuck_stays(3) [OF st] by blast
  qed
  then show False using assms by simp
qed

text \<open>A link whose opening tag, with its closing tag, is as long as a message.\<close>

definition filling_tag :: "nat \<Rightarrow> string" where
  "filling_tag n = ''<a '' @ replicate n (CHR ''x'') @ ''>''"

definition filling_link :: "int \<Rightarrow> string" where
  "filling_link limit = filling_tag (nat limit - 8) @ ''hello''"

lemma closed_run_x: "closed_run (\<lambda>x. x \<noteq> CHR ''>'') (CHR ''>'') (''a '' @ replicate n (CHR ''x'') @ ''>'' @ t) = Some (n + 3)"
proof -
  have "takeWhile (\<lambda>x. x \<noteq> CHR ''>'') (replicate n (CHR ''x'') @ ''>'' @ t) = replicate n (CHR ''x'')"
    "dropWhile (\<lambda>x. x \<noteq> CHR ''>'') (replicate n (CHR ''x'') @ ''>'' @ t) = ''>'' @ t"
    by (simp_all add: takeWhile_append dropWhile_append)
  then show ?thesis by (simp add: closed_run_def Let_def)
qed

lemma filling_token: "token_length (filling_tag n @ t) = Some (n + 4)"
  using closed_run_x [of n t] by (simp add: token_length_def filling_tag_def)

lemma length_filling_tag: "length (filling_tag n) = n + 4"
  by (simp add: filling_tag_def)

lemma scan_hello: "scan [] ''hello'' = [''hello'']"
  by (subst scan.simps, simp add: token_length_def)+

lemma filling_tokens: "html_tokens (filling_tag n @ ''hello'') = [filling_tag n, ''hello'']"
proof -
  have "filling_tag n @ ''hello'' = CHR ''<'' # drop 1 (filling_tag n @ ''hello'')" by (simp add: filling_tag_def)
  then have "scan [] (filling_tag n @ ''hello'') =
      take (n + 4) (filling_tag n @ ''hello'') # scan [] (drop (n + 4) (filling_tag n @ ''hello''))"
    using filling_token [of n "''hello''"] by (subst scan.simps) (auto split: list.splits)
  then show ?thesis by (simp add: html_tokens_def length_filling_tag scan_hello)
qed

lemma filling_open: "open_tag (filling_tag n) = Some ''a''" "close_tag (filling_tag n) = None"
proof -
  have a: "name_char (CHR ''a'')" "\<not> name_char (CHR '' '')" "\<not> py_space (CHR ''a'')" "py_space (CHR '' '')"
    "lower (CHR ''a'') = CHR ''a''"
    by (simp_all add: name_char_def letter_def digit_def in_range_def py_space_def lower_def)
  then show "open_tag (filling_tag n) = Some ''a''"
    by (simp add: open_tag_def filling_tag_def Let_def butlast_append)
  show "close_tag (filling_tag n) = None" by (simp add: close_tag_def filling_tag_def)
qed

lemma filling_not_self_closing:
  assumes "0 < n"
  shows "\<not> self_closing (filling_tag n)"
proof -
  have "rev (filling_tag n) = CHR ''>'' # replicate n (CHR ''x'') @ '' a<''" by (simp add: filling_tag_def)
  also have "replicate n (CHR ''x'') = CHR ''x'' # replicate (n - 1) (CHR ''x'')" using assms by (cases n) simp_all
  finally show ?thesis by (simp add: self_closing_def py_space_def)
qed

text \<open>C35. The splitter does not always return: for every limit it accepts, a link whose opening and
  closing tag together are as long as the limit, with five letters of text, makes its inner loop run
  forever, flushing one empty copy of the link after another.\<close>

theorem filling_tag_hangs:
  assumes "64 \<le> limit"
  shows "split_telegram_html limit (filling_link limit) = None"
proof -
  let ?n = "nat limit - 8" let ?tag = "filling_tag ?n"
  have n: "0 < ?n" "int (?n + 8) = limit" using assms by auto
  have strip: "py_strip (filling_link limit) = filling_link limit"
    by (simp add: filling_link_def filling_tag_def py_strip_def py_space_def)
  have long: "\<not> int (length (filling_link limit)) \<le> limit" using n by (simp add: filling_link_def length_filling_tag)
  let ?start = "\<lparr>sp_parts = [], sp_current = [], sp_tags = []\<rparr>"
  let ?s = "\<lparr>sp_parts = [], sp_current = ?tag, sp_tags = [(''a'', ?tag)]\<rparr>"
  have "put_token limit ?tag ?start = Some ?s"
    using filling_not_self_closing [OF n(1)]
    by (simp add: put_token_def filling_open put_opening_def make_room_def flush_def append_text_def with_opening_def Let_def)
  moreover have "put_token limit ''hello'' ?s = None"
  proof -
    have "stuck limit ''hello'' ?s"
      using n by (simp add: stuck_def tag_room_def openings_def closing_suffix_def length_filling_tag)
        (simp add: filling_tag_def)
    then show ?thesis using stuck_diverges by (simp add: put_token_def close_tag_def open_tag_def)
  qed
  ultimately have "put_tokens limit (html_tokens (filling_link limit)) ?start = None"
    by (simp add: filling_link_def filling_tokens)
  then show ?thesis using assms long strip by (simp add: split_telegram_html_def Let_def filling_link_def filling_tag_def)
qed

theorem filling_tag_hangs_witness: "split_telegram_html telegram_html_limit (filling_link telegram_html_limit) = None"
  using filling_tag_hangs [of telegram_html_limit] by (simp add: telegram_html_limit_def)

theorem split_returns_witness:
  "sum_list (map overhead (html_tokens (py_strip (''<b>'' @ replicate 70 (CHR ''x'') @ ''</b>'')))) = 7 \<and>
   (\<exists>r. split_telegram_html 64 (''<b>'' @ replicate 70 (CHR ''x'') @ ''</b>'') = Some r)"
proof -
  have "sum_list (map overhead (html_tokens (py_strip (''<b>'' @ replicate 70 (CHR ''x'') @ ''</b>'')))) = 7"
    by code_simp
  then show ?thesis using split_returns [of "''<b>'' @ replicate 70 (CHR ''x'') @ ''</b>''" 64] by simp
qed


end
