(* ===== verification/Job_Commit.thy ===== *)
theory Job_Commit
  imports Provider_Jobs Progress_State Telegram_Multipart
begin

text \<open>
  The two transactions that end an execution (\<open>state.py\<close>, with \<open>insert_outbox_parts\<close> of
  \<open>state_delivery.py\<close>): the commit of a provider's result and the failure notice. Each writes
  the outcome of the job and the message to deliver in one transaction, after a last look for a
  stop. Both split the message, and the splitter may not return: then neither does the call,
  and the value is \<open>None\<close>. \<open>icon\<close> is the character before a document's caption, which lies
  outside the modelled text; \<open>clock\<close> is the clock reading of the stop check, \<open>now\<close> the given one.
\<close>

section \<open>The outbox\<close>

definition MAX_PROVIDER_RESPONSE_LENGTH :: nat where "MAX_PROVIDER_RESPONSE_LENGTH = 200000"

definition split_message :: "split_error \<Rightarrow> string" where
  "split_message e = (case e of
     Limit_too_small \<Rightarrow> ''Telegram HTML part limit is too small''
   | Empty_html \<Rightarrow> ''Telegram HTML cannot be empty''
   | Not_splittable \<Rightarrow> ''Telegram HTML could not be split safely'')"

record artifact =
  ar_path :: string
  ar_name :: string
  ar_size :: int
  ar_sha256 :: string

definition text_part :: "string \<Rightarrow> int \<Rightarrow> string \<Rightarrow> outbox_part" where
  "text_part i n t = \<lparr>op_outbox_id = i, op_part_index = n, op_telegram_html = t, op_part_type = Text_part,
     op_file_path = None, op_file_name = None, op_file_size = None, op_file_sha256 = None,
     op_telegram_message_id = None, op_delivered_at = None, op_receipt_validation_version = 0\<rparr>"

definition document_part :: "char \<Rightarrow> string \<Rightarrow> int \<Rightarrow> artifact \<Rightarrow> outbox_part" where
  "document_part icon i n a = \<lparr>op_outbox_id = i, op_part_index = n,
     op_telegram_html = [icon] @ '' <b>'' @ html_escape (ar_name a) @ ''</b>'', op_part_type = Document_part,
     op_file_path = Some (ar_path a), op_file_name = Some (ar_name a), op_file_size = Some (ar_size a),
     op_file_sha256 = Some (ar_sha256 a),
     op_telegram_message_id = None, op_delivered_at = None, op_receipt_validation_version = 0\<rparr>"

text \<open>\<open>enumerate(rows, start=n)\<close>.\<close>

fun number_from :: "int \<Rightarrow> 'a list \<Rightarrow> (int \<times> 'a) list" where
  "number_from n [] = []"
| "number_from n (x # xs) = (n, x) # number_from (n + 1) xs"

definition part_rows :: "char \<Rightarrow> string \<Rightarrow> string list \<Rightarrow> artifact list \<Rightarrow> outbox_part list" where
  "part_rows icon i texts artifacts =
     map (\<lambda>(n, t). text_part i n t) (number_from 1 texts) @
     map (\<lambda>(n, a). document_part icon i n a) (number_from (int (length texts) + 1) artifacts)"

text \<open>The constraints on a part: its columns, the insert trigger and the primary key.\<close>

definition part_valid :: "outbox_part \<Rightarrow> bool" where
  "part_valid p \<longleftrightarrow> 0 < op_part_index p \<and>
     1 \<le> length (op_telegram_html p) \<and> length (op_telegram_html p) \<le> 4090 \<and>
     (case op_part_type p of
        Text_part \<Rightarrow> op_file_path p = None \<and> op_file_name p = None \<and> op_file_size p = None \<and> op_file_sha256 p = None
      | Document_part \<Rightarrow>
          (case (op_file_path p, op_file_name p, op_file_size p, op_file_sha256 p) of
             (Some path, Some name, Some bytes, Some sha) \<Rightarrow>
               1 \<le> length path \<and> length path \<le> 4096 \<and> 1 \<le> length name \<and> length name \<le> 255 \<and>
               1 \<le> bytes \<and> bytes \<le> 52428800 \<and> length sha = 64
           | _ \<Rightarrow> False))"

definition insert_part :: "outbox_part \<Rightarrow> db \<Rightarrow> state_error + db" where
  "insert_part p db =
     (if \<not> part_valid p \<or> exists_row (\<lambda>q. op_outbox_id q = op_outbox_id p \<and> op_part_index q = op_part_index p) (db_parts db)
      then Inl (Integrity_error ''telegram_outbox_parts'')
      else Inr (db\<lparr>db_parts := db_parts db @ [p]\<rparr>))"

definition insert_outbox_parts ::
  "char \<Rightarrow> string \<Rightarrow> string \<Rightarrow> artifact list \<Rightarrow> db \<Rightarrow> (state_error + db) option" where
  "insert_outbox_parts icon i html artifacts db =
     map_option (\<lambda>r. case r of
         Inl e \<Rightarrow> Inl (Value_error (split_message e))
       | Inr texts \<Rightarrow> each_row insert_part (part_rows icon i texts artifacts) db)
       (split_telegram_html telegram_html_limit html)"

definition new_outbox :: "string \<Rightarrow> provider_job \<Rightarrow> int \<Rightarrow> string \<Rightarrow> outbox_purpose \<Rightarrow> time \<Rightarrow> outbox_row" where
  "new_outbox i j thread html purpose now = \<lparr>ob_outbox_id = i, ob_job_id = pj_job_id j,
     ob_sender_agent_id = pj_agent_id j, ob_chat_id = pj_chat_id j, ob_thread_id = thread,
     ob_telegram_html = html, ob_status = Ds_pending, ob_attempt_count = 0, ob_available_at = now,
     ob_lease_owner = None, ob_lease_token = None, ob_lease_expires_at = None,
     ob_telegram_message_id = None, ob_error_code = None, ob_created_at = now, ob_updated_at = now,
     ob_delivered_at = None, ob_send_started_at = None, ob_purpose = purpose\<rparr>"

definition insert_outbox :: "outbox_row \<Rightarrow> db \<Rightarrow> state_error + db" where
  "insert_outbox r db =
     (if ob_chat_id r = 0 \<or> ob_thread_id r \<le> 0 \<or> length (ob_telegram_html r) > MAX_PROVIDER_RESPONSE_LENGTH \<or>
         exists_row (\<lambda>q. ob_outbox_id q = ob_outbox_id r \<or> ob_job_id q = ob_job_id r) (db_outbox db)
      then Inl (Integrity_error ''telegram_outbox'')
      else Inr (db\<lparr>db_outbox := db_outbox db @ [r]\<rparr>))"

section \<open>Commit of a result\<close>

definition visible_excerpt :: "string \<Rightarrow> state_error + string" where
  "visible_excerpt value =
     (let normalized = py_strip value in
      if normalized = [] then Inl (State_error ''invalid user excerpt'')
      else Inr (drop (length normalized - 2000) normalized))"

record result_draft =
  rd_visible_response :: string
  rd_sender_agent_id :: string
  rd_telegram_html :: string
  rd_provider_session_id :: "string option"
  rd_actual_model :: "string option"
  rd_safe_metadata_json :: "string option"
  rd_user_excerpt :: "string option"
  rd_acknowledge_context :: bool
  rd_acknowledge_handoff :: bool
  rd_telegram_contract_version :: "int option"
  rd_artifacts :: "artifact list"

text \<open>The checks before the transaction; the draft with its values normalized.\<close>

definition safe_metadata :: "string option \<Rightarrow> state_error + string option" where
  "safe_metadata m = (case m of
     None \<Rightarrow> Inr None
   | Some v \<Rightarrow> if v = [] then Inr None
       else if length (py_strip v) > 4000 then Inl (State_error ''invalid safe metadata'')
       else Inr (Some (py_strip v)))"

definition valid_result :: "result_draft \<Rightarrow> state_error + result_draft" where
  "valid_result d =
     attempt (bounded (rd_visible_response d) ''visible response'' MAX_PROVIDER_RESPONSE_LENGTH) (\<lambda>response.
     attempt (bounded (rd_sender_agent_id d) ''sender agent id'' 64) (\<lambda>sender.
     attempt (bounded (rd_telegram_html d) ''Telegram outbox text'' MAX_PROVIDER_RESPONSE_LENGTH) (\<lambda>html.
     attempt (optional_bounded (rd_provider_session_id d) ''provider session id'' 256) (\<lambda>session.
     attempt (optional_bounded (rd_actual_model d) ''actual model'' 200) (\<lambda>model.
     attempt (safe_metadata (rd_safe_metadata_json d)) (\<lambda>metadata.
     attempt (case rd_user_excerpt d of None \<Rightarrow> Inr None
              | Some x \<Rightarrow> attempt (visible_excerpt x) (\<lambda>e. Inr (Some e))) (\<lambda>excerpt.
     attempt (check (case rd_telegram_contract_version d of None \<Rightarrow> True | Some v \<Rightarrow> 0 < v)
       (State_error ''Telegram contract version must be positive'')) (\<lambda>_.
     Inr (d\<lparr>rd_visible_response := response, rd_sender_agent_id := sender, rd_telegram_html := html,
            rd_provider_session_id := session, rd_actual_model := model, rd_safe_metadata_json := metadata,
            rd_user_excerpt := excerpt\<rparr>)))))))))"

text \<open>The job with its thread, for a current lease in the given status.\<close>

definition leased_row :: "db \<Rightarrow> string \<Rightarrow> string \<Rightarrow> job_status \<Rightarrow> time \<Rightarrow> (provider_job \<times> topic_row) option" where
  "leased_row db i token status now =
     (case find (\<lambda>j. current_lease i token [status] now j \<and> topic_of db (pj_topic_id j) \<noteq> None) (db_jobs db) of
        None \<Rightarrow> None
      | Some j \<Rightarrow> map_option (\<lambda>t. (j, t)) (topic_of db (pj_topic_id j)))"

definition owned_row ::
  "db \<Rightarrow> string \<Rightarrow> string \<Rightarrow> job_status \<Rightarrow> string \<Rightarrow> time \<Rightarrow> state_error + provider_job \<times> topic_row" where
  "owned_row db i token status sender now =
     (case leased_row db i token status now of
        None \<Rightarrow> Inl (State_error ''provider job lease is missing or invalid'')
      | Some (j, t) \<Rightarrow>
          if sender \<noteq> pj_agent_id j
          then Inl (State_error ''Telegram outbox sender does not match provider job agent'')
          else Inr (j, t))"

definition new_result :: "result_draft \<Rightarrow> provider_job \<Rightarrow> string \<Rightarrow> time \<Rightarrow> job_result" where
  "new_result d j result_id now =
     \<lparr>jr_result_id = result_id, jr_job_id = pj_job_id j, jr_visible_response = rd_visible_response d,
      jr_provider_session_id = rd_provider_session_id d, jr_actual_model = rd_actual_model d,
      jr_safe_metadata_json = rd_safe_metadata_json d, jr_context_watermark = pj_context_watermark j,
      jr_handoff_id = pj_handoff_id j, jr_created_at = now\<rparr>"

definition save_result :: "result_draft \<Rightarrow> provider_job \<Rightarrow> string \<Rightarrow> time \<Rightarrow> db \<Rightarrow> state_error + db" where
  "save_result d j result_id now db =
     (if exists_row (\<lambda>r. jr_result_id r = result_id \<or> jr_job_id r = pj_job_id j) (db_results db)
      then Inl (Integrity_error ''provider_job_results'')
      else Inr (db\<lparr>db_results := db_results db @ [new_result d j result_id now]\<rparr>))"

text \<open>The session takes the provider's session id; a trigger binds an adopted session to its thread.\<close>

definition job_session :: "provider_job \<Rightarrow> session_row \<Rightarrow> bool" where
  "job_session j s \<longleftrightarrow> ss_session_id s = pj_session_id j \<and> ss_topic_id s = pj_topic_id j \<and>
     ss_agent_id s = pj_agent_id j \<and> ss_generation s = pj_session_generation j"

definition bind_session :: "string option \<Rightarrow> provider_job \<Rightarrow> time \<Rightarrow> db \<Rightarrow> state_error + db" where
  "bind_session session j now db =
     (case session of
        None \<Rightarrow> Inr db
      | Some p \<Rightarrow>
          if exists_row (\<lambda>s. job_session j s \<and> exists_row (\<lambda>g. og_session_id g = ss_session_id s \<and>
               og_provider_thread_id g \<noteq> p) (db_origins db)) (db_sessions db)
          then Inl (Integrity_error ''Codex origin requires the exact provider thread'')
          else if count_where (job_session j) (db_sessions db) \<noteq> 1
          then Inl (State_error ''provider job session generation changed'')
          else Inr (db\<lparr>db_sessions := update_where (job_session j)
                 (\<lambda>s. s\<lparr>ss_provider_session_id := Some p, ss_updated_at := now\<rparr>) (db_sessions db)\<rparr>))"

definition absorbed_payloads :: "db \<Rightarrow> string \<Rightarrow> string list" where
  "absorbed_payloads db i = concat (map (\<lambda>a. map pj_payload_text
       (filter (\<lambda>j. pj_job_id j = ab_child_job_id a) (db_jobs db)))
     (sort_key ab_created_at (filter (\<lambda>a. ab_parent_job_id a = i) (db_absorptions db))))"

fun join_text :: "string \<Rightarrow> string list \<Rightarrow> string" where
  "join_text sep [] = []"
| "join_text sep [x] = x"
| "join_text sep (x # xs) = x @ sep @ join_text sep xs"

definition user_excerpt :: "string option \<Rightarrow> provider_job \<Rightarrow> string list \<Rightarrow> string list \<Rightarrow> state_error + string" where
  "user_excerpt excerpt j absorbed claude =
     (let combined = join_text [CHR 0x0A, CHR 0x0A] (pj_payload_text j # absorbed @ claude) in
      if claude \<noteq> [] then visible_excerpt combined
      else (case excerpt of Some e \<Rightarrow> Inr e | None \<Rightarrow> visible_excerpt combined))"

definition next_turn_id :: "db \<Rightarrow> int" where
  "next_turn_id db = Max (insert (db_excerpt_sequence db) (set (map tx_turn_id (db_excerpts db)))) + 1"

definition record_turn :: "result_draft \<Rightarrow> provider_job \<Rightarrow> string \<Rightarrow> time \<Rightarrow> db \<Rightarrow> db" where
  "record_turn d j excerpt now db = db\<lparr>db_excerpt_sequence := next_turn_id db,
     db_excerpts := db_excerpts db @ [\<lparr>tx_turn_id = next_turn_id db, tx_topic_id = pj_topic_id j,
       tx_agent_id = pj_agent_id j,
       tx_provider_session_id = Some (case rd_provider_session_id d of Some p \<Rightarrow> p
         | None \<Rightarrow> (case pj_provider_session_id j of Some p \<Rightarrow> p | None \<Rightarrow> [])),
       tx_model = Some (case rd_actual_model d of Some m \<Rightarrow> m | None \<Rightarrow> pj_model j),
       tx_provider = Some (pj_agent_id j), tx_user_excerpt = excerpt,
       tx_response_excerpt = rd_visible_response d, tx_created_at = now,
       tx_source_message_id = None\<rparr>]\<rparr>"

definition mark_job_consumed :: "string \<Rightarrow> time \<Rightarrow> db \<Rightarrow> db" where
  "mark_job_consumed i now db = db\<lparr>db_materials := update_where
     (\<lambda>m. im_job_id m = Some i \<and> im_status m = Stored)
     (\<lambda>m. m\<lparr>im_status := Consumed, im_consumed_at := Some now\<rparr>) (db_materials db)\<rparr>"

text \<open>A topic keeps the newest 100 of its turns.\<close>

definition newest_turns :: "db \<Rightarrow> int \<Rightarrow> int list" where
  "newest_turns db t = take 100 (rev (sort (map tx_turn_id (filter (\<lambda>x. tx_topic_id x = t) (db_excerpts db)))))"

definition trim_turns :: "int \<Rightarrow> db \<Rightarrow> db" where
  "trim_turns t db = db\<lparr>db_excerpts := filter (\<lambda>x. tx_topic_id x \<noteq> t \<or> tx_turn_id x \<in> set (newest_turns db t))
     (db_excerpts db)\<rparr>"

definition acknowledge :: "result_draft \<Rightarrow> provider_job \<Rightarrow> time \<Rightarrow> db \<Rightarrow> db" where
  "acknowledge d j now db =
     (let db1 = (if rd_acknowledge_context d then advance_cursor j now db else db);
          db2 = (if rd_acknowledge_handoff d then drop_handoff j db1 else db1) in
      case rd_telegram_contract_version d of
        None \<Rightarrow> db2
      | Some v \<Rightarrow> db2\<lparr>db_runtime_checkpoints := upsert_row rk_checkpoint_key
          (\<lambda>c. c\<lparr>rk_integer_value := max (rk_integer_value c) v, rk_updated_at := now\<rparr>)
          \<lparr>rk_checkpoint_key = ''telegram-contract:'' @ pj_session_id j, rk_integer_value = v, rk_updated_at = now\<rparr>
          (db_runtime_checkpoints db2)\<rparr>)"

text \<open>The transaction up to the outbox row, and after its parts.\<close>

definition save_turn ::
  "result_draft \<Rightarrow> string \<Rightarrow> string \<Rightarrow> time \<Rightarrow> provider_job \<Rightarrow> topic_row \<Rightarrow> db \<Rightarrow> state_error + db" where
  "save_turn d result_id outbox_id now j t db =
     attempt (save_result d j result_id now db) (\<lambda>db1.
     attempt (bind_session (rd_provider_session_id d) j now db1) (\<lambda>db2.
     let absorbed = absorbed_payloads db2 (pj_job_id j) in
     attempt (correction_complete (pj_job_id j) now db2) (\<lambda>(claude, db3).
     attempt (user_excerpt (rd_user_excerpt d) j absorbed claude) (\<lambda>excerpt.
     insert_outbox (new_outbox outbox_id j (tp_thread_id t) (rd_telegram_html d) Provider_result now)
       (acknowledge d j now (trim_turns (pj_topic_id j)
         (mark_job_consumed (pj_job_id j) now (record_turn d j excerpt now db3))))))))"

definition result_ready :: "time \<Rightarrow> provider_job \<Rightarrow> provider_job" where
  "result_ready now j = (clear_lease j)\<lparr>pj_status := Result_ready, pj_updated_at := now\<rparr>"

definition get_result :: "db \<Rightarrow> string \<Rightarrow> state_error + job_result" where
  "get_result db i = (case find (\<lambda>r. jr_job_id r = i) (db_results db) of
     None \<Rightarrow> Inl (State_error (''provider job has no result: '' @ i)) | Some r \<Rightarrow> Inr r)"

definition end_execution :: "string \<Rightarrow> string \<Rightarrow> time \<Rightarrow> db \<Rightarrow> state_error + job_result option \<times> db" where
  "end_execution i token now db =
     (let p = holds_lease i token [Executing] in
      attempt (sync_job i now (update_jobs p (result_ready now) db)) (\<lambda>db1.
      attempt (check (count_jobs p db = 1) (State_error ''provider job lease changed during result commit'')) (\<lambda>_.
      attempt (get_result db1 i) (\<lambda>r. Inr (Some r, db1)))))"

definition commit_tx ::
  "char \<Rightarrow> result_draft \<Rightarrow> string \<Rightarrow> string \<Rightarrow> string \<Rightarrow> string \<Rightarrow> time \<Rightarrow> time \<Rightarrow> db
   \<Rightarrow> (state_error + job_result option \<times> db) option" where
  "commit_tx icon d i token result_id outbox_id clock now db =
     (case honor_stop i token Executing clock db of
        Inl e \<Rightarrow> Some (Inl e)
      | Inr (True, db0) \<Rightarrow> Some (Inr (None, db0))
      | Inr (False, db0) \<Rightarrow>
          (case attempt (owned_row db0 i token Executing (rd_sender_agent_id d) now) (\<lambda>(j, t).
                  save_turn d result_id outbox_id now j t db0) of
             Inl e \<Rightarrow> Some (Inl e)
           | Inr db1 \<Rightarrow> map_option (\<lambda>r. attempt r (end_execution i token now))
                (insert_outbox_parts icon outbox_id (rd_telegram_html d) (rd_artifacts d) db1)))"

definition commit_provider_result ::
  "char \<Rightarrow> result_draft \<Rightarrow> string \<Rightarrow> string \<Rightarrow> string \<Rightarrow> string \<Rightarrow> time \<Rightarrow> time \<Rightarrow> db
   \<Rightarrow> (state_error, db, job_result option) outcome option" where
  "commit_provider_result icon draft i token result_id outbox_id clock now db =
     (case valid_result draft of
        Inl e \<Rightarrow> Some (Inl e, db)
      | Inr d \<Rightarrow> map_option (\<lambda>r. transact (\<lambda>_. r) db)
          (commit_tx icon d i token result_id outbox_id clock now db))"

end
