(* ===== verification/Commit_Properties.thy ===== *)
theory Commit_Properties
  imports Job_Commit Job_Properties
begin

text \<open>
  What the commit of a result promises: it writes the result, the message with its parts and the
  job's new status together, or nothing; a stop that covers the job ends it instead.
\<close>

section \<open>What the steps of the transaction write\<close>

text \<open>A step that writes jobs, stops and notices, and nothing else.\<close>

definition work_only :: "db \<Rightarrow> db \<Rightarrow> bool" where
  "work_only db db' \<longleftrightarrow>
     db\<lparr>db_jobs := [], db_stops := [], db_notices := []\<rparr> = db'\<lparr>db_jobs := [], db_stops := [], db_notices := []\<rparr>"

lemma work_only_refl [simp, intro]: "work_only db db"
  by (simp add: work_only_def)

lemma work_only_trans: "work_only a b \<Longrightarrow> work_only b c \<Longrightarrow> work_only a c"
  by (simp add: work_only_def)

lemma work_only_update [simp]: "work_only db (db\<lparr>db_jobs := js, db_stops := ss, db_notices := ns\<rparr>)"
  "work_only db (db\<lparr>db_jobs := js\<rparr>)" "work_only db (db\<lparr>db_stops := ss\<rparr>)" "work_only db (db\<lparr>db_notices := ns\<rparr>)"
  by (simp_all add: work_only_def)

lemma work_only_sel:
  assumes "work_only db db'"
  shows "db_outbox db' = db_outbox db" "db_parts db' = db_parts db" "db_results db' = db_results db"
    "db_topics db' = db_topics db" "db_evidence db' = db_evidence db" "db_holds db' = db_holds db"
    "db_progress db' = db_progress db" "db_resolutions db' = db_resolutions db" "db_controls db' = db_controls db"
proof -
  note d = arg_cong [OF assms [unfolded work_only_def]]
  show "db_outbox db' = db_outbox db" using d [of db_outbox] by simp
  show "db_parts db' = db_parts db" using d [of db_parts] by simp
  show "db_results db' = db_results db" using d [of db_results] by simp
  show "db_topics db' = db_topics db" using d [of db_topics] by simp
  show "db_evidence db' = db_evidence db" using d [of db_evidence] by simp
  show "db_holds db' = db_holds db" using d [of db_holds] by simp
  show "db_progress db' = db_progress db" using d [of db_progress] by simp
  show "db_resolutions db' = db_resolutions db" using d [of db_resolutions] by simp
  show "db_controls db' = db_controls db" using d [of db_controls] by simp
qed

lemma notices_work: "notices_only db db' \<Longrightarrow> work_only db db'"
  by (auto elim: notices_onlyE)

lemma sync_work: "sync_job i now db = Inr db' \<Longrightarrow> work_only db db'"
  by (rule notices_work [OF sync_job_only])

lemma settle_work:
  assumes "settle i d now db = Inr db'"
  shows "work_only db db'"
proof (cases "child_of db i")
  case (Some c)
  then obtain js where "sync_job (cc_child_job_id c) now (db\<lparr>db_jobs := js\<rparr>) = Inr db'"
    using assms by (auto simp: settle_def Let_def split: if_splits)
  then show ?thesis by (rule work_only_trans [OF work_only_update(2) sync_work])
qed (use assms in \<open>simp add: settle_def\<close>)

lemma complete_after_work:
  assumes "complete_stops_after i now db = Inr db'"
  shows "work_only db db'"
proof (cases "job_of db i")
  case (Some j)
  then have "sync_job i now (complete_finished_stops (pj_topic_id j) now db) = Inr db'"
    using assms by (auto simp: complete_stops_after_def split: option.splits)
  moreover have "work_only db (complete_finished_stops (pj_topic_id j) now db)"
    by (simp add: complete_finished_stops_def)
  ultimately show ?thesis using work_only_trans [OF _ sync_work] by blast
qed (use assms in \<open>simp add: complete_stops_after_def\<close>)

lemma cancel_stopped_work:
  assumes "cancel_stopped i token sts code cs now db = Inr (b, db')"
  shows "work_only db db'"
proof -
  let ?db1 = "update_jobs (holds_lease i token sts) (stop_job code now) db"
  have first: "work_only db ?db1" by (simp add: update_jobs_def)
  consider "db' = ?db1" | db2 db3 where "settle i Settle_cancelled now ?db1 = Inr db2" "sync_job i now db2 = Inr db3"
    "db' = db3 \<or> complete_stops_after i now db3 = Inr db'"
    using assms by (auto simp: cancel_stopped_def Let_def attempt_Inr split: if_splits)
  then show ?thesis
  proof cases
    case 2
    have "work_only db db3"
      using first settle_work [OF 2(1)] sync_work [OF 2(2)] work_only_trans by blast
    then show ?thesis using 2(3) complete_after_work work_only_trans by blast
  qed (use first in simp)
qed

lemma honor_stop_work: "honor_stop i token st now db = Inr (b, db') \<Longrightarrow> work_only db db'"
  by (auto simp: honor_stop_def split: if_splits dest: cancel_stopped_work)

lemma complete_work: "correction_complete i now db = Inr (ps, db') \<Longrightarrow> work_only db db'"
  by (auto simp: correction_complete_def attempt_Inr dest: settle_work)

lemma insert_part_Inr: "insert_part p db = Inr m \<Longrightarrow> m = db\<lparr>db_parts := db_parts db @ [p]\<rparr>"
  by (simp add: insert_part_def split: if_splits)

lemma each_row_parts:
  "each_row insert_part ps db = Inr db' \<Longrightarrow> db' = db\<lparr>db_parts := db_parts db @ ps\<rparr>"
proof (induction ps arbitrary: db)
  case (Cons p ps)
  then obtain m where m: "insert_part p db = Inr m" "each_row insert_part ps m = Inr db'" by (auto simp: attempt_Inr)
  show ?case using Cons.IH [OF m(2)] insert_part_Inr [OF m(1)] by simp
qed simp

lemma insert_parts_writes:
  assumes "insert_outbox_parts icon i html arts db = Some (Inr db')"
  shows "\<exists>texts. split_telegram_html telegram_html_limit html = Some (Inr texts) \<and>
    db' = db\<lparr>db_parts := db_parts db @ part_rows icon i texts arts\<rparr>"
proof -
  obtain r where r: "split_telegram_html telegram_html_limit html = Some r"
    "(case r of Inl e \<Rightarrow> Inl (Value_error (split_message e))
      | Inr texts \<Rightarrow> each_row insert_part (part_rows icon i texts arts) db) = Inr db'"
    using assms by (auto simp: insert_outbox_parts_def)
  then show ?thesis by (cases r) (auto dest: each_row_parts)
qed

text \<open>Databases with the same jobs, stops and tables that say where and for whom work runs.\<close>

definition same_work :: "db \<Rightarrow> db \<Rightarrow> bool" where
  "same_work a b \<longleftrightarrow> db_jobs b = db_jobs a \<and> db_stops b = db_stops a \<and> db_topics b = db_topics a \<and>
     db_evidence b = db_evidence a \<and> db_holds b = db_holds a \<and> db_resolutions b = db_resolutions a \<and>
     db_controls b = db_controls a \<and> session_views b = session_views a"

lemma same_work_quiet:
  assumes "same_work a x" "quiet_step now x y" "same_work y b"
  shows "quiet_step now a b"
proof -
  have "stop_waits b = stop_waits y"
    using assms(3) by (simp add: fun_eq_iff stop_waits_def stop_covers_def unfinished_def uncertain_def
        resolved_outcome_def terminal_outcome_def same_work_def)
  then have "stop_moves b = stop_moves y" by (rule stop_moves_waits)
  then show ?thesis using assms by (simp add: quiet_step_def same_work_def)
qed

lemma acknowledge_sel [simp]:
  "db_jobs (acknowledge d j now db) = db_jobs db" "db_outbox (acknowledge d j now db) = db_outbox db"
  "db_parts (acknowledge d j now db) = db_parts db" "db_results (acknowledge d j now db) = db_results db"
  "db_topics (acknowledge d j now db) = db_topics db" "db_stops (acknowledge d j now db) = db_stops db"
  "db_evidence (acknowledge d j now db) = db_evidence db" "db_holds (acknowledge d j now db) = db_holds db"
  "db_resolutions (acknowledge d j now db) = db_resolutions db" "db_controls (acknowledge d j now db) = db_controls db"
  "db_progress (acknowledge d j now db) = db_progress db" "db_notices (acknowledge d j now db) = db_notices db"
  "db_sessions (acknowledge d j now db) = db_sessions db"
  by (simp_all add: acknowledge_def Let_def advance_cursor_def drop_handoff_def split: option.splits)

lemma turn_sel [simp]:
  "db_jobs (trim_turns t (mark_job_consumed i now (record_turn d j x now db))) = db_jobs db"
  "db_outbox (trim_turns t (mark_job_consumed i now (record_turn d j x now db))) = db_outbox db"
  "db_parts (trim_turns t (mark_job_consumed i now (record_turn d j x now db))) = db_parts db"
  "db_results (trim_turns t (mark_job_consumed i now (record_turn d j x now db))) = db_results db"
  "db_topics (trim_turns t (mark_job_consumed i now (record_turn d j x now db))) = db_topics db"
  "db_stops (trim_turns t (mark_job_consumed i now (record_turn d j x now db))) = db_stops db"
  "db_evidence (trim_turns t (mark_job_consumed i now (record_turn d j x now db))) = db_evidence db"
  "db_holds (trim_turns t (mark_job_consumed i now (record_turn d j x now db))) = db_holds db"
  "db_resolutions (trim_turns t (mark_job_consumed i now (record_turn d j x now db))) = db_resolutions db"
  "db_controls (trim_turns t (mark_job_consumed i now (record_turn d j x now db))) = db_controls db"
  "db_progress (trim_turns t (mark_job_consumed i now (record_turn d j x now db))) = db_progress db"
  "db_notices (trim_turns t (mark_job_consumed i now (record_turn d j x now db))) = db_notices db"
  "db_sessions (trim_turns t (mark_job_consumed i now (record_turn d j x now db))) = db_sessions db"
  by (simp_all add: trim_turns_def mark_job_consumed_def record_turn_def)

lemma bind_session_Inr: "bind_session p j now db = Inr m \<Longrightarrow>
    \<exists>ss. m = db\<lparr>db_sessions := ss\<rparr> \<and> map session_view ss = session_views db"
proof -
  assume b: "bind_session p j now db = Inr m"
  have v: "map session_view (update_where q (\<lambda>s. s\<lparr>ss_provider_session_id := Some x, ss_updated_at := now\<rparr>) ss) =
      map session_view ss" for q x and ss :: "session_row list"
    by (rule map_update_where) (simp add: session_view_def)
  have "m = db\<lparr>db_sessions := db_sessions db\<rparr> \<or> (\<exists>ss. m = db\<lparr>db_sessions := ss\<rparr> \<and> map session_view ss = session_views db)"
    using b v by (auto simp: bind_session_def split: option.splits if_splits)
  then show ?thesis by blast
qed

lemma save_turn_writes:
  assumes "save_turn d rid oid now j t db = Inr db'"
  shows "\<exists>a b ps. correction_complete (pj_job_id j) now a = Inr (ps, b) \<and> same_work db a \<and> same_work b db'"
    and "db_results db' = db_results db @ [new_result d j rid now]"
    and "\<not> exists_row (\<lambda>r. jr_job_id r = pj_job_id j) (db_results db)"
    and "db_outbox db' = db_outbox db @ [new_outbox oid j (tp_thread_id t) (rd_telegram_html d) Provider_result now]"
    and "\<not> exists_row (\<lambda>r. ob_outbox_id r = oid \<or> ob_job_id r = pj_job_id j) (db_outbox db)"
    and "db_parts db' = db_parts db" "db_progress db' = db_progress db"
proof -
  obtain m1 m2 m3 ps x where m1: "save_result d j rid now db = Inr m1"
    and m2: "bind_session (rd_provider_session_id d) j now m1 = Inr m2"
    and m3: "correction_complete (pj_job_id j) now m2 = Inr (ps, m3)"
    and last: "insert_outbox (new_outbox oid j (tp_thread_id t) (rd_telegram_html d) Provider_result now)
       (acknowledge d j now (trim_turns (pj_topic_id j)
         (mark_job_consumed (pj_job_id j) now (record_turn d j x now m3)))) = Inr db'"
    using assms by (auto simp: save_turn_def attempt_Inr Let_def)
  have r: "m1 = db\<lparr>db_results := db_results db @ [new_result d j rid now]\<rparr>"
    "\<not> exists_row (\<lambda>r. jr_job_id r = pj_job_id j) (db_results db)"
    using m1 by (auto simp: save_result_def exists_row_iff split: if_splits)
  obtain ss where b: "m2 = m1\<lparr>db_sessions := ss\<rparr>" "map session_view ss = session_views m1"
    using bind_session_Inr [OF m2] by blast
  note w = work_only_sel [OF complete_work [OF m3]]
  let ?y = "acknowledge d j now (trim_turns (pj_topic_id j)
         (mark_job_consumed (pj_job_id j) now (record_turn d j x now m3)))"
  have l: "db' = ?y\<lparr>db_outbox := db_outbox ?y @ [new_outbox oid j (tp_thread_id t) (rd_telegram_html d) Provider_result now]\<rparr>"
    "\<not> exists_row (\<lambda>q. ob_outbox_id q = oid \<or> ob_job_id q = pj_job_id j) (db_outbox ?y)"
    using last by (simp_all add: insert_outbox_def new_outbox_def split: if_splits)
  show "\<exists>a b ps. correction_complete (pj_job_id j) now a = Inr (ps, b) \<and> same_work db a \<and> same_work b db'"
    by (rule exI [of _ m2], rule exI [of _ m3], rule exI [of _ ps]) (use m3 b(2) in \<open>simp add: l(1) b(1) r(1) same_work_def\<close>)
  show "db_results db' = db_results db @ [new_result d j rid now]" by (simp add: l(1) w b(1) r(1))
  show "\<not> exists_row (\<lambda>r. jr_job_id r = pj_job_id j) (db_results db)" by (rule r(2))
  show "db_outbox db' = db_outbox db @ [new_outbox oid j (tp_thread_id t) (rd_telegram_html d) Provider_result now]"
    by (simp add: l(1) w b(1) r(1))
  show "\<not> exists_row (\<lambda>r. ob_outbox_id r = oid \<or> ob_job_id r = pj_job_id j) (db_outbox db)"
    using l(2) by (simp add: w b(1) r(1))
  show "db_parts db' = db_parts db" "db_progress db' = db_progress db" by (simp_all add: l(1) w b(1) r(1))
qed

section \<open>The commit as a whole\<close>

lemma quiet_complete_correction: "correction_complete i now a = Inr (ps, b) \<Longrightarrow> quiet_step t a b"
  by (auto simp: correction_complete_def attempt_Inr dest: quiet_settle_op)

lemma quiet_result_ready: "pj_status j = Executing \<Longrightarrow> quiet now j (result_ready t j)"
  by (auto simp: row_defs result_ready_def)

lemma end_execution_Inr:
  assumes "end_execution i token now db = Inr (r, db')"
  shows "\<exists>res. r = Some res \<and> count_jobs (holds_lease i token [Executing]) db = 1 \<and> get_result db i = Inr res \<and>
    notices_only (update_jobs (holds_lease i token [Executing]) (result_ready now) db) db'"
proof -
  let ?db1 = "update_jobs (holds_lease i token [Executing]) (result_ready now) db"
  obtain res where e: "sync_job i now ?db1 = Inr db'" "count_jobs (holds_lease i token [Executing]) db = 1"
    "get_result db' i = Inr res" "r = Some res"
    using assms by (auto simp: end_execution_def Let_def attempt_Inr)
  have n: "notices_only ?db1 db'" by (rule sync_job_only [OF e(1)])
  then have "db_results db' = db_results db" by (simp add: notices_only_sel update_jobs_def)
  then show ?thesis using e n by (simp add: get_result_def)
qed

text \<open>A commit that writes: every step succeeded, on the job that holds the lease.\<close>

lemma commit_Some:
  assumes "commit_tx icon d i token rid oid clock now db = Some (Inr (Some res, db'))"
  shows "\<exists>db0 db1 db2 j t. honor_stop i token Executing clock db = Inr (False, db0) \<and>
    owned_row db0 i token Executing (rd_sender_agent_id d) now = Inr (j, t) \<and>
    save_turn d rid oid now j t db0 = Inr db1 \<and>
    insert_outbox_parts icon oid (rd_telegram_html d) (rd_artifacts d) db1 = Some (Inr db2) \<and>
    end_execution i token now db2 = Inr (Some res, db')"
  using assms
  by (auto simp: commit_tx_def attempt_Inr split: sum.splits option.splits bool.splits prod.splits)

lemma quiet_honor: "honor_stop i token st clock db = Inr (b, db') \<Longrightarrow> st \<in> {Leased, Executing} \<Longrightarrow> quiet_step t db db'"
  by (auto simp: honor_stop_def split: if_splits dest: quiet_cancel_stopped)

lemma quiet_save_turn: "save_turn d rid oid now j t db = Inr db' \<Longrightarrow> quiet_step u db db'"
  using save_turn_writes(1) same_work_quiet quiet_complete_correction by blast

lemma quiet_end_execution:
  assumes "end_execution i token now db = Inr (r, db')"
  shows "quiet_step t db db'"
proof -
  let ?m = "update_jobs (holds_lease i token [Executing]) (result_ready now) db"
  have "quiet_step t db ?m" by (rule quiet_update_jobs) (simp add: quiet_result_ready holds_lease_def)
  moreover have "notices_only ?m db'" using end_execution_Inr [OF assms] by blast
  ultimately show ?thesis using quiet_step_notices quiet_step_trans by blast
qed

lemma same_work_parts: "insert_outbox_parts icon i html arts db = Some (Inr m) \<Longrightarrow> same_work db m"
  by (auto dest: insert_parts_writes simp: same_work_def)

lemma commit_cases:
  assumes "commit_provider_result icon draft i token rid oid clock now db = Some (r, db')"
  obtains (refused) e where "r = Inl e" "db' = db"
  | (stopped) d where "valid_result draft = Inr d" "r = Inr None" "honor_stop i token Executing clock db = Inr (True, db')"
  | (saved) d res where "valid_result draft = Inr d" "r = Inr (Some res)"
      "commit_tx icon d i token rid oid clock now db = Some (Inr (Some res, db'))"
proof (cases "valid_result draft")
  case (Inl e)
  then have "r = Inl e" "db' = db" using assms by (simp_all add: commit_provider_result_def)
  then show ?thesis by (rule refused)
next
  case (Inr d)
  then obtain x where x: "commit_tx icon d i token rid oid clock now db = Some x" "transact (\<lambda>_. x) db = (r, db')"
    using assms by (auto simp: commit_provider_result_def)
  from x(2) show ?thesis
  proof (cases rule: transact_cases)
    case (committed a)
    show ?thesis
    proof (cases a)
      case None
      then have "honor_stop i token Executing clock db = Inr (True, db')"
        using x(1) committed
        by (auto simp: commit_tx_def attempt_Inr split: sum.splits option.splits bool.splits prod.splits
            dest!: end_execution_Inr)
      then show ?thesis using stopped [OF Inr] committed None by simp
    qed (use saved [OF Inr] x(1) committed in simp)
  qed (use refused in simp)
qed

lemma quiet_commit_result:
  assumes "commit_provider_result icon draft i token rid oid clock now db = Some (r, db')"
  shows "quiet_step t db db'"
  using assms
proof (cases rule: commit_cases)
  case (saved d res)
  obtain db0 db1 db2 j tp where s: "honor_stop i token Executing clock db = Inr (False, db0)"
    "save_turn d rid oid now j tp db0 = Inr db1"
    "insert_outbox_parts icon oid (rd_telegram_html d) (rd_artifacts d) db1 = Some (Inr db2)"
    "end_execution i token now db2 = Inr (Some res, db')"
    using commit_Some [OF saved(3)] by blast
  have "quiet_step t db db1" using quiet_honor [OF s(1), of t] quiet_save_turn [OF s(2)] quiet_step_trans by blast
  moreover have "quiet_step t db1 db'"
    using same_work_quiet [OF same_work_parts [OF s(3)] quiet_end_execution [OF s(4)]] by (simp add: same_work_def)
  ultimately show ?thesis by (rule quiet_step_trans)
qed (auto dest: quiet_honor)

text \<open>What a stop that takes the place of the commit leaves behind.\<close>

lemma honored_ends:
  assumes "honor_stop i token st clock db = Inr (True, db')" "jobs_ok db"
  shows "ended_by_stop db' i"
proof (cases "ended_by_stop db i")
  case True
  then show ?thesis using assms(1) by (simp add: honor_stop_def)
next
  case False
  then have "cancel_stopped i token [st] ''emergency_stop'' True clock db = Inr (True, db')"
    using assms(1) by (auto simp: honor_stop_def split: if_splits)
  from cancel_stopped_effect [OF this assms(2)] obtain x where "job_of db' i = Some (stop_job ''emergency_stop'' clock x)"
    by blast
  from job_of_Some [OF this] show ?thesis
    unfolding ended_by_stop_def exists_row_iff
    by (intro bexI [of _ "stop_job ''emergency_stop'' clock x"]) (simp_all add: stop_job_def clear_lease_def)
qed

text \<open>With unique job identities, a lease that the stop check passes over is covered by no stop.\<close>

lemma passed_unstopped:
  assumes "honor_stop i token st clock db = Inr (False, db0)" "jobs_ok db"
    and "leased_row db0 i token st now = Some (j, t)"
  shows "pending_stop_for_job db i = None \<and> db0 = db"
proof (rule ccontr)
  assume n: "\<not> (pending_stop_for_job db i = None \<and> db0 = db)"
  let ?p = "holds_lease i token [st]"
  have c: "cancel_stopped i token [st] ''emergency_stop'' True clock db = Inr (False, db0)"
    using assms(1) n by (auto simp: honor_stop_def split: if_splits)
  then have one: "count_jobs ?p db \<noteq> 1" and d: "db0 = update_jobs ?p (stop_job ''emergency_stop'' clock) db"
    by (auto simp: cancel_stopped_def Let_def attempt_Inr split: if_splits)
  have "\<not> exists_row ?p (db_jobs db)" using one count_one(1) [OF assms(2), of ?p i] by (simp add: holds_lease_def)
  then have "db0 = db" "\<not> exists_row ?p (db_jobs db0)"
    using d count_one(2) [OF assms(2), of ?p i] by (simp_all add: holds_lease_def)
  then show False
    using assms(3) find_Some_set
    by (fastforce simp: leased_row_def current_lease_def exists_row_iff split: option.splits)
qed

text \<open>C19. The commit of a result is all or nothing. A call that is refused leaves the database as it
  was. When a stop has ended the job, nothing is written for delivery and no result. Otherwise no
  pending stop covered the job, the caller held its lease, and together are written: exactly one
  result with the response, one message to deliver with all its parts in order, and the job is
  ready with its lease given up.\<close>

theorem commit_outcome:
  assumes "commit_provider_result icon draft i token rid oid clock now db = Some (r, db')" "jobs_ok db"
  shows "(case r of
      Inl e \<Rightarrow> db' = db
    | Inr None \<Rightarrow> ended_by_stop db' i \<and> db_results db' = db_results db \<and>
        db_outbox db' = db_outbox db \<and> db_parts db' = db_parts db
    | Inr (Some res) \<Rightarrow> pending_stop_for_job db i = None \<and>
        (\<exists>d j t texts. valid_result draft = Inr d \<and> leased_row db i token Executing now = Some (j, t) \<and>
          rd_sender_agent_id d = pj_agent_id j \<and>
          split_telegram_html telegram_html_limit (rd_telegram_html d) = Some (Inr texts) \<and>
          \<not> exists_row (\<lambda>x. jr_job_id x = i) (db_results db) \<and>
          res = new_result d j rid now \<and> db_results db' = db_results db @ [res] \<and>
          db_outbox db' = db_outbox db @ [new_outbox oid j (tp_thread_id t) (rd_telegram_html d) Provider_result now] \<and>
          db_parts db' = db_parts db @ part_rows icon oid texts (rd_artifacts d)) \<and>
        (\<exists>k. job_of db' i = Some k \<and> pj_status k = Result_ready \<and> pj_lease_token k = None))"
  using assms(1)
proof (cases rule: commit_cases)
  case (stopped d)
  then show ?thesis using honored_ends [OF _ assms(2)] work_only_sel [OF honor_stop_work [OF stopped(3)]] by simp
next
  case (saved d res)
  obtain db0 db1 db2 j t where s: "honor_stop i token Executing clock db = Inr (False, db0)"
    "owned_row db0 i token Executing (rd_sender_agent_id d) now = Inr (j, t)"
    "save_turn d rid oid now j t db0 = Inr db1"
    "insert_outbox_parts icon oid (rd_telegram_html d) (rd_artifacts d) db1 = Some (Inr db2)"
    "end_execution i token now db2 = Inr (Some res, db')"
    using commit_Some [OF saved(3)] by blast
  have row: "leased_row db0 i token Executing now = Some (j, t)" "rd_sender_agent_id d = pj_agent_id j"
    using s(2) by (auto simp: owned_row_def split: option.splits if_splits)
  have free: "pending_stop_for_job db i = None" "db0 = db" using passed_unstopped [OF s(1) assms(2) row(1)] by auto
  have id: "pj_job_id j = i"
    using row(1) by (auto simp: leased_row_def current_lease_def holds_lease_def split: option.splits dest!: find_Some_set)
  note w = save_turn_writes [OF s(3)]
  obtain texts where p: "split_telegram_html telegram_html_limit (rd_telegram_html d) = Some (Inr texts)"
    "db2 = db1\<lparr>db_parts := db_parts db1 @ part_rows icon oid texts (rd_artifacts d)\<rparr>"
    using insert_parts_writes [OF s(4)] by blast
  let ?p = "holds_lease i token [Executing]"
  have e: "count_jobs ?p db2 = 1" "get_result db2 i = Inr res" "notices_only (update_jobs ?p (result_ready now) db2) db'"
    using end_execution_Inr [OF s(5)] by simp_all
  note n = work_only_sel [OF notices_work [OF e(3)]]
  have res: "res = new_result d j rid now"
  proof -
    have "find (\<lambda>x. jr_job_id x = i) (db_results db) = None"
      using w(3) free(2) id by (simp add: find_None_exists)
    then show ?thesis
      using e(2) w(2) p(2) free(2) id by (simp add: get_result_def find_append_None new_result_def)
  qed
  have "jobs_ok db1" using quiet_jobs_ok [OF quiet_save_turn [OF s(3)]] assms(2) free(2) by blast
  then have ok: "jobs_ok db2" using p(2) by (simp add: jobs_ok_def)
  have "exists_row ?p (db_jobs db2)" using e(1) count_one(1) [OF ok, of ?p i] by (simp add: holds_lease_def)
  then obtain k where k: "k \<in> set (db_jobs db2)" "?p k" by (auto simp: exists_row_iff)
  have "job_of db2 i = Some k"
    using find_key_unique [of pj_job_id "db_jobs db2" k] k ok by (simp add: jobs_ok_def holds_lease_def job_of_def)
  then have "job_of db' i = Some (result_ready now k)"
    using job_of_notices [OF e(3)] job_of_update [of "result_ready now" ?p db2 i] k(2)
    by (simp add: result_ready_def clear_lease_def)
  moreover have "pj_status (result_ready now k) = Result_ready \<and> pj_lease_token (result_ready now k) = None"
    by (simp add: result_ready_def clear_lease_def)
  ultimately show ?thesis
    using saved(1,2) free row p w(2-6) res n id by (auto simp: update_jobs_def)
qed simp

definition example_result :: result_draft where
  "example_result = \<lparr>rd_visible_response = ''ok'', rd_sender_agent_id = ''codex'', rd_telegram_html = ''ok'',
     rd_provider_session_id = None, rd_actual_model = None, rd_safe_metadata_json = None, rd_user_excerpt = None,
     rd_acknowledge_context = True, rd_acknowledge_handoff = True, rd_telegram_contract_version = Some 1,
     rd_artifacts = []\<rparr>"

definition running_hub :: db where
  "running_hub = example_hub [example_job ''a'' 1 Executing]"

lemma running_hub_ok: "jobs_ok running_hub"
  by (simp add: jobs_ok_def running_hub_def example_hub_def example_job_def job_ok_def lease_columns_ok_def attempts_ok_def
      empty_db_def)

lemma running_hub_commit:
  "\<exists>res db'. commit_provider_result (CHR ''*'') example_result ''a'' ''t'' ''r'' ''o'' 10 10 running_hub = Some (Inr (Some res), db')"
proof -
  have v: "valid_result example_result = Inr example_result"
    by (simp add: valid_result_def example_result_def bounded_def optional_bounded_def safe_metadata_def py_strip_def
        py_space_def check_def MAX_PROVIDER_RESPONSE_LENGTH_def)
  have sp: "split_telegram_html telegram_html_limit ''ok'' = Some (Inr [''ok''])"
    by (simp add: split_telegram_html_def telegram_html_limit_def py_strip_def py_space_def)
  show ?thesis
    unfolding commit_provider_result_def v
    by (simp add: commit_tx_def honor_stop_def ended_by_stop_def exists_row_def running_hub_def example_hub_def empty_db_def
        example_job_def pending_stop_for_job_def owned_row_def leased_row_def current_lease_def holds_lease_def after_def
        topic_of_def example_topic_def example_result_def save_turn_def save_result_def bind_session_def
        absorbed_payloads_def correction_complete_def settle_def child_of_def user_excerpt_def visible_excerpt_def
        py_strip_def py_space_def insert_outbox_def new_outbox_def MAX_PROVIDER_RESPONSE_LENGTH_def
        insert_outbox_parts_def sp part_rows_def text_part_def insert_part_def part_valid_def
        end_execution_def sync_job_def get_result_def new_result_def check_def notices_enabled_def count_jobs_def count_where_def update_jobs_def
        update_where_def transact_def attempt_def Let_def result_ready_def clear_lease_def)
qed

theorem commit_outcome_witness:
  "\<exists>res db'. commit_provider_result (CHR ''*'') example_result ''a'' ''t'' ''r'' ''o'' 10 10 running_hub = Some (Inr (Some res), db') \<and>
    db_results db' = [res] \<and> (\<exists>x. db_outbox db' = [x])"
proof -
  obtain res db' where c: "commit_provider_result (CHR ''*'') example_result ''a'' ''t'' ''r'' ''o'' 10 10 running_hub = Some (Inr (Some res), db')"
    using running_hub_commit by blast
  have e: "db_results running_hub = []" "db_outbox running_hub = []"
    by (simp_all add: running_hub_def example_hub_def empty_db_def)
  from commit_outcome [OF c running_hub_ok] show ?thesis
    by (intro exI [of _ res] exI [of _ db']) (auto simp: c e)
qed

end
