(* ===== verification/Root_Blockers.thy ===== *)
theory Root_Blockers
  imports Provider_Jobs
begin

text \<open>
  Work that a persistent owner of its execution root keeps from running (\<open>root_blockers.py\<close>): the
  search for the owner, the refusal of new input, the holds on queued jobs with their notices, the
  owner's decision on a held job, and the delivery of the notices. The texts are outside the
  modelled characters and come from \<open>wording\<close>; \<open>ids\<close> gives the fresh identifier of each notice;
  \<open>now\<close> is the clock reading of the call.
\<close>

section \<open>The owner of a root\<close>

datatype blocker_kind = By_local | By_terminal | By_uncertain | By_control | By_scope

record root_blocker =
  rb_kind :: blocker_kind
  rb_topic_id :: int
  rb_chat_id :: int
  rb_thread_id :: int
  rb_session_id :: "string option"
  rb_generation :: "int option"
  rb_cause_job_id :: "string option"
  rb_scope_error :: "string option"

definition blocker_at :: "blocker_kind \<Rightarrow> topic_row \<Rightarrow> root_blocker" where
  "blocker_at k t = \<lparr>rb_kind = k, rb_topic_id = tp_topic_id t, rb_chat_id = tp_chat_id t,
     rb_thread_id = tp_thread_id t, rb_session_id = None, rb_generation = None,
     rb_cause_job_id = None, rb_scope_error = None\<rparr>"

text \<open>The session that writes the root from outside Telegram, and the turn whose outcome is not known.\<close>

definition outside_writer :: "db \<Rightarrow> string \<Rightarrow> session_row option" where
  "outside_writer db scope =
     first_by (\<lambda>a b. (ss_updated_at a, ss_session_id a) \<le> (ss_updated_at b, ss_session_id b))
       (\<lambda>s. ss_status s \<in> {Active, Satellite} \<and> ss_writer_mode s \<in> {Local_writer, Terminal_writer} \<and>
          in_scope db scope (ss_topic_id s)) (db_sessions db)"

definition uncertain_turn :: "db \<Rightarrow> string \<Rightarrow> provider_job option" where
  "uncertain_turn db scope =
     first_by (\<lambda>a b. (pj_created_at a, pj_job_id a) \<le> (pj_created_at b, pj_job_id b))
       (\<lambda>j. uncertain db j \<and> in_scope db scope (pj_topic_id j)) (db_jobs db)"

definition control_blocker :: "turn_control \<Rightarrow> root_blocker" where
  "control_blocker c = \<lparr>rb_kind = By_control, rb_topic_id = tc_topic_id c, rb_chat_id = tc_chat_id c,
     rb_thread_id = tc_thread_id c, rb_session_id = Some (tc_session_id c),
     rb_generation = Some (tc_session_generation c), rb_cause_job_id = Some (tc_job_id c), rb_scope_error = None\<rparr>"

definition writer_blocker :: "topic_row \<Rightarrow> session_row \<Rightarrow> root_blocker" where
  "writer_blocker t s = (blocker_at (if ss_writer_mode s = Local_writer then By_local else By_terminal) t)
     \<lparr>rb_session_id := Some (ss_session_id s), rb_generation := Some (ss_generation s)\<rparr>"

definition persistent_root_blocker :: "db \<Rightarrow> int \<Rightarrow> root_blocker option" where
  "persistent_root_blocker db t =
     (case topic_of db t of
        None \<Rightarrow> None
      | Some topic \<Rightarrow>
          (case control_owner_for_topic db t of
             Inl e \<Rightarrow> Some ((blocker_at By_scope topic)
               \<lparr>rb_scope_error := (case e of Control_scope_error r \<Rightarrow> Some r | _ \<Rightarrow> None)\<rparr>)
           | Inr (Some c) \<Rightarrow> Some (control_blocker c)
           | Inr None \<Rightarrow>
               (case outside_writer db (topic_scope topic) of
                  Some s \<Rightarrow> map_option (\<lambda>u. writer_blocker u s) (topic_of db (ss_topic_id s))
                | None \<Rightarrow>
                    (case uncertain_turn db (topic_scope topic) of
                       None \<Rightarrow> None
                     | Some j \<Rightarrow> map_option (\<lambda>u. (blocker_at By_uncertain u)\<lparr>rb_cause_job_id := Some (pj_job_id j)\<rparr>)
                         (topic_of db (pj_topic_id j))))))"

section \<open>Notices\<close>

definition stored_kind :: "blocker_kind \<Rightarrow> stored_blocker" where
  "stored_kind k = (case k of By_local \<Rightarrow> Blocked_local | By_terminal \<Rightarrow> Blocked_terminal | _ \<Rightarrow> Blocked_uncertain)"

definition digit_char :: "char \<Rightarrow> bool" where
  "digit_char c \<longleftrightarrow> 48 \<le> (of_char c :: nat) \<and> (of_char c :: nat) \<le> 57"

definition topic_link :: "int \<Rightarrow> int \<Rightarrow> string option" where
  "topic_link chat thread =
     (let raw = decimal_int chat; suffix = drop 4 raw in
      if \<not> starts_with raw ''-100'' \<or> thread \<le> 0 then None
      else if \<not> list_all digit_char suffix \<or> suffix = [] then None
      else Some (''https://t.me/c/'' @ suffix @ ''/'' @ decimal_int thread))"

text \<open>A text and its buttons: of a refusal, of a hold, and of a release.\<close>

record wording =
  wd_rejected :: "root_blocker \<Rightarrow> string option \<Rightarrow> bool \<Rightarrow> string \<times> string option"
  wd_held :: "string \<Rightarrow> root_blocker \<Rightarrow> string option \<Rightarrow> string \<times> string option"
  wd_writer_released :: "bool \<Rightarrow> bool \<Rightarrow> string"
  wd_turn_released :: "bool \<Rightarrow> bool \<Rightarrow> string"

definition link_of :: "root_blocker \<Rightarrow> string option" where
  "link_of b = topic_link (rb_chat_id b) (rb_thread_id b)"

definition new_blocker_notice ::
  "string \<Rightarrow> string \<Rightarrow> blocker_notice_kind \<Rightarrow> int \<Rightarrow> int \<Rightarrow> int option \<Rightarrow> string \<times> string option \<Rightarrow> time \<Rightarrow> blocker_notice" where
  "new_blocker_notice i key k chat thread answers txt now = \<lparr>bn_outbox_id = i, bn_event_key = key, bn_kind = k,
     bn_chat_id = chat, bn_thread_id = thread, bn_reply_to_message_id = answers, bn_telegram_html = fst txt,
     bn_reply_markup = snd txt, bn_blocker_topic_id = None, bn_blocker_session_id = None,
     bn_blocker_generation = None, bn_blocker_kind = None, bn_blocker_job_id = None, bn_job_id = None,
     bn_status = Bn_pending, bn_attempt_count = 0, bn_available_at = now, bn_lease_owner = None,
     bn_lease_token = None, bn_lease_expires_at = None, bn_telegram_message_id = None, bn_error_code = None,
     bn_created_at = now, bn_updated_at = now, bn_delivered_at = None, bn_control_job_id = None,
     bn_control_scope_error = None\<rparr>"

definition about_blocker :: "root_blocker \<Rightarrow> blocker_notice \<Rightarrow> blocker_notice" where
  "about_blocker b n = n\<lparr>bn_blocker_topic_id := Some (rb_topic_id b), bn_blocker_session_id := rb_session_id b,
     bn_blocker_generation := rb_generation b, bn_blocker_kind := Some (stored_kind (rb_kind b)),
     bn_blocker_job_id := rb_cause_job_id b,
     bn_control_job_id := (if rb_kind b = By_control then rb_cause_job_id b else None),
     bn_control_scope_error := rb_scope_error b\<rparr>"

text \<open>The kind a reader of a notice sees.\<close>

definition notice_blocker :: "blocker_notice \<Rightarrow> blocker_kind option" where
  "notice_blocker n =
     (if bn_control_scope_error n \<noteq> None then Some By_scope
      else if bn_control_job_id n \<noteq> None then Some By_control
      else map_option (\<lambda>k. case k of Blocked_local \<Rightarrow> By_local | Blocked_terminal \<Rightarrow> By_terminal
             | Blocked_uncertain \<Rightarrow> By_uncertain) (bn_blocker_kind n))"

definition notice_known :: "db \<Rightarrow> string \<Rightarrow> string \<Rightarrow> bool" where
  "notice_known db i key \<longleftrightarrow> exists_row (\<lambda>n. bn_outbox_id n = i \<or> bn_event_key n = key) (db_blockers db)"

definition add_notice :: "blocker_notice \<Rightarrow> db \<Rightarrow> db" where
  "add_notice n db = (if notice_known db (bn_outbox_id n) (bn_event_key n) then db
     else db\<lparr>db_blockers := db_blockers db @ [n]\<rparr>)"

section \<open>Refusing input\<close>

definition rejected_key :: "int \<Rightarrow> int \<Rightarrow> string" where
  "rejected_key chat message = ''rejected:'' @ decimal_int chat @ '':'' @ decimal_int message"

definition input_bound :: "db \<Rightarrow> int \<Rightarrow> int \<Rightarrow> string \<Rightarrow> int \<Rightarrow> topic_row option" where
  "input_bound db chat t session generation =
     (case (topic_of db t, find (\<lambda>s. ss_session_id s = session) (db_sessions db)) of
        (Some topic, Some s) \<Rightarrow>
          if tp_chat_id topic = chat \<and> ss_topic_id s = t \<and> ss_generation s = generation \<and>
             ss_status s \<in> {Active, Satellite}
          then Some topic else None
      | _ \<Rightarrow> None)"

definition reject_tx ::
  "wording \<Rightarrow> string \<Rightarrow> int \<Rightarrow> int \<Rightarrow> int \<Rightarrow> string \<Rightarrow> int \<Rightarrow> time \<Rightarrow> db
   \<Rightarrow> state_error + blocker_notice option \<times> db" where
  "reject_tx w i chat message t session generation now db =
     (case find (\<lambda>n. bn_event_key n = rejected_key chat message) (db_blockers db) of
        Some n \<Rightarrow> Inr (Some n, db)
      | None \<Rightarrow>
          if (chat, message) \<in> set (db_observed db) then Inr (None, db)
          else (case input_bound db chat t session generation of
              None \<Rightarrow> Inl (State_error ''blocked input session snapshot changed'')
            | Some topic \<Rightarrow>
                (case persistent_root_blocker db t of
                   None \<Rightarrow> Inr (None, db)
                 | Some b \<Rightarrow>
                     if exists_row (\<lambda>n. bn_outbox_id n = i) (db_blockers db)
                     then Inl (Integrity_error ''hub_blocker_outbox.outbox_id'')
                     else let n = about_blocker b (new_blocker_notice i (rejected_key chat message) Bn_rejected chat
                            (tp_thread_id topic) (Some message)
                            (wd_rejected w b (link_of b) (rb_topic_id b = t)) now) in
                       Inr (Some n, db\<lparr>db_blockers := db_blockers db @ [n],
                                       db_observed := db_observed db @ [(chat, message)]\<rparr>))))"

definition reject_blocked_input ::
  "wording \<Rightarrow> string \<Rightarrow> int \<Rightarrow> int \<Rightarrow> int \<Rightarrow> string \<Rightarrow> int \<Rightarrow> time \<Rightarrow> db
   \<Rightarrow> (state_error, db, blocker_notice option) outcome" where
  "reject_blocked_input w i chat message t session generation now =
     transact (reject_tx w i chat message t session generation now)"

section \<open>Holding queued jobs\<close>

definition held_key :: "string \<Rightarrow> string" where "held_key i = ''held:'' @ i"

definition is_held :: "db \<Rightarrow> string \<Rightarrow> bool" where
  "is_held db i \<longleftrightarrow> exists_row (\<lambda>h. hd_job_id h = i) (db_holds db)"

definition new_hold :: "string \<Rightarrow> root_blocker \<Rightarrow> time \<Rightarrow> job_hold" where
  "new_hold i b now = \<lparr>hd_job_id = i,
     hd_cause_job_id = (case rb_cause_job_id b of None \<Rightarrow> i | Some c \<Rightarrow> if c = [] then i else c),
     hd_held_at = now,
     hd_reason = (case rb_kind b of By_local \<Rightarrow> Held_local | By_terminal \<Rightarrow> Held_terminal | _ \<Rightarrow> Held_uncertain),
     hd_control_job_id = (if rb_kind b = By_control then rb_cause_job_id b else None),
     hd_decision = Hold_pending, hd_decided_at = None\<rparr>"

definition add_hold :: "job_hold \<Rightarrow> db \<Rightarrow> db" where
  "add_hold h db = (if is_held db (hd_job_id h) then db else db\<lparr>db_holds := db_holds db @ [h]\<rparr>)"

definition hold_job ::
  "wording \<Rightarrow> (string \<Rightarrow> string) \<Rightarrow> time \<Rightarrow> provider_job \<Rightarrow> int \<Rightarrow> root_blocker \<Rightarrow> db \<Rightarrow> state_error + db" where
  "hold_job w ids now j thread b db =
     (let i = pj_job_id j; db1 = add_hold (new_hold i b now) db;
          n = (about_blocker b (new_blocker_notice (ids (held_key i)) (held_key i) Bn_held (pj_chat_id j) thread
                 (Some (pj_message_id j)) (wd_held w i b (link_of b)) now))\<lparr>bn_job_id := Some i\<rparr>;
          db2 = add_notice n db1 in
      if exists_row (\<lambda>x. bn_event_key x = held_key i) (db_blockers db2) then Inr db2
      else Inl (State_error ''held-job notice was not recorded''))"

definition waits_unheld :: "db \<Rightarrow> provider_job \<Rightarrow> bool" where
  "waits_unheld db j \<longleftrightarrow> pj_status j \<in> {Queued, Retry_wait} \<and> topic_of db (pj_topic_id j) \<noteq> None \<and>
     \<not> is_held db (pj_job_id j)"

text \<open>The thread of a job's topic, for a job that has one.\<close>

definition thread_of :: "db \<Rightarrow> provider_job \<Rightarrow> int" where
  "thread_of db j = (case topic_of db (pj_topic_id j) of None \<Rightarrow> 0 | Some t \<Rightarrow> tp_thread_id t)"

fun hold_blocked ::
  "wording \<Rightarrow> (string \<Rightarrow> string) \<Rightarrow> time \<Rightarrow> provider_job list \<Rightarrow> nat \<Rightarrow> db \<Rightarrow> state_error + nat \<times> db" where
  "hold_blocked w ids now [] n db = Inr (n, db)"
| "hold_blocked w ids now (j # js) n db =
     (case persistent_root_blocker db (pj_topic_id j) of
        None \<Rightarrow> hold_blocked w ids now js n db
      | Some b \<Rightarrow> attempt (hold_job w ids now j (thread_of db j) b db) (hold_blocked w ids now js (n + 1)))"

text \<open>Holds of an older hub that have no notice yet: the job, and the job its hold is due to.\<close>

definition unnoticed_holds :: "db \<Rightarrow> (provider_job \<times> topic_row \<times> string) list" where
  "unnoticed_holds db = concat (map (\<lambda>h. concat (map (\<lambda>j.
       case job_of db (hd_cause_job_id h) of
         None \<Rightarrow> []
       | Some cause \<Rightarrow> (case topic_of db (pj_topic_id cause) of
             None \<Rightarrow> []
           | Some owner \<Rightarrow>
               if pj_status j \<in> {Queued, Retry_wait} \<and> topic_of db (pj_topic_id j) \<noteq> None \<and>
                  \<not> exists_row (\<lambda>n. bn_event_key n = held_key (pj_job_id j)) (db_blockers db)
               then [(j, owner, hd_cause_job_id h)] else []))
     (filter (\<lambda>j. pj_job_id j = hd_job_id h) (db_jobs db))))
   (filter (\<lambda>h. hd_reason h = Held_uncertain \<and> hd_decision h = Hold_pending) (db_holds db)))"

definition hold_older ::
  "wording \<Rightarrow> (string \<Rightarrow> string) \<Rightarrow> time \<Rightarrow> provider_job \<times> topic_row \<times> string \<Rightarrow> db \<Rightarrow> state_error + db" where
  "hold_older w ids now x db = (case x of (j, owner, cause) \<Rightarrow>
     hold_job w ids now j (thread_of db j) ((blocker_at By_uncertain owner)\<lparr>rb_cause_job_id := Some cause\<rparr>) db)"

definition materialize_held_jobs ::
  "wording \<Rightarrow> (string \<Rightarrow> string) \<Rightarrow> time \<Rightarrow> db \<Rightarrow> (state_error, db, nat) outcome" where
  "materialize_held_jobs w ids now = transact (\<lambda>db.
     attempt (hold_blocked w ids now
       (sort_key (\<lambda>j. (pj_created_at j, pj_topic_id j, pj_topic_sequence j)) (filter (waits_unheld db) (db_jobs db))) 0 db)
     (\<lambda>(n, db1). let older = unnoticed_holds db1 in
       attempt (each_row (hold_older w ids now) older db1) (\<lambda>db2. Inr (n + length older, db2))))"

definition held_count :: "db \<Rightarrow> int \<Rightarrow> nat" where
  "held_count db t = length (concat (map (\<lambda>h. filter (\<lambda>j. pj_job_id j = hd_job_id h \<and> pj_topic_id j = t \<and>
       pj_status j \<in> {Queued, Retry_wait}) (db_jobs db))
     (filter (\<lambda>h. hd_decision h = Hold_pending) (db_holds db))))"

definition hold_scope_before_return ::
  "wording \<Rightarrow> (string \<Rightarrow> string) \<Rightarrow> time \<Rightarrow> int \<Rightarrow> db \<Rightarrow> state_error + db" where
  "hold_scope_before_return w ids now t db =
     (let rows = (case topic_of db t of None \<Rightarrow> []
                  | Some owner \<Rightarrow> filter (\<lambda>j. waits_unheld db j \<and> in_scope db (topic_scope owner) (pj_topic_id j)) (db_jobs db))
      in case persistent_root_blocker db t of
           None \<Rightarrow> Inl (State_error ''local writer vanished before queue hold'')
         | Some b \<Rightarrow> each_row (\<lambda>j db. hold_job w ids now j (thread_of db j) b db) rows db)"

section \<open>Notices of a release\<close>

definition told_of :: "(blocker_notice \<Rightarrow> bool) \<Rightarrow> topic_row \<Rightarrow> blocker_notice \<Rightarrow> bool" where
  "told_of p t n \<longleftrightarrow> p n \<and> bn_kind n \<in> {Bn_rejected, Bn_held} \<and> tp_chat_id t = bn_chat_id n \<and>
     tp_thread_id t = bn_thread_id n"

definition recipients :: "(blocker_notice \<Rightarrow> bool) \<Rightarrow> db \<Rightarrow> topic_row list" where
  "recipients p db = sort_key tp_topic_id (filter (\<lambda>t. exists_row (told_of p t) (db_blockers db)) (db_topics db))"

definition had_rejected :: "(blocker_notice \<Rightarrow> bool) \<Rightarrow> db \<Rightarrow> topic_row \<Rightarrow> bool" where
  "had_rejected p db t \<longleftrightarrow> exists_row (\<lambda>n. told_of p t n \<and> bn_kind n = Bn_rejected) (db_blockers db)"

definition by_session :: "string \<Rightarrow> int \<Rightarrow> blocker_notice \<Rightarrow> bool" where
  "by_session session generation n \<longleftrightarrow> bn_blocker_session_id n = Some session \<and> bn_blocker_generation n = Some generation"

definition release_rows :: "(blocker_notice \<Rightarrow> bool) \<Rightarrow> db \<Rightarrow> (topic_row \<times> bool) list" where
  "release_rows p db = map (\<lambda>t. (t, had_rejected p db t)) (recipients p db)"

definition release_to :: "(db \<Rightarrow> topic_row \<times> bool \<Rightarrow> blocker_notice) \<Rightarrow> topic_row \<times> bool \<Rightarrow> db \<Rightarrow> db" where
  "release_to notice row db =
     (if persistent_root_blocker db (tp_topic_id (fst row)) \<noteq> None then db else add_notice (notice db row) db)"

definition writer_release ::
  "wording \<Rightarrow> (string \<Rightarrow> string) \<Rightarrow> time \<Rightarrow> string \<Rightarrow> int \<Rightarrow> db \<Rightarrow> topic_row \<times> bool \<Rightarrow> blocker_notice" where
  "writer_release w ids now session generation db row = (case row of (t, rejected) \<Rightarrow>
     (let key = ''released:'' @ session @ '':'' @ decimal_int generation @ '':'' @ decimal_int (tp_topic_id t) in
      (new_blocker_notice (ids key) key Bn_released (tp_chat_id t) (tp_thread_id t) None
        (wd_writer_released w (0 < held_count db (tp_topic_id t)) rejected, None) now)
       \<lparr>bn_blocker_topic_id := Some (tp_topic_id t), bn_blocker_session_id := Some session,
        bn_blocker_generation := Some generation\<rparr>))"

definition notice_released_scope ::
  "wording \<Rightarrow> (string \<Rightarrow> string) \<Rightarrow> time \<Rightarrow> string \<Rightarrow> int \<Rightarrow> db \<Rightarrow> db" where
  "notice_released_scope w ids now session generation db =
     fold (release_to (writer_release w ids now session generation)) (release_rows (by_session session generation) db) db"

text \<open>The turns whose outcome became known since a notice named them.\<close>

definition known_outcome :: "db \<Rightarrow> provider_job \<Rightarrow> bool" where
  "known_outcome db j \<longleftrightarrow> pj_status j \<in> {Completed, Failed, Cancelled} \<or> resolved_outcome db (pj_job_id j) \<or>
     terminal_outcome db (pj_job_id j)"

definition by_turn :: "string \<Rightarrow> blocker_notice \<Rightarrow> bool" where
  "by_turn i n \<longleftrightarrow> bn_blocker_kind n = Some Blocked_uncertain \<and> bn_blocker_job_id n = Some i"

definition turn_release ::
  "wording \<Rightarrow> (string \<Rightarrow> string) \<Rightarrow> time \<Rightarrow> string \<Rightarrow> db \<Rightarrow> topic_row \<times> bool \<Rightarrow> blocker_notice" where
  "turn_release w ids now i db row = (case row of (t, rejected) \<Rightarrow>
     (let key = ''released:uncertain:'' @ i @ '':'' @ decimal_int (tp_topic_id t) in
      (new_blocker_notice (ids key) key Bn_released (tp_chat_id t) (tp_thread_id t) None
        (wd_turn_released w (0 < held_count db (tp_topic_id t)) rejected, None) now)
       \<lparr>bn_blocker_topic_id := Some (tp_topic_id t), bn_blocker_kind := Some Blocked_uncertain,
        bn_blocker_job_id := Some i\<rparr>))"

definition released_turns :: "db \<Rightarrow> (string \<times> topic_row \<times> bool) list" where
  "released_turns db = concat (map (\<lambda>i. map (\<lambda>row. (i, row)) (release_rows (by_turn i) db))
     (sort (remdups (map pj_job_id (filter (known_outcome db) (db_jobs db))))))"

definition materialize_released_uncertainty ::
  "wording \<Rightarrow> (string \<Rightarrow> string) \<Rightarrow> time \<Rightarrow> db \<Rightarrow> nat \<times> db" where
  "materialize_released_uncertainty w ids now db =
     fold (\<lambda>(i, row) (n, d). let d' = release_to (turn_release w ids now i) row d in
             (n + (length (db_blockers d') - length (db_blockers d)), d'))
       (released_turns db) (0, db)"

section \<open>The decision on a held job\<close>

definition confirm_refusal :: "blocker_kind \<Rightarrow> string" where
  "confirm_refusal k = (case k of
     By_scope \<Rightarrow> ''topic root is unconfirmed; verify its binding before retrying''
   | By_control \<Rightarrow> ''native control sender is unconfirmed; verify its quiescence first''
   | By_uncertain \<Rightarrow> ''previous native turn outcome is unconfirmed; verify its exact outcome first''
   | _ \<Rightarrow> ''project is still held; release its writer first'')"

text \<open>The held job a callback is about: its notice was delivered as the message that was pressed.\<close>

definition pressed_hold :: "db \<Rightarrow> string \<Rightarrow> int \<Rightarrow> int \<Rightarrow> int \<Rightarrow> (provider_job \<times> job_hold) option" where
  "pressed_hold db i chat thread message =
     (case (job_of db i, find (\<lambda>h. hd_job_id h = i) (db_holds db),
            find (\<lambda>n. bn_event_key n = held_key i \<and> bn_status n = Bn_delivered) (db_blockers db)) of
        (Some j, Some h, Some n) \<Rightarrow>
          (case topic_of db (pj_topic_id j) of
             None \<Rightarrow> None
           | Some t \<Rightarrow> if pj_chat_id j = chat \<and> tp_thread_id t = thread \<and> bn_telegram_message_id n = Some message
                      then Some (j, h) else None)
      | _ \<Rightarrow> None)"

definition decide_job :: "time \<Rightarrow> provider_job \<Rightarrow> provider_job" where
  "decide_job now j = j\<lparr>pj_status := Cancelled, pj_next_attempt_at := None,
     pj_error_class := Some ''owner_decision'', pj_error_code := Some ''held_job_cancelled'', pj_updated_at := now\<rparr>"

definition decide_held_tx ::
  "string \<Rightarrow> bool \<Rightarrow> int \<Rightarrow> int \<Rightarrow> int \<Rightarrow> time \<Rightarrow> db \<Rightarrow> state_error + hold_decision \<times> db" where
  "decide_held_tx i confirm chat thread message now db =
     (case pressed_hold db i chat thread message of
        None \<Rightarrow> Inl (State_error ''held-job notice or topic changed'')
      | Some (j, h) \<Rightarrow>
          let chosen = (if confirm then Hold_confirmed else Hold_cancelled) in
          if hd_decision h = chosen then Inr (chosen, db)
          else if hd_decision h \<noteq> Hold_pending \<or> pj_status j \<notin> {Queued, Retry_wait}
          then Inl (State_error ''held job was already decided or started'')
          else attempt (case persistent_root_blocker db (pj_topic_id j) of
                 Some b \<Rightarrow> if confirm then Inl (State_error (confirm_refusal (rb_kind b))) else Inr ()
               | None \<Rightarrow> Inr ()) (\<lambda>_.
            let db1 = db\<lparr>db_holds := update_where (\<lambda>h. hd_job_id h = i)
                        (\<lambda>h. h\<lparr>hd_decision := chosen, hd_decided_at := Some now\<rparr>) (db_holds db)\<rparr> in
            Inr (chosen, if confirm then db1
              else complete_finished_stops (pj_topic_id j) now
                (update_jobs (\<lambda>j. pj_job_id j = i) (decide_job now) db1))))"

definition decide_held_job ::
  "string \<Rightarrow> bool \<Rightarrow> int \<Rightarrow> int \<Rightarrow> int \<Rightarrow> time \<Rightarrow> db \<Rightarrow> (state_error, db, hold_decision) outcome" where
  "decide_held_job i confirm chat thread message now =
     transact (decide_held_tx i confirm chat thread message now)"

section \<open>Delivery of the notices\<close>

definition release_blocker_lease :: "blocker_notice \<Rightarrow> blocker_notice" where
  "release_blocker_lease n = n\<lparr>bn_lease_owner := None, bn_lease_token := None, bn_lease_expires_at := None\<rparr>"

definition lease_blocker_notice ::
  "string \<Rightarrow> string \<Rightarrow> time \<Rightarrow> db \<Rightarrow> blocker_notice option \<times> db" where
  "lease_blocker_notice sender token now db =
     (let ns = update_where (\<lambda>n. bn_status n = Bn_sending \<and> due (bn_lease_expires_at n) now)
                 (\<lambda>n. (release_blocker_lease n)\<lparr>bn_status := Bn_pending, bn_updated_at := now\<rparr>) (db_blockers db) in
      case first_by (\<lambda>a b. (bn_created_at a, bn_outbox_id a) \<le> (bn_created_at b, bn_outbox_id b))
             (\<lambda>n. bn_status n = Bn_pending \<and> bn_available_at n \<le> now) ns of
        None \<Rightarrow> (None, db\<lparr>db_blockers := ns\<rparr>)
      | Some row \<Rightarrow>
          (let f = (\<lambda>n. n\<lparr>bn_status := Bn_sending, bn_lease_owner := Some sender, bn_lease_token := Some token,
                      bn_lease_expires_at := Some (now + seconds 90), bn_attempt_count := bn_attempt_count n + 1,
                      bn_updated_at := now\<rparr>);
               ms = update_where (\<lambda>n. bn_outbox_id n = bn_outbox_id row) f ns
           in (find (\<lambda>n. bn_outbox_id n = bn_outbox_id row) ms, db\<lparr>db_blockers := ms\<rparr>)))"

definition holds_blocker_notice :: "blocker_notice \<Rightarrow> blocker_notice \<Rightarrow> bool" where
  "holds_blocker_notice given n \<longleftrightarrow> bn_outbox_id n = bn_outbox_id given \<and> bn_lease_token n \<noteq> None \<and>
     bn_lease_token n = bn_lease_token given"

definition complete_blocker_notice :: "blocker_notice \<Rightarrow> int \<Rightarrow> time \<Rightarrow> db \<Rightarrow> db" where
  "complete_blocker_notice given message now db = db\<lparr>db_blockers := update_where (holds_blocker_notice given)
     (\<lambda>n. (release_blocker_lease n)\<lparr>bn_status := Bn_delivered, bn_telegram_message_id := Some message,
            bn_delivered_at := Some now, bn_updated_at := now\<rparr>) (db_blockers db)\<rparr>"

definition retry_blocker_notice :: "blocker_notice \<Rightarrow> string \<Rightarrow> int \<Rightarrow> time \<Rightarrow> db \<Rightarrow> db" where
  "retry_blocker_notice given error_code delay now db = db\<lparr>db_blockers := update_where (holds_blocker_notice given)
     (\<lambda>n. (release_blocker_lease n)\<lparr>bn_status := Bn_pending, bn_available_at := now + seconds delay,
            bn_error_code := Some (take 80 error_code), bn_updated_at := now\<rparr>) (db_blockers db)\<rparr>"

end
