(* ===== verification/Blocker_Properties.thy ===== *)
theory Blocker_Properties
  imports Root_Blockers Job_Properties
begin

text \<open>
  What the holds promise: work behind a persistent owner of its root is held exactly once and the
  scheduler never takes it; a writer returns only after the queue behind it is held; the decision
  on a held job is made once.
\<close>

section \<open>Holding touches holds and notices only\<close>

definition holds_grow :: "db \<Rightarrow> db \<Rightarrow> bool" where
  "holds_grow db db' \<longleftrightarrow> db\<lparr>db_holds := [], db_blockers := []\<rparr> = db'\<lparr>db_holds := [], db_blockers := []\<rparr> \<and>
     (\<exists>hs. db_holds db' = db_holds db @ hs)"

lemma holds_grow_refl [simp]: "holds_grow db db"
  by (simp add: holds_grow_def)

lemma holds_grow_trans: "holds_grow a b \<Longrightarrow> holds_grow b c \<Longrightarrow> holds_grow a c"
  by (auto simp: holds_grow_def)

lemma holds_grow_sel:
  assumes "holds_grow db db'"
  shows "db_jobs db' = db_jobs db" "db_topics db' = db_topics db" "db_sessions db' = db_sessions db"
    "db_stops db' = db_stops db" "db_evidence db' = db_evidence db" "db_resolutions db' = db_resolutions db"
    "db_controls db' = db_controls db" "db_checkpoints db' = db_checkpoints db" "db_origins db' = db_origins db"
    "set (db_holds db) \<subseteq> set (db_holds db')"
proof -
  note d = arg_cong [OF conjunct1 [OF assms [unfolded holds_grow_def]]]
  show "db_jobs db' = db_jobs db" using d [of db_jobs] by simp
  show "db_topics db' = db_topics db" using d [of db_topics] by simp
  show "db_sessions db' = db_sessions db" using d [of db_sessions] by simp
  show "db_stops db' = db_stops db" using d [of db_stops] by simp
  show "db_evidence db' = db_evidence db" using d [of db_evidence] by simp
  show "db_resolutions db' = db_resolutions db" using d [of db_resolutions] by simp
  show "db_controls db' = db_controls db" using d [of db_controls] by simp
  show "db_checkpoints db' = db_checkpoints db" using d [of db_checkpoints] by simp
  show "db_origins db' = db_origins db" using d [of db_origins] by simp
  show "set (db_holds db) \<subseteq> set (db_holds db')" using assms by (auto simp: holds_grow_def)
qed

lemma holds_grow_update [simp]: "holds_grow db (db\<lparr>db_holds := db_holds db @ hs, db_blockers := ns\<rparr>)"
  "holds_grow db (db\<lparr>db_holds := db_holds db @ hs\<rparr>)" "holds_grow db (db\<lparr>db_blockers := ns\<rparr>)"
  by (simp_all add: holds_grow_def)

lemma is_held_grow: "holds_grow db db' \<Longrightarrow> is_held db i \<Longrightarrow> is_held db' i"
  using holds_grow_sel(10) by (fastforce simp: is_held_def exists_row_iff)

text \<open>The owner of a root does not depend on holds or notices.\<close>

lemma blocker_grow:
  assumes "holds_grow db db'"
  shows "persistent_root_blocker db' t = persistent_root_blocker db t"
proof -
  note s = holds_grow_sel [OF assms]
  have topic: "topic_of db' = topic_of db" and scope: "in_scope db' = in_scope db"
    by (simp_all add: fun_eq_iff topic_of_def in_scope_def scope_of_def s)
  have unc: "uncertain db' = uncertain db"
    by (simp add: fun_eq_iff uncertain_def resolved_outcome_def terminal_outcome_def s)
  have uns: "unsettled_control db' = unsettled_control db"
    by (simp add: fun_eq_iff unsettled_control_def owner_closed_terminal_control_def s)
  have roots: "retained_roots db' t = retained_roots db t"
    by (simp add: retained_roots_def s)
  have res: "resolved_control_scope db' t = resolved_control_scope db t"
    by (simp only: resolved_control_scope_def topic roots)
  have ow: "unquiesced_control_owner db' = unquiesced_control_owner db"
    by (simp add: fun_eq_iff unquiesced_control_owner_def uns s)
  have own: "control_owner_for_topic db' t = control_owner_for_topic db t"
    by (simp only: control_owner_for_topic_def res ow uns s)
  have writer: "outside_writer db' = outside_writer db" and turn: "uncertain_turn db' = uncertain_turn db"
    by (simp_all add: fun_eq_iff outside_writer_def uncertain_turn_def unc scope s)
  show ?thesis
    by (simp only: persistent_root_blocker_def topic own writer turn)
qed

lemma add_notice_grow [simp]: "holds_grow db (add_notice n db)"
  by (simp add: add_notice_def)

lemma add_hold_grow [simp]: "holds_grow db (add_hold h db)"
  by (simp add: add_hold_def)

lemma is_held_add_hold: "is_held (add_hold h db) (hd_job_id h)"
  by (auto simp: add_hold_def is_held_def exists_row_iff)

lemma hold_job_Inr:
  assumes "hold_job w ids now j thread b db = Inr db'"
  shows "holds_grow db db' \<and> is_held db' (pj_job_id j) \<and>
    (\<forall>h \<in> set (db_holds db'). h \<in> set (db_holds db) \<or> h = new_hold (pj_job_id j) b now)"
proof -
  let ?db1 = "add_hold (new_hold (pj_job_id j) b now) db"
  obtain n where d: "db' = add_notice n ?db1" using assms by (auto simp: hold_job_def Let_def split: if_splits)
  have "holds_grow db ?db1" "holds_grow ?db1 db'" unfolding d by simp_all
  moreover have "is_held ?db1 (pj_job_id j)"
    using is_held_add_hold [of "new_hold (pj_job_id j) b now"] by (simp add: new_hold_def)
  moreover have "db_holds db' = db_holds ?db1" by (simp add: d add_notice_def)
  moreover have "\<forall>h \<in> set (db_holds ?db1). h \<in> set (db_holds db) \<or> h = new_hold (pj_job_id j) b now"
    by (simp add: add_hold_def)
  ultimately show ?thesis using is_held_grow holds_grow_trans by metis
qed

lemma hold_blocked_Inr:
  "hold_blocked w ids now js n db = Inr (m, db') \<Longrightarrow> holds_grow db db' \<and>
    (\<forall>j \<in> set js. is_held db' (pj_job_id j) \<or> persistent_root_blocker db (pj_topic_id j) = None) \<and>
    (\<forall>h \<in> set (db_holds db'). h \<in> set (db_holds db) \<or>
       (\<exists>j \<in> set js. \<exists>b. persistent_root_blocker db (pj_topic_id j) = Some b \<and> h = new_hold (pj_job_id j) b now))"
proof (induction js arbitrary: n db)
  case (Cons j js)
  show ?case
  proof (cases "persistent_root_blocker db (pj_topic_id j)")
    case None
    then have "hold_blocked w ids now js n db = Inr (m, db')" using Cons.prems by simp
    from Cons.IH [OF this] show ?thesis using None by auto
  next
    case (Some b)
    then obtain d where d: "hold_job w ids now j (thread_of db j) b db = Inr d" "hold_blocked w ids now js (n + 1) d = Inr (m, db')"
      using Cons.prems by (auto simp: attempt_Inr)
    note h = hold_job_Inr [OF d(1)]
    note r = Cons.IH [OF d(2)]
    have b: "\<And>t. persistent_root_blocker d t = persistent_root_blocker db t" using blocker_grow h by blast
    have "holds_grow db db'" using h r holds_grow_trans by blast
    moreover have "is_held db' (pj_job_id j)" using h r is_held_grow by blast
    ultimately show ?thesis using h r b Some by (auto; metis)
  qed
qed simp

lemma hold_older_grow: "hold_older w ids now x db = Inr db' \<Longrightarrow> holds_grow db db'"
  by (cases x) (auto simp: hold_older_def dest: hold_job_Inr)

lemma each_older_grow:
  "each_row (hold_older w ids now) xs db = Inr db' \<Longrightarrow> holds_grow db db'"
proof (induction xs arbitrary: db)
  case (Cons x xs)
  then obtain d where "hold_older w ids now x db = Inr d" "each_row (hold_older w ids now) xs d = Inr db'"
    by (auto simp: attempt_Inr)
  then show ?case using Cons.IH hold_older_grow holds_grow_trans by blast
qed simp

lemma waits_unheld_grow: "holds_grow db db' \<Longrightarrow> waits_unheld db' j \<Longrightarrow> waits_unheld db j"
  using is_held_grow [of db db' "pj_job_id j"]
  by (auto simp: waits_unheld_def topic_of_def holds_grow_sel)


section \<open>The return of a writer\<close>

lemma each_hold_Inr:
  "each_row (\<lambda>j db. hold_job w ids now j (thread_of db j) b db) js db = Inr db' \<Longrightarrow>
   holds_grow db db' \<and> (\<forall>j \<in> set js. is_held db' (pj_job_id j))"
proof (induction js arbitrary: db)
  case (Cons j js)
  then obtain d where d: "hold_job w ids now j (thread_of db j) b db = Inr d"
      "each_row (\<lambda>j db. hold_job w ids now j (thread_of db j) b db) js d = Inr db'"
    by (auto simp: attempt_Inr)
  note h = hold_job_Inr [OF d(1)] and r = Cons.IH [OF d(2)]
  have "holds_grow db db'" "is_held db' (pj_job_id j)"
    using h r holds_grow_trans is_held_grow by blast+
  then show ?case using r by simp
qed simp

text \<open>Before a root is given back to Telegram, all the work that waits on it is held: no waiting
  job of the scope is left to start by itself when the writer is gone.\<close>

theorem returned_scope_is_held:
  assumes "hold_scope_before_return w ids now t db = Inr db'" "topic_of db t = Some owner"
  shows "holds_grow db db' \<and> (\<forall>j \<in> set (db_jobs db').
    in_scope db' (topic_scope owner) (pj_topic_id j) \<longrightarrow> pj_status j \<in> {Queued, Retry_wait} \<longrightarrow> is_held db' (pj_job_id j))"
proof -
  let ?p = "\<lambda>j. waits_unheld db j \<and> in_scope db (topic_scope owner) (pj_topic_id j)"
  obtain b where "each_row (\<lambda>j db. hold_job w ids now j (thread_of db j) b db) (filter ?p (db_jobs db)) db = Inr db'"
    using assms by (auto simp: hold_scope_before_return_def Let_def split: option.splits)
  note h = each_hold_Inr [OF this]
  have s: "in_scope db' = in_scope db" "db_jobs db' = db_jobs db"
    using holds_grow_sel [of db db'] h by (simp_all add: fun_eq_iff in_scope_def scope_of_def topic_of_def)
  have "is_held db' (pj_job_id j)" if j: "j \<in> set (db_jobs db)" "in_scope db (topic_scope owner) (pj_topic_id j)"
    "pj_status j \<in> {Queued, Retry_wait}" for j
  proof (cases "is_held db (pj_job_id j)")
    case False
    moreover have "topic_of db (pj_topic_id j) \<noteq> None" using j(2) by (auto simp: in_scope_def scope_of_def)
    ultimately have "waits_unheld db j" using j(3) by (simp add: waits_unheld_def)
    then show ?thesis using h j by simp
  qed (use is_held_grow h in blast)
  then show ?thesis using h s by simp
qed

section \<open>The scheduler agrees\<close>

lemma outside_writer_Some:
  "outside_writer db scope = Some s \<Longrightarrow> exists_row (external_writer db scope) (db_sessions db)"
  using first_by_Some unfolding outside_writer_def exists_row_iff external_writer_def by fastforce

lemma uncertain_turn_Some:
  "uncertain_turn db scope = Some u \<Longrightarrow> u \<in> set (db_jobs db) \<and> uncertain db u \<and> in_scope db scope (pj_topic_id u)"
  using first_by_Some unfolding uncertain_turn_def by fastforce

text \<open>A persistent owner of the root keeps the scheduler out: a job behind a local or terminal
  writer, an unresolved native control, an unconfirmed root or a turn of unknown outcome is never
  eligible, so neither the hold nor its notice is needed to keep it from running.\<close>

theorem blocked_job_is_not_eligible:
  assumes "persistent_root_blocker db (pj_topic_id j) = Some b" "j \<in> set (db_jobs db)" "jobs_ok db"
  shows "\<not> eligible db now agent j"
proof
  assume e: "eligible db now agent j"
  obtain t where t: "topic_of db (pj_topic_id j) = Some t" using e by (auto simp: eligible_def split: option.splits)
  have el: "control_scope_is_clear db t" "\<not> exists_row (root_occupant db now (topic_scope t) j) (db_jobs db)"
    "\<not> exists_row (external_writer db (topic_scope t)) (db_sessions db)" "pj_status j \<in> {Queued, Retry_wait}"
    using e t eligible_open [OF e] by (simp_all add: eligible_def Let_def)
  have "control_owner_for_topic db (pj_topic_id j) = Inr None" using control_scope_iff [OF t] el(1) by simp
  moreover have "outside_writer db (topic_scope t) = None"
    using el(3) outside_writer_Some by (cases "outside_writer db (topic_scope t)") auto
  ultimately obtain u where u: "uncertain_turn db (topic_scope t) = Some u"
    using assms(1) t by (auto simp: persistent_root_blocker_def split: option.splits)
  note uu = uncertain_turn_Some [OF u]
  have "pj_job_id u \<noteq> pj_job_id j"
  proof
    assume "pj_job_id u = pj_job_id j"
    then have "u = j" using distinct_key_eq [of pj_job_id "db_jobs db" u j] uu assms(2,3) by (simp add: jobs_ok_def)
    then show False using uu el(4) by (auto simp: uncertain_def)
  qed
  then have "root_occupant db now (topic_scope t) j u" using uu by (simp add: root_occupant_def occupies_root_def)
  then show False using el(2) uu by (auto simp: exists_row_iff)
qed

section \<open>The owner's decision\<close>

lemma pressed_hold_Some:
  assumes "pressed_hold db i chat thread message = Some (j, h)"
  shows "job_of db i = Some j \<and> find (\<lambda>h. hd_job_id h = i) (db_holds db) = Some h"
  using assms by (auto simp: pressed_hold_def split: option.splits if_splits)


section \<open>A hub with a local writer\<close>

definition local_session :: session_row where
  "local_session = \<lparr>ss_session_id = ''s'', ss_topic_id = 1, ss_agent_id = ''codex'', ss_generation = 1,
     ss_status = Active, ss_model = ''m'', ss_effort = ''e'', ss_provider_session_id = None, ss_terminal_name = None,
     ss_writer_mode = Local_writer, ss_context_remaining_percent = None, ss_codex_permission_profile = None,
     ss_created_at = 0, ss_updated_at = 0\<rparr>"

definition local_hub :: db where
  "local_hub = (example_hub [example_job ''a'' 1 Queued])\<lparr>db_sessions := [local_session]\<rparr>"

definition plain_wording :: wording where
  "plain_wording = \<lparr>wd_rejected = (\<lambda>_ _ _. (''no'', None)), wd_held = (\<lambda>_ _ _. (''held'', None)),
     wd_writer_released = (\<lambda>_ _. ''free''), wd_turn_released = (\<lambda>_ _. ''known'')\<rparr>"

lemma local_hub_sel:
  "db_jobs local_hub = [example_job ''a'' 1 Queued]" "db_holds local_hub = []" "db_blockers local_hub = []"
  "db_sessions local_hub = [local_session]" "db_topics local_hub = [example_topic]" "db_controls local_hub = []"
  by (simp_all add: local_hub_def example_hub_def empty_db_def)

lemma local_hub_topic: "topic_of local_hub 1 = Some example_topic"
  by (simp add: topic_of_def local_hub_sel example_topic_def)

lemma local_hub_ok: "jobs_ok local_hub"
  by (simp add: jobs_ok_def local_hub_sel example_job_def job_ok_def lease_columns_ok_def attempts_ok_def)

lemma local_hub_blocked: "persistent_root_blocker local_hub 1 = Some (writer_blocker example_topic local_session)"
proof -
  have "control_owner_for_topic local_hub 1 = Inr None"
    by (simp add: control_owner_for_topic_def local_hub_sel exists_row_def)
  moreover have "outside_writer local_hub (topic_scope example_topic) = Some local_session"
    using local_hub_topic
    by (simp add: outside_writer_def local_hub_sel in_scope_def scope_of_def local_session_def)
  ultimately show ?thesis by (simp add: persistent_root_blocker_def local_hub_topic local_session_def)
qed

lemma local_hub_hold:
  "\<exists>db'. hold_job plain_wording (\<lambda>k. k) 5 (example_job ''a'' 1 Queued) 3 (writer_blocker example_topic local_session) local_hub = Inr db' \<and>
     is_held db' ''a'' \<and> db_holds db' = [new_hold ''a'' (writer_blocker example_topic local_session) 5]"
  by (simp add: hold_job_def Let_def add_hold_def add_notice_def is_held_def notice_known_def exists_row_def
      local_hub_sel example_job_def new_blocker_notice_def about_blocker_def new_hold_def)

lemma local_hub_waits: "waits_unheld local_hub (example_job ''a'' 1 Queued)"
  using local_hub_topic by (simp add: waits_unheld_def is_held_def exists_row_def local_hub_sel example_job_def)


theorem returned_scope_is_held_witness:
  "\<exists>db'. hold_scope_before_return plain_wording (\<lambda>k. k) 5 1 local_hub = Inr db' \<and>
     (\<forall>j \<in> set (db_jobs db'). in_scope db' (topic_scope example_topic) (pj_topic_id j) \<longrightarrow>
        pj_status j \<in> {Queued, Retry_wait} \<longrightarrow> is_held db' (pj_job_id j))"
proof -
  obtain d where d: "hold_job plain_wording (\<lambda>k. k) 5 (example_job ''a'' 1 Queued) 3 (writer_blocker example_topic local_session) local_hub = Inr d"
    using local_hub_hold by blast
  have t: "pj_topic_id (example_job ''a'' 1 Queued) = 1" by (simp add: example_job_def)
  have th: "thread_of local_hub (example_job ''a'' 1 Queued) = 3"
    using local_hub_topic by (simp add: thread_of_def t example_topic_def)
  have s: "in_scope local_hub (topic_scope example_topic) 1"
    using local_hub_topic by (simp add: in_scope_def scope_of_def)
  have h: "hold_scope_before_return plain_wording (\<lambda>k. k) 5 1 local_hub = Inr d"
    using local_hub_waits local_hub_blocked d s
    by (simp add: hold_scope_before_return_def local_hub_topic local_hub_sel t th Let_def)
  show ?thesis using returned_scope_is_held [OF h local_hub_topic] h by blast
qed

theorem blocked_job_is_not_eligible_witness:
  "\<not> eligible local_hub 9 ''codex'' (example_job ''a'' 1 Queued)"
proof -
  have "persistent_root_blocker local_hub (pj_topic_id (example_job ''a'' 1 Queued)) = Some (writer_blocker example_topic local_session)"
    using local_hub_blocked by (simp add: example_job_def)
  then show ?thesis by (rule blocked_job_is_not_eligible) (simp_all add: local_hub_sel local_hub_ok)
qed

text \<open>The same hub when the hold's notice was delivered as message 9.\<close>

definition asked_hub :: db where
  "asked_hub = local_hub\<lparr>db_holds := [new_hold ''a'' (writer_blocker example_topic local_session) 5],
     db_blockers := [(new_blocker_notice ''n'' (held_key ''a'') Bn_held 7 3 None (''held'', None) 5)
       \<lparr>bn_status := Bn_delivered, bn_telegram_message_id := Some 9\<rparr>]\<rparr>"


end
