(* ===== verification/Session_State.thy ===== *)
theory Session_State
  imports Root_Blockers Job_Queries
begin

text \<open>
  The sessions of a topic and who writes its execution root (\<open>state_sessions.py\<close>), with the
  lookups of topics and lanes those operations call (\<open>get_topic\<close>, \<open>topic_has_running_dispatch\<close> of
  \<open>state.py\<close>, \<open>active_lane_for_topic\<close> of \<open>state_lanes.py\<close>). \<open>profile\<close> is the permission profile the
  hub was opened with, or the error that it was opened without one; \<open>fresh\<close> is the identifier of a
  new session; \<open>now\<close> is the clock reading of the call. An update that violates a unique index of
  the table is an integrity error.
\<close>

section \<open>Topics and sessions as their readers see them\<close>

record topic_record =
  tr_topic_id :: int
  tr_project_id :: string
  tr_chat_id :: int
  tr_thread_id :: int
  tr_title :: string
  tr_active_agent_id :: "string option"
  tr_execution_scope :: string

definition topic_record_of :: "topic_row \<Rightarrow> topic_record" where
  "topic_record_of t = \<lparr>tr_topic_id = tp_topic_id t, tr_project_id = tp_project_id t, tr_chat_id = tp_chat_id t,
     tr_thread_id = tp_thread_id t, tr_title = tp_title t, tr_active_agent_id = tp_active_agent_id t,
     tr_execution_scope = topic_scope t\<rparr>"

definition get_topic :: "db \<Rightarrow> int \<Rightarrow> state_error + topic_record" where
  "get_topic db t = (case topic_of db t of
     None \<Rightarrow> Inl (State_error (''unknown topic_id: '' @ decimal_int t))
   | Some r \<Rightarrow> Inr (topic_record_of r))"

record session_record =
  sn_session_id :: string
  sn_topic_id :: int
  sn_agent_id :: string
  sn_generation :: int
  sn_status :: session_status
  sn_model :: string
  sn_effort :: string
  sn_provider_session_id :: "string option"
  sn_terminal_name :: "string option"
  sn_writer_mode :: writer_mode
  sn_context_remaining_percent :: "int option"
  sn_codex_permission_profile :: "string option"

definition session_record_of :: "session_row \<Rightarrow> session_record" where
  "session_record_of s = \<lparr>sn_session_id = ss_session_id s, sn_topic_id = ss_topic_id s, sn_agent_id = ss_agent_id s,
     sn_generation = ss_generation s, sn_status = ss_status s, sn_model = ss_model s, sn_effort = ss_effort s,
     sn_provider_session_id = ss_provider_session_id s, sn_terminal_name = ss_terminal_name s,
     sn_writer_mode = ss_writer_mode s, sn_context_remaining_percent = ss_context_remaining_percent s,
     sn_codex_permission_profile = ss_codex_permission_profile s\<rparr>"

definition session_of :: "db \<Rightarrow> string \<Rightarrow> session_row option" where
  "session_of db i = find (\<lambda>s. ss_session_id s = i) (db_sessions db)"

definition unknown_session :: "string \<Rightarrow> state_error" where
  "unknown_session i = State_error (''unknown session_id: '' @ i)"

definition get_session :: "db \<Rightarrow> string \<Rightarrow> state_error + session_record" where
  "get_session db i = (case session_of db i of
     None \<Rightarrow> Inl (unknown_session i) | Some s \<Rightarrow> Inr (session_record_of s))"

definition active_row :: "db \<Rightarrow> int \<Rightarrow> session_row option" where
  "active_row db t = find (\<lambda>s. ss_topic_id s = t \<and> ss_status s = Active) (db_sessions db)"

definition satellite_row :: "db \<Rightarrow> int \<Rightarrow> string \<Rightarrow> session_row option" where
  "satellite_row db t agent =
     find (\<lambda>s. ss_topic_id s = t \<and> ss_agent_id s = agent \<and> ss_status s = Satellite) (db_sessions db)"

definition active_session :: "db \<Rightarrow> int \<Rightarrow> session_record option" where
  "active_session db t = map_option session_record_of (active_row db t)"

definition retained :: "session_row \<Rightarrow> bool" where
  "retained s \<longleftrightarrow> ss_status s \<in> {Active, Satellite}"

definition retained_session :: "db \<Rightarrow> int \<Rightarrow> string \<Rightarrow> session_record option" where
  "retained_session db t agent = map_option session_record_of
     (find (\<lambda>s. ss_topic_id s = t \<and> ss_agent_id s = agent \<and> retained s) (db_sessions db))"

section \<open>The table\<close>

text \<open>Its primary key, its unique constraint and its two partial unique indexes.\<close>

definition sessions_valid :: "session_row list \<Rightarrow> bool" where
  "sessions_valid rows \<longleftrightarrow>
     distinct (map ss_session_id rows) \<and>
     distinct (map (\<lambda>s. (ss_topic_id s, ss_agent_id s, ss_generation s)) rows) \<and>
     distinct (map ss_topic_id (filter (\<lambda>s. ss_status s = Active) rows)) \<and>
     distinct (map (\<lambda>s. (ss_topic_id s, ss_agent_id s)) (filter (\<lambda>s. ss_status s = Satellite) rows))"

definition put_sessions :: "session_row list \<Rightarrow> db \<Rightarrow> state_error + db" where
  "put_sessions rows db =
     (if sessions_valid rows then Inr (db\<lparr>db_sessions := rows\<rparr>) else Inl (Integrity_error ''agent_sessions''))"

definition set_status :: "string \<Rightarrow> session_status \<Rightarrow> time \<Rightarrow> db \<Rightarrow> state_error + db" where
  "set_status i st now db = put_sessions (update_where (\<lambda>s. ss_session_id s = i)
     (\<lambda>s. s\<lparr>ss_status := st, ss_updated_at := now\<rparr>) (db_sessions db)) db"

definition next_generation :: "db \<Rightarrow> int \<Rightarrow> string \<Rightarrow> int" where
  "next_generation db t agent =
     (case map ss_generation (filter (\<lambda>s. ss_topic_id s = t \<and> ss_agent_id s = agent) (db_sessions db)) of
        [] \<Rightarrow> 1 | g # gs \<Rightarrow> fold max gs g + 1)"

definition new_session ::
  "string \<Rightarrow> int \<Rightarrow> string \<Rightarrow> int \<Rightarrow> string \<Rightarrow> string \<Rightarrow> session_status \<Rightarrow> string option \<Rightarrow> time \<Rightarrow> session_row" where
  "new_session i t agent generation model effort st profile now = \<lparr>ss_session_id = i, ss_topic_id = t,
     ss_agent_id = agent, ss_generation = generation, ss_status = st, ss_model = model, ss_effort = effort,
     ss_provider_session_id = None, ss_terminal_name = None, ss_writer_mode = Telegram_writer,
     ss_context_remaining_percent = None, ss_codex_permission_profile = profile,
     ss_created_at = now, ss_updated_at = now\<rparr>"

definition selected_for :: "state_error + string option \<Rightarrow> string \<Rightarrow> state_error + string option" where
  "selected_for profile agent = (if agent = ''codex'' then profile else Inr None)"

definition insert_session ::
  "string \<Rightarrow> int \<Rightarrow> string \<Rightarrow> string \<Rightarrow> string \<Rightarrow> session_status \<Rightarrow> state_error + string option \<Rightarrow> time \<Rightarrow> db
   \<Rightarrow> state_error + db" where
  "insert_session fresh t agent model effort st profile now db =
     attempt (selected_for profile agent) (\<lambda>p.
       put_sessions (db_sessions db @ [new_session fresh t agent (next_generation db t agent) model effort st p now]) db)"

definition require_codex_selection :: "state_error + string option \<Rightarrow> session_row \<Rightarrow> state_error + unit" where
  "require_codex_selection profile s =
     (if ss_agent_id s = ''codex''
      then attempt profile (\<lambda>p. check (ss_codex_permission_profile s = p)
        (State_error ''Codex permission selection differs from the session generation''))
      else Inr ())"

section \<open>What keeps a session from changing\<close>

definition control_quiet :: "db \<Rightarrow> int \<Rightarrow> state_error + unit" where
  "control_quiet db t = attempt (control_owner_for_topic db t) (\<lambda>c.
     check (c = None) (State_error ''native control operation has not confirmed quiescence''))"

definition topic_has_running_dispatch :: "db \<Rightarrow> int \<Rightarrow> bool" where
  "topic_has_running_dispatch db t \<longleftrightarrow>
     exists_row (\<lambda>d. td_topic_id d = t \<and> td_status d = Dispatch_running) (db_dispatches db)"

definition return_first :: state_error where
  "return_first = State_error ''return the local writer before changing session settings''"

definition require_control_snapshot :: "db \<Rightarrow> int \<Rightarrow> string option \<Rightarrow> state_error + unit" where
  "require_control_snapshot db t expected =
     attempt (control_quiet db t) (\<lambda>_.
       case expected of
         None \<Rightarrow> Inr ()
       | Some e \<Rightarrow>
           let current = active_row db t in
           attempt (check ((case current of None \<Rightarrow> [] | Some s \<Rightarrow> ss_session_id s) = e)
             (State_error ''active session changed; open controls again'')) (\<lambda>_.
           attempt (check (case current of None \<Rightarrow> True | Some s \<Rightarrow> ss_writer_mode s = Telegram_writer) return_first) (\<lambda>_.
           check (\<not> topic_has_running_dispatch db t \<and> \<not> topic_has_pending db t)
             (State_error ''provider work or retained result delivery blocks this change; inspect /status''))))"

definition active_lane_for_topic :: "db \<Rightarrow> int \<Rightarrow> lane option" where
  "active_lane_for_topic db t = find (\<lambda>l. wl_topic_id l = Some t \<and> wl_status l = Lane_active) (db_lanes db)"

text \<open>What a command saw when it was prepared, and its comparison with the present.\<close>

record transfer_snapshot =
  wt_topic :: topic_record
  wt_session :: session_record
  wt_lane :: "lane option"
  wt_allow_held :: bool

definition transfer_changed :: state_error where
  "transfer_changed = State_error ''writer transfer snapshot changed; retry the command''"

definition require_transfer :: "db \<Rightarrow> transfer_snapshot \<Rightarrow> state_error + unit" where
  "require_transfer db x =
     (let t = tr_topic_id (wt_topic x) in
      attempt (control_quiet db t) (\<lambda>_.
      attempt (check (sn_topic_id (wt_session x) = t) transfer_changed) (\<lambda>_.
      attempt (get_topic db t) (\<lambda>topic.
      attempt (check (topic = wt_topic x) transfer_changed) (\<lambda>_.
      attempt (get_session db (sn_session_id (wt_session x))) (\<lambda>s.
      check (s = wt_session x \<and> active_lane_for_topic db t = wt_lane x \<and> sn_status (wt_session x) = Active \<and>
          \<not> topic_has_running_dispatch db t \<and>
          \<not> (if wt_allow_held x then topic_has_unheld db t else topic_has_pending db t)) transfer_changed))))))"

definition writer_transfer_snapshot ::
  "topic_record \<Rightarrow> session_record \<Rightarrow> bool \<Rightarrow> db \<Rightarrow> (state_error, db, transfer_snapshot) outcome" where
  "writer_transfer_snapshot topic session allow_held = transact (\<lambda>db.
     let x = \<lparr>wt_topic = topic, wt_session = session, wt_lane = active_lane_for_topic db (tr_topic_id topic),
              wt_allow_held = allow_held\<rparr>
     in attempt (require_transfer db x) (\<lambda>_. Inr (x, db)))"


section \<open>Binding and ownership\<close>

definition bind_provider_session ::
  "string \<Rightarrow> string \<Rightarrow> string option \<Rightarrow> time \<Rightarrow> db \<Rightarrow> (state_error, db, session_record) outcome" where
  "bind_provider_session i thread terminal now db =
     (if py_strip thread = [] then (Inl (State_error ''provider session id is empty''), db)
      else commit_then (\<lambda>db.
        attempt (get_session db i) (\<lambda>prior.
        attempt (if sn_provider_session_id prior \<noteq> Some thread then control_quiet db (sn_topic_id prior) else Inr ()) (\<lambda>_.
        attempt (check (\<not> exists_row (\<lambda>g. og_session_id g = i \<and> og_provider_thread_id g \<noteq> thread) (db_origins db))
          (Integrity_error ''Codex origin requires the exact provider thread'')) (\<lambda>_.
        Inr ((), db\<lparr>db_sessions := update_where (\<lambda>s. ss_session_id s = i)
          (\<lambda>s. s\<lparr>ss_provider_session_id := Some thread, ss_terminal_name := terminal, ss_updated_at := now\<rparr>)
          (db_sessions db)\<rparr>))))) (\<lambda>_ db'. get_session db' i) db)"

text \<open>What may not be going on in a root when one of its sessions starts to write it from outside.\<close>

definition other_writer :: "db \<Rightarrow> string \<Rightarrow> string \<Rightarrow> bool" where
  "other_writer db i scope \<longleftrightarrow> exists_row (\<lambda>s. ss_session_id s \<noteq> i \<and> retained s \<and>
     ss_writer_mode s \<noteq> Telegram_writer \<and> in_scope db scope (ss_topic_id s)) (db_sessions db)"

definition scope_has_work :: "db \<Rightarrow> string \<Rightarrow> bool" where
  "scope_has_work db scope \<longleftrightarrow> exists_row (\<lambda>j. in_scope db scope (pj_topic_id j) \<and>
     (pj_status j \<in> set open_statuses \<and> \<not> result_ready_control_reconciled db j \<and> \<not> pending_hold db (pj_job_id j)
      \<or> uncertain db j)) (db_jobs db)"

definition scope_has_dispatch :: "db \<Rightarrow> string \<Rightarrow> bool" where
  "scope_has_dispatch db scope \<longleftrightarrow>
     exists_row (\<lambda>d. td_status d = Dispatch_running \<and> in_scope db scope (td_topic_id d)) (db_dispatches db)"

definition require_free_root :: "db \<Rightarrow> session_row \<Rightarrow> string \<Rightarrow> state_error + unit" where
  "require_free_root db s scope =
     attempt (control_quiet db (ss_topic_id s)) (\<lambda>_.
     check (\<not> other_writer db (ss_session_id s) scope \<and> \<not> scope_has_work db scope \<and> \<not> scope_has_dispatch db scope)
       (State_error ''execution root is owned by another writer''))"

definition session_with_scope :: "db \<Rightarrow> string \<Rightarrow> (session_row \<times> string) option" where
  "session_with_scope db i =
     (case session_of db i of
        None \<Rightarrow> None | Some s \<Rightarrow> map_option (\<lambda>scope. (s, scope)) (scope_of db (ss_topic_id s)))"

definition put_writer :: "string \<Rightarrow> writer_mode \<Rightarrow> time \<Rightarrow> db \<Rightarrow> db" where
  "put_writer i mode now db = db\<lparr>db_sessions := update_where (\<lambda>s. ss_session_id s = i)
     (\<lambda>s. s\<lparr>ss_writer_mode := mode, ss_updated_at := now\<rparr>) (db_sessions db)\<rparr>"

definition writer_mode_of :: "string \<Rightarrow> writer_mode option" where
  "writer_mode_of m =
     (if m = ''telegram'' then Some Telegram_writer else if m = ''local'' then Some Local_writer
      else if m = ''terminal'' then Some Terminal_writer else None)"

definition set_writer_tx ::
  "wording \<Rightarrow> (string \<Rightarrow> string) \<Rightarrow> time \<Rightarrow> string \<Rightarrow> writer_mode \<Rightarrow> transfer_snapshot option \<Rightarrow> db
   \<Rightarrow> state_error + unit \<times> db" where
  "set_writer_tx w ids now i mode transfer db =
     attempt (case transfer of
         None \<Rightarrow> Inr ()
       | Some x \<Rightarrow> if sn_session_id (wt_session x) \<noteq> i then Inl (State_error ''writer transfer session mismatch'')
                   else require_transfer db x) (\<lambda>_.
     case session_with_scope db i of
       None \<Rightarrow> Inl (unknown_session i)
     | Some (s, scope) \<Rightarrow>
         let leaves = (mode \<noteq> Telegram_writer \<and> ss_writer_mode s = Telegram_writer);
             comes_back = (mode = Telegram_writer \<and> ss_writer_mode s \<noteq> Telegram_writer)
         in attempt (if leaves then require_free_root db s scope else Inr ()) (\<lambda>_.
            attempt (if comes_back then hold_scope_before_return w ids now (ss_topic_id s) db else Inr db) (\<lambda>db1.
            let db2 = put_writer i mode now db1 in
            Inr ((), if comes_back then notice_released_scope w ids now i (ss_generation s) db2 else db2))))"

definition set_writer_mode ::
  "wording \<Rightarrow> (string \<Rightarrow> string) \<Rightarrow> time \<Rightarrow> string \<Rightarrow> string \<Rightarrow> transfer_snapshot option \<Rightarrow> db
   \<Rightarrow> (state_error, db, session_record) outcome" where
  "set_writer_mode w ids now i m transfer db =
     (case writer_mode_of m of
        None \<Rightarrow> (Inl (State_error ''invalid writer mode''), db)
      | Some mode \<Rightarrow> commit_then (set_writer_tx w ids now i mode transfer) (\<lambda>_ db'. get_session db' i) db)"

text \<open>\<open>activate\<close> of \<open>session_adoption_state.py\<close>: the first message after the return opens an adopted session.\<close>

definition origin_of :: "db \<Rightarrow> string \<Rightarrow> session_origin option" where
  "origin_of db i = find (\<lambda>o'. og_session_id o' = i) (db_origins db)"

definition last_excerpt :: "db \<Rightarrow> int \<Rightarrow> int" where
  "last_excerpt db t = (case map tx_turn_id (filter (\<lambda>x. tx_topic_id x = t) (db_excerpts db)) of
     [] \<Rightarrow> 0 | n # ns \<Rightarrow> fold max ns n)"

definition activate_origin :: "string \<Rightarrow> int \<Rightarrow> int \<Rightarrow> db \<Rightarrow> db" where
  "activate_origin i message t db =
     (case origin_of db i of
        None \<Rightarrow> db
      | Some o' \<Rightarrow> if og_activation_message_id o' \<noteq> None then db
          else db\<lparr>db_origins := update_where (\<lambda>x. og_session_id x = i)
            (\<lambda>x. x\<lparr>og_activation_message_id := Some message, og_context_floor_turn_id := last_excerpt db t\<rparr>)
            (db_origins db)\<rparr>)"

definition returnable :: "db \<Rightarrow> int \<Rightarrow> string \<Rightarrow> state_error + session_row" where
  "returnable db t i =
     (let changed = Inl (State_error ''Codex local writer state changed during return'') in
      case session_of db i of
        None \<Rightarrow> changed
      | Some s \<Rightarrow> if ss_topic_id s = t \<and> ss_agent_id s = ''codex'' \<and> ss_status s = Active \<and>
                    ss_writer_mode s = Local_writer then Inr s else changed)"

definition return_local_tx ::
  "wording \<Rightarrow> (string \<Rightarrow> string) \<Rightarrow> time \<Rightarrow> int \<Rightarrow> int \<Rightarrow> int \<Rightarrow> string \<Rightarrow> db \<Rightarrow> state_error + bool \<times> db" where
  "return_local_tx w ids now chat message t i db =
     (if (chat, message) \<in> set (db_observed db) then attempt (get_session db i) (\<lambda>_. Inr (False, db))
      else
        attempt (check (case topic_of db t of None \<Rightarrow> False | Some r \<Rightarrow> tp_chat_id r = chat)
          (State_error ''Codex return does not match topic'')) (\<lambda>_.
        attempt (returnable db t i) (\<lambda>s.
        attempt (hold_scope_before_return w ids now t db) (\<lambda>db1.
        attempt (check (\<not> topic_has_running_dispatch db t \<and> \<not> topic_has_unheld db1 t)
          (State_error ''provider work is already pending for this topic'')) (\<lambda>_.
        let db2 = notice_released_scope w ids now i (ss_generation s)
                    (activate_origin i message t (put_writer i Telegram_writer now db1))
        in Inr (True, db2\<lparr>db_observed := db_observed db2 @ [(chat, message)]\<rparr>))))))"

definition return_codex_local_writer ::
  "wording \<Rightarrow> (string \<Rightarrow> string) \<Rightarrow> time \<Rightarrow> int \<Rightarrow> int \<Rightarrow> int \<Rightarrow> string \<Rightarrow> string \<Rightarrow> db
   \<Rightarrow> (state_error, db, session_record \<times> bool) outcome" where
  "return_codex_local_writer w ids now chat message t i observer db =
     (case bounded observer ''observer agent id'' 64 of
        Inl e \<Rightarrow> (Inl e, db)
      | Inr _ \<Rightarrow>
          if chat = 0 \<or> message \<le> 0 then (Inl (State_error ''invalid Telegram message identity''), db)
          else commit_then (return_local_tx w ids now chat message t i)
            (\<lambda>done' db'. attempt (get_session db' i) (\<lambda>s. Inr (s, done'))) db)"

section \<open>Context and contract\<close>

definition set_context_remaining :: "string \<Rightarrow> int option \<Rightarrow> time \<Rightarrow> db \<Rightarrow> (state_error, db, session_record) outcome" where
  "set_context_remaining i percent now db =
     commit_then (\<lambda>db. Inr ((), db\<lparr>db_sessions := update_where (\<lambda>s. ss_session_id s = i)
       (\<lambda>s. s\<lparr>ss_context_remaining_percent := map_option (\<lambda>p. max 0 (min 10000 p)) percent, ss_updated_at := now\<rparr>)
       (db_sessions db)\<rparr>)) (\<lambda>_ db'. get_session db' i) db"

definition contract_key :: "string \<Rightarrow> string" where
  "contract_key i = ''telegram-contract:'' @ i"

definition acknowledged_version :: "db \<Rightarrow> string \<Rightarrow> int" where
  "acknowledged_version db i =
     (case find (\<lambda>k. rk_checkpoint_key k = contract_key i) (db_runtime_checkpoints db) of
        None \<Rightarrow> 0 | Some k \<Rightarrow> max 0 (rk_integer_value k))"

definition telegram_contract_version :: "db \<Rightarrow> string \<Rightarrow> state_error + int" where
  "telegram_contract_version db i = attempt (get_session db i) (\<lambda>_. Inr (acknowledged_version db i))"

record contract_provenance =
  ct_session_id :: string
  ct_agent_id :: string
  ct_status :: session_status
  ct_provider_bound :: bool
  ct_acknowledged_version :: int

definition telegram_contract_provenance :: "db \<Rightarrow> int \<Rightarrow> state_error + contract_provenance list" where
  "telegram_contract_provenance db limit =
     (if limit < 1 \<or> 100 < limit then Inl (Value_error ''contract provenance limit must be between 1 and 100'')
      else Inr (map (\<lambda>s. \<lparr>ct_session_id = ss_session_id s, ct_agent_id = ss_agent_id s, ct_status = ss_status s,
          ct_provider_bound = (ss_provider_session_id s \<noteq> None),
          ct_acknowledged_version = acknowledged_version db (ss_session_id s)\<rparr>)
        (take (nat limit) (sort_key (\<lambda>s. (ss_topic_id s, if ss_status s = Active then 0 else 1 :: int,
            ss_agent_id s, ss_session_id s)) (filter retained (db_sessions db))))))"

definition acknowledge_telegram_contract ::
  "string \<Rightarrow> int \<Rightarrow> time \<Rightarrow> db \<Rightarrow> (state_error, db, unit) outcome" where
  "acknowledge_telegram_contract i version now db =
     (if version \<le> 0 then (Inl (State_error ''Telegram contract version must be positive''), db)
      else case get_session db i of
        Inl e \<Rightarrow> (Inl e, db)
      | Inr _ \<Rightarrow> (Inr (), db\<lparr>db_runtime_checkpoints := upsert_row rk_checkpoint_key
          (\<lambda>k. k\<lparr>rk_integer_value := max (rk_integer_value k) version, rk_updated_at := now\<rparr>)
          \<lparr>rk_checkpoint_key = contract_key i, rk_integer_value = version, rk_updated_at = now\<rparr>
          (db_runtime_checkpoints db)\<rparr>))"

section \<open>Choosing and replacing the session of a topic\<close>

definition put_active_agent :: "int \<Rightarrow> string \<Rightarrow> time \<Rightarrow> db \<Rightarrow> db" where
  "put_active_agent t agent now db = db\<lparr>db_topics := update_where (\<lambda>r. tp_topic_id r = t)
     (\<lambda>r. r\<lparr>tp_active_agent_id := Some agent, tp_updated_at := now\<rparr>) (db_topics db)\<rparr>"

definition raise_session ::
  "string \<Rightarrow> int \<Rightarrow> string \<Rightarrow> string \<Rightarrow> string \<Rightarrow> bool \<Rightarrow> state_error + string option \<Rightarrow> time \<Rightarrow> session_row option \<Rightarrow> db
   \<Rightarrow> state_error + string \<times> db" where
  "raise_session fresh t agent model effort control_only profile now target db =
     (case target of
        Some s \<Rightarrow>
          attempt (check (ss_writer_mode s = Telegram_writer \<or> control_only) return_first) (\<lambda>_.
          attempt (if control_only then Inr () else require_codex_selection profile s) (\<lambda>_.
          attempt (set_status (ss_session_id s) Active now db) (\<lambda>db'. Inr (ss_session_id s, db'))))
      | None \<Rightarrow> attempt (insert_session fresh t agent model effort Active profile now db) (\<lambda>db'. Inr (fresh, db')))"

definition activate_tx ::
  "string \<Rightarrow> int \<Rightarrow> string \<Rightarrow> string \<Rightarrow> string \<Rightarrow> string option \<Rightarrow> bool \<Rightarrow> state_error + string option \<Rightarrow> time \<Rightarrow> db
   \<Rightarrow> state_error + string \<times> db" where
  "activate_tx fresh t agent model effort expected control_only profile now db =
     attempt (check (\<not> (control_only \<and> expected = None))
       (State_error ''control activation requires an explicit session snapshot'')) (\<lambda>_.
     attempt (selected_for profile agent) (\<lambda>_.
     attempt (require_control_snapshot db t expected) (\<lambda>_.
     attempt (case active_row db t of
         Some c \<Rightarrow>
           if ss_agent_id c = agent
           then attempt (if control_only then Inr () else require_codex_selection profile c) (\<lambda>_.
                Inr (ss_session_id c, db))
           else attempt (set_status (ss_session_id c) Satellite now db)
                  (raise_session fresh t agent model effort control_only profile now (satellite_row db t agent))
       | None \<Rightarrow> raise_session fresh t agent model effort control_only profile now (satellite_row db t agent) db)
     (\<lambda>(i, db'). Inr (i, put_active_agent t agent now db')))))"

definition activate_agent ::
  "string \<Rightarrow> int \<Rightarrow> string \<Rightarrow> string \<Rightarrow> string \<Rightarrow> string option \<Rightarrow> bool \<Rightarrow> state_error + string option \<Rightarrow> time \<Rightarrow> db
   \<Rightarrow> (state_error, db, session_record) outcome" where
  "activate_agent fresh t agent model effort expected control_only profile now db =
     (case get_topic db t of
        Inl e \<Rightarrow> (Inl e, db)
      | Inr _ \<Rightarrow> commit_then (activate_tx fresh t agent model effort expected control_only profile now)
          (\<lambda>i db'. get_session db' i) db)"

definition ensure_satellite ::
  "string \<Rightarrow> int \<Rightarrow> string \<Rightarrow> string \<Rightarrow> string \<Rightarrow> state_error + string option \<Rightarrow> time \<Rightarrow> db
   \<Rightarrow> (state_error, db, session_record) outcome" where
  "ensure_satellite fresh t agent model effort profile now db =
     (let known = (\<lambda>s. attempt (require_codex_selection profile s) (\<lambda>_. Inr (session_record_of s))) in
      case get_topic db t of
        Inl e \<Rightarrow> (Inl e, db)
      | Inr topic \<Rightarrow>
          if tr_active_agent_id topic = Some agent
          then (case active_row db t of
                  None \<Rightarrow> (Inl (State_error ''topic has active agent but no active session''), db)
                | Some s \<Rightarrow> (known s, db))
          else (case satellite_row db t agent of
                  Some s \<Rightarrow> (known s, db)
                | None \<Rightarrow> commit_then (\<lambda>db. attempt (insert_session fresh t agent model effort Satellite profile now db)
                    (\<lambda>db'. Inr (fresh, db'))) (\<lambda>i db'. get_session db' i) db))"

definition settable :: "db \<Rightarrow> int \<Rightarrow> string option \<Rightarrow> state_error + session_row" where
  "settable db t expected =
     attempt (require_control_snapshot db t expected) (\<lambda>_.
     case active_row db t of
       None \<Rightarrow> Inl (State_error ''topic has no active session'')
     | Some s \<Rightarrow> attempt (check (ss_writer_mode s = Telegram_writer) return_first) (\<lambda>_. Inr s))"

definition replace_with ::
  "string \<Rightarrow> session_row \<Rightarrow> string \<Rightarrow> string \<Rightarrow> state_error + string option \<Rightarrow> time \<Rightarrow> db \<Rightarrow> state_error + string \<times> db" where
  "replace_with fresh previous model effort profile now db =
     attempt (set_status (ss_session_id previous) Archived now db) (\<lambda>db1.
     attempt (insert_session fresh (ss_topic_id previous) (ss_agent_id previous) model effort Active profile now db1)
       (\<lambda>db2. Inr (fresh, db2)))"

definition new_active_session ::
  "string \<Rightarrow> int \<Rightarrow> string option \<Rightarrow> state_error + string option \<Rightarrow> time \<Rightarrow> db
   \<Rightarrow> (state_error, db, session_record) outcome" where
  "new_active_session fresh t expected profile now =
     commit_then (\<lambda>db. attempt (settable db t expected) (\<lambda>previous.
         replace_with fresh previous (ss_model previous) (ss_effort previous) profile now db))
       (\<lambda>i db'. get_session db' i)"

definition replace_tx ::
  "string \<Rightarrow> int \<Rightarrow> string \<Rightarrow> string \<Rightarrow> string option \<Rightarrow> bool \<Rightarrow> state_error + string option \<Rightarrow> time \<Rightarrow> db
   \<Rightarrow> state_error + string \<times> db" where
  "replace_tx fresh t model effort expected claude profile now db =
     attempt (check (\<not> (claude \<and> expected = None))
       (State_error ''Claude settings require an explicit session snapshot'')) (\<lambda>_.
     attempt (settable db t expected) (\<lambda>previous.
     attempt (require_codex_selection profile previous) (\<lambda>_.
     if claude \<or> origin_of db (ss_session_id previous) \<noteq> None
     then attempt (bounded model ''model'' 200) (\<lambda>m. attempt (bounded effort ''effort'' 64) (\<lambda>f.
       Inr (ss_session_id previous, db\<lparr>db_sessions := update_where (\<lambda>s. ss_session_id s = ss_session_id previous)
         (\<lambda>s. s\<lparr>ss_model := m, ss_effort := f, ss_updated_at := now\<rparr>) (db_sessions db)\<rparr>)))
     else replace_with fresh previous model effort profile now db)))"

definition replace_active_session ::
  "string \<Rightarrow> int \<Rightarrow> string \<Rightarrow> string \<Rightarrow> string option \<Rightarrow> string option \<Rightarrow> state_error + string option \<Rightarrow> time \<Rightarrow> db
   \<Rightarrow> (state_error, db, session_record) outcome" where
  "replace_active_session fresh t model effort expected runtime profile now =
     commit_then (replace_tx fresh t model effort expected (runtime = Some ''claude'') profile now)
       (\<lambda>i db'. get_session db' i)"

end
