(* ===== verification/Incoming_Materials.thy ===== *)
theory Incoming_Materials
  imports Session_State Job_Commit
begin

text \<open>
  The materials that arrive with a Telegram message (\<open>state_incoming_materials.py\<close>, the limits of
  \<open>incoming_materials.py\<close>, \<open>record_forwarded_quote\<close> of \<open>state.py\<close>): they are stored under the job
  they were admitted with, or wait, when they were forwarded, for the next job of their session.
  \<open>clean\<close> removes the files of refused drafts below the state path (\<open>None\<close>: the hub has no such
  path); \<open>fresh\<close> gives the identifiers of new rows.
\<close>

section \<open>Drafts and their limits\<close>

record material_draft =
  md_attachment_index :: int
  md_media_group_id :: "string option"
  md_kind :: string
  md_content_kind :: "string option"
  md_file_unique_id :: "string option"
  md_display_name :: string
  md_mime_type :: "string option"
  md_declared_size :: "int option"
  md_storage_path :: "string option"
  md_byte_size :: "int option"
  md_sha256 :: "string option"
  md_status :: string
  md_unavailable_code :: "string option"
  md_unavailable_detail :: "string option"

definition MAX_INCOMING_MATERIALS_PER_JOB :: int where "MAX_INCOMING_MATERIALS_PER_JOB = 10"
definition MAX_INCOMING_JOB_BYTES :: int where "MAX_INCOMING_JOB_BYTES = 80 * 1024 * 1024"

definition refuse_draft :: "string \<Rightarrow> string \<Rightarrow> material_draft \<Rightarrow> material_draft" where
  "refuse_draft code detail d = d\<lparr>md_content_kind := None, md_storage_path := None, md_byte_size := None,
     md_sha256 := None, md_status := ''unavailable'', md_unavailable_code := Some code,
     md_unavailable_detail := Some detail\<rparr>"

definition size_or_0 :: "int option \<Rightarrow> int" where
  "size_or_0 x = (case x of None \<Rightarrow> 0 | Some n \<Rightarrow> n)"

fun bound_material_drafts :: "material_draft list \<Rightarrow> int \<Rightarrow> int \<Rightarrow> material_draft list" where
  "bound_material_drafts [] n used = []"
| "bound_material_drafts (d # ds) n used =
     (if MAX_INCOMING_MATERIALS_PER_JOB \<le> n
      then refuse_draft ''material_count_limit'' ''album or burst exceeds 10 material parts'' d
           # bound_material_drafts ds n used
      else let grown = used + size_or_0 (md_byte_size d) in
        if md_status d = ''stored'' \<and> MAX_INCOMING_JOB_BYTES < grown
        then refuse_draft ''material_aggregate_limit'' ''album or burst exceeds the 80 MB aggregate limit'' d
             # bound_material_drafts ds (n + 1) used
        else d # bound_material_drafts ds (n + 1) grown)"

definition hex_digit :: "char \<Rightarrow> bool" where
  "hex_digit c \<longleftrightarrow> digit_char c \<or> (97 \<le> (of_char c :: nat) \<and> (of_char c :: nat) \<le> 102)"

definition sha256_hex :: "string \<Rightarrow> bool" where
  "sha256_hex s \<longleftrightarrow> length s = 64 \<and> list_all hex_digit s"

definition draft_status :: "material_draft \<Rightarrow> state_error + material_status" where
  "draft_status d =
     (if md_status d = ''stored''
      then attempt (check ((md_content_kind d = Some ''text'' \<or> md_content_kind d = Some ''image'') \<and>
             md_storage_path d \<noteq> None \<and> md_byte_size d \<noteq> None \<and>
             (case md_sha256 d of None \<Rightarrow> False | Some h \<Rightarrow> sha256_hex h))
           (State_error ''stored material metadata is incomplete'')) (\<lambda>_. Inr Stored)
      else if md_status d = ''unavailable''
      then attempt (check (md_unavailable_code d \<noteq> None \<and> md_unavailable_detail d \<noteq> None)
           (State_error ''unavailable material has no bounded reason'')) (\<lambda>_. Inr Unavailable)
      else Inl (State_error ''invalid incoming material status''))"

definition valid_draft :: "material_draft \<Rightarrow> state_error + material_draft \<times> material_status" where
  "valid_draft d =
     attempt (bounded (md_display_name d) ''material display name'' 128) (\<lambda>name.
     attempt (bounded (md_kind d) ''material kind'' 32) (\<lambda>kind.
     attempt (optional_bounded (md_media_group_id d) ''media group id'' 256) (\<lambda>group.
     attempt (optional_bounded (md_file_unique_id d) ''Telegram file unique id'' 512) (\<lambda>unique.
     attempt (optional_bounded (md_mime_type d) ''material MIME type'' 256) (\<lambda>mime.
     attempt (optional_bounded (md_unavailable_code d) ''material error code'' 64) (\<lambda>code.
     attempt (optional_bounded (md_unavailable_detail d) ''material error detail'' 500) (\<lambda>detail.
     attempt (optional_bounded (md_storage_path d) ''material storage path'' 4096) (\<lambda>path.
     let v = d\<lparr>md_display_name := name, md_kind := kind, md_media_group_id := group, md_file_unique_id := unique,
               md_mime_type := mime, md_unavailable_code := code, md_unavailable_detail := detail,
               md_storage_path := path\<rparr>
     in attempt (draft_status v) (\<lambda>st. Inr (v, st))))))))))"

section \<open>The table\<close>

text \<open>The checks of the table that the code above has not made already.\<close>

definition material_row_ok :: "incoming_material \<Rightarrow> bool" where
  "material_row_ok m \<longleftrightarrow>
     bounded_length 128 (Some (im_project_id m)) \<and> bounded_length 4096 (Some (im_execution_scope m)) \<and>
     im_chat_id m \<noteq> 0 \<and> 0 < im_message_id m \<and> 0 < im_attachment_index m \<and>
     im_origin m \<in> {''topic'', ''direct'', ''forward''} \<and>
     (case im_declared_size m of None \<Rightarrow> True | Some n \<Rightarrow> 0 \<le> n) \<and>
     (case im_byte_size m of None \<Rightarrow> True | Some n \<Rightarrow> 0 \<le> n) \<and>
     (im_agent_id m = None \<and> im_session_id m = None \<and> im_session_generation m = None \<or>
      bounded_length 64 (im_agent_id m) \<and> im_session_id m \<noteq> None \<and>
        (case im_session_generation m of None \<Rightarrow> False | Some g \<Rightarrow> 0 < g)) \<and>
     (if im_status m = Unavailable
      then im_content_kind m = None \<and> im_storage_path m = None \<and> im_byte_size m = None \<and> im_sha256 m = None \<and>
        im_unavailable_code m \<noteq> None \<and> im_unavailable_detail m \<noteq> None
      else im_content_kind m \<noteq> None \<and> im_storage_path m \<noteq> None \<and> im_byte_size m \<noteq> None \<and> im_sha256 m \<noteq> None \<and>
        im_unavailable_code m = None \<and> im_unavailable_detail m = None) \<and>
     (im_status m = Consumed \<longleftrightarrow> im_consumed_at m \<noteq> None)"

definition put_material :: "incoming_material \<Rightarrow> db \<Rightarrow> state_error + db" where
  "put_material m db =
     (if material_row_ok m \<and>
         \<not> exists_row (\<lambda>x. im_material_id x = im_material_id m \<or>
             im_chat_id x = im_chat_id m \<and> im_message_id x = im_message_id m \<and>
             im_attachment_index x = im_attachment_index m) (db_materials db) \<and>
         (case im_session_id m of None \<Rightarrow> True | Some s \<Rightarrow> session_of db s \<noteq> None) \<and>
         (case im_job_id m of None \<Rightarrow> True | Some j \<Rightarrow> job_of db j \<noteq> None)
      then Inr (db\<lparr>db_materials := db_materials db @ [m]\<rparr>)
      else Inl (Integrity_error ''incoming_materials''))"

text \<open>\<open>topic["execution_scope"] or f"project:..."\<close>: an empty scope counts as none.\<close>

definition material_scope :: "topic_row \<Rightarrow> string" where
  "material_scope t = (case tp_execution_scope t of
     None \<Rightarrow> ''project:'' @ tp_project_id t
   | Some s \<Rightarrow> if s = [] then ''project:'' @ tp_project_id t else s)"

text \<open>Whose materials they are: the job or none, the topic, the message and the session.\<close>

record material_owner =
  mo_job_id :: "string option"
  mo_topic_id :: int
  mo_chat_id :: int
  mo_message_id :: int
  mo_agent_id :: "string option"
  mo_session_id :: "string option"
  mo_session_generation :: "int option"

definition new_material ::
  "material_owner \<Rightarrow> topic_row \<Rightarrow> string \<Rightarrow> material_draft \<Rightarrow> material_status \<Rightarrow> string \<Rightarrow> time \<Rightarrow> incoming_material" where
  "new_material w t origin d st i now =
     \<lparr>im_material_id = i, im_job_id = mo_job_id w, im_topic_id = mo_topic_id w, im_project_id = tp_project_id t,
      im_execution_scope = material_scope t, im_agent_id = mo_agent_id w, im_session_id = mo_session_id w,
      im_session_generation = mo_session_generation w, im_chat_id = mo_chat_id w, im_message_id = mo_message_id w,
      im_attachment_index = md_attachment_index d, im_media_group_id = md_media_group_id d, im_origin = origin,
      im_kind = md_kind d, im_content_kind = md_content_kind d, im_file_unique_id = md_file_unique_id d,
      im_display_name = md_display_name d, im_mime_type = md_mime_type d, im_declared_size = md_declared_size d,
      im_storage_path = md_storage_path d, im_byte_size = md_byte_size d, im_sha256 = md_sha256 d, im_status = st,
      im_unavailable_code = md_unavailable_code d, im_unavailable_detail = md_unavailable_detail d,
      im_created_at = now, im_consumed_at = None\<rparr>"

text \<open>The rows an insertion is counted with: those of the job, or those that wait for the session.\<close>

definition beside :: "material_owner \<Rightarrow> db \<Rightarrow> incoming_material list" where
  "beside w db = filter (\<lambda>m. case mo_job_id w of
       Some i \<Rightarrow> im_job_id m = Some i
     | None \<Rightarrow> im_job_id m = None \<and> im_topic_id m = mo_topic_id w \<and> im_session_id m = mo_session_id w \<and>
         im_session_generation m = mo_session_generation w) (db_materials db)"

definition total_bytes :: "incoming_material list \<Rightarrow> int" where
  "total_bytes ms = sum_list (map (\<lambda>m. size_or_0 (im_byte_size m)) ms)"

type_synonym cleaner = "(material_draft list \<Rightarrow> material_draft list \<Rightarrow> state_error + unit) option"

definition loses_file :: "material_draft list \<Rightarrow> material_draft list \<Rightarrow> bool" where
  "loses_file ds bs \<longleftrightarrow> list_ex (\<lambda>(d, b). md_storage_path d \<noteq> None \<and> md_storage_path b = None) (zip ds bs)"

definition insert_draft ::
  "material_owner \<Rightarrow> topic_row \<Rightarrow> string \<Rightarrow> time \<Rightarrow> string \<times> material_draft \<Rightarrow> db \<Rightarrow> state_error + db" where
  "insert_draft w t origin now x db =
     attempt (valid_draft (snd x)) (\<lambda>(d, st). put_material (new_material w t origin d st (fst x) now) db)"

definition insert_materials ::
  "cleaner \<Rightarrow> (nat \<Rightarrow> string) \<Rightarrow> material_owner \<Rightarrow> material_draft list \<Rightarrow> time \<Rightarrow> string option \<Rightarrow> db \<Rightarrow> state_error + db" where
  "insert_materials clean fresh w drafts now origin db =
     (if drafts = [] then Inr db
      else case topic_of db (mo_topic_id w) of
        None \<Rightarrow> Inl (State_error (''unknown topic_id: '' @ decimal_int (mo_topic_id w)))
      | Some t \<Rightarrow>
          let rows = beside w db;
              kept = bound_material_drafts drafts (int (length rows)) (total_bytes rows);
              source = (case origin of
                 Some o' \<Rightarrow> if o' = [] then (if 0 < mo_chat_id w then ''direct'' else ''topic'') else o'
               | None \<Rightarrow> if 0 < mo_chat_id w then ''direct'' else ''topic'')
          in attempt (if loses_file drafts kept
                 then (case clean of
                     None \<Rightarrow> Inl (State_error ''incoming material cleanup requires a state path'')
                   | Some f \<Rightarrow> f drafts kept)
                 else Inr ()) (\<lambda>_.
             each_row (insert_draft w t source now) (zip (map fresh [0..<length kept]) kept) db))"

section \<open>The materials of a job\<close>

definition attach_forwarded :: "string \<Rightarrow> int \<Rightarrow> string \<Rightarrow> string \<Rightarrow> int \<Rightarrow> db \<Rightarrow> state_error + db" where
  "attach_forwarded i t agent session generation db =
     (case topic_of db t of
        None \<Rightarrow> Inl (State_error (''unknown topic_id: '' @ decimal_int t))
      | Some r \<Rightarrow> Inr (db\<lparr>db_materials := update_where
          (\<lambda>m. im_job_id m = None \<and> im_topic_id m = t \<and> im_project_id m = tp_project_id r \<and>
             im_execution_scope m = material_scope r \<and> im_agent_id m = Some agent \<and>
             im_session_id m = Some session \<and> im_session_generation m = Some generation)
          (\<lambda>m. m\<lparr>im_job_id := Some i\<rparr>) (db_materials db)\<rparr>))"

text \<open>Whether a material belongs where its job is now.\<close>

definition bound_to :: "provider_job \<Rightarrow> topic_row \<Rightarrow> incoming_material \<Rightarrow> bool" where
  "bound_to j t m \<longleftrightarrow> im_topic_id m = pj_topic_id j \<and> im_project_id m = tp_project_id t \<and>
     im_execution_scope m = material_scope t \<and> im_agent_id m = Some (pj_agent_id j) \<and>
     im_session_id m = Some (pj_session_id j) \<and> im_session_generation m = Some (pj_session_generation j) \<and>
     im_chat_id m = pj_chat_id j"

definition part_of :: "db \<Rightarrow> string \<Rightarrow> incoming_material \<Rightarrow> int" where
  "part_of db i m = (case find (\<lambda>p. ji_job_id p = i \<and> ji_chat_id p = im_chat_id m \<and>
     ji_message_id p = im_message_id m) (db_inputs db) of None \<Rightarrow> 1 | Some p \<Rightarrow> ji_part_index p)"

definition materials_for_job :: "db \<Rightarrow> string \<Rightarrow> state_error + incoming_material list" where
  "materials_for_job db i =
     (case job_of db i of
        None \<Rightarrow> Inl (State_error (''unknown provider job: '' @ i))
      | Some j \<Rightarrow> (case topic_of db (pj_topic_id j) of
          None \<Rightarrow> Inl (State_error (''unknown provider job: '' @ i))
        | Some t \<Rightarrow>
            let rows = sort_key (\<lambda>m. (part_of db i m, im_attachment_index m))
                  (filter (\<lambda>m. im_job_id m = Some i) (db_materials db))
            in attempt (check (list_all (bound_to j t) rows) (Material_error ''incoming material binding changed''))
                 (\<lambda>_. Inr rows)))"

definition pending_materials :: "db \<Rightarrow> int \<Rightarrow> incoming_material list" where
  "pending_materials db t = sort_key (\<lambda>m. (im_created_at m, im_message_id m, im_attachment_index m))
     (filter (\<lambda>m. im_topic_id m = t \<and> im_job_id m = None) (db_materials db))"

definition material_ids :: "string list \<Rightarrow> state_error + string list" where
  "material_ids = collect (\<lambda>i. bounded i ''incoming material id'' 128)"

definition delete_pending :: "int \<Rightarrow> string list \<Rightarrow> db \<Rightarrow> (state_error, db, nat) outcome" where
  "delete_pending t ids db =
     (let gone = (\<lambda>is m. im_topic_id m = t \<and> im_job_id m = None \<and> im_material_id m \<in> set is) in
      case material_ids ids of
        Inl e \<Rightarrow> (Inl e, db)
      | Inr is \<Rightarrow> (Inr (count_where (gone is) (db_materials db)),
          db\<lparr>db_materials := filter (\<lambda>m. \<not> gone is m) (db_materials db)\<rparr>))"

definition stored_for_terminal_jobs :: "db \<Rightarrow> int \<Rightarrow> incoming_material list" where
  "stored_for_terminal_jobs db t = sort_key (\<lambda>m. (im_created_at m, im_message_id m, im_attachment_index m))
     (filter (\<lambda>m. im_topic_id m = t \<and> im_status m \<in> {Stored, Consumed} \<and>
        exists_row (\<lambda>j. im_job_id m = Some (pj_job_id j) \<and>
          pj_status j \<in> {Result_ready, Completed, Failed, Cancelled}) (db_jobs db)) (db_materials db))"

definition mark_discarded :: "string list \<Rightarrow> string \<Rightarrow> string \<Rightarrow> db \<Rightarrow> (state_error, db, nat) outcome" where
  "mark_discarded ids code detail db =
     (let hit = (\<lambda>is m. im_status m = Stored \<and> im_material_id m \<in> set is) in
      case material_ids ids of
        Inl e \<Rightarrow> (Inl e, db)
      | Inr is \<Rightarrow>
          if is = [] then (Inr 0, db)
          else case attempt (bounded code ''material error code'' 64) (\<lambda>c.
                 attempt (bounded detail ''material error detail'' 500) (\<lambda>d. Inr (c, d))) of
            Inl e \<Rightarrow> (Inl e, db)
          | Inr (c, d) \<Rightarrow> (Inr (count_where (hit is) (db_materials db)),
              db\<lparr>db_materials := update_where (hit is)
                (\<lambda>m. m\<lparr>im_status := Unavailable, im_content_kind := None, im_storage_path := None,
                       im_byte_size := None, im_sha256 := None, im_unavailable_code := Some c,
                       im_unavailable_detail := Some d, im_consumed_at := None\<rparr>) (db_materials db)\<rparr>))"

section \<open>Forwarded messages\<close>

definition quote_turn :: "int \<Rightarrow> string \<Rightarrow> int \<Rightarrow> time \<Rightarrow> db \<Rightarrow> db" where
  "quote_turn t quote message now db = db\<lparr>db_excerpt_sequence := next_turn_id db,
     db_excerpts := db_excerpts db @ [\<lparr>tx_turn_id = next_turn_id db, tx_topic_id = t, tx_agent_id = ''forwarded-quote'',
       tx_provider_session_id = Some [], tx_model = Some ''quoted-context'', tx_provider = Some ''telegram'',
       tx_user_excerpt = ''Forwarded message'', tx_response_excerpt = quote, tx_created_at = now,
       tx_source_message_id = Some message\<rparr>]\<rparr>"

definition forward_owner :: "int \<Rightarrow> int \<Rightarrow> int \<Rightarrow> session_record option \<Rightarrow> material_owner" where
  "forward_owner t chat message session = \<lparr>mo_job_id = None, mo_topic_id = t, mo_chat_id = chat, mo_message_id = message,
     mo_agent_id = map_option sn_agent_id session, mo_session_id = map_option sn_session_id session,
     mo_session_generation = map_option sn_generation session\<rparr>"

definition quote_tx ::
  "cleaner \<Rightarrow> (nat \<Rightarrow> string) \<Rightarrow> time \<Rightarrow> int \<Rightarrow> int \<Rightarrow> int \<Rightarrow> string \<Rightarrow> material_draft list \<Rightarrow> session_record option \<Rightarrow> db
   \<Rightarrow> state_error + bool \<times> db" where
  "quote_tx clean fresh now t chat message quote drafts session db =
     (if (chat, message) \<in> set (db_observed db) then Inl (Integrity_error ''observed_messages'')
      else attempt (insert_materials clean fresh (forward_owner t chat message session) drafts now (Some ''forward'')
             (quote_turn t quote message now (db\<lparr>db_observed := db_observed db @ [(chat, message)]\<rparr>)))
           (\<lambda>db'. Inr (True, trim_turns t db')))"

definition record_forwarded_quote ::
  "cleaner \<Rightarrow> (nat \<Rightarrow> string) \<Rightarrow> time \<Rightarrow> int \<Rightarrow> int \<Rightarrow> int \<Rightarrow> string \<Rightarrow> string \<Rightarrow> material_draft list
   \<Rightarrow> session_record option \<Rightarrow> db \<Rightarrow> (state_error, db, bool) outcome" where
  "record_forwarded_quote clean fresh now t chat message observer body drafts session db =
     (case attempt (bounded (if body = [] then ''Forwarded Telegram material.'' else body) ''forwarded quote'' 4000) (\<lambda>quote.
           attempt (bounded observer ''observer agent id'' 64) (\<lambda>_.
           attempt (get_topic db t) (\<lambda>topic.
           attempt (check (tr_chat_id topic = chat \<and> 0 < message) (State_error ''forwarded quote does not match topic'')) (\<lambda>_.
           attempt (check (case session of None \<Rightarrow> True
               | Some s \<Rightarrow> sn_topic_id s = t \<and> sn_status s \<in> {Active, Satellite})
             (State_error ''forwarded material session does not match topic'')) (\<lambda>_. Inr quote))))) of
        Inl e \<Rightarrow> (Inl e, db)
      | Inr quote \<Rightarrow>
          (case quote_tx clean fresh now t chat message quote drafts session db of
             Inr (r, db') \<Rightarrow> (Inr r, db')
           | Inl (Integrity_error m) \<Rightarrow>
               if (chat, message) \<in> set (db_observed db) then (Inr False, db) else (Inl (Integrity_error m), db)
           | Inl e \<Rightarrow> (Inl e, db)))"

end
