(* ===== verification/Provider_Admission.thy ===== *)
theory Provider_Admission
  imports Incoming_Materials Stop_State
begin

text \<open>
  Admission of Telegram inputs to the queue (\<open>provider_admission_state.py\<close>, and
  \<open>enqueue_provider_job\<close>, \<open>enqueue_or_append_provider_job\<close> and \<open>hold_queued_input_group\<close> of
  \<open>state.py\<close>; \<open>require_admission\<close> of \<open>session_adoption_state.py\<close>; the provenance of
  \<open>telegram_turn_provenance.py\<close>). Identifiers of new rows, the clock readings, the selected
  permission profile and the removal of files are arguments.
\<close>

section \<open>What is admitted\<close>

record input_draft =
  in_idempotency_key :: string
  in_chat_id :: int
  in_message_id :: int
  in_topic_id :: int
  in_agent_id :: string
  in_session_id :: string
  in_session_generation :: int
  in_model :: string
  in_effort :: string
  in_payload_text :: string
  in_provider_session_id :: "string option"
  in_context_watermark :: "int option"
  in_handoff_id :: "string option"
  in_materials :: "material_draft list"
  in_input_group_key :: "string option"
  in_prepare_task_notices :: bool
  in_queue_capacity :: "capacity_config option"
  in_ingress_identity :: "string option"

record admission_options =
  ao_max_attempts :: int
  ao_take_local_writer :: bool
  ao_available_at :: "time option"
  ao_expected_transfer :: "transfer_snapshot option"
  ao_control_input :: "string option"
  ao_attach_forwarded_materials :: bool

definition plain_options :: "time option \<Rightarrow> admission_options" where
  "plain_options ready_at = \<lparr>ao_max_attempts = 5, ao_take_local_writer = False, ao_available_at = ready_at,
     ao_expected_transfer = None, ao_control_input = None, ao_attach_forwarded_materials = True\<rparr>"

text \<open>The identifiers an admission may use, and what it takes from its hub.\<close>

record admission_env =
  ae_job_id :: string
  ae_material_id :: "nat \<Rightarrow> string"
  ae_accepted_notice_id :: string
  ae_queued_notice_id :: string
  ae_clean :: cleaner
  ae_profile :: "state_error + string option"

definition validate_ingress_identity :: "string option \<Rightarrow> state_error + ingress_identity option" where
  "validate_ingress_identity x = (case x of
     None \<Rightarrow> Inr None
   | Some i \<Rightarrow> if i = ''hub'' then Inr (Some Hub_ingress) else if i = ''codex'' then Inr (Some Codex_ingress)
       else Inl (State_error ''unsupported Telegram admission ingress''))"

definition group_ingress_identity :: "string option \<Rightarrow> bool \<Rightarrow> ingress_identity option" where
  "group_ingress_identity identity group_controller =
     (if group_controller \<and> identity \<in> {Some ''hub'', Some ''codex''}
      then (case validate_ingress_identity identity of Inr i \<Rightarrow> i | Inl _ \<Rightarrow> None) else None)"

text \<open>The values after their bounds were checked.\<close>

definition valid_input :: "input_draft \<Rightarrow> int \<Rightarrow> state_error + input_draft \<times> ingress_identity option" where
  "valid_input d max_attempts =
     attempt (bounded (in_idempotency_key d) ''idempotency key'' 256) (\<lambda>key.
     attempt (validate_ingress_identity (in_ingress_identity d)) (\<lambda>ingress.
     attempt (bounded (in_agent_id d) ''agent id'' 64) (\<lambda>agent.
     attempt (bounded (in_session_id d) ''session id'' 128) (\<lambda>session.
     attempt (bounded (in_model d) ''model'' 200) (\<lambda>model.
     attempt (bounded (in_effort d) ''effort'' 64) (\<lambda>effort.
     attempt (bounded (in_payload_text d) ''payload'' 20000) (\<lambda>payload.
     attempt (optional_bounded (in_provider_session_id d) ''provider session id'' 256) (\<lambda>provider.
     attempt (optional_bounded (in_handoff_id d) ''handoff id'' 128) (\<lambda>handoff.
     attempt (optional_bounded (in_input_group_key d) ''input group key'' 256) (\<lambda>grp.
     attempt (check (in_chat_id d \<noteq> 0 \<and> 0 < in_message_id d \<and> 0 < in_session_generation d)
       (State_error ''invalid provider job identity'')) (\<lambda>_.
     attempt (check (case in_context_watermark d of None \<Rightarrow> True | Some w \<Rightarrow> 0 \<le> w)
       (State_error ''invalid context watermark'')) (\<lambda>_.
     attempt (check (1 \<le> max_attempts \<and> max_attempts \<le> 20) (State_error ''invalid max attempts'')) (\<lambda>_.
     Inr (d\<lparr>in_idempotency_key := key, in_agent_id := agent, in_session_id := session, in_model := model,
            in_effort := effort, in_payload_text := payload, in_provider_session_id := provider,
            in_handoff_id := handoff, in_input_group_key := grp\<rparr>, ingress))))))))))))))"

section \<open>The binding of an input\<close>

definition require_admission :: "db \<Rightarrow> string \<Rightarrow> int \<Rightarrow> state_error + unit" where
  "require_admission db session message =
     (case origin_of db session of
        None \<Rightarrow> Inr ()
      | Some o' \<Rightarrow> check (case og_activation_message_id o' of None \<Rightarrow> False | Some a \<Rightarrow> a < message)
          (State_error ''input_before_session_activation''))"

definition snapshot_session :: "input_draft \<Rightarrow> db \<Rightarrow> state_error + session_row" where
  "snapshot_session d db =
     (let changed = Inl (State_error ''provider job session snapshot does not match persisted session'') in
      case session_of db (in_session_id d) of
        None \<Rightarrow> changed
      | Some s \<Rightarrow> if ss_topic_id s = in_topic_id d \<and> ss_agent_id s = in_agent_id d \<and>
                    ss_generation s = in_session_generation d then Inr s else changed)"

definition take_writer :: "transfer_snapshot option \<Rightarrow> input_draft \<Rightarrow> time \<Rightarrow> db \<Rightarrow> state_error + db" where
  "take_writer transfer d moved db =
     attempt (case transfer of
         None \<Rightarrow> Inl (State_error ''local writer transfer requires a validated snapshot'')
       | Some x \<Rightarrow> if sn_session_id (wt_session x) \<noteq> in_session_id d
           then Inl (State_error ''local writer transfer requires a validated snapshot'')
           else require_transfer db x) (\<lambda>_.
     attempt (check (\<not> topic_has_pending db (in_topic_id d))
       (State_error ''provider work is already pending for this topic'')) (\<lambda>_.
     Inr (put_writer (in_session_id d) Telegram_writer moved db)))"

definition require_binding ::
  "state_error + string option \<Rightarrow> admission_options \<Rightarrow> input_draft \<Rightarrow> time \<Rightarrow> db \<Rightarrow> state_error + session_row \<times> db" where
  "require_binding profile opts d moved db =
     (let take = ao_take_local_writer opts in
      attempt (get_topic db (in_topic_id d)) (\<lambda>topic.
      attempt (check (tr_chat_id topic = in_chat_id d) (State_error ''provider job chat does not match topic'')) (\<lambda>_.
      attempt (snapshot_session d db) (\<lambda>s.
      attempt (check (retained s) (State_error ''provider job session is not routable'')) (\<lambda>_.
      attempt (require_codex_selection profile s) (\<lambda>_.
      attempt (require_admission db (in_session_id d) (in_message_id d)) (\<lambda>_.
      attempt (if take then control_quiet db (in_topic_id d) else Inr ()) (\<lambda>_.
      attempt (check (ss_writer_mode s = (if take then Local_writer else Telegram_writer))
        (State_error (''provider job session writer is not '' @ (if take then ''local'' else ''telegram'')))) (\<lambda>_.
      attempt (check (take \<or> persistent_root_blocker db (in_topic_id d) = None)
        (State_error ''execution root has a persistent local writer or uncertainty'')) (\<lambda>_.
      attempt (check (ss_model s = in_model d \<and> ss_effort s = in_effort d)
        (State_error ''provider job model or effort does not match persisted session'')) (\<lambda>_.
      attempt (check (in_provider_session_id d = None \<or> in_provider_session_id d = ss_provider_session_id s)
        (State_error ''provider job provider session does not match persisted session'')) (\<lambda>_.
      attempt (check (case in_context_watermark d of None \<Rightarrow> True
          | Some n \<Rightarrow> exists_row (\<lambda>x. tx_turn_id x = n \<and> tx_topic_id x = in_topic_id d) (db_excerpts db))
        (State_error ''provider job context watermark is not a visible turn for topic'')) (\<lambda>_.
      attempt (check (case in_handoff_id d of None \<Rightarrow> True
          | Some h \<Rightarrow> exists_row (\<lambda>x. ph_handoff_id x = h \<and> ph_topic_id x = in_topic_id d \<and>
              ph_target_agent_id x = in_agent_id d) (db_handoffs db))
        (State_error ''provider job handoff snapshot is not pending'')) (\<lambda>_.
      attempt (if take then take_writer (ao_expected_transfer opts) d moved db else Inr db) (\<lambda>db1.
      Inr (s, db1))))))))))))))))"

section \<open>The new job\<close>

definition next_in_topic :: "db \<Rightarrow> int \<Rightarrow> int" where
  "next_in_topic db t = (case find (\<lambda>c. qn_topic_id c = t) (db_counters db) of
     None \<Rightarrow> 1 | Some c \<Rightarrow> qn_next_sequence c)"

definition advance_counter :: "int \<Rightarrow> time \<Rightarrow> db \<Rightarrow> db" where
  "advance_counter t now db = db\<lparr>db_counters := upsert_row qn_topic_id
     (\<lambda>c. c\<lparr>qn_next_sequence := qn_next_sequence c + 1, qn_updated_at := now\<rparr>)
     \<lparr>qn_topic_id = t, qn_next_sequence = 2, qn_updated_at = now\<rparr> (db_counters db)\<rparr>"

definition new_job :: "string \<Rightarrow> int \<Rightarrow> admission_options \<Rightarrow> input_draft \<Rightarrow> session_row \<Rightarrow> time \<Rightarrow> provider_job" where
  "new_job i seq opts d s now =
     \<lparr>pj_job_id = i, pj_idempotency_key = in_idempotency_key d, pj_chat_id = in_chat_id d,
      pj_message_id = in_message_id d, pj_topic_id = in_topic_id d, pj_topic_sequence = seq,
      pj_agent_id = in_agent_id d, pj_session_id = in_session_id d,
      pj_session_generation = in_session_generation d, pj_provider_session_id = ss_provider_session_id s,
      pj_model = in_model d, pj_effort = in_effort d, pj_payload_text = in_payload_text d,
      pj_context_watermark = in_context_watermark d, pj_handoff_id = in_handoff_id d,
      pj_input_group_key = in_input_group_key d, pj_status = Queued, pj_attempt_count = 0,
      pj_max_attempts = ao_max_attempts opts, pj_next_attempt_at = ao_available_at opts, pj_lease_owner = None,
      pj_lease_token = None, pj_lease_expires_at = None, pj_provider_started_at = None, pj_error_class = None,
      pj_error_code = None, pj_error_detail = None, pj_created_at = now, pj_updated_at = now,
      pj_codex_permission_profile = ss_codex_permission_profile s\<rparr>"

definition job_clashes :: "provider_job \<Rightarrow> db \<Rightarrow> bool" where
  "job_clashes j db \<longleftrightarrow>
     (case pj_provider_session_id j of None \<Rightarrow> False | Some p \<Rightarrow> 256 < length p) \<or>
     exists_row (\<lambda>k. pj_job_id k = pj_job_id j \<or> pj_idempotency_key k = pj_idempotency_key j \<or>
       pj_chat_id k = pj_chat_id j \<and> pj_message_id k = pj_message_id j \<or>
       pj_topic_id k = pj_topic_id j \<and> pj_topic_sequence k = pj_topic_sequence j) (db_jobs db)"

text \<open>A message has one place among the inputs of one job.\<close>

definition put_input :: "job_input \<Rightarrow> db \<Rightarrow> state_error + db" where
  "put_input p db =
     (if ji_chat_id p \<noteq> 0 \<and> 0 < ji_message_id p \<and> 0 < ji_part_index p \<and>
         1 \<le> length (ji_input_text p) \<and> length (ji_input_text p) \<le> 20000 \<and>
         \<not> exists_row (\<lambda>q. ji_chat_id q = ji_chat_id p \<and> ji_message_id q = ji_message_id p \<or>
             ji_job_id q = ji_job_id p \<and> ji_part_index q = ji_part_index p) (db_inputs db)
      then Inr (db\<lparr>db_inputs := db_inputs db @ [p]\<rparr>)
      else Inl (Integrity_error ''provider_job_inputs''))"

definition record_new_job :: "string \<Rightarrow> ingress_identity option \<Rightarrow> db \<Rightarrow> state_error + db" where
  "record_new_job i ingress db =
     (case ingress of
        None \<Rightarrow> Inr db
      | Some identity \<Rightarrow>
          if exists_row (\<lambda>j. pj_job_id j = i \<and> pj_status j = Queued \<and> pj_attempt_count j = 0 \<and>
               pj_lease_token j = None \<and> pj_lease_owner j = None \<and> pj_lease_expires_at j = None \<and>
               pj_provider_started_at j = None) (db_jobs db) \<and>
             \<not> exists_row (\<lambda>p. ji_job_id p = i) (db_inputs db) \<and>
             \<not> exists_row (\<lambda>c. cp_job_id c = i) (db_checkpoints db) \<and>
             \<not> exists_row (\<lambda>x. ti_job_id x = i) (db_ingress db)
          then Inr (db\<lparr>db_ingress := db_ingress db @ [\<lparr>ti_job_id = i, ti_identity = identity\<rparr>]\<rparr>)
          else Inl (State_error ''Telegram ingress requires fresh admission before first input''))"

definition job_owner :: "string \<Rightarrow> input_draft \<Rightarrow> material_owner" where
  "job_owner i d = \<lparr>mo_job_id = Some i, mo_topic_id = in_topic_id d, mo_chat_id = in_chat_id d,
     mo_message_id = in_message_id d, mo_agent_id = Some (in_agent_id d), mo_session_id = Some (in_session_id d),
     mo_session_generation = Some (in_session_generation d)\<rparr>"

text \<open>Everything that is stored with a new job, after its row.\<close>

definition attend_job ::
  "admission_env \<Rightarrow> admission_options \<Rightarrow> input_draft \<Rightarrow> ingress_identity option \<Rightarrow> time \<Rightarrow> db \<Rightarrow> state_error + db" where
  "attend_job e opts d ingress now db =
     (let i = ae_job_id e in
      attempt (record_new_job i ingress db) (\<lambda>db1.
      attempt (put_input \<lparr>ji_job_id = i, ji_chat_id = in_chat_id d, ji_message_id = in_message_id d, ji_part_index = 1,
          ji_input_text = (case ao_control_input opts of Some c \<Rightarrow> c | None \<Rightarrow> in_payload_text d),
          ji_received_at = now\<rparr> db1) (\<lambda>db2.
      attempt (if ao_attach_forwarded_materials opts
          then attach_forwarded i (in_topic_id d) (in_agent_id d) (in_session_id d) (in_session_generation d) db2
          else Inr db2) (\<lambda>db3.
      attempt (insert_materials (ae_clean e) (ae_material_id e) (job_owner i d) (in_materials d) now None db3) (\<lambda>db4.
      if in_prepare_task_notices d
      then admitted_in_transaction i now (in_queue_capacity d) (ae_accepted_notice_id e) (ae_queued_notice_id e) db4
      else Inr db4)))))"

definition insert_job ::
  "admission_env \<Rightarrow> admission_options \<Rightarrow> input_draft \<Rightarrow> ingress_identity option \<Rightarrow> session_row \<Rightarrow> time \<Rightarrow> db
   \<Rightarrow> state_error + (provider_job \<times> bool) \<times> db" where
  "insert_job e opts d ingress s now db =
     (let db1 = advance_counter (in_topic_id d) now (note_message (in_chat_id d) (in_message_id d) db);
          j = new_job (ae_job_id e) (next_in_topic db (in_topic_id d)) opts d s now in
      if job_clashes j db1
      then (case find (\<lambda>k. pj_idempotency_key k = in_idempotency_key d \<or>
                  pj_chat_id k = in_chat_id d \<and> pj_message_id k = in_message_id d) (db_jobs db1) of
          None \<Rightarrow> Inl (Integrity_error ''provider_jobs'')
        | Some k \<Rightarrow> if pj_idempotency_key k \<noteq> in_idempotency_key d
            then Inl (State_error ''Telegram message already has another provider job'')
            else Inr ((k, False), db1))
      else attempt (attend_job e opts d ingress now (db1\<lparr>db_jobs := db_jobs db1 @ [j]\<rparr>))
             (\<lambda>db2. Inr ((j, True), db2)))"

text \<open>\<open>admit_in_transaction\<close>: \<open>moved\<close> is the clock reading of a transfer of the writer, \<open>now\<close> the next one.\<close>

definition admit_tx ::
  "admission_env \<Rightarrow> admission_options \<Rightarrow> input_draft \<Rightarrow> time \<Rightarrow> time \<Rightarrow> db
   \<Rightarrow> state_error + (provider_job \<times> bool) \<times> db" where
  "admit_tx e opts raw moved now db =
     attempt (valid_input raw (ao_max_attempts opts)) (\<lambda>(d, ingress).
     case find (\<lambda>k. pj_idempotency_key k = in_idempotency_key d) (db_jobs db) of
       Some k \<Rightarrow>
         if pj_chat_id k = in_chat_id d \<and> pj_message_id k = in_message_id d then Inr ((k, False), db)
         else Inl (State_error ''idempotency key belongs to another Telegram message'')
     | None \<Rightarrow> attempt (require_binding (ae_profile e) opts d moved db) (\<lambda>(s, db1).
         insert_job e opts d ingress s now db1))"

definition enqueue_provider_job ::
  "admission_env \<Rightarrow> admission_options \<Rightarrow> input_draft \<Rightarrow> time \<Rightarrow> time \<Rightarrow> db
   \<Rightarrow> (state_error, db, provider_job \<times> bool) outcome" where
  "enqueue_provider_job e opts d moved now = transact (admit_tx e opts d moved now)"

section \<open>Bursts\<close>

text \<open>The tail of the queue that may still grow, for an input with these values.\<close>

definition burst_tail ::
  "input_draft \<Rightarrow> string option \<Rightarrow> string option \<Rightarrow> ingress_identity option \<Rightarrow> time \<Rightarrow> time \<Rightarrow> db \<Rightarrow> provider_job option" where
  "burst_tail d grp profile ingress current oldest db =
     find (\<lambda>j. pj_topic_id j = in_topic_id d \<and> pj_agent_id j = in_agent_id d \<and> pj_session_id j = in_session_id d \<and>
       pj_session_generation j = in_session_generation d \<and> pj_model j = in_model d \<and> pj_effort j = in_effort d \<and>
       pj_input_group_key j = grp \<and> pj_codex_permission_profile j = profile \<and>
       identity_of db (pj_job_id j) = ingress \<and> pj_status j = Queued \<and> after (pj_next_attempt_at j) current \<and>
       oldest \<le> pj_created_at j \<and> Some (pj_topic_sequence j) = last_sequence db (in_topic_id d)) (db_jobs db)"

definition same_binding :: "input_draft \<Rightarrow> session_record \<Rightarrow> bool" where
  "same_binding d s \<longleftrightarrow> sn_topic_id s = in_topic_id d \<and> sn_agent_id s = in_agent_id d \<and>
     sn_generation s = in_session_generation d \<and> sn_status s \<in> {Active, Satellite} \<and>
     sn_writer_mode s = Telegram_writer \<and> sn_model s = in_model d \<and> sn_effort s = in_effort d \<and>
     (in_provider_session_id d = None \<or> sn_provider_session_id s = in_provider_session_id d)"

definition require_selected :: "state_error + string option \<Rightarrow> session_record \<Rightarrow> state_error + unit" where
  "require_selected profile s =
     (if sn_agent_id s = ''codex''
      then attempt profile (\<lambda>p. check (sn_codex_permission_profile s = p)
        (State_error ''Codex permission selection differs from the session generation''))
      else Inr ())"

definition follow_up :: string where
  "follow_up = [CHR 0x0A, CHR 0x0A] @ ''FOLLOW-UP USER MESSAGE (same Telegram burst):'' @ [CHR 0x0A]"

definition grow_job :: "string \<Rightarrow> time \<Rightarrow> time \<Rightarrow> provider_job \<Rightarrow> provider_job" where
  "grow_job combined ready_at now j =
     j\<lparr>pj_payload_text := combined, pj_next_attempt_at := Some ready_at, pj_updated_at := now\<rparr>"

definition append_part ::
  "admission_env \<Rightarrow> input_draft \<Rightarrow> string \<Rightarrow> int \<Rightarrow> int \<Rightarrow> time \<Rightarrow> provider_job \<Rightarrow> db \<Rightarrow> state_error + db" where
  "append_part e d part_text quiet_ms max_ms current c db =
     (let i = pj_job_id c;
          part = int (count_where (\<lambda>p. ji_job_id p = i) (db_inputs db)) + 1;
          ready_at = min (current + milliseconds quiet_ms) (pj_created_at c + milliseconds max_ms) in
      attempt (check ((in_chat_id d, in_message_id d) \<notin> set (db_observed db)) (Integrity_error ''observed_messages'')) (\<lambda>_.
      attempt (put_input \<lparr>ji_job_id = i, ji_chat_id = in_chat_id d, ji_message_id = in_message_id d,
          ji_part_index = part, ji_input_text = part_text, ji_received_at = current\<rparr>
          (note_message (in_chat_id d) (in_message_id d) db)) (\<lambda>db1.
      attempt (attach_forwarded i (in_topic_id d) (in_agent_id d) (in_session_id d) (in_session_generation d) db1) (\<lambda>db2.
      attempt (insert_materials (ae_clean e) (ae_material_id e) (job_owner i d) (in_materials d) current None db2) (\<lambda>db3.
      Inr (update_jobs (\<lambda>j. pj_job_id j = i \<and> pj_status j = Queued)
        (grow_job (pj_payload_text c @ follow_up @ part_text) ready_at current) db3))))))"

definition grow_tail ::
  "admission_env \<Rightarrow> input_draft \<Rightarrow> ingress_identity option \<Rightarrow> string \<Rightarrow> string option \<Rightarrow> int \<Rightarrow> int \<Rightarrow> time \<Rightarrow>
   string option \<Rightarrow> db \<Rightarrow> state_error + (provider_job \<times> bool) option \<times> db" where
  "grow_tail e d ingress part_text grp quiet_ms max_ms current profile db =
     (case burst_tail d grp profile ingress current (current - milliseconds max_ms) db of
        None \<Rightarrow> Inr (None, db)
      | Some c \<Rightarrow>
          if length (pj_payload_text c @ follow_up @ part_text) \<le> 20000
          then attempt (append_part e d part_text quiet_ms max_ms current c db) (\<lambda>db1.
               attempt (get_job db1 (pj_job_id c)) (\<lambda>j. Inr (Some (j, True), db1)))
          else Inr (None, db))"

text \<open>The transaction of an append: \<open>None\<close> when no job may take the part.\<close>

definition append_tx ::
  "admission_env \<Rightarrow> input_draft \<Rightarrow> ingress_identity option \<Rightarrow> string \<Rightarrow> string option \<Rightarrow> int \<Rightarrow> int \<Rightarrow> time \<Rightarrow> db
   \<Rightarrow> state_error + (provider_job \<times> bool) option \<times> db" where
  "append_tx e d ingress part_text grp quiet_ms max_ms current db =
     (case find (\<lambda>p. ji_chat_id p = in_chat_id d \<and> ji_message_id p = in_message_id d \<and>
             job_of db (ji_job_id p) \<noteq> None) (db_inputs db) of
        Some p \<Rightarrow> attempt (get_job db (ji_job_id p)) (\<lambda>j. Inr (Some (j, False), db))
      | None \<Rightarrow>
          attempt (require_admission db (in_session_id d) (in_message_id d)) (\<lambda>_.
          attempt (get_session db (in_session_id d)) (\<lambda>s.
          attempt (if same_binding d s
              then attempt (get_topic db (in_topic_id d)) (\<lambda>t. check (tr_chat_id t = in_chat_id d)
                (State_error ''provider batch session snapshot changed''))
              else Inl (State_error ''provider batch session snapshot changed'')) (\<lambda>_.
          attempt (require_selected (ae_profile e) s) (\<lambda>_.
          attempt (check (persistent_root_blocker db (in_topic_id d) = None)
            (State_error ''execution root has a persistent local writer or uncertainty'')) (\<lambda>_.
          grow_tail e d ingress part_text grp quiet_ms max_ms current (sn_codex_permission_profile s) db))))))"

definition enqueue_or_append_provider_job ::
  "admission_env \<Rightarrow> input_draft \<Rightarrow> string \<Rightarrow> int \<Rightarrow> int \<Rightarrow> time \<Rightarrow> time \<Rightarrow> time \<Rightarrow> db
   \<Rightarrow> (state_error, db, provider_job \<times> bool) outcome" where
  "enqueue_or_append_provider_job e d appended quiet_ms max_ms current moved now db =
     (case validate_ingress_identity (in_ingress_identity d) of
        Inl x \<Rightarrow> (Inl x, db)
      | Inr ingress \<Rightarrow>
          if quiet_ms \<le> 0 then enqueue_provider_job e (plain_options None) d moved now db
          else (case attempt (bounded appended ''batch input'' 20000) (\<lambda>part_text.
                  attempt (optional_bounded (in_input_group_key d) ''input group key'' 256) (\<lambda>grp.
                    Inr (part_text, grp))) of
              Inl x \<Rightarrow> (Inl x, db)
            | Inr (part_text, grp) \<Rightarrow>
                (case transact (append_tx e d ingress part_text grp quiet_ms max_ms current) db of
                   (Inl x, db1) \<Rightarrow> (Inl x, db1)
                 | (Inr (Some r), db1) \<Rightarrow> (Inr r, db1)
                 | (Inr None, db1) \<Rightarrow> enqueue_provider_job e (plain_options (Some (current + milliseconds quiet_ms)))
                     (d\<lparr>in_input_group_key := grp\<rparr>) moved now db1)))"

section \<open>Holding a group while its parts arrive\<close>

record hold_scope =
  hs_agent_id :: "string option"
  hs_session_id :: "string option"
  hs_session_generation :: "int option"

definition hold_tx ::
  "state_error + string option \<Rightarrow> int \<Rightarrow> string \<Rightarrow> int \<Rightarrow> int \<Rightarrow> hold_scope \<Rightarrow> string option \<Rightarrow> time \<Rightarrow> db
   \<Rightarrow> state_error + provider_job option \<times> db" where
  "hold_tx profile t grp hold_ms max_ms scope expected current db =
     attempt (queued_input_group db t grp) (\<lambda>candidate.
     case candidate of
       None \<Rightarrow> Inr (None, db)
     | Some c \<Rightarrow>
         if (expected \<noteq> None \<and> expected \<noteq> Some (pj_job_id c)) \<or>
            (hs_agent_id scope \<noteq> None \<and> (hs_agent_id scope \<noteq> Some (pj_agent_id c) \<or>
               hs_session_id scope \<noteq> Some (pj_session_id c) \<or>
               hs_session_generation scope \<noteq> Some (pj_session_generation c)))
         then Inr (None, db)
         else attempt (if pj_agent_id c = ''codex''
             then attempt profile (\<lambda>p. Inr (pj_codex_permission_profile c = p)) else Inr True) (\<lambda>current_profile.
           let held_until = min (current + milliseconds hold_ms) (pj_created_at c + milliseconds max_ms) in
           if \<not> current_profile \<or> held_until \<le> current then Inr (None, db)
           else if (case pj_next_attempt_at c of None \<Rightarrow> False | Some n \<Rightarrow> held_until \<le> n) then Inr (Some c, db)
           else let db1 = update_jobs (\<lambda>j. pj_job_id j = pj_job_id c \<and> pj_status j = Queued)
                     (\<lambda>j. j\<lparr>pj_next_attempt_at := Some held_until, pj_updated_at := current\<rparr>) db
             in if count_jobs (\<lambda>j. pj_job_id j = pj_job_id c \<and> pj_status j = Queued) db = 1
                then Inr (job_of db1 (pj_job_id c), db1) else Inr (None, db1)))"

definition hold_queued_input_group ::
  "state_error + string option \<Rightarrow> int \<Rightarrow> string \<Rightarrow> int \<Rightarrow> int \<Rightarrow> hold_scope \<Rightarrow> string option \<Rightarrow> time \<Rightarrow> db
   \<Rightarrow> (state_error, db, provider_job option) outcome" where
  "hold_queued_input_group profile t grp hold_ms max_ms scope expected current db =
     (case attempt (optional_bounded (hs_agent_id scope) ''agent id'' 64) (\<lambda>agent.
           attempt (optional_bounded (hs_session_id scope) ''session id'' 128) (\<lambda>session.
           attempt (bounded grp ''input group key'' 256) (\<lambda>key.
           attempt (check ((agent = None \<and> session = None \<and> hs_session_generation scope = None) \<or>
               (agent \<noteq> None \<and> session \<noteq> None \<and> hs_session_generation scope \<noteq> None))
             (State_error ''incomplete input group hold scope'')) (\<lambda>_.
           attempt (check (0 < t \<and> (case hs_session_generation scope of None \<Rightarrow> True | Some g \<Rightarrow> 0 < g) \<and>
               0 < hold_ms \<and> hold_ms \<le> max_ms) (State_error ''invalid input group hold'')) (\<lambda>_.
           Inr (key, \<lparr>hs_agent_id = agent, hs_session_id = session,
             hs_session_generation = hs_session_generation scope\<rparr>)))))) of
        Inl x \<Rightarrow> (Inl x, db)
      | Inr (key, exact) \<Rightarrow> transact (hold_tx profile t key hold_ms max_ms exact expected current) db)"

end
