(* ===== verification/Preexecution_Retry.thy ===== *)
theory Preexecution_Retry
  imports Provider_Admission Job_Commit
begin

text \<open>
  The saved retry of a task whose preparation failed before any turn began
  (\<open>preexecution_retry_state.py\<close>): the failure leaves a ticket with the exact binding of the task, and
  the owner's reply to the failure notice admits the same task once more. \<open>resolve\<close> gives the real path
  of a root, or \<open>None\<close> when it cannot be verified; \<open>profile\<close> is the selected permission profile.
  The saved inputs are compared as lists instead of their JSON text.
\<close>

record preparation_binding =
  pb_canonical_root :: string
  pb_model_provider :: "string option"

type_synonym resolver = "string \<Rightarrow> string option"

definition blank_line :: string where "blank_line = [CHR 0x0A, CHR 0x0A]"

section \<open>Evidence\<close>

definition notice_source :: "db \<Rightarrow> int \<Rightarrow> int \<Rightarrow> int \<Rightarrow> outbox_part \<Rightarrow> string option" where
  "notice_source db chat thread message p =
     (case find (\<lambda>o'. ob_outbox_id o' = op_outbox_id p) (db_outbox db) of
        None \<Rightarrow> None
      | Some o' \<Rightarrow> (case job_of db (ob_job_id o') of
          None \<Rightarrow> None
        | Some j \<Rightarrow>
            if ob_status o' = Ds_delivered \<and> op_delivered_at p \<noteq> None \<and> op_telegram_message_id p = Some message \<and>
               ob_chat_id o' = chat \<and> ob_thread_id o' = thread \<and>
               map_option tp_thread_id (topic_of db (pj_topic_id j)) = Some thread \<and>
               ob_sender_agent_id o' = pj_agent_id j \<and> pj_status j = Failed \<and> pj_error_class j = Some ''pre_execution''
            then Some (pj_job_id j) else None))"

definition source_for_notice :: "db \<Rightarrow> int \<Rightarrow> int \<Rightarrow> int \<Rightarrow> string option" where
  "source_for_notice db chat thread message =
     (case filter (\<lambda>x. x \<noteq> None) (map (notice_source db chat thread message) (db_parts db)) of [] \<Rightarrow> None | x # _ \<Rightarrow> x)"

definition has_execution_evidence :: "db \<Rightarrow> string \<Rightarrow> bool" where
  "has_execution_evidence db i \<longleftrightarrow>
     exists_row (\<lambda>c. cp_job_id c = i \<and> (cp_provider_turn_id c \<noteq> None \<or> cp_completed_text c \<noteq> None)) (db_checkpoints db) \<or>
     exists_row (\<lambda>v. vi_job_id v = i) (db_items db) \<or>
     exists_row (\<lambda>r. jr_job_id r = i) (db_results db) \<or>
     exists_row (\<lambda>a. ta_job_id a = i) (db_task_activity db) \<or>
     exists_row (\<lambda>e. te_job_id e = i) (db_evidence db) \<or>
     exists_row (\<lambda>r. exists_row (\<lambda>x. es_scope_id x = er_scope_id r \<and> es_job_id x = i) (db_early_scopes db)) (db_early_requests db)"

definition saved_inputs :: "db \<Rightarrow> string \<Rightarrow> (int \<times> int \<times> int \<times> string \<times> time) list" where
  "saved_inputs db i = map (\<lambda>p. (ji_chat_id p, ji_message_id p, ji_part_index p, ji_input_text p, ji_received_at p))
     (sort_key ji_part_index (filter (\<lambda>p. ji_job_id p = i) (db_inputs db)))"

definition ticket_of :: "db \<Rightarrow> string \<Rightarrow> retry_ticket option" where
  "ticket_of db i = find (\<lambda>t. rt_source_job_id t = i) (db_tickets db)"

definition child_link :: "db \<Rightarrow> string \<Rightarrow> retry_link option" where
  "child_link db i = find (\<lambda>r. rl_source_job_id r = i) (db_retries db)"

definition parent_link :: "db \<Rightarrow> string \<Rightarrow> retry_link option" where
  "parent_link db i = find (\<lambda>r. rl_child_job_id r = i) (db_retries db)"

section \<open>The context a retry inherits\<close>

definition UNSAVED_REPLACEMENT_CONTEXT :: string where
  "UNSAVED_REPLACEMENT_CONTEXT = ''Saved-task retry is unavailable: preparation changed the Codex thread, '' @
     ''and Hub has no saved context snapshot for that change. Send a new request '' @
     ''containing the complete task and relevant context.''"

definition UNVERIFIED_ANCESTRY :: string where
  "UNVERIFIED_ANCESTRY = ''Saved-task retry is unavailable: retry ancestry cannot be verified within '' @
     ''its safety bound. Send a new request containing the complete task and relevant context.''"

text \<open>The walk over the retries a job came from, at most \<open>n\<close> of them; \<open>seen\<close> are those already checked.\<close>

fun context_from :: "nat \<Rightarrow> string list \<Rightarrow> string \<Rightarrow> string option \<Rightarrow> db \<Rightarrow> string option" where
  "context_from 0 seen i prepared db = Some UNVERIFIED_ANCESTRY"
| "context_from (Suc n) seen i prepared db =
     (if i \<in> set seen then Some UNVERIFIED_ANCESTRY
      else (case job_of db i of
          None \<Rightarrow> Some UNVERIFIED_ANCESTRY
        | Some j \<Rightarrow>
            if seen \<noteq> [] \<and> ticket_of db i = None then Some UNVERIFIED_ANCESTRY
            else if pj_provider_session_id j \<noteq> None \<and> pj_provider_session_id j \<noteq>
                (if seen = [] then prepared else Option.bind (ticket_of db i) rt_expected_thread_id)
            then Some UNSAVED_REPLACEMENT_CONTEXT
            else (case parent_link db i of
                None \<Rightarrow> None
              | Some r \<Rightarrow> context_from n (i # seen) (rl_source_job_id r) prepared db)))"

definition context_refusal :: "db \<Rightarrow> string \<Rightarrow> string option \<Rightarrow> string option" where
  "context_refusal db i prepared = context_from 64 [] i prepared db"

section \<open>The ticket\<close>

definition in_place :: "string \<Rightarrow> topic_row \<Rightarrow> bool" where
  "in_place root t \<longleftrightarrow> topic_scope t \<in> {''root:'' @ root, ''project:'' @ tp_project_id t}"

text \<open>Whether the session, the topic or the checkpoint no longer fit the failed job.\<close>

definition ticket_binding_changed ::
  "state_error + string option \<Rightarrow> provider_job \<Rightarrow> session_row \<Rightarrow> topic_row \<Rightarrow> string \<Rightarrow> db \<Rightarrow> state_error + bool" where
  "ticket_binding_changed profile j s t root db =
     (if \<not> in_place root t \<or> ss_topic_id s \<noteq> tp_topic_id t \<or> ss_agent_id s \<noteq> pj_agent_id j \<or>
         ss_generation s \<noteq> pj_session_generation j \<or> \<not> retained s \<or> ss_writer_mode s \<noteq> Telegram_writer \<or>
         ss_model s \<noteq> pj_model j \<or> ss_effort s \<noteq> pj_effort j \<or>
         ss_codex_permission_profile s \<noteq> pj_codex_permission_profile j
      then Inr True
      else attempt profile (\<lambda>selected. Inr (pj_codex_permission_profile j \<noteq> selected \<or>
        (case find (\<lambda>c. cp_job_id c = pj_job_id j) (db_checkpoints db) of
           None \<Rightarrow> ss_provider_session_id s \<noteq> pj_provider_session_id j
         | Some c \<Rightarrow> cp_project_root c \<noteq> root \<or> Some (cp_provider_thread_id c) \<noteq> ss_provider_session_id s \<or>
             cp_codex_permission_profile c \<noteq> pj_codex_permission_profile j))))"

definition new_ticket ::
  "provider_job \<Rightarrow> session_row \<Rightarrow> topic_row \<Rightarrow> string \<Rightarrow> string option \<Rightarrow> time \<Rightarrow> db \<Rightarrow> retry_ticket" where
  "new_ticket j s t root model_provider now db =
     \<lparr>rt_source_job_id = pj_job_id j, rt_project_id = tp_project_id t, rt_canonical_root = root,
      rt_session_id = ss_session_id s, rt_session_generation = ss_generation s,
      rt_expected_thread_id = ss_provider_session_id s, rt_model = pj_model j, rt_effort = pj_effort j,
      rt_codex_permission_profile = pj_codex_permission_profile j, rt_model_provider = model_provider,
      rt_payload_text = pj_payload_text j, rt_context_watermark = pj_context_watermark j,
      rt_handoff_id = pj_handoff_id j, rt_source_inputs = saved_inputs db (pj_job_id j), rt_created_at = now\<rparr>"

definition put_ticket :: "retry_ticket \<Rightarrow> db \<Rightarrow> state_error + db" where
  "put_ticket t db = (if ticket_of db (rt_source_job_id t) \<noteq> None
     then Inl (Integrity_error ''provider_preexecution_retry_tickets'')
     else Inr (db\<lparr>db_tickets := db_tickets db @ [t]\<rparr>))"

text \<open>The text added to the failure notice, with the ticket when the task may be sent again.\<close>

definition record_ticket ::
  "resolver \<Rightarrow> state_error + string option \<Rightarrow> provider_job \<Rightarrow> preparation_binding \<Rightarrow> time \<Rightarrow> db \<Rightarrow> state_error + string \<times> db" where
  "record_ticket resolve profile j saved now db =
     (if job_has_materials db (pj_job_id j)
      then Inr (blank_line @ ''Retry: This request included materials. Send the original task and '' @
             ''materials again; Hub will not run an incomplete saved request.'', db)
      else case session_of db (pj_session_id j) of
        None \<Rightarrow> Inl (unknown_session (pj_session_id j))
      | Some s \<Rightarrow> (case topic_of db (pj_topic_id j) of
          None \<Rightarrow> Inl (State_error (''unknown topic_id: '' @ decimal_int (pj_topic_id j)))
        | Some t \<Rightarrow> (case resolve (pb_canonical_root saved) of
            None \<Rightarrow> Inr (blank_line @ ''Retry is unavailable: the saved project root cannot be verified. Inspect local registration.'', db)
          | Some root \<Rightarrow>
              attempt (ticket_binding_changed profile j s t root db) (\<lambda>changed.
              if changed then Inr (blank_line @ ''Retry is unavailable: the saved execution binding changed. Inspect /status.'', db)
              else case context_refusal db (pj_job_id j) (ss_provider_session_id s) of
                Some refusal \<Rightarrow> Inr (blank_line @ refusal, db)
              | None \<Rightarrow>
                  if saved_inputs db (pj_job_id j) = []
                  then Inr (blank_line @ ''Retry is unavailable: the saved source input is missing. Send the task again.'', db)
                  else attempt (put_ticket (new_ticket j s t root (pb_model_provider saved) now db) db) (\<lambda>db1.
                    Inr (blank_line @ ''Retry: Reply exactly retry to this notice to submit the saved task text '' @
                      ''in the same session. Tool permissions will still need fresh human decisions.'', db1))))))"

section \<open>The retry\<close>

text \<open>What of the job, its session and its topic must still be as the ticket says.\<close>

definition job_unchanged :: "retry_ticket \<Rightarrow> provider_job \<Rightarrow> db \<Rightarrow> bool" where
  "job_unchanged k j db \<longleftrightarrow> pj_status j = Failed \<and> pj_error_class j = Some ''pre_execution'' \<and>
     pj_error_code j = Some ''CodexPreparationError'' \<and> \<not> has_execution_evidence db (pj_job_id j) \<and>
     pj_model j = rt_model k \<and> pj_effort j = rt_effort k"

definition task_unchanged :: "retry_ticket \<Rightarrow> provider_job \<Rightarrow> db \<Rightarrow> bool" where
  "task_unchanged k j db \<longleftrightarrow> pj_payload_text j = rt_payload_text k \<and> pj_context_watermark j = rt_context_watermark k \<and>
     pj_handoff_id j = rt_handoff_id k \<and> saved_inputs db (pj_job_id j) = rt_source_inputs k"

definition place_unchanged :: "retry_ticket \<Rightarrow> topic_row \<Rightarrow> string \<Rightarrow> string option \<Rightarrow> bool" where
  "place_unchanged k t root model_provider \<longleftrightarrow> root = rt_canonical_root k \<and> tp_project_id t = rt_project_id k \<and>
     in_place root t \<and> model_provider = rt_model_provider k"

definition session_unchanged :: "retry_ticket \<Rightarrow> provider_job \<Rightarrow> session_row \<Rightarrow> bool" where
  "session_unchanged k j s \<longleftrightarrow> ss_topic_id s = pj_topic_id j \<and> ss_agent_id s = pj_agent_id j \<and>
     ss_session_id s = pj_session_id j \<and> ss_generation s = pj_session_generation j \<and>
     ss_generation s = rt_session_generation k \<and> retained s \<and> ss_writer_mode s = Telegram_writer \<and>
     ss_provider_session_id s = rt_expected_thread_id k \<and> ss_model s = rt_model k \<and> ss_effort s = rt_effort k"

definition retry_paused :: state_error where
  "retry_paused = Retry_refused (''Retry paused: saved session, root, route, permissions or execution evidence '' @
     ''changed. Inspect /status; no new task was started.'')"

definition validate_retry ::
  "resolver \<Rightarrow> state_error + string option \<Rightarrow> string \<Rightarrow> string \<Rightarrow> string option \<Rightarrow> string \<Rightarrow> db \<Rightarrow> state_error + retry_ticket" where
  "validate_retry resolve profile source root model_provider runtime db =
     attempt (check (runtime = ''codex'')
       (Retry_refused ''Saved-task retry is unavailable for this runtime; no new task was started.'')) (\<lambda>_.
     attempt (check (\<not> job_has_materials db source)
       (Retry_refused (''Retry unavailable: this request included materials. Send the original '' @
          ''task and materials again; no incomplete task was started.''))) (\<lambda>_.
     case ticket_of db source of
       None \<Rightarrow> Inl (Retry_refused (''Retry unavailable: this failure has no verified saved retry binding. '' @
          ''Send the original task again; no new task was started.''))
     | Some k \<Rightarrow>
         attempt (get_job db source) (\<lambda>j.
         case session_of db (rt_session_id k) of
           None \<Rightarrow> Inl (unknown_session (rt_session_id k))
         | Some s \<Rightarrow> (case topic_of db (pj_topic_id j) of
             None \<Rightarrow> Inl (State_error (''unknown topic_id: '' @ decimal_int (pj_topic_id j)))
           | Some t \<Rightarrow> (case resolve root of
               None \<Rightarrow> Inl (Retry_refused (''Retry unavailable: the project root cannot be verified. Inspect local registration; '' @
                 ''no new task was started.''))
             | Some canonical \<Rightarrow>
                 if \<not> job_unchanged k j db \<or> \<not> place_unchanged k t canonical model_provider \<or> \<not> session_unchanged k j s
                    \<or> pj_codex_permission_profile j \<noteq> rt_codex_permission_profile k
                    \<or> rt_codex_permission_profile k \<noteq> ss_codex_permission_profile s
                 then Inl retry_paused
                 else attempt profile (\<lambda>selected.
                   attempt (check (ss_codex_permission_profile s = selected \<and> task_unchanged k j db) retry_paused) (\<lambda>_.
                   case context_refusal db source (rt_expected_thread_id k) of
                     Some refusal \<Rightarrow> Inl (Retry_refused refusal) | None \<Rightarrow> Inr k)))))))"

text \<open>The draft of the new job: everything it runs with comes from the ticket.\<close>

definition retry_draft :: "retry_ticket \<Rightarrow> provider_job \<Rightarrow> int \<Rightarrow> int \<Rightarrow> string option \<Rightarrow> input_draft" where
  "retry_draft k j chat message ingress =
     \<lparr>in_idempotency_key = ''preexecution-retry:'' @ pj_job_id j, in_chat_id = chat, in_message_id = message,
      in_topic_id = pj_topic_id j, in_agent_id = pj_agent_id j, in_session_id = pj_session_id j,
      in_session_generation = pj_session_generation j, in_model = rt_model k, in_effort = rt_effort k,
      in_payload_text = rt_payload_text k, in_provider_session_id = rt_expected_thread_id k,
      in_context_watermark = rt_context_watermark k, in_handoff_id = rt_handoff_id k, in_materials = [],
      in_input_group_key = None, in_prepare_task_notices = True, in_queue_capacity = None,
      in_ingress_identity = ingress\<rparr>"

definition retry_options :: admission_options where
  "retry_options = \<lparr>ao_max_attempts = 1, ao_take_local_writer = False, ao_available_at = None,
     ao_expected_transfer = None, ao_control_input = Some ''retry'', ao_attach_forwarded_materials = False\<rparr>"

definition put_link :: "retry_link \<Rightarrow> db \<Rightarrow> state_error + db" where
  "put_link r db = (if child_link db (rl_source_job_id r) \<noteq> None \<or> parent_link db (rl_child_job_id r) \<noteq> None
     then Inl (Integrity_error ''provider_preexecution_retries'')
     else Inr (db\<lparr>db_retries := db_retries db @ [r]\<rparr>))"

record retry_reply =
  ry_chat_id :: int
  ry_thread_id :: int
  ry_notice_message_id :: int
  ry_reply_message_id :: int

text \<open>\<open>_control\<close>: the reply is noted once, for one notice.\<close>

definition note_control :: "string \<Rightarrow> retry_reply \<Rightarrow> time \<Rightarrow> db \<Rightarrow> state_error + db" where
  "note_control source y now db =
     (let chat = ry_chat_id y; message = ry_reply_message_id y in
      attempt (check (0 < message) (State_error ''invalid retry reply identity'')) (\<lambda>_.
      case find (\<lambda>c. rc_chat_id c = chat \<and> rc_message_id c = message) (db_retry_controls db) of
        Some c \<Rightarrow> attempt (check (rc_source_job_id c = source \<and> rc_thread_id c = ry_thread_id y \<and>
              rc_notice_message_id c = ry_notice_message_id y)
            (State_error ''retry control identity belongs to another notice'')) (\<lambda>_. Inr db)
      | None \<Rightarrow>
          attempt (check (\<not> ((chat, message) \<in> set (db_observed db) \<and>
              \<not> exists_row (\<lambda>r. rl_source_job_id r = source \<and>
                  exists_row (\<lambda>j. pj_job_id j = rl_child_job_id r \<and> pj_chat_id j = chat \<and> pj_message_id j = message) (db_jobs db))
                (db_retries db)))
            (State_error ''retry control was already observed for another action'')) (\<lambda>_.
          Inr (note_message chat message (db\<lparr>db_retry_controls := db_retry_controls db @
            [\<lparr>rc_chat_id = chat, rc_message_id = message, rc_thread_id = ry_thread_id y,
              rc_notice_message_id = ry_notice_message_id y, rc_source_job_id = source, rc_created_at = now\<rparr>]\<rparr>)))))"

record retry_request =
  rq_source_job_id :: string
  rq_reply :: retry_reply
  rq_canonical_root :: string
  rq_model_provider :: "string option"
  rq_provider_runtime :: string
  rq_ingress_identity :: "string option"

definition submit_retry ::
  "admission_env \<Rightarrow> retry_request \<Rightarrow> retry_ticket \<Rightarrow> time \<Rightarrow> db \<Rightarrow> state_error + (provider_job \<times> bool) \<times> db" where
  "submit_retry e q k now db =
     (let y = rq_reply q; source = rq_source_job_id q in
      attempt (check ((ry_chat_id y, ry_reply_message_id y) \<notin> set (db_observed db))
        (State_error ''preparation retry control was already consumed'')) (\<lambda>_.
      attempt (get_job db source) (\<lambda>j.
      attempt (admit_tx e retry_options (retry_draft k j (ry_chat_id y) (ry_reply_message_id y) (rq_ingress_identity q)) now now db)
        (\<lambda>((child, created), db1).
      attempt (check created (State_error ''preparation retry child lacks its committed provenance'')) (\<lambda>_.
      attempt (put_link \<lparr>rl_source_job_id = source, rl_child_job_id = pj_job_id child, rl_created_at = now\<rparr> db1) (\<lambda>db2.
      attempt (note_control source y now db2) (\<lambda>db3. Inr ((child, True), db3))))))))"

definition retry_tx ::
  "resolver \<Rightarrow> admission_env \<Rightarrow> retry_request \<Rightarrow> time \<Rightarrow> db \<Rightarrow> state_error + (provider_job \<times> bool) \<times> db" where
  "retry_tx resolve e q now db =
     (let y = rq_reply q; source = rq_source_job_id q in
      attempt (check (source_for_notice db (ry_chat_id y) (ry_thread_id y) (ry_notice_message_id y) = Some source)
        (State_error ''preparation retry notice binding changed'')) (\<lambda>_.
      case child_link db source of
        Some r \<Rightarrow> attempt (note_control source y now db) (\<lambda>db1.
          attempt (get_job db1 (rl_child_job_id r)) (\<lambda>j. Inr ((j, False), db1)))
      | None \<Rightarrow> attempt (validate_retry resolve (ae_profile e) source (rq_canonical_root q) (rq_model_provider q)
            (rq_provider_runtime q) db) (\<lambda>k. submit_retry e q k now db)))"

definition retry_from_notice ::
  "resolver \<Rightarrow> admission_env \<Rightarrow> retry_request \<Rightarrow> time \<Rightarrow> db \<Rightarrow> (state_error, db, provider_job \<times> bool) outcome" where
  "retry_from_notice resolve e q now = transact (retry_tx resolve e q now)"

text \<open>Before the worker runs a job that is a retry, its snapshot is compared with the ticket once more.\<close>

definition require_execution_binding ::
  "resolver \<Rightarrow> state_error + string option \<Rightarrow> provider_job \<Rightarrow> string \<Rightarrow> string option \<Rightarrow> string \<Rightarrow> db \<Rightarrow> state_error + unit" where
  "require_execution_binding resolve profile j root model_provider runtime db =
     (case parent_link db (pj_job_id j) of
        None \<Rightarrow> Inr ()
      | Some r \<Rightarrow>
          attempt (validate_retry resolve profile (rl_source_job_id r) root model_provider runtime db) (\<lambda>k.
          attempt (get_job db (rl_source_job_id r)) (\<lambda>source.
          check (pj_agent_id j = pj_agent_id source \<and> pj_topic_id j = pj_topic_id source \<and>
              pj_session_id j = rt_session_id k \<and> pj_session_generation j = rt_session_generation k \<and>
              pj_model j = rt_model k \<and> pj_effort j = rt_effort k \<and>
              pj_codex_permission_profile j = rt_codex_permission_profile k \<and> \<not> job_has_materials db (pj_job_id j) \<and>
              pj_provider_session_id j = rt_expected_thread_id k \<and> pj_payload_text j = rt_payload_text k \<and>
              pj_context_watermark j = rt_context_watermark k \<and> pj_handoff_id j = rt_handoff_id k)
            (Retry_refused ''Retry execution snapshot changed; provider was not started.''))))"

end
