(* ===== verification/Delivery_Consent.thy ===== *)
theory Delivery_Consent
  imports Session_State Delivery_State
begin

text \<open>
  The owner's consent to a delivery that cannot be confirmed (\<open>delivery_hold_state.py\<close>,
  \<open>delivery_control_state.py\<close> and their methods of \<open>state.py\<close>): a preview shows the exact state of a parked
  delivery, and a disposition is recorded once, for that state and no other. \<open>dg\<close> and \<open>kg\<close> are the SHA-256
  digests of the JSON texts of the two snapshots. A prior row is compared with a binding on the columns
  of the binding.
\<close>

section \<open>Canonical roots\<close>

text \<open>\<open>str.split\<close> and \<open>str.join\<close> with one character.\<close>

fun split_on :: "char \<Rightarrow> string \<Rightarrow> string list" where
  "split_on c [] = [[]]"
| "split_on c (x # xs) = (if x = c then [] # split_on c xs
     else (case split_on c xs of [] \<Rightarrow> [[x]] | p # ps \<Rightarrow> (x # p) # ps))"

fun join_with :: "char \<Rightarrow> string list \<Rightarrow> string" where
  "join_with c [] = []"
| "join_with c [p] = p"
| "join_with c (p # q # ps) = p @ c # join_with c (q # ps)"

abbreviation (input) slash :: char where "slash \<equiv> CHR ''/''"

text \<open>\<open>str(PurePosixPath(value))\<close> of a value that begins with exactly one slash.\<close>

definition posix_path :: "string \<Rightarrow> string" where
  "posix_path v = slash # join_with slash (filter (\<lambda>p. p \<noteq> [] \<and> p \<noteq> ''.'') (split_on slash v))"

definition canonical_root :: "string \<Rightarrow> bool" where
  "canonical_root v \<longleftrightarrow> 1 \<le> length v \<and> length v \<le> 4096 \<and> starts_with v ''/'' \<and> \<not> starts_with v ''//'' \<and>
     char_of (0::nat) \<notin> set v \<and> ''..'' \<notin> set (split_on slash v) \<and> posix_path v = v"

definition hex64 :: "string \<Rightarrow> bool" where
  "hex64 s \<longleftrightarrow> length s = 64 \<and> list_all (\<lambda>c. c \<in> set ''0123456789abcdef'') s"

section \<open>Consent to continue\<close>

type_synonym send_evidence = "(send_attempt \<times> send_receipt option) list"

definition sends_of :: "db \<Rightarrow> target_kind \<Rightarrow> string \<Rightarrow> send_evidence" where
  "sends_of db k i = map (\<lambda>a. (a, find (\<lambda>r. sr_attempt_id r = sa_attempt_id a) (db_receipts db)))
     (sort_key sa_sequence (filter (\<lambda>a. sa_kind a = k \<and> sa_target_id a = i) (db_attempts db)))"

definition parts_of_outbox :: "db \<Rightarrow> string \<Rightarrow> outbox_part list" where
  "parts_of_outbox db i = sort_key op_part_index (filter (\<lambda>p. op_outbox_id p = i) (db_parts db))"

definition saved_result :: "db \<Rightarrow> string \<Rightarrow> job_result option" where
  "saved_result db i = find (\<lambda>r. jr_job_id r = i) (db_results db)"

text \<open>A delivery is bound to its job, its topic and its session.\<close>

definition bound_together :: "delivery_target \<Rightarrow> provider_job \<Rightarrow> topic_row \<Rightarrow> session_row \<Rightarrow> bool" where
  "bound_together d j t s \<longleftrightarrow> dt_sender_agent_id d = pj_agent_id j \<and> dt_chat_id d = pj_chat_id j \<and>
     dt_chat_id d = tp_chat_id t \<and> dt_thread_id d = tp_thread_id t \<and> ss_topic_id s = pj_topic_id j \<and>
     ss_agent_id s = pj_agent_id j \<and> ss_generation s = pj_session_generation j"

definition ended_job :: "provider_job \<Rightarrow> job_result option \<Rightarrow> bool" where
  "ended_job j r \<longleftrightarrow> pj_status j \<in> {Result_ready, Failed, Cancelled, Indeterminate} \<and>
     \<not> (pj_status j = Result_ready \<and> r = None)"

record hold_snapshot =
  hs_binding :: hold_binding
  hs_outbox :: outbox_row
  hs_job :: provider_job
  hs_result :: "job_result option"
  hs_session :: "string \<times> int \<times> string \<times> int"
  hs_parts :: "outbox_part list"
  hs_sends :: send_evidence

definition hold_binding_of :: "outbox_row \<Rightarrow> provider_job \<Rightarrow> topic_row \<Rightarrow> string \<Rightarrow> job_result option \<Rightarrow> hold_binding" where
  "hold_binding_of o' j t scope r =
     \<lparr>hx_outbox_id = ob_outbox_id o', hx_job_id = pj_job_id j, hx_result_id = map_option jr_result_id r,
      hx_topic_id = tp_topic_id t, hx_topic_sequence = pj_topic_sequence j, hx_project_id = tp_project_id t,
      hx_execution_scope = scope, hx_session_id = pj_session_id j, hx_session_generation = pj_session_generation j,
      hx_sender_agent_id = ob_sender_agent_id o', hx_chat_id = ob_chat_id o', hx_thread_id = ob_thread_id o'\<rparr>"

definition hold_target :: "db \<Rightarrow> string \<Rightarrow> state_error + hold_snapshot" where
  "hold_target db i =
     (if \<not> (1 \<le> length i \<and> length i \<le> 128) then Inl (State_error ''invalid delivery hold target'')
      else case outbox_of db i of
        None \<Rightarrow> Inl (State_error ''delivery hold target must be parked unknown with no sender lease'')
      | Some o' \<Rightarrow>
          if ob_status o' \<noteq> Ds_unknown \<or> dt_leased (final_target o')
          then Inl (State_error ''delivery hold target must be parked unknown with no sender lease'')
          else case job_of db (ob_job_id o') of
            None \<Rightarrow> Inl (State_error ''delivery hold target job is unavailable'')
          | Some j \<Rightarrow> (case (topic_of db (pj_topic_id j), session_of db (pj_session_id j)) of
              (Some t, Some s) \<Rightarrow>
                if \<not> ended_job j (saved_result db (pj_job_id j)) \<or> \<not> bound_together (final_target o') j t s
                then Inl (State_error ''delivery hold target binding or saved result is inconsistent'')
                else (case tp_execution_scope t of
                    None \<Rightarrow> Inl (State_error ''delivery hold requires an established canonical execution scope'')
                  | Some scope \<Rightarrow>
                      if \<not> starts_with scope ''root:/''
                      then Inl (State_error ''delivery hold requires an established canonical execution scope'')
                      else Inr (\<lparr>hs_binding = hold_binding_of o' j t scope (saved_result db (pj_job_id j)), hs_outbox = o',
                        hs_job = j, hs_result = saved_result db (pj_job_id j),
                        hs_session = (ss_session_id s, ss_topic_id s, ss_agent_id s, ss_generation s),
                        hs_parts = parts_of_outbox db i, hs_sends = sends_of db Final_target i\<rparr>))
            | _ \<Rightarrow> Inl (State_error ''delivery hold target binding or saved result is inconsistent'')))"

datatype hold_state = Released_by_owner | Hold_binding_changed | Hold_outstanding
datatype wait_effect = Wait_reconciled | Wait_binding_changed | Wait_outstanding

definition hold_prior :: "db \<Rightarrow> string \<Rightarrow> hold_disposition option" where
  "hold_prior db i = find (\<lambda>h. hx_outbox_id h = i) (db_hold_dispositions db)"

text \<open>What the two predicates say of a final by its identifier; a missing one has no effect.\<close>

definition hold_effect :: "db \<Rightarrow> string \<Rightarrow> bool \<times> bool" where
  "hold_effect db i = (case outbox_of db i of None \<Rightarrow> (False, False)
     | Some o' \<Rightarrow> (outbox_delivery_hold_released db o', final_control_reconciled db o'))"

record hold_record =
  hr_outbox_id :: string
  hr_job_id :: string
  hr_snapshot :: string
  hr_applied_at :: time
  hr_hold_status :: hold_state
  hr_control_effect :: wait_effect

definition hold_record_of :: "db \<Rightarrow> hold_disposition \<Rightarrow> hold_record" where
  "hold_record_of db h = (let (released, reconciled) = hold_effect db (hx_outbox_id h) in
     \<lparr>hr_outbox_id = hx_outbox_id h, hr_job_id = hx_job_id h, hr_snapshot = hx_snapshot h, hr_applied_at = hx_applied_at h,
      hr_hold_status = (if released then Released_by_owner else Hold_binding_changed),
      hr_control_effect = (if reconciled then Wait_reconciled else Wait_outstanding)\<rparr>)"

record hold_preview =
  hp_outbox_id :: string
  hp_job_id :: string
  hp_result_id :: "string option"
  hp_chat_id :: int
  hp_thread_id :: int
  hp_snapshot :: string
  hp_hold_status :: hold_state
  hp_part_count :: nat
  hp_receipted_parts :: nat
  hp_control_effect :: wait_effect
  hp_disposition_snapshot :: "string option"
  hp_control_consequences :: "string list"

definition hold_consequences :: "bool \<Rightarrow> job_status \<Rightarrow> string list" where
  "hold_consequences reconciled st =
     (if reconciled then [''delivery_wait_reconciled_by_separate_owner_decision'']
      else ''topic_binding_retained_for_disposition_lifetime'' #
        (if st = Result_ready
         then [''result_ready_remains_without_time_limit'', ''topic_new_model_agent_local_return_remain_blocked'',
           ''scope_wide_local_terminal_transfer_remains_blocked'', ''agent_managed_externally_drain_remains_blocked'']
         else []))"

definition receipted :: "outbox_part list \<Rightarrow> nat" where
  "receipted ps = count_where (\<lambda>p. op_telegram_message_id p \<noteq> None) ps"

definition preview_delivery_hold :: "(hold_snapshot \<Rightarrow> string) \<Rightarrow> string \<Rightarrow> db \<Rightarrow> state_error + hold_preview" where
  "preview_delivery_hold dg i db =
     attempt (hold_target db i) (\<lambda>s.
       let (released, reconciled) = hold_effect db i; prior = hold_prior db i; b = hs_binding s in
       Inr (\<lparr>hp_outbox_id = i, hp_job_id = hx_job_id b, hp_result_id = hx_result_id b, hp_chat_id = hx_chat_id b,
         hp_thread_id = hx_thread_id b, hp_snapshot = dg s,
         hp_hold_status = (if released then Released_by_owner else if prior \<noteq> None then Hold_binding_changed else Hold_outstanding),
         hp_part_count = length (hs_parts s), hp_receipted_parts = receipted (hs_parts s),
         hp_control_effect = (if reconciled then Wait_reconciled else Wait_outstanding),
         hp_disposition_snapshot = map_option hx_snapshot prior,
         hp_control_consequences = hold_consequences reconciled (pj_status (hs_job s))\<rparr>))"

text \<open>The constraints of the table; the references hold for the rows just read.\<close>

definition put_hold_disposition :: "hold_disposition \<Rightarrow> db \<Rightarrow> state_error + db" where
  "put_hold_disposition h db =
     (if exists_row (\<lambda>k. hx_outbox_id k = hx_outbox_id h \<or> hx_job_id k = hx_job_id h) (db_hold_dispositions db) \<or>
         \<not> (0 < hx_topic_sequence h \<and> 0 < hx_session_generation h \<and> hx_chat_id h \<noteq> 0 \<and> 0 < hx_thread_id h \<and> hex64 (hx_snapshot h))
      then Inl (Integrity_error ''telegram_delivery_hold_dispositions'')
      else Inr (db\<lparr>db_hold_dispositions := db_hold_dispositions db @ [h]\<rparr>))"

definition release_tx ::
  "(hold_snapshot \<Rightarrow> string) \<Rightarrow> string \<Rightarrow> string \<Rightarrow> bool \<Rightarrow> time \<Rightarrow> db \<Rightarrow> state_error + hold_record \<times> db" where
  "release_tx dg i expected consent now db =
     attempt (check consent (State_error ''explicit agreement to continue without confirmed delivery is required'')) (\<lambda>_.
     attempt (check (hex64 expected) (State_error ''exact preview snapshot is required'')) (\<lambda>_.
     case hold_prior db i of
       Some h \<Rightarrow> attempt (check (hx_snapshot h = expected)
           (State_error ''delivery hold already has a different immutable disposition'')) (\<lambda>_. Inr (hold_record_of db h, db))
     | None \<Rightarrow>
         attempt (hold_target db i) (\<lambda>s.
         attempt (check (dg s = expected) (State_error ''delivery hold preview is stale; inspect a fresh preview'')) (\<lambda>_.
         let h = hold_binding.extend (hs_binding s) (hold_disposition.fields expected now) in
         attempt (put_hold_disposition h db) (\<lambda>db1. Inr (hold_record_of db1 h, db1))))))"

definition release_delivery_hold ::
  "(hold_snapshot \<Rightarrow> string) \<Rightarrow> string \<Rightarrow> string \<Rightarrow> bool \<Rightarrow> time \<Rightarrow> db \<Rightarrow> (state_error, db, hold_record) outcome" where
  "release_delivery_hold dg i expected consent now = transact (release_tx dg i expected consent now)"

section \<open>Consent to stop waiting\<close>

datatype parked_row = Final_row outbox_row | Progress_row progress_row

fun target_view :: "parked_row \<Rightarrow> delivery_target" where
  "target_view (Final_row o') = final_target o'"
| "target_view (Progress_row p) = progress_target p"

definition kind_named :: "string \<Rightarrow> target_kind option" where
  "kind_named s = (if s = ''final_outbox'' then Some Final_target
     else if s = ''progress_delivery'' then Some Progress_target else None)"

definition target_row_of :: "db \<Rightarrow> target_kind \<Rightarrow> string \<Rightarrow> parked_row option" where
  "target_row_of db k i = (case k of
     Final_target \<Rightarrow> map_option Final_row (outbox_of db i)
   | Progress_target \<Rightarrow> map_option Progress_row (progress_of db i))"

record control_snapshot =
  ks_binding :: control_binding
  ks_execution_scope :: string
  ks_target :: parked_row
  ks_job :: provider_job
  ks_result :: "job_result option"
  ks_parts :: "outbox_part list"
  ks_item :: "visible_item option"
  ks_checkpoint :: "execution_checkpoint option"
  ks_evidence :: "terminal_evidence option"
  ks_resolution :: "job_resolution option"
  ks_origin :: "session_origin option"
  ks_sends :: send_evidence

definition terminal_matches :: "terminal_evidence option \<Rightarrow> execution_checkpoint option \<Rightarrow> bool" where
  "terminal_matches evidence checkpoint =
     (case (evidence, checkpoint) of
        (Some e, Some c) \<Rightarrow> te_job_id e = cp_job_id c \<and> te_terminal_status e \<in> set terminal_statuses \<and>
          bounded_length 256 (Some (cp_provider_thread_id c)) \<and> bounded_length 256 (cp_provider_turn_id c) \<and>
          canonical_root (cp_project_root c) \<and> te_provider_thread_id e = cp_provider_thread_id c \<and>
          Some (te_provider_turn_id e) = cp_provider_turn_id c \<and> te_project_root e = cp_project_root c
      | _ \<Rightarrow> False)"

definition owner_resolved :: "job_resolution option \<Rightarrow> bool" where
  "owner_resolved r = (case r of None \<Rightarrow> False | Some x \<Rightarrow> rs_resolution x \<in> set closing_resolutions)"

definition needs_proof :: "delivery_target \<Rightarrow> provider_job \<Rightarrow> bool" where
  "needs_proof d j \<longleftrightarrow> dt_final d \<and> dt_status d = Ds_failed \<and> pj_status j = Indeterminate"

definition parked_target :: "delivery_target \<Rightarrow> bool" where
  "parked_target d \<longleftrightarrow> dt_status d \<in> {Ds_unknown, Ds_failed} \<and>
     \<not> (dt_status d = Ds_failed \<and> dt_attempt_count d \<noteq> 20) \<and> \<not> dt_leased d"

definition established_scope :: "topic_row \<Rightarrow> string option" where
  "established_scope t = (case tp_execution_scope t of
     None \<Rightarrow> None
   | Some scope \<Rightarrow> if starts_with scope ''root:'' \<and> canonical_root (drop 5 scope) then Some scope else None)"

text \<open>The commentary a progress delivery shows, or the ended job of a final.\<close>

definition consistent_item :: "db \<Rightarrow> delivery_target \<Rightarrow> provider_job \<Rightarrow> state_error + visible_item option" where
  "consistent_item db d j =
     (if dt_final d
      then attempt (check (ended_job j (saved_result db (pj_job_id j)))
        (State_error ''delivery control final job or saved result is inconsistent'')) (\<lambda>_. Inr None)
      else (case find (\<lambda>v. Some (vi_sequence v) = dt_item_sequence d) (db_items db) of
          None \<Rightarrow> Inl (State_error ''delivery control progress item is inconsistent'')
        | Some v \<Rightarrow> attempt (check (vi_job_id v = pj_job_id j \<and> vi_commentary v)
            (State_error ''delivery control progress item is inconsistent'')) (\<lambda>_. Inr (Some v))))"

definition control_binding_of ::
  "delivery_target \<Rightarrow> provider_job \<Rightarrow> topic_row \<Rightarrow> job_result option \<Rightarrow> visible_item option \<Rightarrow> control_binding" where
  "control_binding_of d j t r v =
     \<lparr>cx_final_outbox = dt_final d, cx_outbox_id = (if dt_final d then Some (dt_key d) else None),
      cx_progress_id = (if dt_final d then None else Some (dt_key d)), cx_item_sequence = map_option vi_sequence v,
      cx_job_id = pj_job_id j, cx_result_id = map_option jr_result_id r, cx_topic_id = pj_topic_id j,
      cx_topic_sequence = pj_topic_sequence j, cx_project_id = tp_project_id t, cx_session_id = pj_session_id j,
      cx_session_generation = pj_session_generation j, cx_sender_agent_id = dt_sender_agent_id d,
      cx_chat_id = dt_chat_id d, cx_thread_id = dt_thread_id d\<rparr>"

definition control_snapshot_of ::
  "db \<Rightarrow> parked_row \<Rightarrow> provider_job \<Rightarrow> topic_row \<Rightarrow> string \<Rightarrow> visible_item option \<Rightarrow> control_snapshot" where
  "control_snapshot_of db row j t scope v =
     (let d = target_view row; i = pj_job_id j; r = (if dt_final d then saved_result db i else None) in
      \<lparr>ks_binding = control_binding_of d j t r v, ks_execution_scope = scope, ks_target = row, ks_job = j, ks_result = r,
       ks_parts = (if dt_final d then parts_of_outbox db (dt_key d) else []), ks_item = v,
       ks_checkpoint = find (\<lambda>c. cp_job_id c = i) (db_checkpoints db),
       ks_evidence = find (\<lambda>e. te_job_id e = i) (db_evidence db),
       ks_resolution = find (\<lambda>x. rs_job_id x = i) (db_resolutions db),
       ks_origin = find (\<lambda>g. og_session_id g = pj_session_id j) (db_origins db),
       ks_sends = sends_of db (if dt_final d then Final_target else Progress_target) (dt_key d)\<rparr>)"

definition invalid_target :: state_error where
  "invalid_target = State_error ''invalid delivery control target''"

definition load_target :: "db \<Rightarrow> string \<Rightarrow> string \<Rightarrow> state_error + control_snapshot" where
  "load_target db kind i =
     (case kind_named kind of
        None \<Rightarrow> Inl invalid_target
      | Some k \<Rightarrow>
          attempt (check (1 \<le> length i \<and> length i \<le> 128) invalid_target) (\<lambda>_.
          case target_row_of db k i of
            None \<Rightarrow> Inl (State_error (''delivery control target must be parked unknown or exhausted failed '' @ ''without a sender lease''))
          | Some row \<Rightarrow>
              let d = target_view row in
              attempt (check (parked_target d) (State_error (''delivery control target must be parked unknown or exhausted failed '' @
                ''without a sender lease''))) (\<lambda>_.
              case job_of db (dt_job_id d) of
                None \<Rightarrow> Inl (State_error ''delivery control job is unavailable'')
              | Some j \<Rightarrow> (case (topic_of db (pj_topic_id j), session_of db (pj_session_id j)) of
                  (Some t, Some s) \<Rightarrow>
                    attempt (check (bound_together d j t s)
                      (State_error ''delivery control target binding is inconsistent'')) (\<lambda>_.
                    case established_scope t of
                      None \<Rightarrow> Inl (State_error ''delivery control requires an established canonical execution scope'')
                    | Some scope \<Rightarrow>
                        attempt (consistent_item db d j) (\<lambda>v.
                        let x = control_snapshot_of db row j t scope v in
                        attempt (check (needs_proof d j \<longrightarrow> owner_resolved (ks_resolution x) \<or>
                            terminal_matches (ks_evidence x) (ks_checkpoint x))
                          (State_error (''failed uncertain notice requires existing exact terminal evidence '' @
                            ''or owner resolution''))) (\<lambda>_. Inr x)))
                | _ \<Rightarrow> Inl (State_error ''delivery control target binding is inconsistent'')))))"

definition control_prior :: "db \<Rightarrow> target_kind \<Rightarrow> string \<Rightarrow> control_disposition option" where
  "control_prior db k i = find (\<lambda>c. (case k of Final_target \<Rightarrow> cx_outbox_id c | Progress_target \<Rightarrow> cx_progress_id c) = Some i)
     (db_control_dispositions db)"

definition reconciled_row :: "db \<Rightarrow> parked_row \<Rightarrow> bool" where
  "reconciled_row db row = parked db (target_view row)"

record control_record =
  kr_disposition_id :: string
  kr_kind :: target_kind
  kr_target_id :: string
  kr_job_id :: string
  kr_snapshot :: string
  kr_applied_at :: time
  kr_delivery_status :: "delivery_status option"
  kr_control_effect :: wait_effect

definition control_record_of :: "db \<Rightarrow> control_disposition \<Rightarrow> control_record" where
  "control_record_of db c =
     (let k = (if cx_final_outbox c then Final_target else Progress_target);
          i = (case (if cx_final_outbox c then cx_outbox_id c else cx_progress_id c) of Some x \<Rightarrow> x | None \<Rightarrow> []);
          row = target_row_of db k i in
      \<lparr>kr_disposition_id = cx_disposition_id c, kr_kind = k, kr_target_id = i, kr_job_id = cx_job_id c,
       kr_snapshot = cx_snapshot c, kr_applied_at = cx_applied_at c,
       kr_delivery_status = map_option (\<lambda>r. dt_status (target_view r)) row,
       kr_control_effect = (case row of None \<Rightarrow> Wait_binding_changed
         | Some r \<Rightarrow> if reconciled_row db r then Wait_reconciled else Wait_binding_changed)\<rparr>)"

record control_preview =
  kp_kind :: target_kind
  kp_target_id :: string
  kp_job_id :: string
  kp_result_id :: "string option"
  kp_chat_id :: int
  kp_thread_id :: int
  kp_delivery_status :: delivery_status
  kp_snapshot :: string
  kp_part_count :: nat
  kp_receipted_parts :: nat
  kp_disposition_snapshot :: "string option"
  kp_binding_matches :: bool
  kp_control_effect :: wait_effect

definition preview_delivery_control ::
  "(control_snapshot \<Rightarrow> string) \<Rightarrow> string \<Rightarrow> string \<Rightarrow> db \<Rightarrow> state_error + control_preview" where
  "preview_delivery_control kg kind i db =
     attempt (load_target db kind i) (\<lambda>x.
       let b = ks_binding x; k = (if cx_final_outbox b then Final_target else Progress_target);
           prior = control_prior db k i in
       Inr (\<lparr>kp_kind = k, kp_target_id = i, kp_job_id = cx_job_id b, kp_result_id = cx_result_id b,
         kp_chat_id = cx_chat_id b, kp_thread_id = cx_thread_id b, kp_delivery_status = dt_status (target_view (ks_target x)),
         kp_snapshot = kg x, kp_part_count = length (ks_parts x), kp_receipted_parts = receipted (ks_parts x),
         kp_disposition_snapshot = map_option cx_snapshot prior,
         kp_binding_matches = (case prior of None \<Rightarrow> False | Some c \<Rightarrow> control_binding.truncate c = b),
         kp_control_effect = (case prior of None \<Rightarrow> Wait_outstanding | Some c \<Rightarrow> kr_control_effect (control_record_of db c))\<rparr>))"

definition put_control_disposition :: "control_disposition \<Rightarrow> db \<Rightarrow> state_error + db" where
  "put_control_disposition c db =
     (if exists_row (\<lambda>k. cx_disposition_id k = cx_disposition_id c \<or> cx_outbox_id c \<noteq> None \<and> cx_outbox_id k = cx_outbox_id c \<or>
           cx_progress_id c \<noteq> None \<and> cx_progress_id k = cx_progress_id c) (db_control_dispositions db) \<or>
         \<not> (bounded_length 128 (Some (cx_disposition_id c)) \<and> (case cx_item_sequence c of None \<Rightarrow> True | Some n \<Rightarrow> 0 < n) \<and>
            0 < cx_topic_sequence c \<and> bounded_length 128 (Some (cx_project_id c)) \<and> 0 < cx_session_generation c \<and>
            bounded_length 64 (Some (cx_sender_agent_id c)) \<and> cx_chat_id c \<noteq> 0 \<and> 0 < cx_thread_id c \<and>
            6 \<le> length (cx_execution_scope c) \<and> length (cx_execution_scope c) \<le> 4101 \<and>
            starts_with (cx_execution_scope c) ''root:/'' \<and> hex64 (cx_snapshot c))
      then Inl (Integrity_error ''telegram_delivery_control_dispositions'')
      else Inr (db\<lparr>db_control_dispositions := db_control_dispositions db @ [c]\<rparr>))"

text \<open>What proves that the lost final needs no answer: the owner's resolution, or else the turn's own end.\<close>

definition proof_of :: "control_snapshot \<Rightarrow> string option \<times> string option" where
  "proof_of x =
     (let i = Some (cx_job_id (ks_binding x)) in
      if \<not> needs_proof (target_view (ks_target x)) (ks_job x) then (None, None)
      else if owner_resolved (ks_resolution x) then (None, i) else (i, None))"

definition new_control :: "control_snapshot \<Rightarrow> string \<Rightarrow> string \<Rightarrow> time \<Rightarrow> control_disposition" where
  "new_control x fresh expected now =
     (let (terminal, resolution) = proof_of x in
      control_binding.extend (ks_binding x) (control_disposition.fields fresh (ks_execution_scope x)
        (dt_status (target_view (ks_target x))) expected now terminal resolution))"

definition apply_tx ::
  "(control_snapshot \<Rightarrow> string) \<Rightarrow> string \<Rightarrow> string \<Rightarrow> string \<Rightarrow> bool \<Rightarrow> string \<Rightarrow> time \<Rightarrow> db \<Rightarrow> state_error + control_record \<times> db" where
  "apply_tx kg kind i expected consent fresh now db =
     attempt (check consent (State_error ''explicit agreement to accept unconfirmed delivery is required'')) (\<lambda>_.
     attempt (check (hex64 expected) (State_error ''exact delivery control preview snapshot is required'')) (\<lambda>_.
     case kind_named kind of
       None \<Rightarrow> Inl invalid_target
     | Some k \<Rightarrow>
         attempt (check (1 \<le> length i \<and> length i \<le> 128) invalid_target) (\<lambda>_.
         case control_prior db k i of
           Some c \<Rightarrow> attempt (check (cx_snapshot c = expected)
               (State_error ''delivery control already has a different immutable disposition'')) (\<lambda>_. Inr (control_record_of db c, db))
         | None \<Rightarrow>
             attempt (load_target db kind i) (\<lambda>x.
             attempt (check (kg x = expected) (State_error ''delivery control preview is stale; inspect a fresh preview'')) (\<lambda>_.
             let c = new_control x fresh expected now in
             attempt (put_control_disposition c db) (\<lambda>db1. Inr (control_record_of db1 c, db1)))))))"

definition reconcile_delivery_control ::
  "(control_snapshot \<Rightarrow> string) \<Rightarrow> string \<Rightarrow> string \<Rightarrow> string \<Rightarrow> bool \<Rightarrow> string \<Rightarrow> time \<Rightarrow> db
   \<Rightarrow> (state_error, db, control_record) outcome" where
  "reconcile_delivery_control kg kind i expected consent fresh now = transact (apply_tx kg kind i expected consent fresh now)"

end
