(* ===== verification/Task_Activity.thy ===== *)
theory Task_Activity
  imports Preexecution_Retry Delivery_Consent
begin

text \<open>
  The activity of accepted turns (\<open>task_activity.py\<close>, \<open>task_activity_binding.py\<close> and
  \<open>approval_observations.py\<close>): what is seen of a running turn is recorded without its content, approvals
  it waits for and a lack of progress are told to the owner. \<open>dg\<close> is the SHA-256 digest of an identity,
  \<open>enabled\<close> whether notices are prepared, and \<open>nid\<close> and \<open>ids\<close> are identifiers of new notices.
\<close>

section \<open>Events\<close>

datatype activity_kind =
    Tool_started | Tool_completed | Tool_output | Visible_completed | Retrying | Approval_requested | Approval_resolved

datatype visible_phase = Phase_commentary | Phase_final_answer | Phase_unknown

datatype request_identity = Request_number int | Request_text string

record activity_event =
  ev_kind :: activity_kind
  ev_category :: activity_category
  ev_thread_id :: string
  ev_turn_id :: string
  ev_item_id :: "string option"
  ev_request_id :: "request_identity option"
  ev_phase :: "visible_phase option"

text \<open>The pattern \<open>[A-Za-z0-9][A-Za-z0-9._:-]{0,255}\<close>.\<close>

definition identity_char :: "char \<Rightarrow> bool" where
  "identity_char c \<longleftrightarrow> c \<in> set ''ABCDEFGHIJKLMNOPQRSTUVWXYZabcdefghijklmnopqrstuvwxyz0123456789''"

definition plain_identity :: "string \<Rightarrow> bool" where
  "plain_identity s \<longleftrightarrow> s \<noteq> [] \<and> length s \<le> 256 \<and> identity_char (hd s) \<and>
     list_all (\<lambda>c. identity_char c \<or> c \<in> set ''._:-'') (tl s)"

definition text_digest :: "(string \<Rightarrow> string) \<Rightarrow> string \<Rightarrow> string" where
  "text_digest dg s = dg (''str:'' @ s)"

definition identity_digest :: "(string \<Rightarrow> string) \<Rightarrow> request_identity \<Rightarrow> string" where
  "identity_digest dg r = (case r of Request_number n \<Rightarrow> dg (''int:'' @ decimal_int n) | Request_text s \<Rightarrow> text_digest dg s)"

definition valid_request_identity :: "request_identity \<Rightarrow> bool" where
  "valid_request_identity r = (case r of Request_number n \<Rightarrow> - (2 ^ 63) \<le> n \<and> n < 2 ^ 63 | Request_text s \<Rightarrow> plain_identity s)"

definition tool_categories :: "activity_category list" where
  "tool_categories = [Command, File_change, Mcp, Dynamic_tool, Collaboration, Web_search, Image_view]"

definition approval_categories :: "activity_category list" where
  "approval_categories = [Command, File_change, Network, Permissions]"

text \<open>The entry an event belongs to: its kind, its identity, and the item an approval is for. A retry has none.\<close>

definition event_identity :: "(string \<Rightarrow> string) \<Rightarrow> activity_event \<Rightarrow> state_error + (entry_kind \<times> string \<times> string option) option" where
  "event_identity dg ev =
     (let k = ev_kind ev; c = ev_category ev in
      if k = Retrying \<and> c = Retry_category then Inr None
      else case ev_item_id ev of
        None \<Rightarrow> Inl (State_error ''invalid activity item identity'')
      | Some i \<Rightarrow>
          attempt (check (plain_identity i) (State_error ''invalid activity item identity'')) (\<lambda>_.
          if k \<in> {Tool_started, Tool_completed, Tool_output} \<and> c \<in> set tool_categories
          then attempt (check (k = Tool_output \<longrightarrow> c = Command) (State_error ''invalid activity output category''))
            (\<lambda>_. Inr (Some (Tool_entry, text_digest dg i, None)))
          else if k = Visible_completed \<and> c = Visible_message
          then Inr (Some (Message_entry, text_digest dg i, None))
          else if k \<in> {Approval_requested, Approval_resolved} \<and> c \<in> set approval_categories
          then (case ev_request_id ev of
              None \<Rightarrow> Inl (State_error ''invalid approval request identity'')
            | Some r \<Rightarrow> attempt (check (valid_request_identity r) (State_error ''invalid approval request identity''))
                (\<lambda>_. Inr (Some (Approval_entry, identity_digest dg r, Some (text_digest dg i)))))
          else Inl (State_error ''invalid activity kind or category'')))"

section \<open>The execution an activity belongs to\<close>

definition checkpoint_of :: "db \<Rightarrow> string \<Rightarrow> execution_checkpoint option" where
  "checkpoint_of db i = find (\<lambda>c. cp_job_id c = i) (db_checkpoints db)"

text \<open>What the two binding queries share: the job runs under this lease, in a session that Telegram writes,
  with a checkpoint that is not complete, in its own root, and no pending stop covers it.\<close>

definition running_turn ::
  "db \<Rightarrow> string \<Rightarrow> string \<Rightarrow> time \<Rightarrow> (provider_job \<times> topic_row \<times> session_row \<times> execution_checkpoint) option" where
  "running_turn db i token now =
     (case job_of db i of
        None \<Rightarrow> None
      | Some j \<Rightarrow> (case (topic_of db (pj_topic_id j), session_of db (pj_session_id j), checkpoint_of db i) of
          (Some t, Some s, Some c) \<Rightarrow>
            if tp_chat_id t = pj_chat_id j \<and> ss_topic_id s = pj_topic_id j \<and> ss_agent_id s = pj_agent_id j \<and>
               ss_generation s = pj_session_generation j \<and> ss_provider_session_id s = Some (cp_provider_thread_id c) \<and>
               pj_status j = Executing \<and> after (pj_lease_expires_at j) now \<and> ss_writer_mode s = Telegram_writer \<and>
               retained s \<and> cp_completed_text c = None \<and> in_place (cp_project_root c) t \<and>
               \<not> exists_row (\<lambda>x. st_pending x \<and> stop_covers db x j) (db_stops db) \<and> pj_lease_token j = Some token
            then Some (j, t, s, c) else None
        | _ \<Rightarrow> None))"

definition current_activity_binding :: "db \<Rightarrow> string \<Rightarrow> string \<Rightarrow> time \<Rightarrow> activity_binding option" where
  "current_activity_binding db i token now =
     (case running_turn db i token now of
        None \<Rightarrow> None
      | Some (j, t, s, c) \<Rightarrow> map_option (\<lambda>turn.
          \<lparr>av_lease_token = token, av_topic_id = pj_topic_id j, av_project_id = tp_project_id t,
           av_execution_scope = topic_scope t, av_chat_id = pj_chat_id j, av_thread_id = tp_thread_id t,
           av_session_id = pj_session_id j, av_session_generation = pj_session_generation j, av_agent_id = pj_agent_id j,
           av_provider_thread_id = cp_provider_thread_id c, av_provider_turn_id = turn,
           av_project_root = cp_project_root c\<rparr>) (cp_provider_turn_id c))"

definition activity_of :: "db \<Rightarrow> string \<Rightarrow> task_activity option" where
  "activity_of db i = find (\<lambda>a. ta_job_id a = i) (db_task_activity db)"

definition live_binding :: "db \<Rightarrow> string \<Rightarrow> string \<Rightarrow> time \<Rightarrow> state_error + activity_binding" where
  "live_binding db i token now = (case current_activity_binding db i token now of
     None \<Rightarrow> Inl (State_error ''activity requires the exact current accepted execution'') | Some b \<Rightarrow> Inr b)"

definition bound_activity :: "db \<Rightarrow> string \<Rightarrow> string \<Rightarrow> time \<Rightarrow> state_error + task_activity" where
  "bound_activity db i token now =
     attempt (live_binding db i token now) (\<lambda>b.
     case activity_of db i of
       None \<Rightarrow> Inl (State_error ''activity binding changed or is missing'')
     | Some a \<Rightarrow> if ta_binding a = b then Inr a else Inl (State_error ''activity binding changed or is missing''))"

definition bind_accepted_tx ::
  "string \<Rightarrow> string \<Rightarrow> string \<Rightarrow> string \<Rightarrow> string \<Rightarrow> time \<Rightarrow> db \<Rightarrow> state_error + bool \<times> db" where
  "bind_accepted_tx i token thread turn root now db =
     attempt (live_binding db i token now) (\<lambda>b.
     attempt (check (av_provider_thread_id b = thread \<and> av_provider_turn_id b = turn \<and> av_project_root b = root)
       (State_error ''activity checkpoint identity does not match'')) (\<lambda>_.
     case activity_of db i of
       Some a \<Rightarrow> attempt (bound_activity db i token now) (\<lambda>_. Inr (False, db))
     | None \<Rightarrow> Inr (True, db\<lparr>db_task_activity := db_task_activity db @
         [\<lparr>ta_job_id = i, ta_binding = b, ta_mode = Mode_ordinary, ta_last_meaningful_at = now, ta_episode = 0,
           ta_notified_episode = None\<rparr>]\<rparr>)))"

definition bind_accepted ::
  "string \<Rightarrow> string \<Rightarrow> string \<Rightarrow> string \<Rightarrow> string \<Rightarrow> time \<Rightarrow> db \<Rightarrow> (state_error, db, bool) outcome" where
  "bind_accepted i token thread turn root now = transact (bind_accepted_tx i token thread turn root now)"

section \<open>Notices\<close>

definition supersede_unsent :: "(task_notice \<Rightarrow> bool) \<Rightarrow> time \<Rightarrow> db \<Rightarrow> db" where
  "supersede_unsent p now db = db\<lparr>db_notices := update_where
     (\<lambda>n. p n \<and> nt_status n \<in> {Nt_pending, Nt_leased} \<and> nt_attempt_count n = 0 \<and> nt_send_started_at n = None)
     (\<lambda>n. n\<lparr>nt_status := Nt_superseded, nt_updated_at := now\<rparr>) (db_notices db)\<rparr>"

definition approval_event_key :: "string \<Rightarrow> string \<Rightarrow> string" where
  "approval_event_key i identity = ''activity:'' @ i @ '':approval:'' @ identity"

definition no_progress_key :: "string \<Rightarrow> int \<Rightarrow> string" where
  "no_progress_key i episode = ''activity:'' @ i @ '':no-progress:'' @ decimal_int episode"

definition approval_words :: "activity_category \<Rightarrow> string" where
  "approval_words c = (if c = Command then ''command execution'' else if c = File_change then ''file changes''
     else if c = Network then ''network access'' else ''additional permissions'')"

definition approval_notice_html :: "activity_category \<Rightarrow> string" where
  "approval_notice_html c = ''A request for human permission for '' @ approval_words c @
     '' was observed in this Codex session. Review the exact request in Codex/tlive '' @
     ''to allow or deny it. Hub cannot approve it.''"

definition activity_draft :: "string \<Rightarrow> string \<Rightarrow> string \<Rightarrow> int \<Rightarrow> int \<Rightarrow> string \<Rightarrow> notice_draft" where
  "activity_draft key kind i chat thread html =
     \<lparr>nd_event_key = key, nd_kind = kind, nd_job_id = Some i, nd_stop_request_id = None, nd_assessment_id = None,
      nd_chat_id = chat, nd_thread_id = thread, nd_reply_to_message_id = None, nd_telegram_html = html\<rparr>"

definition tell_activity :: "task_activity \<Rightarrow> string \<Rightarrow> string \<Rightarrow> string \<Rightarrow> time \<Rightarrow> string \<Rightarrow> db \<Rightarrow> state_error + task_notice \<times> db" where
  "tell_activity a key kind html now nid db =
     attempt (prepare_notice (activity_draft key kind (ta_job_id a) (av_chat_id (ta_binding a)) (av_thread_id (ta_binding a)) html)
       now nid db) (\<lambda>((n, created), db1). Inr (n, db1))"

definition retire_observation :: "string \<Rightarrow> string \<Rightarrow> time \<Rightarrow> db \<Rightarrow> bool \<times> db" where
  "retire_observation i token now db =
     (if exists_row (\<lambda>a. ta_job_id a = i \<and> av_lease_token (ta_binding a) = token) (db_task_activity db)
      then (True, supersede_unsent (\<lambda>n. nt_job_id n = Some i \<and> nt_kind n \<in> {''approval_wait'', ''no_progress''}) now
        (db\<lparr>db_activity_entries := filter (\<lambda>x. en_job_id x \<noteq> i) (db_activity_entries db),
            db_task_activity := filter (\<lambda>a. \<not> (ta_job_id a = i \<and> av_lease_token (ta_binding a) = token)) (db_task_activity db)\<rparr>))
      else (False, db))"

section \<open>Entries\<close>

definition MAX_ACTIVITY_ENTRIES :: nat where "MAX_ACTIVITY_ENTRIES = 512"

text \<open>The entries of a job and the approvals observed before its turns were accepted.\<close>

definition activity_metadata_count :: "db \<Rightarrow> string \<Rightarrow> nat" where
  "activity_metadata_count db i = count_where (\<lambda>x. en_job_id x = i) (db_activity_entries db) +
     count_where (\<lambda>r. exists_row (\<lambda>s. es_scope_id s = er_scope_id r \<and> es_job_id s = i) (db_early_scopes db)) (db_early_requests db)"

definition entry_of :: "db \<Rightarrow> string \<Rightarrow> entry_kind \<Rightarrow> string \<Rightarrow> activity_entry option" where
  "entry_of db i k key = find (\<lambda>x. en_job_id x = i \<and> en_kind x = k \<and> en_identity x = key) (db_activity_entries db)"

definition add_entry :: "activity_entry \<Rightarrow> db \<Rightarrow> db" where
  "add_entry x db = db\<lparr>db_activity_entries := db_activity_entries db @ [x]\<rparr>"

definition set_entry :: "string \<Rightarrow> entry_kind \<Rightarrow> string \<Rightarrow> entry_state \<Rightarrow> db \<Rightarrow> db" where
  "set_entry i k key state db = db\<lparr>db_activity_entries := update_where
     (\<lambda>x. en_job_id x = i \<and> en_kind x = k \<and> en_identity x = key) (\<lambda>x. x\<lparr>en_state := state\<rparr>) (db_activity_entries db)\<rparr>"

definition state_after :: "activity_kind \<Rightarrow> entry_state" where
  "state_after k = (case k of Tool_started \<Rightarrow> Entry_active | Tool_completed \<Rightarrow> Entry_completed | Tool_output \<Rightarrow> Entry_active
     | Visible_completed \<Rightarrow> Entry_completed | Retrying \<Rightarrow> Entry_active
     | Approval_requested \<Rightarrow> Entry_pending | Approval_resolved \<Rightarrow> Entry_resolved)"

text \<open>\<open>None\<close> when the event says nothing new.\<close>

definition store_entry ::
  "string \<Rightarrow> entry_kind \<times> string \<times> string option \<Rightarrow> activity_event \<Rightarrow> db \<Rightarrow> state_error + db option" where
  "store_entry i x ev db =
     (let (k, key, item) = x; state = state_after (ev_kind ev) in
      case entry_of db i k key of
        Some p \<Rightarrow> attempt (check (en_category p = ev_category ev \<and> en_item_identity p = item)
            (State_error ''activity identity metadata changed'')) (\<lambda>_.
          if en_state p \<in> {Entry_completed, Entry_resolved} \<or> en_state p = state \<and> ev_kind ev \<noteq> Tool_output
          then Inr None else Inr (Some (set_entry i k key state db)))
      | None \<Rightarrow>
          if ev_kind ev \<in> {Tool_output, Approval_resolved} \<or> MAX_ACTIVITY_ENTRIES \<le> activity_metadata_count db i
          then Inr None
          else Inr (Some (add_entry \<lparr>en_job_id = i, en_kind = k, en_identity = key, en_category = ev_category ev,
            en_item_identity = item, en_state = state\<rparr> db)))"

definition progress_mode :: "db \<Rightarrow> string \<Rightarrow> activity_mode" where
  "progress_mode db i =
     (if exists_row (\<lambda>x. en_job_id x = i \<and> en_kind x = Approval_entry \<and> en_state x = Entry_pending) (db_activity_entries db)
      then Mode_approval
      else if exists_row (\<lambda>x. en_job_id x = i \<and> en_kind x = Tool_entry \<and> en_state x = Entry_active) (db_activity_entries db)
      then Mode_tool else Mode_ordinary)"

text \<open>A new episode begins, and what was to be said of the last one is not said any more.\<close>

definition advance_activity :: "string \<Rightarrow> time \<Rightarrow> db \<Rightarrow> db" where
  "advance_activity i now db = supersede_unsent (\<lambda>n. nt_job_id n = Some i \<and> nt_kind n = ''no_progress'') now
     (db\<lparr>db_task_activity := update_where (\<lambda>a. ta_job_id a = i)
       (\<lambda>a. a\<lparr>ta_mode := progress_mode db i, ta_last_meaningful_at := now, ta_episode := ta_episode a + 1,
              ta_notified_episode := None\<rparr>) (db_task_activity db)\<rparr>)"

definition approval_settled :: "string \<Rightarrow> string \<Rightarrow> time \<Rightarrow> db \<Rightarrow> db" where
  "approval_settled i key now = supersede_unsent (\<lambda>n. nt_job_id n = Some i \<and> nt_kind n = ''approval_wait'' \<and>
     nt_event_key n = approval_event_key i key) now"

definition record_activity_tx ::
  "(string \<Rightarrow> string) \<Rightarrow> bool \<Rightarrow> string \<Rightarrow> string \<Rightarrow> string \<Rightarrow> activity_event \<Rightarrow> time \<Rightarrow> db \<Rightarrow> state_error + bool \<times> db" where
  "record_activity_tx dg enabled nid i token ev now db =
     attempt (bound_activity db i token now) (\<lambda>a.
     attempt (event_identity dg ev) (\<lambda>x.
     attempt (check (ev_thread_id ev = av_provider_thread_id (ta_binding a) \<and> ev_turn_id ev = av_provider_turn_id (ta_binding a))
       (State_error ''activity event belongs to another accepted turn'')) (\<lambda>_.
     case x of
       None \<Rightarrow> Inr (False, db)
     | Some (k, key, item) \<Rightarrow>
         if now < ta_last_meaningful_at a then Inr (False, db)
         else attempt (store_entry i (k, key, item) ev db) (\<lambda>stored.
           case stored of
             None \<Rightarrow> Inr (False, db)
           | Some db1 \<Rightarrow>
               let db2 = advance_activity i now db1 in
               if ev_kind ev = Approval_resolved then Inr (True, approval_settled i key now db2)
               else if ev_kind ev = Approval_requested \<and> enabled
               then attempt (tell_activity a (approval_event_key i key) ''approval_wait'' (approval_notice_html (ev_category ev))
                 now nid db2) (\<lambda>(n, db3). Inr (True, db3))
               else Inr (True, db2)))))"

definition record_activity ::
  "(string \<Rightarrow> string) \<Rightarrow> bool \<Rightarrow> string \<Rightarrow> string \<Rightarrow> string \<Rightarrow> activity_event \<Rightarrow> time \<Rightarrow> db \<Rightarrow> (state_error, db, bool) outcome" where
  "record_activity dg enabled nid i token ev now = transact (record_activity_tx dg enabled nid i token ev now)"

text \<open>An approval that was observed before the turn was accepted.\<close>

definition import_approval_tx ::
  "string \<Rightarrow> string \<Rightarrow> string \<Rightarrow> string \<Rightarrow> early_request \<Rightarrow> time \<Rightarrow> db \<Rightarrow> state_error + bool \<times> db" where
  "import_approval_tx i token thread turn r now db =
     (let key = er_identity r; state = (if er_state r = Request_pending then Entry_pending else Entry_resolved) in
      attempt (bound_activity db i token now) (\<lambda>a.
      attempt (check (thread = av_provider_thread_id (ta_binding a) \<and> turn = av_provider_turn_id (ta_binding a) \<and>
          hex64 key \<and> hex64 (er_item_identity r) \<and> er_category r \<in> set approval_categories \<and> er_state r \<noteq> Request_retired)
        (State_error ''invalid accepted approval metadata import'')) (\<lambda>_.
      case entry_of db i Approval_entry key of
        Some p \<Rightarrow> attempt (check (en_category p = er_category r \<and> en_item_identity p = Some (er_item_identity r) \<and> en_state p = state)
            (State_error ''accepted approval import identity changed'')) (\<lambda>_. Inr (True, db))
      | None \<Rightarrow>
          if MAX_ACTIVITY_ENTRIES \<le> activity_metadata_count db i then Inr (False, db)
          else let db1 = advance_activity i now (add_entry \<lparr>en_job_id = i, en_kind = Approval_entry, en_identity = key,
                     en_category = er_category r, en_item_identity = Some (er_item_identity r), en_state = state\<rparr> db) in
            Inr (True, if state = Entry_resolved then approval_settled i key now db1 else db1))))"

section \<open>A lack of progress\<close>

definition untold :: "db \<Rightarrow> time \<Rightarrow> task_activity \<Rightarrow> bool" where
  "untold db now a \<longleftrightarrow> ta_mode a \<noteq> Mode_approval \<and> ta_notified_episode a \<noteq> Some (ta_episode a) \<and>
     exists_row (\<lambda>j. pj_job_id j = ta_job_id a \<and> pj_status j = Executing \<and>
       pj_lease_token j = Some (av_lease_token (ta_binding a)) \<and> after (pj_lease_expires_at j) now) (db_jobs db)"

definition quiet_html :: "activity_mode \<Rightarrow> string" where
  "quiet_html m = ''No new progress has been observed from the active '' @
     (if m = Mode_tool then ''tool or build'' else ''turn'') @
     ''. The task may still be running. Check /status or use /stop in this topic; work has not been restarted.''"

definition mark_told :: "string \<Rightarrow> db \<Rightarrow> db" where
  "mark_told i db = db\<lparr>db_task_activity := update_where (\<lambda>a. ta_job_id a = i)
     (\<lambda>a. a\<lparr>ta_notified_episode := Some (ta_episode a)\<rparr>) (db_task_activity db)\<rparr>"

definition overdue :: "db \<Rightarrow> int \<Rightarrow> int \<Rightarrow> time \<Rightarrow> task_activity \<Rightarrow> bool" where
  "overdue db ordinary tool now a \<longleftrightarrow>
     current_activity_binding db (ta_job_id a) (av_lease_token (ta_binding a)) now = Some (ta_binding a) \<and>
     seconds (if ta_mode a = Mode_tool then tool else ordinary) \<le> now - ta_last_meaningful_at a"

fun tell_quiet :: "(string \<Rightarrow> string) \<Rightarrow> int \<Rightarrow> int \<Rightarrow> time \<Rightarrow> task_activity list \<Rightarrow> db \<Rightarrow> state_error + task_notice list \<times> db" where
  "tell_quiet ids ordinary tool now [] db = Inr ([], db)"
| "tell_quiet ids ordinary tool now (a # rest) db =
     (if overdue db ordinary tool now a
      then attempt (tell_activity a (no_progress_key (ta_job_id a) (ta_episode a)) ''no_progress'' (quiet_html (ta_mode a)) now
             (ids (no_progress_key (ta_job_id a) (ta_episode a))) db) (\<lambda>(n, db1).
           attempt (tell_quiet ids ordinary tool now rest (mark_told (ta_job_id a) db1)) (\<lambda>(ns, db2). Inr (n # ns, db2)))
      else tell_quiet ids ordinary tool now rest db)"

definition evaluate_tx ::
  "bool \<Rightarrow> (string \<Rightarrow> string) \<Rightarrow> int \<Rightarrow> int \<Rightarrow> time \<Rightarrow> db \<Rightarrow> state_error + task_notice list \<times> db" where
  "evaluate_tx enabled ids ordinary tool now db =
     attempt (check (0 < ordinary \<and> 0 < tool) (State_error ''activity threshold must be a positive integer'')) (\<lambda>_.
     if \<not> enabled then Inr ([], db)
     else tell_quiet ids ordinary tool now
       (take 256 (sort_key (\<lambda>a. (ta_last_meaningful_at a, ta_job_id a)) (filter (untold db now) (db_task_activity db)))) db)"

definition evaluate ::
  "bool \<Rightarrow> (string \<Rightarrow> string) \<Rightarrow> int \<Rightarrow> int \<Rightarrow> time \<Rightarrow> db \<Rightarrow> (state_error, db, task_notice list) outcome" where
  "evaluate enabled ids ordinary tool now = transact (evaluate_tx enabled ids ordinary tool now)"

section \<open>Whether a notice is still true\<close>

definition activity_notice_is_current :: "db \<Rightarrow> task_notice \<Rightarrow> time \<Rightarrow> bool" where
  "activity_notice_is_current db n now =
     (case nt_job_id n of
        None \<Rightarrow> False
      | Some i \<Rightarrow> (case activity_of db i of
          None \<Rightarrow> False
        | Some a \<Rightarrow>
            current_activity_binding db i (av_lease_token (ta_binding a)) now = Some (ta_binding a) \<and>
            nt_chat_id n = av_chat_id (ta_binding a) \<and> nt_thread_id n = av_thread_id (ta_binding a) \<and>
            (if nt_kind n = ''no_progress''
             then ta_mode a \<noteq> Mode_approval \<and> ta_notified_episode a = Some (ta_episode a) \<and>
               ta_last_meaningful_at a \<le> nt_created_at n \<and> nt_event_key n = no_progress_key i (ta_episode a)
             else nt_kind n = ''approval_wait'' \<and> starts_with (nt_event_key n) (approval_event_key i []) \<and> ta_mode a = Mode_approval \<and>
               exists_row (\<lambda>x. en_job_id x = i \<and> en_kind x = Approval_entry \<and>
                 en_identity x = drop (length (approval_event_key i [])) (nt_event_key n) \<and> en_state x = Entry_pending)
                 (db_activity_entries db))))"

end
