(* ===== verification/Early_Approvals.thy ===== *)
theory Early_Approvals
  imports Task_Activity
begin

text \<open>
  Approvals that are observed while the submission of a turn is still pending
  (\<open>preacceptance_approvals.py\<close>, \<open>preacceptance_binding.py\<close>): each worker slot has an epoch, an epoch at most
  one open scope, and a scope is promoted when its turn is accepted or retired. The last part is the
  worker that observes a turn (\<open>worker_activity.py\<close>). \<open>profile\<close> is the selected permission profile, \<open>dg\<close> the
  digest of an identity, \<open>fresh\<close> and \<open>nid\<close> are new identifiers.
\<close>

section \<open>Epochs\<close>

record runtime =
  rn_slot_key :: string
  rn_agent_id :: string
  rn_epoch :: int
  rn_instance_token :: string

definition quoted :: "string \<Rightarrow> string" where
  "quoted s = CHR 0x22 # s @ [CHR 0x22]"

definition slot_key :: "string \<Rightarrow> int \<Rightarrow> string" where
  "slot_key agent slot = ''['' @ quoted ''external-worker'' @ '','' @ quoted agent @ '','' @ decimal_int slot @ '']''"

definition runtime_current :: "db \<Rightarrow> runtime \<Rightarrow> bool" where
  "runtime_current db rt \<longleftrightarrow> exists_row (\<lambda>e. re_slot_key e = rn_slot_key rt \<and> re_agent_id e = rn_agent_id rt \<and>
     re_epoch e = rn_epoch rt \<and> re_instance_token e = rn_instance_token rt) (db_runtime_epochs db)"

definition epoch_is_current :: "db \<Rightarrow> early_scope \<Rightarrow> bool" where
  "epoch_is_current db s \<longleftrightarrow> exists_row (\<lambda>e. re_slot_key e = es_slot_key s \<and> re_epoch e = es_epoch s \<and>
     re_instance_token e = es_instance_token s \<and> re_agent_id e = pr_agent_id (es_binding s)) (db_runtime_epochs db)"

definition early_scope_of :: "db \<Rightarrow> string \<Rightarrow> early_scope option" where
  "early_scope_of db i = find (\<lambda>s. es_scope_id s = i) (db_early_scopes db)"

definition close_scope :: "string \<Rightarrow> scope_state \<Rightarrow> time \<Rightarrow> db \<Rightarrow> db" where
  "close_scope i state now db = db\<lparr>db_early_scopes := update_where (\<lambda>s. es_scope_id s = i)
     (\<lambda>s. s\<lparr>es_state := state, es_closed_at := Some now\<rparr>) (db_early_scopes db)\<rparr>"

definition retire_requests :: "(early_request \<Rightarrow> bool) \<Rightarrow> db \<Rightarrow> db" where
  "retire_requests p db = db\<lparr>db_early_requests := update_where p (\<lambda>r. r\<lparr>er_state := Request_retired\<rparr>) (db_early_requests db)\<rparr>"

definition retire_scope :: "string \<Rightarrow> time \<Rightarrow> db \<Rightarrow> db" where
  "retire_scope i now db =
     (case early_scope_of db i of
        None \<Rightarrow> db
      | Some s \<Rightarrow>
          if es_state s \<noteq> Scope_open then db
          else close_scope i Scope_retired now (retire_requests (\<lambda>r. er_scope_id r = i)
            (supersede_unsent (\<lambda>n. exists_row (\<lambda>r. er_scope_id r = i \<and> er_event_key r = nt_event_key n) (db_early_requests db)) now db)))"

definition open_in_slot :: "db \<Rightarrow> string \<Rightarrow> early_scope list" where
  "open_in_slot db key = filter (\<lambda>s. es_slot_key s = key \<and> es_state s = Scope_open) (db_early_scopes db)"

definition register_epoch_tx :: "string \<Rightarrow> int \<Rightarrow> string \<Rightarrow> time \<Rightarrow> db \<Rightarrow> state_error + runtime \<times> db" where
  "register_epoch_tx agent slot token now db =
     attempt (check (plain_identity agent \<and> plain_identity token \<and> 1 \<le> slot \<and> slot \<le> 16)
       (State_error ''invalid early approval runtime identity'')) (\<lambda>_.
     let key = slot_key agent slot; prior = find (\<lambda>e. re_slot_key e = key) (db_runtime_epochs db);
         rt = (\<lambda>n. \<lparr>rn_slot_key = key, rn_agent_id = agent, rn_epoch = n, rn_instance_token = token\<rparr>) in
     if (case prior of None \<Rightarrow> False | Some e \<Rightarrow> re_instance_token e = token)
     then Inr (rt (re_epoch (the prior)), db)
     else let db1 = fold (\<lambda>s. retire_scope (es_scope_id s) now) (open_in_slot db key) db;
              n = (case prior of None \<Rightarrow> 1 | Some e \<Rightarrow> re_epoch e + 1) in
       Inr (rt n, db1\<lparr>db_runtime_epochs := upsert_row re_slot_key
         (\<lambda>e. e\<lparr>re_epoch := n, re_instance_token := token, re_registered_at := now\<rparr>)
         \<lparr>re_slot_key = key, re_agent_id = agent, re_worker_slot = slot, re_epoch = n, re_instance_token = token,
          re_registered_at = now\<rparr> (db_runtime_epochs db1)\<rparr>))"

definition register_runtime :: "string \<Rightarrow> int \<Rightarrow> string \<Rightarrow> time \<Rightarrow> db \<Rightarrow> (state_error, db, runtime) outcome" where
  "register_runtime agent slot token now = transact (register_epoch_tx agent slot token now)"

section \<open>Scopes\<close>

text \<open>The prepared execution with its turn, if that is saved already.\<close>

definition current_prepared_binding ::
  "state_error + string option \<Rightarrow> db \<Rightarrow> string \<Rightarrow> string \<Rightarrow> time \<Rightarrow> (prepared_binding \<times> string option) option" where
  "current_prepared_binding profile db i token now =
     (case profile of
        Inl e \<Rightarrow> None
      | Inr p \<Rightarrow> (case running_turn db i token now of
          None \<Rightarrow> None
        | Some (j, t, s, c) \<Rightarrow>
            if cp_codex_permission_profile c = pj_codex_permission_profile j \<and>
               pj_codex_permission_profile j = ss_codex_permission_profile s \<and> ss_codex_permission_profile s = p
            then Some (\<lparr>pr_lease_token = token, pr_topic_id = pj_topic_id j, pr_project_id = tp_project_id t,
              pr_execution_scope = topic_scope t, pr_chat_id = pj_chat_id j, pr_thread_id = tp_thread_id t,
              pr_session_id = pj_session_id j, pr_session_generation = pj_session_generation j, pr_agent_id = pj_agent_id j,
              pr_provider_thread_id = cp_provider_thread_id c, pr_project_root = cp_project_root c,
              pr_codex_permission_profile = cp_codex_permission_profile c\<rparr>, cp_provider_turn_id c)
            else None))"

definition scope_alive :: "state_error + string option \<Rightarrow> db \<Rightarrow> early_scope \<Rightarrow> time \<Rightarrow> bool" where
  "scope_alive profile db s now \<longleftrightarrow>
     map_option fst (current_prepared_binding profile db (es_job_id s) (pr_lease_token (es_binding s)) now) = Some (es_binding s)"

definition belongs_to :: "runtime \<Rightarrow> early_scope \<Rightarrow> bool" where
  "belongs_to rt s \<longleftrightarrow> es_epoch s = rn_epoch rt \<and> es_instance_token s = rn_instance_token rt \<and>
     pr_agent_id (es_binding s) = rn_agent_id rt"

text \<open>Older scopes of the slot are retired one by one, until one of them is still in use.\<close>

fun clear_slot :: "state_error + string option \<Rightarrow> runtime \<Rightarrow> time \<Rightarrow> early_scope list \<Rightarrow> db \<Rightarrow> bool \<times> db" where
  "clear_slot profile rt now [] db = (True, db)"
| "clear_slot profile rt now (s # rest) db =
     (if \<not> belongs_to rt s \<or> scope_alive profile db s now then (False, db)
      else clear_slot profile rt now rest (retire_scope (es_scope_id s) now db))"

definition put_scope_row :: "early_scope \<Rightarrow> db \<Rightarrow> state_error + db" where
  "put_scope_row s db =
     (if exists_row (\<lambda>x. es_scope_id x = es_scope_id s \<or> es_job_id x = es_job_id s \<and>
           pr_lease_token (es_binding x) = pr_lease_token (es_binding s) \<or>
           es_slot_key x = es_slot_key s \<and> es_state x = Scope_open) (db_early_scopes db)
      then Inl (Integrity_error ''preacceptance_scopes'')
      else Inr (db\<lparr>db_early_scopes := db_early_scopes db @ [s]\<rparr>))"

definition open_scope_tx ::
  "state_error + string option \<Rightarrow> string \<Rightarrow> string \<Rightarrow> string \<Rightarrow> runtime \<Rightarrow> string \<Rightarrow> string \<Rightarrow> time \<Rightarrow> db
   \<Rightarrow> state_error + string option \<times> db" where
  "open_scope_tx profile fresh i token rt thread root now db =
     (let refused = Inl (State_error ''early approval requires the exact prepared execution'') in
      if \<not> runtime_current db rt then Inr (None, db)
      else case current_prepared_binding profile db i token now of
        None \<Rightarrow> refused
      | Some (b, turn) \<Rightarrow>
          if pr_agent_id b \<noteq> rn_agent_id rt \<or> turn \<noteq> None \<or> pr_provider_thread_id b \<noteq> thread \<or> pr_project_root b \<noteq> root
          then refused
          else case find (\<lambda>s. es_job_id s = i \<and> pr_lease_token (es_binding s) = token) (db_early_scopes db) of
            Some s \<Rightarrow> Inr (if es_state s = Scope_open \<and> epoch_is_current db s \<and> es_slot_key s = rn_slot_key rt \<and> es_binding s = b
                then Some (es_scope_id s) else None, db)
          | None \<Rightarrow>
              (case clear_slot profile rt now (open_in_slot db (rn_slot_key rt)) db of
                 (False, db1) \<Rightarrow> Inr (None, db1)
               | (True, db1) \<Rightarrow> attempt (put_scope_row \<lparr>es_scope_id = fresh, es_slot_key = rn_slot_key rt, es_epoch = rn_epoch rt,
                     es_instance_token = rn_instance_token rt, es_job_id = i, es_binding = b, es_state = Scope_open,
                     es_created_at = now, es_closed_at = None\<rparr> db1) (\<lambda>db2. Inr (Some fresh, db2))))"

definition open_scope ::
  "state_error + string option \<Rightarrow> string \<Rightarrow> string \<Rightarrow> string \<Rightarrow> runtime \<Rightarrow> string \<Rightarrow> string \<Rightarrow> time \<Rightarrow> db
   \<Rightarrow> (state_error, db, string option) outcome" where
  "open_scope profile fresh i token rt thread root now = transact (open_scope_tx profile fresh i token rt thread root now)"

text \<open>The open scope of a runtime with its live execution; a scope whose execution is gone is retired.\<close>

definition bound_scope ::
  "state_error + string option \<Rightarrow> string option \<Rightarrow> runtime \<Rightarrow> time \<Rightarrow> db \<Rightarrow> (early_scope \<times> string option) option \<times> db" where
  "bound_scope profile i rt now db =
     (case Option.bind i (early_scope_of db) of
        None \<Rightarrow> (None, db)
      | Some s \<Rightarrow>
          if es_state s \<noteq> Scope_open \<or> es_slot_key s \<noteq> rn_slot_key rt \<or> \<not> belongs_to rt s then (None, db)
          else if \<not> epoch_is_current db s \<or> \<not> scope_alive profile db s now
          then (None, retire_scope (es_scope_id s) now db)
          else (Some (s, Option.bind (current_prepared_binding profile db (es_job_id s) (pr_lease_token (es_binding s)) now) snd), db))"

section \<open>Requests\<close>

definition approval_metadata :: "(string \<Rightarrow> string) \<Rightarrow> activity_event \<Rightarrow> state_error + string \<times> string" where
  "approval_metadata dg ev =
     (let wrong = Inl (State_error ''invalid approval observation metadata'') in
      if ev_kind ev \<in> {Approval_requested, Approval_resolved} \<and> ev_category ev \<in> set approval_categories \<and> plain_identity (ev_turn_id ev)
      then (case (ev_item_id ev, ev_request_id ev) of
          (Some i, Some r) \<Rightarrow> if plain_identity i \<and> valid_request_identity r then Inr (identity_digest dg r, text_digest dg i) else wrong
        | _ \<Rightarrow> wrong)
      else wrong)"

definition request_of :: "db \<Rightarrow> string \<Rightarrow> string \<Rightarrow> early_request option" where
  "request_of db scope key = find (\<lambda>r. er_scope_id r = scope \<and> er_identity r = key) (db_early_requests db)"

definition put_request :: "early_request \<Rightarrow> db \<Rightarrow> state_error + db" where
  "put_request r db =
     (if exists_row (\<lambda>x. er_event_key x = er_event_key r \<or> er_scope_id x = er_scope_id r \<and> er_identity x = er_identity r)
        (db_early_requests db)
      then Inl (Integrity_error ''preacceptance_requests'')
      else Inr (db\<lparr>db_early_requests := db_early_requests db @ [r]\<rparr>))"

definition resolve_request :: "string \<Rightarrow> string \<Rightarrow> string \<Rightarrow> time \<Rightarrow> db \<Rightarrow> db" where
  "resolve_request scope key event_key now db =
     supersede_unsent (\<lambda>n. nt_event_key n = event_key) now
       (db\<lparr>db_early_requests := update_where (\<lambda>r. er_scope_id r = scope \<and> er_identity r = key)
          (\<lambda>r. r\<lparr>er_state := Request_resolved, er_resolved_at := Some now\<rparr>) (db_early_requests db)\<rparr>)"

definition MAX_EARLY_REQUESTS :: nat where "MAX_EARLY_REQUESTS = 128"

definition store_request ::
  "bool \<Rightarrow> string \<Rightarrow> early_scope \<Rightarrow> activity_event \<Rightarrow> string \<Rightarrow> string \<Rightarrow> time \<Rightarrow> db \<Rightarrow> state_error + bool \<times> db" where
  "store_request enabled nid s ev key item now db =
     (let scope = es_scope_id s; event_key = approval_event_key (es_job_id s) key; prior = request_of db scope key in
      attempt (check (case prior of None \<Rightarrow> True | Some r \<Rightarrow> er_observed_turn_id r = ev_turn_id ev \<and>
          er_item_identity r = item \<and> er_category r = ev_category ev)
        (State_error ''early approval request identity changed'')) (\<lambda>_.
      if (case prior of None \<Rightarrow> False | Some r \<Rightarrow> er_state r \<noteq> Request_pending \<or> ev_kind ev = Approval_requested) then Inr (False, db)
      else if ev_kind ev = Approval_resolved
      then Inr (if prior = None then (False, db) else (True, resolve_request scope key event_key now db))
      else if MAX_EARLY_REQUESTS \<le> count_where (\<lambda>r. er_scope_id r = scope) (db_early_requests db) \<or>
              MAX_ACTIVITY_ENTRIES \<le> activity_metadata_count db (es_job_id s)
      then Inr (False, db)
      else attempt (put_request \<lparr>er_scope_id = scope, er_identity = key, er_observed_turn_id = ev_turn_id ev,
          er_item_identity = item, er_category = ev_category ev, er_state = Request_pending, er_event_key = event_key,
          er_created_at = now, er_resolved_at = None\<rparr> db) (\<lambda>db1.
        if enabled
        then attempt (prepare_notice (activity_draft event_key ''approval_wait'' (es_job_id s) (pr_chat_id (es_binding s))
            (pr_thread_id (es_binding s)) (approval_notice_html (ev_category ev))) now nid db1) (\<lambda>(x, db2). Inr (True, db2))
        else Inr (True, db1))))"

definition observe_request_tx ::
  "state_error + string option \<Rightarrow> bool \<Rightarrow> (string \<Rightarrow> string) \<Rightarrow> string \<Rightarrow> string option \<Rightarrow> runtime \<Rightarrow> activity_event \<Rightarrow> time \<Rightarrow> db
   \<Rightarrow> state_error + bool \<times> db" where
  "observe_request_tx profile enabled dg nid scope rt ev now db =
     (case bound_scope profile scope rt now db of
        (None, db1) \<Rightarrow> Inr (False, db1)
      | (Some (s, turn), db1) \<Rightarrow>
          if turn \<noteq> None \<or> ev_thread_id ev \<noteq> pr_provider_thread_id (es_binding s) then Inr (False, db1)
          else attempt (approval_metadata dg ev) (\<lambda>(key, item). store_request enabled nid s ev key item now db1))"

definition observe_early ::
  "state_error + string option \<Rightarrow> bool \<Rightarrow> (string \<Rightarrow> string) \<Rightarrow> string \<Rightarrow> string option \<Rightarrow> runtime \<Rightarrow> activity_event \<Rightarrow> time \<Rightarrow> db
   \<Rightarrow> (state_error, db, bool) outcome" where
  "observe_early profile enabled dg nid scope rt ev now = transact (observe_request_tx profile enabled dg nid scope rt ev now)"

section \<open>Promotion\<close>

text \<open>The requests that were observed for the accepted turn become entries of its activity.\<close>

fun promote_requests ::
  "early_scope \<Rightarrow> string \<Rightarrow> string \<Rightarrow> time \<Rightarrow> early_request list \<Rightarrow> db \<Rightarrow> state_error + db" where
  "promote_requests s thread turn now [] db = Inr db"
| "promote_requests s thread turn now (r # rest) db =
     attempt (if er_observed_turn_id r = turn
         then import_approval_tx (es_job_id s) (pr_lease_token (es_binding s)) thread turn r now db else Inr (False, db)) (\<lambda>(taken, db1).
     promote_requests s thread turn now rest
       (if taken then db1
        else supersede_unsent (\<lambda>n. nt_event_key n = er_event_key r) now
          (retire_requests (\<lambda>x. er_scope_id x = es_scope_id s \<and> er_identity x = er_identity r) db1)))"

definition promote_tx ::
  "state_error + string option \<Rightarrow> string option \<Rightarrow> runtime \<Rightarrow> string \<Rightarrow> string \<Rightarrow> time \<Rightarrow> db \<Rightarrow> state_error + bool \<times> db" where
  "promote_tx profile scope rt thread turn now db =
     (case bound_scope profile scope rt now db of
        (None, db1) \<Rightarrow> Inr (False, db1)
      | (Some (s, saved), db1) \<Rightarrow>
          attempt (check (pr_provider_thread_id (es_binding s) = thread \<and> saved = Some turn)
            (State_error ''early approval promotion has no exact accepted checkpoint'')) (\<lambda>_.
          attempt (promote_requests s thread turn now (filter (\<lambda>r. er_scope_id r = es_scope_id s) (db_early_requests db1)) db1) (\<lambda>db2.
          Inr (True, close_scope (es_scope_id s) Scope_promoted now db2))))"

definition retire_early :: "string option \<Rightarrow> runtime \<Rightarrow> time \<Rightarrow> db \<Rightarrow> db" where
  "retire_early scope rt now db =
     (case Option.bind scope (early_scope_of db) of
        None \<Rightarrow> db
      | Some s \<Rightarrow> if es_slot_key s = rn_slot_key rt \<and> es_epoch s = rn_epoch rt \<and> es_instance_token s = rn_instance_token rt
          then retire_scope (es_scope_id s) now db else db)"

section \<open>Whether an approval notice is still true\<close>

definition noted_request :: "db \<Rightarrow> string \<Rightarrow> early_request option" where
  "noted_request db key = find (\<lambda>r. er_event_key r = key \<and> early_scope_of db (er_scope_id r) \<noteq> None) (db_early_requests db)"

text \<open>\<open>None\<close> when the notice is not about an early request.\<close>

definition preacceptance_notice_is_current :: "state_error + string option \<Rightarrow> db \<Rightarrow> task_notice \<Rightarrow> time \<Rightarrow> bool option" where
  "preacceptance_notice_is_current profile db n now =
     (case noted_request db (nt_event_key n) of
        None \<Rightarrow> None
      | Some r \<Rightarrow> Some (case early_scope_of db (er_scope_id r) of
          None \<Rightarrow> False
        | Some s \<Rightarrow>
            if nt_job_id n \<noteq> Some (es_job_id s) \<or> es_state s = Scope_retired \<or> er_state r \<noteq> Request_pending \<or>
               nt_chat_id n \<noteq> pr_chat_id (es_binding s) \<or> nt_thread_id n \<noteq> pr_thread_id (es_binding s) \<or> \<not> scope_alive profile db s now
            then False
            else let turn = Option.bind (current_prepared_binding profile db (es_job_id s) (pr_lease_token (es_binding s)) now) snd in
              if es_state s = Scope_open then epoch_is_current db s \<and> turn \<in> {None, Some (er_observed_turn_id r)}
              else turn = Some (er_observed_turn_id r) \<and>
                exists_row (\<lambda>x. en_job_id x = es_job_id s \<and> en_kind x = Approval_entry \<and> en_identity x = er_identity r \<and>
                  en_item_identity x = Some (er_item_identity r) \<and> en_category x = er_category r \<and> en_state x = Entry_pending)
                  (db_activity_entries db) \<and>
                activity_notice_is_current db (n\<lparr>nt_kind := ''approval_wait''\<rparr>) now))"

text \<open>The probe of \<open>begin_send\<close>; the notices of Claude have their own, \<open>claude\<close>.\<close>

definition notice_is_current ::
  "(db \<Rightarrow> task_notice \<Rightarrow> time \<Rightarrow> bool) \<Rightarrow> state_error + string option \<Rightarrow> db \<Rightarrow> task_notice \<Rightarrow> time \<Rightarrow> bool" where
  "notice_is_current claude profile db n now =
     (if nt_kind n = ''approval_wait''
      then (case preacceptance_notice_is_current profile db n now of Some x \<Rightarrow> x | None \<Rightarrow> activity_notice_is_current db n now)
      else if nt_kind n = ''no_progress'' then activity_notice_is_current db n now
      else claude db n now)"

section \<open>The worker that observes a turn\<close>

record worker_view =
  wv_scope_id :: "string option"
  wv_observing :: bool
  wv_promoted :: bool
  wv_retired :: bool
  wv_activity_retired :: bool

record observed_turn =
  ot_job_id :: string
  ot_token :: string
  ot_project_root :: string
  ot_runtime :: "runtime option"
  ot_prepared_thread_id :: "string option"

definition retire_activity :: "observed_turn \<Rightarrow> time \<Rightarrow> worker_view \<times> db \<Rightarrow> worker_view \<times> db" where
  "retire_activity o' now x =
     (let (v, db) = x in
      if wv_observing v \<or> wv_activity_retired v then (v, db)
      else (v\<lparr>wv_activity_retired := True\<rparr>, snd (retire_observation (ot_job_id o') (ot_token o') now db)))"

definition retire_view_scope :: "observed_turn \<Rightarrow> time \<Rightarrow> worker_view \<times> db \<Rightarrow> worker_view \<times> db" where
  "retire_view_scope o' now x =
     (let (v, db) = x in
      case ot_runtime o' of
        None \<Rightarrow> (v, db)
      | Some rt \<Rightarrow> if wv_promoted v \<or> wv_retired v \<or> wv_scope_id v = None then (v, db)
          else (v\<lparr>wv_retired := True\<rparr>, retire_early (wv_scope_id v) rt now db))"

definition close_view :: "observed_turn \<Rightarrow> time \<Rightarrow> worker_view \<times> db \<Rightarrow> worker_view \<times> db" where
  "close_view o' now x = retire_view_scope o' now (retire_activity o' now x)"

definition disable_view :: "observed_turn \<Rightarrow> time \<Rightarrow> worker_view \<times> db \<Rightarrow> worker_view \<times> db" where
  "disable_view o' now x = (let (v, db) = x in close_view o' now (v\<lparr>wv_observing := False\<rparr>, db))"

definition start_view ::
  "state_error + string option \<Rightarrow> string \<Rightarrow> observed_turn \<Rightarrow> time \<Rightarrow> db \<Rightarrow> worker_view \<times> db" where
  "start_view profile fresh o' now db =
     (let v = \<lparr>wv_scope_id = None, wv_observing = True, wv_promoted = False, wv_retired = False, wv_activity_retired = False\<rparr> in
      case ot_runtime o' of
        None \<Rightarrow> (v, db)
      | Some rt \<Rightarrow> (case ot_prepared_thread_id o' of
          None \<Rightarrow> disable_view o' now (v, db)
        | Some thread \<Rightarrow> (case open_scope profile fresh (ot_job_id o') (ot_token o') rt thread (ot_project_root o') now db of
            (Inl e, db1) \<Rightarrow> disable_view o' now (v, db1)
          | (Inr i, db1) \<Rightarrow> (v\<lparr>wv_scope_id := i\<rparr>, db1))))"

definition accept_tx ::
  "state_error + string option \<Rightarrow> observed_turn \<Rightarrow> string option \<Rightarrow> string \<Rightarrow> string \<Rightarrow> time \<Rightarrow> db \<Rightarrow> state_error + bool \<times> db" where
  "accept_tx profile o' scope thread turn now db =
     attempt (bind_accepted_tx (ot_job_id o') (ot_token o') thread turn (ot_project_root o') now db) (\<lambda>(fresh, db1).
     case ot_runtime o' of
       None \<Rightarrow> Inr (False, db1)
     | Some rt \<Rightarrow> promote_tx profile scope rt thread turn now db1)"

definition view_accepted ::
  "state_error + string option \<Rightarrow> observed_turn \<Rightarrow> string \<Rightarrow> string \<Rightarrow> time \<Rightarrow> worker_view \<times> db \<Rightarrow> worker_view \<times> db" where
  "view_accepted profile o' thread turn now x =
     (let (v, db) = x in
      if \<not> wv_observing v then (v, db)
      else case transact (accept_tx profile o' (wv_scope_id v) thread turn now) db of
        (Inl e, db1) \<Rightarrow> disable_view o' now (v, db1)
      | (Inr p, db1) \<Rightarrow> (v\<lparr>wv_promoted := p\<rparr>, db1))"

definition view_observes ::
  "(string \<Rightarrow> string) \<Rightarrow> string \<Rightarrow> observed_turn \<Rightarrow> activity_event \<Rightarrow> time \<Rightarrow> worker_view \<times> db \<Rightarrow> worker_view \<times> db" where
  "view_observes dg nid o' ev now x =
     (let (v, db) = x in
      if \<not> wv_observing v then (v, db)
      else case record_activity dg True nid (ot_job_id o') (ot_token o') ev now db of
        (Inl e, db1) \<Rightarrow> disable_view o' now (v, db1)
      | (Inr b, db1) \<Rightarrow> (v, db1))"

definition view_observes_early ::
  "state_error + string option \<Rightarrow> (string \<Rightarrow> string) \<Rightarrow> string \<Rightarrow> observed_turn \<Rightarrow> activity_event \<Rightarrow> time \<Rightarrow> worker_view \<times> db \<Rightarrow> worker_view \<times> db" where
  "view_observes_early profile dg nid o' ev now x =
     (let (v, db) = x in
      case ot_runtime o' of
        None \<Rightarrow> (v, db)
      | Some rt \<Rightarrow>
          if \<not> wv_observing v then (v, db)
          else case observe_early profile True dg nid (wv_scope_id v) rt ev now db of
            (Inl e, db1) \<Rightarrow> disable_view o' now (v, db1)
          | (Inr b, db1) \<Rightarrow> (v, db1))"

end
