(* ===== verification/Approval_Properties.thy ===== *)
theory Approval_Properties
  imports Early_Approvals
begin

text \<open>
  What holds of the observed activity and the early approvals in every run, whatever else happens in the
  hub: their tables stay within their bounds, an epoch has at most one open scope, and an activity waits
  for an approval exactly while one is pending.
\<close>

section \<open>The observed tables\<close>

type_synonym observed_tables =
  "task_activity list \<times> activity_entry list \<times> runtime_epoch list \<times> early_scope list \<times> early_request list"

definition observed_tables :: "db \<Rightarrow> observed_tables" where
  "observed_tables db = (db_task_activity db, db_activity_entries db, db_runtime_epochs db, db_early_scopes db, db_early_requests db)"

lemma observed_tables_eq: "observed_tables db' = observed_tables db \<longleftrightarrow> db_task_activity db' = db_task_activity db \<and>
    db_activity_entries db' = db_activity_entries db \<and> db_runtime_epochs db' = db_runtime_epochs db \<and>
    db_early_scopes db' = db_early_scopes db \<and> db_early_requests db' = db_early_requests db"
  by (auto simp: observed_tables_def)

lemma supersede_tables [simp]: "observed_tables (supersede_unsent p now db) = observed_tables db"
  by (simp add: observed_tables_def supersede_unsent_def)

lemma prepare_tables: "prepare_notice d now nid db = Inr (x, db') \<Longrightarrow> observed_tables db' = observed_tables db"
  by (auto simp: prepare_notice_def attempt_Inr observed_tables_def split: option.splits if_splits)

lemma tell_tables: "tell_activity a key kind html now nid db = Inr (n, db') \<Longrightarrow> observed_tables db' = observed_tables db"
  by (auto simp: tell_activity_def attempt_Inr dest: prepare_tables)

text \<open>The keys of the rows, which is all the bounds speak of.\<close>

definition shape :: "db \<Rightarrow> string list \<times> string list \<times> (string \<times> string) list" where
  "shape db = (map en_job_id (db_activity_entries db), map er_scope_id (db_early_requests db),
     map (\<lambda>s. (es_scope_id s, es_job_id s)) (db_early_scopes db))"

definition total_of :: "string list \<times> string list \<times> (string \<times> string) list \<Rightarrow> string \<Rightarrow> nat" where
  "total_of x i = (case x of (entries, requests, scopes) \<Rightarrow>
     count_where ((=) i) entries + count_where (\<lambda>s. (s, i) \<in> set scopes) requests)"

lemma count_map: "count_where p (map f xs) = count_where (\<lambda>x. p (f x)) xs"
  by (simp add: count_where_def filter_map o_def)

lemma metadata_total: "activity_metadata_count db i = total_of (shape db) i"
proof -
  have "exists_row (\<lambda>x. es_scope_id x = s \<and> es_job_id x = i) rows \<longleftrightarrow> (s, i) \<in> set (map (\<lambda>s. (es_scope_id s, es_job_id s)) rows)" for s and rows :: "early_scope list"
    by (auto simp: exists_row_iff)
  then show ?thesis by (simp only: activity_metadata_count_def total_of_def shape_def count_map prod.case eq_commute [of i])
qed

definition bounds_ok :: "string list \<times> string list \<times> (string \<times> string) list \<Rightarrow> bool" where
  "bounds_ok x \<longleftrightarrow> (\<forall>i. total_of x i \<le> MAX_ACTIVITY_ENTRIES) \<and>
     (case x of (entries, requests, scopes) \<Rightarrow> (\<forall>s. count_where ((=) s) requests \<le> MAX_EARLY_REQUESTS) \<and>
        distinct (map fst scopes) \<and> set requests \<subseteq> fst ` set scopes)"

lemma bounds_shape:
  "bounds_ok (shape db) \<longleftrightarrow> (\<forall>i. activity_metadata_count db i \<le> MAX_ACTIVITY_ENTRIES) \<and>
     (\<forall>s. count_where (\<lambda>r. er_scope_id r = s) (db_early_requests db) \<le> MAX_EARLY_REQUESTS) \<and>
     distinct (map es_scope_id (db_early_scopes db)) \<and>
     er_scope_id ` set (db_early_requests db) \<subseteq> es_scope_id ` set (db_early_scopes db)"
proof -
  have ids: "map fst (map (\<lambda>s. (es_scope_id s, es_job_id s)) rows) = map es_scope_id rows" for rows :: "early_scope list"
    by (simp add: o_def)
  then have "fst ` set (map (\<lambda>s. (es_scope_id s, es_job_id s)) rows) = es_scope_id ` set rows" for rows :: "early_scope list"
    by (simp only: set_map [symmetric])
  then show ?thesis
    unfolding bounds_ok_def metadata_total [symmetric] unfolding shape_def prod.case ids count_map set_map
    by (simp only: eq_commute)
qed

definition scopes_ok :: "db \<Rightarrow> bool" where
  "scopes_ok db \<longleftrightarrow>
     (\<forall>s \<in> set (db_early_scopes db). \<forall>x \<in> set (db_early_scopes db).
        es_state s = Scope_open \<longrightarrow> es_state x = Scope_open \<longrightarrow> es_slot_key s = es_slot_key x \<longrightarrow> s = x) \<and>
     (\<forall>s \<in> set (db_early_scopes db). es_state s = Scope_open \<longrightarrow> epoch_is_current db s)"

definition modes_ok :: "db \<Rightarrow> bool" where
  "modes_ok db \<longleftrightarrow> distinct (map ta_job_id (db_task_activity db)) \<and>
     en_job_id ` set (db_activity_entries db) \<subseteq> ta_job_id ` set (db_task_activity db) \<and>
     (\<forall>a \<in> set (db_task_activity db). ta_mode a = progress_mode db (ta_job_id a))"

definition observations_ok :: "db \<Rightarrow> bool" where
  "observations_ok db \<longleftrightarrow> bounds_ok (shape db) \<and> scopes_ok db \<and> modes_ok db"

lemma observations_okD:
  assumes "observations_ok db"
  shows "bounds_ok (shape db)" "scopes_ok db" "modes_ok db" "distinct (map es_scope_id (db_early_scopes db))"
    "er_scope_id ` set (db_early_requests db) \<subseteq> es_scope_id ` set (db_early_scopes db)"
    "distinct (map ta_job_id (db_task_activity db))"
    "en_job_id ` set (db_activity_entries db) \<subseteq> ta_job_id ` set (db_task_activity db)"
  using assms unfolding observations_ok_def bounds_shape modes_ok_def by blast+

lemma shape_same: "observed_tables db' = observed_tables db \<Longrightarrow> shape db' = shape db"
  by (simp add: shape_def observed_tables_eq)

lemma scopes_same:
  assumes "db_early_scopes db' = db_early_scopes db" "db_runtime_epochs db' = db_runtime_epochs db"
  shows "scopes_ok db' = scopes_ok db"
  unfolding scopes_ok_def epoch_is_current_def assms ..

lemma modes_same:
  assumes "db_task_activity db' = db_task_activity db" "db_activity_entries db' = db_activity_entries db"
  shows "modes_ok db' = modes_ok db"
  unfolding modes_ok_def progress_mode_def assms ..

lemma observations_same:
  assumes "observed_tables db' = observed_tables db" "observations_ok db"
  shows "observations_ok db'"
proof -
  note t = assms(1) [unfolded observed_tables_eq]
  show ?thesis using assms(2) shape_same [OF assms(1)] scopes_same [of db' db] modes_same [of db' db] t
    by (simp only: observations_ok_def)
qed

section \<open>Scopes\<close>

lemma retire_requests_shape [simp]: "shape (retire_requests p db) = shape db"
  by (simp add: shape_def retire_requests_def map_update_where)

lemma close_scope_shape [simp]: "shape (close_scope i state now db) = shape db"
  by (simp add: shape_def close_scope_def map_update_where)

text \<open>Scopes are closed, and nothing else changes of what the invariant reads.\<close>

definition open_scopes :: "db \<Rightarrow> early_scope set" where
  "open_scopes db = {s \<in> set (db_early_scopes db). es_state s = Scope_open}"

definition scopes_close :: "db \<Rightarrow> db \<Rightarrow> bool" where
  "scopes_close db db' \<longleftrightarrow> shape db' = shape db \<and> db_task_activity db' = db_task_activity db \<and>
     db_activity_entries db' = db_activity_entries db \<and> db_runtime_epochs db' = db_runtime_epochs db \<and>
     open_scopes db' \<subseteq> open_scopes db"

lemma scopes_close_refl:
  assumes "observed_tables db' = observed_tables db"
  shows "scopes_close db db'"
  using shape_same [OF assms] assms unfolding observed_tables_eq scopes_close_def open_scopes_def by simp

lemma scopes_close_trans: "scopes_close a b \<Longrightarrow> scopes_close b c \<Longrightarrow> scopes_close a c"
  using subset_trans [of "open_scopes c" "open_scopes b" "open_scopes a"] by (simp add: scopes_close_def)

lemma scopes_close_ok: "scopes_close db db' \<Longrightarrow> observations_ok db \<Longrightarrow> observations_ok db'"
proof -
  assume c: "scopes_close db db'" and ok: "observations_ok db"
  have e: "epoch_is_current db' s = epoch_is_current db s" for s using c by (simp add: epoch_is_current_def scopes_close_def)
  have o': "s \<in> set (db_early_scopes db)" if "s \<in> set (db_early_scopes db')" "es_state s = Scope_open" for s
    using c that unfolding scopes_close_def open_scopes_def by blast
  have "scopes_ok db'" using ok o' e unfolding observations_ok_def scopes_ok_def by metis
  moreover have "modes_ok db'" using ok c modes_same [of db' db] by (simp add: observations_ok_def scopes_close_def)
  ultimately show ?thesis using ok c by (simp add: observations_ok_def scopes_close_def)
qed

lemma close_scope_closes: "state \<noteq> Scope_open \<Longrightarrow> scopes_close db (close_scope i state now db)"
  by (simp add: scopes_close_def) (auto simp: open_scopes_def close_scope_def set_update_where split: if_splits)

lemma retire_requests_closes: "scopes_close db (retire_requests p db)"
  by (simp add: scopes_close_def) (simp add: open_scopes_def retire_requests_def)

lemma supersede_closes: "scopes_close db (supersede_unsent p now db)"
  by (rule scopes_close_refl) simp

lemma retire_scope_closes: "scopes_close db (retire_scope i now db)"
proof (cases "\<exists>s. early_scope_of db i = Some s \<and> es_state s = Scope_open")
  case True
  then show ?thesis
    using scopes_close_trans [OF scopes_close_trans [OF supersede_closes retire_requests_closes] close_scope_closes]
    by (auto simp: retire_scope_def)
next
  case False
  then show ?thesis using scopes_close_refl [of db db] by (auto simp: retire_scope_def split: option.splits)
qed

lemma retire_all_closes: "scopes_close db (fold (\<lambda>s. retire_scope (es_scope_id s) now) rows db)"
  by (induction rows arbitrary: db) (auto intro: scopes_close_refl scopes_close_trans [OF retire_scope_closes])

lemma clear_slot_closes: "clear_slot profile rt now rows db = (b, db') \<Longrightarrow> scopes_close db db'"
  by (induction rows arbitrary: db)
    (auto simp: scopes_close_refl split: if_splits intro: scopes_close_trans [OF retire_scope_closes])

lemma bound_scope_closes: "bound_scope profile i rt now db = (x, db') \<Longrightarrow> scopes_close db db'"
  using retire_scope_closes scopes_close_refl by (auto simp: bound_scope_def split: option.splits if_splits)

lemma bound_scope_open:
  assumes "bound_scope profile i rt now db = (Some (s, turn), db')"
  shows "db' = db \<and> s \<in> set (db_early_scopes db) \<and> es_state s = Scope_open"
proof -
  obtain k where k: "i = Some k" "early_scope_of db k = Some s" using assms
    by (cases i) (auto simp: bound_scope_def split: option.splits if_splits)
  then show ?thesis using assms find_Some_set [of _ "db_early_scopes db" s]
    by (auto simp: bound_scope_def early_scope_of_def split: if_splits)
qed

lemma retire_early_closes: "scopes_close db (retire_early scope rt now db)"
  using retire_scope_closes scopes_close_refl by (auto simp: retire_early_def split: option.splits)

text \<open>When the open scopes of a slot are retired, none is left.\<close>

lemma retire_scope_gone:
  assumes "distinct (map es_scope_id (db_early_scopes db))" "s \<in> set (db_early_scopes db)"
  shows "\<forall>x \<in> set (db_early_scopes (retire_scope (es_scope_id s) now db)). es_scope_id x = es_scope_id s \<longrightarrow> es_state x \<noteq> Scope_open"
proof -
  have f: "early_scope_of db (es_scope_id s) = Some s" unfolding early_scope_of_def by (rule find_key_unique [OF assms])
  show ?thesis
  proof (cases "es_state s = Scope_open")
    case True
    then show ?thesis by (auto simp: retire_scope_def f close_scope_def set_update_where split: if_splits)
  next
    case False
    then show ?thesis using distinct_key_eq [OF assms(1) _ assms(2)] by (auto simp: retire_scope_def f)
  qed
qed

lemma scopes_close_ids: "scopes_close db db' \<Longrightarrow> map es_scope_id (db_early_scopes db') = map es_scope_id (db_early_scopes db)"
proof -
  assume "scopes_close db db'"
  then have "map fst (map (\<lambda>s. (es_scope_id s, es_job_id s)) (db_early_scopes db')) =
      map fst (map (\<lambda>s. (es_scope_id s, es_job_id s)) (db_early_scopes db))"
    by (simp add: scopes_close_def shape_def)
  then show ?thesis by (simp add: o_def)
qed

lemma retire_all_gone:
  assumes "distinct (map es_scope_id (db_early_scopes db))"
    "\<forall>x \<in> set (db_early_scopes db). es_state x = Scope_open \<longrightarrow> es_slot_key x = key \<longrightarrow> x \<in> set rows"
  shows "\<forall>x \<in> set (db_early_scopes (fold (\<lambda>s. retire_scope (es_scope_id s) now) rows db)). es_state x = Scope_open \<longrightarrow> es_slot_key x \<noteq> key"
  using assms
proof (induction rows arbitrary: db)
  case (Cons s rows)
  let ?db = "retire_scope (es_scope_id s) now db"
  have c: "scopes_close db ?db" by (rule retire_scope_closes)
  have "x \<in> set rows" if x: "x \<in> set (db_early_scopes ?db)" "es_state x = Scope_open" "es_slot_key x = key" for x
  proof -
    have "x \<in> set (db_early_scopes db)" using c x unfolding scopes_close_def open_scopes_def by blast
    moreover from this have "x \<noteq> s" using retire_scope_gone [OF Cons.prems(1), of x now] x by metis
    ultimately show ?thesis using Cons.prems(2) x by auto
  qed
  then show ?case using Cons.IH [of ?db] Cons.prems(1) scopes_close_ids [OF c] by simp
qed simp


lemma register_ok:
  assumes "register_epoch_tx agent slot token now db = Inr (rt, db')" "observations_ok db"
  shows "observations_ok db'"
proof (cases "db' = db")
  case False
  define key where "key = slot_key agent slot"
  define db1 where "db1 = fold (\<lambda>s. retire_scope (es_scope_id s) now) (open_in_slot db key) db"
  obtain f new where db': "db' = db1\<lparr>db_runtime_epochs := upsert_row re_slot_key f new (db_runtime_epochs db1)\<rparr>" "re_slot_key new = key"
    "\<And>e. re_slot_key (f e) = re_slot_key e"
    using assms(1) False by (auto simp: register_epoch_tx_def attempt_Inr Let_def key_def db1_def split: if_splits)
  have ok: "observations_ok db1" unfolding db1_def by (rule scopes_close_ok [OF retire_all_closes assms(2)])
  have "\<forall>x \<in> set (db_early_scopes db). es_state x = Scope_open \<longrightarrow> es_slot_key x = key \<longrightarrow> x \<in> set (open_in_slot db key)"
    by (simp add: open_in_slot_def)
  from retire_all_gone [OF observations_okD(4) [OF assms(2)] this, of now]
  have gone: "\<forall>s \<in> set (db_early_scopes db1). es_state s = Scope_open \<longrightarrow> es_slot_key s \<noteq> key" unfolding db1_def .
  have kept: "epoch_is_current db' s" if k: "epoch_is_current db1 s" "es_slot_key s \<noteq> key" for s
  proof -
    obtain e where e: "e \<in> set (db_runtime_epochs db1)" "re_slot_key e = es_slot_key s" "re_epoch e = es_epoch s"
      "re_instance_token e = es_instance_token s" "re_agent_id e = pr_agent_id (es_binding s)"
      using k(1) by (auto simp: epoch_is_current_def exists_row_iff)
    then have "e \<in> set (db_runtime_epochs db')" using k(2) db'(2) by (force simp: db'(1) upsert_row_def set_update_where)
    then show ?thesis using e by (auto simp: epoch_is_current_def exists_row_iff)
  qed
  have "db_early_scopes db' = db_early_scopes db1" by (simp add: db'(1))
  then have "scopes_ok db'" using observations_okD(2) [OF ok] gone kept unfolding scopes_ok_def by metis
  moreover have "modes_ok db'" "shape db' = shape db1" using ok modes_same [of db' db1] by (simp_all add: observations_ok_def db'(1) shape_def)
  ultimately show ?thesis using ok by (simp add: observations_ok_def)
qed (use assms(2) in simp)

text \<open>A new scope has a fresh identity, the only open place in its slot, and the epoch of its runtime.\<close>

lemma put_scope_ok:
  assumes "put_scope_row s db = Inr db'" "observations_ok db" "es_state s = Scope_open" "epoch_is_current db s"
  shows "observations_ok db'"
proof -
  have db': "db' = db\<lparr>db_early_scopes := db_early_scopes db @ [s]\<rparr>"
    and new: "\<forall>x \<in> set (db_early_scopes db). es_scope_id x \<noteq> es_scope_id s \<and> \<not> (es_slot_key x = es_slot_key s \<and> es_state x = Scope_open)"
    using assms(1) by (auto simp: put_scope_row_def exists_row_iff split: if_splits)
  have e: "epoch_is_current db' x = epoch_is_current db x" for x by (simp add: db' epoch_is_current_def)
  have scopes: "scopes_ok db'" using assms(2-4) new unfolding observations_ok_def scopes_ok_def e by (auto simp: db')
  have modes: "modes_ok db'" using assms(2) modes_same [of db' db] by (simp add: observations_ok_def db')
  note b = observations_okD(1) [OF assms(2)]
  have fresh: "es_scope_id s \<notin> er_scope_id ` set (db_early_requests db)"
    using observations_okD(5) [OF assms(2)] new by auto
  have "total_of (shape db') i = total_of (shape db) i" for i
  proof -
    have "count_where (\<lambda>r. (er_scope_id r, i) \<in> set (map (\<lambda>s. (es_scope_id s, es_job_id s)) (db_early_scopes db @ [s]))) (db_early_requests db) =
        count_where (\<lambda>r. (er_scope_id r, i) \<in> set (map (\<lambda>s. (es_scope_id s, es_job_id s)) (db_early_scopes db))) (db_early_requests db)"
      unfolding count_where_def using fresh by (intro arg_cong [where f = length] filter_cong) (auto simp: image_iff)
    then show ?thesis by (simp add: total_of_def shape_def db' count_map)
  qed
  then have "activity_metadata_count db' i \<le> MAX_ACTIVITY_ENTRIES" for i
    using b unfolding bounds_shape metadata_total by simp
  then have "bounds_ok (shape db')" using b new unfolding bounds_shape by (auto simp: db')
  then show ?thesis using scopes modes by (simp add: observations_ok_def)
qed

lemma open_scope_ok:
  assumes "open_scope_tx profile fresh i token rt thread root now db = Inr (x, db')" "observations_ok db"
  shows "observations_ok db'"
proof (cases "db' = db")
  case False
  then obtain b turn where live: "runtime_current db rt" "pr_agent_id b = rn_agent_id rt"
      "current_prepared_binding profile db i token now = Some (b, turn)"
    and run: "(case clear_slot profile rt now (open_in_slot db (rn_slot_key rt)) db of
                 (False, db1) \<Rightarrow> Inr (None, db1)
               | (True, db1) \<Rightarrow> attempt (put_scope_row \<lparr>es_scope_id = fresh, es_slot_key = rn_slot_key rt, es_epoch = rn_epoch rt,
                     es_instance_token = rn_instance_token rt, es_job_id = i, es_binding = b, es_state = Scope_open,
                     es_created_at = now, es_closed_at = None\<rparr> db1) (\<lambda>db2. Inr (Some fresh, db2))) = (Inr (x, db') :: state_error + string option \<times> db)"
    using assms(1) by (auto simp: open_scope_tx_def Let_def split: if_splits option.splits)
  obtain cleared db1 where c: "clear_slot profile rt now (open_in_slot db (rn_slot_key rt)) db = (cleared, db1)"
    by (cases "clear_slot profile rt now (open_in_slot db (rn_slot_key rt)) db")
  have close: "scopes_close db db1" by (rule clear_slot_closes [OF c])
  then have ok: "observations_ok db1" by (rule scopes_close_ok [OF _ assms(2)])
  show ?thesis
  proof (cases cleared)
    case True
    let ?s = "\<lparr>es_scope_id = fresh, es_slot_key = rn_slot_key rt, es_epoch = rn_epoch rt,
                     es_instance_token = rn_instance_token rt, es_job_id = i, es_binding = b, es_state = Scope_open,
                     es_created_at = now, es_closed_at = None\<rparr>"
    have "put_scope_row ?s db1 = Inr db'" using run c True by (auto simp: attempt_Inr)
    moreover have "epoch_is_current db1 ?s"
      using live(1,2) close by (simp add: epoch_is_current_def runtime_current_def exists_row_iff scopes_close_def) metis
    ultimately show ?thesis using put_scope_ok [OF _ ok] by simp
  next
    case False
    then show ?thesis using run c ok by simp
  qed
qed (use assms(2) in simp)

section \<open>Activities and entries\<close>

lemma activity_of_in: "activity_of db i = Some a \<Longrightarrow> a \<in> set (db_task_activity db) \<and> ta_job_id a = i"
  unfolding activity_of_def by (drule find_Some_set) simp

lemma bound_activity_Inr:
  "bound_activity db i token now = Inr a \<Longrightarrow> activity_of db i = Some a \<and> current_activity_binding db i token now = Some (ta_binding a)"
  by (auto simp: bound_activity_def live_binding_def attempt_Inr split: option.splits if_splits)

lemma progress_mode_cong:
  assumes "{x \<in> set (db_activity_entries db'). en_job_id x = i} = {x \<in> set (db_activity_entries db). en_job_id x = i}"
  shows "progress_mode db' i = progress_mode db i"
proof -
  have "exists_row (\<lambda>x. en_job_id x = i \<and> en_kind x = k \<and> en_state x = st) (db_activity_entries d) \<longleftrightarrow>
      (\<exists>x \<in> {x \<in> set (db_activity_entries d). en_job_id x = i}. en_kind x = k \<and> en_state x = st)" for k st and d :: db
    by (auto simp: exists_row_iff)
  then show ?thesis by (simp only: progress_mode_def assms)
qed

lemma bind_ok:
  assumes "bind_accepted_tx i token thread turn root now db = Inr (x, db')" "observations_ok db"
  shows "observations_ok db'"
proof (cases "activity_of db i")
  case (Some a)
  then have "db' = db" using assms(1) by (auto simp: bind_accepted_tx_def attempt_Inr)
  then show ?thesis using assms(2) by simp
next
  case None
  then obtain b where db': "db' = db\<lparr>db_task_activity := db_task_activity db @ [\<lparr>ta_job_id = i, ta_binding = b, ta_mode = Mode_ordinary,
      ta_last_meaningful_at = now, ta_episode = 0, ta_notified_episode = None\<rparr>]\<rparr>"
    using assms(1) by (auto simp: bind_accepted_tx_def attempt_Inr)
  have i: "i \<notin> ta_job_id ` set (db_task_activity db)" using None by (auto simp: activity_of_def find_None_exists exists_row_iff)
  then have "progress_mode db i = Mode_ordinary"
    using observations_okD(7) [OF assms(2)] by (auto simp: progress_mode_def exists_row_iff)
  moreover have p: "progress_mode db' k = progress_mode db k" for k by (simp add: progress_mode_def db')
  ultimately have "\<forall>a \<in> set (db_task_activity db'). ta_mode a = progress_mode db' (ta_job_id a)"
    using observations_okD(3) [OF assms(2)] unfolding p by (simp add: modes_ok_def db')
  moreover have "distinct (map ta_job_id (db_task_activity db'))"
    using observations_okD(6) [OF assms(2)] i by (simp add: db')
  moreover have "en_job_id ` set (db_activity_entries db') \<subseteq> ta_job_id ` set (db_task_activity db')"
    using observations_okD(7) [OF assms(2)] by (simp add: db') blast
  ultimately have "modes_ok db'" unfolding modes_ok_def by blast
  moreover have "shape db' = shape db" "scopes_ok db' = scopes_ok db"
    using scopes_same [of db' db] by (simp_all add: shape_def db')
  ultimately show ?thesis using assms(2) by (simp add: observations_ok_def)
qed

text \<open>The entries of one job change, and its activity is brought up to date.\<close>

lemma advance_modes_ok:
  assumes "modes_ok db" "i \<in> ta_job_id ` set (db_task_activity db)" "db_task_activity db1 = db_task_activity db"
    "\<And>k. k \<noteq> i \<Longrightarrow> {x \<in> set (db_activity_entries db1). en_job_id x = k} = {x \<in> set (db_activity_entries db). en_job_id x = k}"
  shows "modes_ok (advance_activity i now db1)"
proof -
  let ?db = "advance_activity i now db1"
  have rows: "db_activity_entries ?db = db_activity_entries db1" by (simp add: advance_activity_def supersede_unsent_def)
  have acts: "db_task_activity ?db = update_where (\<lambda>a. ta_job_id a = i)
       (\<lambda>a. a\<lparr>ta_mode := progress_mode db1 i, ta_last_meaningful_at := now, ta_episode := ta_episode a + 1,
              ta_notified_episode := None\<rparr>) (db_task_activity db)"
    by (simp add: advance_activity_def supersede_unsent_def assms(3))
  have ids: "map ta_job_id (db_task_activity ?db) = map ta_job_id (db_task_activity db)" by (simp add: acts map_update_where)
  have new: "progress_mode ?db k = progress_mode db1 k" for k by (simp add: progress_mode_def rows)
  have old: "progress_mode db1 k = progress_mode db k" if "k \<noteq> i" for k by (rule progress_mode_cong [OF assms(4) [OF that]])
  have "ta_mode a = progress_mode ?db (ta_job_id a)" if "a \<in> set (db_task_activity ?db)" for a
    using that assms(1) old by (auto simp: acts set_update_where new modes_ok_def split: if_splits)
  moreover have "en_job_id x \<in> ta_job_id ` set (db_task_activity db)" if "x \<in> set (db_activity_entries db1)" for x
  proof (cases "en_job_id x = i")
    case False
    then have "x \<in> set (db_activity_entries db)" using assms(4) [of "en_job_id x"] that by blast
    then show ?thesis using assms(1) by (auto simp: modes_ok_def)
  qed (use assms(2) in simp)
  moreover have "ta_job_id ` set (db_task_activity ?db) = ta_job_id ` set (db_task_activity db)"
    using arg_cong [OF ids, of set] by simp
  ultimately show ?thesis using assms(1) ids by (auto simp: modes_ok_def rows)
qed

lemma advance_shape: "shape (advance_activity i now db) = shape db"
  by (simp add: shape_def advance_activity_def supersede_unsent_def)

lemma advance_scopes: "scopes_ok (advance_activity i now db) = scopes_ok db"
  by (rule scopes_same) (simp_all add: advance_activity_def supersede_unsent_def)

lemma add_entry_bounds:
  assumes "bounds_ok (shape db)" "activity_metadata_count db (en_job_id x) < MAX_ACTIVITY_ENTRIES"
  shows "bounds_ok (shape (add_entry x db))"
proof -
  have "total_of (shape (add_entry x db)) i = total_of (shape db) i + (if i = en_job_id x then 1 else 0)" for i
    by (simp add: total_of_def shape_def add_entry_def count_where_def)
  then show ?thesis using assms unfolding metadata_total by (auto simp: bounds_ok_def shape_def add_entry_def)
qed

lemma entry_change_ok:
  assumes "observations_ok db" "i \<in> ta_job_id ` set (db_task_activity db)" "bounds_ok (shape db1)"
    "db_task_activity db1 = db_task_activity db" "db_early_scopes db1 = db_early_scopes db" "db_runtime_epochs db1 = db_runtime_epochs db"
    "\<And>k. k \<noteq> i \<Longrightarrow> {x \<in> set (db_activity_entries db1). en_job_id x = k} = {x \<in> set (db_activity_entries db). en_job_id x = k}"
  shows "observations_ok (advance_activity i now db1)"
  using assms(1,3) advance_modes_ok [OF _ assms(2,4) assms(7)] scopes_same [OF assms(5,6)]
  by (simp add: observations_ok_def advance_shape advance_scopes)

lemma add_entry_ok:
  assumes "observations_ok db" "en_job_id x \<in> ta_job_id ` set (db_task_activity db)"
    "activity_metadata_count db (en_job_id x) < MAX_ACTIVITY_ENTRIES"
  shows "observations_ok (advance_activity (en_job_id x) now (add_entry x db))"
proof (rule entry_change_ok [OF assms(1,2)])
  show "bounds_ok (shape (add_entry x db))" using add_entry_bounds assms(1,3) by (simp add: observations_ok_def)
qed (auto simp: add_entry_def)

lemma set_entry_ok:
  assumes "observations_ok db" "i \<in> ta_job_id ` set (db_task_activity db)"
  shows "observations_ok (advance_activity i now (set_entry i k key state db))"
proof (rule entry_change_ok [OF assms])
  have "shape (set_entry i k key state db) = shape db" by (simp add: shape_def set_entry_def map_update_where)
  then show "bounds_ok (shape (set_entry i k key state db))" using assms(1) by (simp add: observations_ok_def)
  show "{x \<in> set (db_activity_entries (set_entry i k key state db)). en_job_id x = m} =
      {x \<in> set (db_activity_entries db). en_job_id x = m}" if "m \<noteq> i" for m
    using that by (auto simp: set_entry_def set_update_where split: if_splits)
qed (simp_all add: set_entry_def)

lemma settled_ok: "observations_ok db \<Longrightarrow> observations_ok (approval_settled i key now db)"
  by (rule observations_same [of _ db]) (simp add: approval_settled_def)


section \<open>Every operation\<close>

lemma store_entry_ok:
  assumes "store_entry i (k, key, item) ev db = Inr (Some db1)" "observations_ok db" "i \<in> ta_job_id ` set (db_task_activity db)"
  shows "observations_ok (advance_activity i now db1)"
proof (cases "entry_of db i k key")
  case (Some p)
  then have "db1 = set_entry i k key (state_after (ev_kind ev)) db"
    using assms(1) by (auto simp: store_entry_def Let_def attempt_Inr split: if_splits)
  then show ?thesis using set_entry_ok [OF assms(2,3)] by simp
next
  case None
  then obtain x where "db1 = add_entry x db" "en_job_id x = i" "activity_metadata_count db i < MAX_ACTIVITY_ENTRIES"
    using assms(1) by (auto simp: store_entry_def Let_def split: if_splits)
  then show ?thesis using add_entry_ok [OF assms(2)] assms(3) by auto
qed

lemma bound_job: "bound_activity db i token now = Inr a \<Longrightarrow> i \<in> ta_job_id ` set (db_task_activity db)"
  by (auto dest!: bound_activity_Inr activity_of_in)

lemma record_tx_cases [consumes 1, case_names ignored stored]:
  assumes "record_activity_tx dg enabled nid i token ev now db = Inr (b, db')"
  obtains "\<not> b" "db' = db"
  | a k key item db1 where "b" "bound_activity db i token now = Inr a" "event_identity dg ev = Inr (Some (k, key, item))"
      "store_entry i (k, key, item) ev db = Inr (Some db1)"
      "(if ev_kind ev = Approval_resolved then db' = approval_settled i key now (advance_activity i now db1)
        else if ev_kind ev = Approval_requested \<and> enabled
        then \<exists>n. tell_activity a (approval_event_key i key) ''approval_wait'' (approval_notice_html (ev_category ev)) now nid
          (advance_activity i now db1) = Inr (n, db')
        else db' = advance_activity i now db1)"
proof -
  obtain a x where a: "bound_activity db i token now = Inr a" "event_identity dg ev = Inr x"
    and rest: "(case x of
       None \<Rightarrow> Inr (False, db)
     | Some (k, key, item) \<Rightarrow>
         if now < ta_last_meaningful_at a then Inr (False, db)
         else attempt (store_entry i (k, key, item) ev db) (\<lambda>stored.
           case stored of
             None \<Rightarrow> Inr (False, db)
           | Some db1 \<Rightarrow>
               let db2 = advance_activity i now db1 in
               if ev_kind ev = Approval_resolved then Inr (True, approval_settled i key now db2)
               else if ev_kind ev = Approval_requested \<and> enabled
               then attempt (tell_activity a (approval_event_key i key) ''approval_wait'' (approval_notice_html (ev_category ev))
                 now nid db2) (\<lambda>(n, db3). Inr (True, db3))
               else Inr (True, db2))) = (Inr (b, db') :: state_error + bool \<times> db)"
    using assms by (auto simp: record_activity_tx_def attempt_Inr)
  show thesis
  proof (cases x)
    case None
    then show thesis using rest that(1) by simp
  next
    case (Some y)
    obtain k key item where y: "y = (k, key, item)" by (cases y)
    show thesis
    proof (cases "now < ta_last_meaningful_at a")
      case True
      then show thesis using rest Some y that(1) by simp
    next
      case False
      then obtain stored where s: "store_entry i (k, key, item) ev db = Inr stored" using rest Some y by (auto simp: attempt_Inr)
      show thesis
      proof (cases stored)
        case None
        then show thesis using rest Some y s False that(1) by simp
      next
        case (Some db1)
        show thesis
        proof (rule that(2) [OF _ a(1) _ s [unfolded Some]])
          show b using rest \<open>x = Some y\<close> y s Some False by (auto simp: attempt_Inr Let_def split: if_splits)
          show "event_identity dg ev = Inr (Some (k, key, item))" using a(2) \<open>x = Some y\<close> y by simp
          show "if ev_kind ev = Approval_resolved then db' = approval_settled i key now (advance_activity i now db1)
            else if ev_kind ev = Approval_requested \<and> enabled
            then \<exists>n. tell_activity a (approval_event_key i key) ''approval_wait'' (approval_notice_html (ev_category ev)) now nid
              (advance_activity i now db1) = Inr (n, db')
            else db' = advance_activity i now db1"
            using rest \<open>x = Some y\<close> y s Some False by (auto simp: attempt_Inr Let_def split: if_splits)
        qed
      qed
    qed
  qed
qed

lemma record_ok:
  assumes "record_activity_tx dg enabled nid i token ev now db = Inr (b, db')" "observations_ok db"
  shows "observations_ok db'"
  using assms(1)
proof (cases rule: record_tx_cases)
  case (stored a k key item db1)
  have ok: "observations_ok (advance_activity i now db1)" by (rule store_entry_ok [OF stored(4) assms(2) bound_job [OF stored(2)]])
  from stored(5) show ?thesis
    using ok settled_ok [OF ok, of i key now] observations_same [OF tell_tables ok] by (auto split: if_splits)
qed (use assms(2) in simp)

text \<open>An import changes nothing, or adds the entry.\<close>

lemma import_cases [consumes 1, case_names same added]:
  assumes "import_approval_tx i token thread turn r now db = Inr (b, db')"
  obtains "db' = db"
  | a x where "b" "bound_activity db i token now = Inr a" "en_job_id x = i" "activity_metadata_count db i < MAX_ACTIVITY_ENTRIES"
      "db' \<in> {approval_settled i (er_identity r) now (advance_activity i now (add_entry x db)), advance_activity i now (add_entry x db)}"
proof -
  obtain a where a: "bound_activity db i token now = Inr a" using assms by (auto simp: import_approval_tx_def Let_def attempt_Inr)
  show thesis
  proof (cases "entry_of db i Approval_entry (er_identity r) = None \<and> activity_metadata_count db i < MAX_ACTIVITY_ENTRIES")
    case True
    let ?x = "\<lambda>state. \<lparr>en_job_id = i, en_kind = Approval_entry, en_identity = er_identity r, en_category = er_category r,
      en_item_identity = Some (er_item_identity r), en_state = state\<rparr>"
    have "b \<and> (db' = approval_settled i (er_identity r) now (advance_activity i now (add_entry (?x Entry_resolved) db)) \<or>
        db' = advance_activity i now (add_entry (?x Entry_pending) db))"
      using assms True by (auto simp: import_approval_tx_def Let_def attempt_Inr split: if_splits)
    then show thesis using True that(2) [OF _ a, of "?x Entry_resolved"] that(2) [OF _ a, of "?x Entry_pending"] by auto
  next
    case False
    then have "db' = db" using assms
      by (auto simp: import_approval_tx_def Let_def attempt_Inr split: option.splits if_splits)
    then show thesis by (rule that(1))
  qed
qed

lemma import_ok:
  assumes "import_approval_tx i token thread turn r now db = Inr (b, db')" "observations_ok db"
  shows "observations_ok db'"
  using assms(1)
proof (cases rule: import_cases)
  case (added a x)
  have ok: "observations_ok (advance_activity i now (add_entry x db))"
    using add_entry_ok [OF assms(2), of x now] bound_job [OF added(2)] added(3,4) by simp
  from added(5) show ?thesis using ok settled_ok [OF ok] by blast
qed (use assms(2) in simp)

lemma promote_requests_ok:
  assumes "promote_requests s thread turn now rows db = Inr db'" "observations_ok db"
  shows "observations_ok db'"
  using assms
proof (induction rows arbitrary: db)
  case (Cons r rows)
  obtain taken db1 where m: "(if er_observed_turn_id r = turn
         then import_approval_tx (es_job_id s) (pr_lease_token (es_binding s)) thread turn r now db else Inr (False, db)) = Inr (taken, db1)"
    and rest: "promote_requests s thread turn now rows (if taken then db1
        else supersede_unsent (\<lambda>n. nt_event_key n = er_event_key r) now
          (retire_requests (\<lambda>x. er_scope_id x = es_scope_id s \<and> er_identity x = er_identity r) db1)) = Inr db'"
    using Cons.prems(1) by (auto simp: attempt_Inr)
  have ok: "observations_ok db1" using m import_ok Cons.prems(2) by (auto split: if_splits)
  then have "observations_ok (supersede_unsent p now (retire_requests q db1))" for p q
    using scopes_close_ok [OF scopes_close_trans [OF retire_requests_closes supersede_closes]] by blast
  then show ?case using Cons.IH [OF rest] ok by simp
qed simp

lemma promote_ok:
  assumes "promote_tx profile scope rt thread turn now db = Inr (b, db')" "observations_ok db"
  shows "observations_ok db'"
proof -
  obtain x db1 where m: "bound_scope profile scope rt now db = (x, db1)" by (cases "bound_scope profile scope rt now db")
  have ok: "observations_ok db1" by (rule scopes_close_ok [OF bound_scope_closes [OF m] assms(2)])
  show ?thesis
  proof (cases x)
    case None
    then show ?thesis using assms(1) m ok by (simp add: promote_tx_def)
  next
    case (Some y)
    obtain s saved where y: "y = (s, saved)" by (cases y)
    obtain rows db2 where "promote_requests s thread turn now rows db1 = Inr db2" "db' = close_scope (es_scope_id s) Scope_promoted now db2"
      using assms(1) m Some y by (auto simp: promote_tx_def attempt_Inr)
    then show ?thesis using scopes_close_ok [OF close_scope_closes] promote_requests_ok [OF _ ok] by simp
  qed
qed

lemma count_filter: "count_where p (filter q xs) \<le> count_where p xs"
  by (induction xs) (auto simp: count_where_def)

lemma retire_observation_ok:
  assumes "observations_ok db"
  shows "observations_ok (snd (retire_observation i token now db))"
proof (cases "exists_row (\<lambda>a. ta_job_id a = i \<and> av_lease_token (ta_binding a) = token) (db_task_activity db)")
  case True
  then obtain a where a: "a \<in> set (db_task_activity db)" "ta_job_id a = i" "av_lease_token (ta_binding a) = token"
    by (auto simp: exists_row_iff)
  let ?db = "db\<lparr>db_activity_entries := filter (\<lambda>x. en_job_id x \<noteq> i) (db_activity_entries db),
            db_task_activity := filter (\<lambda>a. \<not> (ta_job_id a = i \<and> av_lease_token (ta_binding a) = token)) (db_task_activity db)\<rparr>"
  note D = observations_okD [OF assms]
  have gone: "ta_job_id x \<noteq> i" if "x \<in> set (db_task_activity ?db)" for x
    using distinct_key_eq [OF D(6) _ a(1), of x] that a by auto
  have p: "progress_mode ?db k = progress_mode db k" if "k \<noteq> i" for k
    by (rule progress_mode_cong) (use that in auto)
  have "\<forall>x \<in> set (db_task_activity ?db). ta_mode x = progress_mode ?db (ta_job_id x)"
  proof
    fix x assume x: "x \<in> set (db_task_activity ?db)"
    then have "ta_mode x = progress_mode db (ta_job_id x)" using D(3) by (simp add: modes_ok_def)
    then show "ta_mode x = progress_mode ?db (ta_job_id x)" unfolding p [OF gone [OF x]] .
  qed
  moreover have "distinct (map ta_job_id (db_task_activity ?db))" using D(6) by (simp add: distinct_map_filter)
  moreover have "en_job_id ` set (db_activity_entries ?db) \<subseteq> ta_job_id ` set (db_task_activity ?db)"
    using D(7) by auto
  ultimately have "modes_ok ?db" unfolding modes_ok_def by blast
  moreover have "activity_metadata_count ?db k \<le> MAX_ACTIVITY_ENTRIES" for k
  proof -
    have "activity_metadata_count ?db k \<le> activity_metadata_count db k" by (simp add: activity_metadata_count_def count_filter)
    also have "\<dots> \<le> MAX_ACTIVITY_ENTRIES" using D(1) unfolding bounds_shape by blast
    finally show ?thesis .
  qed
  then have "bounds_ok (shape ?db)" using D(1) unfolding bounds_shape by simp
  moreover have "scopes_ok ?db" using D(2) scopes_same [of ?db db] by simp
  ultimately have "observations_ok ?db" by (simp add: observations_ok_def)
  then show ?thesis using True by (simp add: retire_observation_def observations_same [OF supersede_tables])
next
  case False
  then show ?thesis using assms by (simp add: retire_observation_def)
qed

lemma mark_told_ok: "observations_ok db \<Longrightarrow> observations_ok (mark_told i db)"
proof -
  assume ok: "observations_ok db"
  have p: "progress_mode (mark_told i db) k = progress_mode db k" for k by (simp add: progress_mode_def mark_told_def)
  have "map ta_job_id (db_task_activity (mark_told i db)) = map ta_job_id (db_task_activity db)"
    by (simp add: mark_told_def map_update_where)
  then have "ta_job_id ` set (db_task_activity (mark_told i db)) = ta_job_id ` set (db_task_activity db)"
      "distinct (map ta_job_id (db_task_activity (mark_told i db)))"
    using observations_okD(6) [OF ok] by (metis set_map, simp)
  moreover have "\<forall>a \<in> set (db_task_activity (mark_told i db)). ta_mode a = progress_mode db (ta_job_id a)"
    using observations_okD(3) [OF ok] by (auto simp: mark_told_def set_update_where modes_ok_def)
  moreover have "db_activity_entries (mark_told i db) = db_activity_entries db" by (simp add: mark_told_def)
  ultimately have "modes_ok (mark_told i db)" using observations_okD(7) [OF ok] unfolding modes_ok_def p by simp
  moreover have "shape (mark_told i db) = shape db" "scopes_ok (mark_told i db) = scopes_ok db"
    using scopes_same [of "mark_told i db" db] by (simp_all add: shape_def mark_told_def)
  ultimately show ?thesis using ok by (simp add: observations_ok_def)
qed

lemma tell_quiet_ok:
  "tell_quiet ids ordinary tool now rows db = Inr (ns, db') \<Longrightarrow> observations_ok db \<Longrightarrow> observations_ok db'"
proof (induction rows arbitrary: db ns)
  case (Cons a rows)
  show ?case
  proof (cases "overdue db ordinary tool now a")
    case True
    then obtain n db1 ms where m: "tell_activity a (no_progress_key (ta_job_id a) (ta_episode a)) ''no_progress'' (quiet_html (ta_mode a)) now
             (ids (no_progress_key (ta_job_id a) (ta_episode a))) db = Inr (n, db1)"
        "tell_quiet ids ordinary tool now rows (mark_told (ta_job_id a) db1) = Inr (ms, db')"
      using Cons.prems(1) by (auto simp: attempt_Inr)
    then show ?thesis using Cons.IH [OF m(2)] mark_told_ok [OF observations_same [OF tell_tables [OF m(1)] Cons.prems(2)]] by blast
  qed (use Cons in simp)
qed simp

lemma put_request_ok:
  assumes "put_request r db = Inr db'" "observations_ok db" "s \<in> set (db_early_scopes db)" "er_scope_id r = es_scope_id s"
    "count_where (\<lambda>x. er_scope_id x = es_scope_id s) (db_early_requests db) < MAX_EARLY_REQUESTS"
    "activity_metadata_count db (es_job_id s) < MAX_ACTIVITY_ENTRIES"
  shows "observations_ok db'"
proof -
  have db': "db' = db\<lparr>db_early_requests := db_early_requests db @ [r]\<rparr>"
    using assms(1) by (auto simp: put_request_def split: if_splits)
  note D = observations_okD [OF assms(2)]
  have "exists_row (\<lambda>x. es_scope_id x = es_scope_id s \<and> es_job_id x = i) (db_early_scopes db) \<longleftrightarrow> i = es_job_id s" for i
    using distinct_key_eq [OF D(4) _ assms(3)] assms(3) by (auto simp: exists_row_iff)
  then have "activity_metadata_count db' i = activity_metadata_count db i + (if i = es_job_id s then 1 else 0)" for i
    by (simp add: activity_metadata_count_def count_where_def db' assms(4))
  then have "activity_metadata_count db' i \<le> MAX_ACTIVITY_ENTRIES" for i
    using D(1) assms(6) unfolding bounds_shape by (cases "i = es_job_id s") simp_all
  moreover have "count_where (\<lambda>x. er_scope_id x = k) (db_early_requests db') \<le> MAX_EARLY_REQUESTS" for k
    using D(1) assms(5) unfolding bounds_shape by (cases "k = es_scope_id s") (simp_all add: count_where_def db' assms(4))
  ultimately have "bounds_ok (shape db')" using D(4,5) assms(3) unfolding bounds_shape by (auto simp: db' assms(4))
  moreover have "modes_ok db'" "scopes_ok db'"
    using D(2,3) modes_same [of db' db] scopes_same [of db' db] by (simp_all add: db')
  ultimately show ?thesis by (simp add: observations_ok_def)
qed

lemma store_request_ok:
  assumes "store_request enabled nid s ev key item now db = Inr (b, db')" "observations_ok db" "s \<in> set (db_early_scopes db)"
  shows "observations_ok db'"
proof (cases "db' = db")
  case False
  then have "(\<exists>event_key. db' = resolve_request (es_scope_id s) key event_key now db) \<or>
     (\<exists>r db1. put_request r db = Inr db1 \<and> er_scope_id r = es_scope_id s \<and>
        count_where (\<lambda>x. er_scope_id x = es_scope_id s) (db_early_requests db) < MAX_EARLY_REQUESTS \<and>
        activity_metadata_count db (es_job_id s) < MAX_ACTIVITY_ENTRIES \<and>
        (db' = db1 \<or> (\<exists>d x. prepare_notice d now nid db1 = Inr (x, db'))))"
  proof (cases "ev_kind ev = Approval_resolved")
    case True
    then show ?thesis using assms(1) False by (auto simp: store_request_def Let_def attempt_Inr split: if_splits)
  next
    case new: False
    then obtain r db1 where "put_request r db = Inr db1" "er_scope_id r = es_scope_id s"
        "count_where (\<lambda>x. er_scope_id x = es_scope_id s) (db_early_requests db) < MAX_EARLY_REQUESTS"
        "activity_metadata_count db (es_job_id s) < MAX_ACTIVITY_ENTRIES"
        "if enabled then prepare_notice (activity_draft (approval_event_key (es_job_id s) key) ''approval_wait'' (es_job_id s)
            (pr_chat_id (es_binding s)) (pr_thread_id (es_binding s)) (approval_notice_html (ev_category ev))) now nid db1 \<in>
            {y. \<exists>x. y = Inr (x, db')} else db' = db1"
      using assms(1) False by (auto simp: store_request_def Let_def attempt_Inr split: if_splits)
    moreover from this(5) have "db' = db1 \<or> (\<exists>d x. prepare_notice d now nid db1 = Inr (x, db'))"
      by (auto split: if_splits)
    ultimately show ?thesis by blast
  qed
  then consider event_key where "db' = resolve_request (es_scope_id s) key event_key now db"
    | r db1 where "put_request r db = Inr db1" "er_scope_id r = es_scope_id s"
        "count_where (\<lambda>x. er_scope_id x = es_scope_id s) (db_early_requests db) < MAX_EARLY_REQUESTS"
        "activity_metadata_count db (es_job_id s) < MAX_ACTIVITY_ENTRIES"
        "db' = db1 \<or> (\<exists>d x. prepare_notice d now nid db1 = Inr (x, db'))"
    by blast
  then show ?thesis
  proof cases
    case 1
    have "scopes_close db db'"
      unfolding 1 resolve_request_def
      by (rule scopes_close_trans [OF _ supersede_closes]) (simp add: scopes_close_def shape_def map_update_where open_scopes_def)
    then show ?thesis by (rule scopes_close_ok [OF _ assms(2)])
  next
    case 2
    have ok: "observations_ok db1" by (rule put_request_ok [OF 2(1) assms(2,3) 2(2-4)])
    from 2(5) show ?thesis using ok observations_same [OF prepare_tables ok] by blast
  qed
qed (use assms(2) in simp)

lemma observe_ok:
  assumes "observe_request_tx profile enabled dg nid scope rt ev now db = Inr (b, db')" "observations_ok db"
  shows "observations_ok db'"
proof -
  obtain x db1 where m: "bound_scope profile scope rt now db = (x, db1)" by (cases "bound_scope profile scope rt now db")
  have ok: "observations_ok db1" by (rule scopes_close_ok [OF bound_scope_closes [OF m] assms(2)])
  show ?thesis
  proof (cases x)
    case None
    then show ?thesis using assms(1) m ok by (simp add: observe_request_tx_def)
  next
    case (Some y)
    obtain s turn where y: "y = (s, turn)" by (cases y)
    have "db' = db1 \<or> (\<exists>key item. store_request enabled nid s ev key item now db1 = Inr (b, db'))"
      using assms(1) m Some y by (auto simp: observe_request_tx_def attempt_Inr split: if_splits)
    then show ?thesis using ok store_request_ok [OF _ ok] bound_scope_open [of profile scope rt now db s turn db1] m Some y by blast
  qed
qed


section \<open>The runs\<close>

record approval_env =
  ap_profile :: "state_error + string option"
  ap_digest :: "string \<Rightarrow> string"
  ap_enabled :: bool
  ap_ids :: "string \<Rightarrow> string"

datatype approval_op =
    Register_worker string int string time
  | Open_scope string string string runtime string string time
  | Observe_approval string "string option" runtime activity_event time
  | Retire_scope "string option" runtime time
  | Accept_turn observed_turn "string option" string string time
  | Bind_turn string string string string string time
  | Observe_turn string string string activity_event time
  | Retire_turn string string time
  | Look_for_quiet int int time

fun run_approval_op :: "approval_env \<Rightarrow> approval_op \<Rightarrow> db \<Rightarrow> db" where
  "run_approval_op e (Register_worker agent slot token now) db = snd (register_runtime agent slot token now db)"
| "run_approval_op e (Open_scope fresh i token rt thread root now) db =
     snd (open_scope (ap_profile e) fresh i token rt thread root now db)"
| "run_approval_op e (Observe_approval nid scope rt ev now) db =
     snd (observe_early (ap_profile e) (ap_enabled e) (ap_digest e) nid scope rt ev now db)"
| "run_approval_op e (Retire_scope scope rt now) db = retire_early scope rt now db"
| "run_approval_op e (Accept_turn o' scope thread turn now) db = snd (transact (accept_tx (ap_profile e) o' scope thread turn now) db)"
| "run_approval_op e (Bind_turn i token thread turn root now) db = snd (bind_accepted i token thread turn root now db)"
| "run_approval_op e (Observe_turn nid i token ev now) db = snd (record_activity (ap_digest e) (ap_enabled e) nid i token ev now db)"
| "run_approval_op e (Retire_turn i token now) db = snd (retire_observation i token now db)"
| "run_approval_op e (Look_for_quiet ordinary tool now) db = snd (evaluate (ap_enabled e) (ap_ids e) ordinary tool now db)"

lemma transact_observations:
  assumes "\<And>x db'. f db = Inr (x, db') \<Longrightarrow> observations_ok db'" "observations_ok db"
  shows "observations_ok (snd (transact f db))"
  using assms by (auto simp: transact_def split: sum.splits)

lemma approval_op_ok: "observations_ok db \<Longrightarrow> observations_ok (run_approval_op e op db)"
proof (induction op)
  case (Accept_turn o' scope thread turn now)
  have "observations_ok db'" if a: "accept_tx (ap_profile e) o' scope thread turn now db = Inr (x, db')" for x db'
  proof -
    obtain b db1 where "bind_accepted_tx (ot_job_id o') (ot_token o') thread turn (ot_project_root o') now db = Inr (b, db1)"
      and p: "(case ot_runtime o' of None \<Rightarrow> Inr (False, db1)
        | Some rt \<Rightarrow> promote_tx (ap_profile e) scope rt thread turn now db1) = Inr (x, db')"
      using a by (auto simp: accept_tx_def attempt_Inr)
    then have "observations_ok db1" using bind_ok Accept_turn by blast
    then show ?thesis using p promote_ok by (auto split: option.splits)
  qed
  then show ?case unfolding run_approval_op.simps by (rule transact_observations [OF _ Accept_turn])
next
  case (Look_for_quiet ordinary tool now)
  have "observations_ok db'" if "evaluate_tx (ap_enabled e) (ap_ids e) ordinary tool now db = Inr (x, db')" for x db'
    using that tell_quiet_ok Look_for_quiet by (auto simp: evaluate_tx_def attempt_Inr split: if_splits)
  then show ?case unfolding run_approval_op.simps evaluate_def by (rule transact_observations [OF _ Look_for_quiet])
next
  case (Retire_scope scope rt now)
  then show ?case using scopes_close_ok [OF retire_early_closes] by simp
next
  case (Retire_turn i token now)
  then show ?case using retire_observation_ok by simp
qed (simp_all add: register_runtime_def open_scope_def observe_early_def bind_accepted_def record_activity_def transact_observations
  register_ok open_scope_ok observe_ok bind_ok record_ok)

text \<open>Whatever else the hub does, it does not write these tables.\<close>

inductive observed_run :: "approval_env \<Rightarrow> db \<Rightarrow> bool" for e where
  nothing_observed: "observed_tables db = ([], [], [], [], []) \<Longrightarrow> observed_run e db"
| observes: "observed_run e db \<Longrightarrow> observed_run e (run_approval_op e op db)"
| elsewhere: "observed_run e db \<Longrightarrow> observed_tables db' = observed_tables db \<Longrightarrow> observed_run e db'"

lemma observed_run_ok: "observed_run e db \<Longrightarrow> observations_ok db"
proof (induction rule: observed_run.induct)
  case (nothing_observed db)
  then show ?case
    by (simp add: observed_tables_def observations_ok_def bounds_shape scopes_ok_def modes_ok_def activity_metadata_count_def count_where_def)
next
  case (observes db op)
  show ?case by (rule approval_op_ok [OF observes.IH])
next
  case (elsewhere db db')
  show ?case by (rule observations_same [OF elsewhere.hyps(2) elsewhere.IH])
qed

lemma distinct_only:
  assumes "distinct xs" "s \<in> set xs" "\<And>x. x \<in> set xs \<Longrightarrow> x = s"
  shows "xs = [s]"
proof -
  have xs: "set xs = {s}" using assms(2,3) by blast
  then have "length xs = 1" using distinct_card [OF assms(1)] by simp
  then obtain y where "xs = [y]" by (cases xs) auto
  then show ?thesis using xs by simp
qed



section \<open>An example\<close>

text \<open>A worker registers and opens a scope for the job it runs.\<close>

definition watched_job :: provider_job where "watched_job = example_job ''a'' 1 Executing"

definition watched_session :: session_row where
  "watched_session = \<lparr>ss_session_id = ''s'', ss_topic_id = 1, ss_agent_id = ''codex'', ss_generation = 1,
     ss_status = Active, ss_model = ''m'', ss_effort = ''e'', ss_provider_session_id = Some ''th'', ss_terminal_name = None,
     ss_writer_mode = Telegram_writer, ss_context_remaining_percent = None, ss_codex_permission_profile = None,
     ss_created_at = 0, ss_updated_at = 0\<rparr>"

definition watched_checkpoint :: "string option \<Rightarrow> execution_checkpoint" where
  "watched_checkpoint turn = \<lparr>cp_job_id = ''a'', cp_provider_thread_id = ''th'', cp_project_root = ''/p'',
     cp_provider_turn_id = turn, cp_completed_text = None, cp_codex_permission_profile = None\<rparr>"

definition watched_hub :: "string option \<Rightarrow> db" where
  "watched_hub turn = (example_hub [watched_job])\<lparr>db_sessions := [watched_session], db_checkpoints := [watched_checkpoint turn]\<rparr>"

lemma watched_hub_sel:
  "db_jobs (watched_hub turn) = [watched_job]" "db_topics (watched_hub turn) = [example_topic]"
  "db_sessions (watched_hub turn) = [watched_session]" "db_checkpoints (watched_hub turn) = [watched_checkpoint turn]"
  "db_stops (watched_hub turn) = []" "db_task_activity (watched_hub turn) = []" "db_activity_entries (watched_hub turn) = []"
  "db_runtime_epochs (watched_hub turn) = []" "db_early_scopes (watched_hub turn) = []" "db_early_requests (watched_hub turn) = []"
  "db_notices (watched_hub turn) = []"
  by (simp_all add: watched_hub_def example_hub_def empty_db_def)

text \<open>The running turn is seen in every database with these rows.\<close>

lemma watched_turn:
  assumes "db_jobs db = [watched_job]" "db_topics db = [example_topic]" "db_sessions db = [watched_session]"
    "db_checkpoints db = [watched_checkpoint turn]" "db_stops db = []"
  shows "running_turn db ''a'' ''t'' 5 = Some (watched_job, example_topic, watched_session, watched_checkpoint turn)"
proof -
  have "job_of db ''a'' = Some watched_job" "topic_of db 1 = Some example_topic" "session_of db ''s'' = Some watched_session"
      "checkpoint_of db ''a'' = Some (watched_checkpoint turn)"
    by (simp_all add: job_of_def topic_of_def session_of_def checkpoint_of_def assms watched_job_def example_job_def Let_def
      example_topic_def watched_session_def watched_checkpoint_def)
  moreover have "pj_topic_id watched_job = 1" "pj_session_id watched_job = ''s''" "pj_status watched_job = Executing"
      "pj_lease_token watched_job = Some ''t''" "pj_lease_expires_at watched_job = Some 50" "pj_chat_id watched_job = 7"
      "pj_agent_id watched_job = ''codex''" "pj_session_generation watched_job = 1"
    by (simp_all add: watched_job_def example_job_def)
  moreover have "in_place (cp_project_root (watched_checkpoint turn)) example_topic"
    by (simp add: in_place_def topic_scope_def example_topic_def watched_checkpoint_def)
  moreover have "tp_chat_id example_topic = 7" by (simp add: example_topic_def)
  ultimately show ?thesis
    by (simp add: running_turn_def assms(5) exists_row_def after_def retained_def) (simp add: watched_session_def watched_checkpoint_def)
qed

definition watched_runtime :: runtime where
  "watched_runtime = \<lparr>rn_slot_key = slot_key ''codex'' 1, rn_agent_id = ''codex'', rn_epoch = 1, rn_instance_token = ''w1''\<rparr>"

definition watched_epoch :: runtime_epoch where
  "watched_epoch = \<lparr>re_slot_key = slot_key ''codex'' 1, re_agent_id = ''codex'', re_worker_slot = 1, re_epoch = 1,
     re_instance_token = ''w1'', re_registered_at = 4\<rparr>"

definition watched_binding :: prepared_binding where
  "watched_binding = \<lparr>pr_lease_token = ''t'', pr_topic_id = 1, pr_project_id = ''p'', pr_execution_scope = ''root:/p'', pr_chat_id = 7,
     pr_thread_id = 3, pr_session_id = ''s'', pr_session_generation = 1, pr_agent_id = ''codex'', pr_provider_thread_id = ''th'',
     pr_project_root = ''/p'', pr_codex_permission_profile = None\<rparr>"

definition watched_scope :: early_scope where
  "watched_scope = \<lparr>es_scope_id = ''x'', es_slot_key = slot_key ''codex'' 1, es_epoch = 1, es_instance_token = ''w1'',
     es_job_id = ''a'', es_binding = watched_binding, es_state = Scope_open, es_created_at = 5, es_closed_at = None\<rparr>"

definition scoped_hub :: "string option \<Rightarrow> db" where
  "scoped_hub turn = (watched_hub turn)\<lparr>db_runtime_epochs := [watched_epoch], db_early_scopes := [watched_scope]\<rparr>"

lemma watched_prepared:
  assumes "db_jobs db = [watched_job]" "db_topics db = [example_topic]" "db_sessions db = [watched_session]"
    "db_checkpoints db = [watched_checkpoint turn]" "db_stops db = []"
  shows "current_prepared_binding (Inr None) db ''a'' ''t'' 5 = Some (watched_binding, turn)"
proof -
  have "cp_codex_permission_profile (watched_checkpoint turn) = None" "pj_codex_permission_profile watched_job = None"
      "ss_codex_permission_profile watched_session = None"
    by (simp_all add: watched_checkpoint_def watched_job_def example_job_def watched_session_def)
  then show ?thesis
    by (simp add: current_prepared_binding_def watched_turn [OF assms] watched_binding_def)
      (simp add: watched_job_def example_job_def example_topic_def topic_scope_def watched_checkpoint_def)
qed

lemma worker_registers:
  "register_runtime ''codex'' 1 ''w1'' 4 (watched_hub None) = (Inr watched_runtime, (watched_hub None)\<lparr>db_runtime_epochs := [watched_epoch]\<rparr>)"
proof -
  have "plain_identity ''codex''" "plain_identity ''w1''" by (simp_all add: plain_identity_def identity_char_def)
  then show ?thesis
    by (simp add: register_runtime_def transact_def register_epoch_tx_def check_def Let_def open_in_slot_def watched_hub_sel upsert_row_def
      exists_row_def watched_runtime_def watched_epoch_def)
qed

lemma scope_opens:
  "open_scope (Inr None) ''x'' ''a'' ''t'' watched_runtime ''th'' ''/p'' 5 ((watched_hub None)\<lparr>db_runtime_epochs := [watched_epoch]\<rparr>) =
     (Inr (Some ''x''), scoped_hub None)"
proof -
  let ?db = "(watched_hub None)\<lparr>db_runtime_epochs := [watched_epoch]\<rparr>"
  have "runtime_current ?db watched_runtime"
    by (simp add: runtime_current_def exists_row_def watched_epoch_def watched_runtime_def)
  moreover have "current_prepared_binding (Inr None) ?db ''a'' ''t'' 5 = Some (watched_binding, None)"
    by (rule watched_prepared) (simp_all add: watched_hub_sel)
  ultimately show ?thesis
    by (simp add: open_scope_def transact_def open_scope_tx_def open_in_slot_def watched_hub_sel put_scope_row_def exists_row_def
      watched_binding_def watched_runtime_def scoped_hub_def watched_scope_def)
qed

definition example_approvals :: approval_env where
  "example_approvals = \<lparr>ap_profile = Inr None, ap_digest = (\<lambda>x. x), ap_enabled = True, ap_ids = (\<lambda>k. k)\<rparr>"

lemma scoped_run: "observed_run example_approvals (scoped_hub None)"
proof -
  have "observed_run example_approvals (watched_hub None)"
    by (rule nothing_observed) (simp add: observed_tables_def watched_hub_sel)
  from observes [OF observes [OF this, of "Register_worker ''codex'' 1 ''w1'' 4"], of "Open_scope ''x'' ''a'' ''t'' watched_runtime ''th'' ''/p'' 5"]
  show ?thesis by (simp add: worker_registers scope_opens example_approvals_def)
qed


end
