(* ===== verification/Notice_Truth.thy ===== *)
theory Notice_Truth
  imports Approval_Properties
begin

text \<open>
  The notices about a running turn: one that is sent for the first time is true of the turn at that
  moment, and a lack of progress is told once for an episode.
\<close>

section \<open>A notice that is sent is true\<close>

lemma activity_current_turn:
  assumes "current_activity_binding db i token now = Some b"
  shows "\<exists>j t s c. running_turn db i token now = Some (j, t, s, c) \<and> av_chat_id b = pj_chat_id j \<and> av_thread_id b = tp_thread_id t"
  using assms by (auto simp: current_activity_binding_def split: option.splits)

lemma prepared_current_turn:
  assumes "current_prepared_binding profile db i token now = Some (b, turn)"
  shows "\<exists>j t s c. running_turn db i token now = Some (j, t, s, c) \<and> pr_chat_id b = pj_chat_id j \<and> pr_thread_id b = tp_thread_id t"
  using assms by (auto simp: current_prepared_binding_def split: sum.splits option.splits if_splits)

lemma key_of_prefix: "starts_with k (approval_event_key i []) \<Longrightarrow> k = approval_event_key i (drop (length (approval_event_key i [])) k)"
proof -
  assume "starts_with k (approval_event_key i [])"
  then have "k = approval_event_key i [] @ drop (length (approval_event_key i [])) k"
    by (metis starts_with_def append_take_drop_id)
  then show ?thesis by (simp add: approval_event_key_def)
qed

text \<open>What is true of the turn when such a notice is current.\<close>

definition tells_the_truth :: "db \<Rightarrow> task_notice \<Rightarrow> time \<Rightarrow> bool" where
  "tells_the_truth db n now \<longleftrightarrow>
     (\<exists>i token j t s c. nt_job_id n = Some i \<and> running_turn db i token now = Some (j, t, s, c) \<and>
        nt_chat_id n = pj_chat_id j \<and> nt_thread_id n = tp_thread_id t \<and>
        (if nt_kind n = ''no_progress''
         then \<exists>a. activity_of db i = Some a \<and> ta_mode a \<noteq> Mode_approval \<and> ta_notified_episode a = Some (ta_episode a) \<and>
           nt_event_key n = no_progress_key i (ta_episode a) \<and> ta_last_meaningful_at a \<le> nt_created_at n
         else (\<exists>r \<in> set (db_early_requests db). er_event_key r = nt_event_key n \<and> er_state r = Request_pending) \<or>
           (\<exists>x \<in> set (db_activity_entries db). en_job_id x = i \<and> en_kind x = Approval_entry \<and> en_state x = Entry_pending \<and>
              nt_event_key n = approval_event_key i (en_identity x))))"

lemma activity_notice_true:
  assumes "activity_notice_is_current db n now" shows "tells_the_truth db n now"
proof -
  obtain i a where a: "nt_job_id n = Some i" "activity_of db i = Some a"
      "current_activity_binding db i (av_lease_token (ta_binding a)) now = Some (ta_binding a)"
      "nt_chat_id n = av_chat_id (ta_binding a)" "nt_thread_id n = av_thread_id (ta_binding a)"
      "if nt_kind n = ''no_progress''
       then ta_mode a \<noteq> Mode_approval \<and> ta_notified_episode a = Some (ta_episode a) \<and>
         ta_last_meaningful_at a \<le> nt_created_at n \<and> nt_event_key n = no_progress_key i (ta_episode a)
       else starts_with (nt_event_key n) (approval_event_key i []) \<and>
         exists_row (\<lambda>x. en_job_id x = i \<and> en_kind x = Approval_entry \<and>
           en_identity x = drop (length (approval_event_key i [])) (nt_event_key n) \<and> en_state x = Entry_pending) (db_activity_entries db)"
    using assms by (auto simp: activity_notice_is_current_def split: option.splits if_splits)
  obtain j t s c where r: "running_turn db i (av_lease_token (ta_binding a)) now = Some (j, t, s, c)"
      "nt_chat_id n = pj_chat_id j" "nt_thread_id n = tp_thread_id t"
    using activity_current_turn [OF a(3)] a(4,5) by auto
  show ?thesis
  proof (cases "nt_kind n = ''no_progress''")
    case True
    then have "\<exists>a. activity_of db i = Some a \<and> ta_mode a \<noteq> Mode_approval \<and> ta_notified_episode a = Some (ta_episode a) \<and>
           nt_event_key n = no_progress_key i (ta_episode a) \<and> ta_last_meaningful_at a \<le> nt_created_at n"
      using a(2,6) by simp
    then show ?thesis unfolding tells_the_truth_def using a(1) r True by (intro exI conjI) simp_all
  next
    case False
    then obtain x where "x \<in> set (db_activity_entries db)" "en_job_id x = i" "en_kind x = Approval_entry" "en_state x = Entry_pending"
        "nt_event_key n = approval_event_key i (en_identity x)"
      using a(6) key_of_prefix by (auto simp: exists_row_iff)
    then have "\<exists>x \<in> set (db_activity_entries db). en_job_id x = i \<and> en_kind x = Approval_entry \<and> en_state x = Entry_pending \<and>
              nt_event_key n = approval_event_key i (en_identity x)" by blast
    then show ?thesis unfolding tells_the_truth_def using a(1) r False by (intro exI conjI) (simp_all only: if_False, blast)
  qed
qed

lemma early_notice_true:
  assumes "preacceptance_notice_is_current profile db n now = Some True" "nt_kind n \<noteq> ''no_progress''"
  shows "tells_the_truth db n now"
proof -
  obtain r where f: "noted_request db (nt_event_key n) = Some r"
    using assms(1) by (auto simp: preacceptance_notice_is_current_def split: option.splits)
  note r = find_Some_set [OF f [unfolded noted_request_def]]
  then obtain s where s: "early_scope_of db (er_scope_id r) = Some s" by blast
  have c: "nt_job_id n = Some (es_job_id s)" "er_state r = Request_pending" "nt_chat_id n = pr_chat_id (es_binding s)"
      "nt_thread_id n = pr_thread_id (es_binding s)" "scope_alive profile db s now"
    using assms(1) by (auto simp: preacceptance_notice_is_current_def f s split: if_splits)
  obtain turn where "current_prepared_binding profile db (es_job_id s) (pr_lease_token (es_binding s)) now = Some (es_binding s, turn)"
    using c(5) by (auto simp: scope_alive_def)
  from prepared_current_turn [OF this] obtain j t s' c' where
      t: "running_turn db (es_job_id s) (pr_lease_token (es_binding s)) now = Some (j, t, s', c')"
      "nt_chat_id n = pj_chat_id j" "nt_thread_id n = tp_thread_id t" using c(3,4) by auto
  have "\<exists>r \<in> set (db_early_requests db). er_event_key r = nt_event_key n \<and> er_state r = Request_pending"
    using r c(2) by blast
  then show ?thesis unfolding tells_the_truth_def using c(1) t assms(2) by (intro exI conjI) simp_all
qed

lemma begin_send_starts:
  assumes "begin_send current i token now db = (Inr n, db')" "nt_status n = Nt_leased"
  shows "\<exists>n0. n = start_send now n0 \<and> \<not> notice_obsolete current db n0 now"
proof -
  have "begin_send_tx current i token now db = Inr (n, db')"
    using assms(1) by (simp add: begin_send_def transact_Inr_iff)
  then show ?thesis
  proof (cases rule: begin_send_tx_cases)
    case (dropped n0)
    have "notice_of db i = Some n0" using current_attempt_Inr [OF dropped(1)] by simp
    then have "nt_status n = Nt_superseded"
      using dropped(3) notice_of_id by (auto simp: save_notice_Inr notice_of_set)
    then show ?thesis using assms(2) by simp
  next
    case (began n0)
    have "notice_of db i = Some n0" using current_attempt_Inr [OF began(1)] by simp
    then have "n = start_send now n0" using began(3) notice_of_id by (auto simp: save_notice_Inr notice_of_set)
    then show ?thesis using began(2) by blast
  qed (use assms(2) in simp)
qed

text \<open>C30. A notice about an approval or a lack of progress whose first send begins is true at that moment:
  its job runs under a live lease in a session that Telegram writes, with no stop pending, in the chat
  and topic the notice goes to, and the approval it names is still pending, or the episode without
  progress it tells of has not ended.\<close>

theorem notice_begins_while_true:
  assumes "begin_send (notice_is_current claude profile) i token now db = (Inr n, db')" "nt_status n = Nt_leased"
    "nt_attempt_count n = 1" "nt_stop_request_id n = None" "nt_kind n = ''approval_wait'' \<or> nt_kind n = ''no_progress''"
  shows "tells_the_truth db n now"
proof -
  obtain n0 where n0: "n = start_send now n0" "\<not> notice_obsolete (notice_is_current claude profile) db n0 now"
    using begin_send_starts [OF assms(1,2)] by blast
  have same: "nt_kind n0 = nt_kind n" "nt_job_id n0 = nt_job_id n" "nt_chat_id n0 = nt_chat_id n" "nt_thread_id n0 = nt_thread_id n"
      "nt_event_key n0 = nt_event_key n" "nt_created_at n0 = nt_created_at n" "nt_stop_request_id n0 = nt_stop_request_id n"
    by (simp_all add: n0(1) start_send_def)
  have "notice_is_current claude profile db n0 now"
    using n0 assms(3-5) by (auto simp: notice_obsolete_def probed_kinds_def start_send_def)
  then have "activity_notice_is_current db n0 now \<or>
      (preacceptance_notice_is_current profile db n0 now = Some True \<and> nt_kind n0 \<noteq> ''no_progress'')"
    using assms(5) by (auto simp: notice_is_current_def same split: option.splits if_splits)
  then have "tells_the_truth db n0 now" using activity_notice_true early_notice_true by blast
  then show ?thesis by (simp only: tells_the_truth_def same)
qed


definition told_notice :: task_notice where
  "told_notice = \<lparr>nt_notice_id = ''n'', nt_event_key = approval_event_key ''a'' ''q'', nt_kind = ''approval_wait'', nt_job_id = Some ''a'',
     nt_stop_request_id = None, nt_chat_id = 7, nt_thread_id = 3, nt_reply_to_message_id = None,
     nt_telegram_html = ''x'', nt_status = Nt_leased, nt_attempt_count = 0, nt_available_at = 0,
     nt_lease_token = Some ''l'', nt_lease_owner = Some ''w'', nt_lease_expires_at = Some 50,
     nt_send_started_at = None, nt_telegram_message_id = None, nt_error_code = None, nt_created_at = 4,
     nt_updated_at = 4, nt_assessment_id = None\<rparr>"

definition waiting_activity :: task_activity where
  "waiting_activity = \<lparr>ta_job_id = ''a'', ta_binding = \<lparr>av_lease_token = ''t'', av_topic_id = 1, av_project_id = ''p'',
     av_execution_scope = ''root:/p'', av_chat_id = 7, av_thread_id = 3, av_session_id = ''s'', av_session_generation = 1,
     av_agent_id = ''codex'', av_provider_thread_id = ''th'', av_provider_turn_id = ''u'', av_project_root = ''/p''\<rparr>,
     ta_mode = Mode_approval, ta_last_meaningful_at = 4, ta_episode = 1, ta_notified_episode = None\<rparr>"

definition waiting_entry :: activity_entry where
  "waiting_entry = \<lparr>en_job_id = ''a'', en_kind = Approval_entry, en_identity = ''q'', en_category = Command,
     en_item_identity = Some ''i'', en_state = Entry_pending\<rparr>"

definition asking_hub :: db where
  "asking_hub = (watched_hub (Some ''u''))\<lparr>db_task_activity := [waiting_activity], db_activity_entries := [waiting_entry],
     db_notices := [told_notice]\<rparr>"

lemma waiting_notice_current: "activity_notice_is_current asking_hub told_notice 5"
proof -
  have t: "running_turn asking_hub ''a'' ''t'' 5 = Some (watched_job, example_topic, watched_session, watched_checkpoint (Some ''u''))"
    by (rule watched_turn) (simp_all add: asking_hub_def watched_hub_sel)
  have "current_activity_binding asking_hub ''a'' ''t'' 5 = Some (ta_binding waiting_activity)"
    by (simp add: current_activity_binding_def t) (simp add: waiting_activity_def watched_checkpoint_def watched_job_def example_job_def
      example_topic_def topic_scope_def)
  moreover have "activity_of asking_hub ''a'' = Some waiting_activity"
    by (simp add: activity_of_def asking_hub_def waiting_activity_def)
  moreover have "av_lease_token (ta_binding waiting_activity) = ''t''" "ta_mode waiting_activity = Mode_approval"
      "av_chat_id (ta_binding waiting_activity) = 7" "av_thread_id (ta_binding waiting_activity) = 3"
    by (simp_all add: waiting_activity_def)
  moreover have "db_activity_entries asking_hub = [waiting_entry]" by (simp add: asking_hub_def)
  ultimately show ?thesis
    by (simp add: activity_notice_is_current_def told_notice_def starts_with_def approval_event_key_def exists_row_def waiting_entry_def)
qed

theorem notice_begins_while_true_witness:
  "\<exists>n db'. begin_send (notice_is_current (\<lambda>_ _ _. False) (Inr None)) ''n'' ''l'' 5 asking_hub = (Inr n, db') \<and>
     nt_attempt_count n = 1 \<and> tells_the_truth asking_hub n 5"
proof -
  let ?probe = "notice_is_current (\<lambda>_ _ _. False) (Inr None)"
  let ?n = "start_send 5 told_notice"
  have rows: "db_notices asking_hub = [told_notice]" "db_early_requests asking_hub = []" "job_of asking_hub ''a'' = Some watched_job"
    by (simp_all add: asking_hub_def watched_hub_sel job_of_def watched_job_def example_job_def)
  have "preacceptance_notice_is_current (Inr None) asking_hub told_notice 5 = None"
    by (simp add: preacceptance_notice_is_current_def noted_request_def rows)
  then have "?probe asking_hub told_notice 5"
    using waiting_notice_current by (simp add: notice_is_current_def told_notice_def)
  moreover have "pj_status watched_job = Executing" by (simp add: watched_job_def example_job_def)
  ultimately have live: "\<not> notice_obsolete ?probe asking_hub told_notice 5"
    by (simp add: notice_obsolete_def valid_states_def rows probed_kinds_def) (simp add: told_notice_def rows)
  have b: "begin_send ?probe ''n'' ''l'' 5 asking_hub = (Inr ?n, asking_hub\<lparr>db_notices := [?n]\<rparr>)"
    using live
    by (simp add: begin_send_def begin_send_tx_def transact_def get_notice_def current_attempt_def rows
        save_notice_def set_notice_def update_where_def) (simp add: told_notice_def start_send_def after_def rows attempt_Inr)
  have "nt_status ?n = Nt_leased" "nt_attempt_count ?n = 1" "nt_stop_request_id ?n = None" "nt_kind ?n = ''approval_wait''"
    by (simp_all add: start_send_def told_notice_def)
  then show ?thesis using notice_begins_while_true [OF b] b by blast
qed


section \<open>A lack of progress is told once\<close>

definition told_row :: "task_activity \<Rightarrow> task_activity" where
  "told_row a = a\<lparr>ta_notified_episode := Some (ta_episode a)\<rparr>"

text \<open>The activities that are marked, and the notices that are added.\<close>

definition told_step :: "string set \<Rightarrow> db \<Rightarrow> db \<Rightarrow> bool" where
  "told_step told db db' \<longleftrightarrow> db' = db\<lparr>db_task_activity := update_where (\<lambda>a. ta_job_id a \<in> told) told_row (db_task_activity db),
     db_notices := db_notices db'\<rparr>"

lemma told_twice:
  "update_where (\<lambda>a. ta_job_id a \<in> B) told_row (update_where (\<lambda>a. ta_job_id a = i) told_row rows) =
     update_where (\<lambda>a. ta_job_id a \<in> insert i B) told_row rows"
  by (induction rows) (auto simp: update_where_def told_row_def)

lemma told_none: "update_where (\<lambda>a. ta_job_id a \<in> {}) told_row rows = rows"
  by (induction rows) (auto simp: update_where_def)

lemma told_rows:
  "a \<in> set (update_where (\<lambda>a. ta_job_id a \<in> B) told_row rows) \<Longrightarrow> ta_job_id a \<in> B \<Longrightarrow> ta_notified_episode a = Some (ta_episode a)"
  by (auto simp: set_update_where told_row_def split: if_splits)

lemma running_turn_beside: "running_turn (db\<lparr>db_task_activity := x, db_notices := y\<rparr>) = running_turn db"
  by (simp add: fun_eq_iff running_turn_def job_of_def topic_of_def session_of_def checkpoint_of_def stop_covers_def cong: option.case_cong)

lemma overdue_beside: "overdue (db\<lparr>db_task_activity := x, db_notices := y\<rparr>) = overdue db"
  by (simp add: fun_eq_iff overdue_def current_activity_binding_def running_turn_beside)

lemma tell_activity_Inr:
  assumes "tell_activity a key kind html now nid db = Inr (n, db1)"
  shows "nt_job_id n = Some (ta_job_id a) \<and> db1 = db\<lparr>db_notices := db_notices db1\<rparr>"
  using assms by (auto simp: tell_activity_def attempt_Inr prepare_notice_def same_content_def activity_draft_def new_notice_def
    split: option.splits if_splits)

lemma tell_quiet_step:
  "tell_quiet ids ordinary tool now rows db = Inr (ns, db') \<Longrightarrow>
     map nt_job_id ns = map (\<lambda>a. Some (ta_job_id a)) (filter (overdue db ordinary tool now) rows) \<and>
     told_step (ta_job_id ` set (filter (overdue db ordinary tool now) rows)) db db'"
proof (induction rows arbitrary: db ns)
  case Nil
  then show ?case using told_none [of "db_task_activity db'"] by (simp add: told_step_def)
next
  case (Cons a rows)
  show ?case
  proof (cases "overdue db ordinary tool now a")
    case True
    let ?key = "no_progress_key (ta_job_id a) (ta_episode a)"
    obtain n db1 ms where m: "tell_activity a ?key ''no_progress'' (quiet_html (ta_mode a)) now (ids ?key) db = Inr (n, db1)"
        "tell_quiet ids ordinary tool now rows (mark_told (ta_job_id a) db1) = Inr (ms, db')" "ns = n # ms"
      using Cons.prems True by (auto simp: attempt_Inr)
    note t = tell_activity_Inr [OF m(1)]
    have db2: "mark_told (ta_job_id a) db1 = db\<lparr>db_task_activity := update_where (\<lambda>x. ta_job_id x = ta_job_id a) told_row (db_task_activity db),
        db_notices := db_notices db1\<rparr>"
    proof -
      have f: "(\<lambda>a. a\<lparr>ta_notified_episode := Some (ta_episode a)\<rparr>) = told_row" by (simp add: fun_eq_iff told_row_def)
      obtain N where "db1 = db\<lparr>db_notices := N\<rparr>" using t by blast
      then show ?thesis by (simp add: mark_told_def f)
    qed
    have same: "overdue (mark_told (ta_job_id a) db1) = overdue db" unfolding db2 by (rule overdue_beside)
    have "told_step (insert (ta_job_id a) B) db db'" if "told_step B (mark_told (ta_job_id a) db1) db'" for B
      using that unfolding told_step_def db2 by (simp add: told_twice)
    then show ?thesis using Cons.IH [OF m(2)] t True m(3) unfolding same by simp
  qed (use Cons in simp)
qed


end
