(* ===== verification/Session_Properties.thy ===== *)
theory Session_Properties
  imports Session_State Blocker_Properties
begin

text \<open>
  The session table over any operation: a topic has at most one active session, it is the session of
  the topic's active agent, an agent has at most one session that is kept, generations only grow, and
  no operation runs into the table's unique indexes. What a change of the writer requires and changes.
\<close>

section \<open>The rows\<close>

definition kept_once :: "session_row list \<Rightarrow> bool" where
  "kept_once rows \<longleftrightarrow> distinct (map ss_session_id rows) \<and>
     inj_on (\<lambda>s. (ss_topic_id s, ss_agent_id s, ss_generation s)) (set rows) \<and>
     inj_on (\<lambda>s. (ss_topic_id s, ss_agent_id s)) {s \<in> set rows. retained s}"

definition one_active :: "session_row list \<Rightarrow> bool" where
  "one_active rows \<longleftrightarrow> inj_on ss_topic_id {s \<in> set rows. ss_status s = Active}"

lemma sessions_valid_iff:
  "sessions_valid rows \<longleftrightarrow> distinct (map ss_session_id rows) \<and>
     inj_on (\<lambda>s. (ss_topic_id s, ss_agent_id s, ss_generation s)) (set rows) \<and> one_active rows \<and>
     inj_on (\<lambda>s. (ss_topic_id s, ss_agent_id s)) {s \<in> set rows. ss_status s = Satellite}"
proof -
  have "distinct (map ss_session_id rows) \<Longrightarrow> distinct rows" by (simp add: distinct_map)
  then show ?thesis
    unfolding sessions_valid_def one_active_def by (auto simp: distinct_map)
qed

lemma valid_rows: "kept_once rows \<Longrightarrow> one_active rows \<Longrightarrow> sessions_valid rows"
  unfolding sessions_valid_iff kept_once_def by (auto simp: inj_on_def retained_def)

text \<open>A change of one row that keeps its identity, and that does not bring an archived session back.\<close>

definition same_session :: "session_row \<Rightarrow> session_row \<Rightarrow> bool" where
  "same_session a b \<longleftrightarrow> ss_session_id b = ss_session_id a \<and> ss_topic_id b = ss_topic_id a \<and>
     ss_agent_id b = ss_agent_id a \<and> ss_generation b = ss_generation a"

lemma inj_on_image_part:
  assumes "inj_on k {s \<in> A. P s}" "\<And>s. s \<in> A \<Longrightarrow> k (g s) = k s" "\<And>s. s \<in> A \<Longrightarrow> Q (g s) \<Longrightarrow> P s"
  shows "inj_on k {s \<in> g ` A. Q s}"
proof (rule inj_onI)
  fix x y assume "x \<in> {s \<in> g ` A. Q s}" "y \<in> {s \<in> g ` A. Q s}" "k x = k y"
  then obtain a b where "a \<in> A" "b \<in> A" "x = g a" "y = g b" "Q (g a)" "Q (g b)" by auto
  then show "x = y" using assms \<open>k x = k y\<close> by (auto dest: inj_onD)
qed

lemma kept_once_update:
  assumes "kept_once rows" "\<And>s. same_session s (f s)" "\<And>s. retained (f s) \<Longrightarrow> retained s"
  shows "kept_once (update_where p f rows)"
proof -
  let ?g = "\<lambda>s. if p s then f s else s"
  have g: "ss_session_id (?g s) = ss_session_id s" "(ss_topic_id (?g s), ss_agent_id (?g s)) = (ss_topic_id s, ss_agent_id s)"
    "(ss_topic_id (?g s), ss_agent_id (?g s), ss_generation (?g s)) = (ss_topic_id s, ss_agent_id s, ss_generation s)"
    "retained (?g s) \<Longrightarrow> retained s" for s
    using assms(2,3) [of s] by (auto simp: same_session_def split: if_splits)
  have rows: "set (update_where p f rows) = ?g ` set rows" by (simp add: set_update_where)
  have d: "map ss_session_id (update_where p f rows) = map ss_session_id rows"
    using assms(2) by (intro map_update_where) (simp add: same_session_def)
  have i: "inj_on (\<lambda>s. (ss_topic_id s, ss_agent_id s, ss_generation s)) (?g ` set rows)"
  proof (rule inj_onI)
    fix x y assume "x \<in> ?g ` set rows" "y \<in> ?g ` set rows"
      and e: "(ss_topic_id x, ss_agent_id x, ss_generation x) = (ss_topic_id y, ss_agent_id y, ss_generation y)"
    then obtain a b where ab: "a \<in> set rows" "b \<in> set rows" "x = ?g a" "y = ?g b" by blast
    then have "(ss_topic_id a, ss_agent_id a, ss_generation a) = (ss_topic_id b, ss_agent_id b, ss_generation b)"
      using e g(3) [of a] g(3) [of b] by simp
    then have "a = b" using assms(1) ab(1,2) unfolding kept_once_def by (blast dest: inj_onD)
    then show "x = y" using ab by simp
  qed
  have r: "inj_on (\<lambda>s. (ss_topic_id s, ss_agent_id s)) {s \<in> ?g ` set rows. retained s}"
  proof (rule inj_on_image_part [where g = ?g and P = retained])
    show "inj_on (\<lambda>s. (ss_topic_id s, ss_agent_id s)) {s \<in> set rows. retained s}"
      using assms(1) by (simp add: kept_once_def)
  qed (rule g(2), rule g(4))
  show ?thesis unfolding kept_once_def rows d using assms(1) i r by (simp add: kept_once_def)
qed

lemma kept_once_insert:
  assumes "kept_once rows" "ss_session_id n \<notin> ss_session_id ` set rows"
    "\<And>s. s \<in> set rows \<Longrightarrow> ss_topic_id s = ss_topic_id n \<Longrightarrow> ss_agent_id s = ss_agent_id n \<Longrightarrow>
       ss_generation s \<noteq> ss_generation n \<and> \<not> retained s"
  shows "kept_once (rows @ [n])"
proof -
  have i: "inj_on (\<lambda>s. (ss_topic_id s, ss_agent_id s, ss_generation s)) (insert n (set rows))"
    using assms unfolding kept_once_def inj_on_def by (metis insert_iff prod.inject)
  have r: "inj_on (\<lambda>s. (ss_topic_id s, ss_agent_id s)) {s \<in> insert n (set rows). retained s}"
    using assms unfolding kept_once_def inj_on_def by (metis (mono_tags, lifting) insert_iff mem_Collect_eq prod.inject)
  show ?thesis using assms(1,2) i r unfolding kept_once_def by simp
qed

lemma one_active_update:
  assumes "one_active rows" "\<And>s. same_session s (f s)" "\<And>s. p s \<Longrightarrow> ss_status (f s) = Active \<Longrightarrow> ss_status s = Active"
  shows "one_active (update_where p f rows)"
  unfolding one_active_def set_update_where
proof (rule inj_on_image_part [where P="\<lambda>s. ss_status s = Active"])
  show "inj_on ss_topic_id {s \<in> set rows. ss_status s = Active}" using assms(1) by (simp add: one_active_def)
qed (use assms(2,3) in \<open>auto simp: same_session_def split: if_splits\<close>)

lemma generation_fresh:
  assumes "s \<in> set (db_sessions db)" "ss_topic_id s = t" "ss_agent_id s = a"
  shows "ss_generation s < next_generation db t a"
proof -
  have le: "g \<le> fold max gs g \<and> (\<forall>h \<in> set gs. h \<le> fold max gs g)" for gs and g :: int
  proof (induction gs arbitrary: g)
    case (Cons x gs)
    show ?case using Cons [of "max x g"] by auto
  qed simp
  let ?gs = "map ss_generation (filter (\<lambda>s. ss_topic_id s = t \<and> ss_agent_id s = a) (db_sessions db))"
  have m: "ss_generation s \<in> set ?gs" using assms by auto
  show ?thesis
  proof (cases ?gs)
    case Nil
    then show ?thesis using m by simp
  next
    case (Cons g gs)
    then have "ss_generation s \<le> fold max gs g" using m le [of g gs] by auto
    then show ?thesis unfolding next_generation_def Cons by simp
  qed
qed

section \<open>The table\<close>

definition active_agents :: "db \<Rightarrow> bool" where
  "active_agents db \<longleftrightarrow> (\<forall>s \<in> set (db_sessions db). ss_status s = Active \<longrightarrow>
     map_option tp_active_agent_id (topic_of db (ss_topic_id s)) = Some (Some (ss_agent_id s)))"

definition sessions_ok :: "db \<Rightarrow> bool" where
  "sessions_ok db \<longleftrightarrow> kept_once (db_sessions db) \<and> active_agents db"

lemma sessions_ok_one_active:
  assumes "sessions_ok db" shows "one_active (db_sessions db)"
  unfolding one_active_def
proof (rule inj_onI)
  fix a b assume ab: "a \<in> {s \<in> set (db_sessions db). ss_status s = Active}"
    "b \<in> {s \<in> set (db_sessions db). ss_status s = Active}" "ss_topic_id a = ss_topic_id b"
  then have "ss_agent_id a = ss_agent_id b"
    using assms unfolding sessions_ok_def active_agents_def
    by (metis (mono_tags, lifting) mem_Collect_eq option.inject)
  then show "a = b"
    using assms ab unfolding sessions_ok_def kept_once_def by (auto simp: retained_def dest: inj_onD)
qed

lemma put_sessions_Inr: "put_sessions rows db = Inr db' \<longleftrightarrow> sessions_valid rows \<and> db' = db\<lparr>db_sessions := rows\<rparr>"
  by (auto simp: put_sessions_def)

lemma put_sessions_valid: "sessions_valid rows \<Longrightarrow> put_sessions rows db = Inr (db\<lparr>db_sessions := rows\<rparr>)"
  by (simp add: put_sessions_def)

text \<open>A call that touches neither the identity and status of a session nor the active agents.\<close>

lemma sessions_ok_update:
  assumes "sessions_ok db" "\<And>s. same_session s (f s)" "\<And>s. ss_status (f s) = ss_status s"
    "db_sessions db' = update_where p f (db_sessions db)" "db_topics db' = db_topics db"
  shows "sessions_ok db'"
proof -
  have "kept_once (db_sessions db')"
    unfolding assms(4) using assms(1-3)
    by (intro kept_once_update) (auto simp: sessions_ok_def retained_def)
  moreover have "topic_of db' = topic_of db" by (simp add: topic_of_def assms(5) fun_eq_iff)
  then have "active_agents db'"
    using assms(1-3) unfolding active_agents_def assms(4) set_update_where sessions_ok_def
    by (auto simp: same_session_def active_agents_def split: if_splits)
  ultimately show ?thesis by (simp add: sessions_ok_def)
qed

lemma sessions_ok_same:
  assumes "sessions_ok db" "db_sessions db' = db_sessions db" "db_topics db' = db_topics db"
  shows "sessions_ok db'"
  using assms by (simp add: sessions_ok_def active_agents_def topic_of_def)


section \<open>The operations\<close>

datatype session_op =
    Bind_session string string "string option" time
  | Set_writer string string "transfer_snapshot option" time
  | Return_local int int int string string time
  | Set_context string "int option" time
  | Acknowledge_contract string int time
  | Activate_agent string int string string string "string option" bool time
  | Ensure_satellite string int string string string time
  | New_session string int "string option" time
  | Replace_session string int string string "string option" "string option" time

fun session_op_time :: "session_op \<Rightarrow> time" where
  "session_op_time (Bind_session _ _ _ now) = now"
| "session_op_time (Set_writer _ _ _ now) = now"
| "session_op_time (Return_local _ _ _ _ _ now) = now"
| "session_op_time (Set_context _ _ now) = now"
| "session_op_time (Acknowledge_contract _ _ now) = now"
| "session_op_time (Activate_agent _ _ _ _ _ _ _ now) = now"
| "session_op_time (Ensure_satellite _ _ _ _ _ now) = now"
| "session_op_time (New_session _ _ _ now) = now"
| "session_op_time (Replace_session _ _ _ _ _ _ now) = now"

definition forget :: "('e, 's, 'a) outcome \<Rightarrow> ('e, 's, unit) outcome" where
  "forget x = (map_sum id (\<lambda>_. ()) (fst x), snd x)"

fun run_session_op ::
  "wording \<Rightarrow> (string \<Rightarrow> string) \<Rightarrow> state_error + string option \<Rightarrow> session_op \<Rightarrow> db \<Rightarrow> (state_error, db, unit) outcome" where
  "run_session_op w ids pr (Bind_session i thread terminal now) db = forget (bind_provider_session i thread terminal now db)"
| "run_session_op w ids pr (Set_writer i m x now) db = forget (set_writer_mode w ids now i m x db)"
| "run_session_op w ids pr (Return_local chat message t i ob now) db =
     forget (return_codex_local_writer w ids now chat message t i ob db)"
| "run_session_op w ids pr (Set_context i p now) db = forget (set_context_remaining i p now db)"
| "run_session_op w ids pr (Acknowledge_contract i v now) db = forget (acknowledge_telegram_contract i v now db)"
| "run_session_op w ids pr (Activate_agent fresh t agent model effort ex c now) db =
     forget (activate_agent fresh t agent model effort ex c pr now db)"
| "run_session_op w ids pr (Ensure_satellite fresh t agent model effort now) db =
     forget (ensure_satellite fresh t agent model effort pr now db)"
| "run_session_op w ids pr (New_session fresh t ex now) db = forget (new_active_session fresh t ex pr now db)"
| "run_session_op w ids pr (Replace_session fresh t model effort ex rt now) db =
     forget (replace_active_session fresh t model effort ex rt pr now db)"

text \<open>The identifier of the session an operation may create.\<close>

fun fresh_session :: "session_op \<Rightarrow> string option" where
  "fresh_session (Activate_agent fresh _ _ _ _ _ _ _) = Some fresh"
| "fresh_session (Ensure_satellite fresh _ _ _ _ _) = Some fresh"
| "fresh_session (New_session fresh _ _ _) = Some fresh"
| "fresh_session (Replace_session fresh _ _ _ _ _ _) = Some fresh"
| "fresh_session _ = None"

definition clash :: "state_error + 'a \<Rightarrow> bool" where
  "clash r \<longleftrightarrow> r = Inl (Integrity_error ''agent_sessions'')"

lemma clash_simps [simp]: "\<not> clash (Inr x)" "clash (Inl e) \<longleftrightarrow> e = Integrity_error ''agent_sessions''"
  by (simp_all add: clash_def)

lemma clash_attempt: "clash (attempt x f) \<longleftrightarrow> clash x \<or> (\<exists>a. x = Inr a \<and> clash (f a))"
  by (cases x) (simp_all add: clash_def)

lemma clash_check [simp]: "clash (check b e) \<longleftrightarrow> \<not> b \<and> e = Integrity_error ''agent_sessions''"
  by (simp add: check_def clash_def)

lemma clash_forget [simp]: "clash (fst (forget x)) \<longleftrightarrow> clash (fst x)" and snd_forget [simp]: "snd (forget x) = snd x"
  by (cases "fst x"; simp add: forget_def clash_def)+

lemma clash_commit_then:
  "clash (fst (commit_then body finish db)) \<longleftrightarrow> clash (body db) \<or> (\<exists>a db'. body db = Inr (a, db') \<and> clash (finish a db'))"
  by (cases "body db") (auto simp: commit_then_def clash_def)

lemma no_clash_lookups [simp]:
  "\<not> clash (get_session db i)" "\<not> clash (get_topic db t)" "\<not> clash (control_quiet db t)"
  "\<not> clash (require_control_snapshot db t ex)" "\<not> clash (bounded v n m)"
proof -
  show q: "\<not> clash (control_quiet db t)" for t
    by (auto simp: control_quiet_def clash_attempt clash_def control_owner_for_topic_def resolved_control_scope_def
        Let_def check_def split: if_splits option.splits sum.splits list.splits)
  show "\<not> clash (get_session db i)" "\<not> clash (get_topic db t)" "\<not> clash (bounded v n m)"
    by (auto simp: get_session_def get_topic_def unknown_session_def bounded_def Let_def split: option.splits)
  show "\<not> clash (require_control_snapshot db t ex)"
    by (auto simp: require_control_snapshot_def clash_attempt q Let_def return_first_def split: option.splits)
qed


section \<open>Each operation\<close>

lemma session_in_rows: "session_of db i = Some s \<Longrightarrow> s \<in> set (db_sessions db) \<and> ss_session_id s = i"
  by (auto simp: session_of_def dest: find_Some_set)

lemma active_row_Some: "active_row db t = Some s \<Longrightarrow> s \<in> set (db_sessions db) \<and> ss_topic_id s = t \<and> ss_status s = Active"
  by (auto simp: active_row_def dest: find_Some_set)

lemma active_row_None: "active_row db t = None \<Longrightarrow> s \<in> set (db_sessions db) \<Longrightarrow> ss_topic_id s = t \<Longrightarrow> ss_status s \<noteq> Active"
  by (auto simp: active_row_def find_None_exists exists_row_iff)

lemma satellite_row_Some: "satellite_row db t a = Some s \<Longrightarrow>
    s \<in> set (db_sessions db) \<and> ss_topic_id s = t \<and> ss_agent_id s = a \<and> ss_status s = Satellite"
  by (auto simp: satellite_row_def dest: find_Some_set)

lemma satellite_row_None: "satellite_row db t a = None \<Longrightarrow> s \<in> set (db_sessions db) \<Longrightarrow> ss_topic_id s = t \<Longrightarrow>
    ss_agent_id s = a \<Longrightarrow> ss_status s \<noteq> Satellite"
  by (auto simp: satellite_row_def find_None_exists exists_row_iff)

text \<open>The rows after a change of status and after an insertion.\<close>

definition status_rows :: "string \<Rightarrow> session_status \<Rightarrow> time \<Rightarrow> session_row list \<Rightarrow> session_row list" where
  "status_rows i st now = update_where (\<lambda>s. ss_session_id s = i) (\<lambda>s. s\<lparr>ss_status := st, ss_updated_at := now\<rparr>)"

lemma status_rows_set:
  assumes "x \<in> set (status_rows i st now rows)"
  obtains s where "s \<in> set rows" "same_session s x" "ss_status x = (if ss_session_id s = i then st else ss_status s)"
  using assms unfolding status_rows_def set_update_where by (auto simp: same_session_def split: if_splits)

lemma kept_once_status:
  assumes "kept_once rows" "st = Archived \<or> (\<exists>s \<in> set rows. ss_session_id s = i \<and> retained s)"
  shows "kept_once (status_rows i st now rows)"
proof -
  let ?f = "\<lambda>s. if retained s \<or> st = Archived then s\<lparr>ss_status := st, ss_updated_at := now\<rparr> else s"
  have "retained s \<or> st = Archived" if s: "s \<in> set rows" "ss_session_id s = i" for s
    using assms(2)
  proof
    assume "\<exists>s \<in> set rows. ss_session_id s = i \<and> retained s"
    then obtain q where q: "q \<in> set rows" "ss_session_id q = i" "retained q" by blast
    have "distinct (map ss_session_id rows)" using assms(1) by (simp add: kept_once_def)
    from distinct_key_eq [OF this s(1) q(1)] show ?thesis using s q by simp
  qed simp
  then have "status_rows i st now rows = update_where (\<lambda>s. ss_session_id s = i) ?f rows"
    by (auto simp: status_rows_def update_where_def)
  also have "kept_once \<dots>"
    by (rule kept_once_update [OF assms(1)]) (auto simp: same_session_def retained_def split: if_splits)
  finally show ?thesis .
qed

lemma one_active_status:
  assumes "one_active rows"
    "st = Active \<Longrightarrow> s0 \<in> set rows \<and> ss_session_id s0 = i \<and> distinct (map ss_session_id rows) \<and>
       (\<forall>s \<in> set rows. ss_topic_id s = ss_topic_id s0 \<longrightarrow> ss_status s \<noteq> Active)"
  shows "one_active (status_rows i st now rows)"
proof (cases "st = Active")
  case False
  then show ?thesis unfolding status_rows_def
    by (intro one_active_update [OF assms(1)]) (auto simp: same_session_def)
next
  case True
  note a = assms(2) [OF True]
  have i: "s = s0" if "s \<in> set rows" "ss_session_id s = i" for s
    using a that distinct_key_eq [of ss_session_id rows s s0] by simp
  show ?thesis unfolding one_active_def status_rows_def set_update_where
  proof (rule inj_onI)
    let ?g = "\<lambda>s. if ss_session_id s = i then s\<lparr>ss_status := st, ss_updated_at := now\<rparr> else s"
    fix x y assume "x \<in> {s \<in> ?g ` set rows. ss_status s = Active}" "y \<in> {s \<in> ?g ` set rows. ss_status s = Active}"
      and e: "ss_topic_id x = ss_topic_id y"
    then obtain p q where p: "p \<in> set rows" "x = ?g p" "ss_status (?g p) = Active"
      and q: "q \<in> set rows" "y = ?g q" "ss_status (?g q) = Active" by blast
    have t: "ss_topic_id p = ss_topic_id q" using e p(2) q(2) by (auto split: if_splits)
    consider "p = s0" "q = s0" | "p \<noteq> s0" "q \<noteq> s0" | "p = s0" "q \<noteq> s0" | "p \<noteq> s0" "q = s0" by blast
    then have "p = q"
    proof cases
      case 2
      then have "ss_session_id p \<noteq> i" "ss_session_id q \<noteq> i" using i p(1) q(1) by blast+
      then have "ss_status p = Active" "ss_status q = Active" using p(3) q(3) by simp_all
      then show ?thesis using assms(1) p(1) q(1) t by (auto simp: one_active_def dest: inj_onD)
    next
      case 3
      then have "ss_status q = Active" using i q by (auto split: if_splits)
      then show ?thesis using a 3 q(1) t by auto
    next
      case 4
      then have "ss_status p = Active" using i p by (auto split: if_splits)
      then show ?thesis using a 4 p(1) t by auto
    qed simp
    then show "x = y" using p q by simp
  qed
qed

lemma set_status_eq:
  "sessions_valid (status_rows i st now (db_sessions db)) \<Longrightarrow>
   set_status i st now db = Inr (db\<lparr>db_sessions := status_rows i st now (db_sessions db)\<rparr>)"
  by (simp add: set_status_def status_rows_def put_sessions_valid)

lemma kept_once_new:
  assumes "kept_once (db_sessions db)" "fresh \<notin> ss_session_id ` set (db_sessions db)"
    "\<And>s. s \<in> set (db_sessions db) \<Longrightarrow> ss_topic_id s = t \<Longrightarrow> ss_agent_id s = agent \<Longrightarrow> \<not> retained s"
  shows "kept_once (db_sessions db @ [new_session fresh t agent (next_generation db t agent) model effort st p now])"
  using assms generation_fresh [of _ db t agent]
  by (intro kept_once_insert) (fastforce simp: new_session_def)+

lemma one_active_new:
  assumes "one_active rows" "st = Active \<Longrightarrow> \<forall>s \<in> set rows. ss_topic_id s = t \<longrightarrow> ss_status s \<noteq> Active"
  shows "one_active (rows @ [new_session fresh t agent g model effort st p now])"
proof -
  let ?n = "new_session fresh t agent g model effort st p now"
  have n: "ss_status ?n = st" "ss_topic_id ?n = t" by (simp_all add: new_session_def)
  show ?thesis unfolding one_active_def
  proof (rule inj_onI)
    fix x y assume "x \<in> {s \<in> set (rows @ [?n]). ss_status s = Active}" "y \<in> {s \<in> set (rows @ [?n]). ss_status s = Active}"
      and t: "ss_topic_id x = ss_topic_id y"
    then have xy: "x \<in> set rows \<or> x = ?n" "y \<in> set rows \<or> y = ?n" "ss_status x = Active" "ss_status y = Active" by auto
    have "z \<in> set rows \<Longrightarrow> ss_status z = Active \<Longrightarrow> st = Active \<Longrightarrow> ss_topic_id z \<noteq> t" for z
      using assms(2) by blast
    then show "x = y"
      using xy t n assms(1) unfolding one_active_def by (metis (mono_tags, lifting) inj_onD mem_Collect_eq)
  qed
qed

lemma insert_session_eq:
  assumes "selected_for profile agent = Inr p"
    "sessions_valid (db_sessions db @ [new_session fresh t agent (next_generation db t agent) model effort st p now])"
  shows "insert_session fresh t agent model effort st profile now db =
    Inr (db\<lparr>db_sessions := db_sessions db @ [new_session fresh t agent (next_generation db t agent) model effort st p now]\<rparr>)"
  using assms by (simp add: insert_session_def put_sessions_valid)

lemma no_clash_selection [simp]:
  "\<not> clash profile \<Longrightarrow> \<not> clash (selected_for profile agent)" "\<not> clash profile \<Longrightarrow> \<not> clash (require_codex_selection profile s)"
  by (auto simp: selected_for_def require_codex_selection_def clash_attempt)

lemma active_agents_put:
  assumes "active_agents db" "topic_of db t \<noteq> None" "db_topics db1 = db_topics db"
    "\<And>s. s \<in> set (db_sessions db1) \<Longrightarrow> ss_status s = Active \<Longrightarrow> ss_topic_id s = t \<Longrightarrow> ss_agent_id s = agent"
    "\<And>s. s \<in> set (db_sessions db1) \<Longrightarrow> ss_status s = Active \<Longrightarrow> ss_topic_id s \<noteq> t \<Longrightarrow>
       \<exists>s0 \<in> set (db_sessions db). ss_status s0 = Active \<and> ss_topic_id s0 = ss_topic_id s \<and> ss_agent_id s0 = ss_agent_id s"
  shows "active_agents (put_active_agent t agent now db1)"
proof -
  have "topic_of (put_active_agent t agent now db1) u =
      map_option (\<lambda>r. if tp_topic_id r = t then r\<lparr>tp_active_agent_id := Some agent, tp_updated_at := now\<rparr> else r) (topic_of db u)" for u
    unfolding topic_of_def put_active_agent_def by (simp add: assms(3) find_update_where)
  moreover have "tp_topic_id r = u" if "topic_of db u = Some r" for r u using topic_of_id [OF that] by simp
  ultimately have topic: "map_option tp_active_agent_id (topic_of (put_active_agent t agent now db1) u) =
      (if u = t then Some (Some agent) else map_option tp_active_agent_id (topic_of db u))" for u
    using assms(2) by (cases "topic_of db u") auto
  have "db_sessions (put_active_agent t agent now db1) = db_sessions db1" by (simp add: put_active_agent_def)
  then show ?thesis
    unfolding active_agents_def topic using assms(1,4,5) unfolding active_agents_def by (metis (full_types))
qed


text \<open>What an operation owes: the table stays in order and is never asked for a row it must refuse.\<close>

definition keeps_sessions :: "state_error + 'a \<Rightarrow> db \<Rightarrow> bool" where
  "keeps_sessions r db' \<longleftrightarrow> sessions_ok db' \<and> \<not> clash r"

lemma keeps_commit:
  assumes "sessions_ok db" "\<not> clash (body db)" "\<And>a db'. body db = Inr (a, db') \<Longrightarrow> sessions_ok db' \<and> \<not> clash (finish a db')"
  shows "keeps_sessions (fst (commit_then body finish db)) (snd (commit_then body finish db))"
  using assms by (cases "body db") (auto simp: keeps_sessions_def commit_then_def)

lemma keeps_bind: "sessions_ok db \<Longrightarrow>
    keeps_sessions (fst (bind_provider_session i thread terminal now db)) (snd (bind_provider_session i thread terminal now db))"
proof -
  assume ok: "sessions_ok db"
  have "sessions_ok (db\<lparr>db_sessions := update_where (\<lambda>s. ss_session_id s = i)
      (\<lambda>s. s\<lparr>ss_provider_session_id := Some thread, ss_terminal_name := terminal, ss_updated_at := now\<rparr>) (db_sessions db)\<rparr>)"
    by (rule sessions_ok_update [OF ok]) (auto simp: same_session_def)
  then show ?thesis unfolding bind_provider_session_def
    using ok by (auto intro!: keeps_commit simp: clash_attempt attempt_Inr split: if_splits) (simp add: keeps_sessions_def)
qed

lemma hold_scope_grow:
  assumes "hold_scope_before_return w ids now t db = Inr db'" shows "holds_grow db db'"
  using assms each_hold_Inr unfolding hold_scope_before_return_def Let_def by (fastforce split: option.splits)

lemma no_clash_hold_job [simp]: "\<not> clash (hold_job w ids now j thread b db)"
  by (simp add: hold_job_def Let_def)

lemma no_clash_each: "(\<And>x s. \<not> clash (f x s)) \<Longrightarrow> \<not> clash (each_row f xs s)"
  by (induction xs arbitrary: s) (auto simp: clash_attempt)

lemma no_clash_hold_scope [simp]: "\<not> clash (hold_scope_before_return w ids now t db)"
  by (auto simp: hold_scope_before_return_def Let_def intro!: no_clash_each split: option.splits)

lemma release_grow: "holds_grow db (notice_released_scope w ids now i g db)"
proof -
  have "holds_grow a (fold (release_to f) rows a)" for f rows a
  proof (induction rows arbitrary: a)
    case (Cons x rows)
    have "holds_grow a (release_to f x a)" by (simp add: release_to_def)
    then show ?case using Cons holds_grow_trans by simp
  qed simp
  then show ?thesis by (simp add: notice_released_scope_def)
qed

lemma put_writer_sel [simp]:
  "db_jobs (put_writer i m now db) = db_jobs db" "db_holds (put_writer i m now db) = db_holds db"
  "db_evidence (put_writer i m now db) = db_evidence db" "db_resolutions (put_writer i m now db) = db_resolutions db"
  "db_topics (put_writer i m now db) = db_topics db" "db_counters (put_writer i m now db) = db_counters db"
  by (simp_all add: put_writer_def)

lemma put_writer_ok: "sessions_ok db \<Longrightarrow> sessions_ok (put_writer i mode now db)"
  by (rule sessions_ok_update) (auto simp: put_writer_def same_session_def)

lemma sessions_ok_grow: "holds_grow db db' \<Longrightarrow> sessions_ok db \<Longrightarrow> sessions_ok db'"
  by (rule sessions_ok_same) (simp_all add: holds_grow_sel)

lemma no_clash_transfer [simp]: "\<not> clash (require_transfer db x)"
  by (auto simp: require_transfer_def Let_def clash_attempt transfer_changed_def)

lemma no_clash_free_root [simp]: "\<not> clash (require_free_root db s scope)"
  by (simp add: require_free_root_def clash_attempt)

text \<open>What the change of a writer does when it succeeds.\<close>

lemma set_writer_tx_Inr:
  assumes "set_writer_tx w ids now i mode transfer db = Inr (u, db')"
  obtains s scope db1 where "session_of db i = Some s" "scope_of db (ss_topic_id s) = Some scope"
    "mode \<noteq> Telegram_writer \<Longrightarrow> ss_writer_mode s = Telegram_writer \<Longrightarrow> require_free_root db s scope = Inr ()"
    "holds_grow db db1" "mode \<noteq> Telegram_writer \<or> ss_writer_mode s = Telegram_writer \<Longrightarrow> db1 = db"
    "mode = Telegram_writer \<Longrightarrow> ss_writer_mode s \<noteq> Telegram_writer \<Longrightarrow>
       hold_scope_before_return w ids now (ss_topic_id s) db = Inr db1"
    "holds_grow (put_writer i mode now db1) db'"
    "mode \<noteq> Telegram_writer \<or> ss_writer_mode s = Telegram_writer \<Longrightarrow> db' = put_writer i mode now db1"
proof -
  obtain s scope where s: "session_with_scope db i = Some (s, scope)"
    using assms unfolding set_writer_tx_def by (auto simp: attempt_Inr split: option.splits)
  let ?c = "mode = Telegram_writer \<and> ss_writer_mode s \<noteq> Telegram_writer"
  obtain db1 where d: "(if ?c then hold_scope_before_return w ids now (ss_topic_id s) db else Inr db) = Inr db1"
    "(if mode \<noteq> Telegram_writer \<and> ss_writer_mode s = Telegram_writer then require_free_root db s scope else Inr ()) = Inr ()"
    "db' = (if ?c then notice_released_scope w ids now i (ss_generation s) (put_writer i mode now db1)
            else put_writer i mode now db1)"
    using assms unfolding set_writer_tx_def s by (auto simp: attempt_Inr Let_def)
  have k: "session_of db i = Some s" "scope_of db (ss_topic_id s) = Some scope"
    using s by (auto simp: session_with_scope_def split: option.splits)
  have g: "holds_grow db db1" using d(1) hold_scope_grow by (auto split: if_splits)
  have h: "holds_grow (put_writer i mode now db1) db'" unfolding d(3) using release_grow by simp
  show ?thesis by (rule that [OF k _ g _ _ h]) (use d in \<open>auto split: if_splits\<close>)
qed

lemma keeps_set_writer: "sessions_ok db \<Longrightarrow>
    keeps_sessions (fst (set_writer_mode w ids now i m x db)) (snd (set_writer_mode w ids now i m x db))"
proof -
  assume ok: "sessions_ok db"
  have no: "\<not> clash (set_writer_tx w ids now i mode x db)" for mode
    by (auto simp: set_writer_tx_def clash_attempt Let_def unknown_session_def split: option.splits)
  have "sessions_ok db'" if "set_writer_tx w ids now i mode x db = Inr (u, db')" for mode u db'
    using that by (rule set_writer_tx_Inr) (use ok put_writer_ok sessions_ok_grow in blast)
  then show ?thesis unfolding set_writer_mode_def
    using ok no by (auto intro!: keeps_commit split: option.splits) (simp add: keeps_sessions_def)
qed

lemma return_local_Inr:
  assumes "return_local_tx w ids now chat message t i db = Inr (True, db')"
  obtains s db1 db2 where "returnable db t i = Inr s" "topic_of db t \<noteq> None"
    "hold_scope_before_return w ids now t db = Inr db1" "\<not> topic_has_unheld db1 t"
    "holds_grow (activate_origin i message t (put_writer i Telegram_writer now db1)) db2"
    "db' = db2\<lparr>db_observed := db_observed db2 @ [(chat, message)]\<rparr>"
proof -
  obtain s db1 where d: "returnable db t i = Inr s" "topic_of db t \<noteq> None"
    "hold_scope_before_return w ids now t db = Inr db1" "\<not> topic_has_unheld db1 t"
    "db' = (let db2 = notice_released_scope w ids now i (ss_generation s)
                    (activate_origin i message t (put_writer i Telegram_writer now db1))
        in db2\<lparr>db_observed := db_observed db2 @ [(chat, message)]\<rparr>)"
    using assms unfolding return_local_tx_def
    by (auto simp: attempt_Inr Let_def split: if_splits option.splits)
  show ?thesis by (rule that [OF d(1-4) release_grow]) (use d(5) in \<open>simp add: Let_def\<close>)
qed

lemma return_local_again:
  "return_local_tx w ids now chat message t i db = Inr (False, db') \<Longrightarrow> db' = db"
  by (auto simp: return_local_tx_def attempt_Inr Let_def split: if_splits)

lemma activate_origin_sel [simp]:
  "db_sessions (activate_origin i m t db) = db_sessions db" "db_topics (activate_origin i m t db) = db_topics db"
  "db_jobs (activate_origin i m t db) = db_jobs db" "db_holds (activate_origin i m t db) = db_holds db"
  by (simp_all add: activate_origin_def split: option.splits)

lemma keeps_return: "sessions_ok db \<Longrightarrow>
    keeps_sessions (fst (return_codex_local_writer w ids now chat message t i ob db))
      (snd (return_codex_local_writer w ids now chat message t i ob db))"
proof -
  assume ok: "sessions_ok db"
  have no: "\<not> clash (return_local_tx w ids now chat message t i db)"
    by (auto simp: return_local_tx_def clash_attempt Let_def returnable_def split: option.splits)
  have "sessions_ok db'" if r: "return_local_tx w ids now chat message t i db = Inr (b, db')" for b db'
  proof (cases b)
    case True
    with r have "return_local_tx w ids now chat message t i db = Inr (True, db')" by simp
    then obtain db1 db2 where "holds_grow db db1"
        and g: "holds_grow (activate_origin i message t (put_writer i Telegram_writer now db1)) db2"
        and d: "db' = db2\<lparr>db_observed := db_observed db2 @ [(chat, message)]\<rparr>"
      by (rule return_local_Inr) (use hold_scope_grow in blast)
    then have "sessions_ok (put_writer i Telegram_writer now db1)" using ok put_writer_ok sessions_ok_grow by blast
    then have "sessions_ok (activate_origin i message t (put_writer i Telegram_writer now db1))"
      by (rule sessions_ok_same) simp_all
    then have "sessions_ok db2" using g sessions_ok_grow by blast
    then show ?thesis by (rule sessions_ok_same) (simp_all add: d)
  next
    case False
    then show ?thesis using r return_local_again [of w ids now chat message t i db db'] ok by simp
  qed
  moreover have "\<not> clash (Inl e :: state_error + bool)" if "bounded ob n k = Inl e" for e n k
    using no_clash_lookups(5) [of ob n k] that by simp
  ultimately show ?thesis unfolding return_codex_local_writer_def
    using ok no by (auto intro!: keeps_commit simp: clash_attempt split: sum.splits) (auto simp: keeps_sessions_def)
qed


lemma keeps_context: "sessions_ok db \<Longrightarrow>
    keeps_sessions (fst (set_context_remaining i p now db)) (snd (set_context_remaining i p now db))"
proof -
  assume ok: "sessions_ok db"
  have "sessions_ok (db\<lparr>db_sessions := update_where (\<lambda>s. ss_session_id s = i)
      (\<lambda>s. s\<lparr>ss_context_remaining_percent := map_option (\<lambda>p. max 0 (min 10000 p)) percent, ss_updated_at := now\<rparr>)
      (db_sessions db)\<rparr>)" for percent
    by (rule sessions_ok_update [OF ok]) (auto simp: same_session_def)
  then show ?thesis unfolding set_context_remaining_def using ok by (auto intro!: keeps_commit)
qed

lemma keeps_acknowledge: "sessions_ok db \<Longrightarrow>
    keeps_sessions (fst (acknowledge_telegram_contract i v now db)) (snd (acknowledge_telegram_contract i v now db))"
proof -
  assume ok: "sessions_ok db"
  have "\<not> clash (Inl e :: state_error + unit)" if "get_session db i = Inl e" for e
    using no_clash_lookups(1) [of db i] that by simp
  then show ?thesis using ok
    by (auto simp: acknowledge_telegram_contract_def keeps_sessions_def split: sum.splits intro: sessions_ok_same)
qed

text \<open>Making one session of a topic the active one: the topic has none, the agent's is kept or new.\<close>

definition raised :: "int \<Rightarrow> string \<Rightarrow> db \<Rightarrow> db \<Rightarrow> bool" where
  "raised t agent db db' \<longleftrightarrow> kept_once (db_sessions db') \<and> db_topics db' = db_topics db \<and>
     (\<forall>s \<in> set (db_sessions db'). ss_status s = Active \<longrightarrow>
        (if ss_topic_id s = t then ss_agent_id s = agent
         else \<exists>s0 \<in> set (db_sessions db). ss_status s0 = Active \<and> ss_topic_id s0 = ss_topic_id s \<and> ss_agent_id s0 = ss_agent_id s))"

lemma raised_put: "raised t agent db db' \<Longrightarrow> active_agents db \<Longrightarrow> topic_of db t \<noteq> None \<Longrightarrow>
    sessions_ok (put_active_agent t agent now db')"
  unfolding sessions_ok_def raised_def
  by (intro conjI active_agents_put [where db = db]) (auto simp: put_active_agent_def)

lemma insert_raised:
  assumes "kept_once (db_sessions db)" "one_active (db_sessions db)" "fresh \<notin> ss_session_id ` set (db_sessions db)" "\<not> clash pr"
    "\<And>s. s \<in> set (db_sessions db) \<Longrightarrow> ss_topic_id s = t \<Longrightarrow> ss_agent_id s = agent \<Longrightarrow> \<not> retained s"
    "\<And>s. st = Active \<Longrightarrow> s \<in> set (db_sessions db) \<Longrightarrow> ss_topic_id s = t \<Longrightarrow> ss_status s \<noteq> Active"
  shows "\<not> clash (insert_session fresh t agent model effort st pr now db) \<and>
    (\<forall>db'. insert_session fresh t agent model effort st pr now db = Inr db' \<longrightarrow>
       kept_once (db_sessions db') \<and> db_topics db' = db_topics db \<and>
       (\<exists>n. db_sessions db' = db_sessions db @ [n] \<and> ss_session_id n = fresh \<and> ss_topic_id n = t \<and>
          ss_agent_id n = agent \<and> ss_status n = st))"
proof (cases "selected_for pr agent")
  case (Inl e)
  then show ?thesis using no_clash_selection(1) [OF assms(4), of agent] by (simp add: insert_session_def)
next
  case (Inr p)
  let ?n = "new_session fresh t agent (next_generation db t agent) model effort st p now"
  have "kept_once (db_sessions db @ [?n])" by (rule kept_once_new [OF assms(1,3,5)])
  moreover have "one_active (db_sessions db @ [?n])" using assms(2,6) by (intro one_active_new) auto
  ultimately show ?thesis using insert_session_eq [OF Inr] valid_rows
    by (simp add: new_session_def)
qed

lemma raise_ok:
  assumes "kept_once (db_sessions db)" "one_active (db_sessions db)" "fresh \<notin> ss_session_id ` set (db_sessions db)" "\<not> clash pr"
    "\<And>s. s \<in> set (db_sessions db) \<Longrightarrow> ss_topic_id s = t \<Longrightarrow> ss_status s \<noteq> Active"
    "case target of Some s \<Rightarrow> (\<exists>r \<in> set (db_sessions db). ss_session_id r = ss_session_id s \<and> ss_topic_id r = t \<and> ss_agent_id r = agent \<and> retained r)
     | None \<Rightarrow> \<forall>s \<in> set (db_sessions db). ss_topic_id s = t \<longrightarrow> ss_agent_id s = agent \<longrightarrow> \<not> retained s"
  shows "\<not> clash (raise_session fresh t agent model effort c pr now target db) \<and>
    (\<forall>i db'. raise_session fresh t agent model effort c pr now target db = Inr (i, db') \<longrightarrow> raised t agent db db')"
proof (cases target)
  case None
  have free: "\<not> retained s" if "s \<in> set (db_sessions db)" "ss_topic_id s = t" "ss_agent_id s = agent" for s
    using that assms(6) None by simp
  have n: "\<not> clash (insert_session fresh t agent model effort Active pr now db) \<and>
    (\<forall>db'. insert_session fresh t agent model effort Active pr now db = Inr db' \<longrightarrow>
       kept_once (db_sessions db') \<and> db_topics db' = db_topics db \<and>
       (\<exists>n. db_sessions db' = db_sessions db @ [n] \<and> ss_session_id n = fresh \<and> ss_topic_id n = t \<and>
          ss_agent_id n = agent \<and> ss_status n = Active))"
    by (rule insert_raised [OF assms(1-4)]) (use free assms(5) in blast)+
  have "raised t agent db db'" if i: "insert_session fresh t agent model effort Active pr now db = Inr db'" for db'
  proof -
    obtain x where x: "kept_once (db_sessions db')" "db_topics db' = db_topics db" "db_sessions db' = db_sessions db @ [x]"
      "ss_topic_id x = t" "ss_agent_id x = agent" using n i by blast
    show ?thesis unfolding raised_def using x assms(5) by simp blast
  qed
  then show ?thesis using n by (simp add: raise_session_def None clash_attempt attempt_Inr)
next
  case (Some s)
  then obtain r where r: "r \<in> set (db_sessions db)" "ss_session_id r = ss_session_id s" "ss_topic_id r = t"
      "ss_agent_id r = agent" "retained r"
    using assms(6) by auto
  let ?rows = "status_rows (ss_session_id s) Active now (db_sessions db)"
  have k: "kept_once ?rows" using r by (intro kept_once_status [OF assms(1)]) auto
  have "one_active ?rows"
    using r assms(1,5) by (intro one_active_status [OF assms(2), of _ r]) (auto simp: kept_once_def)
  then have e: "set_status (ss_session_id s) Active now db = Inr (db\<lparr>db_sessions := ?rows\<rparr>)"
    using set_status_eq valid_rows k by blast
  have "raised t agent db (db\<lparr>db_sessions := ?rows\<rparr>)"
    unfolding raised_def
  proof (intro conjI ballI impI)
    fix x assume "x \<in> set (db_sessions (db\<lparr>db_sessions := ?rows\<rparr>))" and a: "ss_status x = Active"
    then have "x \<in> set ?rows" by simp
    then obtain x0 where x0: "x0 \<in> set (db_sessions db)" "same_session x0 x"
      "ss_status x = (if ss_session_id x0 = ss_session_id s then Active else ss_status x0)" by (rule status_rows_set)
    have "x0 = r" if "ss_session_id x0 = ss_session_id s"
      using distinct_key_eq [of ss_session_id "db_sessions db" x0 r] x0 r that assms(1) by (simp add: kept_once_def)
    then show "if ss_topic_id x = t then ss_agent_id x = agent
         else \<exists>s0 \<in> set (db_sessions db). ss_status s0 = Active \<and> ss_topic_id s0 = ss_topic_id x \<and> ss_agent_id s0 = ss_agent_id x"
      using x0 r a assms(5) [OF x0(1)] unfolding same_session_def by (auto split: if_splits intro!: bexI [of _ x0])
  qed (use k in simp_all)
  then show ?thesis
    using assms(4) by (auto simp: raise_session_def Some clash_attempt attempt_Inr e return_first_def split: if_splits)
qed


lemma keeps_activate:
  assumes ok: "sessions_ok db" and fresh: "fresh \<notin> ss_session_id ` set (db_sessions db)" and pr: "\<not> clash pr"
  shows "keeps_sessions (fst (activate_agent fresh t agent model effort ex c pr now db))
    (snd (activate_agent fresh t agent model effort ex c pr now db))"
proof -
  note k = ok [unfolded sessions_ok_def, THEN conjunct1] and one = sessions_ok_one_active [OF ok]
  have act: "active_agents db" using ok by (simp add: sessions_ok_def)
  let ?raise = "raise_session fresh t agent model effort c pr now (satellite_row db t agent)"
  have none: "\<not> clash (?raise db) \<and> (\<forall>i db'. ?raise db = Inr (i, db') \<longrightarrow> raised t agent db db')"
    if a: "active_row db t = None"
  proof (rule raise_ok [OF k one fresh pr])
    show "case satellite_row db t agent of Some s \<Rightarrow> (\<exists>r \<in> set (db_sessions db). ss_session_id r = ss_session_id s \<and> ss_topic_id r = t \<and> ss_agent_id r = agent \<and> retained r)
     | None \<Rightarrow> \<forall>s \<in> set (db_sessions db). ss_topic_id s = t \<longrightarrow> ss_agent_id s = agent \<longrightarrow> \<not> retained s"
      using active_row_None [OF a] by (auto simp: retained_def dest: satellite_row_Some satellite_row_None split: option.splits)
  qed (use active_row_None [OF a] in blast)
  have switch: "\<not> clash (attempt (set_status (ss_session_id cur) Satellite now db) ?raise) \<and>
      (\<forall>i db'. attempt (set_status (ss_session_id cur) Satellite now db) ?raise = Inr (i, db') \<longrightarrow> raised t agent db db')"
    if cur: "active_row db t = Some cur" "ss_agent_id cur \<noteq> agent" for cur
  proof -
    let ?rows = "status_rows (ss_session_id cur) Satellite now (db_sessions db)" let ?db1 = "db\<lparr>db_sessions := ?rows\<rparr>"
    note cr = active_row_Some [OF cur(1)]
    have k1: "kept_once ?rows" using cr by (intro kept_once_status [OF k]) (auto simp: retained_def)
    have o1: "one_active ?rows" by (rule one_active_status [OF one]) simp
    have same: "s0 = cur" if "s0 \<in> set (db_sessions db)" "ss_topic_id s0 = t" "ss_status s0 = Active" for s0
      using that cr one by (auto simp: one_active_def dest: inj_onD)
    have row: "\<exists>s0 \<in> set (db_sessions db). same_session s0 x \<and> ss_status x = (if ss_session_id s0 = ss_session_id cur then Satellite else ss_status s0)"
      if "x \<in> set ?rows" for x using that by (rule status_rows_set) blast
    have idle: "ss_status x \<noteq> Active" if "x \<in> set ?rows" "ss_topic_id x = t" for x
      using row [OF that(1)] that(2) same by (auto simp: same_session_def split: if_splits)
    have e: "set_status (ss_session_id cur) Satellite now db = Inr ?db1" using set_status_eq valid_rows k1 o1 by blast
    have "\<not> clash (?raise ?db1) \<and> (\<forall>i db'. ?raise ?db1 = Inr (i, db') \<longrightarrow> raised t agent ?db1 db')"
    proof (rule raise_ok)
      have keep: "\<exists>r \<in> set ?rows. ss_session_id r = ss_session_id s \<and> ss_topic_id r = ss_topic_id s \<and> ss_agent_id r = ss_agent_id s \<and> retained r"
        if s: "s \<in> set (db_sessions db)" "ss_status s = Satellite" for s
        using s by (intro bexI [of _ "if ss_session_id s = ss_session_id cur then s\<lparr>ss_status := Satellite, ss_updated_at := now\<rparr> else s"])
          (auto simp: status_rows_def set_update_where retained_def)
      have gone: "\<not> retained x" if n: "satellite_row db t agent = None" and x: "x \<in> set ?rows" "ss_topic_id x = t" "ss_agent_id x = agent" for x
      proof -
        obtain s0 where s0: "s0 \<in> set (db_sessions db)" "same_session s0 x"
          "ss_status x = (if ss_session_id s0 = ss_session_id cur then Satellite else ss_status s0)" using row [OF x(1)] by blast
        have "ss_session_id s0 \<noteq> ss_session_id cur"
          using s0 x cr cur(2) distinct_key_eq [of ss_session_id "db_sessions db" s0 cur] k
          by (auto simp: same_session_def kept_once_def)
        then show ?thesis
          using s0 x same [OF s0(1)] satellite_row_None [OF n s0(1)] cur(2)
          by (auto simp: same_session_def retained_def)
      qed
      show "case satellite_row db t agent of Some s \<Rightarrow> (\<exists>r \<in> set (db_sessions ?db1). ss_session_id r = ss_session_id s \<and> ss_topic_id r = t \<and> ss_agent_id r = agent \<and> retained r)
       | None \<Rightarrow> \<forall>s \<in> set (db_sessions ?db1). ss_topic_id s = t \<longrightarrow> ss_agent_id s = agent \<longrightarrow> \<not> retained s"
        using keep gone by (auto dest!: satellite_row_Some split: option.splits)
      show "fresh \<notin> ss_session_id ` set (db_sessions ?db1)"
        using fresh row by (fastforce simp: same_session_def)
    qed (use k1 o1 pr idle in simp_all)
    moreover have "raised t agent ?db1 db' \<Longrightarrow> raised t agent db db'" for db'
      unfolding raised_def using row same by (fastforce simp: same_session_def split: if_splits)
    ultimately show ?thesis by (auto simp: e)
  qed
  have stay: "raised t agent db db" if a: "active_row db t = Some cur" "ss_agent_id cur = agent" for cur
    using active_row_Some [OF a(1)] a(2) one k unfolding raised_def one_active_def
    by (auto dest: inj_onD)
  let ?tx = "activate_tx fresh t agent model effort ex c pr now db"
  have "\<not> clash ?tx"
    using none switch pr unfolding activate_tx_def
    by (auto simp: clash_attempt split: option.splits prod.splits)
  moreover have "sessions_ok db'" if tx: "?tx = Inr (i, db')" and top: "topic_of db t \<noteq> None" for i db'
  proof -
    obtain d where d: "raised t agent db d" "db' = put_active_agent t agent now d"
      using tx none switch stay unfolding activate_tx_def
      by (auto simp: attempt_Inr split: option.splits prod.splits if_splits)
    show ?thesis unfolding d(2) by (rule raised_put [OF d(1) act top])
  qed
  ultimately show ?thesis
    using ok unfolding activate_agent_def get_topic_def
    by (auto intro!: keeps_commit split: option.splits) (simp add: keeps_sessions_def)
qed


lemma keeps_satellite:
  assumes ok: "sessions_ok db" and fresh: "fresh \<notin> ss_session_id ` set (db_sessions db)" and pr: "\<not> clash pr"
  shows "keeps_sessions (fst (ensure_satellite fresh t agent model effort pr now db))
    (snd (ensure_satellite fresh t agent model effort pr now db))"
proof -
  note k = ok [unfolded sessions_ok_def, THEN conjunct1] and one = sessions_ok_one_active [OF ok]
  have known: "\<not> clash (attempt (require_codex_selection pr s) (\<lambda>_. Inr (session_record_of s)))" for s
    using pr by (simp add: clash_attempt)
  have new: "\<not> clash (insert_session fresh t agent model effort Satellite pr now db) \<and>
      (\<forall>db'. insert_session fresh t agent model effort Satellite pr now db = Inr db' \<longrightarrow> sessions_ok db')"
    if a: "topic_of db t = Some r" "tp_active_agent_id r \<noteq> Some agent" "satellite_row db t agent = None" for r
  proof -
    have free: "\<not> retained s" if s: "s \<in> set (db_sessions db)" "ss_topic_id s = t" "ss_agent_id s = agent" for s
      using satellite_row_None [OF a(3) s] ok s a(1,2)
      unfolding sessions_ok_def active_agents_def retained_def by fastforce
    have i: "\<not> clash (insert_session fresh t agent model effort Satellite pr now db) \<and>
      (\<forall>db'. insert_session fresh t agent model effort Satellite pr now db = Inr db' \<longrightarrow>
       kept_once (db_sessions db') \<and> db_topics db' = db_topics db \<and>
       (\<exists>n. db_sessions db' = db_sessions db @ [n] \<and> ss_session_id n = fresh \<and> ss_topic_id n = t \<and>
          ss_agent_id n = agent \<and> ss_status n = Satellite))"
      by (rule insert_raised [OF k one fresh pr]) (use free in blast, simp)
    have "sessions_ok db'" if "insert_session fresh t agent model effort Satellite pr now db = Inr db'" for db'
    proof -
      obtain n where n: "kept_once (db_sessions db')" "db_topics db' = db_topics db" "db_sessions db' = db_sessions db @ [n]"
        "ss_status n = Satellite" using i \<open>insert_session _ _ _ _ _ _ _ _ _ = _\<close> by blast
      have "topic_of db' = topic_of db" by (simp add: topic_of_def n(2) fun_eq_iff)
      then show ?thesis using ok n unfolding sessions_ok_def active_agents_def by auto
    qed
    then show ?thesis using i by blast
  qed
  show ?thesis unfolding ensure_satellite_def Let_def get_topic_def
    using ok known new
    by (auto intro!: keeps_commit simp: topic_record_of_def clash_attempt attempt_Inr split: option.splits)
      (auto simp: keeps_sessions_def clash_attempt)
qed

lemma no_clash_settable [simp]: "\<not> clash (settable db t ex)"
  by (auto simp: settable_def clash_attempt return_first_def split: option.splits)

lemma settable_Inr: "settable db t ex = Inr s \<Longrightarrow> active_row db t = Some s \<and> ss_writer_mode s = Telegram_writer"
  by (auto simp: settable_def attempt_Inr split: option.splits)

lemma keeps_replace_with:
  assumes ok: "sessions_ok db" and fresh: "fresh \<notin> ss_session_id ` set (db_sessions db)" and pr: "\<not> clash pr"
    and s: "s \<in> set (db_sessions db)" "ss_status s = Active"
  shows "\<not> clash (replace_with fresh s model effort pr now db) \<and>
    (\<forall>i db'. replace_with fresh s model effort pr now db = Inr (i, db') \<longrightarrow> sessions_ok db')"
proof -
  note k = ok [unfolded sessions_ok_def, THEN conjunct1] and one = sessions_ok_one_active [OF ok]
  let ?rows = "status_rows (ss_session_id s) Archived now (db_sessions db)" let ?db1 = "db\<lparr>db_sessions := ?rows\<rparr>"
  have k1: "kept_once ?rows" by (rule kept_once_status [OF k]) simp
  have o1: "one_active ?rows" by (rule one_active_status [OF one]) simp
  have e: "set_status (ss_session_id s) Archived now db = Inr ?db1" using set_status_eq valid_rows k1 o1 by blast
  have row: "\<exists>s0 \<in> set (db_sessions db). same_session s0 x \<and> ss_status x = (if s0 = s then Archived else ss_status s0)"
    if x: "x \<in> set ?rows" for x
  proof -
    obtain s0 where s0: "s0 \<in> set (db_sessions db)" "same_session s0 x"
      "ss_status x = (if ss_session_id s0 = ss_session_id s then Archived else ss_status s0)"
      using x by (rule status_rows_set)
    have "ss_session_id s0 = ss_session_id s \<longleftrightarrow> s0 = s"
      using distinct_key_eq [of ss_session_id "db_sessions db" s0 s] s0(1) s(1) k by (auto simp: kept_once_def)
    then show ?thesis using s0 by auto
  qed
  have free: "\<not> retained x" if x: "x \<in> set ?rows" "ss_topic_id x = ss_topic_id s" "ss_agent_id x = ss_agent_id s" for x
  proof -
    obtain s0 where s0: "s0 \<in> set (db_sessions db)" "same_session s0 x" "ss_status x = (if s0 = s then Archived else ss_status s0)"
      using row [OF x(1)] by blast
    have "s0 = s" if "retained s0"
      using that s0(1,2) s x(2,3) k by (auto simp: kept_once_def same_session_def retained_def dest: inj_onD)
    then show ?thesis using s0 by (auto simp: retained_def)
  qed
  have idle: "ss_status x \<noteq> Active" if "x \<in> set ?rows" "ss_topic_id x = ss_topic_id s" for x
    using row [OF that(1)] that(2) s one
    by (auto simp: same_session_def one_active_def dest: inj_onD split: if_splits)
  let ?ins = "insert_session fresh (ss_topic_id s) (ss_agent_id s) model effort Active pr now ?db1"
  have "fresh \<notin> ss_session_id ` set ?rows" using fresh row by (fastforce simp: same_session_def)
  then have i: "\<not> clash ?ins \<and> (\<forall>db'. ?ins = Inr db' \<longrightarrow>
       kept_once (db_sessions db') \<and> db_topics db' = db_topics ?db1 \<and>
       (\<exists>n. db_sessions db' = db_sessions ?db1 @ [n] \<and> ss_session_id n = fresh \<and> ss_topic_id n = ss_topic_id s \<and>
          ss_agent_id n = ss_agent_id s \<and> ss_status n = Active))"
    by (intro insert_raised) (use k1 o1 pr free idle in simp_all)
  have "sessions_ok db'" if ins: "?ins = Inr db'" for db'
  proof -
    obtain n where n: "kept_once (db_sessions db')" "db_topics db' = db_topics db" "db_sessions db' = ?rows @ [n]"
      "ss_topic_id n = ss_topic_id s" "ss_agent_id n = ss_agent_id s" 
      using i [THEN conjunct2, rule_format, OF ins] by auto
    have t: "topic_of db' = topic_of db" by (simp add: topic_of_def n(2) fun_eq_iff)
    have "map_option tp_active_agent_id (topic_of db (ss_topic_id x)) = Some (Some (ss_agent_id x))"
      if "x \<in> set ?rows" "ss_status x = Active" for x
      using row [OF that(1)] that(2) ok unfolding sessions_ok_def active_agents_def
      by (auto simp: same_session_def split: if_splits)
    moreover have "map_option tp_active_agent_id (topic_of db (ss_topic_id n)) = Some (Some (ss_agent_id n))"
      using ok s n(4,5) unfolding sessions_ok_def active_agents_def by simp
    ultimately show ?thesis unfolding sessions_ok_def active_agents_def t using n(1,3) by auto
  qed
  then show ?thesis using i by (auto simp: replace_with_def e clash_attempt attempt_Inr)
qed

lemma keeps_new:
  assumes "sessions_ok db" "fresh \<notin> ss_session_id ` set (db_sessions db)" "\<not> clash pr"
  shows "keeps_sessions (fst (new_active_session fresh t ex pr now db)) (snd (new_active_session fresh t ex pr now db))"
  unfolding new_active_session_def
proof (rule keeps_commit [OF assms(1)])
  note r = keeps_replace_with [OF assms]
  show "\<not> clash (attempt (settable db t ex) (\<lambda>p. replace_with fresh p (ss_model p) (ss_effort p) pr now db))"
    using r by (auto simp: clash_attempt dest!: settable_Inr active_row_Some)
  show "sessions_ok db' \<and> \<not> clash (get_session db' a)"
    if "attempt (settable db t ex) (\<lambda>p. replace_with fresh p (ss_model p) (ss_effort p) pr now db) = Inr (a, db')" for a db'
    using that r by (auto simp: attempt_Inr dest!: settable_Inr active_row_Some)
qed

lemma keeps_replace:
  assumes ok: "sessions_ok db" "fresh \<notin> ss_session_id ` set (db_sessions db)" "\<not> clash pr"
  shows "keeps_sessions (fst (replace_active_session fresh t model effort ex rt pr now db))
    (snd (replace_active_session fresh t model effort ex rt pr now db))"
  unfolding replace_active_session_def
proof (rule keeps_commit [OF assms(1)])
  note r = keeps_replace_with [OF assms]
  let ?tx = "replace_tx fresh t model effort ex (rt = Some ''claude'') pr now db"
  show "\<not> clash ?tx"
    using r ok(3) by (auto simp: replace_tx_def clash_attempt dest!: settable_Inr active_row_Some)
  have m: "sessions_ok (db\<lparr>db_sessions := update_where (\<lambda>s. ss_session_id s = i)
      (\<lambda>s. s\<lparr>ss_model := m, ss_effort := f, ss_updated_at := now\<rparr>) (db_sessions db)\<rparr>)" for i m f
    by (rule sessions_ok_update [OF ok(1)]) (auto simp: same_session_def)
  show "sessions_ok db' \<and> \<not> clash (get_session db' a)" if "?tx = Inr (a, db')" for a db'
    using that r m by (auto simp: replace_tx_def attempt_Inr split: if_splits dest!: settable_Inr active_row_Some)
qed

lemma keeps_forget: "keeps_sessions (fst (forget x)) d \<longleftrightarrow> keeps_sessions (fst x) d"
  by (simp add: keeps_sessions_def)

lemma session_op_keeps:
  assumes "sessions_ok db" "\<And>f. fresh_session op = Some f \<Longrightarrow> f \<notin> ss_session_id ` set (db_sessions db)" "\<not> clash pr"
  shows "keeps_sessions (fst (run_session_op w ids pr op db)) (snd (run_session_op w ids pr op db))"
proof -
  show ?thesis
    using assms
    by (cases op) (simp_all add: keeps_forget keeps_bind keeps_set_writer keeps_return keeps_context keeps_acknowledge
      keeps_activate keeps_satellite keeps_new keeps_replace)
qed

end
