(* ===== verification/Admission_Properties.thy ===== *)
theory Admission_Properties
  imports Provider_Admission Session_Properties
begin

text \<open>
  What an admission does: it adds one queued job at the end of its topic's queue, or finds the job
  its message already has; a part appended to a burst changes the queued tail only.
\<close>

section \<open>What is stored beside the job\<close>

definition attend_only :: "db \<Rightarrow> db \<Rightarrow> bool" where
  "attend_only db db' \<longleftrightarrow> db'\<lparr>db_ingress := [], db_inputs := [], db_materials := [], db_notices := []\<rparr> =
     db\<lparr>db_ingress := [], db_inputs := [], db_materials := [], db_notices := []\<rparr>"

lemma attend_only_parts [simp]:
  "attend_only db db" "attend_only db (db\<lparr>db_ingress := is\<rparr>)" "attend_only db (db\<lparr>db_inputs := ps\<rparr>)"
  "attend_only db (db\<lparr>db_materials := ms\<rparr>)" "attend_only db (db\<lparr>db_notices := ns\<rparr>)"
  by (simp_all add: attend_only_def)

lemma attend_only_trans: "attend_only a b \<Longrightarrow> attend_only b c \<Longrightarrow> attend_only a c"
  by (simp add: attend_only_def)

lemma attend_only_sel:
  assumes "attend_only db db'"
  shows "db_jobs db' = db_jobs db" "db_topics db' = db_topics db" "db_sessions db' = db_sessions db"
    "db_holds db' = db_holds db" "db_evidence db' = db_evidence db" "db_resolutions db' = db_resolutions db"
    "db_counters db' = db_counters db" "db_observed db' = db_observed db" "db_origins db' = db_origins db"
    "db_stops db' = db_stops db" "db_lanes db' = db_lanes db"
proof -
  note d = arg_cong [OF assms [unfolded attend_only_def]]
  show "db_jobs db' = db_jobs db" using d [of db_jobs] by simp
  show "db_topics db' = db_topics db" using d [of db_topics] by simp
  show "db_sessions db' = db_sessions db" using d [of db_sessions] by simp
  show "db_holds db' = db_holds db" using d [of db_holds] by simp
  show "db_evidence db' = db_evidence db" using d [of db_evidence] by simp
  show "db_resolutions db' = db_resolutions db" using d [of db_resolutions] by simp
  show "db_counters db' = db_counters db" using d [of db_counters] by simp
  show "db_observed db' = db_observed db" using d [of db_observed] by simp
  show "db_origins db' = db_origins db" using d [of db_origins] by simp
  show "db_stops db' = db_stops db" using d [of db_stops] by simp
  show "db_lanes db' = db_lanes db" using d [of db_lanes] by simp
qed

lemma notices_attend: "notices_only db db' \<Longrightarrow> attend_only db db'"
  by (erule notices_onlyE) simp

lemma put_input_Inr: "put_input p db = Inr db' \<Longrightarrow> attend_only db db'"
  by (auto simp: put_input_def split: if_splits)

lemma record_new_job_Inr: "record_new_job i x db = Inr db' \<Longrightarrow> attend_only db db'"
  by (auto simp: record_new_job_def split: option.splits if_splits)

lemma attach_Inr: "attach_forwarded i t a s g db = Inr db' \<Longrightarrow> attend_only db db'"
  by (auto simp: attach_forwarded_def split: option.splits)

lemma put_material_Inr: "put_material m db = Inr db' \<Longrightarrow> attend_only db db'"
  by (auto simp: put_material_def split: if_splits)

lemma insert_draft_Inr: "insert_draft w t origin now x db = Inr db' \<Longrightarrow> attend_only db db'"
  by (auto simp: insert_draft_def attempt_Inr dest: put_material_Inr)

lemma each_draft_Inr:
  assumes "each_row (insert_draft w t origin now) xs db = Inr db'"
  shows "attend_only db db'"
  by (rule each_row_invariant [OF assms, where P = "attend_only db"])
    (auto intro: attend_only_trans dest: insert_draft_Inr)

lemma insert_materials_Inr: "insert_materials cl fresh w ds now origin db = Inr db' \<Longrightarrow> attend_only db db'"
  unfolding insert_materials_def Let_def
  by (cases "ds = []"; cases "topic_of db (mo_topic_id w)") (auto simp: attempt_Inr dest: each_draft_Inr)

definition first_part :: "string \<Rightarrow> admission_options \<Rightarrow> input_draft \<Rightarrow> time \<Rightarrow> job_input" where
  "first_part i opts d now = \<lparr>ji_job_id = i, ji_chat_id = in_chat_id d, ji_message_id = in_message_id d, ji_part_index = 1,
     ji_input_text = (case ao_control_input opts of Some c \<Rightarrow> c | None \<Rightarrow> in_payload_text d), ji_received_at = now\<rparr>"

lemma attend_job_steps:
  assumes "attend_job e opts d x now db = Inr db'"
  obtains db1 db2 db3 db4 where "record_new_job (ae_job_id e) x db = Inr db1"
    "put_input (first_part (ae_job_id e) opts d now) db1 = Inr db2"
    "db3 = db2 \<or> attach_forwarded (ae_job_id e) (in_topic_id d) (in_agent_id d) (in_session_id d) (in_session_generation d) db2 = Inr db3"
    "insert_materials (ae_clean e) (ae_material_id e) (job_owner (ae_job_id e) d) (in_materials d) now None db3 = Inr db4"
    "notices_only db4 db'"
proof -
  let ?i = "ae_job_id e"
  let ?attach = "\<lambda>db. if ao_attach_forwarded_materials opts
     then attach_forwarded ?i (in_topic_id d) (in_agent_id d) (in_session_id d) (in_session_generation d) db else Inr db"
  let ?notes = "\<lambda>db. if in_prepare_task_notices d
     then admitted_in_transaction ?i now (in_queue_capacity d) (ae_accepted_notice_id e) (ae_queued_notice_id e) db else Inr db"
  obtain db1 db2 db3 db4 where s: "record_new_job ?i x db = Inr db1" "put_input (first_part ?i opts d now) db1 = Inr db2"
    "?attach db2 = Inr db3"
    "insert_materials (ae_clean e) (ae_material_id e) (job_owner ?i d) (in_materials d) now None db3 = Inr db4"
    "?notes db4 = Inr db'"
    using assms unfolding attend_job_def Let_def attempt_Inr first_part_def by blast
  have "db3 = db2 \<or> attach_forwarded ?i (in_topic_id d) (in_agent_id d) (in_session_id d) (in_session_generation d) db2 = Inr db3"
    using s(3) by (cases "ao_attach_forwarded_materials opts") auto
  moreover have "notices_only db4 db'" using s(5) admitted_only by (cases "in_prepare_task_notices d") auto
  ultimately show ?thesis using that s by blast
qed

lemma attend_job_Inr:
  assumes "attend_job e opts d x now db = Inr db'"
  shows "attend_only db db'"
proof (rule attend_job_steps [OF assms])
  fix db1 db2 db3 db4
  assume s: "record_new_job (ae_job_id e) x db = Inr db1" "put_input (first_part (ae_job_id e) opts d now) db1 = Inr db2"
    and a: "db3 = db2 \<or> attach_forwarded (ae_job_id e) (in_topic_id d) (in_agent_id d) (in_session_id d) (in_session_generation d) db2 = Inr db3"
    and i: "insert_materials (ae_clean e) (ae_material_id e) (job_owner (ae_job_id e) d) (in_materials d) now None db3 = Inr db4"
    and n: "notices_only db4 db'"
  have "attend_only db db2" using record_new_job_Inr [OF s(1)] put_input_Inr [OF s(2)] by (rule attend_only_trans)
  then have "attend_only db db3" using a attach_Inr attend_only_trans by blast
  then have "attend_only db db4" using insert_materials_Inr [OF i] by (rule attend_only_trans)
  then show ?thesis using notices_attend [OF n] by (rule attend_only_trans)
qed

section \<open>The queue of a topic\<close>

text \<open>Every job lies below the counter of its topic.\<close>

definition counted :: "db \<Rightarrow> bool" where
  "counted db \<longleftrightarrow> (\<forall>j \<in> set (db_jobs db). pj_topic_sequence j < next_in_topic db (pj_topic_id j))"

lemma next_in_topic_cong: "db_counters db' = db_counters db \<Longrightarrow> next_in_topic db' = next_in_topic db"
  by (simp add: fun_eq_iff next_in_topic_def)

lemma advance_counter_sel [simp]:
  "db_jobs (advance_counter t now db) = db_jobs db" "db_topics (advance_counter t now db) = db_topics db"
  "db_sessions (advance_counter t now db) = db_sessions db" "db_holds (advance_counter t now db) = db_holds db"
  "db_evidence (advance_counter t now db) = db_evidence db" "db_resolutions (advance_counter t now db) = db_resolutions db"
  by (simp_all add: advance_counter_def)

lemma next_in_topic_advance:
  "next_in_topic (advance_counter t now db) u = (if u = t then next_in_topic db t + 1 else next_in_topic db u)"
proof -
  let ?new = "\<lparr>qn_topic_id = t, qn_next_sequence = 2, qn_updated_at = now\<rparr>"
  let ?f = "\<lambda>c. c\<lparr>qn_next_sequence := qn_next_sequence c + 1, qn_updated_at := now\<rparr>"
  show ?thesis
  proof (cases "exists_row (\<lambda>c. qn_topic_id c = t) (db_counters db)")
    case True
    then have c: "db_counters (advance_counter t now db) = update_where (\<lambda>c. qn_topic_id c = t) ?f (db_counters db)"
      by (simp add: advance_counter_def upsert_row_def)
    have "find (\<lambda>c. qn_topic_id c = u) (db_counters (advance_counter t now db)) =
        map_option (\<lambda>c. if qn_topic_id c = t then ?f c else c) (find (\<lambda>c. qn_topic_id c = u) (db_counters db))"
      unfolding c by (rule find_update_where) simp
    moreover have "find (\<lambda>c. qn_topic_id c = t) (db_counters db) \<noteq> None" using True by (simp add: find_None_exists)
    ultimately show ?thesis by (auto simp: next_in_topic_def dest: find_Some_set split: option.splits)
  next
    case False
    then have "find (\<lambda>c. qn_topic_id c = t) (db_counters db) = None" by (simp add: find_None_exists)
    then show ?thesis using False
      by (auto simp: next_in_topic_def advance_counter_def upsert_row_def find_append_None split: option.splits)
  qed
qed


section \<open>One admission\<close>

lemma snapshot_session_Inr: "snapshot_session d db = Inr s \<Longrightarrow> session_of db (in_session_id d) = Some s \<and>
    ss_topic_id s = in_topic_id d \<and> ss_agent_id s = in_agent_id d \<and> ss_generation s = in_session_generation d"
  by (auto simp: snapshot_session_def Let_def split: option.splits if_splits)

lemma get_topic_Inr: "get_topic db t = Inr x \<Longrightarrow> map_option tp_chat_id (topic_of db t) = Some (tr_chat_id x)"
  by (auto simp: get_topic_def topic_record_of_def split: option.splits)

lemma take_writer_Inr: "take_writer x d moved db = Inr db1 \<Longrightarrow> \<not> topic_has_pending db (in_topic_id d) \<and>
    db1 = put_writer (in_session_id d) Telegram_writer moved db"
  by (simp add: take_writer_def attempt_Inr)

lemma require_binding_Inr:
  assumes "require_binding pr opts d moved db = Inr (s, db1)"
  shows "session_of db (in_session_id d) = Some s" "ss_topic_id s = in_topic_id d" "ss_agent_id s = in_agent_id d"
    "ss_generation s = in_session_generation d" "retained s" "ss_model s = in_model d" "ss_effort s = in_effort d"
    "map_option tp_chat_id (topic_of db (in_topic_id d)) = Some (in_chat_id d)"
    "require_admission db (in_session_id d) (in_message_id d) = Inr ()"
    "ss_writer_mode s = (if ao_take_local_writer opts then Local_writer else Telegram_writer)"
    "ao_take_local_writer opts \<or> persistent_root_blocker db (in_topic_id d) = None \<and> db1 = db"
    "\<not> ao_take_local_writer opts \<or> \<not> topic_has_pending db (in_topic_id d) \<and>
       db1 = put_writer (in_session_id d) Telegram_writer moved db"
proof -
  obtain topic u where r: "get_topic db (in_topic_id d) = Inr topic" "tr_chat_id topic = in_chat_id d"
    "snapshot_session d db = Inr s" "retained s" "require_admission db (in_session_id d) (in_message_id d) = Inr u"
    "ss_writer_mode s = (if ao_take_local_writer opts then Local_writer else Telegram_writer)"
    "ao_take_local_writer opts \<or> persistent_root_blocker db (in_topic_id d) = None"
    "ss_model s = in_model d \<and> ss_effort s = in_effort d"
    "(if ao_take_local_writer opts then take_writer (ao_expected_transfer opts) d moved db else Inr db) = Inr db1"
    using assms unfolding require_binding_def Let_def by (auto simp only: attempt_Inr check_Inr sum.inject prod.inject)
  show "session_of db (in_session_id d) = Some s" "ss_topic_id s = in_topic_id d" "ss_agent_id s = in_agent_id d"
    "ss_generation s = in_session_generation d"
    using snapshot_session_Inr [OF r(3)] by simp_all
  show "retained s" "ss_model s = in_model d" "ss_effort s = in_effort d"
    "require_admission db (in_session_id d) (in_message_id d) = Inr ()"
    "ss_writer_mode s = (if ao_take_local_writer opts then Local_writer else Telegram_writer)"
    using r by simp_all
  show "map_option tp_chat_id (topic_of db (in_topic_id d)) = Some (in_chat_id d)"
    using get_topic_Inr [OF r(1)] r(2) by simp
  show "ao_take_local_writer opts \<or> persistent_root_blocker db (in_topic_id d) = None \<and> db1 = db"
    "\<not> ao_take_local_writer opts \<or> \<not> topic_has_pending db (in_topic_id d) \<and>
       db1 = put_writer (in_session_id d) Telegram_writer moved db"
    using r(7,9) take_writer_Inr by (auto split: if_splits)
qed

text \<open>An input whose key is new never finds the clash of another row with the same key.\<close>

lemma insert_job_Inr:
  assumes "insert_job e opts d x s now db = Inr ((j, fresh), db')"
    "\<not> exists_row (\<lambda>k. pj_idempotency_key k = in_idempotency_key d) (db_jobs db)"
  obtains m where "fresh" "j = new_job (ae_job_id e) (next_in_topic db (in_topic_id d)) opts d s now"
    "m = advance_counter (in_topic_id d) now (note_message (in_chat_id d) (in_message_id d) db)"
    "\<not> job_clashes j m" "attend_only (m\<lparr>db_jobs := db_jobs db @ [j]\<rparr>) db'"
    "attend_job e opts d x now (m\<lparr>db_jobs := db_jobs db @ [j]\<rparr>) = Inr db'"
proof -
  let ?m = "advance_counter (in_topic_id d) now (note_message (in_chat_id d) (in_message_id d) db)"
  let ?j = "new_job (ae_job_id e) (next_in_topic db (in_topic_id d)) opts d s now"
  have jobs: "db_jobs ?m = db_jobs db" by (simp add: note_message_sel)
  have "\<not> job_clashes ?j ?m"
  proof
    assume "job_clashes ?j ?m"
    then obtain k where "find (\<lambda>k. pj_idempotency_key k = in_idempotency_key d \<or>
        pj_chat_id k = in_chat_id d \<and> pj_message_id k = in_message_id d) (db_jobs db) = Some k"
      "pj_idempotency_key k = in_idempotency_key d"
      using assms(1) unfolding insert_job_def Let_def jobs by (auto split: option.splits if_splits)
    then show False using assms(2) find_Some_set by (fastforce simp: exists_row_iff)
  qed
  then show ?thesis
    using assms(1) that [of ?m] attend_job_Inr unfolding insert_job_def Let_def jobs by (auto simp: attempt_Inr)
qed


lemma enqueue_cases:
  assumes "enqueue_provider_job e opts raw moved now db = (r, db')"
  obtains (refused) x where "r = Inl x" "db' = db"
  | (known) d x k where "valid_input raw (ao_max_attempts opts) = Inr (d, x)" "r = Inr (k, False)" "db' = db"
      "find (\<lambda>k. pj_idempotency_key k = in_idempotency_key d) (db_jobs db) = Some k"
      "pj_chat_id k = in_chat_id d" "pj_message_id k = in_message_id d"
  | (added) d x s db1 m j where "valid_input raw (ao_max_attempts opts) = Inr (d, x)" "r = Inr (j, True)"
      "find (\<lambda>k. pj_idempotency_key k = in_idempotency_key d) (db_jobs db) = None"
      "require_binding (ae_profile e) opts d moved db = Inr (s, db1)"
      "j = new_job (ae_job_id e) (next_in_topic db1 (in_topic_id d)) opts d s now"
      "m = advance_counter (in_topic_id d) now (note_message (in_chat_id d) (in_message_id d) db1)"
      "\<not> job_clashes j m" "attend_only (m\<lparr>db_jobs := db_jobs db @ [j]\<rparr>) db'"
      "attend_job e opts d x now (m\<lparr>db_jobs := db_jobs db @ [j]\<rparr>) = Inr db'"
  using assms unfolding enqueue_provider_job_def
proof (cases rule: transact_cases)
  case (rolled_back x)
  then show ?thesis using refused by simp
next
  case (committed a)
  obtain d x where v: "valid_input raw (ao_max_attempts opts) = Inr (d, x)"
    using committed(1) by (auto simp: admit_tx_def attempt_Inr)
  show ?thesis
  proof (cases "find (\<lambda>k. pj_idempotency_key k = in_idempotency_key d) (db_jobs db)")
    case (Some k)
    then have k: "pj_chat_id k = in_chat_id d" "pj_message_id k = in_message_id d" "a = (k, False)" "db' = db"
      using committed v by (auto simp: admit_tx_def split: if_splits)
    show ?thesis by (rule known [OF v _ k(4) Some k(1,2)]) (simp add: committed(2) k(3))
  next
    case None
    then obtain s db1 where b: "require_binding (ae_profile e) opts d moved db = Inr (s, db1)"
      "insert_job e opts d x s now db1 = Inr (a, db')"
      using committed v by (auto simp: admit_tx_def attempt_Inr)
    have jobs: "db_jobs db1 = db_jobs db" using require_binding_Inr(11,12) [OF b(1)] by auto
    obtain j f where a: "a = (j, f)" by (cases a) auto
    have new: "\<not> exists_row (\<lambda>k. pj_idempotency_key k = in_idempotency_key d) (db_jobs db1)"
      using None by (simp add: find_None_exists jobs)
    show ?thesis
    proof (rule insert_job_Inr [OF b(2) [unfolded a] new])
      fix m assume f and i: "j = new_job (ae_job_id e) (next_in_topic db1 (in_topic_id d)) opts d s now"
        "m = advance_counter (in_topic_id d) now (note_message (in_chat_id d) (in_message_id d) db1)"
        "\<not> job_clashes j m" "attend_only (m\<lparr>db_jobs := db_jobs db1 @ [j]\<rparr>) db'"
        "attend_job e opts d x now (m\<lparr>db_jobs := db_jobs db1 @ [j]\<rparr>) = Inr db'"
      then have "r = Inr (j, True)" using committed(2) a by simp
      then show ?thesis using added [OF v _ None b(1) i(1-3) i(4,5) [unfolded jobs]] by simp
    qed
  qed
qed

lemma optional_strip: "optional_bounded v n m = Inr w \<Longrightarrow> w = map_option py_strip v"
  by (auto simp: optional_bounded_def dest!: bounded_ok split: option.splits sum.splits)

lemma valid_input_same:
  assumes "valid_input raw n = Inr (d, x)"
  shows "in_chat_id d = in_chat_id raw" "in_message_id d = in_message_id raw" "in_topic_id d = in_topic_id raw"
    "in_session_generation d = in_session_generation raw" "in_idempotency_key d = py_strip (in_idempotency_key raw)"
    "in_materials d = in_materials raw" "1 \<le> n \<and> n \<le> 20" "in_session_id d = py_strip (in_session_id raw)"
    "in_agent_id d = py_strip (in_agent_id raw)" "in_payload_text d = py_strip (in_payload_text raw)"
    "in_input_group_key d = map_option py_strip (in_input_group_key raw)"
proof -
  obtain key agent session model effort payload provider handoff grp where v:
    "bounded (in_idempotency_key raw) ''idempotency key'' 256 = Inr key" "bounded (in_agent_id raw) ''agent id'' 64 = Inr agent"
    "bounded (in_session_id raw) ''session id'' 128 = Inr session" "bounded (in_payload_text raw) ''payload'' 20000 = Inr payload"
    "optional_bounded (in_input_group_key raw) ''input group key'' 256 = Inr grp" "1 \<le> n \<and> n \<le> 20"
    "d = raw\<lparr>in_idempotency_key := key, in_agent_id := agent, in_session_id := session, in_model := model,
            in_effort := effort, in_payload_text := payload, in_provider_session_id := provider,
            in_handoff_id := handoff, in_input_group_key := grp\<rparr>"
    using assms unfolding valid_input_def by (auto simp only: attempt_Inr check_Inr sum.inject prod.inject)
  note b = bounded_strip [OF v(1)] bounded_strip [OF v(2)] bounded_strip [OF v(3)] bounded_strip [OF v(4)] optional_strip [OF v(5)]
  show "in_chat_id d = in_chat_id raw" "in_message_id d = in_message_id raw" "in_topic_id d = in_topic_id raw"
    "in_session_generation d = in_session_generation raw" "in_idempotency_key d = py_strip (in_idempotency_key raw)"
    "in_materials d = in_materials raw" "1 \<le> n \<and> n \<le> 20" "in_session_id d = py_strip (in_session_id raw)"
    "in_agent_id d = py_strip (in_agent_id raw)" "in_payload_text d = py_strip (in_payload_text raw)"
    "in_input_group_key d = map_option py_strip (in_input_group_key raw)"
    using v(6) by (simp_all add: v(7) b)
qed

lemma note_counters [simp]: "db_counters (note_message c m db) = db_counters db"
  by (simp add: note_message_def)

lemma added_counts:
  assumes "counted db" "db_jobs db1 = db_jobs db" "db_counters db1 = db_counters db"
    "j = new_job i (next_in_topic db1 (in_topic_id d)) opts d s now"
    "m = advance_counter (in_topic_id d) now (note_message c mm db1)" "attend_only (m\<lparr>db_jobs := db_jobs db @ [j]\<rparr>) db'"
  shows "counted db' \<and> (\<forall>k \<in> set (db_jobs db). pj_topic_id k = in_topic_id d \<longrightarrow> pj_topic_sequence k < pj_topic_sequence j)"
proof -
  note a = attend_only_sel [OF assms(6)]
  have n: "next_in_topic db' u = (if u = in_topic_id d then next_in_topic db u + 1 else next_in_topic db u)" for u
  proof -
    have "next_in_topic db' = next_in_topic m" by (rule next_in_topic_cong) (simp add: a(7))
    moreover have "next_in_topic (note_message c mm db1) = next_in_topic db" by (rule next_in_topic_cong) (simp add: assms(3))
    ultimately show ?thesis by (simp add: assms(5) next_in_topic_advance)
  qed
  have j: "pj_topic_id j = in_topic_id d" "pj_topic_sequence j = next_in_topic db (in_topic_id d)"
    using next_in_topic_cong [OF assms(3)] by (simp_all add: assms(4) new_job_def)
  have "pj_topic_sequence k < next_in_topic db (pj_topic_id k)" if "k \<in> set (db_jobs db)" for k
    using assms(1) that by (simp add: counted_def)
  then show ?thesis unfolding counted_def a(1) n using j by fastforce
qed


text \<open>A refused admission leaves no trace, a repeated one finds its job, and a new one is the last of its
  topic's queue, bound to a session that may write.\<close>

definition admitted_job :: "db \<Rightarrow> input_draft \<Rightarrow> provider_job \<Rightarrow> bool" where
  "admitted_job db d j \<longleftrightarrow> pj_status j = Queued \<and> pj_topic_id j = in_topic_id d \<and> pj_chat_id j = in_chat_id d \<and>
     pj_message_id j = in_message_id d \<and> pj_idempotency_key j = py_strip (in_idempotency_key d) \<and>
     (\<forall>k \<in> set (db_jobs db). pj_job_id k \<noteq> pj_job_id j \<and> pj_idempotency_key k \<noteq> pj_idempotency_key j \<and>
        (pj_chat_id k, pj_message_id k) \<noteq> (pj_chat_id j, pj_message_id j) \<and>
        (pj_topic_id k = pj_topic_id j \<longrightarrow> pj_topic_sequence k < pj_topic_sequence j)) \<and>
     (\<exists>s \<in> set (db_sessions db). ss_session_id s = pj_session_id j \<and> ss_topic_id s = pj_topic_id j \<and>
        ss_agent_id s = pj_agent_id j \<and> ss_generation s = pj_session_generation j \<and> retained s \<and>
        ss_model s = pj_model j \<and> ss_effort s = pj_effort j)"

lemma admitted_effect:
  assumes "enqueue_provider_job e opts raw moved now db = (Inr (j, True), db')" "counted db"
  shows "counted db' \<and> db_jobs db' = db_jobs db @ [j] \<and> pj_job_id j = ae_job_id e \<and> admitted_job db raw j"
  using assms(1)
proof (cases rule: enqueue_cases)
  case (added d x s db1 m j')
  have j: "j = j'" using added(2) by simp
  note b = require_binding_Inr [OF added(4)] and v = valid_input_same [OF added(1)]
  have db1: "db_jobs db1 = db_jobs db" "db_counters db1 = db_counters db" using b(11,12) by auto
  have n: "counted db' \<and> (\<forall>k \<in> set (db_jobs db). pj_topic_id k = in_topic_id d \<longrightarrow> pj_topic_sequence k < pj_topic_sequence j')"
    by (rule added_counts [OF assms(2) db1 added(5,6,8)])
  have jobs: "db_jobs db' = db_jobs db @ [j']" using attend_only_sel(1) [OF added(8)] by simp
  have m: "db_jobs m = db_jobs db" using db1 by (simp add: added(6) note_message_sel)
  have c: "\<forall>k \<in> set (db_jobs db). pj_job_id k \<noteq> pj_job_id j' \<and> pj_idempotency_key k \<noteq> pj_idempotency_key j' \<and>
      (pj_chat_id k, pj_message_id k) \<noteq> (pj_chat_id j', pj_message_id j')"
    using added(7) by (auto simp: job_clashes_def m exists_row_iff)
  have f: "pj_status j' = Queued" "pj_topic_id j' = in_topic_id d" "pj_chat_id j' = in_chat_id d" "pj_job_id j' = ae_job_id e"
      "pj_message_id j' = in_message_id d" "pj_idempotency_key j' = in_idempotency_key d" "pj_session_id j' = in_session_id d"
      "pj_agent_id j' = in_agent_id d" "pj_session_generation j' = in_session_generation d" "pj_model j' = in_model d"
      "pj_effort j' = in_effort d"
    by (simp_all add: added(5) new_job_def)
  have "s \<in> set (db_sessions db) \<and> ss_session_id s = in_session_id d" by (rule session_in_rows [OF b(1)])
  then have "\<exists>s \<in> set (db_sessions db). ss_session_id s = pj_session_id j' \<and> ss_topic_id s = pj_topic_id j' \<and>
        ss_agent_id s = pj_agent_id j' \<and> ss_generation s = pj_session_generation j' \<and> retained s \<and>
        ss_model s = pj_model j' \<and> ss_effort s = pj_effort j'"
    using b(2-7) f by (intro bexI [of _ s]) simp_all
  then show ?thesis using n c jobs f v(1-3,5) by (simp add: admitted_job_def j)
qed simp_all


lemma valid_input_again: "valid_input d n = Inr v \<Longrightarrow> 1 \<le> n' \<Longrightarrow> n' \<le> 20 \<Longrightarrow> valid_input d n' = Inr v"
proof -
  assume v: "valid_input d n = Inr v" and n': "1 \<le> n'" "n' \<le> 20"
  obtain d' x where "v = (d', x)" by (cases v)
  then have "(1 \<le> n' \<and> n' \<le> 20) = (1 \<le> n \<and> n \<le> 20)" using valid_input_same(7) v n' by blast
  then have "valid_input d n' = valid_input d n" unfolding valid_input_def by (rule arg_cong)
  then show ?thesis using v by simp
qed

text \<open>C6. Redelivery is harmless: once a message was admitted, or found to be known, admitting it again,
  whatever the identifiers, options and clock of the second call, returns the same job and changes
  nothing.\<close>

theorem redelivery_finds_the_job:
  assumes "enqueue_provider_job e opts d moved now db = (Inr (j, new), db')" "1 \<le> ao_max_attempts opts'" "ao_max_attempts opts' \<le> 20"
  shows "enqueue_provider_job e' opts' d moved' now' db' = (Inr (j, False), db')"
proof -
  have again: "enqueue_provider_job e' opts' d moved' now' db' = (Inr (k, False), db')"
    if v: "valid_input d (ao_max_attempts opts) = Inr (v, x)"
      and f: "find (\<lambda>k. pj_idempotency_key k = in_idempotency_key v) (db_jobs db') = Some k"
      and c: "pj_chat_id k = in_chat_id v" "pj_message_id k = in_message_id v" for v x k
    using valid_input_again [OF v assms(2,3)] f c by (simp add: enqueue_provider_job_def admit_tx_def transact_def)
  show ?thesis
    using assms(1)
  proof (cases rule: enqueue_cases)
    case (known v x k)
    then show ?thesis using again [OF known(1)] by simp
  next
    case (added v x s db1 m j')
    have "db_jobs db' = db_jobs db @ [j']" using attend_only_sel(1) [OF added(8)] by simp
    then have "find (\<lambda>k. pj_idempotency_key k = in_idempotency_key v) (db_jobs db') = Some j'"
      using added(3) by (simp add: find_append_None added(5) new_job_def)
    then show ?thesis using again [OF added(1)] added(2) by (simp add: added(5) new_job_def)
  qed simp
qed


section \<open>Bursts\<close>

lemma append_part_steps:
  assumes "append_part e d part_text quiet_ms max_ms current c db = Inr db'"
  obtains db1 db2 db3 where "put_input \<lparr>ji_job_id = pj_job_id c, ji_chat_id = in_chat_id d, ji_message_id = in_message_id d,
      ji_part_index = int (count_where (\<lambda>p. ji_job_id p = pj_job_id c) (db_inputs db)) + 1, ji_input_text = part_text,
      ji_received_at = current\<rparr> (note_message (in_chat_id d) (in_message_id d) db) = Inr db1"
    "attach_forwarded (pj_job_id c) (in_topic_id d) (in_agent_id d) (in_session_id d) (in_session_generation d) db1 = Inr db2"
    "insert_materials (ae_clean e) (ae_material_id e) (job_owner (pj_job_id c) d) (in_materials d) current None db2 = Inr db3"
    "db' = update_jobs (\<lambda>j. pj_job_id j = pj_job_id c \<and> pj_status j = Queued)
       (grow_job (pj_payload_text c @ follow_up @ part_text)
         (min (current + milliseconds quiet_ms) (pj_created_at c + milliseconds max_ms)) current) db3"
    "attend_only (note_message (in_chat_id d) (in_message_id d) db) db3"
  using assms unfolding append_part_def Let_def attempt_Inr check_Inr sum.inject
  by (elim exE conjE) (blast intro: put_input_Inr attach_Inr insert_materials_Inr attend_only_trans)

lemma append_part_Inr:
  assumes "append_part e d part_text quiet_ms max_ms current c db = Inr db'"
  obtains m where "attend_only (note_message (in_chat_id d) (in_message_id d) db) m"
    "db' = update_jobs (\<lambda>j. pj_job_id j = pj_job_id c \<and> pj_status j = Queued)
       (grow_job (pj_payload_text c @ follow_up @ part_text)
         (min (current + milliseconds quiet_ms) (pj_created_at c + milliseconds max_ms)) current) m"
  by (rule append_part_steps [OF assms]) (rule that)

lemma max_of_ge: "max_of xs = Some m \<Longrightarrow> x \<in> set xs \<Longrightarrow> x \<le> m"
proof -
  have f: "a \<le> foldl max a ys \<and> (\<forall>y \<in> set ys. y \<le> foldl max a ys)" for a :: int and ys
  proof (induction ys arbitrary: a)
    case (Cons y ys)
    show ?case using Cons.IH [of "max a y"] by auto
  qed simp
  assume "max_of xs = Some m" "x \<in> set xs"
  then show ?thesis using f by (auto simp: max_of_def split: list.splits)
qed

lemma burst_tail_Some:
  assumes "burst_tail d grp profile ingress current oldest db = Some c"
  shows "c \<in> set (db_jobs db)" "pj_status c = Queued" "pj_topic_id c = in_topic_id d"
    "pj_session_id c = in_session_id d \<and> pj_agent_id c = in_agent_id d \<and> pj_session_generation c = in_session_generation d"
    "after (pj_next_attempt_at c) current" "oldest \<le> pj_created_at c"
    "\<forall>k \<in> set (db_jobs db). pj_topic_id k = in_topic_id d \<longrightarrow> pj_topic_sequence k \<le> pj_topic_sequence c"
proof -
  note f = find_Some_set [OF assms [unfolded burst_tail_def]]
  then show "c \<in> set (db_jobs db)" "pj_status c = Queued" "pj_topic_id c = in_topic_id d"
    "pj_session_id c = in_session_id d \<and> pj_agent_id c = in_agent_id d \<and> pj_session_generation c = in_session_generation d"
    "after (pj_next_attempt_at c) current" "oldest \<le> pj_created_at c" by simp_all
  have "last_sequence db (in_topic_id d) = Some (pj_topic_sequence c)" using f by simp
  then show "\<forall>k \<in> set (db_jobs db). pj_topic_id k = in_topic_id d \<longrightarrow> pj_topic_sequence k \<le> pj_topic_sequence c"
    unfolding last_sequence_def by (auto intro: max_of_ge)
qed

lemma append_cases:
  assumes "append_tx e d ingress part_text grp quiet_ms max_ms current db = Inr (res, db')"
  obtains (seen) j where "res = Some (j, False)" "db' = db" "j \<in> set (db_jobs db)"
  | (alone) "res = None" "db' = db"
  | (grown) c j profile where "res = Some (j, True)"
      "persistent_root_blocker db (in_topic_id d) = None \<and> map_option tp_chat_id (topic_of db (in_topic_id d)) = Some (in_chat_id d)"
      "burst_tail d grp profile ingress current (current - milliseconds max_ms) db = Some c"
      "length (pj_payload_text c @ follow_up @ part_text) \<le> 20000"
      "append_part e d part_text quiet_ms max_ms current c db = Inr db'" "get_job db' (pj_job_id c) = Inr j"
proof (cases "find (\<lambda>p. ji_chat_id p = in_chat_id d \<and> ji_message_id p = in_message_id d \<and>
             job_of db (ji_job_id p) \<noteq> None) (db_inputs db)")
  case (Some p)
  then show ?thesis using assms seen
    by (auto simp: append_tx_def attempt_Inr get_job_def job_of_def dest: find_Some_set split: option.splits)
next
  case None
  then obtain s :: session_record and topic :: topic_record where p: "persistent_root_blocker db (in_topic_id d) = None"
    "get_topic db (in_topic_id d) = Inr topic" "tr_chat_id topic = in_chat_id d"
    and g: "grow_tail e d ingress part_text grp quiet_ms max_ms current (sn_codex_permission_profile s) db = Inr (res, db')"
    using assms unfolding append_tx_def by (auto simp only: attempt_Inr check_Inr option.case split: if_splits)
  have "persistent_root_blocker db (in_topic_id d) = None \<and> map_option tp_chat_id (topic_of db (in_topic_id d)) = Some (in_chat_id d)"
    using p(1,3) get_topic_Inr [OF p(2)] by simp
  note s = this g
  show ?thesis
  proof (cases "burst_tail d grp (sn_codex_permission_profile s) ingress current (current - milliseconds max_ms) db")
    case None
    then show ?thesis using s(2) alone by (simp add: grow_tail_def)
  next
    case (Some c)
    then show ?thesis using s alone grown [OF _ s(1) Some]
      by (auto simp: grow_tail_def attempt_Inr simp del: length_append split: if_splits)
  qed
qed


lemma append_effect:
  assumes "append_tx e d ingress part_text grp quiet_ms max_ms current db = Inr (Some (j, True), db')" "jobs_ok db"
  shows "\<exists>c \<in> set (db_jobs db). pj_status c = Queued \<and> pj_topic_id c = in_topic_id d \<and> after (pj_next_attempt_at c) current \<and>
     (\<forall>k \<in> set (db_jobs db). pj_topic_id k = in_topic_id d \<longrightarrow> pj_topic_sequence k \<le> pj_topic_sequence c) \<and>
     j = grow_job (pj_payload_text c @ follow_up @ part_text)
       (min (current + milliseconds quiet_ms) (pj_created_at c + milliseconds max_ms)) current c \<and>
     length (pj_payload_text j) \<le> 20000 \<and> db_jobs db' = map (\<lambda>k. if k = c then j else k) (db_jobs db)"
  using assms(1)
proof (cases rule: append_cases)
  case (grown c j' profile)
  note c = burst_tail_Some [OF grown(3)]
  let ?f = "grow_job (pj_payload_text c @ follow_up @ part_text)
       (min (current + milliseconds quiet_ms) (pj_created_at c + milliseconds max_ms)) current"
  obtain m where m: "attend_only (note_message (in_chat_id d) (in_message_id d) db) m"
    "db' = update_jobs (\<lambda>j. pj_job_id j = pj_job_id c \<and> pj_status j = Queued) ?f m"
    by (rule append_part_Inr [OF grown(5)])
  have one: "k = c" if "k \<in> set (db_jobs db)" "pj_job_id k = pj_job_id c" for k
    using distinct_key_eq [of pj_job_id "db_jobs db" k c] assms(2) that c(1) by (simp add: jobs_ok_def)
  have "db_jobs db' = update_where (\<lambda>j. pj_job_id j = pj_job_id c \<and> pj_status j = Queued) ?f (db_jobs db)"
    using attend_only_sel(1) [OF m(1)] by (simp add: m(2) update_jobs_def note_message_sel)
  also have "\<dots> = map (\<lambda>k. if k = c then ?f c else k) (db_jobs db)"
    unfolding update_where_def using one c(2) by (intro map_cong) auto
  finally have jobs: "db_jobs db' = map (\<lambda>k. if k = c then ?f c else k) (db_jobs db)" .
  have "j' \<in> set (db_jobs db')" "pj_job_id j' = pj_job_id c"
    using grown(6) by (auto simp: get_job_def job_of_def dest: find_Some_set split: option.splits)
  then have "j' = ?f c" using one by (auto simp: jobs grow_job_def)
  then show ?thesis using jobs c grown(1,4) by (intro bexI [OF _ c(1)]) (simp add: grow_job_def)
qed simp_all



section \<open>Examples\<close>

definition open_session :: session_row where
  "open_session = local_session\<lparr>ss_writer_mode := Telegram_writer\<rparr>"

definition open_hub :: "provider_job list \<Rightarrow> db" where
  "open_hub js = (example_hub js)\<lparr>db_sessions := [open_session], db_counters := [\<lparr>qn_topic_id = 1,
     qn_next_sequence = int (length js) + 1, qn_updated_at = 0\<rparr>]\<rparr>"

definition example_input :: input_draft where
  "example_input = \<lparr>in_idempotency_key = ''k'', in_chat_id = 7, in_message_id = 5, in_topic_id = 1,
     in_agent_id = ''codex'', in_session_id = ''s'', in_session_generation = 1, in_model = ''m'', in_effort = ''e'',
     in_payload_text = ''go'', in_provider_session_id = None, in_context_watermark = None, in_handoff_id = None,
     in_materials = [], in_input_group_key = None, in_prepare_task_notices = False, in_queue_capacity = None,
     in_ingress_identity = None\<rparr>"

definition example_env :: admission_env where
  "example_env = \<lparr>ae_job_id = ''new'', ae_material_id = (\<lambda>_. ''m''), ae_accepted_notice_id = ''n1'',
     ae_queued_notice_id = ''n2'', ae_clean = None, ae_profile = Inr None\<rparr>"

lemma open_hub_sel:
  "db_jobs (open_hub js) = js" "db_sessions (open_hub js) = [open_session]" "db_topics (open_hub js) = [example_topic]"
  "db_controls (open_hub js) = []" "db_holds (open_hub js) = []" "db_origins (open_hub js) = []" "db_inputs (open_hub js) = []"
  "db_ingress (open_hub js) = []" "db_observed (open_hub js) = []"
  "db_counters (open_hub js) = [\<lparr>qn_topic_id = 1, qn_next_sequence = int (length js) + 1, qn_updated_at = 0\<rparr>]"
  "db_materials (open_hub js) = []" "db_resolutions (open_hub js) = []" "db_evidence (open_hub js) = []"
  by (simp_all add: open_hub_def example_hub_def empty_db_def)

lemma open_hub_topic: "topic_of (open_hub js) 1 = Some example_topic"
  by (simp add: topic_of_def open_hub_sel example_topic_def)

lemma open_session_sel:
  "ss_session_id open_session = ''s''" "ss_topic_id open_session = 1" "ss_agent_id open_session = ''codex''"
  "ss_generation open_session = 1" "ss_status open_session = Active" "ss_model open_session = ''m''"
  "ss_effort open_session = ''e''" "ss_writer_mode open_session = Telegram_writer"
  "ss_provider_session_id open_session = None" "ss_codex_permission_profile open_session = None"
  by (simp_all add: open_session_def local_session_def)

lemma open_hub_free:
  assumes "\<forall>j \<in> set js. pj_status j \<noteq> Indeterminate"
  shows "persistent_root_blocker (open_hub js) 1 = None"
proof -
  have u: "uncertain_turn (open_hub js) s = None" for s
    unfolding uncertain_turn_def first_by_None using assms by (auto simp: open_hub_sel exists_row_iff uncertain_def)
  have w: "outside_writer (open_hub js) s = None" for s by (simp add: outside_writer_def open_hub_sel open_session_sel)
  show ?thesis using open_hub_topic [of js]
    by (simp add: persistent_root_blocker_def control_owner_for_topic_def u w open_hub_sel exists_row_def)
qed

lemma valid_example: "1 \<le> n \<Longrightarrow> n \<le> 20 \<Longrightarrow> valid_input example_input n = Inr (example_input, None)"
  by (simp add: valid_input_def example_input_def bounded_def optional_bounded_def py_strip_def py_space_def check_def
    validate_ingress_identity_def)

lemma example_binding:
  "require_binding (Inr None) (plain_options t) example_input moved (open_hub []) = Inr (open_session, open_hub [])"
  using open_hub_topic [of "[]"] open_hub_free [of "[]"]
  by (simp add: require_binding_def Let_def plain_options_def get_topic_def topic_record_of_def example_topic_def example_input_def
    snapshot_session_def session_of_def open_hub_sel open_session_sel retained_def require_codex_selection_def check_def
    require_admission_def origin_of_def)

definition example_admitted :: provider_job where
  "example_admitted = new_job ''new'' 1 (plain_options None) example_input open_session 9"

lemma example_input_sel:
  "in_topic_id example_input = 1" "in_chat_id example_input = 7" "in_message_id example_input = 5"
  "in_idempotency_key example_input = ''k''" "in_materials example_input = []" "in_payload_text example_input = ''go''"
  "in_prepare_task_notices example_input = False" "in_agent_id example_input = ''codex''" "in_session_id example_input = ''s''"
  "in_input_group_key example_input = None" "in_ingress_identity example_input = None" "in_session_generation example_input = 1"
  by (simp_all add: example_input_def)

lemma example_env_sel: "ae_job_id example_env = ''new''" "ae_profile example_env = Inr None" "ae_clean example_env = None"
  by (simp_all add: example_env_def)

lemma note_message_fields: "db_inputs (note_message c m db) = db_inputs db" "db_sessions (note_message c m db) = db_sessions db"
  by (simp_all add: note_message_def)

text \<open>The first input of an empty queue whose session is bound.\<close>

lemma first_admission:
  assumes "db_jobs db = []" "db_topics db = [example_topic]" "db_inputs db = []" "next_in_topic db 1 = 1"
    and "ss_provider_session_id s = None" "require_binding (Inr None) (plain_options None) example_input moved db = Inr (s, db)"
  shows "\<exists>db'. enqueue_provider_job example_env (plain_options None) example_input moved 9 db =
    (Inr (new_job ''new'' 1 (plain_options None) example_input s 9, True), db')"
proof -
  let ?j = "new_job ''new'' 1 (plain_options None) example_input s 9"
  let ?m = "advance_counter 1 9 (note_message 7 5 db)"
  have m: "db_jobs ?m = []" "db_topics ?m = [example_topic]" "db_inputs ?m = []"
    by (simp_all add: note_message_sel note_message_fields advance_counter_def assms(1-3))
  have c: "\<not> job_clashes ?j ?m"
    by (simp add: job_clashes_def note_message_sel exists_row_def new_job_def assms(1,5))
  have t: "topic_of (?m\<lparr>db_jobs := js, db_inputs := ps\<rparr>) 1 = Some example_topic" for js ps
    by (simp add: topic_of_def note_message_sel example_topic_def assms(2))
  obtain db' where a: "attend_job example_env (plain_options None) example_input None 9 (?m\<lparr>db_jobs := [?j]\<rparr>) = Inr db'"
    by (simp add: attend_job_def record_new_job_def put_input_def attach_forwarded_def insert_materials_def Let_def
      example_input_sel example_env_sel plain_options_def exists_row_def m t)
  have i: "insert_job example_env (plain_options None) example_input None s 9 db = Inr ((?j, True), db')"
    using c a by (simp add: insert_job_def Let_def example_input_sel example_env_sel note_message_sel assms(1,4))
  have v: "valid_input example_input (ao_max_attempts (plain_options None)) = Inr (example_input, None)"
    by (simp add: valid_example plain_options_def)
  show ?thesis
    by (simp add: enqueue_provider_job_def transact_def admit_tx_def v example_env_sel assms(1,6) i)
qed

lemma example_admission:
  "fst (enqueue_provider_job example_env (plain_options None) example_input 8 9 (open_hub [])) = Inr (example_admitted, True)"
proof -
  have n: "next_in_topic (open_hub []) 1 = 1" by (simp add: next_in_topic_def open_hub_sel)
  from first_admission [OF open_hub_sel(1) [of "[]"] open_hub_sel(3,7) n open_session_sel(9) example_binding [where moved = 8]]
  show ?thesis by (auto simp: example_admitted_def)
qed

lemma open_hub_counted: "counted (open_hub [])"
  by (simp add: counted_def open_hub_sel)


theorem redelivery_finds_the_job_witness:
  "\<exists>db'. enqueue_provider_job example_env (plain_options None) example_input 18 19 db' = (Inr (example_admitted, False), db')"
proof -
  let ?run = "enqueue_provider_job example_env (plain_options None) example_input 8 9 (open_hub [])"
  obtain db' where r: "?run = (Inr (example_admitted, True), db')" using example_admission by (cases ?run) simp
  show ?thesis using redelivery_finds_the_job [OF r, of "plain_options None"] by (auto simp: plain_options_def)
qed

definition waiting_tail :: provider_job where
  "waiting_tail = (example_job ''a'' 1 Queued)\<lparr>pj_next_attempt_at := Some 100\<rparr>"

lemma waiting_tail_sel:
  "pj_job_id waiting_tail = ''a''" "pj_topic_id waiting_tail = 1" "pj_status waiting_tail = Queued" "pj_payload_text waiting_tail = ''x''"
  "pj_topic_sequence waiting_tail = 1" "pj_created_at waiting_tail = 1" "pj_next_attempt_at waiting_tail = Some 100"
  by (simp_all add: waiting_tail_def example_job_def)

lemma waiting_tail_found: "burst_tail example_input None None None 50 (50 - milliseconds 1000) (open_hub [waiting_tail]) = Some waiting_tail"
  by (simp add: burst_tail_def open_hub_sel last_sequence_def max_of_def waiting_tail_def example_job_def example_input_def
    after_def identity_of_def milliseconds_def)

definition grown_tail :: provider_job where
  "grown_tail = grow_job (''x'' @ follow_up @ ''and'') 1050 50 waiting_tail"

lemma example_burst:
  "fst (enqueue_or_append_provider_job example_env example_input ''and'' 1 1000 50 51 52 (open_hub [waiting_tail])) =
     Inr (grown_tail, True)"
proof -
  let ?db = "open_hub [waiting_tail]"
  have free: "persistent_root_blocker ?db 1 = None" by (rule open_hub_free) (simp add: waiting_tail_sel)
  have t: "topic_of (note_message 7 5 ?db\<lparr>db_inputs := ps\<rparr>) 1 = Some example_topic" for ps
    using open_hub_topic [of "[waiting_tail]"] by (simp add: topic_of_def note_message_def)
  obtain db' where a: "append_part example_env example_input ''and'' 1 1000 50 waiting_tail ?db = Inr db'"
      "find (\<lambda>j. pj_job_id j = ''a'') (db_jobs db') = Some grown_tail"
    by (simp add: append_part_def put_input_def attach_forwarded_def insert_materials_def Let_def example_input_sel check_def
      note_message_fields open_hub_sel exists_row_def t waiting_tail_sel update_jobs_def update_where_def note_message_sel
      grown_tail_def grow_job_def milliseconds_def)
  have g: "grow_tail example_env example_input None ''and'' None 1 1000 50 None ?db = Inr (Some (grown_tail, True), db')"
    using a by (simp add: grow_tail_def waiting_tail_found waiting_tail_sel follow_up_def get_job_def job_of_def)
  have s: "session_of ?db ''s'' = Some open_session" by (simp add: session_of_def open_hub_sel open_session_sel)
  have "append_tx example_env example_input None ''and'' None 1 1000 50 ?db = Inr (Some (grown_tail, True), db')"
    using free g open_hub_topic [of "[waiting_tail]"] s
    by (simp add: append_tx_def open_hub_sel require_admission_def origin_of_def get_session_def session_record_of_def same_binding_def
      require_selected_def check_def example_input_sel example_env_sel open_session_sel get_topic_def topic_record_of_def
      example_topic_def example_input_def)
  then show ?thesis
    by (simp add: enqueue_or_append_provider_job_def validate_ingress_identity_def example_input_sel bounded_def optional_bounded_def
      py_strip_def py_space_def transact_def)
qed


end
