(* ===== verification/Material_Properties.thy ===== *)
theory Material_Properties
  imports Admission_Properties
begin

text \<open>
  The materials of a job stay within the limits of ten parts and 80 MiB when they arrive with an
  admission or were forwarded before it, and they stay bound to the job's topic, root and session,
  so that reading them succeeds. A part appended to a burst may exceed the limits, because the
  forwarded materials it takes over are not counted.
\<close>

section \<open>The limits of one arrival\<close>

definition kept_stored :: "material_draft \<Rightarrow> bool" where
  "kept_stored d \<longleftrightarrow> md_status d = ''stored''"

definition draft_bytes :: "material_draft list \<Rightarrow> int" where
  "draft_bytes ds = sum_list (map (\<lambda>d. size_or_0 (md_byte_size d)) ds)"

lemma refuse_draft_sel [simp]:
  "md_status (refuse_draft c t d) = ''unavailable''" "md_byte_size (refuse_draft c t d) = None"
  by (simp_all add: refuse_draft_def)

lemma bounded_count: "int (count_where kept_stored (bound_material_drafts ds n used)) \<le> max 0 (MAX_INCOMING_MATERIALS_PER_JOB - n)"
proof (induction ds n used rule: bound_material_drafts.induct)
  case (2 d ds n used)
  then show ?case by (auto simp: kept_stored_def count_where_def Let_def)
qed (simp add: count_where_def)

text \<open>A draft that is not stored carries no bytes; otherwise its row would be refused.\<close>

lemma bounded_bytes:
  assumes "\<forall>d \<in> set (bound_material_drafts ds n used). \<not> kept_stored d \<longrightarrow> md_byte_size d = None"
  shows "used + draft_bytes (bound_material_drafts ds n used) \<le> max used MAX_INCOMING_JOB_BYTES"
  using assms
proof (induction ds n used rule: bound_material_drafts.induct)
  case (2 d ds n used)
  let ?grown = "used + size_or_0 (md_byte_size d)"
  show ?case
  proof (cases "MAX_INCOMING_MATERIALS_PER_JOB \<le> n")
    case True
    then show ?thesis using 2 by (simp add: draft_bytes_def size_or_0_def)
  next
    case small: False
    show ?thesis
    proof (cases "md_status d = ''stored'' \<and> MAX_INCOMING_JOB_BYTES < ?grown")
      case True
      then have l: "bound_material_drafts (d # ds) n used =
          refuse_draft ''material_aggregate_limit'' ''album or burst exceeds the 80 MB aggregate limit'' d
          # bound_material_drafts ds (n + 1) used"
        using small by (simp add: Let_def)
      have "\<forall>x \<in> set (bound_material_drafts ds (n + 1) used). \<not> kept_stored x \<longrightarrow> md_byte_size x = None"
        using 2(4) unfolding l by simp
      from 2(2) [OF small refl True this] show ?thesis unfolding l by (simp add: draft_bytes_def size_or_0_def)
    next
      case False
      then have l: "bound_material_drafts (d # ds) n used = d # bound_material_drafts ds (n + 1) ?grown"
        using small by (auto simp: Let_def)
      have r: "\<forall>x \<in> set (bound_material_drafts ds (n + 1) ?grown). \<not> kept_stored x \<longrightarrow> md_byte_size x = None"
        and d: "\<not> kept_stored d \<longrightarrow> md_byte_size d = None"
        using 2(4) unfolding l by simp_all
      have "?grown + draft_bytes (bound_material_drafts ds (n + 1) ?grown) \<le> max ?grown MAX_INCOMING_JOB_BYTES"
        by (rule 2(3) [OF small refl False r])
      moreover have "?grown \<le> max used MAX_INCOMING_JOB_BYTES"
        using False d by (cases "kept_stored d") (auto simp: kept_stored_def size_or_0_def)
      ultimately show ?thesis unfolding l by (simp add: draft_bytes_def)
    qed
  qed
qed (simp add: draft_bytes_def)

section \<open>What an arrival stores\<close>

definition stored_material :: "incoming_material \<Rightarrow> bool" where
  "stored_material m \<longleftrightarrow> im_status m \<noteq> Unavailable"

lemma optional_same: "optional_bounded v n m = Inr w \<Longrightarrow> (w = None \<longleftrightarrow> v = None)"
  by (auto simp: optional_bounded_def split: option.splits sum.splits)

lemma valid_draft_Inr:
  assumes "valid_draft d = Inr (v, st)"
  shows "md_byte_size v = md_byte_size d" "st = (if kept_stored d then Stored else Unavailable)"
    "md_status d \<in> {''stored'', ''unavailable''}" "md_attachment_index v = md_attachment_index d"
  using assms unfolding valid_draft_def
  by (auto simp: attempt_Inr Let_def draft_status_def kept_stored_def split: if_splits)

text \<open>The rows of a sequence of drafts, in order.\<close>

inductive stores :: "material_owner \<Rightarrow> topic_row \<Rightarrow> string \<Rightarrow> time \<Rightarrow> (string \<times> material_draft) list \<Rightarrow> incoming_material list \<Rightarrow> bool"
  for w t origin now where
  none: "stores w t origin now [] []"
| some: "valid_draft d = Inr (v, st) \<Longrightarrow> material_row_ok (new_material w t origin v st i now) \<Longrightarrow>
    stores w t origin now xs ms \<Longrightarrow> stores w t origin now ((i, d) # xs) (new_material w t origin v st i now # ms)"

lemma each_draft_stores:
  assumes "each_row (insert_draft w t origin now) xs db = Inr db'"
  shows "\<exists>ms. stores w t origin now xs ms \<and> db' = db\<lparr>db_materials := db_materials db @ ms\<rparr>"
  using assms
proof (induction xs arbitrary: db)
  case Nil
  then show ?case by (auto intro: stores.none)
next
  case (Cons x xs)
  obtain i d where x: "x = (i, d)" by (cases x)
  obtain db1 where a: "insert_draft w t origin now (i, d) db = Inr db1" and r: "each_row (insert_draft w t origin now) xs db1 = Inr db'"
    using Cons.prems by (auto simp: x attempt_Inr)
  obtain v st where s: "valid_draft d = Inr (v, st)" "put_material (new_material w t origin v st i now) db = Inr db1"
    using a by (auto simp: insert_draft_def attempt_Inr)
  let ?m = "new_material w t origin v st i now"
  have p: "material_row_ok ?m" "db1 = db\<lparr>db_materials := db_materials db @ [?m]\<rparr>"
    using s(2) by (auto simp: put_material_def split: if_splits)
  obtain ms where m: "stores w t origin now xs ms" "db' = db1\<lparr>db_materials := db_materials db1 @ ms\<rparr>"
    using Cons.IH [OF r] by blast
  then show ?case
    using stores.some [OF s(1) p(1) m(1)] p(2) by (auto simp: x intro!: exI [of _ "?m # ms"])
qed

lemma insert_materials_stores:
  assumes "insert_materials cl fresh w ds now origin db = Inr db'"
  shows "\<exists>t o' ms. (ds \<noteq> [] \<longrightarrow> topic_of db (mo_topic_id w) = Some t) \<and>
    stores w t o' now (zip (map fresh [0..<length (bound_material_drafts ds (int (length (beside w db))) (total_bytes (beside w db)))])
      (bound_material_drafts ds (int (length (beside w db))) (total_bytes (beside w db)))) ms \<and>
    db' = db\<lparr>db_materials := db_materials db @ ms\<rparr>"
proof (cases "ds = []")
  case True
  then have "db' = db" using assms by (simp add: insert_materials_def)
  then show ?thesis using True by (auto intro!: exI [of _ "[]"] stores.none)
next
  case False
  then obtain t where t: "topic_of db (mo_topic_id w) = Some t"
    using assms by (auto simp: insert_materials_def split: option.splits)
  show ?thesis using assms False t unfolding insert_materials_def Let_def
    by (auto simp: attempt_Inr dest!: each_draft_stores)
qed


lemma insert_materials_none: "insert_materials cl fresh w [] now origin db = Inr db"
  by (simp add: insert_materials_def)

text \<open>Whom a stored row belongs to.\<close>

definition owned_by :: "material_owner \<Rightarrow> topic_row \<Rightarrow> incoming_material \<Rightarrow> bool" where
  "owned_by w t m \<longleftrightarrow> im_job_id m = mo_job_id w \<and> im_topic_id m = mo_topic_id w \<and> im_project_id m = tp_project_id t \<and>
     im_execution_scope m = material_scope t \<and> im_agent_id m = mo_agent_id w \<and> im_session_id m = mo_session_id w \<and>
     im_session_generation m = mo_session_generation w \<and> im_chat_id m = mo_chat_id w"

lemma stores_rows:
  assumes "stores w t origin now xs ms"
  shows "(\<forall>m \<in> set ms. owned_by w t m \<and> 0 \<le> size_or_0 (im_byte_size m)) \<and> count_where stored_material ms = count_where kept_stored (map snd xs) \<and>
    total_bytes ms = draft_bytes (map snd xs) \<and> (\<forall>x \<in> set (map snd xs). \<not> kept_stored x \<longrightarrow> md_byte_size x = None)"
  using assms
proof induction
  case (some d v st i xs ms)
  note v = valid_draft_Inr [OF some(1)]
  have "md_byte_size v = None" if "st = Unavailable"
    using some(2) that by (simp add: material_row_ok_def new_material_def)
  then have "\<not> kept_stored d \<longrightarrow> md_byte_size d = None" using v(1,2) by simp
  moreover have "0 \<le> size_or_0 (md_byte_size v)"
    using some(2) by (auto simp: material_row_ok_def new_material_def size_or_0_def split: option.splits)
  ultimately show ?case using some.IH v(1,2)
    by (simp add: owned_by_def new_material_def count_where_def stored_material_def total_bytes_def draft_bytes_def)
qed (simp_all add: count_where_def total_bytes_def draft_bytes_def)

definition within_limits :: "incoming_material list \<Rightarrow> bool" where
  "within_limits ms \<longleftrightarrow> int (count_where stored_material ms) \<le> MAX_INCOMING_MATERIALS_PER_JOB \<and>
     total_bytes ms \<le> MAX_INCOMING_JOB_BYTES"

lemma insert_materials_limits:
  assumes "insert_materials cl fresh w ds now origin db = Inr db'"
  obtains t ms where "db' = db\<lparr>db_materials := db_materials db @ ms\<rparr>" "ms = [] \<or> topic_of db (mo_topic_id w) = Some t"
    "\<forall>m \<in> set ms. owned_by w t m" "within_limits (beside w db) \<Longrightarrow> within_limits (beside w db @ ms)"
    "\<forall>m \<in> set ms. 0 \<le> size_or_0 (im_byte_size m)"
proof -
  let ?b = "beside w db"
  let ?kept = "bound_material_drafts ds (int (length ?b)) (total_bytes ?b)"
  obtain t o' ms where s: "ds \<noteq> [] \<longrightarrow> topic_of db (mo_topic_id w) = Some t"
    "stores w t o' now (zip (map fresh [0..<length ?kept]) ?kept) ms" "db' = db\<lparr>db_materials := db_materials db @ ms\<rparr>"
    using insert_materials_stores [OF assms] by blast
  note r = stores_rows [OF s(2)]
  have kept: "map snd (zip (map fresh [0..<length ?kept]) ?kept) = ?kept" by simp
  have limit: "within_limits (?b @ ms)" if w: "within_limits ?b"
  proof -
    have "int (count_where stored_material ms) \<le> max 0 (MAX_INCOMING_MATERIALS_PER_JOB - int (length ?b))"
      using r bounded_count unfolding kept by simp
    moreover have "count_where stored_material ?b \<le> length ?b" by (simp add: count_where_def)
    moreover have "count_where stored_material (?b @ ms) = count_where stored_material ?b + count_where stored_material ms"
      by (simp add: count_where_def)
    moreover have "total_bytes ?b + draft_bytes ?kept \<le> max (total_bytes ?b) MAX_INCOMING_JOB_BYTES"
      by (rule bounded_bytes) (use r [unfolded kept] in blast)
    moreover have "total_bytes (?b @ ms) = total_bytes ?b + draft_bytes ?kept"
      using r unfolding kept by (simp add: total_bytes_def)
    ultimately show ?thesis using w unfolding within_limits_def by linarith
  qed
  have "ms = [] \<or> topic_of db (mo_topic_id w) = Some t"
  proof (cases "ds = []")
    case True
    then have "stores w t o' now [] ms" using s(2) by simp
    then show ?thesis by (cases rule: stores.cases) simp
  qed (use s(1) in simp)
  then show ?thesis using that s(3) r limit by blast
qed


section \<open>Materials stay with their root and session\<close>

definition well_bound :: "db \<Rightarrow> incoming_material \<Rightarrow> bool" where
  "well_bound db m \<longleftrightarrow> (case im_job_id m of
     None \<Rightarrow> (\<exists>t. topic_of db (im_topic_id m) = Some t \<and> im_chat_id m = tp_chat_id t)
   | Some i \<Rightarrow> (\<exists>j t. job_of db i = Some j \<and> topic_of db (pj_topic_id j) = Some t \<and> bound_to j t m))"

definition materials_bound :: "db \<Rightarrow> bool" where
  "materials_bound db \<longleftrightarrow> (\<forall>m \<in> set (db_materials db). well_bound db m)"

text \<open>A step that keeps the topics and the binding of every job.\<close>

definition same_job_binding :: "provider_job \<Rightarrow> provider_job \<Rightarrow> bool" where
  "same_job_binding j k \<longleftrightarrow> pj_topic_id k = pj_topic_id j \<and> pj_chat_id k = pj_chat_id j \<and> pj_agent_id k = pj_agent_id j \<and>
     pj_session_id k = pj_session_id j \<and> pj_session_generation k = pj_session_generation j"

definition binding_kept :: "db \<Rightarrow> db \<Rightarrow> bool" where
  "binding_kept db db' \<longleftrightarrow> db_topics db' = db_topics db \<and>
     (\<forall>i j. job_of db i = Some j \<longrightarrow> (\<exists>k. job_of db' i = Some k \<and> same_job_binding j k))"

lemma binding_kept_jobs: "db_topics db' = db_topics db \<Longrightarrow> db_jobs db' = db_jobs db \<Longrightarrow> binding_kept db db'"
  by (simp add: binding_kept_def job_of_def same_job_binding_def)

lemma binding_kept_trans: "binding_kept a b \<Longrightarrow> binding_kept b c \<Longrightarrow> binding_kept a c"
proof -
  assume a: "binding_kept a b" and b: "binding_kept b c"
  have "\<exists>l. job_of c i = Some l \<and> same_job_binding j l" if "job_of a i = Some j" for i j
  proof -
    obtain k where k: "job_of b i = Some k" "same_job_binding j k" using a \<open>job_of a i = Some j\<close> unfolding binding_kept_def by blast
    obtain l where "job_of c i = Some l" "same_job_binding k l" using b k(1) unfolding binding_kept_def by blast
    then show ?thesis using k(2) by (auto simp: same_job_binding_def)
  qed
  then show ?thesis using a b by (simp add: binding_kept_def)
qed

lemma attend_binding: "attend_only db db' \<Longrightarrow> binding_kept db db'"
  by (simp add: binding_kept_jobs attend_only_sel)

lemma well_bound_kept:
  assumes "well_bound db m" "binding_kept db db'"
  shows "well_bound db' m"
proof -
  have t: "topic_of db' = topic_of db" using assms(2) by (simp add: binding_kept_def topic_of_def fun_eq_iff)
  show ?thesis
  proof (cases "im_job_id m")
    case None
    then show ?thesis using assms(1) by (simp add: well_bound_def t)
  next
    case (Some i)
    then obtain j r where j: "job_of db i = Some j" "topic_of db (pj_topic_id j) = Some r" "bound_to j r m"
      using assms(1) by (auto simp: well_bound_def)
    obtain k where "job_of db' i = Some k" "same_job_binding j k" using assms(2) j(1) unfolding binding_kept_def by blast
    then show ?thesis using Some j unfolding well_bound_def t by (simp add: same_job_binding_def bound_to_def)
  qed
qed

lemma bound_kept: "materials_bound db \<Longrightarrow> binding_kept db db' \<Longrightarrow> db_materials db' = db_materials db \<Longrightarrow> materials_bound db'"
  unfolding materials_bound_def by (metis well_bound_kept)

lemma attach_bound:
  assumes "attach_forwarded i t agent session g db = Inr db'" "materials_bound db"
    "job_of db i = Some j" "pj_topic_id j = t" "pj_agent_id j = agent" "pj_session_id j = session" "pj_session_generation j = g"
    "map_option tp_chat_id (topic_of db t) = Some (pj_chat_id j)"
  shows "materials_bound db'"
  unfolding materials_bound_def
proof
  fix m assume m: "m \<in> set (db_materials db')"
  obtain r where r: "topic_of db t = Some r" "db_materials db' = update_where
          (\<lambda>m. im_job_id m = None \<and> im_topic_id m = t \<and> im_project_id m = tp_project_id r \<and>
             im_execution_scope m = material_scope r \<and> im_agent_id m = Some agent \<and>
             im_session_id m = Some session \<and> im_session_generation m = Some g)
          (\<lambda>m. m\<lparr>im_job_id := Some i\<rparr>) (db_materials db)"
    using assms(1) by (auto simp: attach_forwarded_def split: option.splits)
  have k: "binding_kept db db'" by (rule attend_binding [OF attach_Inr [OF assms(1)]])
  obtain x where x: "x \<in> set (db_materials db)" "m = x \<or> m = x\<lparr>im_job_id := Some i\<rparr> \<and> im_job_id x = None \<and> im_topic_id x = t \<and>
      im_project_id x = tp_project_id r \<and> im_execution_scope x = material_scope r \<and> im_agent_id x = Some agent \<and>
      im_session_id x = Some session \<and> im_session_generation x = Some g"
    using m unfolding r(2) by (auto simp: set_update_where split: if_splits)
  have w: "well_bound db x" using assms(2) x(1) by (simp add: materials_bound_def)
  from x(2) have "well_bound db m"
  proof
    assume h: "m = x\<lparr>im_job_id := Some i\<rparr> \<and> im_job_id x = None \<and> im_topic_id x = t \<and>
      im_project_id x = tp_project_id r \<and> im_execution_scope x = material_scope r \<and> im_agent_id x = Some agent \<and>
      im_session_id x = Some session \<and> im_session_generation x = Some g"
    then have "im_chat_id x = tp_chat_id r" using w r(1) by (auto simp: well_bound_def)
    then show ?thesis using h assms(3-8) r(1) by (simp add: well_bound_def bound_to_def)
  qed (use w in simp)
  then show "well_bound db' m" by (rule well_bound_kept [OF _ k])
qed

lemma insert_materials_bound:
  assumes "insert_materials cl fresh w ds now origin db = Inr db'" "materials_bound db"
    "\<And>m t. topic_of db (mo_topic_id w) = Some t \<Longrightarrow> owned_by w t m \<Longrightarrow> well_bound db m"
  shows "materials_bound db'"
proof (rule insert_materials_limits [OF assms(1)])
  fix t ms assume d: "db' = db\<lparr>db_materials := db_materials db @ ms\<rparr>" "ms = [] \<or> topic_of db (mo_topic_id w) = Some t"
    "\<forall>m \<in> set ms. owned_by w t m"
  have "well_bound db m" if "m \<in> set (db_materials db')" for m
    using that d assms(2,3) by (auto simp: materials_bound_def)
  moreover have "binding_kept db db'" by (rule binding_kept_jobs) (simp_all add: d)
  ultimately show ?thesis using well_bound_kept unfolding materials_bound_def by blast
qed


lemma put_input_materials: "put_input p db = Inr db' \<Longrightarrow> db_materials db' = db_materials db"
  by (auto simp: put_input_def split: if_splits)

lemma record_new_job_materials: "record_new_job i x db = Inr db' \<Longrightarrow> db_materials db' = db_materials db"
  by (auto simp: record_new_job_def split: option.splits if_splits)

lemma notices_materials: "notices_only db db' \<Longrightarrow> db_materials db' = db_materials db"
  by (erule notices_onlyE) simp

text \<open>A job that takes materials over: the columns the input names are its own.\<close>

definition takes_input :: "db \<Rightarrow> provider_job \<Rightarrow> input_draft \<Rightarrow> bool" where
  "takes_input db j d \<longleftrightarrow> job_of db (pj_job_id j) = Some j \<and> pj_topic_id j = in_topic_id d \<and> pj_agent_id j = in_agent_id d \<and>
     pj_session_id j = in_session_id d \<and> pj_session_generation j = in_session_generation d \<and> pj_chat_id j = in_chat_id d \<and>
     map_option tp_chat_id (topic_of db (in_topic_id d)) = Some (in_chat_id d)"

lemma takes_input_attend:
  assumes "takes_input db j d" "attend_only db db'"
  shows "takes_input db' j d"
  using assms(1) attend_only_sel(1,2) [OF assms(2)] by (simp add: takes_input_def job_of_def topic_of_def)

lemma take_materials_bound:
  assumes "db3 = db2 \<or> attach_forwarded (pj_job_id j) (in_topic_id d) (in_agent_id d) (in_session_id d) (in_session_generation d) db2 = Inr db3"
    "insert_materials cl fresh (job_owner (pj_job_id j) d) ds now None db3 = Inr db4" "materials_bound db2" "takes_input db2 j d"
  shows "materials_bound db4"
proof (rule insert_materials_bound [OF assms(2)])
  show "materials_bound db3"
    using assms(1)
  proof
    assume a: "attach_forwarded (pj_job_id j) (in_topic_id d) (in_agent_id d) (in_session_id d) (in_session_generation d) db2 = Inr db3"
    show ?thesis by (rule attach_bound [OF a assms(3), of j]) (use assms(4) in \<open>simp_all add: takes_input_def\<close>)
  qed (use assms(3) in simp)
  have "attend_only db2 db3" using assms(1) attach_Inr by auto
  then have k: "takes_input db3 j d" by (rule takes_input_attend [OF assms(4)])
  show "well_bound db3 m" if "topic_of db3 (mo_topic_id (job_owner (pj_job_id j) d)) = Some t" "owned_by (job_owner (pj_job_id j) d) t m" for m t
    using that k by (simp add: job_owner_def owned_by_def takes_input_def well_bound_def bound_to_def)
qed

lemma attend_job_bound:
  assumes "attend_job e opts d x now db = Inr db'" "materials_bound db" "takes_input db j d" "pj_job_id j = ae_job_id e"
  shows "materials_bound db'"
proof (rule attend_job_steps [OF assms(1)])
  fix db1 db2 db3 db4
  assume s: "record_new_job (ae_job_id e) x db = Inr db1" "put_input (first_part (ae_job_id e) opts d now) db1 = Inr db2"
    and a: "db3 = db2 \<or> attach_forwarded (ae_job_id e) (in_topic_id d) (in_agent_id d) (in_session_id d) (in_session_generation d) db2 = Inr db3"
    and i: "insert_materials (ae_clean e) (ae_material_id e) (job_owner (ae_job_id e) d) (in_materials d) now None db3 = Inr db4"
    and n: "notices_only db4 db'"
  have at: "attend_only db db2" using record_new_job_Inr [OF s(1)] put_input_Inr [OF s(2)] by (rule attend_only_trans)
  have "materials_bound db2"
    by (rule bound_kept [OF assms(2) attend_binding [OF at]]) (simp add: put_input_materials [OF s(2)] record_new_job_materials [OF s(1)])
  then have "materials_bound db4"
    by (rule take_materials_bound [OF a [folded assms(4)] i [folded assms(4)] _ takes_input_attend [OF assms(3) at]])
  then show ?thesis by (rule bound_kept [OF _ attend_binding [OF notices_attend [OF n]] notices_materials [OF n]])
qed

lemma job_of_append: "job_of (db\<lparr>db_jobs := js @ [j]\<rparr>) i = (case find (\<lambda>k. pj_job_id k = i) js of Some k \<Rightarrow> Some k
    | None \<Rightarrow> if pj_job_id j = i then Some j else None)"
  by (cases "find (\<lambda>k. pj_job_id k = i) js") (simp_all add: job_of_def find_append_None)

lemma added_bound:
  assumes "require_binding pr opts d moved db = Inr (s, db1)" "j = new_job (ae_job_id e) n opts d s now"
    "m = advance_counter (in_topic_id d) now (note_message (in_chat_id d) (in_message_id d) db1)" "\<not> job_clashes j m"
  shows "binding_kept db (m\<lparr>db_jobs := db_jobs db @ [j]\<rparr>)" "takes_input (m\<lparr>db_jobs := db_jobs db @ [j]\<rparr>) j d"
    "db_materials m = db_materials db"
proof -
  note b = require_binding_Inr [OF assms(1)]
  have db1: "db_jobs db1 = db_jobs db" "db_topics db1 = db_topics db" "db_materials db1 = db_materials db"
    using b(11,12) by (auto simp: put_writer_def)
  then have m: "db_jobs m = db_jobs db" "db_topics m = db_topics db"
    by (simp_all add: assms(3) note_message_sel)
  show "db_materials m = db_materials db" using db1(3) by (simp add: assms(3) advance_counter_def note_message_def)
  have fresh: "find (\<lambda>k. pj_job_id k = pj_job_id j) (db_jobs db) = None"
    using assms(4) by (auto simp: job_clashes_def m find_None_exists exists_row_iff)
  show "binding_kept db (m\<lparr>db_jobs := db_jobs db @ [j]\<rparr>)"
    unfolding binding_kept_def job_of_append by (simp add: m job_of_def same_job_binding_def)
  have "topic_of (m\<lparr>db_jobs := db_jobs db @ [j]\<rparr>) = topic_of db" by (simp add: topic_of_def m fun_eq_iff)
  then show "takes_input (m\<lparr>db_jobs := db_jobs db @ [j]\<rparr>) j d"
    unfolding takes_input_def job_of_append using fresh b(8) by (simp add: assms(2) new_job_def)
qed

lemma enqueue_bound:
  assumes "enqueue_provider_job e opts raw moved now db = (r, db')" "materials_bound db"
  shows "materials_bound db'"
  using assms(1)
proof (cases rule: enqueue_cases)
  case (added d x s db1 m j)
  note k = added_bound [OF added(4,5,6,7)]
  have "materials_bound (m\<lparr>db_jobs := db_jobs db @ [j]\<rparr>)" by (rule bound_kept [OF assms(2) k(1)]) (simp add: k(3))
  then show ?thesis by (rule attend_job_bound [OF added(9) _ k(2)]) (simp add: added(5) new_job_def)
qed (use assms(2) in simp_all)


lemma grown_binding:
  assumes "\<And>j. same_job_binding j (f j) \<and> pj_job_id (f j) = pj_job_id j"
  shows "binding_kept db (update_jobs p f db)"
proof -
  have "job_of (update_jobs p f db) i = map_option (\<lambda>j. if p j then f j else j) (job_of db i)" for i
    unfolding job_of_def update_jobs_def using find_update_where [of pj_job_id f i p "db_jobs db"] assms by simp
  moreover have "same_job_binding j j" for j by (simp add: same_job_binding_def)
  ultimately show ?thesis using assms by (auto simp: binding_kept_def update_jobs_def)
qed

definition chats_ok :: "db \<Rightarrow> bool" where
  "chats_ok db \<longleftrightarrow> distinct (map pj_job_id (db_jobs db)) \<and>
     (\<forall>j \<in> set (db_jobs db). map_option tp_chat_id (topic_of db (pj_topic_id j)) = Some (pj_chat_id j))"

definition arrivals_ok :: "db \<Rightarrow> bool" where
  "arrivals_ok db \<longleftrightarrow> chats_ok db \<and> materials_bound db"

lemma unique_job_of: "distinct (map pj_job_id (db_jobs db)) \<Longrightarrow> j \<in> set (db_jobs db) \<Longrightarrow> job_of db (pj_job_id j) = Some j"
  unfolding job_of_def by (rule find_key_unique) simp_all

lemma append_tx_ok:
  assumes "append_tx e d ingress part_text grp quiet_ms max_ms current db = Inr (res, db')" "arrivals_ok db"
  shows "arrivals_ok db'"
  using assms(1)
proof (cases rule: append_cases)
  case (grown c j profile)
  note c = burst_tail_Some [OF grown(3)]
  have ok: "chats_ok db" "materials_bound db" using assms(2) by (simp_all add: arrivals_ok_def)
  have "pj_chat_id c = in_chat_id d" using ok(1) c(1,3) grown(2) by (auto simp: chats_ok_def)
  then have t: "takes_input db c d"
    using c grown(2) unique_job_of ok(1) by (simp add: takes_input_def chats_ok_def)
  obtain db1 db2 db3 where s: "put_input \<lparr>ji_job_id = pj_job_id c, ji_chat_id = in_chat_id d, ji_message_id = in_message_id d,
      ji_part_index = int (count_where (\<lambda>p. ji_job_id p = pj_job_id c) (db_inputs db)) + 1, ji_input_text = part_text,
      ji_received_at = current\<rparr> (note_message (in_chat_id d) (in_message_id d) db) = Inr db1"
    "attach_forwarded (pj_job_id c) (in_topic_id d) (in_agent_id d) (in_session_id d) (in_session_generation d) db1 = Inr db2"
    "insert_materials (ae_clean e) (ae_material_id e) (job_owner (pj_job_id c) d) (in_materials d) current None db2 = Inr db3"
    "db' = update_jobs (\<lambda>j. pj_job_id j = pj_job_id c \<and> pj_status j = Queued)
       (grow_job (pj_payload_text c @ follow_up @ part_text)
         (min (current + milliseconds quiet_ms) (pj_created_at c + milliseconds max_ms)) current) db3"
    and a: "attend_only (note_message (in_chat_id d) (in_message_id d) db) db3"
    by (rule append_part_steps [OF grown(5)])
  let ?o = "note_message (in_chat_id d) (in_message_id d) db"
  have o': "db_jobs ?o = db_jobs db" "db_topics ?o = db_topics db" "db_materials ?o = db_materials db"
    by (simp_all add: note_message_def)
  have "materials_bound ?o" by (rule bound_kept [OF ok(2) binding_kept_jobs]) (simp_all add: o')
  then have "materials_bound db1"
    by (rule bound_kept [OF _ attend_binding [OF put_input_Inr [OF s(1)]] put_input_materials [OF s(1)]])
  moreover have "takes_input db1 c d"
    by (rule takes_input_attend [OF _ put_input_Inr [OF s(1)]]) (use t in \<open>simp add: takes_input_def job_of_def topic_of_def o'\<close>)
  ultimately have "materials_bound db3" by (rule take_materials_bound [OF disjI2 [OF s(2)] s(3)])
  moreover have "binding_kept db3 db'"
    unfolding s(4) by (rule grown_binding) (simp add: same_job_binding_def grow_job_def)
  moreover have "db_materials db' = db_materials db3" by (simp add: s(4) update_jobs_def)
  ultimately have "materials_bound db'" by (rule bound_kept)
  moreover have "chats_ok db'"
  proof -
    have "topic_of db' = topic_of db" by (simp add: topic_of_def fun_eq_iff s(4) update_jobs_def attend_only_sel(2) [OF a] o')
    moreover have "map pj_job_id (db_jobs db') = map pj_job_id (db_jobs db)"
      by (simp add: s(4) update_jobs_def attend_only_sel(1) [OF a] o' map_update_where grow_job_def)
    ultimately show ?thesis using ok(1)
      by (auto simp: chats_ok_def s(4) update_jobs_def attend_only_sel(1) [OF a] o' set_update_where grow_job_def split: if_splits)
  qed
  ultimately show ?thesis by (simp add: arrivals_ok_def)
qed (use assms(2) in simp_all)


lemma enqueue_ok:
  assumes "enqueue_provider_job e opts raw moved now db = (r, db')" "arrivals_ok db"
  shows "arrivals_ok db'"
proof -
  have ok: "chats_ok db" "materials_bound db" using assms(2) by (simp_all add: arrivals_ok_def)
  have "chats_ok db'"
    using assms(1)
  proof (cases rule: enqueue_cases)
    case (added d x s db1 m j)
    note k = added_bound [OF added(4,5,6,7)] and b = require_binding_Inr [OF added(4)] and a = attend_only_sel [OF added(8)]
    have t: "topic_of db' = topic_of db" using k(1) a(2) by (simp add: topic_of_def fun_eq_iff binding_kept_def)
    have "db_jobs m = db_jobs db" using b(11,12) by (auto simp: added(6) note_message_sel)
    then have "pj_job_id j \<notin> pj_job_id ` set (db_jobs db)" using added(7) by (auto simp: job_clashes_def exists_row_iff)
    moreover have "map_option tp_chat_id (topic_of db (pj_topic_id j)) = Some (pj_chat_id j)"
      using b(8) by (simp add: added(5) new_job_def)
    ultimately show ?thesis using ok(1) a(1) unfolding chats_ok_def t by simp
  qed (use ok in simp_all)
  then show ?thesis using enqueue_bound [OF assms(1) ok(2)] by (simp add: arrivals_ok_def)
qed

lemma burst_ok:
  assumes "enqueue_or_append_provider_job e d appended quiet_ms max_ms current moved now db = (r, db')" "arrivals_ok db"
  shows "arrivals_ok db'"
proof -
  have q: "arrivals_ok x" if "enqueue_provider_job e opts raw moved now d0 = (y, x)" "arrivals_ok d0" for opts raw d0 y x
    using enqueue_ok that by blast
  have t: "arrivals_ok x" if "transact (append_tx e d ingress part_text grp quiet_ms max_ms current) db = (y, x)"
    for ingress part_text grp y x
    using that
  proof (cases rule: transact_cases)
    case (committed a)
    show ?thesis by (rule append_tx_ok [OF committed(1) assms(2)])
  qed (use assms(2) in simp)
  show ?thesis
    using assms unfolding enqueue_or_append_provider_job_def
    by (auto split: sum.splits if_splits option.splits prod.splits dest: q t)
qed

lemma chats_kept: "chats_ok db \<Longrightarrow> db_jobs db' = db_jobs db \<Longrightarrow> db_topics db' = db_topics db \<Longrightarrow> chats_ok db'"
  by (simp add: chats_ok_def topic_of_def)

lemma quote_ok:
  assumes "record_forwarded_quote cl fresh now t chat message observer body drafts session db = (r, db')" "arrivals_ok db"
  shows "arrivals_ok db'"
proof (cases "\<exists>q b. get_topic db t = Inr q \<and> tr_chat_id q = chat \<and>
    (\<exists>quote. quote_tx cl fresh now t chat message quote drafts session db = Inr (b, db'))")
  case True
  then obtain q b quote where q: "get_topic db t = Inr q" "tr_chat_id q = chat"
    "quote_tx cl fresh now t chat message quote drafts session db = Inr (b, db')" by blast
  let ?m = "quote_turn t quote message now (db\<lparr>db_observed := db_observed db @ [(chat, message)]\<rparr>)"
  obtain db1 where i: "insert_materials cl fresh (forward_owner t chat message session) drafts now (Some ''forward'') ?m = Inr db1"
    "db' = trim_turns t db1"
    using q(3) by (auto simp: quote_tx_def attempt_Inr split: if_splits)
  have m: "db_jobs ?m = db_jobs db" "db_topics ?m = db_topics db" "db_materials ?m = db_materials db"
    by (simp_all add: quote_turn_def)
  have ok: "chats_ok db" "materials_bound ?m"
    using assms(2) bound_kept [of db ?m] binding_kept_jobs m by (simp_all add: arrivals_ok_def)
  have "map_option tp_chat_id (topic_of ?m t) = Some chat"
    using get_topic_Inr [OF q(1)] q(2) m(2) by (simp add: topic_of_def)
  then have "materials_bound db1"
    by (intro insert_materials_bound [OF i(1) ok(2)]) (auto simp: forward_owner_def owned_by_def well_bound_def)
  moreover have a: "attend_only ?m db1" by (rule insert_materials_Inr [OF i(1)])
  ultimately show ?thesis
    using ok(1) bound_kept [of db1 db'] binding_kept_jobs [of db' db1] chats_kept [of db db'] attend_only_sel(1,2) [OF a] m
    by (simp add: arrivals_ok_def i(2) trim_turns_def)
next
  case False
  then have "db' = db" using assms(1) unfolding record_forwarded_quote_def
    by (auto simp: attempt_Inr split: sum.splits if_splits state_error.splits)
  then show ?thesis using assms(2) by simp
qed

text \<open>Everything that may arrive from Telegram for a topic.\<close>

datatype arrival =
    New_input admission_env admission_options input_draft time time
  | Burst_input admission_env input_draft string int int time time time
  | Forwarded_quote cleaner "nat \<Rightarrow> string" time int int int string string "material_draft list" "session_record option"

fun receive :: "arrival \<Rightarrow> db \<Rightarrow> db" where
  "receive (New_input e opts d moved now) db = snd (enqueue_provider_job e opts d moved now db)"
| "receive (Burst_input e d appended quiet_ms max_ms current moved now) db =
     snd (enqueue_or_append_provider_job e d appended quiet_ms max_ms current moved now db)"
| "receive (Forwarded_quote cl fresh now t chat message observer body ds session) db =
     snd (record_forwarded_quote cl fresh now t chat message observer body ds session db)"

lemma receive_ok: "arrivals_ok db \<Longrightarrow> arrivals_ok (receive a db)"
proof (cases a)
  case (New_input e opts d moved now)
  then show "arrivals_ok db \<Longrightarrow> ?thesis"
    using enqueue_ok [of e opts d moved now db] by (cases "enqueue_provider_job e opts d moved now db") simp
next
  case (Burst_input e d appended quiet_ms max_ms current moved now)
  then show "arrivals_ok db \<Longrightarrow> ?thesis"
    using burst_ok [of e d appended quiet_ms max_ms current moved now db]
    by (cases "enqueue_or_append_provider_job e d appended quiet_ms max_ms current moved now db") simp
next
  case (Forwarded_quote cl fresh now t chat message observer body ds session)
  then show "arrivals_ok db \<Longrightarrow> ?thesis"
    using quote_ok [of cl fresh now t chat message observer body ds session db]
    by (cases "record_forwarded_quote cl fresh now t chat message observer body ds session db") simp
qed

text \<open>C8. Materials are delivered to the job they came for, and to no other: after any sequence of
  arrivals, reading the materials of any job succeeds, and returns exactly the rows stored under it,
  every one of the job's own topic, project, root, agent and session.\<close>

theorem materials_reach_their_job:
  assumes "arrivals_ok db" "j \<in> set (db_jobs (fold receive arrivals db))"
  shows "\<exists>ms t. materials_for_job (fold receive arrivals db) (pj_job_id j) = Inr ms \<and>
     topic_of (fold receive arrivals db) (pj_topic_id j) = Some t \<and>
     set ms = {m \<in> set (db_materials (fold receive arrivals db)). im_job_id m = Some (pj_job_id j)} \<and>
     (\<forall>m \<in> set ms. bound_to j t m)"
proof -
  have "arrivals_ok (fold receive arrivals db)" using assms(1)
    by (induction arrivals arbitrary: db) (simp_all add: receive_ok)
  moreover have "\<exists>ms t. materials_for_job d (pj_job_id j) = Inr ms \<and> topic_of d (pj_topic_id j) = Some t \<and>
      set ms = {m \<in> set (db_materials d). im_job_id m = Some (pj_job_id j)} \<and> (\<forall>m \<in> set ms. bound_to j t m)"
    if d: "arrivals_ok d" "j \<in> set (db_jobs d)" for d
  proof -
    have j: "job_of d (pj_job_id j) = Some j" using d unique_job_of by (simp add: arrivals_ok_def chats_ok_def)
    obtain t where t: "topic_of d (pj_topic_id j) = Some t" using d by (auto simp: arrivals_ok_def chats_ok_def)
    let ?ms = "sort_key (\<lambda>m. (part_of d (pj_job_id j) m, im_attachment_index m))
                  (filter (\<lambda>m. im_job_id m = Some (pj_job_id j)) (db_materials d))"
    have b: "\<forall>m \<in> set ?ms. bound_to j t m"
      using d(1) j t by (auto simp: arrivals_ok_def materials_bound_def well_bound_def)
    then have "materials_for_job d (pj_job_id j) = Inr ?ms"
      using j t by (simp add: materials_for_job_def Let_def list_all_iff check_def)
    then show ?thesis using t b by auto
  qed
  ultimately show ?thesis using assms(2) by blast
qed


section \<open>Materials stay within the limits\<close>

definition waits_for :: "int \<Rightarrow> string option \<Rightarrow> int option \<Rightarrow> incoming_material \<Rightarrow> bool" where
  "waits_for t s g m \<longleftrightarrow> im_job_id m = None \<and> im_topic_id m = t \<and> im_session_id m = s \<and> im_session_generation m = g"

definition of_job :: "string \<Rightarrow> incoming_material \<Rightarrow> bool" where
  "of_job i m \<longleftrightarrow> im_job_id m = Some i"

definition materials_limited :: "db \<Rightarrow> bool" where
  "materials_limited db \<longleftrightarrow> (\<forall>m \<in> set (db_materials db). 0 \<le> size_or_0 (im_byte_size m)) \<and>
     (\<forall>i. within_limits (filter (of_job i) (db_materials db))) \<and>
     (\<forall>t s g. within_limits (filter (waits_for t s g) (db_materials db)))"

lemma limited_same: "db_materials db' = db_materials db \<Longrightarrow> materials_limited db \<Longrightarrow> materials_limited db'"
  by (simp add: materials_limited_def)

lemma within_filter:
  assumes "within_limits ms" "\<forall>m \<in> set ms. 0 \<le> size_or_0 (im_byte_size m)"
  shows "within_limits (filter p ms)"
proof -
  have "total_bytes (filter p ms) \<le> total_bytes ms"
    using assms(2) by (induction ms) (auto simp: total_bytes_def)
  moreover have "count_where stored_material (filter p ms) \<le> count_where stored_material ms"
    by (induction ms) (auto simp: count_where_def)
  ultimately show ?thesis using assms(1) by (simp add: within_limits_def)
qed

lemma within_map: "(\<And>m. im_status (f m) = im_status m \<and> im_byte_size (f m) = im_byte_size m) \<Longrightarrow>
    within_limits (map f ms) = within_limits ms"
proof -
  assume f: "\<And>m. im_status (f m) = im_status m \<and> im_byte_size (f m) = im_byte_size m"
  have "count_where stored_material (map f ms) = count_where stored_material ms" "total_bytes (map f ms) = total_bytes ms"
    using f by (induction ms) (auto simp: count_where_def stored_material_def total_bytes_def)
  then show ?thesis by (simp add: within_limits_def)
qed

lemma attach_limited:
  assumes "attach_forwarded i t agent session g db = Inr db'" "materials_limited db"
    "\<forall>m \<in> set (db_materials db). im_job_id m \<noteq> Some i"
  shows "materials_limited db'"
proof -
  obtain r where r: "db_materials db' = update_where
          (\<lambda>m. im_job_id m = None \<and> im_topic_id m = t \<and> im_project_id m = tp_project_id r \<and>
             im_execution_scope m = material_scope r \<and> im_agent_id m = Some agent \<and>
             im_session_id m = Some session \<and> im_session_generation m = Some g)
          (\<lambda>m. m\<lparr>im_job_id := Some i\<rparr>) (db_materials db)"
    using assms(1) by (auto simp: attach_forwarded_def split: option.splits)
  let ?p = "\<lambda>m. im_job_id m = None \<and> im_topic_id m = t \<and> im_project_id m = tp_project_id r \<and>
             im_execution_scope m = material_scope r \<and> im_agent_id m = Some agent \<and>
             im_session_id m = Some session \<and> im_session_generation m = Some g"
  let ?f = "\<lambda>m. m\<lparr>im_job_id := Some i\<rparr>" and ?ms = "db_materials db"
  have l: "\<forall>m \<in> set ?ms. 0 \<le> size_or_0 (im_byte_size m)" "\<And>k. within_limits (filter (of_job k) ?ms)"
    "\<And>t s g. within_limits (filter (waits_for t s g) ?ms)"
    using assms(2) by (simp_all add: materials_limited_def)
  have mine: "filter (of_job i) (update_where ?p ?f ms) = map ?f (filter ?p ms)" if "\<forall>m \<in> set ms. im_job_id m \<noteq> Some i" for ms
    using that by (induction ms) (auto simp: update_where_def of_job_def)
  have theirs: "filter (of_job k) (update_where ?p ?f ms) = filter (of_job k) ms" if "k \<noteq> i" for k ms
    using that by (induction ms) (auto simp: update_where_def of_job_def)
  have waiting: "filter (waits_for t' s' g') (update_where ?p ?f ms) = filter (\<lambda>m. \<not> ?p m) (filter (waits_for t' s' g') ms)" for t' s' g' ms
    by (induction ms) (auto simp: update_where_def waits_for_def)
  have "filter ?p ?ms = filter ?p (filter (waits_for t (Some session) (Some g)) ?ms)"
    by (simp add: waits_for_def conj_commute cong: conj_cong) (metis (no_types, lifting))
  then have "within_limits (filter ?p ?ms)" using within_filter [OF l(3)] l(1) by simp
  then have "within_limits (map ?f (filter ?p ?ms))" by (simp add: within_map)
  then have "within_limits (filter (of_job k) (db_materials db'))" for k
    unfolding r using mine [OF assms(3)] theirs l(2) by (cases "k = i") simp_all
  moreover have "within_limits (filter (waits_for t' s' g') (db_materials db'))" for t' s' g'
    unfolding r waiting by (rule within_filter [OF l(3)]) (use l(1) in simp)
  moreover have "\<forall>m \<in> set (db_materials db'). 0 \<le> size_or_0 (im_byte_size m)"
    unfolding r using l(1) by (auto simp: set_update_where)
  ultimately show ?thesis by (simp add: materials_limited_def)
qed

lemma insert_limited:
  assumes "insert_materials cl fresh w ds now origin db = Inr db'" "materials_limited db"
  shows "materials_limited db'"
proof (rule insert_materials_limits [OF assms(1)])
  fix t ms assume d: "db' = db\<lparr>db_materials := db_materials db @ ms\<rparr>" and own: "\<forall>m \<in> set ms. owned_by w t m"
    and lim: "within_limits (beside w db) \<Longrightarrow> within_limits (beside w db @ ms)"
    and size: "\<forall>m \<in> set ms. 0 \<le> size_or_0 (im_byte_size m)"
  have l: "\<And>k. within_limits (filter (of_job k) (db_materials db))"
    "\<And>t s g. within_limits (filter (waits_for t s g) (db_materials db))"
    using assms(2) by (simp_all add: materials_limited_def)
  let ?q = "\<lambda>m. case mo_job_id w of Some i \<Rightarrow> of_job i m
     | None \<Rightarrow> waits_for (mo_topic_id w) (mo_session_id w) (mo_session_generation w) m"
  have b: "beside w db = filter ?q (db_materials db)"
    by (simp add: beside_def of_job_def waits_for_def split: option.split)
  have all: "filter ?q ms = ms" using own by (auto simp: filter_id_conv owned_by_def of_job_def waits_for_def split: option.split)
  have within: "within_limits (filter ?q (db_materials db @ ms))"
  proof -
    have "within_limits (beside w db)" unfolding b by (cases "mo_job_id w") (simp_all add: l)
    then show ?thesis using lim by (simp only: filter_append all b)
  qed
  have job: "within_limits (filter (of_job k) (db_materials db @ ms))" for k
  proof (cases "mo_job_id w = Some k")
    case False
    then have "filter (of_job k) ms = []" using own by (auto simp: filter_empty_conv of_job_def owned_by_def)
    then show ?thesis using l(1) by simp
  qed (use within in simp)
  have wait: "within_limits (filter (waits_for t' s g) (db_materials db @ ms))" for t' s g
  proof (cases "mo_job_id w = None \<and> mo_topic_id w = t' \<and> mo_session_id w = s \<and> mo_session_generation w = g")
    case False
    then have "filter (waits_for t' s g) ms = []" using own by (auto simp: filter_empty_conv waits_for_def owned_by_def)
    then show ?thesis using l(2) by simp
  qed (use within in auto)
  show ?thesis using job wait size assms(2) by (simp add: materials_limited_def d ball_Un)
qed


lemma attend_job_limited:
  assumes "attend_job e opts d x now db = Inr db'" "materials_limited db"
    "\<forall>m \<in> set (db_materials db). im_job_id m \<noteq> Some (ae_job_id e)"
  shows "materials_limited db'"
proof (rule attend_job_steps [OF assms(1)])
  fix db1 db2 db3 db4
  assume s: "record_new_job (ae_job_id e) x db = Inr db1" "put_input (first_part (ae_job_id e) opts d now) db1 = Inr db2"
    and a: "db3 = db2 \<or> attach_forwarded (ae_job_id e) (in_topic_id d) (in_agent_id d) (in_session_id d) (in_session_generation d) db2 = Inr db3"
    and i: "insert_materials (ae_clean e) (ae_material_id e) (job_owner (ae_job_id e) d) (in_materials d) now None db3 = Inr db4"
    and n: "notices_only db4 db'"
  have m: "db_materials db2 = db_materials db" by (simp add: put_input_materials [OF s(2)] record_new_job_materials [OF s(1)])
  have "materials_limited db3" using a
  proof
    assume a: "attach_forwarded (ae_job_id e) (in_topic_id d) (in_agent_id d) (in_session_id d) (in_session_generation d) db2 = Inr db3"
    show ?thesis by (rule attach_limited [OF a limited_same [OF m assms(2)]]) (use m assms(3) in simp)
  qed (use limited_same [OF m assms(2)] in simp)
  then have "materials_limited db4" by (rule insert_limited [OF i])
  then show ?thesis by (rule limited_same [OF notices_materials [OF n]])
qed

lemma enqueue_limited:
  assumes "enqueue_provider_job e opts raw moved now db = (r, db')" "materials_limited db" "materials_bound db"
  shows "materials_limited db'"
  using assms(1)
proof (cases rule: enqueue_cases)
  case (added d x s db1 m j)
  note k = added_bound [OF added(4,5,6,7)] and b = require_binding_Inr [OF added(4)]
  have jobs: "db_jobs m = db_jobs db" using b(11,12) by (auto simp: added(6) note_message_sel)
  have j: "pj_job_id j = ae_job_id e" by (simp add: added(5) new_job_def)
  have "im_job_id x \<noteq> Some (ae_job_id e)" if x: "x \<in> set (db_materials db)" for x
  proof
    assume "im_job_id x = Some (ae_job_id e)"
    moreover have "well_bound db x" using assms(3) x by (simp add: materials_bound_def)
    ultimately obtain q where "job_of db (ae_job_id e) = Some q" by (auto simp: well_bound_def)
    then show False using added(7) j find_Some_set by (fastforce simp: job_clashes_def jobs exists_row_iff job_of_def)
  qed
  then show ?thesis
    by (intro attend_job_limited [OF added(9)] limited_same [OF _ assms(2)]) (simp_all add: k(3))
qed (use assms(2) in simp_all)

lemma quote_limited:
  assumes "record_forwarded_quote cl fresh now t chat message observer body drafts session db = (r, db')" "materials_limited db"
  shows "materials_limited db'"
proof (cases "\<exists>b quote. quote_tx cl fresh now t chat message quote drafts session db = Inr (b, db')")
  case True
  then obtain quote db1 where i: "insert_materials cl fresh (forward_owner t chat message session) drafts now (Some ''forward'')
      (quote_turn t quote message now (db\<lparr>db_observed := db_observed db @ [(chat, message)]\<rparr>)) = Inr db1" "db' = trim_turns t db1"
    by (auto simp: quote_tx_def attempt_Inr split: if_splits)
  have "materials_limited db1" by (rule insert_limited [OF i(1) limited_same [OF _ assms(2)]]) (simp add: quote_turn_def)
  then show ?thesis by (rule limited_same [rotated]) (simp add: i(2) trim_turns_def)
next
  case False
  then have "db' = db" using assms(1) unfolding record_forwarded_quote_def
    by (auto simp: attempt_Inr split: sum.splits if_splits state_error.splits)
  then show ?thesis using assms(2) by simp
qed

definition appends :: "arrival \<Rightarrow> bool" where
  "appends a \<longleftrightarrow> (case a of Burst_input _ _ _ _ _ _ _ _ \<Rightarrow> True | _ \<Rightarrow> False)"

lemma receive_limited: "materials_limited db \<Longrightarrow> arrivals_ok db \<Longrightarrow> \<not> appends a \<Longrightarrow> materials_limited (receive a db)"
proof (cases a)
  case (New_input e opts d moved now)
  then show "materials_limited db \<Longrightarrow> arrivals_ok db \<Longrightarrow> ?thesis"
    using enqueue_limited [of e opts d moved now db] by (cases "enqueue_provider_job e opts d moved now db") (simp add: arrivals_ok_def)
next
  case (Forwarded_quote cl fresh now t chat message observer body ds session)
  then show "materials_limited db \<Longrightarrow> ?thesis"
    using quote_limited [of cl fresh now t chat message observer body ds session db]
    by (cases "record_forwarded_quote cl fresh now t chat message observer body ds session db") simp
qed (simp add: appends_def)



section \<open>Examples\<close>

definition stocked_hub :: "incoming_material list \<Rightarrow> db" where
  "stocked_hub ms = (open_hub [waiting_tail])\<lparr>db_materials := ms\<rparr>"

lemma stocked_hub_sel:
  "db_jobs (stocked_hub ms) = [waiting_tail]" "db_topics (stocked_hub ms) = [example_topic]" "db_materials (stocked_hub ms) = ms"
  "db_inputs (stocked_hub ms) = []" "db_observed (stocked_hub ms) = []" "db_sessions (stocked_hub ms) = [open_session]"
  "db_origins (stocked_hub ms) = []" "db_ingress (stocked_hub ms) = []" "db_controls (stocked_hub ms) = []"
  by (simp_all add: stocked_hub_def open_hub_sel)

lemma stocked_hub_topic: "topic_of (stocked_hub ms) 1 = Some example_topic"
  by (simp add: topic_of_def stocked_hub_sel example_topic_def)

lemma stocked_hub_free: "persistent_root_blocker (stocked_hub ms) 1 = None"
proof -
  have u: "uncertain_turn (stocked_hub ms) s = None" for s
    unfolding uncertain_turn_def first_by_None by (simp add: stocked_hub_sel exists_row_def uncertain_def waiting_tail_sel)
  have w: "outside_writer (stocked_hub ms) s = None" for s by (simp add: outside_writer_def stocked_hub_sel open_session_sel)
  show ?thesis
    by (simp add: persistent_root_blocker_def stocked_hub_topic control_owner_for_topic_def u w stocked_hub_sel exists_row_def)
qed

text \<open>The follow-up of the burst, in a hub with these materials.\<close>

definition taken_over :: "incoming_material \<Rightarrow> bool" where
  "taken_over m \<longleftrightarrow> im_job_id m = None \<and> im_topic_id m = 1 \<and> im_project_id m = ''p'' \<and> im_execution_scope m = ''root:/p'' \<and>
     im_agent_id m = Some ''codex'' \<and> im_session_id m = Some ''s'' \<and> im_session_generation m = Some 1"

definition example_follow_up :: arrival where
  "example_follow_up = Burst_input example_env example_input ''and'' 1 1000 50 51 52"

lemma stocked_burst:
  "db_materials (receive example_follow_up (stocked_hub ms)) = update_where taken_over (\<lambda>m. m\<lparr>im_job_id := Some ''a''\<rparr>) ms"
  "db_jobs (receive example_follow_up (stocked_hub ms)) = [grown_tail]"
proof -
  let ?db = "stocked_hub ms" and ?ms = "update_where taken_over (\<lambda>m. m\<lparr>im_job_id := Some ''a''\<rparr>) ms"
  have t: "topic_of (note_message 7 5 ?db\<lparr>db_inputs := ps\<rparr>) 1 = Some example_topic" for ps
    using stocked_hub_topic [of ms] by (simp add: topic_of_def note_message_def)
  have b: "burst_tail example_input None None None 50 (50 - milliseconds 1000) ?db = Some waiting_tail"
    using waiting_tail_found by (simp add: burst_tail_def stocked_hub_sel open_hub_sel last_sequence_def identity_of_def)
  have m: "db_materials (note_message 7 5 ?db) = ms" by (simp add: note_message_def stocked_hub_sel)
  have k: "taken_over = (\<lambda>m. im_job_id m = None \<and> im_topic_id m = 1 \<and> im_project_id m = tp_project_id example_topic \<and>
     im_execution_scope m = material_scope example_topic \<and> im_agent_id m = Some ''codex'' \<and> im_session_id m = Some ''s'' \<and>
     im_session_generation m = Some 1)"
    by (simp add: fun_eq_iff taken_over_def example_topic_def material_scope_def)
  obtain db' where a: "append_part example_env example_input ''and'' 1 1000 50 waiting_tail ?db = Inr db'"
      "db_jobs db' = [grown_tail]" "db_materials db' = ?ms"
    by (simp add: append_part_def put_input_def attach_forwarded_def insert_materials_none Let_def example_input_sel check_def
      note_message_fields stocked_hub_sel exists_row_def t waiting_tail_sel update_jobs_def update_where_def note_message_sel
      grown_tail_def grow_job_def milliseconds_def m k)
  have g: "grow_tail example_env example_input None ''and'' None 1 1000 50 None ?db = Inr (Some (grown_tail, True), db')"
    using a b by (simp add: grow_tail_def waiting_tail_sel follow_up_def get_job_def job_of_def grown_tail_def grow_job_def)
  have s: "session_of ?db ''s'' = Some open_session" by (simp add: session_of_def stocked_hub_sel open_session_sel)
  have "append_tx example_env example_input None ''and'' None 1 1000 50 ?db = Inr (Some (grown_tail, True), db')"
    using stocked_hub_free [of ms] g stocked_hub_topic [of ms] s
    by (simp add: append_tx_def stocked_hub_sel require_admission_def origin_of_def get_session_def session_record_of_def
      same_binding_def require_selected_def check_def example_input_sel example_env_sel open_session_sel get_topic_def
      topic_record_of_def example_topic_def example_input_def)
  then have "receive example_follow_up ?db = db'"
    by (simp add: example_follow_up_def enqueue_or_append_provider_job_def validate_ingress_identity_def example_input_sel
      bounded_def optional_bounded_def py_strip_def py_space_def transact_def)
  then show "db_materials (receive example_follow_up ?db) = ?ms" "db_jobs (receive example_follow_up ?db) = [grown_tail]"
    using a by simp_all
qed

definition sample_material :: "string option \<Rightarrow> int \<Rightarrow> incoming_material" where
  "sample_material i k = \<lparr>im_material_id = ''m'', im_job_id = i, im_topic_id = 1, im_project_id = ''p'',
      im_execution_scope = ''root:/p'', im_agent_id = Some ''codex'', im_session_id = Some ''s'',
      im_session_generation = Some 1, im_chat_id = 7, im_message_id = 1,
      im_attachment_index = k, im_media_group_id = None, im_origin = ''topic'',
      im_kind = ''document'', im_content_kind = Some ''text'', im_file_unique_id = None,
      im_display_name = ''f'', im_mime_type = None, im_declared_size = None,
      im_storage_path = Some ''/s'', im_byte_size = Some 1, im_sha256 = Some ''0'', im_status = Stored,
      im_unavailable_code = None, im_unavailable_detail = None, im_created_at = 1, im_consumed_at = None\<rparr>"


lemma sample_material_sel:
  "im_job_id (sample_material i k) = i" "im_topic_id (sample_material i k) = 1" "im_session_id (sample_material i k) = Some ''s''"
  "im_session_generation (sample_material i k) = Some 1" "im_byte_size (sample_material i k) = Some 1"
  "im_status (sample_material i k) = Stored" "im_chat_id (sample_material i k) = 7" "taken_over (sample_material i k) = (i = None)"
  "(sample_material i k)\<lparr>im_job_id := j\<rparr> = sample_material j k"
  by (simp_all add: sample_material_def taken_over_def)

definition crowded_hub :: "int list \<Rightarrow> int list \<Rightarrow> db" where
  "crowded_hub stored waiting = stocked_hub (map (sample_material (Some ''a'')) stored @ map (sample_material None) waiting)"

lemma sample_count: "count_where stored_material (map (sample_material i) ks) = length ks" "total_bytes (map (sample_material i) ks) = int (length ks)"
  by (induction ks) (simp_all add: count_where_def stored_material_def sample_material_sel total_bytes_def size_or_0_def)

lemma sample_filter:
  "filter (of_job x) (map (sample_material i) ks) = (if i = Some x then map (sample_material i) ks else [])"
  "filter (waits_for t s g) (map (sample_material i) ks) =
     (if i = None \<and> t = 1 \<and> s = Some ''s'' \<and> g = Some 1 then map (sample_material i) ks else [])"
  by (induction ks) (auto simp: of_job_def waits_for_def sample_material_sel)

lemma within_samples: "within_limits (map (sample_material i) ks) = (length ks \<le> 10)"
  by (auto simp: within_limits_def sample_count MAX_INCOMING_MATERIALS_PER_JOB_def MAX_INCOMING_JOB_BYTES_def)

lemma within_none: "within_limits []"
  using within_samples [of None "[]"] by simp

lemma crowded_limited: "length stored \<le> 10 \<Longrightarrow> length waiting \<le> 10 \<Longrightarrow> materials_limited (crowded_hub stored waiting)"
  by (auto simp: materials_limited_def crowded_hub_def stocked_hub_sel sample_material_sel size_or_0_def sample_filter
      within_samples within_none)

lemma crowded_ok: "arrivals_ok (crowded_hub stored waiting)"
proof -
  have j: "job_of (crowded_hub stored waiting) ''a'' = Some waiting_tail"
    by (simp add: job_of_def crowded_hub_def stocked_hub_sel waiting_tail_sel)
  have t: "topic_of (crowded_hub stored waiting) 1 = Some example_topic" by (simp add: crowded_hub_def stocked_hub_topic)
  have c: "chats_ok (crowded_hub stored waiting)"
    using t by (simp add: chats_ok_def crowded_hub_def stocked_hub_sel waiting_tail_def example_job_def example_topic_def)
  have "well_bound (crowded_hub stored waiting) m" if "m \<in> set (db_materials (crowded_hub stored waiting))" for m
    using that j t unfolding crowded_hub_def stocked_hub_sel
    by (auto simp: well_bound_def sample_material_sel bound_to_def waiting_tail_def example_job_def example_topic_def
      sample_material_def material_scope_def)
  then show ?thesis using c by (simp add: arrivals_ok_def materials_bound_def)
qed

lemma crowded_burst: "db_materials (receive example_follow_up (crowded_hub stored waiting)) =
    map (sample_material (Some ''a'')) (stored @ waiting)"
  by (simp add: crowded_hub_def stocked_burst update_where_def sample_material_sel comp_def)

text \<open>The limits have a gap: a hub whose jobs and waiting materials are all within their limits, and
  a follow-up without a material of its own that the burst takes, after which the job holds eleven
  stored materials.\<close>

theorem burst_exceeds_limits:
  "\<exists>db a i. arrivals_ok db \<and> materials_limited db \<and> appends a \<and>
     \<not> within_limits (filter (of_job i) (db_materials (receive a db)))"
proof -
  let ?db = "crowded_hub [1..10] [11]"
  have "\<not> within_limits (filter (of_job ''a'') (db_materials (receive example_follow_up ?db)))"
    unfolding crowded_burst sample_filter by (simp add: within_samples del: map_append)
  moreover have "appends example_follow_up" by (simp add: appends_def example_follow_up_def)
  ultimately show ?thesis using crowded_ok crowded_limited [of "[1..10]" "[11]"] by auto
qed

theorem materials_reach_their_job_witness:
  "\<exists>ms. materials_for_job (receive example_follow_up (crowded_hub [1] [2])) ''a'' = Inr ms \<and>
     set ms = {sample_material (Some ''a'') 1, sample_material (Some ''a'') 2}"
proof -
  have j: "grown_tail \<in> set (db_jobs (fold receive [example_follow_up] (crowded_hub [1] [2])))"
    by (simp add: crowded_hub_def stocked_burst)
  have i: "pj_job_id grown_tail = ''a''" by (simp add: grown_tail_def grow_job_def waiting_tail_sel)
  obtain ms where m: "materials_for_job (receive example_follow_up (crowded_hub [1] [2])) ''a'' = Inr ms"
    "set ms = {m \<in> set (db_materials (receive example_follow_up (crowded_hub [1] [2]))). im_job_id m = Some ''a''}"
    using materials_reach_their_job [OF crowded_ok j] by (auto simp: i)
  have "set ms = {sample_material (Some ''a'') 1, sample_material (Some ''a'') 2}"
    unfolding m(2) crowded_burst by (auto simp: sample_material_sel)
  then show ?thesis using m(1) by blast
qed

definition example_quote :: arrival where
  "example_quote = Forwarded_quote None (\<lambda>_. ''q'') 60 1 7 9 ''bot'' ''see'' [] None"


end
