(* ===== verification/Topic_Lanes.thy ===== *)
theory Topic_Lanes
  imports Session_State
begin

text \<open>
  Topics and the worktree lanes they may be bound to: \<open>state_lanes.py\<close>, and of \<open>state.py\<close>
  \<open>observe_topic\<close>, \<open>reconcile_legacy_execution_scopes\<close>, the lookups of topics and the lane
  operations. The path of a root is what \<open>resolve\<close> makes of the path given. Every operation here
  is called outside a transaction.
\<close>

section \<open>Topics\<close>

text \<open>The scope of a row whose stored scope is missing or empty.\<close>

definition stored_scope :: "string \<Rightarrow> topic_row \<Rightarrow> string" where
  "stored_scope fallback t = (case tp_execution_scope t of None \<Rightarrow> fallback | Some s \<Rightarrow> if s = [] then fallback else s)"

definition root_scope :: "string \<Rightarrow> string" where
  "root_scope path = ''root:'' @ path"

definition absolute :: "string \<Rightarrow> bool" where
  "absolute path \<longleftrightarrow> starts_with path ''/''"

definition requested_scope :: "(string \<Rightarrow> string) \<Rightarrow> string option \<Rightarrow> state_error + string option" where
  "requested_scope resolve root = (case root of
     None \<Rightarrow> Inr None
   | Some r \<Rightarrow> attempt (check (absolute r) (State_error ''execution root must be absolute'')) (\<lambda>_.
       attempt (bounded (resolve r) ''execution root'' 4096) (\<lambda>p. Inr (Some (root_scope p)))))"

definition find_row :: "db \<Rightarrow> int \<Rightarrow> int \<Rightarrow> topic_row option" where
  "find_row db chat thread = find (\<lambda>t. tp_chat_id t = chat \<and> tp_thread_id t = thread) (db_topics db)"

text \<open>The identifier of a new row: one more than any before it, as no topic is ever deleted.\<close>

definition next_topic_id :: "db \<Rightarrow> int" where
  "next_topic_id db = fold max (map tp_topic_id (db_topics db)) 0 + 1"

text \<open>The scope an observed topic keeps or takes; a root other than the requested one must be its lane's.\<close>

definition next_scope :: "db \<Rightarrow> string \<Rightarrow> string option \<Rightarrow> topic_row \<Rightarrow> state_error + string" where
  "next_scope db fallback requested t =
     (let stored = stored_scope fallback t in
      case requested of
        None \<Rightarrow> Inr stored
      | Some r \<Rightarrow>
          if stored = fallback \<or> stored = r then Inr r
          else attempt (check (case find (\<lambda>l. wl_topic_id l = Some (tp_topic_id t) \<and>
                     wl_project_id l = tp_project_id t \<and> wl_status l = Lane_active) (db_lanes db) of
                   None \<Rightarrow> False | Some l \<Rightarrow> stored = root_scope (wl_worktree_path l))
                 (State_error ''Telegram topic execution root changed'')) (\<lambda>_. Inr stored))"

text \<open>
  An update of topics, guarded by the trigger of \<open>schema_delivery_control_activation.py\<close>: a held
  delivery keeps the topic where it is, unless the owner agreed to that very delivery.
\<close>

definition retains_binding :: "db \<Rightarrow> topic_row \<Rightarrow> topic_row \<Rightarrow> bool" where
  "retains_binding db t t' \<longleftrightarrow>
     (tp_project_id t' \<noteq> tp_project_id t \<or> tp_execution_scope t' \<noteq> tp_execution_scope t \<or>
      tp_chat_id t' \<noteq> tp_chat_id t \<or> tp_thread_id t' \<noteq> tp_thread_id t) \<and>
     exists_row (\<lambda>h. hx_topic_id h = tp_topic_id t \<and>
       (tp_project_id t' \<noteq> hx_project_id h \<or> tp_chat_id t' \<noteq> hx_chat_id h \<or> tp_thread_id t' \<noteq> hx_thread_id h \<or>
        \<not> legacy_hold_has_full_control db h)) (db_hold_dispositions db)"

definition put_topics :: "(topic_row \<Rightarrow> bool) \<Rightarrow> (topic_row \<Rightarrow> topic_row) \<Rightarrow> db \<Rightarrow> state_error + db" where
  "put_topics p f db =
     (if exists_row (\<lambda>t. p t \<and> retains_binding db t (f t)) (db_topics db)
      then Inl (Integrity_error ''delivery hold disposition retains its topic binding'')
      else Inr (db\<lparr>db_topics := update_where p f (db_topics db)\<rparr>))"

definition observe_tx ::
  "string \<Rightarrow> string \<Rightarrow> int \<Rightarrow> int \<Rightarrow> string \<Rightarrow> string option \<Rightarrow> time \<Rightarrow> db \<Rightarrow> state_error + unit \<times> db" where
  "observe_tx given project chat thread title requested now db =
     (let fallback = ''project:'' @ project in
      case find_row db chat thread of
        None \<Rightarrow> Inr ((), db\<lparr>db_topics := db_topics db @ [\<lparr>tp_topic_id = next_topic_id db, tp_project_id = project, tp_chat_id = chat,
          tp_thread_id = thread, tp_title = py_strip title, tp_active_agent_id = None,
          tp_execution_scope = Some (case requested of None \<Rightarrow> fallback | Some r \<Rightarrow> r), tp_updated_at = now\<rparr>]\<rparr>)
      | Some t \<Rightarrow>
          attempt (check (tp_project_id t = given) (State_error ''Telegram topic is already bound to another project'')) (\<lambda>_.
          attempt (next_scope db fallback requested t) (\<lambda>scope.
          attempt (put_topics (\<lambda>x. tp_topic_id x = tp_topic_id t)
            (\<lambda>x. x\<lparr>tp_title := py_strip title, tp_execution_scope := Some scope, tp_updated_at := now\<rparr>) db)
            (\<lambda>db1. Inr ((), db1)))))"

definition observe_topic ::
  "(string \<Rightarrow> string) \<Rightarrow> string \<Rightarrow> int \<Rightarrow> int \<Rightarrow> string \<Rightarrow> string option \<Rightarrow> time \<Rightarrow> db
   \<Rightarrow> (state_error, db, topic_record) outcome" where
  "observe_topic resolve given chat thread title root now db =
     (case attempt (check (chat \<noteq> 0 \<and> 0 < thread \<and> py_strip title \<noteq> []) (State_error ''invalid Telegram topic identity'')) (\<lambda>_.
           attempt (bounded given ''project id'' 48) (\<lambda>project.
           attempt (requested_scope resolve root) (\<lambda>requested. Inr (project, requested)))) of
        Inl e \<Rightarrow> (Inl e, db)
      | Inr (project, requested) \<Rightarrow>
          commit_then (observe_tx given project chat thread title requested now)
            (\<lambda>_ db'. case find_row db' chat thread of
               None \<Rightarrow> Inl (State_error ''failed to persist Telegram topic'') | Some t \<Rightarrow> Inr (topic_record_of t)) db)"

definition find_topic :: "db \<Rightarrow> int \<Rightarrow> int \<Rightarrow> topic_record option" where
  "find_topic db chat thread = map_option topic_record_of (find_row db chat thread)"

definition active_agent_for_route :: "db \<Rightarrow> int \<Rightarrow> int \<Rightarrow> string option" where
  "active_agent_for_route db chat thread = (case find_row db chat thread of
     None \<Rightarrow> None
   | Some t \<Rightarrow> (case tp_active_agent_id t of None \<Rightarrow> None | Some a \<Rightarrow> if a = [] then None else Some a))"

section \<open>Whether a topic or a root is idle\<close>

text \<open>Work that keeps its topic and its root where they are.\<close>

definition keeps_place :: "db \<Rightarrow> provider_job \<Rightarrow> bool" where
  "keeps_place db j \<longleftrightarrow> pj_status j \<in> set open_statuses \<and> \<not> result_ready_control_reconciled db j \<or> uncertain db j"

definition dispatched :: "turn_dispatch \<Rightarrow> bool" where
  "dispatched d \<longleftrightarrow> td_status d \<in> {Dispatch_queued, Dispatch_running}"

definition busy :: "db \<Rightarrow> (int \<Rightarrow> bool) \<Rightarrow> bool \<Rightarrow> bool" where
  "busy db in_place change \<longleftrightarrow>
     exists_row (\<lambda>j. in_place (pj_topic_id j) \<and> keeps_place db j) (db_jobs db) \<or>
     exists_row (\<lambda>d. in_place (td_topic_id d) \<and> dispatched d) (db_dispatches db) \<or>
     exists_row (\<lambda>s. in_place (ss_topic_id s) \<and> retained s \<and> ss_writer_mode s \<noteq> Telegram_writer) (db_sessions db) \<or>
     exists_row (\<lambda>s. in_place (ss_topic_id s) \<and> retained s \<and> ss_provider_session_id s \<noteq> None \<and> change) (db_sessions db)"

definition require_topic_idle :: "db \<Rightarrow> int \<Rightarrow> bool \<Rightarrow> state_error + unit" where
  "require_topic_idle db t change =
     attempt (control_quiet db t) (\<lambda>_.
     attempt (check (\<not> (change \<and> exists_row (\<lambda>h. hx_topic_id h = t \<and> \<not> legacy_hold_has_full_control db h) (db_hold_dispositions db)))
       (State_error ''delivery hold disposition retains the topic binding'')) (\<lambda>_.
     check (\<not> busy db (\<lambda>x. x = t) change) (State_error ''Telegram topic has active or unresolved execution'')))"

definition require_scope_idle :: "db \<Rightarrow> string \<Rightarrow> bool \<Rightarrow> state_error + unit" where
  "require_scope_idle db scope change =
     attempt (require_control_scope_clear db scope) (\<lambda>_.
     check (\<not> busy db (in_scope db scope) change) (State_error ''execution scope has active or unresolved execution''))"

section \<open>Lanes\<close>

definition lane_of :: "db \<Rightarrow> string \<Rightarrow> lane option" where
  "lane_of db i = find (\<lambda>l. wl_lane_id l = i) (db_lanes db)"

text \<open>The primary key of the table, its unique columns and its partial unique index.\<close>

definition bound_active :: "lane \<Rightarrow> bool" where
  "bound_active l \<longleftrightarrow> wl_status l = Lane_active \<and> wl_topic_id l \<noteq> None"

definition lanes_valid :: "lane list \<Rightarrow> bool" where
  "lanes_valid ls \<longleftrightarrow> distinct (map wl_lane_id ls) \<and> distinct (map wl_worktree_path ls) \<and> distinct (map wl_branch_name ls) \<and>
     distinct (map wl_topic_id (filter bound_active ls))"

definition put_lanes :: "lane list \<Rightarrow> db \<Rightarrow> state_error + db" where
  "put_lanes ls db = (if lanes_valid ls then Inr (db\<lparr>db_lanes := ls\<rparr>) else Inl (Integrity_error ''worktree_lanes''))"

definition put_scope :: "int \<Rightarrow> string \<Rightarrow> time \<Rightarrow> db \<Rightarrow> state_error + db" where
  "put_scope t scope now = put_topics (\<lambda>x. tp_topic_id x = t)
     (\<lambda>x. x\<lparr>tp_execution_scope := Some scope, tp_updated_at := now\<rparr>)"

definition unknown_lane :: "string \<Rightarrow> string \<Rightarrow> state_error" where
  "unknown_lane what i = State_error (what @ i)"

definition bindable :: "db \<Rightarrow> string \<Rightarrow> int \<Rightarrow> state_error + lane" where
  "bindable db i t =
     (case lane_of db i of
        None \<Rightarrow> Inl (unknown_lane ''unknown or inactive lane_id: '' i)
      | Some l \<Rightarrow>
          attempt (check (wl_status l = Lane_active) (unknown_lane ''unknown or inactive lane_id: '' i)) (\<lambda>_.
          attempt (check (wl_topic_id l = None) (State_error ''active lane is already bound'')) (\<lambda>_.
          case topic_of db t of
            None \<Rightarrow> Inl (State_error (''unknown topic_id: '' @ decimal_int t))
          | Some topic \<Rightarrow>
              attempt (check (wl_project_id l = tp_project_id topic)
                (State_error ''lane and Telegram topic belong to different projects'')) (\<lambda>_.
              attempt (check (\<not> exists_row (\<lambda>k. wl_topic_id k = Some t \<and> wl_lane_id k \<noteq> i \<and> wl_status k = Lane_active) (db_lanes db))
                (State_error ''Telegram topic is already bound to another active lane'')) (\<lambda>_. Inr l)))))"

definition bind_tx :: "string \<Rightarrow> int \<Rightarrow> time \<Rightarrow> db \<Rightarrow> state_error + unit \<times> db" where
  "bind_tx i t now db =
     attempt (bindable db i t) (\<lambda>l.
     attempt (require_topic_idle db t True) (\<lambda>_.
     attempt (require_scope_idle db (root_scope (wl_worktree_path l)) True) (\<lambda>_.
     attempt (put_lanes (update_where (\<lambda>k. wl_lane_id k = i)
         (\<lambda>k. k\<lparr>wl_topic_id := Some t, wl_updated_at := now\<rparr>) (db_lanes db)) db) (\<lambda>db1.
     attempt (put_scope t (root_scope (wl_worktree_path l)) now db1) (\<lambda>db2. Inr ((), db2))))))"

definition register_tx ::
  "string \<Rightarrow> string \<Rightarrow> string \<Rightarrow> string \<Rightarrow> int option \<Rightarrow> time \<Rightarrow> db \<Rightarrow> state_error + unit \<times> db" where
  "register_tx i project path branch topic now db =
     attempt (put_lanes (db_lanes db @ [\<lparr>wl_lane_id = i, wl_project_id = project, wl_topic_id = None,
       wl_worktree_path = path, wl_branch_name = branch, wl_status = Lane_active, wl_created_at = now,
       wl_updated_at = now, wl_cleaned_at = None\<rparr>]) db) (\<lambda>db1.
     case topic of None \<Rightarrow> Inr ((), db1) | Some t \<Rightarrow> bind_tx i t now db1)"

definition register_lane ::
  "(string \<Rightarrow> string) \<Rightarrow> string \<Rightarrow> string \<Rightarrow> string \<Rightarrow> string \<Rightarrow> int option \<Rightarrow> time \<Rightarrow> db \<Rightarrow> (state_error, db, unit) outcome" where
  "register_lane resolve i project path branch topic now = transact (register_tx i project (resolve path) branch topic now)"

definition get_lane :: "db \<Rightarrow> string \<Rightarrow> state_error + lane" where
  "get_lane db i = (case lane_of db i of None \<Rightarrow> Inl (unknown_lane ''unknown lane_id: '' i) | Some l \<Rightarrow> Inr l)"

definition list_lanes :: "db \<Rightarrow> lane list" where
  "list_lanes db = sort_key wl_created_at (db_lanes db)"

definition bind_lane :: "string \<Rightarrow> int \<Rightarrow> time \<Rightarrow> db \<Rightarrow> (state_error, db, lane) outcome" where
  "bind_lane i t now = commit_then (bind_tx i t now) (\<lambda>_ db'. get_lane db' i)"

text \<open>A scope that names no checkout of its own.\<close>

definition legacy_scope :: "topic_row \<Rightarrow> bool" where
  "legacy_scope t \<longleftrightarrow> tp_execution_scope t = None \<or> tp_execution_scope t = Some [] \<or>
     tp_execution_scope t = Some (''project:'' @ tp_project_id t)"

definition archive_to :: "lane \<Rightarrow> int \<Rightarrow> string option \<Rightarrow> string option \<Rightarrow> db \<Rightarrow> state_error + string" where
  "archive_to l t project root db =
     attempt (require_topic_idle db t True) (\<lambda>_.
     case topic_of db t of
       None \<Rightarrow> Inl (State_error (''unknown topic_id: '' @ decimal_int t))
     | Some topic \<Rightarrow>
         let needs = Inl (State_error ''bound lane archive requires its validated project root'') in
         if project \<noteq> Some (wl_project_id l) \<or> project \<noteq> Some (tp_project_id topic) then needs
         else case root of
           None \<Rightarrow> needs
         | Some r \<Rightarrow> if \<not> absolute r then needs
             else attempt (check (tp_execution_scope topic = Some (root_scope (wl_worktree_path l)))
                 (State_error ''active lane execution scope mismatch'')) (\<lambda>_.
               attempt (bounded r ''execution root'' 4096) (\<lambda>p.
               attempt (require_scope_idle db (root_scope (wl_worktree_path l)) True) (\<lambda>_.
               attempt (require_scope_idle db (root_scope p) False) (\<lambda>_.
               attempt (each_row (\<lambda>x d. attempt (require_topic_idle d (tp_topic_id x) False) (\<lambda>_. Inr d))
                 (filter legacy_scope (db_topics db)) db) (\<lambda>_.
               Inr (root_scope p)))))))"

definition archive_tx ::
  "string \<Rightarrow> string option \<Rightarrow> string option \<Rightarrow> time \<Rightarrow> time \<Rightarrow> db \<Rightarrow> state_error + unit \<times> db" where
  "archive_tx i project root now moved db =
     (case find (\<lambda>l. wl_lane_id l = i \<and> wl_status l = Lane_active) (db_lanes db) of
        None \<Rightarrow> Inl (unknown_lane ''unknown or inactive lane_id: '' i)
      | Some l \<Rightarrow>
          attempt (require_control_scope_clear db (root_scope (wl_worktree_path l))) (\<lambda>_.
          attempt (case wl_topic_id l of
              None \<Rightarrow> Inr None
            | Some t \<Rightarrow> attempt (archive_to l t project root db) (\<lambda>scope. Inr (Some (t, scope)))) (\<lambda>target.
          attempt (put_lanes (update_where (\<lambda>k. wl_lane_id k = i)
              (\<lambda>k. k\<lparr>wl_status := Lane_archived, wl_updated_at := now\<rparr>) (db_lanes db)) db) (\<lambda>db1.
          attempt (case target of None \<Rightarrow> Inr db1 | Some (t, scope) \<Rightarrow> put_scope t scope moved db1) (\<lambda>db2.
          Inr ((), db2))))))"

definition archive_lane ::
  "string \<Rightarrow> string option \<Rightarrow> string option \<Rightarrow> time \<Rightarrow> time \<Rightarrow> db \<Rightarrow> (state_error, db, unit) outcome" where
  "archive_lane i project root now moved = transact (archive_tx i project root now moved)"

definition require_cleanup :: "db \<Rightarrow> string \<Rightarrow> state_error + unit" where
  "require_cleanup db i =
     attempt (get_lane db i) (\<lambda>l.
     attempt (check (wl_status l = Lane_archived \<and> wl_cleaned_at l = None)
       (State_error ''lane must be archived and not already cleaned'')) (\<lambda>_.
     require_scope_idle db (root_scope (wl_worktree_path l)) False))"

definition require_lane_cleanup :: "string \<Rightarrow> db \<Rightarrow> (state_error, db, unit) outcome" where
  "require_lane_cleanup i = transact (\<lambda>db. attempt (require_cleanup db i) (\<lambda>_. Inr ((), db)))"

definition mark_cleaned_tx :: "string \<Rightarrow> time \<Rightarrow> time \<Rightarrow> db \<Rightarrow> state_error + nat \<times> db" where
  "mark_cleaned_tx i now then' db =
     (let hit = (\<lambda>l. wl_lane_id l = i \<and> wl_status l = Lane_archived \<and> wl_cleaned_at l = None) in
      attempt (require_cleanup db i) (\<lambda>_.
      Inr (count_where hit (db_lanes db), db\<lparr>db_lanes := update_where hit
        (\<lambda>l. l\<lparr>wl_cleaned_at := Some now, wl_updated_at := then'\<rparr>) (db_lanes db)\<rparr>)))"

definition mark_lane_cleaned :: "string \<Rightarrow> time \<Rightarrow> time \<Rightarrow> db \<Rightarrow> (state_error, db, unit) outcome" where
  "mark_lane_cleaned i now then' = commit_then (mark_cleaned_tx i now then')
     (\<lambda>n _. check (n = 1) (unknown_lane ''lane is unknown, active, or already cleaned: '' i))"

section \<open>Legacy scopes\<close>

definition needs_scope_reconciliation :: "db \<Rightarrow> bool" where
  "needs_scope_reconciliation db \<longleftrightarrow> exists_row (\<lambda>t. legacy_scope t \<or>
     exists_row (\<lambda>l. wl_topic_id l = Some (tp_topic_id t) \<and> wl_status l = Lane_active \<and>
       tp_execution_scope t \<noteq> Some (root_scope (wl_worktree_path l))) (db_lanes db)) (db_topics db)"

text \<open>The configured root of a project, when the same project is given twice the last one.\<close>

definition canonical_roots :: "(string \<Rightarrow> string) \<Rightarrow> (string \<times> string) list \<Rightarrow> state_error + (string \<times> string) list" where
  "canonical_roots resolve = collect (\<lambda>(project, root).
     attempt (bounded project ''project id'' 48) (\<lambda>p.
     attempt (bounded (resolve root) ''execution root'' 4096) (\<lambda>r. Inr (p, root_scope r))))"

definition root_evidence :: "db \<Rightarrow> int \<Rightarrow> string list" where
  "root_evidence db t = remdups
     (map og_canonical_root (filter (\<lambda>o'. exists_row (\<lambda>s. ss_session_id s = og_session_id o' \<and> ss_topic_id s = t)
        (db_sessions db)) (db_origins db)) @
      map cp_project_root (filter (\<lambda>c. exists_row (\<lambda>j. pj_job_id j = cp_job_id c \<and> pj_topic_id j = t)
        (db_jobs db)) (db_checkpoints db)) @
      map tc_project_root (filter (\<lambda>c. tc_topic_id c = t) (db_controls db)))"

definition legacy_active :: "db \<Rightarrow> int \<Rightarrow> bool" where
  "legacy_active db t \<longleftrightarrow>
     exists_row (\<lambda>s. ss_topic_id s = t \<and> retained s \<and> ss_writer_mode s \<noteq> Telegram_writer) (db_sessions db) \<or>
     exists_row (\<lambda>j. pj_topic_id j = t \<and> keeps_place db j) (db_jobs db) \<or>
     exists_row (\<lambda>d. td_topic_id d = t \<and> td_status d = Dispatch_running) (db_dispatches db)"

definition expected_scope :: "(string \<times> string) list \<Rightarrow> db \<Rightarrow> topic_row \<Rightarrow> state_error + string option" where
  "expected_scope roots db t =
     (case root_evidence db (tp_topic_id t) of
        [] \<Rightarrow> Inr (map_of (rev roots) (tp_project_id t))
      | [r] \<Rightarrow> attempt (bounded r ''execution root'' 4096) (\<lambda>p. Inr (Some (root_scope p)))
      | _ \<Rightarrow> Inl (State_error ''ambiguous legacy execution root evidence''))"

text \<open>One row of the join: a topic with its active lane, if any. The count is carried along.\<close>

definition reconcile_row ::
  "(string \<times> string) list \<Rightarrow> time \<Rightarrow> topic_row \<times> lane option \<Rightarrow> nat \<times> db \<Rightarrow> state_error + nat \<times> db" where
  "reconcile_row roots now row acc =
     (let (t, lane) = row; (n, db) = acc; current = stored_scope (''project:'' @ tp_project_id t) t in
      case lane of
        Some l \<Rightarrow> attempt (check (current = root_scope (wl_worktree_path l))
            (State_error ''active lane execution scope mismatch'')) (\<lambda>_. Inr acc)
      | None \<Rightarrow>
          if current \<noteq> ''project:'' @ tp_project_id t then Inr acc
          else attempt (expected_scope roots db t) (\<lambda>expected.
            case expected of
              None \<Rightarrow> attempt (check (\<not> legacy_active db (tp_topic_id t))
                  (State_error ''ambiguous legacy execution scope requires local resolution'')) (\<lambda>_. Inr acc)
            | Some scope \<Rightarrow>
                let hit = (\<lambda>x. tp_topic_id x = tp_topic_id t \<and> tp_execution_scope x = tp_execution_scope t)
                in attempt (put_topics hit (\<lambda>x. x\<lparr>tp_execution_scope := Some scope, tp_updated_at := now\<rparr>) db) (\<lambda>db1.
                  Inr (n + count_where hit (db_topics db), db1))))"

definition topic_lanes :: "db \<Rightarrow> (topic_row \<times> lane option) list" where
  "topic_lanes db = concat (map (\<lambda>t.
     case filter (\<lambda>l. wl_topic_id l = Some (tp_topic_id t) \<and> wl_status l = Lane_active) (db_lanes db) of
       [] \<Rightarrow> [(t, None)] | ls \<Rightarrow> map (\<lambda>l. (t, Some l)) ls) (db_topics db))"

definition reconcile_legacy_execution_scopes ::
  "(string \<Rightarrow> string) \<Rightarrow> (string \<times> string) list \<Rightarrow> time \<Rightarrow> db \<Rightarrow> (state_error, db, nat) outcome" where
  "reconcile_legacy_execution_scopes resolve project_roots now db =
     (case canonical_roots resolve project_roots of
        Inl e \<Rightarrow> (Inl e, db)
      | Inr roots \<Rightarrow>
          if \<not> needs_scope_reconciliation db then (Inr 0, db)
          else transact (\<lambda>db. attempt (each_row (reconcile_row roots now) (topic_lanes db) (0, db)) Inr) db)"

end
