(* ===== verification/Session_Adoption.thy ===== *)
theory Session_Adoption
  imports Topic_Lanes
begin

text \<open>
  The adoption of a Codex thread that was started outside the hub (\<open>session_adoption_state.py\<close>):
  \<open>preview\<close> decides whether a topic may take the thread, \<open>attach\<close> makes it the active session of the
  topic, with a local writer, until the first message after the return activates it. A path is its
  text; the identities of the request are integers, as their type in the source says.
\<close>

record adoption_request =
  ad_project_id :: string
  ad_chat_id :: int
  ad_thread_id :: int
  ad_provider_thread_id :: string
  ad_canonical_root :: string
  ad_model :: string
  ad_effort :: string
  ad_replaces_session_id :: "string option"
  ad_model_provider :: string
  ad_codex_permission_profile :: "string option"

record adoption_target =
  at_topic :: topic_record
  at_session :: "session_record option"
  at_already_attached :: bool

section \<open>The checks of a request\<close>

text \<open>\<open>validate_codex_thread_id\<close> of \<open>codex_appserver.py\<close>.\<close>

definition in_range :: "char \<Rightarrow> char \<Rightarrow> char \<Rightarrow> bool" where
  "in_range a z c \<longleftrightarrow> (of_char a :: nat) \<le> of_char c \<and> (of_char c :: nat) \<le> of_char z"

definition alphanumeric :: "char \<Rightarrow> bool" where
  "alphanumeric c \<longleftrightarrow> in_range CHR ''A'' CHR ''Z'' c \<or> in_range CHR ''a'' CHR ''z'' c \<or> in_range CHR ''0'' CHR ''9'' c"

definition validate_codex_thread_id :: "string \<Rightarrow> state_error + unit" where
  "validate_codex_thread_id v = check (case v of [] \<Rightarrow> False
     | c # cs \<Rightarrow> alphanumeric c \<and> length cs \<le> 127 \<and> list_all (\<lambda>x. alphanumeric x \<or> x \<in> set ''._:-'') cs)
     (Metadata_error ''invalid_thread_id'')"

definition valid_request_fields :: "adoption_request \<Rightarrow> state_error + unit" where
  "valid_request_fields q =
     attempt (validate_codex_thread_id (ad_provider_thread_id q)) (\<lambda>_.
     attempt (bounded (ad_project_id q) ''project_id'' 48) (\<lambda>_.
     attempt (bounded (ad_model q) ''model'' 200) (\<lambda>_.
     attempt (bounded (ad_effort q) ''effort'' 64) (\<lambda>_.
     attempt (bounded (ad_model_provider q) ''model_provider'' 64) (\<lambda>_.
     attempt (check (- (2 ^ 63) \<le> ad_chat_id q \<and> ad_chat_id q < 0 \<and> 0 < ad_thread_id q \<and> ad_thread_id q < 2 ^ 63)
       (State_error ''invalid_topic_identity'')) (\<lambda>_.
     check (absolute (ad_canonical_root q) \<and> length (ad_canonical_root q) \<le> 4096) (State_error ''invalid_root'')))))))"

text \<open>What keeps a topic from taking part in an adoption, in the order of the checks.\<close>

definition unresolved :: "db \<Rightarrow> provider_job \<Rightarrow> bool" where
  "unresolved db j \<longleftrightarrow> pj_status j = Indeterminate \<and>
     \<not> exists_row (\<lambda>r. rs_job_id r = pj_job_id j) (db_resolutions db)"

definition adoption_idle :: "db \<Rightarrow> int \<Rightarrow> state_error + unit" where
  "adoption_idle db t =
     (let of_topic = (\<lambda>i. exists_row (\<lambda>j. pj_job_id j = i \<and> pj_topic_id j = t) (db_jobs db)) in
      attempt (check (\<not> exists_row (\<lambda>d. td_topic_id d = t \<and> dispatched d) (db_dispatches db)) (State_error ''target_busy'')) (\<lambda>_.
      attempt (check (\<not> topic_has_pending db t) (State_error ''target_busy'')) (\<lambda>_.
      attempt (check (\<not> exists_row (\<lambda>j. pj_topic_id j = t \<and> unresolved db j) (db_jobs db)) (State_error ''unresolved_work'')) (\<lambda>_.
      attempt (check (\<not> exists_row (\<lambda>o'. of_topic (ob_job_id o') \<and> ob_status o' \<noteq> Ds_delivered \<and>
          \<not> final_control_reconciled db o') (db_outbox db)) (State_error ''pending_delivery'')) (\<lambda>_.
      attempt (check (\<not> exists_row (\<lambda>p. of_topic (pg_job_id p) \<and> pg_status p \<notin> {Ds_delivered, Ds_superseded} \<and>
          \<not> progress_control_reconciled db p) (db_progress db)) (State_error ''pending_delivery'')) (\<lambda>_.
      attempt (check (\<not> exists_row (\<lambda>s. st_topic_id s = t \<and> st_pending s) (db_stops db)) (State_error ''pending_stop'')) (\<lambda>_.
      check (\<not> exists_row (\<lambda>s. ss_topic_id s = t \<and> ss_status s \<noteq> Archived \<and> ss_writer_mode s \<noteq> Telegram_writer)
        (db_sessions db)) (State_error ''local_writer''))))))))"

section \<open>Preview\<close>

definition adopted_from :: "db \<Rightarrow> string \<Rightarrow> session_origin option" where
  "adopted_from db thread = find (\<lambda>o'. og_provider_thread_id o' = thread) (db_origins db)"

definition same_adoption :: "adoption_request \<Rightarrow> session_origin \<Rightarrow> session_record \<Rightarrow> bool" where
  "same_adoption q o' s \<longleftrightarrow> og_project_id o' = ad_project_id q \<and> og_canonical_root o' = ad_canonical_root q \<and>
     og_replaces_session_id o' = ad_replaces_session_id q \<and> sn_model s = ad_model q \<and> sn_effort s = ad_effort q \<and>
     sn_codex_permission_profile s = ad_codex_permission_profile q"

text \<open>Whether the active session may make room: \<open>Some s\<close> when it is the adopted thread already.\<close>

definition makes_room :: "adoption_request \<Rightarrow> session_record option \<Rightarrow> state_error + session_record option" where
  "makes_room q current =
     (case ad_replaces_session_id q of
        Some i \<Rightarrow> (case current of
            None \<Rightarrow> Inl (State_error ''target_changed'')
          | Some s \<Rightarrow> if sn_agent_id s \<noteq> ''codex'' \<or> sn_session_id s \<noteq> i then Inl (State_error ''target_changed'')
              else if sn_provider_session_id s = Some (ad_provider_thread_id q) then Inr (Some s) else Inr None)
      | None \<Rightarrow> (case current of
            None \<Rightarrow> Inr None
          | Some s \<Rightarrow> if sn_agent_id s \<noteq> ''codex'' \<or> sn_provider_session_id s \<noteq> None
              then Inl (State_error ''target_not_empty'') else Inr None))"

definition thread_known :: "db \<Rightarrow> string \<Rightarrow> bool" where
  "thread_known db thread \<longleftrightarrow>
     exists_row (\<lambda>s. ss_provider_session_id s = Some thread) (db_sessions db) \<or>
     exists_row (\<lambda>j. pj_provider_session_id j = Some thread) (db_jobs db) \<or>
     exists_row (\<lambda>c. cp_provider_thread_id c = thread) (db_checkpoints db) \<or>
     exists_row (\<lambda>r. jr_provider_session_id r = Some thread) (db_results db)"

definition topic_empty :: "db \<Rightarrow> int \<Rightarrow> bool" where
  "topic_empty db t \<longleftrightarrow>
     \<not> exists_row (\<lambda>x. tx_topic_id x = t) (db_excerpts db) \<and> \<not> exists_row (\<lambda>j. pj_topic_id j = t) (db_jobs db) \<and>
     \<not> exists_row (\<lambda>d. td_topic_id d = t) (db_dispatches db) \<and> \<not> exists_row (\<lambda>h. ph_topic_id h = t) (db_handoffs db) \<and>
     \<not> exists_row (\<lambda>s. ss_topic_id s = t \<and> (ss_status s \<noteq> Active \<or> ss_agent_id s \<noteq> ''codex'' \<or>
         ss_provider_session_id s \<noteq> None)) (db_sessions db)"

text \<open>The other topics that work, or once worked, in the same checkout.\<close>

definition shares_root :: "adoption_request \<Rightarrow> db \<Rightarrow> topic_row \<Rightarrow> bool" where
  "shares_root q db t \<longleftrightarrow>
     topic_scope t = root_scope (ad_canonical_root q) \<or> tp_project_id t = ad_project_id q \<or>
     exists_row (\<lambda>o'. og_canonical_root o' = ad_canonical_root q \<and>
       exists_row (\<lambda>s. ss_session_id s = og_session_id o' \<and> ss_topic_id s = tp_topic_id t) (db_sessions db)) (db_origins db) \<or>
     exists_row (\<lambda>c. cp_project_root c = ad_canonical_root q \<and>
       exists_row (\<lambda>j. pj_job_id j = cp_job_id c \<and> pj_topic_id j = tp_topic_id t) (db_jobs db)) (db_checkpoints db)"

text \<open>The part of \<open>preview\<close> for a thread the hub has not adopted.\<close>

definition preview_new :: "adoption_request \<Rightarrow> topic_row \<Rightarrow> session_record option \<Rightarrow> db \<Rightarrow> state_error + adoption_target" where
  "preview_new q t current db =
     attempt (makes_room q current) (\<lambda>there.
     case there of
       Some s \<Rightarrow> Inr \<lparr>at_topic = topic_record_of t, at_session = Some s, at_already_attached = True\<rparr>
     | None \<Rightarrow>
         attempt (check (\<not> thread_known db (ad_provider_thread_id q)) (State_error ''source_already_bound'')) (\<lambda>_.
         attempt (adoption_idle db (tp_topic_id t)) (\<lambda>_.
         attempt (check (ad_replaces_session_id q \<noteq> None \<or> topic_empty db (tp_topic_id t)) (State_error ''target_not_empty'')) (\<lambda>_.
         attempt (each_row (\<lambda>x d. attempt (adoption_idle d (tp_topic_id x)) (\<lambda>_. Inr d))
           (filter (\<lambda>x. tp_topic_id x \<noteq> tp_topic_id t \<and> shares_root q db x) (db_topics db)) db) (\<lambda>_.
         Inr \<lparr>at_topic = topic_record_of t, at_session = current, at_already_attached = False\<rparr>)))))"

definition target_topic :: "adoption_request \<Rightarrow> db \<Rightarrow> state_error + topic_row" where
  "target_topic q db =
     (let mismatch = Inl (State_error ''topic_mismatch'') in
      case find_row db (ad_chat_id q) (ad_thread_id q) of
        None \<Rightarrow> mismatch
      | Some t \<Rightarrow> if tp_project_id t \<noteq> ad_project_id q then mismatch else Inr t)"

definition preview :: "adoption_request \<Rightarrow> db \<Rightarrow> state_error + adoption_target" where
  "preview q db =
     attempt (valid_request_fields q) (\<lambda>_.
     attempt (target_topic q db) (\<lambda>t.
     attempt (require_control_scope_clear db (root_scope (ad_canonical_root q))) (\<lambda>_.
     attempt (check (\<not> (starts_with (topic_scope t) ''root:'' \<and> topic_scope t \<noteq> root_scope (ad_canonical_root q)))
       (State_error ''project_root_changed'')) (\<lambda>_.
     attempt (check (active_lane_for_topic db (tp_topic_id t) = None) (State_error ''lane_not_supported'')) (\<lambda>_.
     let current = active_session db (tp_topic_id t) in
     case adopted_from db (ad_provider_thread_id q) of
       Some o' \<Rightarrow>
         (case current of
            None \<Rightarrow> Inl (State_error ''binding_superseded'')
          | Some s \<Rightarrow>
              if sn_session_id s \<noteq> og_session_id o' then Inl (State_error ''binding_superseded'')
              else attempt (check (same_adoption q o' s) (State_error ''binding_conflict'')) (\<lambda>_.
                Inr \<lparr>at_topic = topic_record_of t, at_session = Some s, at_already_attached = True\<rparr>))
     | None \<Rightarrow> preview_new q t current db)))))"

section \<open>Attach\<close>

definition session_id_of :: "session_record option \<Rightarrow> string option" where
  "session_id_of s = map_option sn_session_id s"

definition new_origin :: "adoption_request \<Rightarrow> string \<Rightarrow> time \<Rightarrow> session_origin" where
  "new_origin q i now = \<lparr>og_session_id = i, og_provider_thread_id = ad_provider_thread_id q, og_project_id = ad_project_id q,
     og_canonical_root = ad_canonical_root q, og_model_provider = ad_model_provider q, og_created_at = now,
     og_replaces_session_id = ad_replaces_session_id q, og_activation_message_id = None, og_context_floor_turn_id = 0\<rparr>"

text \<open>The table takes one origin per session and thread (migration 25, as migration 30 left it).\<close>

definition put_origin :: "session_origin \<Rightarrow> db \<Rightarrow> state_error + db" where
  "put_origin o' db =
     (if 1 \<le> length (og_provider_thread_id o') \<and> length (og_provider_thread_id o') \<le> 128 \<and>
         1 \<le> length (og_model_provider o') \<and> length (og_model_provider o') \<le> 64 \<and>
         1 \<le> length (og_project_id o') \<and> length (og_project_id o') \<le> 48 \<and>
         1 \<le> length (og_canonical_root o') \<and> length (og_canonical_root o') \<le> 4096 \<and>
         \<not> exists_row (\<lambda>x. og_session_id x = og_session_id o' \<or> og_provider_thread_id x = og_provider_thread_id o') (db_origins db)
      then Inr (db\<lparr>db_origins := db_origins db @ [o']\<rparr>) else Inl (Integrity_error ''codex_session_origins''))"

definition take_thread :: "string \<Rightarrow> string \<Rightarrow> db \<Rightarrow> db" where
  "take_thread i thread db = db\<lparr>db_sessions := update_where (\<lambda>s. ss_session_id s = i)
     (\<lambda>s. s\<lparr>ss_provider_session_id := Some thread, ss_writer_mode := Local_writer\<rparr>) (db_sessions db)\<rparr>"

text \<open>The new session of the topic, from the row it replaces on.\<close>

definition adopt_session ::
  "adoption_request \<Rightarrow> string \<Rightarrow> state_error + string option \<Rightarrow> time \<Rightarrow> adoption_target \<Rightarrow> db \<Rightarrow> state_error + db" where
  "adopt_session q fresh profile now target db =
     (let t = tr_topic_id (at_topic target) in
      attempt (case at_session target of None \<Rightarrow> Inr db | Some s \<Rightarrow> set_status (sn_session_id s) Archived now db) (\<lambda>db1.
      attempt (insert_session fresh t ''codex'' (ad_model q) (ad_effort q) Active profile now db1) (\<lambda>db2.
      attempt (put_origin (new_origin q fresh now) (take_thread fresh (ad_provider_thread_id q) db2)) (\<lambda>db3.
      Inr (put_active_agent t ''codex'' now db3)))))"

definition attach_locked ::
  "adoption_request \<Rightarrow> string option \<Rightarrow> string \<Rightarrow> state_error + string option \<Rightarrow> time \<Rightarrow> time \<Rightarrow> db
   \<Rightarrow> state_error + adoption_target \<times> db" where
  "attach_locked q expected fresh profile moved now db =
     attempt profile (\<lambda>selected.
     attempt (check (ad_codex_permission_profile q = selected) (State_error ''binding_policy_changed'')) (\<lambda>_.
     let current = (case find_row db (ad_chat_id q) (ad_thread_id q) of
           None \<Rightarrow> None | Some t \<Rightarrow> active_session db (tp_topic_id t)) in
     attempt (check (session_id_of current = expected \<or> adopted_from db (ad_provider_thread_id q) \<noteq> None)
       (State_error ''target_changed'')) (\<lambda>_.
     attempt (preview q db) (\<lambda>target.
     let t = tr_topic_id (at_topic target) in
     attempt (put_scope t (root_scope (ad_canonical_root q)) moved db) (\<lambda>db1.
     if at_already_attached target then Inr (target, db1)
     else
       attempt (check (session_id_of (at_session target) = expected) (State_error ''target_changed'')) (\<lambda>_.
       attempt (adopt_session q fresh profile now target db1) (\<lambda>db2.
       attempt (get_topic db2 t) (\<lambda>topic.
       attempt (get_session db2 fresh) (\<lambda>s.
       Inr (\<lparr>at_topic = topic, at_session = Some s, at_already_attached = False\<rparr>, db2))))))))))"

definition attach ::
  "adoption_request \<Rightarrow> string option \<Rightarrow> string \<Rightarrow> state_error + string option \<Rightarrow> time \<Rightarrow> time \<Rightarrow> db
   \<Rightarrow> (state_error, db, adoption_target) outcome" where
  "attach q expected fresh profile moved now = transact (attach_locked q expected fresh profile moved now)"

text \<open>What of the forwarded context an adopted session may see.\<close>

definition forwarded_boundary :: "db \<Rightarrow> int \<Rightarrow> string \<Rightarrow> int \<times> int" where
  "forwarded_boundary db t agent =
     (case find (\<lambda>o'. exists_row (\<lambda>s. ss_session_id s = og_session_id o' \<and> ss_topic_id s = t \<and> ss_agent_id s = agent \<and>
             retained s) (db_sessions db)) (db_origins db) of
        None \<Rightarrow> (0, 0)
      | Some o' \<Rightarrow> (case og_activation_message_id o' of
          None \<Rightarrow> (2 ^ 63 - 1, 2 ^ 63 - 1) | Some m \<Rightarrow> (og_context_floor_turn_id o', m)))"

definition require_origin :: "db \<Rightarrow> string \<Rightarrow> state_error + session_origin" where
  "require_origin db i = (case origin_of db i of
     None \<Rightarrow> Inl (State_error ''Codex origin is missing'') | Some o' \<Rightarrow> Inr o')"

end
