(* ===== verification/Hub_Machine.thy ===== *)
theory Hub_Machine
  imports Session_Properties Stop_State Commit_Properties
begin

text \<open>
  The components that decide who works in an execution root, run together in any order: the queue
  and the commit of a result, the emergency stop, the holds with the owner's decisions, and the
  sessions with the change of the writer. At every moment an execution root has at most one owner:
  one turn, or one session that writes it from outside, and never both.
\<close>

section \<open>What holds of a hub\<close>

text \<open>The sessions that write their root from outside Telegram.\<close>

definition outside :: "db \<Rightarrow> (string \<times> int) set" where
  "outside db = {(ss_session_id s, ss_topic_id s) | s. s \<in> set (db_sessions db) \<and> retained s \<and> ss_writer_mode s \<noteq> Telegram_writer}"

definition roots_apart :: "time \<Rightarrow> db \<Rightarrow> bool" where
  "roots_apart now db \<longleftrightarrow>
     (\<forall>(i, t) \<in> outside db. scope_of db t \<noteq> None \<longrightarrow>
       (\<forall>j \<in> set (db_jobs db). occupies_root db now j \<longrightarrow> scope_of db (pj_topic_id j) \<noteq> scope_of db t)) \<and>
     (\<forall>(i, t) \<in> outside db. \<forall>(i', t') \<in> outside db. scope_of db t \<noteq> None \<longrightarrow> scope_of db t' = scope_of db t \<longrightarrow> i' = i)"

lemma roots_apartI:
  assumes "\<And>i t j. (i, t) \<in> outside db \<Longrightarrow> scope_of db t \<noteq> None \<Longrightarrow> j \<in> set (db_jobs db) \<Longrightarrow> occupies_root db now j \<Longrightarrow>
      scope_of db (pj_topic_id j) \<noteq> scope_of db t"
    and "\<And>i t i' t'. (i, t) \<in> outside db \<Longrightarrow> (i', t') \<in> outside db \<Longrightarrow> scope_of db t \<noteq> None \<Longrightarrow>
      scope_of db t' = scope_of db t \<Longrightarrow> i' = i"
  shows "roots_apart now db"
  unfolding roots_apart_def using assms by blast

lemma roots_apartD:
  assumes "roots_apart now db" "(i, t) \<in> outside db" "scope_of db t \<noteq> None"
  shows "j \<in> set (db_jobs db) \<Longrightarrow> occupies_root db now j \<Longrightarrow> scope_of db (pj_topic_id j) \<noteq> scope_of db t"
    and "(i', t') \<in> outside db \<Longrightarrow> scope_of db t' = scope_of db t \<Longrightarrow> i' = i"
  using assms unfolding roots_apart_def by blast+

text \<open>A job that waits for the owner's decision is not at work.\<close>

definition held_idle :: "time \<Rightarrow> db \<Rightarrow> bool" where
  "held_idle now db \<longleftrightarrow> (\<forall>j \<in> set (db_jobs db). running now j \<longrightarrow> \<not> pending_hold db (pj_job_id j))"

definition work_ok :: "time \<Rightarrow> db \<Rightarrow> bool" where
  "work_ok now db \<longleftrightarrow> queue_ok now db \<and> roots_apart now db \<and> held_idle now db"

definition hub_ok :: "time \<Rightarrow> db \<Rightarrow> bool" where
  "hub_ok now db \<longleftrightarrow> work_ok now db \<and> sessions_ok db"

lemma running_occupies: "running now j \<Longrightarrow> occupies_root db now j"
  by (auto simp: running_def occupies_root_def)

lemma running_later: "running t j \<Longrightarrow> now \<le> t \<Longrightarrow> running now j"
  by (auto simp: running_def after_def split: option.splits)

lemma work_ok_later: "work_ok now db \<Longrightarrow> now \<le> t \<Longrightarrow> work_ok t db"
proof -
  assume w: "work_ok now db" and t: "now \<le> t"
  then have r: "roots_apart now db" by (simp add: work_ok_def)
  have "roots_apart t db"
    by (rule roots_apartI) (use roots_apartD [OF r] occupies_later [OF _ t] in blast)+
  moreover have "held_idle t db" using w running_later [OF _ t] unfolding work_ok_def held_idle_def by blast
  moreover have "queue_ok t db" using w root_exclusive_later [OF _ t] unfolding work_ok_def queue_ok_def by blast
  ultimately show ?thesis by (simp add: work_ok_def)
qed

section \<open>Steps that admit no work\<close>

text \<open>
  Such a step moves the job rows quietly, keeps the root of every topic, only adds outcomes, holds
  nothing that runs, and lets no session write from outside that did not before.
\<close>

definition calm :: "time \<Rightarrow> db \<Rightarrow> db \<Rightarrow> bool" where
  "calm now db db' \<longleftrightarrow> list_all2 (quiet now) (db_jobs db) (db_jobs db') \<and> scope_of db' = scope_of db \<and>
     set (db_evidence db) \<subseteq> set (db_evidence db') \<and> set (db_resolutions db) \<subseteq> set (db_resolutions db') \<and>
     (\<forall>k \<in> set (db_jobs db'). running now k \<longrightarrow> pending_hold db' (pj_job_id k) \<longrightarrow> pending_hold db (pj_job_id k)) \<and>
     outside db' \<subseteq> outside db"

lemma calm_origin:
  assumes "calm now db db'" "k \<in> set (db_jobs db')"
  obtains j where "j \<in> set (db_jobs db)" "quiet now j k"
  using assms unfolding calm_def list_all2_conv_all_nth in_set_conv_nth by metis

lemma quiet_identity: "quiet now j k \<Longrightarrow> pj_job_id k = pj_job_id j \<and> pj_topic_id k = pj_topic_id j \<and> same_turn_identity j k"
  by (simp add: quiet_def moves_def same_identity_def same_turn_identity_def)

lemma calm_occupies:
  assumes "calm now db db'" "quiet now j k" "occupies_root db' now k"
  shows "occupies_root db now j"
proof (cases "running now k")
  case True
  then show ?thesis using assms(2) running_occupies by (simp add: quiet_def)
next
  case False
  then have u: "uncertain db' k" using assms(3) by (auto simp: occupies_root_def running_def)
  then have "pj_status j = Indeterminate \<or> running now j" using assms(2) by (simp add: uncertain_def quiet_def)
  moreover have "pj_status j = Indeterminate \<Longrightarrow> uncertain db j"
    using u assms(1) quiet_identity [OF assms(2)]
    by (auto simp: uncertain_def calm_def resolved_outcome_def terminal_outcome_def exists_row_iff)
  ultimately show ?thesis using running_occupies by (auto simp: occupies_root_def)
qed

lemma calm_refl [simp]: "calm now db db"
  by (simp add: calm_def list.rel_refl)

lemma calm_trans:
  assumes "calm now a b" "calm now b c"
  shows "calm now a c"
proof -
  have "list_all2 (quiet now) (db_jobs a) (db_jobs c)"
    using assms list_all2_trans3 [of "quiet now"] quiet_trans unfolding calm_def by metis
  moreover have "pending_hold a (pj_job_id k)"
    if k: "k \<in> set (db_jobs c)" "running now k" "pending_hold c (pj_job_id k)" for k
  proof -
    obtain j where j: "j \<in> set (db_jobs b)" "quiet now j k" by (rule calm_origin [OF assms(2) k(1)])
    have "pending_hold b (pj_job_id k)" using assms(2) k by (simp add: calm_def)
    moreover have "running now j" using j(2) k(2) by (simp add: quiet_def)
    ultimately show ?thesis using assms(1) j quiet_identity [OF j(2)] by (simp add: calm_def)
  qed
  ultimately show ?thesis using assms unfolding calm_def by auto
qed

lemma calm_work_ok:
  assumes "calm now db db'" "work_ok now db"
  shows "work_ok now db'"
proof -
  have jobs: "jobs_ok db" and ex: "root_exclusive now db" and apart: "roots_apart now db" and idle: "held_idle now db"
    using assms(2) by (simp_all add: work_ok_def queue_ok_def)
  have scope: "scope_of db' = scope_of db" and out: "outside db' \<subseteq> outside db" using assms(1) by (simp_all add: calm_def)
  have from_row: "\<exists>j \<in> set (db_jobs db). quiet now j k \<and> (occupies_root db' now k \<longrightarrow> occupies_root db now j)"
    if "k \<in> set (db_jobs db')" for k
    using calm_origin [OF assms(1) that] calm_occupies [OF assms(1)] by metis
  have m: "list_all2 moves (db_jobs db) (db_jobs db')"
    using assms(1) list_all2_mono [of "quiet now"] quiet_moves unfolding calm_def by blast
  then have "map pj_job_id (db_jobs db') = map pj_job_id (db_jobs db)"
    by (induction rule: list_all2_induct) (auto simp: moves_def same_identity_def)
  then have "jobs_ok db'" using jobs moves_all_ok [OF m] unfolding jobs_ok_def by simp
  moreover have "root_exclusive now db'"
    unfolding root_exclusive_def scope
  proof (intro ballI impI)
    fix j k assume a: "j \<in> set (db_jobs db')" "k \<in> set (db_jobs db')" "occupies_root db' now j" "occupies_root db' now k"
      "scope_of db (pj_topic_id j) \<noteq> None" "scope_of db (pj_topic_id j) = scope_of db (pj_topic_id k)"
    obtain x y where x: "x \<in> set (db_jobs db)" "quiet now x j" "occupies_root db now x"
      and y: "y \<in> set (db_jobs db)" "quiet now y k" "occupies_root db now y"
      using from_row [OF a(1)] from_row [OF a(2)] a(3,4) by blast
    note i = quiet_identity [OF x(2)] and i' = quiet_identity [OF y(2)]
    have "scope_of db (pj_topic_id x) \<noteq> None" "scope_of db (pj_topic_id x) = scope_of db (pj_topic_id y)"
      using a(5,6) i i' by simp_all
    then have "same_turn_identity x y" using ex x(1,3) y(1,3) unfolding root_exclusive_def by blast
    then show "same_turn_identity j k" using i i' same_turn_sym same_turn_trans by blast
  qed
  moreover have "roots_apart now db'"
  proof (rule roots_apartI; unfold scope)
    fix i t assume o: "(i, t) \<in> outside db'" and s: "scope_of db t \<noteq> None"
    have o0: "(i, t) \<in> outside db" using o out by blast
    show "scope_of db (pj_topic_id k) \<noteq> scope_of db t" if k: "k \<in> set (db_jobs db')" "occupies_root db' now k" for k
    proof -
      obtain j where j: "j \<in> set (db_jobs db)" "quiet now j k" "occupies_root db now j" using from_row [OF k(1)] k(2) by blast
      show ?thesis using roots_apartD(1) [OF apart o0 s j(1,3)] quiet_identity [OF j(2)] by simp
    qed
    show "i' = i" if "(i', t') \<in> outside db'" "scope_of db t' = scope_of db t" for i' t'
      by (rule roots_apartD(2) [OF apart o0 s subsetD [OF out that(1)] that(2)])
  qed
  moreover have "held_idle now db'"
    unfolding held_idle_def
  proof (intro ballI impI notI)
    fix k assume k: "k \<in> set (db_jobs db')" "running now k" "pending_hold db' (pj_job_id k)"
    obtain j where j: "j \<in> set (db_jobs db)" "quiet now j k" by (rule calm_origin [OF assms(1) k(1)])
    have "pending_hold db (pj_job_id k)" using assms(1) k unfolding calm_def by blast
    then have "pending_hold db (pj_job_id j)" "running now j"
      using k(2) j(2) quiet_identity [OF j(2)] by (simp_all add: quiet_def)
    then show False using idle j(1) by (simp add: held_idle_def)
  qed
  ultimately show ?thesis by (simp add: work_ok_def queue_ok_def)
qed


section \<open>The queue\<close>

lemma outside_views: "session_views db' = session_views db \<Longrightarrow> outside db' = outside db"
proof -
  assume e: "session_views db' = session_views db"
  have o: "outside d = {(i, t). \<exists>v \<in> set (session_views d). case v of (i', t', a, g, st, m) \<Rightarrow>
      i' = i \<and> t' = t \<and> st \<in> {Active, Satellite} \<and> m \<noteq> Telegram_writer}" for d
    unfolding outside_def session_view_def retained_def by auto
  show ?thesis unfolding o e ..
qed

lemma quiet_calm: "quiet_step now db db' \<Longrightarrow> calm now db db'"
  using scope_of_cong [of db' db] outside_views [of db' db]
  by (auto simp: quiet_step_def calm_def pending_hold_def)

lemma admits_apart:
  assumes "admits now db db'" "work_ok now db" "queue_ok now db'"
  shows "work_ok now db'"
proof -
  obtain c f where a: "admission db db' c f" "moves c (f c)" "entitled db c" using assms(1) unfolding admits_def by blast
  have ok: "jobs_ok db" and apart: "roots_apart now db" and idle: "held_idle now db"
    using assms(2) by (simp_all add: work_ok_def queue_ok_def)
  note rows = admission_rows [OF a(1) ok]
  have same: "db_topics db' = db_topics db" "session_views db' = session_views db" "db_holds db' = db_holds db"
    "db_evidence db' = db_evidence db" "db_resolutions db' = db_resolutions db"
    using a(1) unfolding admission_def by blast+
  have scope: "scope_of db' = scope_of db" using same(1) by (rule scope_of_cong)
  have occ: "occupies_root db' now x = occupies_root db now x" and held: "pending_hold db' i = pending_hold db i" for x i
    by (simp_all only: occupies_root_def uncertain_def resolved_outcome_def terminal_outcome_def pending_hold_def same)
  have fc: "pj_topic_id (f c) = pj_topic_id c" "pj_job_id (f c) = pj_job_id c"
    using a(2) by (simp_all add: moves_def same_identity_def)
  have free: "scope_of db (pj_topic_id c) \<noteq> scope_of db t" if o: "(i, t) \<in> outside db" "scope_of db t \<noteq> None" for i t
  proof
    assume e: "scope_of db (pj_topic_id c) = scope_of db t"
    obtain s where s: "s \<in> set (db_sessions db)" "retained s" "ss_writer_mode s \<noteq> Telegram_writer" "ss_topic_id s = t"
      using o(1) by (auto simp: outside_def)
    obtain u where u: "topic_of db (pj_topic_id c) = Some u" "scope_of db (ss_topic_id s) = Some (topic_scope u)"
      using e o(2) s(4) by (auto simp: scope_of_def)
    have "external_writer db (topic_scope u) s"
      using s u by (cases "ss_writer_mode s") (auto simp: external_writer_def retained_def in_scope_def)
    then have "\<exists>p \<in> set (db_jobs db). pj_status p = Executing \<and> pj_topic_id p = pj_topic_id c"
      using a(3) u(1) s(1) by (auto simp: entitled_def exists_row_iff)
    then obtain p where "p \<in> set (db_jobs db)" "occupies_root db now p" "pj_topic_id p = pj_topic_id c"
      by (auto simp: occupies_root_def)
    then show False using roots_apartD(1) [OF apart o] e by metis
  qed
  have "roots_apart now db'"
  proof (rule roots_apartI; unfold scope outside_views [OF same(2)] occ)
    fix i t j assume o: "(i, t) \<in> outside db" "scope_of db t \<noteq> None" and j: "j \<in> set (db_jobs db')" "occupies_root db now j"
    then consider "j \<in> set (db_jobs db)" | "j = f c" using rows by (auto split: if_splits)
    then show "scope_of db (pj_topic_id j) \<noteq> scope_of db t"
      by cases (use roots_apartD(1) [OF apart o _ j(2)] free [OF o] fc in simp_all)
  qed (rule roots_apartD(2) [OF apart])
  moreover have "held_idle now db'"
    unfolding held_idle_def held using idle a(3) fc rows by (auto simp: held_idle_def entitled_def)
  ultimately show ?thesis using assms(3) by (simp add: work_ok_def)
qed

lemma job_op_work_ok:
  assumes "run_job_op dg op db = (r, db')" "work_ok now db" "now \<le> op_time op"
  shows "work_ok (op_time op) db'"
proof -
  have w: "work_ok (op_time op) db" using work_ok_later [OF assms(2,3)] .
  have q: "queue_ok (op_time op) db'" using queue_ok_step [OF assms(1) _ assms(3)] assms(2) by (simp add: work_ok_def)
  have "quiet_step (op_time op) db db' \<or> admits (op_time op) db db'"
    using job_op_effect [OF assms(1)] w by (simp add: work_ok_def queue_ok_def)
  then show ?thesis using calm_work_ok [OF quiet_calm w] admits_apart [OF _ w q] by blast
qed

text \<open>The session table is only read by the queue.\<close>

lemma job_op_views:
  assumes "run_job_op dg op db = (r, db')" "jobs_ok db"
  shows "session_views db' = session_views db \<and> db_topics db' = db_topics db"
  using job_op_effect [OF assms] unfolding quiet_step_def admits_def admission_def by blast

lemma sessions_ok_views:
  assumes "sessions_ok db" "session_views db' = session_views db" "db_topics db' = db_topics db"
  shows "sessions_ok db'"
proof -
  have v: "kept_once rows \<longleftrightarrow> distinct (map (\<lambda>(i, t, a, g, st, m). i) (map session_view rows)) \<and>
     distinct (map (\<lambda>(i, t, a, g, st, m). (t, a, g)) (map session_view rows)) \<and>
     distinct (map (\<lambda>(i, t, a, g, st, m). (t, a)) (filter (\<lambda>(i, t, a, g, st, m). st \<in> {Active, Satellite}) (map session_view rows)))"
    for rows
  proof -
    have i: "map (\<lambda>(i, t, a, g, st, m). i) (map session_view rows) = map ss_session_id rows"
      "map (\<lambda>(i, t, a, g, st, m). (t, a, g)) (map session_view rows) = map (\<lambda>s. (ss_topic_id s, ss_agent_id s, ss_generation s)) rows"
      by (simp_all add: session_view_def)
    have f: "map (\<lambda>(i, t, a, g, st, m). (t, a)) (filter (\<lambda>(i, t, a, g, st, m). st \<in> {Active, Satellite}) (map session_view rows)) =
      map (\<lambda>s. (ss_topic_id s, ss_agent_id s)) (filter retained rows)"
      by (induction rows) (auto simp: session_view_def retained_def)
    show ?thesis unfolding i f kept_once_def by (auto simp: distinct_map)
  qed
  have a: "active_agents d \<longleftrightarrow> (\<forall>v \<in> set (session_views d). case v of (i, t, a, g, st, m) \<Rightarrow>
      st = Active \<longrightarrow> map_option tp_active_agent_id (topic_of d t) = Some (Some a))" for d
    by (auto simp: active_agents_def session_view_def)
  have t: "topic_of db' = topic_of db" by (simp add: topic_of_def assms(3) fun_eq_iff)
  show ?thesis using assms(1) unfolding sessions_ok_def v a assms(2) t .
qed


section \<open>Holds\<close>

text \<open>Every new hold is on a job that waits.\<close>

definition holds_waiting :: "db \<Rightarrow> db \<Rightarrow> bool" where
  "holds_waiting db db' \<longleftrightarrow> holds_grow db db' \<and> (\<forall>h \<in> set (db_holds db'). h \<in> set (db_holds db) \<or>
     (\<exists>j \<in> set (db_jobs db). pj_job_id j = hd_job_id h \<and> pj_status j \<in> {Queued, Retry_wait}))"

lemma holds_waiting_trans: "holds_waiting a b \<Longrightarrow> holds_waiting b c \<Longrightarrow> holds_waiting a c"
proof -
  assume a: "holds_waiting a b" and b: "holds_waiting b c"
  have g: "holds_grow a b" "holds_grow b c" using a b by (simp_all add: holds_waiting_def)
  show ?thesis
    using a b holds_grow_trans [OF g] unfolding holds_waiting_def holds_grow_sel(1) [OF g(1)] by blast
qed

lemma holds_waiting_refl [simp]: "holds_waiting db db"
  by (simp add: holds_waiting_def)

lemma outside_sessions: "db_sessions db' = db_sessions db \<Longrightarrow> outside db' = outside db"
  by (simp add: outside_def)

lemma holds_waiting_calm:
  assumes "holds_waiting db db'" "jobs_ok db"
  shows "calm now db db'"
proof -
  have g: "holds_grow db db'" using assms(1) by (simp add: holds_waiting_def)
  note s = holds_grow_sel [OF g]
  have "pending_hold db (pj_job_id k)" if k: "k \<in> set (db_jobs db)" "running now k" "pending_hold db' (pj_job_id k)" for k
  proof -
    obtain h where h: "h \<in> set (db_holds db')" "hd_job_id h = pj_job_id k" "hd_decision h = Hold_pending"
      using k(3) by (auto simp: pending_hold_def exists_row_iff)
    consider "h \<in> set (db_holds db)" | j where "j \<in> set (db_jobs db)" "pj_job_id j = hd_job_id h" "pj_status j \<in> {Queued, Retry_wait}"
      using assms(1) h(1) unfolding holds_waiting_def by blast
    then show ?thesis
    proof cases
      case 1
      then show ?thesis using h by (auto simp: pending_hold_def exists_row_iff)
    next
      case (2 j)
      then have "j = k" using distinct_key_eq [of pj_job_id "db_jobs db" j k] assms(2) h(2) k(1) by (simp add: jobs_ok_def)
      then show ?thesis using 2(3) k(2) by (auto simp: running_def)
    qed
  qed
  then show ?thesis
    using scope_of_cong [OF s(2)] outside_sessions [OF s(3)] by (simp add: calm_def s list.rel_refl)
qed

lemma hold_job_waiting:
  assumes "hold_job w ids now j thread b db = Inr db'" "j \<in> set (db_jobs db)" "pj_status j \<in> {Queued, Retry_wait}"
  shows "holds_waiting db db'"
  using hold_job_Inr [OF assms(1)] assms(2,3) unfolding holds_waiting_def by (auto simp: new_hold_def)

lemma each_hold_waiting:
  assumes "each_row (\<lambda>j db. hold_job w ids now j (thread_of db j) b db) js db = Inr db'"
    "\<And>j. j \<in> set js \<Longrightarrow> j \<in> set (db_jobs db) \<and> pj_status j \<in> {Queued, Retry_wait}"
  shows "holds_waiting db db'"
proof (rule each_row_invariant [OF assms(1), where P = "holds_waiting db"])
  fix x a c assume x: "x \<in> set js" "hold_job w ids now x (thread_of a x) b a = Inr c" "holds_waiting db a"
  have "db_jobs a = db_jobs db" using x(3) holds_grow_sel(1) by (simp add: holds_waiting_def)
  then show "holds_waiting db c"
    using hold_job_waiting [OF x(2)] assms(2) [OF x(1)] holds_waiting_trans [OF x(3)] by simp
qed simp

lemma hold_scope_waiting:
  assumes "hold_scope_before_return w ids now t db = Inr db'"
  shows "holds_waiting db db'"
proof -
  let ?rows = "case topic_of db t of None \<Rightarrow> []
    | Some owner \<Rightarrow> filter (\<lambda>j. waits_unheld db j \<and> in_scope db (topic_scope owner) (pj_topic_id j)) (db_jobs db)"
  have w: "j \<in> set (db_jobs db) \<and> pj_status j \<in> {Queued, Retry_wait}" if "j \<in> set ?rows" for j
    using that by (auto simp: waits_unheld_def split: option.splits)
  show ?thesis
  proof (cases "persistent_root_blocker db t")
    case None
    then show ?thesis using assms by (simp add: hold_scope_before_return_def)
  next
    case (Some b)
    then have r: "each_row (\<lambda>j db. hold_job w ids now j (thread_of db j) b db) ?rows db = Inr db'"
      using assms by (simp add: hold_scope_before_return_def)
    show ?thesis by (rule each_hold_waiting [OF r w])
  qed
qed

lemma hold_blocked_waiting:
  "hold_blocked w ids now js n db = Inr (m, db') \<Longrightarrow>
   (\<And>j. j \<in> set js \<Longrightarrow> j \<in> set (db_jobs db) \<and> pj_status j \<in> {Queued, Retry_wait}) \<Longrightarrow> holds_waiting db db'"
proof (induction js arbitrary: n db)
  case (Cons j js)
  show ?case
  proof (cases "persistent_root_blocker db (pj_topic_id j)")
    case None
    then show ?thesis using Cons by simp
  next
    case (Some b)
    then obtain d where d: "hold_job w ids now j (thread_of db j) b db = Inr d" "hold_blocked w ids now js (n + 1) d = Inr (m, db')"
      using Cons.prems by (auto simp: attempt_Inr)
    have h: "holds_waiting db d" using hold_job_waiting [OF d(1)] Cons.prems(2) by simp
    then have "db_jobs d = db_jobs db" using holds_grow_sel(1) by (simp add: holds_waiting_def)
    then have "holds_waiting d db'" using Cons.IH [OF d(2)] Cons.prems(2) by simp
    then show ?thesis using holds_waiting_trans [OF h] by blast
  qed
qed simp

lemma unnoticed_waits: "(j, u, cause) \<in> set (unnoticed_holds db) \<Longrightarrow> j \<in> set (db_jobs db) \<and> pj_status j \<in> {Queued, Retry_wait}"
  by (auto simp: unnoticed_holds_def split: option.splits if_splits)

lemma materialize_waiting:
  assumes "materialize_held_jobs w ids now db = (r, db')"
  shows "holds_waiting db db'"
  using assms unfolding materialize_held_jobs_def
proof (cases rule: transact_cases)
  case (committed n)
  obtain m d where d: "hold_blocked w ids now (sort_key (\<lambda>j. (pj_created_at j, pj_topic_id j, pj_topic_sequence j))
        (filter (waits_unheld db) (db_jobs db))) 0 db = Inr (m, d)"
      "each_row (hold_older w ids now) (unnoticed_holds d) d = Inr db'"
    using committed by (auto simp: attempt_Inr Let_def)
  have h: "holds_waiting db d" by (rule hold_blocked_waiting [OF d(1)]) (auto simp: waits_unheld_def)
  have "holds_waiting d db'"
  proof (rule each_row_invariant [OF d(2), where P = "holds_waiting d"])
    fix x a c assume x: "x \<in> set (unnoticed_holds d)" "hold_older w ids now x a = Inr c" "holds_waiting d a"
    obtain j u cause where p: "x = (j, u, cause)" by (cases x) auto
    have "db_jobs a = db_jobs d" using x(3) holds_grow_sel(1) by (simp add: holds_waiting_def)
    then show "holds_waiting d c"
      using x hold_job_waiting unnoticed_waits holds_waiting_trans by (fastforce simp: p hold_older_def)
  qed simp
  then show ?thesis using holds_waiting_trans [OF h] by blast
qed simp

text \<open>The decision on a held job, and the notices.\<close>

lemma decide_calm:
  assumes "decide_held_job i confirm chat thread message now db = (r, db')" "jobs_ok db"
  shows "calm now db db'"
  using assms(1) unfolding decide_held_job_def
proof (cases rule: transact_cases)
  case (committed x)
  show ?thesis
  proof (cases "db' = db")
    case False
    then obtain j h where p: "pressed_hold db i chat thread message = Some (j, h)" "pj_status j \<in> {Queued, Retry_wait}"
      using committed(1) by (auto simp: decide_held_tx_def Let_def attempt_Inr split: option.splits if_splits)
    let ?d = "if confirm then Hold_confirmed else Hold_cancelled"
    let ?db1 = "db\<lparr>db_holds := update_where (\<lambda>h. hd_job_id h = i) (\<lambda>h. h\<lparr>hd_decision := ?d, hd_decided_at := Some now\<rparr>) (db_holds db)\<rparr>"
    let ?db2 = "complete_finished_stops (pj_topic_id j) now (update_jobs (\<lambda>j. pj_job_id j = i) (decide_job now) ?db1)"
    have d: "db' = (if confirm then ?db1 else ?db2)"
      using committed(1) p False by (auto simp: decide_held_tx_def Let_def attempt_Inr split: option.splits if_splits)
    have "pending_hold ?db1 k \<Longrightarrow> pending_hold db k" for k
      by (auto simp: pending_hold_def exists_row_iff set_update_where split: if_splits)
    then have c1: "calm now db ?db1"
      using outside_sessions [of ?db1 db] scope_of_cong [of ?db1 db] by (simp add: calm_def list.rel_refl)
    have j: "j \<in> set (db_jobs db)" "pj_job_id j = i" using pressed_hold_Some [OF p(1)] job_of_Some by blast+
    have "quiet now k (decide_job now k)" if "pj_job_id k = i" "k \<in> set (db_jobs db)" for k
    proof -
      have "k = j" using distinct_key_eq [of pj_job_id "db_jobs db" k j] assms(2) that j by (simp add: jobs_ok_def)
      then show ?thesis using p(2) by (auto simp: row_defs decide_job_def)
    qed
    then have "quiet_step now ?db1 (update_jobs (\<lambda>j. pj_job_id j = i) (decide_job now) ?db1)"
      by (simp add: quiet_step_def update_jobs_def quiet_update_where list.rel_refl)
    then have "calm now ?db1 ?db2"
      by (rule calm_trans [OF quiet_calm quiet_calm [OF quiet_complete_finished]])
    then have "calm now db ?db2" by (rule calm_trans [OF c1])
    then show ?thesis using c1 d by (simp split: if_split_asm)
  qed simp
qed simp


section \<open>Sessions\<close>

text \<open>A step on the sessions that gives no further session the root.\<close>

definition session_step :: "db \<Rightarrow> db \<Rightarrow> bool" where
  "session_step db db' \<longleftrightarrow> db_jobs db' = db_jobs db \<and> db_holds db' = db_holds db \<and> db_evidence db' = db_evidence db \<and>
     db_resolutions db' = db_resolutions db \<and> scope_of db' = scope_of db \<and> outside db' \<subseteq> outside db"

lemma session_step_calm: "session_step db db' \<Longrightarrow> calm now db db'"
  by (simp add: session_step_def calm_def pending_hold_def list.rel_refl)

lemma session_step_refl [simp]: "session_step db db"
  by (simp add: session_step_def)

lemma session_step_trans: "session_step a b \<Longrightarrow> session_step b c \<Longrightarrow> session_step a c"
  by (auto simp: session_step_def)

lemma session_step_rows:
  assumes "\<And>x. x \<in> set rows \<Longrightarrow> retained x \<Longrightarrow> ss_writer_mode x \<noteq> Telegram_writer \<Longrightarrow>
      \<exists>s \<in> set (db_sessions db). ss_session_id s = ss_session_id x \<and> ss_topic_id s = ss_topic_id x \<and> retained s \<and>
        ss_writer_mode s \<noteq> Telegram_writer"
  shows "session_step db (db\<lparr>db_sessions := rows\<rparr>)"
proof -
  have "outside (db\<lparr>db_sessions := rows\<rparr>) \<subseteq> outside db"
  proof
    fix p assume "p \<in> outside (db\<lparr>db_sessions := rows\<rparr>)"
    then obtain x where x: "x \<in> set rows" "retained x" "ss_writer_mode x \<noteq> Telegram_writer"
      "p = (ss_session_id x, ss_topic_id x)" by (auto simp: outside_def)
    obtain s where "s \<in> set (db_sessions db)" "ss_session_id s = ss_session_id x" "ss_topic_id s = ss_topic_id x" "retained s"
      "ss_writer_mode s \<noteq> Telegram_writer" using assms [OF x(1-3)] by blast
    then show "p \<in> outside db" unfolding outside_def x(4) mem_Collect_eq by (intro exI [of _ s]) simp
  qed
  then show ?thesis using scope_of_cong [of "db\<lparr>db_sessions := rows\<rparr>" db] by (simp add: session_step_def)
qed

lemma session_step_update:
  assumes "\<And>s. ss_session_id (f s) = ss_session_id s \<and> ss_topic_id (f s) = ss_topic_id s \<and> ss_status (f s) = ss_status s \<and>
      ss_writer_mode (f s) = ss_writer_mode s"
  shows "session_step db (db\<lparr>db_sessions := update_where p f (db_sessions db)\<rparr>)"
  using assms by (intro session_step_rows) (auto simp: set_update_where retained_def split: if_splits)

lemma set_status_step:
  assumes "set_status i st now db = Inr db'" "distinct (map ss_session_id (db_sessions db))"
    "st = Archived \<or> (\<exists>s \<in> set (db_sessions db). ss_session_id s = i \<and> retained s)"
  shows "session_step db db'"
proof -
  have d: "db' = db\<lparr>db_sessions := status_rows i st now (db_sessions db)\<rparr>"
    using assms(1) by (simp add: set_status_def put_sessions_Inr status_rows_def)
  show ?thesis unfolding d
  proof (rule session_step_rows)
    fix x assume x: "x \<in> set (status_rows i st now (db_sessions db))" "retained x" "ss_writer_mode x \<noteq> Telegram_writer"
    obtain s where s: "s \<in> set (db_sessions db)"
      "x = (if ss_session_id s = i then s\<lparr>ss_status := st, ss_updated_at := now\<rparr> else s)"
      using x(1) unfolding status_rows_def set_update_where by blast
    have "retained s"
    proof (cases "ss_session_id s = i")
      case True
      then have "st \<noteq> Archived" using x(2) s(2) by (auto simp: retained_def)
      then obtain r where r: "r \<in> set (db_sessions db)" "ss_session_id r = i" "retained r" using assms(3) by blast
      then show ?thesis using distinct_key_eq [OF assms(2) s(1) r(1)] True by simp
    qed (use x(2) s(2) in simp)
    then show "\<exists>s \<in> set (db_sessions db). ss_session_id s = ss_session_id x \<and> ss_topic_id s = ss_topic_id x \<and> retained s \<and>
        ss_writer_mode s \<noteq> Telegram_writer"
      using s x(3) by (intro bexI [of _ s]) (auto split: if_splits)
  qed
qed

lemma insert_session_step: "insert_session fresh t agent model effort st pr now db = Inr db' \<Longrightarrow> session_step db db'"
  unfolding insert_session_def attempt_Inr put_sessions_Inr
  by (elim exE conjE, hypsubst, rule session_step_rows) (auto simp: new_session_def)

lemma put_agent_step: "session_step db (put_active_agent t agent now db)"
proof -
  have "topic_of (put_active_agent t agent now db) u =
      map_option (\<lambda>r. if tp_topic_id r = t then r\<lparr>tp_active_agent_id := Some agent, tp_updated_at := now\<rparr> else r) (topic_of db u)" for u
    unfolding topic_of_def put_active_agent_def by (simp add: find_update_where)
  then have "scope_of (put_active_agent t agent now db) = scope_of db"
    by (auto simp: fun_eq_iff scope_of_def topic_scope_def option.map_comp comp_def intro!: option.map_cong split: option.split)
  then show ?thesis by (simp add: session_step_def put_active_agent_def outside_def)
qed

lemma ids_kept: "set_status i st now db = Inr db' \<Longrightarrow> map ss_session_id (db_sessions db') = map ss_session_id (db_sessions db)"
  by (auto simp: set_status_def put_sessions_Inr intro!: map_update_where)

lemma raise_step:
  assumes "raise_session fresh t agent model effort c pr now target db = Inr (i, db')" "distinct (map ss_session_id (db_sessions db))"
    "\<And>s. target = Some s \<Longrightarrow> \<exists>r \<in> set (db_sessions db). ss_session_id r = ss_session_id s \<and> retained r"
  shows "session_step db db'"
proof (cases target)
  case None
  then show ?thesis using assms(1) insert_session_step by (auto simp: raise_session_def attempt_Inr)
next
  case (Some s)
  then have "set_status (ss_session_id s) Active now db = Inr db'" using assms(1) by (auto simp: raise_session_def attempt_Inr)
  from set_status_step [OF this assms(2)] show ?thesis using assms(3) [OF Some] by blast
qed

lemma activate_step:
  assumes "activate_tx fresh t agent model effort ex c pr now db = Inr (i, db')" "distinct (map ss_session_id (db_sessions db))"
  shows "session_step db db'"
proof -
  let ?raise = "raise_session fresh t agent model effort c pr now (satellite_row db t agent)"
  obtain d where d: "db' = put_active_agent t agent now d" and r: "db = d \<or> ?raise db = Inr (i, d) \<or>
      (\<exists>cur db1. active_row db t = Some cur \<and> ss_agent_id cur \<noteq> agent \<and>
         set_status (ss_session_id cur) Satellite now db = Inr db1 \<and> ?raise db1 = Inr (i, d))"
    using assms(1) unfolding activate_tx_def by (auto simp: attempt_Inr split: option.splits if_splits)
  have sat: "\<exists>r \<in> set (db_sessions db). ss_session_id r = ss_session_id s \<and> retained r" if "satellite_row db t agent = Some s" for s
    using satellite_row_Some [OF that] by (auto simp: retained_def)
  have "session_step db d"
    using r
  proof (elim disjE exE conjE)
    assume "?raise db = Inr (i, d)"
    then show ?thesis by (rule raise_step [OF _ assms(2) sat])
  next
    fix cur db1
    assume cur: "active_row db t = Some cur" "ss_agent_id cur \<noteq> agent"
      and s: "set_status (ss_session_id cur) Satellite now db = Inr db1" and q: "?raise db1 = Inr (i, d)"
    have a: "session_step db db1"
      by (rule set_status_step [OF s assms(2)]) (use active_row_Some [OF cur(1)] in \<open>auto simp: retained_def\<close>)
    have k: "distinct (map ss_session_id (db_sessions db1))" using ids_kept [OF s] assms(2) by simp
    have "\<exists>r \<in> set (db_sessions db1). ss_session_id r = ss_session_id x \<and> retained r" if "satellite_row db t agent = Some x" for x
    proof -
      note x = satellite_row_Some [OF that]
      have "db_sessions db1 = status_rows (ss_session_id cur) Satellite now (db_sessions db)"
        using s by (auto simp: set_status_def put_sessions_Inr status_rows_def)
      then show ?thesis using x
        by (intro bexI [of _ "if ss_session_id x = ss_session_id cur then x\<lparr>ss_status := Satellite, ss_updated_at := now\<rparr> else x"])
          (auto simp: status_rows_def set_update_where retained_def)
    qed
    then have "session_step db1 d" by (rule raise_step [OF q k])
    then show ?thesis by (rule session_step_trans [OF a])
  qed simp
  then show ?thesis unfolding d by (rule session_step_trans [OF _ put_agent_step])
qed

lemma replace_with_step: "replace_with fresh s model effort pr now db = Inr (i, db') \<Longrightarrow>
    distinct (map ss_session_id (db_sessions db)) \<Longrightarrow> session_step db db'"
proof -
  assume r: "replace_with fresh s model effort pr now db = Inr (i, db')" and d: "distinct (map ss_session_id (db_sessions db))"
  obtain db1 where s: "set_status (ss_session_id s) Archived now db = Inr db1"
    and n: "insert_session fresh (ss_topic_id s) (ss_agent_id s) model effort Active pr now db1 = Inr db'"
    using r by (auto simp: replace_with_def attempt_Inr)
  show ?thesis by (rule session_step_trans [OF set_status_step [OF s d] insert_session_step [OF n]]) simp
qed

text \<open>A session leaves Telegram only when its root is free.\<close>

lemma put_writer_step:
  assumes "session_of db i = Some s" "m = Telegram_writer \<or> ss_writer_mode s \<noteq> Telegram_writer"
    "distinct (map ss_session_id (db_sessions db))"
  shows "session_step db (put_writer i m now db)"
  unfolding put_writer_def
proof (rule session_step_rows)
  fix x assume x: "x \<in> set (update_where (\<lambda>s. ss_session_id s = i) (\<lambda>s. s\<lparr>ss_writer_mode := m, ss_updated_at := now\<rparr>) (db_sessions db))"
    "retained x" "ss_writer_mode x \<noteq> Telegram_writer"
  then obtain r where r: "r \<in> set (db_sessions db)"
    "x = (if ss_session_id r = i then r\<lparr>ss_writer_mode := m, ss_updated_at := now\<rparr> else r)"
    unfolding set_update_where by blast
  have "ss_writer_mode r \<noteq> Telegram_writer"
  proof (cases "ss_session_id r = i")
    case True
    have "r = s" using distinct_key_eq [OF assms(3) r(1)] session_in_rows [OF assms(1)] True by simp
    then show ?thesis using assms(2) x(3) r(2) True by auto
  qed (use x(3) r(2) in simp)
  then show "\<exists>s \<in> set (db_sessions db). ss_session_id s = ss_session_id x \<and> ss_topic_id s = ss_topic_id x \<and> retained s \<and>
      ss_writer_mode s \<noteq> Telegram_writer"
    using r x(2) by (intro bexI [of _ r]) (auto simp: retained_def split: if_splits)
qed

lemma in_scope_iff: "in_scope db scope t \<longleftrightarrow> scope_of db t = Some scope"
  by (auto simp: in_scope_def scope_of_def split: option.splits)

lemma free_root_no_work:
  assumes "require_free_root db s scope = Inr ()" "work_ok now db" "j \<in> set (db_jobs db)" "occupies_root db now j"
  shows "scope_of db (pj_topic_id j) \<noteq> Some scope"
proof
  assume e: "scope_of db (pj_topic_id j) = Some scope"
  have n: "\<not> scope_has_work db scope" using assms(1) by (auto simp: require_free_root_def attempt_Inr check_def split: if_splits)
  have "uncertain db j \<or> running now j" using assms(4) by (auto simp: occupies_root_def running_def)
  then show False
  proof
    assume "uncertain db j"
    then show False using n e assms(3) by (auto simp: scope_has_work_def exists_row_iff in_scope_iff)
  next
    assume r: "running now j"
    then have "\<not> pending_hold db (pj_job_id j)" using assms(2,3) by (auto simp: work_ok_def held_idle_def)
    moreover have "pj_status j \<in> set open_statuses" "\<not> result_ready_control_reconciled db j"
      using r by (auto simp: running_def open_statuses_def result_ready_control_reconciled_def)
    ultimately show False using n e assms(3) by (auto simp: scope_has_work_def exists_row_iff in_scope_iff)
  qed
qed

text \<open>A session takes the writing of a root in which nothing else is at work.\<close>

lemma take_root_work_ok:
  assumes "session_of db i = Some s" "scope_of db (ss_topic_id s) = Some scope" "work_ok now db"
    "distinct (map ss_session_id (db_sessions db))" "\<And>s. ss_session_id (g s) = ss_session_id s \<and> ss_topic_id (g s) = ss_topic_id s"
    "\<And>j. j \<in> set (db_jobs db) \<Longrightarrow> occupies_root db now j \<Longrightarrow> scope_of db (pj_topic_id j) \<noteq> Some scope"
    "\<And>i' t. (i', t) \<in> outside db \<Longrightarrow> i' \<noteq> i \<Longrightarrow> scope_of db t \<noteq> Some scope"
  shows "work_ok now (db\<lparr>db_sessions := update_where (\<lambda>s. ss_session_id s = i) g (db_sessions db)\<rparr>)"
proof -
  let ?db = "db\<lparr>db_sessions := update_where (\<lambda>s. ss_session_id s = i) g (db_sessions db)\<rparr>"
  have scope: "scope_of ?db = scope_of db" by (rule scope_of_cong) simp
  have occ: "occupies_root ?db now = occupies_root db now" and held: "pending_hold ?db = pending_hold db"
    and waits: "root_exclusive now ?db = root_exclusive now db"
    by (simp_all add: fun_eq_iff root_exclusive_def occupies_root_def uncertain_def resolved_outcome_def terminal_outcome_def
      pending_hold_def scope)
  note s = session_in_rows [OF assms(1)]
  have apart: "roots_apart now db" using assms(3) by (simp add: work_ok_def)
  have new: "p = (i, ss_topic_id s) \<or> p \<in> outside db \<and> fst p \<noteq> i" if p: "p \<in> outside ?db" for p
  proof -
    obtain x where x: "x \<in> set (db_sessions ?db)" "p = (ss_session_id x, ss_topic_id x)" "retained x" "ss_writer_mode x \<noteq> Telegram_writer"
      using p by (auto simp: outside_def)
    obtain r where r: "r \<in> set (db_sessions db)" "x = (if ss_session_id r = i then g r else r)"
      using x(1) by (auto simp: set_update_where)
    show ?thesis
    proof (cases "ss_session_id r = i")
      case True
      have "r = s" using distinct_key_eq [OF assms(4) r(1)] s True by simp
      then show ?thesis using r(2) x(2) True assms(5) by simp
    next
      case False
      then have "x = r" using r(2) by simp
      then have "p \<in> outside db" using x r(1) unfolding outside_def by blast
      then show ?thesis using x(2) \<open>x = r\<close> False by simp
    qed
  qed
  have "roots_apart now ?db"
  proof (rule roots_apartI; unfold scope occ)
    fix i1 t j assume o: "(i1, t) \<in> outside ?db" "scope_of db t \<noteq> None" and j: "j \<in> set (db_jobs ?db)" "occupies_root db now j"
    then have j': "j \<in> set (db_jobs db)" by simp
    show "scope_of db (pj_topic_id j) \<noteq> scope_of db t"
      using new [OF o(1)] assms(6) [OF j' j(2)] roots_apartD(1) [OF apart _ o(2) j' j(2)] assms(2) by auto
  next
    fix i1 t i2 u assume o: "(i1, t) \<in> outside ?db" "(i2, u) \<in> outside ?db" and n: "scope_of db t \<noteq> None"
      and e: "scope_of db u = scope_of db t"
    show "i2 = i1"
      using new [OF o(1)] new [OF o(2)] assms(7) assms(2) e roots_apartD(2) [OF apart _ n _ e] by auto
  qed
  then show ?thesis
    using assms(3) unfolding work_ok_def queue_ok_def held_idle_def jobs_ok_def held waits by simp
qed

lemma leave_work_ok:
  assumes "session_of db i = Some s" "scope_of db (ss_topic_id s) = Some scope" "require_free_root db s scope = Inr ()"
    "work_ok now db" "distinct (map ss_session_id (db_sessions db))"
  shows "work_ok now (put_writer i m now db)"
  unfolding put_writer_def
proof (rule take_root_work_ok [OF assms(1,2,4,5)])
  have others: "\<not> other_writer db i scope"
    using assms(3) session_in_rows [OF assms(1)] by (auto simp: require_free_root_def attempt_Inr check_def split: if_splits)
  show "scope_of db t \<noteq> Some scope" if "(i', t) \<in> outside db" "i' \<noteq> i" for i' t
    using others that by (auto simp: other_writer_def exists_row_iff in_scope_iff outside_def)
qed (use free_root_no_work [OF assms(3,4)] in simp_all)

lemma grow_waiting_calm: "holds_grow a b \<Longrightarrow> (\<forall>h \<in> set (db_holds b). h \<in> set (db_holds a)) \<Longrightarrow> jobs_ok a \<Longrightarrow> calm now a b"
  by (rule holds_waiting_calm) (simp_all add: holds_waiting_def)

lemma release_holds: "db_holds (notice_released_scope w ids now i g db) = db_holds db"
proof -
  have "db_holds (fold (release_to f) rows a) = db_holds a" for f rows a
    by (induction rows arbitrary: a) (auto simp: release_to_def add_notice_def)
  then show ?thesis by (simp add: notice_released_scope_def)
qed

lemma release_calm: "jobs_ok db \<Longrightarrow> calm now db (notice_released_scope w ids now' i g db)"
  by (rule grow_waiting_calm [OF release_grow]) (simp_all add: release_holds)

lemma hold_scope_calm: "hold_scope_before_return w ids now' t db = Inr db' \<Longrightarrow> jobs_ok db \<Longrightarrow> calm now db db'"
  by (rule holds_waiting_calm [OF hold_scope_waiting])

lemma unchanged_step:
  assumes "db_jobs db' = db_jobs db" "db_holds db' = db_holds db" "db_evidence db' = db_evidence db"
    "db_resolutions db' = db_resolutions db" "db_topics db' = db_topics db" "db_sessions db' = db_sessions db"
  shows "session_step db db'"
  using assms scope_of_cong [OF assms(5)] outside_sessions [OF assms(6)] by (simp add: session_step_def)

lemma activate_origin_step: "session_step db (activate_origin i m t db)"
  by (rule unchanged_step) (simp_all add: activate_origin_def split: option.splits)

text \<open>A session comes home: the waiting work of its root is held first, then it may write no more.\<close>

lemma come_back_calm:
  assumes "hold_scope_before_return w ids now' t db = Inr db1" "jobs_ok db" "session_of db i = Some s"
    "distinct (map ss_session_id (db_sessions db))"
  shows "calm now db (put_writer i Telegram_writer now' db1)"
proof -
  have g: "holds_grow db db1" using hold_scope_waiting [OF assms(1)] by (simp add: holds_waiting_def)
  have "session_of db1 i = Some s" "distinct (map ss_session_id (db_sessions db1))"
    using assms(3,4) by (simp_all add: session_of_def holds_grow_sel [OF g])
  then have "calm now db1 (put_writer i Telegram_writer now' db1)" by (intro session_step_calm put_writer_step) simp_all
  then show ?thesis by (rule calm_trans [OF hold_scope_calm [OF assms(1,2)]])
qed

lemma set_writer_work_ok:
  assumes "set_writer_tx w ids now i mode x db = Inr (u, db')" "work_ok now db" "sessions_ok db"
  shows "work_ok now db'"
proof -
  obtain s scope where s: "session_with_scope db i = Some (s, scope)"
    using assms(1) unfolding set_writer_tx_def by (auto simp: attempt_Inr split: option.splits)
  let ?ends = "mode = Telegram_writer \<and> ss_writer_mode s \<noteq> Telegram_writer"
  let ?leaves = "mode \<noteq> Telegram_writer \<and> ss_writer_mode s = Telegram_writer"
  have so: "session_of db i = Some s" and sc: "scope_of db (ss_topic_id s) = Some scope"
    using s by (auto simp: session_with_scope_def split: option.splits)
  have d: "distinct (map ss_session_id (db_sessions db))" using assms(3) by (simp add: sessions_ok_def kept_once_def)
  have jobs: "jobs_ok db" using assms(2) by (simp add: work_ok_def queue_ok_def)
  consider (leaves) "?leaves" "require_free_root db s scope = Inr ()" "db' = put_writer i mode now db"
    | (returns) db1 where "?ends" "hold_scope_before_return w ids now (ss_topic_id s) db = Inr db1"
        "db' = notice_released_scope w ids now i (ss_generation s) (put_writer i mode now db1)"
    | (stays) "\<not> ?leaves" "\<not> ?ends" "db' = put_writer i mode now db"
    using assms(1) unfolding set_writer_tx_def s
    by (cases "?ends"; cases "?leaves") (auto simp: attempt_Inr Let_def)
  then show ?thesis
  proof cases
    case leaves
    then show ?thesis using leave_work_ok [OF so sc leaves(2) assms(2) d] by simp
  next
    case returns
    have c: "calm now db (put_writer i mode now db1)" using come_back_calm [OF returns(2) jobs so d] returns(1) by simp
    have "jobs_ok (put_writer i mode now db1)"
      using calm_work_ok [OF c assms(2)] by (simp add: work_ok_def queue_ok_def)
    then show ?thesis unfolding returns(3) using calm_work_ok [OF calm_trans [OF c release_calm] assms(2)] by blast
  next
    case stays
    have "calm now db db'"
      unfolding stays(3) by (rule session_step_calm, rule put_writer_step [OF so _ d]) (use stays in auto)
    then show ?thesis using assms(2) calm_work_ok by blast
  qed
qed

lemma return_local_calm:
  assumes "return_local_tx w ids now chat message t i db = Inr (b, db')" "work_ok now db" "sessions_ok db"
  shows "calm now db db'"
proof (cases b)
  case True
  have d: "distinct (map ss_session_id (db_sessions db))" using assms(3) by (simp add: sessions_ok_def kept_once_def)
  have jobs: "jobs_ok db" using assms(2) by (simp add: work_ok_def queue_ok_def)
  obtain s db1 db2 where r: "returnable db t i = Inr s" "hold_scope_before_return w ids now t db = Inr db1"
    "db2 = activate_origin i message t (put_writer i Telegram_writer now db1)"
    "db' = (notice_released_scope w ids now i (ss_generation s) db2)
       \<lparr>db_observed := db_observed (notice_released_scope w ids now i (ss_generation s) db2) @ [(chat, message)]\<rparr>"
    using assms(1) True unfolding return_local_tx_def by (auto simp: attempt_Inr Let_def split: if_splits)
  have so: "session_of db i = Some s" using r(1) by (auto simp: returnable_def Let_def split: option.splits if_splits)
  have c: "calm now db db2"
    unfolding r(3) by (rule calm_trans [OF come_back_calm [OF r(2) jobs so d] session_step_calm [OF activate_origin_step]])
  have "jobs_ok db2" using calm_work_ok [OF c assms(2)] by (simp add: work_ok_def queue_ok_def)
  then have "calm now db (notice_released_scope w ids now i (ss_generation s) db2)" by (rule calm_trans [OF c release_calm])
  moreover have "session_step a (a\<lparr>db_observed := o'\<rparr>)" for a o' by (rule unchanged_step) simp_all
  ultimately show ?thesis unfolding r(4) using calm_trans session_step_calm by blast
next
  case False
  then show ?thesis using assms(1) return_local_again [of w ids now chat message t i db db'] by simp
qed

lemma commit_step:
  "(\<And>a db'. body db = Inr (a, db') \<Longrightarrow> session_step db db') \<Longrightarrow> session_step db (snd (commit_then body finish db))"
  by (auto simp: commit_then_def split: sum.splits)

lemma commit_work_ok: "work_ok now db \<Longrightarrow>
    (\<And>a db'. body db = Inr (a, db') \<Longrightarrow> work_ok now db') \<Longrightarrow> work_ok now (snd (commit_then body finish db))"
  by (auto simp: commit_then_def split: sum.splits)

lemma unique_sessions: "sessions_ok db \<Longrightarrow> distinct (map ss_session_id (db_sessions db))"
  by (simp add: sessions_ok_def kept_once_def)

lemma new_row_step: "distinct (map ss_session_id (db_sessions db)) \<Longrightarrow>
    replace_tx fresh t model effort ex c pr now db = Inr (i, db') \<Longrightarrow> session_step db db'"
  by (auto simp: replace_tx_def attempt_Inr split: if_splits intro!: session_step_update dest: replace_with_step)

lemma session_op_calm:
  assumes "sessions_ok db" "\<And>i m x t. op \<noteq> Set_writer i m x t" "\<And>c m t i ob u. op \<noteq> Return_local c m t i ob u"
  shows "session_step db (snd (run_session_op w ids pr op db))"
proof -
  note d = unique_sessions [OF assms(1)]
  show ?thesis
  proof (cases op)
    case (Bind_session i thread terminal now)
    then show ?thesis
      by (auto simp: bind_provider_session_def attempt_Inr intro!: commit_step session_step_update)
  next
    case (Set_context i p now)
    then show ?thesis by (auto simp: set_context_remaining_def intro!: commit_step session_step_update)
  next
    case (Acknowledge_contract i v now)
    have "session_step db (db\<lparr>db_runtime_checkpoints := cs\<rparr>)" for cs by (rule unchanged_step) simp_all
    then show ?thesis using Acknowledge_contract by (simp add: acknowledge_telegram_contract_def split: sum.splits)
  next
    case (Activate_agent fresh t agent model effort ex c now)
    then show ?thesis
      by (auto simp: activate_agent_def split: sum.splits intro!: commit_step dest: activate_step [OF _ d])
  next
    case (Ensure_satellite fresh t agent model effort now)
    then show ?thesis
      by (auto simp: ensure_satellite_def Let_def attempt_Inr split: sum.splits option.splits
        intro!: commit_step dest: insert_session_step)
  next
    case (New_session fresh t ex now)
    then show ?thesis
      by (auto simp: new_active_session_def attempt_Inr intro!: commit_step dest: replace_with_step [OF _ d])
  next
    case (Replace_session fresh t model effort ex rt now)
    then show ?thesis by (auto simp: replace_active_session_def intro!: commit_step dest: new_row_step [OF d])
  qed (use assms(2,3) in blast)+
qed

lemma session_op_work_ok:
  assumes "work_ok (session_op_time op) db" "sessions_ok db"
  shows "work_ok (session_op_time op) (snd (run_session_op w ids pr op db))"
proof (cases "\<exists>i m x t. op = Set_writer i m x t")
  case True
  then obtain i m x t where op: "op = Set_writer i m x t" by blast
  have "work_ok t (snd (set_writer_mode w ids t i m x db))"
    using assms set_writer_work_ok unfolding op set_writer_mode_def
    by (auto split: option.splits intro!: commit_work_ok)
  then show ?thesis by (simp add: op)
next
  case other: False
  show ?thesis
  proof (cases "\<exists>c m t i ob u. op = Return_local c m t i ob u")
    case True
    then obtain c m t i ob u where op: "op = Return_local c m t i ob u" by blast
    have k: "work_ok u db'" if "return_local_tx w ids u c m t i db = Inr (b, db')" for b db'
      using calm_work_ok [OF return_local_calm [OF that]] assms by (simp add: op)
    have "work_ok u (snd (return_codex_local_writer w ids u c m t i ob db))"
      using assms unfolding op return_codex_local_writer_def
      by (auto split: sum.splits intro!: commit_work_ok intro: k)
    then show ?thesis by (simp add: op)
  next
    case False
    have "session_step db (snd (run_session_op w ids pr op db))" by (rule session_op_calm [OF assms(2)]) (use other False in blast)+
    then show ?thesis using calm_work_ok [OF session_step_calm assms(1)] by blast
  qed
qed


section \<open>Steps that leave the sessions alone\<close>

definition calmly :: "time \<Rightarrow> db \<Rightarrow> db \<Rightarrow> bool" where
  "calmly now db db' \<longleftrightarrow> calm now db db' \<and> session_views db' = session_views db \<and> db_topics db' = db_topics db"

lemma calmly_refl [simp]: "calmly now db db"
  by (simp add: calmly_def)

lemma calmly_trans: "calmly now a b \<Longrightarrow> calmly now b c \<Longrightarrow> calmly now a c"
  using calm_trans by (auto simp: calmly_def)

lemma quiet_calmly: "quiet_step now db db' \<Longrightarrow> calmly now db db'"
  using quiet_calm by (simp add: calmly_def quiet_step_def)

lemma unchanged_calmly:
  assumes "db_jobs db' = db_jobs db" "db_holds db' = db_holds db" "db_evidence db' = db_evidence db"
    "db_resolutions db' = db_resolutions db" "db_topics db' = db_topics db" "db_sessions db' = db_sessions db"
  shows "calmly now db db'"
  using session_step_calm [OF unchanged_step [OF assms]] assms(5,6) by (simp add: calmly_def)

lemma calmly_hub_ok: "calmly now db db' \<Longrightarrow> hub_ok now db \<Longrightarrow> hub_ok now db'"
  using calm_work_ok sessions_ok_views by (auto simp: calmly_def hub_ok_def)

lemma holds_calmly: "holds_waiting db db' \<Longrightarrow> jobs_ok db \<Longrightarrow> calmly now db db'"
  using holds_waiting_calm holds_grow_sel(2,3) by (auto simp: calmly_def holds_waiting_def)

lemma decide_calmly:
  assumes "decide_held_job i confirm chat thread message now db = (r, db')" "jobs_ok db"
  shows "calmly now db db'"
proof -
  have "session_views db' = session_views db \<and> db_topics db' = db_topics db"
    using assms(1) unfolding decide_held_job_def
  proof (cases rule: transact_cases)
    case (committed x)
    then show ?thesis
      by (auto simp: decide_held_tx_def Let_def attempt_Inr complete_finished_stops_def update_jobs_def
        split: option.splits if_splits)
  qed simp
  then show ?thesis using decide_calm [OF assms] by (simp add: calmly_def)
qed

section \<open>The emergency stop\<close>

lemma bind_sessions: "db_sessions (bind_covering_stops db) = db_sessions db"
  using bind_controls [of db] by (auto simp: controls_only_def)

lemma bind_calmly: "calmly now db (bind_covering_stops db)"
  by (rule unchanged_calmly) (simp_all add: controls_only_sel [OF bind_controls] bind_sessions)

lemma cancel_unstarted_calmly:
  assumes "cancel_unstarted_for_stop t now db = Inr (n, db')"
  shows "calmly now' db db'"
proof -
  have "quiet_step now' db (update_jobs (unstarted_unheld db t) (cancel_queued_job now) db)"
    by (rule quiet_update_jobs) (auto simp: unstarted_unheld_def row_defs cancel_queued_job_def)
  then have "calmly now' db (update_jobs (unstarted_unheld db t) (cancel_queued_job now) db)" by (rule quiet_calmly)
  moreover have "calmly now' (update_jobs (unstarted_unheld db t) (cancel_queued_job now) db) db'"
    by (rule quiet_calmly [OF quiet_step_notices]) (use cancel_unstarted_effect [OF assms] in blast)
  ultimately show ?thesis by (rule calmly_trans)
qed

lemma request_stop_calmly:
  assumes "request_stop wd q now rid nid db = (r, db')"
  shows "calmly now' db db'"
proof (cases r)
  case (Inl e)
  then have "db' = db"
    using assms by (auto simp: request_stop_def transact_def split: if_splits sum.splits option.splits prod.splits)
  then show ?thesis by simp
next
  case (Inr x)
  from assms [unfolded Inr] show ?thesis
  proof (cases rule: request_stop_cases)
    case (repeat s)
    then obtain m where m: "notices_only db m" "db' = bind_covering_stops m"
      by (auto simp: repeated_stop_def attempt_Inr notices_only_refl split: if_splits dest: stop_notice_only)
    then show ?thesis using calmly_trans [OF quiet_calmly [OF quiet_step_notices] bind_calmly] by blast
  next
    case fresh
    obtain i n p where x: "x = (i, n, p)" by (cases x) auto
    let ?o = "note_message (sq_chat_id q) (sq_message_id q) db"
    obtain db1 s where c: "cancel_unstarted_for_stop (sq_topic_id q) now ?o = Inr (nat n, db1)"
      and e: "notices_only (complete_finished_stops (sq_topic_id q) now
         (bind_covering_stops (db1\<lparr>db_stops := db_stops db1 @ [s]\<rparr>))) db'"
      by (rule fresh_stop_steps [OF fresh(2) [unfolded x]]) blast
    have "calmly now' db ?o" by (rule unchanged_calmly) (simp_all add: note_message_def)
    then have "calmly now' db db1" using cancel_unstarted_calmly [OF c] by (rule calmly_trans)
    moreover have "calmly now' db1 (db1\<lparr>db_stops := db_stops db1 @ [s]\<rparr>)" by (rule unchanged_calmly) simp_all
    ultimately have "calmly now' db (bind_covering_stops (db1\<lparr>db_stops := db_stops db1 @ [s]\<rparr>))"
      using bind_calmly calmly_trans by blast
    then show ?thesis
      using calmly_trans [OF _ calmly_trans [OF quiet_calmly [OF quiet_complete_finished] quiet_calmly [OF quiet_step_notices [OF e]]]]
      by blast
  qed
qed

end
