(* ===== verification/Lane_Properties.thy ===== *)
theory Lane_Properties
  imports Session_Adoption Hub_Machine
begin

text \<open>
  Topics change their root only when nothing works in them: what the operations on topics, lanes and
  adopted sessions keep of the hub, and the agreement between a lane and the topic it is bound to.
\<close>

section \<open>Changes of place\<close>

text \<open>A topic in which nothing is at work and no session writes from outside.\<close>

definition vacant :: "db \<Rightarrow> int \<Rightarrow> bool" where
  "vacant db t \<longleftrightarrow>
     (\<forall>j \<in> set (db_jobs db). pj_topic_id j = t \<longrightarrow> pj_status j \<notin> {Leased, Executing} \<and> \<not> uncertain db j) \<and>
     (\<forall>s \<in> set (db_sessions db). ss_topic_id s = t \<longrightarrow> retained s \<longrightarrow> ss_writer_mode s = Telegram_writer)"

text \<open>Only topics and lanes change, the active agents stay, and only a vacant topic changes its scope.\<close>

definition places_step :: "db \<Rightarrow> db \<Rightarrow> bool" where
  "places_step db db' \<longleftrightarrow> db_jobs db' = db_jobs db \<and> db_holds db' = db_holds db \<and> db_evidence db' = db_evidence db \<and>
     db_resolutions db' = db_resolutions db \<and> db_sessions db' = db_sessions db \<and>
     (\<forall>y r. topic_of db y = Some r \<longrightarrow> (\<exists>r'. topic_of db' y = Some r' \<and> tp_active_agent_id r' = tp_active_agent_id r)) \<and>
     (\<forall>y. scope_of db' y \<noteq> scope_of db y \<longrightarrow> vacant db y)"

lemma places_refl [simp]: "places_step db db"
  by (simp add: places_step_def)

lemma vacant_same: "db_jobs db' = db_jobs db \<Longrightarrow> db_evidence db' = db_evidence db \<Longrightarrow> db_resolutions db' = db_resolutions db \<Longrightarrow>
    db_sessions db' = db_sessions db \<Longrightarrow> vacant db' t \<longleftrightarrow> vacant db t"
  by (simp add: vacant_def uncertain_def resolved_outcome_def terminal_outcome_def)

lemma places_trans: "places_step a b \<Longrightarrow> places_step b c \<Longrightarrow> places_step a c"
proof -
  assume a: "places_step a b" and b: "places_step b c"
  have v: "vacant b y \<longleftrightarrow> vacant a y" for y by (rule vacant_same) (use a in \<open>simp_all add: places_step_def\<close>)
  have "vacant a y" if s: "scope_of c y \<noteq> scope_of a y" for y
  proof (cases "scope_of b y = scope_of a y")
    case True
    then have "vacant b y" using b s unfolding places_step_def by simp
    then show ?thesis by (simp add: v)
  next
    case False
    then show ?thesis using a unfolding places_step_def by blast
  qed
  moreover have "\<exists>r'. topic_of c y = Some r' \<and> tp_active_agent_id r' = tp_active_agent_id r" if "topic_of a y = Some r" for y r
    using a b that unfolding places_step_def by metis
  ultimately show ?thesis using a b by (simp add: places_step_def)
qed

lemma vacant_job: "vacant db (pj_topic_id j) \<Longrightarrow> j \<in> set (db_jobs db) \<Longrightarrow> \<not> occupies_root db now j"
  by (auto simp: vacant_def occupies_root_def)

lemma vacant_session: "vacant db t \<Longrightarrow> (i, t) \<notin> outside db"
  by (auto simp: vacant_def outside_def)

lemma places_hub_ok:
  assumes "places_step db db'" "hub_ok now db"
  shows "hub_ok now db'"
proof -
  have p: "db_jobs db' = db_jobs db" "db_holds db' = db_holds db" "db_evidence db' = db_evidence db"
    "db_resolutions db' = db_resolutions db" "db_sessions db' = db_sessions db"
    using assms(1) by (simp_all add: places_step_def)
  have agent: "\<exists>r'. topic_of db' y = Some r' \<and> tp_active_agent_id r' = tp_active_agent_id r" if "topic_of db y = Some r" for y r
    using assms(1) that unfolding places_step_def by blast
  have moves: "vacant db y" if "scope_of db' y \<noteq> scope_of db y" for y using assms(1) that unfolding places_step_def by blast
  have w: "jobs_ok db" "root_exclusive now db" "roots_apart now db" "held_idle now db" "kept_once (db_sessions db)" "active_agents db"
    using assms(2) by (simp_all add: hub_ok_def work_ok_def queue_ok_def sessions_ok_def)
  have occ: "occupies_root db' now = occupies_root db now" and held: "pending_hold db' = pending_hold db"
    using p by (simp_all add: fun_eq_iff occupies_root_def uncertain_def resolved_outcome_def terminal_outcome_def pending_hold_def)
  have out: "outside db' = outside db" using p by (simp add: outside_def)
  have job: "scope_of db' (pj_topic_id j) = scope_of db (pj_topic_id j)"
    if "j \<in> set (db_jobs db)" "occupies_root db now j" for j using moves vacant_job that by blast
  have session: "scope_of db' t = scope_of db t" if "(i, t) \<in> outside db" for i t using moves vacant_session that by blast
  have "root_exclusive now db'"
    using w(2) job p unfolding root_exclusive_def occ by simp
  moreover have "roots_apart now db'"
  proof (rule roots_apartI)
    fix i t j assume h: "(i, t) \<in> outside db'" "scope_of db' t \<noteq> None" "j \<in> set (db_jobs db')" "occupies_root db' now j"
    have "scope_of db t \<noteq> None" using session h(1,2) by (simp add: out)
    then have "scope_of db (pj_topic_id j) \<noteq> scope_of db t"
      using roots_apartD(1) [OF w(3) _ _ _ _, of i t j] h p by (simp add: out occ)
    moreover have "scope_of db' (pj_topic_id j) = scope_of db (pj_topic_id j)" using job h p by (simp add: occ)
    moreover have "scope_of db' t = scope_of db t" using session h(1) by (simp add: out)
    ultimately show "scope_of db' (pj_topic_id j) \<noteq> scope_of db' t" by simp
  next
    fix i t i' t' assume h: "(i, t) \<in> outside db'" "(i', t') \<in> outside db'" "scope_of db' t \<noteq> None" "scope_of db' t' = scope_of db' t"
    have t: "scope_of db' t = scope_of db t" "scope_of db' t' = scope_of db t'" using session h(1,2) by (simp_all add: out)
    show "i' = i" using roots_apartD(2) [OF w(3), of i t i' t'] h by (simp add: out t)
  qed
  moreover have "held_idle now db'" using w(4) p by (simp add: held_idle_def held)
  moreover have "jobs_ok db'" using w(1) p by (simp add: jobs_ok_def)
  moreover have "active_agents db'"
    unfolding active_agents_def
  proof (intro ballI impI)
    fix s assume "s \<in> set (db_sessions db')" "ss_status s = Active"
    then have "map_option tp_active_agent_id (topic_of db (ss_topic_id s)) = Some (Some (ss_agent_id s))"
      using w(6) unfolding active_agents_def p by blast
    then obtain r where "topic_of db (ss_topic_id s) = Some r" "tp_active_agent_id r = Some (ss_agent_id s)" by auto
    then show "map_option tp_active_agent_id (topic_of db' (ss_topic_id s)) = Some (Some (ss_agent_id s))"
      using agent by fastforce
  qed
  ultimately show ?thesis using w(5) p by (simp add: hub_ok_def work_ok_def queue_ok_def sessions_ok_def)
qed

section \<open>What a guarded update does\<close>

lemma topic_of_update:
  assumes "\<And>x. tp_topic_id (f x) = tp_topic_id x"
  shows "topic_of (db\<lparr>db_topics := update_where p f (db_topics db)\<rparr>) y = map_option (\<lambda>x. if p x then f x else x) (topic_of db y)"
  by (simp add: topic_of_def find_update_where [where key=tp_topic_id, OF assms])

lemma put_topics_Inr: "put_topics p f db = Inr db' \<Longrightarrow> db' = db\<lparr>db_topics := update_where p f (db_topics db)\<rparr>"
  by (simp add: put_topics_def split: if_splits)

text \<open>Rows that keep their identity and agent, and that keep their scope unless they are vacant.\<close>

lemma put_topics_places:
  assumes "put_topics p f db = Inr db'" "\<And>x. tp_topic_id (f x) = tp_topic_id x" "\<And>x. tp_active_agent_id (f x) = tp_active_agent_id x"
    "\<And>x. x \<in> set (db_topics db) \<Longrightarrow> topic_of db (tp_topic_id x) = Some x \<Longrightarrow> p x \<Longrightarrow> topic_scope (f x) \<noteq> topic_scope x \<Longrightarrow> vacant db (tp_topic_id x)"
  shows "places_step db db'"
proof -
  note db' = put_topics_Inr [OF assms(1)]
  have t: "topic_of db' y = map_option (\<lambda>x. if p x then f x else x) (topic_of db y)" for y
    unfolding db' by (rule topic_of_update [OF assms(2)])
  have "vacant db y" if "scope_of db' y \<noteq> scope_of db y" for y
  proof -
    have "\<exists>x. topic_of db y = Some x \<and> p x \<and> topic_scope (f x) \<noteq> topic_scope x"
      using that by (cases "topic_of db y") (auto simp: scope_of_def t split: if_splits)
    then obtain x where x: "topic_of db y = Some x" "p x" "topic_scope (f x) \<noteq> topic_scope x" by blast
    then show ?thesis using topic_of_id [OF x(1)] assms(4) [of x] by simp
  qed
  moreover have "\<exists>r'. topic_of db' y = Some r' \<and> tp_active_agent_id r' = tp_active_agent_id r" if "topic_of db y = Some r" for y r
    using that assms(3) by (simp add: t)
  ultimately show ?thesis by (simp add: places_step_def db')
qed

lemma busy_vacant: "\<not> busy db (\<lambda>x. x = t) change \<Longrightarrow> vacant db t"
  by (auto simp: busy_def exists_row_iff keeps_place_def vacant_def open_statuses_def result_ready_control_reconciled_def)

lemma require_topic_idle_vacant: "require_topic_idle db t change = Inr () \<Longrightarrow> vacant db t"
  by (auto simp: require_topic_idle_def attempt_Inr intro: busy_vacant)

lemma put_scope_places: "put_scope t scope now db = Inr db' \<Longrightarrow> vacant db t \<Longrightarrow> places_step db db'"
  unfolding put_scope_def by (erule put_topics_places) (auto simp: topic_scope_def)

lemma lanes_places: "places_step db (db\<lparr>db_lanes := ls\<rparr>)"
  by (simp add: places_step_def topic_of_def scope_of_def)

lemma put_lanes_Inr: "put_lanes ls db = Inr db' \<longleftrightarrow> lanes_valid ls \<and> db' = db\<lparr>db_lanes := ls\<rparr>"
  by (auto simp: put_lanes_def)

lemma put_lanes_places: "put_lanes ls db = Inr db' \<Longrightarrow> places_step db db'"
  using lanes_places by (auto simp: put_lanes_Inr)


section \<open>The operations on topics and lanes\<close>

text \<open>What the database itself keeps: the primary key of the topics and the references to them.\<close>

definition keyed :: "db \<Rightarrow> bool" where
  "keyed db \<longleftrightarrow> distinct (map tp_topic_id (db_topics db)) \<and>
     (\<forall>j \<in> set (db_jobs db). topic_of db (pj_topic_id j) \<noteq> None) \<and>
     (\<forall>s \<in> set (db_sessions db). topic_of db (ss_topic_id s) \<noteq> None)"

lemma keyed_row: "keyed db \<Longrightarrow> x \<in> set (db_topics db) \<Longrightarrow> topic_of db (tp_topic_id x) = Some x"
  unfolding topic_of_def keyed_def by (rule find_key_unique) simp_all

lemma next_topic_id_new: "topic_of db (next_topic_id db) = None"
proof -
  have le: "g \<le> fold max gs g \<and> (\<forall>h \<in> set gs. h \<le> fold max gs g)" for gs and g :: int
  proof (induction gs arbitrary: g)
    case (Cons x gs)
    show ?case using Cons [of "max x g"] by auto
  qed simp
  have "tp_topic_id x < next_topic_id db" if "x \<in> set (db_topics db)" for x
    using le [of 0 "map tp_topic_id (db_topics db)"] that by (auto simp: next_topic_id_def)
  then show ?thesis unfolding topic_of_def find_None_iff by fastforce
qed

lemma topic_of_append: "topic_of (db\<lparr>db_topics := db_topics db @ [n]\<rparr>) y =
    (case topic_of db y of None \<Rightarrow> if tp_topic_id n = y then Some n else None | Some r \<Rightarrow> Some r)"
  by (cases "find (\<lambda>r. tp_topic_id r = y) (db_topics db)") (simp_all add: topic_of_def find_append_None)

text \<open>A topic that is known by its project only, and its scope with an empty one counted as none.\<close>

definition rootless :: "string \<Rightarrow> topic_row \<Rightarrow> bool" where
  "rootless project t \<longleftrightarrow> stored_scope (''project:'' @ project) t = ''project:'' @ project"

lemma rooted_scope: "\<not> rootless project t \<Longrightarrow> stored_scope (''project:'' @ project) t = topic_scope t \<and> tp_execution_scope t = Some (topic_scope t)"
  by (auto simp: rootless_def stored_scope_def topic_scope_def split: option.splits if_splits)

lemma next_scope_rooted:
  assumes "next_scope db (''project:'' @ project) requested t = Inr scope" "\<not> rootless project t"
  shows "scope = topic_scope t"
  using assms rooted_scope [OF assms(2)]
  by (auto simp: next_scope_def Let_def rootless_def attempt_Inr split: option.splits if_splits)

lemma observe_tx_places:
  assumes "observe_tx given project chat thread title requested now db = Inr (u, db')" "keyed db"
    "\<And>t. find_row db chat thread = Some t \<Longrightarrow> rootless project t \<Longrightarrow> vacant db (tp_topic_id t)"
  shows "places_step db db'"
proof (cases "find_row db chat thread")
  case None
  let ?n = "\<lparr>tp_topic_id = next_topic_id db, tp_project_id = project, tp_chat_id = chat, tp_thread_id = thread,
    tp_title = py_strip title, tp_active_agent_id = None,
    tp_execution_scope = Some (case requested of None \<Rightarrow> ''project:'' @ project | Some r \<Rightarrow> r), tp_updated_at = now\<rparr>"
  have db': "db' = db\<lparr>db_topics := db_topics db @ [?n]\<rparr>" using assms(1) None by (cases requested) (simp_all add: observe_tx_def Let_def)
  have t: "topic_of db' y = (case topic_of db y of None \<Rightarrow> if next_topic_id db = y then Some ?n else None | Some r \<Rightarrow> Some r)" for y
    by (simp add: db' topic_of_append)
  have "scope_of db' y = scope_of db y" if "y \<noteq> next_topic_id db" for y
    using that by (simp add: scope_of_def t split: option.splits)
  moreover have "vacant db (next_topic_id db)"
    using next_topic_id_new assms(2) unfolding vacant_def keyed_def by metis
  ultimately have "vacant db y" if "scope_of db' y \<noteq> scope_of db y" for y using that by metis
  then show ?thesis using t by (auto simp: places_step_def db')
next
  case (Some t)
  note f = find_Some_set [OF Some [unfolded find_row_def]]
  obtain scope where s: "next_scope db (''project:'' @ project) requested t = Inr scope"
    "put_topics (\<lambda>x. tp_topic_id x = tp_topic_id t)
      (\<lambda>x. x\<lparr>tp_title := py_strip title, tp_execution_scope := Some scope, tp_updated_at := now\<rparr>) db = Inr db'"
    using assms(1) Some by (auto simp: observe_tx_def Let_def attempt_Inr)
  show ?thesis
  proof (rule put_topics_places [OF s(2)])
    fix x assume x: "topic_of db (tp_topic_id x) = Some x" "tp_topic_id x = tp_topic_id t"
      "topic_scope (x\<lparr>tp_title := py_strip title, tp_execution_scope := Some scope, tp_updated_at := now\<rparr>) \<noteq> topic_scope x"
    have "x = t" using keyed_row [OF assms(2), of t] f x(1,2) by simp
    then show "vacant db (tp_topic_id x)" using assms(3) [OF Some] next_scope_rooted [OF s(1)] x(3) by (auto simp: topic_scope_def)
  qed simp_all
qed

lemma bind_tx_Inr:
  assumes "bind_tx i t now db = Inr (u, db')"
  obtains l db1 where "bindable db i t = Inr l" "require_topic_idle db t True = Inr ()"
    "require_scope_idle db (root_scope (wl_worktree_path l)) True = Inr ()"
    "put_lanes (update_where (\<lambda>k. wl_lane_id k = i) (\<lambda>k. k\<lparr>wl_topic_id := Some t, wl_updated_at := now\<rparr>) (db_lanes db)) db = Inr db1"
    "put_scope t (root_scope (wl_worktree_path l)) now db1 = Inr db'"
proof -
  have "\<exists>l db1. bindable db i t = Inr l \<and> require_topic_idle db t True = Inr () \<and>
    require_scope_idle db (root_scope (wl_worktree_path l)) True = Inr () \<and>
    put_lanes (update_where (\<lambda>k. wl_lane_id k = i) (\<lambda>k. k\<lparr>wl_topic_id := Some t, wl_updated_at := now\<rparr>) (db_lanes db)) db = Inr db1 \<and>
    put_scope t (root_scope (wl_worktree_path l)) now db1 = Inr db'"
    using assms by (auto simp: bind_tx_def attempt_Inr)
  then show ?thesis using that by blast
qed

lemma bind_tx_places:
  assumes "bind_tx i t now db = Inr (u, db')" shows "places_step db db'"
  using assms
proof (rule bind_tx_Inr)
  fix l db1 assume b: "require_topic_idle db t True = Inr ()" "put_lanes (update_where (\<lambda>k. wl_lane_id k = i)
      (\<lambda>k. k\<lparr>wl_topic_id := Some t, wl_updated_at := now\<rparr>) (db_lanes db)) db = Inr db1"
    "put_scope t (root_scope (wl_worktree_path l)) now db1 = Inr db'"
  have "vacant db1 t" using require_topic_idle_vacant [OF b(1)] b(2) vacant_same [of db1 db] by (simp add: put_lanes_Inr)
  then show "places_step db db'" using places_trans [OF put_lanes_places [OF b(2)] put_scope_places [OF b(3)]] by simp
qed

lemma register_tx_places: "register_tx i project path branch topic now db = Inr (u, db') \<Longrightarrow> places_step db db'"
  by (auto simp: register_tx_def attempt_Inr split: option.splits intro: places_trans put_lanes_places bind_tx_places)

lemma archive_tx_places:
  assumes "archive_tx i project root now moved db = Inr (u, db')" shows "places_step db db'"
proof -
  obtain l where "find (\<lambda>l. wl_lane_id l = i \<and> wl_status l = Lane_active) (db_lanes db) = Some l"
    using assms by (auto simp: archive_tx_def split: option.splits)
  then have "\<exists>target db1. (case wl_topic_id l of None \<Rightarrow> Inr None
        | Some t \<Rightarrow> attempt (archive_to l t project root db) (\<lambda>scope. Inr (Some (t, scope)))) = Inr target \<and>
      put_lanes (update_where (\<lambda>k. wl_lane_id k = i) (\<lambda>k. k\<lparr>wl_status := Lane_archived, wl_updated_at := now\<rparr>) (db_lanes db)) db = Inr db1 \<and>
      (case target of None \<Rightarrow> Inr db1 | Some (t, scope) \<Rightarrow> put_scope t scope moved db1) = Inr db'"
    using assms unfolding archive_tx_def by (simp only: option.case attempt_Inr prod.inject sum.inject) blast
  then obtain target db1 where a: "(case wl_topic_id l of None \<Rightarrow> Inr None
      | Some t \<Rightarrow> attempt (archive_to l t project root db) (\<lambda>scope. Inr (Some (t, scope)))) = Inr target"
    "put_lanes (update_where (\<lambda>k. wl_lane_id k = i) (\<lambda>k. k\<lparr>wl_status := Lane_archived, wl_updated_at := now\<rparr>) (db_lanes db)) db = Inr db1"
    "(case target of None \<Rightarrow> Inr db1 | Some (t, scope) \<Rightarrow> put_scope t scope moved db1) = Inr db'" by blast
  have "places_step db1 db'"
  proof (cases target)
    case None
    then show ?thesis using a(3) by simp
  next
    case (Some x)
    obtain t scope where x: "x = (t, scope)" by (cases x)
    have "archive_to l t project root db = Inr scope" using a(1) by (auto simp: Some x attempt_Inr split: option.splits)
    then have "require_topic_idle db t True = Inr ()" by (auto simp: archive_to_def attempt_Inr)
    then have "vacant db1 t" using require_topic_idle_vacant a(2) vacant_same [of db1 db] by (simp add: put_lanes_Inr)
    then show ?thesis using put_scope_places a(3) by (simp add: Some x)
  qed
  then show ?thesis using places_trans [OF put_lanes_places [OF a(2)]] by simp
qed

lemma mark_cleaned_places: "mark_cleaned_tx i now then' db = Inr (n, db') \<Longrightarrow> places_step db db'"
  using lanes_places by (auto simp: mark_cleaned_tx_def attempt_Inr Let_def)

lemma reconcile_row_places:
  assumes "reconcile_row roots now (t, l) (n, db) = Inr (m, db')" "rootless (tp_project_id t) t \<Longrightarrow> vacant db (tp_topic_id t)"
  shows "places_step db db'"
proof (cases "l = None \<and> rootless (tp_project_id t) t \<and> db' \<noteq> db")
  case True
  then obtain scope where s: "put_topics (\<lambda>x. tp_topic_id x = tp_topic_id t \<and> tp_execution_scope x = tp_execution_scope t)
      (\<lambda>x. x\<lparr>tp_execution_scope := Some scope, tp_updated_at := now\<rparr>) db = Inr db'"
    using assms(1) by (auto simp: reconcile_row_def Let_def attempt_Inr rootless_def split: option.splits)
  show ?thesis by (rule put_topics_places [OF s]) (use assms(2) True in auto)
next
  case False
  then have "db' = db" using assms(1)
    by (auto simp: reconcile_row_def Let_def attempt_Inr rootless_def split: option.splits if_splits)
  then show ?thesis by simp
qed

lemma reconcile_places:
  assumes "each_row (reconcile_row roots now) rows (n, db) = Inr (m, db')"
    "\<And>t l. (t, l) \<in> set rows \<Longrightarrow> rootless (tp_project_id t) t \<Longrightarrow> vacant db (tp_topic_id t)"
  shows "places_step db db'"
proof -
  have "places_step db (snd (m, db'))"
  proof (rule each_row_invariant [OF assms(1), where P="\<lambda>x. places_step db (snd x)"])
    fix x acc acc' assume x: "x \<in> set rows" "reconcile_row roots now x acc = Inr acc'" "places_step db (snd acc)"
    obtain t l k d k' d' where e: "x = (t, l)" "acc = (k, d)" "acc' = (k', d')" by (metis surj_pair)
    have "vacant d (tp_topic_id t)" if "rootless (tp_project_id t) t"
      using assms(2) [of t l] x(1,3) that vacant_same [of d db] by (simp add: e places_step_def)
    then have "places_step d d'" using reconcile_row_places x(2) by (simp add: e)
    then show "places_step db (snd acc')" using places_trans x(3) by (simp add: e)
  qed simp
  then show ?thesis by simp
qed


datatype topic_op =
    Observe_topic string int int string "string option" time
  | Register_lane string string string string "int option" time
  | Bind_lane string int time
  | Archive_lane string "string option" "string option" time time
  | Clean_lane string time time
  | Reconcile_scopes "(string \<times> string) list" time

fun topic_op_time :: "topic_op \<Rightarrow> time" where
  "topic_op_time (Observe_topic _ _ _ _ _ now) = now"
| "topic_op_time (Register_lane _ _ _ _ _ now) = now"
| "topic_op_time (Bind_lane _ _ now) = now"
| "topic_op_time (Archive_lane _ _ _ _ now) = now"
| "topic_op_time (Clean_lane _ _ now) = now"
| "topic_op_time (Reconcile_scopes _ now) = now"

fun run_topic_op :: "(string \<Rightarrow> string) \<Rightarrow> topic_op \<Rightarrow> db \<Rightarrow> (state_error, db, unit) outcome" where
  "run_topic_op resolve (Observe_topic given chat thread title root now) db =
     forget (observe_topic resolve given chat thread title root now db)"
| "run_topic_op resolve (Register_lane i project path branch t now) db = register_lane resolve i project path branch t now db"
| "run_topic_op resolve (Bind_lane i t now) db = forget (bind_lane i t now db)"
| "run_topic_op resolve (Archive_lane i project root now moved) db = archive_lane i project root now moved db"
| "run_topic_op resolve (Clean_lane i now then') db = mark_lane_cleaned i now then' db"
| "run_topic_op resolve (Reconcile_scopes roots now) db = forget (reconcile_legacy_execution_scopes resolve roots now db)"

text \<open>A topic that so far was known by its project only is vacant when it is given its root.\<close>

fun settles_vacant :: "topic_op \<Rightarrow> db \<Rightarrow> bool" where
  "settles_vacant (Observe_topic given chat thread _ _ _) db \<longleftrightarrow>
     (\<forall>t. find_row db chat thread = Some t \<longrightarrow> rootless (py_strip given) t \<longrightarrow> vacant db (tp_topic_id t))"
| "settles_vacant (Reconcile_scopes _ _) db \<longleftrightarrow>
     (\<forall>t \<in> set (db_topics db). rootless (tp_project_id t) t \<longrightarrow> vacant db (tp_topic_id t))"
| "settles_vacant _ db = True"

lemma commit_places: "(\<And>a db'. body db = Inr (a, db') \<Longrightarrow> places_step db db') \<Longrightarrow> places_step db (snd (commit_then body fin db))"
  by (auto simp: commit_then_def split: sum.splits prod.splits)

lemma transact_places: "(\<And>a db'. body db = Inr (a, db') \<Longrightarrow> places_step db db') \<Longrightarrow> places_step db (snd (transact body db))"
  by (auto simp: transact_def split: sum.splits prod.splits)

lemma topic_lanes_row:
  assumes "(t, l) \<in> set (topic_lanes db)"
  shows "t \<in> set (db_topics db) \<and>
    (case l of None \<Rightarrow> \<forall>k \<in> set (db_lanes db). \<not> (wl_topic_id k = Some (tp_topic_id t) \<and> wl_status k = Lane_active)
      | Some k \<Rightarrow> k \<in> set (db_lanes db) \<and> wl_topic_id k = Some (tp_topic_id t) \<and> wl_status k = Lane_active)"
proof -
  let ?at = "\<lambda>x. filter (\<lambda>l. wl_topic_id l = Some (tp_topic_id x) \<and> wl_status l = Lane_active) (db_lanes db)"
  obtain x where x: "x \<in> set (db_topics db)" "(t, l) \<in> set (case ?at x of [] \<Rightarrow> [(x, None)] | ls \<Rightarrow> map (\<lambda>l. (x, Some l)) ls)"
    using assms unfolding topic_lanes_def by auto
  show ?thesis
  proof (cases "?at x")
    case Nil
    then have "t = x" "l = None" using x(2) by simp_all
    then show ?thesis using x(1) Nil by (auto simp: filter_empty_conv)
  next
    case (Cons k ks)
    then have "t = x \<and> (\<exists>k'. l = Some k' \<and> k' \<in> set (?at x))" using x(2) by auto
    then show ?thesis using x(1) by auto
  qed
qed

lemma topic_op_places:
  assumes "keyed db" "settles_vacant op db"
  shows "places_step db (snd (run_topic_op resolve op db))"
proof (cases op)
  case (Observe_topic given chat thread title root now)
  have "places_step db (snd (observe_topic resolve given chat thread title root now db))"
  proof (cases "attempt (check (chat \<noteq> 0 \<and> 0 < thread \<and> py_strip title \<noteq> []) (State_error ''invalid Telegram topic identity'')) (\<lambda>_.
           attempt (bounded given ''project id'' 48) (\<lambda>project.
           attempt (requested_scope resolve root) (\<lambda>requested. Inr (project, requested))))")
    case (Inl e)
    then show ?thesis by (simp add: observe_topic_def)
  next
    case (Inr x)
    then obtain project requested where p: "x = (project, requested)" "bounded given ''project id'' 48 = Inr project"
      by (auto simp: attempt_Inr)
    have "places_step db db'" if "observe_tx given project chat thread title requested now db = Inr (u, db')" for u db'
      using observe_tx_places [OF that assms(1)] assms(2) bounded_strip [OF p(2)] by (simp add: Observe_topic)
    then show ?thesis unfolding observe_topic_def Inr p(1) by (simp add: commit_places)
  qed
  then show ?thesis by (simp add: Observe_topic)
next
  case (Reconcile_scopes roots now)
  have "places_step db db'" if "each_row (reconcile_row rs now) (topic_lanes db) (0, db) = Inr (m, db')" for rs m db'
    using reconcile_places [OF that] assms(2) topic_lanes_row by (fastforce simp: Reconcile_scopes)
  then have "places_step db (snd (reconcile_legacy_execution_scopes resolve roots now db))"
    unfolding reconcile_legacy_execution_scopes_def
    by (auto split: sum.splits intro!: transact_places simp: attempt_Inr)
  then show ?thesis by (simp add: Reconcile_scopes)
next
  case (Register_lane i project path branch t now)
  have "places_step db (snd (register_lane resolve i project path branch t now db))"
    unfolding register_lane_def by (rule transact_places) (rule register_tx_places)
  then show ?thesis by (simp add: Register_lane)
next
  case (Bind_lane i t now)
  have "places_step db (snd (bind_lane i t now db))" unfolding bind_lane_def by (rule commit_places) (rule bind_tx_places)
  then show ?thesis by (simp add: Bind_lane)
next
  case (Archive_lane i project root now moved)
  have "places_step db (snd (archive_lane i project root now moved db))"
    unfolding archive_lane_def by (rule transact_places) (rule archive_tx_places)
  then show ?thesis by (simp add: Archive_lane)
next
  case (Clean_lane i now then')
  have "places_step db (snd (mark_lane_cleaned i now then' db))"
    unfolding mark_lane_cleaned_def by (rule commit_places) (rule mark_cleaned_places)
  then show ?thesis by (simp add: Clean_lane)
qed

end
