(* ===== verification/Adoption_Properties.thy ===== *)
theory Adoption_Properties
  imports Lane_Properties
begin

text \<open>
  The adoption of a thread gives its root to one local writer: the topics that share the checkout are
  idle at that moment, and afterwards the new session is the only writer of the root.
\<close>

lemma each_row_check:
  "each_row (\<lambda>x d. attempt (g d x) (\<lambda>_. Inr d)) xs db = Inr d' \<Longrightarrow> d' = db \<and> (\<forall>x \<in> set xs. g db x = Inr ())"
proof (induction xs)
  case (Cons x xs)
  obtain u where "g db x = Inr u" "each_row (\<lambda>x d. attempt (g d x) (\<lambda>_. Inr d)) xs db = Inr d'"
    using Cons.prems by (auto simp: attempt_Inr)
  then show ?case using Cons.IH by simp
qed simp

lemma adoption_idle_vacant:
  assumes "adoption_idle db t = Inr ()" shows "vacant db t"
proof -
  have i: "\<not> topic_has_pending db t" "\<not> exists_row (\<lambda>j. pj_topic_id j = t \<and> unresolved db j) (db_jobs db)"
    "\<not> exists_row (\<lambda>s. ss_topic_id s = t \<and> ss_status s \<noteq> Archived \<and> ss_writer_mode s \<noteq> Telegram_writer) (db_sessions db)"
    using assms by (simp_all add: adoption_idle_def attempt_Inr Let_def)
  have "pj_status j \<notin> {Leased, Executing} \<and> \<not> uncertain db j" if "j \<in> set (db_jobs db)" "pj_topic_id j = t" for j
    using i(1,2) that
    by (auto simp: topic_has_pending_def exists_row_iff open_statuses_def result_ready_control_reconciled_def
      unresolved_def uncertain_def resolved_outcome_def)
  moreover have "ss_writer_mode s = Telegram_writer" if "s \<in> set (db_sessions db)" "ss_topic_id s = t" "retained s" for s
    using i(3) that by (auto simp: exists_row_iff retained_def)
  ultimately show ?thesis by (simp add: vacant_def)
qed

text \<open>What a preview has seen of the topic it accepts.\<close>

lemma preview_Inr:
  assumes "preview q db = Inr target"
  obtains t where "find_row db (ad_chat_id q) (ad_thread_id q) = Some t" "at_topic target = topic_record_of t"
    "starts_with (topic_scope t) ''root:'' \<longrightarrow> topic_scope t = root_scope (ad_canonical_root q)"
    "\<not> at_already_attached target \<longrightarrow> at_session target = active_session db (tp_topic_id t) \<and>
       makes_room q (active_session db (tp_topic_id t)) = Inr None \<and> vacant db (tp_topic_id t) \<and>
       (ad_replaces_session_id q \<noteq> None \<or> topic_empty db (tp_topic_id t)) \<and>
       (\<forall>x \<in> set (db_topics db). tp_topic_id x \<noteq> tp_topic_id t \<longrightarrow> shares_root q db x \<longrightarrow> vacant db (tp_topic_id x))"
proof -
  obtain t where t: "target_topic q db = Inr t"
    "\<not> (starts_with (topic_scope t) ''root:'' \<and> topic_scope t \<noteq> root_scope (ad_canonical_root q))"
    "(case adopted_from db (ad_provider_thread_id q) of
       Some o' \<Rightarrow> (case active_session db (tp_topic_id t) of
            None \<Rightarrow> Inl (State_error ''binding_superseded'')
          | Some s \<Rightarrow> if sn_session_id s \<noteq> og_session_id o' then Inl (State_error ''binding_superseded'')
              else attempt (check (same_adoption q o' s) (State_error ''binding_conflict'')) (\<lambda>_.
                Inr \<lparr>at_topic = topic_record_of t, at_session = Some s, at_already_attached = True\<rparr>))
     | None \<Rightarrow> preview_new q t (active_session db (tp_topic_id t)) db) = Inr target"
    using assms unfolding preview_def Let_def by (auto simp: attempt_Inr)
  have f: "find_row db (ad_chat_id q) (ad_thread_id q) = Some t"
    using t(1) by (auto simp: target_topic_def Let_def split: option.splits if_splits)
  show ?thesis
  proof (cases "adopted_from db (ad_provider_thread_id q)")
    case (Some o')
    then have "at_topic target = topic_record_of t" "at_already_attached target"
      using t(3) by (auto simp: attempt_Inr split: option.splits if_splits)
    then show ?thesis using that [OF f] t(2) by blast
  next
    case None
    then have p: "preview_new q t (active_session db (tp_topic_id t)) db = Inr target" using t(3) by simp
    then obtain there where r: "makes_room q (active_session db (tp_topic_id t)) = Inr there" by (auto simp: preview_new_def attempt_Inr)
    show ?thesis
    proof (cases there)
      case (Some s)
      then have "at_topic target = topic_record_of t" "at_already_attached target" using p r by (auto simp: preview_new_def)
      then show ?thesis using that [OF f] t(2) by blast
    next
      case none: None
      obtain d where n: "adoption_idle db (tp_topic_id t) = Inr ()" "ad_replaces_session_id q \<noteq> None \<or> topic_empty db (tp_topic_id t)"
        "each_row (\<lambda>x d. attempt (adoption_idle d (tp_topic_id x)) (\<lambda>_. Inr d))
           (filter (\<lambda>x. tp_topic_id x \<noteq> tp_topic_id t \<and> shares_root q db x) (db_topics db)) db = Inr d"
        "target = \<lparr>at_topic = topic_record_of t, at_session = active_session db (tp_topic_id t), at_already_attached = False\<rparr>"
        using p by (auto simp: preview_new_def r none attempt_Inr)
      have "vacant db (tp_topic_id x)" if "x \<in> set (db_topics db)" "tp_topic_id x \<noteq> tp_topic_id t" "shares_root q db x" for x
        using each_row_check [OF n(3)] that adoption_idle_vacant by simp
      then show ?thesis
        using that [OF f] t(2) n(2,4) r none adoption_idle_vacant [OF n(1)] by simp
    qed
  qed
qed


lemma session_of_new:
  assumes "db_sessions db = rows @ [n]" "ss_session_id n \<notin> ss_session_id ` set rows"
  shows "session_of db (ss_session_id n) = Some n"
proof -
  have "find (\<lambda>s. ss_session_id s = ss_session_id n) rows = None" using assms(2) by (auto simp: find_None_iff image_iff)
  then show ?thesis by (simp add: session_of_def assms(1) find_append_None)
qed

text \<open>The new session, before it takes the thread: one active session of the topic, and no new writer.\<close>

lemma adopted_row:
  assumes "attempt (case at_session target of None \<Rightarrow> Inr db | Some s \<Rightarrow> set_status (sn_session_id s) Archived now db)
      (insert_session fresh t ''codex'' model effort Active pr now) = Inr db2"
    "sessions_ok db" "fresh \<notin> ss_session_id ` set (db_sessions db)" "\<not> clash pr"
    "at_session target = active_session db t" "\<And>s. active_session db t = Some s \<Longrightarrow> sn_agent_id s = ''codex''"
    "\<And>s. active_session db t = None \<Longrightarrow> s \<in> set (db_sessions db) \<Longrightarrow> ss_topic_id s \<noteq> t"
  shows "raised t ''codex'' db db2 \<and> session_step db db2 \<and> (\<exists>n. session_of db2 fresh = Some n \<and> ss_topic_id n = t)"
proof (cases "active_row db t")
  case None
  then have none: "active_session db t = None" by (simp add: active_session_def)
  have i: "insert_session fresh t ''codex'' model effort Active pr now db = Inr db2" using assms(1,5) none by simp
  have k: "kept_once (db_sessions db)" using assms(2) by (simp add: sessions_ok_def)
  have r: "raise_session fresh t ''codex'' model effort True pr now None db = Inr (fresh, db2)" by (simp add: raise_session_def i)
  have free: "\<And>s. s \<in> set (db_sessions db) \<Longrightarrow> ss_topic_id s = t \<Longrightarrow> ss_status s \<noteq> Active" using assms(7) [OF none] by blast
  have "raised t ''codex'' db db2"
    using raise_ok [OF k sessions_ok_one_active [OF assms(2)] assms(3,4) free, where agent="''codex''" and target=None] assms(7) [OF none] r
    by fastforce
  moreover have "\<exists>n. session_of db2 fresh = Some n \<and> ss_topic_id n = t"
  proof -
    obtain n where "db_sessions db2 = db_sessions db @ [n]" "ss_session_id n = fresh" "ss_topic_id n = t"
      using i by (auto simp: insert_session_def attempt_Inr put_sessions_Inr new_session_def)
    then show ?thesis using session_of_new [of db2 "db_sessions db" n] assms(3) by blast
  qed
  ultimately show ?thesis using insert_session_step [OF i] by blast
next
  case (Some r)
  note ar = active_row_Some [OF Some]
  have s: "active_session db t = Some (session_record_of r)" "ss_agent_id r = ''codex''"
    using assms(6) Some by (simp_all add: active_session_def session_record_of_def)
  obtain db1 where d: "set_status (ss_session_id r) Archived now db = Inr db1"
    "insert_session fresh t ''codex'' model effort Active pr now db1 = Inr db2"
    using assms(1,5) s(1) by (auto simp: attempt_Inr session_record_of_def)
  have w: "replace_with fresh r model effort pr now db = Inr (fresh, db2)" using d ar s(2) by (simp add: replace_with_def)
  have k: "kept_once (db_sessions db)" using assms(2) by (simp add: sessions_ok_def)
  have ok: "sessions_ok db2" using keeps_replace_with [OF assms(2-4)] ar w by blast
  have rows: "db_sessions db1 = status_rows (ss_session_id r) Archived now (db_sessions db)" "db_topics db1 = db_topics db"
    using d(1) by (auto simp: set_status_def put_sessions_Inr status_rows_def)
  obtain n where n: "db_sessions db2 = db_sessions db1 @ [n]" "ss_session_id n = fresh" "ss_topic_id n = t" "ss_agent_id n = ''codex''"
    "db_topics db2 = db_topics db"
    using d(2) rows(2) by (auto simp: insert_session_def attempt_Inr put_sessions_Inr new_session_def)
  have old: "ss_topic_id x \<noteq> t \<and> (\<exists>s0 \<in> set (db_sessions db). ss_status s0 = Active \<and> ss_topic_id s0 = ss_topic_id x \<and> ss_agent_id s0 = ss_agent_id x)"
    if x: "x \<in> set (db_sessions db1)" "ss_status x = Active" for x
  proof -
    obtain s0 where s0: "s0 \<in> set (db_sessions db)" "same_session s0 x"
      "ss_status x = (if ss_session_id s0 = ss_session_id r then Archived else ss_status s0)"
      using x(1) unfolding rows by (rule status_rows_set)
    have a: "ss_session_id s0 \<noteq> ss_session_id r" "ss_status s0 = Active" using s0(3) x(2) by (auto split: if_splits)
    have "ss_topic_id s0 \<noteq> t" using sessions_ok_one_active [OF assms(2)] s0(1) a ar by (auto simp: one_active_def dest: inj_onD)
    then show ?thesis using s0 a by (auto simp: same_session_def)
  qed
  have "raised t ''codex'' db db2"
    unfolding raised_def using ok n old by (auto simp: sessions_ok_def)
  moreover have "fresh \<notin> ss_session_id ` set (db_sessions db1)"
    using assms(3) ids_kept [OF d(1)] by (metis list.set_map)
  then have "session_of db2 fresh = Some n"
    using session_of_new [OF n(1)] by (simp add: n(2))
  ultimately show ?thesis using replace_with_step [OF w] k n(3) by (simp add: kept_once_def)
qed


lemma keeps_origin: "put_origin o' db = Inr db' \<Longrightarrow> db_jobs db' = db_jobs db \<and> db_sessions db' = db_sessions db \<and>
    db_topics db' = db_topics db \<and> db_holds db' = db_holds db \<and> db_evidence db' = db_evidence db \<and> db_resolutions db' = db_resolutions db"
  by (auto simp: put_origin_def split: if_splits)

lemma raised_take:
  assumes "raised t agent db db'" shows "raised t agent db (take_thread i thread db')"
proof -
  let ?f = "\<lambda>s. s\<lparr>ss_provider_session_id := Some thread, ss_writer_mode := Local_writer\<rparr>"
  have k: "kept_once (db_sessions (take_thread i thread db'))"
    unfolding take_thread_def using assms kept_once_update [where f="?f"]
    by (simp add: raised_def same_session_def retained_def)
  have rows: "\<exists>s0 \<in> set (db_sessions db'). ss_status s0 = ss_status s \<and> ss_topic_id s0 = ss_topic_id s \<and> ss_agent_id s0 = ss_agent_id s"
    if "s \<in> set (db_sessions (take_thread i thread db'))" for s
    using that by (auto simp: take_thread_def set_update_where)
  have "db_topics (take_thread i thread db') = db_topics db'" by (simp add: take_thread_def)
  then show ?thesis using assms k rows unfolding raised_def by (metis (no_types, lifting))
qed

lemma raised_sessions: "raised t agent db db' \<Longrightarrow> db_sessions d = db_sessions db' \<Longrightarrow> db_topics d = db_topics db' \<Longrightarrow> raised t agent db d"
  by (simp add: raised_def)

lemma work_ok_sessions:
  assumes "work_ok now db" "db_jobs db' = db_jobs db" "db_sessions db' = db_sessions db" "db_topics db' = db_topics db"
    "db_holds db' = db_holds db" "db_evidence db' = db_evidence db" "db_resolutions db' = db_resolutions db"
  shows "work_ok now db'"
proof -
  have "calm now db db'"
    using unchanged_calmly [of db' db now] assms(2-7) by (simp add: calmly_def)
  then show ?thesis using calm_work_ok assms(1) by blast
qed

text \<open>The root of the topic is free, so the new session may write it from outside.\<close>

lemma adopt_session_hub_ok:
  assumes a: "adopt_session q fresh pr now target db = Inr db'" and ok: "hub_ok now db"
    and fresh: "fresh \<notin> ss_session_id ` set (db_sessions db)" "\<not> clash pr" and t: "t = tr_topic_id (at_topic target)"
    and current: "at_session target = active_session db t" "\<And>s. active_session db t = Some s \<Longrightarrow> sn_agent_id s = ''codex''"
      "\<And>s. active_session db t = None \<Longrightarrow> s \<in> set (db_sessions db) \<Longrightarrow> ss_topic_id s \<noteq> t"
    and root: "scope_of db t = Some scope" "\<And>u. scope_of db u = Some scope \<Longrightarrow> vacant db u"
  shows "hub_ok now db'"
proof -
  have s: "sessions_ok db" "work_ok now db" using ok by (simp_all add: hub_ok_def)
  obtain db1 db2 db3 where d: "(case at_session target of None \<Rightarrow> Inr db | Some s \<Rightarrow> set_status (sn_session_id s) Archived now db) = Inr db1"
    "insert_session fresh t ''codex'' (ad_model q) (ad_effort q) Active pr now db1 = Inr db2"
    "put_origin (new_origin q fresh now) (take_thread fresh (ad_provider_thread_id q) db2) = Inr db3"
    "db' = put_active_agent t ''codex'' now db3"
    using a t by (auto simp: adopt_session_def attempt_Inr Let_def)
  have r: "raised t ''codex'' db db2" "session_step db db2" "\<exists>n. session_of db2 fresh = Some n \<and> ss_topic_id n = t"
    using adopted_row [OF _ s(1) fresh current, of now "ad_model q" "ad_effort q" db2] d(1,2) by (auto simp: attempt_Inr)
  obtain n where n: "session_of db2 fresh = Some n" "ss_topic_id n = t" using r(3) by blast
  have same: "db_jobs db2 = db_jobs db" "db_evidence db2 = db_evidence db" "db_resolutions db2 = db_resolutions db"
    "scope_of db2 = scope_of db" "outside db2 \<subseteq> outside db"
    using r(2) by (simp_all add: session_step_def)
  have w2: "work_ok now db2" using calm_work_ok [OF session_step_calm [OF r(2)] s(2)] .
  have occ: "occupies_root db2 now = occupies_root db now"
    using same by (simp add: fun_eq_iff occupies_root_def uncertain_def resolved_outcome_def terminal_outcome_def)
  have w3: "work_ok now (take_thread fresh (ad_provider_thread_id q) db2)"
    unfolding take_thread_def
  proof (rule take_root_work_ok [OF n(1) _ w2])
    show "scope_of db2 (ss_topic_id n) = Some scope" using root(1) n(2) same(4) by simp
    show "distinct (map ss_session_id (db_sessions db2))" using r(1) by (simp add: raised_def kept_once_def)
    show "scope_of db2 (pj_topic_id j) \<noteq> Some scope" if "j \<in> set (db_jobs db2)" "occupies_root db2 now j" for j
      using root(2) vacant_job that unfolding same(1,4) occ by blast
    show "scope_of db2 u \<noteq> Some scope" if "(i', u) \<in> outside db2" for i' u
      using root(2) vacant_session that same(5) unfolding same(4) by blast
  qed simp_all
  have "work_ok now db3" by (rule work_ok_sessions [OF w3]) (use keeps_origin [OF d(3)] in simp_all)
  then have "work_ok now db'" unfolding d(4) using calm_work_ok [OF session_step_calm [OF put_agent_step]] by blast
  moreover have "raised t ''codex'' db db3"
    by (rule raised_sessions [OF raised_take [OF r(1)]]) (use keeps_origin [OF d(3)] in simp_all)
  then have "sessions_ok db'"
    unfolding d(4) using raised_put s(1) root(1) by (fastforce simp: sessions_ok_def scope_of_def)
  ultimately show ?thesis by (simp add: hub_ok_def)
qed


text \<open>What a successful attachment did: the scope of the topic, and unless the thread was there, the session.\<close>

lemma attach_locked_Inr:
  assumes "attach_locked q expected fresh pr moved now db = Inr (r, db')"
  obtains target db1 where "preview q db = Inr target" "pr = Inr (ad_codex_permission_profile q)"
    "put_scope (tr_topic_id (at_topic target)) (root_scope (ad_canonical_root q)) moved db = Inr db1"
    "if at_already_attached target then db' = db1 else adopt_session q fresh pr now target db1 = Inr db'"
proof -
  have "\<exists>target db1. preview q db = Inr target \<and> pr = Inr (ad_codex_permission_profile q) \<and>
    put_scope (tr_topic_id (at_topic target)) (root_scope (ad_canonical_root q)) moved db = Inr db1 \<and>
    (if at_already_attached target then db' = db1 else adopt_session q fresh pr now target db1 = Inr db')"
    using assms by (auto simp: attach_locked_def attempt_Inr Let_def split: if_splits)
  then show ?thesis using that by blast
qed

lemma put_scope_scopes:
  assumes "put_scope t scope now db = Inr db'"
  shows "scope_of db' u = (if u = t \<and> scope_of db t \<noteq> None then Some scope else scope_of db u)"
proof -
  have "topic_of db' u = map_option (\<lambda>x. if tp_topic_id x = t then x\<lparr>tp_execution_scope := Some scope, tp_updated_at := now\<rparr> else x) (topic_of db u)"
    unfolding put_topics_Inr [OF assms [unfolded put_scope_def]] by (rule topic_of_update) simp
  then show ?thesis by (cases "topic_of db u") (auto simp: scope_of_def topic_scope_def dest: topic_of_id)
qed

lemma put_scope_keeps: "put_scope t scope now db = Inr db' \<Longrightarrow> db_sessions db' = db_sessions db \<and> db_jobs db' = db_jobs db \<and>
    db_evidence db' = db_evidence db \<and> db_resolutions db' = db_resolutions db"
  using put_topics_Inr by (fastforce simp: put_scope_def)

lemma room_made:
  assumes "makes_room q (active_session db t) = Inr None" "ad_replaces_session_id q \<noteq> None \<or> topic_empty db t"
  shows "active_session db t = Some s \<Longrightarrow> sn_agent_id s = ''codex''"
    and "active_session db t = None \<Longrightarrow> x \<in> set (db_sessions db) \<Longrightarrow> ss_topic_id x \<noteq> t"
proof -
  show "active_session db t = Some s \<Longrightarrow> sn_agent_id s = ''codex''"
    using assms(1) by (auto simp: makes_room_def split: option.splits if_splits)
  show "ss_topic_id x \<noteq> t" if none: "active_session db t = None" and x: "x \<in> set (db_sessions db)"
  proof
    assume t: "ss_topic_id x = t"
    have "ad_replaces_session_id q = None" using assms(1) none by (auto simp: makes_room_def split: option.splits)
    then have "topic_empty db t" using assms(2) by simp
    then have "ss_status x = Active" using x t unfolding topic_empty_def by (auto simp: exists_row_iff)
    then show False using none x t by (auto simp: active_session_def active_row_def find_None_iff)
  qed
qed

lemma attach_hub_ok:
  assumes a: "attach_locked q expected fresh pr moved now db = Inr (r, db')" and ok: "hub_ok now db" and keyed: "keyed db"
    and fresh: "fresh \<notin> ss_session_id ` set (db_sessions db)" "\<not> clash pr"
    and legacy: "\<And>t. find_row db (ad_chat_id q) (ad_thread_id q) = Some t \<Longrightarrow> starts_with (topic_scope t) ''root:'' \<or> vacant db (tp_topic_id t)"
  shows "hub_ok now db'"
  using a
proof (rule attach_locked_Inr)
  let ?R = "root_scope (ad_canonical_root q)"
  fix target db1 assume d: "preview q db = Inr target" "put_scope (tr_topic_id (at_topic target)) ?R moved db = Inr db1"
    "if at_already_attached target then db' = db1 else adopt_session q fresh pr now target db1 = Inr db'"
  obtain t where t: "find_row db (ad_chat_id q) (ad_thread_id q) = Some t" "at_topic target = topic_record_of t"
    "starts_with (topic_scope t) ''root:'' \<longrightarrow> topic_scope t = ?R"
    "\<not> at_already_attached target \<longrightarrow> at_session target = active_session db (tp_topic_id t) \<and>
       makes_room q (active_session db (tp_topic_id t)) = Inr None \<and> vacant db (tp_topic_id t) \<and>
       (ad_replaces_session_id q \<noteq> None \<or> topic_empty db (tp_topic_id t)) \<and>
       (\<forall>x \<in> set (db_topics db). tp_topic_id x \<noteq> tp_topic_id t \<longrightarrow> shares_root q db x \<longrightarrow> vacant db (tp_topic_id x))"
    by (rule preview_Inr [OF d(1)])
  have id: "tr_topic_id (at_topic target) = tp_topic_id t" by (simp add: t(2) topic_record_of_def)
  note row = keyed_row [OF keyed, of t] find_Some_set [OF t(1) [unfolded find_row_def]]
  have "places_step db db1"
  proof (cases "vacant db (tp_topic_id t)")
    case True
    then show ?thesis using put_scope_places d(2) by (simp add: id)
  next
    case False
    then have "topic_scope t = ?R" using legacy [OF t(1)] t(3) by blast
    then show ?thesis using row
      by (intro put_topics_places [OF d(2) [unfolded put_scope_def id]]) (auto simp: topic_scope_def)
  qed
  then have ok1: "hub_ok now db1" by (rule places_hub_ok [OF _ ok])
  show ?thesis
  proof (cases "at_already_attached target")
    case True
    then show ?thesis using d(3) ok1 by simp
  next
    case False
    note p = t(4) [THEN mp, OF False] and same = put_scope_keeps [OF d(2)]
    have as: "active_session db1 = active_session db" using same by (simp add: fun_eq_iff active_session_def active_row_def)
    have v: "vacant db1 u \<longleftrightarrow> vacant db u" for u by (rule vacant_same) (use same in simp_all)
    note sc = put_scope_scopes [OF d(2), unfolded id]
    have free: "vacant db1 u" if "scope_of db1 u = Some ?R" for u
    proof (cases "u = tp_topic_id t")
      case True
      then show ?thesis using p v by simp
    next
      case other: False
      then have "scope_of db u = Some ?R" using that by (simp add: sc)
      then have "\<exists>x. topic_of db u = Some x \<and> topic_scope x = ?R" by (auto simp: scope_of_def)
      then obtain x where x: "topic_of db u = Some x" "topic_scope x = ?R" by blast
      then show ?thesis using p v topic_of_id [OF x(1)] other by (auto simp: shares_root_def)
    qed
    show ?thesis
    proof (rule adopt_session_hub_ok [OF _ ok1 _ fresh(2) refl])
      show "adopt_session q fresh pr now target db1 = Inr db'" using d(3) False by simp
      show "fresh \<notin> ss_session_id ` set (db_sessions db1)" using fresh(1) same by simp
      show "at_session target = active_session db1 (tr_topic_id (at_topic target))" using p by (simp add: as id)
      show "sn_agent_id s = ''codex''" if "active_session db1 (tr_topic_id (at_topic target)) = Some s" for s
        using room_made(1) [of q db "tp_topic_id t" s] p that by (simp add: as id)
      show "ss_topic_id s \<noteq> tr_topic_id (at_topic target)"
        if "active_session db1 (tr_topic_id (at_topic target)) = None" "s \<in> set (db_sessions db1)" for s
        using room_made(2) [of q db "tp_topic_id t" s] p that same by (simp add: as id)
      show "scope_of db1 (tr_topic_id (at_topic target)) = Some ?R"
        using row(1,2) unfolding id sc by (simp add: scope_of_def)
      show "vacant db1 u" if "scope_of db1 u = Some ?R" for u using free that .
    qed
  qed
qed

end
