(* ===== verification/Lane_Agreement.thy ===== *)
theory Lane_Agreement
  imports Lane_Properties
begin

text \<open>
  A worktree lane and the topic it is bound to always agree on the root, whatever is done to topics and
  lanes; the error that reports a disagreement is never raised.
\<close>

definition agrees :: "db \<Rightarrow> lane \<Rightarrow> bool" where
  "agrees db l \<longleftrightarrow> (\<exists>t \<in> set (db_topics db). wl_topic_id l = Some (tp_topic_id t) \<and> tp_project_id t = wl_project_id l \<and>
     tp_execution_scope t = Some (root_scope (wl_worktree_path l)))"

definition lanes_ok :: "db \<Rightarrow> bool" where
  "lanes_ok db \<longleftrightarrow> distinct (map tp_topic_id (db_topics db)) \<and> lanes_valid (db_lanes db) \<and>
     (\<forall>l \<in> set (db_lanes db). bound_active l \<longrightarrow> agrees db l)"

text \<open>The lanes bound to a topic at a time: at most one.\<close>

definition binds :: "lane \<Rightarrow> int \<Rightarrow> bool" where
  "binds l t \<longleftrightarrow> wl_topic_id l = Some t \<and> wl_status l = Lane_active"

lemma lanes_okD:
  assumes "lanes_ok db" "l \<in> set (db_lanes db)" "binds l (tp_topic_id t)" "t \<in> set (db_topics db)"
  shows "tp_execution_scope t = Some (root_scope (wl_worktree_path l))" "tp_project_id t = wl_project_id l"
proof -
  have "bound_active l" using assms(3) by (simp add: binds_def bound_active_def)
  then have "agrees db l" using assms(1,2) unfolding lanes_ok_def by blast
  then obtain x where x: "x \<in> set (db_topics db)" "tp_topic_id x = tp_topic_id t" "tp_project_id x = wl_project_id l"
    "tp_execution_scope x = Some (root_scope (wl_worktree_path l))" using assms(3) by (auto simp: agrees_def binds_def)
  have "x = t" using assms(1,4) x(1,2) by (auto simp: lanes_ok_def distinct_map dest: inj_onD)
  then show "tp_execution_scope t = Some (root_scope (wl_worktree_path l))" "tp_project_id t = wl_project_id l" using x by simp_all
qed

lemma one_lane:
  assumes "lanes_valid ls" "l \<in> set ls" "k \<in> set ls" "binds l t" "binds k t"
  shows "k = l"
proof -
  have "distinct (map wl_topic_id (filter bound_active ls))" using assms(1) by (simp add: lanes_valid_def)
  moreover have "l \<in> set (filter bound_active ls)" "k \<in> set (filter bound_active ls)" "wl_topic_id k = wl_topic_id l"
    using assms(2-5) by (auto simp: binds_def bound_active_def)
  ultimately show ?thesis by (metis distinct_map inj_onD)
qed

text \<open>An update of topics that keeps the identity of each row, and the scope of the rows a lane is bound to.\<close>

lemma update_topics_ok:
  assumes "put_topics p f db = Inr db'" "lanes_ok db"
    "\<And>x. tp_topic_id (f x) = tp_topic_id x \<and> tp_project_id (f x) = tp_project_id x"
    "\<And>x l. x \<in> set (db_topics db) \<Longrightarrow> p x \<Longrightarrow> l \<in> set (db_lanes db) \<Longrightarrow> binds l (tp_topic_id x) \<Longrightarrow>
       tp_execution_scope (f x) = tp_execution_scope x"
  shows "lanes_ok db'"
proof -
  note db' = put_topics_Inr [OF assms(1)]
  have ids: "map tp_topic_id (db_topics db') = map tp_topic_id (db_topics db)"
    unfolding db' using assms(3) by (simp add: map_update_where)
  have "agrees db' l" if l: "l \<in> set (db_lanes db)" "bound_active l" for l
  proof -
    obtain t where t: "t \<in> set (db_topics db)" "wl_topic_id l = Some (tp_topic_id t)" "tp_project_id t = wl_project_id l"
      "tp_execution_scope t = Some (root_scope (wl_worktree_path l))"
      using assms(2) l unfolding lanes_ok_def agrees_def by blast
    let ?t = "if p t then f t else t"
    have "binds l (tp_topic_id t)" using l(2) t(2) by (simp add: binds_def bound_active_def)
    then have "tp_execution_scope ?t = tp_execution_scope t" using assms(4) [OF t(1) _ l(1)] by simp
    moreover have "?t \<in> set (db_topics db')" using t(1) unfolding db' by (auto simp: set_update_where)
    ultimately show ?thesis unfolding agrees_def using t assms(3) by (intro bexI [of _ ?t]) auto
  qed
  then show ?thesis using assms(2) ids by (auto simp: lanes_ok_def db')
qed

text \<open>A change of lanes whose active ones were bound before.\<close>

lemma update_lanes_ok:
  assumes "lanes_valid ls" "lanes_ok db"
    "\<And>l. l \<in> set ls \<Longrightarrow> bound_active l \<Longrightarrow> \<exists>k \<in> set (db_lanes db). bound_active k \<and> wl_topic_id l = wl_topic_id k \<and>
       wl_project_id l = wl_project_id k \<and> wl_worktree_path l = wl_worktree_path k"
  shows "lanes_ok (db\<lparr>db_lanes := ls\<rparr>)"
proof -
  have "agrees db l" if "l \<in> set ls" "bound_active l" for l
    using assms(2,3) that unfolding lanes_ok_def agrees_def by metis
  then show ?thesis using assms(1,2) by (simp add: lanes_ok_def agrees_def)
qed

section \<open>The operations\<close>

lemma observe_tx_ok:
  assumes "observe_tx given project chat thread title requested now db = Inr (u, db')" "lanes_ok db"
    "\<And>r. requested = Some r \<Longrightarrow> \<exists>p. r = root_scope p"
  shows "lanes_ok db'"
proof (cases "find_row db chat thread")
  case None
  let ?n = "\<lparr>tp_topic_id = next_topic_id db, tp_project_id = project, tp_chat_id = chat, tp_thread_id = thread,
    tp_title = py_strip title, tp_active_agent_id = None,
    tp_execution_scope = Some (case requested of None \<Rightarrow> ''project:'' @ project | Some r \<Rightarrow> r), tp_updated_at = now\<rparr>"
  have db': "db' = db\<lparr>db_topics := db_topics db @ [?n]\<rparr>" using assms(1) None by (cases requested) (simp_all add: observe_tx_def Let_def)
  have "next_topic_id db \<notin> tp_topic_id ` set (db_topics db)"
    using next_topic_id_new [of db] by (auto simp: topic_of_def find_None_iff)
  then show ?thesis using assms(2) by (auto simp: db' lanes_ok_def agrees_def)
next
  case (Some t)
  note f = find_Some_set [OF Some [unfolded find_row_def]]
  obtain scope where s: "tp_project_id t = given" "next_scope db (''project:'' @ project) requested t = Inr scope"
    "put_topics (\<lambda>x. tp_topic_id x = tp_topic_id t)
      (\<lambda>x. x\<lparr>tp_title := py_strip title, tp_execution_scope := Some scope, tp_updated_at := now\<rparr>) db = Inr db'"
    using assms(1) Some by (auto simp: observe_tx_def Let_def attempt_Inr)
  show ?thesis
  proof (rule update_topics_ok [OF s(3) assms(2)])
    fix x l assume x: "x \<in> set (db_topics db)" "tp_topic_id x = tp_topic_id t" "l \<in> set (db_lanes db)" "binds l (tp_topic_id x)"
    have t: "x = t" using assms(2) x(1,2) f by (auto simp: lanes_ok_def distinct_map dest: inj_onD)
    then have e: "tp_execution_scope t = Some (root_scope (wl_worktree_path l))" using lanes_okD(1) [OF assms(2) x(3,4,1)] by simp
    then have "scope = root_scope (wl_worktree_path l)" using s(2) assms(3)
      by (auto simp: next_scope_def Let_def stored_scope_def root_scope_def attempt_Inr split: option.splits if_splits)
    then show "tp_execution_scope (x\<lparr>tp_title := py_strip title, tp_execution_scope := Some scope, tp_updated_at := now\<rparr>)
        = tp_execution_scope x" using e t by simp
  qed simp
qed

lemma bindable_Inr:
  assumes "bindable db i t = Inr l"
  shows "lane_of db i = Some l \<and> wl_status l = Lane_active \<and> wl_topic_id l = None \<and>
    (\<exists>topic. topic_of db t = Some topic \<and> wl_project_id l = tp_project_id topic) \<and>
    (\<forall>k \<in> set (db_lanes db). binds k t \<longrightarrow> wl_lane_id k = i)"
  using assms by (auto simp: bindable_def attempt_Inr exists_row_iff binds_def split: option.splits)

lemma bind_tx_ok:
  assumes "bind_tx i t now db = Inr (u, db')" "lanes_ok db"
  shows "lanes_ok db'"
  using assms(1)
proof (rule bind_tx_Inr)
  fix l db1 assume b: "bindable db i t = Inr l"
    "put_lanes (update_where (\<lambda>k. wl_lane_id k = i) (\<lambda>k. k\<lparr>wl_topic_id := Some t, wl_updated_at := now\<rparr>) (db_lanes db)) db = Inr db1"
    "put_scope t (root_scope (wl_worktree_path l)) now db1 = Inr db'"
  let ?ls = "update_where (\<lambda>k. wl_lane_id k = i) (\<lambda>k. k\<lparr>wl_topic_id := Some t, wl_updated_at := now\<rparr>) (db_lanes db)"
  note p = bindable_Inr [OF b(1)]
  have l: "l \<in> set (db_lanes db)" "wl_lane_id l = i" using p find_Some_set [of _ "db_lanes db" l] by (auto simp: lane_of_def)
  obtain topic where t: "topic_of db t = Some topic" "wl_project_id l = tp_project_id topic" using p by blast
  note topic = topic_of_id [OF t(1)]
  have db1: "lanes_valid ?ls" "db1 = db\<lparr>db_lanes := ?ls\<rparr>" using b(2) by (simp_all add: put_lanes_Inr)
  have d: "distinct (map tp_topic_id (db_topics db))" "lanes_valid (db_lanes db)" using assms(2) by (simp_all add: lanes_ok_def)
  have topics: "db_topics db' = update_where (\<lambda>x. tp_topic_id x = t)
      (\<lambda>x. x\<lparr>tp_execution_scope := Some (root_scope (wl_worktree_path l)), tp_updated_at := now\<rparr>) (db_topics db)"
    and lanes: "db_lanes db' = ?ls"
    using put_topics_Inr [OF b(3) [unfolded put_scope_def]] by (simp_all add: db1(2))
  have "agrees db' k" if k: "k \<in> set ?ls" "bound_active k" for k
  proof -
    obtain k0 where k0: "k0 \<in> set (db_lanes db)" "k = (if wl_lane_id k0 = i then k0\<lparr>wl_topic_id := Some t, wl_updated_at := now\<rparr> else k0)"
      using k(1) by (auto simp: set_update_where)
    show ?thesis
    proof (cases "wl_lane_id k0 = i")
      case True
      have "k0 = l" using d(2) k0(1) l True by (auto simp: lanes_valid_def distinct_map dest: inj_onD)
      moreover have "topic\<lparr>tp_execution_scope := Some (root_scope (wl_worktree_path l)), tp_updated_at := now\<rparr> \<in> set (db_topics db')"
        unfolding topics set_update_where using topic by force
      ultimately show ?thesis unfolding agrees_def using k0(2) True topic t(2)
        by (intro bexI [of _ "topic\<lparr>tp_execution_scope := Some (root_scope (wl_worktree_path l)), tp_updated_at := now\<rparr>"]) simp_all
    next
      case False
      then have "agrees db k" using assms(2) k0 k(2) by (simp add: lanes_ok_def)
      then obtain x where x: "x \<in> set (db_topics db)" "wl_topic_id k = Some (tp_topic_id x)" "tp_project_id x = wl_project_id k"
        "tp_execution_scope x = Some (root_scope (wl_worktree_path k))" by (auto simp: agrees_def)
      have "binds k0 (tp_topic_id x)" using k(2) k0(2) False x(2) by (simp add: binds_def bound_active_def)
      then have "tp_topic_id x \<noteq> t" using p k0(1) False by blast
      then have "x \<in> set (db_topics db')" unfolding topics using x(1) by (force simp: set_update_where)
      then show ?thesis unfolding agrees_def using x by blast
    qed
  qed
  moreover have "map tp_topic_id (db_topics db') = map tp_topic_id (db_topics db)" unfolding topics by (simp add: map_update_where)
  ultimately show "lanes_ok db'" using d db1(1) by (simp add: lanes_ok_def lanes)
qed

lemma register_tx_ok:
  assumes "register_tx i project path branch topic now db = Inr (u, db')" "lanes_ok db"
  shows "lanes_ok db'"
proof -
  obtain db1 where r: "put_lanes (db_lanes db @ [\<lparr>wl_lane_id = i, wl_project_id = project, wl_topic_id = None,
       wl_worktree_path = path, wl_branch_name = branch, wl_status = Lane_active, wl_created_at = now,
       wl_updated_at = now, wl_cleaned_at = None\<rparr>]) db = Inr db1"
    "(case topic of None \<Rightarrow> Inr ((), db1) | Some t \<Rightarrow> bind_tx i t now db1) = Inr (u, db')"
    using assms(1) by (auto simp: register_tx_def attempt_Inr)
  have "lanes_ok db1" using r(1) assms(2) unfolding put_lanes_Inr
    by (elim conjE, hypsubst, intro update_lanes_ok) (auto simp: bound_active_def)
  then show ?thesis using r(2) bind_tx_ok by (cases topic) auto
qed


lemma archive_tx_Inr:
  assumes "archive_tx i project root now moved db = Inr (u, db')"
  obtains l target db1 where "l \<in> set (db_lanes db)" "wl_lane_id l = i" "wl_status l = Lane_active"
    "case target of None \<Rightarrow> wl_topic_id l = None | Some (t, scope) \<Rightarrow> wl_topic_id l = Some t"
    "put_lanes (update_where (\<lambda>k. wl_lane_id k = i) (\<lambda>k. k\<lparr>wl_status := Lane_archived, wl_updated_at := now\<rparr>) (db_lanes db)) db = Inr db1"
    "(case target of None \<Rightarrow> Inr db1 | Some (t, scope) \<Rightarrow> put_scope t scope moved db1) = Inr db'"
proof -
  obtain l where l: "find (\<lambda>l. wl_lane_id l = i \<and> wl_status l = Lane_active) (db_lanes db) = Some l"
    using assms by (auto simp: archive_tx_def split: option.splits)
  then have "\<exists>target db1. (case wl_topic_id l of None \<Rightarrow> Inr None
        | Some t \<Rightarrow> attempt (archive_to l t project root db) (\<lambda>scope. Inr (Some (t, scope)))) = Inr target \<and>
      put_lanes (update_where (\<lambda>k. wl_lane_id k = i) (\<lambda>k. k\<lparr>wl_status := Lane_archived, wl_updated_at := now\<rparr>) (db_lanes db)) db = Inr db1 \<and>
      (case target of None \<Rightarrow> Inr db1 | Some (t, scope) \<Rightarrow> put_scope t scope moved db1) = Inr db'"
    using assms unfolding archive_tx_def by (simp only: option.case attempt_Inr prod.inject sum.inject) blast
  then obtain target db1 where a: "(case wl_topic_id l of None \<Rightarrow> Inr None
      | Some t \<Rightarrow> attempt (archive_to l t project root db) (\<lambda>scope. Inr (Some (t, scope)))) = Inr target"
    "put_lanes (update_where (\<lambda>k. wl_lane_id k = i) (\<lambda>k. k\<lparr>wl_status := Lane_archived, wl_updated_at := now\<rparr>) (db_lanes db)) db = Inr db1"
    "(case target of None \<Rightarrow> Inr db1 | Some (t, scope) \<Rightarrow> put_scope t scope moved db1) = Inr db'" by blast
  have "case target of None \<Rightarrow> wl_topic_id l = None | Some (t, scope) \<Rightarrow> wl_topic_id l = Some t"
    using a(1) by (auto simp: attempt_Inr split: option.splits)
  then show ?thesis using that find_Some_set [OF l] a(2,3) by blast
qed

lemma archive_tx_ok:
  assumes "archive_tx i project root now moved db = Inr (u, db')" "lanes_ok db"
  shows "lanes_ok db'"
  using assms(1)
proof (rule archive_tx_Inr)
  let ?ls = "update_where (\<lambda>k. wl_lane_id k = i) (\<lambda>k. k\<lparr>wl_status := Lane_archived, wl_updated_at := now\<rparr>) (db_lanes db)"
  fix l target db1 assume l: "l \<in> set (db_lanes db)" "wl_lane_id l = i" "wl_status l = Lane_active"
    and t: "case target of None \<Rightarrow> wl_topic_id l = None | Some (t, scope) \<Rightarrow> wl_topic_id l = Some t"
    and p: "put_lanes ?ls db = Inr db1" "(case target of None \<Rightarrow> Inr db1 | Some (t, scope) \<Rightarrow> put_scope t scope moved db1) = Inr db'"
  have ls: "lanes_valid ?ls" "db1 = db\<lparr>db_lanes := ?ls\<rparr>" using p(1) by (simp_all add: put_lanes_Inr)
  have before: "k \<in> set (db_lanes db) \<and> wl_lane_id k \<noteq> i" if k: "k \<in> set ?ls" "wl_status k = Lane_active" for k
  proof -
    obtain k0 where k0: "k0 \<in> set (db_lanes db)" "k = (if wl_lane_id k0 = i then k0\<lparr>wl_status := Lane_archived, wl_updated_at := now\<rparr> else k0)"
      using k(1) unfolding set_update_where by blast
    then have "wl_lane_id k0 \<noteq> i" using k(2) by (cases "wl_lane_id k0 = i") simp_all
    then show ?thesis using k0 by simp
  qed
  then have "k \<in> set (db_lanes db)" if "k \<in> set ?ls" "bound_active k" for k
    using that by (simp add: bound_active_def)
  then have "lanes_ok (db\<lparr>db_lanes := ?ls\<rparr>)" by (intro update_lanes_ok [OF ls(1) assms(2)]) blast
  then have db1: "db1 = db\<lparr>db_lanes := ?ls\<rparr>" "lanes_ok db1" by (simp_all add: ls(2))
  show "lanes_ok db'"
  proof (cases target)
    case None
    then show ?thesis using p(2) db1(2) by simp
  next
    case (Some x)
    obtain t scope where x: "x = (t, scope)" by (cases x)
    have s: "put_scope t scope moved db1 = Inr db'" "wl_topic_id l = Some t" using p(2) t by (simp_all add: Some x)
    have free: "\<not> binds k t" if k: "k \<in> set (db_lanes db1)" for k
    proof
      assume b: "binds k t"
      have "k \<in> set (db_lanes db)" "wl_lane_id k \<noteq> i" using before [of k] k b by (simp_all add: db1(1) binds_def)
      moreover have "binds l t" using l(3) s(2) by (simp add: binds_def)
      moreover have "lanes_valid (db_lanes db)" using assms(2) by (simp add: lanes_ok_def)
      ultimately show False using one_lane [of "db_lanes db" l k t] l b by simp
    qed
    show ?thesis
      by (rule update_topics_ok [OF s(1) [unfolded put_scope_def] db1(2)]) (use free in auto)
  qed
qed

lemma mark_cleaned_ok:
  assumes "mark_cleaned_tx i now then' db = Inr (n, db')" "lanes_ok db"
  shows "lanes_ok db'"
proof -
  let ?hit = "\<lambda>l. wl_lane_id l = i \<and> wl_status l = Lane_archived \<and> wl_cleaned_at l = None"
  let ?f = "\<lambda>l. l\<lparr>wl_cleaned_at := Some now, wl_updated_at := then'\<rparr>"
  have db': "db' = db\<lparr>db_lanes := update_where ?hit ?f (db_lanes db)\<rparr>"
    using assms(1) by (simp add: mark_cleaned_tx_def attempt_Inr Let_def)
  have "filter bound_active (update_where ?hit ?f ls) = filter bound_active ls" for ls
    by (induction ls) (auto simp: update_where_def bound_active_def)
  then have "lanes_valid (update_where ?hit ?f (db_lanes db))"
    using assms(2) by (simp add: lanes_ok_def lanes_valid_def map_update_where)
  then show ?thesis unfolding db'
    by (rule update_lanes_ok [OF _ assms(2)]) (auto simp: set_update_where bound_active_def)
qed

lemma reconcile_ok:
  assumes "each_row (reconcile_row roots now) (topic_lanes db) (0, db) = Inr (m, db')" "lanes_ok db"
  shows "lanes_ok db'"
proof -
  have "(\<lambda>x. lanes_ok (snd x) \<and> db_lanes (snd x) = db_lanes db) (m, db')"
  proof (rule each_row_invariant [OF assms(1)])
    fix x acc acc' assume x: "x \<in> set (topic_lanes db)" "reconcile_row roots now x acc = Inr acc'"
      "lanes_ok (snd acc) \<and> db_lanes (snd acc) = db_lanes db"
    obtain t l k d k' d' where e: "x = (t, l)" "acc = (k, d)" "acc' = (k', d')" by (metis surj_pair)
    note row = topic_lanes_row [OF x(1) [unfolded e]]
    show "lanes_ok (snd acc') \<and> db_lanes (snd acc') = db_lanes db"
    proof (cases "d' = d")
      case True
      then show ?thesis using x(3) by (simp add: e)
    next
      case False
      then have none: "l = None" using x(2) by (auto simp: e reconcile_row_def Let_def attempt_Inr split: option.splits)
      then obtain scope where s: "put_topics (\<lambda>x. tp_topic_id x = tp_topic_id t \<and> tp_execution_scope x = tp_execution_scope t)
          (\<lambda>x. x\<lparr>tp_execution_scope := Some scope, tp_updated_at := now\<rparr>) d = Inr d'"
        using x(2) False by (auto simp: e reconcile_row_def Let_def attempt_Inr split: option.splits if_splits)
      have free: "\<not> binds k (tp_topic_id t)" if "k \<in> set (db_lanes d)" for k
        using row that x(3) by (simp add: none e binds_def)
      have "lanes_ok d'" by (rule update_topics_ok [OF s]) (use x(3) free in \<open>auto simp: e\<close>)
      then show ?thesis using x(3) put_topics_Inr [OF s] by (simp add: e)
    qed
  qed (simp add: assms(2))
  then show ?thesis by simp
qed

lemma commit_ok: "(\<And>a db'. body db = Inr (a, db') \<Longrightarrow> lanes_ok db') \<Longrightarrow> lanes_ok db \<Longrightarrow> lanes_ok (snd (commit_then body fin db))"
  by (auto simp: commit_then_def split: sum.splits prod.splits)

lemma transact_ok: "(\<And>a db'. body db = Inr (a, db') \<Longrightarrow> lanes_ok db') \<Longrightarrow> lanes_ok db \<Longrightarrow> lanes_ok (snd (transact body db))"
  by (auto simp: transact_def split: sum.splits prod.splits)

lemma requested_root: "requested_scope resolve root = Inr (Some r) \<Longrightarrow> \<exists>p. r = root_scope p"
  by (auto simp: requested_scope_def attempt_Inr split: option.splits)

lemma observe_topic_ok:
  assumes "lanes_ok db"
  shows "lanes_ok (snd (observe_topic resolve given chat thread title root now db))"
proof (cases "attempt (check (chat \<noteq> 0 \<and> 0 < thread \<and> py_strip title \<noteq> []) (State_error ''invalid Telegram topic identity'')) (\<lambda>_.
         attempt (bounded given ''project id'' 48) (\<lambda>project.
         attempt (requested_scope resolve root) (\<lambda>requested. Inr (project, requested))))")
  case (Inr x)
  then obtain project requested where p: "x = (project, requested)" "requested_scope resolve root = Inr requested"
    by (auto simp: attempt_Inr)
  have "lanes_ok db'" if "observe_tx given project chat thread title requested now db = Inr (u, db')" for u db'
    by (rule observe_tx_ok [OF that assms]) (use requested_root p(2) in blast)
  then show ?thesis unfolding observe_topic_def Inr p(1) using assms by (simp add: commit_ok)
qed (use assms in \<open>simp add: observe_topic_def\<close>)

lemma topic_op_ok:
  assumes "lanes_ok db" shows "lanes_ok (snd (run_topic_op resolve op db))"
proof (cases op)
  case (Observe_topic given chat thread title root now)
  then show ?thesis using observe_topic_ok assms by simp
next
  case (Register_lane i project path branch t now)
  show ?thesis unfolding Register_lane run_topic_op.simps register_lane_def
    by (rule transact_ok [OF register_tx_ok [OF _ assms] assms])
next
  case (Bind_lane i t now)
  show ?thesis unfolding Bind_lane run_topic_op.simps bind_lane_def snd_forget
    by (rule commit_ok [OF bind_tx_ok [OF _ assms] assms])
next
  case (Archive_lane i project root now moved)
  show ?thesis unfolding Archive_lane run_topic_op.simps archive_lane_def
    by (rule transact_ok [OF archive_tx_ok [OF _ assms] assms])
next
  case (Clean_lane i now then')
  show ?thesis unfolding Clean_lane run_topic_op.simps mark_lane_cleaned_def
    by (rule commit_ok [OF mark_cleaned_ok [OF _ assms] assms])
next
  case (Reconcile_scopes roots now)
  have "lanes_ok (snd (reconcile_legacy_execution_scopes resolve roots now db))"
    unfolding reconcile_legacy_execution_scopes_def using assms reconcile_ok
    by (auto split: sum.splits intro!: transact_ok simp: attempt_Inr)
  then show ?thesis by (simp add: Reconcile_scopes)
qed


section \<open>The disagreement is never reported\<close>

definition mismatched :: "state_error + 'a \<Rightarrow> bool" where
  "mismatched r \<longleftrightarrow> r = Inl (State_error ''active lane execution scope mismatch'')"

lemma mismatched_simps [simp]: "\<not> mismatched (Inr x)"
    "mismatched (Inl e) \<longleftrightarrow> e = State_error ''active lane execution scope mismatch''"
  by (simp_all add: mismatched_def)

lemma mismatched_attempt: "mismatched (attempt x f) \<longleftrightarrow> mismatched x \<or> (\<exists>a. x = Inr a \<and> mismatched (f a))"
  by (cases x) (simp_all add: mismatched_def)

lemma mismatched_check [simp]: "mismatched (check b e) \<longleftrightarrow> \<not> b \<and> e = State_error ''active lane execution scope mismatch''"
  by (simp add: check_def mismatched_def)

lemma mismatched_forget [simp]: "mismatched (fst (forget x)) \<longleftrightarrow> mismatched (fst x)"
  by (cases "fst x"; simp add: forget_def mismatched_def)

lemma mismatched_transact [simp]: "mismatched (fst (transact body db)) \<longleftrightarrow> mismatched (body db)"
  by (cases "body db") (auto simp: transact_def mismatched_def)

lemma mismatched_commit: "mismatched (fst (commit_then body fin db)) \<longleftrightarrow>
    mismatched (body db) \<or> (\<exists>a db'. body db = Inr (a, db') \<and> mismatched (fin a db'))"
  by (cases "body db") (auto simp: commit_then_def mismatched_def)

lemma matched_guards [simp]:
  "\<not> mismatched (require_control_scope_clear db scope)" "\<not> mismatched (control_quiet db t)" "\<not> mismatched (bounded v n m)"
  "\<not> mismatched (put_topics p f db)" "\<not> mismatched (put_lanes ls db)"
  by (auto simp: require_control_scope_clear_def control_quiet_def mismatched_attempt bounded_def put_topics_def put_lanes_def
      Let_def control_owner_for_topic_def resolved_control_scope_def split: if_splits option.splits list.splits)

lemma matched_idle [simp]: "\<not> mismatched (require_topic_idle db t c)" "\<not> mismatched (require_scope_idle db scope c)"
    "\<not> mismatched (put_scope t scope now db)"
  by (auto simp: require_topic_idle_def require_scope_idle_def put_scope_def mismatched_attempt)

lemma matched_lookup [simp]: "\<not> mismatched (Inl (unknown_lane ''unknown or inactive lane_id: '' i))"
    "\<not> mismatched (get_lane db i)" "\<not> mismatched (require_cleanup db i)"
  by (auto simp: get_lane_def require_cleanup_def unknown_lane_def mismatched_attempt split: option.splits)

lemma matched_bind [simp]: "\<not> mismatched (bind_tx i t now db)" "\<not> mismatched (register_tx i project path branch topic now db)"
proof -
  show b: "\<not> mismatched (bind_tx i t now db)" for i t now and db
    by (auto simp: bind_tx_def bindable_def mismatched_attempt unknown_lane_def split: option.splits)
  show "\<not> mismatched (register_tx i project path branch topic now db)"
    by (auto simp: register_tx_def mismatched_attempt b split: option.splits)
qed


lemma matched_each: "(\<And>x s. \<not> mismatched (f x s)) \<Longrightarrow> \<not> mismatched (each_row f xs s)"
  by (induction xs arbitrary: s) (auto simp: mismatched_attempt)

lemma matched_archive:
  assumes "lanes_ok db" shows "\<not> mismatched (archive_tx i project root now moved db)"
proof -
  have to: "\<not> mismatched (archive_to l t project root db)" if l: "l \<in> set (db_lanes db)" "binds l t" for l t
  proof (cases "topic_of db t")
    case (Some topic)
    note p = topic_of_id [OF Some]
    have "tp_execution_scope topic = Some (root_scope (wl_worktree_path l))"
      using lanes_okD(1) [OF assms l(1), of topic] l(2) p by simp
    moreover have "\<not> mismatched (each_row (\<lambda>x d. attempt (require_topic_idle d (tp_topic_id x) False) (\<lambda>_. Inr d)) xs db)" for xs
      by (rule matched_each) (simp add: mismatched_attempt)
    ultimately show ?thesis
      by (auto simp: archive_to_def Some mismatched_attempt Let_def split: option.splits if_splits)
  qed (simp add: archive_to_def mismatched_attempt)
  show ?thesis
  proof (cases "find (\<lambda>l. wl_lane_id l = i \<and> wl_status l = Lane_active) (db_lanes db)")
    case (Some l)
    have "\<not> mismatched (archive_to l t project root db)" if "wl_topic_id l = Some t" for t
      using to [of l t] that find_Some_set [OF Some] by (simp add: binds_def)
    then show ?thesis by (auto simp: archive_tx_def Some mismatched_attempt split: option.splits)
  qed (simp add: archive_tx_def unknown_lane_def)
qed

lemma matched_reconcile:
  assumes "lanes_ok db" shows "\<not> mismatched (each_row (reconcile_row roots now) (topic_lanes db) acc)"
proof -
  have row: "\<not> mismatched (reconcile_row roots now x acc)" if x: "x \<in> set (topic_lanes db)" for x acc
  proof -
    obtain t l n d where e: "x = (t, l)" "acc = (n, d)" by (metis surj_pair)
    show ?thesis
    proof (cases l)
      case None
      have "\<not> mismatched (expected_scope roots d t)"
        by (auto simp: expected_scope_def mismatched_attempt split: list.splits)
      then show ?thesis by (auto simp: e None reconcile_row_def Let_def mismatched_attempt split: option.splits)
    next
      case (Some k)
      have "t \<in> set (db_topics db)" "k \<in> set (db_lanes db)" "binds k (tp_topic_id t)"
        using topic_lanes_row [of t l db] x by (simp_all add: e Some binds_def)
      then have "tp_execution_scope t = Some (root_scope (wl_worktree_path k))" using lanes_okD(1) [OF assms] by blast
      then show ?thesis by (simp add: e Some reconcile_row_def Let_def stored_scope_def root_scope_def mismatched_attempt)
    qed
  qed
  have "\<not> mismatched (each_row (reconcile_row roots now) xs acc)" if "set xs \<subseteq> set (topic_lanes db)" for xs acc
    using that
  proof (induction xs arbitrary: acc)
    case (Cons x xs)
    then show ?case using row [of x acc] by (auto simp: mismatched_attempt)
  qed simp
  then show ?thesis by simp
qed

lemma topic_op_matched:
  assumes "lanes_ok db" shows "\<not> mismatched (fst (run_topic_op resolve op db))"
proof (cases op)
  case (Observe_topic given chat thread title root now)
  have n: "\<not> mismatched (next_scope db f r t)" for f r t
    by (auto simp: next_scope_def Let_def mismatched_attempt split: option.splits)
  have o: "\<not> mismatched (observe_tx given project chat thread title r now db)" for project r
    by (auto simp: observe_tx_def Let_def mismatched_attempt n split: option.splits)
  have q: "\<not> mismatched (requested_scope resolve root)"
    by (auto simp: requested_scope_def mismatched_attempt split: option.splits)
  have guard: "\<not> mismatched (attempt (check (chat \<noteq> 0 \<and> 0 < thread \<and> py_strip title \<noteq> []) (State_error ''invalid Telegram topic identity'')) (\<lambda>_.
         attempt (bounded given ''project id'' 48) (\<lambda>project.
         attempt (requested_scope resolve root) (\<lambda>requested. Inr (project, requested)))))"
    by (simp add: mismatched_attempt q)
  then show ?thesis
    by (auto simp: Observe_topic observe_topic_def mismatched_commit o split: sum.splits option.splits)
next
  case (Bind_lane i t now)
  then show ?thesis by (simp add: bind_lane_def mismatched_commit)
next
  case (Clean_lane i now then')
  then show ?thesis
    by (auto simp: mark_lane_cleaned_def mismatched_commit mark_cleaned_tx_def mismatched_attempt Let_def unknown_lane_def)
next
  case (Archive_lane i project root now moved)
  then show ?thesis using matched_archive [OF assms] by (simp add: archive_lane_def)
next
  case (Register_lane i project path branch t now)
  then show ?thesis by (simp add: register_lane_def)
next
  case (Reconcile_scopes roots now)
  have "\<not> mismatched (collect f xs)" if "\<And>x. \<not> mismatched (f x)" for f :: "string \<times> string \<Rightarrow> state_error + string \<times> string" and xs
    using that by (induction xs) (auto simp: mismatched_attempt)
  then have "\<not> mismatched (canonical_roots resolve roots)"
    by (auto simp: canonical_roots_def mismatched_attempt)
  then show ?thesis
    using matched_reconcile [OF assms]
    by (auto simp: Reconcile_scopes reconcile_legacy_execution_scopes_def mismatched_attempt split: sum.splits)
qed


lemma lanes_ok_run: "lanes_ok db \<Longrightarrow> lanes_ok (fold (\<lambda>op d. snd (run_topic_op resolve op d)) ops db)"
  by (induction ops arbitrary: db) (simp_all add: topic_op_ok)

text \<open>C4. Whatever is done to topics and lanes, a topic bound to an active lane runs in the worktree of
  that lane and in its project, no topic has two active lanes, and no operation ever reports the mismatch of the two.\<close>

theorem lanes_match_topics:
  assumes "lanes_ok db" "db' = fold (\<lambda>op d. snd (run_topic_op resolve op d)) ops db"
  shows "(\<forall>(l, t) \<in> {(l, t). l \<in> set (db_lanes db') \<and> wl_status l = Lane_active \<and> wl_topic_id l = Some t}.
      scope_of db' t = Some (root_scope (wl_worktree_path l)) \<and>
      map_option tp_project_id (topic_of db' t) = Some (wl_project_id l) \<and>
      {k \<in> set (db_lanes db'). wl_status k = Lane_active \<and> wl_topic_id k = Some t} = {l}) \<and>
    fst (run_topic_op resolve op db') \<noteq> Inl (State_error ''active lane execution scope mismatch'')"
proof -
  have ok: "lanes_ok db'" unfolding assms(2) by (rule lanes_ok_run [OF assms(1)])
  have "scope_of db' t = Some (root_scope (wl_worktree_path l)) \<and>
      map_option tp_project_id (topic_of db' t) = Some (wl_project_id l) \<and>
      {k \<in> set (db_lanes db'). wl_status k = Lane_active \<and> wl_topic_id k = Some t} = {l}"
    if l: "l \<in> set (db_lanes db')" "wl_status l = Lane_active" "wl_topic_id l = Some t" for l t
  proof -
    have b: "bound_active l" "binds l t" using l by (simp_all add: bound_active_def binds_def)
    then obtain x where x: "x \<in> set (db_topics db')" "tp_topic_id x = t" using ok l(1,3) unfolding lanes_ok_def agrees_def by auto
    then have "topic_of db' t = Some x"
      using ok find_key_unique [of tp_topic_id "db_topics db'" x] by (simp add: topic_of_def lanes_ok_def)
    moreover have "tp_execution_scope x = Some (root_scope (wl_worktree_path l))" "tp_project_id x = wl_project_id l"
      using lanes_okD [OF ok l(1), of x] b(2) x by simp_all
    moreover have "{k \<in> set (db_lanes db'). wl_status k = Lane_active \<and> wl_topic_id k = Some t} = {l}"
    proof (rule set_eqI)
      fix k
      have "lanes_valid (db_lanes db')" using ok by (simp add: lanes_ok_def)
      then have "k \<in> set (db_lanes db') \<Longrightarrow> binds k t \<Longrightarrow> k = l" using one_lane l(1) b(2) by blast
      then show "k \<in> {k \<in> set (db_lanes db'). wl_status k = Lane_active \<and> wl_topic_id k = Some t} \<longleftrightarrow> k \<in> {l}"
        using l unfolding binds_def by blast
    qed
    ultimately show ?thesis by (simp add: scope_of_def topic_scope_def)
  qed
  moreover have "fst (run_topic_op resolve op db') \<noteq> Inl (State_error ''active lane execution scope mismatch'')"
    using topic_op_matched [OF ok] unfolding mismatched_def .
  ultimately show ?thesis by blast
qed

text \<open>A lane is registered for a topic in which nothing works yet.\<close>

definition bound_hub :: db where
  "bound_hub = (example_hub [])\<lparr>db_lanes := [\<lparr>wl_lane_id = ''l'', wl_project_id = ''p'', wl_topic_id = Some 1,
     wl_worktree_path = ''/w'', wl_branch_name = ''b'', wl_status = Lane_active, wl_created_at = 2, wl_updated_at = 2, wl_cleaned_at = None\<rparr>],
     db_topics := [example_topic\<lparr>tp_execution_scope := Some ''root:/w'', tp_updated_at := 2\<rparr>]\<rparr>"


lemma example_hub_fields:
  "db_lanes (example_hub []) = []" "db_topics (example_hub []) = [example_topic]" "db_jobs (example_hub []) = []"
  "db_sessions (example_hub []) = []" "db_dispatches (example_hub []) = []" "db_controls (example_hub []) = []"
  "db_hold_dispositions (example_hub []) = []"
  by (simp_all add: example_hub_def empty_db_def)

lemma example_lane_registered:
  "run_topic_op (\<lambda>p. p) (Register_lane ''l'' ''p'' ''/w'' ''b'' (Some 1) 2) (example_hub []) = (Inr (), bound_hub)"
proof -
  let ?l = "\<lparr>wl_lane_id = ''l'', wl_project_id = ''p'', wl_topic_id = None, wl_worktree_path = ''/w'', wl_branch_name = ''b'',
    wl_status = Lane_active, wl_created_at = 2, wl_updated_at = 2, wl_cleaned_at = None\<rparr>"
  let ?h = "example_hub []\<lparr>db_lanes := [?l]\<rparr>"
  have fields: "db_lanes ?h = [?l]" "db_topics ?h = [example_topic]" "db_jobs ?h = []" "db_sessions ?h = []"
    "db_dispatches ?h = []" "db_controls ?h = []" "db_hold_dispositions ?h = []" by (simp_all add: example_hub_fields)
  have t: "topic_of ?h 1 = Some example_topic" by (simp add: topic_of_def fields example_topic_def)
  have b: "bindable ?h ''l'' 1 = Inr ?l"
    by (simp add: attempt_Inr check_def bindable_def lane_of_def fields t example_topic_def exists_row_def)
  have c: "control_quiet ?h 1 = Inr ()"
    by (simp add: attempt_Inr check_def control_quiet_def control_owner_for_topic_def fields exists_row_def)
  have i: "require_topic_idle ?h 1 True = Inr ()"
    by (simp add: attempt_Inr check_def require_topic_idle_def c fields exists_row_def busy_def)
  have o: "require_scope_idle ?h ''root:/w'' True = Inr ()"
    by (simp add: attempt_Inr check_def require_scope_idle_def require_control_scope_clear_def starts_with_def unquiesced_control_owner_def fields
      exists_row_def busy_def)
  let ?b = "?h\<lparr>db_lanes := [?l\<lparr>wl_topic_id := Some 1\<rparr>]\<rparr>"
  have ls: "put_lanes [?l\<lparr>wl_topic_id := Some 1\<rparr>] ?h = Inr ?b"
    by (simp add: put_lanes_def lanes_valid_def bound_active_def)
  have "put_scope 1 ''root:/w'' 2 ?b =
      Inr (?b\<lparr>db_topics := [example_topic\<lparr>tp_execution_scope := Some ''root:/w'', tp_updated_at := 2\<rparr>]\<rparr>)"
    by (simp add: put_scope_def put_topics_def exists_row_def retains_binding_def example_hub_fields update_where_def)
      (simp add: example_topic_def)
  moreover have "?b\<lparr>db_topics := [example_topic\<lparr>tp_execution_scope := Some ''root:/w'', tp_updated_at := 2\<rparr>]\<rparr> = bound_hub"
    by (simp add: bound_hub_def)
  ultimately have bt: "bind_tx ''l'' 1 2 ?h = Inr ((), bound_hub)"
    unfolding bind_tx_def b by (simp add: i o root_scope_def ls [simplified] update_where_def)
  have "register_tx ''l'' ''p'' ''/w'' ''b'' (Some 1) 2 (example_hub []) = Inr ((), bound_hub)"
    by (simp add: attempt_Inr register_tx_def put_lanes_def lanes_valid_def example_hub_fields bt bound_active_def)
  then show ?thesis by (simp add: register_lane_def transact_def)
qed

theorem lanes_match_topics_witness:
  "snd (run_topic_op (\<lambda>p. p) (Register_lane ''l'' ''p'' ''/w'' ''b'' (Some 1) 2) (example_hub [])) = bound_hub \<and>
   scope_of bound_hub 1 = Some ''root:/w'' \<and>
   fst (run_topic_op (\<lambda>p. p) (Archive_lane ''l'' (Some ''p'') (Some ''/q'') 3 3) bound_hub)
     \<noteq> Inl (State_error ''active lane execution scope mismatch'')"
proof -
  have ok: "lanes_ok (example_hub [])" by (simp add: lanes_ok_def lanes_valid_def example_hub_fields)
  have run: "bound_hub = fold (\<lambda>op d. snd (run_topic_op (\<lambda>p. p) op d)) [Register_lane ''l'' ''p'' ''/w'' ''b'' (Some 1) 2] (example_hub [])"
    using example_lane_registered by simp
  have "(hd (db_lanes bound_hub), 1) \<in> {(l, t). l \<in> set (db_lanes bound_hub) \<and> wl_status l = Lane_active \<and> wl_topic_id l = Some t}"
    by (simp add: bound_hub_def)
  then have "scope_of bound_hub 1 = Some (root_scope (wl_worktree_path (hd (db_lanes bound_hub))))"
    using lanes_match_topics [OF ok run] by blast
  moreover have "fst (run_topic_op (\<lambda>p. p) (Archive_lane ''l'' (Some ''p'') (Some ''/q'') 3 3) bound_hub)
     \<noteq> Inl (State_error ''active lane execution scope mismatch'')"
    using lanes_match_topics [OF ok run] by blast
  ultimately show ?thesis using example_lane_registered by (simp add: bound_hub_def root_scope_def)
qed

end
