(* ===== verification/Failure_Notice.thy ===== *)
theory Failure_Notice
  imports Preexecution_Retry
begin

text \<open>
  \<open>terminate_provider_job_with_notice\<close> of \<open>state.py\<close>: the end of an execution that failed or was lost,
  with its one failure notice, or its cancellation when a stop covers it. The job, the notice with its
  parts, the retry ticket, the evidence of a confirmed turn and the holds it causes are one transaction.
  As the notice is split, the call may not return: its value is then \<open>None\<close>.
\<close>

record failure_report =
  fr_status :: job_status
  fr_error_class :: string
  fr_error_code :: string
  fr_sender_agent_id :: string
  fr_telegram_html :: string
  fr_expected_status :: job_status
  fr_error_detail :: "string option"
  fr_terminal_turn_status :: "string option"
  fr_preparation_retry :: "preparation_binding option"
  fr_provider_runtime :: "string option"

text \<open>The checks before the transaction; the report with its values normalized.\<close>

definition valid_report :: "failure_report \<Rightarrow> state_error + failure_report" where
  "valid_report f =
     attempt (check (fr_status f \<in> {Failed, Indeterminate})
       (State_error ''provider failure notice requires a terminal failure status'')) (\<lambda>_.
     attempt (check (fr_expected_status f \<in> {Leased, Executing})
       (State_error ''provider failure notice has an invalid expected status'')) (\<lambda>_.
     attempt (check (fr_expected_status f = Leased \<longrightarrow> fr_status f = Failed)
       (State_error ''pre-execution provider work cannot become indeterminate'')) (\<lambda>_.
     attempt (check (case fr_terminal_turn_status f of None \<Rightarrow> True
         | Some s \<Rightarrow> fr_status f = Indeterminate \<and> fr_expected_status f = Executing \<and> s \<in> {''failed'', ''interrupted''})
       (State_error ''invalid confirmed terminal turn status'')) (\<lambda>_.
     attempt (bounded (fr_error_class f) ''error class'' 64) (\<lambda>cls.
     attempt (bounded (fr_error_code f) ''error code'' 128) (\<lambda>code.
     attempt (bounded (fr_sender_agent_id f) ''sender agent id'' 64) (\<lambda>sender.
     attempt (bounded (fr_telegram_html f) ''Telegram outbox text'' MAX_PROVIDER_RESPONSE_LENGTH) (\<lambda>html.
     Inr (f\<lparr>fr_error_class := cls, fr_error_code := code, fr_sender_agent_id := sender, fr_telegram_html := html,
            fr_error_detail := clip_detail (fr_error_detail f)\<rparr>)))))))))"

definition preparation_failed :: "failure_report \<Rightarrow> bool" where
  "preparation_failed f \<longleftrightarrow> fr_status f = Failed \<and> fr_error_class f = ''pre_execution'' \<and> fr_provider_runtime f = Some ''codex''"

text \<open>A failed preparation that left evidence of an execution is an unconfirmed outcome.\<close>

definition judge_report :: "string \<Rightarrow> db \<Rightarrow> failure_report \<Rightarrow> failure_report" where
  "judge_report i db f =
     (if preparation_failed f \<and> has_execution_evidence db i
      then f\<lparr>fr_status := Indeterminate, fr_error_class := ''ambiguous_execution'',
        fr_telegram_html := ''Codex preparation failure conflicts with saved execution evidence. '' @
          ''The outcome is unconfirmed; Hub kept the evidence and did not retry. '' @
          ''Inspect /status before continuing.''\<rparr>
      else f)"

definition offer_retry ::
  "resolver \<Rightarrow> state_error + string option \<Rightarrow> failure_report \<Rightarrow> provider_job \<Rightarrow> time \<Rightarrow> db \<Rightarrow> state_error + string \<times> db" where
  "offer_retry resolve profile f j now db =
     (case fr_preparation_retry f of
        Some saved \<Rightarrow> if preparation_failed f \<and> fr_error_code f = ''CodexPreparationError''
          then record_ticket resolve profile j saved now db else Inr ([], db)
      | None \<Rightarrow> Inr ([], db))"

section \<open>A confirmed turn\<close>

text \<open>The turn that is known to have ended, while session and checkpoint still agree on its thread.\<close>

definition confirmed_turn :: "provider_job \<Rightarrow> db \<Rightarrow> execution_checkpoint option" where
  "confirmed_turn j db =
     (case find (\<lambda>c. cp_job_id c = pj_job_id j) (db_checkpoints db) of
        None \<Rightarrow> None
      | Some c \<Rightarrow> (case session_of db (pj_session_id j) of
          None \<Rightarrow> None
        | Some s \<Rightarrow> if cp_provider_turn_id c \<in> {None, Some []} \<or> Some (cp_provider_thread_id c) \<noteq> ss_provider_session_id s \<or>
              ss_generation s \<noteq> pj_session_generation j \<or> ss_writer_mode s \<noteq> Telegram_writer then None else Some c))"

definition put_evidence :: "terminal_evidence \<Rightarrow> db \<Rightarrow> state_error + db" where
  "put_evidence e db = (if exists_row (\<lambda>x. te_job_id x = te_job_id e) (db_evidence db)
     then Inl (Integrity_error ''provider_turn_terminal_evidence'')
     else Inr (db\<lparr>db_evidence := db_evidence db @ [e]\<rparr>))"

text \<open>The work that waits in the same root is held until the owner has looked at it.\<close>

definition lost_hold :: "string \<Rightarrow> time \<Rightarrow> provider_job \<Rightarrow> job_hold" where
  "lost_hold cause now j = \<lparr>hd_job_id = pj_job_id j, hd_cause_job_id = cause, hd_held_at = now, hd_reason = Held_uncertain,
     hd_control_job_id = None, hd_decision = Hold_pending, hd_decided_at = None\<rparr>"

definition waits_beside :: "db \<Rightarrow> provider_job \<Rightarrow> provider_job \<Rightarrow> bool" where
  "waits_beside db j tail \<longleftrightarrow> scope_of db (pj_topic_id j) \<noteq> None \<and>
     scope_of db (pj_topic_id tail) = scope_of db (pj_topic_id j) \<and> pj_status tail \<in> {Queued, Retry_wait}"

definition hold_tail :: "provider_job \<Rightarrow> time \<Rightarrow> db \<Rightarrow> db" where
  "hold_tail j now db = fold (\<lambda>tail. add_hold (lost_hold (pj_job_id j) now tail)) (filter (waits_beside db j) (db_jobs db)) db"

definition paused_note :: "nat \<Rightarrow> string" where
  "paused_note n = blank_line @ ''Queue: '' @ decimal n @ '' earlier request(s) remain paused until the owner reviews them.''"

definition confirm_turn :: "string \<Rightarrow> string \<Rightarrow> provider_job \<Rightarrow> time \<Rightarrow> db \<Rightarrow> state_error + string \<times> db" where
  "confirm_turn status html j now db =
     (case confirmed_turn j db of
        None \<Rightarrow> Inl (State_error ''confirmed turn evidence binding changed'')
      | Some c \<Rightarrow>
          attempt (put_evidence \<lparr>te_job_id = pj_job_id j, te_terminal_status = status,
              te_provider_thread_id = cp_provider_thread_id c,
              te_provider_turn_id = (case cp_provider_turn_id c of Some t \<Rightarrow> t | None \<Rightarrow> []),
              te_project_root = cp_project_root c, te_observed_at = now\<rparr> db) (\<lambda>db1.
          let db2 = hold_tail j now db1; n = count_where (\<lambda>h. hd_cause_job_id h = pj_job_id j) (db_holds db2) in
          if n = 0 then Inr (html, db2)
          else attempt (bounded (html @ paused_note n) ''Telegram outbox text'' MAX_PROVIDER_RESPONSE_LENGTH) (\<lambda>noted.
            Inr (noted, db2))))"

section \<open>The transaction\<close>

text \<open>Up to the outbox row: the row of the job and the text of its notice.\<close>

definition write_notice ::
  "resolver \<Rightarrow> state_error + string option \<Rightarrow> failure_report \<Rightarrow> string \<Rightarrow> string \<Rightarrow> string \<Rightarrow> time \<Rightarrow> db
   \<Rightarrow> state_error + (provider_job \<times> string) \<times> db" where
  "write_notice resolve profile f i token outbox_id now db =
     attempt (owned_row db i token (fr_expected_status f) (fr_sender_agent_id f) now) (\<lambda>(j, t).
     attempt (offer_retry resolve profile f j now db) (\<lambda>(offer, db1).
     attempt (case fr_terminal_turn_status f of
         None \<Rightarrow> Inr (fr_telegram_html f @ offer, db1)
       | Some status \<Rightarrow> confirm_turn status (fr_telegram_html f @ offer) j now db1) (\<lambda>(html, db2).
     attempt (insert_outbox (new_outbox outbox_id j (tp_thread_id t) html Execution_notice now) db2) (\<lambda>db3.
     Inr ((j, html), db3)))))"

definition end_job :: "failure_report \<Rightarrow> time \<Rightarrow> provider_job \<Rightarrow> provider_job" where
  "end_job f now j = (clear_lease j)\<lparr>pj_status := fr_status f, pj_error_class := Some (fr_error_class f),
     pj_error_code := Some (fr_error_code f), pj_error_detail := fr_error_detail f, pj_updated_at := now\<rparr>"

text \<open>A lost turn that Codex had accepted is looked up again later.\<close>

definition observe_later :: "failure_report \<Rightarrow> string \<Rightarrow> time \<Rightarrow> db \<Rightarrow> db" where
  "observe_later f i now db =
     (let runtime = (case fr_provider_runtime f of Some r \<Rightarrow> if r = [] then fr_sender_agent_id f else r
                      | None \<Rightarrow> fr_sender_agent_id f);
          accepted = exists_row (\<lambda>c. cp_job_id c = i \<and> cp_provider_turn_id c \<notin> {None, Some []}) (db_checkpoints db) in
      if fr_status f = Indeterminate \<and> fr_terminal_turn_status f = None \<and> runtime = ''codex'' \<and> accepted \<and>
         \<not> exists_row (\<lambda>x. to_job_id x = i) (db_observations db)
      then db\<lparr>db_observations := db_observations db @
        [\<lparr>to_job_id = i, to_attempt_count = 0, to_next_check_at = now, to_updated_at = now\<rparr>]\<rparr>
      else db)"

definition finish_failure :: "failure_report \<Rightarrow> string \<Rightarrow> string \<Rightarrow> int \<Rightarrow> time \<Rightarrow> db \<Rightarrow> state_error + unit \<times> db" where
  "finish_failure f i token topic now db =
     (let p = holds_lease i token [fr_expected_status f] in
      attempt (check (count_jobs p db = 1) (State_error ''provider job lease changed during failure commit'')) (\<lambda>_.
      attempt (settle i Settle_indeterminate now (update_jobs p (end_job f now) db)) (\<lambda>db1.
      attempt (sync_job i now db1) (\<lambda>db2.
      Inr ((), observe_later f i now (complete_finished_stops topic now db2))))))"

definition terminate_tx ::
  "resolver \<Rightarrow> state_error + string option \<Rightarrow> char \<Rightarrow> failure_report \<Rightarrow> string \<Rightarrow> string \<Rightarrow> string \<Rightarrow> time \<Rightarrow> time \<Rightarrow> db
   \<Rightarrow> (state_error + unit \<times> db) option" where
  "terminate_tx resolve profile icon report i token outbox_id clock now db =
     (let f = judge_report i db report in
      case (if fr_status f = Failed then honor_stop i token (fr_expected_status f) clock db else Inr (False, db)) of
        Inl e \<Rightarrow> Some (Inl e)
      | Inr (True, db0) \<Rightarrow> Some (Inr ((), db0))
      | Inr (False, db0) \<Rightarrow>
          (case write_notice resolve profile f i token outbox_id now db0 of
             Inl e \<Rightarrow> Some (Inl e)
           | Inr ((j, html), db1) \<Rightarrow> map_option (\<lambda>r. attempt r (finish_failure f i token (pj_topic_id j) now))
               (insert_outbox_parts icon outbox_id html [] db1)))"

definition terminate_provider_job_with_notice ::
  "resolver \<Rightarrow> state_error + string option \<Rightarrow> char \<Rightarrow> failure_report \<Rightarrow> string \<Rightarrow> string \<Rightarrow> string \<Rightarrow> time \<Rightarrow> time \<Rightarrow> db
   \<Rightarrow> (state_error, db, provider_job) outcome option" where
  "terminate_provider_job_with_notice resolve profile icon report i token outbox_id clock now db =
     (case valid_report report of
        Inl e \<Rightarrow> Some (Inl e, db)
      | Inr f \<Rightarrow> map_option (\<lambda>r. commit_then (\<lambda>_. r) (\<lambda>_ db'. get_job db' i) db)
          (terminate_tx resolve profile icon f i token outbox_id clock now db))"

end
