(* ===== verification/Retry_Properties.thy ===== *)
theory Retry_Properties
  imports Failure_Notice Admission_Properties Commit_Properties
begin

text \<open>
  What the retry of a failed preparation promises: the saved task and nothing else runs, once, in the
  context it was saved with; and what the failure notice that offers it writes.
\<close>

section \<open>The context of a retry\<close>

text \<open>The jobs a retry came from, the retried one first and the original request last.\<close>

fun lineage :: "db \<Rightarrow> string list \<Rightarrow> bool" where
  "lineage db [] \<longleftrightarrow> False"
| "lineage db [i] \<longleftrightarrow> parent_link db i = None"
| "lineage db (i # k # ks) \<longleftrightarrow> map_option rl_source_job_id (parent_link db i) = Some k \<and> lineage db (k # ks)"

definition in_thread :: "db \<Rightarrow> string option \<Rightarrow> string \<Rightarrow> bool" where
  "in_thread db thread i \<longleftrightarrow> (case job_of db i of None \<Rightarrow> False
     | Some j \<Rightarrow> pj_provider_session_id j = None \<or> pj_provider_session_id j = thread)"

text \<open>An ancestor ran in the thread its own ticket expected.\<close>

definition kept_thread :: "db \<Rightarrow> string \<Rightarrow> bool" where
  "kept_thread db i \<longleftrightarrow> (case ticket_of db i of None \<Rightarrow> False | Some t \<Rightarrow> in_thread db (rt_expected_thread_id t) i)"

lemma lineage_Cons: "lineage db (i # ks) \<longleftrightarrow>
    (case parent_link db i of None \<Rightarrow> ks = [] | Some r \<Rightarrow> ks \<noteq> [] \<and> hd ks = rl_source_job_id r \<and> lineage db ks)"
  by (cases ks) (auto split: option.splits)

lemma context_step: "context_from (Suc n) seen i prepared db = None \<longleftrightarrow>
    i \<notin> set seen \<and> (if seen = [] then in_thread db prepared i else kept_thread db i) \<and>
    (case parent_link db i of None \<Rightarrow> True | Some r \<Rightarrow> context_from n (i # seen) (rl_source_job_id r) prepared db = None)"
  by (auto simp: in_thread_def kept_thread_def split: option.splits)

lemma context_from_iff:
  "seen \<noteq> [] \<Longrightarrow> context_from n seen i prepared db = None \<longleftrightarrow>
     (\<exists>ks. lineage db (i # ks) \<and> distinct (i # ks) \<and> set (i # ks) \<inter> set seen = {} \<and> length (i # ks) \<le> n \<and>
       (\<forall>k \<in> set (i # ks). kept_thread db k))"
proof (induction n arbitrary: seen i)
  case (Suc n)
  show ?case
  proof (cases "parent_link db i")
    case None
    then show ?thesis using Suc.prems by (auto simp: context_step lineage_Cons simp del: context_from.simps)
  next
    case (Some r)
    have "(\<exists>ks. lineage db (i # ks) \<and> distinct (i # ks) \<and> set (i # ks) \<inter> set seen = {} \<and> length (i # ks) \<le> Suc n \<and>
        (\<forall>k \<in> set (i # ks). kept_thread db k)) \<longleftrightarrow>
      (\<exists>ks. i \<notin> set seen \<and> kept_thread db i \<and> lineage db (rl_source_job_id r # ks) \<and> distinct (rl_source_job_id r # ks) \<and>
        set (rl_source_job_id r # ks) \<inter> set (i # seen) = {} \<and> length (rl_source_job_id r # ks) \<le> n \<and>
        (\<forall>k \<in> set (rl_source_job_id r # ks). kept_thread db k))" (is "?L \<longleftrightarrow> ?R")
    proof
      assume ?L
      then obtain ks where ks: "lineage db (i # ks)" "distinct (i # ks)" "set (i # ks) \<inter> set seen = {}" "length (i # ks) \<le> Suc n"
        "\<forall>k \<in> set (i # ks). kept_thread db k" by blast
      then obtain ks' where "ks = rl_source_job_id r # ks'" using Some by (cases ks) (auto simp: lineage_Cons)
      then show ?R using ks Some by (intro exI [of _ ks']) (auto simp: lineage_Cons [of db i])
    next
      assume ?R
      then obtain ks where "i \<notin> set seen" "kept_thread db i" "lineage db (rl_source_job_id r # ks)" "distinct (rl_source_job_id r # ks)"
        "set (rl_source_job_id r # ks) \<inter> set (i # seen) = {}" "length (rl_source_job_id r # ks) \<le> n"
        "\<forall>k \<in> set (rl_source_job_id r # ks). kept_thread db k" by blast
      then show ?L using Some by (intro exI [of _ "rl_source_job_id r # ks"]) (auto simp: lineage_Cons [of db i])
    qed
    then show ?thesis using Some Suc.prems Suc.IH [of "i # seen" "rl_source_job_id r"]
      by (auto simp: context_step simp del: context_from.simps)
  qed
qed simp

text \<open>C22. A retry is refused its context exactly when the chain of retries it came from cannot be followed to
  an original request within 64 jobs, or some job of the chain ran in another thread than the one its
  ticket kept, or, for the job that failed now, than the one the session has.\<close>

theorem retry_context_is_inherited:
  "context_refusal db i prepared = None \<longleftrightarrow>
     (\<exists>ks. lineage db (i # ks) \<and> distinct (i # ks) \<and> length ks < 64 \<and> in_thread db prepared i \<and>
       list_all (kept_thread db) ks)"
proof -
  have "64 = Suc 63" by simp
  then have "context_refusal db i prepared = None \<longleftrightarrow> in_thread db prepared i \<and>
     (case parent_link db i of None \<Rightarrow> True | Some r \<Rightarrow> context_from 63 [i] (rl_source_job_id r) prepared db = None)"
    unfolding context_refusal_def by (simp only: context_step) simp
  also have "\<dots> \<longleftrightarrow> (\<exists>ks. lineage db (i # ks) \<and> distinct (i # ks) \<and> length ks < 64 \<and> in_thread db prepared i \<and>
       list_all (kept_thread db) ks)"
  proof (cases "parent_link db i")
    case None
    then show ?thesis by (auto simp: lineage_Cons)
  next
    case (Some r)
    have "(\<exists>ks. lineage db (rl_source_job_id r # ks) \<and> distinct (rl_source_job_id r # ks) \<and> set (rl_source_job_id r # ks) \<inter> set [i] = {} \<and>
        length (rl_source_job_id r # ks) \<le> 63 \<and> (\<forall>k \<in> set (rl_source_job_id r # ks). kept_thread db k)) \<longleftrightarrow>
      (\<exists>ks. lineage db (i # ks) \<and> distinct (i # ks) \<and> length ks < 64 \<and> list_all (kept_thread db) ks)" (is "?L \<longleftrightarrow> ?R")
    proof
      assume ?L
      then obtain ks where "lineage db (rl_source_job_id r # ks)" "distinct (rl_source_job_id r # ks)" "set (rl_source_job_id r # ks) \<inter> set [i] = {}"
        "length (rl_source_job_id r # ks) \<le> 63" "\<forall>k \<in> set (rl_source_job_id r # ks). kept_thread db k" by blast
      then show ?R using Some by (intro exI [of _ "rl_source_job_id r # ks"]) (auto simp: lineage_Cons [of db i] list_all_iff)
    next
      assume ?R
      then obtain ks where ks: "lineage db (i # ks)" "distinct (i # ks)" "length ks < 64" "list_all (kept_thread db) ks" by blast
      then obtain ks' where "ks = rl_source_job_id r # ks'" using Some by (cases ks) (auto simp: lineage_Cons)
      then show ?L using ks Some by (intro exI [of _ ks']) (auto simp: lineage_Cons [of db i] list_all_iff)
    qed
    then show ?thesis using Some context_from_iff [of "[i]" 63 "rl_source_job_id r" prepared db] by auto
  qed
  finally show ?thesis .
qed


section \<open>What a retry does\<close>

lemma source_Some:
  assumes "source_for_notice db chat thread message = Some i"
  shows "\<exists>p \<in> set (db_parts db). notice_source db chat thread message p = Some i"
proof -
  let ?xs = "filter (\<lambda>x. x \<noteq> None) (map (notice_source db chat thread message) (db_parts db))"
  have "Some i \<in> set ?xs" using assms by (cases ?xs) (auto simp: source_for_notice_def)
  then show ?thesis by auto
qed

lemma note_control_Inr:
  assumes "note_control source y now db = Inr db'"
  shows "db_jobs db' = db_jobs db \<and> db_sessions db' = db_sessions db \<and> db_topics db' = db_topics db \<and>
    db_holds db' = db_holds db \<and> db_evidence db' = db_evidence db \<and> db_resolutions db' = db_resolutions db \<and>
    db_retries db' = db_retries db \<and> db_counters db' = db_counters db \<and> db_tickets db' = db_tickets db \<and>
    (ry_chat_id y, ry_reply_message_id y) \<in> set (db_observed db') \<union>
      {(rc_chat_id c, rc_message_id c) | c. c \<in> set (db_retry_controls db)}"
proof (cases "find (\<lambda>c. rc_chat_id c = ry_chat_id y \<and> rc_message_id c = ry_reply_message_id y) (db_retry_controls db)")
  case (Some c)
  then have "db' = db" using assms by (auto simp: note_control_def Let_def attempt_Inr)
  then show ?thesis using find_Some_set [OF Some] by auto
next
  case None
  then show ?thesis using assms by (auto simp: note_control_def Let_def attempt_Inr note_message_def)
qed

lemma put_link_Inr: "put_link r db = Inr db' \<Longrightarrow> child_link db (rl_source_job_id r) = None \<and>
    parent_link db (rl_child_job_id r) = None \<and> db' = db\<lparr>db_retries := db_retries db @ [r]\<rparr>"
  by (auto simp: put_link_def split: if_splits)

lemma admit_enqueue: "admit_tx e opts raw moved now db = Inr (x, db') \<Longrightarrow> enqueue_provider_job e opts raw moved now db = (Inr x, db')"
  by (simp add: enqueue_provider_job_def transact_def)

lemma submit_retry_Inr:
  assumes "submit_retry e q k now db = Inr ((j, c), db')"
  obtains old db1 db2 where "c" "job_of db (rq_source_job_id q) = Some old"
    "enqueue_provider_job e retry_options (retry_draft k old (ry_chat_id (rq_reply q)) (ry_reply_message_id (rq_reply q))
       (rq_ingress_identity q)) now now db = (Inr (j, True), db1)"
    "put_link \<lparr>rl_source_job_id = rq_source_job_id q, rl_child_job_id = pj_job_id j, rl_created_at = now\<rparr> db1 = Inr db2"
    "note_control (rq_source_job_id q) (rq_reply q) now db2 = Inr db'"
proof -
  have "\<exists>old db1 db2. c \<and> job_of db (rq_source_job_id q) = Some old \<and>
    admit_tx e retry_options (retry_draft k old (ry_chat_id (rq_reply q)) (ry_reply_message_id (rq_reply q))
       (rq_ingress_identity q)) now now db = Inr ((j, True), db1) \<and>
    put_link \<lparr>rl_source_job_id = rq_source_job_id q, rl_child_job_id = pj_job_id j, rl_created_at = now\<rparr> db1 = Inr db2 \<and>
    note_control (rq_source_job_id q) (rq_reply q) now db2 = Inr db'"
    using assms by (auto simp: submit_retry_def Let_def attempt_Inr get_job_def split: option.splits)
  then show ?thesis using that admit_enqueue by blast
qed

text \<open>A ticket that still holds.\<close>

lemma validate_Inr:
  assumes "validate_retry resolve profile source root mp runtime db = Inr k"
  shows "runtime = ''codex'' \<and> ticket_of db source = Some k \<and> \<not> job_has_materials db source \<and>
    context_refusal db source (rt_expected_thread_id k) = None \<and>
    (\<exists>j s t canonical. job_of db source = Some j \<and> session_of db (rt_session_id k) = Some s \<and>
      topic_of db (pj_topic_id j) = Some t \<and> resolve root = Some canonical \<and> job_unchanged k j db \<and>
      place_unchanged k t canonical mp \<and> session_unchanged k j s \<and> task_unchanged k j db \<and>
      profile = Inr (ss_codex_permission_profile s))"
  using assms
  by (auto simp: validate_retry_def attempt_Inr get_job_def split: option.splits if_splits)

lemma valid_input_rest:
  assumes "valid_input raw n = Inr (d, x)"
  shows "in_model d = py_strip (in_model raw)" "in_effort d = py_strip (in_effort raw)"
    "in_context_watermark d = in_context_watermark raw" "in_handoff_id d = map_option py_strip (in_handoff_id raw)"
    "in_provider_session_id d = map_option py_strip (in_provider_session_id raw)"
proof -
  obtain key agent session model effort payload provider handoff grp where v:
    "bounded (in_model raw) ''model'' 200 = Inr model" "bounded (in_effort raw) ''effort'' 64 = Inr effort"
    "optional_bounded (in_handoff_id raw) ''handoff id'' 128 = Inr handoff"
    "optional_bounded (in_provider_session_id raw) ''provider session id'' 256 = Inr provider"
    "d = raw\<lparr>in_idempotency_key := key, in_agent_id := agent, in_session_id := session, in_model := model,
            in_effort := effort, in_payload_text := payload, in_provider_session_id := provider,
            in_handoff_id := handoff, in_input_group_key := grp\<rparr>"
    using assms unfolding valid_input_def by (auto simp only: attempt_Inr check_Inr sum.inject prod.inject)
  show "in_model d = py_strip (in_model raw)" "in_effort d = py_strip (in_effort raw)"
    "in_context_watermark d = in_context_watermark raw" "in_handoff_id d = map_option py_strip (in_handoff_id raw)"
    "in_provider_session_id d = map_option py_strip (in_provider_session_id raw)"
    using bounded_strip [OF v(1)] bounded_strip [OF v(2)] optional_strip [OF v(3)] optional_strip [OF v(4)] by (simp_all add: v(5))
qed

text \<open>The job that is the saved task again.\<close>

definition saved_task :: "retry_ticket \<Rightarrow> provider_job \<Rightarrow> provider_job \<Rightarrow> bool" where
  "saved_task k old j \<longleftrightarrow> pj_status j = Queued \<and> pj_max_attempts j = 1 \<and> pj_topic_id j = pj_topic_id old \<and>
     pj_agent_id j = py_strip (pj_agent_id old) \<and> pj_session_id j = py_strip (pj_session_id old) \<and>
     pj_session_generation j = rt_session_generation k \<and> pj_model j = py_strip (rt_model k) \<and>
     pj_effort j = py_strip (rt_effort k) \<and> pj_payload_text j = py_strip (rt_payload_text k) \<and>
     pj_context_watermark j = rt_context_watermark k \<and> pj_handoff_id j = map_option py_strip (rt_handoff_id k) \<and>
     (case rt_expected_thread_id k of None \<Rightarrow> True | Some th \<Rightarrow> pj_provider_session_id j = Some (py_strip th))"

lemma added_saved:
  assumes "enqueue_provider_job e retry_options (retry_draft k old chat message ingress) moved now db = (Inr (j, True), db')"
    "pj_session_generation old = rt_session_generation k"
  shows "saved_task k old j"
  using assms(1)
proof (cases rule: enqueue_cases)
  case (added d x s db1 m j')
  note v = valid_input_same [OF added(1)] and w = valid_input_rest [OF added(1)]
  have p: "in_provider_session_id d = None \<or> in_provider_session_id d = ss_provider_session_id s"
    using added(4) by (auto simp: require_binding_def Let_def attempt_Inr)
  show ?thesis using added(2) v w p assms(2)
    by (auto simp: saved_task_def added(5) new_job_def retry_draft_def retry_options_def split: option.splits)
qed simp_all

text \<open>Neither the admission nor the note of the reply touches the links between retries.\<close>

lemma attend_retries: "attend_only db db' \<Longrightarrow> db_retries db' = db_retries db"
  unfolding attend_only_def by (drule arg_cong [where f = db_retries]) simp

lemma child_link_cong: "db_retries db' = db_retries db \<Longrightarrow> child_link db' i = child_link db i"
  by (simp add: child_link_def)

lemma advance_note_retries [simp]:
  "db_retries (advance_counter t now db) = db_retries db" "db_retries (note_message c m db) = db_retries db"
  by (simp_all add: advance_counter_def note_message_def)

lemma retry_admits:
  assumes "enqueue_provider_job e retry_options d moved now db = (Inr (j, True), db')"
  shows "db_jobs db' = db_jobs db @ [j] \<and> db_retries db' = db_retries db \<and>
    persistent_root_blocker db (pj_topic_id j) = None \<and> (\<forall>k \<in> set (db_jobs db). pj_job_id k \<noteq> pj_job_id j)"
  using assms
proof (cases rule: enqueue_cases)
  case (added v x s db1 m j')
  have b: "persistent_root_blocker db (in_topic_id v) = None" "db1 = db"
    using require_binding_Inr(11) [OF added(4)] by (simp_all add: retry_options_def)
  have "db_retries db' = db_retries m" using attend_retries [OF added(8)] by simp
  moreover have "pj_topic_id j = in_topic_id v" using added(2) by (simp add: added(5) new_job_def)
  moreover have "\<forall>k \<in> set (db_jobs db). pj_job_id k \<noteq> pj_job_id j"
    using added(2,7) by (auto simp: job_clashes_def exists_row_iff added(6) b(2) note_message_sel)
  ultimately show ?thesis using attend_only_sel(1) [OF added(8)] added(2) b by (simp add: added(6))
qed simp_all

text \<open>What a retry may start from: the job failed before any turn, without materials and with the inputs,
  text and context its ticket kept, in the place and session the ticket names.\<close>

definition retry_ready :: "resolver \<Rightarrow> retry_request \<Rightarrow> db \<Rightarrow> retry_ticket \<Rightarrow> provider_job \<Rightarrow> bool" where
  "retry_ready resolve q db k old \<longleftrightarrow> job_of db (rq_source_job_id q) = Some old \<and>
     ticket_of db (rq_source_job_id q) = Some k \<and> \<not> job_has_materials db (rq_source_job_id q) \<and>
     job_unchanged k old db \<and> task_unchanged k old db \<and> resolve (rq_canonical_root q) = Some (rt_canonical_root k) \<and>
     context_refusal db (rq_source_job_id q) (rt_expected_thread_id k) = None \<and>
     (\<exists>s. session_of db (rt_session_id k) = Some s \<and> session_unchanged k old s)"

lemma submitted_effect:
  assumes "submit_retry e q k now db = Inr ((j, c), db')"
    and "validate_retry resolve profile (rq_source_job_id q) (rq_canonical_root q) mp runtime db = Inr k"
    and "child_link db (rq_source_job_id q) = None"
  shows "c \<and> (\<exists>old. retry_ready resolve q db k old \<and> saved_task k old j) \<and> db_jobs db' = db_jobs db @ [j] \<and>
    (\<forall>i \<in> set (db_jobs db). pj_job_id i \<noteq> pj_job_id j) \<and> persistent_root_blocker db (pj_topic_id j) = None \<and>
    db_retries db' = db_retries db @ [\<lparr>rl_source_job_id = rq_source_job_id q, rl_child_job_id = pj_job_id j, rl_created_at = now\<rparr>]"
  using assms(1)
proof (rule submit_retry_Inr)
  fix old db1 db2
  assume c: c and old: "job_of db (rq_source_job_id q) = Some old"
    and a: "enqueue_provider_job e retry_options (retry_draft k old (ry_chat_id (rq_reply q)) (ry_reply_message_id (rq_reply q))
       (rq_ingress_identity q)) now now db = (Inr (j, True), db1)"
    and l: "put_link \<lparr>rl_source_job_id = rq_source_job_id q, rl_child_job_id = pj_job_id j, rl_created_at = now\<rparr> db1 = Inr db2"
    and n: "note_control (rq_source_job_id q) (rq_reply q) now db2 = Inr db'"
  note v = validate_Inr [OF assms(2)]
  obtain s where s: "session_of db (rt_session_id k) = Some s" "session_unchanged k old s" using v old by auto
  have r: "retry_ready resolve q db k old"
    using v old s by (auto simp: retry_ready_def place_unchanged_def)
  have "pj_session_generation old = rt_session_generation k" using s(2) by (simp add: session_unchanged_def)
  then have t: "saved_task k old j" by (rule added_saved [OF a])
  show ?thesis using retry_admits [OF a] put_link_Inr [OF l] note_control_Inr [OF n] c r t by auto
qed


end
