(* ===== verification/Failure_Properties.thy ===== *)
theory Failure_Properties
  imports Failure_Notice Commit_Properties Blocker_Properties
begin

text \<open>
  What the end of a failed or lost execution promises: the failure notice with its parts and the end of
  the job are written together, a stop that covers the job comes first, a turn that is known to have
  ended holds the work that waits behind it, and nothing else of the queue moves.
\<close>

section \<open>What the steps write\<close>

text \<open>The retry that is offered with the notice adds at most a ticket.\<close>

lemma record_ticket_Inr:
  assumes "record_ticket resolve profile j saved now db = Inr (offer, db')"
  shows "\<exists>ts. db' = db\<lparr>db_tickets := db_tickets db @ ts\<rparr> \<and> list_all (\<lambda>k. rt_source_job_id k = pj_job_id j) ts"
proof -
  have "db' = db \<or> (\<exists>k. db' = db\<lparr>db_tickets := db_tickets db @ [k]\<rparr> \<and> rt_source_job_id k = pj_job_id j)"
    using assms by (auto simp: record_ticket_def attempt_Inr put_ticket_def new_ticket_def split: if_splits option.splits)
  then show ?thesis
  proof
    assume "db' = db"
    then show ?thesis by (intro exI [of _ "[]"]) simp
  next
    assume "\<exists>k. db' = db\<lparr>db_tickets := db_tickets db @ [k]\<rparr> \<and> rt_source_job_id k = pj_job_id j"
    then obtain k where "db' = db\<lparr>db_tickets := db_tickets db @ [k]\<rparr>" "rt_source_job_id k = pj_job_id j" by blast
    then show ?thesis by (intro exI [of _ "[k]"]) simp
  qed
qed

lemma offer_retry_Inr:
  assumes "offer_retry resolve profile f j now db = Inr (offer, db')"
  shows "\<exists>ts. db' = db\<lparr>db_tickets := db_tickets db @ ts\<rparr> \<and> list_all (\<lambda>k. rt_source_job_id k = pj_job_id j) ts"
proof -
  have "db' = db \<or> (\<exists>saved. record_ticket resolve profile j saved now db = Inr (offer, db'))"
    using assms by (auto simp: offer_retry_def split: option.splits if_splits)
  then show ?thesis
  proof
    assume "db' = db"
    then show ?thesis by (intro exI [of _ "[]"]) simp
  qed (use record_ticket_Inr in blast)
qed

text \<open>Holding the tail of a root: every waiting job of it is held, and the new holds are on these jobs.\<close>

lemma add_hold_cases: "\<exists>hs. add_hold h db = db\<lparr>db_holds := db_holds db @ hs\<rparr> \<and> set hs \<subseteq> {h}"
  by (cases "is_held db (hd_job_id h)") (auto simp: add_hold_def intro: exI [of _ "[]"] exI [of _ "[h]"])

lemma hold_each:
  "\<exists>hs. fold (\<lambda>q. add_hold (lost_hold c now q)) js db = db\<lparr>db_holds := db_holds db @ hs\<rparr> \<and>
    set hs \<subseteq> lost_hold c now ` set js \<and>
    (\<forall>q \<in> set js. is_held (fold (\<lambda>q. add_hold (lost_hold c now q)) js db) (pj_job_id q))"
proof (induction js arbitrary: db)
  case Nil
  show ?case by (intro exI [of _ "[]"]) simp
next
  case (Cons q js)
  let ?m = "add_hold (lost_hold c now q) db"
  obtain h1 where h1: "?m = db\<lparr>db_holds := db_holds db @ h1\<rparr>" "set h1 \<subseteq> {lost_hold c now q}"
    using add_hold_cases by blast
  obtain h2 where h2: "fold (\<lambda>q. add_hold (lost_hold c now q)) js ?m = ?m\<lparr>db_holds := db_holds ?m @ h2\<rparr>"
    "set h2 \<subseteq> lost_hold c now ` set js"
    "\<forall>q \<in> set js. is_held (fold (\<lambda>q. add_hold (lost_hold c now q)) js ?m) (pj_job_id q)"
    using Cons.IH [of ?m] by blast
  have "is_held ?m (pj_job_id q)" using is_held_add_hold [of "lost_hold c now q" db] by (simp add: lost_hold_def)
  then have "is_held (fold (\<lambda>q. add_hold (lost_hold c now q)) js ?m) (pj_job_id q)"
    by (rule is_held_grow [rotated]) (simp add: h2(1))
  then show ?case using h1 h2 by (intro exI [of _ "h1 @ h2"]) auto
qed

lemma hold_tail_effect:
  "\<exists>hs. hold_tail j now db = db\<lparr>db_holds := db_holds db @ hs\<rparr> \<and>
    set hs \<subseteq> lost_hold (pj_job_id j) now ` {q \<in> set (db_jobs db). waits_beside db j q} \<and>
    (\<forall>q \<in> set (db_jobs db). waits_beside db j q \<longrightarrow> is_held (hold_tail j now db) (pj_job_id q))"
  using hold_each [of "pj_job_id j" now "filter (waits_beside db j) (db_jobs db)" db] unfolding hold_tail_def by auto

text \<open>A confirmed turn leaves its evidence and the holds, and a note of them.\<close>

lemma confirm_turn_Inr:
  assumes "confirm_turn status html j now db = Inr (noted, db')"
  shows "\<exists>c e hs. confirmed_turn j db = Some c \<and> te_job_id e = pj_job_id j \<and> te_terminal_status e = status \<and>
    te_provider_thread_id e = cp_provider_thread_id c \<and> Some (te_provider_turn_id e) = cp_provider_turn_id c \<and>
    \<not> exists_row (\<lambda>x. te_job_id x = pj_job_id j) (db_evidence db) \<and>
    db' = db\<lparr>db_evidence := db_evidence db @ [e], db_holds := db_holds db @ hs\<rparr> \<and>
    set hs \<subseteq> lost_hold (pj_job_id j) now ` {q \<in> set (db_jobs db). waits_beside db j q} \<and>
    (\<forall>q \<in> set (db_jobs db). waits_beside db j q \<longrightarrow> is_held db' (pj_job_id q))"
proof -
  obtain c where c: "confirmed_turn j db = Some c" using assms by (auto simp: confirm_turn_def split: option.splits)
  define e where "e = \<lparr>te_job_id = pj_job_id j, te_terminal_status = status,
              te_provider_thread_id = cp_provider_thread_id c,
              te_provider_turn_id = (case cp_provider_turn_id c of Some t \<Rightarrow> t | None \<Rightarrow> []),
              te_project_root = cp_project_root c, te_observed_at = now\<rparr>"
  let ?m = "db\<lparr>db_evidence := db_evidence db @ [e]\<rparr>"
  have p: "\<not> exists_row (\<lambda>x. te_job_id x = pj_job_id j) (db_evidence db)" "db' = hold_tail j now ?m"
    using assms by (auto simp: confirm_turn_def c attempt_Inr put_evidence_def e_def Let_def split: if_splits)
  have w: "waits_beside ?m j = waits_beside db j" by (simp add: fun_eq_iff waits_beside_def scope_of_def topic_of_def)
  obtain hs where h: "hold_tail j now ?m = ?m\<lparr>db_holds := db_holds ?m @ hs\<rparr>"
    "set hs \<subseteq> lost_hold (pj_job_id j) now ` {q \<in> set (db_jobs ?m). waits_beside ?m j q}"
    "\<forall>q \<in> set (db_jobs ?m). waits_beside ?m j q \<longrightarrow> is_held (hold_tail j now ?m) (pj_job_id q)"
    using hold_tail_effect by blast
  have "Some (te_provider_turn_id e) = cp_provider_turn_id c"
    using c by (auto simp: confirmed_turn_def e_def split: option.splits if_splits)
  moreover have "te_job_id e = pj_job_id j" "te_terminal_status e = status" "te_provider_thread_id e = cp_provider_thread_id c"
    by (simp_all add: e_def)
  ultimately show ?thesis using c p h w by (intro exI [of _ c] exI [of _ e] exI [of _ hs]) simp
qed

text \<open>What a confirmed turn leaves, and what stays as it is without one.\<close>

definition turn_settled :: "failure_report \<Rightarrow> provider_job \<Rightarrow> db \<Rightarrow> db \<Rightarrow> bool" where
  "turn_settled f j db db' \<longleftrightarrow>
     (case fr_terminal_turn_status f of
        None \<Rightarrow> db_evidence db' = db_evidence db \<and> db_holds db' = db_holds db
      | Some status \<Rightarrow> confirmed_turn j db \<noteq> None \<and>
          (\<exists>e. db_evidence db' = db_evidence db @ [e] \<and> te_job_id e = pj_job_id j \<and> te_terminal_status e = status) \<and>
          (\<forall>q \<in> set (db_jobs db). waits_beside db j q \<longrightarrow> is_held db' (pj_job_id q)))"

lemma write_notice_Inr:
  assumes "write_notice resolve profile f i token oid now db = Inr ((j, html), db')"
  obtains t ts es hs where "leased_row db i token (fr_expected_status f) now = Some (j, t)"
    "db' = db\<lparr>db_tickets := db_tickets db @ ts, db_evidence := db_evidence db @ es, db_holds := db_holds db @ hs,
       db_outbox := db_outbox db @ [new_outbox oid j (tp_thread_id t) html Execution_notice now]\<rparr>"
    "fr_terminal_turn_status f = None \<and> fr_preparation_retry f = None \<longrightarrow> html = fr_telegram_html f"
    "turn_settled f j db db'" "fr_terminal_turn_status f = None \<longrightarrow> es = []"
    "set hs \<subseteq> lost_hold (pj_job_id j) now ` {q \<in> set (db_jobs db). waits_beside db j q}"
    "\<forall>e \<in> set es. te_job_id e = i"
proof -
  obtain t offer db1 db2 where s: "owned_row db i token (fr_expected_status f) (fr_sender_agent_id f) now = Inr (j, t)"
    "offer_retry resolve profile f j now db = Inr (offer, db1)"
    "(case fr_terminal_turn_status f of None \<Rightarrow> Inr (fr_telegram_html f @ offer, db1)
       | Some status \<Rightarrow> confirm_turn status (fr_telegram_html f @ offer) j now db1) = Inr (html, db2)"
    "insert_outbox (new_outbox oid j (tp_thread_id t) html Execution_notice now) db2 = Inr db'"
    using assms by (auto simp: write_notice_def attempt_Inr)
  have row: "leased_row db i token (fr_expected_status f) now = Some (j, t)"
    using s(1) by (auto simp: owned_row_def split: option.splits if_splits)
  have id: "pj_job_id j = i"
    using row by (auto simp: leased_row_def current_lease_def holds_lease_def split: option.splits dest!: find_Some_set)
  obtain ts where ts: "db1 = db\<lparr>db_tickets := db_tickets db @ ts\<rparr>" using offer_retry_Inr [OF s(2)] by blast
  have o: "db' = db2\<lparr>db_outbox := db_outbox db2 @ [new_outbox oid j (tp_thread_id t) html Execution_notice now]\<rparr>"
    using s(4) by (simp add: insert_outbox_def split: if_splits)
  have s1: "session_of db1 = session_of db" "db_checkpoints db1 = db_checkpoints db"
    by (simp_all add: fun_eq_iff session_of_def ts)
  have w: "waits_beside db1 j = waits_beside db j" "confirmed_turn j db1 = confirmed_turn j db"
    by (simp add: fun_eq_iff waits_beside_def scope_of_def topic_of_def ts) (simp only: confirmed_turn_def s1)
  have h: "fr_terminal_turn_status f = None \<and> fr_preparation_retry f = None \<longrightarrow> html = fr_telegram_html f"
    using s(2,3) by (auto simp: offer_retry_def)
  show ?thesis
  proof (cases "fr_terminal_turn_status f")
    case None
    have d2: "db2 = db\<lparr>db_tickets := db_tickets db @ ts\<rparr>" using s(3) None ts by simp
    have e: "db' = db\<lparr>db_tickets := db_tickets db @ ts, db_evidence := db_evidence db @ [], db_holds := db_holds db @ [],
       db_outbox := db_outbox db @ [new_outbox oid j (tp_thread_id t) html Execution_notice now]\<rparr>"
      by (simp add: o d2)
    have s: "turn_settled f j db db'" using None by (simp add: turn_settled_def o d2)
    show ?thesis by (rule that [OF row e h s]) (simp_all add: None)
  next
    case (Some status)
    then have ct: "confirm_turn status (fr_telegram_html f @ offer) j now db1 = Inr (html, db2)" using s(3) by simp
    obtain c e hs where c: "confirmed_turn j db1 = Some c" "te_job_id e = pj_job_id j" "te_terminal_status e = status"
      "db2 = db1\<lparr>db_evidence := db_evidence db1 @ [e], db_holds := db_holds db1 @ hs\<rparr>"
      "set hs \<subseteq> lost_hold (pj_job_id j) now ` {q \<in> set (db_jobs db1). waits_beside db1 j q}"
      "\<forall>q \<in> set (db_jobs db1). waits_beside db1 j q \<longrightarrow> is_held db2 (pj_job_id q)"
      using confirm_turn_Inr [OF ct] by blast
    have e: "db' = db\<lparr>db_tickets := db_tickets db @ ts, db_evidence := db_evidence db @ [e], db_holds := db_holds db @ hs,
       db_outbox := db_outbox db @ [new_outbox oid j (tp_thread_id t) html Execution_notice now]\<rparr>"
      using o c(4) ts by simp
    have held: "\<forall>q \<in> set (db_jobs db). waits_beside db j q \<longrightarrow> is_held db' (pj_job_id q)"
      using c(6) w ts by (auto simp: o is_held_def)
    have "turn_settled f j db db'" unfolding turn_settled_def using Some c(1-3) held e w by auto
    then show ?thesis using that [OF row e h] Some c(2,5) w ts id by auto
  qed
qed

lemma finish_failure_Inr:
  assumes "finish_failure f i token topic now db = Inr (u, db')"
  shows "\<exists>db1 db2. count_jobs (holds_lease i token [fr_expected_status f]) db = 1 \<and>
    settle i Settle_indeterminate now (update_jobs (holds_lease i token [fr_expected_status f]) (end_job f now) db) = Inr db1 \<and>
    sync_job i now db1 = Inr db2 \<and> db' = observe_later f i now (complete_finished_stops topic now db2)"
  using assms by (auto simp: finish_failure_def Let_def attempt_Inr)

lemma observe_later_sel [simp]:
  "db_jobs (observe_later f i now db) = db_jobs db" "db_outbox (observe_later f i now db) = db_outbox db"
  "db_parts (observe_later f i now db) = db_parts db" "db_evidence (observe_later f i now db) = db_evidence db"
  "db_holds (observe_later f i now db) = db_holds db" "db_topics (observe_later f i now db) = db_topics db"
  "db_stops (observe_later f i now db) = db_stops db" "db_resolutions (observe_later f i now db) = db_resolutions db"
  "db_controls (observe_later f i now db) = db_controls db" "db_sessions (observe_later f i now db) = db_sessions db"
  "db_tickets (observe_later f i now db) = db_tickets db"
  by (simp_all add: observe_later_def Let_def)

lemma complete_finished_work: "work_only db (complete_finished_stops t now db)"
  by (simp add: complete_finished_stops_def)

text \<open>The end of the job's own row; its notices, the stops and a correction beside it may follow.\<close>

lemma finish_failure_effect:
  assumes "finish_failure f i token topic now db = Inr (u, db')" "jobs_ok db" "fr_status f \<noteq> Executing"
  shows "db_outbox db' = db_outbox db \<and> db_parts db' = db_parts db \<and> db_evidence db' = db_evidence db \<and>
    db_holds db' = db_holds db \<and> db_tickets db' = db_tickets db \<and>
    (\<exists>x. job_of db i = Some x \<and> holds_lease i token [fr_expected_status f] x \<and> job_of db' i = Some (end_job f now x))"
proof -
  let ?p = "holds_lease i token [fr_expected_status f]"
  obtain db1 db2 where s: "count_jobs ?p db = 1" "settle i Settle_indeterminate now (update_jobs ?p (end_job f now) db) = Inr db1"
    "sync_job i now db1 = Inr db2" "db' = observe_later f i now (complete_finished_stops topic now db2)"
    using finish_failure_Inr [OF assms(1)] by blast
  have w: "work_only db db2"
    using settle_work [OF s(2)] sync_work [OF s(3)] work_only_trans work_only_update(2) unfolding update_jobs_def by blast
  then have w': "work_only db (complete_finished_stops topic now db2)" using complete_finished_work by (rule work_only_trans)
  have t: "db_tickets (complete_finished_stops topic now db2) = db_tickets db"
    using arg_cong [OF w' [unfolded work_only_def], of db_tickets] by simp
  have "exists_row ?p (db_jobs db)" using count_one(1) [OF assms(2), of ?p i] s(1) by (simp add: holds_lease_def)
  then obtain x where x: "x \<in> set (db_jobs db)" "?p x" by (auto simp: exists_row_iff)
  have jx: "job_of db i = Some x"
    using find_key_unique [of pj_job_id "db_jobs db" x] x assms(2) by (simp add: jobs_ok_def holds_lease_def job_of_def)
  have f: "\<And>r. pj_job_id (end_job f now r) = pj_job_id r" "pj_status (end_job f now x) = fr_status f"
    by (simp_all add: end_job_def clear_lease_def)
  have "job_of (update_jobs ?p (end_job f now) db) i = Some (end_job f now x)"
    using job_of_update [of "end_job f now" ?p db i] f(1) jx x(2) by simp
  then have "job_of db1 i = Some (end_job f now x)" using settle_effect [OF s(2)] f(2) assms(3) by simp
  then have "job_of db2 i = Some (end_job f now x)" using job_of_notices [OF sync_job_only [OF s(3)]] by simp
  then have "job_of db' i = Some (end_job f now x)" by (simp add: job_of_def s(4) completed_jobs)
  then show ?thesis using work_only_sel [OF w'] t jx x(2) by (simp add: s(4))
qed

section \<open>The end of a failed execution as a whole\<close>

lemma valid_report_Inr:
  assumes "valid_report report = Inr f"
  shows "fr_status f \<in> {Failed, Indeterminate}" "fr_expected_status f \<in> {Leased, Executing}"
    "fr_expected_status f = fr_expected_status report" "fr_telegram_html f = py_strip (fr_telegram_html report)"
    "fr_terminal_turn_status f = fr_terminal_turn_status report"
    "fr_terminal_turn_status f \<noteq> None \<longrightarrow> fr_status f = Indeterminate"
proof -
  obtain cls code sender html where v: "fr_status report \<in> {Failed, Indeterminate}" "fr_expected_status report \<in> {Leased, Executing}"
    "case fr_terminal_turn_status report of None \<Rightarrow> True
         | Some s \<Rightarrow> fr_status report = Indeterminate \<and> fr_expected_status report = Executing \<and> s \<in> {''failed'', ''interrupted''}"
    "bounded (fr_telegram_html report) ''Telegram outbox text'' MAX_PROVIDER_RESPONSE_LENGTH = Inr html"
    "f = report\<lparr>fr_error_class := cls, fr_error_code := code, fr_sender_agent_id := sender, fr_telegram_html := html,
            fr_error_detail := clip_detail (fr_error_detail report)\<rparr>"
    using assms unfolding valid_report_def by (auto simp only: attempt_Inr check_Inr sum.inject)
  show "fr_status f \<in> {Failed, Indeterminate}" "fr_expected_status f \<in> {Leased, Executing}"
    "fr_expected_status f = fr_expected_status report" "fr_telegram_html f = py_strip (fr_telegram_html report)"
    "fr_terminal_turn_status f = fr_terminal_turn_status report"
    "fr_terminal_turn_status f \<noteq> None \<longrightarrow> fr_status f = Indeterminate"
    using v(1-3) bounded_strip [OF v(4)] by (auto simp: v(5))
qed

lemma judge_sel [simp]:
  "fr_expected_status (judge_report i db f) = fr_expected_status f" "fr_error_code (judge_report i db f) = fr_error_code f"
  "fr_terminal_turn_status (judge_report i db f) = fr_terminal_turn_status f"
  "fr_status (judge_report i db f) = (if preparation_failed f \<and> has_execution_evidence db i then Indeterminate else fr_status f)"
  by (simp_all add: judge_report_def)

lemma terminate_cases:
  assumes "terminate_provider_job_with_notice resolve profile icon report i token oid clock now db = Some (r, db')"
  obtains (refused) e where "r = Inl e" "db' = db"
  | (stopped) f where "valid_report report = Inr f" "r = get_job db' i" "fr_status (judge_report i db f) = Failed"
      "honor_stop i token (fr_expected_status f) clock db = Inr (True, db')"
  | (ended) f v db0 j html db1 db2 where "valid_report report = Inr v" "f = judge_report i db v" "r = get_job db' i"
      "fr_status f = Failed \<and> honor_stop i token (fr_expected_status f) clock db = Inr (False, db0) \<or> fr_status f \<noteq> Failed \<and> db0 = db"
      "write_notice resolve profile f i token oid now db0 = Inr ((j, html), db1)"
      "insert_outbox_parts icon oid html [] db1 = Some (Inr db2)"
      "finish_failure f i token (pj_topic_id j) now db2 = Inr ((), db')"
proof (cases "valid_report report")
  case (Inl e)
  then have "r = Inl e" "db' = db" using assms by (simp_all add: terminate_provider_job_with_notice_def)
  then show ?thesis by (rule refused)
next
  case (Inr v)
  let ?f = "judge_report i db v"
  let ?stop = "if fr_status ?f = Failed then honor_stop i token (fr_expected_status ?f) clock db else Inr (False, db)"
  obtain x where x: "terminate_tx resolve profile icon v i token oid clock now db = Some x"
    "commit_then (\<lambda>_. x) (\<lambda>_ d. get_job d i) db = (r, db')"
    using assms Inr by (auto simp: terminate_provider_job_with_notice_def)
  show ?thesis
  proof (cases x)
    case (Inl e)
    then have "r = Inl e" "db' = db" using x(2) by (simp_all add: commit_then_def)
    then show ?thesis by (rule refused)
  next
    case x': (Inr a)
    then have r: "x = Inr ((), db')" "r = get_job db' i" using x(2) by (auto simp: commit_then_def split: prod.splits)
    obtain b db0 where s: "?stop = Inr (b, db0)"
      using x(1) r(1) by (cases ?stop) (auto simp: terminate_tx_def Let_def)
    show ?thesis
    proof (cases b)
      case True
      then have "db0 = db'" using x(1) r(1) s by (simp add: terminate_tx_def Let_def)
      then show ?thesis using stopped [OF Inr r(2)] s True by (auto split: if_splits)
    next
      case False
      obtain j html db1 where n: "write_notice resolve profile ?f i token oid now db0 = Inr ((j, html), db1)"
        using x(1) r(1) s False
        by (cases "write_notice resolve profile ?f i token oid now db0") (auto simp: terminate_tx_def Let_def)
      obtain p where p: "insert_outbox_parts icon oid html [] db1 = Some p"
        "attempt p (finish_failure ?f i token (pj_topic_id j) now) = Inr ((), db')"
        using x(1) r(1) s False n by (auto simp: terminate_tx_def Let_def)
      obtain db2 where "p = Inr db2" "finish_failure ?f i token (pj_topic_id j) now db2 = Inr ((), db')"
        using p(2) by (auto simp: attempt_Inr)
      then show ?thesis using ended [OF Inr refl r(2) _ n] p(1) s False by (auto split: if_splits)
    qed
  qed
qed


text \<open>The preparation of a leased job failed before any turn: the job fails with one notice.\<close>

definition preparing_job :: provider_job where
  "preparing_job = (example_job ''a'' 1 Leased)"

definition preparing_hub :: db where
  "preparing_hub = example_hub [preparing_job]"

definition example_report :: failure_report where
  "example_report = \<lparr>fr_status = Failed, fr_error_class = ''pre_execution'', fr_error_code = ''CodexPreparationError'',
     fr_sender_agent_id = ''codex'', fr_telegram_html = ''no'', fr_expected_status = Leased, fr_error_detail = None,
     fr_terminal_turn_status = None, fr_preparation_retry = None, fr_provider_runtime = Some ''codex''\<rparr>"

lemma preparing_hub_ok: "jobs_ok preparing_hub"
  by (simp add: jobs_ok_def preparing_hub_def preparing_job_def example_hub_def example_job_def job_ok_def lease_columns_ok_def
      attempts_ok_def empty_db_def)

lemma preparing_hub_ends:
  "\<exists>db'. terminate_provider_job_with_notice (\<lambda>_. None) (Inr None) (CHR ''*'') example_report ''a'' ''t'' ''o'' 10 10 preparing_hub =
     Some (Inr (end_job example_report 10 preparing_job), db')"
proof -
  have v: "valid_report example_report = Inr example_report"
    by (simp add: valid_report_def example_report_def bounded_def py_strip_def py_space_def check_def clip_detail_def
        MAX_PROVIDER_RESPONSE_LENGTH_def)
  have sp: "split_telegram_html telegram_html_limit ''no'' = Some (Inr [''no''])"
    by (simp add: split_telegram_html_def telegram_html_limit_def py_strip_def py_space_def)
  have j: "judge_report ''a'' preparing_hub example_report = example_report"
    by (simp add: judge_report_def has_execution_evidence_def preparing_hub_def example_hub_def empty_db_def exists_row_def)
  show ?thesis
    unfolding terminate_provider_job_with_notice_def v sum.case terminate_tx_def Let_def [of "judge_report _ _ _"] j
    by (simp add: honor_stop_def ended_by_stop_def exists_row_def preparing_hub_def preparing_job_def example_hub_def
        empty_db_def example_job_def pending_stop_for_job_def write_notice_def owned_row_def leased_row_def current_lease_def
        holds_lease_def after_def topic_of_def example_topic_def example_report_def offer_retry_def insert_outbox_def new_outbox_def
        MAX_PROVIDER_RESPONSE_LENGTH_def insert_outbox_parts_def sp part_rows_def text_part_def insert_part_def part_valid_def
        finish_failure_def settle_def child_of_def sync_job_def notices_enabled_def check_def count_jobs_def count_where_def
        update_jobs_def update_where_def attempt_def Let_def end_job_def clear_lease_def complete_finished_stops_def
        observe_later_def commit_then_def get_job_def job_of_def)
qed


end
