(* ===== verification/Failure_Calm.thy ===== *)
theory Failure_Calm
  imports Failure_Properties Hub_Machine
begin

text \<open>
  The end of a failed execution admits no work: it ends the caller's job, keeps the evidence of the turn
  and holds jobs that wait.
\<close>

lemma quiet_end_job: "running now j \<Longrightarrow> fr_status f \<in> {Failed, Indeterminate} \<Longrightarrow> quiet now j (end_job f t j)"
proof -
  assume r: "running now j" and f: "fr_status f \<in> {Failed, Indeterminate}"
  have i: "same_identity j (end_job f t j)" by (simp add: same_identity_def end_job_def clear_lease_def)
  have s: "pj_status (end_job f t j) = fr_status f" by (simp add: end_job_def)
  have "status_edge\<^sup>*\<^sup>* Leased Executing" "status_edge\<^sup>*\<^sup>* Executing Indeterminate" by simp_all
  then have l: "status_edge\<^sup>*\<^sup>* Leased Indeterminate" by (rule rtranclp_trans)
  have e: "status_edge\<^sup>*\<^sup>* (pj_status j) (fr_status f)"
    using r f l by (auto simp: running_def)
  have k: "job_ok j \<longrightarrow> job_ok (end_job f t j)"
    using f by (auto simp: job_ok_def lease_columns_ok_def attempts_ok_def end_job_def clear_lease_def)
  show ?thesis using i s e k r f by (auto simp: quiet_def moves_def running_def)
qed

lemma quiet_finish_failure:
  assumes "finish_failure f i token topic now db = Inr (u, db')" "fr_status f \<in> {Failed, Indeterminate}"
    and "\<And>j. j \<in> set (db_jobs db) \<Longrightarrow> holds_lease i token [fr_expected_status f] j \<Longrightarrow> running now j"
  shows "calmly now db db'"
proof -
  let ?p = "holds_lease i token [fr_expected_status f]"
  let ?m = "update_jobs ?p (end_job f now) db"
  obtain db1 db2 where s: "settle i Settle_indeterminate now ?m = Inr db1" "sync_job i now db1 = Inr db2"
    "db' = observe_later f i now (complete_finished_stops topic now db2)"
    using finish_failure_Inr [OF assms(1)] by blast
  have "quiet_step now db ?m"
    using assms(2,3) quiet_end_job by (simp add: quiet_step_def update_jobs_def quiet_update_where list.rel_refl)
  then have "quiet_step now db (complete_finished_stops topic now db2)"
    using quiet_settle_op [OF s(1)] quiet_sync [OF s(2)] quiet_complete_finished quiet_step_trans by meson
  moreover have "calmly now (complete_finished_stops topic now db2) db'" by (rule unchanged_calmly) (simp_all add: s(3))
  ultimately show ?thesis using quiet_calmly calmly_trans by blast
qed

lemma written_calmly:
  assumes "db' = db\<lparr>db_tickets := ts, db_evidence := db_evidence db @ es, db_holds := db_holds db @ hs, db_outbox := os\<rparr>"
    and "set hs \<subseteq> lost_hold c now ` {q \<in> set (db_jobs db). waits_beside db j q}" "jobs_ok db"
  shows "calmly t db db'"
proof -
  let ?m = "db\<lparr>db_holds := db_holds db @ hs\<rparr>"
  have "holds_waiting db ?m"
    using assms(2) by (auto simp: holds_waiting_def lost_hold_def waits_beside_def)
  then have "calmly t db ?m" by (rule holds_calmly [OF _ assms(3)])
  moreover have "calmly t ?m db'"
  proof -
    have o: "outside db' = outside ?m" by (rule outside_sessions) (simp add: assms(1))
    have sc: "scope_of db' = scope_of ?m" by (rule scope_of_cong) (simp add: assms(1))
    have "calm t ?m db'" unfolding calm_def o sc by (auto simp: assms(1) pending_hold_def list.rel_refl)
    then show ?thesis by (simp add: calmly_def assms(1))
  qed
  ultimately show ?thesis by (rule calmly_trans)
qed

lemma terminate_calmly:
  assumes "terminate_provider_job_with_notice resolve profile icon report i token oid clock now db = Some (r, db')" "jobs_ok db"
  shows "calmly now db db'"
  using assms(1)
proof (cases rule: terminate_cases)
  case (stopped f)
  then show ?thesis using quiet_calmly [OF quiet_honor] valid_report_Inr(2) by blast
next
  case (ended f v db0 j html db1 db2)
  note v = valid_report_Inr [OF ended(1)]
  have fs: "fr_status f \<in> {Failed, Indeterminate}" using v(1) ended(2) by simp
  have es: "fr_expected_status f = fr_expected_status v" using ended(2) by simp
  have q: "quiet_step now db db0"
    using ended(4) quiet_honor [of i token "fr_expected_status f" clock db False db0 now] v(2) es by auto
  have ok: "jobs_ok db0" using quiet_jobs_ok [OF q assms(2)] by simp
  obtain t ts es hs where n: "leased_row db0 i token (fr_expected_status f) now = Some (j, t)"
    "db1 = db0\<lparr>db_tickets := db_tickets db0 @ ts, db_evidence := db_evidence db0 @ es, db_holds := db_holds db0 @ hs,
       db_outbox := db_outbox db0 @ [new_outbox oid j (tp_thread_id t) html Execution_notice now]\<rparr>"
    "set hs \<subseteq> lost_hold (pj_job_id j) now ` {q \<in> set (db_jobs db0). waits_beside db0 j q}"
    by (rule write_notice_Inr [OF ended(5)]) (rule that; assumption)
  have c1: "calmly now db0 db1" by (rule written_calmly [OF n(2,3) ok])
  obtain texts where p: "db2 = db1\<lparr>db_parts := db_parts db1 @ part_rows icon oid texts []\<rparr>"
    using insert_parts_writes [OF ended(6)] by blast
  have c2: "calmly now db1 db2" by (rule unchanged_calmly) (simp_all add: p)
  have j: "j \<in> set (db_jobs db0)" "pj_job_id j = i" "current_lease i token [fr_expected_status f] now j"
    using n(1) by (auto simp: leased_row_def current_lease_def holds_lease_def split: option.splits dest!: find_Some_set)
  have "calmly now db2 db'"
  proof (rule quiet_finish_failure [OF ended(7) fs])
    fix k assume k: "k \<in> set (db_jobs db2)" "holds_lease i token [fr_expected_status f] k"
    have "k \<in> set (db_jobs db0)" using k(1) by (simp add: p n(2))
    then have "k = j" using distinct_key_eq [of pj_job_id "db_jobs db0" k j] k(2) j ok by (simp add: jobs_ok_def holds_lease_def)
    then show "running now k" using j(3) v(2) es by (auto simp: current_lease_def holds_lease_def running_def)
  qed
  then show ?thesis using quiet_calmly [OF q] c1 c2 calmly_trans by meson
qed simp

end
