(* ===== verification/Consent_Properties.thy ===== *)
theory Consent_Properties
  imports Delivery_Consent
begin

text \<open>
  What a consent promises: it is recorded once, for exactly the state that was previewed, and from then on
  the queries of the queue see the wait as over. The root that Python accepts is the one the SQL accepts.
\<close>

section \<open>The two tests of a root\<close>

lemma split_nonempty [simp]: "split_on c xs \<noteq> []"
  by (induction xs) (auto split: list.splits)

lemma split_join: "join_with c (split_on c xs) = xs"
proof (induction xs)
  case (Cons x xs)
  obtain p ps where p: "split_on c xs = p # ps" by (cases "split_on c xs") auto
  then show ?case using Cons by (cases ps) auto
qed simp

lemma split_append: "split_on c (xs @ c # ys) = split_on c xs @ split_on c ys"
  by (induction xs) (auto split: list.splits)

lemma split_free: "c \<notin> set p \<Longrightarrow> split_on c p = [p]"
  by (induction p) auto

lemma split_pieces: "p \<in> set (split_on c xs) \<Longrightarrow> c \<notin> set p"
  by (induction xs arbitrary: p) (auto split: list.splits if_splits)

lemma join_split: "ps \<noteq> [] \<Longrightarrow> list_all (\<lambda>p. c \<notin> set p) ps \<Longrightarrow> split_on c (join_with c ps) = ps"
proof (induction c ps rule: join_with.induct)
  case (3 c p q ps)
  then show ?case using split_append [of c p] by (simp add: split_free)
qed (simp_all add: split_free)

text \<open>A path with its leading separator is its pieces, each with one.\<close>

lemma pieces_concat: "ps \<noteq> [] \<Longrightarrow> c # join_with c ps = concat (map ((#) c) ps)"
  by (induction c ps rule: join_with.induct) auto

lemma path_concat: "c # xs = concat (map ((#) c) (split_on c xs))"
  using pieces_concat [of "split_on c xs" c] by (simp add: split_join)

lemma occurs_iff: "occurs sub s \<longleftrightarrow> (\<exists>a b. s = a @ sub @ b)"
proof
  assume "occurs sub s"
  then obtain k where "starts_with (drop k s) sub" unfolding occurs_def list_ex_iff by blast
  then have "s = take k s @ sub @ drop (length sub) (drop k s)"
    by (metis starts_with_def append_take_drop_id)
  then show "\<exists>a b. s = a @ sub @ b" by blast
next
  assume "\<exists>a b. s = a @ sub @ b"
  then obtain a b where s: "s = a @ sub @ b" by blast
  then have "starts_with (drop (length a) s) sub" by (simp add: starts_with_def)
  moreover have "length a \<in> set [0..<Suc (length s)]" using s by simp
  ultimately show "occurs sub s" unfolding occurs_def list_ex_iff by blast
qed

lemma occurs_single: "occurs [c] s \<longleftrightarrow> c \<in> set s"
  by (auto simp: occurs_iff in_set_conv_decomp)

lemma ends_with_iff: "ends_with s sub \<longleftrightarrow> (\<exists>a. s = a @ sub)"
proof
  assume "ends_with s sub"
  then have "rev s = rev sub @ drop (length sub) (rev s)"
    by (metis ends_with_def starts_with_def append_take_drop_id length_rev)
  then have "s = rev (drop (length sub) (rev s)) @ sub" by (metis rev_append rev_rev_ident)
  then show "\<exists>a. s = a @ sub" by blast
qed (auto simp: ends_with_def starts_with_def)

text \<open>A piece between two separators, and the last piece.\<close>

lemma occurs_piece:
  assumes "c \<notin> set d"
  shows "occurs (c # d @ [c]) (c # xs) \<longleftrightarrow> d \<in> set (butlast (split_on c xs))"
proof
  assume "occurs (c # d @ [c]) (c # xs)"
  then obtain a b where ab: "c # xs = a @ c # d @ c # b" by (auto simp: occurs_iff)
  have "[] # split_on c xs = split_on c a @ d # split_on c b"
    using arg_cong [OF ab, of "split_on c"] split_append [of c "a"] split_append [of c d b] split_free [OF assms] by simp
  then obtain as where "split_on c xs = as @ d # split_on c b"
    by (cases "split_on c a") auto
  then show "d \<in> set (butlast (split_on c xs))" by (simp add: butlast_append)
next
  assume d: "d \<in> set (butlast (split_on c xs))"
  then obtain as bs where "butlast (split_on c xs) = as @ d # bs" by (meson split_list)
  then have "split_on c xs = as @ d # bs @ [last (split_on c xs)]"
    by (metis append_butlast_last_id append_Cons append_assoc split_nonempty)
  then obtain q qs where s: "split_on c xs = as @ d # q # qs" by (cases bs) auto
  have "c # xs = concat (map ((#) c) as) @ (c # d @ [c]) @ q @ concat (map ((#) c) qs)"
    using path_concat [of c xs] by (simp add: s)
  then show "occurs (c # d @ [c]) (c # xs)" unfolding occurs_iff by blast
qed

lemma ends_piece:
  assumes "c \<notin> set d"
  shows "ends_with (c # xs) (c # d) \<longleftrightarrow> last (split_on c xs) = d"
proof
  assume "ends_with (c # xs) (c # d)"
  then obtain a where a: "c # xs = a @ c # d" by (auto simp: ends_with_iff)
  have "[] # split_on c xs = split_on c (c # xs)" by simp
  also have "\<dots> = split_on c a @ [d]" unfolding a split_append split_free [OF assms] by simp
  finally have "[] # split_on c xs = split_on c a @ [d]" .
  then show "last (split_on c xs) = d" by (metis last.simps last_snoc split_nonempty)
next
  assume "last (split_on c xs) = d"
  then have "split_on c xs = butlast (split_on c xs) @ [d]" using append_butlast_last_id [of "split_on c xs"] by simp
  then have "c # xs = concat (map ((#) c) (butlast (split_on c xs))) @ c # d"
    using path_concat [of c xs] by (metis (no_types, lifting) concat.simps concat_append map_append append_Nil2 list.simps(8,9))
  then show "ends_with (c # xs) (c # d)" unfolding ends_with_iff by blast
qed

text \<open>A root is plain when none of its pieces is empty, a dot or two dots.\<close>

lemma plain_pieces:
  assumes "xs \<noteq> []"
  shows "plain_root (slash # xs) \<longleftrightarrow> length xs < 4096 \<and> char_of (0::nat) \<notin> set xs \<and>
    (\<forall>p \<in> set (split_on slash xs). p \<notin> {[], ''.'', ''..''})"
proof -
  let ?ps = "split_on slash xs"
  have pieces: "(\<forall>p \<in> set ?ps. p \<noteq> d) \<longleftrightarrow> d \<notin> set (butlast ?ps) \<and> last ?ps \<noteq> d" for d
  proof -
    have "set ?ps = insert (last ?ps) (set (butlast ?ps))"
      by (metis append_butlast_last_id list.set(2) rotate1.simps(2) set_rotate1 split_nonempty)
    then show ?thesis by auto
  qed
  have o: "occurs ''//'' (slash # xs) \<longleftrightarrow> [] \<in> set (butlast ?ps)" "occurs ''/./'' (slash # xs) \<longleftrightarrow> ''.'' \<in> set (butlast ?ps)"
    "occurs ''/../'' (slash # xs) \<longleftrightarrow> ''..'' \<in> set (butlast ?ps)"
    using occurs_piece [of slash "[]" xs] occurs_piece [of slash "''.''" xs] occurs_piece [of slash "''..''" xs] by simp_all
  have e: "ends_with (slash # xs) ''/'' \<longleftrightarrow> last ?ps = []" "ends_with (slash # xs) ''/.'' \<longleftrightarrow> last ?ps = ''.''"
    "ends_with (slash # xs) ''/..'' \<longleftrightarrow> last ?ps = ''..''"
    using ends_piece [of slash "[]" xs] ends_piece [of slash "''.''" xs] ends_piece [of slash "''..''" xs] by simp_all
  have n: "char_of (0::nat) \<noteq> slash" by (simp add: char_of_def)
  have z: "occurs [char_of (0::nat)] (slash # xs) \<longleftrightarrow> char_of (0::nat) \<in> set xs"
    unfolding occurs_single using n by (simp only: list.set insert_iff) blast
  have all: "(\<forall>p \<in> set ?ps. p \<notin> {[], ''.'', ''..''}) \<longleftrightarrow>
      (\<forall>p \<in> set ?ps. p \<noteq> []) \<and> (\<forall>p \<in> set ?ps. p \<noteq> ''.'') \<and> (\<forall>p \<in> set ?ps. p \<noteq> ''..'')" by blast
  have l: "1 \<le> length (slash # xs)" "length (slash # xs) \<le> 4096 \<longleftrightarrow> length xs < 4096" "starts_with (slash # xs) ''/''"
    "slash # xs \<noteq> ''/''"
    using assms by (auto simp: starts_with_def)
  show ?thesis unfolding plain_root_def all pieces o e z using l by (simp only: simp_thms) blast
qed

lemma canonical_pieces:
  assumes "xs \<noteq> []"
  shows "canonical_root (slash # xs) \<longleftrightarrow> length xs < 4096 \<and> char_of (0::nat) \<notin> set xs \<and>
    (\<forall>p \<in> set (split_on slash xs). p \<notin> {[], ''.'', ''..''})"
proof -
  let ?ps = "split_on slash xs" and ?ok = "\<lambda>p. p \<noteq> [] \<and> p \<noteq> ''.''"
  have path: "posix_path (slash # xs) = slash # xs \<longleftrightarrow> (\<forall>p \<in> set ?ps. ?ok p)"
  proof
    assume "posix_path (slash # xs) = slash # xs"
    then have j: "join_with slash (filter ?ok ?ps) = xs" by (simp add: posix_path_def)
    then have "filter ?ok ?ps \<noteq> []" using assms by auto
    moreover have "list_all (\<lambda>p. slash \<notin> set p) (filter ?ok ?ps)" using split_pieces by (auto simp: list_all_iff)
    ultimately have "filter ?ok ?ps = ?ps" using join_split j by metis
    then show "\<forall>p \<in> set ?ps. ?ok p" by (simp add: filter_id_conv)
  next
    assume "\<forall>p \<in> set ?ps. ?ok p"
    then have "filter ?ok ?ps = ?ps" by (simp add: filter_id_conv)
    then show "posix_path (slash # xs) = slash # xs" by (simp add: posix_path_def split_join)
  qed
  have two: "starts_with (slash # xs) ''//'' \<Longrightarrow> [] \<in> set ?ps"
    using assms by (cases xs) (auto simp: starts_with_def)
  have z: "char_of (0::nat) \<noteq> slash" by (simp add: char_of_def)
  have l: "1 \<le> length (slash # xs)" "length (slash # xs) \<le> 4096 \<longleftrightarrow> length xs < 4096" "starts_with (slash # xs) ''/''"
    "char_of (0::nat) \<notin> set (slash # xs) \<longleftrightarrow> char_of (0::nat) \<notin> set xs" "set (split_on slash (slash # xs)) = insert [] (set ?ps)"
    using z by (auto simp: starts_with_def)
  have all: "(\<forall>p \<in> set ?ps. p \<notin> {[], ''.'', ''..''}) \<longleftrightarrow> (\<forall>p \<in> set ?ps. ?ok p) \<and> ''..'' \<notin> set ?ps" by blast
  have d: "''..'' \<noteq> []" by simp
  show ?thesis unfolding canonical_root_def path all l(2,4,5) using l(1,3) two d by blast
qed

lemma canonical_root_agrees: "canonical_root v = plain_root v"
proof (cases v)
  case Nil
  then show ?thesis by (simp add: canonical_root_def plain_root_def)
next
  case (Cons c xs)
  show ?thesis
  proof (cases "c = slash \<and> xs \<noteq> []")
    case True
    then show ?thesis using canonical_pieces plain_pieces by (simp add: Cons)
  next
    case False
    consider "c \<noteq> slash" | "v = ''/''" using False Cons by auto
    then show ?thesis
    proof cases
      case 1
      then show ?thesis by (simp add: Cons canonical_root_def plain_root_def starts_with_def)
    next
      case 2
      have "canonical_root ''/''" by (simp add: canonical_root_def starts_with_def posix_path_def char_of_def)
      moreover have "plain_root ''/''" unfolding plain_root_def occurs_def ends_with_def
        by (simp add: starts_with_def upt_rec char_of_def)
      ultimately show ?thesis by (simp add: 2)
    qed
  qed
qed

section \<open>The consent to continue\<close>

lemma hold_target_Inr:
  assumes "hold_target db i = Inr s"
  obtains o' j t se scope where "outbox_of db i = Some o'" "ob_status o' = Ds_unknown" "job_of db (ob_job_id o') = Some j"
    "topic_of db (pj_topic_id j) = Some t" "session_of db (pj_session_id j) = Some se"
    "ended_job j (saved_result db (pj_job_id j))" "bound_together (final_target o') j t se" "tp_execution_scope t = Some scope"
    "hs_binding s = hold_binding_of o' j t scope (saved_result db (pj_job_id j))" "hs_outbox s = o'" "hs_job s = j"
  using assms unfolding hold_target_def
  by (auto split: if_splits option.splits intro: that)

lemma hold_fields:
  assumes "h = hold_binding.extend b (hold_disposition.fields expected now)"
  shows "hold_binding.truncate h = b" "hx_snapshot h = expected" "hx_applied_at h = now" "hx_outbox_id h = hx_outbox_id b"
    "hx_job_id h = hx_job_id b" "hx_result_id h = hx_result_id b" "hx_topic_id h = hx_topic_id b"
    "hx_topic_sequence h = hx_topic_sequence b" "hx_project_id h = hx_project_id b" "hx_execution_scope h = hx_execution_scope b"
    "hx_session_id h = hx_session_id b" "hx_session_generation h = hx_session_generation b"
    "hx_sender_agent_id h = hx_sender_agent_id b" "hx_chat_id h = hx_chat_id b" "hx_thread_id h = hx_thread_id b"
  by (simp_all add: assms hold_binding.defs hold_disposition.defs)

lemma hold_record_sel: "hr_outbox_id (hold_record_of db h) = hx_outbox_id h" "hr_snapshot (hold_record_of db h) = hx_snapshot h"
  "hr_hold_status (hold_record_of db h) = (if fst (hold_effect db (hx_outbox_id h)) then Released_by_owner else Hold_binding_changed)"
  by (simp_all add: hold_record_of_def case_prod_beta Let_def)

lemma outbox_of_in: "outbox_of db i = Some o' \<Longrightarrow> o' \<in> set (db_outbox db) \<and> ob_outbox_id o' = i"
  unfolding outbox_of_def by (drule find_Some_set) simp

lemma job_of_set: "job_of db i = Some j \<Longrightarrow> j \<in> set (db_jobs db) \<and> pj_job_id j = i"
  unfolding job_of_def by (drule find_Some_set) simp

lemma topic_of_set: "topic_of db i = Some t \<Longrightarrow> t \<in> set (db_topics db) \<and> tp_topic_id t = i"
  unfolding topic_of_def by (drule find_Some_set) simp

lemma saved_has_result: "saved_result db i \<noteq> None \<longleftrightarrow> has_result db i"
  by (auto simp: saved_result_def has_result_def find_None_exists)

lemma consent_in_force:
  assumes "hold_target db i = Inr s" "h = hold_binding.extend (hs_binding s) (hold_disposition.fields expected now)"
    and "db' = db\<lparr>db_hold_dispositions := db_hold_dispositions db @ [h]\<rparr>"
  shows "outbox_delivery_hold_released db' (hs_outbox s)" "\<not> job_blocks_topic_fifo db' (hs_job s)" "outbox_of db i = Some (hs_outbox s)"
proof -
  obtain o' j t se scope where s: "outbox_of db i = Some o'" "ob_status o' = Ds_unknown" "job_of db (ob_job_id o') = Some j"
    "topic_of db (pj_topic_id j) = Some t" "ended_job j (saved_result db (pj_job_id j))" "bound_together (final_target o') j t se"
    "tp_execution_scope t = Some scope"
    "hs_binding s = hold_binding_of o' j t scope (saved_result db (pj_job_id j))" "hs_outbox s = o'" "hs_job s = j"
    by (rule hold_target_Inr [OF assms(1)])
  note o = outbox_of_in [OF s(1)] and j = job_of_set [OF s(3)] and t = topic_of_set [OF s(4)]
  note f = hold_fields [OF assms(2)]
  have h: "h \<in> set (db_hold_dispositions db')" by (simp add: assms(3))
  have r: "map_option jr_result_id (saved_result db (pj_job_id j)) = result_id_of db' (pj_job_id j)"
    by (simp add: saved_result_def result_id_of_def assms(3))
  have b: "ob_sender_agent_id o' = pj_agent_id j" "ob_chat_id o' = pj_chat_id j" "ob_chat_id o' = tp_chat_id t"
    "ob_thread_id o' = tp_thread_id t"
    using s(6) by (simp_all add: bound_together_def final_target_def)
  have sc: "topic_scope t = scope" using s(7) by (simp add: topic_scope_def)
  have topic: "\<exists>tp \<in> set (db_topics db'). tp_topic_id tp = pj_topic_id j \<and> tp_chat_id tp = hx_chat_id h \<and> tp_thread_id tp = hx_thread_id h \<and>
      tp_project_id tp = hx_project_id h \<and> topic_scope tp = hx_execution_scope h"
    using t b sc by (intro bexI [of _ t]) (simp_all add: f s(8) hold_binding_of_def assms(3))
  have job: "\<exists>k \<in> set (db_jobs db'). pj_job_id k = hx_job_id h \<and> pj_agent_id k = hx_sender_agent_id h \<and> pj_chat_id k = hx_chat_id h \<and>
      pj_topic_id k = hx_topic_id h \<and> pj_topic_sequence k = hx_topic_sequence h \<and> pj_session_id k = hx_session_id h \<and>
      pj_session_generation k = hx_session_generation h \<and>
      (\<exists>tp \<in> set (db_topics db'). tp_topic_id tp = pj_topic_id k \<and> tp_chat_id tp = hx_chat_id h \<and> tp_thread_id tp = hx_thread_id h \<and>
         tp_project_id tp = hx_project_id h \<and> topic_scope tp = hx_execution_scope h)"
    using j t b topic by (intro bexI [of _ j]) (simp_all add: f s(8) hold_binding_of_def assms(3))
  have rel: "outbox_delivery_hold_released db' o'"
    unfolding outbox_delivery_hold_released_def exists_row_iff
    using s(2) h job o j b r by (intro conjI bexI [OF _ h]) (simp_all add: f s(8) hold_binding_of_def)
  then show "outbox_delivery_hold_released db' (hs_outbox s)" by (simp add: s(9))
  have out: "o' \<in> set (db_outbox db')" using o by (simp add: assms(3))
  have "pj_status j = Result_ready \<Longrightarrow> has_result db' (pj_job_id j)"
    using s(5) saved_has_result [of db] by (auto simp: ended_job_def has_result_def assms(3))
  then have "pj_status j = Result_ready \<Longrightarrow> exists_row (\<lambda>r. ob_job_id r = pj_job_id j \<and> has_result db' (pj_job_id j) \<and>
      outbox_delivery_hold_released db' r) (db_outbox db')"
    unfolding exists_row_iff using rel out j by (intro bexI [OF _ out]) simp
  then show "\<not> job_blocks_topic_fifo db' (hs_job s)"
    using s(5) unfolding s(10) job_blocks_topic_fifo_def ended_job_def by auto
  show "outbox_of db i = Some (hs_outbox s)" by (simp add: s(1,9))
qed

text \<open>C25. The owner's consent to continue past an unconfirmed delivery is recorded once and takes effect. A
  refused call changes nothing; one that is repeated with the same snapshot finds the recorded
  disposition; and a new one is recorded only for the very state whose digest the owner has seen, adds
  one row and changes no other, and from then on the hold of that final counts as released and its job
  no longer blocks the queue of its topic.\<close>

theorem consent_releases_the_hold:
  "case release_delivery_hold dg i expected consent now db of
     (Inl e, db') \<Rightarrow> db' = db
   | (Inr r, db') \<Rightarrow> consent \<and> hr_outbox_id r = i \<and> hr_snapshot r = expected \<and>
       (case hold_prior db i of
          Some h \<Rightarrow> db' = db \<and> hx_snapshot h = expected
        | None \<Rightarrow> \<exists>s h. hold_target db i = Inr s \<and> dg s = expected \<and> hold_binding.truncate h = hs_binding s \<and>
            hx_snapshot h = expected \<and> db' = db\<lparr>db_hold_dispositions := db_hold_dispositions db @ [h]\<rparr> \<and>
            hr_hold_status r = Released_by_owner \<and> outbox_delivery_hold_released db' (hs_outbox s) \<and>
            \<not> job_blocks_topic_fifo db' (hs_job s))"
proof (cases "release_tx dg i expected consent now db")
  case (Inl e)
  then show ?thesis by (simp add: release_delivery_hold_def transact_def)
next
  case (Inr y)
  obtain r db' where y: "y = (r, db')" by (cases y)
  have run: "release_delivery_hold dg i expected consent now db = (Inr r, db')" by (simp add: release_delivery_hold_def transact_def Inr y)
  have c: consent using Inr by (simp add: release_tx_def attempt_Inr)
  show ?thesis
  proof (cases "hold_prior db i")
    case (Some h)
    have "hx_outbox_id h = i" using find_Some_set [OF Some [unfolded hold_prior_def]] by simp
    moreover have "hx_snapshot h = expected" "r = hold_record_of db h" "db' = db"
      using Inr y Some by (auto simp: release_tx_def attempt_Inr)
    ultimately show ?thesis unfolding run prod.case sum.case using c Some by (simp add: hold_record_sel)
  next
    case None
    obtain s where s: "hold_target db i = Inr s" "dg s = expected"
      "attempt (put_hold_disposition (hold_binding.extend (hs_binding s) (hold_disposition.fields expected now)) db)
        (\<lambda>db1. Inr (hold_record_of db1 (hold_binding.extend (hs_binding s) (hold_disposition.fields expected now)), db1)) = Inr (r, db')"
      using Inr y None by (auto simp: release_tx_def attempt_Inr Let_def)
    define h where h: "h = hold_binding.extend (hs_binding s) (hold_disposition.fields expected now)"
    have p: "db' = db\<lparr>db_hold_dispositions := db_hold_dispositions db @ [h]\<rparr>" "r = hold_record_of db' h"
      using s(3) unfolding h [symmetric] by (auto simp: attempt_Inr put_hold_disposition_def split: if_splits)
    note f = hold_fields [OF h] and e = consent_in_force [OF s(1) h p(1)]
    have i: "hx_outbox_id h = i"
      using hold_target_Inr [OF s(1)] outbox_of_in f(4) by (metis hold_binding.select_convs(1) hold_binding_of_def)
    have "outbox_of db' i = Some (hs_outbox s)" using e(3) by (simp add: outbox_of_def p(1))
    then have k: "hr_outbox_id r = i" "hr_snapshot r = expected" "hr_hold_status r = Released_by_owner"
      using e(1) by (simp_all add: p(2) hold_record_sel hold_effect_def i f)
    show ?thesis unfolding run prod.case sum.case None option.case
      by (rule conjI [OF c conjI [OF k(1) conjI [OF k(2)]]], intro exI)
        (rule conjI [OF s(1) conjI [OF s(2) conjI [OF f(1) conjI [OF f(2) conjI [OF p(1) conjI [OF k(3) conjI [OF e(1,2)]]]]]]])
  qed
qed

section \<open>The consent to stop waiting\<close>

lemma load_target_Inr:
  assumes "load_target db kind i = Inr x"
  shows "\<exists>k row j t se scope v. kind_named kind = Some k \<and> target_row_of db k i = Some row \<and> parked_target (target_view row) \<and>
    job_of db (dt_job_id (target_view row)) = Some j \<and> topic_of db (pj_topic_id j) = Some t \<and>
    session_of db (pj_session_id j) = Some se \<and> bound_together (target_view row) j t se \<and> established_scope t = Some scope \<and>
    consistent_item db (target_view row) j = Inr v \<and> x = control_snapshot_of db row j t scope v \<and>
    (needs_proof (target_view row) j \<longrightarrow> owner_resolved (ks_resolution x) \<or> terminal_matches (ks_evidence x) (ks_checkpoint x))"
proof -
  obtain k row where k: "kind_named kind = Some k" "target_row_of db k i = Some row" "parked_target (target_view row)"
    using assms unfolding load_target_def by (auto simp: attempt_Inr Let_def split: option.splits)
  obtain j t se where j: "job_of db (dt_job_id (target_view row)) = Some j" "topic_of db (pj_topic_id j) = Some t"
    "session_of db (pj_session_id j) = Some se"
    using assms k unfolding load_target_def by (auto simp: attempt_Inr Let_def split: option.splits)
  then show ?thesis
    using assms k j unfolding load_target_def by (auto simp: attempt_Inr Let_def split: option.splits)
qed

lemma target_row_key:
  assumes "target_row_of db k i = Some row"
  shows "dt_key (target_view row) = i" "dt_final (target_view row) \<longleftrightarrow> k = Final_target"
    "\<not> dt_final (target_view row) \<Longrightarrow> dt_item_sequence (target_view row) \<noteq> None"
proof -
  have o: "outbox_of db i = Some o' \<Longrightarrow> ob_outbox_id o' = i" for o' using outbox_of_in by blast
  have p: "progress_of db i = Some q \<Longrightarrow> pg_progress_id q = i" for q
    unfolding progress_of_def by (drule find_Some_set) simp
  show "dt_key (target_view row) = i" "dt_final (target_view row) \<longleftrightarrow> k = Final_target"
    "\<not> dt_final (target_view row) \<Longrightarrow> dt_item_sequence (target_view row) \<noteq> None"
    using assms o p by (cases k; auto simp: target_row_of_def final_target_def progress_target_def)+
qed

lemma new_control_sel:
  "control_binding.truncate (new_control x fresh expected now) = ks_binding x" "cx_snapshot (new_control x fresh expected now) = expected"
  "cx_final_outbox (new_control x fresh expected now) = cx_final_outbox (ks_binding x)"
  "cx_outbox_id (new_control x fresh expected now) = cx_outbox_id (ks_binding x)"
  "cx_progress_id (new_control x fresh expected now) = cx_progress_id (ks_binding x)"
  "cx_item_sequence (new_control x fresh expected now) = cx_item_sequence (ks_binding x)"
  "cx_job_id (new_control x fresh expected now) = cx_job_id (ks_binding x)"
  "cx_result_id (new_control x fresh expected now) = cx_result_id (ks_binding x)"
  "cx_topic_id (new_control x fresh expected now) = cx_topic_id (ks_binding x)"
  "cx_topic_sequence (new_control x fresh expected now) = cx_topic_sequence (ks_binding x)"
  "cx_project_id (new_control x fresh expected now) = cx_project_id (ks_binding x)"
  "cx_session_id (new_control x fresh expected now) = cx_session_id (ks_binding x)"
  "cx_session_generation (new_control x fresh expected now) = cx_session_generation (ks_binding x)"
  "cx_sender_agent_id (new_control x fresh expected now) = cx_sender_agent_id (ks_binding x)"
  "cx_chat_id (new_control x fresh expected now) = cx_chat_id (ks_binding x)"
  "cx_thread_id (new_control x fresh expected now) = cx_thread_id (ks_binding x)"
  "cx_delivery_status (new_control x fresh expected now) = dt_status (target_view (ks_target x))"
  "cx_terminal_evidence_job_id (new_control x fresh expected now) = fst (proof_of x)"
  "cx_resolution_job_id (new_control x fresh expected now) = snd (proof_of x)"
  by (simp_all add: new_control_def case_prod_beta Let_def control_binding.defs control_disposition.defs)

lemma control_snapshot_sel:
  "ks_binding (control_snapshot_of db row j t scope v) = control_binding_of (target_view row) j t
     (if dt_final (target_view row) then saved_result db (pj_job_id j) else None) v"
  "ks_target (control_snapshot_of db row j t scope v) = row" "ks_job (control_snapshot_of db row j t scope v) = j"
  "ks_resolution (control_snapshot_of db row j t scope v) = find (\<lambda>x. rs_job_id x = pj_job_id j) (db_resolutions db)"
  "ks_evidence (control_snapshot_of db row j t scope v) = find (\<lambda>e. te_job_id e = pj_job_id j) (db_evidence db)"
  "ks_checkpoint (control_snapshot_of db row j t scope v) = find (\<lambda>c. cp_job_id c = pj_job_id j) (db_checkpoints db)"
  by (simp_all add: control_snapshot_of_def Let_def)

text \<open>The proof the snapshot names is the one the SQL asks for.\<close>

lemma proof_in_force:
  assumes "x = control_snapshot_of db row j t scope v" "dt_final (target_view row)"
    and "needs_proof (target_view row) j \<longrightarrow> owner_resolved (ks_resolution x) \<or> terminal_matches (ks_evidence x) (ks_checkpoint x)"
    and "db_resolutions db' = db_resolutions db" "db_evidence db' = db_evidence db" "db_checkpoints db' = db_checkpoints db"
  shows "final_proof db' (target_view row) (new_control x fresh expected now) j"
proof (cases "needs_proof (target_view row) j")
  case False
  then show ?thesis using assms(2) by (simp add: final_proof_def needs_proof_def)
next
  case n: True
  have job: "cx_job_id (ks_binding x) = pj_job_id j" by (simp add: assms(1) control_snapshot_sel control_binding_of_def)
  have np: "needs_proof (target_view (ks_target x)) (ks_job x)" using n by (simp add: assms(1) control_snapshot_sel)
  show ?thesis
  proof (cases "owner_resolved (ks_resolution x)")
    case True
    then obtain r where r: "find (\<lambda>x. rs_job_id x = pj_job_id j) (db_resolutions db) = Some r" "rs_resolution r \<in> set closing_resolutions"
      by (auto simp: owner_resolved_def assms(1) control_snapshot_sel split: option.splits)
    have "cx_resolution_job_id (new_control x fresh expected now) = Some (pj_job_id j)"
      using True np job by (simp add: new_control_sel proof_of_def Let_def)
    then show ?thesis using find_Some_set [OF r(1)] r(2)
      unfolding final_proof_def exists_row_iff assms(4) by (intro disjI2 disjI1 bexI [of _ r]) auto
  next
    case False
    then have m: "terminal_matches (ks_evidence x) (ks_checkpoint x)" using assms(3) n by blast
    then obtain e c where e: "find (\<lambda>e. te_job_id e = pj_job_id j) (db_evidence db) = Some e"
        "find (\<lambda>c. cp_job_id c = pj_job_id j) (db_checkpoints db) = Some c"
        "te_terminal_status e \<in> set terminal_statuses" "bounded_length 256 (Some (cp_provider_thread_id c))"
        "bounded_length 256 (cp_provider_turn_id c)" "canonical_root (cp_project_root c)"
        "te_provider_thread_id e = cp_provider_thread_id c" "Some (te_provider_turn_id e) = cp_provider_turn_id c"
        "te_project_root e = cp_project_root c"
      by (auto simp: terminal_matches_def assms(1) control_snapshot_sel split: option.splits)
    have t: "cx_terminal_evidence_job_id (new_control x fresh expected now) = Some (pj_job_id j)"
      using False np job by (simp add: new_control_sel proof_of_def Let_def)
    note ie = find_Some_set [OF e(1)] and ic = find_Some_set [OF e(2)]
    have "exists_row (\<lambda>p. cp_job_id p = te_job_id e \<and> te_provider_thread_id e = cp_provider_thread_id p \<and>
         Some (te_provider_turn_id e) = cp_provider_turn_id p \<and> bounded_length 256 (Some (cp_provider_thread_id p)) \<and>
         bounded_length 256 (cp_provider_turn_id p) \<and> te_project_root e = cp_project_root p \<and> plain_root (cp_project_root p)) (db_checkpoints db')"
      unfolding exists_row_iff assms(6) using ie ic e by (intro bexI [of _ c]) (auto simp: canonical_root_agrees)
    then show ?thesis using ie t e(3)
      unfolding final_proof_def exists_row_iff assms(5) by (intro disjI2 bexI [of _ e]) auto
  qed
qed

lemma identity_in_force:
  assumes "x = control_snapshot_of db row j t scope v" "consistent_item db (target_view row) j = Inr v"
    and "db_results db' = db_results db" "db_items db' = db_items db"
    and "\<not> dt_final (target_view row) \<longrightarrow> dt_item_sequence (target_view row) \<noteq> None"
  shows "disposition_identity db' (target_view row) (new_control x fresh expected now) j"
proof (cases "dt_final (target_view row)")
  case True
  then have e: "ended_job j (saved_result db (pj_job_id j))" using assms(2) by (simp add: consistent_item_def attempt_Inr)
  have "cx_result_id (new_control x fresh expected now) = map_option jr_result_id (saved_result db (pj_job_id j))"
    using True by (simp add: new_control_sel assms(1) control_snapshot_sel control_binding_of_def)
  moreover have "result_id_of db' (pj_job_id j) = map_option jr_result_id (saved_result db (pj_job_id j))"
    by (simp add: result_id_of_def saved_result_def assms(3))
  moreover have "pj_status j = Result_ready \<Longrightarrow> exists_row (\<lambda>r. jr_job_id r = pj_job_id j) (db_results db')"
    using e saved_has_result [of db] by (auto simp: ended_job_def has_result_def assms(3))
  ultimately show ?thesis using e True unfolding disposition_identity_def ended_job_def by auto
next
  case False
  let ?f = "find (\<lambda>v. Some (vi_sequence v) = dt_item_sequence (target_view row)) (db_items db)"
  obtain w where f: "?f = Some w"
    using assms(2) False by (cases ?f) (simp_all add: consistent_item_def)
  then have w: "v = Some w" "?f = Some w" "vi_job_id w = pj_job_id j" "vi_commentary w"
    using assms(2) False by (auto simp: consistent_item_def attempt_Inr)
  note i = find_Some_set [OF w(2)]
  have "cx_result_id (new_control x fresh expected now) = None" "cx_item_sequence (new_control x fresh expected now) = Some (vi_sequence w)"
    using False w(1) by (simp_all add: new_control_sel assms(1) control_snapshot_sel control_binding_of_def)
  moreover have "exists_row (\<lambda>i. vi_sequence i = vi_sequence w \<and> vi_job_id i = pj_job_id j \<and> vi_commentary i) (db_items db')"
    unfolding exists_row_iff assms(4) using i w by blast
  moreover have "dt_item_sequence (target_view row) = Some (vi_sequence w)" using i by simp
  ultimately show ?thesis using False unfolding disposition_identity_def by simp
qed

lemma session_of_set: "session_of db i = Some s \<Longrightarrow> s \<in> set (db_sessions db) \<and> ss_session_id s = i"
  unfolding session_of_def by (drule find_Some_set) simp

lemma wait_over:
  assumes "load_target db kind i = Inr x" "c = new_control x fresh expected now"
    and "db' = db\<lparr>db_control_dispositions := db_control_dispositions db @ [c]\<rparr>"
  shows "reconciled_row db' (ks_target x)"
    and "\<exists>k. kind_named kind = Some k \<and> target_row_of db' k i = Some (ks_target x) \<and> (cx_final_outbox c \<longleftrightarrow> k = Final_target) \<and>
      (if cx_final_outbox c then cx_outbox_id c else cx_progress_id c) = Some i"
proof -
  obtain k row j t se scope v where l: "kind_named kind = Some k" "target_row_of db k i = Some row" "parked_target (target_view row)"
    "job_of db (dt_job_id (target_view row)) = Some j" "topic_of db (pj_topic_id j) = Some t"
    "session_of db (pj_session_id j) = Some se" "bound_together (target_view row) j t se"
    "consistent_item db (target_view row) j = Inr v" "x = control_snapshot_of db row j t scope v"
    "needs_proof (target_view row) j \<longrightarrow> owner_resolved (ks_resolution x) \<or> terminal_matches (ks_evidence x) (ks_checkpoint x)"
    using load_target_Inr [OF assms(1)] by blast
  let ?d = "target_view row"
  have x: "ks_target x = row" by (simp add: l(9) control_snapshot_sel)
  note b = new_control_sel [of x fresh expected now, folded assms(2), unfolded l(9) control_snapshot_sel control_binding_of_def control_binding.select_convs]
  note j = job_of_set [OF l(4)] and t = topic_of_set [OF l(5)] and se = session_of_set [OF l(6)]
  have eq: "dt_sender_agent_id ?d = pj_agent_id j" "dt_chat_id ?d = pj_chat_id j" "dt_chat_id ?d = tp_chat_id t"
    "dt_thread_id ?d = tp_thread_id t" "ss_topic_id se = pj_topic_id j" "ss_agent_id se = pj_agent_id j" "ss_generation se = pj_session_generation j"
    using l(7) by (simp_all add: bound_together_def)
  have id: "disposition_identity db' ?d c j"
    unfolding assms(2) by (rule identity_in_force [OF l(9,8)]) (use target_row_key(3) [OF l(2)] in \<open>auto simp: assms(3)\<close>)
  have pr: "dt_final ?d \<longrightarrow> final_proof db' ?d c j"
    using proof_in_force [OF l(9) _ l(10), of db'] by (simp add: assms(2,3))
  have topic: "exists_row (\<lambda>tp. tp_topic_id tp = pj_topic_id j \<and> tp_project_id tp = cx_project_id c \<and>
           tp_chat_id tp = cx_chat_id c \<and> tp_thread_id tp = cx_thread_id c) (db_topics db')"
    unfolding exists_row_iff using t eq by (intro bexI [of _ t]) (simp_all add: b assms(3))
  have sess: "exists_row (\<lambda>s. ss_session_id s = pj_session_id j \<and> ss_topic_id s = cx_topic_id c \<and>
           ss_agent_id s = cx_sender_agent_id c \<and> ss_generation s = cx_session_generation c) (db_sessions db')"
    unfolding exists_row_iff using se eq by (intro bexI [of _ se]) (simp_all add: b assms(3))
  have cj: "cx_job_id c = pj_job_id j" "cx_sender_agent_id c = pj_agent_id j" "cx_chat_id c = pj_chat_id j" "cx_topic_id c = pj_topic_id j"
    "cx_topic_sequence c = pj_topic_sequence j" "cx_session_id c = pj_session_id j" "cx_session_generation c = pj_session_generation j"
    "cx_final_outbox c = dt_final ?d" "cx_outbox_id c = (if dt_final ?d then Some (dt_key ?d) else None)"
    "cx_progress_id c = (if dt_final ?d then None else Some (dt_key ?d))" "cx_thread_id c = dt_thread_id ?d" "cx_delivery_status c = dt_status ?d"
    using eq by (simp_all add: b)
  have "j \<in> set (db_jobs db')" using j by (simp add: assms(3))
  then have job: "exists_row (\<lambda>dj. pj_job_id dj = cx_job_id c \<and> pj_agent_id dj = cx_sender_agent_id c \<and> pj_chat_id dj = cx_chat_id c \<and>
         pj_topic_id dj = cx_topic_id c \<and> pj_topic_sequence dj = cx_topic_sequence c \<and>
         pj_session_id dj = cx_session_id c \<and> pj_session_generation dj = cx_session_generation c \<and>
         exists_row (\<lambda>tp. tp_topic_id tp = pj_topic_id dj \<and> tp_project_id tp = cx_project_id c \<and>
           tp_chat_id tp = cx_chat_id c \<and> tp_thread_id tp = cx_thread_id c) (db_topics db') \<and>
         exists_row (\<lambda>s. ss_session_id s = pj_session_id dj \<and> ss_topic_id s = cx_topic_id c \<and>
           ss_agent_id s = cx_sender_agent_id c \<and> ss_generation s = cx_session_generation c) (db_sessions db') \<and>
         disposition_identity db' ?d c dj \<and> (dt_final ?d \<longrightarrow> final_proof db' ?d c dj)) (db_jobs db')"
    unfolding exists_row_iff [of _ "db_jobs db'"] using topic sess id pr cj by (intro bexI [of _ j]) auto
  have "c \<in> set (db_control_dispositions db')" by (simp add: assms(3))
  moreover have "dt_job_id ?d = cx_job_id c" using j cj(1) by simp
  moreover have "cx_sender_agent_id c = dt_sender_agent_id ?d" "cx_chat_id c = dt_chat_id ?d" using cj eq by simp_all
  ultimately have "historical_binding db' ?d"
    unfolding historical_binding_def exists_row_iff [of _ "db_control_dispositions db'"]
    using job cj(8-12) by (intro bexI [of _ c]) auto
  then show "reconciled_row db' (ks_target x)"
    using l(3) unfolding reconciled_row_def parked_def parked_target_def x by auto
  have "target_row_of db' k i = Some row"
    using l(2) by (cases k) (simp_all add: target_row_of_def outbox_of_def progress_of_def assms(3))
  then show "\<exists>k. kind_named kind = Some k \<and> target_row_of db' k i = Some (ks_target x) \<and> (cx_final_outbox c \<longleftrightarrow> k = Final_target) \<and>
      (if cx_final_outbox c then cx_outbox_id c else cx_progress_id c) = Some i"
    using l(1) cj(8-10) target_row_key [OF l(2)] by (simp add: x)
qed

text \<open>C26. The owner's consent to stop waiting for a delivery is recorded once and takes effect. A refused
  call changes nothing; a repeated one finds its disposition; and a new one is recorded only for the very
  state whose digest the owner has seen, adds one row and changes no other, and from then on the SQL
  counts that final or progress message as reconciled.\<close>

theorem consent_ends_the_wait:
  "case reconcile_delivery_control kg kind i expected consent fresh now db of
     (Inl e, db') \<Rightarrow> db' = db
   | (Inr r, db') \<Rightarrow> consent \<and> kr_snapshot r = expected \<and>
       (\<exists>k. kind_named kind = Some k \<and>
         (case control_prior db k i of
            Some c \<Rightarrow> db' = db \<and> cx_snapshot c = expected
          | None \<Rightarrow> \<exists>x c. load_target db kind i = Inr x \<and> kg x = expected \<and> control_binding.truncate c = ks_binding x \<and>
              db' = db\<lparr>db_control_dispositions := db_control_dispositions db @ [c]\<rparr> \<and>
              target_row_of db' k i = Some (ks_target x) \<and> reconciled_row db' (ks_target x) \<and> kr_control_effect r = Wait_reconciled))"
proof (cases "apply_tx kg kind i expected consent fresh now db")
  case (Inl e)
  then show ?thesis by (simp add: reconcile_delivery_control_def transact_def)
next
  case (Inr y)
  obtain r db' where y: "y = (r, db')" by (cases y)
  have run: "reconcile_delivery_control kg kind i expected consent fresh now db = (Inr r, db')"
    by (simp add: reconcile_delivery_control_def transact_def Inr y)
  have c: consent using Inr by (simp add: apply_tx_def attempt_Inr)
  obtain k where k: "kind_named kind = Some k" using Inr by (auto simp: apply_tx_def attempt_Inr split: option.splits)
  show ?thesis
  proof (cases "control_prior db k i")
    case (Some d)
    have "cx_snapshot d = expected" "r = control_record_of db d" "db' = db"
      using Inr y Some k by (auto simp: apply_tx_def attempt_Inr)
    then show ?thesis unfolding run prod.case sum.case using c Some k by (simp add: control_record_of_def Let_def)
  next
    case None
    obtain x where x: "load_target db kind i = Inr x" "kg x = expected"
      "attempt (put_control_disposition (new_control x fresh expected now) db)
        (\<lambda>db1. Inr (control_record_of db1 (new_control x fresh expected now), db1)) = Inr (r, db')"
      using Inr y None k by (auto simp: apply_tx_def attempt_Inr Let_def)
    define d where d: "d = new_control x fresh expected now"
    have p: "db' = db\<lparr>db_control_dispositions := db_control_dispositions db @ [d]\<rparr>" "r = control_record_of db' d"
      using x(3) unfolding d [symmetric] by (auto simp: attempt_Inr put_control_disposition_def split: if_splits)
    note w = wait_over [OF x(1) d p(1)]
    have t: "target_row_of db' k i = Some (ks_target x)" "cx_final_outbox d \<longleftrightarrow> k = Final_target"
      "(if cx_final_outbox d then cx_outbox_id d else cx_progress_id d) = Some i"
      using w(2) k by auto
    have s: "kr_snapshot r = expected" by (simp add: p(2) control_record_of_def Let_def d new_control_sel)
    have row: "target_row_of db' (if cx_final_outbox d then Final_target else Progress_target) i = Some (ks_target x)"
      using t(1,2) by (cases k) simp_all
    have e: "kr_control_effect r = Wait_reconciled"
      unfolding p(2) control_record_of_def Let_def t(3) option.case row using w(1) by simp
    have b: "control_binding.truncate d = ks_binding x" by (simp add: d new_control_sel)
    show ?thesis unfolding run prod.case sum.case
      by (rule conjI [OF c conjI [OF s]], rule exI [of _ k], rule conjI [OF k], unfold None option.case, intro exI)
        (rule conjI [OF x(1) conjI [OF x(2) conjI [OF b conjI [OF p(1) conjI [OF t(1) conjI [OF w(1) e]]]]]])
  qed
qed

end
