(* ===== verification/Turn_Continuation.thy ===== *)
theory Turn_Continuation
  imports Preexecution_Retry
begin

text \<open>
  The owner's choice to go on after a turn that is known to have ended in an error
  (\<open>turn_continuation_state.py\<close>): a reply to the delivered notice of the lost turn admits one new turn of
  the same session, past the work that waits behind the loss. \<open>resolve\<close> gives the real path of a root
  and fails when there is none; \<open>profile\<close> is the selected permission profile, \<open>fresh\<close> the new identifier.
\<close>

definition CONTINUATION_PROMPT :: string where
  "CONTINUATION_PROMPT = ''The previous Codex turn stopped with an error after possible partial effects. '' @
     ''This is a new owner-requested turn in the same session, not a replay of the old task. '' @
     ''First inspect the current project state and changes already made. Explain what remains, '' @
     ''then continue only where safe; ask the owner before any action whose prior completion '' @
     ''cannot be determined.''"

section \<open>What the owner is told\<close>

definition ended_in_error :: "db \<Rightarrow> string \<Rightarrow> bool" where
  "ended_in_error db i \<longleftrightarrow>
     exists_row (\<lambda>e. te_job_id e = i \<and> te_terminal_status e \<in> {''failed'', ''interrupted''}) (db_evidence db)"

definition waits_unstarted :: "provider_job \<Rightarrow> bool" where
  "waits_unstarted j \<longleftrightarrow> pj_status j \<in> {Queued, Retry_wait}"

text \<open>The turns of a session that ended in an error, and the held work of its topic.\<close>

definition session_status_counts :: "db \<Rightarrow> string \<Rightarrow> nat \<times> nat" where
  "session_status_counts db i =
     (count_where (\<lambda>e. te_terminal_status e \<in> {''failed'', ''interrupted''} \<and>
        exists_row (\<lambda>j. pj_job_id j = te_job_id e \<and> pj_session_id j = i \<and> pj_status j = Indeterminate) (db_jobs db)) (db_evidence db),
      count_where (\<lambda>h. hd_decision h = Hold_pending \<and>
        exists_row (\<lambda>j. pj_job_id j = hd_job_id h \<and> waits_unstarted j \<and>
          exists_row (\<lambda>s. ss_session_id s = i \<and> ss_topic_id s = pj_topic_id j) (db_sessions db)) (db_jobs db)) (db_holds db))"

section \<open>The notice\<close>

definition lost_notice :: "db \<Rightarrow> int \<Rightarrow> int \<Rightarrow> int \<Rightarrow> outbox_part \<Rightarrow> string option" where
  "lost_notice db chat thread message p =
     (case outbox_of db (op_outbox_id p) of
        None \<Rightarrow> None
      | Some o' \<Rightarrow> (case job_of db (ob_job_id o') of
          None \<Rightarrow> None
        | Some j \<Rightarrow>
            if ob_status o' = Ds_delivered \<and> op_telegram_message_id p = Some message \<and> ob_chat_id o' = chat \<and>
               map_option tp_thread_id (topic_of db (pj_topic_id j)) = Some thread \<and>
               ob_sender_agent_id o' = ''codex'' \<and> pj_status j = Indeterminate \<and> ended_in_error db (pj_job_id j)
            then Some (pj_job_id j) else None))"

definition lost_turn_of_notice :: "db \<Rightarrow> int \<Rightarrow> int \<Rightarrow> int \<Rightarrow> string option" where
  "lost_turn_of_notice db chat thread message =
     (case filter (\<lambda>x. x \<noteq> None) (map (lost_notice db chat thread message) (db_parts db)) of [] \<Rightarrow> None | x # _ \<Rightarrow> x)"

section \<open>The binding of a continuation\<close>

record continuation_request =
  ct_source_job_id :: string
  ct_reply :: retry_reply
  ct_canonical_root :: string
  ct_ingress_identity :: "string option"

definition evidence_of :: "db \<Rightarrow> string \<Rightarrow> terminal_evidence option" where
  "evidence_of db i = find (\<lambda>e. te_job_id e = i) (db_evidence db)"

text \<open>The job, its topic, its session and the evidence of its end still fit each other and the root.\<close>

definition still_bound ::
  "retry_reply \<Rightarrow> string \<Rightarrow> provider_job \<Rightarrow> topic_row \<Rightarrow> session_row \<Rightarrow> terminal_evidence \<Rightarrow> bool" where
  "still_bound y root j t s e \<longleftrightarrow> pj_status j = Indeterminate \<and> pj_agent_id j = ''codex'' \<and>
     pj_chat_id j = ry_chat_id y \<and> tp_thread_id t = ry_thread_id y \<and> ss_status s = Active \<and>
     ss_writer_mode s = Telegram_writer \<and> ss_generation s = pj_session_generation j \<and>
     ss_provider_session_id s = Some (te_provider_thread_id e) \<and> te_project_root e = root \<and>
     tp_execution_scope t = Some (''root:'' @ root)"

definition bound_turn :: "db \<Rightarrow> continuation_request \<Rightarrow> string \<Rightarrow> state_error + provider_job \<times> topic_row \<times> session_row" where
  "bound_turn db q root =
     (let changed = Inl (State_error ''continuation session or root binding changed'') in
      case job_of db (ct_source_job_id q) of
        None \<Rightarrow> changed
      | Some j \<Rightarrow> (case (topic_of db (pj_topic_id j), session_of db (pj_session_id j), evidence_of db (pj_job_id j)) of
          (Some t, Some s, Some e) \<Rightarrow> if still_bound (ct_reply q) root j t s e then Inr (j, t, s) else changed
        | _ \<Rightarrow> changed))"

definition origin_kept :: "db \<Rightarrow> session_row \<Rightarrow> topic_row \<Rightarrow> string \<Rightarrow> bool" where
  "origin_kept db s t root = (case origin_of db (ss_session_id s) of
     None \<Rightarrow> True
   | Some g \<Rightarrow> Some (og_provider_thread_id g) = ss_provider_session_id s \<and> og_canonical_root g = root \<and>
       og_project_id g = tp_project_id t)"

text \<open>The three profiles are compared from left to right; the last one may not be configured.\<close>

definition same_profile :: "state_error + string option \<Rightarrow> provider_job \<Rightarrow> session_row \<Rightarrow> state_error + unit" where
  "same_profile profile j s =
     attempt (if pj_codex_permission_profile j = ss_codex_permission_profile s
         then attempt profile (\<lambda>p. Inr (ss_codex_permission_profile s = p)) else Inr False) (\<lambda>same.
     check same (State_error ''Codex permission selection differs from the session generation''))"

section \<open>The root\<close>

definition at_root :: "db \<Rightarrow> string \<Rightarrow> int \<Rightarrow> bool" where
  "at_root db root t \<longleftrightarrow> (case topic_of db t of None \<Rightarrow> False | Some r \<Rightarrow> tp_execution_scope r = Some (''root:'' @ root))"

text \<open>Work that is in progress, ready to start, or lost without a known end.\<close>

definition unreviewed :: "db \<Rightarrow> provider_job \<Rightarrow> bool" where
  "unreviewed db j \<longleftrightarrow>
     (pj_status j \<in> {Leased, Executing, Result_ready} \<and> \<not> result_ready_control_reconciled db j) \<or>
     (waits_unstarted j \<and> \<not> pending_hold db (pj_job_id j)) \<or> uncertain db j"

definition root_is_quiet :: "db \<Rightarrow> string \<Rightarrow> provider_job \<Rightarrow> bool" where
  "root_is_quiet db root j \<longleftrightarrow>
     \<not> exists_row (\<lambda>k. at_root db root (pj_topic_id k) \<and> pj_job_id k \<noteq> pj_job_id j \<and> unreviewed db k) (db_jobs db) \<and>
     \<not> exists_row (\<lambda>s. at_root db root (ss_topic_id s) \<and> ss_session_id s \<noteq> pj_session_id j \<and> retained s \<and>
         ss_writer_mode s \<noteq> Telegram_writer) (db_sessions db) \<and>
     \<not> exists_row (\<lambda>d. at_root db root (td_topic_id d) \<and> td_status d = Dispatch_running) (db_dispatches db)"

definition held_at_root :: "db \<Rightarrow> string \<Rightarrow> nat" where
  "held_at_root db root = count_where (\<lambda>h. hd_decision h = Hold_pending \<and>
     exists_row (\<lambda>j. pj_job_id j = hd_job_id h \<and> waits_unstarted j \<and> at_root db root (pj_topic_id j)) (db_jobs db)) (db_holds db)"

section \<open>The new turn\<close>

definition new_turn :: "string \<Rightarrow> int \<Rightarrow> provider_job \<Rightarrow> session_row \<Rightarrow> int \<Rightarrow> time \<Rightarrow> provider_job" where
  "new_turn i seq j s message now =
     \<lparr>pj_job_id = i, pj_idempotency_key = ''continuation:'' @ pj_job_id j, pj_chat_id = pj_chat_id j, pj_message_id = message,
      pj_topic_id = pj_topic_id j, pj_topic_sequence = seq, pj_agent_id = ''codex'', pj_session_id = pj_session_id j,
      pj_session_generation = pj_session_generation j, pj_provider_session_id = ss_provider_session_id s,
      pj_model = pj_model j, pj_effort = pj_effort j, pj_payload_text = CONTINUATION_PROMPT, pj_context_watermark = None,
      pj_handoff_id = None, pj_input_group_key = None, pj_status = Queued, pj_attempt_count = 0, pj_max_attempts = 1,
      pj_next_attempt_at = None, pj_lease_owner = None, pj_lease_token = None, pj_lease_expires_at = None,
      pj_provider_started_at = None, pj_error_class = None, pj_error_code = None, pj_error_detail = None,
      pj_created_at = now, pj_updated_at = now, pj_codex_permission_profile = pj_codex_permission_profile j\<rparr>"

definition put_turn :: "provider_job \<Rightarrow> db \<Rightarrow> state_error + db" where
  "put_turn j db = (if 0 < pj_message_id j \<and> \<not> job_clashes j db then Inr (db\<lparr>db_jobs := db_jobs db @ [j]\<rparr>)
     else Inl (Integrity_error ''provider_jobs''))"

definition continuation_of :: "db \<Rightarrow> string \<Rightarrow> job_continuation option" where
  "continuation_of db i = find (\<lambda>c. cn_source_job_id c = i) (db_continuations db)"

definition put_continuation :: "job_continuation \<Rightarrow> db \<Rightarrow> state_error + db" where
  "put_continuation c db =
     (if exists_row (\<lambda>k. cn_source_job_id k = cn_source_job_id c \<or> cn_continuation_job_id k = cn_continuation_job_id c)
        (db_continuations db)
      then Inl (Integrity_error ''provider_job_continuations'')
      else Inr (db\<lparr>db_continuations := db_continuations db @ [c]\<rparr>))"

definition admit_turn :: "continuation_request \<Rightarrow> provider_job \<Rightarrow> session_row \<Rightarrow> string \<Rightarrow> time \<Rightarrow> db \<Rightarrow> state_error + provider_job \<times> db" where
  "admit_turn q old s fresh now db =
     (let chat = ry_chat_id (ct_reply q); message = ry_reply_message_id (ct_reply q) in
      case find (\<lambda>c. qn_topic_id c = pj_topic_id old) (db_counters db) of
        None \<Rightarrow> Inl (State_error ''continuation topic has no queue counter'')
      | Some c \<Rightarrow>
          attempt (put_turn (new_turn fresh (qn_next_sequence c) old s message now) db) (\<lambda>db1.
          attempt (validate_ingress_identity (ct_ingress_identity q)) (\<lambda>ingress.
          attempt (record_new_job fresh ingress db1) (\<lambda>db2.
          attempt (put_input \<lparr>ji_job_id = fresh, ji_chat_id = chat, ji_message_id = message, ji_part_index = 1,
              ji_input_text = CONTINUATION_PROMPT, ji_received_at = now\<rparr> (advance_counter (pj_topic_id old) now db2)) (\<lambda>db3.
          attempt (put_continuation \<lparr>cn_source_job_id = pj_job_id old, cn_continuation_job_id = fresh,
              cn_chat_id = chat, cn_message_id = message, cn_created_at = now\<rparr> db3) (\<lambda>db4.
          let db5 = note_message chat message db4 in
          attempt (get_job db5 fresh) (\<lambda>j. Inr (j, db5))))))))"

definition start_turn ::
  "state_error + string option \<Rightarrow> string \<Rightarrow> continuation_request \<Rightarrow> string \<Rightarrow> provider_job \<times> topic_row \<times> session_row \<Rightarrow> time \<Rightarrow> db
   \<Rightarrow> state_error + (provider_job \<times> bool \<times> nat) \<times> db" where
  "start_turn profile fresh q root old now db =
     (let (j, t, s) = old in
      attempt (require_control_scope_clear db (''root:'' @ root)) (\<lambda>_.
      attempt (same_profile profile j s) (\<lambda>_.
      attempt (check (root_is_quiet db root j) (State_error ''execution root has another writer or unreviewed work'')) (\<lambda>_.
      attempt (check ((ry_chat_id (ct_reply q), ry_reply_message_id (ct_reply q)) \<notin> set (db_observed db))
        (State_error ''continuation reply was already consumed'')) (\<lambda>_.
      attempt (admit_turn q j s fresh now db) (\<lambda>(k, db1).
      Inr ((k, True, held_at_root db root), db1)))))))"

definition continue_tx ::
  "state_error + string option \<Rightarrow> string \<Rightarrow> continuation_request \<Rightarrow> string \<Rightarrow> time \<Rightarrow> db
   \<Rightarrow> state_error + (provider_job \<times> bool \<times> nat) \<times> db" where
  "continue_tx profile fresh q root now db =
     (let y = ct_reply q in
      attempt (check (lost_turn_of_notice db (ry_chat_id y) (ry_thread_id y) (ry_notice_message_id y) = Some (ct_source_job_id q))
        (State_error ''continuation notice identity changed'')) (\<lambda>_.
      attempt (bound_turn db q root) (\<lambda>(j, t, s).
      attempt (check (origin_kept db s t root) (State_error ''continuation saved Codex origin changed'')) (\<lambda>_.
      case continuation_of db (ct_source_job_id q) of
        Some c \<Rightarrow> attempt (get_job db (cn_continuation_job_id c)) (\<lambda>k. Inr ((k, False, 0), db))
      | None \<Rightarrow> start_turn profile fresh q root (j, t, s) now db))))"

definition continue_from_notice ::
  "resolver \<Rightarrow> state_error + string option \<Rightarrow> string \<Rightarrow> continuation_request \<Rightarrow> time \<Rightarrow> db
   \<Rightarrow> (state_error, db, provider_job \<times> bool \<times> nat) outcome" where
  "continue_from_notice resolve profile fresh q now db =
     (case resolve (ct_canonical_root q) of
        None \<Rightarrow> (Inl Os_error, db)
      | Some root \<Rightarrow> transact (continue_tx profile fresh q root now) db)"

end
