(* ===== verification/Continuation_Properties.thy ===== *)
theory Continuation_Properties
  imports Turn_Continuation
begin

text \<open>
  What the owner's choice to go on does: what a continuation adds, that it is admitted once and only when
  the root is quiet, and that the scheduler may start it at once, past the work that is held behind the loss.
\<close>

section \<open>What is added\<close>

text \<open>The job, its place in the queue, its first part, the link to the lost turn and the reply that asked for it.\<close>

definition turn_added :: "continuation_request \<Rightarrow> provider_job \<Rightarrow> db \<Rightarrow> db \<Rightarrow> bool" where
  "turn_added q k db db' \<longleftrightarrow>
     db' = db\<lparr>db_jobs := db_jobs db @ [k], db_inputs := db_inputs db', db_ingress := db_ingress db', db_counters := db_counters db',
       db_continuations := db_continuations db @ [\<lparr>cn_source_job_id = ct_source_job_id q, cn_continuation_job_id = pj_job_id k,
         cn_chat_id = ry_chat_id (ct_reply q), cn_message_id = ry_reply_message_id (ct_reply q), cn_created_at = pj_created_at k\<rparr>],
       db_observed := db_observed db @ [(ry_chat_id (ct_reply q), ry_reply_message_id (ct_reply q))]\<rparr>"

lemma turn_added_sel:
  assumes "turn_added q k db db'"
  shows "db_jobs db' = db_jobs db @ [k]" "db_topics db' = db_topics db" "db_sessions db' = db_sessions db"
    "db_holds db' = db_holds db" "db_dispatches db' = db_dispatches db" "db_evidence db' = db_evidence db"
    "db_resolutions db' = db_resolutions db" "db_controls db' = db_controls db" "db_checkpoints db' = db_checkpoints db"
    "db_outbox db' = db_outbox db" "db_parts db' = db_parts db" "db_origins db' = db_origins db"
    "db_observed db' = db_observed db @ [(ry_chat_id (ct_reply q), ry_reply_message_id (ct_reply q))]"
    "db_continuations db' = db_continuations db @ [\<lparr>cn_source_job_id = ct_source_job_id q, cn_continuation_job_id = pj_job_id k,
       cn_chat_id = ry_chat_id (ct_reply q), cn_message_id = ry_reply_message_id (ct_reply q), cn_created_at = pj_created_at k\<rparr>]"
  by (subst assms [unfolded turn_added_def], simp)+

lemma new_turn_sel [simp]:
  "pj_job_id (new_turn i seq j s m now) = i" "pj_status (new_turn i seq j s m now) = Queued"
  "pj_topic_id (new_turn i seq j s m now) = pj_topic_id j" "pj_agent_id (new_turn i seq j s m now) = ''codex''"
  "pj_attempt_count (new_turn i seq j s m now) = 0" "pj_max_attempts (new_turn i seq j s m now) = 1"
  "pj_next_attempt_at (new_turn i seq j s m now) = None" "pj_created_at (new_turn i seq j s m now) = now"
  by (simp_all add: new_turn_def)

lemma put_turn_Inr:
  "put_turn k db = Inr db' \<longleftrightarrow> 0 < pj_message_id k \<and> \<not> job_clashes k db \<and> db' = db\<lparr>db_jobs := db_jobs db @ [k]\<rparr>"
  by (auto simp: put_turn_def)

lemma record_new_job_only:
  "record_new_job i x db = Inr db' \<Longrightarrow> db' = db\<lparr>db_ingress := db_ingress db'\<rparr>"
  by (auto simp: record_new_job_def split: option.splits if_splits)

lemma put_input_only: "put_input p db = Inr db' \<Longrightarrow> db' = db\<lparr>db_inputs := db_inputs db'\<rparr>"
  by (auto simp: put_input_def split: if_splits)

lemma put_continuation_Inr: "put_continuation c db = Inr db' \<Longrightarrow> db' = db\<lparr>db_continuations := db_continuations db @ [c]\<rparr>"
  by (auto simp: put_continuation_def split: if_splits)

lemma fresh_clash: "\<not> job_clashes k db \<Longrightarrow> j \<in> set (db_jobs db) \<Longrightarrow> pj_job_id j \<noteq> pj_job_id k"
  by (auto simp: job_clashes_def exists_row_iff)

lemma job_of_added:
  assumes "\<And>j. j \<in> set (db_jobs db) \<Longrightarrow> pj_job_id j \<noteq> pj_job_id k" "db_jobs db' = db_jobs db @ [k]"
  shows "job_of db' (pj_job_id k) = Some k"
proof -
  have "find (\<lambda>j. pj_job_id j = pj_job_id k) (rows @ [k]) = Some k" if "\<And>j. j \<in> set rows \<Longrightarrow> pj_job_id j \<noteq> pj_job_id k" for rows
    using that by (induction rows) auto
  then show ?thesis using assms by (simp add: job_of_def)
qed

lemma admit_turn_Inr:
  assumes run: "admit_turn q old s fresh now db = Inr (k, db')" and source: "pj_job_id old = ct_source_job_id q"
    and unseen: "(ry_chat_id (ct_reply q), ry_reply_message_id (ct_reply q)) \<notin> set (db_observed db)"
  obtains seq where "k = new_turn fresh seq old s (ry_reply_message_id (ct_reply q)) now"
    "map_option qn_next_sequence (find (\<lambda>c. qn_topic_id c = pj_topic_id old) (db_counters db)) = Some seq"
    "turn_added q k db db'" "\<not> job_clashes k db"
proof -
  let ?chat = "ry_chat_id (ct_reply q)" and ?m = "ry_reply_message_id (ct_reply q)"
  obtain c where c: "find (\<lambda>c. qn_topic_id c = pj_topic_id old) (db_counters db) = Some c"
    using run by (auto simp: admit_turn_def Let_def split: option.splits)
  let ?k = "new_turn fresh (qn_next_sequence c) old s ?m now"
  obtain db1 ingress db2 db3 db4 where steps: "put_turn ?k db = Inr db1" "record_new_job fresh ingress db1 = Inr db2"
      "put_input \<lparr>ji_job_id = fresh, ji_chat_id = ?chat, ji_message_id = ?m, ji_part_index = 1,
         ji_input_text = CONTINUATION_PROMPT, ji_received_at = now\<rparr> (advance_counter (pj_topic_id old) now db2) = Inr db3"
      "put_continuation \<lparr>cn_source_job_id = pj_job_id old, cn_continuation_job_id = fresh,
         cn_chat_id = ?chat, cn_message_id = ?m, cn_created_at = now\<rparr> db3 = Inr db4"
      "get_job (note_message ?chat ?m db4) fresh = Inr k" "db' = note_message ?chat ?m db4"
    using run c by (auto simp: admit_turn_def attempt_Inr Let_def)
  have 1: "db1 = db\<lparr>db_jobs := db_jobs db @ [?k]\<rparr>" "\<not> job_clashes ?k db" using steps(1) by (auto simp: put_turn_Inr)
  obtain I where 2: "db2 = db1\<lparr>db_ingress := I\<rparr>" using record_new_job_only [OF steps(2)] by blast
  obtain N C where 3: "db3 = db2\<lparr>db_counters := C, db_inputs := N\<rparr>"
    using put_input_only [OF steps(3)] unfolding advance_counter_def by blast
  note 4 = put_continuation_Inr [OF steps(4)]
  have db': "db' = db\<lparr>db_jobs := db_jobs db @ [?k], db_ingress := I, db_counters := C, db_inputs := N,
      db_continuations := db_continuations db @ [\<lparr>cn_source_job_id = pj_job_id old, cn_continuation_job_id = fresh,
         cn_chat_id = ?chat, cn_message_id = ?m, cn_created_at = now\<rparr>], db_observed := db_observed db @ [(?chat, ?m)]\<rparr>"
    using unseen by (simp add: steps(6) note_message_def 1(1) 2 3 4)
  have "job_of db' fresh = Some ?k"
    using job_of_added [of db ?k db'] fresh_clash [OF 1(2)] by (simp add: db')
  then have k: "k = ?k" using steps(5,6) by (simp add: get_job_def)
  show ?thesis
  proof (rule that [of "qn_next_sequence c"])
    show "turn_added q k db db'" by (simp add: turn_added_def db' k source)
  qed (use k c 1(2) in simp_all)
qed

section \<open>The conditions\<close>

lemma lost_turn_ended:
  assumes "lost_turn_of_notice db chat thread message = Some i"
  shows "ended_in_error db i"
proof -
  obtain rest where "filter (\<lambda>x. x \<noteq> None) (map (lost_notice db chat thread message) (db_parts db)) = Some i # rest"
    using assms unfolding lost_turn_of_notice_def by (auto split: list.splits)
  from arg_cong [OF this, of set]
  have "Some i \<in> lost_notice db chat thread message ` set (db_parts db)" by auto
  then show ?thesis by (auto simp: lost_notice_def split: option.splits if_splits)
qed

lemma bound_turn_Inr:
  assumes "bound_turn db q root = Inr (j, t, s)"
  shows "job_of db (ct_source_job_id q) = Some j \<and> topic_of db (pj_topic_id j) = Some t \<and> session_of db (pj_session_id j) = Some s \<and>
    (\<exists>e. evidence_of db (pj_job_id j) = Some e \<and> still_bound (ct_reply q) root j t s e)"
  using assms by (auto simp: bound_turn_def Let_def split: option.splits if_splits)

lemma same_profile_Inr:
  "same_profile profile j s = Inr u \<longleftrightarrow>
     pj_codex_permission_profile j = ss_codex_permission_profile s \<and> profile = Inr (ss_codex_permission_profile s)"
  by (cases profile) (auto simp: same_profile_def)

text \<open>What holds when a new turn is admitted: the lost turn of the notice is known to have ended in an error, its session
  is the active one of its topic and is written from Telegram, nothing has changed since, and the root is quiet.\<close>

definition may_continue ::
  "state_error + string option \<Rightarrow> continuation_request \<Rightarrow> string \<Rightarrow> provider_job \<Rightarrow> topic_row \<Rightarrow> session_row \<Rightarrow> db \<Rightarrow> bool" where
  "may_continue profile q root j t s db \<longleftrightarrow>
     job_of db (ct_source_job_id q) = Some j \<and> topic_of db (pj_topic_id j) = Some t \<and> session_of db (pj_session_id j) = Some s \<and>
     pj_status j = Indeterminate \<and> ended_in_error db (pj_job_id j) \<and>
     (\<exists>e. evidence_of db (pj_job_id j) = Some e \<and> still_bound (ct_reply q) root j t s e) \<and> origin_kept db s t root \<and>
     pj_codex_permission_profile j = ss_codex_permission_profile s \<and> profile = Inr (ss_codex_permission_profile s) \<and>
     starts_with (''root:'' @ root) ''root:/'' \<and> unquiesced_control_owner db (''root:'' @ root) = None \<and>
     root_is_quiet db root j \<and> continuation_of db (ct_source_job_id q) = None \<and>
     (ry_chat_id (ct_reply q), ry_reply_message_id (ct_reply q)) \<notin> set (db_observed db)"

lemma start_turn_Inr:
  "start_turn profile fresh q root (j, t, s) now db = Inr ((k, created, held), db') \<longleftrightarrow>
     created \<and> held = held_at_root db root \<and> require_control_scope_clear db (''root:'' @ root) = Inr () \<and>
     same_profile profile j s = Inr () \<and> root_is_quiet db root j \<and>
     (ry_chat_id (ct_reply q), ry_reply_message_id (ct_reply q)) \<notin> set (db_observed db) \<and> admit_turn q j s fresh now db = Inr (k, db')"
  by (auto simp: start_turn_def attempt_Inr)

lemma continue_tx_created:
  assumes "continue_tx profile fresh q root now db = Inr ((k, True, held), db')"
  obtains j t s seq where "may_continue profile q root j t s db" "held = held_at_root db root"
    "k = new_turn fresh seq j s (ry_reply_message_id (ct_reply q)) now"
    "map_option qn_next_sequence (find (\<lambda>c. qn_topic_id c = pj_topic_id j) (db_counters db)) = Some seq"
    "turn_added q k db db'" "\<not> job_clashes k db"
proof -
  let ?y = "ct_reply q"
  obtain j t s where 1: "lost_turn_of_notice db (ry_chat_id ?y) (ry_thread_id ?y) (ry_notice_message_id ?y) = Some (ct_source_job_id q)"
      "bound_turn db q root = Inr (j, t, s)" "origin_kept db s t root" "continuation_of db (ct_source_job_id q) = None"
      "start_turn profile fresh q root (j, t, s) now db = Inr ((k, True, held), db')"
    using assms by (auto simp: continue_tx_def Let_def attempt_Inr split: option.splits)
  note start = 1(5) [unfolded start_turn_Inr]
  note b = bound_turn_Inr [OF 1(2)]
  have id: "pj_job_id j = ct_source_job_id q" using b find_Some_set unfolding job_of_def by fastforce
  obtain seq where a: "k = new_turn fresh seq j s (ry_reply_message_id ?y) now"
      "map_option qn_next_sequence (find (\<lambda>c. qn_topic_id c = pj_topic_id j) (db_counters db)) = Some seq"
      "turn_added q k db db'" "\<not> job_clashes k db"
    using admit_turn_Inr [of q j s fresh now db k db'] start id by blast
  have "may_continue profile q root j t s db"
    using b start 1 lost_turn_ended [OF 1(1)] id
    by (auto simp: may_continue_def same_profile_Inr still_bound_def require_control_scope_clear_def split: if_splits)
  then show ?thesis using that a start by blast
qed

lemma continue_tx_repeated:
  "continue_tx profile fresh q root now db = Inr ((k, False, held), db') \<Longrightarrow>
     db' = db \<and> held = 0 \<and> (\<exists>c. continuation_of db (ct_source_job_id q) = Some c \<and> job_of db (cn_continuation_job_id c) = Some k)"
  by (auto simp: continue_tx_def Let_def attempt_Inr get_job_def start_turn_Inr split: option.splits)

lemma continuation_linked:
  assumes "turn_added q k db db'" "continuation_of db (ct_source_job_id q) = None"
  shows "map_option cn_continuation_job_id (continuation_of db' (ct_source_job_id q)) = Some (pj_job_id k)"
proof -
  have "find p (xs @ [x]) = Some x" if "find p xs = None" "p x" for p and x :: job_continuation and xs
    using that by (induction xs) (auto split: if_splits)
  then show ?thesis using assms(2) by (simp add: continuation_of_def turn_added_sel [OF assms(1)])
qed

lemma continue_repeat:
  assumes "continuation_of db (ct_source_job_id q) = Some c" "job_of db (cn_continuation_job_id c) = Some k"
  shows "case continue_from_notice resolve profile fresh q now db of
    (Inl e, d) \<Rightarrow> d = db | (Inr (k', created, held), d) \<Rightarrow> \<not> created \<and> k' = k \<and> d = db"
proof (cases "resolve (ct_canonical_root q)")
  case None
  then show ?thesis by (simp add: continue_from_notice_def)
next
  case (Some root)
  show ?thesis
  proof (cases "continue_tx profile fresh q root now db")
    case (Inl e)
    then show ?thesis by (simp add: continue_from_notice_def Some transact_def)
  next
    case (Inr x)
    obtain k' created held d where x: "x = ((k', created, held), d)" by (cases x) auto
    have "\<not> created"
    proof
      assume created
      then have "continue_tx profile fresh q root now db = Inr ((k', True, held), d)" using Inr x by simp
      then show False by (rule continue_tx_created) (use assms(1) in \<open>simp add: may_continue_def\<close>)
    qed
    then show ?thesis
      using continue_tx_repeated [of profile fresh q root now db k' held d] Inr x assms
      by (simp add: continue_from_notice_def Some transact_def)
  qed
qed

section \<open>What a continuation is\<close>


section \<open>A continuation may run at once\<close>

lemma not_a_root: "''root:'' @ root \<noteq> ''project:'' @ p" by simp

lemma in_scope_at_root: "in_scope db (''root:'' @ root) t = at_root db root t"
  using not_a_root by (auto simp: in_scope_def scope_of_def topic_scope_def at_root_def split: option.splits)

lemma in_scope_cong: "db_topics db' = db_topics db \<Longrightarrow> in_scope db' = in_scope db"
  by (simp add: fun_eq_iff in_scope_def scope_of_def topic_of_def)

text \<open>The added job is queued: it blocks no sender of native controls, holds no root and is not lost.\<close>

lemma unsettled_added:
  assumes "turn_added q k db db'" "unsettled_control db' c"
  shows "unsettled_control db c"
  using assms(2) unfolding unsettled_control_def owner_closed_terminal_control_def turn_added_sel [OF assms(1)]
  by (auto simp: exists_row_iff)

lemma occupies_added:
  assumes "turn_added q k db db'"
  shows "occupies_root db' now e = occupies_root db now e"
  by (simp add: occupies_root_def uncertain_def resolved_outcome_def terminal_outcome_def turn_added_sel [OF assms])

lemma occupies_unreviewed: "occupies_root db now e \<Longrightarrow> unreviewed db e"
  by (auto simp: occupies_root_def unreviewed_def result_ready_control_reconciled_def)

lemma find_distinct:
  "find (\<lambda>x. f x = i) xs = Some x \<Longrightarrow> distinct (map f xs) \<Longrightarrow> y \<in> set xs \<Longrightarrow> f y = i \<Longrightarrow> y = x"
  by (induction xs) (force split: if_splits)+

lemma lost_not_occupying:
  assumes "may_continue profile q root j t s db" "distinct (map pj_job_id (db_jobs db))" "e \<in> set (db_jobs db)" "pj_job_id e = pj_job_id j"
  shows "\<not> occupies_root db now e"
proof -
  have j: "job_of db (ct_source_job_id q) = Some j" using assms(1) by (simp add: may_continue_def)
  then have "pj_job_id j = ct_source_job_id q" unfolding job_of_def by (auto dest: find_Some_set)
  then have "e = j" using find_distinct [OF j [unfolded job_of_def] assms(2,3)] assms(4) by simp
  then show ?thesis using assms(1)
    by (auto simp: may_continue_def occupies_root_def uncertain_def terminal_outcome_def ended_in_error_def exists_row_iff)
qed

lemma own_session_writes:
  assumes "may_continue profile q root j t s db" "distinct (map ss_session_id (db_sessions db))" "x \<in> set (db_sessions db)"
    "ss_session_id x = pj_session_id j"
  shows "ss_writer_mode x = Telegram_writer"
proof -
  have s: "session_of db (pj_session_id j) = Some s" "ss_writer_mode s = Telegram_writer"
    using assms(1) by (auto simp: may_continue_def still_bound_def)
  have "x = s" using find_distinct [OF s(1) [unfolded session_of_def] assms(2,3)] assms(4) by simp
  then show ?thesis using s(2) by simp
qed

lemma quiet_root:
  assumes "may_continue profile q root j t s db" "distinct (map pj_job_id (db_jobs db))" "distinct (map ss_session_id (db_sessions db))"
  shows "e \<in> set (db_jobs db) \<Longrightarrow> at_root db root (pj_topic_id e) \<Longrightarrow> \<not> occupies_root db now e"
    and "x \<in> set (db_sessions db) \<Longrightarrow> at_root db root (ss_topic_id x) \<Longrightarrow> retained x \<Longrightarrow> ss_writer_mode x = Telegram_writer"
    and "d \<in> set (db_dispatches db) \<Longrightarrow> at_root db root (td_topic_id d) \<Longrightarrow> td_status d \<noteq> Dispatch_running"
proof -
  have quiet: "root_is_quiet db root j" using assms(1) by (simp add: may_continue_def)
  show "\<not> occupies_root db now e" if "e \<in> set (db_jobs db)" "at_root db root (pj_topic_id e)"
  proof (cases "pj_job_id e = pj_job_id j")
    case True
    then show ?thesis by (rule lost_not_occupying [OF assms(1,2) that(1)])
  next
    case False
    then show ?thesis using quiet that occupies_unreviewed unfolding root_is_quiet_def exists_row_iff by blast
  qed
  show "ss_writer_mode x = Telegram_writer" if "x \<in> set (db_sessions db)" "at_root db root (ss_topic_id x)" "retained x"
    using quiet that own_session_writes [OF assms(1,3) that(1)] unfolding root_is_quiet_def exists_row_iff by blast
  show "td_status d \<noteq> Dispatch_running" if "d \<in> set (db_dispatches db)" "at_root db root (td_topic_id d)"
    using quiet that unfolding root_is_quiet_def exists_row_iff by blast
qed

lemma scope_clear_added:
  assumes "may_continue profile q root j t s db" "turn_added q k db db'" "tp_execution_scope t = Some (''root:'' @ root)"
  shows "control_scope_is_clear db' t"
proof -
  have root: "starts_with (''root:'' @ root) ''root:/''" "unquiesced_control_owner db (''root:'' @ root) = None"
    using assms(1) by (auto simp: may_continue_def)
  have scope: "sql_resolved_scope db' t = Some (''root:'' @ root)"
    using assms(3) root(1) by (simp add: sql_resolved_scope_def starts_with_root)
  have "\<not> (unsettled_control db c \<and> tc_project_root c = root)" if "c \<in> set (db_controls db)" for c
    using root(2) that unfolding unquiesced_control_owner_def first_by_None exists_row_iff
    by (simp add: remove_root_prefix_def starts_with_root)
  then have "\<not> control_blocks_scope db' (Some (''root:'' @ root))"
    using unsettled_added [OF assms(2)] by (auto simp: control_blocks_scope_def exists_row_iff turn_added_sel [OF assms(2)])
  then show ?thesis using root(1) by (simp add: control_scope_is_clear_def scope starts_with_root)
qed

text \<open>C28. An admitted continuation may be leased at once, at any later time and by the query of the scheduler
  itself: the lost turn, the work that is held behind it and earlier jobs of the topic do not keep it waiting.\<close>

theorem accepted_continuation_may_run:
  assumes run: "continue_from_notice resolve profile fresh q now db = (Inr (k, True, held), db')"
    and keys: "distinct (map pj_job_id (db_jobs db))" "distinct (map ss_session_id (db_sessions db))" "\<not> pending_hold db fresh"
  shows "eligible db' later ''codex'' k"
proof -
  obtain root where "continue_tx profile fresh q root now db = Inr ((k, True, held), db')"
    using run by (auto simp: continue_from_notice_def transact_def split: option.splits sum.splits)
  then obtain j t s seq where c: "may_continue profile q root j t s db" "turn_added q k db db'"
      "k = new_turn fresh seq j s (ry_reply_message_id (ct_reply q)) now"
    by (rule continue_tx_created)
  note sel = turn_added_sel [OF c(2)] and quiet = quiet_root [OF c(1) keys(1,2)]
  have t: "topic_of db (pj_topic_id j) = Some t" "tp_execution_scope t = Some (''root:'' @ root)"
    using c(1) by (auto simp: may_continue_def still_bound_def)
  have k: "pj_job_id k = fresh" "pj_topic_id k = pj_topic_id j" "pj_agent_id k = ''codex''" "pj_attempt_count k = 0"
      "pj_max_attempts k = 1" "pj_status k = Queued" "pj_next_attempt_at k = None"
    by (simp_all add: c(3))
  have scope: "topic_scope t = ''root:'' @ root" using t(2) by (simp add: topic_scope_def)
  have at: "in_scope db' (''root:'' @ root) x = at_root db root x" for x
    using in_scope_cong [OF sel(2)] in_scope_at_root by metis
  have linked: "is_continuation db' (pj_job_id k)" by (simp add: is_continuation_def sel exists_row_iff)
  have topic: "topic_of db' (pj_topic_id k) = Some t" using t(1) by (simp add: topic_of_def sel k(2))
  have "\<not> pending_hold db' (pj_job_id k)" using keys(3) by (simp add: pending_hold_def sel k(1))
  moreover have "available later k" by (simp add: available_def k)
  moreover have "control_scope_is_clear db' t" by (rule scope_clear_added [OF c(1,2) t(2)])
  moreover have "\<not> exists_row (root_occupant db' later (''root:'' @ root) k) (db_jobs db')"
    using quiet(1) by (auto simp: exists_row_iff root_occupant_def sel at [simplified] occupies_added [OF c(2)])
  moreover have "\<not> exists_row (external_writer db' (''root:'' @ root)) (db_sessions db')"
    using quiet(2) by (auto simp: exists_row_iff external_writer_def sel at [simplified] retained_def)
  moreover have "\<not> exists_row (running_dispatch db' (''root:'' @ root)) (db_dispatches db')"
    using quiet(3) by (auto simp: exists_row_iff running_dispatch_def sel at [simplified])
  ultimately show ?thesis
    unfolding eligible_def topic option.case Let_def scope using linked k
    by (simp add: topic_order_clear_def held_order_clear_def)
qed

section \<open>An example\<close>

text \<open>The turn of job \<open>a\<close> ended in an error, its notice is delivered, and job \<open>b\<close> is held behind it.\<close>

definition lost_job :: provider_job where "lost_job = example_job ''a'' 1 Indeterminate"
definition held_job :: provider_job where "held_job = example_job ''b'' 2 Queued"

definition lost_session :: session_row where
  "lost_session = \<lparr>ss_session_id = ''s'', ss_topic_id = 1, ss_agent_id = ''codex'', ss_generation = 1,
     ss_status = Active, ss_model = ''m'', ss_effort = ''e'', ss_provider_session_id = Some ''th'', ss_terminal_name = None,
     ss_writer_mode = Telegram_writer, ss_context_remaining_percent = None, ss_codex_permission_profile = None,
     ss_created_at = 0, ss_updated_at = 0\<rparr>"

definition lost_evidence :: terminal_evidence where
  "lost_evidence = \<lparr>te_job_id = ''a'', te_terminal_status = ''failed'', te_provider_thread_id = ''th'',
     te_provider_turn_id = ''u'', te_project_root = ''/p'', te_observed_at = 2\<rparr>"

definition lost_outbox :: outbox_row where
  "lost_outbox = \<lparr>ob_outbox_id = ''o'', ob_job_id = ''a'', ob_sender_agent_id = ''codex'', ob_chat_id = 7, ob_thread_id = 3,
     ob_telegram_html = ''x'', ob_status = Ds_delivered, ob_attempt_count = 1, ob_available_at = 2, ob_lease_owner = None,
     ob_lease_token = None, ob_lease_expires_at = None, ob_telegram_message_id = Some 40, ob_error_code = None,
     ob_created_at = 2, ob_updated_at = 3, ob_delivered_at = Some 3, ob_send_started_at = Some 3, ob_purpose = Execution_notice\<rparr>"

definition lost_part :: outbox_part where
  "lost_part = \<lparr>op_outbox_id = ''o'', op_part_index = 1, op_telegram_html = ''x'', op_part_type = Text_part, op_file_path = None,
     op_file_name = None, op_file_size = None, op_file_sha256 = None, op_telegram_message_id = Some 40, op_delivered_at = Some 3,
     op_receipt_validation_version = 1\<rparr>"

definition lost_hub :: db where
  "lost_hub = (example_hub [lost_job, held_job])\<lparr>db_sessions := [lost_session], db_evidence := [lost_evidence],
     db_holds := [\<lparr>hd_job_id = ''b'', hd_cause_job_id = ''a'', hd_held_at = 4, hd_reason = Held_terminal, hd_control_job_id = None,
       hd_decision = Hold_pending, hd_decided_at = None\<rparr>],
     db_outbox := [lost_outbox], db_parts := [lost_part],
     db_counters := [\<lparr>qn_topic_id = 1, qn_next_sequence = 3, qn_updated_at = 2\<rparr>]\<rparr>"

definition go_on :: continuation_request where
  "go_on = \<lparr>ct_source_job_id = ''a'', ct_reply = \<lparr>ry_chat_id = 7, ry_thread_id = 3, ry_notice_message_id = 40,
     ry_reply_message_id = 41\<rparr>, ct_canonical_root = ''/p'', ct_ingress_identity = Some ''hub''\<rparr>"

lemma lost_hub_sel:
  "db_jobs lost_hub = [lost_job, held_job]" "db_topics lost_hub = [example_topic]" "db_sessions lost_hub = [lost_session]"
  "db_evidence lost_hub = [lost_evidence]" "db_outbox lost_hub = [lost_outbox]" "db_parts lost_hub = [lost_part]"
  "db_counters lost_hub = [\<lparr>qn_topic_id = 1, qn_next_sequence = 3, qn_updated_at = 2\<rparr>]"
  "db_holds lost_hub = [\<lparr>hd_job_id = ''b'', hd_cause_job_id = ''a'', hd_held_at = 4, hd_reason = Held_terminal, hd_control_job_id = None,
     hd_decision = Hold_pending, hd_decided_at = None\<rparr>]"
  "db_continuations lost_hub = []" "db_origins lost_hub = []" "db_controls lost_hub = []" "db_dispatches lost_hub = []"
  "db_observed lost_hub = []" "db_resolutions lost_hub = []" "db_inputs lost_hub = []" "db_ingress lost_hub = []"
  "db_checkpoints lost_hub = []"
  by (simp_all add: lost_hub_def example_hub_def empty_db_def)

lemma lost_jobs_sel:
  "pj_job_id lost_job = ''a''" "pj_job_id held_job = ''b''" "pj_status lost_job = Indeterminate" "pj_status held_job = Queued"
  "pj_topic_id lost_job = 1" "pj_topic_id held_job = 1" "pj_session_id lost_job = ''s''" "pj_session_id held_job = ''s''"
  "pj_agent_id lost_job = ''codex''" "pj_chat_id lost_job = 7" "pj_chat_id held_job = 7" "pj_session_generation lost_job = 1"
  "pj_codex_permission_profile lost_job = None" "pj_idempotency_key lost_job = ''a''" "pj_idempotency_key held_job = ''b''"
  "pj_message_id lost_job = 1" "pj_message_id held_job = 2" "pj_topic_sequence lost_job = 1" "pj_topic_sequence held_job = 2"
  by (simp_all add: lost_job_def held_job_def example_job_def)

lemma lost_lookups:
  "job_of lost_hub ''a'' = Some lost_job" "topic_of lost_hub 1 = Some example_topic" "session_of lost_hub ''s'' = Some lost_session"
  "evidence_of lost_hub ''a'' = Some lost_evidence" "outbox_of lost_hub ''o'' = Some lost_outbox"
  by (simp_all add: job_of_def topic_of_def session_of_def evidence_of_def outbox_of_def lost_hub_sel lost_jobs_sel
    example_topic_def lost_session_def lost_evidence_def lost_outbox_def)

lemma lost_turn: "lost_turn_of_notice lost_hub 7 3 40 = Some ''a''"
  by (simp add: lost_turn_of_notice_def lost_hub_sel lost_notice_def lost_part_def lost_lookups lost_outbox_def lost_jobs_sel
    lost_lookups [unfolded lost_outbox_def] ended_in_error_def lost_evidence_def exists_row_iff example_topic_def)

lemma lost_bound: "bound_turn lost_hub go_on ''/p'' = Inr (lost_job, example_topic, lost_session)"
  by (simp add: bound_turn_def go_on_def lost_lookups lost_jobs_sel still_bound_def example_topic_def lost_session_def lost_evidence_def)

lemma lost_root_quiet: "root_is_quiet lost_hub ''/p'' lost_job"
  by (simp add: root_is_quiet_def exists_row_iff lost_hub_sel lost_jobs_sel unreviewed_def waits_unstarted_def uncertain_def
    pending_hold_def lost_session_def)

lemma lost_held: "held_at_root lost_hub ''/p'' = 1"
  by (simp add: held_at_root_def count_where_def lost_hub_sel exists_row_iff lost_jobs_sel waits_unstarted_def at_root_def
    lost_lookups example_topic_def)

lemma lost_request_sel:
  "ct_source_job_id go_on = ''a''" "ry_chat_id (ct_reply go_on) = 7" "ry_thread_id (ct_reply go_on) = 3"
  "ry_notice_message_id (ct_reply go_on) = 40" "ry_reply_message_id (ct_reply go_on) = 41" "ct_canonical_root go_on = ''/p''"
  "ss_codex_permission_profile lost_session = None"
  by (simp_all add: go_on_def lost_session_def)

lemma go_on_starts:
  "\<exists>k db'. continue_from_notice Some (Inr None) ''c'' go_on 9 lost_hub = (Inr (k, True, 1), db') \<and> pj_topic_sequence k = 3"
proof -
  let ?k = "new_turn ''c'' 3 lost_job lost_session 41 9"
  have put: "put_turn ?k lost_hub = Inr (lost_hub\<lparr>db_jobs := [lost_job, held_job, ?k]\<rparr>)"
    by (simp add: put_turn_Inr job_clashes_def exists_row_iff lost_hub_sel lost_jobs_sel new_turn_def lost_session_def)
  have idle: "pj_lease_token ?k = None" "pj_lease_owner ?k = None" "pj_lease_expires_at ?k = None" "pj_provider_started_at ?k = None"
    by (simp_all add: new_turn_def)
  have "length CONTINUATION_PROMPT \<le> 20000" "1 \<le> length CONTINUATION_PROMPT" by (simp_all add: CONTINUATION_PROMPT_def)
  then have "\<exists>db'. admit_turn go_on lost_job lost_session ''c'' 9 lost_hub = Inr (?k, db')"
    by (simp add: admit_turn_def go_on_def lost_hub_sel lost_jobs_sel put idle validate_ingress_identity_def record_new_job_def
      exists_row_iff put_input_def advance_counter_def put_continuation_def note_message_def get_job_def job_of_def)
  then obtain db' where a: "admit_turn go_on lost_job lost_session ''c'' 9 lost_hub = Inr (?k, db')" by blast
  have "start_turn (Inr None) ''c'' go_on ''/p'' (lost_job, example_topic, lost_session) 9 lost_hub = Inr ((?k, True, 1), db')"
    by (simp add: start_turn_Inr a lost_held lost_root_quiet same_profile_Inr lost_jobs_sel lost_request_sel lost_hub_sel
      require_control_scope_clear_def unquiesced_control_owner_def starts_with_def)
  then have "continue_tx (Inr None) ''c'' go_on ''/p'' 9 lost_hub = Inr ((?k, True, 1), db')"
    using lost_bound lost_turn
    by (simp add: continue_tx_def attempt_Inr lost_request_sel origin_kept_def origin_of_def continuation_of_def lost_hub_sel)
  then have "continue_from_notice Some (Inr None) ''c'' go_on 9 lost_hub = (Inr (?k, True, 1), db')"
    by (simp add: continue_from_notice_def transact_def lost_request_sel)
  moreover have "pj_topic_sequence ?k = 3" by (simp add: new_turn_def)
  ultimately show ?thesis by blast
qed

theorem accepted_continuation_may_run_witness:
  "\<exists>k db'. continue_from_notice Some (Inr None) ''c'' go_on 9 lost_hub = (Inr (k, True, 1), db') \<and>
     eligible db' 20 ''codex'' k"
proof -
  obtain k db' where r: "continue_from_notice Some (Inr None) ''c'' go_on 9 lost_hub = (Inr (k, True, 1), db')"
    using go_on_starts by blast
  have "distinct (map pj_job_id (db_jobs lost_hub))" "distinct (map ss_session_id (db_sessions lost_hub))" "\<not> pending_hold lost_hub ''c''"
    by (simp_all add: lost_hub_sel lost_jobs_sel pending_hold_def exists_row_iff)
  then have "eligible db' 20 ''codex'' k" by (rule accepted_continuation_may_run [OF r])
  then show ?thesis using r by blast
qed

end
