(* ===== verification/Approval_Frame.thy ===== *)
theory Approval_Frame
  imports Approval_Properties
begin

text \<open>
  The observation of turns does not touch the queue: no operation of a worker that observes changes a job, a
  hold, the evidence of an outcome, a topic or a session.
\<close>

type_synonym queue_tables =
  "provider_job list \<times> job_hold list \<times> terminal_evidence list \<times> job_resolution list \<times> topic_row list \<times> session_row list"

definition queue_tables :: "db \<Rightarrow> queue_tables" where
  "queue_tables db = (db_jobs db, db_holds db, db_evidence db, db_resolutions db, db_topics db, db_sessions db)"

lemma queue_tables_eq: "queue_tables db' = queue_tables db \<longleftrightarrow> db_jobs db' = db_jobs db \<and> db_holds db' = db_holds db \<and>
    db_evidence db' = db_evidence db \<and> db_resolutions db' = db_resolutions db \<and> db_topics db' = db_topics db \<and>
    db_sessions db' = db_sessions db"
  by (auto simp: queue_tables_def)

named_theorems queue_kept

lemma observed_queue [simp]:
  "queue_tables (supersede_unsent p now db) = queue_tables db" "queue_tables (close_scope i state now db) = queue_tables db"
  "queue_tables (retire_requests q db) = queue_tables db" "queue_tables (add_entry x db) = queue_tables db"
  "queue_tables (set_entry i k key st db) = queue_tables db" "queue_tables (mark_told i db) = queue_tables db"
  "queue_tables (advance_activity i now db) = queue_tables db" "queue_tables (approval_settled i key now db) = queue_tables db"
  "queue_tables (resolve_request scope key ek now db) = queue_tables db"
  "queue_tables (db\<lparr>db_runtime_epochs := R\<rparr>) = queue_tables db" "queue_tables (db\<lparr>db_early_scopes := S\<rparr>) = queue_tables db"
  "queue_tables (db\<lparr>db_early_requests := Q\<rparr>) = queue_tables db" "queue_tables (db\<lparr>db_task_activity := A\<rparr>) = queue_tables db"
  "queue_tables (db\<lparr>db_notices := N\<rparr>) = queue_tables db" "queue_tables (db\<lparr>db_activity_entries := E\<rparr>) = queue_tables db"
  by (simp_all add: queue_tables_def supersede_unsent_def close_scope_def retire_requests_def add_entry_def set_entry_def
    mark_told_def advance_activity_def approval_settled_def resolve_request_def)

lemma retire_scope_queue [simp]: "queue_tables (retire_scope i now db) = queue_tables db"
  by (simp add: retire_scope_def split: option.split)

lemma retire_all_queue [simp]: "queue_tables (fold (\<lambda>s. retire_scope (es_scope_id s) now) rows db) = queue_tables db"
  by (induction rows arbitrary: db) simp_all

lemma clear_slot_queue [queue_kept]: "clear_slot profile rt now rows db = (b, db') \<Longrightarrow> queue_tables db' = queue_tables db"
  by (induction rows arbitrary: db) (auto split: if_splits)

lemma bound_scope_queue [queue_kept]: "bound_scope profile i rt now db = (x, db') \<Longrightarrow> queue_tables db' = queue_tables db"
  by (auto simp: bound_scope_def split: option.splits if_splits)

lemma prepare_queue [queue_kept]: "prepare_notice d now nid db = Inr (x, db') \<Longrightarrow> queue_tables db' = queue_tables db"
  by (auto simp: prepare_notice_def attempt_Inr split: option.splits if_splits)

lemma tell_queue [queue_kept]: "tell_activity a key kind html now nid db = Inr (n, db') \<Longrightarrow> queue_tables db' = queue_tables db"
  by (auto simp: tell_activity_def attempt_Inr dest: prepare_queue)

lemma register_queue: "register_epoch_tx agent slot token now db = Inr (rt, db') \<Longrightarrow> queue_tables db' = queue_tables db"
  by (auto simp: register_epoch_tx_def attempt_Inr Let_def split: if_splits)

lemma put_scope_queue [queue_kept]: "put_scope_row s db = Inr db' \<Longrightarrow> queue_tables db' = queue_tables db"
  by (auto simp: put_scope_row_def split: if_splits)

lemma open_scope_queue: "open_scope_tx profile fresh i token rt thread root now db = Inr (x, db') \<Longrightarrow> queue_tables db' = queue_tables db"
  by (auto simp: open_scope_tx_def Let_def attempt_Inr split: option.splits if_splits prod.splits bool.splits dest!: queue_kept)

lemma store_entry_queue [queue_kept]: "store_entry i x ev db = Inr (Some db') \<Longrightarrow> queue_tables db' = queue_tables db"
  by (auto simp: store_entry_def Let_def attempt_Inr split: prod.splits option.splits if_splits)

lemma record_queue: "record_activity_tx dg enabled nid i token ev now db = Inr (b, db') \<Longrightarrow> queue_tables db' = queue_tables db"
  by (erule record_tx_cases) (auto split: if_splits dest!: queue_kept)

lemma import_queue [queue_kept]: "import_approval_tx i token thread turn r now db = Inr (b, db') \<Longrightarrow> queue_tables db' = queue_tables db"
  by (erule import_cases) auto

lemma promote_requests_queue [queue_kept]:
  "promote_requests s thread turn now rows db = Inr db' \<Longrightarrow> queue_tables db' = queue_tables db"
proof (induction rows arbitrary: db)
  case (Cons r rows)
  obtain taken db1 where m: "(if er_observed_turn_id r = turn
        then import_approval_tx (es_job_id s) (pr_lease_token (es_binding s)) thread turn r now db else Inr (False, db)) = Inr (taken, db1)"
      "promote_requests s thread turn now rows (if taken then db1 else supersede_unsent (\<lambda>n. nt_event_key n = er_event_key r) now
         (retire_requests (\<lambda>x. er_scope_id x = es_scope_id s \<and> er_identity x = er_identity r) db1)) = Inr db'"
    using Cons.prems by (auto simp: attempt_Inr)
  have "queue_tables db1 = queue_tables db" using m(1) by (auto split: if_splits dest: import_queue)
  then show ?case using Cons.IH [OF m(2)] by (cases taken) simp_all
qed simp

lemma promote_queue [queue_kept]: "promote_tx profile scope rt thread turn now db = Inr (b, db') \<Longrightarrow> queue_tables db' = queue_tables db"
  by (auto simp: promote_tx_def attempt_Inr split: option.splits prod.splits dest!: queue_kept)

lemma bind_queue [queue_kept]: "bind_accepted_tx i token thread turn root now db = Inr (b, db') \<Longrightarrow> queue_tables db' = queue_tables db"
  by (auto simp: bind_accepted_tx_def attempt_Inr split: option.splits)

lemma accept_queue: "accept_tx profile o' scope thread turn now db = Inr (b, db') \<Longrightarrow> queue_tables db' = queue_tables db"
  by (auto simp: accept_tx_def attempt_Inr split: option.splits dest!: queue_kept)

lemma put_request_queue [queue_kept]: "put_request r db = Inr db' \<Longrightarrow> queue_tables db' = queue_tables db"
  by (auto simp: put_request_def split: if_splits)

lemma store_request_queue [queue_kept]: "store_request enabled nid s ev key item now db = Inr (b, db') \<Longrightarrow> queue_tables db' = queue_tables db"
  by (auto simp: store_request_def attempt_Inr Let_def split: option.splits if_splits dest!: queue_kept)

lemma observe_queue: "observe_request_tx profile enabled dg nid scope rt ev now db = Inr (b, db') \<Longrightarrow> queue_tables db' = queue_tables db"
  by (auto simp: observe_request_tx_def attempt_Inr split: option.splits prod.splits if_splits dest!: queue_kept)

lemma tell_quiet_queue [queue_kept]: "tell_quiet ids ordinary tool now rows db = Inr (ns, db') \<Longrightarrow> queue_tables db' = queue_tables db"
proof (induction rows arbitrary: db ns)
  case (Cons a rows)
  then show ?case by (fastforce simp: attempt_Inr split: if_splits dest: tell_queue)
qed simp

lemma evaluate_queue: "evaluate_tx enabled ids ordinary tool now db = Inr (ns, db') \<Longrightarrow> queue_tables db' = queue_tables db"
  by (auto simp: evaluate_tx_def attempt_Inr split: if_splits dest: tell_quiet_queue)

lemma retire_queue: "queue_tables (retire_early scope rt now db) = queue_tables db"
  "queue_tables (snd (retire_observation i token now db)) = queue_tables db"
proof -
  show "queue_tables (retire_early scope rt now db) = queue_tables db" by (simp add: retire_early_def split: option.split)
  show "queue_tables (snd (retire_observation i token now db)) = queue_tables db"
    by (simp add: retire_observation_def)
qed

lemma transact_queue: "(\<And>x db'. f db = Inr (x, db') \<Longrightarrow> queue_tables db' = queue_tables db) \<Longrightarrow> queue_tables (snd (transact f db)) = queue_tables db"
  by (auto simp: transact_def split: sum.splits)

lemma approval_op_queue: "queue_tables (run_approval_op e op db) = queue_tables db"
  by (cases op) (simp_all add: retire_queue register_runtime_def open_scope_def observe_early_def bind_accepted_def
    record_activity_def evaluate_def transact_queue register_queue open_scope_queue observe_queue accept_queue bind_queue
    record_queue evaluate_queue)

end
