(* ===== verification/Hub_Runs.thy ===== *)
theory Hub_Runs
  imports Material_Properties Adoption_Properties Lane_Agreement Retry_Properties Failure_Calm
    Consent_Properties Continuation_Properties Approval_Frame
begin

text \<open>
  The hub as a state machine: inputs arrive, the queue runs, sessions change and are adopted, topics
  and lanes move, jobs are held and decided, stops are requested, results committed, failures reported,
  failed preparations tried again, lost turns continued, unconfirmed deliveries consented to, and turns
  observed, in any order. Each component is shown to keep the same contract, and the runs of the whole
  hub inherit it.
\<close>

section \<open>Arrivals\<close>

text \<open>Only the rows a waiting job does not read are touched, apart from a new queued job.\<close>

lemma queued_row_work_ok:
  assumes "work_ok now db" "db_jobs db' = db_jobs db @ [j]" "pj_status j = Queued" "job_ok j"
    "\<forall>k \<in> set (db_jobs db). pj_job_id k \<noteq> pj_job_id j" "db_holds db' = db_holds db" "db_evidence db' = db_evidence db"
    "db_resolutions db' = db_resolutions db" "db_topics db' = db_topics db" "db_sessions db' = db_sessions db"
  shows "work_ok now db'"
proof -
  have scope: "scope_of db' = scope_of db" by (rule scope_of_cong [OF assms(9)])
  have occ: "occupies_root db' now = occupies_root db now" and held: "pending_hold db' = pending_hold db"
    by (simp_all add: fun_eq_iff occupies_root_def uncertain_def resolved_outcome_def terminal_outcome_def pending_hold_def assms(6-8))
  have j: "\<not> occupies_root db now j" "\<not> running now j" using assms(3) by (simp_all add: occupies_root_def uncertain_def running_def)
  have w: "jobs_ok db" "root_exclusive now db" "roots_apart now db" "held_idle now db"
    using assms(1) by (simp_all add: work_ok_def queue_ok_def)
  have "jobs_ok db'" using w(1) assms(2,4,5) by (auto simp: jobs_ok_def)
  moreover have "root_exclusive now db'"
    using w(2) j unfolding root_exclusive_def scope occ assms(2) by auto
  moreover have "roots_apart now db'"
    using w(3) j unfolding roots_apart_def scope occ outside_sessions [OF assms(10)] assms(2) by auto
  moreover have "held_idle now db'" using w(4) j unfolding held_idle_def held assms(2) by auto
  ultimately show ?thesis by (simp add: work_ok_def queue_ok_def)
qed

lemma unchanged_hub_ok:
  assumes "hub_ok now db" "db_jobs db' = db_jobs db" "db_holds db' = db_holds db" "db_evidence db' = db_evidence db"
    "db_resolutions db' = db_resolutions db" "db_topics db' = db_topics db" "db_sessions db' = db_sessions db"
  shows "hub_ok now db'"
  using calmly_hub_ok [OF unchanged_calmly assms(1)] assms(2-7) by blast

lemma attend_hub_ok: "hub_ok now db \<Longrightarrow> attend_only db db' \<Longrightarrow> hub_ok now db'"
  by (erule unchanged_hub_ok) (simp_all add: attend_only_sel)

lemma binding_hub_ok:
  assumes "require_binding pr opts d moved db = Inr (s, db1)" "hub_ok now db"
  shows "hub_ok now db1"
proof (cases "ao_take_local_writer opts")
  case True
  then have db1: "db1 = put_writer (in_session_id d) Telegram_writer moved db" using require_binding_Inr(12) [OF assms(1)] by simp
  have "session_step db db1"
    unfolding db1 using assms(2) unique_sessions
    by (intro put_writer_step [OF require_binding_Inr(1) [OF assms(1)]]) (simp_all add: hub_ok_def)
  then show ?thesis
    using assms(2) calm_work_ok [OF session_step_calm] put_writer_ok by (auto simp: hub_ok_def db1)
next
  case False
  then show ?thesis using require_binding_Inr(11) [OF assms(1)] assms(2) by simp
qed

lemma new_job_ok: "1 \<le> ao_max_attempts opts \<Longrightarrow> job_ok (new_job i n opts d s now)"
  by (simp add: job_ok_def lease_columns_ok_def attempts_ok_def new_job_def)

lemma enqueue_hub_ok:
  assumes "enqueue_provider_job e opts raw moved t db = (r, db')" "hub_ok now db"
  shows "hub_ok now db'"
  using assms(1)
proof (cases rule: enqueue_cases)
  case (added d x s db1 m j)
  have b: "hub_ok now db1" by (rule binding_hub_ok [OF added(4) assms(2)])
  have "db_jobs db1 = db_jobs db" using require_binding_Inr(11,12) [OF added(4)] by auto
  then have jobs: "db_jobs db1 = db_jobs db" "db_jobs m = db_jobs db" by (simp_all add: added(6) note_message_sel)
  let ?n = "m\<lparr>db_jobs := db_jobs db @ [j]\<rparr>"
  have same: "db_holds ?n = db_holds db1" "db_evidence ?n = db_evidence db1" "db_resolutions ?n = db_resolutions db1"
    "db_topics ?n = db_topics db1" "db_sessions ?n = db_sessions db1"
    by (simp_all add: added(6) note_message_sel note_message_fields)
  have "work_ok now ?n"
  proof (rule queued_row_work_ok [of now db1 _ j])
    show "job_ok j" unfolding added(5) using valid_input_same(7) [OF added(1)] by (simp add: new_job_ok)
    show "\<forall>k \<in> set (db_jobs db1). pj_job_id k \<noteq> pj_job_id j"
      using added(7) by (auto simp: job_clashes_def jobs exists_row_iff)
  qed (use b same jobs in \<open>simp_all add: hub_ok_def added(5) new_job_def\<close>)
  moreover have "sessions_ok ?n" using b sessions_ok_same [OF _ same(5,4)] by (simp add: hub_ok_def)
  ultimately show ?thesis using attend_hub_ok [OF _ added(8)] by (simp add: hub_ok_def)
qed (use assms(2) in simp_all)

lemma grow_hub_ok:
  assumes "hub_ok now db" "\<And>j. quiet now j (f j)"
  shows "hub_ok now (update_jobs p f db)"
  by (rule calmly_hub_ok [OF quiet_calmly [OF quiet_update_jobs] assms(1)]) (rule assms(2))

lemma quiet_grow: "quiet now j (grow_job txt' t u j)"
  by (auto simp: row_defs grow_job_def)

lemma note_hub_ok: "hub_ok now db \<Longrightarrow> hub_ok now (note_message c m db)"
  by (erule unchanged_hub_ok) (simp_all add: note_message_def)

lemma append_hub_ok:
  assumes "append_tx e d ingress part_text grp quiet_ms max_ms current db = Inr (res, db')" "hub_ok now db"
  shows "hub_ok now db'"
  using assms(1)
proof (cases rule: append_cases)
  case (grown c j profile)
  show ?thesis
    by (rule append_part_Inr [OF grown(5)])
      (simp add: grow_hub_ok [OF attend_hub_ok [OF note_hub_ok [OF assms(2)]] quiet_grow])
qed (use assms(2) in simp_all)


lemma burst_hub_ok:
  assumes "enqueue_or_append_provider_job e d appended quiet_ms max_ms current moved t db = (r, db')" "hub_ok now db"
  shows "hub_ok now db'"
proof -
  have q: "hub_ok now x" if "enqueue_provider_job e opts raw moved t d0 = (y, x)" "hub_ok now d0" for opts raw d0 y x
    using enqueue_hub_ok that by blast
  have t: "hub_ok now x" if "transact (append_tx e d ingress part_text grp quiet_ms max_ms current) db = (y, x)"
    for ingress part_text grp y x
    using that
  proof (cases rule: transact_cases)
    case (committed a)
    show ?thesis by (rule append_hub_ok [OF committed(1) assms(2)])
  qed (use assms(2) in simp)
  show ?thesis
    using assms unfolding enqueue_or_append_provider_job_def
    by (auto split: sum.splits if_splits option.splits prod.splits dest: q t)
qed

lemma quote_hub_ok:
  assumes "record_forwarded_quote cl fresh t topic chat message observer body drafts session db = (r, db')" "hub_ok now db"
  shows "hub_ok now db'"
proof (cases "\<exists>b quote. quote_tx cl fresh t topic chat message quote drafts session db = Inr (b, db')")
  case True
  then obtain quote db1 where i: "insert_materials cl fresh (forward_owner topic chat message session) drafts t (Some ''forward'')
      (quote_turn topic quote message t (db\<lparr>db_observed := db_observed db @ [(chat, message)]\<rparr>)) = Inr db1" "db' = trim_turns topic db1"
    by (auto simp: quote_tx_def attempt_Inr split: if_splits)
  have "hub_ok now (quote_turn topic quote message t (db\<lparr>db_observed := db_observed db @ [(chat, message)]\<rparr>))"
    using assms(2) by (rule unchanged_hub_ok) (simp_all add: quote_turn_def)
  then have "hub_ok now db1" by (rule attend_hub_ok [OF _ insert_materials_Inr [OF i(1)]])
  then show ?thesis by (rule unchanged_hub_ok) (simp_all add: i(2) trim_turns_def)
next
  case False
  then have "db' = db" using assms(1) unfolding record_forwarded_quote_def
    by (auto simp: attempt_Inr split: sum.splits if_splits state_error.splits)
  then show ?thesis using assms(2) by simp
qed

lemma receive_hub_ok: "hub_ok now db \<Longrightarrow> hub_ok now (receive a db)"
proof (cases a)
  case (New_input e opts d moved t)
  then show "hub_ok now db \<Longrightarrow> ?thesis"
    using enqueue_hub_ok [of e opts d moved t db] by (cases "enqueue_provider_job e opts d moved t db") simp
next
  case (Burst_input e d appended quiet_ms max_ms current moved t)
  then show "hub_ok now db \<Longrightarrow> ?thesis"
    using burst_hub_ok [of e d appended quiet_ms max_ms current moved t db]
    by (cases "enqueue_or_append_provider_job e d appended quiet_ms max_ms current moved t db") simp
next
  case (Forwarded_quote cl fresh t topic chat message observer body ds session)
  then show "hub_ok now db \<Longrightarrow> ?thesis"
    using quote_hub_ok [of cl fresh t topic chat message observer body ds session db]
    by (cases "record_forwarded_quote cl fresh t topic chat message observer body ds session db") simp
qed

section \<open>Retries\<close>

lemma control_hub_ok: "note_control source y t db = Inr db' \<Longrightarrow> hub_ok now db \<Longrightarrow> hub_ok now db'"
  using note_control_Inr by (auto intro: unchanged_hub_ok)

lemma link_hub_ok: "put_link l db = Inr db' \<Longrightarrow> hub_ok now db \<Longrightarrow> hub_ok now db'"
  using put_link_Inr [of l db db'] by (auto intro: unchanged_hub_ok)

lemma retry_hub_ok:
  assumes "retry_from_notice resolve e q t db = (r, db')" "hub_ok now db"
  shows "hub_ok now db'"
  using assms(1) unfolding retry_from_notice_def
proof (cases rule: transact_cases)
  case (committed a)
  consider "note_control (rq_source_job_id q) (rq_reply q) t db = Inr db'"
    | k j c where "submit_retry e q k t db = Inr ((j, c), db')"
    using committed(1) by (cases a) (auto simp: retry_tx_def Let_def attempt_Inr split: option.splits)
  then show ?thesis
  proof cases
    case 1
    then show ?thesis by (rule control_hub_ok [OF _ assms(2)])
  next
    case 2
    from 2 show ?thesis by (rule submit_retry_Inr) (blast intro: control_hub_ok link_hub_ok enqueue_hub_ok assms(2))
  qed
qed (use assms(2) in simp)

section \<open>Continuations\<close>

lemma new_turn_ok: "job_ok (new_turn i seq j s m now)"
  by (simp add: job_ok_def lease_columns_ok_def attempts_ok_def new_turn_def)

lemma turn_added_hub_ok:
  assumes "turn_added q k db db'" "\<not> job_clashes k db" "job_ok k" "pj_status k = Queued" "hub_ok now db"
  shows "hub_ok now db'"
proof -
  note sel = turn_added_sel [OF assms(1)]
  have "work_ok now db'"
  proof (rule queued_row_work_ok [of now db _ k])
    show "work_ok now db" using assms(5) by (simp add: hub_ok_def)
    show "\<forall>j \<in> set (db_jobs db). pj_job_id j \<noteq> pj_job_id k" using fresh_clash [OF assms(2)] by blast
  qed (rule sel assms(3) assms(4))+
  moreover have "sessions_ok db'" using assms(5) sessions_ok_same [OF _ sel(3,2)] by (simp add: hub_ok_def)
  ultimately show ?thesis by (simp add: hub_ok_def)
qed

lemma continue_hub_ok:
  assumes "continue_from_notice resolve profile fresh q t db = (r, db')" "hub_ok now db"
  shows "hub_ok now db'"
proof (cases "resolve (ct_canonical_root q)")
  case None
  then show ?thesis using assms by (simp add: continue_from_notice_def)
next
  case (Some root)
  have "transact (continue_tx profile fresh q root t) db = (r, db')" using assms(1) by (simp add: continue_from_notice_def Some)
  then show ?thesis
  proof (cases rule: transact_cases)
    case (committed a)
    obtain k created held where a: "a = (k, created, held)" by (cases a)
    show ?thesis
    proof (cases created)
      case True
      have run: "continue_tx profile fresh q root t db = Inr ((k, True, held), db')" using committed(1) a True by simp
      obtain j tp s seq where c: "may_continue profile q root j tp s db" "held = held_at_root db root"
          "k = new_turn fresh seq j s (ry_reply_message_id (ct_reply q)) t"
          "map_option qn_next_sequence (find (\<lambda>c. qn_topic_id c = pj_topic_id j) (db_counters db)) = Some seq"
          "turn_added q k db db'" "\<not> job_clashes k db"
        by (rule continue_tx_created [OF run])
      show ?thesis by (rule turn_added_hub_ok [OF c(5,6) _ _ assms(2)]) (simp_all add: c(3) new_turn_ok)
    next
      case False
      then show ?thesis using continue_tx_repeated [of profile fresh q root t db k held db'] committed(1) a assms(2) by simp
    qed
  qed (use assms(2) in simp)
qed

section \<open>Holds and decisions\<close>

datatype hold_op =
    Hold_waiting time
  | Decide_hold string bool int int int time
  | Tell_released time
  | Refuse_input string int int int string int time
  | Send_notice string string time
  | Notice_sent blocker_notice int time
  | Notice_failed blocker_notice string int time

fun run_hold_op :: "wording \<Rightarrow> (string \<Rightarrow> string) \<Rightarrow> hold_op \<Rightarrow> db \<Rightarrow> db" where
  "run_hold_op w ids (Hold_waiting now) db = snd (materialize_held_jobs w ids now db)"
| "run_hold_op w ids (Decide_hold i confirm chat thread message now) db = snd (decide_held_job i confirm chat thread message now db)"
| "run_hold_op w ids (Tell_released now) db = snd (materialize_released_uncertainty w ids now db)"
| "run_hold_op w ids (Refuse_input i chat message t session g now) db = snd (reject_blocked_input w i chat message t session g now db)"
| "run_hold_op w ids (Send_notice sender token now) db = snd (lease_blocker_notice sender token now db)"
| "run_hold_op w ids (Notice_sent n message now) db = complete_blocker_notice n message now db"
| "run_hold_op w ids (Notice_failed n code delay now) db = retry_blocker_notice n code delay now db"

fun hold_op_time :: "hold_op \<Rightarrow> time" where
  "hold_op_time (Hold_waiting now) = now" | "hold_op_time (Decide_hold _ _ _ _ _ now) = now"
| "hold_op_time (Tell_released now) = now" | "hold_op_time (Refuse_input _ _ _ _ _ _ now) = now"
| "hold_op_time (Send_notice _ _ now) = now" | "hold_op_time (Notice_sent _ _ now) = now"
| "hold_op_time (Notice_failed _ _ _ now) = now"

text \<open>The notices are beside the queue.\<close>

definition notices_beside :: "db \<Rightarrow> db \<Rightarrow> bool" where
  "notices_beside db db' \<longleftrightarrow> db_jobs db' = db_jobs db \<and> db_holds db' = db_holds db \<and> db_evidence db' = db_evidence db \<and>
     db_resolutions db' = db_resolutions db \<and> db_topics db' = db_topics db \<and> db_sessions db' = db_sessions db"

lemma beside_hub_ok: "notices_beside db db' \<Longrightarrow> hub_ok now db \<Longrightarrow> hub_ok now db'"
  by (rule unchanged_hub_ok [of now db]) (simp_all add: notices_beside_def)

lemma release_beside: "notices_beside db (snd (materialize_released_uncertainty w ids now db))"
proof -
  have "notices_beside a (snd (fold (\<lambda>(i, row) (n, d). let d' = release_to (turn_release w ids now i) row d in
             (n + (length (db_blockers d') - length (db_blockers d)), d')) rows (k, a)))" for rows k a
  proof (induction rows arbitrary: k a)
    case (Cons x rows)
    obtain i row where x: "x = (i, row)" by (cases x)
    let ?a = "release_to (turn_release w ids now i) row a"
    have "notices_beside a ?a" by (simp add: release_to_def add_notice_def notices_beside_def)
    then show ?case using Cons.IH [of ?a "k + (length (db_blockers ?a) - length (db_blockers a))"]
      by (simp add: x Let_def notices_beside_def)
  qed (simp add: notices_beside_def)
  then show ?thesis unfolding materialize_released_uncertainty_def by blast
qed

lemma hold_op_hub_ok:
  assumes "hub_ok (hold_op_time op) db"
  shows "hub_ok (hold_op_time op) (run_hold_op w ids op db)"
proof -
  have jobs: "jobs_ok db" using assms by (simp add: hub_ok_def work_ok_def queue_ok_def)
  show ?thesis
  proof (cases op)
    case (Hold_waiting now)
    obtain r db' where m: "materialize_held_jobs w ids now db = (r, db')" by (cases "materialize_held_jobs w ids now db")
    show ?thesis using calmly_hub_ok [OF holds_calmly [OF materialize_waiting [OF m] jobs]] assms m by (simp add: Hold_waiting)
  next
    case (Decide_hold i confirm chat thread message now)
    obtain r db' where m: "decide_held_job i confirm chat thread message now db = (r, db')"
      by (cases "decide_held_job i confirm chat thread message now db")
    show ?thesis using calmly_hub_ok [OF decide_calmly [OF m jobs]] assms m by (simp add: Decide_hold)
  next
    case (Tell_released now)
    then show ?thesis using beside_hub_ok [OF release_beside] assms by simp
  next
    case (Refuse_input i chat message t session g now)
    have "notices_beside db (snd (reject_blocked_input w i chat message t session g now db))"
      by (auto simp: reject_blocked_input_def reject_tx_def transact_def Let_def notices_beside_def
        split: option.splits sum.splits)
    then show ?thesis using beside_hub_ok assms by (simp add: Refuse_input)
  next
    case (Send_notice sender token now)
    have "notices_beside db (snd (lease_blocker_notice sender token now db))"
      by (auto simp: lease_blocker_notice_def Let_def notices_beside_def split: option.splits)
    then show ?thesis using beside_hub_ok assms by (simp add: Send_notice)
  next
    case (Notice_sent n message now)
    have "notices_beside db (complete_blocker_notice n message now db)" by (simp add: complete_blocker_notice_def notices_beside_def)
    then show ?thesis using beside_hub_ok assms by (simp add: Notice_sent)
  next
    case (Notice_failed n code delay now)
    have "notices_beside db (retry_blocker_notice n code delay now db)" by (simp add: retry_blocker_notice_def notices_beside_def)
    then show ?thesis using beside_hub_ok assms by (simp add: Notice_failed)
  qed
qed


text \<open>What is observed of a turn is beside the queue, as the notices are.\<close>

lemma approval_beside: "notices_beside db (run_approval_op e op db)"
  using approval_op_queue [of e op db] by (simp add: queue_tables_eq notices_beside_def)

section \<open>The contract of a component\<close>

text \<open>Whatever a component does at its own time, it keeps what holds of the hub at that time.\<close>

locale hub_component =
  fixes act :: "'op \<Rightarrow> db \<Rightarrow> db" and clock :: "'op \<Rightarrow> time" and allowed :: "'op \<Rightarrow> db \<Rightarrow> bool"
  assumes keeps: "hub_ok (clock op) db \<Longrightarrow> allowed op db \<Longrightarrow> hub_ok (clock op) (act op db)"
begin

lemma step: "hub_ok now db \<Longrightarrow> now \<le> clock op \<Longrightarrow> allowed op db \<Longrightarrow> hub_ok (clock op) (act op db)"
  by (rule keeps) (auto simp: hub_ok_def work_ok_later)

end

text \<open>
  What comes from outside the hub: the digest of a key, the wordings of the notices, the identifiers of
  new notices, the configured permission profile of a session, the icon that opens a notice, the
  resolution of a path, the verification of a saved root, the digests of the snapshots of a consent, and
  what the workers observe with.
\<close>

record hub_env =
  he_digest :: "string \<Rightarrow> string"
  he_wording :: wording
  he_ids :: "string \<Rightarrow> string"
  he_profile :: "state_error + string option"
  he_stop_wording :: "stop_wording \<Rightarrow> string"
  he_icon :: char
  he_resolve :: "string \<Rightarrow> string"
  he_verify :: resolver
  he_hold_digest :: "hold_snapshot \<Rightarrow> string"
  he_control_digest :: "control_snapshot \<Rightarrow> string"
  he_observer :: approval_env

datatype stop_op = Request_stop stop_call time string string

datatype commit_op = Commit_result result_draft string string string string time time

datatype failure_op = Report_failure failure_report string string string time time

datatype retry_op = Retry_notice admission_env retry_request time

datatype continuation_op = Go_on string continuation_request time

datatype consent_op =
    Release_hold string string bool time
  | Stop_waiting string string string bool string time

fun run_failure_op :: "hub_env \<Rightarrow> failure_op \<Rightarrow> db \<Rightarrow> db" where
  "run_failure_op e (Report_failure f i token oid honored now) db =
     (case terminate_provider_job_with_notice (he_verify e) (he_profile e) (he_icon e) f i token oid honored now db of
        None \<Rightarrow> db | Some (r, db') \<Rightarrow> db')"

fun run_retry_op :: "hub_env \<Rightarrow> retry_op \<Rightarrow> db \<Rightarrow> db" where
  "run_retry_op e (Retry_notice a q now) db = snd (retry_from_notice (he_verify e) a q now db)"

fun run_consent_op :: "hub_env \<Rightarrow> consent_op \<Rightarrow> db \<Rightarrow> db" where
  "run_consent_op e (Release_hold i expected consent now) db = snd (release_delivery_hold (he_hold_digest e) i expected consent now db)"
| "run_consent_op e (Stop_waiting kind i expected consent fresh now) db =
     snd (reconcile_delivery_control (he_control_digest e) kind i expected consent fresh now db)"

fun run_continuation_op :: "hub_env \<Rightarrow> continuation_op \<Rightarrow> db \<Rightarrow> db" where
  "run_continuation_op e (Go_on fresh q now) db = snd (continue_from_notice (he_verify e) (he_profile e) fresh q now db)"

fun continuation_time :: "continuation_op \<Rightarrow> time" where "continuation_time (Go_on _ _ now) = now"

fun approval_time :: "approval_op \<Rightarrow> time" where
  "approval_time (Register_worker _ _ _ now) = now" | "approval_time (Open_scope _ _ _ _ _ _ now) = now"
| "approval_time (Observe_approval _ _ _ _ now) = now" | "approval_time (Retire_scope _ _ now) = now"
| "approval_time (Accept_turn _ _ _ _ now) = now" | "approval_time (Bind_turn _ _ _ _ _ now) = now"
| "approval_time (Observe_turn _ _ _ _ now) = now" | "approval_time (Retire_turn _ _ now) = now"
| "approval_time (Look_for_quiet _ _ now) = now"

fun consent_time :: "consent_op \<Rightarrow> time" where
  "consent_time (Release_hold _ _ _ now) = now"
| "consent_time (Stop_waiting _ _ _ _ _ now) = now"

fun failure_time :: "failure_op \<Rightarrow> time" where "failure_time (Report_failure _ _ _ _ _ now) = now"

fun retry_time :: "retry_op \<Rightarrow> time" where "retry_time (Retry_notice _ _ now) = now"

fun run_stop_op :: "hub_env \<Rightarrow> stop_op \<Rightarrow> db \<Rightarrow> db" where
  "run_stop_op e (Request_stop q now rid nid) db = snd (request_stop (he_stop_wording e) q now rid nid db)"

fun run_commit_op :: "hub_env \<Rightarrow> commit_op \<Rightarrow> db \<Rightarrow> db" where
  "run_commit_op e (Commit_result d i token rid oid honored now) db =
     (case commit_provider_result (he_icon e) d i token rid oid honored now db of None \<Rightarrow> db | Some (r, db') \<Rightarrow> db')"

fun stop_time :: "stop_op \<Rightarrow> time" where "stop_time (Request_stop _ now _ _) = now"

fun commit_time :: "commit_op \<Rightarrow> time" where "commit_time (Commit_result _ _ _ _ _ _ now) = now"

fun arrival_time :: "arrival \<Rightarrow> time" where
  "arrival_time (New_input _ _ _ _ now) = now"
| "arrival_time (Burst_input _ _ _ _ _ _ _ now) = now"
| "arrival_time (Forwarded_quote _ _ now _ _ _ _ _ _ _) = now"

text \<open>A session operation draws an identifier that no session has.\<close>

definition fresh_for :: "hub_env \<Rightarrow> session_op \<Rightarrow> db \<Rightarrow> bool" where
  "fresh_for e op db \<longleftrightarrow> \<not> clash (he_profile e) \<and>
     (\<forall>f. fresh_session op = Some f \<longrightarrow> f \<notin> ss_session_id ` set (db_sessions db))"

text \<open>
  The database enforces its keys and references. A topic that an old version left without a root is
  given one while nothing is at work in it.
\<close>

datatype adoption_op = Adopt adoption_request "string option" string time time

fun run_adoption_op :: "hub_env \<Rightarrow> adoption_op \<Rightarrow> db \<Rightarrow> db" where
  "run_adoption_op e (Adopt q expected fresh moved now) db = snd (attach q expected fresh (he_profile e) moved now db)"

fun adoption_time :: "adoption_op \<Rightarrow> time" where "adoption_time (Adopt _ _ _ _ now) = now"

fun may_adopt :: "hub_env \<Rightarrow> adoption_op \<Rightarrow> db \<Rightarrow> bool" where
  "may_adopt e (Adopt q _ fresh _ _) db \<longleftrightarrow> keyed db \<and> \<not> clash (he_profile e) \<and> fresh \<notin> ss_session_id ` set (db_sessions db) \<and>
     (\<forall>t. find_row db (ad_chat_id q) (ad_thread_id q) = Some t \<longrightarrow> starts_with (topic_scope t) ''root:'' \<or> vacant db (tp_topic_id t))"

definition may_settle :: "topic_op \<Rightarrow> db \<Rightarrow> bool" where
  "may_settle op db \<longleftrightarrow> keyed db \<and> settles_vacant op db"

interpretation queue_part: hub_component "\<lambda>op db. snd (run_job_op dg op db)" op_time "\<lambda>_ _. True" for dg
proof (unfold_locales, goal_cases)
  case (1 op db)
  obtain r db' where m: "run_job_op dg op db = (r, db')" by (cases "run_job_op dg op db")
  have "jobs_ok db" using 1 by (simp add: hub_ok_def work_ok_def queue_ok_def)
  then have "sessions_ok db'" using sessions_ok_views job_op_views [OF m] 1 by (auto simp: hub_ok_def)
  then show ?case using job_op_work_ok [OF m _ order_refl] 1 by (simp add: hub_ok_def m)
qed

interpretation session_part: hub_component "\<lambda>op db. snd (run_session_op (he_wording e) (he_ids e) (he_profile e) op db)"
  session_op_time "fresh_for e" for e
proof (unfold_locales, goal_cases)
  case (1 op db)
  then show ?case
    using session_op_work_ok [of op db] session_op_keeps [of db op]
    by (simp add: hub_ok_def fresh_for_def keeps_sessions_def)
qed

interpretation hold_part: hub_component "run_hold_op w ids" hold_op_time "\<lambda>_ _. True" for w ids
  by unfold_locales (rule hold_op_hub_ok)

interpretation stop_part: hub_component "run_stop_op e" stop_time "\<lambda>_ _. True" for e
proof (unfold_locales, goal_cases)
  case (1 op db)
  obtain q now rid nid where op: "op = Request_stop q now rid nid" by (cases op)
  obtain r db' where m: "request_stop (he_stop_wording e) q now rid nid db = (r, db')"
    by (cases "request_stop (he_stop_wording e) q now rid nid db")
  show ?case using calmly_hub_ok [OF request_stop_calmly [OF m] 1(1)] by (simp add: op m)
qed

interpretation commit_part: hub_component "run_commit_op e" commit_time "\<lambda>_ _. True" for e
proof (unfold_locales, goal_cases)
  case (1 op db)
  obtain d i token rid oid h now where op: "op = Commit_result d i token rid oid h now" by (cases op)
  show ?case
  proof (cases "commit_provider_result (he_icon e) d i token rid oid h now db")
    case None
    then show ?thesis using 1 by (simp add: op)
  next
    case (Some x)
    obtain r db' where x: "x = (r, db')" by (cases x)
    show ?thesis using calmly_hub_ok [OF quiet_calmly [OF quiet_commit_result] 1(1)] Some by (simp add: op x)
  qed
qed

interpretation failure_part: hub_component "run_failure_op e" failure_time "\<lambda>_ _. True" for e
proof (unfold_locales, goal_cases)
  case (1 op db)
  obtain f i token oid h now where op: "op = Report_failure f i token oid h now" by (cases op)
  have ok: "jobs_ok db" using 1 by (simp add: hub_ok_def work_ok_def queue_ok_def)
  show ?case
  proof (cases "terminate_provider_job_with_notice (he_verify e) (he_profile e) (he_icon e) f i token oid h now db")
    case None
    then show ?thesis using 1 by (simp add: op)
  next
    case (Some x)
    obtain r db' where x: "x = (r, db')" by (cases x)
    show ?thesis using calmly_hub_ok [OF terminate_calmly [OF _ ok] 1(1)] Some by (simp add: op x)
  qed
qed

interpretation retry_part: hub_component "run_retry_op e" retry_time "\<lambda>_ _. True" for e
proof (unfold_locales, goal_cases)
  case (1 op db)
  obtain a q now where op: "op = Retry_notice a q now" by (cases op)
  obtain r db' where m: "retry_from_notice (he_verify e) a q now db = (r, db')"
    by (cases "retry_from_notice (he_verify e) a q now db")
  show ?case using retry_hub_ok [OF m] 1(1) by (simp add: op m)
qed

text \<open>A consent is a row beside the queue.\<close>

lemma consent_beside: "notices_beside db (run_consent_op e op db)"
  by (cases op) (auto simp: release_delivery_hold_def reconcile_delivery_control_def release_tx_def apply_tx_def transact_def
    attempt_Inr put_hold_disposition_def put_control_disposition_def Let_def notices_beside_def
    split: sum.splits option.splits if_splits)

interpretation consent_part: hub_component "run_consent_op e" consent_time "\<lambda>_ _. True" for e
  by unfold_locales (rule beside_hub_ok [OF consent_beside])

interpretation continuation_part: hub_component "run_continuation_op e" continuation_time "\<lambda>_ _. True" for e
proof (unfold_locales, goal_cases)
  case (1 op db)
  obtain fresh q now where op: "op = Go_on fresh q now" by (cases op)
  obtain r db' where m: "continue_from_notice (he_verify e) (he_profile e) fresh q now db = (r, db')"
    by (cases "continue_from_notice (he_verify e) (he_profile e) fresh q now db")
  show ?case using continue_hub_ok [OF m] 1(1) by (simp add: op m)
qed

interpretation approval_part: hub_component "run_approval_op e" approval_time "\<lambda>_ _. True" for e
  by unfold_locales (rule beside_hub_ok [OF approval_beside])

interpretation arrival_part: hub_component receive arrival_time "\<lambda>_ _. True"
  by unfold_locales (rule receive_hub_ok)

interpretation topic_part: hub_component "\<lambda>op db. snd (run_topic_op resolve op db)" topic_op_time may_settle for resolve
  by unfold_locales (use places_hub_ok [OF topic_op_places] in \<open>simp add: may_settle_def\<close>)

interpretation adoption_part: hub_component "run_adoption_op e" adoption_time "may_adopt e" for e
proof (unfold_locales, goal_cases)
  case (1 op db)
  obtain q expected fresh moved now where op: "op = Adopt q expected fresh moved now" by (cases op)
  have "hub_ok now db'" if "attach_locked q expected fresh (he_profile e) moved now db = Inr (r, db')" for r db'
    using attach_hub_ok [OF that] 1 by (simp add: op)
  then show ?case using 1(1)
    by (cases "attach_locked q expected fresh (he_profile e) moved now db") (auto simp: op attach_def transact_def)
qed

section \<open>The runs of the hub\<close>

datatype hub_op =
    Queue job_op
  | Sessions session_op
  | Holds hold_op
  | Stops stop_op
  | Commits commit_op
  | Arrives arrival
  | Topics topic_op
  | Adopts adoption_op
  | Fails failure_op
  | Retries retry_op
  | Consents consent_op
  | Continues continuation_op
  | Watches approval_op

fun hub_act :: "hub_env \<Rightarrow> hub_op \<Rightarrow> db \<Rightarrow> db" where
  "hub_act e (Queue op) db = snd (run_job_op (he_digest e) op db)"
| "hub_act e (Sessions op) db = snd (run_session_op (he_wording e) (he_ids e) (he_profile e) op db)"
| "hub_act e (Holds op) db = run_hold_op (he_wording e) (he_ids e) op db"
| "hub_act e (Stops op) db = run_stop_op e op db"
| "hub_act e (Commits op) db = run_commit_op e op db"
| "hub_act e (Arrives a) db = receive a db"
| "hub_act e (Topics op) db = snd (run_topic_op (he_resolve e) op db)"
| "hub_act e (Adopts op) db = run_adoption_op e op db"
| "hub_act e (Fails op) db = run_failure_op e op db"
| "hub_act e (Retries op) db = run_retry_op e op db"
| "hub_act e (Consents op) db = run_consent_op e op db"
| "hub_act e (Continues op) db = run_continuation_op e op db"
| "hub_act e (Watches op) db = run_approval_op (he_observer e) op db"

fun hub_time :: "hub_op \<Rightarrow> time" where
  "hub_time (Queue op) = op_time op" | "hub_time (Sessions op) = session_op_time op"
| "hub_time (Holds op) = hold_op_time op" | "hub_time (Stops op) = stop_time op"
| "hub_time (Commits op) = commit_time op" | "hub_time (Arrives a) = arrival_time a"
| "hub_time (Topics op) = topic_op_time op" | "hub_time (Adopts op) = adoption_time op"
| "hub_time (Fails op) = failure_time op" | "hub_time (Retries op) = retry_time op"
| "hub_time (Consents op) = consent_time op" | "hub_time (Continues op) = continuation_time op"
| "hub_time (Watches op) = approval_time op"

fun hub_allowed :: "hub_env \<Rightarrow> hub_op \<Rightarrow> db \<Rightarrow> bool" where
  "hub_allowed e (Sessions op) db = fresh_for e op db"
| "hub_allowed e (Topics op) db = may_settle op db"
| "hub_allowed e (Adopts op) db = may_adopt e op db"
| "hub_allowed e _ db = True"

interpretation hub: hub_component "hub_act e" hub_time "hub_allowed e" for e
proof (unfold_locales, goal_cases)
  case (1 op db)
  then show ?case
    by (cases op) (use queue_part.keeps session_part.keeps hold_part.keeps stop_part.keeps commit_part.keeps
      arrival_part.keeps topic_part.keeps adoption_part.keeps failure_part.keeps retry_part.keeps
      consent_part.keeps continuation_part.keeps approval_part.keeps in auto)
qed

text \<open>A hub starts with its topics configured and no session and no job.\<close>

inductive reached :: "hub_env \<Rightarrow> time \<Rightarrow> db \<Rightarrow> bool" for e where
  starts: "db_jobs db = [] \<Longrightarrow> db_sessions db = [] \<Longrightarrow> reached e now db"
| acts: "reached e now db \<Longrightarrow> now \<le> hub_time op \<Longrightarrow> hub_allowed e op db \<Longrightarrow> reached e (hub_time op) (hub_act e op db)"

lemma reached_hub_ok: "reached e now db \<Longrightarrow> hub_ok now db"
proof (induction rule: reached.induct)
  case (starts db now)
  then show ?case
    by (simp add: hub_ok_def work_ok_def queue_ok_def jobs_ok_def root_exclusive_def roots_apart_def held_idle_def
      outside_def sessions_ok_def kept_once_def active_agents_def)
next
  case (acts now db op)
  then show ?case by (intro hub.step)
qed


section \<open>One owner per root\<close>


section \<open>The rows of the queue\<close>


section \<open>One session at a time\<close>


section \<open>Examples\<close>

text \<open>A first session opens in a topic and is then moved to a local writer.\<close>

definition example_hub_env :: hub_env where
  "example_hub_env = \<lparr>he_digest = (\<lambda>x. x), he_wording = plain_wording, he_ids = (\<lambda>i. i), he_profile = Inr None,
     he_stop_wording = (\<lambda>_. []), he_icon = CHR ''!'', he_resolve = (\<lambda>p. p),
     he_verify = (\<lambda>p. Some p), he_hold_digest = (\<lambda>_. []), he_control_digest = (\<lambda>_. []),
     he_observer = example_approvals\<rparr>"

definition first_session :: session_row where
  "first_session = new_session ''s'' 1 ''codex'' 1 ''m'' ''e'' Satellite None 3"

definition opened_hub :: db where
  "opened_hub = (example_hub [])\<lparr>db_sessions := [first_session]\<rparr>"

definition moved_hub :: db where
  "moved_hub = put_writer ''s'' Local_writer 4 opened_hub"

lemma first_session_sel:
  "ss_session_id first_session = ''s''" "ss_topic_id first_session = 1" "ss_agent_id first_session = ''codex''"
  "ss_status first_session = Satellite" "ss_writer_mode first_session = Telegram_writer" "ss_generation first_session = 1"
  by (simp_all add: first_session_def new_session_def)

lemma opened_hub_sel:
  "db_sessions opened_hub = [first_session]" "db_jobs opened_hub = []" "db_controls opened_hub = []"
  "db_dispatches opened_hub = []" "db_topics opened_hub = [example_topic]"
  by (simp_all add: opened_hub_def example_hub_def empty_db_def)

lemma first_session_opens:
  "snd (run_session_op w ids (Inr None) (Ensure_satellite ''s'' 1 ''codex'' ''m'' ''e'' 3) (example_hub [])) = opened_hub"
proof -
  have rows: "db_sessions (example_hub []) = []" "db_topics (example_hub []) = [example_topic]"
    by (simp_all add: example_hub_def empty_db_def)
  have topic: "get_topic (example_hub []) 1 = Inr (topic_record_of example_topic)"
    by (simp add: get_topic_def topic_of_def rows example_topic_def)
  have "insert_session ''s'' 1 ''codex'' ''m'' ''e'' Satellite (Inr None) 3 (example_hub []) = Inr opened_hub"
    by (simp add: insert_session_def selected_for_def put_sessions_def sessions_valid_def next_generation_def rows
      opened_hub_def first_session_def)
  then show ?thesis
    by (simp add: ensure_satellite_def topic topic_record_of_def example_topic_def satellite_row_def rows commit_then_def forget_def)
qed

lemma first_session_moves_away:
  "snd (run_session_op w ids pr (Set_writer ''s'' ''local'' None 4) opened_hub) = moved_hub"
proof -
  have at_work: "require_free_root opened_hub first_session scope = Inr ()" for scope
    by (simp add: require_free_root_def control_quiet_def control_owner_for_topic_def other_writer_def scope_has_work_def
      scope_has_dispatch_def exists_row_def check_def opened_hub_sel first_session_sel)
  have s: "session_with_scope opened_hub ''s'' = Some (first_session, ''root:/p'')"
    by (simp add: session_with_scope_def session_of_def opened_hub_sel first_session_sel scope_of_def topic_of_def example_topic_def topic_scope_def)
  show ?thesis
    by (simp add: forget_def set_writer_mode_def writer_mode_of_def commit_then_def set_writer_tx_def s at_work first_session_sel
      moved_hub_def Let_def)
qed

lemma opened_hub_reached: "reached example_hub_env 3 opened_hub"
proof -
  have "reached example_hub_env 0 (example_hub [])" by (rule reached.starts) (simp_all add: example_hub_def empty_db_def)
  moreover have "fresh_for example_hub_env (Ensure_satellite ''s'' 1 ''codex'' ''m'' ''e'' 3) (example_hub [])"
    by (simp add: fresh_for_def example_hub_env_def example_hub_def empty_db_def)
  moreover have "hub_act example_hub_env (Sessions (Ensure_satellite ''s'' 1 ''codex'' ''m'' ''e'' 3)) (example_hub []) = opened_hub"
    using first_session_opens by (simp add: example_hub_env_def del: run_session_op.simps)
  ultimately show ?thesis
    using reached.acts [of example_hub_env 0 "example_hub []" "Sessions (Ensure_satellite ''s'' 1 ''codex'' ''m'' ''e'' 3)"]
    by (simp del: hub_act.simps)
qed

lemma moved_hub_reached: "reached example_hub_env 4 moved_hub"
proof -
  have "hub_act example_hub_env (Sessions (Set_writer ''s'' ''local'' None 4)) opened_hub = moved_hub"
    using first_session_moves_away by (simp del: run_session_op.simps)
  moreover have "fresh_for example_hub_env (Set_writer ''s'' ''local'' None 4) opened_hub"
    by (simp add: fresh_for_def example_hub_env_def)
  ultimately show ?thesis
    using reached.acts [OF opened_hub_reached, of "Sessions (Set_writer ''s'' ''local'' None 4)"]
    by (simp del: hub_act.simps)
qed


text \<open>A session opens in a topic and an input for it arrives.\<close>

definition arrived_hub :: db where
  "arrived_hub = receive (New_input example_env (plain_options None) example_input 8 9) opened_hub"

lemma arrived_hub_reached: "reached example_hub_env 9 arrived_hub"
  using reached.acts [OF opened_hub_reached, of "Arrives (New_input example_env (plain_options None) example_input 8 9)"]
  by (simp add: arrived_hub_def del: receive.simps)

lemma opened_binding:
  "require_binding (Inr None) (plain_options None) example_input 8 opened_hub = Inr (first_session, opened_hub)"
proof -
  have t: "topic_of opened_hub 1 = Some example_topic" by (simp add: topic_of_def opened_hub_sel example_topic_def)
  have f: "persistent_root_blocker opened_hub 1 = None"
    by (simp add: persistent_root_blocker_def t control_owner_for_topic_def outside_writer_def uncertain_turn_def first_by_None
      opened_hub_sel first_session_sel exists_row_def)
  have o: "db_origins opened_hub = []" by (simp add: opened_hub_def example_hub_def empty_db_def)
  show ?thesis
    by (simp add: require_binding_def Let_def plain_options_def get_topic_def topic_record_of_def t f o example_topic_def example_input_def
      snapshot_session_def session_of_def opened_hub_sel first_session_def new_session_def retained_def require_codex_selection_def
      check_def require_admission_def origin_of_def)
qed

lemma arrived_hub_jobs: "db_jobs arrived_hub = [new_job ''new'' 1 (plain_options None) example_input first_session 9]"
proof -
  have "db_inputs opened_hub = []" "ss_provider_session_id first_session = None" "next_in_topic opened_hub 1 = 1" "counted opened_hub"
    by (simp_all add: opened_hub_def example_hub_def empty_db_def next_in_topic_def counted_def first_session_def new_session_def)
  then obtain db' where "enqueue_provider_job example_env (plain_options None) example_input 8 9 opened_hub =
      (Inr (new_job ''new'' 1 (plain_options None) example_input first_session 9, True), db')" and c: "counted opened_hub"
    using first_admission [OF opened_hub_sel(2,5) _ _ _ opened_binding] by blast
  then show ?thesis using admitted_effect by (simp add: arrived_hub_def opened_hub_sel)
qed



end
