(* ===== verification/Spec2Isabelle.thy ===== *)
theory Spec2Isabelle
  imports Bridge_Sequence Bridge_Write Job_Queries Stop_State Progress_Properties Commit_Properties
    Blocker_Properties Notice_Truth Hub_Runs
begin

text \<open>
  Agents Projects Hub: the durable core of the router between Telegram topics and coding agents
  (\<open>src/src/hermes_codex_router\<close>).

  The program. Messages of a Telegram topic become provider jobs of a queue in an SQLite database. Workers
  lease the jobs, run a turn of an agent (Codex, Claude) in the topic's execution root, and commit its
  result; senders deliver the result and the progress to Telegram with at most one send per confirmed
  rejection. The owner may stop work, move a session to a local writer, bind worktree lanes, adopt
  sessions that were started elsewhere, and decide about held work. All of these meet in one database,
  whose access is wrapped in facades (\<open>state.py\<close> and the modules \<open>state_*.py\<close> beside it). The facades are
  modelled here, with the predicates and rows they share, and the pure codecs beside them. The processes
  around them (the service loop, the workers, the Telegram and app-server transports) only call them.

  How the model corresponds to the code.

    \<^item> Every table is a list of rows, a row a record with the columns of the table, and the database one
      record of tables, \<open>db\<close> of \<open>Hub_Tables\<close>. A query without \<open>ORDER BY\<close> reads the rows in the order of
      insertion; a NULL is \<open>None\<close>, and a comparison with it is false. The constraints a statement can
      violate are conditions of the insert or update (\<open>put_lanes\<close>, \<open>put_sessions\<close>, \<open>insert_part\<close>,
      \<open>put_ticket\<close>, \<dots>), whose failure is \<open>Integrity_error\<close>; triggers that raise are such conditions too.
    \<^item> A method that opens a transaction is \<open>transact\<close> of its body, a function from the database to an error
      or a value with the new database: an error rolls back. A method that reads after its commit is
      \<open>commit_then\<close>. \<open>attempt\<close> and \<open>check\<close> of \<open>Hub_Prelude\<close> are the sequence of statements that may raise.
      Every \<open>raise\<close> is a value \<open>Inl\<close>, with the message of the code.
    \<^item> Times are integers in microseconds: the text order of the timestamps the code writes is their order.
      The clock readings, the fresh identifiers and the digests are arguments. A second reading of the clock
      within a method is a second argument (\<open>moved\<close>, \<open>clock\<close>).
    \<^item> Texts are Isabelle strings, with the code points below 256; lengths count characters, as Python and
      SQLite do. JSON texts that are only compared are the lists they encode.
    \<^item> Enumerations are datatypes, Python integers are \<open>int\<close>, the bytes of the bridge are 8-bit words.
    \<^item> Parameters stand for what the code does not define itself: \<open>digest\<close> and \<open>dg\<close> (SHA-256), \<open>profile\<close>
      (the configured permission profile of a session, or the refusal to select one), \<open>wording\<close> and
      \<open>stop_wording\<close> (the texts of notices that are shown and never read again), \<open>ids\<close> (new identifiers by
      event), \<open>icon\<close> (the sign that opens the text of a document), \<open>clean\<close> (the removal of files of
      materials), \<open>resolve\<close> (the real path of a root), the digests of the two snapshots of a consent, and
      \<open>claude\<close> (whether a notice about Claude is still true). The percentage of a context is a number of
      hundredths instead of a float.

  The theories, in the order of the code.

    \<^item> \<open>Hub_Prelude\<close>: transactions, sequencing, updates of tables, \<open>bounded\<close> texts and the trimming of
      \<open>str.strip\<close>; \<open>Send_Once\<close>: the locale of a ledger of sends.
    \<^item> \<open>Bridge_Protocol\<close>, \<open>Bridge_Sequence\<close>, \<open>Bridge_Write\<close> (\<open>review_bridge_protocol.py\<close>,
      \<open>review_bridge_sequence.py\<close>, \<open>review_bridge_write_buffer.py\<close>): the frames of the review bridge, the
      incremental decoder, the monitor of the order and the output buffer.
    \<^item> \<open>Hub_Tables\<close> (\<open>state_values.py\<close>, \<open>state_errors.py\<close>, \<open>migrations.py\<close>, \<open>schema_*.py\<close>): rows and errors;
      \<open>Control_Predicates\<close> (\<open>codex_control_predicates.py\<close>, \<open>delivery_*_predicates.py\<close>, \<open>stop_coverage.py\<close>):
      the SQL fragments the queries share; \<open>Queue_Capacity\<close>, \<open>Queue_Visibility\<close>, \<open>Task_Notices\<close>,
      \<open>Claude_Corrections\<close> (\<open>provider_queue_capacity.py\<close>, \<open>queue_visibility.py\<close>, \<open>task_lifecycle.py\<close>,
      \<open>claude_correction_state.py\<close>): what the queue tells and how a follow-up joins a running turn.
    \<^item> \<open>Provider_Jobs\<close> and \<open>Job_Queries\<close> (\<open>state_provider_jobs.py\<close>): the queue itself. \<open>Job_Lifecycle\<close> and
      \<open>Job_Machine\<close> prove what each operation does to the rows and to the roots, \<open>Job_Properties\<close> the
      properties of the queue.
    \<^item> \<open>Stop_State\<close> (\<open>state_stop.py\<close>), \<open>Root_Blockers\<close> with \<open>Blocker_Properties\<close> (\<open>root_blockers.py\<close>),
      \<open>Session_State\<close> with \<open>Session_Properties\<close> (\<open>state_sessions.py\<close>), \<open>Topic_Lanes\<close> and \<open>Session_Adoption\<close>
      with \<open>Lane_Properties\<close>, \<open>Lane_Agreement\<close> and \<open>Adoption_Properties\<close> (\<open>state_lanes.py\<close>, the topics of
      \<open>state.py\<close>, \<open>session_adoption_state.py\<close>): who may work in a root.
    \<^item> \<open>Incoming_Materials\<close> and \<open>Provider_Admission\<close> with \<open>Material_Properties\<close> and \<open>Admission_Properties\<close>
      (\<open>state_incoming_materials.py\<close>, \<open>provider_admission_state.py\<close>): how an input becomes a job.
    \<^item> \<open>Job_Commit\<close>, \<open>Failure_Notice\<close> and \<open>Preexecution_Retry\<close> with \<open>Commit_Properties\<close>,
      \<open>Failure_Properties\<close>, \<open>Failure_Calm\<close> and \<open>Retry_Properties\<close> (\<open>state.py\<close>,
      \<open>preexecution_retry_state.py\<close>): how an execution ends; \<open>Telegram_Multipart\<close> (\<open>telegram_multipart.py\<close>):
      how its text is cut into messages.
    \<^item> \<open>Turn_Continuation\<close> with \<open>Continuation_Properties\<close> (\<open>turn_continuation_state.py\<close>): how the owner goes
      on after a turn that was lost with an error.
    \<^item> \<open>Delivery_Receipts\<close>, \<open>Delivery_State\<close>, \<open>Progress_State\<close> with \<open>Delivery_Machine\<close>, \<open>Delivery_Properties\<close>
      and \<open>Progress_Properties\<close> (\<open>delivery_receipts.py\<close>, \<open>state_delivery.py\<close>, \<open>delivery_wait.py\<close>): the
      delivery of finals, parts and progress; \<open>Delivery_Consent\<close> with \<open>Consent_Properties\<close>
      (\<open>delivery_hold_state.py\<close>, \<open>delivery_control_state.py\<close>): the owner's consent to a delivery that cannot
      be confirmed.
    \<^item> \<open>Task_Activity\<close> (\<open>task_activity.py\<close>, \<open>task_activity_binding.py\<close>, \<open>approval_observations.py\<close>) and
      \<open>Early_Approvals\<close> (\<open>preacceptance_approvals.py\<close>, \<open>preacceptance_binding.py\<close>, \<open>worker_activity.py\<close>) with
      \<open>Approval_Properties\<close>, \<open>Approval_Frame\<close> and \<open>Notice_Truth\<close>: what is observed of a running turn, of its
      approvals and of its lack of progress, and what the owner is told of it.
    \<^item> \<open>Hub_Machine\<close> and \<open>Hub_Runs\<close>: the components together.

  What the lemmas show.

    \<^item> The runs of the hub (\<open>reached\<close> of \<open>Hub_Runs\<close>) interleave the operations of all components in any order,
      with a clock that does not run backwards. The locale \<open>hub_component\<close> is the contract of a component: it
      keeps \<open>hub_ok\<close>; every component is an interpretation of it and so is their union. From it follow that
      an execution root has one owner, that the session table never clashes with its indexes, and that the
      rows of the queue keep their constraints.
    \<^item> Each operation that decides something has its outcome proved on every branch, errors included
      (\<open>\<dots>_outcome\<close>), and the queries that say the same in SQL and in Python are proved equal.
    \<^item> Sends are at most once per recorded rejection (\<open>Send_Once.ledger\<close> is interpreted on the notices, the
      parts of a final and the progress), and the delivery refines an abstract protocol of its phases.
    \<^item> A continuation is admitted once, at a quiet root, and the scheduler may then start it at once. The
      observations of turns stay bounded and coherent in every run of their operations (\<open>observed_run\<close>), a
      notice about an approval or a lack of progress is true when its send begins, and the observation
      never touches the queue.
    \<^item> The codecs are proved inverse to each other and insensitive to how the bytes arrive; the splitter is
      proved to return whenever the open tags leave room, and to hang on texts whose tags fill a message.

  Bounds and fuel. The decoder, the splitter's recursion over the tags and the pages of receipts recurse on
  structure or with a proved measure. The splitter's loop over one piece of text may run forever, so it is
  \<open>partial_function (option)\<close>, \<open>None\<close> being no return; \<open>split_returns\<close> gives the condition under which it
  returns and \<open>filling_tag_hangs\<close> that it does not otherwise, and the commits that use it are options too.
  The walk over the retries a job came from takes at most 64 steps, as in the code. A job has at most 512
  entries and early requests, a scope at most 128 requests, as in the code.

  What is assumed. The identifiers drawn for new sessions are fresh (\<open>fresh_for\<close>). The adoption of a session
  and the change of a topic's scope assume the keys and references SQLite enforces (\<open>keyed\<close>), and that a
  topic an old version left without a root is vacant when it is first given one: \<open>session_connect.py\<close>
  observes a topic without a root, and \<open>may_settle\<close> says that nothing works there then.

  Not modelled. The service loop and its commands (\<open>service.py\<close>, \<open>controller_*.py\<close>, \<open>cli.py\<close>), the workers
  (\<open>worker_*.py\<close>, \<open>external_*.py\<close>), the Telegram client, the app-server client and the Claude runtime are
  orchestration of processes, sockets and files around the facades. Onboarding, configuration and release
  tooling are file-system workflows. The migrations are read for the columns and constraints only. Of
  \<open>state.py\<close> the methods that delegate are covered by what they delegate to; its counters, alerts and
  offsets, and the facade of runtime health, are left out. The events of a turn are given: their parsing from
  the app server's messages (\<open>codex_activity.py\<close>) is not modelled.
\<close>

end
